(* ===== verification/Tdnf_Prelude.thy ===== *)
theory Tdnf_Prelude
  imports Main "HOL-Library.Char_ord" "HOL-Library.List_Lexorder" "HOL-Library.Sublist"
begin

text \<open>
  Shared vocabulary of the development: the error codes of \<^verbatim>\<open>include/tdnferror.h\<close>, results of
  fallible C functions as sums, the character classes and the string searches of the C library
  (in the C locale), and generic lemmas on lists that several components use.

  A C string is a \<open>string\<close> without the terminating NUL; a \<^verbatim>\<open>char *\<close> that may be NULL is a
  \<open>string option\<close>; a NULL terminated \<^verbatim>\<open>char **\<close> is a \<open>string list\<close>. Out parameters
  are results, so their NULL checks have no counterpart. The allocator is assumed to succeed on the
  requests that reach it; the size checks that tdnf itself makes before allocating are modelled.
\<close>

named_theorems tdnf_defs \<open>definitions that component proofs unfold\<close>
named_theorems cstring_simps \<open>rewrite rules for the C string scanners\<close>

section \<open>Error codes\<close>

type_synonym errcode = nat
type_synonym 'a result = "errcode + 'a"

abbreviation (input) ERROR_TDNF_REPO_NOT_FOUND :: errcode where
  "ERROR_TDNF_REPO_NOT_FOUND \<equiv> 1009"
abbreviation (input) ERROR_TDNF_NO_REPOS :: errcode where
  "ERROR_TDNF_NO_REPOS \<equiv> 1008"
abbreviation (input) ERROR_TDNF_INVALID_ALLOCSIZE :: errcode where
  "ERROR_TDNF_INVALID_ALLOCSIZE \<equiv> 1024"
abbreviation (input) ERROR_TDNF_STRING_TOO_LONG :: errcode where
  "ERROR_TDNF_STRING_TOO_LONG \<equiv> 1025"
abbreviation (input) ERROR_TDNF_METADATA_EXPIRE_PARSE :: errcode where
  "ERROR_TDNF_METADATA_EXPIRE_PARSE \<equiv> 1029"
abbreviation (input) ERROR_TDNF_INVALID_INPUT :: errcode where
  "ERROR_TDNF_INVALID_INPUT \<equiv> 1033"
abbreviation (input) ERROR_TDNF_CURL_BASE :: errcode where
  "ERROR_TDNF_CURL_BASE \<equiv> 1201"
abbreviation (input) ERROR_TDNF_CURL_END :: errcode where
  "ERROR_TDNF_CURL_END \<equiv> 1299"
abbreviation (input) ERROR_TDNF_SETOPT_NO_EQUALS :: errcode where
  "ERROR_TDNF_SETOPT_NO_EQUALS \<equiv> 1516"
abbreviation (input) ERROR_TDNF_OPT_NOT_FOUND :: errcode where
  "ERROR_TDNF_OPT_NOT_FOUND \<equiv> 1520"
abbreviation (input) ERROR_TDNF_URL_INVALID :: errcode where
  "ERROR_TDNF_URL_INVALID \<equiv> 1524"
abbreviation (input) ERROR_TDNF_EVENT_CTXT_ITEM_NOT_FOUND :: errcode where
  "ERROR_TDNF_EVENT_CTXT_ITEM_NOT_FOUND \<equiv> 1551"
abbreviation (input) ERROR_TDNF_EVENT_CTXT_ITEM_INVALID_TYPE :: errcode where
  "ERROR_TDNF_EVENT_CTXT_ITEM_INVALID_TYPE \<equiv> 1552"
abbreviation (input) ERROR_TDNF_SYSTEM_BASE :: errcode where
  "ERROR_TDNF_SYSTEM_BASE \<equiv> 1600"
abbreviation (input) ENOENT :: nat where "ENOENT \<equiv> 2"
abbreviation (input) EACCES :: nat where "EACCES \<equiv> 13"
abbreviation (input) EEXIST :: nat where "EEXIST \<equiv> 17"
abbreviation (input) EINVAL :: nat where "EINVAL \<equiv> 22"
abbreviation (input) ERROR_TDNF_INVALID_PARAMETER :: errcode where
  "ERROR_TDNF_INVALID_PARAMETER \<equiv> ERROR_TDNF_SYSTEM_BASE + EINVAL"
abbreviation (input) ERROR_TDNF_ALREADY_EXISTS :: errcode where
  "ERROR_TDNF_ALREADY_EXISTS \<equiv> ERROR_TDNF_SYSTEM_BASE + EEXIST"
abbreviation (input) ERROR_TDNF_CHECKSUM_VALIDATION_FAILED :: errcode where
  "ERROR_TDNF_CHECKSUM_VALIDATION_FAILED \<equiv> 2501"

text \<open>\<^verbatim>\<open>TDNF_DEFAULT_MAX_STRING_LEN\<close> of \<^verbatim>\<open>client/defines.h\<close>.\<close>

definition TDNF_DEFAULT_MAX_STRING_LEN :: nat where
  "TDNF_DEFAULT_MAX_STRING_LEN = 16384000"

text \<open>The directory of the \<^verbatim>\<open>.repo\<close> files, from \<^verbatim>\<open>common/config.h\<close>.\<close>

definition TDNF_DEFAULT_REPO_LOCATION :: string where
  "TDNF_DEFAULT_REPO_LOCATION = ''/etc/yum.repos.d''"

text \<open>\<^verbatim>\<open>IsNullOrEmptyString\<close> of \<^verbatim>\<open>include/tdnf-common-defines.h\<close>.\<close>

definition IsNullOrEmptyString :: "string option \<Rightarrow> bool" where
  "IsNullOrEmptyString s = (case s of None \<Rightarrow> True | Some t \<Rightarrow> t = [])"

lemma IsNullOrEmptyString_simps [simp]:
  "IsNullOrEmptyString None" "IsNullOrEmptyString (Some t) \<longleftrightarrow> t = []"
  by (simp_all add: IsNullOrEmptyString_def)

text \<open>Sequencing of fallible steps: the \<^verbatim>\<open>BAIL_ON_TDNF_ERROR\<close> after a call.\<close>

definition bail :: "'a result \<Rightarrow> ('a \<Rightarrow> 'b result) \<Rightarrow> 'b result" where
  "bail m f = (case m of Inl e \<Rightarrow> Inl e | Inr x \<Rightarrow> f x)"

lemma bail_simps [simp]: "bail (Inl e) f = Inl e" "bail (Inr x) f = f x"
  by (simp_all add: bail_def)

lemma bail_Inr_iff: "bail m f = Inr y \<longleftrightarrow> (\<exists>x. m = Inr x \<and> f x = Inr y)"
  by (cases m) auto

section \<open>The memory wrappers (\<^verbatim>\<open>common/memory.c\<close>)\<close>

text \<open>
  \<^verbatim>\<open>SIZE_MAX\<close> of a 64-bit platform. \<open>calloc_ok\<close> says whether the C library can serve a request
  of that many bytes.
\<close>

abbreviation (input) SIZE_MAX :: nat where "SIZE_MAX \<equiv> 2 ^ 64 - 1"

definition TDNFAllocateMemory :: "(nat \<Rightarrow> bool) \<Rightarrow> nat \<Rightarrow> nat \<Rightarrow> nat result" where
  "TDNFAllocateMemory calloc_ok nNumElements nSize =
     (if nSize = 0 \<or> nNumElements = 0 then Inl ERROR_TDNF_INVALID_PARAMETER
      else if nNumElements > SIZE_MAX div nSize then Inl ERROR_TDNF_INVALID_ALLOCSIZE
      else if \<not> calloc_ok (nNumElements * nSize) then Inl (ERROR_TDNF_SYSTEM_BASE + 12)
      else Inr (nNumElements * nSize))"

text \<open>The block handed out is as large as the caller asked for: the product cannot wrap.\<close>

lemma AllocateMemory_no_wrap:
  assumes "TDNFAllocateMemory ok n sz = Inr b"
  shows "b = n * sz \<and> 0 < b \<and> b \<le> SIZE_MAX"
proof -
  from assms have "0 < sz" "0 < n" and q: "n \<le> SIZE_MAX div sz" and b: "b = n * sz"
    by (auto simp: TDNFAllocateMemory_def split: if_splits)
  have "n * sz \<le> (SIZE_MAX div sz) * sz" using q by (rule mult_le_mono1)
  also have "\<dots> \<le> SIZE_MAX" by (rule div_times_less_eq_dividend)
  finally show ?thesis using b \<open>0 < sz\<close> \<open>0 < n\<close> by simp
qed

section \<open>Characters and string searches of the C library\<close>

definition c_isspace :: "char \<Rightarrow> bool" where
  "c_isspace c \<longleftrightarrow> c = CHR '' '' \<or> (9 \<le> (of_char c :: nat) \<and> (of_char c :: nat) \<le> 13)"

definition c_isdigit :: "char \<Rightarrow> bool" where
  "c_isdigit c \<longleftrightarrow> 48 \<le> (of_char c :: nat) \<and> (of_char c :: nat) \<le> 57"

definition c_islower :: "char \<Rightarrow> bool" where
  "c_islower c \<longleftrightarrow> 97 \<le> (of_char c :: nat) \<and> (of_char c :: nat) \<le> 122"

definition c_isupper :: "char \<Rightarrow> bool" where
  "c_isupper c \<longleftrightarrow> 65 \<le> (of_char c :: nat) \<and> (of_char c :: nat) \<le> 90"

definition c_tolower :: "char \<Rightarrow> char" where
  "c_tolower c = (if c_isupper c then char_of ((of_char c :: nat) + 32) else c)"

definition c_isxdigit :: "char \<Rightarrow> bool" where
  "c_isxdigit c \<longleftrightarrow> c_isdigit c
     \<or> (65 \<le> (of_char c :: nat) \<and> (of_char c :: nat) \<le> 70)
     \<or> (97 \<le> (of_char c :: nat) \<and> (of_char c :: nat) \<le> 102)"

definition strcaseeq :: "string \<Rightarrow> string \<Rightarrow> bool" where
  "strcaseeq s t \<longleftrightarrow> map c_tolower s = map c_tolower t"

text \<open>\<open>strncasecmp(s, t, strlen(t)) == 0\<close>\<close>

definition strcaseprefix :: "string \<Rightarrow> string \<Rightarrow> bool" where
  "strcaseprefix t s \<longleftrightarrow> length t \<le> length s \<and> map c_tolower (take (length t) s) = map c_tolower t"

lemmas char_eval = c_tolower_def c_isupper_def char_of_def bit_0

text \<open>\<open>strstr\<close>: the offset of the first occurrence.\<close>

fun strstr :: "string \<Rightarrow> string \<Rightarrow> nat option" where
  "strstr [] n = (if n = [] then Some 0 else None)"
| "strstr (c # h) n = (if prefix n (c # h) then Some 0 else map_option Suc (strstr h n))"

text \<open>\<open>strchr\<close>: the suffix that starts at the first occurrence of a character other than NUL.\<close>

definition strchr :: "string \<Rightarrow> char \<Rightarrow> string option" where
  "strchr s c = (let r = dropWhile (\<lambda>x. x \<noteq> c) s in if r = [] then None else Some r)"

lemma strchr_None_iff: "strchr s c = None \<longleftrightarrow> c \<notin> set s"
  by (induction s) (auto simp: strchr_def Let_def)

lemma strchr_Some_hd: "strchr s c = Some r \<Longrightarrow> \<exists>t. r = c # t"
  by (induction s) (auto simp: strchr_def Let_def split: if_splits)

lemma strchr_Some_suffix: "strchr s c = Some r \<Longrightarrow> suffix r s"
  by (auto simp: strchr_def Let_def suffix_dropWhile split: if_splits)

text \<open>Correctness of the search: found means split there, absent means no occurrence.\<close>

lemma strstr_Some:
  "strstr h n = Some i \<Longrightarrow> \<exists>t. h = take i h @ n @ t \<and> i \<le> length h"
proof (induction h n arbitrary: i rule: strstr.induct)
  case (1 n)
  then show ?case by (auto split: if_splits)
next
  case (2 c h n)
  show ?case
  proof (cases "prefix n (c # h)")
    case True
    with "2.prems" have "i = 0" by simp
    with True show ?thesis by (auto simp: prefix_def)
  next
    case False
    with "2.prems" obtain j where j: "strstr h n = Some j" "i = Suc j" by auto
    from "2.IH" [OF False j(1)] obtain t where "h = take j h @ n @ t" "j \<le> length h" by blast
    with j(2) show ?thesis by auto
  qed
qed

lemma strstr_None: "strstr h n = None \<longleftrightarrow> \<not> sublist n h"
proof (induction h n rule: strstr.induct)
  case (1 n)
  then show ?case by simp
next
  case (2 c h n)
  then show ?case
    by (cases "prefix n (c # h)") (auto simp: sublist_Cons_right)
qed

lemma strstr_first:
  "strstr h n = Some i \<Longrightarrow> j < i \<Longrightarrow> \<not> prefix n (drop j h)"
proof (induction h n arbitrary: i j rule: strstr.induct)
  case (1 n)
  then show ?case by (auto split: if_splits)
next
  case (2 c h n)
  then show ?case
    by (cases j) (auto split: if_splits)
qed

section \<open>Lists\<close>

lemma length_dropWhile_less:
  "xs \<noteq> [] \<Longrightarrow> P (hd xs) \<Longrightarrow> length (dropWhile P xs) < length xs"
  by (cases xs) (auto simp: le_imp_less_Suc length_dropWhile_le)

lemma hd_dropWhile_not: "dropWhile P xs \<noteq> [] \<Longrightarrow> \<not> P (hd (dropWhile P xs))"
  by (rule hd_dropWhile)

lemma takeWhile_nonempty: "xs \<noteq> [] \<Longrightarrow> P (hd xs) \<Longrightarrow> takeWhile P xs \<noteq> []"
  by (cases xs) auto

text \<open>Joining with a separator, the specification of the string joiners.\<close>

fun intercalate :: "'a list \<Rightarrow> 'a list list \<Rightarrow> 'a list" where
  "intercalate sep [] = []"
| "intercalate sep [x] = x"
| "intercalate sep (x # y # xs) = x @ sep @ intercalate sep (y # xs)"

lemma intercalate_Cons:
  "intercalate sep (x # xs) = x @ (if xs = [] then [] else sep @ intercalate sep xs)"
  by (cases xs) simp_all

lemma length_intercalate_le:
  "length (intercalate sep xs) \<le> length sep * length xs + sum_list (map length xs)"
  by (induction sep xs rule: intercalate.induct) simp_all

text \<open>Association lists read at the first match, the shape of the linked lists of tdnf.\<close>

lemma map_of_append_None: "map_of xs k = None \<Longrightarrow> map_of (xs @ ys) k = map_of ys k"
  by (simp add: map_add_def)

text \<open>
  The interface of a keyed store: an operation that puts a value under a key and one that gets
  it. The option list, the event context and the auto flags of the history database all provide
  it; the client facts are proved once from the laws.
\<close>

locale kv_store =
  fixes ok :: "'s \<Rightarrow> bool"
    and okv :: "'k \<Rightarrow> 'v \<Rightarrow> bool"
    and put :: "'k \<Rightarrow> 'v \<Rightarrow> 's \<Rightarrow> 's"
    and get :: "'s \<Rightarrow> 'k \<Rightarrow> 'v option"
  assumes put_ok: "\<And>s k v. ok s \<Longrightarrow> okv k v \<Longrightarrow> ok (put k v s)"
    and get_put_same: "\<And>s k v. ok s \<Longrightarrow> okv k v \<Longrightarrow> get (put k v s) k = Some v"
    and get_put_other: "\<And>s k v l. ok s \<Longrightarrow> okv k v \<Longrightarrow> l \<noteq> k \<Longrightarrow> get (put k v s) l = get s l"
begin

definition puts :: "('k \<times> 'v) list \<Rightarrow> 's \<Rightarrow> 's" where
  "puts kvs s = fold (\<lambda>(k, v). put k v) kvs s"

lemma puts_simps:
  "puts [] s = s" "puts ((k, v) # kvs) s = puts kvs (put k v s)"
  by (simp_all add: puts_def)

lemma puts_ok: "ok s \<Longrightarrow> list_all (\<lambda>(k, v). okv k v) kvs \<Longrightarrow> ok (puts kvs s)"
  by (induction kvs arbitrary: s) (auto simp: puts_simps put_ok)

lemma get_puts:
  assumes "ok s" and "list_all (\<lambda>(k, v). okv k v) kvs"
  shows "get (puts kvs s) l = (case map_of (rev kvs) l of Some v \<Rightarrow> Some v | None \<Rightarrow> get s l)"
  using assms
proof (induction kvs arbitrary: s)
  case Nil
  then show ?case by (simp add: puts_simps)
next
  case (Cons kv kvs)
  obtain k v where kv: "kv = (k, v)" by (cases kv)
  from Cons.prems kv have "ok s" "okv k v" and rest: "list_all (\<lambda>(k, v). okv k v) kvs" by auto
  then have "ok (put k v s)" by (simp add: put_ok)
  from Cons.IH [OF this rest] show ?case
    using \<open>ok s\<close> \<open>okv k v\<close>
    by (cases "l = k")
      (auto simp: kv puts_simps get_put_same get_put_other map_add_def split: option.splits)
qed

lemma put_idem: "ok s \<Longrightarrow> okv k v \<Longrightarrow> okv k w \<Longrightarrow> get (put k w (put k v s)) l = get (put k w s) l"
  by (cases "l = k") (simp_all add: get_put_same get_put_other put_ok)

lemma put_commute:
  "ok s \<Longrightarrow> okv k v \<Longrightarrow> okv l w \<Longrightarrow> k \<noteq> l \<Longrightarrow>
    get (put k v (put l w s)) m = get (put l w (put k v s)) m"
  by (cases "m = k"; cases "m = l") (simp_all add: get_put_same get_put_other put_ok)

end

end
