(* ===== verification/Conf_Nodes.thy ===== *)
theory Conf_Nodes
  imports Tdnf_Prelude
begin

text \<open>
  The configuration trees of llconf (\<^verbatim>\<open>llconf/nodes.c\<close>) and its scanners (\<^verbatim>\<open>llconf/strutils.c\<close>).
  A node is its name, its value and the list of its children; the links to the next sibling and to
  the parent are what these lists say. A pointer into a list of siblings is a position. The scanners
  get the text still to be read and return what they copied with the text that is left.
\<close>

section \<open>Nodes\<close>

datatype cnfnode = Cnf (cn_name: string) (cn_value: "string option") (first_child: "cnfnode list")

definition create_cnfnode :: "string \<Rightarrow> cnfnode" where
  "create_cnfnode name = Cnf name None []"

definition cnfnode_setval :: "cnfnode \<Rightarrow> string option \<Rightarrow> cnfnode" where
  "cnfnode_setval cn value = Cnf (cn_name cn) value (first_child cn)"

definition append_node :: "cnfnode \<Rightarrow> cnfnode \<Rightarrow> cnfnode" where
  "append_node cn_parent cn = Cnf (cn_name cn_parent) (cn_value cn_parent) (first_child cn_parent @ [cn])"

text \<open>\<open>before\<close> and \<open>i\<close> are positions among the children of the parent.\<close>

definition insert_node_before :: "cnfnode \<Rightarrow> nat \<Rightarrow> cnfnode \<Rightarrow> cnfnode" where
  "insert_node_before cn_parent before cn = (case cn_parent of Cnf name val cs \<Rightarrow>
     Cnf name val (take before cs @ cn # drop before cs))"

definition unlink_node :: "cnfnode \<Rightarrow> nat \<Rightarrow> cnfnode" where
  "unlink_node cn_parent i = (case cn_parent of Cnf name val cs \<Rightarrow>
     Cnf name val (take i cs @ drop (Suc i) cs))"

fun find_node :: "cnfnode list \<Rightarrow> string \<Rightarrow> nat option" where
  "find_node [] name = None"
| "find_node (cn # cns) name = (if cn_name cn = name then Some 0 else map_option Suc (find_node cns name))"

definition find_child :: "cnfnode \<Rightarrow> string \<Rightarrow> nat option" where
  "find_child cn_parent name = find_node (first_child cn_parent) name"

definition clone_cnfnode :: "cnfnode \<Rightarrow> cnfnode" where
  "clone_cnfnode cn = Cnf (cn_name cn) (cn_value cn) []"

fun clone_cnftree :: "cnfnode \<Rightarrow> cnfnode" where
  "clone_cnftree (Cnf name val cs) =
     fold (\<lambda>cn root. append_node root (clone_cnftree cn)) cs (clone_cnfnode (Cnf name val cs))"

section \<open>Comparing\<close>

text \<open>The sign of \<^verbatim>\<open>strcmp\<close>, and its variant for missing strings.\<close>

definition strcmp :: "string \<Rightarrow> string \<Rightarrow> int" where
  "strcmp s t = (if s = t then 0 else if s < t then - 1 else 1)"

definition strcmp_null :: "string option \<Rightarrow> string option \<Rightarrow> int" where
  "strcmp_null s1 s2 = (case (s1, s2) of
     (Some s, Some t) \<Rightarrow> strcmp s t | (None, Some t) \<Rightarrow> - 1 | (Some s, None) \<Rightarrow> 1 | (None, None) \<Rightarrow> 0)"

definition compare_cnfnode :: "cnfnode \<Rightarrow> cnfnode \<Rightarrow> int" where
  "compare_cnfnode cn1 cn2 =
     (let ret = strcmp (cn_name cn1) (cn_name cn2) in
      if ret \<noteq> 0 then (if ret > 0 then 2 else - 2)
      else let ret = strcmp_null (cn_value cn1) (cn_value cn2) in
      if ret \<noteq> 0 then (if ret > 0 then 1 else - 1) else 0)"

fun compare_trees :: "cnfnode \<Rightarrow> cnfnode \<Rightarrow> int"
  and compare_siblings :: "cnfnode list \<Rightarrow> cnfnode list \<Rightarrow> int" where
  "compare_trees (Cnf name1 val1 cs1) (Cnf name2 val2 cs2) =
     (let ret = compare_cnfnode (Cnf name1 val1 cs1) (Cnf name2 val2 cs2) in
      if ret \<noteq> 0 then ret else compare_siblings cs1 cs2)"
| "compare_siblings [] [] = 0"
| "compare_siblings [] (cn2 # cns2) = - 3"
| "compare_siblings (cn1 # cns1) [] = 3"
| "compare_siblings (cn1 # cns1) (cn2 # cns2) =
     (let ret = compare_trees cn1 cn2 in if ret \<noteq> 0 then ret else compare_siblings cns1 cns2)"

definition compare_cnftree :: "cnfnode option \<Rightarrow> cnfnode option \<Rightarrow> int" where
  "compare_cnftree cn1 cn2 = (case (cn1, cn2) of
     (Some t, Some u) \<Rightarrow> compare_trees t u
   | (None, None) \<Rightarrow> 0 | (None, Some u) \<Rightarrow> - 3 | (Some t, None) \<Rightarrow> 3)"

definition compare_cnftree_children :: "cnfnode option \<Rightarrow> cnfnode option \<Rightarrow> int" where
  "compare_cnftree_children cn1 cn2 = (case (cn1, cn2) of
     (Some t, Some u) \<Rightarrow> compare_siblings (first_child t) (first_child u)
   | (None, None) \<Rightarrow> 0 | (None, Some u) \<Rightarrow> - 3 | (Some t, None) \<Rightarrow> 3)"

lemma compare_cnfnode_0: "compare_cnfnode cn1 cn2 = 0 \<longleftrightarrow> cn_name cn1 = cn_name cn2 \<and> cn_value cn1 = cn_value cn2"
  by (auto simp: compare_cnfnode_def strcmp_def strcmp_null_def Let_def split: option.splits if_splits)

text \<open>Trees compare equal exactly when they are.\<close>

lemma compare_trees_0:
  "compare_trees t u = 0 \<longleftrightarrow> t = u"
  "compare_siblings ts us = 0 \<longleftrightarrow> ts = us"
  by (induction t u and ts us rule: compare_trees_compare_siblings.induct)
    (auto simp: Let_def compare_cnfnode_0)

text \<open>A clone is the tree it was made of.\<close>

lemma clone_siblings: "fold (\<lambda>cn root. append_node root cn) cs (Cnf name val ds) = Cnf name val (ds @ cs)"
  by (induction cs arbitrary: ds) (simp_all add: append_node_def)

lemma clone_cnftree_id: "clone_cnftree t = t"
proof (induction t)
  case (Cnf name val cs)
  then have "fold (\<lambda>cn root. append_node root (clone_cnftree cn)) cs r
      = fold (\<lambda>cn root. append_node root cn) cs r" for r
    by (rule_tac fold_cong) simp_all
  then show ?case by (simp add: clone_cnfnode_def clone_siblings)
qed

section \<open>Looking up, setting and removing children\<close>

lemma find_node_None: "find_node cns name = None \<longleftrightarrow> name \<notin> cn_name ` set cns"
  by (induction cns) auto

lemma find_node_Some:
  "find_node cns name = Some i \<longleftrightarrow>
     i < length cns \<and> cn_name (cns ! i) = name \<and> (\<forall>j < i. cn_name (cns ! j) \<noteq> name)"
proof (induction cns arbitrary: i)
  case (Cons cn cns)
  then show ?case by (cases i) (auto simp: All_less_Suc2)
qed simp

lemma find_node_append:
  "find_node (cns @ ds) name = (case find_node cns name of Some i \<Rightarrow> Some i
     | None \<Rightarrow> map_option (\<lambda>i. length cns + i) (find_node ds name))"
proof (induction cns)
  case Nil
  then show ?case by (cases "find_node ds name") simp_all
next
  case (Cons cn cns)
  then show ?case by (cases "find_node cns name"; cases "find_node ds name") simp_all
qed

lemma find_node_update:
  "i < length cns \<Longrightarrow> cn_name (cns ! i) = cn_name cn \<Longrightarrow> find_node (cns[i := cn]) name = find_node cns name"
proof (induction cns arbitrary: i)
  case (Cons c cns)
  then show ?case by (cases i) simp_all
qed simp

section \<open>Scanning\<close>

text \<open>
  \<open>scan n P s\<close> copies characters while they satisfy \<open>P\<close>, but at most \<open>n\<close>, the room of the buffer
  without the NUL: \<^verbatim>\<open>while(*p && P(*p) && q < buf+n) *q++ = *p++;\<close>
\<close>

definition scan :: "nat \<Rightarrow> (char \<Rightarrow> bool) \<Rightarrow> string \<Rightarrow> string \<times> string" where
  "scan n P s = (let w = take n (takeWhile P s) in (w, drop (length w) s))"

definition skip_spaces :: "string \<Rightarrow> string" where
  "skip_spaces s = dropWhile c_isspace s"

definition skip_word :: "string \<Rightarrow> string" where
  "skip_word s = dropWhile (\<lambda>c. \<not> c_isspace c) s"

definition dup_next_word_b :: "nat \<Rightarrow> string \<Rightarrow> string \<times> string" where
  "dup_next_word_b n s = scan n (\<lambda>c. \<not> c_isspace c) (skip_spaces s)"

definition dup_next_line_b :: "nat \<Rightarrow> string \<Rightarrow> string \<times> string" where
  "dup_next_line_b n s = scan n (\<lambda>c. c \<noteq> CHR 0x0A) s"

definition dup_line_until_b :: "char \<Rightarrow> nat \<Rightarrow> string \<Rightarrow> string \<times> string" where
  "dup_line_until_b until n s = scan n (\<lambda>c. c \<noteq> CHR 0x0A \<and> c \<noteq> until) s"

lemma scan_append: "fst (scan n P s) @ snd (scan n P s) = s"
proof -
  have "take n (takeWhile P s) = take (length (take n (takeWhile P s))) s"
    by (metis length_take min.commute take_take takeWhile_eq_take)
  then show ?thesis unfolding scan_def Let_def fst_conv snd_conv by (metis append_take_drop_id)
qed

lemma scan_all:
  assumes "list_all P w" and "length w \<le> n" and "r = [] \<or> \<not> P (hd r)"
  shows "scan n P (w @ r) = (w, r)"
proof -
  have "takeWhile P (w @ r) = w"
    using assms(1,3) by (cases r) (auto simp: list_all_iff takeWhile_append2)
  then show ?thesis using assms(2) by (simp add: scan_def)
qed

lemma scan_short:
  assumes "length s \<le> n"
  shows "scan n P s = (takeWhile P s, dropWhile P s)"
proof -
  have "length (takeWhile P s) \<le> n" using assms length_takeWhile_le le_trans by blast
  then show ?thesis by (simp add: scan_def dropWhile_eq_drop Let_def)
qed

end
