(* ===== verification/Conf_Ini.thy ===== *)
theory Conf_Ini
  imports Conf_Nodes
begin

text \<open>
  Reading and writing of INI files: \<^verbatim>\<open>llconf/lines.c\<close> and \<^verbatim>\<open>llconf/ini.c\<close>. A \<^verbatim>\<open>confline\<close> pointer is the
  list of the lines from there on, NULL is the empty list. The result \<open>None\<close> stands for a NULL pointer
  that is read through: the parser follows one when a file ends inside of a nested subsection, and the
  writer prints one when a node that has to have a value has none.
\<close>

section \<open>Lines\<close>

abbreviation (input) NL :: char where "NL \<equiv> CHR 0x0A"

text \<open>\<^verbatim>\<open>fgets\<close> with room for \<open>n\<close> characters; \<open>MAX_CONFLINE - 1\<close> leaves 1022.\<close>

definition fgets :: "nat \<Rightarrow> string \<Rightarrow> string \<times> string" where
  "fgets n s = (let w = takeWhile (\<lambda>c. c \<noteq> NL) s; line = take n (w @ take 1 (drop (length w) s))
                in (line, drop (length line) s))"

definition create_confline :: "string \<Rightarrow> string" where
  "create_confline line = takeWhile (\<lambda>c. c \<noteq> CHR 0x00) line"

lemma fgets_shorter: "s \<noteq> [] \<Longrightarrow> 0 < n \<Longrightarrow> fgets n s = (line, rest) \<Longrightarrow> length rest < length s"
  by (cases s) (auto simp: fgets_def Let_def take_Cons' split: if_splits)

function read_conflines :: "string \<Rightarrow> string list" where
  "read_conflines s = (if s = [] then []
     else case fgets 1022 s of (line, rest) \<Rightarrow> create_confline line # read_conflines rest)"
  by auto
termination
  by (relation "measure length") (auto intro: fgets_shorter [where n = 1022, OF _ _ sym])

declare read_conflines.simps [simp del]

section \<open>Parsing\<close>

definition starts :: "char \<Rightarrow> string \<Rightarrow> bool" where
  "starts c s \<longleftrightarrow> s \<noteq> [] \<and> hd s = c"

text \<open>A node for a line as it is: \<^verbatim>\<open>.empty\<close>, \<^verbatim>\<open>.comment\<close> and \<^verbatim>\<open>.unparsed\<close>.\<close>

definition line_node :: "string \<Rightarrow> string \<Rightarrow> cnfnode" where
  "line_node name line = cnfnode_setval (create_cnfnode name) (Some (fst (dup_next_line_b 1023 line)))"

definition scan_key :: "string \<Rightarrow> string \<times> string" where
  "scan_key p = scan 1023 (\<lambda>c. \<not> c_isspace c \<and> c \<noteq> CHR ''='') p"

definition trim_end :: "string \<Rightarrow> string" where
  "trim_end s = rev (dropWhile c_isspace (rev s))"

definition add_nodes :: "cnfnode list \<Rightarrow> (cnfnode list \<times> 'a) option \<Rightarrow> (cnfnode list \<times> 'a) option" where
  "add_nodes cns r = map_option (\<lambda>(cs, x). (cns @ cs, x)) r"

lemma add_nodes_simps [simp]:
  "add_nodes cns None = None" "add_nodes cns (Some (cs, x)) = Some (cns @ cs, x)"
  by (simp_all add: add_nodes_def)

lemma add_nodes_Some: "add_nodes cns r = Some (cs, x) \<longleftrightarrow> (\<exists>ds. r = Some (ds, x) \<and> cs = cns @ ds)"
  by (cases r) (auto simp: add_nodes_def)

text \<open>
  What one line of a subsection is: the closing brace, a node of its own, or the start of a nested
  subsection.
\<close>

datatype sub_line = SubClose | SubNode cnfnode | SubOpen string

definition classify_sub :: "char \<Rightarrow> string \<Rightarrow> sub_line" where
  "classify_sub cmt line =
     (let p = skip_spaces line in
      if starts (CHR ''}'') p then SubClose
      else if p = [] then SubNode (line_node ''.empty'' line)
      else if starts cmt p then SubNode (line_node ''.comment'' line)
      else case scan_key p of (key, r) \<Rightarrow>
        (if starts (CHR ''='') (skip_spaces r)
         then let v = skip_spaces (tl (skip_spaces r)) in
           if \<not> starts (CHR ''{'') v then SubNode (Cnf key (Some (trim_end (take 1023 v))) [])
           else if starts (CHR ''}'') (skip_spaces (tl v)) then SubNode (Cnf key None [])
           else SubOpen key
         else SubNode (line_node ''.unparsed'' line)))"

text \<open>
  The lines of a subsection, up to the closing brace: the nodes, and the line pointer at the brace.
  A nested subsection that reaches the end of the file returns NULL, which the \<^verbatim>\<open>for\<close> loop around the
  call then follows.
\<close>

function parse_ini_subsection :: "char \<Rightarrow> string list \<Rightarrow> (cnfnode list \<times> string list) option" where
  "parse_ini_subsection cmt [] = Some ([], [])"
| "parse_ini_subsection cmt (line # ls) =
     (case classify_sub cmt line of
        SubClose \<Rightarrow> Some ([], line # ls)
      | SubNode cn \<Rightarrow> add_nodes [cn] (parse_ini_subsection cmt ls)
      | SubOpen key \<Rightarrow>
          (case parse_ini_subsection cmt ls of
             None \<Rightarrow> None
           | Some (cs, cl) \<Rightarrow>
               if cl = [] then None
               else add_nodes [Cnf key None cs] (parse_ini_subsection cmt (tl cl))))"
  by pat_completeness auto

termination
proof -
  have dom_length: "parse_ini_subsection_dom (cmt, ls) \<Longrightarrow> parse_ini_subsection cmt ls = Some (cs, cl)
      \<Longrightarrow> length cl \<le> length ls" for cmt ls cs cl
  proof (induction cmt ls arbitrary: cs cl rule: parse_ini_subsection.pinduct)
    case (1 cmt)
    then show ?case by (simp add: parse_ini_subsection.psimps)
  next
    case (2 cmt line ls)
    show ?case
    proof (cases "classify_sub cmt line")
      case SubClose
      with 2 show ?thesis by (simp add: parse_ini_subsection.psimps)
    next
      case (SubNode cn)
      with 2 show ?thesis by (fastforce simp: parse_ini_subsection.psimps add_nodes_Some)
    next
      case (SubOpen key)
      with "2.prems" "2.hyps" obtain cs1 cl1 cs2 where
        r: "parse_ini_subsection cmt ls = Some (cs1, cl1)" "cl1 \<noteq> []"
          "parse_ini_subsection cmt (tl cl1) = Some (cs2, cl)"
        by (auto simp: parse_ini_subsection.psimps add_nodes_Some split: option.splits if_splits)
      from "2.IH"(2) [OF SubOpen r(1)] "2.IH"(3) [OF SubOpen r(1) refl r(2,3)] show ?thesis by simp
    qed
  qed
  show ?thesis
  proof (relation "measure (length \<circ> snd)")
    fix cmt line ls key p cs cl
    assume "parse_ini_subsection cmt ls = Some p" "(cs, cl) = p" "parse_ini_subsection_dom (cmt, ls)"
    then have "length cl \<le> length ls" by (metis dom_length)
    then show "((cmt, tl cl), (cmt, line # ls)) \<in> measure (length \<circ> snd)" by simp
  qed simp_all
qed

lemma parse_subsection_length: "parse_ini_subsection cmt ls = Some (cs, cl) \<Longrightarrow> length cl \<le> length ls"
proof (induction cmt ls arbitrary: cs cl rule: parse_ini_subsection.induct)
  case (2 cmt line ls)
  show ?case
  proof (cases "classify_sub cmt line")
    case SubClose
    with 2 show ?thesis by simp
  next
    case (SubNode cn)
    with 2 show ?thesis by (fastforce simp: add_nodes_Some)
  next
    case (SubOpen key)
    with "2.prems" obtain cs1 cl1 cs2 where
      r: "parse_ini_subsection cmt ls = Some (cs1, cl1)" "cl1 \<noteq> []"
        "parse_ini_subsection cmt (tl cl1) = Some (cs2, cl)"
      by (auto simp: add_nodes_Some split: option.splits if_splits)
    from "2.IH"(2) [OF SubOpen r(1)] "2.IH"(3) [OF SubOpen r(1) refl r(2,3)] show ?thesis by simp
  qed
qed simp

text \<open>
  What one line of a section is: the next header, a node of its own, an entry with the text behind
  its value, or the start of a subsection with the text from behind its brace.
\<close>

datatype section_line = NextSection | LineNode cnfnode | EntryNode cnfnode string | OpenNode string string

definition classify_section :: "char \<Rightarrow> string \<Rightarrow> section_line" where
  "classify_section cmt line =
     (let p = skip_spaces line in
      if p = [] then LineNode (Cnf ''.empty'' (Some []) [])
      else if starts (CHR ''['') p then NextSection
      else if starts cmt p then LineNode (line_node ''.comment'' line)
      else case scan_key p of (key, r) \<Rightarrow>
        (if starts (CHR ''='') (skip_spaces r)
         then let v = skip_spaces (tl (skip_spaces r)) in
           if \<not> starts (CHR ''{'') v
           then case dup_next_line_b 1023 v of (val, p) \<Rightarrow> EntryNode (Cnf key (Some val) []) p
           else let p = skip_spaces (tl v) in
             if starts (CHR ''}'') p then EntryNode (Cnf key None []) p else OpenNode key p
         else LineNode (line_node ''.unparsed'' line)))"

text \<open>
  Behind an entry a comment is looked for in the text that is left of its line; the node that is then
  made holds the line the line pointer is at, which after a subsection is its last one.
\<close>

definition trailing_comment :: "char \<Rightarrow> string \<Rightarrow> string list \<Rightarrow> cnfnode list option" where
  "trailing_comment cmt p cl =
     (if starts cmt (skip_spaces p)
      then (if cl = [] then None else Some [line_node ''.comment'' (hd cl)])
      else Some [])"

function parse_ini_section :: "char \<Rightarrow> string list \<Rightarrow> (cnfnode list \<times> string list) option" where
  "parse_ini_section cmt [] = Some ([], [])"
| "parse_ini_section cmt (line # ls) =
     (case classify_section cmt line of
        NextSection \<Rightarrow> Some ([], line # ls)
      | LineNode cn \<Rightarrow> add_nodes [cn] (parse_ini_section cmt ls)
      | EntryNode cn p \<Rightarrow>
          (case trailing_comment cmt p (line # ls) of
             None \<Rightarrow> None
           | Some comment \<Rightarrow> add_nodes (cn # comment) (parse_ini_section cmt ls))
      | OpenNode key p \<Rightarrow>
          (case parse_ini_subsection cmt ls of
             None \<Rightarrow> None
           | Some (cs, cl) \<Rightarrow>
               (case trailing_comment cmt p cl of
                  None \<Rightarrow> None
                | Some comment \<Rightarrow> add_nodes (Cnf key None cs # comment) (parse_ini_section cmt (tl cl)))))"
  by pat_completeness auto
termination
proof (relation "measure (length \<circ> snd)")
  fix cmt line ls key p q cs cl comment
  assume "parse_ini_subsection cmt ls = Some q" "(cs, cl) = q"
  then have "length cl \<le> length ls" by (metis parse_subsection_length)
  then show "((cmt, tl cl), (cmt, line # ls)) \<in> measure (length \<circ> snd)" by simp
qed simp_all

lemma parse_section_length: "parse_ini_section cmt ls = Some (cs, cl) \<Longrightarrow> length cl \<le> length ls"
proof (induction cmt ls arbitrary: cs cl rule: parse_ini_section.induct)
  case (2 cmt line ls)
  show ?case
  proof (cases "classify_section cmt line")
    case NextSection
    with 2 show ?thesis by simp
  next
    case (LineNode cn)
    with "2.prems" "2.IH"(1) show ?thesis by (fastforce simp: add_nodes_Some)
  next
    case (EntryNode cn p)
    with "2.prems" "2.IH"(2) show ?thesis by (fastforce simp: add_nodes_Some split: option.splits)
  next
    case (OpenNode key p)
    with "2.prems" obtain cs1 cl1 com ds where
      r: "parse_ini_subsection cmt ls = Some (cs1, cl1)" "trailing_comment cmt p cl1 = Some com"
        "parse_ini_section cmt (tl cl1) = Some (ds, cl)"
      by (auto simp: add_nodes_Some split: option.splits)
    from "2.IH"(3) [OF OpenNode r(1) refl r(2,3)] parse_subsection_length [OF r(1)] show ?thesis by simp
  qed
qed simp

text \<open>The top level: sections, and before the first of them nothing but comments.\<close>

definition section_name :: "string \<Rightarrow> string" where
  "section_name p = fst (scan 1023 (\<lambda>c. c \<noteq> CHR '']'') (skip_spaces (tl p)))"

function parse_top :: "char \<Rightarrow> string list \<Rightarrow> cnfnode list option" where
  "parse_top cmt [] = Some []"
| "parse_top cmt (line # ls) =
     (let p = skip_spaces line in
      if p = [] then map_option (Cons (Cnf ''.empty'' (Some []) [])) (parse_top cmt ls)
      else if starts (CHR ''['') p
      then (case parse_ini_section cmt ls of
              None \<Rightarrow> None
            | Some (cs, cl) \<Rightarrow> map_option (Cons (Cnf (section_name p) None cs)) (parse_top cmt cl))
      else map_option (Cons (line_node ''.comment'' line)) (parse_top cmt ls))"
  by pat_completeness auto
termination
  by (relation "measure (length \<circ> snd)") (auto simp: less_Suc_eq_le intro: parse_section_length)

text \<open>\<^verbatim>\<open>parse_ini_options\<close>: the last \<^verbatim>\<open>comment\<close> option decides; an empty one means NUL.\<close>

definition parse_ini_options :: "cnfnode option \<Rightarrow> char \<Rightarrow> char option" where
  "parse_ini_options opt_root cmt = (case opt_root of
     None \<Rightarrow> Some cmt
   | Some root \<Rightarrow> fold (\<lambda>cn r. case r of None \<Rightarrow> None | Some c \<Rightarrow>
         if cn_name cn = ''comment''
         then map_option (\<lambda>v. if v = [] then CHR 0x00 else hd v) (cn_value cn) else Some c)
       (first_child root) (Some cmt))"

definition parse_ini :: "cnfnode option \<Rightarrow> string \<Rightarrow> cnfnode option" where
  "parse_ini opt_root content =
     (case parse_ini_options opt_root (CHR ''#'') of
        None \<Rightarrow> None
      | Some cmt \<Rightarrow> map_option (Cnf ''(root)'' None) (parse_top cmt (read_conflines content)))"

section \<open>Writing\<close>

text \<open>\<^verbatim>\<open>snprintf\<close> into a buffer of 1024 characters.\<close>

definition out :: "string \<Rightarrow> string" where
  "out s = take 1023 s"

definition line_names :: "string list" where
  "line_names = [''.empty'', ''.comment'', ''.unparsed'']"

definition indent :: "nat \<Rightarrow> string" where
  "indent level = replicate (min (level * 8) 255) (CHR '' '')"

fun unparse_ini_subsection :: "nat \<Rightarrow> cnfnode \<Rightarrow> string list" where
  "unparse_ini_subsection level (Cnf name val cs) =
     out (indent level @ name @ '' = {'' @ [NL])
     # concat (map (\<lambda>cn. case cn_value cn of
           Some v \<Rightarrow>
             [if cn_name cn \<in> set line_names then out (v @ [NL])
              else out (''        '' @ indent level @ cn_name cn @ '' = '' @ v @ [NL])]
         | None \<Rightarrow> unparse_ini_subsection (level + 1) cn) cs)
     @ [out (indent level @ ''}'' @ [NL])]"

definition unparse_entry :: "cnfnode \<Rightarrow> string list option" where
  "unparse_entry cn =
     (if cn_name cn \<in> set line_names then map_option (\<lambda>v. [out (v @ [NL])]) (cn_value cn)
      else Some (case cn_value cn of
        Some v \<Rightarrow> [out (cn_name cn @ '' = '' @ v @ [NL])]
      | None \<Rightarrow> unparse_ini_subsection 1 cn))"

text \<open>The lines of each element of a list, unless one of them has none.\<close>

fun all_lines :: "('a \<Rightarrow> string list option) \<Rightarrow> 'a list \<Rightarrow> string list option" where
  "all_lines f [] = Some []"
| "all_lines f (x # xs) = (case (f x, all_lines f xs) of
     (Some ls, Some rest) \<Rightarrow> Some (ls @ rest) | _ \<Rightarrow> None)"

definition unparse_section :: "cnfnode \<Rightarrow> string list option" where
  "unparse_section cn =
     (if starts (CHR ''.'') (cn_name cn) then map_option (\<lambda>v. [out (v @ [NL])]) (cn_value cn)
      else map_option (Cons (out (''['' @ cn_name cn @ '']'' @ [NL]))) (all_lines unparse_entry (first_child cn)))"

definition unparse_lines :: "cnfnode \<Rightarrow> string list option" where
  "unparse_lines cn_root = all_lines unparse_section (first_child cn_root)"

definition unparse_ini :: "cnfnode \<Rightarrow> string option" where
  "unparse_ini cn_root = map_option concat (unparse_lines cn_root)"

end
