(* ===== verification/Conf_Roundtrip.thy ===== *)
theory Conf_Roundtrip
  imports Conf_Ini
begin

text \<open>
  What the INI writer writes, the parser reads back: the trees that survive (\<open>tree_ok\<close>), and the
  round trip for them.
\<close>

section \<open>Trees that can be written\<close>

definition text_ok :: "string \<Rightarrow> bool" where
  "text_ok v \<longleftrightarrow> NL \<notin> set v \<and> CHR 0x00 \<notin> set v"

text \<open>A key is one word without an equals sign, and no line that starts with it means something else.\<close>

definition key_ok :: "char \<Rightarrow> string \<Rightarrow> bool" where
  "key_ok special key \<longleftrightarrow> list_all (\<lambda>c. \<not> c_isspace c \<and> c \<noteq> CHR ''='' \<and> c \<noteq> CHR 0x00) key
     \<and> \<not> starts special key \<and> \<not> starts (CHR ''#'') key \<and> key \<notin> set line_names"

definition value_ok :: "string \<Rightarrow> bool" where
  "value_ok v \<longleftrightarrow> text_ok v \<and> (v = [] \<or> \<not> c_isspace (hd v) \<and> hd v \<noteq> CHR ''{'')"

definition trimmed :: "string \<Rightarrow> bool" where
  "trimmed v \<longleftrightarrow> v = [] \<or> \<not> c_isspace (last v)"

definition comment_ok :: "string \<Rightarrow> bool" where
  "comment_ok v \<longleftrightarrow> text_ok v \<and> starts (CHR ''#'') (skip_spaces v)"

definition unparsed_ok :: "char \<Rightarrow> string \<Rightarrow> bool" where
  "unparsed_ok special v \<longleftrightarrow> text_ok v \<and> skip_spaces v \<noteq> [] \<and> \<not> starts special (skip_spaces v)
     \<and> \<not> starts (CHR ''#'') (skip_spaces v)
     \<and> \<not> starts (CHR ''='') (skip_spaces (dropWhile (\<lambda>c. \<not> c_isspace c \<and> c \<noteq> CHR ''='') (skip_spaces v)))"

definition blank_ok :: "string \<Rightarrow> bool" where
  "blank_ok v \<longleftrightarrow> text_ok v \<and> skip_spaces v = []"

fun sub_ok :: "cnfnode \<Rightarrow> bool" where
  "sub_ok (Cnf name (Some v) cs) \<longleftrightarrow> cs = [] \<and>
     (if name = ''.empty'' then blank_ok v
      else if name = ''.comment'' then comment_ok v
      else if name = ''.unparsed'' then unparsed_ok (CHR ''}'') v
      else key_ok (CHR ''}'') name \<and> value_ok v \<and> trimmed v)"
| "sub_ok (Cnf name None cs) \<longleftrightarrow> key_ok (CHR ''}'') name \<and> list_all sub_ok cs"

fun entry_ok :: "cnfnode \<Rightarrow> bool" where
  "entry_ok (Cnf name (Some v) cs) \<longleftrightarrow> cs = [] \<and>
     (if name = ''.empty'' then v = []
      else if name = ''.comment'' then comment_ok v
      else if name = ''.unparsed'' then unparsed_ok (CHR ''['') v
      else key_ok (CHR ''['') name \<and> value_ok v)"
| "entry_ok (Cnf name None cs) \<longleftrightarrow> key_ok (CHR ''['') name \<and> list_all sub_ok cs"

definition section_ok :: "cnfnode \<Rightarrow> bool" where
  "section_ok cn \<longleftrightarrow> cn_value cn = None \<and> text_ok (cn_name cn) \<and> CHR '']'' \<notin> set (cn_name cn)
     \<and> \<not> starts (CHR ''.'') (cn_name cn) \<and> (cn_name cn = [] \<or> \<not> c_isspace (hd (cn_name cn)))
     \<and> list_all entry_ok (first_child cn)"

text \<open>Before the first section there are comments and empty lines only.\<close>

fun leading_ok :: "cnfnode \<Rightarrow> bool" where
  "leading_ok (Cnf name (Some v) cs) \<longleftrightarrow> cs = [] \<and>
     (name = ''.empty'' \<and> v = []
      \<or> name = ''.comment'' \<and> text_ok v \<and> skip_spaces v \<noteq> [] \<and> \<not> starts (CHR ''['') (skip_spaces v))"
| "leading_ok (Cnf name None cs) \<longleftrightarrow> False"

fun top_ok :: "cnfnode list \<Rightarrow> bool" where
  "top_ok [] \<longleftrightarrow> True"
| "top_ok (cn # cns) \<longleftrightarrow> (leading_ok cn \<and> top_ok cns) \<or> list_all section_ok (cn # cns)"

definition tree_ok :: "cnfnode \<Rightarrow> bool" where
  "tree_ok t \<longleftrightarrow> cn_name t = ''(root)'' \<and> cn_value t = None \<and> top_ok (first_child t)"

text \<open>No line that is written is as long as the line buffer of the reader.\<close>

definition lines_fit :: "string list \<Rightarrow> bool" where
  "lines_fit ls \<longleftrightarrow> list_all (\<lambda>l. length l \<le> 1022) ls"

section \<open>Reading lines\<close>

definition good_line :: "string \<Rightarrow> bool" where
  "good_line l \<longleftrightarrow> (\<exists>b. l = b @ [NL] \<and> text_ok b \<and> length b \<le> 1021)"

lemma read_conflines_Nil [simp]: "read_conflines [] = []"
  by (simp add: read_conflines.simps)

lemma read_good_line:
  assumes "good_line l"
  shows "read_conflines (l @ s) = l # read_conflines s"
proof -
  from assms obtain b where b: "l = b @ [NL]" "text_ok b" "length b \<le> 1021" by (auto simp: good_line_def)
  have "takeWhile (\<lambda>c. c \<noteq> NL) (b @ NL # s) = b"
    using b(2) by (auto simp: text_ok_def takeWhile_tail takeWhile_eq_all_conv)
  then have "fgets 1022 (b @ NL # s) = (b @ [NL], s)"
    using b(3) by (simp add: fgets_def Let_def)
  moreover have "create_confline (b @ [NL]) = b @ [NL]"
    using b(2) by (auto simp: create_confline_def text_ok_def takeWhile_eq_all_conv)
  ultimately show ?thesis by (subst read_conflines.simps) (simp add: b)
qed

lemma read_good_lines: "list_all good_line ls \<Longrightarrow> read_conflines (concat ls) = ls"
  by (induction ls) (simp_all add: read_good_line)

section \<open>Scanning what was written\<close>

lemma starts_simps [simp]:
  "\<not> starts c []" "starts c (d # s) \<longleftrightarrow> d = c"
  by (simp_all add: starts_def)

lemma starts_append: "starts c (s @ t) \<longleftrightarrow> starts c s \<or> s = [] \<and> starts c t"
  by (cases s) auto

lemma skip_spaces_simps [simp]:
  "skip_spaces [] = []"
  "skip_spaces (c # s) = (if c_isspace c then skip_spaces s else c # s)"
  by (simp_all add: skip_spaces_def)

lemma space_chars [simp]: "c_isspace NL" "c_isspace (CHR '' '')" "\<not> c_isspace (CHR ''='')"
  "\<not> c_isspace (CHR ''{'')" "\<not> c_isspace (CHR ''}'')" "\<not> c_isspace (CHR ''['')"
  by (simp_all add: c_isspace_def)

lemma skip_spaces_append:
  "skip_spaces (s @ t) = (if list_all c_isspace s then skip_spaces t else skip_spaces s @ t)"
  by (induction s) auto

lemma skip_spaces_Nil: "skip_spaces s = [] \<longleftrightarrow> list_all c_isspace s"
  by (simp add: skip_spaces_def list_all_iff dropWhile_eq_Nil_conv)

lemma skip_spaces_word: "s = [] \<or> \<not> c_isspace (hd s) \<Longrightarrow> skip_spaces s = s"
  by (cases s) auto

lemma spaces_indent [simp]: "list_all c_isspace (indent level)"
  by (simp add: indent_def list_all_iff)

lemma out_fits: "length (out s) \<le> 1022 \<Longrightarrow> out s = s"
  by (simp add: out_def)

lemma text_ok_simps [simp]:
  "text_ok []" "text_ok (c # s) \<longleftrightarrow> c \<noteq> NL \<and> c \<noteq> CHR 0x00 \<and> text_ok s"
  "text_ok (s @ t) \<longleftrightarrow> text_ok s \<and> text_ok t" "text_ok (indent level)"
  by (auto simp: text_ok_def indent_def)

lemma key_ok_text: "key_ok special key \<Longrightarrow> text_ok key"
  unfolding key_ok_def text_ok_def list_all_iff using space_chars(1) by blast

text \<open>A line with a key: where the parser finds the key, and what is left behind it.\<close>

lemma key_line:
  assumes "list_all c_isspace sp" and "key_ok special key" and "length key \<le> 1023"
    and p: "p = skip_spaces (sp @ key @ '' = '' @ w)"
  shows "p \<noteq> []" "special \<noteq> CHR ''='' \<Longrightarrow> \<not> starts special p" "\<not> starts (CHR ''#'') p"
    "\<exists>r. scan_key p = (key, r) \<and> skip_spaces r = ''= '' @ w"
proof -
  have key: "list_all (\<lambda>c. \<not> c_isspace c \<and> c \<noteq> CHR ''='') key" "\<not> starts special key" "\<not> starts (CHR ''#'') key"
    using assms(2) by (auto simp: key_ok_def list_all_iff)
  have p': "p = (if key = [] then ''= '' @ w else key @ '' = '' @ w)"
    using assms(1) key(1) by (cases key) (auto simp: p skip_spaces_append)
  from p' show "p \<noteq> []" by auto
  from p' key(2) show "\<not> starts special p" if "special \<noteq> CHR ''=''"
    using that by (auto simp: starts_append)
  from p' key(3) show "\<not> starts (CHR ''#'') p" by (auto simp: starts_append)
  have "scan_key (key @ r) = (key, r)" if "starts (CHR '' '') r \<or> starts (CHR ''='') r" for r
    unfolding scan_key_def
    by (rule scan_all) (use key(1) assms(3) that in \<open>auto simp: starts_def\<close>)
  from this [of "'' = '' @ w"] this [of "''= '' @ w"]
  show "\<exists>r. scan_key p = (key, r) \<and> skip_spaces r = ''= '' @ w"
    unfolding p' by (cases "key = []") auto
qed

lemma trim_end_value:
  assumes "trimmed v"
  shows "trim_end (v @ [NL]) = v"
  using assms by (cases v rule: rev_cases) (auto simp: trim_end_def trimmed_def)

lemma next_line_text:
  assumes "text_ok v" and "length v \<le> 1023"
  shows "dup_next_line_b 1023 (v @ [NL]) = (v, [NL])"
  unfolding dup_next_line_b_def
  by (rule scan_all) (use assms in \<open>auto simp: text_ok_def list_all_iff\<close>)

section \<open>Parsing what was written\<close>

lemma line_node_text:
  "text_ok v \<Longrightarrow> length v \<le> 1023 \<Longrightarrow> line_node name (v @ [NL]) = Cnf name (Some v) []"
  by (simp add: line_node_def next_line_text cnfnode_setval_def create_cnfnode_def)

lemma scan_unparsed:
  assumes "unparsed_ok special v" and "length v \<le> 1021"
  shows "skip_spaces (v @ [NL]) = skip_spaces v @ [NL]" "skip_spaces v \<noteq> []"
    "\<not> starts (CHR ''='') (skip_spaces (snd (scan_key (skip_spaces v @ [NL]))))"
proof -
  let ?P = "\<lambda>c. \<not> c_isspace c \<and> c \<noteq> CHR ''=''"
  show ne: "skip_spaces v \<noteq> []" using assms(1) by (simp add: unparsed_ok_def)
  then show "skip_spaces (v @ [NL]) = skip_spaces v @ [NL]" by (simp add: skip_spaces_append skip_spaces_Nil)
  have "length (skip_spaces v @ [NL]) \<le> 1023"
    using assms(2) length_dropWhile_le [of c_isspace v] unfolding skip_spaces_def by simp
  moreover have "dropWhile ?P (s @ [NL]) = dropWhile ?P s @ [NL]" for s
    by (induction s) auto
  moreover have "starts (CHR ''='') (skip_spaces (s @ [NL])) \<longleftrightarrow> starts (CHR ''='') (skip_spaces s)" for s
    by (cases "skip_spaces s = []") (simp_all add: skip_spaces_append starts_append flip: skip_spaces_Nil)
  ultimately show "\<not> starts (CHR ''='') (skip_spaces (snd (scan_key (skip_spaces v @ [NL]))))"
    using assms(1) by (simp add: scan_key_def scan_short unparsed_ok_def)
qed

lemma out_line:
  assumes "lines_fit [out s]"
  shows "out s = s" "length s \<le> 1022"
  using assms by (simp_all add: out_def lines_fit_def)

definition sub_lines :: "nat \<Rightarrow> cnfnode \<Rightarrow> string list" where
  "sub_lines level cn = (case cn_value cn of
     Some v \<Rightarrow>
       [if cn_name cn \<in> set line_names then out (v @ [NL])
        else out (''        '' @ indent level @ cn_name cn @ '' = '' @ v @ [NL])]
   | None \<Rightarrow> unparse_ini_subsection (level + 1) cn)"

lemma unparse_subsection_lines:
  "unparse_ini_subsection level (Cnf name val cs) =
     out (indent level @ name @ '' = {'' @ [NL]) # concat (map (sub_lines level) cs) @ [out (indent level @ ''}'' @ [NL])]"
  by (simp add: sub_lines_def [abs_def])

declare unparse_ini_subsection.simps [simp del]

lemma sub_lines_None: "sub_lines level (Cnf name None cs) = unparse_ini_subsection (level + 1) (Cnf name None cs)"
  by (simp add: sub_lines_def)

lemma classify_sub_line:
  assumes "sub_ok (Cnf name (Some v) cs)" and "lines_fit (sub_lines level (Cnf name (Some v) cs))"
  shows "\<exists>l. sub_lines level (Cnf name (Some v) cs) = [l] \<and> good_line l
    \<and> classify_sub (CHR ''#'') l = SubNode (Cnf name (Some v) cs)"
proof (cases "name \<in> set line_names")
  case True
  then have "sub_lines level (Cnf name (Some v) cs) = [out (v @ [NL])]" by (simp add: sub_lines_def)
  then have l: "sub_lines level (Cnf name (Some v) cs) = [v @ [NL]]" "length v \<le> 1021"
    using out_line [of "v @ [NL]"] assms(2) by simp_all
  have tx: "text_ok v" "cs = []" using assms(1) True
    by (auto simp: line_names_def blank_ok_def comment_ok_def unparsed_ok_def)
  then have "good_line (v @ [NL])" using l(2) by (auto simp: good_line_def)
  moreover have "classify_sub (CHR ''#'') (v @ [NL]) = SubNode (Cnf name (Some v) cs)"
  proof -
    consider "name = ''.empty''" | "name = ''.comment''" | "name = ''.unparsed''"
      using True by (auto simp: line_names_def)
    then show ?thesis
    proof cases
      case 1
      then show ?thesis using assms(1) l(2) tx
        by (simp add: classify_sub_def blank_ok_def skip_spaces_append skip_spaces_Nil line_node_text)
    next
      case 2
      then have "skip_spaces (v @ [NL]) = skip_spaces v @ [NL]" "starts (CHR ''#'') (skip_spaces v)"
        using assms(1) by (auto simp: comment_ok_def skip_spaces_append skip_spaces_Nil [symmetric])
      with 2 show ?thesis using l(2) tx
        by (cases "skip_spaces v") (simp_all add: classify_sub_def line_node_text)
    next
      case 3
      then have un: "unparsed_ok (CHR ''}'') v" using assms(1) by simp
      with scan_unparsed [OF un l(2)] show ?thesis using 3 l(2) tx
        by (simp add: classify_sub_def unparsed_ok_def starts_append line_node_text split_beta)
    qed
  qed
  ultimately show ?thesis using l(1) by blast
next
  case False
  then have ok: "key_ok (CHR ''}'') name" "value_ok v" "trimmed v" "cs = []"
    using assms(1) by (auto simp: line_names_def)
  let ?b = "''        '' @ indent level @ name @ '' = '' @ v"
  from False have o: "sub_lines level (Cnf name (Some v) cs) = [out (?b @ [NL])]" by (simp add: sub_lines_def)
  then have "lines_fit [out (?b @ [NL])]" using assms(2) by (simp only:)
  note fit = out_line [OF this]
  have l: "sub_lines level (Cnf name (Some v) cs) = [?b @ [NL]]" "length ?b \<le> 1021"
    using fit(2) by (simp_all only: o fit(1)) simp
  have "text_ok ?b"
    using key_ok_text [OF ok(1)] ok(2) by (simp add: value_ok_def)
  then have "good_line (?b @ [NL])" using l(2) unfolding good_line_def by blast
  moreover have "classify_sub (CHR ''#'') (?b @ [NL]) = SubNode (Cnf name (Some v) cs)"
  proof -
    have "list_all c_isspace (''        '' @ indent level)" by simp
    note kl = key_line [OF this ok(1) _ refl, of "v @ [NL]"]
    have "length name \<le> 1023" using l(2) by simp
    from kl [OF this] obtain r where r: "scan_key (skip_spaces (?b @ [NL])) = (name, r)"
      "skip_spaces r = ''= '' @ v @ [NL]" and nx: "skip_spaces (?b @ [NL]) \<noteq> []"
      "\<not> starts (CHR ''}'') (skip_spaces (?b @ [NL]))" "\<not> starts (CHR ''#'') (skip_spaces (?b @ [NL]))"
      by auto
    have v: "skip_spaces (v @ [NL]) = (if v = [] then [] else v @ [NL])" "\<not> starts (CHR ''{'') (skip_spaces (v @ [NL]))"
      using ok(2) by (cases v; simp add: value_ok_def)+
    have "trim_end (take 1023 (skip_spaces (v @ [NL]))) = v"
      using v(1) l(2) trim_end_value [OF ok(3)] by (auto simp: trim_end_def)
    with v(2) show ?thesis unfolding classify_sub_def using nx r ok(4) by simp
  qed
  ultimately show ?thesis using l(1) by blast
qed

lemma lines_fit_append [simp]:
  "lines_fit []" "lines_fit (l # ls) \<longleftrightarrow> length l \<le> 1022 \<and> lines_fit ls"
  "lines_fit (ls @ ms) \<longleftrightarrow> lines_fit ls \<and> lines_fit ms"
  by (auto simp: lines_fit_def)

lemma lines_fit_concat: "lines_fit (concat lss) \<longleftrightarrow> list_all lines_fit lss"
  by (induction lss) (simp_all add: lines_fit_def)

text \<open>The line that opens a subsection, and the one that closes it.\<close>

lemma open_line:
  assumes "key_ok special name" and "special \<noteq> CHR ''=''" and "lines_fit [out (indent level @ name @ '' = {'' @ [NL])]"
  shows "good_line (out (indent level @ name @ '' = {'' @ [NL]))"
    "special = CHR ''}'' \<Longrightarrow> classify_sub (CHR ''#'') (out (indent level @ name @ '' = {'' @ [NL])) = SubOpen name"
    "special = CHR ''['' \<Longrightarrow> classify_section (CHR ''#'') (out (indent level @ name @ '' = {'' @ [NL])) = OpenNode name []"
proof -
  note fit = out_line [OF assms(3)]
  show "good_line (out (indent level @ name @ '' = {'' @ [NL]))"
    unfolding fit(1) good_line_def
    by (rule exI [of _ "indent level @ name @ '' = {''"]) (use fit(2) key_ok_text [OF assms(1)] in simp)
  have "length name \<le> 1023" using fit(2) by simp
  from key_line [OF spaces_indent [of level] assms(1) this refl, of "''{'' @ [NL]"] assms(2)
  obtain r where r: "scan_key (skip_spaces (indent level @ name @ '' = {'' @ [NL])) = (name, r)"
      "skip_spaces r = ''= {'' @ [NL]"
    and nx: "skip_spaces (indent level @ name @ '' = {'' @ [NL]) \<noteq> []"
      "\<not> starts special (skip_spaces (indent level @ name @ '' = {'' @ [NL]))"
      "\<not> starts (CHR ''#'') (skip_spaces (indent level @ name @ '' = {'' @ [NL]))" by auto
  show "classify_sub (CHR ''#'') (out (indent level @ name @ '' = {'' @ [NL])) = SubOpen name"
    if "special = CHR ''}''" unfolding fit(1) classify_sub_def using r nx that by simp
  show "classify_section (CHR ''#'') (out (indent level @ name @ '' = {'' @ [NL])) = OpenNode name []"
    if "special = CHR ''[''" unfolding fit(1) classify_section_def using r nx that by simp
qed

lemma close_line:
  assumes "lines_fit [out (indent level @ ''}'' @ [NL])]"
  shows "good_line (out (indent level @ ''}'' @ [NL]))"
    "classify_sub cmt (out (indent level @ ''}'' @ [NL])) = SubClose"
proof -
  note fit = out_line [OF assms]
  show "good_line (out (indent level @ ''}'' @ [NL]))"
    unfolding fit(1) good_line_def
    by (rule exI [of _ "indent level @ ''}''"]) (use fit(2) in simp)
  show "classify_sub cmt (out (indent level @ ''}'' @ [NL])) = SubClose"
    unfolding fit(1) by (simp add: classify_sub_def skip_spaces_append)
qed

lemma parse_sub_children:
  assumes "\<And>c rest. c \<in> set cs \<Longrightarrow> parse_ini_subsection cmt (f c @ rest) = add_nodes [c] (parse_ini_subsection cmt rest)"
  shows "parse_ini_subsection cmt (concat (map f cs) @ rest) = add_nodes cs (parse_ini_subsection cmt rest)"
  using assms
proof (induction cs)
  case Nil
  then show ?case by (cases "parse_ini_subsection cmt rest") auto
next
  case (Cons c cs)
  have "parse_ini_subsection cmt (concat (map f (c # cs)) @ rest)
      = add_nodes [c] (parse_ini_subsection cmt (concat (map f cs) @ rest))"
    using Cons.prems [of c] by simp
  also have "\<dots> = add_nodes [c] (add_nodes cs (parse_ini_subsection cmt rest))"
    using Cons by simp
  also have "\<dots> = add_nodes (c # cs) (parse_ini_subsection cmt rest)"
    by (cases "parse_ini_subsection cmt rest") auto
  finally show ?case .
qed

text \<open>A subsection as a whole, with the lines of its children given.\<close>

lemma parse_sub_node:
  assumes "sub_ok cn" and "lines_fit (sub_lines level cn)"
  shows "list_all good_line (sub_lines level cn) \<and>
    parse_ini_subsection (CHR ''#'') (sub_lines level cn @ rest) = add_nodes [cn] (parse_ini_subsection (CHR ''#'') rest)"
  using assms
proof (induction cn arbitrary: level rest)
  case (Cnf name val cs)
  show ?case
  proof (cases val)
    case (Some v)
    from classify_sub_line [OF Cnf.prems [unfolded Some]] obtain l where
      "sub_lines level (Cnf name (Some v) cs) = [l]" "good_line l"
      "classify_sub (CHR ''#'') l = SubNode (Cnf name (Some v) cs)" by blast
    then show ?thesis unfolding Some by simp
  next
    case None
    let ?open = "out (indent (level + 1) @ name @ '' = {'' @ [NL])"
      and ?close = "out (indent (level + 1) @ ''}'' @ [NL])"
    let ?body = "concat (map (sub_lines (level + 1)) cs)"
    have lines: "sub_lines level (Cnf name val cs) = ?open # ?body @ [?close]"
      unfolding None by (simp only: sub_lines_None unparse_subsection_lines)
    have fit: "lines_fit [?open]" "lines_fit ?body" "lines_fit [?close]"
      using Cnf.prems(2) unfolding lines by simp_all
    have ok: "key_ok (CHR ''}'') name" "list_all sub_ok cs" using Cnf.prems(1) None by simp_all
    have child: "list_all good_line (sub_lines (level + 1) c) \<and>
        parse_ini_subsection (CHR ''#'') (sub_lines (level + 1) c @ rest)
          = add_nodes [c] (parse_ini_subsection (CHR ''#'') rest)"
      if "c \<in> set cs" for c rest
    proof (rule Cnf.IH [OF that])
      show "sub_ok c" "lines_fit (sub_lines (level + 1) c)"
        using ok(2) fit(2) that by (simp_all add: lines_fit_concat list_all_iff)
    qed
    have "parse_ini_subsection (CHR ''#'') (?body @ ?close # rest) = Some (cs, ?close # rest)"
      using parse_sub_children [of cs "CHR ''#''" "sub_lines (level + 1)" "?close # rest"] child
        close_line(2) [OF fit(3)] by simp
    then have "parse_ini_subsection (CHR ''#'') (sub_lines level (Cnf name val cs) @ rest)
        = add_nodes [Cnf name val cs] (parse_ini_subsection (CHR ''#'') rest)"
      unfolding lines using open_line(2) [OF ok(1) _ fit(1)] None by simp
    moreover have "list_all good_line ?body" using child by (auto simp: list_all_iff)
    ultimately show ?thesis
      unfolding lines using open_line(1) [OF ok(1) _ fit(1)] close_line(1) [OF fit(3)] by simp
  qed
qed

section \<open>Sections\<close>

lemma classify_entry_line:
  assumes "entry_ok (Cnf name (Some v) cs)" and "unparse_entry (Cnf name (Some v) cs) = Some ls" and "lines_fit ls"
  shows "\<exists>l. ls = [l] \<and> good_line l
    \<and> (classify_section (CHR ''#'') l = LineNode (Cnf name (Some v) cs)
       \<or> (\<exists>p. classify_section (CHR ''#'') l = EntryNode (Cnf name (Some v) cs) p \<and> skip_spaces p = []))"
proof (cases "name \<in> set line_names")
  case True
  with assms(2) have ls: "ls = [out (v @ [NL])]" by (auto simp: unparse_entry_def)
  note fit = out_line [OF assms(3) [unfolded this]]
  have tx: "text_ok v" "cs = []" and v: "length v \<le> 1021" using assms(1) True fit(2)
    by (auto simp: line_names_def comment_ok_def unparsed_ok_def)
  then have "good_line (v @ [NL])" by (auto simp: good_line_def)
  moreover have "classify_section (CHR ''#'') (v @ [NL]) = LineNode (Cnf name (Some v) cs)"
  proof -
    consider "name = ''.empty''" | "name = ''.comment''" | "name = ''.unparsed''"
      using True by (auto simp: line_names_def)
    then show ?thesis
    proof cases
      case 1
      then show ?thesis using assms(1) by (simp add: classify_section_def)
    next
      case 2
      then have "skip_spaces (v @ [NL]) = skip_spaces v @ [NL]" "starts (CHR ''#'') (skip_spaces v)"
        using assms(1) by (auto simp: comment_ok_def skip_spaces_append skip_spaces_Nil [symmetric])
      with 2 show ?thesis using v tx
        by (cases "skip_spaces v") (simp_all add: classify_section_def line_node_text)
    next
      case 3
      then have un: "unparsed_ok (CHR ''['') v" using assms(1) by simp
      with scan_unparsed [OF un v] show ?thesis using 3 v tx
        by (simp add: classify_section_def unparsed_ok_def starts_append line_node_text split_beta)
    qed
  qed
  ultimately show ?thesis unfolding ls fit(1) by blast
next
  case False
  then have ok: "key_ok (CHR ''['') name" "value_ok v" "cs = []"
    using assms(1) by (auto simp: line_names_def)
  let ?b = "name @ '' = '' @ v"
  from False assms(2) have ls: "ls = [out (?b @ [NL])]" by (simp add: unparse_entry_def)
  note fit = out_line [OF assms(3) [unfolded this]]
  have b: "length ?b \<le> 1021" using fit(2) by simp
  have "text_ok ?b" using key_ok_text [OF ok(1)] ok(2) by (simp add: value_ok_def)
  then have "good_line (?b @ [NL])" using b unfolding good_line_def by blast
  moreover have "\<exists>p. classify_section (CHR ''#'') (?b @ [NL]) = EntryNode (Cnf name (Some v) cs) p \<and> skip_spaces p = []"
  proof -
    have "length name \<le> 1023" using b by simp
    from key_line [of "[]", OF _ ok(1) this refl, of "v @ [NL]"]
    obtain r where r: "scan_key (skip_spaces (?b @ [NL])) = (name, r)"
      "skip_spaces r = ''= '' @ v @ [NL]" and nx: "skip_spaces (?b @ [NL]) \<noteq> []"
      "\<not> starts (CHR ''['') (skip_spaces (?b @ [NL]))" "\<not> starts (CHR ''#'') (skip_spaces (?b @ [NL]))"
      by auto
    have v: "skip_spaces (v @ [NL]) = (if v = [] then [] else v @ [NL])" "\<not> starts (CHR ''{'') (skip_spaces (v @ [NL]))"
      "text_ok v" using ok(2) by (cases v; simp add: value_ok_def)+
    have "length v \<le> 1023" using b by simp
    then obtain p where "dup_next_line_b 1023 (skip_spaces (v @ [NL])) = (v, p)" "skip_spaces p = []"
      using v next_line_text [of v] by (cases "v = []") (auto simp: dup_next_line_b_def scan_def)
    with v(2) show ?thesis unfolding classify_section_def using nx r ok(3) by simp
  qed
  ultimately show ?thesis unfolding ls fit(1) by blast
qed

text \<open>One entry of a section, subsections included.\<close>

lemma parse_entry:
  assumes "entry_ok cn" and "unparse_entry cn = Some ls" and "lines_fit ls"
  shows "list_all good_line ls \<and>
    parse_ini_section (CHR ''#'') (ls @ rest) = add_nodes [cn] (parse_ini_section (CHR ''#'') rest)"
proof (cases cn)
  case (Cnf name val cs)
  show ?thesis
  proof (cases val)
    case (Some v)
    from classify_entry_line [OF assms [unfolded Cnf Some]] obtain l where l: "ls = [l]" "good_line l"
      "classify_section (CHR ''#'') l = LineNode cn
       \<or> (\<exists>p. classify_section (CHR ''#'') l = EntryNode cn p \<and> skip_spaces p = [])"
      unfolding Cnf Some by blast
    then show ?thesis by (auto simp: trailing_comment_def)
  next
    case None
    have ok: "key_ok (CHR ''['') name" "list_all sub_ok cs" using assms(1) Cnf None by simp_all
    let ?open = "out (indent 1 @ name @ '' = {'' @ [NL])" and ?close = "out (indent 1 @ ''}'' @ [NL])"
    let ?body = "concat (map (sub_lines 1) cs)"
    have ls: "ls = ?open # ?body @ [?close]"
      using assms(2) Cnf None ok(1) by (simp add: unparse_entry_def key_ok_def unparse_subsection_lines)
    have fit: "lines_fit [?open]" "lines_fit ?body" "lines_fit [?close]"
      using assms(3) unfolding ls by simp_all
    have child: "list_all good_line (sub_lines 1 c) \<and>
        parse_ini_subsection (CHR ''#'') (sub_lines 1 c @ rest) = add_nodes [c] (parse_ini_subsection (CHR ''#'') rest)"
      if "c \<in> set cs" for c rest
      using parse_sub_node [of c 1 rest] ok(2) fit(2) that by (simp add: lines_fit_concat list_all_iff)
    have "parse_ini_subsection (CHR ''#'') (?body @ ?close # rest) = Some (cs, ?close # rest)"
      using parse_sub_children [of cs "CHR ''#''" "sub_lines 1" "?close # rest"] child close_line(2) [OF fit(3)]
      by simp
    then have "parse_ini_section (CHR ''#'') (ls @ rest) = add_nodes [cn] (parse_ini_section (CHR ''#'') rest)"
      unfolding ls Cnf None using open_line(3) [OF ok(1) _ fit(1)] by (simp add: trailing_comment_def)
    moreover have "list_all good_line ?body" using child by (auto simp: list_all_iff)
    ultimately show ?thesis
      unfolding ls using open_line(1) [OF ok(1) _ fit(1)] close_line(1) [OF fit(3)] by simp
  qed
qed

lemma parse_entries:
  assumes "list_all entry_ok cns" and "all_lines unparse_entry cns = Some ls" and "lines_fit ls"
  shows "list_all good_line ls \<and>
    parse_ini_section (CHR ''#'') (ls @ rest) = add_nodes cns (parse_ini_section (CHR ''#'') rest)"
  using assms
proof (induction cns arbitrary: ls)
  case Nil
  then show ?case by (cases "parse_ini_section (CHR ''#'') rest") auto
next
  case (Cons cn cns)
  from Cons.prems(2) obtain l1 l2 where l: "unparse_entry cn = Some l1" "all_lines unparse_entry cns = Some l2"
    "ls = l1 @ l2" by (auto split: option.splits)
  from parse_entry [of cn l1 "l2 @ rest"] Cons.IH [OF _ l(2)] Cons.prems l show ?case
    by (cases "parse_ini_section (CHR ''#'') rest") auto
qed

section \<open>Whole files\<close>

lemma header_line:
  assumes "section_ok (Cnf name None cs)" and "lines_fit [out (''['' @ name @ '']'' @ [NL])]"
  shows "good_line (out (''['' @ name @ '']'' @ [NL]))"
    "classify_section cmt (out (''['' @ name @ '']'' @ [NL])) = NextSection"
    "skip_spaces (out (''['' @ name @ '']'' @ [NL])) = out (''['' @ name @ '']'' @ [NL])"
    "starts (CHR ''['') (out (''['' @ name @ '']'' @ [NL]))"
    "section_name (out (''['' @ name @ '']'' @ [NL])) = name"
proof -
  note fit = out_line [OF assms(2)]
  have name: "text_ok name" "CHR '']'' \<notin> set name" "name = [] \<or> \<not> c_isspace (hd name)"
    using assms(1) by (simp_all add: section_ok_def)
  show "good_line (out (''['' @ name @ '']'' @ [NL]))"
    unfolding fit(1) good_line_def
    by (rule exI [of _ "''['' @ name @ '']''"]) (use fit(2) name(1) in simp)
  show "classify_section cmt (out (''['' @ name @ '']'' @ [NL])) = NextSection"
    "skip_spaces (out (''['' @ name @ '']'' @ [NL])) = out (''['' @ name @ '']'' @ [NL])"
    "starts (CHR ''['') (out (''['' @ name @ '']'' @ [NL]))"
    unfolding fit(1) by (simp_all add: classify_section_def)
  have sk: "skip_spaces (name @ '']'' @ [NL]) = name @ '']'' @ [NL]"
    using name(3) by (intro skip_spaces_word) (cases name; simp add: c_isspace_def)
  have "scan 1023 (\<lambda>c. c \<noteq> CHR '']'') (name @ '']'' @ [NL]) = (name, '']'' @ [NL])"
    by (rule scan_all) (use name(2) fit(2) in \<open>auto simp: list_all_iff\<close>)
  then show "section_name (out (''['' @ name @ '']'' @ [NL])) = name"
    unfolding fit(1) using sk by (simp add: section_name_def)
qed

lemma unparse_section_named:
  "\<not> starts (CHR ''.'') name \<Longrightarrow> unparse_section (Cnf name val cs) =
     map_option (Cons (out (''['' @ name @ '']'' @ [NL]))) (all_lines unparse_entry cs)"
  by (simp add: unparse_section_def)

lemma parse_sections:
  assumes "list_all section_ok cns" and "all_lines unparse_section cns = Some ls" and "lines_fit ls"
  shows "list_all good_line ls \<and> parse_top (CHR ''#'') ls = Some cns
    \<and> parse_ini_section (CHR ''#'') ls = Some ([], ls)"
  using assms
proof (induction cns arbitrary: ls)
  case (Cons cn cns)
  obtain name val cs where cn: "cn = Cnf name val cs" by (cases cn)
  have ok: "section_ok (Cnf name None cs)" "val = None" "list_all entry_ok cs" "\<not> starts (CHR ''.'') name"
    using Cons.prems(1) by (auto simp: cn section_ok_def)
  let ?h = "out (''['' @ name @ '']'' @ [NL])"
  from Cons.prems(2) obtain l1 l2 where l: "all_lines unparse_entry cs = Some l1"
    "all_lines unparse_section cns = Some l2" "ls = ?h # l1 @ l2"
    using ok(4) by (auto simp: cn unparse_section_named split: option.splits)
  have fit: "lines_fit [?h]" "lines_fit l1" "lines_fit l2" using Cons.prems(3) l(3) by simp_all
  note hd = header_line [OF ok(1) fit(1)]
  have IH: "list_all good_line l2" "parse_top (CHR ''#'') l2 = Some cns"
    "parse_ini_section (CHR ''#'') l2 = Some ([], l2)"
    using Cons.IH [OF _ l(2) fit(3)] Cons.prems(1) by simp_all
  from parse_entries [OF ok(3) l(1) fit(2)] have en: "list_all good_line l1"
    "parse_ini_section (CHR ''#'') (l1 @ l2) = Some (cs, l2)"
    using IH(3) by simp_all
  have ne: "?h \<noteq> []" using hd(4) by (auto simp: starts_def)
  have "parse_top (CHR ''#'') (?h # l1 @ l2) = Some (Cnf name None cs # cns)"
    unfolding parse_top.simps Let_def hd(3) using hd(4,5) ne en(2) IH(2) by simp
  with hd(1,2) en(1) IH(1) show ?case unfolding l(3) cn ok(2) by simp
qed simp

lemma parse_tree:
  assumes "top_ok cns" and "all_lines unparse_section cns = Some ls" and "lines_fit ls"
  shows "list_all good_line ls \<and> parse_top (CHR ''#'') ls = Some cns"
  using assms
proof (induction cns arbitrary: ls)
  case (Cons cn cns)
  show ?case
  proof (cases "list_all section_ok (cn # cns)")
    case True
    from parse_sections [OF this Cons.prems(2,3)] show ?thesis by simp
  next
    case False
    then have "leading_ok cn" and top: "top_ok cns" using Cons.prems(1) by auto
    then obtain name v where cn: "cn = Cnf name (Some v) []"
      and kind: "name = ''.empty'' \<and> v = [] \<or> name = ''.comment'' \<and> text_ok v \<and> skip_spaces v \<noteq> []
        \<and> \<not> starts (CHR ''['') (skip_spaces v)"
      by (cases cn rule: leading_ok.cases) auto
    from kind have "starts (CHR ''.'') name" by auto
    then have "unparse_section cn = Some [out (v @ [NL])]" by (simp add: cn unparse_section_def)
    with Cons.prems(2) obtain l2 where l: "all_lines unparse_section cns = Some l2" "ls = out (v @ [NL]) # l2"
      by (auto split: option.splits)
    have fit: "lines_fit [out (v @ [NL])]" "lines_fit l2" using Cons.prems(3) l(2) by simp_all
    note fits = out_line [OF fit(1)]
    from Cons.IH [OF top l(1) fit(2)] have IH: "list_all good_line l2" "parse_top (CHR ''#'') l2 = Some cns"
      by simp_all
    have v: "text_ok v" "length v \<le> 1023" using kind fits(2) by auto
    have "good_line (v @ [NL])" using v(1) fits(2) by (auto simp: good_line_def)
    moreover have "parse_top (CHR ''#'') ((v @ [NL]) # l2) = Some (cn # cns)"
    proof (cases "name = ''.empty''")
      case True
      then show ?thesis using kind IH(2) by (simp add: cn)
    next
      case False
      with kind have k: "name = ''.comment''" "skip_spaces v \<noteq> []" "\<not> starts (CHR ''['') (skip_spaces v)" by simp_all
      then have "skip_spaces (v @ [NL]) = skip_spaces v @ [NL]"
        by (simp add: skip_spaces_append skip_spaces_Nil)
      with k show ?thesis using IH(2) line_node_text [OF v] by (simp add: cn starts_append)
    qed
    ultimately show ?thesis unfolding l(2) fits(1) using IH(1) by simp
  qed
qed simp

text \<open>C35: A configuration tree whose names and values fit the syntax, written by \<^verbatim>\<open>unparse_ini\<close> and read
  again by \<^verbatim>\<open>parse_ini\<close>, is the same tree: sections, entries, nested subsections, comments, empty and
  unparsed lines.\<close>

theorem ini_roundtrip:
  assumes "tree_ok t" and "unparse_lines t = Some ls" and "lines_fit ls"
  shows "unparse_ini t = Some (concat ls) \<and> parse_ini None (concat ls) = Some t"
proof -
  from assms(1) have top: "top_ok (first_child t)" and t: "t = Cnf ''(root)'' None (first_child t)"
    unfolding tree_ok_def by (simp, metis cnfnode.collapse)
  from parse_tree [OF top assms(2) [unfolded unparse_lines_def] assms(3)]
  have "read_conflines (concat ls) = ls" "parse_top (CHR ''#'') ls = Some (first_child t)"
    by (simp_all add: read_good_lines)
  then have "parse_ini None (concat ls) = Some (Cnf ''(root)'' None (first_child t))"
    by (simp add: parse_ini_def parse_ini_options_def)
  with t assms(2) show ?thesis by (simp add: unparse_ini_def)
qed

definition sample_tree :: cnfnode where
  "sample_tree = Cnf ''(root)'' None
     [Cnf ''.comment'' (Some ''# repos'') [],
      Cnf ''base'' None
        [Cnf ''enabled'' (Some ''1'') [], Cnf ''.empty'' (Some []) [],
         Cnf ''opts'' None [Cnf ''a'' (Some ''b c'') [], Cnf ''in'' None []]]]"

theorem ini_roundtrip_witness:
  "map_option (parse_ini None) (unparse_ini sample_tree) = Some (Some sample_tree)"
proof -
  have ok: "tree_ok sample_tree" by code_simp
  have ls: "unparse_lines sample_tree = Some (the (unparse_lines sample_tree))"
    "lines_fit (the (unparse_lines sample_tree))" by code_simp+
  from ini_roundtrip [OF ok ls] show ?thesis by simp
qed

end
