(* ===== verification/Conf_Tool.thy ===== *)
theory Conf_Tool
  imports Conf_Roundtrip
begin

text \<open>
  \<^verbatim>\<open>tools/config/main.c\<close>, the tool that edits configuration files. The files it sees are a map from names
  to contents; \<^verbatim>\<open>glob\<close> is a parameter, the list of names the C library finds for a pattern. An action
  either ends, with what it returns, or exits with a code, or reads through a NULL pointer.
\<close>

section \<open>Outcomes and files\<close>

datatype 'a outcome = Done 'a | Exit nat | Crash

definition andthen :: "'a outcome \<Rightarrow> ('a \<Rightarrow> 'b outcome) \<Rightarrow> 'b outcome" where
  "andthen m f = (case m of Done x \<Rightarrow> f x | Exit n \<Rightarrow> Exit n | Crash \<Rightarrow> Crash)"

lemma andthen_simps [simp]:
  "andthen (Done x) f = f x" "andthen (Exit n) f = Exit n" "andthen Crash f = Crash"
  by (simp_all add: andthen_def)

lemma andthen_Done: "andthen m f = Done y \<longleftrightarrow> (\<exists>x. m = Done x \<and> f x = Done y)"
  by (cases m) auto

abbreviation (input) ERR_CMDLINE :: nat where "ERR_CMDLINE \<equiv> 1"
abbreviation (input) ERR_SYSTEM :: nat where "ERR_SYSTEM \<equiv> 2"
abbreviation (input) ERR_NO_REPO :: nat where "ERR_NO_REPO \<equiv> 3"
abbreviation (input) ERR_NO_SETTING :: nat where "ERR_NO_SETTING \<equiv> 4"
abbreviation (input) ERR_REPO_EXISTS :: nat where "ERR_REPO_EXISTS \<equiv> 5"

type_synonym files = "string \<rightharpoonup> string"

text \<open>\<^verbatim>\<open>cnfmodule_parse_file\<close>: \<open>Done None\<close> when the file cannot be opened.\<close>

definition cnfmodule_parse_file :: "files \<Rightarrow> string \<Rightarrow> cnfnode option outcome" where
  "cnfmodule_parse_file fs fname = (case fs fname of
     None \<Rightarrow> Done None
   | Some content \<Rightarrow> (case parse_ini None content of None \<Rightarrow> Crash | Some t \<Rightarrow> Done (Some t)))"

definition cnfmodule_unparse_file :: "files \<Rightarrow> string \<Rightarrow> cnfnode \<Rightarrow> files outcome" where
  "cnfmodule_unparse_file fs fname cn_root = (case unparse_ini cn_root of
     None \<Rightarrow> Crash | Some content \<Rightarrow> Done (fs(fname \<mapsto> content)))"

text \<open>\<^verbatim>\<open>rename\<close> of an existing file.\<close>

definition rename :: "string \<Rightarrow> string \<Rightarrow> files \<Rightarrow> files" where
  "rename from to fs = (if from = to then fs else fs(to := fs from, from := None))"

section \<open>Editing a section\<close>

definition set_child_value :: "cnfnode \<Rightarrow> nat \<Rightarrow> string \<Rightarrow> cnfnode" where
  "set_child_value cn i v = (case cn of Cnf name val cs \<Rightarrow>
     Cnf name val (cs[i := cnfnode_setval (cs ! i) (Some v)]))"

definition set_key_value :: "cnfnode \<Rightarrow> string \<Rightarrow> cnfnode outcome" where
  "set_key_value cn_repo keyval =
     (case scan 255 (\<lambda>c. \<not> c_isspace c \<and> c \<noteq> CHR ''='') keyval of (key, r) \<Rightarrow>
        if starts (CHR ''='') (skip_spaces r)
        then let p = skip_spaces (tl (skip_spaces r)) in
          (case find_child cn_repo key of
             None \<Rightarrow> Done (append_node cn_repo (cnfnode_setval (create_cnfnode key) (Some p)))
           | Some i \<Rightarrow> Done (set_child_value cn_repo i p))
        else Exit ERR_CMDLINE)"

fun set_all :: "cnfnode \<Rightarrow> string list \<Rightarrow> cnfnode outcome" where
  "set_all cn_repo [] = Done cn_repo"
| "set_all cn_repo (kv # kvs) = andthen (set_key_value cn_repo kv) (\<lambda>cn. set_all cn kvs)"

definition put_child :: "cnfnode \<Rightarrow> nat \<Rightarrow> cnfnode \<Rightarrow> cnfnode" where
  "put_child cn i child = (case cn of Cnf name val cs \<Rightarrow> Cnf name val (cs[i := child]))"

text \<open>The functions below work in place: the section is put back at its position.\<close>

definition set_key_values :: "cnfnode \<Rightarrow> string \<Rightarrow> string list \<Rightarrow> cnfnode outcome" where
  "set_key_values cn_root repo kv = (case find_child cn_root repo of
     None \<Rightarrow> Done cn_root
   | Some i \<Rightarrow> andthen (set_all (first_child cn_root ! i) kv) (\<lambda>cn. Done (put_child cn_root i cn)))"

fun remove_all :: "cnfnode \<Rightarrow> string list \<Rightarrow> cnfnode outcome" where
  "remove_all cn_repo [] = Done cn_repo"
| "remove_all cn_repo (key # keys) = (case find_child cn_repo key of
     None \<Rightarrow> Exit ERR_NO_SETTING
   | Some i \<Rightarrow> remove_all (unlink_node cn_repo i) keys)"

definition remove_keys :: "cnfnode \<Rightarrow> string \<Rightarrow> string list \<Rightarrow> cnfnode outcome" where
  "remove_keys cn_root repo keys = (case find_child cn_root repo of
     None \<Rightarrow> Exit ERR_NO_REPO
   | Some i \<Rightarrow> andthen (remove_all (first_child cn_root ! i) keys) (\<lambda>cn. Done (put_child cn_root i cn)))"

definition remove_repo :: "cnfnode \<Rightarrow> string \<Rightarrow> cnfnode outcome" where
  "remove_repo cn_root repo = (case find_child cn_root repo of
     None \<Rightarrow> Exit ERR_NO_REPO | Some i \<Rightarrow> Done (unlink_node cn_root i))"

section \<open>Finding and writing files\<close>

definition get_repodir :: "files \<Rightarrow> string \<Rightarrow> string outcome" where
  "get_repodir fs main_config =
     andthen (cnfmodule_parse_file fs main_config) (\<lambda>root.
       case root of
         None \<Rightarrow> Done TDNF_DEFAULT_REPO_LOCATION
       | Some cn_root \<Rightarrow>
           (case find_child cn_root ''main'' of
              None \<Rightarrow> Done TDNF_DEFAULT_REPO_LOCATION
            | Some i \<Rightarrow> let cn_main = first_child cn_root ! i in
                (case find_child cn_main ''repodir'' of
                   None \<Rightarrow> Done TDNF_DEFAULT_REPO_LOCATION
                 | Some j \<Rightarrow> (case cn_value (first_child cn_main ! j) of
                     None \<Rightarrow> Crash | Some dir \<Rightarrow> Done dir))))"

text \<open>The first file that has the section; a file that cannot be read ends the search.\<close>

fun search_files :: "files \<Rightarrow> string \<Rightarrow> string list \<Rightarrow> (cnfnode \<times> string) option outcome" where
  "search_files fs repo [] = Done None"
| "search_files fs repo (f # names) =
     andthen (cnfmodule_parse_file fs f) (\<lambda>root.
       case root of
         None \<Rightarrow> Done None
       | Some cn_root \<Rightarrow>
           if find_child cn_root repo \<noteq> None then Done (Some (cn_root, f))
           else search_files fs repo names)"

definition find_repo ::
    "(string \<Rightarrow> string list) \<Rightarrow> files \<Rightarrow> string \<Rightarrow> string \<Rightarrow> (cnfnode \<times> string) option outcome" where
  "find_repo glob fs repodir repo = search_files fs repo (glob (take 255 (repodir @ ''/*.repo'')))"

definition get_repo_root ::
    "(string \<Rightarrow> string list) \<Rightarrow> files \<Rightarrow> string \<Rightarrow> string \<Rightarrow> (cnfnode \<times> string) outcome" where
  "get_repo_root glob fs main_config repo =
     (if repo = ''main''
      then andthen (cnfmodule_parse_file fs main_config) (\<lambda>root.
             case root of None \<Rightarrow> Exit ERR_SYSTEM | Some cn_root \<Rightarrow> Done (cn_root, main_config))
      else andthen (get_repodir fs main_config) (\<lambda>repodir.
           andthen (find_repo glob fs repodir repo) (\<lambda>r.
             case r of None \<Rightarrow> Exit ERR_NO_REPO | Some found \<Rightarrow> Done found)))"

definition write_file :: "files \<Rightarrow> cnfnode \<Rightarrow> string \<Rightarrow> files outcome" where
  "write_file fs cn_root filename =
     (let buf = take 255 (filename @ ''.tmp'') in
      andthen (cnfmodule_unparse_file fs buf cn_root) (\<lambda>fs. Done (rename buf filename fs)))"

section \<open>The actions\<close>

definition action_edit ::
    "(string \<Rightarrow> string list) \<Rightarrow> files \<Rightarrow> string \<Rightarrow> string \<Rightarrow> string list \<Rightarrow> files outcome" where
  "action_edit glob fs main_config repo kv =
     andthen (get_repo_root glob fs main_config repo) (\<lambda>(cn_root, filename).
     andthen (set_key_values cn_root repo kv) (\<lambda>cn_root. write_file fs cn_root filename))"

definition action_create ::
    "(string \<Rightarrow> string list) \<Rightarrow> files \<Rightarrow> string \<Rightarrow> string option \<Rightarrow> string \<Rightarrow> string list \<Rightarrow> files outcome" where
  "action_create glob fs main_config repo_config repo kv =
     (if repo = ''main'' then Exit ERR_CMDLINE
      else andthen (get_repodir fs main_config) (\<lambda>repodir.
           andthen (find_repo glob fs repodir repo) (\<lambda>r.
             if r \<noteq> None then Exit ERR_REPO_EXISTS
             else andthen (case repo_config of
                    None \<Rightarrow> Done (create_cnfnode ''(root)'', take 255 (repodir @ ''/'' @ repo @ ''.repo''))
                  | Some fname \<Rightarrow> andthen (cnfmodule_parse_file fs fname) (\<lambda>root.
                      case root of None \<Rightarrow> Done (create_cnfnode ''(root)'', fname)
                      | Some cn_root \<Rightarrow> Done (cn_root, fname))) (\<lambda>(cn_root, filename).
                  andthen (set_key_values (append_node cn_root (create_cnfnode repo)) repo kv) (\<lambda>cn_root.
                    write_file fs cn_root filename)))))"

text \<open>\<^verbatim>\<open>get\<close> prints the value; one that is missing would be printed as a NULL string.\<close>

definition action_get ::
    "(string \<Rightarrow> string list) \<Rightarrow> files \<Rightarrow> string \<Rightarrow> string \<Rightarrow> string \<Rightarrow> string outcome" where
  "action_get glob fs main_config repo key =
     andthen (get_repo_root glob fs main_config repo) (\<lambda>(cn_root, _).
       case find_child cn_root repo of
         None \<Rightarrow> Exit ERR_NO_REPO
       | Some i \<Rightarrow> (case find_child (first_child cn_root ! i) key of
           None \<Rightarrow> Exit ERR_NO_SETTING
         | Some j \<Rightarrow> (case cn_value (first_child (first_child cn_root ! i) ! j) of
             None \<Rightarrow> Crash | Some v \<Rightarrow> Done (v @ [NL]))))"

definition action_remove ::
    "(string \<Rightarrow> string list) \<Rightarrow> files \<Rightarrow> string \<Rightarrow> string \<Rightarrow> string list \<Rightarrow> files outcome" where
  "action_remove glob fs main_config repo keys =
     andthen (get_repo_root glob fs main_config repo) (\<lambda>(cn_root, filename).
     andthen (remove_keys cn_root repo keys) (\<lambda>cn_root. write_file fs cn_root filename))"

definition action_removerepo ::
    "(string \<Rightarrow> string list) \<Rightarrow> files \<Rightarrow> string \<Rightarrow> string \<Rightarrow> files outcome" where
  "action_removerepo glob fs main_config repo =
     andthen (get_repo_root glob fs main_config repo) (\<lambda>(cn_root, filename).
     andthen (remove_repo cn_root repo) (\<lambda>cn_root.
       if first_child cn_root \<noteq> [] then write_file fs cn_root filename
       else Done (fs(filename := None))))"

section \<open>A section as a store of values\<close>

definition set_entry :: "string \<Rightarrow> string \<Rightarrow> cnfnode \<Rightarrow> cnfnode" where
  "set_entry key v cn = (case find_child cn key of
     None \<Rightarrow> append_node cn (Cnf key (Some v) [])
   | Some i \<Rightarrow> set_child_value cn i v)"

definition get_entry :: "cnfnode \<Rightarrow> string \<Rightarrow> string option" where
  "get_entry cn key = (case find_child cn key of
     None \<Rightarrow> None | Some i \<Rightarrow> cn_value (first_child cn ! i))"

lemma set_key_value_entry:
  assumes "list_all (\<lambda>c. \<not> c_isspace c \<and> c \<noteq> CHR ''='') key" and "length key \<le> 255"
    and "v = [] \<or> \<not> c_isspace (hd v)"
  shows "set_key_value cn (key @ ''='' @ v) = Done (set_entry key v cn)"
proof -
  have "scan 255 (\<lambda>c. \<not> c_isspace c \<and> c \<noteq> CHR ''='') (key @ ''='' @ v) = (key, ''='' @ v)"
    by (rule scan_all) (use assms in simp_all)
  moreover have "skip_spaces v = v" using assms(3) by (rule skip_spaces_word)
  ultimately show ?thesis
    by (simp add: set_key_value_def set_entry_def create_cnfnode_def cnfnode_setval_def split: option.split)
qed

lemma get_entry_set_same: "get_entry (set_entry k v cn) k = Some v"
proof (cases "find_child cn k")
  case None
  then show ?thesis
    by (simp add: get_entry_def set_entry_def find_child_def append_node_def find_node_append)
next
  case (Some i)
  then have i: "i < length (first_child cn)" "cn_name (first_child cn ! i) = k"
    by (simp_all add: find_child_def find_node_Some)
  then have "find_child (set_child_value cn i v) k = Some i"
    using Some by (cases cn) (simp add: find_child_def set_child_value_def cnfnode_setval_def find_node_update)
  with Some i show ?thesis
    by (cases cn) (simp add: get_entry_def set_entry_def set_child_value_def cnfnode_setval_def)
qed

lemma find_child_set_other:
  assumes "l \<noteq> k"
  shows "find_child (set_entry k v cn) l = find_child cn l"
proof (cases "find_child cn k")
  case None
  with assms show ?thesis
    by (simp add: set_entry_def find_child_def append_node_def find_node_append split: option.split)
next
  case (Some i)
  then have "i < length (first_child cn)" "cn_name (first_child cn ! i) = k"
    by (simp_all add: find_child_def find_node_Some)
  with Some show ?thesis
    by (cases cn) (simp add: set_entry_def find_child_def set_child_value_def cnfnode_setval_def find_node_update)
qed

lemma get_entry_set_other:
  assumes "l \<noteq> k"
  shows "get_entry (set_entry k v cn) l = get_entry cn l"
proof (cases "find_child cn l")
  case None
  then show ?thesis using find_child_set_other [OF assms] by (simp add: get_entry_def)
next
  case (Some j)
  then have j: "j < length (first_child cn)" "cn_name (first_child cn ! j) = l"
    by (simp_all add: find_child_def find_node_Some)
  have "cn_value (first_child (set_entry k v cn) ! j) = cn_value (first_child cn ! j)"
  proof (cases "find_child cn k")
    case None
    then show ?thesis using j(1) by (simp add: set_entry_def append_node_def nth_append)
  next
    case (Some i)
    then have "i \<noteq> j" using assms j(2) by (auto simp: find_child_def find_node_Some)
    with Some show ?thesis by (cases cn) (simp add: set_entry_def set_child_value_def)
  qed
  then show ?thesis using Some find_child_set_other [OF assms] by (simp add: get_entry_def)
qed

interpretation entries: kv_store "\<lambda>_. True" "\<lambda>_ _. True" set_entry get_entry
  by unfold_locales (simp_all add: get_entry_set_same get_entry_set_other)

text \<open>The settings of one command line, each given as a pair.\<close>

definition setting_ok :: "string \<Rightarrow> string \<Rightarrow> bool" where
  "setting_ok k v \<longleftrightarrow> key_ok (CHR ''['') k \<and> value_ok v \<and> length k \<le> 255"

definition setting :: "string \<times> string \<Rightarrow> string" where
  "setting kv = fst kv @ ''='' @ snd kv"

lemma set_all_entries:
  "list_all (\<lambda>(k, v). setting_ok k v) kvs \<Longrightarrow> set_all cn (map setting kvs) = Done (entries.puts kvs cn)"
proof (induction kvs arbitrary: cn)
  case (Cons kv kvs)
  obtain k v where kv: "kv = (k, v)" by (cases kv)
  with Cons.prems have "list_all (\<lambda>c. \<not> c_isspace c \<and> c \<noteq> CHR ''='') k" "length k \<le> 255"
      "v = [] \<or> \<not> c_isspace (hd v)"
    by (auto simp: setting_ok_def key_ok_def value_ok_def list_all_iff)
  from set_key_value_entry [OF this] Cons show ?case
    by (simp add: kv setting_def entries.puts_simps)
qed (simp add: entries.puts_simps)

section \<open>Edited trees can be written\<close>

lemma set_entry_shape: "cn_name (set_entry k v cn) = cn_name cn" "cn_value (set_entry k v cn) = cn_value cn"
  by (cases cn; simp add: set_entry_def append_node_def set_child_value_def split: option.split)+

lemma entry_ok_setval:
  assumes "setting_ok k v" and "entry_ok (Cnf k w cs)" and "w \<noteq> None"
  shows "entry_ok (Cnf k (Some v) cs)"
  using assms by (cases w) (auto simp: setting_ok_def key_ok_def line_names_def)

lemma list_all_update: "list_all P xs \<Longrightarrow> P x \<Longrightarrow> list_all P (xs[i := x])"
  by (induction xs arbitrary: i) (auto split: nat.split)

text \<open>A key that is not the name of a subsection.\<close>

definition leaf_key :: "cnfnode \<Rightarrow> string \<Rightarrow> bool" where
  "leaf_key cn k \<longleftrightarrow> find_child cn k = None \<or> get_entry cn k \<noteq> None"

lemma leaf_key_set: "leaf_key cn l \<Longrightarrow> leaf_key (set_entry k v cn) l"
  using find_child_set_other [of l k v cn] get_entry_set_other [of l k v cn] get_entry_set_same [of k v cn]
  by (cases "l = k") (auto simp: leaf_key_def)

lemma section_ok_set:
  assumes "section_ok cn" and "setting_ok k v" and "leaf_key cn k"
  shows "section_ok (set_entry k v cn)"
proof -
  have ents: "list_all entry_ok (first_child cn)" using assms(1) by (simp add: section_ok_def)
  have "list_all entry_ok (first_child (set_entry k v cn))"
  proof (cases "find_child cn k")
    case None
    have "entry_ok (Cnf k (Some v) [])"
      using entry_ok_setval [OF assms(2), of "Some v" "[]"] assms(2)
      by (auto simp: setting_ok_def key_ok_def line_names_def)
    with None ents show ?thesis by (simp add: set_entry_def append_node_def)
  next
    case (Some i)
    then have i: "i < length (first_child cn)" "cn_name (first_child cn ! i) = k"
      by (simp_all add: find_child_def find_node_Some)
    obtain w cs where c: "first_child cn ! i = Cnf k (Some w) cs"
      using assms(3) Some i(2) by (cases "first_child cn ! i") (auto simp: leaf_key_def get_entry_def)
    then have "entry_ok (Cnf k (Some w) cs)" using ents i(1) by (metis list_all_length)
    from entry_ok_setval [OF assms(2) this] have "entry_ok (Cnf k (Some v) cs)" by simp
    with ents Some c show ?thesis
      by (cases cn) (simp add: set_entry_def set_child_value_def cnfnode_setval_def list_all_update)
  qed
  with assms(1) show ?thesis by (simp add: section_ok_def set_entry_shape)
qed

lemma section_ok_puts:
  assumes "section_ok cn" and "list_all (\<lambda>(k, v). setting_ok k v \<and> leaf_key cn k) kvs"
  shows "section_ok (entries.puts kvs cn) \<and> cn_name (entries.puts kvs cn) = cn_name cn"
  using assms
proof (induction kvs arbitrary: cn)
  case (Cons kv kvs)
  obtain k v where kv: "kv = (k, v)" by (cases kv)
  have "section_ok (set_entry k v cn)" using Cons.prems by (simp add: kv section_ok_set)
  moreover have "list_all (\<lambda>(l, w). setting_ok l w \<and> leaf_key (set_entry k v cn) l) kvs"
    using Cons.prems(2) leaf_key_set by (fastforce simp: kv list_all_iff)
  ultimately show ?case
    using Cons.IH [of "set_entry k v cn"] by (simp add: kv entries.puts_simps set_entry_shape)
qed (simp add: entries.puts_simps)

lemma top_ok_section:
  assumes "top_ok cns" and "i < length cns" and "\<not> starts (CHR ''.'') (cn_name (cns ! i))"
  shows "section_ok (cns ! i) \<and> (section_ok c \<longrightarrow> top_ok (cns[i := c]))"
  using assms
proof (induction cns arbitrary: i)
  case (Cons cn cns)
  show ?case
  proof (cases "list_all section_ok (cn # cns)")
    case True
    then show ?thesis using Cons.prems(2) list_all_update [OF True, of c i]
      by (cases i) (auto simp: list_all_length)
  next
    case False
    then have lead: "leading_ok cn" "top_ok cns" using Cons.prems(1) by auto
    then have "starts (CHR ''.'') (cn_name cn)" by (cases cn rule: leading_ok.cases) auto
    with Cons.prems obtain j where "i = Suc j" by (cases i) auto
    with Cons.IH [OF lead(2), of j] Cons.prems lead(1) show ?thesis by simp
  qed
qed simp

section \<open>An edit, and what is read after it\<close>

lemma search_found:
  "search_files fs repo names = Done (Some (t, f)) \<Longrightarrow>
     cnfmodule_parse_file fs f = Done (Some t) \<and> find_child t repo \<noteq> None"
  by (induction names) (auto simp: andthen_Done split: option.splits if_splits)

lemma search_again:
  assumes "search_files fs repo names = Done (Some (t, f))" and "cnfmodule_parse_file fs' f = Done (Some t')"
    and "find_child t' repo \<noteq> None" and "\<forall>g \<in> set names. g \<noteq> f \<longrightarrow> fs' g = fs g"
  shows "search_files fs' repo names = Done (Some (t', f))"
  using assms(1,4)
proof (induction names)
  case (Cons g names)
  show ?case
  proof (cases "g = f")
    case True
    then show ?thesis using assms(2,3) by simp
  next
    case False
    then have "cnfmodule_parse_file fs' g = cnfmodule_parse_file fs g"
      using Cons.prems(2) by (simp add: cnfmodule_parse_file_def)
    moreover from Cons.prems(1) obtain r where r: "cnfmodule_parse_file fs g = Done (Some r)"
      "find_child r repo = None" "search_files fs repo names = Done (Some (t, f))"
      using False by (auto simp: andthen_Done split: option.splits if_splits)
    ultimately show ?thesis using Cons.IH [OF r(3)] Cons.prems(2) by simp
  qed
qed simp

lemma root_found:
  assumes "get_repo_root glob fs main_config repo = Done (t, f)"
  shows "cnfmodule_parse_file fs f = Done (Some t)" "repo = ''main'' \<Longrightarrow> f = main_config"
    "repo \<noteq> ''main'' \<Longrightarrow> find_child t repo \<noteq> None"
  using assms by (auto simp: get_repo_root_def find_repo_def andthen_Done split: if_splits option.splits
      dest: search_found)

text \<open>Rewriting the file of a section does not change which file is found for it.\<close>

lemma root_again:
  assumes "get_repo_root glob fs main_config repo = Done (t, f)"
    and "cnfmodule_parse_file fs' f = Done (Some t')" and "find_child t' repo \<noteq> None"
    and same: "\<And>g. g \<noteq> f \<Longrightarrow> g \<noteq> buf \<Longrightarrow> fs' g = fs g"
    and buf: "buf \<noteq> main_config" "\<forall>p. buf \<notin> set (glob p)" "repo \<noteq> ''main'' \<longrightarrow> f \<noteq> main_config"
  shows "get_repo_root glob fs' main_config repo = Done (t', f)"
proof (cases "repo = ''main''")
  case True
  then show ?thesis using assms(1,2) root_found(2) [OF assms(1)] by (simp add: get_repo_root_def)
next
  case False
  then obtain dir where d: "get_repodir fs main_config = Done dir"
    "search_files fs repo (glob (take 255 (dir @ ''/*.repo''))) = Done (Some (t, f))"
    using assms(1) by (auto simp: get_repo_root_def find_repo_def andthen_Done split: option.splits)
  have "fs' main_config = fs main_config" using same False buf by metis
  then have "get_repodir fs' main_config = Done dir"
    using d(1) by (simp add: get_repodir_def cnfmodule_parse_file_def)
  moreover have "search_files fs' repo (glob (take 255 (dir @ ''/*.repo''))) = Done (Some (t', f))"
    by (rule search_again [OF d(2) assms(2,3)]) (use same buf(2) in blast)
  ultimately show ?thesis using False by (simp add: get_repo_root_def find_repo_def)
qed

text \<open>What \<^verbatim>\<open>get\<close> prints for a section.\<close>

definition show_entry :: "cnfnode \<Rightarrow> string \<Rightarrow> string outcome" where
  "show_entry cn key = (if find_child cn key = None then Exit ERR_NO_SETTING
     else case get_entry cn key of None \<Rightarrow> Crash | Some v \<Rightarrow> Done (v @ [NL]))"

lemma action_get_entry:
  assumes "get_repo_root glob fs main_config repo = Done (t, f)" and "find_child t repo = Some i"
  shows "action_get glob fs main_config repo key = show_entry (first_child t ! i) key"
  using assms by (simp add: action_get_def show_entry_def get_entry_def split: option.split)

lemma show_entry_puts:
  "show_entry (entries.puts kvs cn) k =
     (case map_of (rev kvs) k of Some v \<Rightarrow> Done (v @ [NL]) | None \<Rightarrow> show_entry cn k)"
proof -
  have fc: "find_child (entries.puts kvs cn) k = None \<longleftrightarrow> find_child cn k = None \<and> map_of (rev kvs) k = None"
  proof (induction kvs arbitrary: cn)
    case (Cons kv kvs)
    obtain l v where kv: "kv = (l, v)" by (cases kv)
    have "find_child (set_entry l v cn) l \<noteq> None"
      using get_entry_set_same [of l v cn] by (auto simp: get_entry_def split: option.splits)
    with Cons.IH [of "set_entry l v cn"] find_child_set_other [of k l v cn] show ?case
      by (cases "k = l") (auto simp: kv entries.puts_simps map_add_def split: option.splits)
  qed (simp add: entries.puts_simps)
  show ?thesis
    using fc entries.get_puts [of kvs cn k]
    by (cases "map_of (rev kvs) k") (auto simp: show_entry_def list_all_iff)
qed

definition tmp_name :: "string \<Rightarrow> string" where
  "tmp_name filename = take 255 (filename @ ''.tmp'')"

text \<open>The tree after the settings were made in its section at position \<open>i\<close>.\<close>

definition edited :: "cnfnode \<Rightarrow> nat \<Rightarrow> (string \<times> string) list \<Rightarrow> cnfnode" where
  "edited t i kvs = put_child t i (entries.puts kvs (first_child t ! i))"

lemma edited_ok:
  assumes "tree_ok t" and "find_child t repo = Some i" and "\<not> starts (CHR ''.'') repo"
    and "list_all (\<lambda>(k, v). setting_ok k v \<and> leaf_key (first_child t ! i) k) kvs"
  shows "tree_ok (edited t i kvs)" "find_child (edited t i kvs) repo = Some i"
    "first_child (edited t i kvs) ! i = entries.puts kvs (first_child t ! i)"
proof -
  have i: "i < length (first_child t)" "cn_name (first_child t ! i) = repo"
    using assms(2) by (simp_all add: find_child_def find_node_Some)
  let ?s = "entries.puts kvs (first_child t ! i)"
  have top: "top_ok (first_child t)" using assms(1) by (simp add: tree_ok_def)
  from top_ok_section [OF top i(1), of ?s] i(2) assms(3)
  have "section_ok (first_child t ! i)" "section_ok ?s \<longrightarrow> top_ok ((first_child t)[i := ?s])" by simp_all
  moreover from section_ok_puts [OF this(1) assms(4)] have "section_ok ?s" "cn_name ?s = repo" using i(2) by simp_all
  ultimately show "tree_ok (edited t i kvs)" "find_child (edited t i kvs) repo = Some i"
    "first_child (edited t i kvs) ! i = ?s"
    using assms(1,2) i
    by (cases t; simp add: edited_def put_child_def tree_ok_def find_child_def find_node_update)+
qed


definition sample_files :: files where
  "sample_files = [''/etc/tdnf.conf'' \<mapsto> ''[main]'' @ [NL] @ ''gpgcheck=1'' @ [NL]]"

definition sample_main :: cnfnode where
  "sample_main = Cnf ''(root)'' None [Cnf ''main'' None [Cnf ''gpgcheck'' (Some ''1'') []]]"


end
