(* ===== verification/Conf_Vars.thy ===== *)
theory Conf_Vars
  imports Conf_Roundtrip
begin

text \<open>
  Variables in configuration values: \<^verbatim>\<open>client/varsdir.c\<close>. A file system call is a parameter. \<open>None\<close> stands for
  undefined behaviour: a buffer that is used before anything was read into it, or a variable without a
  value that is read through its NULL pointer.
\<close>

section \<open>Reading the variable directories\<close>

text \<open>The answer of the file system: the error of \<^verbatim>\<open>opendir\<close>, or the names in the directory.\<close>

type_synonym dir_reader = "string \<Rightarrow> nat + string list"

definition var_name :: "string \<Rightarrow> bool" where
  "var_name name \<longleftrightarrow> list_all (\<lambda>c. c = CHR ''_'' \<or> c_isdigit c \<or> c_islower c) name"

text \<open>
  The value is the first line without trailing white space. At the end of the file \<^verbatim>\<open>errno\<close> decides: the
  C library does not reset it, so it is a parameter.
\<close>

definition read_var :: "(string \<Rightarrow> string option) \<Rightarrow> nat \<Rightarrow> string \<Rightarrow> string \<Rightarrow> cnfnode option option" where
  "read_var read_file errno dir name =
     (case read_file (take 255 (dir @ ''/'' @ name)) of
        None \<Rightarrow> Some None
      | Some content \<Rightarrow>
          if content = [] then (if errno \<noteq> 0 then Some None else None)
          else Some (Some (cnfnode_setval (create_cnfnode name)
                 (Some (trim_end (create_confline (fst (fgets 255 content))))))))"

fun read_vars_dir ::
    "(string \<Rightarrow> string option) \<Rightarrow> nat \<Rightarrow> string \<Rightarrow> string list \<Rightarrow> cnfnode \<Rightarrow> cnfnode option option" where
  "read_vars_dir read_file errno dir [] cn_top = Some (Some cn_top)"
| "read_vars_dir read_file errno dir (name # names) cn_top =
     (if \<not> var_name name then read_vars_dir read_file errno dir names cn_top
      else case read_var read_file errno dir name of
             Some (Some cn) \<Rightarrow> read_vars_dir read_file errno dir names (append_node cn_top cn)
           | r \<Rightarrow> r)"

fun parse_dirs ::
    "dir_reader \<Rightarrow> (string \<Rightarrow> string option) \<Rightarrow> nat \<Rightarrow> string list \<Rightarrow> cnfnode \<Rightarrow> cnfnode option option" where
  "parse_dirs read_dir read_file errno [] cn_top = Some (Some cn_top)"
| "parse_dirs read_dir read_file errno (dir # dirs) cn_top =
     (case read_dir dir of
        Inl e \<Rightarrow> if e = ENOENT then parse_dirs read_dir read_file errno dirs cn_top else Some None
      | Inr names \<Rightarrow>
          (case read_vars_dir read_file errno dir names cn_top of
             Some (Some cn) \<Rightarrow> parse_dirs read_dir read_file errno dirs cn
           | r \<Rightarrow> r))"

definition parse_varsdirs ::
    "dir_reader \<Rightarrow> (string \<Rightarrow> string option) \<Rightarrow> nat \<Rightarrow> string list \<Rightarrow> cnfnode option option" where
  "parse_varsdirs read_dir read_file errno dirs =
     parse_dirs read_dir read_file errno dirs (create_cnfnode ''(root)'')"

section \<open>Replacing\<close>

definition var_value :: "cnfnode \<Rightarrow> string \<Rightarrow> string option option" where
  "var_value cn_vars name = map_option (\<lambda>i. cn_value (first_child cn_vars ! i)) (find_child cn_vars name)"

abbreviation (input) var_char :: "char \<Rightarrow> bool" where
  "var_char c \<equiv> c_isdigit c \<or> c_islower c"

text \<open>The loop: \<open>n\<close> is the room left in the destination.\<close>

lemma scan_shorter: "length (snd (scan n P s)) \<le> length s"
  by (simp add: scan_def Let_def)

lemma scan_next_shorter:
  assumes "scan n P s = (w, t)" and "t \<noteq> []" and "scan m Q (tl t) = (x, u)"
  shows "length u < length s"
proof -
  have "length t \<le> length s" "length u \<le> length (tl t)"
    using scan_shorter [of n P s] scan_shorter [of m Q "tl t"] assms by simp_all
  then show ?thesis using assms(2) by (cases t) simp_all
qed

function replace_vars_loop :: "cnfnode \<Rightarrow> nat \<Rightarrow> string \<Rightarrow> string option" where
  "replace_vars_loop cn_vars n s =
     (if s = [] \<or> n = 0 then Some []
      else case scan n (\<lambda>c. c \<noteq> CHR ''$'') s of (w, s) \<Rightarrow>
        if s = [] then Some w
        else case scan 255 (\<lambda>c. c_isdigit c \<or> c_islower c) (tl s) of (name, s) \<Rightarrow>
          (case var_value cn_vars name of
             None \<Rightarrow> map_option ((@) w) (replace_vars_loop cn_vars (n - length w) s)
           | Some None \<Rightarrow> None
           | Some (Some q) \<Rightarrow>
               let q = take (n - length w) q in
               map_option ((@) (w @ q)) (replace_vars_loop cn_vars (n - length w - length q) s)))"
  by auto
termination
  by (relation "measure (\<lambda>(v, n, s). length s)") (auto dest: scan_next_shorter [OF sym _ sym])

declare replace_vars_loop.simps [simp del]

definition replace_vars :: "cnfnode \<Rightarrow> string \<Rightarrow> string option" where
  "replace_vars cn_vars source = replace_vars_loop cn_vars 255 source"

section \<open>The replacement without a limit\<close>

text \<open>What the loop would produce in an unlimited buffer.\<close>

function expand :: "cnfnode \<Rightarrow> string \<Rightarrow> string" where
  "expand cn_vars s =
     (case dropWhile (\<lambda>c. c \<noteq> CHR ''$'') s of
        [] \<Rightarrow> s
      | _ # t \<Rightarrow>
          takeWhile (\<lambda>c. c \<noteq> CHR ''$'') s
          @ (case var_value cn_vars (takeWhile (\<lambda>c. c_isdigit c \<or> c_islower c) t) of Some (Some q) \<Rightarrow> q | _ \<Rightarrow> [])
          @ expand cn_vars (dropWhile (\<lambda>c. c_isdigit c \<or> c_islower c) t))"
  by auto
termination
proof (relation "measure (\<lambda>(v, s). length s)")
  fix cn_vars :: cnfnode and s t :: string and c
  assume "dropWhile (\<lambda>c. c \<noteq> CHR ''$'') s = c # t"
  then have "length (c # t) \<le> length s" by (metis length_dropWhile_le)
  then have "length (dropWhile (\<lambda>c. c_isdigit c \<or> c_islower c) t) < length s"
    using length_dropWhile_le [of "\<lambda>c. c_isdigit c \<or> c_islower c" t] by simp
  then show "((cn_vars, dropWhile (\<lambda>c. c_isdigit c \<or> c_islower c) t), cn_vars, s) \<in> measure (\<lambda>(v, s). length s)"
    by simp
qed simp

declare expand.simps [simp del]

text \<open>Every variable that is set has a value.\<close>

definition vars_valued :: "cnfnode \<Rightarrow> bool" where
  "vars_valued cn_vars \<longleftrightarrow> list_all (\<lambda>cn. cn_value cn \<noteq> None) (first_child cn_vars)"

lemma vars_valued_value: "vars_valued cn_vars \<Longrightarrow> var_value cn_vars name \<noteq> Some None"
  by (auto simp: vars_valued_def var_value_def find_child_def find_node_Some list_all_length)

text \<open>No name is longer than the array that names are copied into.\<close>

definition short_names :: "string \<Rightarrow> bool" where
  "short_names s \<longleftrightarrow> list_all (\<lambda>b. length (takeWhile (\<lambda>c. c_isdigit c \<or> c_islower c) b) \<le> 255) (suffixes s)"

lemma short_names_scan:
  assumes "short_names s" and "suffix b s"
  shows "scan 255 (\<lambda>c. c_isdigit c \<or> c_islower c) b
      = (takeWhile (\<lambda>c. c_isdigit c \<or> c_islower c) b, dropWhile (\<lambda>c. c_isdigit c \<or> c_islower c) b)"
    and "short_names (dropWhile (\<lambda>c. c_isdigit c \<or> c_islower c) b)"
proof -
  have "length (takeWhile (\<lambda>c. c_isdigit c \<or> c_islower c) b) \<le> 255"
    using assms by (simp add: short_names_def list_all_iff)
  then show "scan 255 (\<lambda>c. c_isdigit c \<or> c_islower c) b
      = (takeWhile (\<lambda>c. c_isdigit c \<or> c_islower c) b, dropWhile (\<lambda>c. c_isdigit c \<or> c_islower c) b)"
    by (simp add: scan_def Let_def dropWhile_eq_drop)
  have "suffix (dropWhile (\<lambda>c. c_isdigit c \<or> c_islower c) b) s"
    using assms(2) suffix_dropWhile suffix_order.trans by blast
  then show "short_names (dropWhile (\<lambda>c. c_isdigit c \<or> c_islower c) b)"
    using assms(1) suffix_order.trans by (auto simp: short_names_def list_all_iff)
qed

lemma scan_end:
  assumes "scan n P s = (w, [])"
  shows "w = s" "takeWhile P s = s" "length s \<le> n"
proof -
  from assms show ws: "w = s" using scan_append [of n P s] by simp
  have w: "w = take n (takeWhile P s)" using assms by (auto simp: scan_def Let_def)
  with ws have le: "length s \<le> length (takeWhile P s)" and "length s \<le> n"
    by (metis length_take min.cobounded1, metis length_take min.cobounded2)
  then show "length s \<le> n" by simp
  have "s = takeWhile P s @ dropWhile P s" by simp
  with le show "takeWhile P s = s"
    by (metis add_le_same_cancel1 append_Nil2 le_zero_eq length_0_conv length_append)
qed

lemma expand_dollar:
  "dropWhile (\<lambda>c. c \<noteq> CHR ''$'') s = c # t \<Longrightarrow> expand cn_vars s =
     takeWhile (\<lambda>c. c \<noteq> CHR ''$'') s
     @ (case var_value cn_vars (takeWhile (\<lambda>c. c_isdigit c \<or> c_islower c) t) of Some (Some q) \<Rightarrow> q | _ \<Rightarrow> [])
     @ expand cn_vars (dropWhile (\<lambda>c. c_isdigit c \<or> c_islower c) t)"
  by (subst expand.simps) simp

lemma expand_plain: "dropWhile (\<lambda>c. c \<noteq> CHR ''$'') s = [] \<Longrightarrow> expand cn_vars s = s"
  by (subst expand.simps) (simp only: list.case)

lemma take_expand:
  assumes "n \<le> length (takeWhile (\<lambda>c. c \<noteq> CHR ''$'') s)"
  shows "take n (expand cn_vars s) = take n (takeWhile (\<lambda>c. c \<noteq> CHR ''$'') s)"
proof (cases "dropWhile (\<lambda>c. c \<noteq> CHR ''$'') s")
  case Nil
  then have "takeWhile (\<lambda>c. c \<noteq> CHR ''$'') s = s" by (simp add: dropWhile_eq_Nil_conv takeWhile_eq_all_conv)
  then show ?thesis by (simp only: expand_plain [OF Nil])
next
  case (Cons c t)
  then show ?thesis using assms by (simp add: expand_dollar)
qed

text \<open>The room that is left only cuts: what was written is the start of the expansion.\<close>

lemma replace_vars_loop_expand:
  assumes "vars_valued cn_vars" and "short_names s"
  shows "replace_vars_loop cn_vars n s = Some (take n (expand cn_vars s))"
  using assms
proof (induction cn_vars n s rule: replace_vars_loop.induct)
  case (1 cn_vars n s)
  let ?P = "\<lambda>c. c \<noteq> CHR ''$''" and ?Q = "\<lambda>c. c_isdigit c \<or> c_islower c"
  note valued = vars_valued_value [OF "1.prems"(1)]
  obtain w t where wt: "scan n ?P s = (w, t)" by (cases "scan n ?P s")
  then have w: "w = take n (takeWhile ?P s)" and t: "t = drop (length w) s"
    by (auto simp: scan_def Let_def)
  consider "s = [] \<or> n = 0" | "s \<noteq> []" "n > 0" "t = []" | "s \<noteq> []" "n > 0" "t \<noteq> []" "length w = n"
    | "s \<noteq> []" "n > 0" "t \<noteq> []" "length w < n"
    using w by fastforce
  then show ?case
  proof cases
    case 1
    then show ?thesis by (subst replace_vars_loop.simps, subst expand.simps) auto
  next
    case 2
    with wt have "scan n ?P s = (w, [])" by simp
    note e = scan_end [OF this]
    from e(2) have "dropWhile ?P s = []" by (simp add: dropWhile_eq_Nil_conv takeWhile_eq_all_conv)
    with 2 wt e show ?thesis by (subst replace_vars_loop.simps) (simp add: expand_plain)
  next
    case 3
    then have "take n (expand cn_vars s) = w" using w by (simp add: take_expand)
    moreover have "replace_vars_loop cn_vars 0 u = Some []" for u by (subst replace_vars_loop.simps) simp
    ultimately show ?thesis using 3 wt valued
      by (subst replace_vars_loop.simps) (auto simp: split_beta split: option.split)
  next
    case 4
    then have w': "w = takeWhile ?P s" using w by (metis length_take less_irrefl min_def nat_le_linear take_all)
    then have t': "t = dropWhile ?P s" using t by (simp add: dropWhile_eq_drop)
    obtain r where r: "t = CHR ''$'' # r" using 4(3) t' by (metis (full_types) hd_dropWhile_not list.exhaust_sel)
    have "suffix r s" using t' r by (metis suffix_ConsD suffix_dropWhile)
    note sc = short_names_scan [OF "1.prems"(2) this]
    let ?name = "takeWhile ?Q r" and ?u = "dropWhile ?Q r"
    have eq: "replace_vars_loop cn_vars n s = (case var_value cn_vars ?name of
        None \<Rightarrow> map_option ((@) w) (replace_vars_loop cn_vars (n - length w) ?u)
      | Some None \<Rightarrow> None
      | Some (Some q) \<Rightarrow> map_option ((@) (w @ take (n - length w) q))
          (replace_vars_loop cn_vars (n - length w - length (take (n - length w) q)) ?u))"
      using 4 wt r sc(1) by (subst replace_vars_loop.simps) (simp add: Let_def split: option.split)
    have ex: "expand cn_vars s = w @ (case var_value cn_vars ?name of Some (Some q) \<Rightarrow> q | _ \<Rightarrow> []) @ expand cn_vars ?u"
    proof -
      have "dropWhile ?P s = CHR ''$'' # r" using t' r by simp
      from expand_dollar [OF this, of cn_vars] show ?thesis by (simp only: w')
    qed
    have sc1: "(?name, ?u) = scan 255 ?Q (tl t)" using sc(1) r by simp
    have neg: "\<not> (s = [] \<or> n = 0)" using 4 by simp
    show ?thesis
    proof (cases "var_value cn_vars ?name")
      case None
      from "1.IH"(1) [OF neg wt [symmetric] 4(3) sc1 None] "1.prems"(1) sc(2) 
      have "replace_vars_loop cn_vars (n - length w) ?u = Some (take (n - length w) (expand cn_vars ?u))" by simp
      with eq ex None 4(4) show ?thesis by simp
    next
      case (Some v)
      then obtain q where q: "v = Some q" using valued by (cases v) auto
      let ?q = "take (n - length w) q"
      from "1.IH"(2) [OF neg wt [symmetric] 4(3) sc1 Some q refl] "1.prems"(1) sc(2)
      have "replace_vars_loop cn_vars (n - length w - length ?q) ?u
          = Some (take (n - length w - length ?q) (expand cn_vars ?u))" by simp
      moreover have "n - length w - length ?q = n - length w - length q" by simp
      ultimately show ?thesis using eq ex Some q 4(4) by simp
    qed
  qed
qed

text \<open>C37: \<^verbatim>\<open>replace_vars\<close> writes the first 255 characters of the text in which every variable stands for its
  value, and unknown variables for nothing.\<close>

theorem replace_vars_expands:
  assumes "vars_valued cn_vars" and "short_names s"
  shows "replace_vars cn_vars s = Some (take 255 (expand cn_vars s))"
  using replace_vars_loop_expand [OF assms] by (simp add: replace_vars_def)

theorem replace_vars_expands_witness:
  "replace_vars (Cnf ''(root)'' None [Cnf ''releasever'' (Some ''5.0'') []]) ''p/$releasever/$x'' = Some ''p/5.0/''"
proof -
  have h: "vars_valued (Cnf ''(root)'' None [Cnf ''releasever'' (Some ''5.0'') []])" "short_names ''p/$releasever/$x''"
    by code_simp+
  have "expand (Cnf ''(root)'' None [Cnf ''releasever'' (Some ''5.0'') []]) ''p/$releasever/$x'' = ''p/5.0/''"
    by (simp add: expand.simps var_value_def find_child_def c_isdigit_def c_islower_def)
  with replace_vars_expands [OF h] show ?thesis by simp
qed

section \<open>The client's use of it\<close>

text \<open>
  \<^verbatim>\<open>TDNFConfigReplaceVars\<close> of \<^verbatim>\<open>client/config.c\<close>: the variables of the directories come first, so a file
  named \<^verbatim>\<open>releasever\<close> overrides the one of the configuration.
\<close>

definition config_vars :: "cnfnode \<Rightarrow> string option \<Rightarrow> string option \<Rightarrow> cnfnode" where
  "config_vars cn_vars releasever basearch =
     append_node (append_node cn_vars (cnfnode_setval (create_cnfnode ''releasever'') releasever))
       (cnfnode_setval (create_cnfnode ''basearch'') basearch)"

definition TDNFConfigReplaceVars ::
    "cnfnode option option \<Rightarrow> string option \<Rightarrow> string option \<Rightarrow> string option \<Rightarrow> string result option" where
  "TDNFConfigReplaceVars parsed_dirs releasever basearch str =
     (if IsNullOrEmptyString str then Some (Inl ERROR_TDNF_INVALID_PARAMETER)
      else case parsed_dirs of
        None \<Rightarrow> None
      | Some None \<Rightarrow> Some (Inl ERROR_TDNF_INVALID_PARAMETER)
      | Some (Some cn_vars) \<Rightarrow>
          map_option Inr (replace_vars (config_vars cn_vars releasever basearch) (the str)))"

lemma find_child_append:
  "find_child (append_node cn c) name = (case find_child cn name of
     Some i \<Rightarrow> Some i | None \<Rightarrow> if cn_name c = name then Some (length (first_child cn)) else None)"
  by (simp add: find_child_def append_node_def find_node_append split: option.split)

text \<open>A configuration that uses \<^verbatim>\<open>$releasever\<close> when no package provides the release version reads
  through a NULL pointer: the variable is added without a value.\<close>

theorem replace_unset_releasever:
  "TDNFConfigReplaceVars (Some (Some (create_cnfnode ''(root)''))) None (Some ''x86_64'') (Some ''$releasever'') = None"
proof -
  have v: "var_value (config_vars (create_cnfnode ''(root)'') None (Some ''x86_64'')) ''releasever'' = Some None"
    by (simp add: var_value_def config_vars_def find_child_append find_child_def create_cnfnode_def
        cnfnode_setval_def append_node_def)
  have "scan 255 (\<lambda>c. c \<noteq> CHR ''$'') ''$releasever'' = ([], ''$releasever'')"
    "scan 255 (\<lambda>c. c_isdigit c \<or> c_islower c) ''releasever'' = (''releasever'', [])" by code_simp+
  with v have "replace_vars (config_vars (create_cnfnode ''(root)'') None (Some ''x86_64'')) ''$releasever'' = None"
    unfolding replace_vars_def by (subst replace_vars_loop.simps) simp
  then show ?thesis by (simp add: TDNFConfigReplaceVars_def)
qed

end
