(* ===== verification/Tdnf_Effects.thy ===== *)
theory Tdnf_Effects
  imports Tdnf_Prelude
begin

text \<open>
  Sequencing of C functions that call out of the program: a step takes the state \<open>'w\<close> of the world
  outside (loaded plugins, files, the network) and ends with an error code or a value and the new world, or
  is undefined (\<open>None\<close>: a call or a read through NULL).
\<close>

section \<open>Steps\<close>

type_synonym ('w, 'a) prog = "'w \<Rightarrow> ('a result \<times> 'w) option"

definition returnP :: "'a \<Rightarrow> ('w, 'a) prog" where
  "returnP x w = Some (Inr x, w)"

definition errorP :: "errcode \<Rightarrow> ('w, 'a) prog" where
  "errorP e w = Some (Inl e, w)"

definition bindP :: "('w, 'a) prog \<Rightarrow> ('a \<Rightarrow> ('w, 'b) prog) \<Rightarrow> ('w, 'b) prog" where
  "bindP m f w = (case m w of
     None \<Rightarrow> None | Some (Inl e, w) \<Rightarrow> Some (Inl e, w) | Some (Inr x, w) \<Rightarrow> f x w)"

text \<open>A call through a function pointer that may be NULL.\<close>

definition call :: "('w \<Rightarrow> errcode \<times> 'a \<times> 'w) option \<Rightarrow> ('w, errcode \<times> 'a) prog" where
  "call f w = (case f of None \<Rightarrow> None | Some g \<Rightarrow> (case g w of (e, x, w) \<Rightarrow> Some (Inr (e, x), w)))"

text \<open>A value that does not depend on the world: a result, or a result that may be undefined.\<close>

definition liftR :: "'a result \<Rightarrow> ('w, 'a) prog" where
  "liftR r w = Some (r, w)"

definition liftU :: "'a result option \<Rightarrow> ('w, 'a) prog" where
  "liftU r w = (case r of None \<Rightarrow> None | Some x \<Rightarrow> Some (x, w))"

text \<open>A step whose error is not passed on.\<close>

definition catchP :: "('w, 'a) prog \<Rightarrow> ('w, 'a option) prog" where
  "catchP m w = (case m w of
     None \<Rightarrow> None | Some (Inl e, w) \<Rightarrow> Some (Inr None, w) | Some (Inr x, w) \<Rightarrow> Some (Inr (Some x), w))"

text \<open>A step whose error is a value.\<close>

definition catch_error :: "('w, 'a) prog \<Rightarrow> ('w, 'a result) prog" where
  "catch_error m w = (case m w of None \<Rightarrow> None | Some (r, w) \<Rightarrow> Some (Inr r, w))"

lemma catch_error_simp [simp]: "m w = Some (r, w') \<Longrightarrow> catch_error m w = Some (Inr r, w')"
  by (simp add: catch_error_def)

lemma prog_simps [simp]:
  "returnP x w = Some (Inr x, w)" "errorP e w = Some (Inl e, w)" "liftR r w = Some (r, w)"
  "liftU None w = None" "liftU (Some r) w = Some (r, w)"
  "call None w = None" "call (Some g) w = (case g w of (e, x, w) \<Rightarrow> Some (Inr (e, x), w))"
  by (simp_all add: returnP_def errorP_def liftR_def liftU_def call_def)

lemma bindP_simps:
  "m w = None \<Longrightarrow> bindP m f w = None"
  "m w = Some (Inl e, w') \<Longrightarrow> bindP m f w = Some (Inl e, w')"
  "m w = Some (Inr x, w') \<Longrightarrow> bindP m f w = f x w'"
  by (simp_all add: bindP_def)

lemma bindP_ok: "bindP m f w = Some (Inr y, w'') \<longleftrightarrow> (\<exists>x w'. m w = Some (Inr x, w') \<and> f x w' = Some (Inr y, w''))"
  by (auto simp: bindP_def split: option.splits sum.splits)

lemma liftU_ok [simp]: "liftU r w = Some (Inr x, w') \<longleftrightarrow> r = Some (Inr x) \<and> w' = w"
  by (auto simp: liftU_def split: option.split)

lemma bindP_return [simp]: "bindP (returnP x) f = f x" "bindP (errorP e) f = errorP e"
  by (auto simp: bindP_def fun_eq_iff)

lemma bindP_lift [simp]:
  "bindP (liftR (Inr x)) f = f x" "bindP (liftR (Inl e)) f = errorP e"
  "bindP (liftU (Some (Inr x))) f = f x" "bindP (liftU (Some (Inl e))) f = errorP e"
  by (auto simp: bindP_def fun_eq_iff)

section \<open>Results that may be undefined\<close>

definition thenU :: "'a result option \<Rightarrow> ('a \<Rightarrow> 'b result option) \<Rightarrow> 'b result option" where
  "thenU m f = (case m of None \<Rightarrow> None | Some (Inl e) \<Rightarrow> Some (Inl e) | Some (Inr x) \<Rightarrow> f x)"

lemma thenU_simps [simp]:
  "thenU None f = None" "thenU (Some (Inl e)) f = Some (Inl e)" "thenU (Some (Inr x)) f = f x"
  by (simp_all add: thenU_def)

lemma thenU_ok: "thenU m f = Some (Inr y) \<longleftrightarrow> (\<exists>x. m = Some (Inr x) \<and> f x = Some (Inr y))"
  by (auto simp: thenU_def split: option.splits sum.splits)

lemma thenU_defined: "thenU m f \<noteq> None \<longleftrightarrow> m \<noteq> None \<and> (\<forall>x. m = Some (Inr x) \<longrightarrow> f x \<noteq> None)"
  by (auto simp: thenU_def split: option.splits sum.splits)

section \<open>Steps that do not crash\<close>

definition defined :: "('w, 'a) prog \<Rightarrow> bool" where
  "defined m \<longleftrightarrow> (\<forall>w. m w \<noteq> None)"

lemma defined_simps [simp, intro]:
  "defined (returnP x)" "defined (errorP e)" "defined (liftR r)" "defined (call (Some g))"
  "defined (\<lambda>w. Some (r, w))"
  by (auto simp: defined_def split: prod.split)

lemma defined_bind [intro]: "defined m \<Longrightarrow> (\<And>x. defined (f x)) \<Longrightarrow> defined (bindP m f)"
  by (fastforce simp: defined_def bindP_def split: option.split sum.split)

lemma defined_catch [intro]: "defined m \<Longrightarrow> defined (catchP m)"
  by (fastforce simp: defined_def catchP_def split: option.split sum.split)

text \<open>The dual of an error: the values a step can end with.\<close>

definition ends_with :: "('w, 'a) prog \<Rightarrow> ('a \<Rightarrow> bool) \<Rightarrow> bool" where
  "ends_with m P \<longleftrightarrow> (\<forall>w. case m w of Some (Inr x, w') \<Rightarrow> P x | _ \<Rightarrow> True)"

lemma ends_withI: "(\<And>w x w'. m w = Some (Inr x, w') \<Longrightarrow> P x) \<Longrightarrow> ends_with m P"
  by (auto simp: ends_with_def split: option.split sum.split)

lemma ends_withD: "ends_with m P \<Longrightarrow> m w = Some (Inr x, w') \<Longrightarrow> P x"
  by (auto simp: ends_with_def dest: spec [of _ w])

lemma ends_with_simps [simp]:
  "ends_with (returnP x) P \<longleftrightarrow> P x" "ends_with (errorP e) P"
  "ends_with (liftR r) P \<longleftrightarrow> (case r of Inl e \<Rightarrow> True | Inr x \<Rightarrow> P x)"
  by (auto simp: ends_with_def split: sum.split)

lemma ends_with_bind: "ends_with m Q \<Longrightarrow> (\<And>x. Q x \<Longrightarrow> ends_with (f x) P) \<Longrightarrow> ends_with (bindP m f) P"
  by (rule ends_withI) (auto simp: bindP_ok dest: ends_withD)

lemma ends_with_True: "ends_with m (\<lambda>_. True)"
  by (rule ends_withI) simp

section \<open>Steps that leave a part of the world\<close>

definition leaves :: "('w \<Rightarrow> 'b) \<Rightarrow> ('w, 'a) prog \<Rightarrow> bool" where
  "leaves g m \<longleftrightarrow> (\<forall>w r w'. m w = Some (r, w') \<longrightarrow> g w' = g w)"

lemma leavesI: "(\<And>w r w'. m w = Some (r, w') \<Longrightarrow> g w' = g w) \<Longrightarrow> leaves g m"
  by (simp add: leaves_def)

lemma leavesD: "leaves g m \<Longrightarrow> m w = Some (r, w') \<Longrightarrow> g w' = g w"
  by (auto simp: leaves_def)

lemma leaves_simps [simp]:
  "leaves g (returnP x)" "leaves g (errorP e)" "leaves g (liftR r)" "leaves g (liftU u)" "leaves g (\<lambda>w. None)" "leaves g (\<lambda>w. Some (r, w))"
  by (auto simp: leaves_def liftU_def split: option.splits)

lemma leaves_bind [intro!]: "leaves g m \<Longrightarrow> (\<And>x. leaves g (f x)) \<Longrightarrow> leaves g (bindP m f)"
  by (fastforce simp: leaves_def bindP_def split: option.splits sum.splits)

lemma leaves_catch [intro!]: "leaves g m \<Longrightarrow> leaves g (catch_error m)"
  by (auto simp: leaves_def catch_error_def split: option.splits)

lemma leaves_pair: "leaves f m \<Longrightarrow> leaves g m \<Longrightarrow> leaves (\<lambda>w. (f w, g w)) m"
  by (simp add: leaves_def)

text \<open>An invariant that a step keeps, however it ends.\<close>

definition stays :: "('w \<Rightarrow> bool) \<Rightarrow> ('w, 'a) prog \<Rightarrow> bool" where
  "stays P m \<longleftrightarrow> (\<forall>w r w'. P w \<longrightarrow> m w = Some (r, w') \<longrightarrow> P w')"

lemma staysD: "stays P m \<Longrightarrow> m w = Some (r, w') \<Longrightarrow> P w \<Longrightarrow> P w'"
  by (auto simp: stays_def)

lemma stays_simps [simp]:
  "stays P (returnP x)" "stays P (errorP e)" "stays P (liftR r)" "stays P (liftU u)" "stays P (\<lambda>w. None)" "stays P (\<lambda>w. Some (r, w))"
  by (auto simp: stays_def liftU_def split: option.splits)

lemma bindP_cases:
  assumes "bindP m f w = Some (r, w')"
  obtains (fails) e where "m w = Some (Inl e, w')" "r = Inl e"
  | (goes) x v where "m w = Some (Inr x, v)" "f x v = Some (r, w')"
  using assms by (auto simp: bindP_def split: option.splits sum.splits)

lemma stays_bind [intro!]:
  assumes "stays P m" and "\<And>x. stays P (f x)"
  shows "stays P (bindP m f)"
  unfolding stays_def
proof (intro allI impI)
  fix w r w' assume w: "P w" and run: "bindP m f w = Some (r, w')"
  from run show "P w'"
  proof (cases rule: bindP_cases)
    case fails
    then show ?thesis using staysD [OF assms(1) _ w] by blast
  next
    case (goes x v)
    then show ?thesis using staysD [OF assms(2)] staysD [OF assms(1) _ w] by blast
  qed
qed

lemma stays_catch [intro!]: "stays P m \<Longrightarrow> stays P (catch_error m)"
  by (auto simp: stays_def catch_error_def split: option.splits)

lemma leaves_stays: "leaves g m \<Longrightarrow> stays (\<lambda>w. Q (g w)) m"
  by (auto simp: stays_def leaves_def)

end
