(* ===== verification/Tdnf_Strings.thy ===== *)
theory Tdnf_Strings
  imports Tdnf_Prelude
begin

text \<open>
  The string helpers of \<^verbatim>\<open>common/strings.c\<close>: allocation with the length limit, splitting and
  joining of string arrays, replacement, suffix tests and sorting.
  The pointer loops are recursions on the rest of the string.
\<close>

section \<open>Allocation\<close>

definition TDNFAllocateString :: "string option \<Rightarrow> string result" where
  "TDNFAllocateString pszSrc =
     (case pszSrc of
        None \<Rightarrow> Inl ERROR_TDNF_INVALID_PARAMETER
      | Some s \<Rightarrow> if length s > TDNF_DEFAULT_MAX_STRING_LEN then Inl ERROR_TDNF_STRING_TOO_LONG
                 else Inr s)"

definition TDNFSafeAllocateString :: "string option \<Rightarrow> string option result" where
  "TDNFSafeAllocateString pszSrc =
     (case pszSrc of
        None \<Rightarrow> Inr None
      | Some s \<Rightarrow> bail (TDNFAllocateString (Some s)) (\<lambda>d. Inr (Some d)))"

definition TDNFAllocateStringN :: "string option \<Rightarrow> nat \<Rightarrow> string result" where
  "TDNFAllocateStringN pszSrc dwNumElements =
     (case pszSrc of
        None \<Rightarrow> Inl ERROR_TDNF_INVALID_PARAMETER
      | Some s \<Rightarrow> if dwNumElements > length s then Inl ERROR_TDNF_INVALID_PARAMETER
                 else Inr (take dwNumElements s))"

text \<open>
  The formatted string is the argument \<open>out\<close>; \<open>errno\<close> is the value the C library left behind
  before the call. A zero length result is treated as a failure with that stale value, and as a
  success when it happens to be 0.
\<close>

definition TDNFAllocateStringPrintf :: "nat \<Rightarrow> string \<Rightarrow> string result" where
  "TDNFAllocateStringPrintf errno out =
     (if length out = 0 \<and> errno \<noteq> 0 then Inl (ERROR_TDNF_SYSTEM_BASE + errno)
      else if length out + 1 > TDNF_DEFAULT_MAX_STRING_LEN then Inl ERROR_TDNF_STRING_TOO_LONG
      else Inr out)"

fun alloc_strings :: "string list \<Rightarrow> string list result" where
  "alloc_strings [] = Inr []"
| "alloc_strings (s # ss) =
     bail (TDNFSafeAllocateString (Some s)) (\<lambda>d. bail (alloc_strings ss) (\<lambda>ds.
       Inr (case d of None \<Rightarrow> ds | Some x \<Rightarrow> x # ds)))"

definition TDNFAllocateStringArray :: "string list option \<Rightarrow> string list result" where
  "TDNFAllocateStringArray ppszSrc =
     (case ppszSrc of None \<Rightarrow> Inl ERROR_TDNF_INVALID_PARAMETER | Some ss \<Rightarrow> alloc_strings ss)"

lemma AllocateString_Inr [simp]:
  "TDNFAllocateString s = Inr t \<longleftrightarrow> s = Some t \<and> length t \<le> TDNF_DEFAULT_MAX_STRING_LEN"
  by (auto simp: TDNFAllocateString_def split: option.splits)

lemma AllocateStringArray_copy:
  "TDNFAllocateStringArray (Some ss) = Inr ts \<Longrightarrow> ts = ss"
proof (induction ss arbitrary: ts)
  case Nil
  then show ?case by (simp add: TDNFAllocateStringArray_def)
next
  case (Cons s ss)
  then show ?case
    by (auto simp: TDNFAllocateStringArray_def TDNFSafeAllocateString_def bail_Inr_iff)
qed

section \<open>Splitting\<close>

text \<open>
  \<open>strchr(pszSep, *p)\<close> on a character \<open>c\<close> that is not NUL is \<open>c \<in> set sep\<close>.
  The two passes of the C code are two functions: the first counts the tokens for the
  allocation of \<open>n + 1\<close> slots, the second fills the slots.
\<close>

function sep_count :: "string \<Rightarrow> string \<Rightarrow> nat" where
  "sep_count sep p =
     (let p1 = dropWhile (\<lambda>c. c \<in> set sep) p in
      if p1 = [] then 0
      else Suc (sep_count sep (dropWhile (\<lambda>c. c \<notin> set sep) p1)))"
  by pat_completeness auto

function split_tokens :: "string \<Rightarrow> string \<Rightarrow> string list" where
  "split_tokens sep p =
     (let p0 = dropWhile (\<lambda>c. c \<in> set sep) p in
      if p0 = [] then []
      else takeWhile (\<lambda>c. c \<notin> set sep) p0
             # split_tokens sep (dropWhile (\<lambda>c. c \<notin> set sep) p0))"
  by pat_completeness auto

lemma scan_token_shrinks:
  assumes "dropWhile P p \<noteq> []"
  shows "length (dropWhile (\<lambda>c. \<not> P c) (dropWhile P p)) < length p"
proof -
  have "\<not> P (hd (dropWhile P p))" using assms by (rule hd_dropWhile_not)
  with assms have "length (dropWhile (\<lambda>c. \<not> P c) (dropWhile P p)) < length (dropWhile P p)"
    by (intro length_dropWhile_less)
  also have "\<dots> \<le> length p" by (rule length_dropWhile_le)
  finally show ?thesis .
qed

termination sep_count
  by (relation "measure (\<lambda>(sep, p). length p)") (auto simp del: dropWhile_eq_Nil_conv dest: scan_token_shrinks)

termination split_tokens
  by (relation "measure (\<lambda>(sep, p). length p)") (auto simp del: dropWhile_eq_Nil_conv dest: scan_token_shrinks)

declare sep_count.simps [simp del] split_tokens.simps [simp del]

definition TDNFStringSepCount :: "string option \<Rightarrow> string option \<Rightarrow> nat result" where
  "TDNFStringSepCount pszBuf pszSep =
     (case pszBuf of
        None \<Rightarrow> Inl ERROR_TDNF_INVALID_PARAMETER
      | Some buf \<Rightarrow> if IsNullOrEmptyString pszSep then Inl ERROR_TDNF_INVALID_PARAMETER
                   else Inr (sep_count (the pszSep) buf))"

definition TDNFSplitStringToArray :: "string option \<Rightarrow> string option \<Rightarrow> string list result" where
  "TDNFSplitStringToArray pszBuf pszSep =
     (case pszBuf of
        None \<Rightarrow> Inl ERROR_TDNF_INVALID_PARAMETER
      | Some buf \<Rightarrow>
          if IsNullOrEmptyString pszSep then Inl ERROR_TDNF_INVALID_PARAMETER
          else bail (TDNFStringSepCount pszBuf pszSep) (\<lambda>n. Inr (split_tokens (the pszSep) buf)))"

text \<open>The second pass writes exactly as many tokens as the first pass allocated slots for.\<close>

lemma split_tokens_count: "length (split_tokens sep p) = sep_count sep p"
proof (induction sep p rule: sep_count.induct)
  case (1 sep p)
  show ?case
    using "1.IH" by (simp add: Let_def sep_count.simps [of sep p] split_tokens.simps [of sep p])
qed

lemma split_tokens_done: "dropWhile (\<lambda>c. c \<in> set sep) p = [] \<Longrightarrow> split_tokens sep p = []"
  by (subst split_tokens.simps) (simp add: Let_def)

lemma split_tokens_step:
  "dropWhile (\<lambda>c. c \<in> set sep) p = p0 \<Longrightarrow> p0 \<noteq> [] \<Longrightarrow>
    split_tokens sep p = takeWhile (\<lambda>c. c \<notin> set sep) p0
      # split_tokens sep (dropWhile (\<lambda>c. c \<notin> set sep) p0)"
  by (subst split_tokens.simps) (simp add: Let_def)

lemma split_tokens_wf:
  "t \<in> set (split_tokens sep p) \<Longrightarrow> t \<noteq> [] \<and> set t \<inter> set sep = {}"
proof (induction sep p rule: split_tokens.induct)
  case (1 sep p)
  define p0 where "p0 = dropWhile (\<lambda>c. c \<in> set sep) p"
  show ?case
  proof (cases "p0 = []")
    case True
    with "1.prems" show ?thesis by (simp add: split_tokens_done p0_def)
  next
    case False
    then have "hd p0 \<notin> set sep"
      using hd_dropWhile_not [of "\<lambda>c. c \<in> set sep" p]
      by (simp add: p0_def del: dropWhile_eq_Nil_conv)
    then have ne: "takeWhile (\<lambda>c. c \<notin> set sep) p0 \<noteq> []"
      using False by (intro takeWhile_nonempty) auto
    from "1.prems" have "t = takeWhile (\<lambda>c. c \<notin> set sep) p0
        \<or> t \<in> set (split_tokens sep (dropWhile (\<lambda>c. c \<notin> set sep) p0))"
      by (simp add: split_tokens_step [OF p0_def [symmetric] False])
    then show ?thesis
      using ne "1.IH" [OF p0_def False] by (auto dest: set_takeWhileD)
  qed
qed

text \<open>No character other than a separator is lost or reordered.\<close>

lemma filter_dropWhile_in: "filter (\<lambda>c. c \<notin> S) (dropWhile (\<lambda>c. c \<in> S) p) = filter (\<lambda>c. c \<notin> S) p"
  by (induction p) auto

lemma filter_token_split: "filter P p0 = takeWhile P p0 @ filter P (dropWhile P p0)"
  by (induction p0) auto

lemma split_tokens_concat: "concat (split_tokens sep p) = filter (\<lambda>c. c \<notin> set sep) p"
proof (induction sep p rule: split_tokens.induct)
  case (1 sep p)
  define p0 where "p0 = dropWhile (\<lambda>c. c \<in> set sep) p"
  have f: "filter (\<lambda>c. c \<notin> set sep) p0 = filter (\<lambda>c. c \<notin> set sep) p"
    by (simp add: p0_def filter_dropWhile_in)
  show ?case
  proof (cases "p0 = []")
    case True
    then have "split_tokens sep p = []" by (simp add: split_tokens_done p0_def)
    moreover from True f have "filter (\<lambda>c. c \<notin> set sep) p = []" by simp
    ultimately show ?thesis by simp
  next
    case False
    show ?thesis
      using "1.IH" [OF p0_def False] f filter_token_split [of "\<lambda>c. c \<notin> set sep" p0]
      by (simp add: split_tokens_step [OF p0_def [symmetric] False])
  qed
qed

text \<open>Splitting what was joined with a separator character gives the tokens back.\<close>

lemma split_tokens_append_sep:
  assumes "t \<noteq> []" and "c \<notin> set t"
  shows "split_tokens [c] (t @ c # rest) = t # split_tokens [c] (c # rest)"
    and "split_tokens [c] t = [t]"
proof -
  have d: "dropWhile (\<lambda>x. x \<in> set [c]) (t @ r) = t @ r" for r
    using assms by (cases t) auto
  have tw: "takeWhile (\<lambda>x. x \<notin> set [c]) (t @ c # rest) = t"
    and dw: "dropWhile (\<lambda>x. x \<notin> set [c]) (t @ c # rest) = c # rest"
    using assms(2) by (induction t) auto
  show "split_tokens [c] (t @ c # rest) = t # split_tokens [c] (c # rest)"
    using split_tokens_step [OF d] assms(1) tw dw by auto
  have all: "\<forall>x \<in> set t. x \<notin> set [c]" using assms(2) by auto
  then have "takeWhile (\<lambda>x. x \<notin> set [c]) t = t" "dropWhile (\<lambda>x. x \<notin> set [c]) t = []"
    by (simp_all add: takeWhile_eq_all_conv)
  then show "split_tokens [c] t = [t]"
    using split_tokens_step [OF d [of "[]"]] assms(1)
    by (simp add: split_tokens_done del: dropWhile_eq_Nil_conv)
qed

lemma split_tokens_skip_sep: "split_tokens [c] (c # rest) = split_tokens [c] rest"
  by (subst (1 2) split_tokens.simps) (simp add: Let_def)

lemma first_token_split:
  assumes "a \<noteq> []" and "hd a \<noteq> c"
  obtains (all) "c \<notin> set a" | (sep) t ys where "a = t @ c # ys" "t \<noteq> []" "c \<notin> set t"
proof (cases "c \<in> set a")
  case True
  then obtain t ys where a: "a = t @ c # ys" "c \<notin> set t" by (metis split_list_first)
  with assms have "t \<noteq> []" by (cases t) auto
  with a that(2) show thesis by blast
qed (use that in blast)

lemma split_tokens_append:
  "split_tokens [c] (a @ c # r) = split_tokens [c] a @ split_tokens [c] r"
proof (induction a rule: length_induct)
  case (1 a)
  show ?case
  proof (cases "a = []")
    case True
    then show ?thesis by (simp add: split_tokens_skip_sep split_tokens_done)
  next
    case ne: False
    show ?thesis
    proof (cases "hd a = c")
      case True
      with ne obtain b where "a = c # b" by (cases a) auto
      with 1 show ?thesis by (simp add: split_tokens_skip_sep)
    next
      case False
      with ne show ?thesis
      proof (cases rule: first_token_split)
        case all
        then show ?thesis using ne split_tokens_append_sep by (simp add: split_tokens_skip_sep)
      next
        case (sep t ys)
        with 1 have "split_tokens [c] (ys @ c # r) = split_tokens [c] ys @ split_tokens [c] r" by simp
        with sep show ?thesis
          by (simp add: split_tokens_append_sep(1) split_tokens_skip_sep)
      qed
    qed
  qed
qed

lemma split_join:
  assumes "\<forall>t \<in> set ts. t \<noteq> [] \<and> c \<notin> set t"
  shows "split_tokens [c] (intercalate [c] ts) = ts"
  using assms
proof (induction "[c]" ts rule: intercalate.induct)
  case 1
  show ?case by (simp add: split_tokens_done)
next
  case (2 t)
  then show ?case by (simp add: split_tokens_append_sep)
next
  case (3 t u ts)
  then have "split_tokens [c] (t @ c # intercalate [c] (u # ts))
      = t # split_tokens [c] (intercalate [c] (u # ts))"
    by (subst split_tokens_append_sep) (simp_all add: split_tokens_skip_sep)
  with 3 show ?case by simp
qed

section \<open>Joining\<close>

text \<open>
  \<open>k\<close> is \<^verbatim>\<open>count - i\<close>; the list is \<^verbatim>\<open>ppszArray\<close> from index \<^verbatim>\<open>i\<close> on, so that the empty list is
  the NULL slot that ends the array.
\<close>

fun join_loop :: "string \<Rightarrow> nat \<Rightarrow> string list \<Rightarrow> string" where
  "join_loop sep 0 xs = []"
| "join_loop sep (Suc k) [] = []"
| "join_loop sep (Suc k) (x # xs) =
     x @ (if 0 < k \<and> xs \<noteq> [] then sep else []) @ join_loop sep k xs"

fun join_size_loop :: "nat \<Rightarrow> string list \<Rightarrow> nat" where
  "join_size_loop 0 xs = 0"
| "join_size_loop (Suc k) [] = 0"
| "join_size_loop (Suc k) (x # xs) = length x + join_size_loop k xs"

definition join_buffer_size :: "string \<Rightarrow> nat \<Rightarrow> string list \<Rightarrow> nat" where
  "join_buffer_size sep count xs = length sep * count + join_size_loop count xs + 1"

definition TDNFJoinArrayToString ::
    "string list option \<Rightarrow> string option \<Rightarrow> nat \<Rightarrow> string result" where
  "TDNFJoinArrayToString ppszArray pszSep count =
     (case (ppszArray, pszSep) of
        (Some xs, Some sep) \<Rightarrow> Inr (join_loop sep count xs)
      | _ \<Rightarrow> Inl ERROR_TDNF_INVALID_PARAMETER)"

lemma join_loop_intercalate: "join_loop sep k xs = intercalate sep (take k xs)"
proof (induction sep k xs rule: join_loop.induct)
  case (3 sep k x xs)
  then show ?case by (cases k; cases xs) (auto simp: intercalate_Cons)
qed simp_all

lemma join_loop_fits: "length (join_loop sep count xs) < join_buffer_size sep count xs"
proof -
  have "length (join_loop sep k xs) \<le> length sep * k + join_size_loop k xs" for k
    by (induction sep k xs rule: join_loop.induct) auto
  then show ?thesis by (simp add: join_buffer_size_def le_imp_less_Suc)
qed

text \<open>\<^verbatim>\<open>TDNFStringArraySort\<close>: \<open>qsort\<close> with \<open>strcmp\<close>; equal strings are indistinguishable.\<close>

definition TDNFStringArraySort :: "string list option \<Rightarrow> string list result" where
  "TDNFStringArraySort ppszArray =
     (case ppszArray of None \<Rightarrow> Inl ERROR_TDNF_INVALID_PARAMETER | Some xs \<Rightarrow> Inr (sort xs))"

definition TDNFStringArrayCount :: "string list option \<Rightarrow> nat result" where
  "TDNFStringArrayCount ppszArray =
     (case ppszArray of None \<Rightarrow> Inl ERROR_TDNF_INVALID_PARAMETER | Some xs \<Rightarrow> Inr (length xs))"

text \<open>The loop that appends a line when it differs from the previous one; \<open>None\<close> is \<^verbatim>\<open>i == 0\<close>.\<close>

fun join_unique :: "string \<Rightarrow> string option \<Rightarrow> string list \<Rightarrow> string" where
  "join_unique sep prev [] = []"
| "join_unique sep None (l # ls) = l @ join_unique sep (Some l) ls"
| "join_unique sep (Some p) (l # ls) =
     (if l \<noteq> p then sep @ l else []) @ join_unique sep (Some l) ls"

fun unique_size :: "string option \<Rightarrow> string list \<Rightarrow> nat" where
  "unique_size prev [] = 0"
| "unique_size None (l # ls) = length l + unique_size (Some l) ls"
| "unique_size (Some p) (l # ls) = (if l \<noteq> p then length l else 0) + unique_size (Some l) ls"

definition join_sorted_buffer_size :: "string \<Rightarrow> string list \<Rightarrow> nat" where
  "join_sorted_buffer_size sep ls = length sep * (length ls + 1) + unique_size None ls + 1"

definition TDNFJoinArrayToStringSorted :: "string list option \<Rightarrow> string \<Rightarrow> string result" where
  "TDNFJoinArrayToStringSorted ppszDependencies pszSep =
     (case ppszDependencies of
        None \<Rightarrow> Inr []
      | Some ds \<Rightarrow>
          if length ds > 0
          then bail (TDNFStringArraySort (Some ds)) (\<lambda>ls. Inr (join_unique pszSep None ls))
          else Inr [])"

lemma remdups_adj_head: "remdups_adj (x # xs) = x # tl (remdups_adj (x # xs))"
  by (subst (1 2) remdups_adj_Cons') simp

lemma join_unique_remdups:
  "join_unique sep (Some p) ls = concat (map (\<lambda>l. sep @ l) (tl (remdups_adj (p # ls))))"
proof (induction ls arbitrary: p)
  case (Cons l ls)
  show ?case
  proof (cases "l = p")
    case False
    define qs where "qs = tl (remdups_adj (l # ls))"
    have "remdups_adj (l # ls) = l # qs" unfolding qs_def by (rule remdups_adj_head)
    with False show ?thesis by (simp add: Cons.IH)
  qed (simp add: Cons.IH)
qed simp

lemma intercalate_concat: "intercalate sep (x # xs) = x @ concat (map (\<lambda>l. sep @ l) xs)"
  by (induction xs arbitrary: x) auto

lemma join_unique_intercalate: "join_unique sep None ls = intercalate sep (remdups_adj ls)"
proof (cases ls)
  case (Cons l ks)
  have "join_unique sep None ls = l @ concat (map (\<lambda>l. sep @ l) (tl (remdups_adj (l # ks))))"
    using Cons by (simp add: join_unique_remdups)
  also have "\<dots> = intercalate sep (l # tl (remdups_adj (l # ks)))"
    by (simp only: intercalate_concat)
  also have "l # tl (remdups_adj (l # ks)) = remdups_adj ls"
    unfolding Cons by (rule remdups_adj_head [symmetric])
  finally show ?thesis .
qed simp

lemma distinct_remdups_adj_sorted: "sorted xs \<Longrightarrow> distinct (remdups_adj xs)"
  by (induction xs rule: remdups_adj.induct) (auto simp: order.antisym)

lemma remdups_adj_sort: "remdups_adj (sort xs) = sorted_list_of_set (set xs)"
proof -
  have "sorted (remdups_adj (sort xs))" "distinct (remdups_adj (sort xs))"
    by (simp_all add: sorted_remdups_adj distinct_remdups_adj_sorted)
  moreover have "set (remdups_adj (sort xs)) = set xs" by simp
  ultimately show ?thesis
    by (metis finite_set sorted_list_of_set.idem_if_sorted_distinct)
qed

lemma JoinSorted_eq:
  "TDNFJoinArrayToStringSorted (Some xs) sep = Inr (intercalate sep (sorted_list_of_set (set xs)))"
proof (cases "xs = []")
  case False
  then have "TDNFJoinArrayToStringSorted (Some xs) sep = Inr (join_unique sep None (sort xs))"
    by (simp add: TDNFJoinArrayToStringSorted_def TDNFStringArraySort_def)
  then show ?thesis by (simp only: join_unique_intercalate remdups_adj_sort)
qed (simp add: TDNFJoinArrayToStringSorted_def)

lemma join_sorted_fits: "length (join_unique sep None ls) < join_sorted_buffer_size sep ls"
proof -
  have "length (join_unique sep prev ls) \<le> length sep * (length ls) + unique_size prev ls" for prev
    by (induction sep prev ls rule: join_unique.induct) auto
  then have "length (join_unique sep None ls) \<le> length sep * (length ls) + unique_size None ls" .
  also have "\<dots> < join_sorted_buffer_size sep ls" by (simp add: join_sorted_buffer_size_def)
  finally show ?thesis .
qed

text \<open>Splitting loses nothing but separators, yields no empty token, and fills exactly the
  slots that the counting pass had allocated.\<close>

theorem SplitString_tokens:
  assumes "TDNFSplitStringToArray (Some buf) (Some sep) = Inr ts"
  shows "TDNFStringSepCount (Some buf) (Some sep) = Inr (length ts)
    \<and> concat ts = filter (\<lambda>c. c \<notin> set sep) buf
    \<and> (\<forall>t \<in> set ts. t \<noteq> [] \<and> set t \<inter> set sep = {})"
proof (intro conjI)
  from assms have ts: "ts = split_tokens sep buf" and ne: "sep \<noteq> []"
    by (auto simp: TDNFSplitStringToArray_def bail_Inr_iff split: if_splits)
  show "TDNFStringSepCount (Some buf) (Some sep) = Inr (length ts)"
    using ne by (simp add: ts TDNFStringSepCount_def split_tokens_count)
  show "concat ts = filter (\<lambda>c. c \<notin> set sep) buf" by (simp add: ts split_tokens_concat)
  show "\<forall>t \<in> set ts. t \<noteq> [] \<and> set t \<inter> set sep = {}" using split_tokens_wf unfolding ts by blast
qed

theorem SplitString_tokens_witness:
  "TDNFSplitStringToArray (Some '' ab  c'') (Some '' '') = Inr [''ab'', ''c'']
    \<and> TDNFStringSepCount (Some '' ab  c'') (Some '' '') = Inr 2
    \<and> concat [''ab'', ''c''] = filter (\<lambda>c. c \<notin> set '' '') '' ab  c''"
proof -
  have h: "TDNFSplitStringToArray (Some '' ab  c'') (Some '' '') = Inr [''ab'', ''c'']"
    by (simp add: TDNFSplitStringToArray_def TDNFStringSepCount_def split_tokens.simps)
  show ?thesis using SplitString_tokens [OF h] h by simp
qed

text \<open>Joining non-empty tokens with a separator character and splitting the result at that
  character gives the tokens back.\<close>

theorem Join_Split_roundtrip:
  assumes "\<forall>t \<in> set ts. t \<noteq> [] \<and> c \<notin> set t"
    and "TDNFJoinArrayToString (Some ts) (Some [c]) (length ts) = Inr s"
  shows "TDNFSplitStringToArray (Some s) (Some [c]) = Inr ts
    \<and> length s < join_buffer_size [c] (length ts) ts"
proof (rule conjI)
  from assms(2) have s: "s = join_loop [c] (length ts) ts" by (simp add: TDNFJoinArrayToString_def)
  then show "TDNFSplitStringToArray (Some s) (Some [c]) = Inr ts"
    using split_join [OF assms(1)]
    by (simp add: TDNFSplitStringToArray_def TDNFStringSepCount_def join_loop_intercalate)
  show "length s < join_buffer_size [c] (length ts) ts" unfolding s by (rule join_loop_fits)
qed

theorem Join_Split_roundtrip_witness:
  "TDNFJoinArrayToString (Some [''a'', ''bc'']) (Some '','') (length [''a'', ''bc'']) = Inr ''a,bc''
    \<and> TDNFSplitStringToArray (Some ''a,bc'') (Some '','') = Inr [''a'', ''bc'']"
proof -
  have h: "TDNFJoinArrayToString (Some [''a'', ''bc'']) (Some [CHR '','']) (length [''a'', ''bc''])
      = Inr ''a,bc''"
    by (simp add: TDNFJoinArrayToString_def)
  show ?thesis using Join_Split_roundtrip [OF _ h] h by simp
qed

text \<open>The sorted join is the join of the sorted set of its arguments (duplicates dropped), and
  it fits the buffer that the size computation allocates.\<close>

theorem JoinArrayToStringSorted_set:
  "TDNFJoinArrayToStringSorted (Some xs) sep = Inr (intercalate sep (sorted_list_of_set (set xs)))
    \<and> length (intercalate sep (sorted_list_of_set (set xs))) < join_sorted_buffer_size sep (sort xs)"
  using JoinSorted_eq join_sorted_fits [of sep "sort xs"]
  by (simp only: join_unique_intercalate remdups_adj_sort)

section \<open>Replacing\<close>

text \<open>
  The \<^verbatim>\<open>while\<close> loop searches the whole string again after every replacement, so it need not end.
  \<open>None\<close> is a loop that does not end.
\<close>

partial_function (option) replace_loop ::
    "nat \<Rightarrow> string \<Rightarrow> string \<Rightarrow> string \<Rightarrow> string result option" where
  "replace_loop errno search repl dst =
     (case strstr dst search of
        None \<Rightarrow> Some (Inr dst)
      | Some i \<Rightarrow>
          (case TDNFAllocateStringN (Some dst) i of
             Inl e \<Rightarrow> Some (Inl e)
           | Inr tmp \<Rightarrow>
               (case TDNFAllocateStringPrintf errno (tmp @ repl @ drop (i + length search) dst) of
                  Inl e \<Rightarrow> Some (Inl e)
                | Inr dst' \<Rightarrow> replace_loop errno search repl dst')))"

definition TDNFReplaceString ::
    "nat \<Rightarrow> string option \<Rightarrow> string option \<Rightarrow> string option \<Rightarrow> string result option" where
  "TDNFReplaceString errno pszSource pszSearch pszReplace =
     (if IsNullOrEmptyString pszSource \<or> IsNullOrEmptyString pszSearch \<or> pszReplace = None
      then Some (Inl ERROR_TDNF_INVALID_PARAMETER)
      else case TDNFAllocateString pszSource of
             Inl e \<Rightarrow> Some (Inl e)
           | Inr dst \<Rightarrow> replace_loop errno (the pszSearch) (the pszReplace) dst)"

text \<open>One round of the loop: the first occurrence is exchanged.\<close>

definition replaced :: "string \<Rightarrow> string \<Rightarrow> string \<Rightarrow> nat \<Rightarrow> string" where
  "replaced search repl dst i = take i dst @ repl @ drop (i + length search) dst"

lemma replace_loop_unfold:
  "replace_loop errno search repl dst =
     (case strstr dst search of
        None \<Rightarrow> Some (Inr dst)
      | Some i \<Rightarrow>
          (case TDNFAllocateStringPrintf errno (replaced search repl dst i) of
             Inl e \<Rightarrow> Some (Inl e)
           | Inr dst' \<Rightarrow> replace_loop errno search repl dst'))"
proof (cases "strstr dst search")
  case (Some i)
  then have "i \<le> length dst" by (auto dest: strstr_Some)
  with Some show ?thesis
    by (simp add: replace_loop.simps [of errno search repl dst] TDNFAllocateStringN_def replaced_def)
qed (simp add: replace_loop.simps)

lemma Printf_Inr:
  "TDNFAllocateStringPrintf errno s = Inr t \<Longrightarrow> t = s \<and> length s < TDNF_DEFAULT_MAX_STRING_LEN"
  by (auto simp: TDNFAllocateStringPrintf_def split: if_splits)

text \<open>A well-founded relation that every round decreases makes the loop end.\<close>

lemma replace_loop_wf:
  assumes "wf R"
    and dec: "\<And>dst i. strstr dst search = Some i \<Longrightarrow>
      length (replaced search repl dst i) < TDNF_DEFAULT_MAX_STRING_LEN \<Longrightarrow>
      (replaced search repl dst i, dst) \<in> R"
  shows "\<exists>r. replace_loop errno search repl dst = Some r"
  using assms(1)
proof (induction dst rule: wf_induct_rule)
  case (less dst)
  show ?case
  proof (cases "strstr dst search")
    case None
    then show ?thesis by (simp add: replace_loop_unfold [of errno search repl dst])
  next
    case (Some i)
    show ?thesis
    proof (cases "TDNFAllocateStringPrintf errno (replaced search repl dst i)")
      case (Inl e)
      with Some show ?thesis by (simp add: replace_loop_unfold [of errno search repl dst])
    next
      case (Inr d)
      from Printf_Inr [OF Inr] have d: "d = replaced search repl dst i"
        and "length (replaced search repl dst i) < TDNF_DEFAULT_MAX_STRING_LEN" by auto
      with Some dec have "(d, dst) \<in> R" by simp
      from less.IH [OF this] Some Inr show ?thesis
        by (simp add: replace_loop_unfold [of errno search repl dst])
    qed
  qed
qed

lemma replaced_split:
  assumes "strstr dst search = Some i"
  obtains a t where "dst = a @ search @ t" "replaced search repl dst i = a @ repl @ t"
proof -
  from strstr_Some [OF assms] obtain t where d: "dst = take i dst @ search @ t" and "i \<le> length dst"
    by blast
  then have l: "length (take i dst) = i" by simp
  have "drop (i + length search) dst = t"
    using arg_cong [OF d, of "drop (i + length search)"] l by simp
  then have "replaced search repl dst i = take i dst @ repl @ t" by (simp add: replaced_def)
  with d show thesis by (rule that)
qed

text \<open>The three ways in which a round makes progress.\<close>

lemma replaced_length:
  assumes "strstr dst search = Some i"
  shows "length (replaced search repl dst i) + length search = length dst + length repl"
  by (rule replaced_split [OF assms, of repl]) simp

lemma replaced_lex:
  assumes "strstr dst search = Some i" and "(repl, search) \<in> lex r"
  shows "(replaced search repl dst i, dst) \<in> lex r"
proof (rule replaced_split [OF assms(1), of repl])
  fix a t
  assume eq: "dst = a @ search @ t" "replaced search repl dst i = a @ repl @ t"
  from assms(2) obtain p x y u v where len: "length repl = length search"
    and "repl = p @ x # u" "search = p @ y # v" "(x, y) \<in> r"
    by (auto simp: lex_conv)
  then have "a @ repl @ t = (a @ p) @ x # (u @ t)" "a @ search @ t = (a @ p) @ y # (v @ t)"
    and "length (a @ repl @ t) = length (a @ search @ t)" by simp_all
  with \<open>(x, y) \<in> r\<close> show ?thesis
      unfolding eq(2) unfolding eq(1) lex_conv by blast
qed

lemma lex_of_different:
  fixes xs ys :: string
  assumes "length xs = length ys" and "xs \<noteq> ys"
  shows "(xs, ys) \<in> lex {(x, y). (of_char x :: nat) < of_char y}
    \<or> (xs, ys) \<in> lex {(x, y). (of_char y :: nat) < of_char x}"
  using assms
proof (induction xs ys rule: list_induct2)
  case (Cons x xs y ys)
  show ?case
  proof (cases "x = y")
    case False
    then have "(of_char x :: nat) < of_char y \<or> (of_char y :: nat) < of_char x"
      by (metis linorder_neqE_nat of_char_eq_iff)
    with Cons.hyps show ?thesis by auto
  qed (use Cons in auto)
qed simp

lemma replace_loop_terminates:
  assumes "repl \<noteq> search"
  shows "\<exists>r. replace_loop errno search repl dst = Some r"
proof -
  consider "length repl < length search" | "length search < length repl"
    | "length repl = length search" by linarith
  then show ?thesis
  proof cases
    case 1
    show ?thesis
    proof (rule replace_loop_wf [where R = "measure length"])
      fix dst i
      assume "strstr dst search = Some i"
      from replaced_length [OF this, of repl] 1
      show "(replaced search repl dst i, dst) \<in> measure length" by simp
    qed simp
  next
    case 2
    show ?thesis
    proof (rule replace_loop_wf [where R = "measure (\<lambda>s. TDNF_DEFAULT_MAX_STRING_LEN - length s)"])
      fix dst i
      assume s: "strstr dst search = Some i"
        and l: "length (replaced search repl dst i) < TDNF_DEFAULT_MAX_STRING_LEN"
      from replaced_length [OF s, of repl] 2 l
      show "(replaced search repl dst i, dst) \<in> measure (\<lambda>s. TDNF_DEFAULT_MAX_STRING_LEN - length s)"
        by simp
    qed simp
  next
    case 3
    have up: "wf {(x, y). (of_char x :: nat) < of_char y}"
      by (rule wf_subset [OF wf_measure [of "of_char"]]) auto
    have down: "wf {(x, y). (of_char y :: nat) < of_char x}"
      by (rule wf_subset [OF wf_measure [of "\<lambda>c. 256 - of_char c"]]) (auto simp: diff_less_mono2)
    from lex_of_different [OF 3 assms] show ?thesis
      using replace_loop_wf [OF wf_lex [OF up]] replace_loop_wf [OF wf_lex [OF down]] replaced_lex
      by blast
  qed
qed

text \<open>The loop that does not end: a string that is replaced by itself.\<close>

lemma replaced_self: "strstr dst search = Some i \<Longrightarrow> replaced search search dst i = dst"
  by (rule replaced_split [of dst search i search]) auto

lemma replace_loop_self_diverges:
  assumes "sublist search dst" and "dst \<noteq> []" and "length dst < TDNF_DEFAULT_MAX_STRING_LEN"
  shows "replace_loop errno search search dst = None"
proof (rule ccontr)
  assume "replace_loop errno search search dst \<noteq> None"
  then obtain r where r: "replace_loop errno search search dst = Some r" by auto
  have "\<not> (search' = repl \<and> sublist search' d \<and> d \<noteq> [] \<and> length d < TDNF_DEFAULT_MAX_STRING_LEN)"
    if "replace_loop e search' repl d = Some x" for e search' repl d x
  proof (rule replace_loop.raw_induct [OF _ that])
    fix loop e n rp d x
    assume IH: "\<And>e n rp d x. loop e n rp d = Some x \<Longrightarrow>
        \<not> (n = rp \<and> sublist n d \<and> d \<noteq> [] \<and> length d < TDNF_DEFAULT_MAX_STRING_LEN)"
      and eq: "(case strstr d n of None \<Rightarrow> Some (Inr d)
        | Some i \<Rightarrow> (case TDNFAllocateStringN (Some d) i of Inl e \<Rightarrow> Some (Inl e)
          | Inr tmp \<Rightarrow> (case TDNFAllocateStringPrintf e (tmp @ rp @ drop (i + length n) d) of
              Inl e \<Rightarrow> Some (Inl e) | Inr d' \<Rightarrow> loop e n rp d'))) = Some x"
    show "\<not> (n = rp \<and> sublist n d \<and> d \<noteq> [] \<and> length d < TDNF_DEFAULT_MAX_STRING_LEN)"
    proof
      assume a: "n = rp \<and> sublist n d \<and> d \<noteq> [] \<and> length d < TDNF_DEFAULT_MAX_STRING_LEN"
      then obtain i where i: "strstr d n = Some i" using strstr_None by fastforce
      then have "i \<le> length d" by (auto dest: strstr_Some)
      moreover have "take i d @ n @ drop (i + length n) d = d"
        using replaced_self [OF i] by (simp add: replaced_def)
      ultimately have "loop e n rp d = Some x"
        using eq i a by (simp add: TDNFAllocateStringN_def TDNFAllocateStringPrintf_def)
      from IH [OF this] a show False by blast
    qed
  qed
  from this [OF r] assms show False by blast
qed

lemma replace_loop_clean:
  assumes "replace_loop errno search repl dst = Some r" and "r = Inr s"
  shows "\<not> sublist search s"
proof -
  have "\<forall>s. r = Inr s \<longrightarrow> \<not> sublist search s"
  proof (rule replace_loop.raw_induct [OF _ assms(1)])
    fix loop e n rp d x
    assume IH: "\<And>e n rp d x. loop e n rp d = Some x \<Longrightarrow> \<forall>s. x = Inr s \<longrightarrow> \<not> sublist n s"
      and eq: "(case strstr d n of None \<Rightarrow> Some (Inr d)
        | Some i \<Rightarrow> (case TDNFAllocateStringN (Some d) i of Inl e \<Rightarrow> Some (Inl e)
          | Inr tmp \<Rightarrow> (case TDNFAllocateStringPrintf e (tmp @ rp @ drop (i + length n) d) of
              Inl e \<Rightarrow> Some (Inl e) | Inr d' \<Rightarrow> loop e n rp d'))) = Some x"
    from eq show "\<forall>s. x = Inr s \<longrightarrow> \<not> sublist n s"
      by (auto split: option.splits sum.splits simp: strstr_None dest: IH)
  qed
  with assms(2) show ?thesis by blast
qed

text \<open>The replacement loop ends on every input except one: a search string that occurs in the
  source and is replaced by itself. Nothing else, not even a replacement that contains the search
  string, keeps \<^verbatim>\<open>TDNFReplaceString\<close> from returning (it then stops at the length limit).\<close>

theorem ReplaceString_terminates_iff:
  assumes "source \<noteq> []" and "search \<noteq> []" and "length source < TDNF_DEFAULT_MAX_STRING_LEN"
  shows "(\<exists>r. TDNFReplaceString errno (Some source) (Some search) (Some repl) = Some r)
    \<longleftrightarrow> \<not> (repl = search \<and> sublist search source)"
proof -
  have "TDNFReplaceString errno (Some source) (Some search) (Some repl)
      = replace_loop errno search repl source"
    using assms by (simp add: TDNFReplaceString_def TDNFAllocateString_def)
  moreover have "replace_loop errno search repl source = Some (Inr source)"
    if "\<not> sublist search source"
    using that by (simp add: replace_loop_unfold [of errno search repl source] flip: strstr_None)
  ultimately show ?thesis
    using assms replace_loop_terminates [of repl search errno source]
      replace_loop_self_diverges [of search source errno] by auto
qed

theorem ReplaceString_terminates_iff_witness:
  "TDNFReplaceString 0 (Some ''$x'') (Some ''$x'') (Some ''$x'') = None
    \<and> (\<exists>r. TDNFReplaceString 0 (Some ''$x'') (Some ''$x'') (Some ''a$xb'') = Some r)"
proof -
  have l: "length ''$x'' < TDNF_DEFAULT_MAX_STRING_LEN" by (simp add: TDNF_DEFAULT_MAX_STRING_LEN_def)
  have "TDNFReplaceString 0 (Some ''$x'') (Some ''$x'') (Some ''$x'') = None"
    using ReplaceString_terminates_iff [OF _ _ l, of "''$x''" 0 "''$x''"] by simp
  moreover have "\<exists>r. TDNFReplaceString 0 (Some ''$x'') (Some ''$x'') (Some ''a$xb'') = Some r"
    using ReplaceString_terminates_iff [OF _ _ l, of "''$x''" 0 "''a$xb''"] by simp
  ultimately show ?thesis by blast
qed

text \<open>A string that \<^verbatim>\<open>TDNFReplaceString\<close> returns no longer contains the search string.\<close>

theorem ReplaceString_clean:
  assumes "TDNFReplaceString errno src (Some search) repl = Some (Inr s)"
  shows "\<not> sublist search s"
  using assms replace_loop_clean
  by (auto simp: TDNFReplaceString_def split: if_splits sum.splits)

theorem ReplaceString_clean_witness:
  "TDNFReplaceString 0 (Some ''a$x'') (Some ''$x'') (Some ''7'') = Some (Inr ''a7'')
    \<and> \<not> sublist ''$x'' ''a7''"
proof -
  have "TDNFReplaceString 0 (Some ''a$x'') (Some ''$x'') (Some ''7'') = Some (Inr ''a7'')"
    by (simp add: TDNFReplaceString_def TDNFAllocateString_def TDNFAllocateStringPrintf_def
        TDNF_DEFAULT_MAX_STRING_LEN_def replace_loop_unfold replaced_def)
  with ReplaceString_clean [OF this] show ?thesis by blast
qed

section \<open>Suffixes and membership\<close>

definition TDNFTrimSuffix :: "string option \<Rightarrow> string option \<Rightarrow> string result" where
  "TDNFTrimSuffix pszSource pszSuffix =
     (if IsNullOrEmptyString pszSource \<or> IsNullOrEmptyString pszSuffix
      then Inl ERROR_TDNF_INVALID_PARAMETER
      else case strstr (the pszSource) (the pszSuffix) of
             None \<Rightarrow> Inl ERROR_TDNF_INVALID_PARAMETER
           | Some i \<Rightarrow> if drop i (the pszSource) \<noteq> the pszSuffix
                       then Inl ERROR_TDNF_INVALID_PARAMETER
                       else Inr (take i (the pszSource)))"

definition TDNFStringEndsWith :: "string option \<Rightarrow> string option \<Rightarrow> unit result" where
  "TDNFStringEndsWith pszSource pszSuffix =
     (if IsNullOrEmptyString pszSource \<or> IsNullOrEmptyString pszSuffix
      then Inl ERROR_TDNF_INVALID_PARAMETER
      else let s = the pszSource; x = the pszSuffix in
        if length x > length s then Inl ERROR_TDNF_INVALID_PARAMETER
        else if take (length x) (drop (length s - length x) s) \<noteq> x
             then Inl ERROR_TDNF_INVALID_PARAMETER
        else Inr ())"

fun matches_loop :: "string \<Rightarrow> string list \<Rightarrow> bool" where
  "matches_loop s [] = False"
| "matches_loop s (x # xs) = (if s = x then True else matches_loop s xs)"

definition TDNFStringMatchesOneOf :: "string option \<Rightarrow> string list option \<Rightarrow> bool result" where
  "TDNFStringMatchesOneOf pszSearch ppszList =
     (if IsNullOrEmptyString pszSearch \<or> ppszList = None then Inl ERROR_TDNF_INVALID_PARAMETER
      else Inr (matches_loop (the pszSearch) (the ppszList)))"

lemma matches_loop_set: "matches_loop s xs \<longleftrightarrow> s \<in> set xs"
  by (induction xs) auto

lemma EndsWith_suffix:
  "x \<noteq> [] \<Longrightarrow> TDNFStringEndsWith (Some s) (Some x) = Inr () \<longleftrightarrow> suffix x s"
  by (auto simp: TDNFStringEndsWith_def Let_def suffix_take suffix_def)
    (metis append_take_drop_id suffix_def)

text \<open>
  \<^verbatim>\<open>TDNFTrimSuffix\<close> looks at the first occurrence only, so it removes a suffix exactly when the
  suffix occurs nowhere earlier.
\<close>

lemma TrimSuffix_iff:
  assumes "x \<noteq> []" and "s \<noteq> []"
  shows "TDNFTrimSuffix (Some s) (Some x) = Inr r \<longleftrightarrow> s = r @ x \<and> strstr s x = Some (length r)"
proof -
  have "take i s = r \<and> drop i s = x \<longleftrightarrow> s = r @ x \<and> i = length r"
    if "strstr s x = Some i" for i
  proof -
    from that have "i \<le> length s" by (auto dest: strstr_Some)
    then show ?thesis by (metis append_eq_conv_conj append_take_drop_id length_take min.absorb2)
  qed
  then show ?thesis using assms by (auto simp: TDNFTrimSuffix_def split: option.splits)
qed

end
