(* ===== verification/Tdnf_Paths.thy ===== *)
theory Tdnf_Paths
  imports Tdnf_Strings
begin

text \<open>
  URIs and paths: \<^verbatim>\<open>TDNFUriIsRemote\<close>, \<^verbatim>\<open>TDNFPathFromUri\<close>, \<^verbatim>\<open>TDNFJoinPath\<close> and \<^verbatim>\<open>TDNFNormalizePath\<close>
  of \<^verbatim>\<open>common/utils.c\<close>, and \<^verbatim>\<open>TDNFAppendPath\<close> of \<^verbatim>\<open>client/utils.c\<close>.
  \<^verbatim>\<open>TDNFNormalizePath\<close> is modelled with its byte buffer and write index, because the bytes behind the
  index matter to it; \<^verbatim>\<open>realpath\<close> is a parameter.
\<close>

section \<open>URIs\<close>

fun scheme_loop :: "string list \<Rightarrow> string \<Rightarrow> string option" where
  "scheme_loop [] url = None"
| "scheme_loop (s # ss) url = (if strcaseprefix s url then Some s else scheme_loop ss url)"

definition szRemotes :: "string list" where
  "szRemotes = [''http://'', ''https://'', ''ftp://'', ''ftps://'']"

definition szProtocols :: "string list" where
  "szProtocols = [''http://'', ''https://'', ''ftp://'', ''ftps://'', ''file://'']"

definition TDNFUriIsRemote :: "string option \<Rightarrow> bool result" where
  "TDNFUriIsRemote pszKeyUrl =
     (if IsNullOrEmptyString pszKeyUrl then Inl ERROR_TDNF_INVALID_PARAMETER
      else case scheme_loop szRemotes (the pszKeyUrl) of
             Some _ \<Rightarrow> Inr True
           | None \<Rightarrow> if \<not> strcaseprefix ''file://'' (the pszKeyUrl)
                     then Inl ERROR_TDNF_URL_INVALID else Inr False)"

definition TDNFPathFromUri :: "string option \<Rightarrow> string result" where
  "TDNFPathFromUri pszKeyUrl =
     (if IsNullOrEmptyString pszKeyUrl then Inl ERROR_TDNF_INVALID_PARAMETER
      else case scheme_loop szProtocols (the pszKeyUrl) of
             None \<Rightarrow> Inl ERROR_TDNF_URL_INVALID
           | Some scheme \<Rightarrow>
               let pszPath = drop (length scheme) (the pszKeyUrl) in
               if pszPath = [] then Inl ERROR_TDNF_URL_INVALID
               else if strchr pszPath (CHR ''#'') \<noteq> None then Inl ERROR_TDNF_URL_INVALID
               else if hd pszPath \<noteq> CHR ''/''
                    then (case strchr pszPath (CHR ''/'') of
                            None \<Rightarrow> Inl ERROR_TDNF_URL_INVALID
                          | Some p \<Rightarrow> TDNFAllocateString (Some p))
                    else TDNFAllocateString (Some pszPath))"

lemma scheme_loop_append:
  "scheme_loop (xs @ ys) url = (case scheme_loop xs url of Some s \<Rightarrow> Some s | None \<Rightarrow> scheme_loop ys url)"
  by (induction xs) auto

lemma scheme_loop_Some: "scheme_loop ss url = Some s \<Longrightarrow> s \<in> set ss \<and> strcaseprefix s url"
  by (induction ss) (auto split: if_splits)

text \<open>The remote schemes and \<^verbatim>\<open>file://\<close> are the schemes that have a path.\<close>

lemma scheme_protocols:
  "scheme_loop szProtocols url = (case scheme_loop szRemotes url of Some s \<Rightarrow> Some s
     | None \<Rightarrow> if strcaseprefix ''file://'' url then Some ''file://'' else None)"
proof -
  have "szProtocols = szRemotes @ [''file://'']" by (simp add: szProtocols_def szRemotes_def)
  show ?thesis unfolding \<open>szProtocols = _\<close> scheme_loop_append by (simp split: option.split)
qed

lemma PathFromUri_cases:
  assumes "TDNFPathFromUri (Some url) = Inr p"
  obtains s r where "scheme_loop szProtocols url = Some s" "r = drop (length s) url"
    "CHR ''#'' \<notin> set r" "suffix p r" "hd p = CHR ''/''" "p \<noteq> []"
proof -
  from assms obtain s where s: "scheme_loop szProtocols url = Some s"
    by (auto simp: TDNFPathFromUri_def split: option.splits if_splits)
  let ?r = "drop (length s) url"
  from assms s have ne: "?r \<noteq> []" and h: "strchr ?r (CHR ''#'') = None"
    by (auto simp: TDNFPathFromUri_def Let_def split: if_splits)
  have "suffix p ?r \<and> hd p = CHR ''/'' \<and> p \<noteq> []"
  proof (cases "hd ?r = CHR ''/''")
    case True
    with assms s ne h show ?thesis by (auto simp: TDNFPathFromUri_def Let_def split: if_splits)
  next
    case False
    with assms s ne h have "strchr ?r (CHR ''/'') = Some p"
      by (auto simp: TDNFPathFromUri_def Let_def split: if_splits option.splits)
    then show ?thesis using strchr_Some_hd strchr_Some_suffix by fastforce
  qed
  with s h that show thesis by (simp add: strchr_None_iff)
qed

text \<open>A path taken from a URI is absolute, holds no fragment, and is the tail of the URI; and
  only URIs that \<^verbatim>\<open>TDNFUriIsRemote\<close> classifies (as remote or local) have one.\<close>

theorem PathFromUri_sound:
  assumes "TDNFPathFromUri (Some url) = Inr p"
  shows "(p \<noteq> [] \<and> hd p = CHR ''/'' \<and> CHR ''#'' \<notin> set p \<and> suffix p url)
    \<and> (\<exists>b. TDNFUriIsRemote (Some url) = Inr b)"
proof (rule conjI)
  from assms have "url \<noteq> []" by (auto simp: TDNFPathFromUri_def)
  from PathFromUri_cases [OF assms] obtain s r where
    s: "scheme_loop szProtocols url = Some s" and r: "r = drop (length s) url"
    and h: "CHR ''#'' \<notin> set r" and p: "suffix p r" "hd p = CHR ''/''" "p \<noteq> []" by blast
  from p(1) h have "CHR ''#'' \<notin> set p" by (auto simp: suffix_def)
  moreover from p(1) r have "suffix p url" using suffix_drop suffix_order.trans by blast
  ultimately show "p \<noteq> [] \<and> hd p = CHR ''/'' \<and> CHR ''#'' \<notin> set p \<and> suffix p url" using p by simp
  from s show "\<exists>b. TDNFUriIsRemote (Some url) = Inr b"
    using \<open>url \<noteq> []\<close> by (auto simp: TDNFUriIsRemote_def scheme_protocols split: option.splits if_splits)
qed

theorem PathFromUri_sound_witness:
  "TDNFPathFromUri (Some ''HTTP://h/k'') = Inr ''/k'' \<and> suffix ''/k'' ''HTTP://h/k''
    \<and> (\<exists>b. TDNFUriIsRemote (Some ''HTTP://h/k'') = Inr b)"
proof -
  have h: "TDNFPathFromUri (Some ''HTTP://h/k'') = Inr ''/k''"
    by (simp add: TDNFPathFromUri_def szProtocols_def strcaseprefix_def char_eval
        strchr_def Let_def
        TDNF_DEFAULT_MAX_STRING_LEN_def)
  show ?thesis using PathFromUri_sound [OF h] h by simp
qed

section \<open>Joining path nodes\<close>

definition is_slash :: "char \<Rightarrow> bool" where
  "is_slash c \<longleftrightarrow> c = CHR ''/''"

definition strip_trailing_slashes :: "string \<Rightarrow> string" where
  "strip_trailing_slashes s = rev (dropWhile is_slash (rev s))"

text \<open>The state is \<open>(pszResult, nLength)\<close>; \<open>nLength\<close> is the size of the buffer after the reallocation.\<close>

fun join_path_loop :: "bool \<Rightarrow> string \<times> nat \<Rightarrow> string list \<Rightarrow> (string \<times> nat) result" where
  "join_path_loop first (res, len) [] = Inr (res, len)"
| "join_path_loop first (res, len) (node # nodes) =
     bail (TDNFAllocateString (Some node)) (\<lambda>copy.
       let (res1, len1) = (if first then (if copy \<noteq> [] \<and> is_slash (hd copy) then (''/'', len + 1)
                                          else ([], len))
                           else (res, len));
           lead = dropWhile is_slash copy;
           len2 = len1 + length lead + 2;
           res2 = res1 @ strip_trailing_slashes lead @ (if nodes \<noteq> [] then ''/'' else [])
       in join_path_loop False (res2, len2) nodes)"

definition TDNFJoinPath :: "string list \<Rightarrow> string option result" where
  "TDNFJoinPath nodes =
     (if nodes = [] then Inr None
      else bail (join_path_loop True ([], 0) nodes) (\<lambda>(res, len). Inr (Some res)))"

definition TDNFAppendPath :: "string option \<Rightarrow> string option \<Rightarrow> string result" where
  "TDNFAppendPath pszBase pszPart =
     (if IsNullOrEmptyString pszBase \<or> IsNullOrEmptyString pszPart
      then Inl ERROR_TDNF_INVALID_PARAMETER
      else let base = the pszBase; part = the pszPart;
               n = (if last base = CHR ''/'' then length base - 1 else length base)
           in Inr (take n base @ (if hd part \<noteq> CHR ''/'' then ''/'' else []) @ part))"

definition strip_node :: "string \<Rightarrow> string" where
  "strip_node s = strip_trailing_slashes (dropWhile is_slash s)"

lemma length_strip_trailing: "length (strip_trailing_slashes s) \<le> length s"
  by (simp add: strip_trailing_slashes_def) (metis length_dropWhile_le length_rev)

text \<open>Every \<open>strcat\<close> stays within the reallocated buffer, the terminating NUL included.\<close>

lemma join_path_fits:
  assumes "join_path_loop first (res, len) nodes = Inr (res', len')"
    and "\<not> first \<Longrightarrow> length res < len" and "nodes \<noteq> []"
  shows "length res' < len'"
  using assms
proof (induction first "(res, len)" nodes arbitrary: res len rule: join_path_loop.induct)
  case (2 first res len node nodes)
  let ?r1 = "if first then (if node \<noteq> [] \<and> is_slash (hd node) then (''/'', len + 1) else ([], len))
    else (res, len)"
  obtain r1 l1 where r1: "?r1 = (r1, l1)" by (cases ?r1)
  let ?lead = "dropWhile is_slash node"
  let ?r2 = "r1 @ strip_trailing_slashes ?lead @ (if nodes \<noteq> [] then ''/'' else [])"
  let ?l2 = "l1 + length ?lead + 2"
  from "2.prems"(1) have run: "join_path_loop False (?r2, ?l2) nodes = Inr (res', len')"
    and len: "length node \<le> TDNF_DEFAULT_MAX_STRING_LEN"
    using r1 by (auto simp: bail_Inr_iff Let_def split: prod.splits if_splits)
  have "length r1 \<le> l1" using "2.prems"(2) r1 by (auto split: if_splits)
  then have fit: "length ?r2 < ?l2" using length_strip_trailing [of ?lead] by simp
  show ?case
  proof (cases "nodes = []")
    case True
    with run fit show ?thesis by auto
  next
    case False
    from "2.hyps" [OF refl r1 [symmetric] refl refl refl run _ False] fit show ?thesis by simp
  qed
qed simp

lemma join_path_result:
  assumes "join_path_loop first (res, len) nodes = Inr (res', len')" and "nodes \<noteq> []"
  shows "res' = (if first then (if hd nodes \<noteq> [] \<and> is_slash (hd (hd nodes)) then ''/'' else []) else res)
    @ intercalate ''/'' (map strip_node nodes)"
  using assms
proof (induction first "(res, len)" nodes arbitrary: res len rule: join_path_loop.induct)
  case (2 first res len node nodes)
  let ?r1 = "if first then (if node \<noteq> [] \<and> is_slash (hd node) then (''/'', len + 1) else ([], len))
    else (res, len)"
  obtain r1 l1 where r1: "?r1 = (r1, l1)" by (cases ?r1)
  let ?lead = "dropWhile is_slash node"
  let ?r2 = "r1 @ strip_trailing_slashes ?lead @ (if nodes \<noteq> [] then ''/'' else [])"
  let ?l2 = "l1 + length ?lead + 2"
  from "2.prems"(1) have run: "join_path_loop False (?r2, ?l2) nodes = Inr (res', len')"
    and len: "length node \<le> TDNF_DEFAULT_MAX_STRING_LEN"
    using r1 by (auto simp: bail_Inr_iff Let_def split: prod.splits if_splits)
  have "r1 = (if first then (if node \<noteq> [] \<and> is_slash (hd node) then ''/'' else []) else res)"
    using r1 by (auto split: if_splits)
  moreover have "res' = r1 @ intercalate ''/'' (map strip_node (node # nodes))"
  proof (cases "nodes = []")
    case True
    with run show ?thesis by (simp add: strip_node_def)
  next
    case False
    from "2.hyps" [OF refl r1 [symmetric] refl refl refl run False] False
    show ?thesis by (simp add: strip_node_def intercalate_Cons)
  qed
  ultimately show ?case by simp
qed simp

text \<open>\<^verbatim>\<open>TDNFJoinPath\<close> strips the slashes around every node, puts one slash between neighbours and
  keeps the path absolute exactly when the first node is; the buffer it reallocates is large enough.\<close>

theorem JoinPath_spec:
  assumes "nodes \<noteq> []" and "\<forall>n \<in> set nodes. length n \<le> TDNF_DEFAULT_MAX_STRING_LEN"
  shows "(TDNFJoinPath nodes = Inr (Some
      ((if hd nodes \<noteq> [] \<and> is_slash (hd (hd nodes)) then ''/'' else [])
       @ intercalate ''/'' (map strip_node nodes))))
    \<and> (\<exists>res len. join_path_loop True ([], 0) nodes = Inr (res, len) \<and> length res < len)"
proof (rule conjI)
  have "\<exists>r. join_path_loop f st ns = Inr r" if "\<forall>n \<in> set ns. length n \<le> TDNF_DEFAULT_MAX_STRING_LEN"
    for f st ns
    using that
  proof (induction ns arbitrary: f st)
    case Nil
    then show ?case by (cases st) simp
  next
    case (Cons n ns)
    then show ?case
      by (cases st) (simp add: TDNFAllocateString_def Let_def split_beta del: prod.collapse)
  qed
  with assms(2) obtain res len where r: "join_path_loop True ([], 0) nodes = Inr (res, len)"
    by (metis surj_pair)
  from join_path_result [OF r assms(1)] r assms(1) show "TDNFJoinPath nodes = Inr (Some
      ((if hd nodes \<noteq> [] \<and> is_slash (hd (hd nodes)) then ''/'' else [])
       @ intercalate ''/'' (map strip_node nodes)))" by (simp add: TDNFJoinPath_def)
  from join_path_fits [OF r _ assms(1)] r
  show "\<exists>res len. join_path_loop True ([], 0) nodes = Inr (res, len) \<and> length res < len" by auto
qed

theorem JoinPath_spec_witness:
  "TDNFJoinPath [''/var//'', ''/cache/'', ''tdnf''] = Inr (Some ''/var/cache/tdnf'')
    \<and> (\<exists>res len. join_path_loop True ([], 0) [''/var//'', ''/cache/'', ''tdnf''] = Inr (res, len)
         \<and> length res < len)"
proof -
  let ?ns = "[''/var//'', ''/cache/'', ''tdnf'']"
  have h: "\<forall>n \<in> set ?ns. length n \<le> TDNF_DEFAULT_MAX_STRING_LEN"
    by (simp add: TDNF_DEFAULT_MAX_STRING_LEN_def)
  show ?thesis
    using JoinPath_spec [OF _ h]
    by (simp add: strip_node_def strip_trailing_slashes_def is_slash_def)
qed

section \<open>Normalizing a path\<close>

text \<open>
  The buffer is a list of bytes, \<open>q\<close> the write index. A read or write outside of the buffer is
  \<open>None\<close>; \<open>Some (Inl e)\<close> is an error return. \<open>rp\<close> is \<^verbatim>\<open>realpath\<close> with its errno.
\<close>

abbreviation NUL :: char where "NUL \<equiv> CHR 0x00"

definition buf_read :: "char list \<Rightarrow> nat \<Rightarrow> char option" where
  "buf_read buf i = (if i < length buf then Some (buf ! i) else None)"

definition buf_write :: "char list \<Rightarrow> nat \<Rightarrow> char \<Rightarrow> char list option" where
  "buf_write buf i c = (if i < length buf then Some (buf[i := c]) else None)"

definition c_string :: "char list \<Rightarrow> string" where
  "c_string buf = takeWhile (\<lambda>c. c \<noteq> NUL) buf"

text \<open>\<open>p[i]\<close> of a C string: the terminator behind the last character.\<close>

definition char_at :: "string \<Rightarrow> nat \<Rightarrow> char" where
  "char_at p i = (if i < length p then p ! i else NUL)"

text \<open>\<^verbatim>\<open>while (q > pszNormalPath && *q != '/') q--;\<close>\<close>

fun erase_dir :: "char list \<Rightarrow> nat \<Rightarrow> nat option" where
  "erase_dir buf 0 = Some 0"
| "erase_dir buf (Suc q) =
     (case buf_read buf (Suc q) of
        None \<Rightarrow> None
      | Some c \<Rightarrow> if c \<noteq> CHR ''/'' then erase_dir buf q else Some (Suc q))"

text \<open>What follows a slash: another slash, a single dot node, or a double dot node.\<close>

definition dslash :: "string \<Rightarrow> bool" where
  "dslash p \<longleftrightarrow> char_at p 0 = CHR ''/''"

definition dot_node :: "string \<Rightarrow> bool" where
  "dot_node p \<longleftrightarrow> char_at p 0 = CHR ''.'' \<and> (char_at p 1 = CHR ''/'' \<or> char_at p 1 = NUL)"

definition dotdot_node :: "string \<Rightarrow> bool" where
  "dotdot_node p \<longleftrightarrow> char_at p 0 = CHR ''.'' \<and> char_at p 1 = CHR ''.''
     \<and> (char_at p 2 = CHR ''/'' \<or> char_at p 2 = NUL)"

text \<open>
  The block that terminates the buffer and asks \<^verbatim>\<open>realpath\<close> for the path so far; \<open>n\<close> is the length
  of the rest of the input, for which the new buffer has room.
\<close>

definition resolve_prefix ::
    "(string \<Rightarrow> nat + string) \<Rightarrow> nat \<Rightarrow> char list \<Rightarrow> nat \<Rightarrow> (char list \<times> nat) result option" where
  "resolve_prefix rp n buf q =
     (case buf_write buf q NUL of
        None \<Rightarrow> None
      | Some buf1 \<Rightarrow>
          (case rp (c_string buf1) of
             Inr r \<Rightarrow> Some (Inr (if r \<noteq> c_string buf1 then (r @ replicate (n + 1) NUL, length r)
                                 else (buf1, q)))
           | Inl e \<Rightarrow> if e \<noteq> ENOENT then Some (Inl (ERROR_TDNF_SYSTEM_BASE + e))
                      else Some (Inr (buf1, q))))"

function normalize_loop ::
    "(string \<Rightarrow> nat + string) \<Rightarrow> string \<Rightarrow> char list \<Rightarrow> nat \<Rightarrow> (char list \<times> nat) result option" where
  "normalize_loop rp [] buf q = Some (Inr (buf, q))"
| "normalize_loop rp (c # p) buf q =
     (if c = CHR ''/'' \<and> dslash p then normalize_loop rp p buf q
      else if c = CHR ''/'' \<and> dot_node p then normalize_loop rp (drop 1 p) buf q
      else if c = CHR ''/'' \<and> dotdot_node p
      then (if q = 0 then Some (Inl ERROR_TDNF_INVALID_PARAMETER)
            else case erase_dir buf q of
                   None \<Rightarrow> None
                 | Some q' \<Rightarrow> normalize_loop rp (drop 2 p) buf q')
      else (case (if c = CHR ''/'' then resolve_prefix rp (length (c # p)) buf q
                  else Some (Inr (buf, q))) of
              None \<Rightarrow> None
            | Some (Inl e) \<Rightarrow> Some (Inl e)
            | Some (Inr (buf2, q2)) \<Rightarrow>
                if c = CHR ''/'' \<and> p = [] then normalize_loop rp p buf2 q2
                else (case buf_write buf2 q2 c of
                        None \<Rightarrow> None
                      | Some buf3 \<Rightarrow> normalize_loop rp p buf3 (q2 + 1))))"
  by pat_completeness auto
termination
  by (relation "measure (\<lambda>(rp, p, buf, q). length p)") auto

definition TDNFNormalizePath :: "(string \<Rightarrow> nat + string) \<Rightarrow> string option \<Rightarrow> string result option" where
  "TDNFNormalizePath rp pszPath =
     (if IsNullOrEmptyString pszPath then Some (Inl ERROR_TDNF_INVALID_PARAMETER)
      else if hd (the pszPath) \<noteq> CHR ''/'' then Some (Inl ERROR_TDNF_INVALID_PARAMETER)
      else case normalize_loop rp (the pszPath) (replicate (length (the pszPath) + 1) NUL) 0 of
             None \<Rightarrow> None
           | Some (Inl e) \<Rightarrow> Some (Inl e)
           | Some (Inr (buf, q)) \<Rightarrow>
               (case buf_write buf q NUL of
                  None \<Rightarrow> None
                | Some buf1 \<Rightarrow>
                    let path = (if c_string buf1 = [] then ''/'' else c_string buf1) in
                    case rp path of
                      Inr r \<Rightarrow> Some (Inr r)
                    | Inl e \<Rightarrow> if e \<noteq> ENOENT then Some (Inl (ERROR_TDNF_SYSTEM_BASE + e))
                               else Some (Inr path)))"

text \<open>Memory safety: there is always room for what is left of the input and for the terminator.\<close>

lemma erase_dir_le: "q < length buf \<Longrightarrow> \<exists>q'. erase_dir buf q = Some q' \<and> q' \<le> q"
proof (induction q)
  case (Suc q)
  then show ?case by (auto simp: buf_read_def)
qed simp

lemma resolve_prefix_safe:
  "q + n < length buf \<Longrightarrow> \<exists>r. resolve_prefix rp n buf q = Some r
    \<and> (\<forall>b k. r = Inr (b, k) \<longrightarrow> k + n < length b)"
  by (auto simp: resolve_prefix_def buf_write_def split: sum.split)

lemma normalize_loop_safe:
  "q + length p < length buf \<Longrightarrow>
    \<exists>r. normalize_loop rp p buf q = Some r \<and> (\<forall>b k. r = Inr (b, k) \<longrightarrow> k < length b)"
proof (induction rp p buf q rule: normalize_loop.induct)
  case (1 rp buf q)
  then show ?case by simp
next
  case (2 rp c p buf q)
  note step = normalize_loop.simps(2) [of rp c p buf q]
  from "2.prems" have q: "q < length buf" by simp
  consider (sl) "c = CHR ''/'' \<and> dslash p" | (dot) "\<not> (c = CHR ''/'' \<and> dslash p)" "c = CHR ''/'' \<and> dot_node p"
    | (dd) "\<not> (c = CHR ''/'' \<and> dslash p)" "\<not> (c = CHR ''/'' \<and> dot_node p)" "c = CHR ''/'' \<and> dotdot_node p"
    | (cp) "\<not> (c = CHR ''/'' \<and> dslash p)" "\<not> (c = CHR ''/'' \<and> dot_node p)"
        "\<not> (c = CHR ''/'' \<and> dotdot_node p)" by blast
  then show ?case
  proof cases
    case sl
    then show ?thesis using "2.IH"(1) "2.prems" by (simp only: step if_True) simp
  next
    case dot
    then show ?thesis using "2.IH"(2) "2.prems" by (simp only: step if_True if_False) simp
  next
    case dd
    obtain q' where q': "erase_dir buf q = Some q'" "q' \<le> q" using erase_dir_le [OF q] by blast
    show ?thesis
    proof (cases "q = 0")
      case False
      from "2.IH"(3) [OF dd False q'(1)] "2.prems" q' dd False show ?thesis
        by (simp only: step if_True if_False option.case) simp
    qed (use dd in \<open>simp only: step if_True if_False\<close>, simp)
  next
    case cp
    let ?res = "if c = CHR ''/'' then resolve_prefix rp (length (c # p)) buf q else Some (Inr (buf, q))"
    obtain r where r: "?res = Some r" and fits: "\<forall>b k. r = Inr (b, k) \<longrightarrow> k + length (c # p) < length b"
      using resolve_prefix_safe [of q "length (c # p)" buf rp] "2.prems" by (cases "c = CHR ''/''") auto
    show ?thesis
    proof (cases r)
      case (Inl e)
      then show ?thesis using cp r by (simp only: step if_False option.case sum.case) simp
    next
      case (Inr bk)
      obtain b k where bk: "bk = (b, k)" by (cases bk)
      with fits Inr have k: "k + length (c # p) < length b" by simp
      then have w: "buf_write b k c = Some (b[k := c])" by (simp add: buf_write_def)
      have r': "?res = Some (Inr (b, k))" using r Inr bk by simp
      show ?thesis
      proof (cases "c = CHR ''/'' \<and> p = []")
        case True
        from "2.IH"(4) [OF cp r' refl refl True] k True cp r' show ?thesis
          by (simp only: step if_True if_False option.case sum.case prod.case) simp
      next
        case False
        from "2.IH"(5) [OF cp r' refl refl False w] k False cp r' w show ?thesis
          by (simp only: step if_True if_False option.case sum.case prod.case) simp
      qed
    qed
  qed
qed

text \<open>
  What the loop writes when \<open>realpath\<close> changes nothing and no double dot node occurs; and the
  nodes of the result.
\<close>

function plain_output :: "string \<Rightarrow> string" where
  "plain_output [] = []"
| "plain_output (c # p) =
     (if c = CHR ''/'' \<and> (dslash p \<or> p = []) then plain_output p
      else if c = CHR ''/'' \<and> dot_node p then plain_output (drop 1 p)
      else c # plain_output p)"
  by pat_completeness auto
termination
  by (relation "measure length") auto

definition path_nodes :: "string \<Rightarrow> string list" where
  "path_nodes p = filter (\<lambda>t. t \<noteq> ''.'') (split_tokens ''/'' p)"

definition absolute_path :: "string list \<Rightarrow> string" where
  "absolute_path nodes = (if nodes = [] then ''/'' else concat (map (\<lambda>t. CHR ''/'' # t) nodes))"

definition no_symlinks :: "(string \<Rightarrow> nat + string) \<Rightarrow> bool" where
  "no_symlinks rp \<longleftrightarrow> (\<forall>s. rp s = Inr s \<or> rp s = Inl ENOENT)"

definition dotdot_free :: "string \<Rightarrow> bool" where
  "dotdot_free p \<longleftrightarrow> (\<forall>a r. p = a @ CHR ''/'' # r \<longrightarrow> \<not> dotdot_node r)"

lemma dotdot_free_Cons: "dotdot_free (c # p) \<Longrightarrow> dotdot_free p"
  unfolding dotdot_free_def by (metis append_Cons)

lemma dotdot_free_drop1: "dotdot_free p \<Longrightarrow> dotdot_free (drop 1 p)"
  by (cases p) (auto dest: dotdot_free_Cons)

lemma dotdot_free_hd: "dotdot_free (CHR ''/'' # p) \<Longrightarrow> \<not> dotdot_node p"
  unfolding dotdot_free_def by (metis append_Nil)

lemma char_at_simps [simp]:
  "char_at [] i = NUL" "char_at (c # p) 0 = c" "char_at (c # p) (Suc i) = char_at p i"
  "char_at (c # p) (numeral n) = char_at p (pred_numeral n)"
  by (simp_all add: char_at_def numeral_eq_Suc)

lemma char_at_0_iff: "NUL \<notin> set p \<Longrightarrow> c \<noteq> NUL \<Longrightarrow> char_at p 0 = c \<longleftrightarrow> (\<exists>r. p = c # r)"
  by (cases p) auto

lemma dotdot_token: "NUL \<notin> set r \<Longrightarrow> dotdot_node r \<Longrightarrow> ''..'' \<in> set (split_tokens ''/'' r)"
proof -
  assume nul: "NUL \<notin> set r" and dd: "dotdot_node r"
  then obtain s where r: "r = ''..'' @ s" and s: "char_at s 0 = CHR ''/'' \<or> char_at s 0 = NUL"
    by (cases r; cases "tl r") (auto simp: dotdot_node_def numeral_2_eq_2)
  from s nul r have "s = [] \<or> (\<exists>t. s = CHR ''/'' # t)" by (cases s) auto
  then show ?thesis unfolding r
    using split_tokens_append_sep [of "''..''" "CHR ''/''"] by fastforce
qed

lemma dotdot_free_tokens:
  assumes "''..'' \<notin> set (split_tokens ''/'' p)" and "NUL \<notin> set p"
  shows "dotdot_free p"
  using assms dotdot_token by (auto simp: dotdot_free_def split_tokens_append)

lemma resolve_prefix_plain:
  "no_symlinks rp \<Longrightarrow> q < length buf \<Longrightarrow> resolve_prefix rp n buf q = Some (Inr (buf[q := NUL], q))"
  unfolding no_symlinks_def resolve_prefix_def buf_write_def
  by (auto split: sum.split) (metis Inl_Inr_False sum.inject(1,2))+

lemma normalize_loop_plain:
  assumes "no_symlinks rp"
  shows "dotdot_free p \<Longrightarrow> q + length p < length buf \<Longrightarrow>
    \<exists>b k. normalize_loop rp p buf q = Some (Inr (b, k)) \<and> k < length b
      \<and> take k b = take q buf @ plain_output p"
proof (induction p arbitrary: buf q rule: plain_output.induct)
  case (2 c p)
  note step = normalize_loop.simps(2) [of rp c p buf q]
  have q: "q < length buf" using "2.prems" by simp
  have free: "dotdot_free p" "dotdot_free (drop 1 p)"
    using "2.prems" dotdot_free_Cons dotdot_free_drop1 by blast+
  have nodd: "\<not> (c = CHR ''/'' \<and> dotdot_node p)" using "2.prems" dotdot_free_hd by blast
  let ?b = "if c = CHR ''/'' then buf[q := NUL] else buf"
  have res: "(if c = CHR ''/'' then resolve_prefix rp (length (c # p)) buf q else Some (Inr (buf, q)))
      = Some (Inr (?b, q))"
    using resolve_prefix_plain [OF assms q] by simp
  have b: "length ?b = length buf" "take q ?b = take q buf" by simp_all
  consider (sl) "c = CHR ''/'' \<and> dslash p" | (dot) "\<not> (c = CHR ''/'' \<and> dslash p)" "c = CHR ''/'' \<and> dot_node p"
    | (cp) "\<not> (c = CHR ''/'' \<and> dslash p)" "\<not> (c = CHR ''/'' \<and> dot_node p)" by blast
  then show ?case
  proof cases
    case sl
    then show ?thesis using "2.IH"(1) [OF _ free(1), of q buf] "2.prems" by (simp add: step)
  next
    case dot
    then have "p \<noteq> []" by (auto simp: dot_node_def)
    with dot show ?thesis using "2.IH"(2) [OF _ _ free(2), of q buf] "2.prems" by (simp add: step)
  next
    case cp
    have run: "normalize_loop rp (c # p) buf q
        = (if c = CHR ''/'' \<and> p = [] then normalize_loop rp p ?b q
           else case buf_write ?b q c of None \<Rightarrow> None
             | Some buf3 \<Rightarrow> normalize_loop rp p buf3 (q + 1))"
      unfolding step res using cp nodd by (simp only: if_False option.case sum.case prod.case)
    show ?thesis
    proof (cases "c = CHR ''/'' \<and> p = []")
      case True
      then show ?thesis using run q by simp
    next
      case False
      have tk: "take (q + 1) (?b[q := c]) = take q buf @ [c]"
        using q b by (simp add: take_Suc_conv_app_nth)
      have po: "plain_output (c # p) = c # plain_output p" using False cp by auto
      have nl: "normalize_loop rp (c # p) buf q = normalize_loop rp p (?b[q := c]) (q + 1)"
        using run False q by (simp only: if_False) (simp add: buf_write_def)
      have "q + 1 + length p < length (?b[q := c])" using "2.prems" b by simp
      from "2.IH"(3) [OF _ _ free(1) this] False cp obtain b' k where
        "normalize_loop rp p (?b[q := c]) (q + 1) = Some (Inr (b', k))" "k < length b'"
        "take k b' = take (q + 1) (?b[q := c]) @ plain_output p" by blast
      then show ?thesis unfolding nl po tk by simp
    qed
  qed
qed simp

lemma set_plain_output: "set (plain_output p) \<subseteq> set p"
proof (induction p rule: plain_output.induct)
  case (2 c p)
  then show ?case using set_drop_subset [of 1 p] by auto
qed simp

lemma plain_output_token:
  "CHR ''/'' \<notin> set t \<Longrightarrow> plain_output (t @ p) = t @ plain_output p"
  by (induction t) auto

lemma plain_output_nodes:
  "NUL \<notin> set p \<Longrightarrow> p = [] \<or> hd p = CHR ''/'' \<Longrightarrow>
    plain_output p = concat (map (\<lambda>t. CHR ''/'' # t) (path_nodes p))"
proof (induction p rule: length_induct)
  case (1 p)
  show ?case
  proof (cases p)
    case (Cons c r)
    with "1.prems" have c: "p = CHR ''/'' # r" and nul: "NUL \<notin> set r" by auto
    have IH: "plain_output s = concat (map (\<lambda>t. CHR ''/'' # t) (path_nodes s))"
      if "length s \<le> length r" "NUL \<notin> set s" "s = [] \<or> hd s = CHR ''/''" for s
      using "1.IH" that c by (metis length_Cons less_Suc_eq_le)
    have nodes: "path_nodes p = path_nodes r" by (simp add: c path_nodes_def split_tokens_skip_sep)
    consider "r = [] \<or> dslash r" | "\<not> dslash r" "r \<noteq> []" "dot_node r"
      | "\<not> dslash r" "r \<noteq> []" "\<not> dot_node r" by blast
    then show ?thesis
    proof cases
      case 1
      then have "r = [] \<or> hd r = CHR ''/''" by (cases r) (auto simp: dslash_def)
      with IH nul have "plain_output r = concat (map (\<lambda>t. CHR ''/'' # t) (path_nodes r))" by simp
      with 1 c nodes show ?thesis by auto
    next
      case 2
      then obtain s where r: "r = CHR ''.'' # s" and s: "char_at s 0 = CHR ''/'' \<or> char_at s 0 = NUL"
        by (cases r) (auto simp: dot_node_def)
      with nul have hs: "s = [] \<or> hd s = CHR ''/''" by (cases s) auto
      with IH r nul have "plain_output s = concat (map (\<lambda>t. CHR ''/'' # t) (path_nodes s))" by simp
      moreover have "path_nodes r = path_nodes s"
      proof (cases s)
        case Nil
        then show ?thesis using split_tokens_append_sep(2) [of "''.''" "CHR ''/''"]
          by (simp add: r path_nodes_def split_tokens_done)
      next
        case (Cons d u)
        with hs show ?thesis using split_tokens_append_sep(1) [of "''.''" "CHR ''/''" u]
          by (simp add: r path_nodes_def)
      qed
      ultimately show ?thesis using 2 c nodes r by simp
    next
      case 3
      then have "hd r \<noteq> CHR ''/''" by (cases r) (auto simp: dslash_def)
      with 3(2) show ?thesis
      proof (cases rule: first_token_split [of r "CHR ''/''"])
        case all
        with 3 have "r \<noteq> ''.''" by (auto simp: dot_node_def)
        with all 3 c nodes show ?thesis
          using split_tokens_append_sep(2) [of r "CHR ''/''"] plain_output_token [of r "[]"]
          by (simp add: path_nodes_def)
      next
        case (sep t ys)
        have "t \<noteq> ''.''" using 3 sep by (auto simp: dot_node_def)
        then have "path_nodes r = t # path_nodes (CHR ''/'' # ys)"
          using split_tokens_append_sep(1) [OF sep(2,3), of ys] sep(1) by (simp add: path_nodes_def)
        moreover have "plain_output (CHR ''/'' # ys)
            = concat (map (\<lambda>t. CHR ''/'' # t) (path_nodes (CHR ''/'' # ys)))"
          by (rule IH) (use sep nul in simp_all)
        moreover have "plain_output p = CHR ''/'' # plain_output r" using 3 c by auto
        ultimately show ?thesis
          using nodes plain_output_token [OF sep(3), of "CHR ''/'' # ys"] sep(1)
          by (simp del: plain_output.simps)
      qed
    qed
  qed (simp add: path_nodes_def split_tokens_done)
qed

text \<open>C40: \<^verbatim>\<open>TDNFNormalizePath\<close> never reads or writes outside of its buffer, whatever \<^verbatim>\<open>realpath\<close>
  answers.\<close>

theorem NormalizePath_memory_safe: "\<exists>r. TDNFNormalizePath rp path = Some r"
proof (cases path)
  case (Some p)
  have "0 + length p < length (replicate (length p + 1) NUL)" by simp
  from normalize_loop_safe [OF this, of rp] obtain r where
    r: "normalize_loop rp p (replicate (length p + 1) NUL) 0 = Some r"
    and k: "\<forall>b k. r = Inr (b, k) \<longrightarrow> k < length b" by blast
  with Some show ?thesis
    by (auto simp: TDNFNormalizePath_def buf_write_def Let_def split: sum.split)
qed (simp add: TDNFNormalizePath_def)

text \<open>Where \<^verbatim>\<open>realpath\<close> resolves no symlink, a path without double dot nodes is normalized to its
  nodes without the single dots, each behind one slash (and to a slash when no node is left).\<close>

theorem NormalizePath_nodes:
  assumes "no_symlinks rp" and "NUL \<notin> set path" and "path \<noteq> []" and "hd path = CHR ''/''"
    and "''..'' \<notin> set (split_tokens ''/'' path)"
  shows "TDNFNormalizePath rp (Some path) = Some (Inr (absolute_path (path_nodes path)))"
proof -
  let ?buf = "replicate (length path + 1) NUL"
  obtain b k where run: "normalize_loop rp path ?buf 0 = Some (Inr (b, k))"
    and k: "k < length b" "take k b = plain_output path"
    using normalize_loop_plain [OF assms(1) dotdot_free_tokens [OF assms(5,2)], of 0 ?buf] by auto
  have nul: "NUL \<notin> set (take k b)" using set_plain_output [of path] assms(2) k by auto
  have "c_string (b[k := NUL]) = take k b"
  proof -
    have "b[k := NUL] = take k b @ NUL # drop (Suc k) b" using k(1) by (rule upd_conv_take_nth_drop)
    then show ?thesis unfolding c_string_def using nul by (simp add: takeWhile_append)
  qed
  moreover have "plain_output path = concat (map (\<lambda>t. CHR ''/'' # t) (path_nodes path))"
    using plain_output_nodes assms by blast
  ultimately have c: "c_string (b[k := NUL]) = concat (map (\<lambda>t. CHR ''/'' # t) (path_nodes path))"
    using k by simp
  have rp: "rp s = Inr s \<or> rp s = Inl ENOENT" for s using assms(1) by (simp add: no_symlinks_def)
  have "(if c_string (b[k := NUL]) = [] then ''/'' else c_string (b[k := NUL]))
      = absolute_path (path_nodes path)"
    unfolding c absolute_path_def by (cases "path_nodes path") simp_all
  then show ?thesis
    using assms run k rp [of "absolute_path (path_nodes path)"]
    by (auto simp: TDNFNormalizePath_def buf_write_def Let_def)
qed

theorem NormalizePath_nodes_witness:
  "TDNFNormalizePath (\<lambda>s. Inl ENOENT) (Some ''//a/./b/'') = Some (Inr ''/a/b'')"
  using NormalizePath_nodes [of "\<lambda>s. Inl ENOENT" "''//a/./b/''"]
  by (simp add: no_symlinks_def path_nodes_def absolute_path_def split_tokens.simps)

text \<open>Two double dot nodes in a row climb one directory only: after the first, the write index
  stands on the slash that the second is satisfied with.\<close>

theorem NormalizePath_double_dot_twice:
  "TDNFNormalizePath (\<lambda>s. Inl ENOENT) (Some ''/a/b/../../c'') = Some (Inr ''/a/c'')
    \<and> TDNFNormalizePath (\<lambda>s. Inl ENOENT) (Some ''/a/b/../c'') = Some (Inr ''/a/c'')"
  by (simp add: TDNFNormalizePath_def buf_write_def buf_read_def dslash_def dot_node_def
      dotdot_node_def resolve_prefix_def c_string_def Let_def)

end
