(* ===== verification/Tdnf_Values.thy ===== *)
theory Tdnf_Values
  imports Tdnf_Strings "HOL-Library.Word"
begin

text \<open>
  Values read from text: integers, booleans and expiry times (\<^verbatim>\<open>strtoi\<close>, \<^verbatim>\<open>isTrue\<close>,
  \<^verbatim>\<open>TDNFParseMetadataExpire\<close>), the answer to a yes/no question (\<^verbatim>\<open>TDNFYesOrNo\<close>), and checksums in
  hexadecimal (\<^verbatim>\<open>TDNFCheckHexDigest\<close>, \<^verbatim>\<open>TDNFHexToUint\<close>, \<^verbatim>\<open>TDNFChecksumFromHexDigest\<close>,
  \<^verbatim>\<open>TDNFCheckHash\<close>). \<^verbatim>\<open>strtol\<close> and \<^verbatim>\<open>strtoul\<close> follow the C standard in the C locale with a 64-bit
  \<^verbatim>\<open>long\<close>.
\<close>

section \<open>Decimal numbers\<close>

definition digit_char :: "nat \<Rightarrow> char" where
  "digit_char d = char_of (48 + d)"

definition digit_value :: "char \<Rightarrow> nat" where
  "digit_value c = of_char c - 48"

fun nat_string :: "nat \<Rightarrow> string" where
  "nat_string n = (if n < 10 then [digit_char n] else nat_string (n div 10) @ [digit_char (n mod 10)])"

declare nat_string.simps [simp del]

definition int_string :: "int \<Rightarrow> string" where
  "int_string i = (if i < 0 then CHR ''-'' # nat_string (nat (- i)) else nat_string (nat i))"

definition dec_value :: "string \<Rightarrow> nat" where
  "dec_value ds = foldl (\<lambda>a c. 10 * a + digit_value c) 0 ds"

lemma of_char_digit: "d < 10 \<Longrightarrow> (of_char (digit_char d) :: nat) = 48 + d"
  by (simp add: digit_char_def)

lemma digit_char_isdigit: "d < 10 \<Longrightarrow> c_isdigit (digit_char d)"
  by (simp add: c_isdigit_def of_char_digit)

lemma digit_value_char: "d < 10 \<Longrightarrow> digit_value (digit_char d) = d"
  by (simp add: digit_value_def of_char_digit)

lemma nat_string_digits: "nat_string n \<noteq> [] \<and> (\<forall>c \<in> set (nat_string n). c_isdigit c)"
proof (induction n rule: nat_string.induct)
  case (1 n)
  then show ?case by (subst (1 2) nat_string.simps) (auto simp: digit_char_isdigit)
qed

lemma dec_value_nat_string [simp]: "dec_value (nat_string n) = n"
proof (induction n rule: nat_string.induct)
  case (1 n)
  then show ?case
    by (subst nat_string.simps) (auto simp: dec_value_def digit_value_char)
qed

abbreviation LONG_MAX :: int where "LONG_MAX \<equiv> 2 ^ 63 - 1"
abbreviation LONG_MIN :: int where "LONG_MIN \<equiv> - (2 ^ 63)"
abbreviation INT_MAX :: int where "INT_MAX \<equiv> 2 ^ 31 - 1"
abbreviation INT_MIN :: int where "INT_MIN \<equiv> - (2 ^ 31)"

text \<open>An optional sign: whether it was a minus, and the rest.\<close>

definition c_sign :: "string \<Rightarrow> bool \<times> string" where
  "c_sign s = (case s of
      [] \<Rightarrow> (False, s)
    | c # r \<Rightarrow> if c = CHR ''-'' then (True, r) else if c = CHR ''+'' then (False, r) else (False, s))"

text \<open>\<open>strtol(s, &end, 10)\<close>: the value, saturated to the range of \<^verbatim>\<open>long\<close>, and \<open>end\<close>.\<close>

definition strtol10 :: "string \<Rightarrow> int \<times> string" where
  "strtol10 s =
     (let (neg, s2) = c_sign (dropWhile c_isspace s);
          ds = takeWhile c_isdigit s2;
          v = (if neg then - int (dec_value ds) else int (dec_value ds))
      in if ds = [] then (0, s)
         else (max LONG_MIN (min LONG_MAX v), dropWhile c_isdigit s2))"

lemma digit_not_space_sign:
  "c_isdigit c \<Longrightarrow> \<not> c_isspace c \<and> c \<noteq> CHR ''-'' \<and> c \<noteq> CHR ''+''"
  by (auto simp: c_isdigit_def c_isspace_def)

lemma strtol10_nat_string:
  assumes "rest = [] \<or> \<not> c_isdigit (hd rest)"
  shows "strtol10 (nat_string n @ rest) = (min LONG_MAX (int n), rest)"
proof -
  obtain d ds where ns: "nat_string n = d # ds" using nat_string_digits by (cases "nat_string n") auto
  have dig: "\<forall>c \<in> set (nat_string n). c_isdigit c" using nat_string_digits by blast
  then have "c_isdigit d" using ns by simp
  note d = digit_not_space_sign [OF this]
  have "dropWhile c_isspace (nat_string n @ rest) = nat_string n @ rest" using d ns by simp
  moreover have "c_sign (nat_string n @ rest) = (False, nat_string n @ rest)"
    using d ns by (simp add: c_sign_def)
  moreover have "takeWhile c_isdigit (nat_string n @ rest) = nat_string n"
    "dropWhile c_isdigit (nat_string n @ rest) = rest"
    using dig assms by (cases rest; simp add: takeWhile_append dropWhile_append)+
  ultimately show ?thesis using nat_string_digits [of n] by (simp add: strtol10_def Let_def max_def)
qed

definition strtoi :: "string \<Rightarrow> int" where
  "strtoi ptr = (let (tmp, p) = strtol10 ptr in
     if p \<noteq> [] \<or> tmp > INT_MAX \<or> tmp < INT_MIN then 0 else tmp)"

definition isTrue :: "string \<Rightarrow> bool" where
  "isTrue str = (if strcaseeq str ''false'' then False
                 else strcaseeq str ''true'' \<or> strtoi str \<noteq> 0)"

section \<open>The metadata expiry time\<close>

text \<open>
  The multiplier of a unit character; \<open>None\<close> is the \<^verbatim>\<open>default:\<close> branch. The outer option of
  \<^verbatim>\<open>TDNFParseMetadataExpire\<close> is \<open>None\<close> where the multiplication overflows \<^verbatim>\<open>long\<close>, which C leaves
  undefined.
\<close>

definition expire_multiplier :: "char \<Rightarrow> int option" where
  "expire_multiplier c =
     (if c = CHR ''s'' then Some 1 else if c = CHR ''m'' then Some 60
      else if c = CHR ''h'' then Some (60 * 60) else if c = CHR ''d'' then Some (60 * 60 * 24)
      else None)"

definition TDNFParseMetadataExpire :: "string option \<Rightarrow> int result option" where
  "TDNFParseMetadataExpire pszMetadataExpire =
     (if IsNullOrEmptyString pszMetadataExpire then Some (Inl ERROR_TDNF_INVALID_PARAMETER)
      else if strcaseeq ''never'' (the pszMetadataExpire) then Some (Inr (- 1))
      else let (l, pszError) = strtol10 (the pszMetadataExpire) in
        if l < 0 then Some (Inr (- 1))
        else if l > 0 then
          (case expire_multiplier (if pszError \<noteq> [] then hd pszError else CHR ''s'') of
             None \<Rightarrow> Some (Inl ERROR_TDNF_METADATA_EXPIRE_PARSE)
           | Some m \<Rightarrow> if l * m > LONG_MAX then None else Some (Inr (l * m)))
        else if pszError \<noteq> [] then Some (Inl ERROR_TDNF_METADATA_EXPIRE_PARSE)
        else Some (Inr l))"

lemma nat_string_not_never: "\<not> strcaseeq ''never'' (nat_string n @ rest)"
proof -
  obtain d ds where ns: "nat_string n = d # ds" and "c_isdigit d"
    using nat_string_digits [of n] by (cases "nat_string n") auto
  then have "c_tolower d \<noteq> CHR ''n''"
    by (auto simp: c_tolower_def c_isupper_def c_isdigit_def)
  moreover have "c_tolower (CHR ''n'') = CHR ''n''" by (simp add: char_eval)
  ultimately show ?thesis unfolding ns by (simp add: strcaseeq_def)
qed

text \<open>A number with a unit suffix is read as that many seconds, minutes, hours or days, as long
  as the product fits a \<^verbatim>\<open>long\<close>; without a suffix it is seconds.\<close>

theorem ParseMetadataExpire_units:
  assumes "0 < n" and "expire_multiplier u = Some m" and "int n * m \<le> LONG_MAX"
  shows "TDNFParseMetadataExpire (Some (nat_string n @ [u])) = Some (Inr (int n * m))
    \<and> TDNFParseMetadataExpire (Some (nat_string n)) = Some (Inr (int n))"
proof (rule conjI)
  have m: "0 < m" and nd: "\<not> c_isdigit u"
    using assms(2) by (auto simp: expire_multiplier_def c_isdigit_def split: if_splits)
  have "int n \<le> int n * m" using m by (simp add: mult_le_cancel_left1)
  then have "int n \<le> LONG_MAX" using assms(3) by linarith
  then have st: "strtol10 (nat_string n @ [u]) = (int n, [u])" "strtol10 (nat_string n) = (int n, [])"
    using strtol10_nat_string [of "[u]" n] strtol10_nat_string [of "[]" n] nd by auto
  have nn: "\<not> strcaseeq ''never'' (nat_string n @ [u])" "\<not> strcaseeq ''never'' (nat_string n)"
    using nat_string_not_never [of n "[u]"] nat_string_not_never [of n "[]"] by simp_all
  have "0 < int n" using assms(1) by simp
  then show "TDNFParseMetadataExpire (Some (nat_string n @ [u])) = Some (Inr (int n * m))"
    using st nn assms(2,3) by (simp add: TDNFParseMetadataExpire_def)
  have "expire_multiplier (CHR ''s'') = Some 1" by (simp add: expire_multiplier_def)
  then show "TDNFParseMetadataExpire (Some (nat_string n)) = Some (Inr (int n))"
    using st nn \<open>0 < int n\<close> \<open>int n \<le> LONG_MAX\<close> nat_string_digits [of n]
    by (simp add: TDNFParseMetadataExpire_def)
qed

theorem ParseMetadataExpire_units_witness:
  "TDNFParseMetadataExpire (Some ''6h'') = Some (Inr 21600)
    \<and> TDNFParseMetadataExpire (Some ''6'') = Some (Inr 6)"
proof -
  have n: "nat_string 6 = ''6''" by (simp add: nat_string.simps digit_char_def char_eval)
  have "expire_multiplier (CHR ''h'') = Some 3600" by (simp add: expire_multiplier_def)
  from ParseMetadataExpire_units [OF _ this, of 6] show ?thesis by (simp add: n)
qed

text \<open>The multiplication of the expiry time is not checked: a value that \<^verbatim>\<open>strtol\<close> accepts can
  overflow \<^verbatim>\<open>long\<close>, which is undefined behaviour.\<close>

theorem ParseMetadataExpire_overflow:
  "TDNFParseMetadataExpire (Some ''9223372036854775807d'') = None"
  by (simp add: TDNFParseMetadataExpire_def strcaseeq_def char_eval strtol10_def c_sign_def
      c_isspace_def c_isdigit_def dec_value_def digit_value_def expire_multiplier_def Let_def)

section \<open>The yes/no question\<close>

text \<open>
  The input is the list of results of \<^verbatim>\<open>fgets\<close>, each at least one character; the empty list is the
  end of the input. The last character of every line is dropped, whether it is a newline or not.
\<close>

definition accepted_answer :: "string \<Rightarrow> bool" where
  "accepted_answer buf \<longleftrightarrow> strcaseeq buf ''yes'' \<or> strcaseeq buf ''y'' \<or> strcaseeq buf ''n''
     \<or> strcaseeq buf ''no'' \<or> buf = []"

fun ask_loop :: "string list \<Rightarrow> char option result" where
  "ask_loop [] = Inl ERROR_TDNF_INVALID_INPUT"
| "ask_loop (line # lines) =
     (if line = [] then Inl ERROR_TDNF_INVALID_INPUT
      else let buf = butlast line in
        if accepted_answer buf then Inr (if buf = [] then None else Some (c_tolower (hd buf)))
        else ask_loop lines)"

definition TDNFYesOrNo :: "bool \<Rightarrow> bool \<Rightarrow> string list \<Rightarrow> bool result" where
  "TDNFYesOrNo nAssumeYes nAssumeNo input =
     (if \<not> nAssumeYes \<and> \<not> nAssumeNo
      then bail (ask_loop input) (\<lambda>opt. Inr (nAssumeYes \<or> opt = Some (CHR ''y'')))
      else Inr nAssumeYes)"

lemma ask_loop_rejected:
  "\<forall>l \<in> set ls. l \<noteq> [] \<and> \<not> accepted_answer (butlast l) \<Longrightarrow> ask_loop (ls @ rest) = ask_loop rest"
  by (induction ls) (auto simp: Let_def)

lemma strcaseeq_sym: "strcaseeq s t \<longleftrightarrow> strcaseeq t s"
  by (auto simp: strcaseeq_def)

lemma strcaseeq_hd: "strcaseeq s (c # t) \<Longrightarrow> \<exists>d r. s = d # r \<and> c_tolower d = c_tolower c"
  by (cases s) (auto simp: strcaseeq_def)

lemma accepted_yes:
  assumes "accepted_answer b"
  shows "(b \<noteq> [] \<and> c_tolower (hd b) = CHR ''y'') \<longleftrightarrow> strcaseeq b ''y'' \<or> strcaseeq b ''yes''"
proof -
  have l: "c_tolower (CHR ''y'') = CHR ''y''" "c_tolower (CHR ''n'') = CHR ''n''"
    by (simp_all add: char_eval)
  have e: "\<not> strcaseeq [] (c # t)" for c t by (simp add: strcaseeq_def)
  show ?thesis
    using assms l e strcaseeq_hd [of b "CHR ''y''"] strcaseeq_hd [of b "CHR ''n''"]
    unfolding accepted_answer_def by (cases b) fastforce+
qed

text \<open>The question is answered by the first line that is an answer, the lines before it are asked
  again, and only "y" and "yes" (in any case) mean yes; the default is no.\<close>

theorem YesOrNo_first_answer:
  assumes "\<forall>l \<in> set ls. l \<noteq> [] \<and> \<not> accepted_answer (butlast l)" and "accepted_answer b"
  shows "TDNFYesOrNo False False (ls @ (b @ [c]) # rest)
    = Inr (strcaseeq b ''y'' \<or> strcaseeq b ''yes'')"
proof -
  have "ask_loop (ls @ (b @ [c]) # rest) = Inr (if b = [] then None else Some (c_tolower (hd b)))"
    using ask_loop_rejected [OF assms(1), of "(b @ [c]) # rest"] assms(2) by simp
  then show ?thesis using accepted_yes [OF assms(2)] by (auto simp: TDNFYesOrNo_def)
qed

theorem YesOrNo_first_answer_witness:
  "TDNFYesOrNo False False ([''maybe'' @ [CHR 10]] @ (''Yes'' @ [CHR 10]) # []) = Inr True"
  using YesOrNo_first_answer [of "[''maybe'' @ [CHR 10]]" "''Yes''" "CHR 10" "[]"]
  by (simp add: accepted_answer_def strcaseeq_def char_eval)

section \<open>Checksums in hexadecimal\<close>

type_synonym byte = "8 word"

definition hex_value :: "char \<Rightarrow> nat" where
  "hex_value c = (let n = of_char c in
     if n \<le> 57 then n - 48 else if n \<le> 70 then n - 55 else n - 87)"

definition hex_number :: "string \<Rightarrow> nat" where
  "hex_number ds = foldl (\<lambda>a c. 16 * a + hex_value c) 0 ds"

text \<open>\<open>strtoul(s, NULL, 16)\<close> of a string too short to overflow an \<^verbatim>\<open>unsigned long\<close>.\<close>

definition strtoul16 :: "string \<Rightarrow> nat" where
  "strtoul16 s =
     (let (neg, s2) = c_sign (dropWhile c_isspace s);
          s3 = (if length s2 > 2 \<and> hd s2 = CHR ''0'' \<and> c_tolower (s2 ! 1) = CHR ''x''
                  \<and> c_isxdigit (s2 ! 2) then drop 2 s2 else s2);
          v = hex_number (takeWhile c_isxdigit s3)
      in if neg then (2 ^ 64 - v) mod 2 ^ 64 else v)"

definition TDNFCheckHexDigest :: "string option \<Rightarrow> int \<Rightarrow> bool" where
  "TDNFCheckHexDigest hex_digest digest_length =
     (if IsNullOrEmptyString hex_digest \<or> digest_length \<le> 0 then False
      else if list_ex (\<lambda>c. \<not> c_isxdigit c) (the hex_digest) then False
      else digest_length * 2 = int (length (the hex_digest)))"

text \<open>The two characters are copied to a zeroed buffer of three; the value is truncated to a byte.\<close>

definition TDNFHexToUint :: "string option \<Rightarrow> byte result" where
  "TDNFHexToUint hex_digest =
     (if IsNullOrEmptyString hex_digest then Inl ERROR_TDNF_INVALID_PARAMETER
      else Inr (word_of_nat (strtoul16 (take 2 (the hex_digest)))))"

text \<open>The loop over \<open>i\<close>, \<open>i + 2\<close>, \<dots>: \<open>k\<close> is \<open>i >> 1\<close>. A write outside of \<open>pdigest\<close> is \<open>None\<close>.\<close>

function checksum_loop :: "string \<Rightarrow> nat \<Rightarrow> byte list \<Rightarrow> byte list result option" where
  "checksum_loop [] k pdigest = Some (Inr pdigest)"
| "checksum_loop (c # s) k pdigest =
     (case TDNFHexToUint (Some (c # s)) of
        Inl e \<Rightarrow> Some (Inl e)
      | Inr v \<Rightarrow> if k < length pdigest then checksum_loop (drop 1 s) (k + 1) (pdigest[k := v])
                 else None)"
  by pat_completeness auto
termination
  by (relation "measure (\<lambda>(s, k, p). length s)") auto

definition TDNFChecksumFromHexDigest :: "string option \<Rightarrow> byte list result option" where
  "TDNFChecksumFromHexDigest hex_digest =
     (if IsNullOrEmptyString hex_digest then Some (Inl ERROR_TDNF_INVALID_PARAMETER)
      else let len = length (the hex_digest) in
        case TDNFAllocateMemory (\<lambda>_. True) 1 (len div 2) of
          Inl e \<Rightarrow> Some (Inl e)
        | Inr _ \<Rightarrow> checksum_loop (the hex_digest) 0 (replicate (len div 2) 0))"

definition hex_char :: "nat \<Rightarrow> char" where
  "hex_char d = (if d < 10 then char_of (48 + d) else char_of (87 + d))"

definition hex_byte :: "byte \<Rightarrow> string" where
  "hex_byte b = [hex_char (unat b div 16), hex_char (unat b mod 16)]"

definition hex_digest_of :: "byte list \<Rightarrow> string" where
  "hex_digest_of bs = concat (map hex_byte bs)"

lemma unat_byte: "unat (b :: byte) < 256"
proof -
  have "unat b < 2 ^ LENGTH(8)" by (rule unsigned_less)
  then show ?thesis by simp
qed

lemma hex_char_props:
  "d < 16 \<Longrightarrow> c_isxdigit (hex_char d) \<and> hex_value (hex_char d) = d"
  by (auto simp: hex_char_def c_isxdigit_def c_isdigit_def hex_value_def)

lemma xdigit_not_space_sign:
  "c_isxdigit c \<Longrightarrow> \<not> c_isspace c \<and> c \<noteq> CHR ''-'' \<and> c \<noteq> CHR ''+''"
  by (auto simp: c_isxdigit_def c_isdigit_def c_isspace_def)

lemma strtoul16_two: "c_isxdigit c \<Longrightarrow> c_isxdigit d \<Longrightarrow> strtoul16 [c, d] = 16 * hex_value c + hex_value d"
  using xdigit_not_space_sign [of c]
  by (simp add: strtoul16_def c_sign_def hex_number_def)

lemma HexToUint_byte: "TDNFHexToUint (Some (hex_byte b @ s)) = Inr b"
proof -
  have u: "unat b < 256" by (rule unat_byte)
  then have d: "unat b div 16 < 16" "unat b mod 16 < 16" by simp_all
  have "strtoul16 (hex_byte b) = 16 * (unat b div 16) + unat b mod 16"
    using strtoul16_two hex_char_props [OF d(1)] hex_char_props [OF d(2)] by (simp add: hex_byte_def)
  also have "\<dots> = unat b" by simp
  finally have "strtoul16 (hex_byte b) = unat b" .
  moreover have "take 2 (hex_byte b @ s) = hex_byte b" by (simp add: hex_byte_def)
  ultimately show ?thesis by (simp add: TDNFHexToUint_def) (simp add: hex_byte_def)
qed

lemma hex_digest_of_simps:
  "hex_digest_of [] = []" "hex_digest_of (b # bs) = hex_byte b @ hex_digest_of bs"
  by (simp_all add: hex_digest_of_def)

lemma length_hex_digest_of: "length (hex_digest_of bs) = 2 * length bs"
  by (induction bs) (simp_all add: hex_digest_of_simps hex_byte_def)

lemma hex_digest_of_xdigits: "c \<in> set (hex_digest_of bs) \<Longrightarrow> c_isxdigit c"
proof (induction bs)
  case (Cons b bs)
  have "unat b < 256" by (rule unat_byte)
  with Cons hex_char_props show ?case by (auto simp: hex_digest_of_simps hex_byte_def)
qed (simp add: hex_digest_of_simps)

lemma checksum_loop_digest:
  "length done = k \<Longrightarrow> length pad = length bs \<Longrightarrow>
    checksum_loop (hex_digest_of bs) k (done @ pad) = Some (Inr (done @ bs))"
proof (induction bs arbitrary: k "done" pad)
  case Nil
  then show ?case by (simp add: hex_digest_of_simps)
next
  case (Cons b bs)
  obtain x pad' where pad: "pad = x # pad'" using Cons.prems by (cases pad) auto
  obtain c d where h: "hex_byte b = [c, d]" by (simp add: hex_byte_def)
  have "TDNFHexToUint (Some (c # d # hex_digest_of bs)) = Inr b"
    using HexToUint_byte [of b "hex_digest_of bs"] h by simp
  then have "checksum_loop (hex_digest_of (b # bs)) k (done @ pad)
      = checksum_loop (hex_digest_of bs) (k + 1) ((done @ [b]) @ pad')"
    using Cons.prems h by (simp add: hex_digest_of_simps pad list_update_append)
  also have "\<dots> = Some (Inr ((done @ [b]) @ bs))"
    using Cons.prems pad by (intro Cons.IH) simp_all
  finally show ?case by simp
qed

text \<open>Decoding the hexadecimal form of a byte string gives the bytes back.\<close>

theorem Checksum_roundtrip:
  assumes "bs \<noteq> []" and "2 * length bs \<le> SIZE_MAX"
  shows "TDNFChecksumFromHexDigest (Some (hex_digest_of bs)) = Some (Inr bs)
    \<and> TDNFCheckHexDigest (Some (hex_digest_of bs)) (int (length bs))"
proof (rule conjI)
  have ne: "hex_digest_of bs \<noteq> []" using assms(1) length_hex_digest_of [of bs] by auto
  have "TDNFAllocateMemory (\<lambda>_. True) 1 (length bs) = Inr (length bs)"
    using assms by (simp add: TDNFAllocateMemory_def div_eq_0_iff Suc_le_eq div_greater_zero_iff not_less)
  then show "TDNFChecksumFromHexDigest (Some (hex_digest_of bs)) = Some (Inr bs)"
    using checksum_loop_digest [of "[]" 0 "replicate (length bs) 0" bs] ne
    by (simp add: TDNFChecksumFromHexDigest_def Let_def length_hex_digest_of)
  show "TDNFCheckHexDigest (Some (hex_digest_of bs)) (int (length bs))"
    using ne assms(1) hex_digest_of_xdigits
    by (auto simp: TDNFCheckHexDigest_def length_hex_digest_of list_ex_iff)
qed

theorem Checksum_roundtrip_witness:
  "TDNFChecksumFromHexDigest (Some (hex_digest_of [255, 16])) = Some (Inr [255, 16])
    \<and> TDNFCheckHexDigest (Some (hex_digest_of [255, 16])) 2"
  using Checksum_roundtrip [of "[255, 16]"] by simp

text \<open>A digest that passed the check decodes within the bounds of its buffer.\<close>

lemma checksum_loop_even:
  "even (length s) \<Longrightarrow> k + length s div 2 = length p \<Longrightarrow>
    \<exists>q. checksum_loop s k p = Some (Inr q) \<and> length q = length p"
proof (induction s k p rule: checksum_loop.induct)
  case (2 c s k p)
  from "2.prems" obtain d r where s: "s = d # r" by (cases s) auto
  with 2 show ?case by (simp add: TDNFHexToUint_def)
qed simp

text \<open>A checksum that passed \<^verbatim>\<open>TDNFCheckHexDigest\<close> for \<open>n\<close> bytes decodes to exactly \<open>n\<close> bytes,
  without leaving the buffer that was allocated for it.\<close>

theorem CheckHexDigest_guards:
  assumes "TDNFCheckHexDigest (Some h) n" and "length h \<le> SIZE_MAX"
  shows "\<exists>bs. TDNFChecksumFromHexDigest (Some h) = Some (Inr bs) \<and> int (length bs) = n"
proof -
  from assms(1) have len: "int (length h) = 2 * n" and pos: "0 < n" and ne: "h \<noteq> []"
    by (auto simp: TDNFCheckHexDigest_def split: if_splits)
  then have even: "even (length h)" and half: "int (length h div 2) = n" by presburger+
  then have "0 < length h div 2" using pos by linarith
  moreover have "length h div 2 \<le> SIZE_MAX" using assms(2) by linarith
  ultimately have "TDNFAllocateMemory (\<lambda>_. True) 1 (length h div 2) = Inr (length h div 2)"
    by (simp add: TDNFAllocateMemory_def div_eq_0_iff not_less Suc_le_eq div_greater_zero_iff)
  moreover obtain q where "checksum_loop h 0 (replicate (length h div 2) 0) = Some (Inr q)"
    "length q = length h div 2"
    using checksum_loop_even [OF even, of 0 "replicate (length h div 2) 0"] by auto
  ultimately show ?thesis using ne half by (simp add: TDNFChecksumFromHexDigest_def Let_def)
qed

theorem CheckHexDigest_guards_witness:
  "TDNFCheckHexDigest (Some ''0aFF'') 2
    \<and> (\<exists>bs. TDNFChecksumFromHexDigest (Some ''0aFF'') = Some (Inr bs) \<and> int (length bs) = 2)"
proof -
  have h: "TDNFCheckHexDigest (Some ''0aFF'') 2"
    by (simp add: TDNFCheckHexDigest_def c_isxdigit_def c_isdigit_def)
  show ?thesis using CheckHexDigest_guards [OF h] h by simp
qed

text \<open>Without that check, a digest of odd length is decoded with one write behind the end of the
  buffer.\<close>

theorem Checksum_odd_overflow: "TDNFChecksumFromHexDigest (Some ''abc'') = None"
  by (simp add: TDNFChecksumFromHexDigest_def TDNFHexToUint_def TDNFAllocateMemory_def)

section \<open>Checking a file against a digest\<close>

text \<open>\<^verbatim>\<open>hash_ops\<close> and \<^verbatim>\<open>hashType\<close>; the digest of a file is a parameter, OpenSSL computes it.\<close>

definition hash_ops :: "(string \<times> nat) list" where
  "hash_ops = [(''md5'', 16), (''sha1'', 20), (''sha256'', 32), (''sha512'', 64)]"

definition hashType :: "(string \<times> nat) list" where
  "hashType = [(''md5'', 0), (''sha1'', 1), (''sha-1'', 1), (''sha256'', 2), (''sha-256'', 2),
     (''sha512'', 3), (''sha-512'', 3)]"

definition TDNFCheckHash ::
    "(string \<Rightarrow> string \<Rightarrow> byte list result) \<Rightarrow> string option \<Rightarrow> byte list option \<Rightarrow> int \<Rightarrow> unit result" where
  "TDNFCheckHash digest_for_file filename digest type =
     (if IsNullOrEmptyString filename \<or> digest = None then Inl ERROR_TDNF_INVALID_PARAMETER
      else if type < 0 \<or> type \<ge> int (length hash_ops) then Inl ERROR_TDNF_INVALID_PARAMETER
      else let (name, len) = hash_ops ! nat type in
        bail (digest_for_file (the filename) name) (\<lambda>d.
          if take len d \<noteq> take len (the digest) then Inl ERROR_TDNF_CHECKSUM_VALIDATION_FAILED
          else Inr ()))"

text \<open>A file passes the check only if its whole digest, of the length of the hash type, equals
  the expected one; every name of the name table selects a hash type that can be checked.\<close>

theorem CheckHash_sound:
  assumes "TDNFCheckHash dig (Some f) (Some expected) type = Inr ()"
  shows "(\<exists>name len d. 0 \<le> type \<and> nat type < length hash_ops \<and> hash_ops ! nat type = (name, len)
    \<and> dig f name = Inr d \<and> take len d = take len expected)
    \<and> (\<forall>(n, t) \<in> set hashType. t < length hash_ops)"
proof (rule conjI)
  show "\<exists>name len d. 0 \<le> type \<and> nat type < length hash_ops \<and> hash_ops ! nat type = (name, len)
    \<and> dig f name = Inr d \<and> take len d = take len expected"
    using assms by (auto simp: TDNFCheckHash_def bail_Inr_iff Let_def split: if_splits prod.splits)
  show "\<forall>(n, t) \<in> set hashType. t < length hash_ops" by (simp add: hashType_def hash_ops_def)
qed

theorem CheckHash_sound_witness:
  "TDNFCheckHash (\<lambda>f n. Inr (replicate 16 7)) (Some ''f'') (Some (replicate 16 7)) 0 = Inr ()
    \<and> (\<exists>name len d. hash_ops ! nat 0 = (name, len) \<and> d = replicate 16 (7 :: byte))"
proof -
  have h: "TDNFCheckHash (\<lambda>f n. Inr (replicate 16 7)) (Some ''f'') (Some (replicate 16 7)) 0 = Inr ()"
    by (simp add: TDNFCheckHash_def hash_ops_def)
  show ?thesis using CheckHash_sound [OF h] h by auto
qed

end
