(* ===== verification/Conf_Config.thy ===== *)
theory Conf_Config
  imports Conf_Vars Tdnf_Effects Tdnf_Strings Tdnf_Paths Tdnf_Values
begin

text \<open>
  The configuration of tdnf: \<^verbatim>\<open>client/config.c\<close> and the file helpers of \<^verbatim>\<open>common/utils.c\<close> it uses. What the
  system answers is the record \<open>system\<close>: the content of a file or the error of \<^verbatim>\<open>fopen\<close>, the names in a
  directory or the error of \<^verbatim>\<open>opendir\<close>, whether a path is a directory or the error of \<^verbatim>\<open>stat\<close>, the matching of \<^verbatim>\<open>fnmatch\<close>, and the values fixed by the build.
  \<open>None\<close> is undefined behaviour.
\<close>

section \<open>The system\<close>

record system =
  sys_read :: "string \<Rightarrow> nat + string"
  sys_dir :: "string \<Rightarrow> nat + string list"
  sys_stat :: "string \<Rightarrow> nat + bool"
  sys_fnmatch :: "string \<Rightarrow> string \<Rightarrow> bool"
  sys_version :: string
  sys_db_dir :: string
  sys_lib_dir :: string

abbreviation (input) ERROR_TDNF_CONF_FILE_LOAD :: errcode where "ERROR_TDNF_CONF_FILE_LOAD \<equiv> 1002"
abbreviation (input) ERROR_TDNF_NO_DISTROVERPKG :: errcode where "ERROR_TDNF_NO_DISTROVERPKG \<equiv> 1022"

definition TDNFFileReadAllText :: "system \<Rightarrow> string \<Rightarrow> string result" where
  "TDNFFileReadAllText sys pszFileName = (case sys_read sys pszFileName of
     Inl e \<Rightarrow> Inl (ERROR_TDNF_SYSTEM_BASE + ENOENT) | Inr text \<Rightarrow> Inr text)"

definition TDNFIsDir :: "system \<Rightarrow> string \<Rightarrow> bool result" where
  "TDNFIsDir sys pszPath =
     (if pszPath = [] then Inl ERROR_TDNF_INVALID_PARAMETER
      else case sys_stat sys pszPath of Inl e \<Rightarrow> Inl (ERROR_TDNF_SYSTEM_BASE + e) | Inr d \<Rightarrow> Inr d)"

text \<open>The text is a C string: it ends at its first NUL.\<close>

definition TDNFReadFileToStringArray :: "system \<Rightarrow> string \<Rightarrow> string list result" where
  "TDNFReadFileToStringArray sys pszFile =
     bail (TDNFFileReadAllText sys pszFile) (\<lambda>text.
       TDNFSplitStringToArray (Some (takeWhile (\<lambda>c. c \<noteq> CHR 0x00) text)) (Some [NL]))"

text \<open>\<^verbatim>\<open>dirname\<close> of the C library.\<close>

definition strip_slashes :: "string \<Rightarrow> string" where
  "strip_slashes s = rev (dropWhile (\<lambda>c. c = CHR ''/'') (rev s))"

definition dirname :: "string \<Rightarrow> string" where
  "dirname path =
     (let p = strip_slashes path; d = rev (dropWhile (\<lambda>c. c \<noteq> CHR ''/'') (rev p)) in
      if path = [] then ''.''
      else if p = [] then ''/''
      else if d = [] then ''.''
      else if strip_slashes d = [] then ''/'' else strip_slashes d)"

definition TDNFDirName :: "string option \<Rightarrow> string result" where
  "TDNFDirName pszPath =
     (if IsNullOrEmptyString pszPath then Inl ERROR_TDNF_INVALID_PARAMETER
      else bail (TDNFAllocateString pszPath) (\<lambda>copy. TDNFAllocateString (Some (dirname copy))))"

text \<open>The tree of a configuration file: the same start in the readers of tdnf.\<close>

definition load_cnftree :: "system \<Rightarrow> string \<Rightarrow> cnfnode result option" where
  "load_cnftree sys fname = (case sys_read sys fname of
     Inl e \<Rightarrow> Some (Inl (if e \<noteq> 0 then ERROR_TDNF_SYSTEM_BASE + e else ERROR_TDNF_CONF_FILE_LOAD))
   | Inr content \<Rightarrow> (case parse_ini None content of None \<Rightarrow> None | Some cn \<Rightarrow> Some (Inr cn)))"

section \<open>The entries of a section\<close>

text \<open>The loops over a section skip hidden nodes and nodes without a value.\<close>

fun each_entry ::
    "(string \<Rightarrow> string \<Rightarrow> 's \<Rightarrow> 's result option) \<Rightarrow> cnfnode list \<Rightarrow> 's \<Rightarrow> 's result option" where
  "each_entry f [] s = Some (Inr s)"
| "each_entry f (cn # cns) s =
     (if starts (CHR ''.'') (cn_name cn) then each_entry f cns s
      else case cn_value cn of
             None \<Rightarrow> each_entry f cns s
           | Some v \<Rightarrow> thenU (f (cn_name cn) v s) (each_entry f cns))"

text \<open>The value of a key in a section: the last one counts.\<close>

definition last_value :: "string \<Rightarrow> cnfnode list \<Rightarrow> string option" where
  "last_value key cns =
     (case rev (filter (\<lambda>cn. cn_name cn = key \<and> cn_value cn \<noteq> None) cns) of [] \<Rightarrow> None | cn # _ \<Rightarrow> cn_value cn)"

lemma last_value_Nil [simp]: "last_value key [] = None"
  by (simp add: last_value_def)

lemma last_value_Cons:
  "last_value key (cn # cns) = (case last_value key cns of Some v \<Rightarrow> Some v
     | None \<Rightarrow> if cn_name cn = key then cn_value cn else None)"
proof (cases "rev (filter (\<lambda>cn. cn_name cn = key \<and> cn_value cn \<noteq> None) cns)")
  case (Cons c r)
  then have "c \<in> set (rev (filter (\<lambda>cn. cn_name cn = key \<and> cn_value cn \<noteq> None) cns))" by simp
  then have "cn_value c \<noteq> None" by simp
  with Cons show ?thesis by (auto simp: last_value_def)
qed (auto simp: last_value_def)

text \<open>
  A setting: one step of the loop stores the parsed value under its key and no other key touches it. Then
  the whole loop leaves the last value.
\<close>

locale setting =
  fixes f :: "string \<Rightarrow> string \<Rightarrow> 's \<Rightarrow> 's result option"
    and key :: string and parse :: "string \<Rightarrow> 'v" and get :: "'s \<Rightarrow> 'v"
  assumes visible: "\<not> starts (CHR ''.'') key"
    and set_key: "f key v s = Some (Inr s') \<Longrightarrow> get s' = parse v"
    and other_key: "k \<noteq> key \<Longrightarrow> f k v s = Some (Inr s') \<Longrightarrow> get s' = get s"
begin

lemma last_wins:
  "each_entry f cns s = Some (Inr s')
     \<Longrightarrow> get s' = (case last_value key cns of None \<Rightarrow> get s | Some v \<Rightarrow> parse v)"
proof (induction cns arbitrary: s)
  case (Cons cn cns)
  show ?case
  proof (cases "starts (CHR ''.'') (cn_name cn) \<or> cn_value cn = None")
    case True
    then have "each_entry f (cn # cns) s = each_entry f cns s" by (auto split: option.split)
    with Cons.prems have "each_entry f cns s = Some (Inr s')" by metis
    from Cons.IH [OF this] True visible show ?thesis by (auto simp: last_value_Cons split: option.split)
  next
    case False
    with Cons.prems obtain v s1 where v: "cn_value cn = Some v" "f (cn_name cn) v s = Some (Inr s1)"
      "each_entry f cns s1 = Some (Inr s')"
      by (auto simp: thenU_ok)
    from Cons.IH [OF v(3)] v(1) set_key [of v s s1] other_key [OF _ v(2)] v(2) show ?thesis
      by (cases "cn_name cn = key") (auto simp: last_value_Cons split: option.split)
  qed
qed simp

end

text \<open>A chain of comparisons of the key as a table: an unknown key changes nothing.\<close>

definition table_step :: "(string \<times> (string \<Rightarrow> 's \<Rightarrow> 's result option)) list
    \<Rightarrow> string \<Rightarrow> string \<Rightarrow> 's \<Rightarrow> 's result option" where
  "table_step table k v s = (case map_of table k of None \<Rightarrow> Some (Inr s) | Some g \<Rightarrow> g v s)"

definition keeps :: "(string \<Rightarrow> 's \<Rightarrow> 's result option) \<Rightarrow> ('s \<Rightarrow> 'v) \<Rightarrow> bool" where
  "keeps g get \<longleftrightarrow> (\<forall>v s s'. g v s = Some (Inr s') \<longrightarrow> get s' = get s)"

lemma table_setting:
  assumes "\<not> starts (CHR ''.'') key"
    and "\<And>v s s'. table_step table key v s = Some (Inr s') \<Longrightarrow> get s' = parse v"
    and "list_all (\<lambda>(k, g). k = key \<or> keeps g get) table"
  shows "setting (table_step table) key parse get"
proof
  fix k v s s'
  assume "k \<noteq> key" and step: "table_step table k v s = Some (Inr s')"
  show "get s' = get s"
  proof (cases "map_of table k")
    case None
    with step show ?thesis by (simp add: table_step_def)
  next
    case (Some g)
    then have "(k, g) \<in> set table" by (rule map_of_SomeD)
    with assms(3) \<open>k \<noteq> key\<close> have "keeps g get" by (auto simp: list_all_iff)
    with Some step show ?thesis by (simp add: table_step_def keeps_def)
  qed
qed (use assms in auto)

section \<open>The settings\<close>

record tdnf_conf =
  cf_nGPGCheck :: int
  cf_nSSLVerify :: int
  cf_nInstallOnlyLimit :: int
  cf_nCleanRequirementsOnRemove :: int
  cf_nKeepCache :: int
  cf_nOpenMax :: int
  cf_nCheckUpdateCompat :: int
  cf_nDistroSyncReinstallChanged :: int
  cf_nPluginsEnabled :: int
  cf_pszRepoDir :: "string option"
  cf_pszCacheDir :: "string option"
  cf_pszPersistDir :: "string option"
  cf_pszProxy :: "string option"
  cf_pszProxyUserPass :: "string option"
  cf_ppszDistroVerPkgs :: "string list option"
  cf_pszVarReleaseVer :: "string option"
  cf_pszVarBaseArch :: "string option"
  cf_pszUserAgentHeader :: "string option"
  cf_pszOSName :: "string option"
  cf_pszOSVersion :: "string option"
  cf_ppszExcludes :: "string list option"
  cf_ppszMinVersions :: "string list option"
  cf_ppszPkgLocks :: "string list option"
  cf_ppszProtectedPkgs :: "string list option"
  cf_ppszInstallOnlyPkgs :: "string list option"
  cf_ppszVarsDirs :: "string list option"
  cf_pszPluginPath :: "string option"
  cf_pszPluginConfPath :: "string option"

text \<open>The zeroed block and the defaults that \<^verbatim>\<open>TDNFReadConfig\<close> starts with.\<close>

definition conf_defaults :: tdnf_conf where
  "conf_defaults = \<lparr>cf_nGPGCheck = 0, cf_nSSLVerify = 1, cf_nInstallOnlyLimit = 2,
     cf_nCleanRequirementsOnRemove = 0, cf_nKeepCache = 0, cf_nOpenMax = 1024, cf_nCheckUpdateCompat = 0,
     cf_nDistroSyncReinstallChanged = 0, cf_nPluginsEnabled = 0, cf_pszRepoDir = None, cf_pszCacheDir = None,
     cf_pszPersistDir = None, cf_pszProxy = None, cf_pszProxyUserPass = None, cf_ppszDistroVerPkgs = None,
     cf_pszVarReleaseVer = None, cf_pszVarBaseArch = None, cf_pszUserAgentHeader = None, cf_pszOSName = None,
     cf_pszOSVersion = None, cf_ppszExcludes = None, cf_ppszMinVersions = None, cf_ppszPkgLocks = None,
     cf_ppszProtectedPkgs = None, cf_ppszInstallOnlyPkgs = None, cf_ppszVarsDirs = None,
     cf_pszPluginPath = None, cf_pszPluginConfPath = None\<rparr>"

definition int_true :: "string \<Rightarrow> int" where
  "int_true v = (if isTrue v then 1 else 0)"

definition split_words :: "string \<Rightarrow> string list result" where
  "split_words v = TDNFSplitStringToArray (Some v) (Some '' '')"

text \<open>
  One entry: the settings, with the user and the password of the proxy that the loop keeps aside. The chain
  of comparisons with the names of the keys is the first entry of a table with that name.
\<close>

type_synonym conf_state = "tdnf_conf \<times> string option \<times> string option"

definition set_conf :: "(string \<Rightarrow> tdnf_conf \<Rightarrow> tdnf_conf) \<Rightarrow> string \<Rightarrow> conf_state \<Rightarrow> conf_state result option" where
  "set_conf upd v st = Some (Inr (upd v (fst st), snd st))"

definition set_words :: "(string list option \<Rightarrow> tdnf_conf \<Rightarrow> tdnf_conf) \<Rightarrow> string \<Rightarrow> conf_state
    \<Rightarrow> conf_state result option" where
  "set_words upd v st = Some (bail (split_words v) (\<lambda>ws. Inr (upd (Some ws) (fst st), snd st)))"

definition config_table :: "(string \<times> (string \<Rightarrow> conf_state \<Rightarrow> conf_state result option)) list" where
  "config_table =
    [(''installonly_limit'', set_conf (\<lambda>v c. c\<lparr>cf_nInstallOnlyLimit := strtoi v\<rparr>)),
     (''clean_requirements_on_remove'', set_conf (\<lambda>v c. c\<lparr>cf_nCleanRequirementsOnRemove := int_true v\<rparr>)),
     (''gpgcheck'', set_conf (\<lambda>v c. c\<lparr>cf_nGPGCheck := int_true v\<rparr>)),
     (''sslverify'', set_conf (\<lambda>v c. c\<lparr>cf_nSSLVerify := int_true v\<rparr>)),
     (''keepcache'', set_conf (\<lambda>v c. c\<lparr>cf_nKeepCache := int_true v\<rparr>)),
     (''reposdir'', set_conf (\<lambda>v c. c\<lparr>cf_pszRepoDir := Some v\<rparr>)),
     (''repodir'', set_conf (\<lambda>v c. c\<lparr>cf_pszRepoDir := Some v\<rparr>)),
     (''cachedir'', set_conf (\<lambda>v c. c\<lparr>cf_pszCacheDir := Some v\<rparr>)),
     (''persistdir'', set_conf (\<lambda>v c. c\<lparr>cf_pszPersistDir := Some v\<rparr>)),
     (''distroverpkg'', set_words (\<lambda>ws c. c\<lparr>cf_ppszDistroVerPkgs := ws\<rparr>)),
     (''excludepkgs'', set_words (\<lambda>ws c. c\<lparr>cf_ppszExcludes := ws\<rparr>)),
     (''minversions'', set_words (\<lambda>ws c. c\<lparr>cf_ppszMinVersions := ws\<rparr>)),
     (''openmax'', set_conf (\<lambda>v c. c\<lparr>cf_nOpenMax := strtoi v\<rparr>)),
     (''dnf_check_update_compat'', set_conf (\<lambda>v c. c\<lparr>cf_nCheckUpdateCompat := int_true v\<rparr>)),
     (''distrosync_reinstall_changed'', set_conf (\<lambda>v c. c\<lparr>cf_nDistroSyncReinstallChanged := int_true v\<rparr>)),
     (''proxy'', set_conf (\<lambda>v c. c\<lparr>cf_pszProxy := Some v\<rparr>)),
     (''proxy_username'', \<lambda>v st. Some (Inr (fst st, Some v, snd (snd st)))),
     (''proxy_password'', \<lambda>v st. Some (Inr (fst st, fst (snd st), Some v))),
     (''installonlypkgs'', set_words (\<lambda>ws c. c\<lparr>cf_ppszInstallOnlyPkgs := ws\<rparr>)),
     (''varsdir'', set_words (\<lambda>ws c. c\<lparr>cf_ppszVarsDirs := ws\<rparr>)),
     (''plugins'', set_conf (\<lambda>v c. c\<lparr>cf_nPluginsEnabled := int_true v\<rparr>)),
     (''pluginconfpath'', set_conf (\<lambda>v c. c\<lparr>cf_pszPluginConfPath := Some v\<rparr>)),
     (''pluginpath'', set_conf (\<lambda>v c. c\<lparr>cf_pszPluginPath := Some v\<rparr>))]"

definition config_key :: "string \<Rightarrow> string \<Rightarrow> conf_state \<Rightarrow> conf_state result option" where
  "config_key = table_step config_table"

definition TDNFConfigFromCnfTree :: "tdnf_conf \<Rightarrow> cnfnode \<Rightarrow> tdnf_conf result option" where
  "TDNFConfigFromCnfTree pConf cn_top =
     thenU (each_entry config_key (first_child cn_top) (pConf, None, None)) (\<lambda>(c, user, pass).
       case (user, pass) of
         (Some u, Some p) \<Rightarrow> Some (bail (TDNFAllocateStringPrintf 0 (u @ '':'' @ p)) (\<lambda>up.
             Inr (c\<lparr>cf_pszProxyUserPass := Some up\<rparr>)))
       | _ \<Rightarrow> Some (Inr c))"

section \<open>The operating system\<close>

text \<open>
  \<^verbatim>\<open>sscanf\<close> with the pattern of a quoted word and, failing that, of a word. The buffer is input and output
  of the call at once, which the C standard does not define; the model takes the characters that a scanner
  reads before it overwrites them.
\<close>

definition scan_os_value :: "string \<Rightarrow> string option" where
  "scan_os_value s =
     (let q = takeWhile (\<lambda>c. c \<noteq> CHR 0x22) (tl s); w = takeWhile (\<lambda>c. \<not> c_isspace c) (dropWhile c_isspace s) in
      if starts (CHR 0x22) s \<and> q \<noteq> [] then Some q else if w = [] then None else Some w)"

function os_info_lines :: "string \<Rightarrow> string option \<times> string option \<Rightarrow> string option \<times> string option" where
  "os_info_lines s info =
     (if s = [] then info
      else case fgets 255 s of (buf, rest) \<Rightarrow>
        os_info_lines rest
          (let line = create_confline buf in
           if take 3 line = ''ID=''
           then (case scan_os_value (drop 3 line) of None \<Rightarrow> info | Some v \<Rightarrow> (Some v, snd info))
           else if take 11 line = ''VERSION_ID=''
           then (case scan_os_value (drop 11 line) of None \<Rightarrow> info | Some v \<Rightarrow> (fst info, Some v))
           else info))"
  by auto
termination
  by (relation "measure (length \<circ> fst)") (auto intro: fgets_shorter [where n = 255, OF _ _ sym])

declare os_info_lines.simps [simp del]

definition OS_CONF_FILE :: string where
  "OS_CONF_FILE = ''/etc/os-release''"

definition TDNFParseOSInfo :: "system \<Rightarrow> tdnf_conf \<Rightarrow> tdnf_conf" where
  "TDNFParseOSInfo sys pConf = (case sys_read sys OS_CONF_FILE of
     Inl e \<Rightarrow> pConf
   | Inr text \<Rightarrow> (case os_info_lines text (None, None) of (name, version) \<Rightarrow>
       pConf\<lparr>cf_pszOSName := name, cf_pszOSVersion := version\<rparr>))"

section \<open>Lists of lines\<close>

fun read_arrays :: "system \<Rightarrow> string \<Rightarrow> string list \<Rightarrow> string list list result" where
  "read_arrays sys dir [] = Inr []"
| "read_arrays sys dir (name # names) =
     bail (TDNFJoinPath [dir, name]) (\<lambda>path.
     bail (TDNFReadFileToStringArray sys (the path)) (\<lambda>lines.
     bail (read_arrays sys dir names) (\<lambda>arrays. Inr (lines # arrays))))"

text \<open>
  The array of arrays has one slot more than files. The lines that are already set go there; the loop
  that looks for the terminating NULL then reads behind the array.
\<close>

definition TDNFReadConfFilesFromDir ::
    "system \<Rightarrow> string option \<Rightarrow> string list option \<Rightarrow> string list option result option" where
  "TDNFReadConfFilesFromDir sys pszDir ppszLines =
     (if IsNullOrEmptyString pszDir then Some (Inl ERROR_TDNF_INVALID_PARAMETER)
      else case sys_dir sys (the pszDir) of
        Inl e \<Rightarrow> Some (Inr ppszLines)
      | Inr names \<Rightarrow>
          thenU (Some (read_arrays sys (the pszDir) (filter (sys_fnmatch sys ''*.conf'') names))) (\<lambda>arrays.
            case ppszLines of Some _ \<Rightarrow> None | None \<Rightarrow> Some (Inr (Some (concat arrays)))))"

section \<open>Reading the configuration\<close>

definition default_string :: "string \<Rightarrow> string option \<Rightarrow> string option" where
  "default_string d s = (case s of None \<Rightarrow> Some d | Some t \<Rightarrow> Some t)"

definition default_words :: "string \<Rightarrow> string list option \<Rightarrow> string list result" where
  "default_words d ws = (case ws of None \<Rightarrow> split_words d | Some w \<Rightarrow> Inr w)"

definition TDNF_DEFAULT_DISTROVERPKGS :: string where
  "TDNF_DEFAULT_DISTROVERPKGS = ''system-release(releasever) system-release redhat-release''"

definition TDNF_DEFAULT_VARS_DIRS :: string where
  "TDNF_DEFAULT_VARS_DIRS = ''/etc/tdnf/vars /etc/dnf/vars /etc/yum/vars''"

text \<open>The settings that a file left out.\<close>

definition fill_defaults :: "system \<Rightarrow> tdnf_conf \<Rightarrow> tdnf_conf result" where
  "fill_defaults sys c =
     (let os = default_string ''UNKNOWN'' (cf_pszOSName c); ver = default_string ''UNKNOWN'' (cf_pszOSVersion c) in
      bail (TDNFAllocateStringPrintf 0 (''tdnf/'' @ sys_version sys @ '' '' @ the os @ ''/'' @ the ver)) (\<lambda>agent.
      bail (default_words TDNF_DEFAULT_DISTROVERPKGS (cf_ppszDistroVerPkgs c)) (\<lambda>pkgs.
      bail (default_words TDNF_DEFAULT_VARS_DIRS (cf_ppszVarsDirs c)) (\<lambda>dirs.
      Inr (c\<lparr>cf_pszOSName := os, cf_pszOSVersion := ver, cf_pszUserAgentHeader := Some agent,
             cf_pszRepoDir := default_string TDNF_DEFAULT_REPO_LOCATION (cf_pszRepoDir c),
             cf_pszCacheDir := default_string ''/var/cache/tdnf'' (cf_pszCacheDir c),
             cf_ppszDistroVerPkgs := Some pkgs,
             cf_pszPersistDir := default_string (sys_db_dir sys) (cf_pszPersistDir c),
             cf_ppszVarsDirs := Some dirs,
             cf_pszPluginPath := default_string (sys_lib_dir sys @ ''/tdnf-plugins'') (cf_pszPluginPath c),
             cf_pszPluginConfPath := default_string ''/etc/tdnf/pluginconf.d'' (cf_pszPluginConfPath c)\<rparr>)))))"

definition conf_dir_lines :: "system \<Rightarrow> string \<Rightarrow> string \<Rightarrow> string list option \<Rightarrow> string list option result option" where
  "conf_dir_lines sys dir sub ls =
     thenU (Some (TDNFJoinPath [dir, sub])) (\<lambda>path. TDNFReadConfFilesFromDir sys path ls)"

text \<open>
  The settings are those of the first node of the file, whatever it is; a file without a node has none
  to read.
\<close>

definition TDNFReadConfig :: "system \<Rightarrow> string option \<Rightarrow> string option \<Rightarrow> tdnf_conf result option" where
  "TDNFReadConfig sys pszConfFile pszGroup =
     (if IsNullOrEmptyString pszConfFile \<or> IsNullOrEmptyString pszGroup
      then Some (Inl ERROR_TDNF_INVALID_PARAMETER)
      else thenU (load_cnftree sys (the pszConfFile)) (\<lambda>cn_conf.
           if first_child cn_conf = [] then None
           else thenU (TDNFConfigFromCnfTree (TDNFParseOSInfo sys conf_defaults) (hd (first_child cn_conf))) (\<lambda>c.
           thenU (Some (fill_defaults sys c)) (\<lambda>c.
           thenU (Some (TDNFDirName pszConfFile)) (\<lambda>dir.
           thenU (conf_dir_lines sys dir ''minversions.d'' (cf_ppszMinVersions c)) (\<lambda>minversions.
           thenU (conf_dir_lines sys dir ''locks.d'' (cf_ppszPkgLocks c)) (\<lambda>locks.
           thenU (conf_dir_lines sys dir ''protected.d'' (cf_ppszProtectedPkgs c)) (\<lambda>prot.
             Some (Inr (c\<lparr>cf_ppszMinVersions := minversions, cf_ppszPkgLocks := locks,
               cf_ppszProtectedPkgs := prot\<rparr>))))))))))"

section \<open>The variables of the configuration\<close>

text \<open>
  The loop over the packages that may provide the release: an error other than the missing package
  ends it. The result is the last error code and the version.
\<close>

fun find_release :: "(string \<Rightarrow> string result) \<Rightarrow> errcode \<Rightarrow> string list \<Rightarrow> (errcode \<times> string option) result" where
  "find_release get_release e [] = Inr (e, None)"
| "find_release get_release e (pkg # pkgs) = (case get_release pkg of
     Inr version \<Rightarrow> Inr (0, Some version)
   | Inl e \<Rightarrow> if e = ERROR_TDNF_NO_DISTROVERPKG then find_release get_release e pkgs else Inl e)"

definition TDNFConfigExpandVars ::
    "(string \<Rightarrow> string result) \<Rightarrow> string result \<Rightarrow> string option \<Rightarrow> tdnf_conf \<Rightarrow> (errcode \<times> tdnf_conf) option" where
  "TDNFConfigExpandVars get_release kernel_arch args_releasever c =
     (case (if cf_pszVarReleaseVer c = None \<and> \<not> IsNullOrEmptyString args_releasever
            then bail (TDNFAllocateString args_releasever) (\<lambda>v. Inr (c\<lparr>cf_pszVarReleaseVer := Some v\<rparr>))
            else Inr c) of
      Inl e \<Rightarrow> Some (e, c)
    | Inr c \<Rightarrow>
      case (if cf_pszVarReleaseVer c \<noteq> None then Some (Inr (0, cf_pszVarReleaseVer c))
            else map_option (find_release get_release 0) (cf_ppszDistroVerPkgs c)) of
        None \<Rightarrow> None
      | Some (Inl e) \<Rightarrow> Some (e, c)
      | Some (Inr (e, version)) \<Rightarrow>
          let c = c\<lparr>cf_pszVarReleaseVer := version\<rparr> in
          if cf_pszVarBaseArch c \<noteq> None then Some (e, c)
          else (case kernel_arch of
                  Inl e \<Rightarrow> Some (e, c) | Inr arch \<Rightarrow> Some (0, c\<lparr>cf_pszVarBaseArch := Some arch\<rparr>)))"

text \<open>\<^verbatim>\<open>TDNFConfigReplaceVars\<close> with the configuration it reads.\<close>

definition replace_conf_vars :: "cnfnode option option \<Rightarrow> tdnf_conf \<Rightarrow> string \<Rightarrow> string result option" where
  "replace_conf_vars parsed_dirs c str =
     TDNFConfigReplaceVars parsed_dirs (cf_pszVarReleaseVer c) (cf_pszVarBaseArch c) (Some str)"

section \<open>Settings are read back\<close>

lemma set_words_ok:
  "set_words upd v st = Some (Inr s) \<longleftrightarrow> (\<exists>ws. split_words v = Inr ws \<and> s = (upd (Some ws) (fst st), snd st))"
  by (auto simp: set_words_def bail_Inr_iff)

lemmas setting_simps = table_step_def config_table_def set_conf_def set_words_ok starts_def keeps_def

interpretation gpgcheck: setting config_key "''gpgcheck''" int_true "\<lambda>s. cf_nGPGCheck (fst s)"
  unfolding config_key_def by (rule table_setting) (auto simp: setting_simps)

interpretation sslverify: setting config_key "''sslverify''" int_true "\<lambda>s. cf_nSSLVerify (fst s)"
  unfolding config_key_def by (rule table_setting) (auto simp: setting_simps)

interpretation installonly: setting config_key "''installonly_limit''" strtoi "\<lambda>s. cf_nInstallOnlyLimit (fst s)"
  unfolding config_key_def by (rule table_setting) (auto simp: setting_simps)

interpretation openmax: setting config_key "''openmax''" strtoi "\<lambda>s. cf_nOpenMax (fst s)"
  unfolding config_key_def by (rule table_setting) (auto simp: setting_simps)

interpretation plugins: setting config_key "''plugins''" int_true "\<lambda>s. cf_nPluginsEnabled (fst s)"
  unfolding config_key_def by (rule table_setting) (auto simp: setting_simps)

interpretation cachedir: setting config_key "''cachedir''" Some "\<lambda>s. cf_pszCacheDir (fst s)"
  unfolding config_key_def by (rule table_setting) (auto simp: setting_simps)

interpretation pluginpath: setting config_key "''pluginpath''" Some "\<lambda>s. cf_pszPluginPath (fst s)"
  unfolding config_key_def by (rule table_setting) (auto simp: setting_simps)

interpretation proxy_user: setting config_key "''proxy_username''" Some "\<lambda>s. fst (snd s)"
  unfolding config_key_def by (rule table_setting) (auto simp: setting_simps)

interpretation proxy_password: setting config_key "''proxy_password''" Some "\<lambda>s. snd (snd s)"
  unfolding config_key_def by (rule table_setting) (auto simp: setting_simps)

lemma load_cnftree_ok:
  "load_cnftree sys f = Some (Inr cn) \<longleftrightarrow> (\<exists>content. sys_read sys f = Inr content \<and> parse_ini None content = Some cn)"
  by (auto simp: load_cnftree_def split: sum.splits option.splits)

lemma load_cnftree_of: "sys_read sys f = Inr content \<Longrightarrow> parse_ini None content = Some cn
    \<Longrightarrow> load_cnftree sys f = Some (Inr cn)"
  by (simp add: load_cnftree_def)

lemma ParseOSInfo_settings:
  "cf_nGPGCheck (TDNFParseOSInfo sys c) = cf_nGPGCheck c"
  "cf_nSSLVerify (TDNFParseOSInfo sys c) = cf_nSSLVerify c"
  "cf_nInstallOnlyLimit (TDNFParseOSInfo sys c) = cf_nInstallOnlyLimit c"
  "cf_nOpenMax (TDNFParseOSInfo sys c) = cf_nOpenMax c"
  "cf_nPluginsEnabled (TDNFParseOSInfo sys c) = cf_nPluginsEnabled c"
  "cf_pszCacheDir (TDNFParseOSInfo sys c) = cf_pszCacheDir c"
  by (simp_all add: TDNFParseOSInfo_def split: sum.split prod.split)

lemma FromCnfTree_entries:
  assumes "TDNFConfigFromCnfTree c0 cn = Some (Inr c)"
  obtains c1 up where "each_entry config_key (first_child cn) (c0, None, None) = Some (Inr (c1, up))"
    and "c = c1 \<or> (\<exists>p. c = c1\<lparr>cf_pszProxyUserPass := p\<rparr>)"
proof -
  obtain x where e: "each_entry config_key (first_child cn) (c0, None, None) = Some (Inr x)"
    and r: "(case x of (c, user, pass) \<Rightarrow> (case (user, pass) of
         (Some u, Some p) \<Rightarrow> Some (bail (TDNFAllocateStringPrintf 0 (u @ '':'' @ p)) (\<lambda>up.
             Inr (c\<lparr>cf_pszProxyUserPass := Some up\<rparr>)))
       | _ \<Rightarrow> Some (Inr c))) = Some (Inr c)"
    using assms unfolding TDNFConfigFromCnfTree_def thenU_ok by blast
  obtain c1 u p where x: "x = (c1, u, p)" by (metis prod_cases3)
  have "c = c1 \<or> (\<exists>p. c = c1\<lparr>cf_pszProxyUserPass := p\<rparr>)"
  proof (cases "u = None \<or> p = None")
    case True
    then have "Inr c1 = (Inr c :: errcode + tdnf_conf)"
      using r unfolding x by (cases u; cases p) simp_all
    then show ?thesis by simp
  next
    case False
    with r x show ?thesis
      by (auto simp only: prod.case option.case bail_Inr_iff option.inject sum.inject not_None_eq de_Morgan_disj)
  qed
  with e [unfolded x] show thesis by (rule that)
qed

text \<open>What the rest of \<^verbatim>\<open>TDNFReadConfig\<close> keeps of the settings.\<close>

lemma ReadConfig_settings:
  assumes "TDNFReadConfig sys (Some f) (Some g) = Some (Inr c)"
    and "load_cnftree sys f = Some (Inr (Cnf n v (sec # rest)))"
  obtains c1 up where
    "each_entry config_key (first_child sec) (TDNFParseOSInfo sys conf_defaults, None, None) = Some (Inr (c1, up))"
    and "cf_nGPGCheck c = cf_nGPGCheck c1" "cf_nSSLVerify c = cf_nSSLVerify c1"
    and "cf_nInstallOnlyLimit c = cf_nInstallOnlyLimit c1" "cf_nOpenMax c = cf_nOpenMax c1"
    and "cf_nPluginsEnabled c = cf_nPluginsEnabled c1"
    and "cf_pszCacheDir c = default_string ''/var/cache/tdnf'' (cf_pszCacheDir c1)"
proof -
  have "\<not> (IsNullOrEmptyString (Some f) \<or> IsNullOrEmptyString (Some g))"
    using assms(1) unfolding TDNFReadConfig_def by (meson Inl_Inr_False option.inject)
  note run = assms(1) [unfolded TDNFReadConfig_def if_not_P [OF this] option.sel assms(2) thenU_simps
      cnfnode.sel list.sel if_not_P [OF list.distinct(2)], unfolded thenU_ok]
  from run obtain c2 c3 m l p where
    c2: "TDNFConfigFromCnfTree (TDNFParseOSInfo sys conf_defaults) sec = Some (Inr c2)"
    and c3: "fill_defaults sys c2 = Inr c3"
    and c: "c = c3\<lparr>cf_ppszMinVersions := m, cf_ppszPkgLocks := l, cf_ppszProtectedPkgs := p\<rparr>"
    by blast
  from FromCnfTree_entries [OF c2] obtain c1 up where
    e: "each_entry config_key (first_child sec) (TDNFParseOSInfo sys conf_defaults, None, None) = Some (Inr (c1, up))"
    and c12: "c2 = c1 \<or> (\<exists>p. c2 = c1\<lparr>cf_pszProxyUserPass := p\<rparr>)" .
  from c3 c have "cf_nGPGCheck c = cf_nGPGCheck c2" "cf_nSSLVerify c = cf_nSSLVerify c2"
    "cf_nInstallOnlyLimit c = cf_nInstallOnlyLimit c2" "cf_nOpenMax c = cf_nOpenMax c2"
    "cf_nPluginsEnabled c = cf_nPluginsEnabled c2"
    "cf_pszCacheDir c = default_string ''/var/cache/tdnf'' (cf_pszCacheDir c2)"
    by (auto simp: fill_defaults_def Let_def bail_Inr_iff)
  with c12 show thesis by (intro that [OF e]) auto
qed

text \<open>Reading a configuration file gives every setting the last value its section has for it, and the
  documented default when it has none.\<close>

theorem ReadConfig_last_wins:
  assumes "TDNFReadConfig sys (Some f) (Some g) = Some (Inr c)"
    and "sys_read sys f = Inr content" and "parse_ini None content = Some (Cnf n v (sec # rest))"
  shows "cf_nGPGCheck c = (case last_value ''gpgcheck'' (first_child sec) of None \<Rightarrow> 0 | Some v \<Rightarrow> int_true v)
    \<and> cf_nSSLVerify c = (case last_value ''sslverify'' (first_child sec) of None \<Rightarrow> 1 | Some v \<Rightarrow> int_true v)
    \<and> cf_nInstallOnlyLimit c = (case last_value ''installonly_limit'' (first_child sec) of None \<Rightarrow> 2 | Some v \<Rightarrow> strtoi v)
    \<and> cf_nOpenMax c = (case last_value ''openmax'' (first_child sec) of None \<Rightarrow> 1024 | Some v \<Rightarrow> strtoi v)
    \<and> cf_nPluginsEnabled c = (case last_value ''plugins'' (first_child sec) of None \<Rightarrow> 0 | Some v \<Rightarrow> int_true v)
    \<and> cf_pszCacheDir c = Some (case last_value ''cachedir'' (first_child sec) of None \<Rightarrow> ''/var/cache/tdnf'' | Some v \<Rightarrow> v)"
proof -
  obtain c1 up where
    e: "each_entry config_key (first_child sec) (TDNFParseOSInfo sys conf_defaults, None, None) = Some (Inr (c1, up))"
    and eq: "cf_nGPGCheck c = cf_nGPGCheck c1" "cf_nSSLVerify c = cf_nSSLVerify c1"
      "cf_nInstallOnlyLimit c = cf_nInstallOnlyLimit c1" "cf_nOpenMax c = cf_nOpenMax c1"
      "cf_nPluginsEnabled c = cf_nPluginsEnabled c1"
      "cf_pszCacheDir c = default_string ''/var/cache/tdnf'' (cf_pszCacheDir c1)"
    using ReadConfig_settings [OF assms(1) load_cnftree_of [OF assms(2,3)]] .
  show ?thesis
    using gpgcheck.last_wins [OF e] sslverify.last_wins [OF e] installonly.last_wins [OF e]
      openmax.last_wins [OF e] plugins.last_wins [OF e] cachedir.last_wins [OF e]
    by (simp add: eq ParseOSInfo_settings conf_defaults_def default_string_def split: option.split)
qed

definition sample_system :: system where
  "sample_system = \<lparr>
     sys_read = (\<lambda>f. if f = ''/etc/tdnf/tdnf.conf'' then Inr (concat [''[main]'', [NL], ''gpgcheck=1'', [NL], ''openmax=7'', [NL], ''gpgcheck=0'', [NL]])
       else Inl ENOENT),
     sys_dir = (\<lambda>d. Inl ENOENT), sys_stat = (\<lambda>p. Inl ENOENT), sys_fnmatch = (\<lambda>p s. True), sys_version = ''3.5'',
     sys_db_dir = ''/var/lib/tdnf'', sys_lib_dir = ''/usr/lib''\<rparr>"

lemma sample_tree_parsed:
  "parse_ini None (concat [''[main]'', [NL], ''gpgcheck=1'', [NL], ''openmax=7'', [NL], ''gpgcheck=0'', [NL]])
     = Some (Cnf ''(root)'' None [Cnf ''main'' None
         [Cnf ''gpgcheck'' (Some ''1'') [], Cnf ''openmax'' (Some ''7'') [], Cnf ''gpgcheck'' (Some ''0'') []]])"
  by code_simp

lemma sample_values: "int_true ''0'' = 0" "int_true ''1'' = 1" "strtoi ''7'' = 7"
  by code_simp+

lemma sample_defaults:
  "split_words TDNF_DEFAULT_DISTROVERPKGS = Inr [''system-release(releasever)'', ''system-release'', ''redhat-release'']"
  "split_words TDNF_DEFAULT_VARS_DIRS = Inr [''/etc/tdnf/vars'', ''/etc/dnf/vars'', ''/etc/yum/vars'']"
  by code_simp+

lemma sample_dirs:
  "dirname ''/etc/tdnf/tdnf.conf'' = ''/etc/tdnf''"
  "TDNFDirName (Some ''/etc/tdnf/tdnf.conf'') = Inr ''/etc/tdnf''"
proof -
  show d: "dirname ''/etc/tdnf/tdnf.conf'' = ''/etc/tdnf''" by code_simp
  show "TDNFDirName (Some ''/etc/tdnf/tdnf.conf'') = Inr ''/etc/tdnf''"
    by (simp add: TDNFDirName_def TDNFAllocateString_def TDNF_DEFAULT_MAX_STRING_LEN_def d)
qed

lemma sample_conf_read:
  "\<exists>c. TDNFReadConfig sample_system (Some ''/etc/tdnf/tdnf.conf'') (Some ''main'') = Some (Inr c)"
proof -
  have "load_cnftree sample_system ''/etc/tdnf/tdnf.conf'' = Some (Inr (Cnf ''(root)'' None [Cnf ''main'' None
         [Cnf ''gpgcheck'' (Some ''1'') [], Cnf ''openmax'' (Some ''7'') [], Cnf ''gpgcheck'' (Some ''0'') []]]))"
    by (rule load_cnftree_of [OF _ sample_tree_parsed]) (simp add: sample_system_def)
  moreover have "TDNFParseOSInfo sample_system conf_defaults = conf_defaults"
    by (simp add: TDNFParseOSInfo_def sample_system_def OS_CONF_FILE_def)
  moreover have "TDNFConfigFromCnfTree conf_defaults (Cnf ''main'' None
         [Cnf ''gpgcheck'' (Some ''1'') [], Cnf ''openmax'' (Some ''7'') [], Cnf ''gpgcheck'' (Some ''0'') []])
      = Some (Inr (conf_defaults\<lparr>cf_nGPGCheck := 0, cf_nOpenMax := 7\<rparr>))"
    by (simp add: TDNFConfigFromCnfTree_def config_key_def table_step_def config_table_def set_conf_def starts_def sample_values)
  moreover have "\<exists>c. fill_defaults sample_system (conf_defaults\<lparr>cf_nGPGCheck := 0, cf_nOpenMax := 7\<rparr>) = Inr c"
    by (simp add: fill_defaults_def Let_def default_string_def default_words_def conf_defaults_def sample_defaults
        TDNFAllocateStringPrintf_def TDNF_DEFAULT_MAX_STRING_LEN_def sample_system_def)
  moreover have "conf_dir_lines sample_system ''/etc/tdnf'' ''minversions.d'' ls = Some (Inr ls)"
    "conf_dir_lines sample_system ''/etc/tdnf'' ''locks.d'' ls = Some (Inr ls)"
    "conf_dir_lines sample_system ''/etc/tdnf'' ''protected.d'' ls = Some (Inr ls)" for ls
    by (simp_all add: conf_dir_lines_def TDNFJoinPath_def TDNFAllocateString_def TDNF_DEFAULT_MAX_STRING_LEN_def
        strip_trailing_slashes_def is_slash_def TDNFReadConfFilesFromDir_def sample_system_def Let_def)
  ultimately show ?thesis
    by (auto simp: TDNFReadConfig_def sample_dirs)
qed

theorem ReadConfig_last_wins_witness:
  "\<exists>c. TDNFReadConfig sample_system (Some ''/etc/tdnf/tdnf.conf'') (Some ''main'') = Some (Inr c)
     \<and> cf_nGPGCheck c = 0 \<and> cf_nOpenMax c = 7 \<and> cf_nSSLVerify c = 1"
proof -
  obtain c where c: "TDNFReadConfig sample_system (Some ''/etc/tdnf/tdnf.conf'') (Some ''main'') = Some (Inr c)"
    using sample_conf_read ..
  have "sys_read sample_system ''/etc/tdnf/tdnf.conf''
      = Inr (concat [''[main]'', [NL], ''gpgcheck=1'', [NL], ''openmax=7'', [NL], ''gpgcheck=0'', [NL]])"
    by (simp add: sample_system_def)
  from ReadConfig_last_wins [OF c this sample_tree_parsed] c show ?thesis
    by (auto simp: last_value_def sample_values)
qed

text \<open>A comment line before the section hides all settings: they are read from the first node of the file.\<close>

theorem ReadConfig_comment_first:
  assumes "TDNFReadConfig sys (Some f) (Some g) = Some (Inr c)"
    and "sys_read sys f = Inr content" and "parse_ini None content = Some (Cnf n v (Cnf name w [] # rest))"
  shows "cf_nGPGCheck c = 0 \<and> cf_nOpenMax c = 1024 \<and> cf_pszCacheDir c = Some ''/var/cache/tdnf''"
proof -
  obtain c1 up where
    "each_entry config_key (first_child (Cnf name w [])) (TDNFParseOSInfo sys conf_defaults, None, None)
      = Some (Inr (c1, up))"
    and "cf_nGPGCheck c = cf_nGPGCheck c1" "cf_nOpenMax c = cf_nOpenMax c1"
      "cf_pszCacheDir c = default_string ''/var/cache/tdnf'' (cf_pszCacheDir c1)"
    using ReadConfig_settings [OF assms(1) load_cnftree_of [OF assms(2,3)]] .
  then show ?thesis by (auto simp: ParseOSInfo_settings conf_defaults_def default_string_def)
qed

text \<open>
  Lines from the configuration file and a directory of further lines do not go together: the loop reads
  behind its array.
\<close>

theorem ReadConfFiles_overread:
  assumes "d \<noteq> []" and "sys_dir sys d = Inr names" and "filter (sys_fnmatch sys ''*.conf'') names = []"
  shows "TDNFReadConfFilesFromDir sys (Some d) (Some ls) = None"
  using assms by (simp add: TDNFReadConfFilesFromDir_def)

text \<open>
  Without such lines the lists of the files are concatenated in the order of the directory.
\<close>

lemma read_arrays_ok:
  "read_arrays sys dir names = Inr arrays \<Longrightarrow>
     list_all2 (\<lambda>name lines. \<exists>path. TDNFJoinPath [dir, name] = Inr path
       \<and> TDNFReadFileToStringArray sys (the path) = Inr lines) names arrays"
  by (induction names arbitrary: arrays) (auto simp: bail_Inr_iff)

end
