(* ===== verification/Tdnf_Options.thy ===== *)
theory Tdnf_Options
  imports Tdnf_Strings "HOL-Library.Word"
begin

text \<open>
  Two keyed lists of tdnf and the interface \<open>kv_store\<close> they both provide: the command line options
  set with \<^verbatim>\<open>--setopt\<close> (\<^verbatim>\<open>common/setopt.c\<close>), a list that grows at its end, and the event context
  handed to the plugins (\<^verbatim>\<open>client/eventdata.c\<close>), a list that grows at its head.
\<close>

section \<open>Options\<close>

type_synonym cmd_opt = "string \<times> string option"

record cmd_args =
  pSetOpt :: "cmd_opt list"
  pszConfFile :: "string option"

definition GetOptionAndValue :: "string option \<Rightarrow> (string \<times> string) result" where
  "GetOptionAndValue pszOptArg =
     (if IsNullOrEmptyString pszOptArg then Inl ERROR_TDNF_INVALID_PARAMETER
      else case strstr (the pszOptArg) ''='' of
             None \<Rightarrow> Inl ERROR_TDNF_SETOPT_NO_EQUALS
           | Some nEqualsPos \<Rightarrow>
               bail (TDNFAllocateString pszOptArg) (\<lambda>name.
               bail (TDNFAllocateString (Some (drop (nEqualsPos + 1) (the pszOptArg)))) (\<lambda>value.
                 Inr (take nEqualsPos name, value))))"

text \<open>Functions that change the arguments return the error code (0 for success) and the arguments.\<close>

definition AddSetOptWithValues ::
    "cmd_args \<Rightarrow> string option \<Rightarrow> string option \<Rightarrow> errcode \<times> cmd_args" where
  "AddSetOptWithValues pCmdArgs pszOptArg pszOptValue =
     (if IsNullOrEmptyString pszOptArg then (ERROR_TDNF_INVALID_PARAMETER, pCmdArgs)
      else case bail (TDNFAllocateString pszOptArg) (\<lambda>name.
                  bail (TDNFSafeAllocateString pszOptValue) (\<lambda>value. Inr (name, value))) of
             Inl e \<Rightarrow> (e, pCmdArgs)
           | Inr opt \<Rightarrow> (0, pCmdArgs\<lparr>pSetOpt := pSetOpt pCmdArgs @ [opt]\<rparr>))"

text \<open>The error path of \<^verbatim>\<open>AddSetOpt\<close> frees the name of the configuration file.\<close>

definition AddSetOpt :: "cmd_args \<Rightarrow> string option \<Rightarrow> errcode \<times> cmd_args" where
  "AddSetOpt pCmdArgs pszOptArg =
     (if IsNullOrEmptyString pszOptArg
      then (ERROR_TDNF_INVALID_PARAMETER, pCmdArgs\<lparr>pszConfFile := None\<rparr>)
      else case GetOptionAndValue pszOptArg of
             Inl e \<Rightarrow> (e, pCmdArgs\<lparr>pszConfFile := None\<rparr>)
           | Inr (name, value) \<Rightarrow>
               (case AddSetOptWithValues pCmdArgs (Some name) (Some value) of
                  (e, a) \<Rightarrow> if e \<noteq> 0 then (e, a\<lparr>pszConfFile := None\<rparr>) else (0, a)))"

text \<open>\<^verbatim>\<open>_TDNFGetCmdOpt\<close>: the value slot of the first option with that name.\<close>

fun GetCmdOpt :: "cmd_opt list \<Rightarrow> string \<Rightarrow> string option result" where
  "GetCmdOpt [] pszOptName = Inl ERROR_TDNF_OPT_NOT_FOUND"
| "GetCmdOpt ((name, value) # opts) pszOptName =
     (if name = pszOptName then Inr value else GetCmdOpt opts pszOptName)"

definition TDNFHasOpt :: "cmd_args \<Rightarrow> string option \<Rightarrow> bool result" where
  "TDNFHasOpt pArgs pszOptName =
     (if IsNullOrEmptyString pszOptName then Inl ERROR_TDNF_INVALID_PARAMETER
      else if pSetOpt pArgs = [] then Inr False
      else case GetCmdOpt (pSetOpt pArgs) (the pszOptName) of
             Inl e \<Rightarrow> if e = ERROR_TDNF_OPT_NOT_FOUND then Inr False else Inl e
           | Inr _ \<Rightarrow> Inr True)"

definition TDNFGetCmdOptValue :: "cmd_args \<Rightarrow> string option \<Rightarrow> string option result" where
  "TDNFGetCmdOptValue pArgs pszOptName =
     (if pSetOpt pArgs = [] \<or> IsNullOrEmptyString pszOptName then Inl ERROR_TDNF_INVALID_PARAMETER
      else bail (GetCmdOpt (pSetOpt pArgs) (the pszOptName)) (\<lambda>value.
             TDNFSafeAllocateString value))"

definition TDNFGetOptWithDefault ::
    "cmd_args \<Rightarrow> string option \<Rightarrow> string option \<Rightarrow> string option result" where
  "TDNFGetOptWithDefault pArgs pszOptName pszDefault =
     (case TDNFGetCmdOptValue pArgs pszOptName of
        Inl e \<Rightarrow> if \<not> IsNullOrEmptyString pszDefault \<and> e = ERROR_TDNF_OPT_NOT_FOUND
                 then bail (TDNFAllocateString pszDefault) (\<lambda>v. Inr (Some v)) else Inl e
      | Inr v \<Rightarrow> Inr v)"

fun set_first :: "cmd_opt list \<Rightarrow> string \<Rightarrow> string option \<Rightarrow> cmd_opt list" where
  "set_first [] k v = []"
| "set_first ((name, value) # opts) k v =
     (if name = k then (name, v) # opts else (name, value) # set_first opts k v)"

definition TDNFSetOpt :: "cmd_args \<Rightarrow> string option \<Rightarrow> string option \<Rightarrow> errcode \<times> cmd_args" where
  "TDNFSetOpt pArgs pszOptName pszOptValue =
     (if IsNullOrEmptyString pszOptName \<or> IsNullOrEmptyString pszOptValue
      then (ERROR_TDNF_INVALID_PARAMETER, pArgs)
      else case GetCmdOpt (pSetOpt pArgs) (the pszOptName) of
             Inl e \<Rightarrow> if e = ERROR_TDNF_OPT_NOT_FOUND
                      then AddSetOptWithValues pArgs pszOptName pszOptValue else (e, pArgs)
           | Inr _ \<Rightarrow>
               (case TDNFAllocateString pszOptValue of
                  Inl e \<Rightarrow> (e, pArgs\<lparr>pSetOpt := set_first (pSetOpt pArgs) (the pszOptName) None\<rparr>)
                | Inr v \<Rightarrow> (0, pArgs\<lparr>pSetOpt := set_first (pSetOpt pArgs) (the pszOptName) (Some v)\<rparr>)))"

text \<open>The value of an option, and the names and values the setters accept.\<close>

definition opt_value :: "cmd_args \<Rightarrow> string \<Rightarrow> string option" where
  "opt_value a k = (case TDNFGetCmdOptValue a (Some k) of Inr v \<Rightarrow> v | Inl _ \<Rightarrow> None)"

definition opt_ok :: "string \<Rightarrow> string \<Rightarrow> bool" where
  "opt_ok k v \<longleftrightarrow> k \<noteq> [] \<and> v \<noteq> [] \<and> length k \<le> TDNF_DEFAULT_MAX_STRING_LEN
     \<and> length v \<le> TDNF_DEFAULT_MAX_STRING_LEN"

definition set_opt :: "string \<Rightarrow> string \<Rightarrow> cmd_args \<Rightarrow> cmd_args" where
  "set_opt k v a = snd (TDNFSetOpt a (Some k) (Some v))"

definition find_opt :: "cmd_opt list \<Rightarrow> string \<Rightarrow> string option option" where
  "find_opt opts k = (case GetCmdOpt opts k of Inl _ \<Rightarrow> None | Inr v \<Rightarrow> Some v)"

lemma GetCmdOpt_map_of: "find_opt opts k = map_of opts k"
  by (induction opts k rule: GetCmdOpt.induct) (auto simp: find_opt_def)

lemma GetCmdOpt_error: "GetCmdOpt opts k = Inl e \<Longrightarrow> e = ERROR_TDNF_OPT_NOT_FOUND"
  by (induction opts k rule: GetCmdOpt.induct) (auto split: if_splits)

lemma GetCmdOpt_cases:
  "GetCmdOpt opts k = (case map_of opts k of None \<Rightarrow> Inl ERROR_TDNF_OPT_NOT_FOUND | Some v \<Rightarrow> Inr v)"
  by (induction opts k rule: GetCmdOpt.induct) auto

lemma map_of_set_first:
  "map_of opts k \<noteq> None \<Longrightarrow> map_of (set_first opts k v) = (map_of opts)(k \<mapsto> v)"
  by (induction opts k v rule: set_first.induct) (auto simp: fun_eq_iff)

lemma map_of_append_new:
  "map_of opts k = None \<Longrightarrow> map_of (opts @ [(k, v)]) = (map_of opts)(k \<mapsto> v)"
  by (auto simp: map_add_def fun_eq_iff split: option.splits)

lemma set_opt_map:
  assumes "opt_ok k v"
  shows "TDNFSetOpt a (Some k) (Some v) = (0, set_opt k v a)"
    and "map_of (pSetOpt (set_opt k v a)) = (map_of (pSetOpt a))(k \<mapsto> Some v)"
  using assms
  by (auto simp: set_opt_def TDNFSetOpt_def opt_ok_def GetCmdOpt_cases AddSetOptWithValues_def
      TDNFAllocateString_def TDNFSafeAllocateString_def map_of_set_first
      map_of_append_new [simplified] split: option.splits)

lemma opt_value_map:
  "opt_value a k = (if k = [] then None else case map_of (pSetOpt a) k of
     Some (Some v) \<Rightarrow> if length v \<le> TDNF_DEFAULT_MAX_STRING_LEN then Some v else None
   | _ \<Rightarrow> None)"
  by (auto simp: opt_value_def TDNFGetCmdOptValue_def GetCmdOpt_cases TDNFSafeAllocateString_def
      TDNFAllocateString_def split: option.splits)

interpretation opts: kv_store "\<lambda>_. True" opt_ok set_opt opt_value
  by unfold_locales (auto simp: opt_value_map set_opt_map opt_ok_def)

text \<open>After any sequence of \<^verbatim>\<open>TDNFSetOpt\<close> calls an option has the value set last, and options that
  were not set keep theirs.\<close>

theorem SetOpt_last_wins:
  assumes "list_all (\<lambda>(k, v). opt_ok k v) kvs"
  shows "opt_value (fold (\<lambda>(k, v) a. snd (TDNFSetOpt a (Some k) (Some v))) kvs args) l
    = (case map_of (rev kvs) l of Some v \<Rightarrow> Some v | None \<Rightarrow> opt_value args l)"
  using opts.get_puts [OF TrueI assms, of args l] unfolding opts.puts_def set_opt_def by simp

theorem SetOpt_last_wins_witness:
  "opt_value (fold (\<lambda>(k, v) a. snd (TDNFSetOpt a (Some k) (Some v)))
       [(''a'', ''1''), (''b'', ''2''), (''a'', ''3'')] \<lparr>pSetOpt = [], pszConfFile = None\<rparr>) ''a''
     = Some ''3''"
proof -
  have h: "list_all (\<lambda>(k, v). opt_ok k v) [(''a'', ''1''), (''b'', ''2''), (''a'', ''3'')]"
    by (simp add: opt_ok_def TDNF_DEFAULT_MAX_STRING_LEN_def)
  show ?thesis using SetOpt_last_wins [OF h, of "\<lparr>pSetOpt = [], pszConfFile = None\<rparr>" "''a''"] by simp
qed

text \<open>\<^verbatim>\<open>--setopt name=value\<close> splits at the first equals sign and is found under its name, unless an
  earlier \<^verbatim>\<open>--setopt\<close> of the same name is: the list is read from its start.\<close>

theorem AddSetOpt_first_wins:
  assumes "name \<noteq> []" and "CHR ''='' \<notin> set name"
    and "length (name @ ''='' @ value) \<le> TDNF_DEFAULT_MAX_STRING_LEN"
  shows "AddSetOpt a (Some (name @ ''='' @ value)) = (0, a\<lparr>pSetOpt := pSetOpt a @ [(name, Some value)]\<rparr>)
    \<and> map_of (pSetOpt (snd (AddSetOpt a (Some (name @ ''='' @ value))))) name
      = (case map_of (pSetOpt a) name of Some w \<Rightarrow> Some w | None \<Rightarrow> Some (Some value))"
proof -
  have "strstr (name @ ''='' @ value) ''='' = Some (length name)"
    using assms(2) by (induction name) auto
  then have add: "AddSetOpt a (Some (name @ ''='' @ value))
      = (0, a\<lparr>pSetOpt := pSetOpt a @ [(name, Some value)]\<rparr>)"
    using assms by (auto simp: AddSetOpt_def GetOptionAndValue_def AddSetOptWithValues_def
        TDNFAllocateString_def TDNFSafeAllocateString_def)
  show ?thesis
    unfolding add by (simp add: map_add_def split: option.splits)
qed

theorem AddSetOpt_first_wins_witness:
  "AddSetOpt \<lparr>pSetOpt = [(''a'', Some ''1'')], pszConfFile = None\<rparr> (Some ''a=b=2'')
     = (0, \<lparr>pSetOpt = [(''a'', Some ''1''), (''a'', Some ''b=2'')], pszConfFile = None\<rparr>)
   \<and> map_of [(''a'', Some ''1''), (''a'', Some ''b=2'')] ''a'' = Some (Some ''1'')"
  using AddSetOpt_first_wins [of "''a''" "''b=2''" "\<lparr>pSetOpt = [(''a'', Some ''1'')], pszConfFile = None\<rparr>"]
  by (simp add: TDNF_DEFAULT_MAX_STRING_LEN_def)

text \<open>\<^verbatim>\<open>TDNFGetOptWithDefault\<close> returns the default for a missing option only when some other option
  is set: on an empty option list it fails.\<close>

theorem GetOptWithDefault_empty:
  assumes "k \<noteq> []" and "d \<noteq> []" and "length d \<le> TDNF_DEFAULT_MAX_STRING_LEN"
    and "map_of (pSetOpt a) k = None"
  shows "TDNFGetOptWithDefault a (Some k) (Some d)
    = (if pSetOpt a = [] then Inl ERROR_TDNF_INVALID_PARAMETER else Inr (Some d))"
  using assms by (auto simp: TDNFGetOptWithDefault_def TDNFGetCmdOptValue_def GetCmdOpt_cases
      TDNFAllocateString_def)

theorem GetOptWithDefault_empty_witness:
  "TDNFGetOptWithDefault \<lparr>pSetOpt = [], pszConfFile = None\<rparr> (Some ''k'') (Some ''d'')
     = Inl ERROR_TDNF_INVALID_PARAMETER"
  using GetOptWithDefault_empty [of "''k''" "''d''" "\<lparr>pSetOpt = [], pszConfFile = None\<rparr>"]
  by (simp add: TDNF_DEFAULT_MAX_STRING_LEN_def)

section \<open>The event context\<close>

text \<open>
  Items hold borrowed pointers: a string by its contents, an opaque pointer by its (non NULL)
  address. The context carries the event word it was raised for.
\<close>

datatype event_item = EvString string | EvPtr nat

record event_context =
  nEvent :: "32 word"
  pData :: "(string \<times> event_item) list"

definition TDNFAddEventDataString ::
    "event_context \<Rightarrow> string option \<Rightarrow> string option \<Rightarrow> errcode \<times> event_context" where
  "TDNFAddEventDataString pContext pcszName pcszStr =
     (if IsNullOrEmptyString pcszName \<or> IsNullOrEmptyString pcszStr
      then (ERROR_TDNF_INVALID_PARAMETER, pContext)
      else (0, pContext\<lparr>pData := (the pcszName, EvString (the pcszStr)) # pData pContext\<rparr>))"

definition TDNFAddEventDataPtr ::
    "event_context \<Rightarrow> string option \<Rightarrow> nat \<Rightarrow> errcode \<times> event_context" where
  "TDNFAddEventDataPtr pContext pcszName pPtr =
     (if IsNullOrEmptyString pcszName \<or> pPtr = 0
      then (ERROR_TDNF_INVALID_PARAMETER, pContext)
      else (0, pContext\<lparr>pData := (the pcszName, EvPtr pPtr) # pData pContext\<rparr>))"

fun find_event_item :: "(string \<times> event_item) list \<Rightarrow> string \<Rightarrow> event_item option" where
  "find_event_item [] pcszName = None"
| "find_event_item ((name, item) # rest) pcszName =
     (if pcszName = name then Some item else find_event_item rest pcszName)"

definition TDNFEventContextGetItem :: "event_context \<Rightarrow> string option \<Rightarrow> event_item result" where
  "TDNFEventContextGetItem pContext pcszName =
     (if pData pContext = [] \<or> IsNullOrEmptyString pcszName then Inl ERROR_TDNF_INVALID_PARAMETER
      else case find_event_item (pData pContext) (the pcszName) of
             None \<Rightarrow> Inl ERROR_TDNF_EVENT_CTXT_ITEM_NOT_FOUND
           | Some item \<Rightarrow> Inr item)"

definition TDNFEventContextGetItemPtr :: "event_context \<Rightarrow> string option \<Rightarrow> nat result" where
  "TDNFEventContextGetItemPtr pContext pcszName =
     (if pData pContext = [] \<or> IsNullOrEmptyString pcszName then Inl ERROR_TDNF_INVALID_PARAMETER
      else bail (TDNFEventContextGetItem pContext pcszName) (\<lambda>item.
             case item of
               EvPtr p \<Rightarrow> if p = 0 then Inl ERROR_TDNF_EVENT_CTXT_ITEM_INVALID_TYPE else Inr p
             | EvString s \<Rightarrow> Inl ERROR_TDNF_EVENT_CTXT_ITEM_INVALID_TYPE))"

definition TDNFEventContextGetItemString :: "event_context \<Rightarrow> string option \<Rightarrow> string result" where
  "TDNFEventContextGetItemString pContext pcszName =
     (if pData pContext = [] \<or> IsNullOrEmptyString pcszName then Inl ERROR_TDNF_INVALID_PARAMETER
      else bail (TDNFEventContextGetItem pContext pcszName) (\<lambda>item.
             case item of
               EvString s \<Rightarrow> Inr s
             | EvPtr p \<Rightarrow> Inl ERROR_TDNF_EVENT_CTXT_ITEM_INVALID_TYPE))"

text \<open>The two adders as one operation on typed items, for the store interface.\<close>

definition add_event :: "string \<Rightarrow> event_item \<Rightarrow> event_context \<Rightarrow> event_context" where
  "add_event k item c = snd (case item of EvString s \<Rightarrow> TDNFAddEventDataString c (Some k) (Some s)
                                        | EvPtr p \<Rightarrow> TDNFAddEventDataPtr c (Some k) p)"

definition event_item_of :: "event_context \<Rightarrow> string \<Rightarrow> event_item option" where
  "event_item_of c k = (case TDNFEventContextGetItem c (Some k) of Inr i \<Rightarrow> Some i | Inl _ \<Rightarrow> None)"

definition event_ok :: "string \<Rightarrow> event_item \<Rightarrow> bool" where
  "event_ok k item \<longleftrightarrow> k \<noteq> [] \<and> item \<noteq> EvString [] \<and> item \<noteq> EvPtr 0"

lemma find_event_item_map_of: "find_event_item xs k = map_of xs k"
  by (induction xs k rule: find_event_item.induct) auto

lemma event_item_of_map: "event_item_of c k = (if k = [] then None else map_of (pData c) k)"
  by (auto simp: event_item_of_def TDNFEventContextGetItem_def find_event_item_map_of
      split: option.splits)

lemma add_event_data: "event_ok k item \<Longrightarrow> pData (add_event k item c) = (k, item) # pData c"
  by (cases item) (auto simp: add_event_def event_ok_def TDNFAddEventDataString_def
      TDNFAddEventDataPtr_def)

interpretation events: kv_store "\<lambda>_. True" event_ok add_event event_item_of
  by unfold_locales (auto simp: event_item_of_map add_event_data event_ok_def)

lemma get_item_string:
  "TDNFEventContextGetItemString c (Some k) =
     (if pData c = [] \<or> k = [] then Inl ERROR_TDNF_INVALID_PARAMETER
      else case event_item_of c k of None \<Rightarrow> Inl ERROR_TDNF_EVENT_CTXT_ITEM_NOT_FOUND
           | Some (EvString s) \<Rightarrow> Inr s
           | Some (EvPtr p) \<Rightarrow> Inl ERROR_TDNF_EVENT_CTXT_ITEM_INVALID_TYPE)"
  by (auto simp: TDNFEventContextGetItemString_def event_item_of_def TDNFEventContextGetItem_def
      split: option.splits event_item.splits)

text \<open>A plugin asking a context for a string gets the string added last under that name; a name
  that holds a pointer is a type error, an unknown name is not found, and a context without items
  rejects the question as an invalid parameter.\<close>

theorem EventContext_get_string:
  assumes "list_all (\<lambda>(k, item). event_ok k item) items" and "k \<noteq> []"
  shows "TDNFEventContextGetItemString (fold (\<lambda>(k, item). add_event k item) items
           \<lparr>nEvent = ev, pData = []\<rparr>) (Some k)
    = (if items = [] then Inl ERROR_TDNF_INVALID_PARAMETER
       else case map_of (rev items) k of
              None \<Rightarrow> Inl ERROR_TDNF_EVENT_CTXT_ITEM_NOT_FOUND
            | Some (EvString s) \<Rightarrow> Inr s
            | Some (EvPtr p) \<Rightarrow> Inl ERROR_TDNF_EVENT_CTXT_ITEM_INVALID_TYPE)"
proof -
  define c where "c = fold (\<lambda>(k, item). add_event k item) items \<lparr>nEvent = ev, pData = []\<rparr>"
  have nonempty: "pData (fold (\<lambda>(k, item). add_event k item) items d) = [] \<longleftrightarrow> items = [] \<and> pData d = []"
    for d using assms(1) by (induction items arbitrary: d) (auto simp: add_event_data)
  have "event_item_of c k = map_of (rev items) k"
    using events.get_puts [OF TrueI assms(1), of "\<lparr>nEvent = ev, pData = []\<rparr>" k]
    by (simp add: c_def events.puts_def event_item_of_map split: option.splits)
  then show ?thesis
    unfolding c_def [symmetric] get_item_string
    using assms(2) nonempty [of "\<lparr>nEvent = ev, pData = []\<rparr>"] by (simp add: c_def)
qed

theorem EventContext_get_string_witness:
  "TDNFEventContextGetItemString (fold (\<lambda>(k, item). add_event k item)
      [(''repo.id'', EvString ''x''), (''tdnf.handle'', EvPtr 4096)] \<lparr>nEvent = 1, pData = []\<rparr>)
      (Some ''repo.id'') = Inr ''x''"
  using EventContext_get_string
    [of "[(''repo.id'', EvString ''x''), (''tdnf.handle'', EvPtr 4096)]" "''repo.id''" 1]
  by (simp add: event_ok_def)

section \<open>Event words\<close>

text \<open>The macros of \<^verbatim>\<open>include/tdnfplugin.h\<close> on 32-bit events: 24 bits of type, 6 of state, 2 of phase.\<close>

unbundle bit_operations_syntax

definition PLUGIN_EVENT_TYPE :: "32 word \<Rightarrow> 32 word" where
  "PLUGIN_EVENT_TYPE event = drop_bit 8 event"

definition PLUGIN_EVENT_PHASE :: "32 word \<Rightarrow> 32 word" where
  "PLUGIN_EVENT_PHASE event = event AND 0x3"

definition PLUGIN_EVENT_STATE :: "32 word \<Rightarrow> 32 word" where
  "PLUGIN_EVENT_STATE event = drop_bit 2 event AND 0x3F"

definition MAKE_PLUGIN_EVENT :: "32 word \<Rightarrow> 32 word \<Rightarrow> 32 word \<Rightarrow> 32 word" where
  "MAKE_PLUGIN_EVENT type state phase = (push_bit 8 type OR push_bit 2 state) OR phase"

lemma small_word_bit:
  fixes w :: "32 word"
  assumes "unat w < 2 ^ n" and "bit w i"
  shows "i < n"
proof -
  from assms(1) have "take_bit n (unat w) = unat w" by (simp add: take_bit_nat_eq_self)
  moreover have "bit (unat w) i" using assms(2) by (simp add: bit_unsigned_iff bit_imp_le_length)
  ultimately show ?thesis by (metis bit_take_bit_iff)
qed

lemma field_mask_bits:
  "bit (3 :: int) i \<longleftrightarrow> i < 2" "bit (63 :: int) i \<longleftrightarrow> i < 6"
proof -
  have "(3 :: int) = mask 2" "(63 :: int) = mask 6" by (simp_all add: mask_eq_exp_minus_1)
  then show "bit (3 :: int) i \<longleftrightarrow> i < 2" "bit (63 :: int) i \<longleftrightarrow> i < 6"
    by (simp_all only: bit_mask_iff possible_bit_int) auto
qed

text \<open>The three fields of an event word are read back as they were packed, provided each fits its
  width.\<close>

theorem event_word_roundtrip:
  assumes "type < 2 ^ 24" and "state < 2 ^ 6" and "phase < 2 ^ 2"
  shows "PLUGIN_EVENT_TYPE (MAKE_PLUGIN_EVENT type state phase) = type
    \<and> PLUGIN_EVENT_STATE (MAKE_PLUGIN_EVENT type state phase) = state
    \<and> PLUGIN_EVENT_PHASE (MAKE_PLUGIN_EVENT type state phase) = phase"
proof -
  from assms have "unat type < 2 ^ 24" "unat state < 2 ^ 6" "unat phase < 2 ^ 2"
    by (simp_all add: word_less_nat_alt)
  note small = this [THEN small_word_bit]
  then have large: "\<And>i. 24 \<le> i \<Longrightarrow> \<not> bit type i" "\<And>i. 6 \<le> i \<Longrightarrow> \<not> bit state i"
    "\<And>i. 2 \<le> i \<Longrightarrow> \<not> bit phase i"
    by (meson not_less)+
  show ?thesis
    unfolding PLUGIN_EVENT_TYPE_def PLUGIN_EVENT_STATE_def PLUGIN_EVENT_PHASE_def
      MAKE_PLUGIN_EVENT_def
    by (auto intro!: bit_word_eqI simp: bit_simps field_mask_bits large dest: small intro: ccontr)
qed

theorem event_word_roundtrip_witness:
  "PLUGIN_EVENT_STATE (MAKE_PLUGIN_EVENT 2 3 1) = 3"
  using event_word_roundtrip [of 2 3 1] by simp

end
