(* ===== verification/Tdnf_Plugins.thy ===== *)
theory Tdnf_Plugins
  imports Conf_Config Tdnf_Options
begin

text \<open>
  \<^verbatim>\<open>client/plugins.c\<close>: the list of plugins, their configuration and their events. A plugin is foreign code: its
  functions are parameters that take and return the state \<open>'w\<close> of the world, and a function pointer that was
  not filled in is \<open>None\<close>, so that calling it is undefined. \<open>dl\<close> stands for \<^verbatim>\<open>dlopen\<close> and \<^verbatim>\<open>dlsym\<close>.
\<close>

section \<open>Plugins\<close>

record 'w plugin_interface =
  pFnInitialize :: "('w \<Rightarrow> errcode \<times> nat \<times> 'w) option"
  pFnEventsNeeded :: "(nat \<Rightarrow> 'w \<Rightarrow> errcode \<times> 32 word \<times> 'w) option"
  pFnGetErrorString :: "(nat \<Rightarrow> errcode \<Rightarrow> 'w \<Rightarrow> errcode \<times> string option \<times> 'w) option"
  pFnEvent :: "(nat \<Rightarrow> event_context \<Rightarrow> 'w \<Rightarrow> errcode \<times> unit \<times> 'w) option"
  pFnCloseHandle :: "(nat \<Rightarrow> 'w \<Rightarrow> errcode \<times> unit \<times> 'w) option"

record 'w plugin =
  pl_pszName :: string
  pl_nEnabled :: int
  pl_pModule :: bool
  pl_pHandle :: nat
  pl_RegisterdEvts :: "32 word"
  pl_stInterface :: "'w plugin_interface"

text \<open>
  What \<^verbatim>\<open>dlopen\<close> finds for a file: nothing, a library without the entry point, or the interface that the
  entry point fills in, with its error code.
\<close>

type_synonym 'w linker = "string \<Rightarrow> (errcode \<times> 'w plugin_interface) option option"

definition no_interface :: "'w plugin_interface" where
  "no_interface = \<lparr>pFnInitialize = None, pFnEventsNeeded = None, pFnGetErrorString = None, pFnEvent = None,
     pFnCloseHandle = None\<rparr>"

definition new_plugin :: "string \<Rightarrow> int \<Rightarrow> 'w plugin" where
  "new_plugin name enabled = \<lparr>pl_pszName = name, pl_nEnabled = enabled, pl_pModule = False, pl_pHandle = 0,
     pl_RegisterdEvts = 0, pl_stInterface = no_interface\<rparr>"

abbreviation (input) ERROR_TDNF_PLUGINS_DISABLED :: errcode where "ERROR_TDNF_PLUGINS_DISABLED \<equiv> 1517"
abbreviation (input) ERROR_TDNF_NO_PLUGIN_CONF_DIR :: errcode where "ERROR_TDNF_NO_PLUGIN_CONF_DIR \<equiv> 1518"
abbreviation (input) ERROR_TDNF_PLUGIN_LOAD_ERROR :: errcode where "ERROR_TDNF_PLUGIN_LOAD_ERROR \<equiv> 1519"
abbreviation (input) ERROR_TDNF_NO_PLUGIN_ERROR :: errcode where "ERROR_TDNF_NO_PLUGIN_ERROR \<equiv> 1522"

section \<open>Errors of plugins\<close>

definition TDNFGetPluginErrorString :: "'w plugin \<Rightarrow> errcode \<Rightarrow> ('w, string) prog" where
  "TDNFGetPluginErrorString p nErrorCode =
     (if nErrorCode = 0 then errorP ERROR_TDNF_INVALID_PARAMETER
      else bindP (call (map_option (\<lambda>f. f (pl_pHandle p) nErrorCode) (pFnGetErrorString (pl_stInterface p))))
        (\<lambda>(e, str).
           if e \<noteq> 0 \<and> e \<noteq> ERROR_TDNF_NO_PLUGIN_ERROR then errorP e
           else if IsNullOrEmptyString str then errorP ERROR_TDNF_NO_PLUGIN_ERROR
           else returnP (the str)))"

text \<open>The message that is printed, if there is one.\<close>

definition TDNFShowPluginError :: "'w plugin \<Rightarrow> errcode \<Rightarrow> ('w, string option) prog" where
  "TDNFShowPluginError p nErrorCode =
     (if nErrorCode = 0 then returnP None else catchP (TDNFGetPluginErrorString p nErrorCode))"

definition plugin_fails :: "'w plugin \<Rightarrow> errcode \<Rightarrow> ('w, 'a) prog" where
  "plugin_fails p e = bindP (TDNFShowPluginError p e) (\<lambda>_. errorP e)"

section \<open>Events\<close>

unbundle bit_operations_syntax

definition listens :: "event_context \<Rightarrow> 'w plugin \<Rightarrow> bool" where
  "listens pContext p \<longleftrightarrow> pl_nEnabled p \<noteq> 0 \<and> pl_RegisterdEvts p AND PLUGIN_EVENT_TYPE (nEvent pContext) \<noteq> 0"

fun TDNFPluginRaiseEvent :: "'w plugin list \<Rightarrow> event_context \<Rightarrow> ('w, unit) prog" where
  "TDNFPluginRaiseEvent [] pContext = returnP ()"
| "TDNFPluginRaiseEvent (p # ps) pContext =
     (if \<not> listens pContext p then TDNFPluginRaiseEvent ps pContext
      else bindP (call (map_option (\<lambda>f. f (pl_pHandle p) pContext) (pFnEvent (pl_stInterface p)))) (\<lambda>(e, _).
           if e \<noteq> 0 then plugin_fails p e else TDNFPluginRaiseEvent ps pContext))"

section \<open>Configuration files\<close>

definition enabled_key :: "string \<Rightarrow> string \<Rightarrow> int \<Rightarrow> int result option" where
  "enabled_key = table_step [(''enabled'', \<lambda>v _. Some (Inr (int_true v)))]"

fun enabled_sections :: "cnfnode list \<Rightarrow> int \<Rightarrow> int result option" where
  "enabled_sections [] e = Some (Inr e)"
| "enabled_sections (cn_section # cns) e =
     (if starts (CHR ''.'') (cn_name cn_section) then enabled_sections cns e
      else if cn_name cn_section = ''main''
      then thenU (each_entry enabled_key (first_child cn_section) e) (enabled_sections cns)
      else enabled_sections cns e)"

text \<open>The plugin that \<^verbatim>\<open>_TDNFLoadPluginConfig\<close> makes has no name yet; its flag is returned.\<close>

definition TDNFLoadPluginConfig :: "system \<Rightarrow> string \<Rightarrow> int result option" where
  "TDNFLoadPluginConfig sys pszConfigFile =
     (if pszConfigFile = [] then Some (Inl ERROR_TDNF_INVALID_PARAMETER)
      else thenU (load_cnftree sys pszConfigFile) (\<lambda>cn_conf. enabled_sections (first_child cn_conf) 0))"

definition TDNF_PLUGIN_CONF_EXT :: string where
  "TDNF_PLUGIN_CONF_EXT = ''.conf''"

definition has_extension :: "string \<Rightarrow> string \<Rightarrow> bool" where
  "has_extension ext name \<longleftrightarrow> length ext < length name \<and> drop (length name - length ext) name = ext"

fun load_plugin_configs :: "system \<Rightarrow> string \<Rightarrow> string list \<Rightarrow> 'w plugin list result option" where
  "load_plugin_configs sys dir [] = Some (Inr [])"
| "load_plugin_configs sys dir (name # names) =
     (if \<not> has_extension TDNF_PLUGIN_CONF_EXT name then load_plugin_configs sys dir names
      else thenU (Some (TDNFJoinPath [dir, name])) (\<lambda>path.
           thenU (TDNFLoadPluginConfig sys (the path)) (\<lambda>enabled.
           thenU (Some (TDNFAllocateStringN (Some name) (length name - length TDNF_PLUGIN_CONF_EXT))) (\<lambda>pszName.
           thenU (load_plugin_configs sys dir names) (\<lambda>ps. Some (Inr (new_plugin pszName enabled # ps)))))))"

definition TDNFLoadPluginConfigs :: "system \<Rightarrow> string \<Rightarrow> 'w plugin list result option" where
  "TDNFLoadPluginConfigs sys pszPluginConfPath = (case sys_dir sys pszPluginConfPath of
     Inl e \<Rightarrow> Some (Inl ERROR_TDNF_NO_PLUGIN_CONF_DIR)
   | Inr names \<Rightarrow> load_plugin_configs sys pszPluginConfPath names)"

section \<open>Overrides\<close>

definition TDNFIsGlob :: "string \<Rightarrow> bool" where
  "TDNFIsGlob s \<longleftrightarrow> list_ex (\<lambda>ch. ch = CHR ''*'' \<or> ch = CHR ''?'' \<or> ch = CHR ''['') s"

fun alter_plugins :: "(string \<Rightarrow> string \<Rightarrow> bool) \<Rightarrow> int \<Rightarrow> string \<Rightarrow> 'w plugin list \<Rightarrow> 'w plugin list" where
  "alter_plugins fnmatch nEnable pszName [] = []"
| "alter_plugins fnmatch nEnable pszName (p # ps) =
     (if TDNFIsGlob pszName
      then (if fnmatch pszName (pl_pszName p) then p\<lparr>pl_nEnabled := nEnable\<rparr> else p)
             # alter_plugins fnmatch nEnable pszName ps
      else if pl_pszName p = pszName then p\<lparr>pl_nEnabled := nEnable\<rparr> # ps
      else p # alter_plugins fnmatch nEnable pszName ps)"

definition TDNFAlterPluginState ::
    "(string \<Rightarrow> string \<Rightarrow> bool) \<Rightarrow> 'w plugin list \<Rightarrow> int \<Rightarrow> string option \<Rightarrow> 'w plugin list result" where
  "TDNFAlterPluginState fnmatch pPlugins nEnable pszName =
     (if pPlugins = [] \<or> IsNullOrEmptyString pszName then Inl ERROR_TDNF_INVALID_PARAMETER
      else Inr (alter_plugins fnmatch nEnable (the pszName) pPlugins))"

fun apply_overrides ::
    "(string \<Rightarrow> string \<Rightarrow> bool) \<Rightarrow> cmd_opt list \<Rightarrow> 'w plugin list \<Rightarrow> 'w plugin list result" where
  "apply_overrides fnmatch [] ps = Inr ps"
| "apply_overrides fnmatch ((name, value) # opts) ps =
     bail (if name = ''enableplugin'' then TDNFAlterPluginState fnmatch ps 1 value
           else if name = ''disableplugin'' then TDNFAlterPluginState fnmatch ps 0 value
           else Inr ps) (apply_overrides fnmatch opts)"

definition TDNFApplyPluginOverrides ::
    "(string \<Rightarrow> string \<Rightarrow> bool) \<Rightarrow> cmd_args \<Rightarrow> 'w plugin list \<Rightarrow> 'w plugin list result" where
  "TDNFApplyPluginOverrides fnmatch pArgs pPlugins =
     (if pPlugins = [] then Inl ERROR_TDNF_INVALID_PARAMETER
      else apply_overrides fnmatch (pSetOpt pArgs) pPlugins)"

section \<open>Libraries\<close>

text \<open>The error path of \<^verbatim>\<open>_TDNFLoadPluginLib\<close>: the plugin is switched off, and the caller goes on.\<close>

definition plugin_off :: "'w plugin \<Rightarrow> 'w plugin" where
  "plugin_off p = p\<lparr>pl_pModule := False, pl_nEnabled := 0\<rparr>"

definition interface_complete :: "'w plugin_interface \<Rightarrow> bool" where
  "interface_complete i \<longleftrightarrow> pFnInitialize i \<noteq> None \<and> pFnEventsNeeded i \<noteq> None \<and> pFnGetErrorString i \<noteq> None
     \<and> pFnEvent i \<noteq> None \<and> pFnCloseHandle i \<noteq> None"

definition TDNFLoadPluginLib :: "'w linker \<Rightarrow> string \<Rightarrow> 'w plugin \<Rightarrow> 'w plugin" where
  "TDNFLoadPluginLib dl pszLib p =
     (if pszLib = [] then plugin_off p
      else if pl_pModule p then p
      else case dl pszLib of
        None \<Rightarrow> plugin_off p
      | Some None \<Rightarrow> plugin_off p
      | Some (Some (e, i)) \<Rightarrow>
          let p = p\<lparr>pl_pModule := True, pl_stInterface := i\<rparr> in
          if e \<noteq> 0 \<or> \<not> interface_complete i then plugin_off p else p)"

fun load_plugin_libs :: "'w linker \<Rightarrow> string \<Rightarrow> 'w plugin list \<Rightarrow> 'w plugin list result" where
  "load_plugin_libs dl dir [] = Inr []"
| "load_plugin_libs dl dir (p # ps) =
     (if pl_nEnabled p = 0 then bail (load_plugin_libs dl dir ps) (\<lambda>qs. Inr (p # qs))
      else bail (TDNFAllocateStringPrintf 0 (dir @ ''/lib'' @ pl_pszName p @ ''.so'')) (\<lambda>lib.
           bail (load_plugin_libs dl dir ps) (\<lambda>qs. Inr (TDNFLoadPluginLib dl lib p # qs))))"

definition TDNFLoadPluginLibs :: "'w linker \<Rightarrow> string option \<Rightarrow> 'w plugin list \<Rightarrow> 'w plugin list result" where
  "TDNFLoadPluginLibs dl pszLibPath pPlugins =
     (if IsNullOrEmptyString pszLibPath \<or> pPlugins = [] then Inl ERROR_TDNF_INVALID_PARAMETER
      else load_plugin_libs dl (the pszLibPath) pPlugins)"

section \<open>Loading\<close>

definition load_plugins :: "system \<Rightarrow> 'w linker \<Rightarrow> tdnf_conf \<Rightarrow> cmd_args \<Rightarrow> 'w plugin list result option" where
  "load_plugins sys dl c pArgs =
     (if cf_nPluginsEnabled c = 0 then Some (Inl ERROR_TDNF_PLUGINS_DISABLED)
      else thenU (Some (TDNFHasOpt pArgs (Some ''noplugins''))) (\<lambda>nHasOptNoPlugins.
        if nHasOptNoPlugins then Some (Inl ERROR_TDNF_PLUGINS_DISABLED)
        else case cf_pszPluginConfPath c of
          None \<Rightarrow> None
        | Some path \<Rightarrow>
            thenU (TDNFLoadPluginConfigs sys path) (\<lambda>pPlugins.
            thenU (Some (TDNFApplyPluginOverrides (sys_fnmatch sys) pArgs pPlugins)) (\<lambda>pPlugins.
            Some (TDNFLoadPluginLibs dl (cf_pszPluginPath c) pPlugins)))))"

text \<open>Every enabled plugin gets its handle, the init event and is asked for the events it wants.\<close>

fun init_plugins :: "event_context \<Rightarrow> 'w plugin list \<Rightarrow> ('w, 'w plugin list) prog" where
  "init_plugins stContext [] = returnP []"
| "init_plugins stContext (p # ps) =
     (if pl_nEnabled p = 0 then bindP (init_plugins stContext ps) (\<lambda>qs. returnP (p # qs))
      else let i = pl_stInterface p in
        bindP (call (pFnInitialize i)) (\<lambda>(e, h).
        let p = p\<lparr>pl_pHandle := h\<rparr> in
        if e \<noteq> 0 then plugin_fails p e else
        bindP (call (map_option (\<lambda>f. f h stContext) (pFnEvent i))) (\<lambda>(e, _).
        if e \<noteq> 0 then plugin_fails p e else
        bindP (call (map_option (\<lambda>f. f h) (pFnEventsNeeded i))) (\<lambda>(e, evts).
        let p = p\<lparr>pl_RegisterdEvts := evts\<rparr> in
        if e \<noteq> 0 then plugin_fails p e else
        bindP (init_plugins stContext ps) (\<lambda>qs. returnP (p # qs))))))"

definition TDNFInitPlugins :: "nat \<Rightarrow> 'w plugin list \<Rightarrow> ('w, 'w plugin list) prog" where
  "TDNFInitPlugins pTdnf pPlugins =
     (if pTdnf = 0 \<or> pPlugins = [] then errorP ERROR_TDNF_INVALID_PARAMETER
      else case TDNFAddEventDataPtr \<lparr>nEvent = MAKE_PLUGIN_EVENT 1 2 1, pData = []\<rparr> (Some ''tdnf.handle'') pTdnf of
        (e, stContext) \<Rightarrow> if e \<noteq> 0 then errorP e else init_plugins stContext pPlugins)"

text \<open>The list that is left in \<^verbatim>\<open>pTdnf->pPlugins\<close>; two errors only mean that there are no plugins.\<close>

definition TDNFLoadPlugins ::
    "system \<Rightarrow> 'w linker \<Rightarrow> nat \<Rightarrow> tdnf_conf \<Rightarrow> cmd_args \<Rightarrow> ('w, 'w plugin list) prog" where
  "TDNFLoadPlugins sys dl pTdnf c pArgs w =
     (case bindP (liftU (load_plugins sys dl c pArgs)) (TDNFInitPlugins pTdnf) w of
        Some (Inl e, w) \<Rightarrow>
          if e = ERROR_TDNF_PLUGINS_DISABLED \<or> e = ERROR_TDNF_NO_PLUGIN_CONF_DIR then Some (Inr [], w)
          else Some (Inl e, w)
      | r \<Rightarrow> r)"

section \<open>Closing\<close>

definition TDNFClosePlugin :: "'w plugin \<Rightarrow> ('w, unit) prog" where
  "TDNFClosePlugin p = (case pFnCloseHandle (pl_stInterface p) of
     None \<Rightarrow> returnP () | Some f \<Rightarrow> bindP (call (Some (f (pl_pHandle p)))) (\<lambda>_. returnP ()))"

fun TDNFFreePlugins :: "'w plugin list \<Rightarrow> ('w, unit) prog" where
  "TDNFFreePlugins [] = returnP ()"
| "TDNFFreePlugins (p # ps) =
     (if pl_pHandle p \<noteq> 0 then bindP (TDNFClosePlugin p) (\<lambda>_. TDNFFreePlugins ps) else TDNFFreePlugins ps)"

section \<open>No call through a NULL pointer\<close>

definition plugin_ready :: "'w plugin \<Rightarrow> bool" where
  "plugin_ready p \<longleftrightarrow> (pl_nEnabled p = 0 \<or> interface_complete (pl_stInterface p))"

lemma plugin_ready_off [simp]: "plugin_ready (plugin_off p)"
  by (simp add: plugin_ready_def plugin_off_def)

lemma plugin_ready_fields [simp]:
  "plugin_ready (p\<lparr>pl_pHandle := h\<rparr>) = plugin_ready p" "plugin_ready (p\<lparr>pl_RegisterdEvts := r\<rparr>) = plugin_ready p"
  by (simp_all add: plugin_ready_def)

lemma ready_calls:
  assumes "plugin_ready p" and "pl_nEnabled p \<noteq> 0"
  obtains fi fn fs fe fc where "pFnInitialize (pl_stInterface p) = Some fi" "pFnEventsNeeded (pl_stInterface p) = Some fn"
    "pFnGetErrorString (pl_stInterface p) = Some fs" "pFnEvent (pl_stInterface p) = Some fe"
    "pFnCloseHandle (pl_stInterface p) = Some fc"
  using assms by (auto simp: plugin_ready_def interface_complete_def)

lemma LoadPluginLib_ready:
  "\<not> pl_pModule p \<Longrightarrow> plugin_ready (TDNFLoadPluginLib dl lib p)"
  by (auto simp: TDNFLoadPluginLib_def plugin_ready_def [of "p\<lparr>pl_pModule := m, pl_stInterface := i\<rparr>" for m i] Let_def
      split: option.split prod.split)

lemma load_plugin_libs_ready:
  "load_plugin_libs dl dir ps = Inr qs \<Longrightarrow> list_all (\<lambda>p. \<not> pl_pModule p) ps \<Longrightarrow> list_all plugin_ready qs"
proof (induction dl dir ps arbitrary: qs rule: load_plugin_libs.induct)
  case (2 dl dir p ps)
  have "plugin_ready p" if "pl_nEnabled p = 0" using that by (simp add: plugin_ready_def)
  with 2 show ?case by (auto simp: bail_Inr_iff split: if_splits intro: LoadPluginLib_ready)
qed simp

lemma alter_plugins_module:
  "list_all (\<lambda>p. \<not> pl_pModule p) ps \<Longrightarrow> list_all (\<lambda>p. \<not> pl_pModule p) (alter_plugins fnm e name ps)"
  by (induction fnm e name ps rule: alter_plugins.induct) auto

lemma apply_overrides_module:
  "apply_overrides fnm opts ps = Inr qs \<Longrightarrow> list_all (\<lambda>p. \<not> pl_pModule p) ps \<Longrightarrow> list_all (\<lambda>p. \<not> pl_pModule p) qs"
  by (induction fnm opts ps arbitrary: qs rule: apply_overrides.induct)
    (auto simp: bail_Inr_iff TDNFAlterPluginState_def alter_plugins_module split: if_splits)

lemma load_configs_module:
  "load_plugin_configs sys dir names = Some (Inr ps) \<Longrightarrow> list_all (\<lambda>p. \<not> pl_pModule p) ps"
  by (induction sys dir names arbitrary: ps rule: load_plugin_configs.induct)
    (auto simp: thenU_ok new_plugin_def split: if_splits)

lemma load_plugins_ready:
  assumes "load_plugins sys dl c a = Some (Inr ps)"
  shows "list_all plugin_ready ps"
proof -
  from assms obtain path cs os where
    "TDNFLoadPluginConfigs sys path = Some (Inr cs)"
    and os: "TDNFApplyPluginOverrides (sys_fnmatch sys) a cs = Inr os"
    and ps: "TDNFLoadPluginLibs dl (cf_pszPluginPath c) os = Inr ps"
    by (auto simp: load_plugins_def thenU_ok split: if_splits option.splits)
  then have "list_all (\<lambda>p. \<not> pl_pModule p) cs"
    by (auto simp: TDNFLoadPluginConfigs_def load_configs_module split: sum.splits)
  with os have "list_all (\<lambda>p. \<not> pl_pModule p) os"
    by (auto simp: TDNFApplyPluginOverrides_def apply_overrides_module split: if_splits)
  with ps show ?thesis by (auto simp: TDNFLoadPluginLibs_def load_plugin_libs_ready split: if_splits)
qed

text \<open>An enabled plugin that is ready has functions for every call that is made.\<close>

lemma GetPluginErrorString_defined:
  assumes "plugin_ready p" and "pl_nEnabled p \<noteq> 0"
  shows "defined (TDNFGetPluginErrorString p e)"
proof -
  from assms obtain f where "pFnGetErrorString (pl_stInterface p) = Some f" by (elim ready_calls)
  then show ?thesis
    unfolding TDNFGetPluginErrorString_def by (auto intro!: defined_bind split: prod.split)
qed

lemma plugin_fails_defined: "plugin_ready p \<Longrightarrow> pl_nEnabled p \<noteq> 0 \<Longrightarrow> defined (plugin_fails p e)"
  unfolding plugin_fails_def TDNFShowPluginError_def
  by (intro defined_bind) (auto intro!: defined_catch GetPluginErrorString_defined)

lemma init_plugins_defined: "list_all plugin_ready ps \<Longrightarrow> defined (init_plugins ctx ps)"
proof (induction ps)
  case (Cons p ps)
  then have IH: "defined (init_plugins ctx ps)" and p: "plugin_ready p" by simp_all
  show ?case
  proof (cases "pl_nEnabled p = 0")
    case True
    with IH show ?thesis by (auto intro!: defined_bind)
  next
    case False
    from ready_calls [OF p False] obtain fi fn fs fe fc where f: "pFnInitialize (pl_stInterface p) = Some fi"
      "pFnEventsNeeded (pl_stInterface p) = Some fn" "pFnGetErrorString (pl_stInterface p) = Some fs"
      "pFnEvent (pl_stInterface p) = Some fe" "pFnCloseHandle (pl_stInterface p) = Some fc" .
    have "defined (plugin_fails (p\<lparr>pl_pHandle := h\<rparr>) e)"
      "defined (plugin_fails (p\<lparr>pl_pHandle := h, pl_RegisterdEvts := r\<rparr>) e)" for h r e
      using p False by (auto intro!: plugin_fails_defined)
    with f IH False show ?thesis by (auto simp: Let_def split: prod.split intro!: defined_bind)
  qed
qed simp

lemma plugin_fails_ends [simp]: "ends_with (plugin_fails p e) P"
  by (auto simp: plugin_fails_def intro: ends_with_bind [OF ends_with_True])

lemma init_plugins_ready: "list_all plugin_ready ps \<Longrightarrow> ends_with (init_plugins ctx ps) (list_all plugin_ready)"
proof (induction ps)
  case (Cons p ps)
  then have IH: "ends_with (init_plugins ctx ps) (list_all plugin_ready)" and p: "plugin_ready p" by simp_all
  show ?case
  proof (cases "pl_nEnabled p = 0")
    case True
    with IH p show ?thesis by (auto intro: ends_with_bind)
  next
    case False
    have "ends_with (bindP (init_plugins ctx ps) (\<lambda>qs. returnP (p\<lparr>pl_pHandle := h, pl_RegisterdEvts := r\<rparr> # qs)))
        (list_all plugin_ready)" for h r
      by (rule ends_with_bind [OF IH]) (simp add: p)
    then show ?thesis
      using False by (auto simp: Let_def split: prod.split intro!: ends_with_bind [OF ends_with_True])
  qed
qed simp

lemma RaiseEvent_defined: "list_all plugin_ready ps \<Longrightarrow> defined (TDNFPluginRaiseEvent ps ctx)"
proof (induction ps)
  case (Cons p ps)
  show ?case
  proof (cases "listens ctx p")
    case True
    then have on: "pl_nEnabled p \<noteq> 0" and p: "plugin_ready p" using Cons.prems by (auto simp: listens_def)
    from p on obtain f where "pFnEvent (pl_stInterface p) = Some f" by (elim ready_calls)
    with True Cons plugin_fails_defined [OF p on] show ?thesis
      by (auto intro!: defined_bind split: prod.split)
  next
    case False
    with Cons show ?thesis by simp
  qed
qed simp

text \<open>Whatever libraries are found and whatever they answer, after the plugins were loaded no event
  calls a function that a plugin did not provide, and neither did the loading, once the configuration
  files could be parsed.\<close>

theorem plugins_callable:
  assumes "load_plugins sys dl c a \<noteq> None"
  shows "\<exists>r w'. TDNFLoadPlugins sys dl pTdnf c a w = Some (r, w')
    \<and> (case r of Inl e \<Rightarrow> True | Inr ps \<Rightarrow> list_all plugin_ready ps
         \<and> (\<forall>ctx w. TDNFPluginRaiseEvent ps ctx w \<noteq> None))"
proof -
  let ?run = "bindP (liftU (load_plugins sys dl c a)) (TDNFInitPlugins pTdnf)"
  have init: "defined (TDNFInitPlugins pTdnf ps) \<and> ends_with (TDNFInitPlugins pTdnf ps) (list_all plugin_ready)"
    if "list_all plugin_ready ps" for ps
    using that by (auto simp: TDNFInitPlugins_def init_plugins_defined init_plugins_ready split: prod.split)
  have "defined ?run \<and> ends_with ?run (list_all plugin_ready)"
  proof (cases "load_plugins sys dl c a")
    case None
    with assms show ?thesis by simp
  next
    case (Some r)
    with init [of ps for ps] load_plugins_ready [of sys dl c a] show ?thesis by (cases r) auto
  qed
  moreover obtain r w' where r: "?run w = Some (r, w')" using calculation by (fastforce simp: defined_def)
  ultimately have "case r of Inl e \<Rightarrow> True | Inr ps \<Rightarrow> list_all plugin_ready ps"
    by (auto dest: ends_withD split: sum.split)
  with r show ?thesis
    by (cases r) (auto simp: TDNFLoadPlugins_def RaiseEvent_defined [unfolded defined_def])
qed

text \<open>Two plugins are configured and one of the libraries exists.\<close>

definition plug_system :: system where
  "plug_system = \<lparr>sys_read = (\<lambda>f. Inr (concat [''[main]'', [NL], ''enabled=1'', [NL]])),
     sys_dir = (\<lambda>d. Inr [''a.conf'', ''README'', ''b.conf'']), sys_stat = (\<lambda>p. Inl ENOENT), sys_fnmatch = (\<lambda>p s. False), sys_version = [],
     sys_db_dir = [], sys_lib_dir = []\<rparr>"

definition plug_linker :: "string list linker" where
  "plug_linker lib = (if lib = ''/p/liba.so'' then Some (Some (0,
     \<lparr>pFnInitialize = Some (\<lambda>w. (0, 1, w)), pFnEventsNeeded = Some (\<lambda>h w. (0, 2, w)),
      pFnGetErrorString = Some (\<lambda>h e w. (0, None, w)), pFnEvent = Some (\<lambda>h ctx w. (0, (), w @ [''a''])),
      pFnCloseHandle = Some (\<lambda>h w. (0, (), w))\<rparr>)) else None)"

definition plug_conf :: tdnf_conf where
  "plug_conf = conf_defaults\<lparr>cf_nPluginsEnabled := 1, cf_pszPluginConfPath := Some ''/c'', cf_pszPluginPath := Some ''/p''\<rparr>"

definition plug_args :: cmd_args where
  "plug_args = \<lparr>pSetOpt = [(''disableplugin'', Some ''b''), (''enableplugin'', Some ''b'')], pszConfFile = None\<rparr>"

lemma plug_config: "TDNFLoadPluginConfig plug_system (c # cs) = Some (Inr 1)"
proof -
  have p: "parse_ini None (concat [''[main]'', [NL], ''enabled=1'', [NL]])
      = Some (Cnf ''(root)'' None [Cnf ''main'' None [Cnf ''enabled'' (Some ''1'') []]])" by code_simp
  have "load_cnftree plug_system (c # cs) = Some (Inr (Cnf ''(root)'' None [Cnf ''main'' None [Cnf ''enabled'' (Some ''1'') []]]))"
    by (rule load_cnftree_of [OF _ p]) (simp add: plug_system_def)
  then show ?thesis
    by (simp add: TDNFLoadPluginConfig_def starts_def enabled_key_def table_step_def sample_values)
qed

lemma plug_configs:
  "TDNFLoadPluginConfigs plug_system ''/c'' = Some (Inr [new_plugin ''a'' 1, new_plugin ''b'' 1])"
proof -
  have "sys_dir plug_system d = Inr [''a.conf'', ''README'', ''b.conf'']" for d by (simp add: plug_system_def)
  then show ?thesis
    by (simp add: TDNFLoadPluginConfigs_def plug_config has_extension_def TDNF_PLUGIN_CONF_EXT_def TDNFJoinPath_def
        TDNFAllocateString_def TDNF_DEFAULT_MAX_STRING_LEN_def strip_trailing_slashes_def is_slash_def Let_def
        TDNFAllocateStringN_def)
qed

lemma plug_loaded:
  "\<exists>ps. load_plugins plug_system plug_linker plug_conf plug_args = Some (Inr ps)
     \<and> map (\<lambda>p. (pl_pszName p, pl_nEnabled p)) ps = [(''a'', 1), (''b'', 0)]"
  by (simp add: load_plugins_def plug_conf_def conf_defaults_def plug_configs plug_args_def TDNFHasOpt_def
      TDNFApplyPluginOverrides_def TDNFAlterPluginState_def TDNFIsGlob_def new_plugin_def TDNFLoadPluginLibs_def
      TDNFAllocateStringPrintf_def TDNF_DEFAULT_MAX_STRING_LEN_def TDNFLoadPluginLib_def plug_linker_def Let_def
      interface_complete_def plugin_off_def)

theorem plugins_callable_witness:
  "\<exists>r w'. TDNFLoadPlugins plug_system plug_linker 4096 plug_conf plug_args [] = Some (r, w')
    \<and> (case r of Inl e \<Rightarrow> True | Inr ps \<Rightarrow> list_all plugin_ready ps
         \<and> (\<forall>ctx w. TDNFPluginRaiseEvent ps ctx w \<noteq> None))"
proof -
  have "load_plugins plug_system plug_linker plug_conf plug_args \<noteq> None" using plug_loaded by auto
  then show ?thesis by (rule plugins_callable)
qed

section \<open>The overrides of the command line\<close>

text \<open>A name on the command line is a pattern for all names or one name.\<close>

definition opt_matches :: "(string \<Rightarrow> string \<Rightarrow> bool) \<Rightarrow> string \<Rightarrow> string \<Rightarrow> bool" where
  "opt_matches fnmatch pat name \<longleftrightarrow> (if TDNFIsGlob pat then fnmatch pat name else name = pat)"

definition is_override :: "cmd_opt \<Rightarrow> bool" where
  "is_override opt \<longleftrightarrow> fst opt \<in> {''enableplugin'', ''disableplugin''}"

text \<open>The state of a plugin behind the options: the last one that matches its name decides.\<close>

fun overridden :: "(string \<Rightarrow> string \<Rightarrow> bool) \<Rightarrow> cmd_opt list \<Rightarrow> string \<Rightarrow> int \<Rightarrow> int" where
  "overridden fnmatch [] name e = e"
| "overridden fnmatch (opt # opts) name e = overridden fnmatch opts name
     (if is_override opt \<and> opt_matches fnmatch (the (snd opt)) name
      then if fst opt = ''enableplugin'' then 1 else 0 else e)"

lemma overridden_last:
  "overridden fnmatch opts name e =
     (case filter (\<lambda>opt. is_override opt \<and> opt_matches fnmatch (the (snd opt)) name) (rev opts) of
        [] \<Rightarrow> e | opt # _ \<Rightarrow> if fst opt = ''enableplugin'' then 1 else 0)"
proof (induction opts arbitrary: e rule: rev_induct)
  case (snoc opt opts)
  have "overridden fnmatch (os @ [opt]) name e = overridden fnmatch [opt] name (overridden fnmatch os name e)" for os e
    by (induction os arbitrary: e) auto
  with snoc show ?case by simp
qed simp

lemma alter_plugins_map:
  "distinct (map pl_pszName ps) \<Longrightarrow> alter_plugins fnm e pat ps
     = map (\<lambda>p. if opt_matches fnm pat (pl_pszName p) then p\<lparr>pl_nEnabled := e\<rparr> else p) ps"
proof (induction ps)
  case (Cons p ps)
  show ?case
  proof (cases "TDNFIsGlob pat \<or> pl_pszName p \<noteq> pat")
    case True
    with Cons show ?thesis by (auto simp: opt_matches_def)
  next
    case False
    have "pl_pszName x \<noteq> pat" if "x \<in> set ps" for x using False Cons.prems that by force
    then have "map (\<lambda>p. if opt_matches fnm pat (pl_pszName p) then p\<lparr>pl_nEnabled := e\<rparr> else p) ps = ps"
      using False by (intro map_idI) (simp add: opt_matches_def)
    with False show ?thesis by (simp add: opt_matches_def)
  qed
qed simp

lemma apply_overrides_map:
  assumes "distinct (map pl_pszName ps)" and "ps \<noteq> []"
    and "list_all (\<lambda>opt. is_override opt \<longrightarrow> \<not> IsNullOrEmptyString (snd opt)) opts"
  shows "apply_overrides fnm opts ps
    = Inr (map (\<lambda>p. p\<lparr>pl_nEnabled := overridden fnm opts (pl_pszName p) (pl_nEnabled p)\<rparr>) ps)"
  using assms
proof (induction fnm opts ps rule: apply_overrides.induct)
  case (2 fnm name val opts ps)
  let ?upd = "\<lambda>p. if is_override (name, val) \<and> opt_matches fnm (the val) (pl_pszName p)
      then p\<lparr>pl_nEnabled := if name = ''enableplugin'' then 1 else 0\<rparr> else p"
  have step: "(if name = ''enableplugin'' then TDNFAlterPluginState fnm ps 1 val
      else if name = ''disableplugin'' then TDNFAlterPluginState fnm ps 0 val else Inr ps) = Inr (map ?upd ps)"
    using "2.prems" by (auto simp: TDNFAlterPluginState_def alter_plugins_map is_override_def intro!: map_idI [symmetric])
  have names: "map pl_pszName (map ?upd ps) = map pl_pszName ps" by (simp add: comp_def if_distrib cong: if_cong)
  have "apply_overrides fnm opts (map ?upd ps)
      = Inr (map (\<lambda>p. p\<lparr>pl_nEnabled := overridden fnm opts (pl_pszName p) (pl_nEnabled p)\<rparr>) (map ?upd ps))"
    using "2.IH" [of "map ?upd ps"] "2.prems" names step by (simp del: map_map)
  moreover have "map (\<lambda>p. p\<lparr>pl_nEnabled := overridden fnm opts (pl_pszName p) (pl_nEnabled p)\<rparr>) (map ?upd ps)
      = map (\<lambda>p. p\<lparr>pl_nEnabled := overridden fnm ((name, val) # opts) (pl_pszName p) (pl_nEnabled p)\<rparr>) ps"
    by (auto simp: comp_def)
  ultimately show ?case using step by simp
qed simp

text \<open>The command line decides about every plugin: the last option whose name or pattern matches it
  switches it on or off, and one that no option matches keeps what its configuration file says.\<close>

theorem overrides_last_match_wins:
  assumes "pPlugins \<noteq> []" and "distinct (map pl_pszName pPlugins)"
    and "list_all (\<lambda>opt. is_override opt \<longrightarrow> \<not> IsNullOrEmptyString (snd opt)) (pSetOpt a)"
  shows "\<exists>ps. TDNFApplyPluginOverrides fnmatch a pPlugins = Inr ps
    \<and> map pl_pszName ps = map pl_pszName pPlugins
    \<and> map pl_nEnabled ps = map (\<lambda>p.
        case filter (\<lambda>opt. is_override opt \<and> opt_matches fnmatch (the (snd opt)) (pl_pszName p)) (rev (pSetOpt a)) of
          [] \<Rightarrow> pl_nEnabled p | opt # _ \<Rightarrow> if fst opt = ''enableplugin'' then 1 else 0) pPlugins"
  using apply_overrides_map [OF assms(2,1,3)] assms(1)
  by (simp add: TDNFApplyPluginOverrides_def comp_def overridden_last)

theorem overrides_last_match_wins_witness:
  "\<exists>ps. TDNFApplyPluginOverrides (\<lambda>p s. p = ''*'') plug_args [new_plugin ''a'' 1 :: nat plugin, new_plugin ''b'' 0] = Inr ps
    \<and> map pl_pszName ps = [''a'', ''b''] \<and> map pl_nEnabled ps = [1, 1]"
  using overrides_last_match_wins [of "[new_plugin ''a'' 1 :: nat plugin, new_plugin ''b'' 0]" plug_args "\<lambda>p s. p = ''*''"]
  by (simp add: new_plugin_def plug_args_def is_override_def opt_matches_def TDNFIsGlob_def)

section \<open>Who is called\<close>

text \<open>
  Plugins that write a log: the world is the list of the names of the plugins that were called, and the answer
  of each plugin is given by its name.
\<close>

definition logs :: "(string \<Rightarrow> errcode) \<Rightarrow> string list plugin \<Rightarrow> bool" where
  "logs answer p \<longleftrightarrow> pFnEvent (pl_stInterface p) = Some (\<lambda>h ctx w. (answer (pl_pszName p), (), w @ [pl_pszName p]))
     \<and> pFnGetErrorString (pl_stInterface p) = Some (\<lambda>h e w. (0, None, w))"

lemma logging_fails: "logs answer p \<Longrightarrow> e \<noteq> 0 \<Longrightarrow> plugin_fails p e w = Some (Inl e, w)"
  by (simp add: logs_def plugin_fails_def TDNFShowPluginError_def TDNFGetPluginErrorString_def bindP_def catchP_def)

text \<open>An event goes to exactly the plugins that are enabled and registered for its type, in the order of
  the list, up to and including the first that answers with an error, which is the result.\<close>

theorem RaiseEvent_listeners:
  assumes "list_all (logs answer) ps"
  shows "TDNFPluginRaiseEvent ps ctx w =
    (let ls = filter (listens ctx) ps; ok = takeWhile (\<lambda>p. answer (pl_pszName p) = 0) ls in
     Some (case dropWhile (\<lambda>p. answer (pl_pszName p) = 0) ls of
       [] \<Rightarrow> (Inr (), w @ map pl_pszName ok)
     | p # _ \<Rightarrow> (Inl (answer (pl_pszName p)), w @ map pl_pszName ok @ [pl_pszName p])))"
  using assms
proof (induction ps arbitrary: w)
  case (Cons p ps)
  show ?case
  proof (cases "listens ctx p")
    case True
    from Cons.prems have p: "logs answer p" by simp
    then have "TDNFPluginRaiseEvent (p # ps) ctx w =
        (if answer (pl_pszName p) \<noteq> 0 then plugin_fails p (answer (pl_pszName p)) (w @ [pl_pszName p])
         else TDNFPluginRaiseEvent ps ctx (w @ [pl_pszName p]))"
      using True by (simp add: logs_def bindP_def)
    with True Cons p show ?thesis
      by (cases "answer (pl_pszName p) = 0") (simp_all add: logging_fails Let_def cong: list.case_cong)
  next
    case False
    with Cons show ?thesis by simp
  qed
qed simp

theorem RaiseEvent_listeners_witness:
  "\<exists>p q r. pl_pszName p = ''a'' \<and> pl_pszName q = ''b'' \<and> pl_pszName r = ''c'' \<and> pl_nEnabled q = 0
    \<and> TDNFPluginRaiseEvent [p, q, r] \<lparr>nEvent = 0x200, pData = []\<rparr> [] = Some (Inl 7, [''a'', ''c''])"
proof -
  define i :: "string \<Rightarrow> string list plugin_interface" where
    "i = (\<lambda>n. no_interface\<lparr>pFnEvent := Some (\<lambda>h ctx w. (if n = ''c'' then 7 else 0, (), w @ [n])),
       pFnGetErrorString := Some (\<lambda>h e w. (0, None, w))\<rparr>)"
  define mk :: "string \<Rightarrow> int \<Rightarrow> string list plugin" where
    "mk = (\<lambda>n e. (new_plugin n e)\<lparr>pl_RegisterdEvts := 3, pl_stInterface := i n\<rparr>)"
  have "list_all (logs (\<lambda>n. if n = ''c'' then 7 else 0)) [mk ''a'' 1, mk ''b'' 0, mk ''c'' 1]"
    by (simp add: logs_def mk_def i_def new_plugin_def)
  from RaiseEvent_listeners [OF this, of "\<lparr>nEvent = 0x200, pData = []\<rparr>" "[]"]
  have "TDNFPluginRaiseEvent [mk ''a'' 1, mk ''b'' 0, mk ''c'' 1] \<lparr>nEvent = 0x200, pData = []\<rparr> [] = Some (Inl 7, [''a'', ''c''])"
    by (simp add: mk_def new_plugin_def listens_def PLUGIN_EVENT_TYPE_def)
  then show ?thesis
    by (intro exI [of _ "mk ''a'' 1"] exI [of _ "mk ''b'' 0"] exI [of _ "mk ''c'' 1"]) (simp add: mk_def new_plugin_def)
qed

text \<open>Without any \<^verbatim>\<open>.conf\<close> file in the directory loading fails instead of loading no plugin.\<close>

theorem no_plugin_files_fails:
  fixes dl :: "'w linker"
  assumes "cf_nPluginsEnabled c \<noteq> 0" and "pSetOpt a = []" and "cf_pszPluginConfPath c = Some path"
    and "sys_dir sys path = Inr names" and "filter (has_extension TDNF_PLUGIN_CONF_EXT) names = []"
  shows "TDNFLoadPlugins sys dl pTdnf c a w = Some (Inl ERROR_TDNF_INVALID_PARAMETER, w)"
proof -
  have "load_plugin_configs sys path ns = Some (Inr ([] :: 'w plugin list))" if "filter (has_extension TDNF_PLUGIN_CONF_EXT) ns = []" for ns
    using that by (induction ns) (auto split: if_splits)
  with assms have "load_plugins sys dl c a = Some (Inl ERROR_TDNF_INVALID_PARAMETER)"
    by (simp add: load_plugins_def TDNFHasOpt_def TDNFLoadPluginConfigs_def TDNFApplyPluginOverrides_def)
  then show ?thesis by (simp add: TDNFLoadPlugins_def)
qed

end
