(* ===== verification/Conf_Repos.thy ===== *)
theory Conf_Repos
  imports Tdnf_Plugins
begin

text \<open>
  \<^verbatim>\<open>client/repolist.c\<close>: the list of repositories, from the command line and the \<^verbatim>\<open>.repo\<close> files, with the plugin
  events around every section, the overrides of the command line and the expansion of variables. The linked
  list is a HOL list; where the code holds a pointer into it, the state says what the pointer reaches.
\<close>

section \<open>Repositories\<close>

record repo_data =
  rp_nEnabled :: int
  rp_nSkipIfUnavailable :: int
  rp_nGPGCheck :: int
  rp_nHasMetaData :: int
  rp_lMetadataExpire :: int
  rp_pszId :: string
  rp_pszName :: "string option"
  rp_ppszBaseUrls :: "string list option"
  rp_pszMetaLink :: "string option"
  rp_pszMirrorList :: "string option"
  rp_ppszUrlGPGKeys :: "string list option"
  rp_nSSLVerify :: int
  rp_pszSSLCaCert :: "string option"
  rp_pszSSLClientCert :: "string option"
  rp_pszSSLClientKey :: "string option"
  rp_pszUser :: "string option"
  rp_pszPass :: "string option"
  rp_nPriority :: int
  rp_nTimeout :: int
  rp_nMinrate :: int
  rp_nThrottle :: int
  rp_nRetries :: int
  rp_nSkipMDFileLists :: int
  rp_nSkipMDUpdateInfo :: int
  rp_nSkipMDOther :: int
  rp_pszCacheName :: "string option"

abbreviation (input) ERROR_TDNF_REPO_DIR_OPEN :: errcode where "ERROR_TDNF_REPO_DIR_OPEN \<equiv> 1005"
abbreviation (input) ERROR_TDNF_DUPLICATE_REPO_ID :: errcode where "ERROR_TDNF_DUPLICATE_REPO_ID \<equiv> 1037"

definition CMDLINE_REPO_NAME :: string where
  "CMDLINE_REPO_NAME = ''@cmdline''"

definition repo_defaults :: "tdnf_conf \<Rightarrow> string \<Rightarrow> repo_data" where
  "repo_defaults c pszId = \<lparr>rp_nEnabled = 0, rp_nSkipIfUnavailable = 0, rp_nGPGCheck = 1, rp_nHasMetaData = 1,
     rp_lMetadataExpire = 172800, rp_pszId = pszId, rp_pszName = None, rp_ppszBaseUrls = None, rp_pszMetaLink = None,
     rp_pszMirrorList = None, rp_ppszUrlGPGKeys = None, rp_nSSLVerify = cf_nSSLVerify c, rp_pszSSLCaCert = None,
     rp_pszSSLClientCert = None, rp_pszSSLClientKey = None, rp_pszUser = None, rp_pszPass = None,
     rp_nPriority = 50, rp_nTimeout = 0, rp_nMinrate = 0, rp_nThrottle = 0, rp_nRetries = 10,
     rp_nSkipMDFileLists = 0, rp_nSkipMDUpdateInfo = 0, rp_nSkipMDOther = 0, rp_pszCacheName = None\<rparr>"

definition TDNFCreateRepo :: "tdnf_conf \<Rightarrow> string \<Rightarrow> repo_data result" where
  "TDNFCreateRepo c pszId = bail (TDNFAllocateString (Some pszId)) (\<lambda>i. Inr (repo_defaults c i))"

definition TDNFCreateCmdLineRepo :: "tdnf_conf \<Rightarrow> repo_data result" where
  "TDNFCreateCmdLineRepo c =
     bail (TDNFCreateRepo c CMDLINE_REPO_NAME) (\<lambda>r.
     bail (TDNFSafeAllocateString (Some CMDLINE_REPO_NAME)) (\<lambda>name.
       Inr (r\<lparr>rp_nHasMetaData := 0, rp_pszName := name\<rparr>)))"

definition TDNFCreateRepoFromDirectory :: "system \<Rightarrow> tdnf_conf \<Rightarrow> string \<Rightarrow> string \<Rightarrow> repo_data result" where
  "TDNFCreateRepoFromDirectory sys c pszId pszPath =
     bail (TDNFCreateRepo c pszId) (\<lambda>r.
     bail (TDNFSafeAllocateString (Some pszId)) (\<lambda>name.
     bail (TDNFIsDir sys pszPath) (\<lambda>nIsDir.
       if \<not> nIsDir then Inl ERROR_TDNF_INVALID_PARAMETER
       else bail (TDNFAllocateString (Some pszPath)) (\<lambda>url.
         Inr (r\<lparr>rp_nHasMetaData := 0, rp_nEnabled := 1, rp_pszName := name, rp_ppszBaseUrls := Some [url]\<rparr>)))))"

text \<open>A path that is not a directory leaves the array of URLs empty.\<close>

definition TDNFCreateRepoFromPath :: "system \<Rightarrow> tdnf_conf \<Rightarrow> string \<Rightarrow> string \<Rightarrow> repo_data result" where
  "TDNFCreateRepoFromPath sys c pszId pszPath =
     bail (TDNFCreateRepo c pszId) (\<lambda>r.
     bail (TDNFSafeAllocateString (Some pszId)) (\<lambda>name.
     bail (if starts (CHR ''/'') pszPath
           then bail (TDNFIsDir sys pszPath) (\<lambda>nIsDir.
                  if nIsDir then bail (TDNFAllocateStringPrintf 0 (''file://'' @ pszPath)) (\<lambda>u. Inr [u]) else Inr [])
           else bail (TDNFUriIsRemote (Some pszPath)) (\<lambda>_.
                  bail (TDNFAllocateString (Some pszPath)) (\<lambda>u. Inr [u]))) (\<lambda>urls.
       Inr (r\<lparr>rp_nEnabled := 1, rp_pszName := name, rp_ppszBaseUrls := Some urls\<rparr>))))"

section \<open>Sections of a \<^verbatim>\<open>.repo\<close> file\<close>

definition set_repo :: "(string \<Rightarrow> repo_data \<Rightarrow> repo_data) \<Rightarrow> string \<Rightarrow> repo_data \<Rightarrow> repo_data result option" where
  "set_repo upd v r = Some (Inr (upd v r))"

definition set_repo_words :: "(string list option \<Rightarrow> repo_data \<Rightarrow> repo_data) \<Rightarrow> string \<Rightarrow> repo_data
    \<Rightarrow> repo_data result option" where
  "set_repo_words upd v r = Some (bail (split_words v) (\<lambda>ws. Inr (upd (Some ws) r)))"

definition repo_table :: "(string \<times> (string \<Rightarrow> repo_data \<Rightarrow> repo_data result option)) list" where
  "repo_table =
    [(''enabled'', set_repo (\<lambda>v r. r\<lparr>rp_nEnabled := int_true v\<rparr>)),
     (''name'', set_repo (\<lambda>v r. r\<lparr>rp_pszName := Some v\<rparr>)),
     (''baseurl'', set_repo_words (\<lambda>ws r. r\<lparr>rp_ppszBaseUrls := ws\<rparr>)),
     (''metalink'', set_repo (\<lambda>v r. r\<lparr>rp_pszMetaLink := Some v\<rparr>)),
     (''mirrorlist'', set_repo (\<lambda>v r. r\<lparr>rp_pszMirrorList := Some v\<rparr>)),
     (''skip_if_unavailable'', set_repo (\<lambda>v r. r\<lparr>rp_nSkipIfUnavailable := int_true v\<rparr>)),
     (''gpgcheck'', set_repo (\<lambda>v r. r\<lparr>rp_nGPGCheck := int_true v\<rparr>)),
     (''gpgkey'', set_repo_words (\<lambda>ws r. r\<lparr>rp_ppszUrlGPGKeys := ws\<rparr>)),
     (''username'', set_repo (\<lambda>v r. r\<lparr>rp_pszUser := Some v\<rparr>)),
     (''password'', set_repo (\<lambda>v r. r\<lparr>rp_pszPass := Some v\<rparr>)),
     (''priority'', set_repo (\<lambda>v r. r\<lparr>rp_nPriority := strtoi v\<rparr>)),
     (''timeout'', set_repo (\<lambda>v r. r\<lparr>rp_nTimeout := strtoi v\<rparr>)),
     (''retries'', set_repo (\<lambda>v r. r\<lparr>rp_nRetries := strtoi v\<rparr>)),
     (''minrate'', set_repo (\<lambda>v r. r\<lparr>rp_nMinrate := strtoi v\<rparr>)),
     (''throttle'', set_repo (\<lambda>v r. r\<lparr>rp_nThrottle := strtoi v\<rparr>)),
     (''sslverify'', set_repo (\<lambda>v r. r\<lparr>rp_nSSLVerify := int_true v\<rparr>)),
     (''sslcacert'', set_repo (\<lambda>v r. r\<lparr>rp_pszSSLCaCert := Some v\<rparr>)),
     (''sslclientcert'', set_repo (\<lambda>v r. r\<lparr>rp_pszSSLClientCert := Some v\<rparr>)),
     (''sslclientkey'', set_repo (\<lambda>v r. r\<lparr>rp_pszSSLClientKey := Some v\<rparr>)),
     (''metadata_expire'', \<lambda>v r. thenU (TDNFParseMetadataExpire (Some v)) (\<lambda>l. Some (Inr (r\<lparr>rp_lMetadataExpire := l\<rparr>)))),
     (''skip_md_filelists'', set_repo (\<lambda>v r. r\<lparr>rp_nSkipMDFileLists := int_true v\<rparr>)),
     (''skip_md_updateinfo'', set_repo (\<lambda>v r. r\<lparr>rp_nSkipMDUpdateInfo := int_true v\<rparr>)),
     (''skip_md_other'', set_repo (\<lambda>v r. r\<lparr>rp_nSkipMDOther := int_true v\<rparr>))]"

definition repo_key :: "string \<Rightarrow> string \<Rightarrow> repo_data \<Rightarrow> repo_data result option" where
  "repo_key = table_step repo_table"

text \<open>
  The handle of a running tdnf, as far as it is used here. \<open>t_ptr\<close> is the address of a section, which the
  events hand to the plugins.
\<close>

record 'w tdnf =
  t_sys :: system
  t_pConf :: tdnf_conf
  t_pArgs :: cmd_args
  t_pPlugins :: "'w plugin list"
  t_ptr :: "cnfnode \<Rightarrow> nat"

definition raise_repo_event :: "'w tdnf \<Rightarrow> 32 word \<Rightarrow> cnfnode \<Rightarrow> ('w, unit) prog" where
  "raise_repo_event T phase cn_section =
     (case TDNFAddEventDataPtr \<lparr>nEvent = MAKE_PLUGIN_EVENT 2 3 phase, pData = []\<rparr> (Some ''repo.section'')
             (t_ptr T cn_section) of
        (e, stContext) \<Rightarrow> if e \<noteq> 0 then errorP e else TDNFPluginRaiseEvent (t_pPlugins T) stContext)"

definition TDNFEventRepoReadConfigStart :: "'w tdnf \<Rightarrow> cnfnode \<Rightarrow> ('w, unit) prog" where
  "TDNFEventRepoReadConfigStart T cn_section = raise_repo_event T 1 cn_section"

definition TDNFEventRepoReadConfigEnd :: "'w tdnf \<Rightarrow> cnfnode \<Rightarrow> ('w, unit) prog" where
  "TDNFEventRepoReadConfigEnd T cn_section = raise_repo_event T 2 cn_section"

definition default_name :: "repo_data \<Rightarrow> repo_data" where
  "default_name r = (if rp_pszName r = None then r\<lparr>rp_pszName := Some (rp_pszId r)\<rparr> else r)"

text \<open>Every repository is put in front of the list, so the list of a file is reversed.\<close>

fun load_sections :: "'w tdnf \<Rightarrow> cnfnode list \<Rightarrow> repo_data list \<Rightarrow> ('w, repo_data list) prog" where
  "load_sections T [] pRepos = returnP pRepos"
| "load_sections T (cn_section # cns) pRepos =
     (if starts (CHR ''.'') (cn_name cn_section) then load_sections T cns pRepos
      else bindP (liftR (TDNFCreateRepo (t_pConf T) (cn_name cn_section))) (\<lambda>pRepo.
           bindP (TDNFEventRepoReadConfigStart T cn_section) (\<lambda>_.
           bindP (liftU (each_entry repo_key (first_child cn_section) pRepo)) (\<lambda>pRepo.
           bindP (TDNFEventRepoReadConfigEnd T cn_section) (\<lambda>_.
             load_sections T cns (default_name pRepo # pRepos))))))"

definition TDNFLoadReposFromFile :: "'w tdnf \<Rightarrow> string \<Rightarrow> ('w, repo_data list) prog" where
  "TDNFLoadReposFromFile T pszRepoFile =
     bindP (liftU (load_cnftree (t_sys T) pszRepoFile)) (\<lambda>cn_conf. load_sections T (first_child cn_conf) [])"

section \<open>The list of all repositories\<close>

text \<open>
  \<open>pReposAll\<close> is the list the caller will get and \<open>ppRepoNext\<close> the place where the next repository is
  stored. It is the end of that list, until a repository from a directory is stored over the head of the list:
  then the list starts anew and the place stays at the end of the old one, which is \<open>Some\<close>.
\<close>

type_synonym repo_chain = "repo_data list \<times> repo_data list option"

definition store_next :: "repo_data list \<Rightarrow> repo_chain \<Rightarrow> repo_chain" where
  "store_next rs chain = (case chain of
     (pReposAll, None) \<Rightarrow> (pReposAll @ rs, None) | (pReposAll, Some old) \<Rightarrow> (pReposAll, Some (old @ rs)))"

definition store_head :: "repo_data \<Rightarrow> repo_chain \<Rightarrow> repo_chain" where
  "store_head r chain = (case chain of
     (pReposAll, None) \<Rightarrow> ([r], Some pReposAll) | (pReposAll, Some old) \<Rightarrow> ([r], Some old))"

definition url_id_tuple :: "string option \<Rightarrow> (string \<times> string) result" where
  "url_id_tuple pszOptValue =
     bail (TDNFSplitStringToArray pszOptValue (Some '','')) (\<lambda>t.
       case t of i # u # _ \<Rightarrow> Inr (i, u) | _ \<Rightarrow> Inl ERROR_TDNF_INVALID_PARAMETER)"

fun load_cmdline_repos :: "system \<Rightarrow> tdnf_conf \<Rightarrow> cmd_opt list \<Rightarrow> repo_chain \<Rightarrow> repo_chain result" where
  "load_cmdline_repos sys c [] chain = Inr chain"
| "load_cmdline_repos sys c ((name, val) # opts) chain =
     (if name = ''repofrompath''
      then bail (url_id_tuple val) (\<lambda>(i, u). bail (TDNFCreateRepoFromPath sys c i u) (\<lambda>r.
             load_cmdline_repos sys c opts (store_next [r] chain)))
      else if name = ''repofromdir''
      then bail (url_id_tuple val) (\<lambda>(i, u). bail (TDNFCreateRepoFromDirectory sys c i u) (\<lambda>r.
             load_cmdline_repos sys c opts (store_head r chain)))
      else load_cmdline_repos sys c opts chain)"

definition TDNF_REPO_EXT :: string where
  "TDNF_REPO_EXT = ''.repo''"

fun load_repo_files :: "'w tdnf \<Rightarrow> string \<Rightarrow> string list \<Rightarrow> repo_chain \<Rightarrow> ('w, repo_chain) prog" where
  "load_repo_files T dir [] chain = returnP chain"
| "load_repo_files T dir (name # names) chain =
     (if \<not> has_extension TDNF_REPO_EXT name then load_repo_files T dir names chain
      else bindP (liftR (TDNFJoinPath [dir, name])) (\<lambda>path.
           bindP (TDNFLoadReposFromFile T (the path)) (\<lambda>rs.
             load_repo_files T dir names (store_next rs chain))))"

fun duplicate_id :: "repo_data list \<Rightarrow> bool" where
  "duplicate_id [] \<longleftrightarrow> False"
| "duplicate_id (r # rs) \<longleftrightarrow> list_ex (\<lambda>q. rp_pszId r = rp_pszId q) rs \<or> duplicate_id rs"

definition TDNFLoadRepoData :: "'w tdnf \<Rightarrow> ('w, repo_data list) prog" where
  "TDNFLoadRepoData T =
     bindP (liftR (TDNFCreateCmdLineRepo (t_pConf T))) (\<lambda>r.
     bindP (liftR (load_cmdline_repos (t_sys T) (t_pConf T) (pSetOpt (t_pArgs T)) ([r], None))) (\<lambda>chain.
     bindP (liftU (map_option Inr (cf_pszRepoDir (t_pConf T)))) (\<lambda>dir.
     case sys_dir (t_sys T) dir of
       Inl e \<Rightarrow> errorP ERROR_TDNF_REPO_DIR_OPEN
     | Inr names \<Rightarrow>
         bindP (load_repo_files T dir names chain) (\<lambda>(pReposAll, _).
           if duplicate_id pReposAll then errorP ERROR_TDNF_DUPLICATE_REPO_ID else returnP pReposAll))))"

section \<open>Overrides\<close>

text \<open>\<open>nMatch\<close> is set for the first match and, with a pattern, stays set.\<close>

fun alter_repos :: "(string \<Rightarrow> string \<Rightarrow> bool) \<Rightarrow> int \<Rightarrow> string \<Rightarrow> bool \<Rightarrow> repo_data list \<Rightarrow> repo_data list" where
  "alter_repos fnmatch nEnable pszId nMatch [] = []"
| "alter_repos fnmatch nEnable pszId nMatch (r # rs) =
     (let nMatch = nMatch \<or> (if TDNFIsGlob pszId then fnmatch pszId (rp_pszId r) else rp_pszId r = pszId) in
      if nMatch
      then r\<lparr>rp_nEnabled := nEnable\<rparr>
             # (if \<not> TDNFIsGlob pszId then rs else alter_repos fnmatch nEnable pszId nMatch rs)
      else r # alter_repos fnmatch nEnable pszId nMatch rs)"

definition TDNFAlterRepoState ::
    "(string \<Rightarrow> string \<Rightarrow> bool) \<Rightarrow> repo_data list \<Rightarrow> int \<Rightarrow> string option \<Rightarrow> repo_data list result" where
  "TDNFAlterRepoState fnmatch pRepos nEnable pszId =
     (if pRepos = [] \<or> IsNullOrEmptyString pszId then Inl ERROR_TDNF_INVALID_PARAMETER
      else Inr (alter_repos fnmatch nEnable (the pszId) False pRepos))"

text \<open>One option: the flag says whether a \<^verbatim>\<open>--repo\<close> option has switched everything off already.\<close>

definition repo_override ::
    "(string \<Rightarrow> string \<Rightarrow> bool) \<Rightarrow> cmd_opt \<Rightarrow> bool \<times> repo_data list \<Rightarrow> (bool \<times> repo_data list) result" where
  "repo_override fnmatch opt st = (case st of (nRepoidSeen, rs) \<Rightarrow>
     if fst opt = ''enablerepo''
     then bail (TDNFAlterRepoState fnmatch rs 1 (snd opt)) (\<lambda>rs. Inr (nRepoidSeen, rs))
     else if fst opt = ''disablerepo''
     then bail (TDNFAlterRepoState fnmatch rs 0 (snd opt)) (\<lambda>rs. Inr (nRepoidSeen, rs))
     else if fst opt = ''repo'' \<or> fst opt = ''repoid''
     then bail (if nRepoidSeen then Inr rs else TDNFAlterRepoState fnmatch rs 0 (Some ''*'')) (\<lambda>rs.
          bail (TDNFAlterRepoState fnmatch rs 1 (snd opt)) (\<lambda>rs. Inr (True, rs)))
     else Inr st)"

fun repo_overrides ::
    "(string \<Rightarrow> string \<Rightarrow> bool) \<Rightarrow> cmd_opt list \<Rightarrow> bool \<times> repo_data list \<Rightarrow> (bool \<times> repo_data list) result" where
  "repo_overrides fnmatch [] st = Inr st"
| "repo_overrides fnmatch (opt # opts) st = bail (repo_override fnmatch opt st) (repo_overrides fnmatch opts)"

section \<open>Variables and cache names\<close>

fun replace_each :: "(string \<Rightarrow> string result option) \<Rightarrow> string list \<Rightarrow> string list result option" where
  "replace_each f [] = Some (Inr [])"
| "replace_each f (s # ss) = thenU (f s) (\<lambda>t. thenU (replace_each f ss) (\<lambda>ts. Some (Inr (t # ts))))"

definition replace_opt :: "(string \<Rightarrow> string result option) \<Rightarrow> string option \<Rightarrow> string option result option" where
  "replace_opt f s = (case s of None \<Rightarrow> Some (Inr None) | Some t \<Rightarrow> thenU (f t) (\<lambda>u. Some (Inr (Some u))))"

definition replace_list :: "(string \<Rightarrow> string result option) \<Rightarrow> string list option \<Rightarrow> string list option result option" where
  "replace_list f s = (case s of None \<Rightarrow> Some (Inr None) | Some t \<Rightarrow> thenU (replace_each f t) (\<lambda>u. Some (Inr (Some u))))"

text \<open>
  \<^verbatim>\<open>SolvCreateRepoCacheName\<close> of \<^verbatim>\<open>solv/tdnfrepo.c\<close>: the id and the first four bytes of the hash of the URL, in
  hexadecimal. \<open>sha256\<close> is the hash function of libsolv.
\<close>

definition SolvCreateRepoCacheName :: "(string \<Rightarrow> byte list) \<Rightarrow> string \<Rightarrow> string \<Rightarrow> string result" where
  "SolvCreateRepoCacheName sha256 pszName pszUrl =
     TDNFAllocateStringPrintf 0 (pszName @ ''-'' @ hex_digest_of (take 4 (sha256 pszUrl)))"

definition cache_name :: "(string \<Rightarrow> byte list) \<Rightarrow> repo_data \<Rightarrow> string option result" where
  "cache_name sha256 r =
     (let name = (\<lambda>url. bail (SolvCreateRepoCacheName sha256 (rp_pszId r) url) (\<lambda>n. Inr (Some n))) in
      case rp_pszMetaLink r of Some url \<Rightarrow> name url
      | None \<Rightarrow> (case rp_pszMirrorList r of Some url \<Rightarrow> name url
      | None \<Rightarrow> (case rp_ppszBaseUrls r of Some (url # _) \<Rightarrow> name url | _ \<Rightarrow> Inr (rp_pszCacheName r))))"

definition finalize_repo ::
    "(string \<Rightarrow> string result option) \<Rightarrow> (string \<Rightarrow> byte list) \<Rightarrow> repo_data \<Rightarrow> repo_data result option" where
  "finalize_repo f sha256 r =
     thenU (replace_opt f (rp_pszName r)) (\<lambda>name.
     thenU (replace_list f (rp_ppszBaseUrls r)) (\<lambda>urls.
     thenU (replace_opt f (rp_pszMetaLink r)) (\<lambda>metalink.
     thenU (replace_opt f (rp_pszMirrorList r)) (\<lambda>mirrorlist.
     thenU (replace_list f (rp_ppszUrlGPGKeys r)) (\<lambda>keys.
       let r = r\<lparr>rp_pszName := name, rp_ppszBaseUrls := urls, rp_pszMetaLink := metalink,
                 rp_pszMirrorList := mirrorlist, rp_ppszUrlGPGKeys := keys\<rparr> in
       Some (bail (cache_name sha256 r) (\<lambda>cache. Inr (r\<lparr>rp_pszCacheName := cache\<rparr>))))))))"

fun finalize_repos ::
    "(string \<Rightarrow> string result option) \<Rightarrow> (string \<Rightarrow> byte list) \<Rightarrow> repo_data list \<Rightarrow> repo_data list result option" where
  "finalize_repos f sha256 [] = Some (Inr [])"
| "finalize_repos f sha256 (r # rs) =
     thenU (finalize_repo f sha256 r) (\<lambda>r. thenU (finalize_repos f sha256 rs) (\<lambda>rs. Some (Inr (r # rs))))"

definition TDNFRepoListFinalize ::
    "'w tdnf \<Rightarrow> cnfnode option option \<Rightarrow> (string \<Rightarrow> byte list) \<Rightarrow> repo_data list \<Rightarrow> repo_data list result option" where
  "TDNFRepoListFinalize T parsed_dirs sha256 pRepos =
     (if pRepos = [] then Some (Inl ERROR_TDNF_INVALID_PARAMETER)
      else thenU (Some (repo_overrides (sys_fnmatch (t_sys T)) (pSetOpt (t_pArgs T)) (False, pRepos))) (\<lambda>(_, rs).
           finalize_repos (replace_conf_vars parsed_dirs (t_pConf T)) sha256 rs))"

section \<open>Copies for callers\<close>

text \<open>The copy has the fields that callers need and leaves the others zero.\<close>

definition TDNFCloneRepo :: "repo_data \<Rightarrow> repo_data result" where
  "TDNFCloneRepo r =
     bail (TDNFSafeAllocateString (Some (rp_pszId r))) (\<lambda>i.
     bail (TDNFSafeAllocateString (rp_pszName r)) (\<lambda>name.
     bail (case rp_ppszBaseUrls r of Some (u # us) \<Rightarrow> bail (TDNFAllocateStringArray (Some (u # us))) (\<lambda>a. Inr (Some a))
           | _ \<Rightarrow> Inr None) (\<lambda>urls.
     bail (TDNFSafeAllocateString (rp_pszMetaLink r)) (\<lambda>metalink.
       Inr \<lparr>rp_nEnabled = rp_nEnabled r, rp_nSkipIfUnavailable = 0, rp_nGPGCheck = 0, rp_nHasMetaData = 0,
         rp_lMetadataExpire = 0, rp_pszId = the i, rp_pszName = name, rp_ppszBaseUrls = urls, rp_pszMetaLink = metalink,
         rp_pszMirrorList = None, rp_ppszUrlGPGKeys = None, rp_nSSLVerify = 0, rp_pszSSLCaCert = None,
         rp_pszSSLClientCert = None, rp_pszSSLClientKey = None, rp_pszUser = None, rp_pszPass = None,
         rp_nPriority = 0, rp_nTimeout = 0, rp_nMinrate = 0, rp_nThrottle = 0, rp_nRetries = 0,
         rp_nSkipMDFileLists = 0, rp_nSkipMDUpdateInfo = 0, rp_nSkipMDOther = 0, rp_pszCacheName = None\<rparr>))))"

section \<open>What a file defines\<close>

lemma each_entry_keeps:
  assumes "list_all (\<lambda>(k, g). keeps g get) table"
  shows "each_entry (table_step table) cns s = Some (Inr s') \<Longrightarrow> get s' = get s"
proof (induction cns arbitrary: s)
  case (Cons cn cns)
  have step: "get t' = get t" if "table_step table k v t = Some (Inr t')" for k v t t'
  proof (cases "map_of table k")
    case (Some g)
    then have "(k, g) \<in> set table" by (rule map_of_SomeD)
    with assms have "keeps g get" by (auto simp: list_all_iff)
    with that Some show ?thesis by (simp add: table_step_def keeps_def)
  qed (use that in \<open>simp add: table_step_def\<close>)
  show ?case
  proof (cases "starts (CHR ''.'') (cn_name cn) \<or> cn_value cn = None")
    case True
    then have "each_entry (table_step table) (cn # cns) s = each_entry (table_step table) cns s"
      by (auto split: option.split)
    with Cons show ?thesis by metis
  next
    case False
    with Cons.prems obtain v s1 where "table_step table (cn_name cn) v s = Some (Inr s1)"
      "each_entry (table_step table) cns s1 = Some (Inr s')"
      by (auto simp: thenU_ok)
    with Cons.IH step show ?thesis by metis
  qed
qed simp

lemma set_repo_words_ok:
  "set_repo_words upd v r = Some (Inr s) \<longleftrightarrow> (\<exists>ws. split_words v = Inr ws \<and> s = upd (Some ws) r)"
  by (auto simp: set_repo_words_def bail_Inr_iff)

lemmas repo_simps = table_step_def repo_table_def set_repo_def set_repo_words_ok thenU_ok starts_def keeps_def

lemma repo_table_keeps:
  "list_all (\<lambda>(k, g). keeps g rp_pszId) repo_table"
  "list_all (\<lambda>(k, g). keeps g rp_pszCacheName) repo_table"
  by (auto simp: repo_simps)

lemma repo_key_keeps:
  "each_entry repo_key cns r = Some (Inr r') \<Longrightarrow> rp_pszId r' = rp_pszId r"
  "each_entry repo_key cns r = Some (Inr r') \<Longrightarrow> rp_pszCacheName r' = rp_pszCacheName r"
  unfolding repo_key_def
  by (rule each_entry_keeps [OF repo_table_keeps(1)], assumption)
    (rule each_entry_keeps [OF repo_table_keeps(2)], assumption)

interpretation repo_enabled: setting repo_key "''enabled''" int_true rp_nEnabled
  unfolding repo_key_def by (rule table_setting) (auto simp: repo_simps)

interpretation repo_gpgcheck: setting repo_key "''gpgcheck''" int_true rp_nGPGCheck
  unfolding repo_key_def by (rule table_setting) (auto simp: repo_simps)

interpretation repo_sslverify: setting repo_key "''sslverify''" int_true rp_nSSLVerify
  unfolding repo_key_def by (rule table_setting) (auto simp: repo_simps)

interpretation repo_priority: setting repo_key "''priority''" strtoi rp_nPriority
  unfolding repo_key_def by (rule table_setting) (auto simp: repo_simps)

interpretation repo_metalink: setting repo_key "''metalink''" Some rp_pszMetaLink
  unfolding repo_key_def by (rule table_setting) (auto simp: repo_simps)

interpretation repo_name: setting repo_key "''name''" Some rp_pszName
  unfolding repo_key_def by (rule table_setting) (auto simp: repo_simps)

text \<open>What a section says about its repository.\<close>

definition section_repo :: "tdnf_conf \<Rightarrow> cnfnode \<Rightarrow> repo_data \<Rightarrow> bool" where
  "section_repo c sec r \<longleftrightarrow> (case sec of Cnf i _ cns \<Rightarrow>
     rp_pszId r = i \<and> rp_pszCacheName r = None
     \<and> rp_nEnabled r = (case last_value ''enabled'' cns of None \<Rightarrow> 0 | Some v \<Rightarrow> int_true v)
     \<and> rp_nGPGCheck r = (case last_value ''gpgcheck'' cns of None \<Rightarrow> 1 | Some v \<Rightarrow> int_true v)
     \<and> rp_nSSLVerify r = (case last_value ''sslverify'' cns of None \<Rightarrow> cf_nSSLVerify c | Some v \<Rightarrow> int_true v)
     \<and> rp_nPriority r = (case last_value ''priority'' cns of None \<Rightarrow> 50 | Some v \<Rightarrow> strtoi v)
     \<and> rp_pszMetaLink r = last_value ''metalink'' cns
     \<and> rp_pszName r = Some (case last_value ''name'' cns of None \<Rightarrow> i | Some v \<Rightarrow> v))"

definition visible_sections :: "cnfnode list \<Rightarrow> cnfnode list" where
  "visible_sections cns = filter (\<lambda>cn. \<not> starts (CHR ''.'') (cn_name cn)) cns"

lemma section_repo_read:
  assumes "TDNFCreateRepo c (cn_name sec) = Inr r0" and e: "each_entry repo_key (first_child sec) r0 = Some (Inr r)"
  shows "section_repo c sec (default_name r)"
proof -
  from assms(1) have r0: "r0 = repo_defaults c (cn_name sec)" by (auto simp: TDNFCreateRepo_def bail_Inr_iff)
  show ?thesis
    using repo_key_keeps [OF e] repo_enabled.last_wins [OF e] repo_gpgcheck.last_wins [OF e]
      repo_sslverify.last_wins [OF e] repo_priority.last_wins [OF e] repo_metalink.last_wins [OF e]
      repo_name.last_wins [OF e]
    by (cases sec) (auto simp: section_repo_def default_name_def r0 repo_defaults_def split: option.splits)
qed

lemma load_sections_ok:
  assumes "load_sections T cns acc w = Some (Inr rs, w')"
  shows "\<exists>qs. rs = rev qs @ acc \<and> list_all2 (section_repo (t_pConf T)) (visible_sections cns) qs"
  using assms
proof (induction T cns acc arbitrary: w rule: load_sections.induct)
  case (2 T sec cns acc)
  show ?case
  proof (cases "starts (CHR ''.'') (cn_name sec)")
    case True
    with 2 show ?thesis by (auto simp: visible_sections_def)
  next
    case False
    with "2.prems" obtain r0 w1 w2 r w3 where r: "TDNFCreateRepo (t_pConf T) (cn_name sec) = Inr r0"
      "each_entry repo_key (first_child sec) r0 = Some (Inr r)"
      and rest: "load_sections T cns (default_name r # acc) w3 = Some (Inr rs, w')"
      by (auto simp: bindP_ok liftU_def split: option.splits)
    from "2.IH"(2) [OF False rest] obtain qs where
      qs: "rs = rev qs @ default_name r # acc" "list_all2 (section_repo (t_pConf T)) (visible_sections cns) qs" by blast
    with False section_repo_read [OF r] show ?thesis
      by (intro exI [of _ "default_name r # qs"]) (simp add: visible_sections_def)
  qed
qed (auto simp: visible_sections_def)

text \<open>Loading a \<^verbatim>\<open>.repo\<close> file yields one repository for every section, the last section first, each with
  the last value its section has for a key and the documented default for a key that is missing.\<close>

theorem LoadReposFromFile_sections:
  assumes "TDNFLoadReposFromFile T f w = Some (Inr rs, w')"
    and "sys_read (t_sys T) f = Inr content" and "parse_ini None content = Some cn"
  shows "list_all2 (section_repo (t_pConf T)) (visible_sections (first_child cn)) (rev rs)"
proof -
  from assms obtain w1 where "load_sections T (first_child cn) [] w1 = Some (Inr rs, w')"
    by (auto simp: TDNFLoadReposFromFile_def load_cnftree_of)
  from load_sections_ok [OF this] show ?thesis by auto
qed

section \<open>What the whole list holds\<close>

lemma store_next_simps [simp]: "store_next [] chain = chain"
  "store_next rs2 (store_next rs1 chain) = store_next (rs1 @ rs2) chain"
  by (auto simp: store_next_def split: prod.split option.split)

lemma duplicate_id_iff: "duplicate_id rs \<longleftrightarrow> \<not> distinct (map rp_pszId rs)"
  by (induction rs) (auto simp: list_ex_iff)

text \<open>The ids and the fresh state of repositories, in order.\<close>

definition fresh_repos :: "string list \<Rightarrow> repo_data list \<Rightarrow> bool" where
  "fresh_repos ids rs \<longleftrightarrow> map rp_pszId rs = ids \<and> list_all (\<lambda>r. rp_pszCacheName r = None) rs"

lemma fresh_repos_append:
  "fresh_repos is rs \<Longrightarrow> fresh_repos js qs \<Longrightarrow> fresh_repos (is @ js) (rs @ qs)"
  by (simp add: fresh_repos_def)

definition file_ids :: "system \<Rightarrow> string \<Rightarrow> string list" where
  "file_ids sys f = (case load_cnftree sys f of
     Some (Inr cn) \<Rightarrow> rev (map cn_name (visible_sections (first_child cn))) | _ \<Rightarrow> [])"

definition dir_ids :: "system \<Rightarrow> string \<Rightarrow> string list \<Rightarrow> string list" where
  "dir_ids sys dir names = concat (map (\<lambda>name. case TDNFJoinPath [dir, name] of
     Inr (Some path) \<Rightarrow> file_ids sys path | _ \<Rightarrow> []) (filter (has_extension TDNF_REPO_EXT) names))"

lemma sections_fresh:
  "list_all2 (section_repo c) secs qs \<Longrightarrow> fresh_repos (map cn_name secs) qs"
proof (induction secs qs rule: list_all2_induct)
  case (Cons sec secs r qs)
  then show ?case by (cases sec) (auto simp: fresh_repos_def section_repo_def)
qed (simp add: fresh_repos_def)

lemma LoadReposFromFile_fresh:
  assumes "TDNFLoadReposFromFile T f w = Some (Inr rs, w')"
  shows "fresh_repos (file_ids (t_sys T) f) rs"
proof -
  from assms obtain cn w1 where cn: "load_cnftree (t_sys T) f = Some (Inr cn)"
    and l: "load_sections T (first_child cn) [] w1 = Some (Inr rs, w')"
    by (auto simp: TDNFLoadReposFromFile_def bindP_ok liftU_def split: option.splits)
  from load_sections_ok [OF l] obtain qs where
    "rs = rev qs" "list_all2 (section_repo (t_pConf T)) (visible_sections (first_child cn)) qs" by auto
  with sections_fresh [OF this(2)] cn show ?thesis by (simp add: fresh_repos_def file_ids_def rev_map [symmetric])
qed

lemma JoinPath_Some: "TDNFJoinPath (n # ns) = Inr path \<Longrightarrow> \<exists>p. path = Some p"
  by (auto simp: TDNFJoinPath_def bail_Inr_iff)

lemma load_repo_files_fresh:
  assumes "load_repo_files T dir names chain w = Some (Inr chain', w')"
  shows "\<exists>rs. chain' = store_next rs chain \<and> fresh_repos (dir_ids (t_sys T) dir names) rs"
  using assms
proof (induction T dir names chain arbitrary: w rule: load_repo_files.induct)
  case (2 T dir name names chain)
  show ?case
  proof (cases "has_extension TDNF_REPO_EXT name")
    case False
    with 2 show ?thesis by (simp add: dir_ids_def)
  next
    case True
    with "2.prems" obtain path rs w1 where path: "TDNFJoinPath [dir, name] = Inr path"
      and rs: "TDNFLoadReposFromFile T (the path) w = Some (Inr rs, w1)"
      and rest: "load_repo_files T dir names (store_next rs chain) w1 = Some (Inr chain', w')"
      by (auto simp: bindP_ok)
    from JoinPath_Some [OF path] obtain p where p: "path = Some p" ..
    from "2.IH"(2) [OF _ rest] True obtain qs where
      "chain' = store_next (rs @ qs) chain" "fresh_repos (dir_ids (t_sys T) dir names) qs" by auto
    moreover from LoadReposFromFile_fresh [OF rs] p have "fresh_repos (file_ids (t_sys T) p) rs" by simp
    ultimately show ?thesis using True path p
      by (intro exI [of _ "rs @ qs"]) (simp add: dir_ids_def fresh_repos_append)
  qed
qed (auto simp: dir_ids_def fresh_repos_def intro: exI [of _ "[]"])

lemma CreateRepo_fresh:
  "TDNFCreateRepoFromPath sys c i u = Inr r \<Longrightarrow> rp_pszId r = i \<and> rp_pszCacheName r = None"
  "TDNFCreateRepoFromDirectory sys c i u = Inr r \<Longrightarrow> rp_pszId r = i \<and> rp_pszCacheName r = None"
  "TDNFCreateCmdLineRepo c = Inr r \<Longrightarrow> rp_pszId r = CMDLINE_REPO_NAME \<and> rp_pszCacheName r = None"
  by (auto simp: TDNFCreateRepoFromPath_def TDNFCreateRepoFromDirectory_def TDNFCreateCmdLineRepo_def
      TDNFCreateRepo_def repo_defaults_def bail_Inr_iff split: if_splits)

definition opt_id :: "cmd_opt \<Rightarrow> string" where
  "opt_id opt = (case url_id_tuple (snd opt) of Inr (i, u) \<Rightarrow> i | Inl e \<Rightarrow> [])"

text \<open>Without a repository from a directory every repository is appended.\<close>

lemma load_cmdline_fresh:
  assumes "load_cmdline_repos sys c opts chain = Inr chain'" and "''repofromdir'' \<notin> fst ` set opts"
  shows "\<exists>rs. chain' = store_next rs chain
    \<and> fresh_repos (map opt_id (filter (\<lambda>opt. fst opt = ''repofrompath'') opts)) rs"
  using assms
proof (induction opts arbitrary: chain)
  case (Cons opt opts)
  obtain name val where opt: "opt = (name, val)" by (cases opt)
  show ?case
  proof (cases "name = ''repofrompath''")
    case True
    with Cons.prems opt obtain i u r where iu: "url_id_tuple val = Inr (i, u)"
      and r: "TDNFCreateRepoFromPath sys c i u = Inr r"
      and rest: "load_cmdline_repos sys c opts (store_next [r] chain) = Inr chain'"
      by (auto simp: bail_Inr_iff)
    from Cons.IH [OF rest] Cons.prems obtain rs where
      "chain' = store_next ([r] @ rs) chain" "fresh_repos (map opt_id (filter (\<lambda>opt. fst opt = ''repofrompath'') opts)) rs"
      by auto
    with CreateRepo_fresh(1) [OF r] True opt iu show ?thesis
      by (intro exI [of _ "r # rs"]) (simp add: fresh_repos_def opt_id_def)
  next
    case False
    moreover from Cons.prems(2) opt have "name \<noteq> ''repofromdir''" by auto
    ultimately show ?thesis using Cons opt by simp
  qed
qed (auto simp: fresh_repos_def intro: exI [of _ "[]"])

lemma LoadRepoData_ok:
  assumes "TDNFLoadRepoData T w = Some (Inr rs, w')"
  obtains r chain dir names aside w1 where
    "TDNFCreateCmdLineRepo (t_pConf T) = Inr r"
    and "load_cmdline_repos (t_sys T) (t_pConf T) (pSetOpt (t_pArgs T)) ([r], None) = Inr chain"
    and "cf_pszRepoDir (t_pConf T) = Some dir" and "sys_dir (t_sys T) dir = Inr names"
    and "load_repo_files T dir names chain w1 = Some (Inr (rs, aside), w')"
    and "\<not> duplicate_id rs"
proof -
  from assms obtain r chain dir where
    r: "TDNFCreateCmdLineRepo (t_pConf T) = Inr r"
    and chain: "load_cmdline_repos (t_sys T) (t_pConf T) (pSetOpt (t_pArgs T)) ([r], None) = Inr chain"
    and dir: "cf_pszRepoDir (t_pConf T) = Some dir"
    and rest: "(case sys_dir (t_sys T) dir of Inl e \<Rightarrow> errorP ERROR_TDNF_REPO_DIR_OPEN
      | Inr names \<Rightarrow> bindP (load_repo_files T dir names chain) (\<lambda>(pReposAll, _).
           if duplicate_id pReposAll then errorP ERROR_TDNF_DUPLICATE_REPO_ID else returnP pReposAll)) w
      = Some (Inr rs, w')"
    unfolding TDNFLoadRepoData_def
    by (auto simp: bindP_ok simp del: split_paired_Ex split_paired_All)
  from rest obtain names where names: "sys_dir (t_sys T) dir = Inr names" by (cases "sys_dir (t_sys T) dir") auto
  with rest obtain aside where "load_repo_files T dir names chain w = Some (Inr (rs, aside), w')" "\<not> duplicate_id rs"
    by (auto simp: bindP_ok split: if_splits)
  with r chain dir names show thesis by (rule that)
qed

text \<open>The repositories are those of the command line and of the \<^verbatim>\<open>.repo\<close> files, in this order: the built-in
  one, one for every repofrompath option, and the sections of each file in reverse; no two have the same id.\<close>

theorem LoadRepoData_ids:
  assumes "TDNFLoadRepoData T w = Some (Inr rs, w')" and "''repofromdir'' \<notin> fst ` set (pSetOpt (t_pArgs T))"
    and "cf_pszRepoDir (t_pConf T) = Some dir" and "sys_dir (t_sys T) dir = Inr names"
  shows "map rp_pszId rs = CMDLINE_REPO_NAME # map opt_id (filter (\<lambda>opt. fst opt = ''repofrompath'') (pSetOpt (t_pArgs T)))
      @ dir_ids (t_sys T) dir names
    \<and> distinct (map rp_pszId rs)"
proof -
  from LoadRepoData_ok [OF assms(1)] assms(3,4) obtain r chain aside w1 where
    r: "TDNFCreateCmdLineRepo (t_pConf T) = Inr r"
    and c: "load_cmdline_repos (t_sys T) (t_pConf T) (pSetOpt (t_pArgs T)) ([r], None) = Inr chain"
    and f: "load_repo_files T dir names chain w1 = Some (Inr (rs, aside), w')"
    and d: "\<not> duplicate_id rs"
    by (metis option.inject sum.inject(2))
  from load_cmdline_fresh [OF c assms(2)] load_repo_files_fresh [OF f] CreateRepo_fresh(3) [OF r] d
  show ?thesis by (auto simp: store_next_def fresh_repos_def duplicate_id_iff)
qed

text \<open>A repository from a directory is stored over the head of the list: the repositories loaded before it
  and all that are loaded after it, those of every \<^verbatim>\<open>.repo\<close> file included, are lost, and the list that is
  returned has the last such repository only.\<close>

theorem LoadRepoData_repofromdir:
  assumes "TDNFLoadRepoData T w = Some (Inr rs, w')" and "''repofromdir'' \<in> fst ` set (pSetOpt (t_pArgs T))"
  shows "map rp_pszId rs = [opt_id (last (filter (\<lambda>opt. fst opt = ''repofromdir'') (pSetOpt (t_pArgs T))))]"
proof -
  have main: "\<exists>r old. chain' = ([r], Some old) \<and> rp_pszId r = opt_id (last (filter (\<lambda>opt. fst opt = ''repofromdir'') opts))"
    if "load_cmdline_repos sys c opts chain = Inr chain'" "''repofromdir'' \<in> fst ` set opts" for sys c opts chain chain'
    using that
  proof (induction opts arbitrary: chain)
    case (Cons opt opts)
    show ?case
    proof (cases "''repofromdir'' \<in> fst ` set opts")
      case True
      then have "filter (\<lambda>opt. fst opt = ''repofromdir'') opts \<noteq> []" by (force simp: filter_empty_conv)
      moreover from Cons.prems have "\<exists>chain1. load_cmdline_repos sys c opts chain1 = Inr chain'"
        by (cases opt) (auto simp: bail_Inr_iff split: if_splits simp del: split_paired_Ex)
      then obtain chain1 where "load_cmdline_repos sys c opts chain1 = Inr chain'" ..
      ultimately show ?thesis using Cons.IH [OF _ True] by fastforce
    next
      case False
      obtain name val where opt: "opt = (name, val)" by (cases opt)
      with False Cons.prems(2) have n: "name = ''repofromdir''" by auto
      with Cons.prems(1) opt obtain i u r where iu: "url_id_tuple val = Inr (i, u)"
        and r: "TDNFCreateRepoFromDirectory sys c i u = Inr r"
        and rest: "load_cmdline_repos sys c opts (store_head r chain) = Inr chain'"
        by (auto simp: bail_Inr_iff)
      from load_cmdline_fresh [OF rest False] obtain qs where "chain' = store_next qs (store_head r chain)" by blast
      then have "\<exists>old. chain' = ([r], Some old)"
        by (auto simp: store_next_def store_head_def split: prod.splits option.splits)
      moreover from False have "filter (\<lambda>opt. fst opt = ''repofromdir'') opts = []" by (force simp: filter_empty_conv)
      ultimately show ?thesis using CreateRepo_fresh(2) [OF r] opt n iu by (auto simp: opt_id_def)
    qed
  qed simp
  from LoadRepoData_ok [OF assms(1)] obtain r chain dir names aside w1 where
    c: "load_cmdline_repos (t_sys T) (t_pConf T) (pSetOpt (t_pArgs T)) ([r], None) = Inr chain"
    and f: "load_repo_files T dir names chain w1 = Some (Inr (rs, aside), w')" by metis
  from main [OF c assms(2)] load_repo_files_fresh [OF f] show ?thesis by (auto simp: store_next_def)
qed

text \<open>Whatever the options, the repositories that are returned are fresh and have distinct ids.\<close>

lemma store_fresh:
  assumes "list_all P (fst chain)" and "list_all P rs"
  shows "list_all P (fst (store_next rs chain))"
  using assms by (auto simp: store_next_def split: prod.split option.split)

lemma load_cmdline_uncached:
  assumes "load_cmdline_repos sys c opts chain = Inr chain'"
    and "list_all (\<lambda>r. rp_pszCacheName r = None) (fst chain)"
  shows "list_all (\<lambda>r. rp_pszCacheName r = None) (fst chain')"
  using assms
proof (induction opts arbitrary: chain)
  case (Cons opt opts)
  have head: "list_all (\<lambda>r. rp_pszCacheName r = None) (fst (store_head r chain))" if "rp_pszCacheName r = None" for r
    using that by (simp add: store_head_def split: prod.split option.split)
  obtain name val where opt: "opt = (name, val)" by (cases opt)
  consider (path) "name = ''repofrompath''" | (dir) "name = ''repofromdir''"
    | (other) "name \<noteq> ''repofrompath''" "name \<noteq> ''repofromdir''" by blast
  then show ?case
  proof cases
    case path
    with Cons.prems(1) opt obtain i u r where r: "TDNFCreateRepoFromPath sys c i u = Inr r"
      and rest: "load_cmdline_repos sys c opts (store_next [r] chain) = Inr chain'" by (auto simp: bail_Inr_iff)
    from CreateRepo_fresh(1) [OF r] store_fresh [OF Cons.prems(2), of "[r]"] show ?thesis
      by (intro Cons.IH [OF rest]) simp
  next
    case dir
    with Cons.prems(1) opt obtain i u r where r: "TDNFCreateRepoFromDirectory sys c i u = Inr r"
      and rest: "load_cmdline_repos sys c opts (store_head r chain) = Inr chain'" by (auto simp: bail_Inr_iff)
    from CreateRepo_fresh(2) [OF r] head show ?thesis by (intro Cons.IH [OF rest]) simp
  next
    case other
    with Cons.prems opt show ?thesis by (intro Cons.IH) simp_all
  qed
qed simp

lemma LoadRepoData_fresh:
  assumes "TDNFLoadRepoData T w = Some (Inr rs, w')"
  shows "list_all (\<lambda>r. rp_pszCacheName r = None) rs \<and> distinct (map rp_pszId rs)"
proof -
  from LoadRepoData_ok [OF assms(1)] obtain r chain dir names aside w1 where
    r: "TDNFCreateCmdLineRepo (t_pConf T) = Inr r"
    and c: "load_cmdline_repos (t_sys T) (t_pConf T) (pSetOpt (t_pArgs T)) ([r], None) = Inr chain"
    and f: "load_repo_files T dir names chain w1 = Some (Inr (rs, aside), w')"
    and d: "\<not> duplicate_id rs" by metis
  from load_cmdline_uncached [OF c] CreateRepo_fresh(3) [OF r]
  have "list_all (\<lambda>r. rp_pszCacheName r = None) (fst chain)" by simp
  moreover from load_repo_files_fresh [OF f] obtain qs where "(rs, aside) = store_next qs chain"
    "list_all (\<lambda>r. rp_pszCacheName r = None) qs" by (auto simp: fresh_repos_def)
  ultimately have "list_all (\<lambda>r. rp_pszCacheName r = None) (fst (rs, aside))" by (metis store_fresh)
  with d show ?thesis by (simp add: duplicate_id_iff)
qed

section \<open>Overrides\<close>

lemma alter_repos_matched:
  "TDNFIsGlob pat \<Longrightarrow> alter_repos fnm e pat True rs = map (\<lambda>r. r\<lparr>rp_nEnabled := e\<rparr>) rs"
  by (induction rs) simp_all

lemma alter_repos_unmatched:
  assumes "TDNFIsGlob pat" and "list_all (\<lambda>r. \<not> fnm pat (rp_pszId r)) before"
  shows "alter_repos fnm e pat False (before @ rs) = before @ alter_repos fnm e pat False rs"
  using assms(2) by (induction before) (simp_all add: assms(1))

text \<open>A pattern given to enablerepo or disablerepo switches not only the repositories that match it: from
  the first match on it switches every repository of the list.\<close>

theorem AlterRepoState_glob_spills:
  assumes "TDNFIsGlob pat" and "list_all (\<lambda>r. \<not> fnmatch pat (rp_pszId r)) before"
    and "fnmatch pat (rp_pszId r)"
  shows "TDNFAlterRepoState fnmatch (before @ r # after) nEnable (Some pat)
    = Inr (before @ map (\<lambda>q. q\<lparr>rp_nEnabled := nEnable\<rparr>) (r # after))"
proof -
  from assms(1) have "pat \<noteq> []" by (auto simp: TDNFIsGlob_def)
  with assms show ?thesis by (simp add: TDNFAlterRepoState_def alter_repos_unmatched alter_repos_matched)
qed

definition sample_repo :: "string \<Rightarrow> repo_data" where
  "sample_repo = repo_defaults conf_defaults"

theorem AlterRepoState_glob_spills_witness:
  "\<exists>rs. TDNFAlterRepoState (\<lambda>p s. take 1 s = ''b'') (map sample_repo [''a'', ''b1'', ''c'']) 1 (Some ''b*'') = Inr rs
     \<and> map rp_nEnabled rs = [0, 1, 1]"
  using AlterRepoState_glob_spills [of "''b*''" "\<lambda>p s. take 1 s = ''b''" "[sample_repo ''a'']" "sample_repo ''b1''"
      "[sample_repo ''c'']" 1]
  by (simp add: TDNFIsGlob_def sample_repo_def repo_defaults_def)

lemma alter_repos_named:
  "\<not> TDNFIsGlob i \<Longrightarrow> distinct (map rp_pszId rs) \<Longrightarrow>
     alter_repos fnm e i False rs = map (\<lambda>r. if rp_pszId r = i then r\<lparr>rp_nEnabled := e\<rparr> else r) rs"
proof (induction rs)
  case (Cons r rs)
  show ?case
  proof (cases "rp_pszId r = i")
    case True
    with Cons.prems have "i \<notin> rp_pszId ` set rs" by auto
    then have "rp_pszId q \<noteq> i" if "q \<in> set rs" for q using that by auto
    then have "map (\<lambda>r. if rp_pszId r = i then r\<lparr>rp_nEnabled := e\<rparr> else r) rs = rs" by (intro map_idI) simp
    with True Cons.prems show ?thesis by simp
  next
    case False
    with Cons show ?thesis by simp
  qed
qed simp

definition names_repo :: "cmd_opt \<Rightarrow> bool" where
  "names_repo opt \<longleftrightarrow> (fst opt = ''repo'' \<or> fst opt = ''repoid'')
     \<and> (case snd opt of None \<Rightarrow> False | Some i \<Rightarrow> i \<noteq> [] \<and> \<not> TDNFIsGlob i)"

lemma alter_named:
  assumes "names_repo opt" and "rs \<noteq> []" and "distinct (map rp_pszId rs)"
  shows "TDNFAlterRepoState fnm rs 1 (snd opt)
    = Inr (map (\<lambda>r. if Some (rp_pszId r) = snd opt then r\<lparr>rp_nEnabled := 1\<rparr> else r) rs)"
  using assms by (auto simp: TDNFAlterRepoState_def names_repo_def alter_repos_named split: option.splits)

lemma overrides_seen:
  assumes "list_all names_repo opts" and "rs \<noteq> []" and "distinct (map rp_pszId rs)"
  shows "repo_overrides fnm opts (True, rs)
    = Inr (True, map (\<lambda>r. if Some (rp_pszId r) \<in> snd ` set opts then r\<lparr>rp_nEnabled := 1\<rparr> else r) rs)"
  using assms
proof (induction opts arbitrary: rs)
  case (Cons opt opts)
  let ?rs = "map (\<lambda>r. if Some (rp_pszId r) = snd opt then r\<lparr>rp_nEnabled := 1\<rparr> else r) rs"
  from Cons.prems have "repo_override fnm opt (True, rs) = Inr (True, ?rs)"
    by (simp add: repo_override_def alter_named) (auto simp: names_repo_def)
  moreover have "map rp_pszId ?rs = map rp_pszId rs" by simp
  ultimately show ?case using Cons.IH [of ?rs] Cons.prems by (auto simp del: map_map) auto
qed simp

text \<open>With repo options that name repositories, exactly the named repositories are enabled, whatever the
  configuration files say about them and about the others.\<close>

theorem repo_options_select:
  assumes "opts \<noteq> []" and "list_all names_repo opts" and "pRepos \<noteq> []" and "distinct (map rp_pszId pRepos)"
    and "\<forall>s. fnmatch ''*'' s"
  shows "\<exists>rs. repo_overrides fnmatch opts (False, pRepos) = Inr (True, rs)
    \<and> map rp_pszId rs = map rp_pszId pRepos
    \<and> map rp_nEnabled rs = map (\<lambda>r. if Some (rp_pszId r) \<in> snd ` set opts then 1 else 0) pRepos"
proof -
  obtain opt os where opts: "opts = opt # os" using assms(1) by (cases opts) auto
  let ?off = "map (\<lambda>r. r\<lparr>rp_nEnabled := 0\<rparr>) pRepos"
  have glob: "TDNFIsGlob ''*''" by (simp add: TDNFIsGlob_def)
  have "alter_repos fnmatch 0 ''*'' False pRepos = ?off"
    using assms(3,5) glob by (cases pRepos) (simp_all add: alter_repos_matched)
  then have "TDNFAlterRepoState fnmatch pRepos 0 (Some ''*'') = Inr ?off"
    using assms(3) by (simp add: TDNFAlterRepoState_def)
  with assms opts have "repo_overrides fnmatch opts (False, pRepos) = repo_overrides fnmatch opts (True, ?off)"
    by (simp add: repo_override_def) (auto simp: names_repo_def)
  also have "\<dots> = Inr (True, map (\<lambda>r. if Some (rp_pszId r) \<in> snd ` set opts then r\<lparr>rp_nEnabled := 1\<rparr> else r) ?off)"
    using assms by (intro overrides_seen) (simp_all add: comp_def)
  finally show ?thesis by (auto simp: comp_def)
qed

theorem repo_options_select_witness:
  "\<exists>rs. repo_overrides (\<lambda>p s. p = ''*'') [(''repo'', Some ''b''), (''repoid'', Some ''c'')]
      (False, map sample_repo [''a'', ''b'', ''c'']) = Inr (True, rs)
    \<and> map rp_pszId rs = [''a'', ''b'', ''c''] \<and> map rp_nEnabled rs = [0, 1, 1]"
  using repo_options_select [of "[(''repo'', Some ''b''), (''repoid'', Some ''c'')]"
      "map sample_repo [''a'', ''b'', ''c'']" "\<lambda>p s. p = ''*''"]
  by (simp add: names_repo_def TDNFIsGlob_def sample_repo_def repo_defaults_def)

section \<open>Cache directories\<close>

lemma length_hex_digest: "length (hex_digest_of bs) = 2 * length bs"
  by (induction bs) (simp_all add: hex_digest_of_def hex_byte_def)

text \<open>The id can be read off the name of the cache directory.\<close>

lemma CacheName_id:
  assumes "SolvCreateRepoCacheName sha256 i url = Inr n" and "4 \<le> length (sha256 url)"
  shows "take (length n - 9) n = i"
  using assms length_hex_digest [of "take 4 (sha256 url)"]
  by (auto simp: SolvCreateRepoCacheName_def TDNFAllocateStringPrintf_def split: if_splits)

lemma alter_repos_keeps:
  "map rp_pszId (alter_repos fnm e pat m rs) = map rp_pszId rs"
  "map rp_pszCacheName (alter_repos fnm e pat m rs) = map rp_pszCacheName rs"
  by (induction rs arbitrary: m) (auto simp: Let_def)

lemma AlterRepoState_keeps:
  assumes "TDNFAlterRepoState fnm rs e pat = Inr qs"
  shows "map rp_pszId qs = map rp_pszId rs \<and> map rp_pszCacheName qs = map rp_pszCacheName rs"
  using assms by (auto simp: TDNFAlterRepoState_def alter_repos_keeps split: if_splits)

lemma repo_overrides_keeps:
  "repo_overrides fnm opts st = Inr st' \<Longrightarrow> map rp_pszId (snd st') = map rp_pszId (snd st)
     \<and> map rp_pszCacheName (snd st') = map rp_pszCacheName (snd st)"
proof (induction opts arbitrary: st)
  case (Cons opt opts)
  then obtain st1 where st1: "repo_override fnm opt st = Inr st1" "repo_overrides fnm opts st1 = Inr st'"
    by (auto simp: bail_Inr_iff simp del: split_paired_Ex)
  from st1(1) have "map rp_pszId (snd st1) = map rp_pszId (snd st)
     \<and> map rp_pszCacheName (snd st1) = map rp_pszCacheName (snd st)"
    by (auto simp: repo_override_def bail_Inr_iff dest!: AlterRepoState_keeps split: prod.splits if_splits)
  with Cons.IH [OF st1(2)] show ?case by simp
qed simp

definition cache_of :: "repo_data \<Rightarrow> string list" where
  "cache_of r = (case rp_pszCacheName r of None \<Rightarrow> [] | Some n \<Rightarrow> [n])"

lemma finalize_repo_cache:
  assumes "finalize_repo f sha256 r = Some (Inr q)" and "rp_pszCacheName r = None" and "\<And>u. 4 \<le> length (sha256 u)"
  shows "rp_pszId q = rp_pszId r \<and> list_all (\<lambda>n. take (length n - 9) n = rp_pszId r) (cache_of q)"
proof -
  from assms(1) obtain name urls metalink mirrorlist keys cache where
    c0: "cache_name sha256 (r\<lparr>rp_pszName := name, rp_ppszBaseUrls := urls, rp_pszMetaLink := metalink,
       rp_pszMirrorList := mirrorlist, rp_ppszUrlGPGKeys := keys\<rparr>) = Inr cache"
    and q0: "q = r\<lparr>rp_pszName := name, rp_ppszBaseUrls := urls, rp_pszMetaLink := metalink,
       rp_pszMirrorList := mirrorlist, rp_ppszUrlGPGKeys := keys, rp_pszCacheName := cache\<rparr>"
    by (auto simp: finalize_repo_def thenU_ok bail_Inr_iff Let_def)
  define r1 where "r1 = r\<lparr>rp_pszName := name, rp_ppszBaseUrls := urls, rp_pszMetaLink := metalink,
       rp_pszMirrorList := mirrorlist, rp_ppszUrlGPGKeys := keys\<rparr>"
  have r1: "rp_pszId r1 = rp_pszId r" "rp_pszCacheName r1 = None" and q: "q = r1\<lparr>rp_pszCacheName := cache\<rparr>"
    and c: "cache_name sha256 r1 = Inr cache"
    using assms(2) c0 q0 by (simp_all add: r1_def)
  from c have "cache = None \<or> (\<exists>url n. SolvCreateRepoCacheName sha256 (rp_pszId r1) url = Inr n \<and> cache = Some n)"
    using r1(2) by (auto simp: cache_name_def bail_Inr_iff Let_def split: option.splits list.splits)
  with q r1 CacheName_id [OF _ assms(3)] show ?thesis by (auto simp: cache_of_def)
qed

lemma finalize_repos_cache:
  assumes "finalize_repos f sha256 rs = Some (Inr qs)" and "list_all (\<lambda>r. rp_pszCacheName r = None) rs"
    and "\<And>u. 4 \<le> length (sha256 u)"
  shows "list_all2 (\<lambda>r q. list_all (\<lambda>n. take (length n - 9) n = rp_pszId r) (cache_of q)) rs qs"
  using assms(1,2)
proof (induction rs arbitrary: qs)
  case (Cons r rs)
  then show ?case using finalize_repo_cache [OF _ _ assms(3)] by (fastforce simp: thenU_ok)
qed simp

lemma distinct_by_prefix:
  assumes "list_all2 (\<lambda>r q. list_all (\<lambda>n. g n = h r) (cache_of q)) rs qs" and "distinct (map h rs)"
  shows "distinct (concat (map cache_of qs)) \<and> g ` set (concat (map cache_of qs)) \<subseteq> h ` set rs"
  using assms
proof (induction rs qs rule: list_all2_induct)
  case (Cons r rs q qs)
  then have IH: "distinct (concat (map cache_of qs))" "g ` set (concat (map cache_of qs)) \<subseteq> h ` set rs"
    and q: "\<And>n. n \<in> set (cache_of q) \<Longrightarrow> g n = h r" and r: "h r \<notin> h ` set rs"
    by (auto simp: list_all_iff)
  have "distinct (cache_of q)" by (simp add: cache_of_def split: option.split)
  moreover have "n \<notin> set (concat (map cache_of qs))" if n: "n \<in> set (cache_of q)" for n
  proof
    assume "n \<in> set (concat (map cache_of qs))"
    with IH(2) have "g n \<in> h ` set rs" by blast
    with q [OF n] r show False by simp
  qed
  ultimately have "distinct (concat (map cache_of (q # qs)))" using IH(1) by auto
  moreover have "g ` set (concat (map cache_of (q # qs))) \<subseteq> h ` set (r # rs)" using IH(2) q by auto
  ultimately show ?case ..
qed simp


section \<open>A sample\<close>

definition repo_file :: string where
  "repo_file = concat [''[r1]'', [NL], ''enabled=1'', [NL], ''baseurl=http://x/'', [NL], ''[r2]'', [NL]]"

definition sample_tdnf :: "cmd_opt list \<Rightarrow> unit tdnf" where
  "sample_tdnf opts = \<lparr>
     t_sys = \<lparr>sys_read = (\<lambda>f. Inr repo_file), sys_dir = (\<lambda>d. Inr [''a.repo'', ''README'']), sys_stat = (\<lambda>p. Inr True),
       sys_fnmatch = (\<lambda>p s. p = ''*''), sys_version = [], sys_db_dir = [], sys_lib_dir = []\<rparr>,
     t_pConf = conf_defaults\<lparr>cf_pszRepoDir := Some ''/r'', cf_pszVarReleaseVer := Some ''5'', cf_pszVarBaseArch := Some ''x''\<rparr>,
     t_pArgs = \<lparr>pSetOpt = opts, pszConfFile = None\<rparr>, t_pPlugins = [], t_ptr = (\<lambda>cn. 4096)\<rparr>"

lemma repo_file_parsed:
  "parse_ini None repo_file = Some (Cnf ''(root)'' None
     [Cnf ''r1'' None [Cnf ''enabled'' (Some ''1'') [], Cnf ''baseurl'' (Some ''http://x/'') []], Cnf ''r2'' None []])"
  by code_simp

lemma repo_file_read: "load_cnftree (t_sys (sample_tdnf opts)) f = Some (Inr (Cnf ''(root)'' None
     [Cnf ''r1'' None [Cnf ''enabled'' (Some ''1'') [], Cnf ''baseurl'' (Some ''http://x/'') []], Cnf ''r2'' None []]))"
  by (rule load_cnftree_of [OF _ repo_file_parsed]) (simp add: sample_tdnf_def)

definition sample_r1 :: repo_data where
  "sample_r1 = (repo_defaults conf_defaults ''r1'')\<lparr>rp_nEnabled := 1, rp_ppszBaseUrls := Some [''http://x/''],
     rp_pszName := Some ''r1''\<rparr>"

definition sample_r2 :: repo_data where
  "sample_r2 = (repo_defaults conf_defaults ''r2'')\<lparr>rp_pszName := Some ''r2''\<rparr>"

lemma sample_events:
  "TDNFEventRepoReadConfigStart (sample_tdnf opts) s = returnP ()"
  "TDNFEventRepoReadConfigEnd (sample_tdnf opts) s = returnP ()"
  by (simp_all add: TDNFEventRepoReadConfigStart_def TDNFEventRepoReadConfigEnd_def raise_repo_event_def
      TDNFAddEventDataPtr_def sample_tdnf_def)

lemma sample_created:
  "length i \<le> 100 \<Longrightarrow> TDNFCreateRepo (t_pConf (sample_tdnf opts)) i = Inr (repo_defaults conf_defaults i)"
  by (simp add: TDNFCreateRepo_def TDNFAllocateString_def TDNF_DEFAULT_MAX_STRING_LEN_def repo_defaults_def
      sample_tdnf_def conf_defaults_def)

lemma sample_file_loaded:
  "TDNFLoadReposFromFile (sample_tdnf opts) f w = Some (Inr [sample_r2, sample_r1], w)"
proof -
  have words: "split_words ''http://x/'' = Inr [''http://x/'']" by code_simp
  show ?thesis
    by (simp add: TDNFLoadReposFromFile_def repo_file_read starts_def sample_created sample_events repo_key_def
        table_step_def repo_table_def set_repo_def set_repo_words_def words sample_values default_name_def
        sample_r1_def sample_r2_def repo_defaults_def conf_defaults_def)
qed

theorem LoadReposFromFile_sections_witness:
  "map rp_pszId [sample_r1, sample_r2] = [''r1'', ''r2''] \<and> rp_nEnabled sample_r1 = int_true ''1''
    \<and> rp_pszName sample_r2 = Some ''r2''"
proof -
  have "sys_read (t_sys (sample_tdnf [])) ''/r/a.repo'' = Inr repo_file" by (simp add: sample_tdnf_def)
  from LoadReposFromFile_sections [OF sample_file_loaded this repo_file_parsed]
  show ?thesis by (simp add: visible_sections_def starts_def section_repo_def last_value_def)
qed

definition sample_cmdline :: repo_data where
  "sample_cmdline = (repo_defaults conf_defaults CMDLINE_REPO_NAME)\<lparr>rp_nHasMetaData := 0,
     rp_pszName := Some CMDLINE_REPO_NAME\<rparr>"

lemma sample_join: "TDNFJoinPath [''/r'', ''a.repo''] = Inr (Some ''/r/a.repo'')"
  by (simp add: TDNFJoinPath_def TDNFAllocateString_def TDNF_DEFAULT_MAX_STRING_LEN_def strip_trailing_slashes_def
      is_slash_def Let_def)

lemma sample_files_loaded:
  "load_repo_files (sample_tdnf opts) ''/r'' [''a.repo'', ''README''] chain w
     = Some (Inr (store_next [sample_r2, sample_r1] chain), w)"
  by (simp add: has_extension_def TDNF_REPO_EXT_def sample_join bindP_def sample_file_loaded)

lemma sample_loaded:
  assumes "load_cmdline_repos (t_sys (sample_tdnf opts)) (t_pConf (sample_tdnf opts)) opts ([sample_cmdline], None) = Inr chain"
  shows "TDNFLoadRepoData (sample_tdnf opts) w =
    (case store_next [sample_r2, sample_r1] chain of (rs, _) \<Rightarrow>
       if duplicate_id rs then Some (Inl ERROR_TDNF_DUPLICATE_REPO_ID, w) else Some (Inr rs, w))"
proof -
  have "TDNFCreateCmdLineRepo (t_pConf (sample_tdnf opts)) = Inr sample_cmdline"
    by (simp add: TDNFCreateCmdLineRepo_def sample_created CMDLINE_REPO_NAME_def TDNFSafeAllocateString_def
        TDNFAllocateString_def TDNF_DEFAULT_MAX_STRING_LEN_def sample_cmdline_def)
  moreover have "cf_pszRepoDir (t_pConf (sample_tdnf opts)) = Some ''/r''" "pSetOpt (t_pArgs (sample_tdnf opts)) = opts"
    "sys_dir (t_sys (sample_tdnf opts)) ''/r'' = Inr [''a.repo'', ''README'']" by (simp_all add: sample_tdnf_def)
  moreover obtain rs a where "store_next [sample_r2, sample_r1] chain = (rs, a)" by fastforce
  ultimately show ?thesis
    using assms by (simp add: TDNFLoadRepoData_def bindP_def sample_files_loaded del: load_repo_files.simps)
qed

lemma sample_ids: "rp_pszId sample_r1 = ''r1''" "rp_pszId sample_r2 = ''r2''" "rp_pszId sample_cmdline = ''@cmdline''"
  by (simp_all add: sample_r1_def sample_r2_def sample_cmdline_def repo_defaults_def CMDLINE_REPO_NAME_def)

lemma sample_plain_loaded:
  "TDNFLoadRepoData (sample_tdnf []) () = Some (Inr [sample_cmdline, sample_r2, sample_r1], ())"
  by (subst sample_loaded [where chain = "([sample_cmdline], None)"]) (simp_all add: store_next_def sample_ids)

theorem LoadRepoData_ids_witness:
  "TDNFLoadRepoData (sample_tdnf []) () = Some (Inr [sample_cmdline, sample_r2, sample_r1], ())
    \<and> distinct (map rp_pszId [sample_cmdline, sample_r2, sample_r1])"
proof -
  have "''repofromdir'' \<notin> fst ` set (pSetOpt (t_pArgs (sample_tdnf [])))"
    "cf_pszRepoDir (t_pConf (sample_tdnf [])) = Some ''/r''"
    "sys_dir (t_sys (sample_tdnf [])) ''/r'' = Inr [''a.repo'', ''README'']" by (simp_all add: sample_tdnf_def)
  from LoadRepoData_ids [OF sample_plain_loaded this] sample_plain_loaded show ?thesis by blast
qed

lemma sample_fromdir:
  "load_cmdline_repos (t_sys (sample_tdnf opts)) (t_pConf (sample_tdnf opts)) [(''repofromdir'', Some ''d,/x'')] ([sample_cmdline], None)
     = Inr ([(repo_defaults conf_defaults ''d'')\<lparr>rp_nHasMetaData := 0, rp_nEnabled := 1, rp_pszName := Some ''d'',
         rp_ppszBaseUrls := Some [''/x'']\<rparr>], Some [sample_cmdline])"
proof -
  have "TDNFSplitStringToArray (Some ''d,/x'') (Some '','') = Inr [''d'', ''/x'']" by code_simp
  moreover have "TDNFIsDir (t_sys (sample_tdnf opts)) ''/x'' = Inr True" by (simp add: TDNFIsDir_def sample_tdnf_def)
  ultimately show ?thesis
    by (simp add: url_id_tuple_def TDNFCreateRepoFromDirectory_def sample_created TDNFSafeAllocateString_def
        TDNFAllocateString_def TDNF_DEFAULT_MAX_STRING_LEN_def store_head_def)
qed

theorem LoadRepoData_repofromdir_witness:
  "\<exists>rs. TDNFLoadRepoData (sample_tdnf [(''repofromdir'', Some ''d,/x'')]) () = Some (Inr rs, ())
    \<and> map rp_pszId rs = [''d'']"
proof -
  let ?o = "[(''repofromdir'', Some ''d,/x'')]"
  obtain rs where l: "TDNFLoadRepoData (sample_tdnf ?o) () = Some (Inr rs, ())"
    using sample_loaded [OF sample_fromdir] by (simp add: store_next_def)
  moreover have "opt_id (''repofromdir'', Some ''d,/x'') = ''d''" by code_simp
  ultimately show ?thesis using LoadRepoData_repofromdir [OF l] by (simp add: sample_tdnf_def)
qed


end
