(* ===== verification/Tdnf_Json.thy ===== *)
theory Tdnf_Json
  imports Tdnf_Values "HOL-Library.Monad_Syntax"
begin

text \<open>
  The JSON writer (\<^verbatim>\<open>jsondump/jsondump.c\<close>) that produces the output of \<^verbatim>\<open>tdnf --json\<close>: a growing
  character buffer in which each added item overwrites the closing bracket of its container.

  The buffer is the list of its cells, as long as \<^verbatim>\<open>buf_size\<close>; sizes and positions wrap at 32 bits as
  in the code. An access outside the buffer is \<open>None\<close>. The allocator succeeds; the cells
  \<^verbatim>\<open>realloc\<close> adds hold an arbitrary character.
\<close>

record json_dump =
  buf :: "char list"
  pos :: nat

abbreviation (input) NUL :: char where "NUL \<equiv> CHR 0x00"
abbreviation (input) SIZE_INC :: nat where "SIZE_INC \<equiv> 256"
abbreviation (input) UINT :: nat where "UINT \<equiv> 2 ^ 32"

section \<open>The buffer\<close>

definition write_at :: "nat \<Rightarrow> string \<Rightarrow> char list \<Rightarrow> char list option" where
  "write_at p s b = (if p + length s \<le> length b
     then Some (take p b @ s @ drop (p + length s) b) else None)"

definition read_at :: "nat \<Rightarrow> char list \<Rightarrow> char option" where
  "read_at p b = (if p < length b then Some (b ! p) else None)"

definition resize :: "nat \<Rightarrow> char list \<Rightarrow> char list" where
  "resize n b = take n (b @ replicate (n - length b) CHR ''?'')"

definition jd_create :: "nat \<Rightarrow> json_dump" where
  "jd_create sz = \<lparr>buf = replicate (if sz = 0 then SIZE_INC else sz) NUL, pos = 0\<rparr>"

definition jd_realloc :: "nat \<Rightarrow> json_dump \<Rightarrow> json_dump" where
  "jd_realloc add_size jd =
     (if (pos jd + add_size) mod UINT \<ge> (length (buf jd) + (UINT - 1)) mod UINT
      then jd\<lparr>buf := resize ((length (buf jd) + (add_size + SIZE_INC) mod UINT) mod UINT) (buf jd)\<rparr>
      else jd)"

text \<open>\<^verbatim>\<open>snprintf\<close> of a string at the current position, cut to the room that is left.\<close>

definition jd_snprintf :: "string \<Rightarrow> json_dump \<Rightarrow> json_dump option" where
  "jd_snprintf s jd =
     (let n = (length (buf jd) + UINT - pos jd) mod UINT in
      do {
        b \<leftarrow> (if n = 0 then Some (buf jd) else write_at (pos jd) (take (n - 1) s @ [NUL]) (buf jd));
        Some (jd\<lparr>buf := b, pos := (pos jd + length s) mod UINT\<rparr>)
      })"

text \<open>Starting a container: two brackets and a NUL, written one by one.\<close>

definition jd_start :: "char \<Rightarrow> char \<Rightarrow> json_dump \<Rightarrow> json_dump option" where
  "jd_start opn cls jd =
     (let jd = jd_realloc 2 jd in
      do {
        b \<leftarrow> write_at (pos jd) [opn] (buf jd);
        b \<leftarrow> write_at (pos jd + 1) [cls] b;
        b \<leftarrow> write_at (pos jd + 2) [NUL] b;
        Some (jd\<lparr>buf := b, pos := pos jd + 2\<rparr>)
      })"

definition jd_map_start :: "json_dump \<Rightarrow> json_dump option" where
  "jd_map_start = jd_start CHR ''{'' CHR ''}''"

definition jd_list_start :: "json_dump \<Rightarrow> json_dump option" where
  "jd_list_start = jd_start CHR ''['' CHR '']''"

text \<open>Rewinding before an item is added: the closing bracket goes, and a comma takes its place unless
  the container is empty.\<close>

definition jd_prep_append :: "char \<Rightarrow> char \<Rightarrow> json_dump \<Rightarrow> json_dump option" where
  "jd_prep_append opn cls jd =
     (if pos jd > 1
      then do {
        c \<leftarrow> read_at (pos jd - 1) (buf jd);
        (if c = cls
         then do {
           p \<leftarrow> read_at (pos jd - 2) (buf jd);
           (if p \<noteq> opn
            then do {
              b \<leftarrow> write_at (pos jd - 1) '','' (buf jd);
              Some (jd\<lparr>buf := b\<rparr>)
            }
            else Some (jd\<lparr>pos := pos jd - 1\<rparr>))
         }
         else Some jd)
      }
      else Some jd)"

definition jd_map_add_raw :: "string \<Rightarrow> string \<Rightarrow> json_dump \<Rightarrow> json_dump option" where
  "jd_map_add_raw key value jd = do {
     jd \<leftarrow> jd_prep_append CHR ''{'' CHR ''}'' (jd_realloc ((length key + length value + 5) mod UINT) jd);
     jd_snprintf (CHR 0x22 # key @ [CHR 0x22] @ '':'' @ value @ ''}'') jd
   }"

definition jd_list_add_raw :: "string \<Rightarrow> json_dump \<Rightarrow> json_dump option" where
  "jd_list_add_raw value jd = do {
     jd \<leftarrow> jd_prep_append CHR ''['' CHR '']'' (jd_realloc ((length value + 2) mod UINT) jd);
     jd_snprintf (value @ '']'') jd
   }"

section \<open>Values\<close>

definition json_escape :: "char \<Rightarrow> string" where
  "json_escape c =
     (if c = CHR 0x22 then [CHR 0x5C, CHR 0x22]
      else if c = CHR 0x5C then [CHR 0x5C, CHR 0x5C]
      else if c = CHR 0x08 then [CHR 0x5C, CHR ''b'']
      else if c = CHR 0x0C then [CHR 0x5C, CHR ''f'']
      else if c = CHR 0x0A then [CHR 0x5C, CHR ''n'']
      else if c = CHR 0x0D then [CHR 0x5C, CHR ''r'']
      else if c = CHR 0x09 then [CHR 0x5C, CHR ''t'']
      else [c])"

definition jsonify_string :: "string \<Rightarrow> string" where
  "jsonify_string str = [CHR 0x22] @ concat (map json_escape str) @ [CHR 0x22]"

text \<open>Numbers are printed into a local array of 22 characters.\<close>

definition print_int :: "int \<Rightarrow> string" where
  "print_int i = take 21 (int_string i)"

definition c_text :: "char list \<Rightarrow> string" where
  "c_text b = takeWhile (\<lambda>c. c \<noteq> NUL) b"

definition jd_map_add_null :: "string \<Rightarrow> json_dump \<Rightarrow> json_dump option" where
  "jd_map_add_null key = jd_map_add_raw key ''null''"

definition jd_map_add_string :: "string \<Rightarrow> string option \<Rightarrow> json_dump \<Rightarrow> json_dump option" where
  "jd_map_add_string key value = (case value of
     None \<Rightarrow> jd_map_add_null key
   | Some v \<Rightarrow> jd_map_add_raw key (jsonify_string v))"

definition jd_map_add_int :: "string \<Rightarrow> 32 word \<Rightarrow> json_dump \<Rightarrow> json_dump option" where
  "jd_map_add_int key value = jd_map_add_raw key (print_int (sint value))"

definition jd_map_add_int64 :: "string \<Rightarrow> 64 word \<Rightarrow> json_dump \<Rightarrow> json_dump option" where
  "jd_map_add_int64 key value = jd_map_add_raw key (print_int (sint value))"

definition jd_map_add_bool :: "string \<Rightarrow> int \<Rightarrow> json_dump \<Rightarrow> json_dump option" where
  "jd_map_add_bool key value = jd_map_add_raw key (if value \<noteq> 0 then ''true'' else ''false'')"

text \<open>The text a format string makes of its arguments is given.\<close>

definition jd_map_add_fmt :: "string \<Rightarrow> string \<Rightarrow> json_dump \<Rightarrow> json_dump option" where
  "jd_map_add_fmt key formatted = jd_map_add_string key (Some formatted)"

definition jd_map_add_child :: "string \<Rightarrow> json_dump \<Rightarrow> json_dump \<Rightarrow> json_dump option" where
  "jd_map_add_child key child = jd_map_add_raw key (c_text (buf child))"

definition jd_list_add_null :: "json_dump \<Rightarrow> json_dump option" where
  "jd_list_add_null = jd_list_add_raw ''null''"

definition jd_list_add_string :: "string option \<Rightarrow> json_dump \<Rightarrow> json_dump option" where
  "jd_list_add_string value = (case value of
     None \<Rightarrow> jd_list_add_null
   | Some v \<Rightarrow> jd_list_add_raw (jsonify_string v))"

definition jd_list_add_int :: "32 word \<Rightarrow> json_dump \<Rightarrow> json_dump option" where
  "jd_list_add_int value = jd_list_add_raw (print_int (sint value))"

definition jd_list_add_int64 :: "64 word \<Rightarrow> json_dump \<Rightarrow> json_dump option" where
  "jd_list_add_int64 value = jd_list_add_raw (print_int (sint value))"

definition jd_list_add_bool :: "int \<Rightarrow> json_dump \<Rightarrow> json_dump option" where
  "jd_list_add_bool value = jd_list_add_raw (if value \<noteq> 0 then ''true'' else ''false'')"

definition jd_list_add_fmt :: "string \<Rightarrow> json_dump \<Rightarrow> json_dump option" where
  "jd_list_add_fmt formatted = jd_list_add_string (Some formatted)"

definition jd_list_add_child :: "json_dump \<Rightarrow> json_dump \<Rightarrow> json_dump option" where
  "jd_list_add_child child = jd_list_add_raw (c_text (buf child))"

section \<open>The buffer holds a text\<close>

definition jd_holds :: "json_dump \<Rightarrow> string \<Rightarrow> bool" where
  "jd_holds jd t \<longleftrightarrow> pos jd = length t \<and> length t < length (buf jd) \<and> take (length t + 1) (buf jd) = t @ [NUL]"

text \<open>The buffer never grows much beyond twice its text.\<close>

definition jd_cap :: "nat \<Rightarrow> json_dump \<Rightarrow> bool" where
  "jd_cap n jd \<longleftrightarrow> length (buf jd) \<le> 2 * pos jd + n"

lemma resize_grow: "length b \<le> n \<Longrightarrow> resize n b = b @ replicate (n - length b) CHR ''?''"
  by (simp add: resize_def)

lemma jd_realloc_ok:
  assumes "pos jd < length (buf jd)" "pos jd + add_size < UINT" "length (buf jd) + add_size + 512 < UINT"
  defines "jd' \<equiv> jd_realloc add_size jd"
  shows "pos jd' = pos jd" "pos jd + add_size + 1 < length (buf jd')"
    "take (length (buf jd)) (buf jd') = buf jd" "length (buf jd) \<le> length (buf jd')"
    "length (buf jd') \<le> max (length (buf jd)) (pos jd + 2 * add_size + 257)"
proof -
  have m: "(length (buf jd) + (UINT - 1)) mod UINT = length (buf jd) - 1"
  proof -
    have "length (buf jd) + (UINT - 1) = (length (buf jd) - 1) + UINT" using assms(1) by simp
    moreover have "length (buf jd) - 1 < UINT" using assms(3) by simp
    ultimately show ?thesis by (metis mod_add_self2 mod_less)
  qed
  have sizes: "(pos jd + add_size) mod UINT = pos jd + add_size" "(add_size + SIZE_INC) mod UINT = add_size + SIZE_INC"
    "(length (buf jd) + (add_size + SIZE_INC)) mod UINT = length (buf jd) + (add_size + SIZE_INC)"
    using assms(2,3) by simp_all
  show "pos jd' = pos jd" "pos jd + add_size + 1 < length (buf jd')"
    "take (length (buf jd)) (buf jd') = buf jd" "length (buf jd) \<le> length (buf jd')"
    "length (buf jd') \<le> max (length (buf jd)) (pos jd + 2 * add_size + 257)"
    using assms(1) unfolding jd'_def jd_realloc_def m sizes
    by (auto simp: resize_grow not_le)
qed

lemma jd_holds_realloc:
  assumes "jd_holds jd t" "length t + add_size < UINT" "length (buf jd) + add_size + 512 < UINT"
  shows "jd_holds (jd_realloc add_size jd) t"
    "length t + add_size + 1 < length (buf (jd_realloc add_size jd))"
    "length (buf (jd_realloc add_size jd)) \<le> max (length (buf jd)) (length t + 2 * add_size + 257)"
proof -
  have t: "pos jd = length t" "length t < length (buf jd)" "take (length t + 1) (buf jd) = t @ [NUL]"
    using assms(1) by (auto simp: jd_holds_def)
  note r = jd_realloc_ok [of jd add_size]
  show "length t + add_size + 1 < length (buf (jd_realloc add_size jd))"
    "length (buf (jd_realloc add_size jd)) \<le> max (length (buf jd)) (length t + 2 * add_size + 257)"
    using r assms t by simp_all
  have "take (length t + 1) (buf (jd_realloc add_size jd))
      = take (length t + 1) (take (length (buf jd)) (buf (jd_realloc add_size jd)))"
    using t(2) by (simp add: min_def)
  also have "\<dots> = t @ [NUL]" using r(3) assms t by simp
  finally show "jd_holds (jd_realloc add_size jd) t"
    using r assms t by (simp add: jd_holds_def)
qed

lemma write_at_take:
  "write_at p s b = Some b' \<Longrightarrow> take (p + length s) b' = take p b @ s \<and> length b' = length b"
  by (auto simp: write_at_def split: if_splits)

text \<open>Printing over the tail of a text leaves the head and the new piece.\<close>

lemma jd_snprintf_holds:
  assumes "take (pos jd) (buf jd) = u" "length u = pos jd"
    and "pos jd + length s < length (buf jd)" "length (buf jd) < UINT"
  shows "\<exists>jd'. jd_snprintf s jd = Some jd' \<and> jd_holds jd' (u @ s) \<and> length (buf jd') = length (buf jd)"
proof -
  let ?n = "(length (buf jd) + UINT - pos jd) mod UINT"
  have n: "?n = length (buf jd) - pos jd"
  proof -
    have "length (buf jd) + UINT - pos jd = (length (buf jd) - pos jd) + UINT" using assms(3) by simp
    moreover have "length (buf jd) - pos jd < UINT" using assms(4) by simp
    ultimately show ?thesis by (metis mod_add_self2 mod_less)
  qed
  have "?n \<noteq> 0" and fit: "take (?n - 1) s = s" using n assms(3) by auto
  obtain b where b: "write_at (pos jd) (s @ [NUL]) (buf jd) = Some b"
    using assms(3) by (simp add: write_at_def)
  have "take (pos jd + length s + 1) b = u @ s @ [NUL]" "length b = length (buf jd)"
    using write_at_take [OF b] assms(1) by (simp_all add: add.assoc)
  moreover have "(pos jd + length s) mod UINT = pos jd + length s" using assms(3,4) by simp
  ultimately show ?thesis
    using \<open>?n \<noteq> 0\<close> fit b assms(2,3) by (simp add: jd_snprintf_def Let_def jd_holds_def)
qed

lemma jd_prep_append_ok:
  assumes "jd_holds jd (u @ [cls])" "u \<noteq> []"
  shows "\<exists>jd'. jd_prep_append opn cls jd = Some jd' \<and> length (buf jd') = length (buf jd)
    \<and> take (pos jd') (buf jd') = (if last u = opn then u else u @ '','')
    \<and> pos jd' = length (if last u = opn then u else u @ '','')"
proof -
  have h: "pos jd = length u + 1" "length u + 1 < length (buf jd)"
    "take (length u + 2) (buf jd) = u @ [cls, NUL]"
    using assms(1) by (auto simp: jd_holds_def)
  have nth: "buf jd ! i = (u @ [cls, NUL]) ! i" if "i < length u + 2" for i
    using that h(3) nth_take [OF that, of "buf jd"] by simp
  have takes: "take (length u) (buf jd) = u"
    using h(3) take_take [of "length u" "length u + 2" "buf jd"] by (simp add: min_def)
  have "buf jd ! (length u - 1) = last u"
    using nth [of "length u - 1"] assms(2) by (simp add: nth_append last_conv_nth)
  moreover have "buf jd ! length u = cls" using nth [of "length u"] by (simp add: nth_append)
  moreover obtain b where b: "write_at (length u) '','' (buf jd) = Some b"
    using h(2) by (simp add: write_at_def)
  moreover have "take (Suc (length u)) b = u @ '',''" "length b = length (buf jd)"
    using write_at_take [OF b] takes by simp_all
  ultimately show ?thesis
    using h(1,2) assms(2) takes by (auto simp: jd_prep_append_def read_at_def)
qed

text \<open>Adding an item: its text and the bracket replace the closing bracket.\<close>

definition ctext :: "char \<Rightarrow> char \<Rightarrow> string list \<Rightarrow> string" where
  "ctext opn cls items = opn # intercalate '','' items @ [cls]"

lemma intercalate_snoc:
  "intercalate sep (xs @ [x]) = (if xs = [] then x else intercalate sep xs @ sep @ x)"
  by (induction sep xs rule: intercalate.induct) auto

lemma intercalate_last:
  "xs \<noteq> [] \<Longrightarrow> last xs \<noteq> [] \<Longrightarrow> intercalate sep xs \<noteq> [] \<and> last (intercalate sep xs) = last (last xs)"
  by (induction sep xs rule: intercalate.induct) auto

lemma add_item_holds:
  assumes "jd_holds jd (ctext opn cls items)" "opn \<noteq> cls"
    and "list_all (\<lambda>x. x \<noteq> [] \<and> last x \<noteq> opn) items"
    and "add_size = length x + 2"
    and "jd_cap n jd" "261 \<le> n" "2 * length (ctext opn cls (items @ [x])) + n + add_size + 512 < UINT"
  shows "\<exists>jd'. do { jd \<leftarrow> jd_prep_append opn cls (jd_realloc (add_size mod UINT) jd); jd_snprintf (x @ [cls]) jd }
      = Some jd' \<and> jd_holds jd' (ctext opn cls (items @ [x])) \<and> jd_cap n jd'"
proof -
  let ?t = "ctext opn cls items" and ?t' = "ctext opn cls (items @ [x])"
  define u where "u = opn # intercalate '','' items"
  have u: "?t = u @ [cls]" "u \<noteq> []" by (simp_all add: ctext_def u_def)
  have last: "last u = opn \<longleftrightarrow> items = []"
  proof (cases "items = []")
    case False
    then have "last items \<noteq> []" "last (last items) \<noteq> opn" using assms(3) by (auto simp: list_all_iff)
    with False intercalate_last [OF False] show ?thesis by (simp add: u_def)
  qed (simp add: u_def)
  have t': "(if last u = opn then u else u @ '','') @ x @ [cls] = ?t'"
    unfolding last by (simp add: ctext_def u_def intercalate_snoc)
  have len: "length ?t' = length ?t + length x + (if items = [] then 0 else 1)"
    by (simp add: ctext_def intercalate_snoc)
  have small: "length ?t + add_size < UINT" "length (buf jd) + add_size + 512 < UINT" "add_size < UINT"
    using assms(1,5,7) len by (auto simp: jd_cap_def jd_holds_def)
  define jd1 where "jd1 = jd_realloc add_size jd"
  have jd1: "jd_holds jd1 (u @ [cls])" "length ?t + add_size + 1 < length (buf jd1)"
    "length (buf jd1) \<le> max (length (buf jd)) (length ?t + 2 * add_size + 257)"
    using jd_holds_realloc [OF assms(1) small(1,2)] u(1) by (simp_all add: jd1_def)
  obtain jd2 where jd2: "jd_prep_append opn cls jd1 = Some jd2" "length (buf jd2) = length (buf jd1)"
    "take (pos jd2) (buf jd2) = (if last u = opn then u else u @ '','')"
    "length (if last u = opn then u else u @ '','') = pos jd2"
    using jd_prep_append_ok [OF jd1(1) u(2), of opn] by (elim exE conjE) (rule that, assumption+, rule sym)
  have "pos jd2 \<le> length ?t" using jd2(4) u(1) by (auto split: if_splits)
  then have room: "pos jd2 + length (x @ [cls]) < length (buf jd2)"
    using jd1(2) jd2(2) assms(4) by simp
  have cap: "length (buf jd1) \<le> 2 * length ?t' + n"
    using jd1(3) assms(1,4-6) len by (auto simp: jd_cap_def jd_holds_def split: if_splits)
  then have "length (buf jd2) < UINT" using jd2(2) assms(7) by simp
  from jd_snprintf_holds [OF jd2(3,4) room this] obtain jd3 where
    jd3: "jd_snprintf (x @ [cls]) jd2 = Some jd3" "jd_holds jd3 ?t'" "length (buf jd3) = length (buf jd2)"
    using t' by auto
  have "jd_cap n jd3" using cap jd3(2,3) jd2(2) by (simp add: jd_cap_def jd_holds_def)
  with jd2(1) jd3 small(3) show ?thesis by (simp add: jd1_def)
qed

lemma jd_start_holds:
  assumes "pos jd = 0" "0 < length (buf jd)" "length (buf jd) + 600 < UINT"
  shows "\<exists>jd'. jd_start opn cls jd = Some jd' \<and> jd_holds jd' (ctext opn cls [])
    \<and> length (buf jd') \<le> max (length (buf jd)) 261"
proof -
  define jd1 where "jd1 = jd_realloc 2 jd"
  have r: "pos jd1 = 0" "3 < length (buf jd1)" "length (buf jd1) \<le> max (length (buf jd)) 261"
    using jd_realloc_ok [of jd 2] assms by (simp_all add: jd1_def)
  then obtain a b c d rest where "buf jd1 = a # b # c # d # rest"
    by (cases "buf jd1"; cases "tl (buf jd1)"; cases "tl (tl (buf jd1))"; cases "tl (tl (tl (buf jd1)))") auto
  with r show ?thesis
    by (simp add: jd_start_def write_at_def jd_holds_def ctext_def jd1_def [symmetric])
qed

section \<open>Containers\<close>

text \<open>
  The contract of a container, which maps and lists provide: starting gives an empty one, adding an
  item to a buffer that holds some items gives a buffer that holds one more.
\<close>

locale json_container =
  fixes opn cls :: char
    and start :: "json_dump \<Rightarrow> json_dump option"
    and add :: "'i \<Rightarrow> json_dump \<Rightarrow> json_dump option"
    and show_item :: "'i \<Rightarrow> string"
    and ok_item :: "'i \<Rightarrow> bool"
  assumes start_empty: "\<And>jd. pos jd = 0 \<Longrightarrow> 0 < length (buf jd) \<Longrightarrow> length (buf jd) + 600 < UINT \<Longrightarrow>
      \<exists>jd'. start jd = Some jd' \<and> jd_holds jd' (ctext opn cls [])
        \<and> length (buf jd') \<le> max (length (buf jd)) 261"
    and add_text: "\<And>jd items i n. jd_holds jd (ctext opn cls (map show_item items)) \<Longrightarrow>
      list_all ok_item items \<Longrightarrow> ok_item i \<Longrightarrow> jd_cap n jd \<Longrightarrow> 261 \<le> n \<Longrightarrow>
      3 * length (ctext opn cls (map show_item (items @ [i]))) + n + 512 < UINT \<Longrightarrow>
      \<exists>jd'. add i jd = Some jd' \<and> jd_holds jd' (ctext opn cls (map show_item (items @ [i]))) \<and> jd_cap n jd'"
begin

definition add_all :: "'i list \<Rightarrow> json_dump \<Rightarrow> json_dump option" where
  "add_all items jd = fold (\<lambda>i r. Option.bind r (add i)) items (Some jd)"

lemma add_all_simps:
  "add_all [] jd = Some jd"
  "add i jd = Some jd' \<Longrightarrow> add_all (i # items) jd = add_all items jd'"
  by (simp_all add: add_all_def)

lemma ctext_mono: "length (ctext opn cls xs) \<le> length (ctext opn cls (xs @ ys))"
proof (induction ys rule: rev_induct)
  case (snoc y ys)
  have "length (ctext opn cls (xs @ ys)) \<le> length (ctext opn cls ((xs @ ys) @ [y]))"
    unfolding ctext_def intercalate_snoc by simp
  with snoc show ?case by simp
qed simp

lemma add_all_text:
  assumes "jd_holds jd (ctext opn cls (map show_item done))" "list_all ok_item done" "list_all ok_item items"
    and "jd_cap n jd" "261 \<le> n"
    and "3 * length (ctext opn cls (map show_item (done @ items))) + n + 512 < UINT"
  shows "\<exists>jd'. add_all items jd = Some jd' \<and> jd_holds jd' (ctext opn cls (map show_item (done @ items)))"
  using assms
proof (induction items arbitrary: "done" jd)
  case Nil
  then show ?case by (simp add: add_all_simps)
next
  case (Cons i items)
  have "length (ctext opn cls (map show_item (done @ [i]))) \<le> length (ctext opn cls (map show_item (done @ i # items)))"
    using ctext_mono [of "map show_item (done @ [i])" "map show_item items"] by simp
  then obtain jd1 where jd1: "add i jd = Some jd1" "jd_holds jd1 (ctext opn cls (map show_item (done @ [i])))"
    "jd_cap n jd1"
    using add_text [of jd "done" i n] Cons.prems by auto
  then show ?case
    using Cons.IH [of jd1 "done @ [i]"] Cons.prems by (simp add: add_all_simps)
qed

lemma build_text:
  assumes "list_all ok_item items" "sz + 261 + 3 * length (ctext opn cls (map show_item items)) + 600 < UINT"
  shows "\<exists>jd jd'. start (jd_create sz) = Some jd \<and> add_all items jd = Some jd'
    \<and> jd_holds jd' (ctext opn cls (map show_item items))"
proof -
  have len: "0 < length (buf (jd_create sz))" "length (buf (jd_create sz)) \<le> max sz 256" "pos (jd_create sz) = 0"
    by (auto simp: jd_create_def)
  obtain jd where jd: "start (jd_create sz) = Some jd" "jd_holds jd (ctext opn cls [])"
    "length (buf jd) \<le> max (length (buf (jd_create sz))) 261"
  proof -
    have "length (buf (jd_create sz)) + 600 < UINT" using len(2) assms(2) by linarith
    with start_empty [OF len(3,1)] that show thesis by blast
  qed
  have "jd_cap (sz + 261) jd" using jd(3) len by (auto simp: jd_cap_def)
  then show ?thesis
    using add_all_text [of jd "[]" items "sz + 261"] jd(1,2) assms by auto
qed

end

lemma jd_holds_text: "jd_holds jd t \<Longrightarrow> NUL \<notin> set t \<Longrightarrow> c_text (buf jd) = t"
proof -
  assume h: "jd_holds jd t" and nul: "NUL \<notin> set t"
  have "buf jd = take (length t + 1) (buf jd) @ drop (length t + 1) (buf jd)" by simp
  also have "\<dots> = t @ NUL # drop (length t + 1) (buf jd)" using h by (simp add: jd_holds_def)
  finally have "c_text (buf jd) = takeWhile (\<lambda>c. c \<noteq> NUL) (t @ NUL # drop (length t + 1) (buf jd))"
    by (simp add: c_text_def)
  then show ?thesis using nul by (auto simp: takeWhile_append)
qed

section \<open>Values and trees\<close>

datatype jval = VStr "string option" | VInt "32 word" | VInt64 "64 word" | VBool int | VChild json_dump

fun val_text :: "jval \<Rightarrow> string" where
  "val_text (VStr None) = ''null''"
| "val_text (VStr (Some s)) = jsonify_string s"
| "val_text (VInt v) = print_int (sint v)"
| "val_text (VInt64 v) = print_int (sint v)"
| "val_text (VBool b) = (if b \<noteq> 0 then ''true'' else ''false'')"
| "val_text (VChild jd) = c_text (buf jd)"

fun map_add :: "string \<times> jval \<Rightarrow> json_dump \<Rightarrow> json_dump option" where
  "map_add (k, VStr s) = jd_map_add_string k s"
| "map_add (k, VInt v) = jd_map_add_int k v"
| "map_add (k, VInt64 v) = jd_map_add_int64 k v"
| "map_add (k, VBool b) = jd_map_add_bool k b"
| "map_add (k, VChild jd) = jd_map_add_child k jd"

fun list_add :: "jval \<Rightarrow> json_dump \<Rightarrow> json_dump option" where
  "list_add (VStr s) = jd_list_add_string s"
| "list_add (VInt v) = jd_list_add_int v"
| "list_add (VInt64 v) = jd_list_add_int64 v"
| "list_add (VBool b) = jd_list_add_bool b"
| "list_add (VChild jd) = jd_list_add_child jd"

definition show_pair :: "string \<times> jval \<Rightarrow> string" where
  "show_pair kv = CHR 0x22 # fst kv @ [CHR 0x22] @ '':'' @ val_text (snd kv)"

definition val_ok :: "jval \<Rightarrow> bool" where
  "val_ok v \<longleftrightarrow> val_text v \<noteq> [] \<and> last (val_text v) \<notin> {CHR ''{'', CHR ''[''}"

lemma map_add_raw: "map_add kv jd = jd_map_add_raw (fst kv) (val_text (snd kv)) jd"
proof (cases kv)
  case (Pair k v)
  then show ?thesis
  proof (cases v)
    case (VStr s)
    with Pair show ?thesis by (cases s) (simp_all add: jd_map_add_string_def jd_map_add_null_def)
  qed (simp_all add: jd_map_add_int_def jd_map_add_int64_def jd_map_add_bool_def jd_map_add_child_def)
qed

lemma list_add_raw: "list_add v jd = jd_list_add_raw (val_text v) jd"
proof (cases v)
  case (VStr s)
  then show ?thesis by (cases s) (simp_all add: jd_list_add_string_def jd_list_add_null_def)
qed (simp_all add: jd_list_add_int_def jd_list_add_int64_def jd_list_add_bool_def jd_list_add_child_def)

lemma ctext_item_length: "length x + 2 \<le> length (ctext opn cls (xs @ [x]))"
  by (simp add: ctext_def intercalate_snoc)

interpretation jmap: json_container "CHR ''{''" "CHR ''}''" jd_map_start map_add show_pair "\<lambda>kv. val_ok (snd kv)"
proof unfold_locales
  fix jd items i n
  assume a: "jd_holds jd (ctext CHR ''{'' CHR ''}'' (map show_pair items))"
    "list_all (\<lambda>kv. val_ok (snd kv)) items" "val_ok (snd i)" "jd_cap n jd" "261 \<le> n"
    "3 * length (ctext CHR ''{'' CHR ''}'' (map show_pair (items @ [i]))) + n + 512 < UINT"
  have "list_all (\<lambda>x. x \<noteq> [] \<and> last x \<noteq> CHR ''{'') (map show_pair items)"
    using a(2) by (auto simp: list_all_iff show_pair_def val_ok_def)
  from add_item_holds [OF a(1) _ this refl a(4,5), of "show_pair i"] a(6)
    ctext_item_length [of "show_pair i" "CHR ''{''" "CHR ''}''" "map show_pair items"]
  show "\<exists>jd'. map_add i jd = Some jd' \<and> jd_holds jd' (ctext CHR ''{'' CHR ''}'' (map show_pair (items @ [i])))
      \<and> jd_cap n jd'"
    by (simp add: map_add_raw jd_map_add_raw_def show_pair_def add.commute)
qed (simp add: jd_map_start_def jd_start_holds)

interpretation jlist: json_container "CHR ''[''" "CHR '']''" jd_list_start list_add val_text val_ok
proof unfold_locales
  fix jd items i n
  assume a: "jd_holds jd (ctext CHR ''['' CHR '']'' (map val_text items))"
    "list_all val_ok items" "val_ok i" "jd_cap n jd" "261 \<le> n"
    "3 * length (ctext CHR ''['' CHR '']'' (map val_text (items @ [i]))) + n + 512 < UINT"
  have "list_all (\<lambda>x. x \<noteq> [] \<and> last x \<noteq> CHR ''['') (map val_text items)"
    using a(2) by (auto simp: list_all_iff val_ok_def)
  from add_item_holds [OF a(1) _ this refl a(4,5), of "val_text i"] a(6)
    ctext_item_length [of "val_text i" "CHR ''[''" "CHR '']''" "map val_text items"]
  show "\<exists>jd'. list_add i jd = Some jd' \<and> jd_holds jd' (ctext CHR ''['' CHR '']'' (map val_text (items @ [i])))
      \<and> jd_cap n jd'"
    by (simp add: list_add_raw jd_list_add_raw_def)
qed (simp add: jd_list_start_def jd_start_holds)

text \<open>A map built item by item holds exactly its rendering, terminated by NUL: commas between the
  pairs, none at the ends, nothing cut off however often the buffer had to grow.\<close>

theorem json_map_builds:
  assumes "list_all (\<lambda>kv. val_ok (snd kv) \<and> NUL \<notin> set (fst kv) \<and> NUL \<notin> set (val_text (snd kv))) items"
    and "sz + 3 * length (ctext CHR ''{'' CHR ''}'' (map show_pair items)) < 2 ^ 31"
  shows "\<exists>jd. Option.bind (jd_map_start (jd_create sz)) (\<lambda>jd.
        fold (\<lambda>kv r. Option.bind r (map_add kv)) items (Some jd)) = Some jd
    \<and> c_text (buf jd) = ''{'' @ intercalate '','' (map show_pair items) @ ''}''"
proof -
  have "list_all (\<lambda>kv. val_ok (snd kv)) items" using assms(1) by (auto simp: list_all_iff)
  from jmap.build_text [OF this, of sz] assms(2) obtain jd jd' where jd:
    "jd_map_start (jd_create sz) = Some jd" "jmap.add_all items jd = Some jd'"
    "jd_holds jd' (ctext CHR ''{'' CHR ''}'' (map show_pair items))" by auto
  have inter: "NUL \<notin> set (intercalate '','' xs)" if "\<forall>x \<in> set xs. NUL \<notin> set x" for xs
    using that by (induction "'',''" xs rule: intercalate.induct) auto
  have "NUL \<notin> set (ctext CHR ''{'' CHR ''}'' (map show_pair items))"
    using assms(1) inter [of "map show_pair items"] by (auto simp: ctext_def show_pair_def list_all_iff)
  from jd_holds_text [OF jd(3) this] jd(1,2) show ?thesis
    by (simp add: jmap.add_all_def ctext_def)
qed

theorem json_map_builds_witness:
  "\<exists>jd. Option.bind (jd_map_start (jd_create 0)) (\<lambda>jd.
      fold (\<lambda>kv r. Option.bind r (map_add kv)) [(''a'', VBool 1), (''b'', VStr None)] (Some jd)) = Some jd
    \<and> c_text (buf jd) = [CHR ''{'', CHR 0x22, CHR ''a'', CHR 0x22] @ '':true,''
        @ [CHR 0x22, CHR ''b'', CHR 0x22] @ '':null}''"
  using json_map_builds [of "[(''a'', VBool 1), (''b'', VStr None)]" 0]
  by (simp add: val_ok_def show_pair_def ctext_def)

section \<open>Trees\<close>

datatype json = JStr "string option" | JInt "32 word" | JInt64 "64 word" | JBool int
  | JList "json list" | JMap "(string \<times> json) list"

fun render :: "json \<Rightarrow> string" where
  "render (JStr s) = val_text (VStr s)"
| "render (JInt v) = val_text (VInt v)"
| "render (JInt64 v) = val_text (VInt64 v)"
| "render (JBool b) = val_text (VBool b)"
| "render (JList js) = ctext CHR ''['' CHR '']'' (map render js)"
| "render (JMap kvs) = ctext CHR ''{'' CHR ''}''
     (map (\<lambda>kv. CHR 0x22 # fst kv @ [CHR 0x22] @ '':'' @ render (snd kv)) kvs)"

text \<open>The calls a client makes for a tree: children first, then added to their parent.\<close>

fun build :: "json \<Rightarrow> jval option" where
  "build (JStr s) = Some (VStr s)"
| "build (JInt v) = Some (VInt v)"
| "build (JInt64 v) = Some (VInt64 v)"
| "build (JBool b) = Some (VBool b)"
| "build (JList js) = do {
     vs \<leftarrow> those (map build js);
     jd \<leftarrow> jd_list_start (jd_create 0);
     jd \<leftarrow> jlist.add_all vs jd;
     Some (VChild jd)
   }"
| "build (JMap kvs) = do {
     vs \<leftarrow> those (map (\<lambda>kv. build (snd kv)) kvs);
     jd \<leftarrow> jd_map_start (jd_create 0);
     jd \<leftarrow> jmap.add_all (zip (map fst kvs) vs) jd;
     Some (VChild jd)
   }"

fun no_nul :: "json \<Rightarrow> bool" where
  "no_nul (JStr s) = (case s of None \<Rightarrow> True | Some t \<Rightarrow> NUL \<notin> set t)"
| "no_nul (JInt v) = True"
| "no_nul (JInt64 v) = True"
| "no_nul (JBool b) = True"
| "no_nul (JList js) = list_all no_nul js"
| "no_nul (JMap kvs) = list_all (\<lambda>kv. NUL \<notin> set (fst kv) \<and> no_nul (snd kv)) kvs"

lemma print_int_text: "print_int i \<noteq> [] \<and> (\<forall>c \<in> set (print_int i). c_isdigit c \<or> c = CHR ''-'')"
proof -
  have "nat_string n \<noteq> []" "\<forall>c \<in> set (nat_string n). c_isdigit c" for n using nat_string_digits by blast+
  then show ?thesis by (auto simp: print_int_def int_string_def dest!: in_set_takeD)
qed

lemma not_digits: "\<not> c_isdigit CHR ''{''" "\<not> c_isdigit CHR ''[''" "\<not> c_isdigit NUL"
  by (simp_all add: c_isdigit_def)

lemma val_ok_simps:
  "val_ok (VStr s)" "val_ok (VInt v)" "val_ok (VInt64 w)" "val_ok (VBool b)"
proof -
  show "val_ok (VStr s)" by (cases s) (simp_all add: val_ok_def jsonify_string_def)
  show "val_ok (VBool b)" by (simp add: val_ok_def)
  have "print_int i \<noteq> [] \<and> last (print_int i) \<notin> {CHR ''{'', CHR ''[''}" for i
  proof -
    have "last (print_int i) \<in> set (print_int i)" using print_int_text by (intro last_in_set) blast
    then have "c_isdigit (last (print_int i)) \<or> last (print_int i) = CHR ''-''"
      using print_int_text by blast
    then show ?thesis using print_int_text [of i, THEN conjunct1] not_digits by auto
  qed
  then show "val_ok (VInt v)" "val_ok (VInt64 w)" by (simp_all add: val_ok_def)
qed

lemma render_ok: "render j \<noteq> [] \<and> last (render j) \<notin> {CHR ''{'', CHR ''[''}"
  using val_ok_simps by (cases j) (auto simp: val_ok_def ctext_def)

lemma jsonify_nul: "NUL \<notin> set s \<Longrightarrow> NUL \<notin> set (jsonify_string s)"
  by (auto simp: jsonify_string_def json_escape_def split: if_splits)

lemma ctext_nul: "\<forall>x \<in> set xs. NUL \<notin> set x \<Longrightarrow> opn \<noteq> NUL \<Longrightarrow> cls \<noteq> NUL \<Longrightarrow> NUL \<notin> set (ctext opn cls xs)"
proof -
  assume "\<forall>x \<in> set xs. NUL \<notin> set x" "opn \<noteq> NUL" "cls \<noteq> NUL"
  moreover from this(1) have "NUL \<notin> set (intercalate '','' xs)"
    by (induction "'',''" xs rule: intercalate.induct) auto
  ultimately show ?thesis by (auto simp: ctext_def)
qed

lemma render_nul: "no_nul j \<Longrightarrow> NUL \<notin> set (render j)"
proof (induction j rule: render.induct)
  case (1 s)
  then show ?case by (cases s) (auto simp: jsonify_nul)
next
  case (5 js)
  then show ?case using ctext_nul [of "map render js"] by (auto simp: list_all_iff)
next
  case (6 kvs)
  then have "\<forall>x \<in> set (map (\<lambda>kv. CHR 0x22 # fst kv @ [CHR 0x22] @ '':'' @ render (snd kv)) kvs). NUL \<notin> set x"
    by (auto simp: list_all_iff)
  then show ?case using ctext_nul [of "map (\<lambda>kv. CHR 0x22 # fst kv @ [CHR 0x22] @ '':'' @ render (snd kv)) kvs"]
    by simp
qed (use print_int_text not_digits in \<open>auto\<close>)

lemma ctext_member_length: "x \<in> set xs \<Longrightarrow> length x \<le> length (ctext opn cls xs)"
  by (induction "'',''" xs rule: intercalate.induct) (auto simp: ctext_def)

lemma those_map:
  "(\<And>x. x \<in> set xs \<Longrightarrow> \<exists>y. f x = Some y \<and> P x y) \<Longrightarrow> \<exists>ys. those (map f xs) = Some ys \<and> list_all2 P xs ys"
  by (induction xs) (force simp: list_all2_Cons1)+

lemma json_list_builds:
  assumes "list_all val_ok vs" "\<forall>v \<in> set vs. NUL \<notin> set (val_text v)"
    and "3 * length (ctext CHR ''['' CHR '']'' (map val_text vs)) < 2 ^ 31"
  shows "\<exists>jd jd'. jd_list_start (jd_create 0) = Some jd \<and> jlist.add_all vs jd = Some jd'
    \<and> c_text (buf jd') = ctext CHR ''['' CHR '']'' (map val_text vs)"
proof -
  have "NUL \<notin> set (ctext CHR ''['' CHR '']'' (map val_text vs))"
    using ctext_nul [of "map val_text vs"] assms(2) by simp
  with jlist.build_text [OF assms(1), of 0] assms(3) show ?thesis
    using jd_holds_text by fastforce
qed

lemma build_val:
  assumes "no_nul j" and "3 * length (render j) < 2 ^ 31"
  shows "\<exists>v. build j = Some v \<and> val_text v = render j"
  using assms
proof (induction j rule: render.induct)
  case (5 js)
  have "\<exists>v. build j = Some v \<and> val_text v = render j" if "j \<in> set js" for j
    using "5.IH" [OF that] "5.prems" that ctext_member_length [of "render j" "map render js" "CHR ''[''" "CHR '']''"]
    by (auto simp: list_all_iff)
  then obtain vs where vs: "those (map build js) = Some vs" "list_all2 (\<lambda>j v. val_text v = render j) js vs"
    using those_map [of js build "\<lambda>j v. val_text v = render j"] by blast
  then have texts: "map val_text vs = map render js"
    by (auto simp: list_all2_conv_all_nth intro: nth_equalityI)
  have "list_all val_ok vs" "\<forall>v \<in> set vs. NUL \<notin> set (val_text v)"
  proof -
    have "val_text ` set vs = render ` set js" using texts by (metis set_map)
    then have "\<exists>j \<in> set js. val_text v = render j" if "v \<in> set vs" for v using that by auto
    moreover have "no_nul j" if "j \<in> set js" for j using "5.prems"(1) that by (simp add: list_all_iff)
    ultimately show "list_all val_ok vs" "\<forall>v \<in> set vs. NUL \<notin> set (val_text v)"
      using render_ok render_nul unfolding list_all_iff val_ok_def by metis+
  qed
  from json_list_builds [OF this] "5.prems"(2) vs(1) texts show ?case by auto
next
  case (6 kvs)
  let ?show = "\<lambda>kv. CHR 0x22 # fst kv @ [CHR 0x22] @ '':'' @ render (snd kv)"
  have "\<exists>v. build (snd kv) = Some v \<and> val_text v = render (snd kv)" if "kv \<in> set kvs" for kv
    using "6.IH" [OF that] "6.prems" that ctext_member_length [of "?show kv" "map ?show kvs" "CHR ''{''" "CHR ''}''"]
    by (auto simp: list_all_iff)
  then obtain vs where vs: "those (map (\<lambda>kv. build (snd kv)) kvs) = Some vs"
    "list_all2 (\<lambda>kv v. val_text v = render (snd kv)) kvs vs"
    using those_map [of kvs "\<lambda>kv. build (snd kv)" "\<lambda>kv v. val_text v = render (snd kv)"] by blast
  let ?items = "zip (map fst kvs) vs"
  have len: "length vs = length kvs" using vs(2) by (simp add: list_all2_lengthD)
  have texts: "map show_pair ?items = map ?show kvs"
    using vs(2) len by (intro nth_equalityI) (auto simp: list_all2_conv_all_nth show_pair_def)
  have "\<exists>kv' \<in> set kvs. fst kv = fst kv' \<and> val_text (snd kv) = render (snd kv')" if "kv \<in> set ?items" for kv
    using vs(2) that len by (auto simp: list_all2_conv_all_nth in_set_zip) (metis nth_mem)
  then have "list_all (\<lambda>kv. val_ok (snd kv) \<and> NUL \<notin> set (fst kv) \<and> NUL \<notin> set (val_text (snd kv))) ?items"
    using render_ok render_nul "6.prems"(1) by (force simp: val_ok_def list_all_iff)
  then have ok: "list_all (\<lambda>kv. val_ok (snd kv)) ?items" "\<forall>x \<in> set (map show_pair ?items). NUL \<notin> set x"
    by (auto simp: list_all_iff show_pair_def)
  have "3 * length (ctext CHR ''{'' CHR ''}'' (map show_pair ?items)) < 2 ^ 31"
    using "6.prems"(2) texts by simp
  then obtain jd jd' where "jd_map_start (jd_create 0) = Some jd" "jmap.add_all ?items jd = Some jd'"
    "jd_holds jd' (ctext CHR ''{'' CHR ''}'' (map show_pair ?items))"
    using jmap.build_text [OF ok(1), of 0] by auto
  with jd_holds_text ctext_nul [OF ok(2)] vs(1) texts show ?case by auto
qed simp_all

text \<open>C8: Building a tree of values through the interface, children before parents, yields the tree's
  rendering for every tree whose text stays below 700 million characters.\<close>

theorem json_tree_builds:
  assumes "no_nul (JMap kvs)" and "3 * length (render (JMap kvs)) < 2 ^ 31"
  shows "\<exists>jd. build (JMap kvs) = Some (VChild jd) \<and> c_text (buf jd) = render (JMap kvs)"
proof -
  obtain v where "build (JMap kvs) = Some v" "val_text v = render (JMap kvs)"
    using build_val [OF assms] by blast
  moreover from this(1) obtain jd where "v = VChild jd" by (auto split: bind_splits)
  ultimately show ?thesis by auto
qed

theorem json_tree_builds_witness:
  "\<exists>jd. build (JMap [(''l'', JList [JBool 1, JStr None])]) = Some (VChild jd)
    \<and> c_text (buf jd) = [CHR ''{'', CHR 0x22, CHR ''l'', CHR 0x22] @ '':[true,null]}''"
  using json_tree_builds [of "[(''l'', JList [JBool 1, JStr None])]"] by (simp add: ctext_def)

section \<open>String literals\<close>

text \<open>A reader of JSON string literals with the short escapes of RFC 8259, which forbids raw control
  characters.\<close>

fun json_unescape :: "string \<Rightarrow> string option" where
  "json_unescape [] = None"
| "json_unescape (c # cs) =
     (if c = CHR 0x22 then (if cs = [] then Some [] else None)
      else if (of_char c :: nat) < 32 then None
      else if c = CHR 0x5C
      then (case cs of
              [] \<Rightarrow> None
            | e # rest \<Rightarrow>
                (case map_of [(CHR 0x22, CHR 0x22), (CHR 0x5C, CHR 0x5C), (CHR ''/'', CHR ''/''),
                     (CHR ''b'', CHR 0x08), (CHR ''f'', CHR 0x0C), (CHR ''n'', CHR 0x0A),
                     (CHR ''r'', CHR 0x0D), (CHR ''t'', CHR 0x09)] e of
                   None \<Rightarrow> None
                 | Some x \<Rightarrow> map_option ((#) x) (json_unescape rest)))
      else map_option ((#) c) (json_unescape cs))"

definition json_read_string :: "string \<Rightarrow> string option" where
  "json_read_string s = (case s of [] \<Rightarrow> None | c # cs \<Rightarrow> if c = CHR 0x22 then json_unescape cs else None)"

definition printable :: "char \<Rightarrow> bool" where
  "printable c \<longleftrightarrow> 32 \<le> (of_char c :: nat) \<or> c \<in> {CHR 0x08, CHR 0x0C, CHR 0x0A, CHR 0x0D, CHR 0x09}"

lemma unescape_char:
  "json_unescape (json_escape c @ rest) = (if printable c then map_option ((#) c) (json_unescape rest) else None)"
  by (auto simp: json_escape_def printable_def)

text \<open>A literal written by \<^verbatim>\<open>jsonify_string\<close> reads back as the string it was made from; it is a
  legal literal only when the string has no control character besides backspace, form feed,
  newline, carriage return and tab: the others are copied unescaped.\<close>

theorem jsonify_string_reads_back:
  "json_read_string (jsonify_string s) = (if list_all printable s then Some s else None)"
proof -
  have "json_unescape (concat (map json_escape s) @ [CHR 0x22]) = (if list_all printable s then Some s else None)"
  proof (induction s)
    case (Cons c s)
    then show ?case using unescape_char [of c "concat (map json_escape s) @ [CHR 0x22]"] by simp
  qed simp
  then show ?thesis by (simp add: json_read_string_def jsonify_string_def)
qed

text \<open>The scratch array of \<^verbatim>\<open>jsonify_string\<close> is large enough.\<close>

lemma jsonify_string_fits: "length (jsonify_string s) + 1 \<le> 2 * length s + 3"
proof -
  have "length (concat (map json_escape s)) \<le> 2 * length s"
    by (induction s) (auto simp: json_escape_def)
  then show ?thesis by (simp add: jsonify_string_def)
qed

end
