(* ===== verification/Tdnf_Lock.thy ===== *)
theory Tdnf_Lock
  imports Tdnf_Strings
begin

text \<open>
  The instance lock (\<^verbatim>\<open>common/lock.c\<close>), by which \<^verbatim>\<open>client/api.c\<close> keeps two tdnf processes apart: a file
  with a POSIX record lock and a reference count. The answers of \<^verbatim>\<open>open\<close> and \<^verbatim>\<open>fcntl\<close> are arguments; the
  requests that reach \<^verbatim>\<open>fcntl\<close> are results. A second part runs the operations of several processes
  against one file system as a step relation.
\<close>

section \<open>The operations of one process\<close>

record tdnflock =
  lk_fd :: int
  lk_openmode :: nat
  lk_path :: string
  lk_descr :: string
  lk_fdrefs :: int

abbreviation (input) TDNFLOCK_READ :: nat where "TDNFLOCK_READ \<equiv> 1"
abbreviation (input) TDNFLOCK_WRITE :: nat where "TDNFLOCK_WRITE \<equiv> 2"
abbreviation (input) TDNFLOCK_WAIT :: nat where "TDNFLOCK_WAIT \<equiv> 4"

definition mode_bit :: "nat \<Rightarrow> nat \<Rightarrow> bool" where
  "mode_bit b mode \<longleftrightarrow> odd (mode div b)"

text \<open>\<open>mode_bit b\<close> is the test of the flag \<open>b\<close>; the modes have the three flags above and no others.\<close>

text \<open>What a call returns: NULL, a lock, or a pointer to memory that was freed on the error path.\<close>

datatype lock_ptr = NullLock | Dangling | Lock tdnflock

datatype flock_cmd = LockCmd bool bool | UnlockCmd

text \<open>\<open>open_rw\<close>, \<open>open_ro\<close>: the results of the two \<^verbatim>\<open>open\<close> calls; \<open>err\<close>: \<^verbatim>\<open>errno\<close> after the first.\<close>

definition tdnflock_new :: "int \<Rightarrow> nat \<Rightarrow> int \<Rightarrow> string option \<Rightarrow> string option \<Rightarrow> lock_ptr" where
  "tdnflock_new open_rw err open_ro lock_path descr =
     (if IsNullOrEmptyString lock_path \<or> IsNullOrEmptyString descr then NullLock
      else
        let (fd, openmode) = (if open_rw < 0
               then (if err = EACCES then open_ro else open_rw, TDNFLOCK_READ)
               else (open_rw, TDNFLOCK_WRITE + TDNFLOCK_READ))
        in if fd < 0 then NullLock
           else case (TDNFAllocateString lock_path, TDNFAllocateString descr) of
                  (Inr p, Inr d) \<Rightarrow> Lock \<lparr>lk_fd = fd, lk_openmode = openmode, lk_path = p,
                                           lk_descr = d, lk_fdrefs = 1\<rparr>
                | _ \<Rightarrow> Dangling)"

text \<open>\<^verbatim>\<open>tdnflock_acquire\<close> with the answer of \<^verbatim>\<open>fcntl\<close>, should it be asked.\<close>

definition tdnflock_acquire :: "bool \<Rightarrow> int \<Rightarrow> tdnflock \<Rightarrow> int \<times> tdnflock \<times> flock_cmd list" where
  "tdnflock_acquire granted mode lock =
     (if mode < 0 then (0, lock, [])
      else if \<not> (mode_bit TDNFLOCK_READ (nat mode) \<and> mode_bit TDNFLOCK_READ (lk_openmode lock)
               \<or> mode_bit TDNFLOCK_WRITE (nat mode) \<and> mode_bit TDNFLOCK_WRITE (lk_openmode lock)
               \<or> mode_bit TDNFLOCK_WAIT (nat mode) \<and> mode_bit TDNFLOCK_WAIT (lk_openmode lock))
      then (0, lock, [])
      else if lk_fdrefs lock > 1 then (1, lock\<lparr>lk_fdrefs := lk_fdrefs lock + 1\<rparr>, [])
      else let cmd = LockCmd (\<not> mode_bit TDNFLOCK_READ (nat mode)) (mode_bit TDNFLOCK_WAIT (nat mode))
           in if granted then (1, lock\<lparr>lk_fdrefs := lk_fdrefs lock + 1\<rparr>, [cmd])
              else (0, lock\<lparr>lk_fdrefs := lk_fdrefs lock + 0\<rparr>, [cmd]))"

definition tdnflock_release :: "tdnflock \<Rightarrow> tdnflock \<times> flock_cmd list" where
  "tdnflock_release lock =
     (if lk_fdrefs lock \<le> 1 then (lock, [])
      else let lock = lock\<lparr>lk_fdrefs := lk_fdrefs lock - 1\<rparr>
           in (lock, if lk_fdrefs lock = 1 then [UnlockCmd] else []))"

text \<open>\<^verbatim>\<open>tdnflock_free\<close>: \<open>None\<close> when the last reference went and the file was closed.\<close>

definition tdnflock_free :: "tdnflock \<Rightarrow> tdnflock option" where
  "tdnflock_free lock =
     (let lock = lock\<lparr>lk_fdrefs := lk_fdrefs lock - 1\<rparr>
      in if lk_fdrefs lock = 0 then None else Some lock)"

definition tdnflockNew :: "int \<Rightarrow> nat \<Rightarrow> int \<Rightarrow> string option \<Rightarrow> string option \<Rightarrow> lock_ptr" where
  "tdnflockNew open_rw err open_ro lock_path descr =
     (if IsNullOrEmptyString lock_path \<or> IsNullOrEmptyString descr then NullLock
      else tdnflock_new open_rw err open_ro lock_path descr)"

text \<open>\<^verbatim>\<open>tdnflockAcquire\<close>: a first attempt, then one that waits.\<close>

definition tdnflockAcquire :: "bool \<Rightarrow> bool \<Rightarrow> tdnflock \<Rightarrow> int \<times> tdnflock \<times> flock_cmd list" where
  "tdnflockAcquire granted granted_wait lock =
     (case tdnflock_acquire granted (int TDNFLOCK_WRITE) lock of (locked, lock, cmds) \<Rightarrow>
        if locked = 0 \<and> mode_bit TDNFLOCK_WRITE (lk_openmode lock)
        then case tdnflock_acquire granted_wait (int TDNFLOCK_WRITE + int TDNFLOCK_WAIT) lock of
               (locked, lock, cmds') \<Rightarrow> (locked, lock, cmds @ cmds')
        else (locked, lock, cmds))"

definition tdnflockRelease :: "tdnflock \<Rightarrow> tdnflock \<times> flock_cmd list" where
  "tdnflockRelease lock = tdnflock_release lock"

text \<open>\<^verbatim>\<open>tdnflockFree\<close> of a lock or of NULL: what is left of the lock, the requests, and whether the lock
  file is removed, which it always is.\<close>

definition tdnflockFree :: "tdnflock option \<Rightarrow> tdnflock option \<times> flock_cmd list \<times> bool" where
  "tdnflockFree lock = (case lock of
     None \<Rightarrow> (None, [], True)
   | Some l \<Rightarrow> (case tdnflock_release l of (l, cmds) \<Rightarrow> (tdnflock_free l, cmds, True)))"

text \<open>\<^verbatim>\<open>tdnflockNewAcquire\<close>: the lock, and whether the lock file was removed on the way. The code goes on
  with a dangling pointer as if it were a lock.\<close>

definition tdnflockNewAcquire ::
    "int \<Rightarrow> nat \<Rightarrow> int \<Rightarrow> bool \<Rightarrow> bool \<Rightarrow> string option \<Rightarrow> string option \<Rightarrow> lock_ptr \<times> bool" where
  "tdnflockNewAcquire open_rw err open_ro granted granted_wait lock_path descr =
     (if IsNullOrEmptyString lock_path \<or> IsNullOrEmptyString descr then (NullLock, False)
      else case tdnflockNew open_rw err open_ro lock_path descr of
             NullLock \<Rightarrow> (NullLock, True)
           | Dangling \<Rightarrow> (Dangling, False)
           | Lock l \<Rightarrow>
               (case tdnflockAcquire granted granted_wait l of (locked, l, _) \<Rightarrow>
                  if locked = 0 then (NullLock, snd (snd (tdnflockFree (Some l)))) else (Lock l, False)))"

section \<open>The reference count\<close>

text \<open>The requests that \<^verbatim>\<open>fcntl\<close> granted decide what the operating system holds for the process.\<close>

datatype lock_call = CallAcquire bool bool | CallRelease

definition os_after :: "bool \<Rightarrow> int \<Rightarrow> flock_cmd list \<Rightarrow> bool" where
  "os_after held res cmds = (if UnlockCmd \<in> set cmds then False
     else if cmds \<noteq> [] \<and> res = 1 then True else held)"

fun lock_call_step :: "lock_call \<Rightarrow> tdnflock \<times> bool \<Rightarrow> tdnflock \<times> bool" where
  "lock_call_step (CallAcquire g w) (l, held) =
     (case tdnflockAcquire g w l of (res, l', cmds) \<Rightarrow> (l', os_after held res cmds))"
| "lock_call_step CallRelease (l, held) =
     (case tdnflockRelease l of (l', cmds) \<Rightarrow> (l', os_after held 0 cmds))"

inductive lock_reach :: "tdnflock \<Rightarrow> tdnflock \<times> bool \<Rightarrow> bool" for l0 where
  lock_reach_init: "lock_reach l0 (l0, False)"
| lock_reach_step: "lock_reach l0 s \<Longrightarrow> lock_reach l0 (lock_call_step c s)"

lemma mode_bits [simp]:
  "\<not> mode_bit 1 2" "mode_bit 2 2" "\<not> mode_bit 1 6" "mode_bit 2 6" "mode_bit 4 6" "\<not> mode_bit 4 2"
  by (simp_all add: mode_bit_def)

lemma mode_bits_Suc [simp]: "\<not> mode_bit (Suc 0) 2" "\<not> mode_bit (Suc 0) 6"
  by (simp_all add: mode_bit_def)

lemma acquire_cases:
  assumes "tdnflockAcquire g w l = (res, l', cmds)" "lk_fdrefs l \<ge> 1"
  shows "res = 1 \<and> l' = l\<lparr>lk_fdrefs := lk_fdrefs l + 1\<rparr> \<and> UnlockCmd \<notin> set cmds
        \<and> (cmds = [] \<longleftrightarrow> lk_fdrefs l > 1) \<and> mode_bit TDNFLOCK_WRITE (lk_openmode l)
      \<or> res = 0 \<and> l' = l \<and> UnlockCmd \<notin> set cmds \<and> (mode_bit TDNFLOCK_WRITE (lk_openmode l) \<longrightarrow> lk_fdrefs l = 1)"
  using assms
  by (auto simp: tdnflockAcquire_def tdnflock_acquire_def Let_def split: if_splits)

text \<open>Through any sequence of acquisitions and releases the count stays positive, and the process
  holds the record lock exactly while the count is above one.\<close>

theorem lock_count_tracks_os:
  assumes "lock_reach l0 (l, held)" and "lk_fdrefs l0 = 1"
  shows "lk_fdrefs l \<ge> 1 \<and> (held \<longleftrightarrow> lk_fdrefs l > 1)"
  using assms
proof (induction "(l, held)" arbitrary: l held rule: lock_reach.induct)
  case lock_reach_init
  then show ?case by simp
next
  case (lock_reach_step s c)
  obtain l1 h1 where s: "s = (l1, h1)" by (cases s)
  have inv: "lk_fdrefs l1 \<ge> 1" "h1 \<longleftrightarrow> lk_fdrefs l1 > 1"
    using lock_reach_step.hyps(2) [OF s lock_reach_step.prems] by auto
  show ?case
  proof (cases c)
    case (CallAcquire g w)
    obtain res l' cmds where a: "tdnflockAcquire g w l1 = (res, l', cmds)" by (cases "tdnflockAcquire g w l1")
    from acquire_cases [OF a inv(1)] inv lock_reach_step.hyps(3) show ?thesis
      by (auto simp: CallAcquire s a os_after_def)
  next
    case CallRelease
    with inv lock_reach_step.hyps(3) show ?thesis
      by (auto simp: s tdnflockRelease_def tdnflock_release_def os_after_def Let_def split: if_splits)
  qed
qed

definition sample_lock :: tdnflock where
  "sample_lock = \<lparr>lk_fd = 3, lk_openmode = 3, lk_path = ''/run/l'', lk_descr = ''d'', lk_fdrefs = 1\<rparr>"

theorem lock_count_tracks_os_witness:
  "snd (lock_call_step (CallAcquire True True) (sample_lock, False)) = True
    \<and> lk_fdrefs (fst (lock_call_step (CallAcquire True True) (sample_lock, False))) > 1"
proof -
  let ?s = "lock_call_step (CallAcquire True True) (sample_lock, False)"
  have "lock_reach sample_lock (fst ?s, snd ?s)"
    using lock_reach_step [OF lock_reach_init, of sample_lock "CallAcquire True True"]
    by (simp only: prod.collapse)
  from lock_count_tracks_os [OF this] have "snd ?s \<longleftrightarrow> lk_fdrefs (fst ?s) > 1"
    by (simp add: sample_lock_def)
  moreover have "lk_fdrefs (fst ?s) = 2"
    by (simp add: sample_lock_def tdnflockAcquire_def tdnflock_acquire_def Let_def mode_bit_def)
  ultimately show ?thesis by simp
qed

section \<open>Several processes\<close>

text \<open>
  The file system maps the path of the lock file to a file (a number) or to nothing; a record lock
  belongs to a file and has one owner. A descriptor is the number of the file it opens. A process
  opens the file (creating it), acquires when nobody else owns the lock of its file, and ends in two
  steps, as \<^verbatim>\<open>tdnflockFree\<close> does: release and close, then remove the path.
\<close>

datatype proc = Idle | Active tdnflock | Closing

record lock_sys =
  ls_path :: "nat option"
  ls_next :: nat
  ls_owner :: "nat \<Rightarrow> nat option"
  ls_procs :: "nat \<Rightarrow> proc"

definition free_for :: "lock_sys \<Rightarrow> nat \<Rightarrow> tdnflock \<Rightarrow> bool" where
  "free_for s p l \<longleftrightarrow> ls_owner s (nat (lk_fd l)) \<in> {None, Some p}"

definition init_sys :: lock_sys where
  "init_sys = \<lparr>ls_path = None, ls_next = 1, ls_owner = (\<lambda>_. None), ls_procs = (\<lambda>_. Idle)\<rparr>"

definition lock_file :: string where
  "lock_file = ''/var/run/.tdnf-instance-lockfile''"

inductive lock_step :: "lock_sys \<Rightarrow> lock_sys \<Rightarrow> bool" where
  step_open_old:
    "ls_procs s p = Idle \<Longrightarrow> ls_path s = Some f \<Longrightarrow>
     tdnflockNew (int f) 0 0 (Some lock_file) (Some ''tdnf_instance'') = Lock l \<Longrightarrow>
     lock_step s (s\<lparr>ls_procs := (ls_procs s)(p := Active l)\<rparr>)"
| step_open_new:
    "ls_procs s p = Idle \<Longrightarrow> ls_path s = None \<Longrightarrow>
     tdnflockNew (int (ls_next s)) 0 0 (Some lock_file) (Some ''tdnf_instance'') = Lock l \<Longrightarrow>
     lock_step s (s\<lparr>ls_path := Some (ls_next s), ls_next := ls_next s + 1,
       ls_procs := (ls_procs s)(p := Active l)\<rparr>)"
| step_acquire:
    "ls_procs s p = Active l \<Longrightarrow> free_for s p l \<Longrightarrow>
     tdnflockAcquire True True l = (1, l', cmds) \<Longrightarrow>
     lock_step s (s\<lparr>ls_owner := (ls_owner s)(nat (lk_fd l) := Some p),
       ls_procs := (ls_procs s)(p := Active l')\<rparr>)"
| step_close:
    "ls_procs s p = Active l \<Longrightarrow> tdnflockFree (Some l) = (None, cmds, True) \<Longrightarrow>
     lock_step s (s\<lparr>ls_owner := (\<lambda>f. if ls_owner s f = Some p then None else ls_owner s f),
       ls_procs := (ls_procs s)(p := Closing)\<rparr>)"
| step_unlink:
    "ls_procs s p = Closing \<Longrightarrow>
     lock_step s (s\<lparr>ls_path := None, ls_procs := (ls_procs s)(p := Idle)\<rparr>)"

inductive sys_reach :: "lock_sys \<Rightarrow> bool" where
  sys_init: "sys_reach init_sys"
| sys_step: "sys_reach s \<Longrightarrow> lock_step s s' \<Longrightarrow> sys_reach s'"

inductive_cases lock_stepE: "lock_step s s'"

definition holds_lock :: "lock_sys \<Rightarrow> nat \<Rightarrow> bool" where
  "holds_lock s p \<longleftrightarrow> (\<exists>l. ls_procs s p = Active l \<and> lk_fdrefs l > 1)"

text \<open>A holder owns the record lock of the file it has open.\<close>

definition owner_inv :: "lock_sys \<Rightarrow> bool" where
  "owner_inv s \<longleftrightarrow> (\<forall>p l. ls_procs s p = Active l \<longrightarrow>
     lk_fdrefs l \<ge> 1 \<and> (lk_fdrefs l > 1 \<longrightarrow> ls_owner s (nat (lk_fd l)) = Some p))"

lemma new_lock_refs: "tdnflockNew rw e ro p d = Lock l \<Longrightarrow> lk_fdrefs l = 1"
  by (auto simp: tdnflockNew_def tdnflock_new_def Let_def split: if_splits sum.splits prod.splits)

lemma owner_inv_step:
  assumes "lock_step s s'" and "owner_inv s"
  shows "owner_inv s'"
  using assms(1)
proof (cases rule: lock_step.cases)
  case (step_acquire p l l' cmds)
  have "lk_fdrefs l \<ge> 1" using assms(2) step_acquire by (simp add: owner_inv_def)
  from acquire_cases [OF step_acquire(4) this] have "lk_fd l' = lk_fd l" "lk_fdrefs l' > 1"
    using \<open>lk_fdrefs l \<ge> 1\<close> by auto
  moreover have "nat (lk_fd k) \<noteq> nat (lk_fd l)"
    if "ls_procs s q = Active k" "lk_fdrefs k > 1" "q \<noteq> p" for q k
  proof -
    have "ls_owner s (nat (lk_fd k)) = Some q" using that(1,2) assms(2) by (simp add: owner_inv_def)
    with step_acquire(3) that(3) show ?thesis by (auto simp: free_for_def)
  qed
  ultimately show ?thesis using step_acquire(1,2) assms(2) by (auto simp: owner_inv_def)
qed (use assms(2) new_lock_refs in \<open>fastforce simp: owner_inv_def\<close>)+


definition new_lock :: "nat \<Rightarrow> int \<Rightarrow> tdnflock" where
  "new_lock f refs = \<lparr>lk_fd = int f, lk_openmode = 3, lk_path = lock_file,
     lk_descr = ''tdnf_instance'', lk_fdrefs = refs\<rparr>"

lemma new_lock_ops:
  "tdnflockNew (int f) 0 0 (Some lock_file) (Some ''tdnf_instance'') = Lock (new_lock f 1)"
  "tdnflockAcquire True True (new_lock f 1) = (1, new_lock f 2, [LockCmd True False])"
  "tdnflockFree (Some (new_lock f 2)) = (None, [UnlockCmd], True)"
  by (simp_all add: tdnflockNew_def tdnflock_new_def TDNFAllocateString_def lock_file_def new_lock_def
      TDNF_DEFAULT_MAX_STRING_LEN_def tdnflockAcquire_def tdnflock_acquire_def Let_def mode_bit_def
      tdnflockFree_def tdnflock_release_def tdnflock_free_def)

text \<open>
  The schedule of the next theorem: process 0 opens the file and acquires, process 1 opens the same
  file and waits; 0 releases, 1 acquires, 0 removes the path, 2 opens a new file and acquires.
\<close>

definition sys :: "nat option \<Rightarrow> nat \<Rightarrow> nat option \<Rightarrow> nat option \<Rightarrow> proc \<Rightarrow> proc \<Rightarrow> proc \<Rightarrow> lock_sys" where
  "sys path nxt o1 o2 p0 p1 p2 = \<lparr>ls_path = path, ls_next = nxt,
     ls_owner = (\<lambda>_. None)(1 := o1, 2 := o2), ls_procs = (\<lambda>_. Idle)(0 := p0, 1 := p1, 2 := p2)\<rparr>"

lemma new_lock_fd [simp]: "lk_fd (new_lock f r) = int f"
  by (simp add: new_lock_def)

lemma lock_step_to: "lock_step s t \<Longrightarrow> t = t' \<Longrightarrow> lock_step s t'"
  by simp

lemma sys_steps:
  "lock_step (sys None 1 None None Idle Idle Idle) (sys (Some 1) 2 None None (Active (new_lock 1 1)) Idle Idle)"
  "lock_step (sys (Some 1) 2 None None (Active (new_lock 1 1)) Idle Idle)
     (sys (Some 1) 2 (Some 0) None (Active (new_lock 1 2)) Idle Idle)"
  "lock_step (sys (Some 1) 2 (Some 0) None (Active (new_lock 1 2)) Idle Idle)
     (sys (Some 1) 2 (Some 0) None (Active (new_lock 1 2)) (Active (new_lock 1 1)) Idle)"
  "lock_step (sys (Some 1) 2 (Some 0) None (Active (new_lock 1 2)) (Active (new_lock 1 1)) Idle)
     (sys (Some 1) 2 None None Closing (Active (new_lock 1 1)) Idle)"
  "lock_step (sys (Some 1) 2 None None Closing (Active (new_lock 1 1)) Idle)
     (sys (Some 1) 2 (Some 1) None Closing (Active (new_lock 1 2)) Idle)"
  "lock_step (sys (Some 1) 2 (Some 1) None Closing (Active (new_lock 1 2)) Idle)
     (sys None 2 (Some 1) None Idle (Active (new_lock 1 2)) Idle)"
  "lock_step (sys None 2 (Some 1) None Idle (Active (new_lock 1 2)) Idle)
     (sys (Some 2) 3 (Some 1) None Idle (Active (new_lock 1 2)) (Active (new_lock 2 1)))"
  "lock_step (sys (Some 2) 3 (Some 1) None Idle (Active (new_lock 1 2)) (Active (new_lock 2 1)))
     (sys (Some 2) 3 (Some 1) (Some 2) Idle (Active (new_lock 1 2)) (Active (new_lock 2 2)))"
proof -
  note simps = sys_def free_for_def fun_eq_iff new_lock_ops
  show "lock_step (sys None 1 None None Idle Idle Idle) (sys (Some 1) 2 None None (Active (new_lock 1 1)) Idle Idle)"
    by (rule lock_step_to [OF step_open_new [where p = 0 and l = "new_lock 1 1"]]) (simp_all add: simps new_lock_ops(1) [of 1, simplified])
  show "lock_step (sys (Some 1) 2 None None (Active (new_lock 1 1)) Idle Idle)
     (sys (Some 1) 2 (Some 0) None (Active (new_lock 1 2)) Idle Idle)"
    by (rule lock_step_to [OF step_acquire [where p = 0 and l = "new_lock 1 1" and l' = "new_lock 1 2"]])
      (simp_all add: simps)
  show "lock_step (sys (Some 1) 2 (Some 0) None (Active (new_lock 1 2)) Idle Idle)
     (sys (Some 1) 2 (Some 0) None (Active (new_lock 1 2)) (Active (new_lock 1 1)) Idle)"
    by (rule lock_step_to [OF step_open_old [where p = 1 and f = 1 and l = "new_lock 1 1"]]) (simp_all add: simps new_lock_ops(1) [of 1, simplified])
  show "lock_step (sys (Some 1) 2 (Some 0) None (Active (new_lock 1 2)) (Active (new_lock 1 1)) Idle)
     (sys (Some 1) 2 None None Closing (Active (new_lock 1 1)) Idle)"
    by (rule lock_step_to [OF step_close [where p = 0 and l = "new_lock 1 2"]]) (simp_all add: simps)
  show "lock_step (sys (Some 1) 2 None None Closing (Active (new_lock 1 1)) Idle)
     (sys (Some 1) 2 (Some 1) None Closing (Active (new_lock 1 2)) Idle)"
    by (rule lock_step_to [OF step_acquire [where p = 1 and l = "new_lock 1 1" and l' = "new_lock 1 2"]])
      (simp_all add: simps)
  show "lock_step (sys (Some 1) 2 (Some 1) None Closing (Active (new_lock 1 2)) Idle)
     (sys None 2 (Some 1) None Idle (Active (new_lock 1 2)) Idle)"
    by (rule lock_step_to [OF step_unlink [where p = 0]]) (simp_all add: simps)
  show "lock_step (sys None 2 (Some 1) None Idle (Active (new_lock 1 2)) Idle)
     (sys (Some 2) 3 (Some 1) None Idle (Active (new_lock 1 2)) (Active (new_lock 2 1)))"
    by (rule lock_step_to [OF step_open_new [where p = 2 and l = "new_lock 2 1"]]) (simp_all add: simps new_lock_ops(1) [of 2, simplified])
  show "lock_step (sys (Some 2) 3 (Some 1) None Idle (Active (new_lock 1 2)) (Active (new_lock 2 1)))
     (sys (Some 2) 3 (Some 1) (Some 2) Idle (Active (new_lock 1 2)) (Active (new_lock 2 2)))"
    by (rule lock_step_to [OF step_acquire [where p = 2 and l = "new_lock 2 1" and l' = "new_lock 2 2"]])
      (simp_all add: simps)
qed

text \<open>Removing the lock file after the release lets two processes hold the instance lock at once: one
  that was waiting on the removed file and one that created it anew.\<close>

theorem instance_lock_not_exclusive:
  "\<exists>s p q. sys_reach s \<and> p \<noteq> q \<and> holds_lock s p \<and> holds_lock s q"
proof -
  have "init_sys = sys None 1 None None Idle Idle Idle"
    by (simp add: init_sys_def sys_def fun_eq_iff)
  with sys_init have "sys_reach (sys None 1 None None Idle Idle Idle)" by simp
  note reach = this [THEN sys_step, OF sys_steps(1), THEN sys_step, OF sys_steps(2), THEN sys_step,
      OF sys_steps(3), THEN sys_step, OF sys_steps(4), THEN sys_step, OF sys_steps(5), THEN sys_step,
      OF sys_steps(6), THEN sys_step, OF sys_steps(7), THEN sys_step, OF sys_steps(8)]
  let ?s = "sys (Some 2) 3 (Some 1) (Some 2) Idle (Active (new_lock 1 2)) (Active (new_lock 2 2))"
  have "holds_lock ?s 1" "holds_lock ?s 2"
    by (simp_all add: holds_lock_def sys_def new_lock_def)
  with reach show ?thesis by (metis one_eq_numeral_iff semiring_norm(85))
qed


end
