(* ===== verification/Hist_Db.thy ===== *)
theory Hist_Db
  imports Tdnf_Prelude
begin

text \<open>
  The history database of \<^verbatim>\<open>history/history.c\<close> and the functions that read and write its tables.

  A table is the list of its rows in insertion order, or \<open>None\<close> before its CREATE TABLE; an
  AUTOINCREMENT key is one more than the largest in use (tdnf never deletes rows). A connection holds
  the current contents, the contents to go back to while a transaction is open, and \<open>faults\<close>: one
  entry for each coming call into SQLite (prepare, bind, step, exec), \<open>True\<close> when that call fails. An
  exhausted list stands for calls that succeed, so \<open>faults c = []\<close> is a run without I/O errors. All
  failures report SQLITE_ERROR: the code only compares with SQLITE_OK, SQLITE_ROW and SQLITE_DONE.
  Row ids are unbounded integers (the code reads them as 32-bit ints).
\<close>

named_theorems sql_simps \<open>behaviour of the database functions in the absence of faults\<close>

section \<open>Fallible steps on a state\<close>

text \<open>
  \<open>RC\<close> carries a non zero return code. \<open>UNDEF\<close> marks undefined behaviour: a NULL string handed to
  \<^verbatim>\<open>strcmp\<close> or a read of a variable that was never set.
\<close>

datatype herr = RC int | UNDEF

type_synonym ('s, 'a) hm = "'s \<Rightarrow> (herr + 'a) \<times> 's"

definition ret :: "'a \<Rightarrow> ('s, 'a) hm" where
  "ret x s = (Inr x, s)"

definition failH :: "herr \<Rightarrow> ('s, 'a) hm" where
  "failH e s = (Inl e, s)"

definition bnd :: "('s, 'a) hm \<Rightarrow> ('a \<Rightarrow> ('s, 'b) hm) \<Rightarrow> ('s, 'b) hm" where
  "bnd m f s = (case m s of (Inl e, t) \<Rightarrow> (Inl e, t) | (Inr x, t) \<Rightarrow> f x t)"

definition check_cond :: "bool \<Rightarrow> ('s, unit) hm" where
  "check_cond b = (if b then ret () else failH (RC (-1)))"

lemma ret_simp [simp]: "ret x s = (Inr x, s)"
  by (simp add: ret_def)

lemma failH_simp [simp]: "failH e s = (Inl e, s)"
  by (simp add: failH_def)

lemma check_cond_simps [simp]:
  "check_cond True = ret ()" "check_cond False = failH (RC (-1))"
  by (simp_all add: check_cond_def)

lemma bnd_cases [simp]:
  "m s = (Inr x, t) \<Longrightarrow> bnd m f s = f x t"
  "m s = (Inl e, t) \<Longrightarrow> bnd m f s = (Inl e, t)"
  by (simp_all add: bnd_def)

text \<open>
  Frames: what a step leaves alone is a preorder on states, and sequencing respects it. The same
  lemmas serve the read-only functions, the functions inside a transaction, and the writers that
  leave the transaction log alone.
\<close>

definition keeps :: "('s \<Rightarrow> 's \<Rightarrow> bool) \<Rightarrow> ('s, 'a) hm \<Rightarrow> bool" where
  "keeps R m \<longleftrightarrow> (\<forall>s. R s (snd (m s)))"

locale frame =
  fixes R :: "'s \<Rightarrow> 's \<Rightarrow> bool"
  assumes R_refl: "R s s"
    and R_trans: "R s t \<Longrightarrow> R t u \<Longrightarrow> R s u"
begin

lemma keeps_ret: "keeps R (ret x)" "keeps R (failH e)" "keeps R (check_cond b)"
  by (simp_all add: keeps_def check_cond_def R_refl)

lemma keeps_bnd:
  assumes "keeps R m" and "\<And>x. keeps R (f x)"
  shows "keeps R (bnd m f)"
proof -
  have "R s (snd (bnd m f s))" for s
  proof (cases "m s")
    case (Pair r t)
    moreover have "R s t" using assms(1) Pair by (metis keeps_def snd_conv)
    ultimately show ?thesis
      using assms(2) by (cases r) (auto simp: bnd_def keeps_def intro: R_trans)
  qed
  then show ?thesis by (simp add: keeps_def)
qed

lemma keeps_if: "keeps R m \<Longrightarrow> keeps R n \<Longrightarrow> keeps R (if b then m else n)"
  by simp

lemma keeps_snd: "keeps R m \<Longrightarrow> R s (snd (m s))"
  by (simp add: keeps_def)

end

section \<open>Tables\<close>

abbreviation (input) HISTORY_TRANS_TYPE_BASE :: int where "HISTORY_TRANS_TYPE_BASE \<equiv> 0"
abbreviation (input) HISTORY_TRANS_TYPE_DELTA :: int where "HISTORY_TRANS_TYPE_DELTA \<equiv> 1"
abbreviation (input) HISTORY_ITEM_TYPE_SET :: int where "HISTORY_ITEM_TYPE_SET \<equiv> 0"
abbreviation (input) HISTORY_ITEM_TYPE_ADD :: int where "HISTORY_ITEM_TYPE_ADD \<equiv> 1"
abbreviation (input) HISTORY_ITEM_TYPE_REMOVE :: int where "HISTORY_ITEM_TYPE_REMOVE \<equiv> 2"
abbreviation (input) SQLITE_OK :: int where "SQLITE_OK \<equiv> 0"
abbreviation (input) SQLITE_ERROR :: int where "SQLITE_ERROR \<equiv> 1"
abbreviation (input) SQLITE_ROW :: int where "SQLITE_ROW \<equiv> 100"
abbreviation (input) SQLITE_DONE :: int where "SQLITE_DONE \<equiv> 101"

record trans_row =
  tr_id :: int
  tr_cookie :: "string option"
  tr_cmdline :: "string option"
  tr_timestamp :: int
  tr_type :: int

record item_row =
  it_id :: int
  it_trans_id :: int
  it_type :: int
  it_rpm_id :: int

record flag_row =
  fl_id :: int
  fl_trans_id :: int
  fl_name_id :: int
  fl_value :: int

record history_db =
  t_rpms :: "(int \<times> string) list option"
  t_names :: "(int \<times> string) list option"
  t_transactions :: "trans_row list option"
  t_trans_items :: "item_row list option"
  t_flag_set :: "flag_row list option"

text \<open>The two dictionary tables share their functions, which get the table by its name.\<close>

datatype dict_table = Rpms | Names

fun dict_rows :: "dict_table \<Rightarrow> history_db \<Rightarrow> (int \<times> string) list option" where
  "dict_rows Rpms d = t_rpms d"
| "dict_rows Names d = t_names d"

fun dict_put :: "dict_table \<Rightarrow> (int \<times> string) list \<Rightarrow> history_db \<Rightarrow> history_db" where
  "dict_put Rpms rows d = d\<lparr>t_rpms := Some rows\<rparr>"
| "dict_put Names rows d = d\<lparr>t_names := Some rows\<rparr>"

definition next_id :: "int list \<Rightarrow> int" where
  "next_id ids = foldr max ids 0 + 1"

definition order_by :: "('r \<Rightarrow> int) \<Rightarrow> 'r list \<Rightarrow> 'r list" where
  "order_by key rows = sort_key key rows"

definition order_by_desc :: "('r \<Rightarrow> int) \<Rightarrow> 'r list \<Rightarrow> 'r list" where
  "order_by_desc key rows = rev (sort_key key rows)"

section \<open>Calls into SQLite\<close>

record conn =
  cur :: history_db
  saved :: "history_db option"
  faults :: "bool list"

definition sql_answer :: "conn \<Rightarrow> bool \<times> conn" where
  "sql_answer c = (case faults c of [] \<Rightarrow> (True, c) | f # fs \<Rightarrow> (\<not> f, c\<lparr>faults := fs\<rparr>))"

text \<open>A call whose return code is checked with \<^verbatim>\<open>check_db_rc\<close>.\<close>

definition sql_ok :: "(conn, unit) hm" where
  "sql_ok c = (case sql_answer c of (ok, d) \<Rightarrow>
     (if ok then Inr () else Inl (RC SQLITE_ERROR), d))"

text \<open>Preparing a statement on a table that does not exist fails.\<close>

definition sql_prepare :: "(history_db \<Rightarrow> 'r list option) \<Rightarrow> (conn, 'r list) hm" where
  "sql_prepare table = bnd sql_ok (\<lambda>_ d. case table (cur d) of
     None \<Rightarrow> (Inl (RC SQLITE_ERROR), d) | Some rows \<Rightarrow> (Inr rows, d))"

datatype 'r step = Row 'r | Done | StepError

definition sql_step :: "'r list \<Rightarrow> conn \<Rightarrow> 'r step \<times> conn" where
  "sql_step rows c = (case sql_answer c of (ok, d) \<Rightarrow>
     (if \<not> ok then StepError else case rows of [] \<Rightarrow> Done | r # _ \<Rightarrow> Row r, d))"

text \<open>The first step of a query, as a value for the code that looks at it.\<close>

definition sql_query1 :: "'r list \<Rightarrow> (conn, 'r step) hm" where
  "sql_query1 rows c = (case sql_step rows c of (st, d) \<Rightarrow> (Inr st, d))"

text \<open>
  \<^verbatim>\<open>for (step = sqlite3_step(res); step == SQLITE_ROW; step = sqlite3_step(res))\<close>: any other answer,
  an error included, ends the loop without touching the return code.
\<close>

fun for_rows :: "('r \<Rightarrow> 'a \<Rightarrow> herr + 'a) \<Rightarrow> 'r list \<Rightarrow> 'a \<Rightarrow> (conn, 'a) hm" where
  "for_rows body [] acc c = (Inr acc, snd (sql_answer c))"
| "for_rows body (r # rows) acc c =
     (case sql_answer c of (ok, d) \<Rightarrow>
        if \<not> ok then (Inr acc, d)
        else case body r acc of Inl e \<Rightarrow> (Inl e, d) | Inr acc' \<Rightarrow> for_rows body rows acc' d)"

text \<open>A step that changes the contents when it succeeds and reports whether it did.\<close>

definition sql_write :: "(history_db \<Rightarrow> history_db) \<Rightarrow> (conn, bool) hm" where
  "sql_write f c = (case sql_answer c of (ok, d) \<Rightarrow>
     if ok then (Inr True, d\<lparr>cur := f (cur d)\<rparr>) else (Inr False, d))"

definition sql_exec :: "(history_db \<Rightarrow> history_db) \<Rightarrow> (conn, unit) hm" where
  "sql_exec f = bnd (sql_write f) (\<lambda>ok. if ok then ret () else failH (RC SQLITE_ERROR))"

definition sql_begin :: "(conn, unit) hm" where
  "sql_begin = bnd sql_ok (\<lambda>_ c. case saved c of
     None \<Rightarrow> (Inr (), c\<lparr>saved := Some (cur c)\<rparr>) | Some _ \<Rightarrow> (Inl (RC SQLITE_ERROR), c))"

definition sql_commit :: "(conn, unit) hm" where
  "sql_commit = bnd sql_ok (\<lambda>_ c. case saved c of
     None \<Rightarrow> (Inl (RC SQLITE_ERROR), c) | Some _ \<Rightarrow> (Inr (), c\<lparr>saved := None\<rparr>))"

definition sql_rollback :: "(conn, unit) hm" where
  "sql_rollback = bnd sql_ok (\<lambda>_ c. case saved c of
     None \<Rightarrow> (Inl (RC SQLITE_ERROR), c) | Some d \<Rightarrow> (Inr (), c\<lparr>cur := d, saved := None\<rparr>))"

text \<open>What survives a crash or another process reading the file.\<close>

definition durable :: "conn \<Rightarrow> history_db" where
  "durable c = (case saved c of None \<Rightarrow> cur c | Some d \<Rightarrow> d)"

definition create_rpms :: "history_db \<Rightarrow> history_db" where
  "create_rpms d = (if t_rpms d = None then d\<lparr>t_rpms := Some []\<rparr> else d)"

definition create_names :: "history_db \<Rightarrow> history_db" where
  "create_names d = (if t_names d = None then d\<lparr>t_names := Some []\<rparr> else d)"

definition create_flag_set :: "history_db \<Rightarrow> history_db" where
  "create_flag_set d = (if t_flag_set d = None then d\<lparr>t_flag_set := Some []\<rparr> else d)"

definition create_transactions :: "history_db \<Rightarrow> history_db" where
  "create_transactions d = (if t_transactions d = None then d\<lparr>t_transactions := Some []\<rparr> else d)"

definition create_trans_items :: "history_db \<Rightarrow> history_db" where
  "create_trans_items d = (if t_trans_items d = None then d\<lparr>t_trans_items := Some []\<rparr> else d)"

section \<open>The database functions\<close>

text \<open>\<^verbatim>\<open>db_table_exists\<close> hands the code of the last call to its callers.\<close>

definition db_table_exists :: "(history_db \<Rightarrow> 'r list option) \<Rightarrow> conn \<Rightarrow> int \<times> conn" where
  "db_table_exists table c =
     (case bnd sql_ok (\<lambda>_. bnd sql_ok (\<lambda>_. sql_query1
            (case table (cur c) of None \<Rightarrow> [] | Some _ \<Rightarrow> [()]))) c of
        (Inl _, d) \<Rightarrow> (SQLITE_ERROR, d)
      | (Inr (Row _), d) \<Rightarrow> (SQLITE_ROW, d)
      | (Inr Done, d) \<Rightarrow> (SQLITE_DONE, d)
      | (Inr StepError, d) \<Rightarrow> (SQLITE_ERROR, d))"

text \<open>\<^verbatim>\<open>db_rpms_count\<close> leaves the count alone when its step does not give a row.\<close>

definition db_rpms_count :: "int \<Rightarrow> (conn, int) hm" where
  "db_rpms_count count =
     bnd (sql_prepare t_rpms) (\<lambda>rows.
     bnd (sql_query1 [int (length rows)]) (\<lambda>step.
       case step of Row n \<Rightarrow> ret n | _ \<Rightarrow> ret count))"

definition db_maxid :: "dict_table \<Rightarrow> (conn, int) hm" where
  "db_maxid t =
     bnd (sql_prepare (dict_rows t)) (\<lambda>rows.
     bnd (sql_query1 (order_by_desc fst rows)) (\<lambda>step.
       case step of Row r \<Rightarrow> ret (fst r) | Done \<Rightarrow> ret 0 | StepError \<Rightarrow> failH (RC (-1))))"

definition db_rpms_maxid :: "(conn, int) hm" where
  "db_rpms_maxid = db_maxid Rpms"

record history_nevra_map =
  hnm_count :: int
  idmap :: "string option list"

definition db_string_map :: "dict_table \<Rightarrow> (conn, history_nevra_map) hm" where
  "db_string_map t =
     bnd (db_maxid t) (\<lambda>count.
     bnd (sql_prepare (dict_rows t)) (\<lambda>rows.
     bnd (for_rows (\<lambda>(id, nevra) m.
            if id > 0 \<and> id \<le> count then Inr (m[nat (id - 1) := Some nevra]) else Inl (RC (-1)))
          rows (replicate (nat count) None)) (\<lambda>m.
       ret \<lparr>hnm_count = count, idmap = m\<rparr>)))"

definition db_nevra_map :: "(conn, history_nevra_map) hm" where
  "db_nevra_map = db_string_map Rpms"

text \<open>\<open>None\<close> is the id that was never written: the insert failed and the return code is 0 all the same.\<close>

definition db_get_dict_entry :: "dict_table \<Rightarrow> string \<Rightarrow> bool \<Rightarrow> (conn, int option) hm" where
  "db_get_dict_entry t entry create =
     bnd (sql_prepare (dict_rows t)) (\<lambda>rows.
     bnd sql_ok (\<lambda>_.
     bnd (sql_query1 (filter (\<lambda>r. snd r = entry) rows)) (\<lambda>step.
       case step of
         Row r \<Rightarrow> ret (Some (fst r))
       | _ \<Rightarrow>
           if \<not> create then ret (Some 0)
           else bnd (sql_prepare (dict_rows t)) (\<lambda>rows.
                bnd sql_ok (\<lambda>_.
                bnd (sql_write (dict_put t (rows @ [(next_id (map fst rows), entry)]))) (\<lambda>done.
                  ret (if done then Some (next_id (map fst rows)) else None)))))))"

definition db_add_nevra :: "string \<Rightarrow> (conn, int option) hm" where
  "db_add_nevra nevra = db_get_dict_entry Rpms nevra True"

definition db_add_transaction ::
    "string option \<Rightarrow> int \<Rightarrow> string option \<Rightarrow> int \<Rightarrow> (conn, int) hm" where
  "db_add_transaction cmdline timestamp cookie type =
     bnd (sql_prepare t_transactions) (\<lambda>rows.
     bnd sql_ok (\<lambda>_. bnd sql_ok (\<lambda>_. bnd sql_ok (\<lambda>_. bnd sql_ok (\<lambda>_.
     bnd (sql_write (\<lambda>d. d\<lparr>t_transactions := Some (rows @
            [\<lparr>tr_id = next_id (map tr_id rows), tr_cookie = cookie, tr_cmdline = cmdline,
              tr_timestamp = timestamp, tr_type = type\<rparr>])\<rparr>)) (\<lambda>done.
     bnd (check_cond done) (\<lambda>_.
       ret (next_id (map tr_id rows)))))))))"

definition db_add_trans_item :: "int \<Rightarrow> int \<Rightarrow> int \<Rightarrow> (conn, unit) hm" where
  "db_add_trans_item trans_id type rpm_id =
     bnd (sql_prepare t_trans_items) (\<lambda>rows.
     bnd sql_ok (\<lambda>_. bnd sql_ok (\<lambda>_. bnd sql_ok (\<lambda>_.
     bnd (sql_write (\<lambda>d. d\<lparr>t_trans_items := Some (rows @
            [\<lparr>it_id = next_id (map it_id rows), it_trans_id = trans_id, it_type = type,
              it_rpm_id = rpm_id\<rparr>])\<rparr>)) (\<lambda>done.
       check_cond done)))))"

fun db_add_trans_items :: "int \<Rightarrow> int \<Rightarrow> int list \<Rightarrow> (conn, unit) hm" where
  "db_add_trans_items trans_id type [] = ret ()"
| "db_add_trans_items trans_id type (rpm_id # rpm_ids) =
     bnd (db_add_trans_item trans_id type rpm_id) (\<lambda>_.
       db_add_trans_items trans_id type rpm_ids)"

text \<open>\<^verbatim>\<open>db_update_rpms\<close>: \<open>installed\<close> are the NEVRAs in the order librpm iterates over its headers.\<close>

fun add_nevras :: "string list \<Rightarrow> (conn, int list) hm" where
  "add_nevras [] = ret []"
| "add_nevras (nevra # nevras) =
     bnd (db_add_nevra nevra) (\<lambda>id.
     bnd (add_nevras nevras) (\<lambda>ids.
       ret ((case id of Some i \<Rightarrow> i | None \<Rightarrow> 0) # ids)))"

definition db_update_rpms :: "string list \<Rightarrow> (conn, int list) hm" where
  "db_update_rpms installed =
     bnd (sql_exec create_rpms) (\<lambda>_.
     bnd (add_nevras installed) (\<lambda>ids.
       ret (sort ids)))"

section \<open>Runs without faults\<close>

lemma sql_answer_ok [sql_simps]: "faults c = [] \<Longrightarrow> sql_answer c = (True, c)"
  by (simp add: sql_answer_def)

lemma sql_ok_ok [sql_simps]: "faults c = [] \<Longrightarrow> sql_ok c = (Inr (), c)"
  by (simp add: sql_ok_def sql_simps)

lemma sql_prepare_ok [sql_simps]:
  "faults c = [] \<Longrightarrow> sql_prepare table c =
     (case table (cur c) of None \<Rightarrow> Inl (RC SQLITE_ERROR) | Some rows \<Rightarrow> Inr rows, c)"
  by (simp add: sql_prepare_def sql_simps split: option.splits)

lemma sql_query1_ok [sql_simps]:
  "faults c = [] \<Longrightarrow> sql_query1 rows c = (Inr (case rows of [] \<Rightarrow> Done | r # _ \<Rightarrow> Row r), c)"
  by (simp add: sql_query1_def sql_step_def sql_simps)

lemma sql_write_ok [sql_simps]:
  "faults c = [] \<Longrightarrow> sql_write f c = (Inr True, c\<lparr>cur := f (cur c)\<rparr>)"
  by (simp add: sql_write_def sql_simps)

lemma sql_exec_ok [sql_simps]:
  "faults c = [] \<Longrightarrow> sql_exec f c = (Inr (), c\<lparr>cur := f (cur c)\<rparr>)"
  by (simp add: sql_exec_def sql_simps)

lemma sql_begin_ok [sql_simps]:
  "faults c = [] \<Longrightarrow> saved c = None \<Longrightarrow> sql_begin c = (Inr (), c\<lparr>saved := Some (cur c)\<rparr>)"
  by (simp add: sql_begin_def sql_simps)

lemma sql_commit_ok [sql_simps]:
  "faults c = [] \<Longrightarrow> saved c = Some d \<Longrightarrow> sql_commit c = (Inr (), c\<lparr>saved := None\<rparr>)"
  by (simp add: sql_commit_def sql_simps)

lemma db_table_exists_ok [sql_simps]:
  "faults c = [] \<Longrightarrow>
     db_table_exists table c = (if table (cur c) = None then SQLITE_DONE else SQLITE_ROW, c)"
  by (cases "table (cur c)") (simp_all add: db_table_exists_def sql_simps)

text \<open>The loop over rows is a fold that stops at the first failed check.\<close>

fun fold_checked :: "('r \<Rightarrow> 'a \<Rightarrow> herr + 'a) \<Rightarrow> 'r list \<Rightarrow> 'a \<Rightarrow> herr + 'a" where
  "fold_checked body [] acc = Inr acc"
| "fold_checked body (r # rows) acc =
     (case body r acc of Inl e \<Rightarrow> Inl e | Inr acc' \<Rightarrow> fold_checked body rows acc')"

lemma for_rows_ok [sql_simps]:
  "faults c = [] \<Longrightarrow> for_rows body rows acc c = (fold_checked body rows acc, c)"
  by (induction rows arbitrary: acc) (auto simp: sql_simps split: sum.splits)

lemma fold_checked_Inr:
  assumes "\<And>r acc. r \<in> set rows \<Longrightarrow> body r acc = Inr (g r acc)"
  shows "fold_checked body rows acc = Inr (fold g rows acc)"
  using assms by (induction rows arbitrary: acc) auto

section \<open>Dictionaries and keys\<close>

definition keys_ok :: "int list \<Rightarrow> bool" where
  "keys_ok ids \<longleftrightarrow> ids = [1..int (length ids)]"

lemma keys_ok_Nil [simp]: "keys_ok []"
  by (simp add: keys_ok_def)

lemma foldr_max_append: "foldr max (xs @ [y]) (a :: int) = max (foldr max xs a) y"
  by (induction xs) auto

lemma foldr_max_upto: "foldr max [1..int n] 0 = int n"
proof (induction n)
  case (Suc n)
  have "[1..int (Suc n)] = [1..int n] @ [int (Suc n)]"
    using upto_rec2 [of 1 "int (Suc n)"] by simp
  then show ?case using Suc foldr_max_append [of "[1..int n]" "int (Suc n)" 0] by simp
qed simp

lemma next_id_keys: "keys_ok ids \<Longrightarrow> next_id ids = int (length ids) + 1"
  using foldr_max_upto [of "length ids"] by (simp add: next_id_def keys_ok_def)

lemma keys_ok_snoc: "keys_ok ids \<Longrightarrow> keys_ok (ids @ [next_id ids])"
  unfolding next_id_keys unfolding keys_ok_def
  using upto_rec2 [of 1 "int (length ids) + 1"] by (simp add: next_id_keys keys_ok_def add.commute)

lemma keys_ok_mem: "keys_ok ids \<Longrightarrow> i \<in> set ids \<longleftrightarrow> 1 \<le> i \<and> i \<le> int (length ids)"
  unfolding keys_ok_def by (metis atLeastAtMost_iff set_upto)

lemma keys_ok_nth: "keys_ok ids \<Longrightarrow> k < length ids \<Longrightarrow> ids ! k = int k + 1"
proof -
  assume "keys_ok ids" "k < length ids"
  then have "ids ! k = [1..int (length ids)] ! k" by (simp add: keys_ok_def)
  also have "\<dots> = int k + 1" using \<open>k < length ids\<close> by (simp add: nth_upto)
  finally show ?thesis .
qed

lemma keys_ok_sorted: "keys_ok ids \<Longrightarrow> sorted ids \<and> distinct ids"
  unfolding keys_ok_def by (metis distinct_upto sorted_upto)

lemma order_by_keys: "keys_ok (map key rows) \<Longrightarrow> order_by key rows = rows"
  by (simp add: order_by_def keys_ok_sorted sort_key_id_if_sorted)

lemma order_by_desc_keys: "keys_ok (map key rows) \<Longrightarrow> order_by_desc key rows = rev rows"
  by (simp add: order_by_desc_def keys_ok_sorted sort_key_id_if_sorted)

definition dict_ok :: "(int \<times> string) list \<Rightarrow> bool" where
  "dict_ok rows \<longleftrightarrow> keys_ok (map fst rows) \<and> distinct (map snd rows)"

definition dict_id :: "(int \<times> string) list \<Rightarrow> string \<Rightarrow> int option" where
  "dict_id rows s = map_option fst (List.find (\<lambda>r. snd r = s) rows)"

definition dict_insert :: "string \<Rightarrow> (int \<times> string) list \<Rightarrow> (int \<times> string) list" where
  "dict_insert s rows = (case dict_id rows s of
     None \<Rightarrow> rows @ [(next_id (map fst rows), s)] | Some _ \<Rightarrow> rows)"

lemma dict_id_None: "dict_id rows s = None \<longleftrightarrow> s \<notin> snd ` set rows"
  by (induction rows) (auto simp: dict_id_def)

lemma dict_id_Some: "dict_id rows s = Some i \<Longrightarrow> (i, s) \<in> set rows"
  by (induction rows) (auto simp: dict_id_def split: if_splits)

lemma dict_id_mem:
  assumes "dict_ok rows" and "(i, s) \<in> set rows"
  shows "dict_id rows s = Some i"
proof -
  obtain j where j: "dict_id rows s = Some j"
    using assms(2) dict_id_None [of rows s] by (cases "dict_id rows s") force+
  from dict_id_Some [OF this] have "(j, s) \<in> set rows" .
  with assms have "j = i" unfolding dict_ok_def by (metis distinct_map inj_onD snd_conv prod.inject)
  with j show ?thesis by simp
qed

lemma dict_insert_ok: "dict_ok rows \<Longrightarrow> dict_ok (dict_insert s rows)"
  using keys_ok_snoc [of "map fst rows"]
  by (auto simp: dict_insert_def dict_ok_def dict_id_None image_iff split: option.splits)

lemma dict_insert_prefix: "\<exists>more. dict_insert s rows = rows @ more"
  by (simp add: dict_insert_def split: option.splits)

lemma dict_insert_id: "dict_ok rows \<Longrightarrow> \<exists>i. dict_id (dict_insert s rows) s = Some i
    \<and> i = (case dict_id rows s of None \<Rightarrow> next_id (map fst rows) | Some j \<Rightarrow> j)"
proof (cases "dict_id rows s")
  case None
  assume ok: "dict_ok rows"
  have "dict_id (dict_insert s rows) s = Some (next_id (map fst rows))"
    by (rule dict_id_mem [OF dict_insert_ok [OF ok]]) (simp add: dict_insert_def None)
  with None show ?thesis by simp
next
  case (Some j)
  then show ?thesis by (simp add: dict_insert_def)
qed

lemma db_get_dict_entry_ok [sql_simps]:
  assumes "faults c = []" and "dict_rows t (cur c) = Some rows" and "dict_ok rows"
  shows "db_get_dict_entry t entry create c =
    (if create then (Inr (dict_id (dict_insert entry rows) entry),
                     c\<lparr>cur := dict_put t (dict_insert entry rows) (cur c)\<rparr>)
     else (Inr (Some (case dict_id rows entry of None \<Rightarrow> 0 | Some i \<Rightarrow> i)), c))"
proof -
  have same: "dict_put t rows (cur c) = cur c" using assms(2) by (cases t) auto
  have find: "dict_id rows entry = (case filter (\<lambda>r. snd r = entry) rows of [] \<Rightarrow> None | r # _ \<Rightarrow> Some (fst r))"
    by (induction rows) (auto simp: dict_id_def)
  show ?thesis
    using assms dict_insert_id [OF assms(3), of entry] same
    by (cases "filter (\<lambda>r. snd r = entry) rows")
      (auto simp: db_get_dict_entry_def sql_simps find dict_insert_def)
qed

lemma db_maxid_ok [sql_simps]:
  assumes "faults c = []" and "dict_rows t (cur c) = Some rows" and "keys_ok (map fst rows)"
  shows "db_maxid t c = (Inr (int (length rows)), c)"
proof (cases rows rule: rev_cases)
  case Nil
  with assms show ?thesis by (simp add: db_maxid_def sql_simps order_by_desc_def)
next
  case (snoc rs r)
  have "map fst rows ! length rs = int (length rs) + 1"
    using keys_ok_nth [OF assms(3), of "length rs"] snoc by simp
  then have "fst r = int (length rows)" using snoc by (simp add: nth_append)
  then show ?thesis
    using assms snoc order_by_desc_keys [OF assms(3)] by (simp add: db_maxid_def sql_simps)
qed

section \<open>The writers without faults\<close>

lemma dict_id_append: "dict_id rows s = Some i \<Longrightarrow> dict_id (rows @ ext) s = Some i"
  by (induction rows) (auto simp: dict_id_def split: if_splits)

lemma dict_id_insert_mono: "dict_id rows s = Some i \<Longrightarrow> dict_id (dict_insert u rows) s = Some i"
  by (auto simp: dict_insert_def dict_id_append split: option.splits)

lemma dict_id_fold_mono: "dict_id rows s = Some i \<Longrightarrow> dict_id (fold dict_insert ns rows) s = Some i"
  by (induction ns arbitrary: rows) (auto simp: dict_id_insert_mono)

lemma dict_fold_ok: "dict_ok rows \<Longrightarrow> dict_ok (fold dict_insert ns rows)"
  by (induction ns arbitrary: rows) (auto simp: dict_insert_ok)

lemma dict_fold_prefix: "\<exists>more. fold dict_insert ns rows = rows @ more"
proof (induction ns arbitrary: rows)
  case (Cons n ns)
  obtain m1 where "dict_insert n rows = rows @ m1" using dict_insert_prefix by blast
  moreover obtain m2 where "fold dict_insert ns (dict_insert n rows) = dict_insert n rows @ m2"
    using Cons by blast
  ultimately show ?case by simp
qed simp

definition dict_ids :: "string list \<Rightarrow> (int \<times> string) list \<Rightarrow> int list" where
  "dict_ids ns rows = map (\<lambda>n. the (dict_id (fold dict_insert ns rows) n)) ns"

lemma dict_fold_mem:
  assumes "dict_ok rows" and "n \<in> set ns"
  shows "\<exists>i. dict_id (fold dict_insert ns rows) n = Some i"
  using assms
proof (induction ns arbitrary: rows)
  case (Cons m ns)
  show ?case
  proof (cases "n \<in> set ns")
    case True
    then show ?thesis using Cons.IH [OF dict_insert_ok [OF Cons.prems(1)]] by simp
  next
    case False
    with Cons.prems have "n = m" by simp
    with dict_insert_id [OF Cons.prems(1), of m] show ?thesis by (auto dest: dict_id_fold_mono)
  qed
qed simp

lemma add_nevras_ok [sql_simps]:
  assumes "faults c = []" and "t_rpms (cur c) = Some rows" and "dict_ok rows"
  shows "add_nevras ns c = (Inr (dict_ids ns rows),
    c\<lparr>cur := (cur c)\<lparr>t_rpms := Some (fold dict_insert ns rows)\<rparr>\<rparr>)"
  using assms
proof (induction ns arbitrary: c rows)
  case (Cons n ns)
  let ?d = "c\<lparr>cur := dict_put Rpms (dict_insert n rows) (cur c)\<rparr>"
  obtain i where i: "dict_id (dict_insert n rows) n = Some i"
    using dict_insert_id [OF Cons.prems(3)] by blast
  have step: "db_add_nevra n c = (Inr (Some i), ?d)"
    using Cons.prems i by (simp add: db_add_nevra_def db_get_dict_entry_ok)
  have rest: "add_nevras ns ?d = (Inr (dict_ids ns (dict_insert n rows)),
      ?d\<lparr>cur := (cur ?d)\<lparr>t_rpms := Some (fold dict_insert ns (dict_insert n rows))\<rparr>\<rparr>)"
    by (rule Cons.IH) (simp_all add: Cons.prems dict_insert_ok)
  have "dict_ids (n # ns) rows = i # dict_ids ns (dict_insert n rows)"
    using dict_id_fold_mono [OF i, of ns] by (simp add: dict_ids_def)
  with step rest show ?case by simp
qed (simp add: dict_ids_def)

definition rpm_rows :: "history_db \<Rightarrow> (int \<times> string) list" where
  "rpm_rows d = (case t_rpms d of None \<Rightarrow> [] | Some rows \<Rightarrow> rows)"

lemma db_update_rpms_ok [sql_simps]:
  assumes "faults c = []" and "dict_ok (rpm_rows (cur c))"
  shows "db_update_rpms ns c = (Inr (sort (dict_ids ns (rpm_rows (cur c)))),
    c\<lparr>cur := (cur c)\<lparr>t_rpms := Some (fold dict_insert ns (rpm_rows (cur c)))\<rparr>\<rparr>)"
proof -
  let ?d = "c\<lparr>cur := create_rpms (cur c)\<rparr>"
  have "t_rpms (cur ?d) = Some (rpm_rows (cur c))"
    by (auto simp: create_rpms_def rpm_rows_def split: option.splits)
  moreover have "(cur ?d)\<lparr>t_rpms := x\<rparr> = (cur c)\<lparr>t_rpms := x\<rparr>" for x
    by (simp add: create_rpms_def)
  ultimately show ?thesis
    using assms add_nevras_ok [of ?d "rpm_rows (cur c)" ns]
    by (simp add: db_update_rpms_def sql_exec_ok)
qed

text \<open>What the ids of the installed packages stand for.\<close>

lemma dict_ids_names:
  assumes "dict_ok rows"
  shows "set (dict_ids ns rows) = {i. \<exists>n \<in> set ns. (i, n) \<in> set (fold dict_insert ns rows)}"
proof -
  have "i \<in> set (dict_ids ns rows) \<longleftrightarrow> (\<exists>n \<in> set ns. (i, n) \<in> set (fold dict_insert ns rows))" for i
  proof
    assume "i \<in> set (dict_ids ns rows)"
    then obtain n where "n \<in> set ns" "i = the (dict_id (fold dict_insert ns rows) n)"
      by (auto simp: dict_ids_def)
    moreover obtain j where "dict_id (fold dict_insert ns rows) n = Some j"
      using dict_fold_mem [OF assms \<open>n \<in> set ns\<close>] by blast
    ultimately show "\<exists>n \<in> set ns. (i, n) \<in> set (fold dict_insert ns rows)"
      using dict_id_Some [of _ n j] by auto
  next
    assume "\<exists>n \<in> set ns. (i, n) \<in> set (fold dict_insert ns rows)"
    then show "i \<in> set (dict_ids ns rows)"
      using dict_id_mem [OF dict_fold_ok [OF assms]] by (force simp: dict_ids_def)
  qed
  then show ?thesis by blast
qed

lemma dict_ids_distinct:
  assumes "dict_ok rows" and "distinct ns"
  shows "distinct (dict_ids ns rows)"
proof -
  have "inj_on (\<lambda>n. the (dict_id (fold dict_insert ns rows) n)) (set ns)"
  proof (rule inj_onI)
    fix n m
    assume n: "n \<in> set ns" and m: "m \<in> set ns"
      and eq: "the (dict_id (fold dict_insert ns rows) n) = the (dict_id (fold dict_insert ns rows) m)"
    obtain i j where "dict_id (fold dict_insert ns rows) n = Some i"
      "dict_id (fold dict_insert ns rows) m = Some j"
      using dict_fold_mem [OF assms(1) n] dict_fold_mem [OF assms(1) m] by blast
    with eq have "(i, n) \<in> set (fold dict_insert ns rows)" "(i, m) \<in> set (fold dict_insert ns rows)"
      by (auto dest: dict_id_Some)
    moreover have "distinct (map fst (fold dict_insert ns rows))"
      using dict_fold_ok [OF assms(1)] by (simp add: dict_ok_def keys_ok_sorted)
    ultimately show "n = m" by (metis eq_key_imp_eq_value)
  qed
  with assms(2) show ?thesis by (simp add: dict_ids_def distinct_map)
qed

lemma db_add_transaction_ok [sql_simps]:
  assumes "faults c = []" and "t_transactions (cur c) = Some rows"
  shows "db_add_transaction cmd ts ck ty c = (Inr (next_id (map tr_id rows)),
    c\<lparr>cur := (cur c)\<lparr>t_transactions := Some (rows @ [\<lparr>tr_id = next_id (map tr_id rows),
      tr_cookie = ck, tr_cmdline = cmd, tr_timestamp = ts, tr_type = ty\<rparr>])\<rparr>\<rparr>)"
  using assms by (simp add: db_add_transaction_def sql_simps)

fun item_rows :: "int \<Rightarrow> int \<Rightarrow> int list \<Rightarrow> item_row list \<Rightarrow> item_row list" where
  "item_rows t ty [] rows = rows"
| "item_rows t ty (i # ids) rows = item_rows t ty ids
     (rows @ [\<lparr>it_id = next_id (map it_id rows), it_trans_id = t, it_type = ty, it_rpm_id = i\<rparr>])"

lemma db_add_trans_items_ok [sql_simps]:
  assumes "faults c = []" and "t_trans_items (cur c) = Some rows"
  shows "db_add_trans_items t ty ids c
    = (Inr (), c\<lparr>cur := (cur c)\<lparr>t_trans_items := Some (item_rows t ty ids rows)\<rparr>\<rparr>)"
  using assms
proof (induction ids arbitrary: c rows)
  case (Cons i ids)
  let ?new = "rows @ [\<lparr>it_id = next_id (map it_id rows), it_trans_id = t, it_type = ty, it_rpm_id = i\<rparr>]"
  let ?d = "c\<lparr>cur := (cur c)\<lparr>t_trans_items := Some ?new\<rparr>\<rparr>"
  have "db_add_trans_item t ty i c = (Inr (), ?d)"
    using Cons.prems by (simp add: db_add_trans_item_def sql_simps)
  moreover have "db_add_trans_items t ty ids ?d
      = (Inr (), ?d\<lparr>cur := (cur ?d)\<lparr>t_trans_items := Some (item_rows t ty ids ?new)\<rparr>\<rparr>)"
    by (rule Cons.IH) (simp_all add: Cons.prems)
  ultimately show ?case by simp
qed simp

lemma item_rows_shape:
  "\<exists>new. item_rows t ty ids rows = rows @ new \<and> map it_rpm_id new = ids
     \<and> (\<forall>r \<in> set new. it_trans_id r = t \<and> it_type r = ty)"
proof (induction ids arbitrary: rows)
  case (Cons i ids)
  let ?r = "\<lparr>it_id = next_id (map it_id rows), it_trans_id = t, it_type = ty, it_rpm_id = i\<rparr>"
  obtain new where "item_rows t ty ids (rows @ [?r]) = (rows @ [?r]) @ new" "map it_rpm_id new = ids"
    "\<forall>r \<in> set new. it_trans_id r = t \<and> it_type r = ty" using Cons by blast
  then show ?case by (intro exI [of _ "?r # new"]) simp
qed simp

section \<open>Frames of the database functions\<close>

text \<open>A frame that does not look at the pending faults is kept by every function that only reads.\<close>

locale conn_frame = frame R for R :: "conn \<Rightarrow> conn \<Rightarrow> bool" +
  assumes R_faults: "R c (c\<lparr>faults := fs\<rparr>)"
begin

lemma R_answer: "R c (snd (sql_answer c))"
  by (auto simp: sql_answer_def R_refl R_faults split: list.splits)

lemma keeps_ok: "keeps R sql_ok"
  using R_answer by (auto simp: keeps_def sql_ok_def split: prod.splits) (metis snd_conv)

lemma keeps_prepare: "keeps R (sql_prepare table)"
  unfolding sql_prepare_def
  by (rule keeps_bnd [OF keeps_ok]) (auto simp: keeps_def R_refl split: option.splits)

lemma keeps_query1: "keeps R (sql_query1 rows)"
  using R_answer by (auto simp: keeps_def sql_query1_def sql_step_def split: prod.splits) (metis snd_conv)

lemma keeps_for_rows: "keeps R (for_rows body rows acc)"
proof -
  have "R c (snd (for_rows body rows acc c))" for c
  proof (induction rows arbitrary: acc c)
    case Nil
    then show ?case by (simp add: R_answer)
  next
    case (Cons r rows)
    obtain ok d where a: "sql_answer c = (ok, d)" by (cases "sql_answer c")
    then have "R c d" using R_answer [of c] by simp
    with Cons a show ?case by (auto split: sum.splits intro: R_trans)
  qed
  then show ?thesis by (simp add: keeps_def)
qed

lemma keeps_write: "(\<And>c. R c (c\<lparr>cur := f (cur c)\<rparr>)) \<Longrightarrow> keeps R (sql_write f)"
  using R_answer R_trans
  by (auto simp: keeps_def sql_write_def split: prod.splits) (metis snd_conv)+

lemma keeps_exec: "(\<And>c. R c (c\<lparr>cur := f (cur c)\<rparr>)) \<Longrightarrow> keeps R (sql_exec f)"
  unfolding sql_exec_def by (rule keeps_bnd [OF keeps_write]) (auto intro: keeps_ret)

lemmas keeps_intros = keeps_bnd keeps_ret keeps_if keeps_ok keeps_prepare keeps_query1
  keeps_for_rows keeps_write keeps_exec

lemma keeps_maxid: "keeps R (db_maxid t)"
  unfolding db_maxid_def
  by (intro keeps_bnd keeps_prepare keeps_query1) (auto simp: keeps_ret split: step.split)

end

section \<open>The history context\<close>

text \<open>\<^verbatim>\<open>struct history_ctx\<close>; the array of installed ids is NULL until it is first read, which the code
  never tells from an empty one.\<close>

record history_ctx =
  h_db :: conn
  h_installed_ids :: "int list"
  h_cookie :: "string option"
  h_trans_id :: int

definition on_db :: "(conn, 'a) hm \<Rightarrow> (history_ctx, 'a) hm" where
  "on_db m ctx = (case m (h_db ctx) of (r, c) \<Rightarrow> (r, ctx\<lparr>h_db := c\<rparr>))"

lemma on_db_simp [simp]: "m (h_db ctx) = (r, c) \<Longrightarrow> on_db m ctx = (r, ctx\<lparr>h_db := c\<rparr>)"
  by (simp add: on_db_def)

end
