(* ===== verification/Hist_Play.thy ===== *)
theory Hist_Play
  imports Hist_Db "HOL-Library.Multiset"
begin

text \<open>
  Replaying the history (\<^verbatim>\<open>history/history.c\<close>): the merge that computes the difference of two id
  arrays, the map of installed ids, and the functions that rewind to a baseline and apply deltas.
  The specification is a log of baselines and deltas; \<open>state_at\<close> is the set it stands for at a
  transaction. The map is a \<open>bool list\<close>, one flag per rpm id, ids starting at 1.
\<close>

section \<open>Differences of sorted arrays\<close>

fun diff_arrays :: "int list \<Rightarrow> int list \<Rightarrow> int list \<times> int list" where
  "diff_arrays [] arr2 = ([], arr2)"
| "diff_arrays (x # arr1) [] = (x # arr1, [])"
| "diff_arrays (x # arr1) (y # arr2) =
     (if x \<noteq> y
      then if x > y
           then case diff_arrays (x # arr1) arr2 of (only1, only2) \<Rightarrow> (only1, y # only2)
           else case diff_arrays arr1 (y # arr2) of (only1, only2) \<Rightarrow> (x # only1, only2)
      else diff_arrays arr1 arr2)"

lemma diff_arrays_mset:
  "sorted xs \<Longrightarrow> sorted ys \<Longrightarrow>
     mset (fst (diff_arrays xs ys)) = mset xs - mset ys \<and>
     mset (snd (diff_arrays xs ys)) = mset ys - mset xs"
proof (induction xs ys rule: diff_arrays.induct)
  case (3 x xs y ys)
  consider "x > y" | "x < y" | "x = y" by linarith
  then show ?case
  proof cases
    case 1
    then have "y \<notin> set (x # xs)" using "3.prems" by auto
    then have "add_mset y (mset ys) - mset (x # xs) = add_mset y (mset ys - mset (x # xs))"
      and "mset (x # xs) - add_mset y (mset ys) = mset (x # xs) - mset ys"
      by (simp_all add: add_mset_diff_bothsides diff_add_mset_swap not_in_iff [symmetric]
          flip: set_mset_mset)
    with 1 3 show ?thesis by (auto split: prod.splits)
  next
    case 2
    then have "x \<notin> set (y # ys)" using "3.prems" by auto
    then have "add_mset x (mset xs) - mset (y # ys) = add_mset x (mset xs - mset (y # ys))"
      and "mset (y # ys) - add_mset x (mset xs) = mset (y # ys) - mset xs"
      by (simp_all add: diff_add_mset_swap flip: set_mset_mset)
    with 2 3 show ?thesis by (auto split: prod.splits)
  next
    case 3
    with "3.IH"(3) "3.prems" show ?thesis by simp
  qed
qed simp_all

lemma diff_arrays_subset:
  "set (fst (diff_arrays xs ys)) \<subseteq> set xs \<and> set (snd (diff_arrays xs ys)) \<subseteq> set ys"
  by (induction xs ys rule: diff_arrays.induct) (auto split: prod.splits)

lemma diff_arrays_sorted:
  "sorted xs \<Longrightarrow> sorted ys \<Longrightarrow>
     sorted (fst (diff_arrays xs ys)) \<and> sorted (snd (diff_arrays xs ys))"
proof (induction xs ys rule: diff_arrays.induct)
  case (3 x xs y ys)
  then show ?case
    using diff_arrays_subset [of "x # xs" ys] diff_arrays_subset [of xs "y # ys"]
    by (auto split: prod.splits)
qed simp_all

lemma diff_arrays_sets:
  assumes "sorted xs" "distinct xs" "sorted ys" "distinct ys"
  shows "set (fst (diff_arrays xs ys)) = set xs - set ys"
    and "set (snd (diff_arrays xs ys)) = set ys - set xs"
proof -
  have sub: "set_mset (mset as - mset bs) = set as - set bs" if "distinct as" for as bs :: "int list"
  proof -
    have one: "count (mset as) i = (if i \<in> set as then 1 else 0)" for i
      using that by (simp add: distinct_count_atmost_1)
    have "i \<in># mset as - mset bs \<longleftrightarrow> i \<in> set as - set bs" for i
      unfolding in_diff_count one by (simp flip: count_mset_0_iff)
    then show ?thesis by blast
  qed
  show "set (fst (diff_arrays xs ys)) = set xs - set ys"
    using diff_arrays_mset [OF assms(1,3)] sub [OF assms(2)] by (metis set_mset_mset)
  show "set (snd (diff_arrays xs ys)) = set ys - set xs"
    using diff_arrays_mset [OF assms(1,3)] sub [OF assms(4)] by (metis set_mset_mset)
qed

text \<open>On sorted arrays \<^verbatim>\<open>diff_arrays\<close> computes the two multiset differences, sorted: nothing is
  lost, duplicates included, and no element is in both results.\<close>

theorem diff_arrays_correct:
  assumes "sorted arr1" and "sorted arr2" and "diff_arrays arr1 arr2 = (only1, only2)"
  shows "mset only1 = mset arr1 - mset arr2 \<and> mset only2 = mset arr2 - mset arr1
    \<and> sorted only1 \<and> sorted only2 \<and> set only1 \<inter> set only2 = {}"
proof -
  have m: "mset only1 = mset arr1 - mset arr2" "mset only2 = mset arr2 - mset arr1"
    using diff_arrays_mset [OF assms(1,2)] assms(3) by auto
  have "count (mset only1) i = 0 \<or> count (mset only2) i = 0" for i
    unfolding m by simp arith
  then have "set only1 \<inter> set only2 = {}"
    by (metis disjoint_iff count_mset_0_iff)
  with m diff_arrays_sorted [OF assms(1,2)] assms(3) show ?thesis by auto
qed

theorem diff_arrays_correct_witness:
  "mset [1, 5 :: int] = mset [1, 2, 2, 5] - mset [2, 2, 4]
    \<and> diff_arrays [1, 2, 2, 5] [2, 2, 4] = ([1, 5], [4])"
  using diff_arrays_correct [of "[1, 2, 2, 5]" "[2, 2, 4]" "[1, 5]" "[4]"] by simp

section \<open>The map of installed ids\<close>

definition map_isset :: "bool list \<Rightarrow> int \<Rightarrow> bool" where
  "map_isset m idx = m ! nat (idx - 1)"

definition map_set :: "bool list \<Rightarrow> int \<Rightarrow> bool list" where
  "map_set m idx = m[nat (idx - 1) := True]"

definition map_unset :: "bool list \<Rightarrow> int \<Rightarrow> bool list" where
  "map_unset m idx = m[nat (idx - 1) := False]"

definition get_ids_from_map :: "bool list \<Rightarrow> int list" where
  "get_ids_from_map m = filter (map_isset m) [1..int (length m)]"

definition ids_of :: "bool list \<Rightarrow> int set" where
  "ids_of m = set (get_ids_from_map m)"

lemma ids_of_iff: "i \<in> ids_of m \<longleftrightarrow> 1 \<le> i \<and> i \<le> int (length m) \<and> m ! nat (i - 1)"
  by (auto simp: ids_of_def get_ids_from_map_def map_isset_def)

lemma get_ids_sorted: "sorted (get_ids_from_map m)" "distinct (get_ids_from_map m)"
  by (simp_all add: get_ids_from_map_def sorted_wrt_filter)

lemma length_map_set [simp]:
  "length (map_set m i) = length m" "length (map_unset m i) = length m"
  by (simp_all add: map_set_def map_unset_def)

lemma ids_of_empty [simp]: "ids_of (replicate n False) = {}"
  by (auto simp: ids_of_iff)

lemma ids_of_map_set:
  assumes "1 \<le> i" and "i \<le> int (length m)"
  shows "ids_of (map_set m i) = insert i (ids_of m)" "ids_of (map_unset m i) = ids_of m - {i}"
proof -
  have same: "j = i" if "nat (i - 1) = nat (j - 1)" "1 \<le> j" for j using that assms by linarith
  have "nat (i - 1) < length m" using assms by linarith
  then show "ids_of (map_set m i) = insert i (ids_of m)"
    "ids_of (map_unset m i) = ids_of m - {i}"
    using assms by (auto simp: ids_of_iff map_set_def map_unset_def nth_list_update split: if_splits dest: same)
qed

section \<open>Replay\<close>

definition items_of :: "int \<Rightarrow> item_row list \<Rightarrow> item_row list" where
  "items_of trans_id rows = order_by it_rpm_id (filter (\<lambda>r. it_trans_id r = trans_id) rows)"

record history_delta =
  added_ids :: "int list"
  removed_ids :: "int list"

text \<open>\<^verbatim>\<open>history_delta_read\<close>: both arrays have room for as many ids as there are known rpms.\<close>

definition delta_read_row :: "int \<Rightarrow> item_row \<Rightarrow> history_delta \<Rightarrow> herr + history_delta" where
  "delta_read_row max_count r delta =
     (if it_type r = HISTORY_ITEM_TYPE_ADD \<or> it_type r = HISTORY_ITEM_TYPE_SET
      then if int (length (added_ids delta)) < max_count
           then Inr (delta\<lparr>added_ids := added_ids delta @ [it_rpm_id r]\<rparr>) else Inl (RC (-1))
      else if it_type r = HISTORY_ITEM_TYPE_REMOVE
      then if int (length (removed_ids delta)) < max_count
           then Inr (delta\<lparr>removed_ids := removed_ids delta @ [it_rpm_id r]\<rparr>) else Inl (RC (-1))
      else Inr delta)"

definition history_delta_read :: "int \<Rightarrow> (conn, history_delta) hm" where
  "history_delta_read trans_id =
     bnd (db_rpms_count 0) (\<lambda>max_count.
     bnd (sql_prepare t_trans_items) (\<lambda>rows.
     bnd sql_ok (\<lambda>_.
       for_rows (delta_read_row max_count) (items_of trans_id rows)
         \<lparr>added_ids = [], removed_ids = []\<rparr>)))"

definition play_delta_row :: "int \<Rightarrow> item_row \<Rightarrow> bool list \<Rightarrow> herr + bool list" where
  "play_delta_row map_size r m =
     (if \<not> (it_rpm_id r > 0 \<and> it_rpm_id r \<le> map_size) then Inl (RC (-1))
      else if \<not> (it_type r = HISTORY_ITEM_TYPE_ADD \<or> it_type r = HISTORY_ITEM_TYPE_REMOVE)
      then Inl (RC (-1))
      else if it_type r = HISTORY_ITEM_TYPE_ADD then Inr (map_set m (it_rpm_id r))
      else Inr (map_unset m (it_rpm_id r)))"

definition db_play_delta :: "int \<Rightarrow> bool list \<Rightarrow> int \<Rightarrow> (conn, bool list) hm" where
  "db_play_delta trans_id installed_map map_size =
     bnd (sql_prepare t_trans_items) (\<lambda>rows.
     bnd sql_ok (\<lambda>_.
       for_rows (play_delta_row map_size) (items_of trans_id rows) installed_map))"

definition play_set_row :: "int \<Rightarrow> item_row \<Rightarrow> bool list \<Rightarrow> herr + bool list" where
  "play_set_row map_size r m =
     (if \<not> (it_rpm_id r > 0 \<and> it_rpm_id r \<le> map_size) then Inl (RC (-1))
      else if it_type r \<noteq> HISTORY_ITEM_TYPE_SET then Inl (RC (-1))
      else Inr (map_set m (it_rpm_id r)))"

definition db_play_set :: "int \<Rightarrow> bool list \<Rightarrow> int \<Rightarrow> (conn, bool list) hm" where
  "db_play_set trans_id installed_map map_size =
     bnd (sql_prepare t_trans_items) (\<lambda>rows.
     bnd sql_ok (\<lambda>_.
       for_rows (play_set_row map_size) (items_of trans_id rows) installed_map))"

text \<open>The search for the most recent baseline: \<open>None\<close> when the loop ends on something but a row.\<close>

fun find_base :: "int \<Rightarrow> trans_row list \<Rightarrow> (conn, int option) hm" where
  "find_base trans_id [] c = (Inr None, snd (sql_answer c))"
| "find_base trans_id (r # rows) c =
     (case sql_answer c of (ok, d) \<Rightarrow>
        if \<not> ok then (Inr None, d)
        else if tr_id r \<le> trans_id then (Inr (Some (tr_id r)), d)
        else find_base trans_id rows d)"

fun play_deltas :: "int list \<Rightarrow> bool list \<Rightarrow> int \<Rightarrow> (conn, bool list) hm" where
  "play_deltas [] installed_map map_size = ret installed_map"
| "play_deltas (idx # ids) installed_map map_size =
     bnd (db_play_delta idx installed_map map_size) (\<lambda>m. play_deltas ids m map_size)"

definition db_play_transaction :: "int \<Rightarrow> bool list \<Rightarrow> int \<Rightarrow> (conn, bool list) hm" where
  "db_play_transaction trans_id installed_map map_size =
     bnd (sql_prepare t_transactions) (\<lambda>rows.
     bnd sql_ok (\<lambda>_.
     bnd (find_base trans_id
            (order_by_desc tr_id (filter (\<lambda>r. tr_type r = HISTORY_TRANS_TYPE_BASE) rows))) (\<lambda>base.
       case base of
         None \<Rightarrow> failH (RC (-1))
       | Some base_id \<Rightarrow>
           bnd (db_play_set base_id installed_map map_size) (\<lambda>m.
             play_deltas [base_id + 1..trans_id] m map_size))))"

section \<open>The log the tables stand for\<close>

datatype log_entry = Baseline "int set" | Delta "int set" "int set"

fun apply_entry :: "log_entry \<Rightarrow> int set \<Rightarrow> int set" where
  "apply_entry (Baseline ids) installed = ids"
| "apply_entry (Delta added removed) installed = installed \<union> added - removed"

definition trans_list :: "history_db \<Rightarrow> trans_row list" where
  "trans_list d = (case t_transactions d of None \<Rightarrow> [] | Some rows \<Rightarrow> rows)"

definition item_list :: "history_db \<Rightarrow> item_row list" where
  "item_list d = (case t_trans_items d of None \<Rightarrow> [] | Some rows \<Rightarrow> rows)"

definition ids_typed :: "item_row list \<Rightarrow> int \<Rightarrow> int \<Rightarrow> int set" where
  "ids_typed rows t type = set (map it_rpm_id (filter (\<lambda>r. it_trans_id r = t \<and> it_type r = type) rows))"

definition trans_type :: "history_db \<Rightarrow> int \<Rightarrow> int" where
  "trans_type d t = tr_type (trans_list d ! nat (t - 1))"

definition last_trans :: "history_db \<Rightarrow> int" where
  "last_trans d = int (length (trans_list d))"

definition entry :: "history_db \<Rightarrow> int \<Rightarrow> log_entry" where
  "entry d t = (if trans_type d t = HISTORY_TRANS_TYPE_BASE
     then Baseline (ids_typed (item_list d) t HISTORY_ITEM_TYPE_SET)
     else Delta (ids_typed (item_list d) t HISTORY_ITEM_TYPE_ADD)
                (ids_typed (item_list d) t HISTORY_ITEM_TYPE_REMOVE))"

definition state_at :: "history_db \<Rightarrow> int \<Rightarrow> int set" where
  "state_at d t = fold (\<lambda>i. apply_entry (entry d i)) [1..t] {}"

text \<open>An item fits its transaction: known rpm id, and the kind of item its kind of transaction has.\<close>

definition item_ok :: "history_db \<Rightarrow> item_row \<Rightarrow> bool" where
  "item_ok d r \<longleftrightarrow> 1 \<le> it_trans_id r \<and> it_trans_id r \<le> last_trans d
     \<and> 1 \<le> it_rpm_id r \<and> it_rpm_id r \<le> int (length (rpm_rows d))
     \<and> (if trans_type d (it_trans_id r) = HISTORY_TRANS_TYPE_BASE
        then it_type r = HISTORY_ITEM_TYPE_SET
        else it_type r = HISTORY_ITEM_TYPE_ADD \<or> it_type r = HISTORY_ITEM_TYPE_REMOVE)"

definition no_conflict :: "item_row list \<Rightarrow> bool" where
  "no_conflict rows \<longleftrightarrow> (\<forall>r \<in> set rows. \<forall>q \<in> set rows.
     it_trans_id r = it_trans_id q \<and> it_type r = HISTORY_ITEM_TYPE_ADD
     \<and> it_type q = HISTORY_ITEM_TYPE_REMOVE \<longrightarrow> it_rpm_id r \<noteq> it_rpm_id q)"

text \<open>
  The invariant of a database with a history: keys run from 1, the first transaction is a baseline,
  items fit, and no transaction both adds and removes an rpm.
\<close>

definition log_ok :: "history_db \<Rightarrow> bool" where
  "log_ok d \<longleftrightarrow> t_rpms d \<noteq> None \<and> t_transactions d \<noteq> None \<and> t_trans_items d \<noteq> None
     \<and> dict_ok (rpm_rows d) \<and> keys_ok (map tr_id (trans_list d))
     \<and> trans_list d \<noteq> [] \<and> trans_type d 1 = HISTORY_TRANS_TYPE_BASE
     \<and> list_all (item_ok d) (item_list d) \<and> no_conflict (item_list d)"

lemma ids_typed_iff:
  "i \<in> ids_typed rows t ty \<longleftrightarrow> (\<exists>r \<in> set rows. it_trans_id r = t \<and> it_type r = ty \<and> it_rpm_id r = i)"
  by (auto simp: ids_typed_def)

lemma set_items_of: "set (items_of t rows) = {r \<in> set rows. it_trans_id r = t}"
  by (auto simp: items_of_def order_by_def)

section \<open>The replay computes the state of the log\<close>

lemma play_set_rows:
  assumes "\<forall>r \<in> set rows. 1 \<le> it_rpm_id r \<and> it_rpm_id r \<le> int (length m) \<and> it_type r = HISTORY_ITEM_TYPE_SET"
  shows "\<exists>m'. fold_checked (play_set_row (int (length m))) rows m = Inr m'
    \<and> length m' = length m \<and> ids_of m' = ids_of m \<union> it_rpm_id ` set rows"
  using assms
proof (induction rows arbitrary: m)
  case (Cons r rows)
  let ?m = "map_set m (it_rpm_id r)"
  from Cons.prems have r: "1 \<le> it_rpm_id r" "it_rpm_id r \<le> int (length m)" by auto
  obtain m' where "fold_checked (play_set_row (int (length ?m))) rows ?m = Inr m'"
    "length m' = length ?m" "ids_of m' = ids_of ?m \<union> it_rpm_id ` set rows"
    using Cons.IH [of ?m] Cons.prems by auto
  moreover have "play_set_row (int (length m)) r m = Inr ?m"
    using Cons.prems by (simp add: play_set_row_def)
  ultimately show ?case using ids_of_map_set(1) [OF r] by auto
qed simp

lemma play_delta_rows:
  assumes "\<forall>r \<in> set rows. 1 \<le> it_rpm_id r \<and> it_rpm_id r \<le> int (length m) \<and> it_trans_id r = t
      \<and> (it_type r = HISTORY_ITEM_TYPE_ADD \<or> it_type r = HISTORY_ITEM_TYPE_REMOVE)"
    and "no_conflict rows"
  shows "\<exists>m'. fold_checked (play_delta_row (int (length m))) rows m = Inr m' \<and> length m' = length m
    \<and> ids_of m' = ids_of m \<union> ids_typed rows t HISTORY_ITEM_TYPE_ADD - ids_typed rows t HISTORY_ITEM_TYPE_REMOVE"
  using assms
proof (induction rows arbitrary: m)
  case Nil
  then show ?case by (simp add: ids_typed_def)
next
  case (Cons r rows)
  define m1 where "m1 = (if it_type r = HISTORY_ITEM_TYPE_ADD then map_set m (it_rpm_id r)
    else map_unset m (it_rpm_id r))"
  from Cons.prems have r: "1 \<le> it_rpm_id r" "it_rpm_id r \<le> int (length m)" by auto
  have len: "length m1 = length m" by (simp add: m1_def)
  have step: "play_delta_row (int (length m)) r m = Inr m1"
    using Cons.prems by (auto simp: play_delta_row_def m1_def)
  have "no_conflict rows" using Cons.prems(2) by (simp add: no_conflict_def)
  then obtain m' where m': "fold_checked (play_delta_row (int (length m1))) rows m1 = Inr m'"
    "length m' = length m1" "ids_of m' = ids_of m1 \<union> ids_typed rows t HISTORY_ITEM_TYPE_ADD
        - ids_typed rows t HISTORY_ITEM_TYPE_REMOVE"
    using Cons.IH [of m1] Cons.prems(1) len by auto
  have clash: "it_type r = HISTORY_ITEM_TYPE_ADD \<Longrightarrow> it_rpm_id r \<notin> ids_typed rows t HISTORY_ITEM_TYPE_REMOVE"
    "it_type r = HISTORY_ITEM_TYPE_REMOVE \<Longrightarrow> it_rpm_id r \<notin> ids_typed rows t HISTORY_ITEM_TYPE_ADD"
    using Cons.prems by (force simp: no_conflict_def ids_typed_iff)+
  have "it_trans_id r = t" and "it_type r = HISTORY_ITEM_TYPE_ADD \<or> it_type r = HISTORY_ITEM_TYPE_REMOVE"
    using Cons.prems(1) by auto
  then have "ids_of m1 \<union> ids_typed rows t HISTORY_ITEM_TYPE_ADD - ids_typed rows t HISTORY_ITEM_TYPE_REMOVE
      = ids_of m \<union> ids_typed (r # rows) t HISTORY_ITEM_TYPE_ADD
        - ids_typed (r # rows) t HISTORY_ITEM_TYPE_REMOVE"
    using clash ids_of_map_set [OF r] by (auto simp: m1_def ids_typed_def)
  with step m' len show ?case by auto
qed

lemma no_conflict_subset: "no_conflict rows \<Longrightarrow> set rows' \<subseteq> set rows \<Longrightarrow> no_conflict rows'"
  unfolding no_conflict_def by blast

lemma items_in_log:
  assumes "log_ok d" and "r \<in> set (items_of t (item_list d))"
  shows "it_trans_id r = t" "item_ok d r"
  using assms by (auto simp: log_ok_def set_items_of list_all_iff)

lemma db_play_set_ok:
  assumes "log_ok (cur c)" "faults c = []" "length m = length (rpm_rows (cur c))"
    and "trans_type (cur c) t = HISTORY_TRANS_TYPE_BASE"
  shows "\<exists>m'. db_play_set t m (int (length m)) c = (Inr m', c) \<and> length m' = length m
    \<and> ids_of m' = ids_of m \<union> ids_typed (item_list (cur c)) t HISTORY_ITEM_TYPE_SET"
proof -
  let ?rows = "items_of t (item_list (cur c))"
  have ok: "\<forall>r \<in> set ?rows. 1 \<le> it_rpm_id r \<and> it_rpm_id r \<le> int (length m) \<and> it_type r = HISTORY_ITEM_TYPE_SET"
    using items_in_log [OF assms(1)] assms(3,4) by (fastforce simp: item_ok_def)
  have "it_rpm_id ` set ?rows = ids_typed (item_list (cur c)) t HISTORY_ITEM_TYPE_SET"
    using ok unfolding set_items_of by (auto simp: ids_typed_iff image_iff) metis+
  moreover have "t_trans_items (cur c) = Some (item_list (cur c))"
    using assms(1) by (auto simp: log_ok_def item_list_def)
  ultimately show ?thesis
    using play_set_rows [OF ok] assms(2) by (simp add: db_play_set_def sql_simps)
qed

lemma db_play_delta_ok:
  assumes "log_ok (cur c)" "faults c = []" "length m = length (rpm_rows (cur c))"
    and "trans_type (cur c) t \<noteq> HISTORY_TRANS_TYPE_BASE"
  shows "\<exists>m'. db_play_delta t m (int (length m)) c = (Inr m', c) \<and> length m' = length m
    \<and> ids_of m' = apply_entry (entry (cur c) t) (ids_of m)"
proof -
  let ?rows = "items_of t (item_list (cur c))"
  have ok: "\<forall>r \<in> set ?rows. 1 \<le> it_rpm_id r \<and> it_rpm_id r \<le> int (length m) \<and> it_trans_id r = t
      \<and> (it_type r = HISTORY_ITEM_TYPE_ADD \<or> it_type r = HISTORY_ITEM_TYPE_REMOVE)"
    using items_in_log [OF assms(1)] assms(3,4) by (fastforce simp: item_ok_def)
  have "no_conflict ?rows"
    using assms(1) by (auto simp: log_ok_def set_items_of elim: no_conflict_subset)
  moreover have "ids_typed ?rows t ty = ids_typed (item_list (cur c)) t ty" for ty
    by (auto simp: ids_typed_iff set_items_of)
  moreover have "t_trans_items (cur c) = Some (item_list (cur c))"
    using assms(1) by (auto simp: log_ok_def item_list_def)
  ultimately show ?thesis
    using play_delta_rows [OF ok] assms(2,4) by (simp add: db_play_delta_def sql_simps entry_def)
qed

lemma play_deltas_ok:
  assumes "log_ok (cur c)" "faults c = []"
    and "length m = length (rpm_rows (cur c))"
    and "\<forall>t \<in> set ts. trans_type (cur c) t \<noteq> HISTORY_TRANS_TYPE_BASE"
  shows "\<exists>m'. play_deltas ts m (int (length m)) c = (Inr m', c) \<and> length m' = length m
    \<and> ids_of m' = fold (\<lambda>i. apply_entry (entry (cur c) i)) ts (ids_of m)"
  using assms(3,4)
proof (induction ts arbitrary: m)
  case (Cons t ts)
  obtain m1 where m1: "db_play_delta t m (int (length m)) c = (Inr m1, c)" "length m1 = length m"
    "ids_of m1 = apply_entry (entry (cur c) t) (ids_of m)"
    using db_play_delta_ok [OF assms(1,2) Cons.prems(1), of t] Cons.prems(2) by auto
  with Cons.IH [of m1] Cons.prems show ?case by auto
qed simp

lemma find_base_ok [sql_simps]:
  "faults c = [] \<Longrightarrow>
     find_base t rows c = (Inr (map_option tr_id (List.find (\<lambda>r. tr_id r \<le> t) rows)), c)"
  by (induction rows) (auto simp: sql_simps)

lemma find_first_descending:
  assumes "sorted_wrt (\<lambda>a b. key b < (key a :: int)) rows"
    and "q \<in> set rows" "key q \<le> t"
  shows "\<exists>r \<in> set rows. List.find (\<lambda>r. key r \<le> t) rows = Some r \<and> key r \<le> t
    \<and> (\<forall>p \<in> set rows. key p \<le> t \<longrightarrow> key p \<le> key r)"
  using assms
proof (induction rows)
  case (Cons a rows)
  show ?case
  proof (cases "key a \<le> t")
    case True
    with Cons.prems(1) show ?thesis by auto
  next
    case False
    with Cons.prems have "q \<in> set rows" by auto
    with Cons False show ?thesis by auto
  qed
qed simp

lemma keyed_nth:
  assumes "keys_ok (map key rows)"
  shows "r \<in> set rows \<Longrightarrow> 1 \<le> key r \<and> key r \<le> int (length rows) \<and> rows ! nat (key r - 1) = r"
    and "1 \<le> i \<Longrightarrow> i \<le> int (length rows) \<Longrightarrow> rows ! nat (i - 1) \<in> set rows \<and> key (rows ! nat (i - 1)) = i"
proof -
  have nth: "key (rows ! k) = int k + 1" if "k < length rows" for k
    using keys_ok_nth [OF assms, of k] that by simp
  show "1 \<le> key r \<and> key r \<le> int (length rows) \<and> rows ! nat (key r - 1) = r" if r: "r \<in> set rows"
    using r nth by (auto simp: in_set_conv_nth)
  show "rows ! nat (i - 1) \<in> set rows \<and> key (rows ! nat (i - 1)) = i"
    if "1 \<le> i" "i \<le> int (length rows)"
    using that nth [of "nat (i - 1)"] by simp
qed

text \<open>The search finds the last baseline at or before \<open>t\<close>.\<close>

lemma find_base_log:
  assumes "log_ok (cur c)" "faults c = []" "1 \<le> t" "t \<le> last_trans (cur c)"
  shows "\<exists>b. find_base t (order_by_desc tr_id (filter (\<lambda>r. tr_type r = HISTORY_TRANS_TYPE_BASE)
             (trans_list (cur c)))) c = (Inr (Some b), c)
    \<and> 1 \<le> b \<and> b \<le> t \<and> trans_type (cur c) b = HISTORY_TRANS_TYPE_BASE
    \<and> (\<forall>i \<in> set [b + 1..t]. trans_type (cur c) i \<noteq> HISTORY_TRANS_TYPE_BASE)"
proof -
  define trs where "trs = trans_list (cur c)"
  define bases where "bases = filter (\<lambda>r. tr_type r = HISTORY_TRANS_TYPE_BASE) trs"
  have keys: "keys_ok (map tr_id trs)" and ne: "trs \<noteq> []"
    and first: "tr_type (trs ! 0) = HISTORY_TRANS_TYPE_BASE"
    using assms(1) by (auto simp: log_ok_def trs_def trans_type_def)
  have n: "last_trans (cur c) = int (length trs)" by (simp add: last_trans_def trs_def)
  have "sorted_wrt (\<lambda>a b. tr_id a < tr_id b) trs"
    using keys_ok_sorted [OF keys] by (simp add: strict_sorted_iff flip: sorted_wrt_map)
  then have strict: "sorted_wrt (\<lambda>a b. tr_id a < tr_id b) bases"
    by (simp add: bases_def sorted_wrt_filter)
  then have "sorted_wrt (\<lambda>a b. tr_id a \<le> tr_id b) bases"
    by (rule sorted_wrt_mono_rel [rotated]) simp
  then have "sorted (map tr_id bases)" by (simp add: sorted_wrt_map)
  then have order: "order_by_desc tr_id bases = rev bases"
    by (simp add: order_by_desc_def sort_key_id_if_sorted)
  have "trs ! 0 \<in> set (rev bases)" "tr_id (trs ! 0) \<le> t"
    using keyed_nth(2) [OF keys, of 1] first ne assms(3) by (auto simp: bases_def Suc_leI)
  then obtain r where r: "r \<in> set (rev bases)" "List.find (\<lambda>r. tr_id r \<le> t) (rev bases) = Some r"
    "tr_id r \<le> t" and max: "\<And>p. p \<in> set (rev bases) \<Longrightarrow> tr_id p \<le> t \<Longrightarrow> tr_id p \<le> tr_id r"
    using find_first_descending [of tr_id "rev bases" "trs ! 0" t] strict by (auto simp: sorted_wrt_rev)
  have rt: "r \<in> set trs" "tr_type r = HISTORY_TRANS_TYPE_BASE" using r(1) by (auto simp: bases_def)
  have later: "trans_type (cur c) i \<noteq> HISTORY_TRANS_TYPE_BASE" if "tr_id r < i" "i \<le> t" for i
  proof
    assume base: "trans_type (cur c) i = HISTORY_TRANS_TYPE_BASE"
    have i: "1 \<le> i" "i \<le> int (length trs)" using that keyed_nth(1) [OF keys rt(1)] assms(4) n by auto
    from keyed_nth(2) [OF keys i] base have "trs ! nat (i - 1) \<in> set (rev bases)"
      "tr_id (trs ! nat (i - 1)) = i" by (auto simp: bases_def trans_type_def trs_def)
    with max [of "trs ! nat (i - 1)"] that show False by auto
  qed
  have "find_base t (order_by_desc tr_id bases) c = (Inr (Some (tr_id r)), c)"
    using assms(2) r(2) order by (simp add: sql_simps)
  moreover have "trans_type (cur c) (tr_id r) = HISTORY_TRANS_TYPE_BASE" "1 \<le> tr_id r"
    using keyed_nth(1) [OF keys rt(1)] rt(2) by (auto simp: trans_type_def trs_def)
  ultimately show ?thesis
    using r(3) later unfolding bases_def trs_def by auto
qed

lemma state_at_from_base:
  assumes "1 \<le> b" "b \<le> t" "trans_type d b = HISTORY_TRANS_TYPE_BASE"
  shows "state_at d t = fold (\<lambda>i. apply_entry (entry d i)) [b + 1..t]
    (ids_typed (item_list d) b HISTORY_ITEM_TYPE_SET)"
proof -
  have "[1..t] = [1..b - 1] @ b # [b + 1..t]" using assms by (metis upto_split2 upto_rec1 upto_split1)
  with assms(3) show ?thesis by (simp add: state_at_def entry_def)
qed

lemma db_play_transaction_ok:
  assumes "log_ok (cur c)" "faults c = []" "1 \<le> t" "t \<le> last_trans (cur c)"
    and "length m = length (rpm_rows (cur c))" "ids_of m = {}"
  shows "\<exists>m'. db_play_transaction t m (int (length m)) c = (Inr m', c) \<and> length m' = length m
    \<and> ids_of m' = state_at (cur c) t"
proof -
  obtain b where b: "find_base t (order_by_desc tr_id (filter (\<lambda>r. tr_type r = HISTORY_TRANS_TYPE_BASE)
             (trans_list (cur c)))) c = (Inr (Some b), c)"
    "1 \<le> b" "b \<le> t" "trans_type (cur c) b = HISTORY_TRANS_TYPE_BASE"
    "\<forall>i \<in> set [b + 1..t]. trans_type (cur c) i \<noteq> HISTORY_TRANS_TYPE_BASE"
    using find_base_log [OF assms(1-4)] by blast
  obtain m1 where m1: "db_play_set b m (int (length m)) c = (Inr m1, c)" "length m1 = length m"
    "ids_of m1 = ids_typed (item_list (cur c)) b HISTORY_ITEM_TYPE_SET"
    using db_play_set_ok [OF assms(1,2,5) b(4)] assms(6) by auto
  have len: "length m1 = length (rpm_rows (cur c))" using m1(2) assms(5) by simp
  obtain m2 where m2: "play_deltas [b + 1..t] m1 (int (length m1)) c = (Inr m2, c)"
    "length m2 = length m1" "ids_of m2 = fold (\<lambda>i. apply_entry (entry (cur c) i)) [b + 1..t] (ids_of m1)"
    using play_deltas_ok [OF assms(1,2) len b(5)] by blast
  have "t_transactions (cur c) = Some (trans_list (cur c))"
    using assms(1) by (auto simp: log_ok_def trans_list_def)
  with b(1) m1 m2 show ?thesis
    using state_at_from_base [OF b(2-4)] assms(2)
    by (auto simp: db_play_transaction_def sql_simps)
qed

text \<open>The ids of the map of a replay, the form in which the callers use it.\<close>

definition replayed_ids :: "history_db \<Rightarrow> int \<Rightarrow> int list" where
  "replayed_ids d t = filter (\<lambda>i. i \<in> state_at d t) [1..int (length (rpm_rows d))]"

lemma ids_from_state: "ids_of m = S \<Longrightarrow> get_ids_from_map m = filter (\<lambda>i. i \<in> S) [1..int (length m)]"
  by (auto simp: ids_of_iff get_ids_from_map_def map_isset_def intro: filter_cong)

lemma apply_entry_bound:
  assumes "log_ok d" and "S \<subseteq> {1..int (length (rpm_rows d))}"
  shows "apply_entry (entry d i) S \<subseteq> {1..int (length (rpm_rows d))}"
proof -
  have "ids_typed (item_list d) t ty \<subseteq> {1..int (length (rpm_rows d))}" for t ty
    using assms(1) by (auto simp: ids_typed_iff log_ok_def list_all_iff item_ok_def)
  with assms(2) show ?thesis by (auto simp: entry_def subset_iff)
qed

lemma state_at_bound:
  assumes "log_ok d"
  shows "state_at d t \<subseteq> {1..int (length (rpm_rows d))}"
proof -
  have "fold (\<lambda>i. apply_entry (entry d i)) ts S \<subseteq> {1..int (length (rpm_rows d))}"
    if "S \<subseteq> {1..int (length (rpm_rows d))}" for ts S
    using that
  proof (induction ts arbitrary: S)
    case (Cons i ts)
    then show ?case using apply_entry_bound [OF assms] by simp
  qed simp
  then show ?thesis unfolding state_at_def by blast
qed

lemma replayed_ids_set:
  assumes "log_ok d"
  shows "set (replayed_ids d t) = state_at d t"
    and "sorted (replayed_ids d t)" and "distinct (replayed_ids d t)"
  using state_at_bound [OF assms, of t]
  by (auto simp: replayed_ids_def sorted_wrt_filter)

text \<open>C3: On a well formed history without I/O errors, replaying to a transaction succeeds and yields
  exactly the packages the log of baselines and deltas says were installed after it.\<close>

theorem play_transaction_replays:
  assumes "log_ok (cur c)" and "faults c = []" and "1 \<le> t" and "t \<le> last_trans (cur c)"
  shows "\<exists>m. db_play_transaction t (replicate (length (rpm_rows (cur c))) False)
              (int (length (rpm_rows (cur c)))) c = (Inr m, c)
    \<and> get_ids_from_map m = replayed_ids (cur c) t \<and> set (get_ids_from_map m) = state_at (cur c) t"
proof -
  obtain m where m: "db_play_transaction t (replicate (length (rpm_rows (cur c))) False)
              (int (length (rpm_rows (cur c)))) c = (Inr m, c)"
    "length m = length (rpm_rows (cur c))" "ids_of m = state_at (cur c) t"
    using db_play_transaction_ok [OF assms, of "replicate (length (rpm_rows (cur c))) False"] by auto
  then have "get_ids_from_map m = replayed_ids (cur c) t"
    by (simp add: ids_from_state [OF m(3)] replayed_ids_def)
  with m(1) replayed_ids_set(1) [OF assms(1)] show ?thesis by auto
qed

text \<open>A small history for the witnesses: a baseline, an update of one package, an installation.\<close>

definition sample_db :: history_db where
  "sample_db = \<lparr>t_rpms = Some [(1, ''a-1''), (2, ''a-2''), (3, ''b-1'')],
     t_names = Some [(1, ''a''), (2, ''b'')],
     t_transactions = Some
       [\<lparr>tr_id = 1, tr_cookie = Some ''c1'', tr_cmdline = Some ''(set)'', tr_timestamp = 10, tr_type = 0\<rparr>,
        \<lparr>tr_id = 2, tr_cookie = Some ''c2'', tr_cmdline = Some ''update'', tr_timestamp = 20, tr_type = 1\<rparr>,
        \<lparr>tr_id = 3, tr_cookie = Some ''c3'', tr_cmdline = Some ''install b'', tr_timestamp = 30, tr_type = 1\<rparr>],
     t_trans_items = Some
       [\<lparr>it_id = 1, it_trans_id = 1, it_type = 0, it_rpm_id = 1\<rparr>,
        \<lparr>it_id = 2, it_trans_id = 2, it_type = 1, it_rpm_id = 2\<rparr>,
        \<lparr>it_id = 3, it_trans_id = 2, it_type = 2, it_rpm_id = 1\<rparr>,
        \<lparr>it_id = 4, it_trans_id = 3, it_type = 1, it_rpm_id = 3\<rparr>],
     t_flag_set = Some
       [\<lparr>fl_id = 1, fl_trans_id = 2, fl_name_id = 1, fl_value = 1\<rparr>,
        \<lparr>fl_id = 2, fl_trans_id = 3, fl_name_id = 2, fl_value = 1\<rparr>]\<rparr>"

definition sample_conn :: conn where
  "sample_conn = \<lparr>cur = sample_db, saved = None, faults = []\<rparr>"

lemmas sample_defs = sample_conn_def sample_db_def

lemma upto_samples: "[1..1] = [1 :: int]" "[1..2] = [1, 2 :: int]" "[1..3] = [1, 2, 3 :: int]"
  "[2..3] = [2, 3 :: int]"
  by (simp_all add: upto_rec1)

lemma sample_log_ok: "log_ok sample_db"
  by (simp add: log_ok_def sample_db_def dict_ok_def keys_ok_def upto_samples rpm_rows_def
      trans_list_def item_list_def trans_type_def item_ok_def last_trans_def no_conflict_def
      numeral_2_eq_2)

lemma sample_states:
  "state_at sample_db 1 = {1}" "state_at sample_db 2 = {2}" "state_at sample_db 3 = {2, 3}"
  by (auto simp: state_at_def upto_samples entry_def trans_type_def trans_list_def item_list_def
      sample_db_def ids_typed_def numeral_2_eq_2)

theorem play_transaction_replays_witness:
  "\<exists>m. db_play_transaction 3 (replicate 3 False) 3 sample_conn = (Inr m, sample_conn)
     \<and> set (get_ids_from_map m) = {2, 3}"
proof -
  have "length (rpm_rows (cur sample_conn)) = 3" "last_trans (cur sample_conn) = 3"
    by (simp_all add: sample_defs rpm_rows_def last_trans_def trans_list_def)
  then show ?thesis
    using play_transaction_replays [of sample_conn 3] sample_log_ok sample_states(3)
    by (simp add: sample_conn_def) blast
qed

end
