(* ===== verification/Hist_Log.thy ===== *)
theory Hist_Log
  imports Hist_Play
begin

text \<open>
  Appending to the transaction log. \<open>append_change\<close> is what the writers of \<^verbatim>\<open>history/history.c\<close> do to
  the tables in a run without errors. The locale \<open>state_log\<close> is the contract of the log as its clients
  use it: a new entry determines the new state from the last one and no earlier state changes.
\<close>

section \<open>The interface of a log of states\<close>

locale state_log =
  fixes ok :: "'s \<Rightarrow> bool"
    and okc :: "'s \<Rightarrow> 'c \<Rightarrow> bool"
    and last_entry :: "'s \<Rightarrow> int"
    and state :: "'s \<Rightarrow> int \<Rightarrow> 'e set"
    and step :: "'c \<Rightarrow> 'e set \<Rightarrow> 'e set"
    and append :: "'c \<Rightarrow> 's \<Rightarrow> 's"
  assumes append_ok: "\<And>s c. ok s \<Longrightarrow> okc s c \<Longrightarrow> ok (append c s)"
    and okc_append: "\<And>s c c'. ok s \<Longrightarrow> okc s c \<Longrightarrow> okc s c' \<Longrightarrow> okc (append c s) c'"
    and last_append: "\<And>s c. ok s \<Longrightarrow> okc s c \<Longrightarrow> last_entry (append c s) = last_entry s + 1"
    and state_append_new: "\<And>s c. ok s \<Longrightarrow> okc s c \<Longrightarrow>
      state (append c s) (last_entry s + 1) = step c (state s (last_entry s))"
    and state_append_old: "\<And>s c t. ok s \<Longrightarrow> okc s c \<Longrightarrow> t \<le> last_entry s \<Longrightarrow>
      state (append c s) t = state s t"
begin

lemma appends_ok:
  "ok s \<Longrightarrow> list_all (okc s) cs \<Longrightarrow> ok (fold append cs s) \<and> last_entry (fold append cs s) = last_entry s + int (length cs)"
proof (induction cs arbitrary: s)
  case (Cons c cs)
  then have c: "ok s" "okc s c" by auto
  moreover have "list_all (okc (append c s)) cs"
    using Cons.prems okc_append by (auto simp: list_all_iff)
  ultimately show ?case using Cons.IH [of "append c s"] append_ok last_append by auto
qed simp

lemma appends_old:
  "ok s \<Longrightarrow> list_all (okc s) cs \<Longrightarrow> t \<le> last_entry s \<Longrightarrow> state (fold append cs s) t = state s t"
proof (induction cs arbitrary: s)
  case (Cons c cs)
  then have c: "ok s" "okc s c" by auto
  moreover have "list_all (okc (append c s)) cs"
    using Cons.prems okc_append by (auto simp: list_all_iff)
  ultimately show ?case
    using Cons.IH [of "append c s"] Cons.prems(3) append_ok last_append state_append_old by simp
qed simp

text \<open>Every intermediate state stays readable: after any sequence of changes, the state \<open>k\<close> entries
  on is the one the first \<open>k\<close> changes lead to.\<close>

lemma appends_states:
  assumes "ok s" and "list_all (okc s) cs" and "k \<le> length cs"
  shows "state (fold append cs s) (last_entry s + int k) = fold step (take k cs) (state s (last_entry s))"
  using assms
proof (induction cs arbitrary: s k)
  case Nil
  then show ?case by simp
next
  case (Cons c cs)
  then have c: "ok s" "okc s c" by auto
  have rest: "list_all (okc (append c s)) cs"
    using Cons.prems okc_append by (auto simp: list_all_iff)
  show ?case
  proof (cases k)
    case 0
    then show ?thesis using appends_old [OF Cons.prems(1,2), of "last_entry s"] by simp
  next
    case (Suc j)
    have "state (fold append cs (append c s)) (last_entry (append c s) + int j)
        = fold step (take j cs) (state (append c s) (last_entry (append c s)))"
      using Cons.IH [OF append_ok [OF c] rest, of j] Cons.prems(3) Suc by simp
    then show ?thesis
      using Suc last_append [OF c] state_append_new [OF c] by (simp add: algebra_simps)
  qed
qed

end

section \<open>Appending to the tables\<close>

datatype change = SetAll "int list" | AddRemove "int list" "int list"

fun change_type :: "change \<Rightarrow> int" where
  "change_type (SetAll ids) = HISTORY_TRANS_TYPE_BASE"
| "change_type (AddRemove added removed) = HISTORY_TRANS_TYPE_DELTA"

fun change_items :: "int \<Rightarrow> change \<Rightarrow> item_row list \<Rightarrow> item_row list" where
  "change_items t (SetAll ids) rows = item_rows t HISTORY_ITEM_TYPE_SET ids rows"
| "change_items t (AddRemove added removed) rows =
     item_rows t HISTORY_ITEM_TYPE_REMOVE removed (item_rows t HISTORY_ITEM_TYPE_ADD added rows)"

fun change_step :: "change \<Rightarrow> int set \<Rightarrow> int set" where
  "change_step (SetAll ids) installed = set ids"
| "change_step (AddRemove added removed) installed = installed \<union> set added - set removed"

fun change_ids :: "change \<Rightarrow> int set" where
  "change_ids (SetAll ids) = set ids"
| "change_ids (AddRemove added removed) = set added \<union> set removed"

fun change_disjoint :: "change \<Rightarrow> bool" where
  "change_disjoint (SetAll ids) = True"
| "change_disjoint (AddRemove added removed) = (set added \<inter> set removed = {})"

definition change_ok :: "history_db \<Rightarrow> change \<Rightarrow> bool" where
  "change_ok d ch \<longleftrightarrow> change_ids ch \<subseteq> {1..int (length (rpm_rows d))} \<and> change_disjoint ch"

record trans_info =
  ti_cookie :: "string option"
  ti_cmdline :: "string option"
  ti_time :: int

definition append_change :: "trans_info \<Rightarrow> change \<Rightarrow> history_db \<Rightarrow> history_db" where
  "append_change ti ch d = d\<lparr>
     t_transactions := Some (trans_list d @ [\<lparr>tr_id = last_trans d + 1, tr_cookie = ti_cookie ti,
       tr_cmdline = ti_cmdline ti, tr_timestamp = ti_time ti, tr_type = change_type ch\<rparr>]),
     t_trans_items := Some (change_items (last_trans d + 1) ch (item_list d))\<rparr>"

text \<open>The invariant without the demand that a history exists, for databases about to get one.\<close>

definition log_base :: "history_db \<Rightarrow> bool" where
  "log_base d \<longleftrightarrow> t_rpms d \<noteq> None \<and> dict_ok (rpm_rows d) \<and> keys_ok (map tr_id (trans_list d))
     \<and> (trans_list d \<noteq> [] \<longrightarrow> trans_type d 1 = HISTORY_TRANS_TYPE_BASE)
     \<and> list_all (item_ok d) (item_list d) \<and> no_conflict (item_list d)"

lemma log_ok_base:
  "log_ok d \<longleftrightarrow> log_base d \<and> t_transactions d \<noteq> None \<and> t_trans_items d \<noteq> None \<and> trans_list d \<noteq> []"
  by (auto simp: log_ok_def log_base_def)

text \<open>The rows a change adds for its transaction.\<close>

definition items_fit :: "int \<Rightarrow> change \<Rightarrow> item_row list \<Rightarrow> bool" where
  "items_fit t ch new \<longleftrightarrow> (\<forall>r \<in> set new. it_trans_id r = t \<and> it_rpm_id r \<in> change_ids ch)
     \<and> (case ch of
          SetAll ids \<Rightarrow> ids_typed new t HISTORY_ITEM_TYPE_SET = set ids
            \<and> (\<forall>r \<in> set new. it_type r = HISTORY_ITEM_TYPE_SET)
        | AddRemove added removed \<Rightarrow> ids_typed new t HISTORY_ITEM_TYPE_ADD = set added
            \<and> ids_typed new t HISTORY_ITEM_TYPE_REMOVE = set removed
            \<and> (\<forall>r \<in> set new. it_type r = HISTORY_ITEM_TYPE_ADD \<or> it_type r = HISTORY_ITEM_TYPE_REMOVE))"

lemma ids_typed_append: "ids_typed (xs @ ys) t ty = ids_typed xs t ty \<union> ids_typed ys t ty"
  by (simp add: ids_typed_def image_Un)

lemma ids_typed_uniform:
  assumes "\<forall>r \<in> set rows. it_trans_id r = t \<and> it_type r = ty"
  shows "ids_typed rows t ty' = (if ty' = ty then set (map it_rpm_id rows) else {})"
  using assms by (auto simp: ids_typed_def)

lemma ids_typed_other: "\<forall>r \<in> set rows. it_trans_id r \<noteq> t \<Longrightarrow> ids_typed rows t ty = {}"
  by (auto simp: ids_typed_def)

lemma change_items_shape: "\<exists>new. change_items t ch rows = rows @ new \<and> items_fit t ch new"
proof (cases ch)
  case (SetAll ids)
  obtain new where new: "item_rows t HISTORY_ITEM_TYPE_SET ids rows = rows @ new" "map it_rpm_id new = ids"
    "\<forall>r \<in> set new. it_trans_id r = t \<and> it_type r = HISTORY_ITEM_TYPE_SET"
    using item_rows_shape by blast
  then have "items_fit t ch new" using SetAll by (auto simp: items_fit_def ids_typed_uniform [OF new(3)])
  with new SetAll show ?thesis by auto
next
  case (AddRemove added removed)
  obtain n1 where n1: "item_rows t HISTORY_ITEM_TYPE_ADD added rows = rows @ n1" "map it_rpm_id n1 = added"
    "\<forall>r \<in> set n1. it_trans_id r = t \<and> it_type r = HISTORY_ITEM_TYPE_ADD"
    using item_rows_shape by blast
  obtain n2 where n2: "item_rows t HISTORY_ITEM_TYPE_REMOVE removed (rows @ n1) = (rows @ n1) @ n2"
    "map it_rpm_id n2 = removed" "\<forall>r \<in> set n2. it_trans_id r = t \<and> it_type r = HISTORY_ITEM_TYPE_REMOVE"
    using item_rows_shape by blast
  have "items_fit t ch (n1 @ n2)"
    using AddRemove n1(2,3) n2(2,3)
    by (auto simp: items_fit_def ids_typed_append ids_typed_uniform [OF n1(3)] ids_typed_uniform [OF n2(3)])
  with n1(1) n2(1) AddRemove show ?thesis by auto
qed

lemma append_change_fields:
  "rpm_rows (append_change ti ch d) = rpm_rows d" "t_rpms (append_change ti ch d) = t_rpms d"
  "t_names (append_change ti ch d) = t_names d" "t_flag_set (append_change ti ch d) = t_flag_set d"
  "last_trans (append_change ti ch d) = last_trans d + 1"
  "item_list (append_change ti ch d) = change_items (last_trans d + 1) ch (item_list d)"
  by (simp_all add: append_change_def rpm_rows_def last_trans_def trans_list_def item_list_def)

lemma append_trans_type:
  "trans_type (append_change ti ch d) t =
     (if t = last_trans d + 1 then change_type ch else trans_type d t)" if "1 \<le> t" "t \<le> last_trans d + 1"
proof -
  have "nat (t - 1) < length (trans_list d)" if "t \<noteq> last_trans d + 1"
    using that \<open>1 \<le> t\<close> \<open>t \<le> last_trans d + 1\<close> by (simp add: last_trans_def)
  moreover have "nat (last_trans d) = length (trans_list d)" by (simp add: last_trans_def)
  ultimately show ?thesis
    by (auto simp: trans_type_def append_change_def trans_list_def nth_append)
qed

lemma items_old_trans:
  assumes "log_base d" and "r \<in> set (item_list d)"
  shows "1 \<le> it_trans_id r" "it_trans_id r \<le> last_trans d"
  using assms by (auto simp: log_base_def list_all_iff item_ok_def)

lemma append_entry:
  assumes "log_base d" and "1 \<le> t" and "t \<le> last_trans d + 1"
  shows "apply_entry (entry (append_change ti ch d) t) S =
    (if t = last_trans d + 1 then change_step ch S else apply_entry (entry d t) S)"
proof -
  let ?n = "last_trans d + 1"
  obtain new where new: "change_items ?n ch (item_list d) = item_list d @ new" "items_fit ?n ch new"
    using change_items_shape by blast
  have old: "it_trans_id r \<noteq> ?n" if "r \<in> set (item_list d)" for r
    using items_old_trans [OF assms(1) that] by simp
  have "\<forall>r \<in> set (item_list d). it_trans_id r \<noteq> ?n" using old by blast
  then have ids: "ids_typed (item_list (append_change ti ch d)) t ty
      = (if t = ?n then ids_typed new t ty else ids_typed (item_list d) t ty)" for ty
    using new by (auto simp: append_change_fields ids_typed_append items_fit_def ids_typed_other)
  show ?thesis
    unfolding entry_def ids append_trans_type [OF assms(2,3)]
    using new(2) by (cases ch) (auto simp: items_fit_def)
qed

lemma append_change_ok:
  assumes "log_base d" and "change_ok d ch" and "trans_list d = [] \<Longrightarrow> change_type ch = HISTORY_TRANS_TYPE_BASE"
  shows "log_ok (append_change ti ch d)"
proof -
  let ?n = "last_trans d + 1" and ?e = "append_change ti ch d"
  obtain new where new: "change_items ?n ch (item_list d) = item_list d @ new" "items_fit ?n ch new"
    using change_items_shape by blast
  have n: "0 \<le> last_trans d" by (simp add: last_trans_def)
  have keys: "keys_ok (map tr_id (trans_list d))" using assms(1) by (simp add: log_base_def)
  have "keys_ok (map tr_id (trans_list ?e))"
    using keys_ok_snoc [OF keys] next_id_keys [OF keys]
    by (simp add: append_change_def trans_list_def last_trans_def)
  moreover have "trans_type ?e 1 = HISTORY_TRANS_TYPE_BASE"
    using assms(1,3) n append_trans_type [of 1 d ti ch]
    by (cases "trans_list d = []") (auto simp: log_base_def last_trans_def)
  moreover have "item_ok ?e r" if "r \<in> set (item_list ?e)" for r
  proof (cases "r \<in> set new")
    case True
    then have "it_trans_id r = ?n" "1 \<le> it_rpm_id r" "it_rpm_id r \<le> int (length (rpm_rows d))"
      using new(2) assms(2) by (auto simp: items_fit_def change_ok_def subset_iff)
    with True new(2) n show ?thesis
      by (cases ch) (auto simp: item_ok_def append_change_fields append_trans_type items_fit_def)
  next
    case False
    with that new have r: "r \<in> set (item_list d)" by (simp add: append_change_fields)
    then have "item_ok d r" using assms(1) by (simp add: log_base_def list_all_iff)
    then show ?thesis using append_trans_type [of "it_trans_id r" d ti ch]
      by (auto simp: item_ok_def append_change_fields)
  qed
  moreover have "no_conflict (item_list d @ new)"
  proof -
    have "it_rpm_id r \<noteq> it_rpm_id q" if "r \<in> set new" "q \<in> set new"
      "it_type r = HISTORY_ITEM_TYPE_ADD" "it_type q = HISTORY_ITEM_TYPE_REMOVE" for r q
    proof (cases ch)
      case (AddRemove added removed)
      have "it_rpm_id r \<in> ids_typed new ?n HISTORY_ITEM_TYPE_ADD" "it_rpm_id q \<in> ids_typed new ?n HISTORY_ITEM_TYPE_REMOVE"
        using that new(2) by (auto simp: ids_typed_iff items_fit_def)
      with assms(2) new(2) AddRemove show ?thesis by (auto simp: change_ok_def items_fit_def)
    qed (use that new(2) in \<open>auto simp: items_fit_def\<close>)
    moreover have "it_trans_id r \<noteq> it_trans_id q" if "r \<in> set new" "q \<in> set (item_list d)" for r q
      using items_old_trans(2) [OF assms(1) that(2)] that(1) new(2) by (fastforce simp: items_fit_def)
    moreover have "no_conflict (item_list d)" using assms(1) by (simp add: log_base_def)
    ultimately show ?thesis unfolding no_conflict_def set_append by (metis UnE)
  qed
  ultimately show ?thesis
    using assms(1) new(1)
    by (auto simp: log_ok_def log_base_def append_change_fields list_all_iff)
      (simp_all add: append_change_def trans_list_def)
qed

lemma state_at_cong:
  assumes "\<And>i S. 1 \<le> i \<Longrightarrow> i \<le> t \<Longrightarrow> apply_entry (entry d i) S = apply_entry (entry e i) S"
  shows "state_at d t = state_at e t"
  unfolding state_at_def by (rule fold_cong) (use assms in auto)

lemma append_state:
  assumes "log_base d"
  shows "t \<le> last_trans d \<Longrightarrow> state_at (append_change ti ch d) t = state_at d t"
    and "state_at (append_change ti ch d) (last_trans d + 1) = change_step ch (state_at d (last_trans d))"
proof -
  have n: "0 \<le> last_trans d" by (simp add: last_trans_def)
  show old: "state_at (append_change ti ch d) t = state_at d t" if "t \<le> last_trans d" for t
    by (rule state_at_cong) (use append_entry [OF assms] that in auto)
  have "[1..last_trans d + 1] = [1..last_trans d] @ [last_trans d + 1]"
    using n by (simp add: upto_rec2)
  then have "state_at (append_change ti ch d) (last_trans d + 1) =
      apply_entry (entry (append_change ti ch d) (last_trans d + 1)) (state_at (append_change ti ch d) (last_trans d))"
    by (simp add: state_at_def)
  then show "state_at (append_change ti ch d) (last_trans d + 1) = change_step ch (state_at d (last_trans d))"
    using append_entry [OF assms, of "last_trans d + 1"] n old [of "last_trans d"] by simp
qed

lemma log_okD: "log_ok d \<Longrightarrow> log_base d" "log_ok d \<Longrightarrow> trans_list d \<noteq> []"
  by (simp_all add: log_ok_base)

interpretation hist: state_log log_ok change_ok last_trans state_at change_step "append_change ti" for ti
  by unfold_locales
    (auto simp: log_okD append_state append_change_fields change_ok_def intro!: append_change_ok)

end
