(* ===== verification/Hist_Flags.thy ===== *)
theory Hist_Flags
  imports Hist_Play
begin

text \<open>
  The autoinstall flags of packages (\<^verbatim>\<open>history/history.c\<close>): a table of changes, each tagged with the
  transaction that made it. The value of a flag at a transaction is that of the last change up to
  it. The context operations provide the \<open>kv_store\<close> interface on names.
\<close>

section \<open>The operations\<close>

definition db_set_auto_flag_byid :: "int \<Rightarrow> int \<Rightarrow> int \<Rightarrow> (conn, unit) hm" where
  "db_set_auto_flag_byid trans_id name_id value =
     bnd (sql_prepare t_flag_set) (\<lambda>rows.
     bnd sql_ok (\<lambda>_. bnd sql_ok (\<lambda>_. bnd sql_ok (\<lambda>_.
     bnd (sql_write (\<lambda>d. d\<lparr>t_flag_set := Some (rows @
            [\<lparr>fl_id = next_id (map fl_id rows), fl_trans_id = trans_id, fl_name_id = name_id,
              fl_value = value\<rparr>])\<rparr>)) (\<lambda>done.
       check_cond done)))))"

definition db_set_auto_flag :: "int \<Rightarrow> string \<Rightarrow> int \<Rightarrow> (conn, unit) hm" where
  "db_set_auto_flag trans_id name value =
     bnd (sql_exec create_names) (\<lambda>_.
     bnd (db_get_dict_entry Names name True) (\<lambda>name_id.
     bnd (sql_exec create_flag_set) (\<lambda>_.
       case name_id of
         None \<Rightarrow> failH UNDEF
       | Some name_id \<Rightarrow> db_set_auto_flag_byid trans_id name_id value)))"

definition db_get_auto_flag_byid :: "int \<Rightarrow> int \<Rightarrow> (conn, int) hm" where
  "db_get_auto_flag_byid trans_id name_id =
     bnd (sql_prepare t_flag_set) (\<lambda>rows.
     bnd sql_ok (\<lambda>_. bnd sql_ok (\<lambda>_.
     bnd (sql_query1 (order_by_desc fl_id
            (filter (\<lambda>r. fl_name_id r = name_id \<and> fl_trans_id r \<le> trans_id) rows))) (\<lambda>step.
       ret (case step of Row r \<Rightarrow> fl_value r | _ \<Rightarrow> 0)))))"

definition db_get_auto_flag :: "int \<Rightarrow> string \<Rightarrow> (conn, int) hm" where
  "db_get_auto_flag trans_id name c =
     (case db_table_exists t_flag_set c of (rc, c) \<Rightarrow>
        if rc = SQLITE_DONE then (Inr 0, c)
        else if rc \<noteq> SQLITE_ROW then (Inl (RC (-1)), c)
        else case db_table_exists t_names c of (rc, c) \<Rightarrow>
        if rc = SQLITE_DONE then (Inr 0, c)
        else if rc \<noteq> SQLITE_ROW then (Inl (RC (-1)), c)
        else bnd (db_get_dict_entry Names name False) (\<lambda>name_id.
               case name_id of
                 None \<Rightarrow> failH UNDEF
               | Some name_id \<Rightarrow>
                   if name_id = 0 then ret 0 else db_get_auto_flag_byid trans_id name_id) c)"

definition history_set_auto_flag :: "string option \<Rightarrow> int \<Rightarrow> (history_ctx, unit) hm" where
  "history_set_auto_flag name value ctx =
     bnd (check_cond (name \<noteq> None)) (\<lambda>_.
     bnd (check_cond (h_trans_id ctx > 0)) (\<lambda>_.
     bnd (on_db (db_get_auto_flag (h_trans_id ctx) (the name))) (\<lambda>oldval.
       if oldval \<noteq> value then on_db (db_set_auto_flag (h_trans_id ctx) (the name) value)
       else ret ()))) ctx"

definition history_get_auto_flag :: "string option \<Rightarrow> (history_ctx, int) hm" where
  "history_get_auto_flag name ctx =
     bnd (check_cond (name \<noteq> None)) (\<lambda>_.
     bnd (check_cond (h_trans_id ctx > 0)) (\<lambda>_.
       on_db (db_get_auto_flag (h_trans_id ctx) (the name)))) ctx"

text \<open>
  The three functions below walk the ids of all names. \<open>with_names\<close> is their common prologue: no
  table of names means that there is nothing to do.
\<close>

definition with_names :: "'a \<Rightarrow> (int list \<Rightarrow> (conn, 'a) hm) \<Rightarrow> (conn, 'a) hm" where
  "with_names none body c =
     (case db_table_exists t_names c of (rc, c) \<Rightarrow>
        if rc = SQLITE_DONE then (Inr none, c)
        else if rc \<noteq> SQLITE_ROW then (Inl (RC (-1)), c)
        else bnd (db_maxid Names) (\<lambda>count. body [1..count]) c)"

fun restore_ids :: "int \<Rightarrow> int \<Rightarrow> int list \<Rightarrow> (conn, unit) hm" where
  "restore_ids trans_id now [] = ret ()"
| "restore_ids trans_id now (i # is) =
     bnd (db_get_auto_flag_byid trans_id i) (\<lambda>value.
     bnd (db_get_auto_flag_byid now i) (\<lambda>oldval.
     bnd (if value \<noteq> oldval then db_set_auto_flag_byid now i value else ret ()) (\<lambda>_.
       restore_ids trans_id now is)))"

definition history_restore_auto_flags :: "int \<Rightarrow> (history_ctx, unit) hm" where
  "history_restore_auto_flags trans_id ctx =
     on_db (with_names () (restore_ids trans_id (h_trans_id ctx))) ctx"

fun replay_ids :: "int \<Rightarrow> int \<Rightarrow> int \<Rightarrow> int list \<Rightarrow> (conn, unit) hm" where
  "replay_ids from to now [] = ret ()"
| "replay_ids from to now (i # is) =
     bnd (db_get_auto_flag_byid from i) (\<lambda>val_from.
     bnd (db_get_auto_flag_byid to i) (\<lambda>val_to.
     bnd (if val_from \<noteq> val_to
          then bnd (db_get_auto_flag_byid now i) (\<lambda>oldval.
                 if val_to \<noteq> oldval then db_set_auto_flag_byid now i val_to else ret ())
          else ret ()) (\<lambda>_.
       replay_ids from to now is)))"

definition history_replay_auto_flags :: "int \<Rightarrow> int \<Rightarrow> (history_ctx, unit) hm" where
  "history_replay_auto_flags from to ctx =
     on_db (with_names () (replay_ids from to (h_trans_id ctx))) ctx"

text \<open>The flags delta is the list of pairs of its two arrays; \<open>None\<close> is the NULL of a database without
  names.\<close>

fun flags_delta_ids :: "int \<Rightarrow> int \<Rightarrow> int \<Rightarrow> int list \<Rightarrow> (conn, (int \<times> int) list) hm" where
  "flags_delta_ids from to now [] = ret []"
| "flags_delta_ids from to now (i # is) =
     bnd (db_get_auto_flag_byid from i) (\<lambda>val_from.
     bnd (db_get_auto_flag_byid to i) (\<lambda>val_to.
     bnd (if val_from \<noteq> val_to
          then bnd (db_get_auto_flag_byid now i) (\<lambda>oldval.
                 ret (if val_to \<noteq> oldval then [(i, val_to)] else []))
          else ret []) (\<lambda>changed.
     bnd (flags_delta_ids from to now is) (\<lambda>rest.
       ret (changed @ rest)))))"

definition history_get_flags_delta :: "int \<Rightarrow> int \<Rightarrow> (history_ctx, (int \<times> int) list option) hm" where
  "history_get_flags_delta from to ctx =
     on_db (with_names None (\<lambda>is.
       bnd (flags_delta_ids from to (h_trans_id ctx) is) (\<lambda>hfd. ret (Some hfd)))) ctx"

section \<open>The value of a flag\<close>

definition name_rows :: "history_db \<Rightarrow> (int \<times> string) list" where
  "name_rows d = (case t_names d of None \<Rightarrow> [] | Some rows \<Rightarrow> rows)"

definition flag_rows :: "history_db \<Rightarrow> flag_row list" where
  "flag_rows d = (case t_flag_set d of None \<Rightarrow> [] | Some rows \<Rightarrow> rows)"

definition flag_byid :: "history_db \<Rightarrow> int \<Rightarrow> int \<Rightarrow> int" where
  "flag_byid d t n =
     (let rows = filter (\<lambda>r. fl_name_id r = n \<and> fl_trans_id r \<le> t) (flag_rows d)
      in if rows = [] then 0 else fl_value (last rows))"

definition flag_at :: "history_db \<Rightarrow> int \<Rightarrow> string \<Rightarrow> int" where
  "flag_at d t name = (case dict_id (name_rows d) name of None \<Rightarrow> 0 | Some n \<Rightarrow> flag_byid d t n)"

text \<open>The invariant: both tables exist or neither does, keys run from 1, changes name known names.\<close>

definition flags_ok :: "history_db \<Rightarrow> bool" where
  "flags_ok d \<longleftrightarrow> (t_names d = None \<longleftrightarrow> t_flag_set d = None) \<and> dict_ok (name_rows d)
     \<and> keys_ok (map fl_id (flag_rows d))
     \<and> (\<forall>r \<in> set (flag_rows d). fl_name_id r \<in> fst ` set (name_rows d))"

definition flag_write :: "int \<Rightarrow> int \<Rightarrow> int \<Rightarrow> history_db \<Rightarrow> history_db" where
  "flag_write t n v d = d\<lparr>t_flag_set := Some (flag_rows d @
     [\<lparr>fl_id = next_id (map fl_id (flag_rows d)), fl_trans_id = t, fl_name_id = n, fl_value = v\<rparr>])\<rparr>"

lemma flag_byid_write:
  "flag_byid (flag_write t n v d) s m = (if m = n \<and> t \<le> s then v else flag_byid d s m)"
  by (auto simp: flag_byid_def flag_write_def flag_rows_def)

lemma flag_write_other [simp]:
  "t_names (flag_write t n v d) = t_names d" "t_rpms (flag_write t n v d) = t_rpms d"
  "t_transactions (flag_write t n v d) = t_transactions d"
  "t_trans_items (flag_write t n v d) = t_trans_items d"
  "name_rows (flag_write t n v d) = name_rows d" "t_flag_set (flag_write t n v d) \<noteq> None"
  by (simp_all add: flag_write_def name_rows_def)

lemma flag_write_ok:
  assumes "flags_ok d" and "n \<in> fst ` set (name_rows d)"
  shows "flags_ok (flag_write t n v d)"
proof -
  have "t_names d \<noteq> None" using assms(2) by (cases "t_names d") (auto simp: name_rows_def)
  then show ?thesis
    using assms keys_ok_snoc [of "map fl_id (flag_rows d)"]
    by (auto simp: flags_ok_def flag_write_def flag_rows_def name_rows_def)
qed

lemma db_set_auto_flag_byid_ok [sql_simps]:
  assumes "faults c = []" and "t_flag_set (cur c) \<noteq> None"
  shows "db_set_auto_flag_byid t n v c = (Inr (), c\<lparr>cur := flag_write t n v (cur c)\<rparr>)"
  using assms by (auto simp: db_set_auto_flag_byid_def sql_simps flag_write_def flag_rows_def)

lemma db_get_auto_flag_byid_ok [sql_simps]:
  assumes "faults c = []" and "t_flag_set (cur c) \<noteq> None" and "keys_ok (map fl_id (flag_rows (cur c)))"
  shows "db_get_auto_flag_byid t n c = (Inr (flag_byid (cur c) t n), c)"
proof -
  let ?rows = "filter (\<lambda>r. fl_name_id r = n \<and> fl_trans_id r \<le> t) (flag_rows (cur c))"
  have "sorted (map fl_id ?rows)"
    using keys_ok_sorted [OF assms(3)] by (simp add: sorted_map sorted_wrt_filter)
  then have "order_by_desc fl_id ?rows = rev ?rows"
    by (simp add: order_by_desc_def sort_key_id_if_sorted)
  moreover have "t_flag_set (cur c) = Some (flag_rows (cur c))"
    using assms(2) by (auto simp: flag_rows_def)
  moreover have "(case rev xs of [] \<Rightarrow> Done | r # _ \<Rightarrow> Row r) = (if xs = [] then Done else Row (last xs))"
    for xs :: "flag_row list" by (cases xs rule: rev_cases) auto
  ultimately show ?thesis
    using assms(1) by (auto simp: db_get_auto_flag_byid_def sql_simps flag_byid_def Let_def)
qed

section \<open>Getting and setting\<close>

definition flags_ready :: "history_ctx \<Rightarrow> bool" where
  "flags_ready ctx \<longleftrightarrow> flags_ok (cur (h_db ctx)) \<and> faults (h_db ctx) = [] \<and> 0 < h_trans_id ctx"

definition set_flag :: "string \<Rightarrow> int \<Rightarrow> history_ctx \<Rightarrow> history_ctx" where
  "set_flag name v ctx = snd (history_set_auto_flag (Some name) v ctx)"

definition get_flag :: "history_ctx \<Rightarrow> string \<Rightarrow> int option" where
  "get_flag ctx name = (case fst (history_get_auto_flag (Some name) ctx) of
     Inl _ \<Rightarrow> None | Inr v \<Rightarrow> Some v)"

lemma flag_at_empty: "t_flag_set d = None \<or> t_names d = None \<Longrightarrow> flag_at d t name = 0"
  by (auto simp: flag_at_def dict_id_def name_rows_def flag_byid_def flag_rows_def Let_def
      split: option.splits)

lemma db_get_auto_flag_ok [sql_simps]:
  assumes "faults c = []" and "flags_ok (cur c)"
  shows "db_get_auto_flag t name c = (Inr (flag_at (cur c) t name), c)"
proof (cases "t_flag_set (cur c) = None")
  case True
  then show ?thesis using assms by (simp add: db_get_auto_flag_def sql_simps flag_at_empty)
next
  case False
  with assms have "t_names (cur c) \<noteq> None" by (simp add: flags_ok_def)
  then have rows: "dict_rows Names (cur c) = Some (name_rows (cur c))" by (auto simp: name_rows_def)
  have ok: "dict_ok (name_rows (cur c))" "keys_ok (map fl_id (flag_rows (cur c)))"
    using assms(2) by (simp_all add: flags_ok_def)
  have pos: "dict_id (name_rows (cur c)) name = Some i \<Longrightarrow> i \<noteq> 0" for i
    using keys_ok_mem [of "map fst (name_rows (cur c))" i] ok(1)
    by (force simp: dict_ok_def dest: dict_id_Some)
  show ?thesis
    using assms(1) False \<open>t_names (cur c) \<noteq> None\<close> pos ok
    by (auto simp: db_get_auto_flag_def db_table_exists_ok db_get_dict_entry_ok [OF assms(1) rows ok(1)]
        flag_at_def db_get_auto_flag_byid_ok split: option.splits)
qed

text \<open>The database after setting a flag: the name is known and the change is the last one.\<close>

definition named_write :: "int \<Rightarrow> string \<Rightarrow> int \<Rightarrow> history_db \<Rightarrow> history_db" where
  "named_write t name v d =
     (let d1 = d\<lparr>t_names := Some (dict_insert name (name_rows d)), t_flag_set := Some (flag_rows d)\<rparr>
      in flag_write t (the (dict_id (name_rows d1) name)) v d1)"

lemma db_set_auto_flag_ok [sql_simps]:
  assumes "faults c = []" and "flags_ok (cur c)"
  shows "db_set_auto_flag t name v c = (Inr (), c\<lparr>cur := named_write t name v (cur c)\<rparr>)"
proof -
  let ?d1 = "create_names (cur c)" and ?names = "name_rows (cur c)"
  let ?d2 = "?d1\<lparr>t_names := Some (dict_insert name ?names)\<rparr>"
  have ok: "dict_ok ?names" using assms(2) by (simp add: flags_ok_def)
  have rows: "dict_rows Names ?d1 = Some ?names"
    by (cases "t_names (cur c)") (auto simp: create_names_def name_rows_def)
  have flags: "create_flag_set ?d2 = (cur c)\<lparr>t_names := Some (dict_insert name ?names),
      t_flag_set := Some (flag_rows (cur c))\<rparr>"
    by (cases "cur c"; cases "t_flag_set (cur c)")
      (auto simp: create_flag_set_def create_names_def flag_rows_def)
  obtain i where i: "dict_id (dict_insert name ?names) name = Some i"
    using dict_insert_id [OF ok] by blast
  have "db_get_dict_entry Names name True (c\<lparr>cur := ?d1\<rparr>) = (Inr (Some i), c\<lparr>cur := ?d2\<rparr>)"
    using db_get_dict_entry_ok [of "c\<lparr>cur := ?d1\<rparr>" Names ?names name True] assms(1) rows ok i by simp
  then show ?thesis
    using assms(1) flags i
    by (simp add: db_set_auto_flag_def sql_exec_ok db_set_auto_flag_byid_ok named_write_def
        name_rows_def)
qed

lemma named_write_ok:
  assumes "flags_ok d"
  shows "flags_ok (named_write t name v d)"
proof -
  define d1 where "d1 = d\<lparr>t_names := Some (dict_insert name (name_rows d)), t_flag_set := Some (flag_rows d)\<rparr>"
  have ok: "dict_ok (name_rows d)" using assms by (simp add: flags_ok_def)
  have names: "name_rows d1 = dict_insert name (name_rows d)" "flag_rows d1 = flag_rows d"
    by (simp_all add: d1_def name_rows_def flag_rows_def)
  obtain ext where "dict_insert name (name_rows d) = name_rows d @ ext" using dict_insert_prefix by blast
  then have "flags_ok d1"
    using assms dict_insert_ok [OF ok, of name] names by (auto simp: flags_ok_def d1_def)
  moreover obtain i where i: "dict_id (name_rows d1) name = Some i"
    using dict_insert_id [OF ok, of name] names by auto
  moreover have "i \<in> fst ` set (name_rows d1)" using dict_id_Some [OF i] by force
  ultimately show ?thesis
    unfolding named_write_def Let_def d1_def [symmetric] by (simp add: flag_write_ok)
qed

lemma flag_unknown_id:
  assumes "flags_ok d" and "n \<notin> fst ` set (name_rows d)"
  shows "flag_byid d t n = 0"
proof -
  have "filter (\<lambda>r. fl_name_id r = n \<and> fl_trans_id r \<le> t) (flag_rows d) = []"
    using assms by (auto simp: filter_empty_conv flags_ok_def)
  then show ?thesis by (simp add: flag_byid_def)
qed

lemma named_write_flag:
  assumes "flags_ok d"
  shows "flag_at (named_write t name v d) s other
    = (if other = name \<and> t \<le> s then v else flag_at d s other)"
proof -
  define d1 where "d1 = d\<lparr>t_names := Some (dict_insert name (name_rows d)), t_flag_set := Some (flag_rows d)\<rparr>"
  have ok: "dict_ok (name_rows d)" using assms by (simp add: flags_ok_def)
  have names: "name_rows d1 = dict_insert name (name_rows d)" "flag_rows d1 = flag_rows d"
    by (simp_all add: d1_def name_rows_def flag_rows_def)
  have same: "flag_byid d1 s n = flag_byid d s n" for n by (simp add: flag_byid_def names)
  obtain i where i: "dict_id (name_rows d1) name = Some i"
      "i = (case dict_id (name_rows d) name of None \<Rightarrow> next_id (map fst (name_rows d)) | Some j \<Rightarrow> j)"
    using dict_insert_id [OF ok, of name] names by auto
  have fresh: "flag_byid d s i = 0" if "dict_id (name_rows d) name = None"
  proof (rule flag_unknown_id [OF assms])
    show "i \<notin> fst ` set (name_rows d)"
      using that i(2) keys_ok_mem [of "map fst (name_rows d)" i] next_id_keys [of "map fst (name_rows d)"] ok
      by (auto simp: dict_ok_def)
  qed
  have unique: "dict_id (name_rows d1) other = Some i \<Longrightarrow> other = name"
    using dict_insert_ok [OF ok, of name] names(1) i(1)
    by (auto simp: dict_ok_def dest!: dict_id_Some keys_ok_sorted [THEN conjunct2])
      (meson eq_key_imp_eq_value)
  have keep: "dict_id (name_rows d1) other = dict_id (name_rows d) other" if "other \<noteq> name"
  proof (cases "dict_id (name_rows d) other")
    case None
    then have "dict_id (dict_insert name (name_rows d)) other = None"
      using that unfolding dict_id_None by (auto simp: dict_insert_def split: option.splits)
    with None show ?thesis by (simp add: names)
  next
    case (Some j)
    then show ?thesis using dict_id_insert_mono [OF Some, of name] names by simp
  qed
  have e: "named_write t name v d = flag_write t i v d1"
    unfolding named_write_def Let_def d1_def [symmetric] by (simp add: i(1))
  show ?thesis
  proof (cases "other = name")
    case True
    have "flag_at d s name = flag_byid d s i"
      using i(2) fresh by (simp add: flag_at_def split: option.splits)
    with True i(1) show ?thesis by (simp add: e flag_at_def flag_byid_write same)
  next
    case False
    then have "dict_id (name_rows d) other \<noteq> Some i" using unique keep by auto
    with False keep show ?thesis
      by (simp add: e flag_at_def flag_byid_write same split: option.split)
  qed
qed

lemma history_set_auto_flag_ok:
  assumes "flags_ready ctx"
  shows "history_set_auto_flag (Some name) v ctx = (Inr (), set_flag name v ctx)"
    and "flags_ready (set_flag name v ctx)" "h_trans_id (set_flag name v ctx) = h_trans_id ctx"
    and "flag_at (cur (h_db (set_flag name v ctx))) s other =
      (if flag_at (cur (h_db ctx)) (h_trans_id ctx) name \<noteq> v \<and> other = name \<and> h_trans_id ctx \<le> s
       then v else flag_at (cur (h_db ctx)) s other)"
  using assms
  by (auto simp: history_set_auto_flag_def set_flag_def flags_ready_def sql_simps
      named_write_ok named_write_flag)

lemma get_flag_at: "flags_ready ctx \<Longrightarrow> get_flag ctx name = Some (flag_at (cur (h_db ctx)) (h_trans_id ctx) name)"
  by (simp add: get_flag_def history_get_auto_flag_def flags_ready_def sql_simps)

interpretation flags: kv_store flags_ready "\<lambda>_ _. True" set_flag get_flag
  by unfold_locales (auto simp: history_set_auto_flag_ok get_flag_at)

text \<open>A flag just set is read back, by \<^verbatim>\<open>history_get_auto_flag\<close> too; no other flag changes, and the
  values flags had at earlier transactions stay as they were.\<close>

theorem set_auto_flag_correct:
  assumes "flags_ready ctx" and "history_set_auto_flag (Some name) v ctx = (r, ctx')"
  shows "r = Inr () \<and> history_get_auto_flag (Some name) ctx' = (Inr v, ctx')
    \<and> (\<forall>other. flag_at (cur (h_db ctx')) (h_trans_id ctx) other
         = (if other = name then v else flag_at (cur (h_db ctx)) (h_trans_id ctx) other))
    \<and> (\<forall>s other. s < h_trans_id ctx \<longrightarrow>
         flag_at (cur (h_db ctx')) s other = flag_at (cur (h_db ctx)) s other)"
proof -
  have ctx': "ctx' = set_flag name v ctx" and r: "r = Inr ()"
    using history_set_auto_flag_ok(1) [OF assms(1), of name v] assms(2) by simp_all
  have "history_get_auto_flag (Some name) ctx' = (Inr v, ctx')"
    using history_set_auto_flag_ok(2,3) [OF assms(1), of name v]
      history_set_auto_flag_ok(4) [OF assms(1), of name v "h_trans_id ctx" name]
    unfolding ctx' by (auto simp: history_get_auto_flag_def flags_ready_def sql_simps)
  with r show ?thesis
    using history_set_auto_flag_ok(4) [OF assms(1), of name v] unfolding ctx' by auto
qed

definition sample_ctx :: history_ctx where
  "sample_ctx = \<lparr>h_db = sample_conn, h_installed_ids = [2, 3], h_cookie = Some ''c3'', h_trans_id = 3\<rparr>"

lemma sample_flags_ready: "flags_ready sample_ctx"
  by (simp add: flags_ready_def sample_ctx_def sample_defs flags_ok_def dict_ok_def keys_ok_def
      name_rows_def flag_rows_def upto_samples)

lemma sample_names: "dict_id (name_rows sample_db) ''a'' = Some 1" "dict_id (name_rows sample_db) ''b'' = Some 2"
  by (simp_all add: sample_db_def name_rows_def dict_id_def)

lemma sample_flags:
  "flag_at sample_db 3 ''b'' = 1" "flag_at sample_db 2 ''b'' = 0" "flag_at sample_db 2 ''a'' = 1"
  "flag_at sample_db 1 ''a'' = 0" "flag_at sample_db 1 ''b'' = 0"
  by (simp_all add: flag_at_def sample_names flag_byid_def)
    (simp_all add: flag_rows_def sample_db_def)

theorem set_auto_flag_correct_witness:
  "flag_at (cur (h_db (snd (history_set_auto_flag (Some ''b'') 0 sample_ctx)))) 3 ''b'' = 0
   \<and> fst (history_set_auto_flag (Some ''b'') 0 sample_ctx) = Inr ()"
proof -
  have "h_trans_id sample_ctx = 3" by (simp add: sample_ctx_def)
  then show ?thesis
    using set_auto_flag_correct [OF sample_flags_ready, of "''b''" 0 _
        "snd (history_set_auto_flag (Some ''b'') 0 sample_ctx)"]
    by (metis prod.collapse)
qed

section \<open>Restoring and replaying\<close>

text \<open>Equality of everything but the table of changes.\<close>

definition same_but_flags :: "history_db \<Rightarrow> history_db \<Rightarrow> bool" where
  "same_but_flags d e \<longleftrightarrow> t_rpms e = t_rpms d \<and> t_names e = t_names d
     \<and> t_transactions e = t_transactions d \<and> t_trans_items e = t_trans_items d"

lemma same_but_flags_refl [simp]: "same_but_flags d d"
  by (simp add: same_but_flags_def)

lemma same_but_flags_write: "same_but_flags d e \<Longrightarrow> same_but_flags d (flag_write t n v e)"
  by (simp add: same_but_flags_def)

lemma same_but_flags_names: "same_but_flags d e \<Longrightarrow> t_names e = t_names d \<and> name_rows e = name_rows d"
  by (auto simp: same_but_flags_def name_rows_def)

text \<open>
  Both loops visit each name once and may set its flag at the current transaction. \<open>target\<close> is the
  value a name gets, from the values it had before the loop.
\<close>

definition flags_become ::
    "history_db \<Rightarrow> history_db \<Rightarrow> int \<Rightarrow> int list \<Rightarrow> (int \<Rightarrow> int) \<Rightarrow> bool" where
  "flags_become d e now is target \<longleftrightarrow> flags_ok e \<and> same_but_flags d e
     \<and> (\<forall>n. flag_byid e now n = (if n \<in> set is then target n else flag_byid d now n))
     \<and> (\<forall>s n. n \<notin> set is \<or> s < now \<longrightarrow> flag_byid e s n = flag_byid d s n)"

lemma flags_become_Nil: "flags_ok d \<Longrightarrow> flags_become d d now [] target"
  by (simp add: flags_become_def)

lemma flags_become_Cons:
  assumes "flags_ok d" and "i \<in> fst ` set (name_rows d)" and "i \<notin> set is"
    and "d1 = (if target i \<noteq> flag_byid d now i then flag_write now i (target i) d else d)"
    and "flags_become d1 e now is target"
  shows "flags_become d e now (i # is) target"
proof -
  have "same_but_flags d d1" by (simp add: assms(4) same_but_flags_write)
  then have "same_but_flags d e"
    using assms(5) by (auto simp: flags_become_def same_but_flags_def)
  moreover have "flag_byid d1 now i = target i" using assms(4) by (simp add: flag_byid_write)
  moreover have "flag_byid d1 s n = flag_byid d s n" if "n \<noteq> i \<or> s < now" for s n
    using that assms(4) by (auto simp: flag_byid_write)
  ultimately show ?thesis
    using assms(3,5) by (auto simp: flags_become_def)
qed

lemma flags_ok_step:
  assumes "flags_ok d" and "i \<in> fst ` set (name_rows d)" and "t_flag_set d \<noteq> None"
    and "d1 = (if b then flag_write now i v d else d)"
  shows "flags_ok d1" "t_flag_set d1 \<noteq> None" "name_rows d1 = name_rows d"
  using assms by (simp_all add: flag_write_ok) (simp add: flag_write_def)

definition replay_target :: "int \<Rightarrow> int \<Rightarrow> int \<Rightarrow> history_db \<Rightarrow> int \<Rightarrow> int" where
  "replay_target from to now d n = (if flag_byid d from n \<noteq> flag_byid d to n
     then flag_byid d to n else flag_byid d now n)"

lemma restore_ids_ok:
  assumes "faults c = []" "flags_ok (cur c)" "t_flag_set (cur c) \<noteq> None"
    and "distinct is" "set is \<subseteq> fst ` set (name_rows (cur c))"
  shows "\<exists>e. restore_ids t now is c = (Inr (), c\<lparr>cur := e\<rparr>)
    \<and> flags_become (cur c) e now is (flag_byid (cur c) t)"
  using assms
proof (induction "is" arbitrary: c)
  case Nil
  then show ?case by (intro exI [of _ "cur c"]) (simp add: flags_become_Nil)
next
  case (Cons i "is")
  let ?v = "flag_byid (cur c) t i"
  define d1 where "d1 = (if ?v \<noteq> flag_byid (cur c) now i then flag_write now i ?v (cur c) else cur c)"
  have i: "i \<in> fst ` set (name_rows (cur c))" and keys: "keys_ok (map fl_id (flag_rows (cur c)))"
    using Cons.prems by (auto simp: flags_ok_def)
  note d1 = flags_ok_step [OF Cons.prems(2) i Cons.prems(3) d1_def]
  obtain e where e: "restore_ids t now is (c\<lparr>cur := d1\<rparr>) = (Inr (), c\<lparr>cur := e\<rparr>)"
    "flags_become d1 e now is (flag_byid d1 t)"
    using Cons.IH [of "c\<lparr>cur := d1\<rparr>"] Cons.prems d1 by auto
  have step: "restore_ids t now (i # is) c = restore_ids t now is (c\<lparr>cur := d1\<rparr>)"
    using Cons.prems keys by (auto simp: sql_simps d1_def)
  have "flag_byid d1 t n = flag_byid (cur c) t n" if "n \<in> set is" for n
    using that Cons.prems(4) by (auto simp: d1_def flag_byid_write)
  then have "flags_become d1 e now is (flag_byid (cur c) t)"
    using e(2) by (simp add: flags_become_def)
  from flags_become_Cons [OF Cons.prems(2) i _ d1_def this] Cons.prems(4) e(1) step
  show ?case by auto
qed

lemma replay_ids_ok:
  assumes "faults c = []" "flags_ok (cur c)" "t_flag_set (cur c) \<noteq> None"
    and "distinct is" "set is \<subseteq> fst ` set (name_rows (cur c))"
  shows "\<exists>e. replay_ids from to now is c = (Inr (), c\<lparr>cur := e\<rparr>)
    \<and> flags_become (cur c) e now is (replay_target from to now (cur c))"
  using assms
proof (induction "is" arbitrary: c)
  case Nil
  then show ?case by (intro exI [of _ "cur c"]) (simp add: flags_become_Nil)
next
  case (Cons i "is")
  define d1 where "d1 = (if replay_target from to now (cur c) i \<noteq> flag_byid (cur c) now i
    then flag_write now i (replay_target from to now (cur c) i) (cur c) else cur c)"
  have i: "i \<in> fst ` set (name_rows (cur c))" and keys: "keys_ok (map fl_id (flag_rows (cur c)))"
    using Cons.prems by (auto simp: flags_ok_def)
  note d1 = flags_ok_step [OF Cons.prems(2) i Cons.prems(3) d1_def]
  obtain e where e: "replay_ids from to now is (c\<lparr>cur := d1\<rparr>) = (Inr (), c\<lparr>cur := e\<rparr>)"
    "flags_become d1 e now is (replay_target from to now d1)"
    using Cons.IH [of "c\<lparr>cur := d1\<rparr>"] Cons.prems d1 by auto
  have step: "replay_ids from to now (i # is) c = replay_ids from to now is (c\<lparr>cur := d1\<rparr>)"
    using Cons.prems keys by (auto simp: sql_simps d1_def replay_target_def)
  have "replay_target from to now d1 n = replay_target from to now (cur c) n" if "n \<in> set is" for n
    using that Cons.prems(4) by (auto simp: d1_def flag_byid_write replay_target_def)
  then have "flags_become d1 e now is (replay_target from to now (cur c))"
    using e(2) by (simp add: flags_become_def)
  from flags_become_Cons [OF Cons.prems(2) i _ d1_def this] Cons.prems(4) e(1) step
  show ?case by auto
qed

lemma with_names_ok:
  assumes "faults c = []" and "flags_ok (cur c)" and "t_names (cur c) \<noteq> None"
  shows "with_names none body c = body (map fst (name_rows (cur c))) c"
proof -
  have rows: "dict_rows Names (cur c) = Some (name_rows (cur c))" using assms(3) by (auto simp: name_rows_def)
  have "keys_ok (map fst (name_rows (cur c)))" using assms(2) by (simp add: flags_ok_def dict_ok_def)
  then have "[1..int (length (name_rows (cur c)))] = map fst (name_rows (cur c))"
    by (simp add: keys_ok_def)
  with assms rows \<open>keys_ok (map fst (name_rows (cur c)))\<close> show ?thesis
    by (simp add: with_names_def sql_simps)
qed

lemma with_names_none: "faults c = [] \<Longrightarrow> t_names (cur c) = None \<Longrightarrow> with_names none body c = (Inr none, c)"
  by (simp add: with_names_def sql_simps)

lemma flag_at_become:
  assumes "flags_become d e now (map fst (name_rows d)) target"
  shows "flag_at e now name = (case dict_id (name_rows d) name of None \<Rightarrow> 0 | Some n \<Rightarrow> target n)"
    and "s < now \<Longrightarrow> flag_at e s name = flag_at d s name"
proof -
  have rows: "name_rows e = name_rows d"
    using assms by (simp add: flags_become_def same_but_flags_names)
  have "dict_id (name_rows d) name = Some n \<Longrightarrow> n \<in> set (map fst (name_rows d))" for n
    by (force dest: dict_id_Some)
  then show "flag_at e now name = (case dict_id (name_rows d) name of None \<Rightarrow> 0 | Some n \<Rightarrow> target n)"
    using assms by (auto simp: flag_at_def rows flags_become_def split: option.split)
  show "flag_at e s name = flag_at d s name" if "s < now"
    using assms that by (auto simp: flag_at_def rows flags_become_def split: option.split)
qed

lemma names_usable:
  assumes "flags_ok d"
  shows "distinct (map fst (name_rows d))" "t_names d \<noteq> None \<Longrightarrow> t_flag_set d \<noteq> None"
  using assms by (auto simp: flags_ok_def dict_ok_def keys_ok_sorted)

text \<open>Restoring gives every flag at the current transaction the value it had at \<open>t\<close>, without
  changing what earlier transactions recorded or anything else in the database.\<close>

theorem restore_auto_flags_correct:
  assumes "flags_ready ctx" and "history_restore_auto_flags t ctx = (r, ctx')"
  shows "r = Inr () \<and> flags_ready ctx' \<and> same_but_flags (cur (h_db ctx)) (cur (h_db ctx'))
    \<and> (\<forall>name. flag_at (cur (h_db ctx')) (h_trans_id ctx) name = flag_at (cur (h_db ctx)) t name)
    \<and> (\<forall>s name. s < h_trans_id ctx \<longrightarrow>
         flag_at (cur (h_db ctx')) s name = flag_at (cur (h_db ctx)) s name)"
proof -
  let ?c = "h_db ctx"
  have ok: "faults ?c = []" "flags_ok (cur ?c)" using assms(1) by (simp_all add: flags_ready_def)
  show ?thesis
  proof (cases "t_names (cur ?c) = None")
    case True
    then show ?thesis
      using assms ok with_names_none [OF ok(1) True, of "()"]
      by (auto simp: history_restore_auto_flags_def flag_at_empty)
  next
    case False
    obtain e where e: "restore_ids t (h_trans_id ctx) (map fst (name_rows (cur ?c))) ?c
        = (Inr (), ?c\<lparr>cur := e\<rparr>)"
      "flags_become (cur ?c) e (h_trans_id ctx) (map fst (name_rows (cur ?c))) (flag_byid (cur ?c) t)"
      using restore_ids_ok [OF ok, of "map fst (name_rows (cur ?c))" t "h_trans_id ctx"] names_usable [OF ok(2)] False
      by auto
    then have "r = Inr ()" "ctx' = ctx\<lparr>h_db := ?c\<lparr>cur := e\<rparr>\<rparr>"
      using assms(2) with_names_ok [OF ok False, of "()"]
      by (auto simp: history_restore_auto_flags_def)
    with e(2) assms(1) flag_at_become [OF e(2)] show ?thesis
      by (simp add: flags_become_def flags_ready_def flag_at_def)
  qed
qed

theorem restore_auto_flags_correct_witness:
  "fst (history_restore_auto_flags 2 sample_ctx) = Inr ()
   \<and> flag_at (cur (h_db (snd (history_restore_auto_flags 2 sample_ctx)))) 3 ''b'' = 0
   \<and> flag_at (cur (h_db (snd (history_restore_auto_flags 2 sample_ctx)))) 3 ''a'' = 1"
proof -
  have "h_trans_id sample_ctx = 3" "cur (h_db sample_ctx) = sample_db"
    by (simp_all add: sample_ctx_def sample_conn_def)
  then show ?thesis
    using restore_auto_flags_correct [OF sample_flags_ready, of 2 _
        "snd (history_restore_auto_flags 2 sample_ctx)"] sample_flags
    by (metis prod.collapse)
qed

text \<open>C31: Replaying the range from one transaction to another changes exactly the flags that changed
  over that range, to the value they had at its end.\<close>

theorem replay_auto_flags_correct:
  assumes "flags_ready ctx" and "history_replay_auto_flags from to ctx = (r, ctx')"
  shows "r = Inr () \<and> flags_ready ctx' \<and> same_but_flags (cur (h_db ctx)) (cur (h_db ctx'))
    \<and> (\<forall>name. flag_at (cur (h_db ctx')) (h_trans_id ctx) name =
         (if flag_at (cur (h_db ctx)) from name \<noteq> flag_at (cur (h_db ctx)) to name
          then flag_at (cur (h_db ctx)) to name
          else flag_at (cur (h_db ctx)) (h_trans_id ctx) name))
    \<and> (\<forall>s name. s < h_trans_id ctx \<longrightarrow>
         flag_at (cur (h_db ctx')) s name = flag_at (cur (h_db ctx)) s name)"
proof -
  let ?c = "h_db ctx"
  have ok: "faults ?c = []" "flags_ok (cur ?c)" using assms(1) by (simp_all add: flags_ready_def)
  show ?thesis
  proof (cases "t_names (cur ?c) = None")
    case True
    then show ?thesis
      using assms ok with_names_none [OF ok(1) True, of "()"]
      by (auto simp: history_replay_auto_flags_def flag_at_empty)
  next
    case False
    obtain e where e: "replay_ids from to (h_trans_id ctx) (map fst (name_rows (cur ?c))) ?c
        = (Inr (), ?c\<lparr>cur := e\<rparr>)"
      "flags_become (cur ?c) e (h_trans_id ctx) (map fst (name_rows (cur ?c)))
         (replay_target from to (h_trans_id ctx) (cur ?c))"
      using replay_ids_ok [OF ok, of "map fst (name_rows (cur ?c))" "from" to "h_trans_id ctx"] names_usable [OF ok(2)] False
      by auto
    then have "r = Inr ()" "ctx' = ctx\<lparr>h_db := ?c\<lparr>cur := e\<rparr>\<rparr>"
      using assms(2) with_names_ok [OF ok False, of "()"]
      by (auto simp: history_replay_auto_flags_def)
    with e(2) assms(1) flag_at_become [OF e(2)] show ?thesis
      by (simp add: flags_become_def flags_ready_def flag_at_def replay_target_def split: option.split)
  qed
qed

theorem replay_auto_flags_correct_witness:
  "fst (history_replay_auto_flags 1 2 sample_ctx) = Inr ()
   \<and> flag_at (cur (h_db (snd (history_replay_auto_flags 1 2 sample_ctx)))) 3 ''a'' = 1
   \<and> flag_at (cur (h_db (snd (history_replay_auto_flags 1 2 sample_ctx)))) 3 ''b'' = 1"
proof -
  have "h_trans_id sample_ctx = 3" "cur (h_db sample_ctx) = sample_db"
    by (simp_all add: sample_ctx_def sample_conn_def)
  then show ?thesis
    using replay_auto_flags_correct [OF sample_flags_ready, of 1 2
        "fst (history_replay_auto_flags 1 2 sample_ctx)"
        "snd (history_replay_auto_flags 1 2 sample_ctx)"] sample_flags
    by simp
qed

section \<open>The flags delta\<close>

lemma flags_delta_ids_ok:
  assumes "faults c = []" "flags_ok (cur c)" "t_flag_set (cur c) \<noteq> None"
  shows "flags_delta_ids from to now is c =
    (Inr (map (\<lambda>n. (n, flag_byid (cur c) to n)) (filter (\<lambda>n.
       replay_target from to now (cur c) n \<noteq> flag_byid (cur c) now n) is)), c)"
proof -
  have "keys_ok (map fl_id (flag_rows (cur c)))" using assms(2) by (simp add: flags_ok_def)
  with assms show ?thesis
    by (induction "is") (auto simp: sql_simps replay_target_def)
qed



lemma history_get_flags_delta_runs:
  assumes "flags_ready ctx"
  shows "\<exists>hfd. history_get_flags_delta from to ctx = (Inr hfd, ctx) \<and> (hfd = None \<longleftrightarrow> t_names (cur (h_db ctx)) = None)"
proof (cases "t_names (cur (h_db ctx)) = None")
  case True
  then show ?thesis
    using assms by (simp add: history_get_flags_delta_def with_names_def flags_ready_def on_db_def sql_simps)
next
  case False
  have ok: "faults (h_db ctx) = []" "flags_ok (cur (h_db ctx))" using assms by (simp_all add: flags_ready_def)
  show ?thesis
    using False flags_delta_ids_ok [OF ok] names_usable(2) [OF ok(2) False]
    by (simp add: with_names_ok [OF ok False] history_get_flags_delta_def on_db_def)
qed

text \<open>A step that fails while a flag is looked up is taken for a missing entry: the flag reads as
  unset, with a return code of success.\<close>

theorem get_auto_flag_hides_errors:
  assumes "t_flag_set (cur c) \<noteq> None" and "faults c = [False, False, False, True]"
  shows "fst (db_get_auto_flag_byid t n c) = Inr 0"
  using assms by (auto simp: db_get_auto_flag_byid_def sql_prepare_def sql_ok_def sql_answer_def
      sql_query1_def sql_step_def bnd_def)

theorem get_auto_flag_hides_errors_witness:
  "fst (db_get_auto_flag_byid 3 2 (sample_conn\<lparr>faults := [False, False, False, True]\<rparr>)) = Inr 0
   \<and> flag_at sample_db 3 ''b'' = 1"
  using get_auto_flag_hides_errors [of "sample_conn\<lparr>faults := [False, False, False, True]\<rparr>" 3 2]
    sample_flags(1) by (simp add: sample_defs)

end
