(* ===== verification/Hist_Ctx.thy ===== *)
theory Hist_Ctx
  imports Hist_Flags Hist_Log
begin

text \<open>
  The operations on a history context (\<^verbatim>\<open>history/history.c\<close>): recording a baseline, recording what
  changed, synchronising with the rpm database, and the deltas between states. librpm appears as
  \<open>rpm_view\<close>: the cookie of the rpm database, NULL when it is not open, and the NEVRAs of the installed
  packages in the order of its iterator. The clock is an argument.
\<close>

record rpm_view =
  rv_cookie :: "string option"
  rv_nevras :: "string list"

section \<open>Operations\<close>

text \<open>
  The \<^verbatim>\<open>error\<close> label of the functions that write: ROLLBACK when the return code is set, COMMIT otherwise;
  the result of either is not looked at.
\<close>

definition in_transaction :: "(history_ctx, 'a) hm \<Rightarrow> (history_ctx, 'a) hm" where
  "in_transaction body ctx = (case body ctx of
     (Inl e, ctx') \<Rightarrow> (Inl e, snd (on_db sql_rollback ctx'))
   | (Inr x, ctx') \<Rightarrow> (Inr x, snd (on_db sql_commit ctx')))"

definition history_set_cookie :: "string \<Rightarrow> history_ctx \<Rightarrow> history_ctx" where
  "history_set_cookie cookie ctx = ctx\<lparr>h_cookie := Some cookie\<rparr>"

definition replay_to :: "int \<Rightarrow> (conn, bool list) hm" where
  "replay_to trans_id =
     bnd db_rpms_maxid (\<lambda>map_size.
       db_play_transaction trans_id (replicate (nat map_size) False) map_size)"

definition history_get_delta :: "int \<Rightarrow> (history_ctx, history_delta) hm" where
  "history_get_delta trans_id =
     bnd (on_db (replay_to trans_id)) (\<lambda>installed_map ctx.
       case diff_arrays (h_installed_ids ctx) (get_ids_from_map installed_map) of
         (removed, added) \<Rightarrow> (Inr \<lparr>added_ids = added, removed_ids = removed\<rparr>, ctx))"

definition history_get_delta_range :: "int \<Rightarrow> int \<Rightarrow> (history_ctx, history_delta) hm" where
  "history_get_delta_range trans_id0 trans_id1 =
     bnd (on_db db_rpms_maxid) (\<lambda>map_size.
     bnd (on_db (db_play_transaction trans_id0 (replicate (nat map_size) False) map_size)) (\<lambda>map0.
     bnd (on_db (db_play_transaction trans_id1 (replicate (nat map_size) False) map_size)) (\<lambda>map1.
       case diff_arrays (get_ids_from_map map1) (get_ids_from_map map0) of
         (removed, added) \<Rightarrow> ret \<lparr>added_ids = added, removed_ids = removed\<rparr>)))"

definition history_set_state :: "int \<Rightarrow> (history_ctx, unit) hm" where
  "history_set_state trans_id =
     bnd (on_db (replay_to trans_id)) (\<lambda>installed_map ctx.
       (Inr (), ctx\<lparr>h_installed_ids := get_ids_from_map installed_map, h_trans_id := trans_id\<rparr>))"

text \<open>What \<^verbatim>\<open>history_record_state\<close> and \<^verbatim>\<open>history_update_state\<close> do between BEGIN and their last check.\<close>

definition baseline_items :: "int \<Rightarrow> int list \<Rightarrow> (history_ctx, unit) hm" where
  "baseline_items trans_id ids =
     bnd (on_db (sql_exec create_trans_items)) (\<lambda>_.
     bnd (on_db (db_add_trans_items trans_id HISTORY_ITEM_TYPE_SET ids)) (\<lambda>_ ctx.
       (Inr (), ctx\<lparr>h_trans_id := trans_id\<rparr>)))"

definition record_baseline :: "int \<Rightarrow> string option \<Rightarrow> int list \<Rightarrow> (history_ctx, unit) hm" where
  "record_baseline now cookie ids =
     bnd (on_db (sql_exec create_transactions)) (\<lambda>_.
     bnd (on_db (db_add_transaction (Some ''(set)'') now cookie HISTORY_TRANS_TYPE_BASE)) (\<lambda>trans_id.
       baseline_items trans_id ids))"

definition record_state_body :: "int \<Rightarrow> (history_ctx, unit) hm" where
  "record_state_body now ctx =
     bnd (on_db sql_begin) (\<lambda>_. record_baseline now (h_cookie ctx) (h_installed_ids ctx)) ctx"

definition history_record_state :: "int \<Rightarrow> (history_ctx, unit) hm" where
  "history_record_state now = in_transaction (record_state_body now)"

definition record_delta ::
    "string \<Rightarrow> string option \<Rightarrow> int \<Rightarrow> int list \<Rightarrow> int list \<Rightarrow> int list \<Rightarrow> (history_ctx, unit) hm" where
  "record_delta cookie cmdline now current_ids removed added =
     bnd (on_db (db_add_transaction cmdline now (Some cookie) HISTORY_TRANS_TYPE_DELTA)) (\<lambda>trans_id.
     bnd (if added \<noteq> [] then on_db (db_add_trans_items trans_id HISTORY_ITEM_TYPE_ADD added)
          else ret ()) (\<lambda>_.
     bnd (if removed \<noteq> [] then on_db (db_add_trans_items trans_id HISTORY_ITEM_TYPE_REMOVE removed)
          else ret ()) (\<lambda>_ ctx.
       (Inr (), history_set_cookie cookie
          (ctx\<lparr>h_installed_ids := current_ids, h_trans_id := trans_id\<rparr>)))))"

definition update_state_body ::
    "rpm_view \<Rightarrow> string \<Rightarrow> string option \<Rightarrow> int \<Rightarrow> (history_ctx, unit) hm" where
  "update_state_body ts cookie cmdline now =
     bnd (on_db (db_update_rpms (rv_nevras ts))) (\<lambda>current_ids ctx.
       case diff_arrays (h_installed_ids ctx) current_ids of (removed, added) \<Rightarrow>
         bnd (on_db sql_begin) (\<lambda>_. record_delta cookie cmdline now current_ids removed added) ctx)"

definition history_update_state ::
    "rpm_view \<Rightarrow> string option \<Rightarrow> int \<Rightarrow> (history_ctx, unit) hm" where
  "history_update_state ts cmdline now ctx =
     (case rv_cookie ts of
        None \<Rightarrow> in_transaction (failH (RC (-1))) ctx
      | Some cookie \<Rightarrow>
          (case h_cookie ctx of
             None \<Rightarrow> (Inl UNDEF, ctx)
           | Some old \<Rightarrow>
               if old = cookie then (Inr (), ctx)
               else in_transaction (update_state_body ts cookie cmdline now) ctx))"

definition history_add_transaction :: "string option \<Rightarrow> int \<Rightarrow> (history_ctx, unit) hm" where
  "history_add_transaction cmdline now ctx =
     bnd (check_cond (cmdline \<noteq> None)) (\<lambda>_.
     bnd (on_db (db_add_transaction cmdline now (h_cookie ctx) HISTORY_TRANS_TYPE_DELTA)) (\<lambda>trans_id ctx.
       (Inr (), ctx\<lparr>h_trans_id := trans_id\<rparr>))) ctx"

text \<open>\<^verbatim>\<open>history_sync\<close>: the result of the middle part says whether the database is still fresh.\<close>

definition sync_existing :: "rpm_view \<Rightarrow> string \<Rightarrow> int \<Rightarrow> (history_ctx, bool) hm" where
  "sync_existing ts cookie now =
     bnd (on_db (sql_prepare t_transactions)) (\<lambda>rows.
     bnd (on_db (sql_query1 (order_by_desc tr_id rows))) (\<lambda>step.
       case step of
         Row r \<Rightarrow>
           (case tr_cookie r of
              None \<Rightarrow> failH UNDEF
            | Some cookie_db \<Rightarrow>
                if cookie \<noteq> cookie_db
                then bnd (history_set_state (tr_id r)) (\<lambda>_ ctx.
                     bnd (history_update_state ts (Some ''(unknown)'') now) (\<lambda>_. ret False)
                       (history_set_cookie cookie_db ctx))
                else bnd (on_db (db_update_rpms (rv_nevras ts))) (\<lambda>ids ctx.
                       (Inr False, (history_set_cookie cookie_db
                          (ctx\<lparr>h_installed_ids := ids\<rparr>))\<lparr>h_trans_id := tr_id r\<rparr>)))
       | _ \<Rightarrow> ret True))"

definition sync_fresh :: "rpm_view \<Rightarrow> string \<Rightarrow> int \<Rightarrow> (history_ctx, unit) hm" where
  "sync_fresh ts cookie now ctx =
     bnd (on_db (db_update_rpms (rv_nevras ts))) (\<lambda>ids ctx.
       history_record_state now (ctx\<lparr>h_installed_ids := ids\<rparr>)) (history_set_cookie cookie ctx)"

definition history_sync :: "rpm_view \<Rightarrow> int \<Rightarrow> (history_ctx, unit) hm" where
  "history_sync ts now ctx =
     (case rv_cookie ts of
        None \<Rightarrow> (Inl (RC (-1)), ctx)
      | Some cookie \<Rightarrow>
          (case db_table_exists t_transactions (h_db ctx) of (step, c) \<Rightarrow>
             bnd (if step = SQLITE_ROW then sync_existing ts cookie now
                  else if step = SQLITE_DONE then ret True
                  else failH (RC (-1))) (\<lambda>db_isfresh.
               if db_isfresh then sync_fresh ts cookie now else ret ())
             (ctx\<lparr>h_db := c\<rparr>)))"

text \<open>\<^verbatim>\<open>create_history_ctx\<close> on the connection that \<^verbatim>\<open>sqlite3_open\<close> gave; \<open>None\<close> is a NULL result.\<close>

definition create_history_ctx :: "conn \<Rightarrow> history_ctx option" where
  "create_history_ctx db =
     (let ctx = \<lparr>h_db = db, h_installed_ids = [], h_cookie = None, h_trans_id = 0\<rparr> in
      case db_table_exists t_transactions db of (step, c) \<Rightarrow>
        if step = SQLITE_DONE then Some (ctx\<lparr>h_db := c\<rparr>)
        else if step \<noteq> SQLITE_ROW then None
        else case bnd (sql_prepare t_transactions) (\<lambda>rows. sql_query1 (order_by_desc tr_id rows)) c of
               (Inl _, _) \<Rightarrow> None
             | (Inr (Row r), c) \<Rightarrow>
                 Some (ctx\<lparr>h_db := c, h_cookie := tr_cookie r, h_trans_id := tr_id r\<rparr>)
             | (Inr _, c) \<Rightarrow> Some (ctx\<lparr>h_db := c\<rparr>))"

record history_transaction =
  ht_id :: int
  ht_type :: int
  ht_cmdline :: "string option"
  ht_timestamp :: int
  ht_cookie :: "string option"
  ht_delta :: history_delta

text \<open>The rows as they are copied, and the deltas read afterwards one by one.\<close>

definition read_trans_row :: "int \<Rightarrow> trans_row \<Rightarrow> history_transaction list \<Rightarrow> herr + history_transaction list" where
  "read_trans_row max_count r tas =
     (if int (length tas) < max_count
      then Inr (tas @ [\<lparr>ht_id = tr_id r, ht_type = tr_type r, ht_cmdline = tr_cmdline r,
             ht_timestamp = tr_timestamp r, ht_cookie = tr_cookie r,
             ht_delta = \<lparr>added_ids = [], removed_ids = []\<rparr>\<rparr>])
      else Inl (RC (-1)))"

fun read_deltas :: "history_transaction list \<Rightarrow> (conn, history_transaction list) hm" where
  "read_deltas [] = ret []"
| "read_deltas (ta # tas) =
     bnd (history_delta_read (ht_id ta)) (\<lambda>delta.
     bnd (read_deltas tas) (\<lambda>rest. ret (ta\<lparr>ht_delta := delta\<rparr> # rest)))"

definition history_get_transactions ::
    "bool \<Rightarrow> int \<Rightarrow> int \<Rightarrow> (history_ctx, history_transaction list) hm" where
  "history_get_transactions reverse from to =
     bnd (check_cond (to \<ge> from)) (\<lambda>_. on_db (
     bnd (if from = 0 \<or> to = 0
          then bnd (sql_prepare t_transactions) (\<lambda>rows.
               bnd (sql_query1 (order_by_desc tr_id rows)) (\<lambda>step.
                 case step of
                   Row r \<Rightarrow> bnd (sql_prepare t_transactions) (\<lambda>rows. ret (tr_id r, rows))
                 | _ \<Rightarrow> failH (RC (-1))))
          else bnd (sql_prepare t_transactions) (\<lambda>rows.
               bnd sql_ok (\<lambda>_. bnd sql_ok (\<lambda>_.
                 ret (to - from + 1, filter (\<lambda>r. from \<le> tr_id r \<and> tr_id r \<le> to) rows)))))
       (\<lambda>(count, rows).
     bnd (for_rows (read_trans_row count)
            (if reverse then order_by_desc tr_id rows else order_by tr_id rows) []) (\<lambda>tas.
       read_deltas tas))))"

definition history_nevra_map :: "(history_ctx, history_nevra_map) hm" where
  "history_nevra_map = on_db db_nevra_map"

definition history_get_nevra :: "history_nevra_map option \<Rightarrow> int \<Rightarrow> string option" where
  "history_get_nevra hnm idx = (case hnm of
     None \<Rightarrow> None
   | Some m \<Rightarrow> if idx > 0 \<and> idx \<le> hnm_count m then idmap m ! nat (idx - 1) else None)"

section \<open>Runs without faults\<close>

text \<open>The invariant of a synchronised context.\<close>

definition ctx_ok :: "history_ctx \<Rightarrow> bool" where
  "ctx_ok ctx \<longleftrightarrow> log_ok (cur (h_db ctx)) \<and> faults (h_db ctx) = [] \<and> saved (h_db ctx) = None
     \<and> sorted (h_installed_ids ctx) \<and> distinct (h_installed_ids ctx)
     \<and> h_trans_id ctx = last_trans (cur (h_db ctx))
     \<and> set (h_installed_ids ctx) = state_at (cur (h_db ctx)) (h_trans_id ctx)
     \<and> h_cookie ctx \<noteq> None"

text \<open>The packages installed after a transaction, by name.\<close>

definition nevras_at :: "history_db \<Rightarrow> int \<Rightarrow> string set" where
  "nevras_at d t = snd ` {r \<in> set (rpm_rows d). fst r \<in> state_at d t}"

lemma replay_to_ok:
  assumes "log_ok (cur c)" and "faults c = []" and "1 \<le> t" and "t \<le> last_trans (cur c)"
  shows "\<exists>m. replay_to t c = (Inr m, c) \<and> get_ids_from_map m = replayed_ids (cur c) t"
proof -
  let ?n = "length (rpm_rows (cur c))"
  have "dict_rows Rpms (cur c) = Some (rpm_rows (cur c))" "keys_ok (map fst (rpm_rows (cur c)))"
    using assms(1) by (auto simp: log_ok_def rpm_rows_def dict_ok_def)
  then have max: "db_rpms_maxid c = (Inr (int ?n), c)"
    using assms(2) by (simp add: db_rpms_maxid_def sql_simps)
  obtain m where m: "db_play_transaction t (replicate ?n False) (int ?n) c = (Inr m, c)"
    "length m = ?n" "ids_of m = state_at (cur c) t"
    using db_play_transaction_ok [OF assms, of "replicate ?n False"] by auto
  then have "get_ids_from_map m = replayed_ids (cur c) t"
    by (simp add: ids_from_state [OF m(3)] replayed_ids_def)
  with max m(1) show ?thesis by (auto simp: replay_to_def)
qed

lemma history_get_delta_ok:
  assumes "log_ok (cur (h_db ctx))" and "faults (h_db ctx) = []"
    and "sorted (h_installed_ids ctx)" and "distinct (h_installed_ids ctx)"
    and "1 \<le> t" and "t \<le> last_trans (cur (h_db ctx))"
  shows "\<exists>hd. history_get_delta t ctx = (Inr hd, ctx)
    \<and> set (removed_ids hd) = set (h_installed_ids ctx) - state_at (cur (h_db ctx)) t
    \<and> set (added_ids hd) = state_at (cur (h_db ctx)) t - set (h_installed_ids ctx)
    \<and> set (h_installed_ids ctx) - set (removed_ids hd) \<union> set (added_ids hd) = state_at (cur (h_db ctx)) t"
proof -
  let ?d = "cur (h_db ctx)"
  obtain m where m: "replay_to t (h_db ctx) = (Inr m, h_db ctx)" "get_ids_from_map m = replayed_ids ?d t"
    using replay_to_ok [OF assms(1,2,5,6)] by blast
  obtain removed added where diff: "diff_arrays (h_installed_ids ctx) (replayed_ids ?d t) = (removed, added)"
    by (cases "diff_arrays (h_installed_ids ctx) (replayed_ids ?d t)")
  have sets: "set removed = set (h_installed_ids ctx) - state_at ?d t"
    "set added = state_at ?d t - set (h_installed_ids ctx)"
    using diff_arrays_sets [OF assms(3,4) replayed_ids_set(2,3) [OF assms(1), of t]] diff
      replayed_ids_set(1) [OF assms(1), of t] by auto
  have "history_get_delta t ctx = (Inr \<lparr>added_ids = added, removed_ids = removed\<rparr>, ctx)"
    using m diff by (simp add: history_get_delta_def)
  with sets show ?thesis by auto
qed

text \<open>C6: The delta of a rollback removes exactly what is installed now and was not after transaction
  \<open>t\<close>, and adds exactly what was installed then and is not now. (The comment above the function
  describes the opposite direction.)\<close>

theorem get_delta_leads_to:
  assumes "log_ok (cur (h_db ctx))" and "faults (h_db ctx) = []"
    and "sorted (h_installed_ids ctx)" and "distinct (h_installed_ids ctx)"
    and "1 \<le> t" and "t \<le> last_trans (cur (h_db ctx))"
  shows "\<exists>hd. history_get_delta t ctx = (Inr hd, ctx)
    \<and> set (removed_ids hd) = set (h_installed_ids ctx) - state_at (cur (h_db ctx)) t
    \<and> set (added_ids hd) = state_at (cur (h_db ctx)) t - set (h_installed_ids ctx)
    \<and> set (h_installed_ids ctx) - set (removed_ids hd) \<union> set (added_ids hd) = state_at (cur (h_db ctx)) t"
  using history_get_delta_ok [OF assms] .

theorem get_delta_leads_to_witness:
  "\<exists>hd. history_get_delta 1 sample_ctx = (Inr hd, sample_ctx)
     \<and> set (removed_ids hd) = {2, 3} \<and> set (added_ids hd) = {1}"
proof -
  have "cur (h_db sample_ctx) = sample_db" "h_installed_ids sample_ctx = [2, 3]"
    "faults (h_db sample_ctx) = []" "last_trans sample_db = 3"
    by (simp_all add: sample_ctx_def sample_defs last_trans_def trans_list_def)
  then show ?thesis
    using get_delta_leads_to [of sample_ctx 1] sample_log_ok sample_states(1) by auto
qed

text \<open>C7: The delta of a range undoes it: it leads from the state after \<open>t1\<close> to the state after \<open>t0\<close>,
  which is the direction its callers rely on and the reverse of what its comment says.\<close>

theorem get_delta_range_undoes:
  assumes "log_ok (cur (h_db ctx))" and "faults (h_db ctx) = []"
    and "1 \<le> t0" and "t0 \<le> last_trans (cur (h_db ctx))"
    and "1 \<le> t1" and "t1 \<le> last_trans (cur (h_db ctx))"
  shows "\<exists>hd. history_get_delta_range t0 t1 ctx = (Inr hd, ctx)
    \<and> set (removed_ids hd) = state_at (cur (h_db ctx)) t1 - state_at (cur (h_db ctx)) t0
    \<and> set (added_ids hd) = state_at (cur (h_db ctx)) t0 - state_at (cur (h_db ctx)) t1"
proof -
  let ?d = "cur (h_db ctx)"
  have max: "db_rpms_maxid (h_db ctx) = (Inr (int (length (rpm_rows ?d))), h_db ctx)"
    using assms(1,2) by (auto simp: db_rpms_maxid_def log_ok_def rpm_rows_def dict_ok_def
        intro!: db_maxid_ok)
  have play: "\<exists>m. db_play_transaction t (replicate (length (rpm_rows ?d)) False)
      (int (length (rpm_rows ?d))) (h_db ctx) = (Inr m, h_db ctx) \<and> get_ids_from_map m = replayed_ids ?d t"
    if "1 \<le> t" "t \<le> last_trans ?d" for t
    using replay_to_ok [OF assms(1,2) that] max by (auto simp: replay_to_def)
  obtain m0 m1 where "db_play_transaction t0 (replicate (length (rpm_rows ?d)) False)
      (int (length (rpm_rows ?d))) (h_db ctx) = (Inr m0, h_db ctx)" "get_ids_from_map m0 = replayed_ids ?d t0"
    and "db_play_transaction t1 (replicate (length (rpm_rows ?d)) False)
      (int (length (rpm_rows ?d))) (h_db ctx) = (Inr m1, h_db ctx)" "get_ids_from_map m1 = replayed_ids ?d t1"
    using play [OF assms(3,4)] play [OF assms(5,6)] by blast
  then show ?thesis
    using max diff_arrays_sets [OF replayed_ids_set(2,3) [OF assms(1), of t1]
        replayed_ids_set(2,3) [OF assms(1), of t0]] replayed_ids_set(1) [OF assms(1)]
    by (auto simp: history_get_delta_range_def split: prod.split)
qed

theorem get_delta_range_undoes_witness:
  "\<exists>hd. history_get_delta_range 1 3 sample_ctx = (Inr hd, sample_ctx)
     \<and> set (removed_ids hd) = {2, 3} \<and> set (added_ids hd) = {1}"
proof -
  have "cur (h_db sample_ctx) = sample_db" "faults (h_db sample_ctx) = []" "last_trans sample_db = 3"
    by (simp_all add: sample_ctx_def sample_defs last_trans_def trans_list_def)
  then show ?thesis
    using get_delta_range_undoes [of sample_ctx 1 3] sample_log_ok sample_states(1,3) by auto
qed

section \<open>Recording\<close>

definition learn_rpms :: "string list \<Rightarrow> history_db \<Rightarrow> history_db" where
  "learn_rpms ns d = d\<lparr>t_rpms := Some (fold dict_insert ns (rpm_rows d))\<rparr>"

lemma learn_rpms_fields [simp]:
  "rpm_rows (learn_rpms ns d) = fold dict_insert ns (rpm_rows d)" "t_rpms (learn_rpms ns d) \<noteq> None"
  "t_transactions (learn_rpms ns d) = t_transactions d" "t_trans_items (learn_rpms ns d) = t_trans_items d"
  "t_flag_set (learn_rpms ns d) = t_flag_set d" "t_names (learn_rpms ns d) = t_names d"
  "trans_list (learn_rpms ns d) = trans_list d" "item_list (learn_rpms ns d) = item_list d"
  "last_trans (learn_rpms ns d) = last_trans d" "trans_type (learn_rpms ns d) t = trans_type d t"
  by (simp_all add: learn_rpms_def rpm_rows_def trans_list_def item_list_def last_trans_def
      trans_type_def)

lemma learn_rpms_state [simp]:
  "entry (learn_rpms ns d) = entry d" "state_at (learn_rpms ns d) t = state_at d t"
proof -
  show e: "entry (learn_rpms ns d) = entry d" by (simp add: entry_def fun_eq_iff)
  show "state_at (learn_rpms ns d) t = state_at d t" by (simp add: state_at_def e)
qed

lemma length_learned: "length rows \<le> length (fold dict_insert ns rows)"
  using dict_fold_prefix [of ns rows] by auto

lemma learn_rpms_base: "dict_ok (rpm_rows d) \<Longrightarrow> trans_list d = [] \<Longrightarrow> item_list d = [] \<Longrightarrow>
    log_base (learn_rpms ns d)"
  by (auto simp: log_base_def dict_fold_ok no_conflict_def simp del: learn_rpms_fields(2))
    (simp add: learn_rpms_def)

lemma learn_rpms_ok: "log_ok d \<Longrightarrow> log_ok (learn_rpms ns d)"
  using length_learned [of "rpm_rows d" ns]
  by (auto simp: log_ok_def dict_fold_ok item_ok_def list_all_iff simp del: learn_rpms_fields(2))
    (auto simp: learn_rpms_def)

lemma db_update_rpms_learns:
  "faults c = [] \<Longrightarrow> dict_ok (rpm_rows (cur c)) \<Longrightarrow>
     db_update_rpms ns c = (Inr (sort (dict_ids ns (rpm_rows (cur c)))), c\<lparr>cur := learn_rpms ns (cur c)\<rparr>)"
  by (simp add: db_update_rpms_ok learn_rpms_def)

lemma dict_ids_bound:
  assumes "dict_ok rows"
  shows "set (dict_ids ns rows) \<subseteq> {1..int (length (fold dict_insert ns rows))}"
proof
  fix i assume "i \<in> set (dict_ids ns rows)"
  then obtain n where "(i, n) \<in> set (fold dict_insert ns rows)"
    unfolding dict_ids_names [OF assms] by blast
  then have "i \<in> set (map fst (fold dict_insert ns rows))" by force
  moreover have "keys_ok (map fst (fold dict_insert ns rows))"
    using dict_fold_ok [OF assms] by (simp add: dict_ok_def)
  ultimately show "i \<in> {1..int (length (fold dict_insert ns rows))}"
    using keys_ok_mem by fastforce
qed

lemma learned_names:
  assumes "dict_ok rows"
  shows "snd ` {r \<in> set (fold dict_insert ns rows). fst r \<in> set (dict_ids ns rows)} = set ns"
proof -
  have "n \<in> set ns" if row: "(i, n) \<in> set (fold dict_insert ns rows)"
    and in_ids: "i \<in> set (dict_ids ns rows)" for i n
  proof -
    obtain m where m: "m \<in> set ns" "(i, m) \<in> set (fold dict_insert ns rows)"
      using in_ids unfolding dict_ids_names [OF assms] by blast
    have "distinct (map fst (fold dict_insert ns rows))"
      using dict_fold_ok [OF assms] by (simp add: dict_ok_def keys_ok_sorted)
    with m row show ?thesis by (metis eq_key_imp_eq_value)
  qed
  moreover have "\<exists>i. (i, n) \<in> set (fold dict_insert ns rows) \<and> i \<in> set (dict_ids ns rows)" if "n \<in> set ns" for n
    using dict_fold_mem [OF assms that] dict_id_Some that unfolding dict_ids_names [OF assms] by blast
  ultimately show ?thesis by force
qed

lemma nevras_at_learn:
  assumes "log_ok d"
  shows "nevras_at (learn_rpms ns d) t = nevras_at d t"
proof -
  obtain ext where ext: "fold dict_insert ns (rpm_rows d) = rpm_rows d @ ext" using dict_fold_prefix by blast
  have "keys_ok (map fst (rpm_rows d @ ext))"
    using dict_fold_ok [of "rpm_rows d" ns] assms ext by (simp add: log_ok_def dict_ok_def)
  then have dist: "distinct (map fst (rpm_rows d @ ext))" using keys_ok_sorted by blast
  have "fst r \<notin> state_at d t" if "r \<in> set ext" for r
  proof
    assume "fst r \<in> state_at d t"
    then have "fst r \<in> {1..int (length (rpm_rows d))}" using state_at_bound [OF assms] by blast
    then have "fst r \<in> set (map fst (rpm_rows d))"
      using keys_ok_mem [of "map fst (rpm_rows d)" "fst r"] assms by (simp add: log_ok_def dict_ok_def)
    with dist that show False by auto
  qed
  then show ?thesis by (auto simp: nevras_at_def ext)
qed

lemma in_transaction_ok:
  assumes "body ctx = (Inr x, ctx')" and "faults (h_db ctx') = []" and "saved (h_db ctx') = Some d"
  shows "in_transaction body ctx = (Inr x, ctx'\<lparr>h_db := (h_db ctx')\<lparr>saved := None\<rparr>\<rparr>)"
  using assms by (simp add: in_transaction_def on_db_def sql_commit_ok)

lemma closed_saved: "saved c = None \<Longrightarrow> c\<lparr>cur := d, saved := None\<rparr> = c\<lparr>cur := d\<rparr>"
  by (cases c) simp

lemma same_items: "t_trans_items d = Some rows \<Longrightarrow> d\<lparr>t_trans_items := Some rows\<rparr> = d"
  by simp

text \<open>A recorded baseline is an appended change.\<close>

lemma record_state_appends:
  assumes "faults (h_db ctx) = []" and "saved (h_db ctx) = None" and "keys_ok (map tr_id (trans_list (cur (h_db ctx))))"
  shows "history_record_state now ctx = (Inr (), ctx\<lparr>
    h_db := (h_db ctx)\<lparr>cur := append_change \<lparr>ti_cookie = h_cookie ctx, ti_cmdline = Some ''(set)'', ti_time = now\<rparr>
        (SetAll (h_installed_ids ctx)) (cur (h_db ctx))\<rparr>,
    h_trans_id := last_trans (cur (h_db ctx)) + 1\<rparr>)"
proof -
  let ?c = "h_db ctx" and ?d = "cur (h_db ctx)"
  let ?n = "last_trans ?d + 1"
  let ?row = "\<lparr>tr_id = ?n, tr_cookie = h_cookie ctx, tr_cmdline = Some ''(set)'', tr_timestamp = now, tr_type = 0\<rparr>"
  have n: "next_id (map tr_id (trans_list ?d)) = ?n"
    using next_id_keys [OF assms(3)] by (simp add: last_trans_def)
  define c1 where "c1 = ?c\<lparr>saved := Some ?d, cur := create_transactions ?d\<rparr>"
  have c1: "faults c1 = []" "t_transactions (cur c1) = Some (trans_list ?d)"
    using assms(1) by (auto simp: c1_def create_transactions_def trans_list_def split: option.split)
  define c2 where "c2 = c1\<lparr>cur := (cur c1)\<lparr>t_transactions := Some (trans_list ?d @ [?row])\<rparr>\<rparr>"
  have add: "db_add_transaction (Some ''(set)'') now (h_cookie ctx) HISTORY_TRANS_TYPE_BASE c1 = (Inr ?n, c2)"
    using db_add_transaction_ok [OF c1] n by (simp add: c2_def)
  define c3 where "c3 = c2\<lparr>cur := create_trans_items (cur c2)\<rparr>"
  have c3: "faults c3 = []" "t_trans_items (cur c3) = Some (item_list ?d)"
    using c1(1) by (auto simp: c3_def c2_def c1_def create_transactions_def create_trans_items_def
        item_list_def split: option.split)
  have "(cur c3)\<lparr>t_trans_items := Some (item_rows ?n 0 (h_installed_ids ctx) (item_list ?d))\<rparr>
      = append_change \<lparr>ti_cookie = h_cookie ctx, ti_cmdline = Some ''(set)'', ti_time = now\<rparr>
        (SetAll (h_installed_ids ctx)) ?d"
    by (simp add: c3_def c2_def c1_def create_transactions_def create_trans_items_def append_change_def)
  then have items: "db_add_trans_items ?n HISTORY_ITEM_TYPE_SET (h_installed_ids ctx) c3
      = (Inr (), c3\<lparr>cur := append_change \<lparr>ti_cookie = h_cookie ctx, ti_cmdline = Some ''(set)'', ti_time = now\<rparr>
        (SetAll (h_installed_ids ctx)) ?d\<rparr>)"
    using db_add_trans_items_ok [OF c3] by simp
  have "on_db sql_begin ctx = (Inr (), ctx\<lparr>h_db := ?c\<lparr>saved := Some ?d\<rparr>\<rparr>)"
    using assms(1,2) by (simp add: sql_begin_ok)
  moreover have "on_db (sql_exec create_transactions) (ctx\<lparr>h_db := ?c\<lparr>saved := Some ?d\<rparr>\<rparr>)
      = (Inr (), ctx\<lparr>h_db := c1\<rparr>)"
    using assms(1) by (simp add: sql_exec_ok c1_def)
  moreover have "on_db (sql_exec create_trans_items) (ctx\<lparr>h_db := c2\<rparr>) = (Inr (), ctx\<lparr>h_db := c3\<rparr>)"
    using c1(1) by (simp add: sql_exec_ok c3_def c2_def)
  ultimately have "record_state_body now ctx = (Inr (), ctx\<lparr>h_db := c3\<lparr>cur := append_change
      \<lparr>ti_cookie = h_cookie ctx, ti_cmdline = Some ''(set)'', ti_time = now\<rparr> (SetAll (h_installed_ids ctx)) ?d\<rparr>,
      h_trans_id := ?n\<rparr>)"
    using add items by (simp add: record_state_body_def record_baseline_def baseline_items_def)
  from in_transaction_ok [of "record_state_body now", OF this, of ?d] show ?thesis
    using assms(1) closed_saved [OF assms(2)]
    by (cases ctx) (simp add: history_record_state_def c3_def c2_def c1_def)
qed

text \<open>A recorded update learns the packages and appends the two differences.\<close>

lemma update_state_appends:
  assumes "log_ok (cur (h_db ctx))" and "faults (h_db ctx) = []" and "saved (h_db ctx) = None"
    and "rv_cookie ts = Some cookie" and "h_cookie ctx = Some old" and "old \<noteq> cookie"
    and "current = sort (dict_ids (rv_nevras ts) (rpm_rows (cur (h_db ctx))))"
    and "diff_arrays (h_installed_ids ctx) current = (removed, added)"
  shows "history_update_state ts cmdline now ctx = (Inr (), ctx\<lparr>
    h_db := (h_db ctx)\<lparr>cur := append_change \<lparr>ti_cookie = Some cookie, ti_cmdline = cmdline, ti_time = now\<rparr>
        (AddRemove added removed) (learn_rpms (rv_nevras ts) (cur (h_db ctx)))\<rparr>,
    h_installed_ids := current, h_cookie := Some cookie,
    h_trans_id := last_trans (cur (h_db ctx)) + 1\<rparr>)"
proof -
  let ?c = "h_db ctx" and ?d = "cur (h_db ctx)"
  let ?n = "last_trans ?d + 1" and ?e = "learn_rpms (rv_nevras ts) ?d"
  let ?row = "\<lparr>tr_id = ?n, tr_cookie = Some cookie, tr_cmdline = cmdline, tr_timestamp = now, tr_type = 1\<rparr>"
  have keys: "keys_ok (map tr_id (trans_list ?d))" and dict: "dict_ok (rpm_rows ?d)"
    and tabs: "t_transactions ?d = Some (trans_list ?d)" "t_trans_items ?d = Some (item_list ?d)"
    using assms(1) by (auto simp: log_ok_def trans_list_def item_list_def)
  have n: "next_id (map tr_id (trans_list ?d)) = ?n"
    using next_id_keys [OF keys] by (simp add: last_trans_def)
  define c1 where "c1 = ?c\<lparr>cur := ?e, saved := Some ?e\<rparr>"
  define c2 where "c2 = c1\<lparr>cur := ?e\<lparr>t_transactions := Some (trans_list ?d @ [?row])\<rparr>\<rparr>"
  define c3 where "c3 = c2\<lparr>cur := (cur c2)\<lparr>t_trans_items :=
    Some (item_rows ?n HISTORY_ITEM_TYPE_ADD added (item_list ?d))\<rparr>\<rparr>"
  define c4 where "c4 = c3\<lparr>cur := (cur c3)\<lparr>t_trans_items := Some (item_rows ?n HISTORY_ITEM_TYPE_REMOVE removed
    (item_rows ?n HISTORY_ITEM_TYPE_ADD added (item_list ?d)))\<rparr>\<rparr>"
  note cs = c1_def c2_def c3_def c4_def
  have "on_db (db_update_rpms (rv_nevras ts)) ctx = (Inr current, ctx\<lparr>h_db := ?c\<lparr>cur := ?e\<rparr>\<rparr>)"
    using db_update_rpms_learns [OF assms(2) dict] assms(7) by simp
  moreover have "on_db sql_begin (ctx\<lparr>h_db := ?c\<lparr>cur := ?e\<rparr>\<rparr>) = (Inr (), ctx\<lparr>h_db := c1\<rparr>)"
    using assms(2,3) by (simp add: sql_begin_ok c1_def)
  moreover have "on_db (db_add_transaction cmdline now (Some cookie) HISTORY_TRANS_TYPE_DELTA) (ctx\<lparr>h_db := c1\<rparr>)
      = (Inr ?n, ctx\<lparr>h_db := c2\<rparr>)"
    using assms(2) tabs n by (simp add: db_add_transaction_ok cs)
  moreover have "(if added \<noteq> [] then on_db (db_add_trans_items ?n HISTORY_ITEM_TYPE_ADD added) else ret ())
      (ctx\<lparr>h_db := c2\<rparr>) = (Inr (), ctx\<lparr>h_db := c3\<rparr>)"
    using assms(2) tabs by (simp add: db_add_trans_items_ok cs same_items)
  moreover have "(if removed \<noteq> [] then on_db (db_add_trans_items ?n HISTORY_ITEM_TYPE_REMOVE removed) else ret ())
      (ctx\<lparr>h_db := c3\<rparr>) = (Inr (), ctx\<lparr>h_db := c4\<rparr>)"
    using assms(2) by (simp add: db_add_trans_items_ok cs)
  ultimately have "update_state_body ts cookie cmdline now ctx = (Inr (), ctx\<lparr>h_db := c4,
      h_installed_ids := current, h_cookie := Some cookie, h_trans_id := ?n\<rparr>)"
    using assms(8) by (simp add: update_state_body_def record_delta_def history_set_cookie_def)
  from in_transaction_ok [of "update_state_body ts cookie cmdline now", OF this, of ?e] show ?thesis
    using assms(2,4,5,6) closed_saved [OF assms(3)]
    by (cases ctx) (simp add: history_update_state_def cs append_change_def)
qed

section \<open>The history tells the truth\<close>

definition last_cookie :: "history_db \<Rightarrow> string option" where
  "last_cookie d = (if trans_list d = [] then None else tr_cookie (last (trans_list d)))"

lemma append_change_cookie: "last_cookie (append_change ti ch d) = ti_cookie ti"
  by (simp add: last_cookie_def append_change_def trans_list_def)

lemma nevras_at_append:
  "log_base d \<Longrightarrow> t \<le> last_trans d \<Longrightarrow> nevras_at (append_change ti ch d) t = nevras_at d t"
  by (simp add: nevras_at_def append_change_fields append_state)

lemma current_ids_props:
  assumes "dict_ok (rpm_rows d)" and "distinct ns"
  defines "current \<equiv> sort (dict_ids ns (rpm_rows d))"
  shows "sorted current" "distinct current" "set current = set (dict_ids ns (rpm_rows d))"
    "set current \<subseteq> {1..int (length (rpm_rows (learn_rpms ns d)))}"
    "snd ` {r \<in> set (rpm_rows (learn_rpms ns d)). fst r \<in> set current} = set ns"
  using dict_ids_distinct [OF assms(1,2)] dict_ids_bound [OF assms(1)] learned_names [OF assms(1)]
  by (simp_all add: current_def)

lemma update_state_ctx:
  assumes "log_ok (cur (h_db ctx))" "faults (h_db ctx) = []" "saved (h_db ctx) = None"
    and "sorted (h_installed_ids ctx)" "distinct (h_installed_ids ctx)"
    and "set (h_installed_ids ctx) = state_at (cur (h_db ctx)) (last_trans (cur (h_db ctx)))"
    and "rv_cookie ts = Some cookie" "h_cookie ctx = Some old" "old \<noteq> cookie"
    and "distinct (rv_nevras ts)"
  shows "\<exists>ctx'. history_update_state ts cmdline now ctx = (Inr (), ctx') \<and> ctx_ok ctx'
    \<and> h_trans_id ctx' = last_trans (cur (h_db ctx)) + 1 \<and> h_cookie ctx' = Some cookie
    \<and> last_cookie (cur (h_db ctx')) = Some cookie
    \<and> nevras_at (cur (h_db ctx')) (h_trans_id ctx') = set (rv_nevras ts)
    \<and> (\<forall>t \<le> last_trans (cur (h_db ctx)). nevras_at (cur (h_db ctx')) t = nevras_at (cur (h_db ctx)) t)"
proof -
  let ?d = "cur (h_db ctx)" and ?ns = "rv_nevras ts" and ?ids = "h_installed_ids ctx"
  let ?e = "learn_rpms ?ns ?d"
  define current where "current = sort (dict_ids ?ns (rpm_rows ?d))"
  obtain removed added where diff: "diff_arrays ?ids current = (removed, added)"
    by (cases "diff_arrays ?ids current")
  define ti where "ti = \<lparr>ti_cookie = Some cookie, ti_cmdline = cmdline, ti_time = now\<rparr>"
  define ctx' where "ctx' = ctx\<lparr>h_db := (h_db ctx)\<lparr>cur := append_change ti (AddRemove added removed) ?e\<rparr>,
    h_installed_ids := current, h_cookie := Some cookie, h_trans_id := last_trans ?d + 1\<rparr>"
  have run: "history_update_state ts cmdline now ctx = (Inr (), ctx')"
    using update_state_appends [OF assms(1-3,7-9) current_def diff] by (simp add: ctx'_def ti_def)
  have dict: "dict_ok (rpm_rows ?d)" using assms(1) by (simp add: log_ok_def)
  note current = current_ids_props [OF dict assms(10), folded current_def]
  have sets: "set removed = set ?ids - set current" "set added = set current - set ?ids"
    using diff_arrays_sets [OF assms(4,5) current(1,2)] diff by auto
  have e: "log_ok ?e" "log_base ?e" using learn_rpms_ok [OF assms(1)] by (auto simp: log_ok_base)
  have "set ?ids \<subseteq> {1..int (length (rpm_rows ?e))}"
    using assms(6) state_at_bound [OF e(1), of "last_trans ?d"] by simp
  then have "change_ok ?e (AddRemove added removed)"
    using current(4) sets by (auto simp: change_ok_def)
  then have ok: "log_ok (append_change ti (AddRemove added removed) ?e)"
    using hist.append_ok [OF e(1)] by blast
  have "change_step (AddRemove added removed) (state_at ?e (last_trans ?e)) = set current"
    using assms(6) sets by auto
  then have new: "state_at (append_change ti (AddRemove added removed) ?e) (last_trans ?d + 1) = set current"
    using append_state(2) [OF e(2), of ti "AddRemove added removed"] by simp
  have "ctx_ok ctx'"
    using ok new assms(2,3) current(1,2) by (simp add: ctx_ok_def ctx'_def append_change_fields)
  moreover have "nevras_at (cur (h_db ctx')) (h_trans_id ctx') = set ?ns"
    using new current(5) by (simp add: nevras_at_def ctx'_def append_change_fields)
  moreover have "nevras_at (cur (h_db ctx')) t = nevras_at ?d t" if "t \<le> last_trans ?d" for t
    using that nevras_at_append [OF e(2), of t ti "AddRemove added removed"] nevras_at_learn [OF assms(1)]
    by (simp add: ctx'_def)
  moreover have "last_cookie (cur (h_db ctx')) = Some cookie"
    by (simp add: ctx'_def append_change_cookie ti_def)
  ultimately show ?thesis using run by (auto simp: ctx'_def)
qed

lemma record_state_ctx:
  assumes "log_base (cur (h_db ctx))" "faults (h_db ctx) = []" "saved (h_db ctx) = None"
    and "sorted (h_installed_ids ctx)" "distinct (h_installed_ids ctx)"
    and "set (h_installed_ids ctx) \<subseteq> {1..int (length (rpm_rows (cur (h_db ctx))))}"
    and "h_cookie ctx = Some cookie"
  shows "\<exists>ctx'. history_record_state now ctx = (Inr (), ctx') \<and> ctx_ok ctx'
    \<and> h_trans_id ctx' = last_trans (cur (h_db ctx)) + 1 \<and> h_cookie ctx' = Some cookie
    \<and> h_installed_ids ctx' = h_installed_ids ctx \<and> last_cookie (cur (h_db ctx')) = Some cookie
    \<and> rpm_rows (cur (h_db ctx')) = rpm_rows (cur (h_db ctx))
    \<and> (\<forall>t \<le> last_trans (cur (h_db ctx)). state_at (cur (h_db ctx')) t = state_at (cur (h_db ctx)) t)"
proof -
  let ?d = "cur (h_db ctx)" and ?ch = "SetAll (h_installed_ids ctx)"
  define ti where "ti = \<lparr>ti_cookie = h_cookie ctx, ti_cmdline = Some ''(set)'', ti_time = now\<rparr>"
  define ctx' where "ctx' = ctx\<lparr>h_db := (h_db ctx)\<lparr>cur := append_change ti ?ch ?d\<rparr>,
    h_trans_id := last_trans ?d + 1\<rparr>"
  have "keys_ok (map tr_id (trans_list ?d))" using assms(1) by (simp add: log_base_def)
  then have run: "history_record_state now ctx = (Inr (), ctx')"
    using record_state_appends [OF assms(2,3)] by (simp add: ctx'_def ti_def)
  have "log_ok (append_change ti ?ch ?d)"
    using append_change_ok [OF assms(1), of ?ch] assms(6) by (simp add: change_ok_def)
  moreover have "state_at (append_change ti ?ch ?d) (last_trans ?d + 1) = set (h_installed_ids ctx)"
    using append_state(2) [OF assms(1), of ti ?ch] by simp
  ultimately have "ctx_ok ctx'"
    using assms(2-5,7) by (simp add: ctx_ok_def ctx'_def append_change_fields)
  then show ?thesis
    using run assms(7) append_state(1) [OF assms(1)]
    by (auto simp: ctx'_def append_change_fields append_change_cookie ti_def)
qed

text \<open>C4: When the rpm database has changed, \<^verbatim>\<open>history_update_state\<close> adds one transaction after which
  the recorded packages are exactly the installed ones, keeps every state recorded before, and
  leaves the context synchronised.\<close>

theorem update_state_records:
  assumes "ctx_ok ctx" and "rv_cookie ts = Some cookie" and "h_cookie ctx \<noteq> Some cookie"
    and "distinct (rv_nevras ts)" and "history_update_state ts cmdline now ctx = (r, ctx')"
  shows "r = Inr () \<and> ctx_ok ctx' \<and> h_trans_id ctx' = h_trans_id ctx + 1
    \<and> nevras_at (cur (h_db ctx')) (h_trans_id ctx') = set (rv_nevras ts)
    \<and> (\<forall>t \<le> h_trans_id ctx. nevras_at (cur (h_db ctx')) t = nevras_at (cur (h_db ctx)) t)"
proof -
  obtain old where old: "h_cookie ctx = Some old" "old \<noteq> cookie"
    using assms(1,3) by (auto simp: ctx_ok_def)
  have "log_ok (cur (h_db ctx))" "faults (h_db ctx) = []" "saved (h_db ctx) = None"
    "sorted (h_installed_ids ctx)" "distinct (h_installed_ids ctx)"
    "set (h_installed_ids ctx) = state_at (cur (h_db ctx)) (last_trans (cur (h_db ctx)))"
    and last: "h_trans_id ctx = last_trans (cur (h_db ctx))"
    using assms(1) by (auto simp: ctx_ok_def)
  from update_state_ctx [OF this(1-6) assms(2) old assms(4), of cmdline now] assms(5) last
  show ?thesis by auto
qed

lemma sample_ctx_ok: "ctx_ok sample_ctx"
proof -
  have "last_trans sample_db = 3" by (simp add: last_trans_def trans_list_def sample_db_def)
  then show ?thesis
    using sample_log_ok sample_states(3) by (auto simp: ctx_ok_def sample_ctx_def sample_conn_def)
qed

theorem update_state_records_witness:
  "nevras_at (cur (h_db (snd (history_update_state \<lparr>rv_cookie = Some ''c4'', rv_nevras = [''c-1'', ''a-2'']\<rparr>
      (Some ''erase b'') 40 sample_ctx)))) 4 = {''c-1'', ''a-2''}"
proof -
  let ?ts = "\<lparr>rv_cookie = Some ''c4'', rv_nevras = [''c-1'', ''a-2'']\<rparr>"
  have "rv_cookie ?ts = Some ''c4''" "h_cookie sample_ctx \<noteq> Some ''c4''" "distinct (rv_nevras ?ts)"
    "h_trans_id sample_ctx = 3"
    by (simp_all add: sample_ctx_def)
  from update_state_records [OF sample_ctx_ok this(1-3) surjective_pairing, of "Some ''erase b''" 40] this(4)
  have "h_trans_id (snd (history_update_state ?ts (Some ''erase b'') 40 sample_ctx)) = 4"
    "nevras_at (cur (h_db (snd (history_update_state ?ts (Some ''erase b'') 40 sample_ctx))))
      (h_trans_id (snd (history_update_state ?ts (Some ''erase b'') 40 sample_ctx))) = set (rv_nevras ?ts)"
    by (elim conjE; simp)+
  then show ?thesis by (simp only: rpm_view.simps list.set)
qed

section \<open>Synchronisation\<close>

text \<open>
  The databases \<^verbatim>\<open>history_sync\<close> is meant for: one without a history yet, or one with a history whose
  last cookie, when it is that of the rpm database, was recorded for its present contents.
\<close>

definition fresh_db :: "history_db \<Rightarrow> bool" where
  "fresh_db d \<longleftrightarrow> trans_list d = [] \<and> item_list d = [] \<and> dict_ok (rpm_rows d)"

definition sync_ready :: "rpm_view \<Rightarrow> history_db \<Rightarrow> bool" where
  "sync_ready ts d \<longleftrightarrow> distinct (rv_nevras ts) \<and> rv_cookie ts \<noteq> None \<and>
     (fresh_db d \<or> log_ok d \<and> last_cookie d \<noteq> None
        \<and> (last_cookie d = rv_cookie ts \<longrightarrow> nevras_at d (last_trans d) = set (rv_nevras ts)))"

lemma known_ids:
  assumes "log_ok d" and "nevras_at d t = set ns"
  shows "set (dict_ids ns (rpm_rows d)) = state_at d t"
proof -
  let ?rows = "rpm_rows d" and ?more = "fold dict_insert ns (rpm_rows d)"
  have dict: "dict_ok ?rows" using assms(1) by (simp add: log_ok_def)
  have sub: "set ?rows \<subseteq> set ?more" using dict_fold_prefix [of ns ?rows] by auto
  have uniq: "distinct (map snd ?more)" using dict_fold_ok [OF dict] by (simp add: dict_ok_def)
  have "i \<in> state_at d t" if row: "(i, n) \<in> set ?more" and n: "n \<in> set ns" for i n
  proof -
    have "n \<in> nevras_at d t" using n assms(2) by simp
    then obtain j where j: "(j, n) \<in> set ?rows" "j \<in> state_at d t" by (auto simp: nevras_at_def)
    with uniq row sub have "i = j" by (metis distinct_map inj_onD prod.inject snd_conv subsetD)
    with j show ?thesis by simp
  qed
  moreover have "\<exists>n \<in> set ns. (i, n) \<in> set ?more" if "i \<in> state_at d t" for i
  proof -
    have "i \<in> {1..int (length ?rows)}" using state_at_bound [OF assms(1)] that by blast
    then have "i \<in> fst ` set ?rows"
      using keys_ok_mem [of "map fst ?rows" i] dict by (simp add: dict_ok_def)
    then obtain n where n: "(i, n) \<in> set ?rows" by force
    with that have "n \<in> nevras_at d t" by (force simp: nevras_at_def)
    with n sub assms(2) show ?thesis by auto
  qed
  ultimately show ?thesis unfolding dict_ids_names [OF dict] by blast
qed

lemma last_trans_row:
  assumes "log_ok d"
  shows "order_by_desc tr_id (trans_list d) = rev (trans_list d)"
    and "tr_id (last (trans_list d)) = last_trans d" "1 \<le> last_trans d"
proof -
  have keys: "keys_ok (map tr_id (trans_list d))" and ne: "trans_list d \<noteq> []"
    using assms by (auto simp: log_ok_def)
  show "order_by_desc tr_id (trans_list d) = rev (trans_list d)" by (rule order_by_desc_keys [OF keys])
  show "1 \<le> last_trans d" using ne by (cases "trans_list d") (simp_all add: last_trans_def)
  show "tr_id (last (trans_list d)) = last_trans d"
    using keys_ok_nth [OF keys, of "length (trans_list d) - 1"] ne
    by (cases "trans_list d" rule: rev_cases) (simp_all add: last_trans_def nth_append)
qed

lemma first_descending: "xs \<noteq> [] \<Longrightarrow> (case rev xs of [] \<Rightarrow> Done | r # _ \<Rightarrow> Row r) = Row (last xs)"
  by (cases xs rule: rev_cases) auto

lemma sync_fresh_ctx:
  assumes "fresh_db (cur (h_db ctx))" "faults (h_db ctx) = []" "saved (h_db ctx) = None" "distinct (rv_nevras ts)"
  shows "\<exists>ctx'. sync_fresh ts cookie now ctx = (Inr (), ctx') \<and> ctx_ok ctx' \<and> h_cookie ctx' = Some cookie
    \<and> nevras_at (cur (h_db ctx')) (h_trans_id ctx') = set (rv_nevras ts)"
proof -
  let ?d = "cur (h_db ctx)" and ?ns = "rv_nevras ts"
  define current where "current = sort (dict_ids ?ns (rpm_rows ?d))"
  define ctx1 where "ctx1 = (history_set_cookie cookie ctx)\<lparr>h_db := (h_db ctx)\<lparr>cur := learn_rpms ?ns ?d\<rparr>,
    h_installed_ids := current\<rparr>"
  have dict: "dict_ok (rpm_rows ?d)" using assms(1) by (simp add: fresh_db_def)
  note current = current_ids_props [OF dict assms(4), folded current_def]
  have run: "sync_fresh ts cookie now ctx = history_record_state now ctx1"
    using db_update_rpms_learns [OF assms(2) dict]
    by (cases ctx) (simp add: sync_fresh_def ctx1_def current_def history_set_cookie_def)
  have "log_base (cur (h_db ctx1))"
    using assms(1) learn_rpms_base by (simp add: ctx1_def fresh_db_def)
  from record_state_ctx [OF this, of cookie now] obtain ctx' where ctx':
    "history_record_state now ctx1 = (Inr (), ctx')" "ctx_ok ctx'" "h_cookie ctx' = Some cookie"
    "h_installed_ids ctx' = current" "rpm_rows (cur (h_db ctx')) = rpm_rows (learn_rpms ?ns ?d)"
    using assms(2,3) current by (auto simp: ctx1_def history_set_cookie_def)
  have "state_at (cur (h_db ctx')) (h_trans_id ctx') = set current"
    using ctx'(2,4) by (simp add: ctx_ok_def)
  with ctx' run current(5) show ?thesis by (auto simp: nevras_at_def)
qed

lemma history_sync_ok:
  assumes "sync_ready ts (cur (h_db ctx))" and "faults (h_db ctx) = []" and "saved (h_db ctx) = None"
    and "history_sync ts now ctx = (r, ctx')"
  shows "r = Inr () \<and> ctx_ok ctx' \<and> h_cookie ctx' = rv_cookie ts
    \<and> nevras_at (cur (h_db ctx')) (h_trans_id ctx') = set (rv_nevras ts)"
proof -
  let ?d = "cur (h_db ctx)" and ?ns = "rv_nevras ts"
  obtain cookie where ck: "rv_cookie ts = Some cookie" and dist: "distinct ?ns"
    using assms(1) by (auto simp: sync_ready_def)
  have "\<exists>ctx'. history_sync ts now ctx = (Inr (), ctx') \<and> ctx_ok ctx' \<and> h_cookie ctx' = Some cookie
    \<and> nevras_at (cur (h_db ctx')) (h_trans_id ctx') = set ?ns"
  proof (cases "fresh_db ?d")
    case True
    have "trans_list ?d = []" using True by (simp add: fresh_db_def)
    then have "t_transactions ?d = None \<or> t_transactions ?d = Some []"
      by (auto simp: trans_list_def split: option.splits)
    then have "history_sync ts now ctx = sync_fresh ts cookie now ctx"
      using assms(2) ck by (auto simp: history_sync_def sync_existing_def sql_simps order_by_desc_def on_db_def bnd_def)
    with sync_fresh_ctx [OF True assms(2,3) dist] show ?thesis by simp
  next
    case False
    with assms(1) have log: "log_ok ?d" and lc: "last_cookie ?d \<noteq> None"
      and truth: "last_cookie ?d = Some cookie \<Longrightarrow> nevras_at ?d (last_trans ?d) = set ?ns"
      by (auto simp: sync_ready_def ck)
    obtain cookie_db where db: "last_cookie ?d = Some cookie_db" using lc by auto
    have ne: "trans_list ?d \<noteq> []" and tabs: "t_transactions ?d = Some (trans_list ?d)"
      and rc: "tr_cookie (last (trans_list ?d)) = Some cookie_db"
      using log db by (auto simp: log_ok_def trans_list_def last_cookie_def split: if_splits)
    note row = first_descending [OF ne]
    have start: "history_sync ts now ctx =
        bnd (sync_existing ts cookie now) (\<lambda>fresh. if fresh then sync_fresh ts cookie now else ret ()) ctx"
      using assms(2) ck tabs by (simp add: history_sync_def sql_simps)
    show ?thesis
    proof (cases "cookie = cookie_db")
      case True
      define current where "current = sort (dict_ids ?ns (rpm_rows ?d))"
      have dict: "dict_ok (rpm_rows ?d)" using log by (simp add: log_ok_def)
      note current = current_ids_props [OF dict dist, folded current_def]
      define ctx' where "ctx' = ctx\<lparr>h_db := (h_db ctx)\<lparr>cur := learn_rpms ?ns ?d\<rparr>,
        h_installed_ids := current, h_cookie := Some cookie, h_trans_id := last_trans ?d\<rparr>"
      have "sync_existing ts cookie now ctx = (Inr False, ctx')"
        using assms(2) tabs row rc True last_trans_row [OF log] db_update_rpms_learns [OF assms(2) dict]
        by (cases ctx) (simp add: sync_existing_def sql_simps on_db_def bnd_def history_set_cookie_def
            ctx'_def current_def)
      moreover have "nevras_at ?d (last_trans ?d) = set ?ns" using truth db True by simp
      moreover have "ctx_ok ctx'"
        using learn_rpms_ok [OF log] current(1-3) known_ids [OF log, of "last_trans ?d" ?ns] assms(2,3)
          \<open>nevras_at ?d (last_trans ?d) = set ?ns\<close> by (simp add: ctx_ok_def ctx'_def)
      moreover have "cur (h_db ctx') = learn_rpms ?ns ?d" "h_trans_id ctx' = last_trans ?d"
        "h_cookie ctx' = Some cookie" by (simp_all add: ctx'_def)
      ultimately show ?thesis
        unfolding start using nevras_at_learn [OF log] by (intro exI [of _ ctx']) (simp add: bnd_def)
    next
      case False
      obtain m where m: "replay_to (last_trans ?d) (h_db ctx) = (Inr m, h_db ctx)"
        "get_ids_from_map m = replayed_ids ?d (last_trans ?d)"
        using replay_to_ok [OF log assms(2) last_trans_row(3) [OF log]] by auto
      define ctx1 where "ctx1 = ctx\<lparr>h_installed_ids := replayed_ids ?d (last_trans ?d),
        h_trans_id := last_trans ?d, h_cookie := Some cookie_db\<rparr>"
      have "sync_existing ts cookie now ctx =
          bnd (history_update_state ts (Some ''(unknown)'') now) (\<lambda>_. ret False) ctx1"
        using assms(2) tabs row rc False last_trans_row [OF log] m
        by (cases ctx) (simp add: sync_existing_def sql_simps on_db_def bnd_def history_set_cookie_def
            history_set_state_def ctx1_def)
      moreover obtain ctx' where "history_update_state ts (Some ''(unknown)'') now ctx1 = (Inr (), ctx')"
        "ctx_ok ctx'" "h_cookie ctx' = Some cookie"
        "nevras_at (cur (h_db ctx')) (h_trans_id ctx') = set ?ns"
        using update_state_ctx [of ctx1 ts cookie cookie_db "Some ''(unknown)''" now] log assms(2,3) ck
          dist replayed_ids_set [OF log, of "last_trans ?d"] False
        by (auto simp: ctx1_def)
      ultimately show ?thesis using start by (auto simp: bnd_def)
    qed
  qed
  with assms(4) ck show ?thesis by auto
qed

text \<open>C5: After \<^verbatim>\<open>history_sync\<close> on a fresh or a well formed database the context is synchronised: its
  last transaction describes exactly the installed packages, under the cookie of the rpm database.\<close>

theorem sync_establishes:
  assumes "sync_ready ts (cur (h_db ctx))" and "faults (h_db ctx) = []" and "saved (h_db ctx) = None"
    and "history_sync ts now ctx = (r, ctx')"
  shows "r = Inr () \<and> ctx_ok ctx' \<and> h_cookie ctx' = rv_cookie ts
    \<and> nevras_at (cur (h_db ctx')) (h_trans_id ctx') = set (rv_nevras ts)"
  using history_sync_ok [OF assms] .

definition empty_conn :: conn where
  "empty_conn = \<lparr>cur = \<lparr>t_rpms = None, t_names = None, t_transactions = None, t_trans_items = None,
     t_flag_set = None\<rparr>, saved = None, faults = []\<rparr>"

theorem sync_establishes_witness:
  "nevras_at (cur (h_db (snd (history_sync \<lparr>rv_cookie = Some ''c1'', rv_nevras = [''b-1'', ''a-1'']\<rparr> 5
      (the (create_history_ctx empty_conn)))))) 
     (h_trans_id (snd (history_sync \<lparr>rv_cookie = Some ''c1'', rv_nevras = [''b-1'', ''a-1'']\<rparr> 5
      (the (create_history_ctx empty_conn))))) = {''b-1'', ''a-1''}"
proof -
  let ?ts = "\<lparr>rv_cookie = Some ''c1'', rv_nevras = [''b-1'', ''a-1'']\<rparr>"
  have ctx: "create_history_ctx empty_conn = Some \<lparr>h_db = empty_conn, h_installed_ids = [],
      h_cookie = None, h_trans_id = 0\<rparr>"
    by (simp add: create_history_ctx_def empty_conn_def sql_simps)
  have ready: "sync_ready ?ts (cur empty_conn)"
    by (simp add: sync_ready_def fresh_db_def empty_conn_def trans_list_def item_list_def rpm_rows_def
        dict_ok_def)
  have "faults empty_conn = []" "saved empty_conn = None" by (simp_all add: empty_conn_def)
  with sync_establishes [of ?ts "the (create_history_ctx empty_conn)", OF _ _ _ surjective_pairing, of 5] ready ctx
  show ?thesis by auto
qed

section \<open>A history of updates\<close>

fun run_updates :: "(rpm_view \<times> string option \<times> int) list \<Rightarrow> (history_ctx, unit) hm" where
  "run_updates [] = ret ()"
| "run_updates ((ts, cmdline, now) # us) =
     bnd (history_update_state ts cmdline now) (\<lambda>_. run_updates us)"

text \<open>Every view of the rpm database has a cookie, new with respect to the one before it.\<close>

fun cookies_change :: "string option \<Rightarrow> rpm_view list \<Rightarrow> bool" where
  "cookies_change old [] = True"
| "cookies_change old (ts # tss) =
     (rv_cookie ts \<noteq> None \<and> rv_cookie ts \<noteq> old \<and> distinct (rv_nevras ts)
      \<and> cookies_change (rv_cookie ts) tss)"

lemma run_updates_states:
  assumes "ctx_ok ctx" and "cookies_change (h_cookie ctx) (map fst us)"
  shows "\<exists>ctx'. run_updates us ctx = (Inr (), ctx') \<and> ctx_ok ctx'
    \<and> h_trans_id ctx' = h_trans_id ctx + int (length us)
    \<and> (\<forall>t \<le> h_trans_id ctx. nevras_at (cur (h_db ctx')) t = nevras_at (cur (h_db ctx)) t)
    \<and> (\<forall>k < length us. nevras_at (cur (h_db ctx')) (h_trans_id ctx + 1 + int k) = set (rv_nevras (fst (us ! k))))"
  using assms
proof (induction us arbitrary: ctx)
  case Nil
  then show ?case by simp
next
  case (Cons u us)
  obtain ts cmdline now where u: "u = (ts, cmdline, now)" by (cases u)
  obtain old cookie where ck: "h_cookie ctx = Some old" "rv_cookie ts = Some cookie" "old \<noteq> cookie"
    and dist: "distinct (rv_nevras ts)" and rest: "cookies_change (rv_cookie ts) (map fst us)"
    using Cons.prems u by (auto simp: ctx_ok_def)
  have last: "h_trans_id ctx = last_trans (cur (h_db ctx))" using Cons.prems(1) by (simp add: ctx_ok_def)
  obtain ctx1 where ctx1: "history_update_state ts cmdline now ctx = (Inr (), ctx1)" "ctx_ok ctx1"
    "h_trans_id ctx1 = h_trans_id ctx + 1" "h_cookie ctx1 = rv_cookie ts"
    "nevras_at (cur (h_db ctx1)) (h_trans_id ctx1) = set (rv_nevras ts)"
    "\<forall>t \<le> h_trans_id ctx. nevras_at (cur (h_db ctx1)) t = nevras_at (cur (h_db ctx)) t"
    using update_state_ctx [of ctx ts cookie old cmdline now] Cons.prems(1) ck dist last
    by (auto simp: ctx_ok_def)
  obtain ctx' where ctx': "run_updates us ctx1 = (Inr (), ctx')" "ctx_ok ctx'"
    "h_trans_id ctx' = h_trans_id ctx1 + int (length us)"
    "\<forall>t \<le> h_trans_id ctx1. nevras_at (cur (h_db ctx')) t = nevras_at (cur (h_db ctx1)) t"
    "\<forall>k < length us. nevras_at (cur (h_db ctx')) (h_trans_id ctx1 + 1 + int k) = set (rv_nevras (fst (us ! k)))"
    using Cons.IH [OF ctx1(2)] rest ctx1(4) by auto
  have "nevras_at (cur (h_db ctx')) (h_trans_id ctx + 1 + int k) = set (rv_nevras (fst ((u # us) ! k)))"
    if "k < length (u # us)" for k
  proof (cases k)
    case 0
    then show ?thesis using ctx'(4) ctx1(3,5) u by simp
  next
    case (Suc j)
    then show ?thesis using ctx'(5) ctx1(3) that by (simp add: algebra_simps)
  qed
  then show ?case using ctx1 ctx' u by auto
qed

text \<open>C1: After any number of recorded updates the history still knows them all: the state at each
  transaction is the set of packages installed when it was recorded.\<close>

theorem updates_remembered:
  assumes "ctx_ok ctx" and "cookies_change (h_cookie ctx) (map fst us)"
    and "run_updates us ctx = (r, ctx')" and "k < length us"
  shows "r = Inr () \<and> ctx_ok ctx' \<and> h_trans_id ctx' = h_trans_id ctx + int (length us)
    \<and> nevras_at (cur (h_db ctx')) (h_trans_id ctx + 1 + int k) = set (rv_nevras (fst (us ! k)))"
  using run_updates_states [OF assms(1,2)] assms(3,4) by auto

theorem updates_remembered_witness:
  "nevras_at (cur (h_db (snd (run_updates
      [(\<lparr>rv_cookie = Some ''c4'', rv_nevras = [''c-1'']\<rparr>, None, 40),
       (\<lparr>rv_cookie = Some ''c5'', rv_nevras = []\<rparr>, None, 50)] sample_ctx)))) 4 = {''c-1''}"
proof -
  let ?us = "[(\<lparr>rv_cookie = Some ''c4'', rv_nevras = [''c-1'']\<rparr>, None, 40),
       (\<lparr>rv_cookie = Some ''c5'', rv_nevras = []\<rparr>, None :: string option, 50)]"
  have c: "cookies_change (h_cookie sample_ctx) (map fst ?us)" and t: "h_trans_id sample_ctx = 3"
    by (simp_all add: sample_ctx_def)
  from updates_remembered [OF sample_ctx_ok c surjective_pairing, of 0] t
  show ?thesis by simp
qed

end
