(* ===== verification/Hist_Atomic.thy ===== *)
theory Hist_Atomic
  imports Hist_Ctx
begin

text \<open>
  What survives when calls into SQLite fail (\<^verbatim>\<open>history/history.c\<close>): the recording functions leave either
  the old log or the complete new one, whatever the sequence of faults. The proofs use two frames on
  connections: functions inside a transaction do not end it, and functions outside one do not touch
  the durable log.
\<close>

definition log_tables :: "history_db \<Rightarrow> trans_row list option \<times> item_row list option \<times>
    (int \<times> string) list option \<times> flag_row list option" where
  "log_tables d = (t_transactions d, t_trans_items d, t_names d, t_flag_set d)"

definition in_tx :: "conn \<Rightarrow> conn \<Rightarrow> bool" where
  "in_tx c d \<longleftrightarrow> saved d = saved c"

definition log_kept :: "conn \<Rightarrow> conn \<Rightarrow> bool" where
  "log_kept c d \<longleftrightarrow> log_tables (durable d) = log_tables (durable c)"

interpretation tx: conn_frame in_tx
  by unfold_locales (auto simp: in_tx_def)

interpretation kept: conn_frame log_kept
  by unfold_locales (auto simp: log_kept_def durable_def split: option.split)

definition ctx_in_tx :: "history_ctx \<Rightarrow> history_ctx \<Rightarrow> bool" where
  "ctx_in_tx ctx ctx' \<longleftrightarrow> in_tx (h_db ctx) (h_db ctx')"

definition ctx_log_kept :: "history_ctx \<Rightarrow> history_ctx \<Rightarrow> bool" where
  "ctx_log_kept ctx ctx' \<longleftrightarrow> log_kept (h_db ctx) (h_db ctx')"

interpretation ctx_tx: frame ctx_in_tx
  by unfold_locales (auto simp: ctx_in_tx_def in_tx_def)

interpretation ctx_kept: frame ctx_log_kept
  by unfold_locales (auto simp: ctx_log_kept_def log_kept_def)

lemma keeps_on_db:
  "keeps in_tx m \<Longrightarrow> keeps ctx_in_tx (on_db m)" "keeps log_kept m \<Longrightarrow> keeps ctx_log_kept (on_db m)"
  by (auto simp: keeps_def ctx_in_tx_def ctx_log_kept_def on_db_def split: prod.splits) (metis snd_conv)+

section \<open>Inside a transaction\<close>

lemma tx_write: "keeps in_tx (sql_write f)" "keeps in_tx (sql_exec f)"
  by (rule tx.keeps_write tx.keeps_exec; simp add: in_tx_def)+

lemma tx_add_transaction: "keeps in_tx (db_add_transaction cmd ts ck ty)"
  unfolding db_add_transaction_def
  by (intro tx.keeps_bnd tx.keeps_prepare tx.keeps_ok tx_write tx.keeps_ret)

lemma tx_add_trans_items: "keeps in_tx (db_add_trans_items t ty ids)"
proof (induction ids)
  case (Cons i ids)
  have "keeps in_tx (db_add_trans_item t ty i)"
    unfolding db_add_trans_item_def
    by (intro tx.keeps_bnd tx.keeps_prepare tx.keeps_ok tx_write tx.keeps_ret)
  with Cons show ?case by (simp add: tx.keeps_bnd)
qed (simp add: keeps_def in_tx_def)

section \<open>Outside a transaction\<close>

lemma kept_dict_put: "log_kept c (c\<lparr>cur := dict_put Rpms rows (cur c)\<rparr>)"
  by (cases "saved c") (auto simp: log_kept_def durable_def log_tables_def)

lemma kept_dict_entry: "keeps log_kept (db_get_dict_entry Rpms name create)"
  unfolding db_get_dict_entry_def
  by (intro kept.keeps_bnd kept.keeps_prepare kept.keeps_ok kept.keeps_query1)
    (auto split: step.split intro!: kept.keeps_ret kept.keeps_if kept.keeps_bnd kept.keeps_prepare
      kept.keeps_ok kept.keeps_write kept_dict_put simp del: dict_put.simps)

lemma kept_update_rpms: "keeps log_kept (db_update_rpms ns)"
proof -
  have create: "log_kept c (c\<lparr>cur := create_rpms (cur c)\<rparr>)" for c
    by (cases "saved c") (auto simp: log_kept_def durable_def log_tables_def create_rpms_def)
  have "keeps log_kept (add_nevras ns)"
  proof (induction ns)
    case (Cons n ns)
    then show ?case
      unfolding add_nevras.simps db_add_nevra_def
      by (intro kept.keeps_bnd kept_dict_entry kept.keeps_ret)
  qed (simp add: keeps_def log_kept_def)
  then show ?thesis
    unfolding db_update_rpms_def
    by (intro kept.keeps_bnd kept.keeps_exec kept.keeps_ret create)
qed

lemma kept_begin: "keeps log_kept sql_begin"
  unfolding sql_begin_def
  by (intro kept.keeps_bnd kept.keeps_ok)
    (auto simp: keeps_def log_kept_def durable_def split: option.splits)

lemma kept_rollback: "keeps log_kept sql_rollback"
  unfolding sql_rollback_def
  by (intro kept.keeps_bnd kept.keeps_ok)
    (auto simp: keeps_def log_kept_def durable_def split: option.splits)

lemma begin_opens: "sql_begin c = (Inr (), d) \<Longrightarrow> saved d \<noteq> None"
  by (auto simp: sql_begin_def bnd_def split: prod.splits sum.splits option.splits)

lemma tx_keeps_log: "in_tx c d \<Longrightarrow> saved c \<noteq> None \<Longrightarrow> log_kept c d"
  by (auto simp: in_tx_def log_kept_def durable_def)

text \<open>A body that first leaves the durable log alone, then begins, then stays in its transaction.\<close>

lemma begin_then_keeps:
  assumes "\<And>ctx. ctx_in_tx ctx (snd (rest ctx))"
  shows "ctx_log_kept ctx (snd (bnd (on_db sql_begin) (\<lambda>_. rest) ctx))"
proof (cases "sql_begin (h_db ctx)")
  case (Pair r c)
  have "log_kept (h_db ctx) c" using kept.keeps_snd [OF kept_begin, of "h_db ctx"] Pair by simp
  then have kept: "ctx_log_kept ctx (ctx\<lparr>h_db := c\<rparr>)" by (simp add: ctx_log_kept_def)
  show ?thesis
  proof (cases r)
    case (Inl e)
    with Pair kept show ?thesis by (simp add: bnd_def on_db_def)
  next
    case (Inr u)
    have "saved c \<noteq> None" using Pair Inr begin_opens by auto
    then have "ctx_log_kept (ctx\<lparr>h_db := c\<rparr>) (snd (rest (ctx\<lparr>h_db := c\<rparr>)))"
      using assms [of "ctx\<lparr>h_db := c\<rparr>"] tx_keeps_log by (simp add: ctx_log_kept_def ctx_in_tx_def)
    with Pair Inr kept show ?thesis
      by (simp add: bnd_def on_db_def) (metis ctx_kept.R_trans)
  qed
qed

lemma keeps_tx_set: "(\<And>ctx. h_db (f ctx) = h_db ctx) \<Longrightarrow> keeps ctx_in_tx (\<lambda>ctx. (r, f ctx))"
  by (simp add: keeps_def ctx_in_tx_def in_tx_def)

lemma tx_record_delta: "keeps ctx_in_tx (record_delta cookie cmdline now current_ids removed added)"
  unfolding record_delta_def
  by (intro ctx_tx.keeps_bnd ctx_tx.keeps_if keeps_on_db tx_add_transaction tx_add_trans_items
      ctx_tx.keeps_ret keeps_tx_set) (simp add: history_set_cookie_def)

lemma tx_record_baseline: "keeps ctx_in_tx (record_baseline now cookie ids)"
  unfolding record_baseline_def baseline_items_def
  by (intro ctx_tx.keeps_bnd keeps_on_db tx_write tx_add_transaction tx_add_trans_items keeps_tx_set) simp

lemma update_body_kept: "ctx_log_kept ctx (snd (update_state_body ts cookie cmdline now ctx))"
  unfolding update_state_body_def
proof (rule ctx_kept.keeps_snd [OF ctx_kept.keeps_bnd [OF keeps_on_db(2) [OF kept_update_rpms]]])
  fix ids
  have "ctx_log_kept ctx (snd (bnd (on_db sql_begin) (\<lambda>_. record_delta cookie cmdline now ids removed added) ctx))"
    for removed added ctx
    by (rule begin_then_keeps) (rule ctx_tx.keeps_snd [OF tx_record_delta])
  then show "keeps ctx_log_kept (\<lambda>ctx. case diff_arrays (h_installed_ids ctx) ids of (removed, added) \<Rightarrow>
      bnd (on_db sql_begin) (\<lambda>_. record_delta cookie cmdline now ids removed added) ctx)"
    by (auto simp: keeps_def split: prod.split)
qed

lemma record_body_kept: "ctx_log_kept ctx (snd (record_state_body now ctx))"
  unfolding record_state_body_def
  by (rule begin_then_keeps) (rule ctx_tx.keeps_snd [OF tx_record_baseline])

section \<open>The outcome of a transaction\<close>

text \<open>COMMIT makes the current contents durable or changes nothing.\<close>

lemma commit_outcome:
  "(saved (snd (sql_commit c)) = None \<and> cur (snd (sql_commit c)) = cur c)
    \<or> (saved (snd (sql_commit c)) = saved c \<and> cur (snd (sql_commit c)) = cur c)"
  by (auto simp: sql_commit_def sql_ok_def sql_answer_def bnd_def split: list.splits option.splits)

definition old_or_current :: "history_ctx \<Rightarrow> history_ctx \<Rightarrow> bool" where
  "old_or_current ctx ctx' \<longleftrightarrow> ctx_log_kept ctx ctx' \<or> durable (h_db ctx') = cur (h_db ctx')"

lemma in_transaction_outcome:
  assumes "\<And>ctx. ctx_log_kept ctx (snd (body ctx))" and "in_transaction body ctx = (r, ctx')"
  shows "case r of Inl e \<Rightarrow> ctx_log_kept ctx ctx' | Inr x \<Rightarrow> old_or_current ctx ctx'"
proof (cases "body ctx")
  case (Pair q ctx1)
  have kept: "ctx_log_kept ctx ctx1" using assms(1) [of ctx] Pair by simp
  show ?thesis
  proof (cases q)
    case (Inl e)
    have "ctx_log_kept ctx1 (snd (on_db sql_rollback ctx1))"
      by (rule ctx_kept.keeps_snd [OF keeps_on_db(2) [OF kept_rollback]])
    then have "ctx_log_kept ctx (snd (on_db sql_rollback ctx1))" using kept by (rule ctx_kept.R_trans [rotated])
    with assms(2) Pair Inl show ?thesis by (auto simp: in_transaction_def)
  next
    case (Inr x)
    then have r: "r = Inr x" "ctx' = snd (on_db sql_commit ctx1)"
      using assms(2) Pair by (auto simp: in_transaction_def)
    then have db: "h_db ctx' = snd (sql_commit (h_db ctx1))"
      by (simp add: on_db_def split: prod.split)
    from commit_outcome [of "h_db ctx1"] show ?thesis
    proof
      assume "saved (snd (sql_commit (h_db ctx1))) = None \<and> cur (snd (sql_commit (h_db ctx1))) = cur (h_db ctx1)"
      then have "durable (h_db ctx') = cur (h_db ctx')" unfolding durable_def db by simp
      then show ?thesis by (simp add: r(1) old_or_current_def)
    next
      assume "saved (snd (sql_commit (h_db ctx1))) = saved (h_db ctx1) \<and> cur (snd (sql_commit (h_db ctx1))) = cur (h_db ctx1)"
      then have "ctx_log_kept ctx1 ctx'"
        by (auto simp: ctx_log_kept_def log_kept_def durable_def db split: option.split)
      with kept have "ctx_log_kept ctx ctx'" by (rule ctx_kept.R_trans)
      then show ?thesis by (simp add: r old_or_current_def)
    qed
  qed
qed


text \<open>\<^verbatim>\<open>history_record_state\<close> is atomic in the same sense.\<close>

theorem record_state_atomic:
  "case history_record_state now ctx of
      (Inl e, ctx') \<Rightarrow> log_tables (durable (h_db ctx')) = log_tables (durable (h_db ctx))
    | (Inr u, ctx') \<Rightarrow> log_tables (durable (h_db ctx')) = log_tables (durable (h_db ctx))
        \<or> durable (h_db ctx') = cur (h_db ctx')"
proof -
  obtain r ctx' where run: "in_transaction (record_state_body now) ctx = (r, ctx')"
    by (cases "in_transaction (record_state_body now) ctx")
  from in_transaction_outcome [OF record_body_kept run] run show ?thesis
    by (cases r) (auto simp: history_record_state_def ctx_log_kept_def log_kept_def old_or_current_def)
qed

text \<open>The result of COMMIT is ignored: when it alone fails, the update is reported as a success and
  the context moves on, while the durable log has not changed and the transaction stays open.\<close>

theorem update_state_commit_ignored:
  "\<exists>ctx'. history_update_state \<lparr>rv_cookie = Some ''c4'', rv_nevras = []\<rparr> None 40
       (sample_ctx\<lparr>h_db := sample_conn\<lparr>faults := replicate 18 False @ [True]\<rparr>\<rparr>) = (Inr (), ctx')
     \<and> h_trans_id ctx' = 4 \<and> durable (h_db ctx') = sample_db \<and> saved (h_db ctx') \<noteq> None"
  by (simp add: history_update_state_def sample_ctx_def sample_defs in_transaction_def
      update_state_body_def record_delta_def on_db_def bnd_def db_update_rpms_def sql_exec_def
      sql_write_def sql_answer_def sql_begin_def sql_ok_def db_add_transaction_def sql_prepare_def
      db_add_trans_item_def sql_commit_def durable_def create_rpms_def next_id_def
      history_set_cookie_def numeral_eq_Suc)

end
