(* ===== verification/Hist_Query.thy ===== *)
theory Hist_Query
  imports Hist_Ctx
begin

text \<open>
  The queries behind \<^verbatim>\<open>tdnf history list\<close> and \<^verbatim>\<open>info\<close> (\<^verbatim>\<open>history/history.c\<close>): the list of
  transactions with their deltas, and the map from rpm ids to names. The bounds checks the code does
  before it stores into its arrays never fire on a well formed history.
\<close>

section \<open>Deltas\<close>

definition adds :: "item_row \<Rightarrow> bool" where
  "adds r \<longleftrightarrow> it_type r = HISTORY_ITEM_TYPE_ADD \<or> it_type r = HISTORY_ITEM_TYPE_SET"

definition removes :: "item_row \<Rightarrow> bool" where
  "removes r \<longleftrightarrow> it_type r = HISTORY_ITEM_TYPE_REMOVE"

lemma delta_read_rows:
  assumes "int (length (added_ids hd0) + length (filter adds rows)) \<le> n"
    and "int (length (removed_ids hd0) + length (filter removes rows)) \<le> n"
  shows "fold_checked (delta_read_row n) rows hd0 = Inr \<lparr>
    added_ids = added_ids hd0 @ map it_rpm_id (filter adds rows),
    removed_ids = removed_ids hd0 @ map it_rpm_id (filter removes rows)\<rparr>"
  using assms
proof (induction rows arbitrary: hd0)
  case (Cons r rows)
  consider "adds r" | "removes r" "\<not> adds r" | "\<not> adds r" "\<not> removes r" by blast
  then show ?case
  proof cases
    case 1
    then have "\<not> removes r" by (auto simp: adds_def removes_def)
    with 1 Cons.prems Cons.IH [of "hd0\<lparr>added_ids := added_ids hd0 @ [it_rpm_id r]\<rparr>"] show ?thesis
      by (simp add: delta_read_row_def flip: adds_def)
  next
    case 2
    with Cons.prems Cons.IH [of "hd0\<lparr>removed_ids := removed_ids hd0 @ [it_rpm_id r]\<rparr>"] show ?thesis
      by (simp add: delta_read_row_def flip: adds_def removes_def)
  next
    case 3
    with Cons show ?thesis by (simp add: delta_read_row_def flip: adds_def removes_def)
  qed
qed simp

text \<open>No transaction lists more packages than there are known.\<close>

definition items_bounded :: "history_db \<Rightarrow> bool" where
  "items_bounded d \<longleftrightarrow> (\<forall>t \<in> it_trans_id ` set (item_list d).
     length (filter adds (items_of t (item_list d))) \<le> length (rpm_rows d)
     \<and> length (filter removes (items_of t (item_list d))) \<le> length (rpm_rows d))"

definition delta_of :: "history_db \<Rightarrow> int \<Rightarrow> history_delta" where
  "delta_of d t = \<lparr>added_ids = map it_rpm_id (filter adds (items_of t (item_list d))),
     removed_ids = map it_rpm_id (filter removes (items_of t (item_list d)))\<rparr>"

lemma items_bounded_all:
  assumes "items_bounded d"
  shows "length (filter adds (items_of t (item_list d))) \<le> length (rpm_rows d)"
    and "length (filter removes (items_of t (item_list d))) \<le> length (rpm_rows d)"
proof -
  have "items_of t (item_list d) = []" if "t \<notin> it_trans_id ` set (item_list d)"
  proof -
    have "set (items_of t (item_list d)) = {}" using that unfolding set_items_of by auto
    then show ?thesis by simp
  qed
  with assms show "length (filter adds (items_of t (item_list d))) \<le> length (rpm_rows d)"
    and "length (filter removes (items_of t (item_list d))) \<le> length (rpm_rows d)"
    by (cases "t \<in> it_trans_id ` set (item_list d)"; force simp: items_bounded_def)+
qed

lemma history_delta_read_ok:
  assumes "log_ok (cur c)" "faults c = []" "items_bounded (cur c)"
  shows "history_delta_read t c = (Inr (delta_of (cur c) t), c)"
proof -
  have "t_trans_items (cur c) = Some (item_list (cur c))" "t_rpms (cur c) = Some (rpm_rows (cur c))"
    using assms(1) by (auto simp: log_ok_def item_list_def rpm_rows_def)
  with assms(2) items_bounded_all [OF assms(3), of t] show ?thesis
    by (simp add: history_delta_read_def db_rpms_count_def sql_simps delta_read_rows delta_of_def)
qed

text \<open>Item lists of a well formed log, as sets.\<close>

lemma delta_of_sets:
  "set (added_ids (delta_of d t)) = ids_typed (item_list d) t HISTORY_ITEM_TYPE_ADD
     \<union> ids_typed (item_list d) t HISTORY_ITEM_TYPE_SET"
  "set (removed_ids (delta_of d t)) = ids_typed (item_list d) t HISTORY_ITEM_TYPE_REMOVE"
  by (auto simp: delta_of_def set_items_of ids_typed_def adds_def removes_def image_iff)

lemma delta_of_entry:
  assumes "log_ok d"
  shows "apply_entry (entry d t) S = (if trans_type d t = HISTORY_TRANS_TYPE_BASE then {} else S)
    \<union> set (added_ids (delta_of d t)) - set (removed_ids (delta_of d t))"
proof -
  have typed: "ids_typed (item_list d) t ty = {}" if "ty = (if trans_type d t = HISTORY_TRANS_TYPE_BASE then x else HISTORY_ITEM_TYPE_SET)"
    "x = HISTORY_ITEM_TYPE_ADD \<or> x = HISTORY_ITEM_TYPE_REMOVE" for ty x
    using assms that by (fastforce simp: ids_typed_def log_ok_def list_all_iff item_ok_def split: if_splits)
  show ?thesis
    using typed [OF refl, of 1] typed [OF refl, of 2]
    by (auto simp: entry_def delta_of_sets split: if_splits)
qed

section \<open>The list of transactions\<close>

definition transaction_of :: "history_db \<Rightarrow> trans_row \<Rightarrow> history_transaction" where
  "transaction_of d r = \<lparr>ht_id = tr_id r, ht_type = tr_type r, ht_cmdline = tr_cmdline r,
     ht_timestamp = tr_timestamp r, ht_cookie = tr_cookie r, ht_delta = delta_of d (tr_id r)\<rparr>"

definition blank_transaction :: "trans_row \<Rightarrow> history_transaction" where
  "blank_transaction r = \<lparr>ht_id = tr_id r, ht_type = tr_type r, ht_cmdline = tr_cmdline r,
     ht_timestamp = tr_timestamp r, ht_cookie = tr_cookie r,
     ht_delta = \<lparr>added_ids = [], removed_ids = []\<rparr>\<rparr>"

lemma read_trans_rows:
  "int (length tas + length rows) \<le> n \<Longrightarrow>
     fold_checked (read_trans_row n) rows tas = Inr (tas @ map blank_transaction rows)"
proof (induction rows arbitrary: tas)
  case (Cons r rows)
  then show ?case
    using Cons.IH [of "tas @ [blank_transaction r]"]
    by (simp add: read_trans_row_def blank_transaction_def)
qed simp

lemma read_deltas_ok:
  assumes "log_ok (cur c)" "faults c = []" "items_bounded (cur c)"
  shows "read_deltas (map blank_transaction rows) c = (Inr (map (transaction_of (cur c)) rows), c)"
  using history_delta_read_ok [OF assms]
  by (induction rows) (simp_all add: blank_transaction_def transaction_of_def)

lemma range_length:
  assumes "keys_ok (map tr_id rows)" and "from \<le> to"
  shows "int (length (filter (\<lambda>r. from \<le> tr_id r \<and> tr_id r \<le> to) rows)) \<le> to - from + 1"
proof -
  let ?in = "filter (\<lambda>r. from \<le> tr_id r \<and> tr_id r \<le> to) rows"
  have "distinct (map tr_id rows)" using keys_ok_sorted [OF assms(1)] by simp
  then have "distinct (map tr_id ?in)" by (rule distinct_map_filter)
  then have "length ?in = card (set (map tr_id ?in))" using distinct_card by fastforce
  also have "\<dots> \<le> card {from..to}" by (rule card_mono) auto
  finally show ?thesis using assms(2) by simp
qed

lemma sort_filtered:
  assumes "keys_ok (map tr_id rows)"
  shows "order_by tr_id (filter P rows) = filter P rows"
    and "order_by_desc tr_id (filter P rows) = rev (filter P rows)"
proof -
  have "sorted (map tr_id (filter P rows))"
    using keys_ok_sorted [OF assms] by (simp add: sorted_map sorted_wrt_filter)
  then show "order_by tr_id (filter P rows) = filter P rows"
    and "order_by_desc tr_id (filter P rows) = rev (filter P rows)"
    by (simp_all add: order_by_def order_by_desc_def sort_key_id_if_sorted)
qed

definition in_range :: "int \<Rightarrow> int \<Rightarrow> trans_row \<Rightarrow> bool" where
  "in_range from to r \<longleftrightarrow> (from = 0 \<or> to = 0) \<or> (from \<le> tr_id r \<and> tr_id r \<le> to)"


lemma sample_bounded: "items_bounded sample_db"
  by (simp add: items_bounded_def sample_db_def item_list_def rpm_rows_def items_of_def order_by_def)


section \<open>Names\<close>

lemma string_map_rows:
  assumes "\<forall>r \<in> set rows. 1 \<le> fst r \<and> fst r \<le> int n" and "length m = n"
  shows "fold_checked (\<lambda>(idx, nevra) m. if idx > 0 \<and> idx \<le> int n then Inr (m[nat (idx - 1) := Some nevra])
      else Inl (RC (-1))) rows m = Inr (fold (\<lambda>(idx, nevra) m. m[nat (idx - 1) := Some nevra]) rows m)"
  using assms by (induction rows arbitrary: m) auto

lemma fold_names:
  assumes "keys_ok (map fst rows)" and "length m = length rows"
  shows "fold (\<lambda>(idx, nevra) m. m[nat (idx - 1) := Some nevra]) rows m = map (Some \<circ> snd) rows"
proof -
  have "fold (\<lambda>(idx, nevra) m. m[nat (idx - 1) := Some nevra]) rows (m @ ext) = map (Some \<circ> snd) rows @ ext"
    if "keys_ok (map fst rows)" "length m = length rows" for m ext
    using that
  proof (induction rows arbitrary: m ext rule: rev_induct)
    case (snoc r rows)
    obtain idx nevra where r: "r = (idx, nevra)" by (cases r)
    obtain m1 a where m: "m = m1 @ [a]" using snoc.prems(2) by (cases m rule: rev_cases) auto
    have "idx = int (length rows) + 1"
      using keys_ok_nth [OF snoc.prems(1), of "length rows"] r by (simp add: nth_append)
    moreover have "keys_ok (map fst rows)"
      using snoc.prems(1) upto_rec2 [of 1 "int (length rows) + 1"] by (simp add: keys_ok_def add.commute)
    ultimately show ?case
      using snoc.IH [of m1 "a # ext"] snoc.prems(2) m r by (simp add: list_update_append)
  qed simp
  from this [OF assms, of "[]"] show ?thesis by simp
qed

text \<open>The name map gives every rpm id its NEVRA and nothing to ids that are not in the database.\<close>

theorem nevra_map_names:
  assumes "log_ok (cur (h_db ctx))" and "faults (h_db ctx) = []"
  shows "\<exists>hnm. history_nevra_map ctx = (Inr hnm, ctx)
    \<and> (\<forall>i s. history_get_nevra (Some hnm) i = Some s \<longleftrightarrow> (i, s) \<in> set (rpm_rows (cur (h_db ctx))))"
proof -
  let ?c = "h_db ctx" and ?rows = "rpm_rows (cur (h_db ctx))"
  have tab: "dict_rows Rpms (cur ?c) = Some ?rows" and keys: "keys_ok (map fst ?rows)"
    using assms(1) by (auto simp: log_ok_def rpm_rows_def dict_ok_def)
  have range: "\<forall>r \<in> set ?rows. 1 \<le> fst r \<and> fst r \<le> int (length ?rows)"
    using keys_ok_mem [OF keys] by auto
  define hnm where "hnm = \<lparr>hnm_count = int (length ?rows), idmap = map (Some \<circ> snd) ?rows\<rparr>"
  have "db_nevra_map ?c = (Inr hnm, ?c)"
    using assms(2) tab keys string_map_rows [OF range] fold_names [OF keys]
    by (simp add: db_nevra_map_def db_string_map_def sql_simps hnm_def)
  then have run: "history_nevra_map ctx = (Inr hnm, ctx)" by (simp add: history_nevra_map_def)
  have "history_get_nevra (Some hnm) i = Some s \<longleftrightarrow> (i, s) \<in> set ?rows" for i s
  proof -
    have "(i, s) \<in> set ?rows \<longleftrightarrow> 1 \<le> i \<and> i \<le> int (length ?rows) \<and> ?rows ! nat (i - 1) = (i, s)"
    proof
      assume "1 \<le> i \<and> i \<le> int (length ?rows) \<and> ?rows ! nat (i - 1) = (i, s)"
      then have "nat (i - 1) < length ?rows" "?rows ! nat (i - 1) = (i, s)" by linarith+
      then show "(i, s) \<in> set ?rows" by (metis nth_mem)
    qed (use keyed_nth(1) [OF keys, of "(i, s)"] in auto)
    moreover have "fst (?rows ! nat (i - 1)) = i" if "1 \<le> i" "i \<le> int (length ?rows)"
      using keyed_nth(2) [OF keys that] by simp
    ultimately show ?thesis by (auto simp: history_get_nevra_def hnm_def prod_eq_iff)
  qed
  with run show ?thesis by blast
qed

theorem nevra_map_names_witness:
  "\<exists>hnm. history_nevra_map sample_ctx = (Inr hnm, sample_ctx)
     \<and> history_get_nevra (Some hnm) 3 = Some ''b-1'' \<and> history_get_nevra (Some hnm) 4 = None"
proof -
  have "cur (h_db sample_ctx) = sample_db" "faults (h_db sample_ctx) = []"
    by (simp_all add: sample_ctx_def sample_conn_def)
  moreover have "(3, ''b-1'') \<in> set (rpm_rows sample_db)" "\<And>s. (4, s) \<notin> set (rpm_rows sample_db)"
    by (simp_all add: rpm_rows_def sample_db_def)
  ultimately show ?thesis
    using nevra_map_names [of sample_ctx] sample_log_ok by (metis not_None_eq)
qed

end
