(* ===== verification/Solv_Pool.thy ===== *)
theory Solv_Pool
  imports Tdnf_Effects Tdnf_Strings "HOL-Library.Word"
begin

text \<open>
  Queries on the package pool (\<^verbatim>\<open>solv/tdnfpackage.c\<close>, \<^verbatim>\<open>solv/tdnfquery.c\<close>, \<^verbatim>\<open>solv/simplequery.c\<close>). The pool is
  libsolv's; the record \<open>pool\<close> holds what the code reads of it and the answers of the functions it calls.
  Ids are numbers, 0 is none. \<^verbatim>\<open>pool_id2solvable\<close> adds the id to a base address, so that the NULL checks
  of its result have no counterpart. A \<^verbatim>\<open>Queue\<close> is a list, a queue of jobs a list of pairs.
  \<open>None\<close> is a read of an element that a queue does not have.
\<close>

unbundle bit_operations_syntax

section \<open>The pool\<close>

record solvable =
  sv_name :: nat
  sv_evr :: nat
  sv_arch :: nat
  sv_repo :: nat
  sv_obsoletes :: "nat list"
  sv_requires :: "nat list"
  sv_provides :: "nat list"
  sv_files :: "string list"
  sv_summary :: "string option"
  sv_location :: "string option"
  sv_checksum :: "(nat \<times> nat list) option"
  sv_installsize :: nat
  sv_downloadsize :: nat

type_synonym job = "32 word \<times> nat"

text \<open>The flags of \<^verbatim>\<open>selection_make\<close>, the keys of dependencies, the modes and types of transaction elements.\<close>

datatype sel_flag = SELECTION_NAME | SELECTION_PROVIDES | SELECTION_GLOB | SELECTION_CANON | SELECTION_DOTARCH
  | SELECTION_REL | SELECTION_SOURCE_ONLY | SELECTION_NOCASE | SELECTION_FILELIST

datatype dep_key = SOLVABLE_PROVIDES | SOLVABLE_OBSOLETES | SOLVABLE_CONFLICTS | SOLVABLE_REQUIRES
  | SOLVABLE_RECOMMENDS | SOLVABLE_SUGGESTS | SOLVABLE_SUPPLEMENTS | SOLVABLE_ENHANCES

text \<open>
  \<open>pl_ids\<close> are the ids that FOR_POOL_SOLVABLES visits; \<open>pl_strings\<close> says which strings have an id and
  \<open>pl_str2id\<close> which id a string has or gets. \<open>pl_repos\<close> are the repositories, \<open>pl_installed\<close> the id of the one with the
  installed packages. The other fields are the functions of libsolv.
\<close>

record pool =
  pl_solvable :: "nat \<Rightarrow> solvable"
  pl_ids :: "nat list"
  pl_repos :: "(nat \<times> string) list"
  pl_installed :: nat
  pl_strings :: "string \<Rightarrow> bool"
  pl_str2id :: "string \<Rightarrow> nat"
  pl_id2str :: "nat \<Rightarrow> string"
  pl_solvable2str :: "nat \<Rightarrow> string"
  pl_evrcmp :: "string \<Rightarrow> string \<Rightarrow> int"
  pl_whatprovides :: "nat \<Rightarrow> nat list"
  pl_best :: "nat list \<Rightarrow> nat list"
  pl_match_nevr :: "nat \<Rightarrow> nat \<Rightarrow> bool"
  pl_selection_make :: "string \<Rightarrow> sel_flag list \<Rightarrow> job list"
  pl_selection_filter :: "job list \<Rightarrow> job list \<Rightarrow> job list"
  pl_job_select :: "32 word \<Rightarrow> nat \<Rightarrow> nat list"
  pl_matchesdep :: "nat \<Rightarrow> dep_key \<Rightarrow> nat \<Rightarrow> bool"
  pl_name_search :: "bool \<Rightarrow> string \<Rightarrow> nat list"
  pl_disabled :: "nat \<Rightarrow> bool"
  pl_considered :: "(nat \<Rightarrow> bool) option"

abbreviation (input) ERROR_TDNF_NO_MATCH :: errcode where "ERROR_TDNF_NO_MATCH \<equiv> 1011"
abbreviation (input) ERROR_TDNF_SOLV_FAILED :: errcode where "ERROR_TDNF_SOLV_FAILED \<equiv> 1301"
abbreviation (input) ERROR_TDNF_NO_DATA :: errcode where "ERROR_TDNF_NO_DATA \<equiv> 1661"
abbreviation (input) SOLVER_SOLVABLE :: "32 word" where "SOLVER_SOLVABLE \<equiv> 0x01"
abbreviation (input) SOLVER_SOLVABLE_NAME :: "32 word" where "SOLVER_SOLVABLE_NAME \<equiv> 0x02"
abbreviation (input) SOLVER_SOLVABLE_REPO :: "32 word" where "SOLVER_SOLVABLE_REPO \<equiv> 0x05"
abbreviation (input) SOLVER_SOLVABLE_ALL :: "32 word" where "SOLVER_SOLVABLE_ALL \<equiv> 0x06"
abbreviation (input) SOLVER_SELECTMASK :: "32 word" where "SOLVER_SELECTMASK \<equiv> 0xff"
abbreviation (input) SOLVER_SETREPO :: "32 word" where "SOLVER_SETREPO \<equiv> 0x20000000"
abbreviation (input) SOLVER_SETVENDOR :: "32 word" where "SOLVER_SETVENDOR \<equiv> 0x10000000"

definition pool_id2solvable :: "pool \<Rightarrow> nat \<Rightarrow> solvable" where
  "pool_id2solvable pool p = pl_solvable pool p"

definition pool_str2id :: "pool \<Rightarrow> string \<Rightarrow> bool \<Rightarrow> nat" where
  "pool_str2id pool str create = (if create \<or> pl_strings pool str then pl_str2id pool str else 0)"

definition repo_solvables :: "pool \<Rightarrow> nat \<Rightarrow> nat list" where
  "repo_solvables pool r = filter (\<lambda>p. sv_repo (pl_solvable pool p) = r) (pl_ids pool)"

definition installed_solvables :: "pool \<Rightarrow> nat list" where
  "installed_solvables pool = repo_solvables pool (pl_installed pool)"

definition name_of :: "pool \<Rightarrow> nat \<Rightarrow> string" where
  "name_of pool p = pl_id2str pool (sv_name (pl_solvable pool p))"

definition evr_of :: "pool \<Rightarrow> nat \<Rightarrow> string" where
  "evr_of pool p = pl_id2str pool (sv_evr (pl_solvable pool p))"

section \<open>Package lists\<close>

definition SolvQueueToPackageList :: "nat list \<Rightarrow> nat list result" where
  "SolvQueueToPackageList q = (if q = [] then Inl ERROR_TDNF_NO_DATA else Inr q)"

definition SolvGetPackageId :: "nat list \<Rightarrow> nat \<Rightarrow> nat result" where
  "SolvGetPackageId pkgs dwPkgIndex =
     (if length pkgs \<le> dwPkgIndex then Inl ERROR_TDNF_INVALID_PARAMETER else Inr (pkgs ! dwPkgIndex))"

definition SolvGetPkgNameFromId :: "pool \<Rightarrow> nat \<Rightarrow> string result" where
  "SolvGetPkgNameFromId pool dwPkgId = TDNFAllocateString (Some (name_of pool dwPkgId))"

definition SolvGetPkgNevrFromId :: "pool \<Rightarrow> nat \<Rightarrow> string result" where
  "SolvGetPkgNevrFromId pool dwPkgId = TDNFAllocateString (Some (pl_solvable2str pool dwPkgId))"

definition SolvCmpEvr :: "pool \<Rightarrow> nat \<Rightarrow> nat \<Rightarrow> int" where
  "SolvCmpEvr pool dwPkg1 dwPkg2 = pl_evrcmp pool (evr_of pool dwPkg1) (evr_of pool dwPkg2)"

text \<open>
  \<^verbatim>\<open>SolvGetLatest\<close>: the package that is the newest so far, and what was stored in the result, which keeps the
  caller's value when nothing is newer.
\<close>

fun latest_of :: "pool \<Rightarrow> string \<Rightarrow> string \<Rightarrow> nat list \<Rightarrow> nat \<Rightarrow> nat" where
  "latest_of pool pszName1 pszEvr1 [] res = res"
| "latest_of pool pszName1 pszEvr1 (p # ps) res =
     (if pszName1 = name_of pool p \<and> pl_evrcmp pool (evr_of pool p) pszEvr1 = 1
      then latest_of pool pszName1 (evr_of pool p) ps p else latest_of pool pszName1 pszEvr1 ps res)"

definition SolvGetLatest :: "pool \<Rightarrow> nat list \<Rightarrow> nat \<Rightarrow> nat \<Rightarrow> nat result" where
  "SolvGetLatest pool pPkgList dwPkg pdwResult =
     (if dwPkg = 0 then Inl ERROR_TDNF_INVALID_PARAMETER
      else Inr (latest_of pool (name_of pool dwPkg) (evr_of pool dwPkg) pPkgList pdwResult))"

section \<open>Queries\<close>

datatype scope = SCOPE_NONE | SCOPE_ALL | SCOPE_INSTALLED | SCOPE_AVAILABLE | SCOPE_EXTRAS | SCOPE_OBSOLETES
  | SCOPE_RECENT | SCOPE_UPGRADES | SCOPE_DOWNGRADES | SCOPE_SOURCE

record query =
  ppszPackageNames :: "string list option"
  queueRepoFilter :: "job list"
  nScope :: scope
  queueJob :: "job list"
  queueResult :: "nat list"

definition SolvCreateQuery :: query where
  "SolvCreateQuery = \<lparr>ppszPackageNames = None, queueRepoFilter = [], nScope = SCOPE_ALL, queueJob = [],
     queueResult = []\<rparr>"

definition SolvApplySinglePackageFilter :: "string option \<Rightarrow> query \<Rightarrow> query result" where
  "SolvApplySinglePackageFilter pszPackageName q =
     (if IsNullOrEmptyString pszPackageName then Inl ERROR_TDNF_INVALID_PARAMETER
      else bail (TDNFAllocateString pszPackageName) (\<lambda>name. Inr (q\<lparr>ppszPackageNames := Some [name]\<rparr>)))"

fun copy_names :: "string list \<Rightarrow> string list result" where
  "copy_names [] = Inr []"
| "copy_names (name # names) =
     bail (TDNFAllocateString (Some name)) (\<lambda>copy. bail (copy_names names) (\<lambda>copies. Inr (copy # copies)))"

definition SolvApplyPackageFilter :: "string list \<Rightarrow> query \<Rightarrow> query result" where
  "SolvApplyPackageFilter names q =
     (if names = [] then Inr q
      else bail (copy_names names) (\<lambda>copies. Inr (q\<lparr>ppszPackageNames := Some copies\<rparr>)))"

definition SolvAddSystemRepoFilter :: "pool \<Rightarrow> query \<Rightarrow> query" where
  "SolvAddSystemRepoFilter pool q =
     q\<lparr>queueRepoFilter := queueRepoFilter q @ [(SOLVER_SOLVABLE_REPO OR SOLVER_SETREPO, pl_installed pool)]\<rparr>"

definition SYSTEM_REPO_NAME :: string where
  "SYSTEM_REPO_NAME = ''@System''"

definition SolvAddAvailableRepoFilter :: "pool \<Rightarrow> query \<Rightarrow> query" where
  "SolvAddAvailableRepoFilter pool q =
     q\<lparr>queueRepoFilter := queueRepoFilter q @
        map (\<lambda>r. (SOLVER_SOLVABLE_REPO OR SOLVER_SETREPO OR SOLVER_SETVENDOR, fst r))
          (filter (\<lambda>r. \<not> strcaseeq SYSTEM_REPO_NAME (snd r)) (pl_repos pool))\<rparr>"

definition TDNFApplyScopeFilter :: "pool \<Rightarrow> scope \<Rightarrow> query \<Rightarrow> query result" where
  "TDNFApplyScopeFilter pool scope q =
     (if scope = SCOPE_NONE then Inl ERROR_TDNF_INVALID_PARAMETER
      else let q = q\<lparr>nScope := scope\<rparr>
        in Inr (if scope = SCOPE_INSTALLED then SolvAddSystemRepoFilter pool q
                else if scope = SCOPE_AVAILABLE then SolvAddAvailableRepoFilter pool q else q))"

definition filtered :: "pool \<Rightarrow> query \<Rightarrow> job list \<Rightarrow> job list" where
  "filtered pool q jobs = (if queueRepoFilter q = [] then jobs else pl_selection_filter pool jobs (queueRepoFilter q))"

definition name_jobs :: "pool \<Rightarrow> sel_flag list \<Rightarrow> query \<Rightarrow> string \<Rightarrow> job list" where
  "name_jobs pool flags q name =
     (let jobs = filtered pool q (pl_selection_make pool name flags)
      in if jobs = [] then filtered pool q (pl_selection_make pool name (flags @ [SELECTION_NOCASE])) else jobs)"

definition SolvGenerateCommonJob :: "pool \<Rightarrow> sel_flag list \<Rightarrow> query \<Rightarrow> query" where
  "SolvGenerateCommonJob pool flags q = (case ppszPackageNames q of
     Some names \<Rightarrow> q\<lparr>queueJob := queueJob q @ concat (map (name_jobs pool flags q) names)\<rparr>
   | None \<Rightarrow>
       if queueRepoFilter q = [] then q
       else q\<lparr>queueJob := queueJob q @ pl_selection_filter pool [(SOLVER_SOLVABLE_ALL, 0)] (queueRepoFilter q)\<rparr>)"

definition is_pseudo_package :: "pool \<Rightarrow> nat \<Rightarrow> bool" where
  "is_pseudo_package pool p \<longleftrightarrow> take 6 (name_of pool p) = ''patch:''"

definition packages :: "pool \<Rightarrow> nat list \<Rightarrow> nat list" where
  "packages pool ps = filter (\<lambda>p. \<not> is_pseudo_package pool p) ps"

definition job_packages :: "pool \<Rightarrow> job \<Rightarrow> nat list" where
  "job_packages pool job =
     (let how = fst job AND SOLVER_SELECTMASK; what = snd job
      in packages pool
           (if how = SOLVER_SOLVABLE_ALL then pl_ids pool
            else if how = SOLVER_SOLVABLE_REPO
            then (if what \<in> fst ` set (pl_repos pool) then repo_solvables pool what else [])
            else pl_job_select pool how what))"

definition list_flags :: "scope \<Rightarrow> sel_flag list" where
  "list_flags scope = [SELECTION_NAME, SELECTION_PROVIDES, SELECTION_GLOB, SELECTION_CANON, SELECTION_DOTARCH,
     SELECTION_REL] @ (if scope = SCOPE_SOURCE then [SELECTION_SOURCE_ONLY] else [])"

text \<open>The part of \<^verbatim>\<open>SolvApplyListQuery\<close> for all scopes but upgrades and downgrades.\<close>

definition list_query :: "pool \<Rightarrow> query \<Rightarrow> query" where
  "list_query pool q0 =
     (let q = SolvGenerateCommonJob pool (list_flags (nScope q0)) q0
      in if queueJob q \<noteq> []
         then q\<lparr>queueResult := queueResult q @ concat (map (job_packages pool) (queueJob q))\<rparr>
         else if case ppszPackageNames q of None \<Rightarrow> True | Some names \<Rightarrow> names = [] \<or> hd names = []
         then q\<lparr>queueResult := queueResult q @ packages pool (pl_ids pool)\<rparr>
         else q)"

definition SolvGetQueryResult :: "query \<Rightarrow> nat list result" where
  "SolvGetQueryResult q =
     (if queueResult q = [] then Inl ERROR_TDNF_NO_MATCH else SolvQueueToPackageList (queueResult q))"

text \<open>The functions that make a query, filter it and fetch its result; their scopes are those of \<open>list_query\<close>.\<close>

definition SolvFindAllInstalled :: "pool \<Rightarrow> nat list result" where
  "SolvFindAllInstalled pool = SolvGetQueryResult (list_query pool (SolvAddSystemRepoFilter pool SolvCreateQuery))"

definition SolvCountPkgByName :: "pool \<Rightarrow> string option \<Rightarrow> bool \<Rightarrow> nat result" where
  "SolvCountPkgByName pool pszName nSource =
     (if IsNullOrEmptyString pszName then Inl ERROR_TDNF_INVALID_PARAMETER
      else bail (SolvApplySinglePackageFilter pszName
                  (if nSource then SolvCreateQuery\<lparr>nScope := SCOPE_SOURCE\<rparr> else SolvCreateQuery)) (\<lambda>q.
           bail (SolvGetQueryResult (list_query pool q)) (\<lambda>pkgs. Inr (length pkgs))))"

definition SolvFindInstalledPkgByName :: "pool \<Rightarrow> string option \<Rightarrow> nat list result" where
  "SolvFindInstalledPkgByName pool pszName =
     (if IsNullOrEmptyString pszName then Inl ERROR_TDNF_INVALID_PARAMETER
      else bail (SolvApplySinglePackageFilter pszName (SolvAddSystemRepoFilter pool SolvCreateQuery)) (\<lambda>q.
           SolvGetQueryResult (list_query pool q)))"

definition SolvFindInstalledPkgByMultipleNames :: "pool \<Rightarrow> string list \<Rightarrow> nat list result" where
  "SolvFindInstalledPkgByMultipleNames pool names =
     bail (SolvApplyPackageFilter names (SolvAddSystemRepoFilter pool SolvCreateQuery)) (\<lambda>q.
       SolvGetQueryResult (list_query pool q))"

definition SolvFindAvailablePkgByName :: "pool \<Rightarrow> string option \<Rightarrow> nat list result" where
  "SolvFindAvailablePkgByName pool pszName =
     (if IsNullOrEmptyString pszName then Inl ERROR_TDNF_INVALID_PARAMETER
      else bail (SolvApplySinglePackageFilter pszName (SolvAddAvailableRepoFilter pool SolvCreateQuery)) (\<lambda>q.
           SolvGetQueryResult (list_query pool q)))"

definition SolvFindAvailableSrcPkgByName :: "pool \<Rightarrow> string option \<Rightarrow> nat list result" where
  "SolvFindAvailableSrcPkgByName pool pszName =
     (if IsNullOrEmptyString pszName then Inl ERROR_TDNF_INVALID_PARAMETER
      else bail (SolvApplySinglePackageFilter pszName
                  (SolvAddAvailableRepoFilter pool (SolvCreateQuery\<lparr>nScope := SCOPE_SOURCE\<rparr>))) (\<lambda>q.
           SolvGetQueryResult (list_query pool q)))"

end
