(* ===== verification/Solv_Find.thy ===== *)
theory Solv_Find
  imports Solv_Pool Hist_Ctx
begin

text \<open>
  Searching the pool (\<^verbatim>\<open>solv/tdnfpackage.c\<close>, \<^verbatim>\<open>solv/tdnfquery.c\<close>, \<^verbatim>\<open>solv/simplequery.c\<close>): the best, highest and lowest
  version of a package, candidates for up- and downgrades, the filters of \<^verbatim>\<open>repoquery\<close>, packages by
  their name, version and architecture, packages that nothing needs.
\<close>

section \<open>Highest and lowest versions\<close>

definition is_obsoleting :: "pool \<Rightarrow> nat \<Rightarrow> nat \<Rightarrow> bool" where
  "is_obsoleting pool s is \<longleftrightarrow> list_ex (pl_match_nevr pool is) (sv_obsoletes (pool_id2solvable pool s))"

definition SolvFindBestAvailable :: "pool \<Rightarrow> string option \<Rightarrow> nat result option" where
  "SolvFindBestAvailable pool pszPkgName =
     (if IsNullOrEmptyString pszPkgName then Some (Inl ERROR_TDNF_INVALID_PARAMETER)
      else let idName = pool_str2id pool (the pszPkgName) True;
               named = (\<lambda>p. sv_name (pool_id2solvable pool p) = idName);
               q = filter named (pl_whatprovides pool idName)
        in if q = [] then Some (Inl ERROR_TDNF_NO_MATCH)
           else case pl_best pool q of
             [] \<Rightarrow> None
           | b # _ \<Rightarrow>
               (case pl_best pool (b # filter (\<lambda>p. \<not> named p \<and> is_obsoleting pool p b) (pl_whatprovides pool idName)) of
                  [] \<Rightarrow> None | c # _ \<Rightarrow> Some (Inr c)))"

definition SolvFindHighestAvailable :: "pool \<Rightarrow> string option \<Rightarrow> bool \<Rightarrow> nat result option" where
  "SolvFindHighestAvailable pool pszPkgName nSource =
     (if IsNullOrEmptyString pszPkgName then Some (Inl ERROR_TDNF_INVALID_PARAMETER)
      else let from_list = (\<lambda>pkgs. case pl_best pool pkgs of
             [] \<Rightarrow> Some (Inl ERROR_TDNF_NO_MATCH) | p # _ \<Rightarrow> Some (Inr p))
        in if nSource then thenU (Some (SolvFindAvailableSrcPkgByName pool pszPkgName)) from_list
           else case SolvFindBestAvailable pool pszPkgName of
             None \<Rightarrow> None
           | Some (Inr p) \<Rightarrow> Some (Inr p)
           | Some (Inl _) \<Rightarrow> thenU (Some (SolvFindAvailablePkgByName pool pszPkgName)) from_list)"

fun extreme_of :: "pool \<Rightarrow> bool \<Rightarrow> nat list \<Rightarrow> nat \<Rightarrow> nat" where
  "extreme_of pool dwFindHighest [] best = best"
| "extreme_of pool dwFindHighest (p # ps) best =
     (let dwEvrCompare = SolvCmpEvr pool p best
      in extreme_of pool dwFindHighest ps
           (if dwFindHighest then (if dwEvrCompare > 0 then p else best)
            else if dwEvrCompare < 0 then p else best))"

definition SolvFindHighestOrLowestInstalled :: "pool \<Rightarrow> string option \<Rightarrow> bool \<Rightarrow> nat result" where
  "SolvFindHighestOrLowestInstalled pool pszPkgName dwFindHighest =
     (if IsNullOrEmptyString pszPkgName then Inl ERROR_TDNF_INVALID_PARAMETER
      else bail (SolvFindInstalledPkgByName pool pszPkgName) (\<lambda>pkgs.
           bail (SolvGetPackageId pkgs 0) (\<lambda>first.
             Inr (if first \<noteq> 0 then extreme_of pool dwFindHighest (tl pkgs) first else first))))"

definition SolvFindLowestInstalled :: "pool \<Rightarrow> string option \<Rightarrow> nat result" where
  "SolvFindLowestInstalled pool pszPkgName =
     (if IsNullOrEmptyString pszPkgName then Inl ERROR_TDNF_INVALID_PARAMETER
      else SolvFindHighestOrLowestInstalled pool pszPkgName False)"

definition SolvFindHighestInstalled :: "pool \<Rightarrow> string option \<Rightarrow> nat result" where
  "SolvFindHighestInstalled pool pszPkgName =
     (if IsNullOrEmptyString pszPkgName then Inl ERROR_TDNF_INVALID_PARAMETER
      else SolvFindHighestOrLowestInstalled pool pszPkgName True)"

section \<open>Upgrades and downgrades\<close>

definition SolvFindUpDownCandidateForSinglePkg :: "pool \<Rightarrow> nat \<Rightarrow> bool \<Rightarrow> nat list result" where
  "SolvFindUpDownCandidateForSinglePkg pool dwPkgId nUp =
     bail (SolvGetPkgNameFromId pool dwPkgId) (\<lambda>name.
     bail (SolvFindAvailablePkgByName pool (Some name)) (\<lambda>pkgs.
       Inr (filter (\<lambda>p. let dwEvrCompare = SolvCmpEvr pool p dwPkgId
                        in nUp \<and> dwEvrCompare > 0 \<or> \<not> nUp \<and> dwEvrCompare < 0) pkgs)))"

fun SolvFindAllUpDownCandidates :: "pool \<Rightarrow> nat list \<Rightarrow> bool \<Rightarrow> nat list result" where
  "SolvFindAllUpDownCandidates pool [] up = Inr []"
| "SolvFindAllUpDownCandidates pool (p # ps) up =
     (case SolvFindUpDownCandidateForSinglePkg pool p up of
        Inl e \<Rightarrow> if e = ERROR_TDNF_NO_MATCH then SolvFindAllUpDownCandidates pool ps up else Inl e
      | Inr qs \<Rightarrow> bail (SolvFindAllUpDownCandidates pool ps up) (\<lambda>rest. Inr (qs @ rest)))"

definition SolvApplyUpDownScope :: "pool \<Rightarrow> bool \<Rightarrow> query \<Rightarrow> query result" where
  "SolvApplyUpDownScope pool nUp q =
     (case bail (case ppszPackageNames q of
              None \<Rightarrow> SolvFindAllInstalled pool
            | Some names \<Rightarrow> SolvFindInstalledPkgByMultipleNames pool names) (\<lambda>pkgs.
            SolvFindAllUpDownCandidates pool pkgs nUp) of
        Inl e \<Rightarrow> if e = ERROR_TDNF_NO_MATCH then Inr q else Inl e
      | Inr qs \<Rightarrow> Inr (q\<lparr>queueResult := queueResult q @ qs\<rparr>))"

definition SolvApplyListQuery :: "pool \<Rightarrow> query \<Rightarrow> query result" where
  "SolvApplyListQuery pool q =
     (if nScope q = SCOPE_UPGRADES
      then SolvApplyUpDownScope pool True (SolvGenerateCommonJob pool (list_flags (nScope q)) q)
      else if nScope q = SCOPE_DOWNGRADES
      then SolvApplyUpDownScope pool False (SolvGenerateCommonJob pool (list_flags (nScope q)) q)
      else Inr (list_query pool q))"

section \<open>Filters\<close>

fun known_ids :: "pool \<Rightarrow> string list \<Rightarrow> nat list" where
  "known_ids pool [] = []"
| "known_ids pool (s # ss) =
     (let i = pool_str2id pool s False in if i \<noteq> 0 then i # known_ids pool ss else known_ids pool ss)"

definition allDepKeys :: "dep_key list" where
  "allDepKeys = [SOLVABLE_REQUIRES, SOLVABLE_RECOMMENDS, SOLVABLE_SUGGESTS, SOLVABLE_SUPPLEMENTS, SOLVABLE_ENHANCES]"

text \<open>\<open>whatKey\<close> is one dependency, or all of them for REPOQUERY_WHAT_KEY_DEPENDS.\<close>

definition SolvApplyDepsFilter :: "pool \<Rightarrow> string list \<Rightarrow> dep_key option \<Rightarrow> query \<Rightarrow> query" where
  "SolvApplyDepsFilter pool ppszDeps whatKey q =
     (let deps = known_ids pool ppszDeps;
          keys = (case whatKey of Some k \<Rightarrow> [k] | None \<Rightarrow> allDepKeys)
      in q\<lparr>queueResult := filter (\<lambda>p. list_ex (\<lambda>d. list_ex (\<lambda>k. pl_matchesdep pool p k d) keys) deps)
             (queueResult q)\<rparr>)"

definition is_installed :: "pool \<Rightarrow> nat \<Rightarrow> bool" where
  "is_installed pool p \<longleftrightarrow> sv_repo (pool_id2solvable pool p) = pl_installed pool"

definition SolvApplyExtrasFilter :: "pool \<Rightarrow> query \<Rightarrow> query" where
  "SolvApplyExtrasFilter pool q =
     (let same = (\<lambda>p p2. sv_name (pool_id2solvable pool p2) = sv_name (pool_id2solvable pool p)
            \<and> sv_arch (pool_id2solvable pool p2) = sv_arch (pool_id2solvable pool p)
            \<and> sv_evr (pool_id2solvable pool p2) = sv_evr (pool_id2solvable pool p));
          ps = queueResult q
      in q\<lparr>queueResult := map (\<lambda>i. ps ! i) (filter (\<lambda>i. is_installed pool (ps ! i) \<and>
             \<not> list_ex (\<lambda>j. i \<noteq> j \<and> \<not> is_installed pool (ps ! j) \<and> same (ps ! i) (ps ! j)) [0..<length ps])
             [0..<length ps])\<rparr>)"

fun duplicates :: "pool \<Rightarrow> nat list \<Rightarrow> nat list" where
  "duplicates pool [] = []"
| "duplicates pool (p # ps) =
     (if is_installed pool p \<and> list_ex (\<lambda>p2. is_installed pool p2
          \<and> sv_name (pool_id2solvable pool p2) = sv_name (pool_id2solvable pool p)
          \<and> sv_arch (pool_id2solvable pool p2) = sv_arch (pool_id2solvable pool p)) ps
      then p # duplicates pool ps else duplicates pool ps)"

definition SolvApplyDuplicatesFilter :: "pool \<Rightarrow> query \<Rightarrow> query" where
  "SolvApplyDuplicatesFilter pool q = q\<lparr>queueResult := duplicates pool (queueResult q)\<rparr>"

definition SolvApplyArchFilter :: "pool \<Rightarrow> string list \<Rightarrow> query \<Rightarrow> query" where
  "SolvApplyArchFilter pool ppszArchs q =
     (let arches = known_ids pool ppszArchs
      in q\<lparr>queueResult := filter (\<lambda>p. sv_arch (pool_id2solvable pool p) \<in> set arches) (queueResult q)\<rparr>)"


section \<open>Packages by name, version and architecture\<close>

text \<open>The loop that walks back to a character, or to the start of the string.\<close>

fun scan_back :: "char \<Rightarrow> string \<Rightarrow> nat \<Rightarrow> nat" where
  "scan_back c s 0 = 0"
| "scan_back c s (Suc p) = (if s ! Suc p = c then Suc p else scan_back c s p)"

text \<open>\<open>Inl\<close> holds the negated return code. On the empty string the code reads before its start.\<close>

definition split_nevra :: "string \<Rightarrow> (nat + string \<times> string \<times> string) option" where
  "split_nevra s =
     (if s = [] then None
      else let d = scan_back CHR ''.'' s (length s - 1)
        in if d = 0 then Some (Inl 1)
           else let r = scan_back CHR ''-'' s (d - 1)
        in if r = 0 then Some (Inl 2)
           else let v = scan_back CHR ''-'' s (r - 1)
        in if v = 0 then Some (Inl 3)
           else Some (Inr (take v s, take (d - (v + 1)) (drop (v + 1) s), drop (d + 1) s)))"

definition SolvFindSolvablesByNevraId :: "pool \<Rightarrow> nat \<Rightarrow> nat \<Rightarrow> nat \<Rightarrow> bool \<Rightarrow> nat list" where
  "SolvFindSolvablesByNevraId pool name evr arch installed =
     filter (\<lambda>p. installed = is_installed pool p \<and> sv_name (pl_solvable pool p) = name
               \<and> sv_evr (pl_solvable pool p) = evr \<and> sv_arch (pl_solvable pool p) = arch) (pl_ids pool)"

text \<open>What is appended to the result queue.\<close>

definition SolvFindSolvablesByNevraStr :: "pool \<Rightarrow> string \<Rightarrow> bool \<Rightarrow> nat list result option" where
  "SolvFindSolvablesByNevraStr pool nevra installed = (case split_nevra nevra of
     None \<Rightarrow> None
   | Some (Inl _) \<Rightarrow> Some (Inl ERROR_TDNF_INVALID_PARAMETER)
   | Some (Inr (name, evr, arch)) \<Rightarrow>
       (let id_name = pool_str2id pool name False; id_evr = pool_str2id pool evr False;
            id_arch = pool_str2id pool arch False
        in Some (Inr (if id_name \<noteq> 0 \<and> id_evr \<noteq> 0 \<and> id_arch \<noteq> 0
             then SolvFindSolvablesByNevraId pool id_name id_evr id_arch installed else []))))"

fun push_unique :: "nat list \<Rightarrow> nat list \<Rightarrow> nat list" where
  "push_unique q [] = q"
| "push_unique q (d # ds) = push_unique (if d \<in> set q then q else q @ [d]) ds"

fun SolvRequiresFromQueue :: "pool \<Rightarrow> nat list \<Rightarrow> nat list \<Rightarrow> nat list" where
  "SolvRequiresFromQueue pool [] deps = deps"
| "SolvRequiresFromQueue pool (p # ps) deps =
     SolvRequiresFromQueue pool ps (push_unique deps (sv_requires (pool_id2solvable pool p)))"

section \<open>Parts of a version\<close>

text \<open>The last offsets of the two separators, 0 when there is none.\<close>

fun last_at :: "char \<Rightarrow> string \<Rightarrow> nat \<Rightarrow> nat \<Rightarrow> nat" where
  "last_at c [] i found = found"
| "last_at c (x # xs) i found = last_at c xs (Suc i) (if x = c then i else found)"

text \<open>The three parts, \<open>None\<close> for a pointer that stays NULL.\<close>

definition SolvSplitEvr :: "string option \<Rightarrow> (string option \<times> string option \<times> string option) result" where
  "SolvSplitEvr evr =
     (if IsNullOrEmptyString evr then Inl ERROR_TDNF_INVALID_PARAMETER
      else bail (TDNFAllocateString evr) (\<lambda>s.
        let eIndex = last_at CHR '':'' s 0 0; rIndex = last_at CHR ''-'' s 0 0;
            has_release = rIndex \<noteq> 0 \<and> rIndex > eIndex;
            start = (if eIndex \<noteq> 0 then eIndex + 1 else 0);
            part = (\<lambda>x. if x = [] then Inr None else bail (TDNFAllocateString (Some x)) (\<lambda>y. Inr (Some y)))
        in bail (part (if eIndex \<noteq> 0 then take eIndex s else [])) (\<lambda>epoch.
           bail (part (if has_release then take (rIndex - start) (drop start s) else drop start s)) (\<lambda>version.
           bail (part (if has_release then drop (rIndex + 1) s else [])) (\<lambda>release.
             Inr (epoch, version, release))))))"

section \<open>Excluded packages\<close>

definition SolvIsGlob :: "string \<Rightarrow> bool" where
  "SolvIsGlob s \<longleftrightarrow> list_ex (\<lambda>ch. ch = CHR ''*'' \<or> ch = CHR ''?'' \<or> ch = CHR ''['') s"

definition SolvDataIterator :: "pool \<Rightarrow> string list \<Rightarrow> nat list" where
  "SolvDataIterator pool ppszExcludes = concat (map (\<lambda>s. pl_name_search pool (SolvIsGlob s) s) ppszExcludes)"

text \<open>Subtracting a set of packages from the ones the solver may consider.\<close>

definition map_subtract :: "nat list \<Rightarrow> pool \<Rightarrow> pool" where
  "map_subtract ps pool = pool\<lparr>pl_considered :=
     Some (\<lambda>p. (case pl_considered pool of None \<Rightarrow> True | Some m \<Rightarrow> m p) \<and> p \<notin> set ps)\<rparr>"

definition SolvAddExcludes :: "string list \<Rightarrow> pool \<Rightarrow> pool" where
  "SolvAddExcludes ppszExcludes pool = map_subtract (SolvDataIterator pool ppszExcludes) pool"

section \<open>Problems of the solver\<close>

record problem =
  pr_type :: "32 word"
  pr_source :: nat
  pr_text :: string

abbreviation (input) SOLVER_RULE_PKG :: "32 word" where "SOLVER_RULE_PKG \<equiv> 0x100"
abbreviation (input) SOLVER_RULE_PKG_NOT_INSTALLABLE :: "32 word" where "SOLVER_RULE_PKG_NOT_INSTALLABLE \<equiv> 0x101"
abbreviation (input) SOLVER_RULE_PKG_REQUIRES :: "32 word" where "SOLVER_RULE_PKG_REQUIRES \<equiv> 0x103"
abbreviation (input) SOLVER_RULE_PKG_SELF_CONFLICT :: "32 word" where "SOLVER_RULE_PKG_SELF_CONFLICT \<equiv> 0x104"
abbreviation (input) SOLVER_RULE_PKG_CONFLICTS :: "32 word" where "SOLVER_RULE_PKG_CONFLICTS \<equiv> 0x105"
abbreviation (input) SOLVER_RULE_PKG_OBSOLETES :: "32 word" where "SOLVER_RULE_PKG_OBSOLETES \<equiv> 0x107"
abbreviation (input) SOLVER_RULE_PKG_IMPLICIT_OBSOLETES :: "32 word" where
  "SOLVER_RULE_PKG_IMPLICIT_OBSOLETES \<equiv> 0x108"
abbreviation (input) SOLVER_RULE_PKG_INSTALLED_OBSOLETES :: "32 word" where
  "SOLVER_RULE_PKG_INSTALLED_OBSOLETES \<equiv> 0x109"
abbreviation (input) SKIPPROBLEM_NONE :: "32 word" where "SKIPPROBLEM_NONE \<equiv> 0x00"
abbreviation (input) SKIPPROBLEM_CONFLICTS :: "32 word" where "SKIPPROBLEM_CONFLICTS \<equiv> 0x01"
abbreviation (input) SKIPPROBLEM_OBSOLETES :: "32 word" where "SKIPPROBLEM_OBSOLETES \<equiv> 0x02"
abbreviation (input) SKIPPROBLEM_DISABLED :: "32 word" where "SKIPPROBLEM_DISABLED \<equiv> 0x04"
abbreviation (input) SKIPPROBLEM_BROKEN :: "32 word" where "SKIPPROBLEM_BROKEN \<equiv> 0x08"

definition SkipBasedOnType :: "pool \<Rightarrow> 32 word \<Rightarrow> nat \<Rightarrow> 32 word \<Rightarrow> bool" where
  "SkipBasedOnType pool type dwSource dwSkipProblem \<longleftrightarrow>
     dwSkipProblem AND SKIPPROBLEM_CONFLICTS \<noteq> 0
       \<and> (type = SOLVER_RULE_PKG_CONFLICTS \<or> type = SOLVER_RULE_PKG_SELF_CONFLICT)
   \<or> dwSkipProblem AND SKIPPROBLEM_OBSOLETES \<noteq> 0
       \<and> (type = SOLVER_RULE_PKG_OBSOLETES \<or> type = SOLVER_RULE_PKG_IMPLICIT_OBSOLETES
          \<or> type = SOLVER_RULE_PKG_INSTALLED_OBSOLETES)
   \<or> dwSkipProblem AND SKIPPROBLEM_BROKEN \<noteq> 0 \<and> type AND SOLVER_RULE_PKG \<noteq> 0
   \<or> dwSkipProblem AND SKIPPROBLEM_DISABLED \<noteq> 0 \<and> type = SOLVER_RULE_PKG_NOT_INSTALLABLE
       \<and> pl_disabled pool dwSource"

text \<open>
  The error code, and the name kept for the next call. A name of more than 255 characters does not fit into
  the buffer \<open>pkgname\<close>.
\<close>

definition check_for_providers ::
    "pool \<Rightarrow> 32 word \<Rightarrow> string \<Rightarrow> string \<Rightarrow> (errcode \<times> string) option" where
  "check_for_providers pool type pszProblem prv_pkgname =
     (if type \<noteq> SOLVER_RULE_PKG_REQUIRES then Some (0, prv_pkgname)
      else case strstr pszProblem '' requires '' of
        None \<Rightarrow> Some (ERROR_TDNF_SOLV_FAILED, prv_pkgname)
      | Some i \<Rightarrow>
          (let beg = drop (i + 10) pszProblem
           in if CHR '','' \<notin> set beg then Some (ERROR_TDNF_SOLV_FAILED, prv_pkgname)
              else let pkgname = filter (\<lambda>c. c \<noteq> CHR '' '') (takeWhile (\<lambda>c. c \<noteq> CHR '','') beg)
              in if length pkgname > 255 then None
                 else if pkgname = prv_pkgname then Some (0, prv_pkgname)
                 else Some (case SolvFindAvailablePkgByName pool (Some pkgname) of Inl e \<Rightarrow> e | Inr _ \<Rightarrow> 0, pkgname)))"

fun report_problems :: "pool \<Rightarrow> 32 word \<Rightarrow> problem list \<Rightarrow> string \<Rightarrow> errcode \<Rightarrow> errcode option" where
  "report_problems pool dwSkipProblem [] prv dwError = Some dwError"
| "report_problems pool dwSkipProblem (pr # prs) prv dwError =
     (if SkipBasedOnType pool (pr_type pr) (pr_source pr) dwSkipProblem
      then report_problems pool dwSkipProblem prs prv dwError
      else if dwSkipProblem \<noteq> SKIPPROBLEM_NONE \<and> pr_type pr = SOLVER_RULE_PKG_REQUIRES
      then (case check_for_providers pool (pr_type pr) (pr_text pr) prv of
              None \<Rightarrow> None
            | Some (e, prv) \<Rightarrow> report_problems pool dwSkipProblem prs prv (if e = 0 then dwError else ERROR_TDNF_SOLV_FAILED))
      else report_problems pool dwSkipProblem prs prv ERROR_TDNF_SOLV_FAILED)"

text \<open>The problems are visited from the last to the first.\<close>

definition SolvReportProblems :: "pool \<Rightarrow> problem list \<Rightarrow> 32 word \<Rightarrow> errcode option" where
  "SolvReportProblems pool problems dwSkipProblem = report_problems pool dwSkipProblem (rev problems) [] 0"

section \<open>Packages that nothing needs\<close>

definition needs :: "pool \<Rightarrow> nat \<Rightarrow> nat \<Rightarrow> bool" where
  "needs pool t dep \<longleftrightarrow> list_ex (\<lambda>k. pl_matchesdep pool t k dep) allDepKeys"

definition others :: "pool \<Rightarrow> nat \<Rightarrow> nat list" where
  "others pool p = filter (\<lambda>q. p \<noteq> q) (installed_solvables pool)"

definition SolvIdIsOrphaned :: "pool \<Rightarrow> nat \<Rightarrow> bool" where
  "SolvIdIsOrphaned pool p =
     (let s = pool_id2solvable pool p;
          qFiles = map (\<lambda>f. pool_str2id pool f True) (sv_files s)
      in if list_ex (\<lambda>q. needs pool q (sv_name s)) (others pool p) then False
         else if list_ex (\<lambda>q. list_ex (needs pool q) qFiles) (others pool p) then False
         else \<not> list_ex (\<lambda>q. list_ex (needs pool q) (sv_provides s)) (others pool p))"

text \<open>A call into the history: a return code other than 0 is ERROR_TDNF_HISTORY_ERROR.\<close>

abbreviation (input) ERROR_TDNF_HISTORY_ERROR :: errcode where "ERROR_TDNF_HISTORY_ERROR \<equiv> 1801"

definition history_call :: "('s, 'a) hm \<Rightarrow> ('s, 'a) prog" where
  "history_call m s = (case m s of
     (Inl UNDEF, _) \<Rightarrow> None
   | (Inl (RC _), t) \<Rightarrow> Some (Inl ERROR_TDNF_HISTORY_ERROR, t)
   | (Inr x, t) \<Rightarrow> Some (Inr x, t))"

text \<open>The packages of a list whose auto-installed flag satisfies a condition.\<close>

fun flagged :: "pool \<Rightarrow> (int \<Rightarrow> bool) \<Rightarrow> nat list \<Rightarrow> (history_ctx, nat list) prog" where
  "flagged pool P [] = returnP []"
| "flagged pool P (p # ps) =
     bindP (history_call (history_get_auto_flag (Some (name_of pool p)))) (\<lambda>nFlag.
     bindP (flagged pool P ps) (\<lambda>rest. returnP (if P nFlag then p # rest else rest)))"

text \<open>\<^verbatim>\<open>SolvGetAutoInstalledOrphans\<close> looks for orphans only among the auto-installed packages.\<close>

definition SolvGetAutoInstalledOrphans :: "pool \<Rightarrow> (history_ctx, nat list) prog" where
  "SolvGetAutoInstalledOrphans pool =
     bindP (flagged pool (\<lambda>nIsAuto. nIsAuto \<noteq> 0) (installed_solvables pool)) (\<lambda>ps.
       returnP (filter (SolvIdIsOrphaned pool) ps))"

definition SolvApplyUserInstalledFilter :: "pool \<Rightarrow> query \<Rightarrow> (history_ctx, query) prog" where
  "SolvApplyUserInstalledFilter pool q =
     bindP (flagged pool (\<lambda>v. v = 0) (filter (is_installed pool) (queueResult q))) (\<lambda>ps.
       returnP (q\<lparr>queueResult := ps\<rparr>))"


section \<open>What the searches find\<close>

text \<open>What tdnf relies on from the comparison of versions: it is that of a total preorder.\<close>

definition evr_ok :: "pool \<Rightarrow> bool" where
  "evr_ok pool \<longleftrightarrow> (\<forall>a b. sgn (pl_evrcmp pool a b) = - sgn (pl_evrcmp pool b a))
     \<and> (\<forall>a b c. pl_evrcmp pool a b \<ge> 0 \<longrightarrow> pl_evrcmp pool b c \<ge> 0 \<longrightarrow> pl_evrcmp pool a c \<ge> 0)"

lemma evr_flip: "evr_ok pool \<Longrightarrow> SolvCmpEvr pool p q \<le> 0 \<longleftrightarrow> SolvCmpEvr pool q p \<ge> 0"
proof -
  assume "evr_ok pool"
  then have "sgn (SolvCmpEvr pool p q) = - sgn (SolvCmpEvr pool q p)"
    unfolding evr_ok_def SolvCmpEvr_def by blast
  then show ?thesis by (auto simp: sgn_if split: if_splits)
qed

lemma evr_flip_less: "evr_ok pool \<Longrightarrow> SolvCmpEvr pool p q < 0 \<longleftrightarrow> SolvCmpEvr pool q p > 0"
  using evr_flip [of pool q p] by linarith

lemma evr_refl: "evr_ok pool \<Longrightarrow> SolvCmpEvr pool p p = 0"
  using evr_flip [of pool p p] by linarith

lemma evr_trans:
  assumes "evr_ok pool" and "SolvCmpEvr pool p q \<ge> 0" and "SolvCmpEvr pool q r \<ge> 0"
  shows "SolvCmpEvr pool p r \<ge> 0"
proof -
  have "\<forall>a b c. pl_evrcmp pool a b \<ge> 0 \<longrightarrow> pl_evrcmp pool b c \<ge> 0 \<longrightarrow> pl_evrcmp pool a c \<ge> 0"
    using assms(1) unfolding evr_ok_def by (rule conjunct2)
  from this [rule_format, of "evr_of pool p" "evr_of pool q" "evr_of pool r"] show ?thesis
    using assms(2,3) unfolding SolvCmpEvr_def by simp
qed

lemma extreme_step: "\<exists>m \<in> {p, b}. extreme_of pool h (p # ps) b = extreme_of pool h ps m"
  by (auto simp: Let_def)

lemma extreme_in: "extreme_of pool h ps b \<in> insert b (set ps)"
proof (induction ps arbitrary: b)
  case (Cons p ps)
  obtain m where "m \<in> {p, b}" "extreme_of pool h (p # ps) b = extreme_of pool h ps m"
    by (rule bexE [OF extreme_step])
  then show ?case using Cons [of m] by (metis insert_iff list.simps(15) singletonD)
qed simp

lemma extreme_highest:
  assumes "evr_ok pool" and "q \<in> insert b (set ps)"
  shows "SolvCmpEvr pool (extreme_of pool True ps b) q \<ge> 0"
  using assms(2)
proof (induction ps arbitrary: b q)
  case Nil
  then show ?case using evr_refl [OF assms(1)] by simp
next
  case (Cons p ps)
  define m where "m = (if SolvCmpEvr pool p b > 0 then p else b)"
  have "SolvCmpEvr pool m p \<ge> 0" "SolvCmpEvr pool m b \<ge> 0"
    using evr_refl [OF assms(1)] evr_flip [OF assms(1), of p b] by (auto simp: m_def)
  moreover have "SolvCmpEvr pool (extreme_of pool True ps m) m \<ge> 0" by (rule Cons.IH) simp
  ultimately have "SolvCmpEvr pool (extreme_of pool True ps m) r \<ge> 0" if "r = p \<or> r = b" for r
    using that evr_trans [OF assms(1)] by blast
  then show ?case using Cons.prems Cons.IH [of q m] by (auto simp: m_def [symmetric])
qed

lemma extreme_lowest:
  assumes "evr_ok pool" and "q \<in> insert b (set ps)"
  shows "SolvCmpEvr pool (extreme_of pool False ps b) q \<le> 0"
  using assms(2)
proof (induction ps arbitrary: b q)
  case Nil
  then show ?case using evr_refl [OF assms(1)] by simp
next
  case (Cons p ps)
  define m where "m = (if SolvCmpEvr pool p b < 0 then p else b)"
  have flip: "SolvCmpEvr pool x y \<le> 0 \<longleftrightarrow> SolvCmpEvr pool y x \<ge> 0" for x y using evr_flip [OF assms(1)] .
  have "SolvCmpEvr pool p m \<ge> 0" "SolvCmpEvr pool b m \<ge> 0"
    using evr_refl [OF assms(1)] flip [of b p] flip [of p b] by (auto simp: m_def)
  moreover have "SolvCmpEvr pool m (extreme_of pool False ps m) \<ge> 0" using Cons.IH [of m m] flip by simp
  ultimately have "SolvCmpEvr pool r (extreme_of pool False ps m) \<ge> 0" if "r = p \<or> r = b" for r
    using that evr_trans [OF assms(1)] by blast
  then show ?case using Cons.prems Cons.IH [of q m] flip by (auto simp: m_def [symmetric])
qed

lemma HighestOrLowest_cases:
  assumes "SolvFindHighestOrLowestInstalled pool (Some name) h = Inr p"
  obtains pkgs where "SolvFindInstalledPkgByName pool (Some name) = Inr pkgs" "pkgs \<noteq> []"
    "p = (if hd pkgs = 0 then 0 else extreme_of pool h (tl pkgs) (hd pkgs))"
  using assms by (auto simp: SolvFindHighestOrLowestInstalled_def SolvGetPackageId_def bail_Inr_iff hd_conv_nth
      split: if_splits)

lemma HighestInstalled_max:
  assumes "evr_ok pool" and "SolvFindHighestInstalled pool (Some name) = Inr p" and "p \<noteq> 0"
  obtains pkgs where "SolvFindInstalledPkgByName pool (Some name) = Inr pkgs" "p \<in> set pkgs"
    "\<And>q. q \<in> set pkgs \<Longrightarrow> SolvCmpEvr pool p q \<ge> 0"
proof -
  from assms(2) have "SolvFindHighestOrLowestInstalled pool (Some name) True = Inr p"
    by (simp add: SolvFindHighestInstalled_def split: if_splits)
  then obtain pkgs where pk: "SolvFindInstalledPkgByName pool (Some name) = Inr pkgs" "pkgs \<noteq> []"
    "p = (if hd pkgs = 0 then 0 else extreme_of pool True (tl pkgs) (hd pkgs))"
    by (rule HighestOrLowest_cases)
  then have p: "p = extreme_of pool True (tl pkgs) (hd pkgs)"
    using assms(3) by (simp split: if_splits)
  have s: "set pkgs = insert (hd pkgs) (set (tl pkgs))" using pk(2) by (cases pkgs) simp_all
  show thesis
    using that [OF pk(1)] extreme_in [of pool True "tl pkgs" "hd pkgs"] extreme_highest [OF assms(1)] p s by simp
qed

lemma LowestInstalled_min:
  assumes "evr_ok pool" and "SolvFindLowestInstalled pool (Some name) = Inr p" and "p \<noteq> 0"
  obtains pkgs where "SolvFindInstalledPkgByName pool (Some name) = Inr pkgs" "p \<in> set pkgs"
    "\<And>q. q \<in> set pkgs \<Longrightarrow> SolvCmpEvr pool p q \<le> 0"
proof -
  from assms(2) have "SolvFindHighestOrLowestInstalled pool (Some name) False = Inr p"
    by (simp add: SolvFindLowestInstalled_def split: if_splits)
  then obtain pkgs where pk: "SolvFindInstalledPkgByName pool (Some name) = Inr pkgs" "pkgs \<noteq> []"
    "p = (if hd pkgs = 0 then 0 else extreme_of pool False (tl pkgs) (hd pkgs))"
    by (rule HighestOrLowest_cases)
  then have p: "p = extreme_of pool False (tl pkgs) (hd pkgs)"
    using assms(3) by (simp split: if_splits)
  have s: "set pkgs = insert (hd pkgs) (set (tl pkgs))" using pk(2) by (cases pkgs) simp_all
  show thesis
    using that [OF pk(1)] extreme_in [of pool False "tl pkgs" "hd pkgs"] extreme_lowest [OF assms(1)] p s by simp
qed

section \<open>Names, versions and architectures\<close>

lemma scan_back_found:
  assumes "j \<le> p" and "0 < j" and "s ! j = c" and "\<And>k. j < k \<Longrightarrow> k \<le> p \<Longrightarrow> s ! k \<noteq> c"
  shows "scan_back c s p = j"
  using assms
proof (induction p)
  case (Suc p)
  then show ?case by (cases "j = Suc p") auto
qed simp

lemma scan_back_split:
  assumes "x \<noteq> []" and "c \<notin> set y" and "p = length x + length y"
  shows "scan_back c (x @ c # y @ z) p = length x"
proof (rule scan_back_found)
  fix k assume "length x < k" "k \<le> p"
  then obtain i where "k = length x + Suc i" "i < length y" using assms(3) by (metis add_Suc_right less_iff_Suc_add
        nat_add_left_cancel_le Suc_le_eq add_Suc)
  then show "(x @ c # y @ z) ! k \<noteq> c" using assms(2) by (simp add: nth_append) (metis nth_mem)
qed (use assms in \<open>auto simp: nth_append\<close>)

text \<open>A NEVRA is taken apart where it was put together.\<close>

lemma split_nevra_parts:
  assumes "name \<noteq> []" and "CHR ''.'' \<notin> set arch" and "CHR ''-'' \<notin> set version" and "CHR ''-'' \<notin> set release"
  shows "split_nevra (name @ ''-'' @ version @ ''-'' @ release @ ''.'' @ arch)
     = Some (Inr (name, version @ ''-'' @ release, arch))"
proof -
  let ?s = "name @ ''-'' @ version @ ''-'' @ release @ ''.'' @ arch"
  let ?v = "length name" and ?r = "length (name @ ''-'' @ version)"
  let ?d = "length (name @ ''-'' @ version @ ''-'' @ release)"
  have "scan_back CHR ''.'' ?s (length ?s - 1) = ?d"
    using scan_back_split [of "name @ ''-'' @ version @ ''-'' @ release" "CHR ''.''" arch "length ?s - 1" "[]"] assms
    by simp
  moreover have "scan_back CHR ''-'' ?s (?d - 1) = ?r"
    using scan_back_split [of "name @ ''-'' @ version" "CHR ''-''" release "?d - 1" "''.'' @ arch"] assms by simp
  moreover have "scan_back CHR ''-'' ?s (?r - 1) = ?v"
    using scan_back_split [of name "CHR ''-''" version "?r - 1" "''-'' @ release @ ''.'' @ arch"] assms by simp
  moreover have "drop (?d + 1) ?s = arch"
    using append_eq_conv_conj [of "name @ ''-'' @ version @ ''-'' @ release @ ''.''" arch ?s] by simp
  moreover have "take ?v ?s = name" by simp
  moreover have "take (?d - (?v + 1)) (drop (?v + 1) ?s) = version @ ''-'' @ release" by simp
  ultimately show ?thesis
    using assms(1) unfolding split_nevra_def Let_def by (simp del: scan_back.simps)
qed

lemma installed_solvables_iff: "p \<in> set (installed_solvables pool) \<longleftrightarrow> p \<in> set (pl_ids pool) \<and> is_installed pool p"
  by (auto simp: installed_solvables_def repo_solvables_def is_installed_def pool_id2solvable_def)

section \<open>Flags of packages\<close>

lemma get_auto_flag_ok:
  "flags_ready ctx \<Longrightarrow> history_get_auto_flag (Some name) ctx = (Inr (flag_at (cur (h_db ctx)) (h_trans_id ctx) name), ctx)"
  by (simp add: history_get_auto_flag_def flags_ready_def sql_simps)

lemma flagged_ok:
  "flags_ready ctx \<Longrightarrow> flagged pool P ps ctx
     = Some (Inr (filter (\<lambda>p. P (flag_at (cur (h_db ctx)) (h_trans_id ctx) (name_of pool p))) ps), ctx)"
  by (induction ps) (simp_all add: bindP_def history_call_def get_auto_flag_ok)

lemma SolvIdIsOrphaned_iff:
  "SolvIdIsOrphaned pool p \<longleftrightarrow>
     (\<forall>q dep. q \<in> set (installed_solvables pool) \<and> q \<noteq> p \<and> needs pool q dep \<longrightarrow>
        dep \<noteq> sv_name (pl_solvable pool p) \<and> dep \<notin> set (sv_provides (pl_solvable pool p))
        \<and> dep \<notin> pl_str2id pool ` set (sv_files (pl_solvable pool p)))"
  unfolding SolvIdIsOrphaned_def Let_def others_def pool_id2solvable_def pool_str2id_def list_ex_iff by auto

lemma AutoInstalledOrphans_ok:
  assumes "flags_ready ctx"
  shows "SolvGetAutoInstalledOrphans pool ctx = Some (Inr (filter (\<lambda>p. flag_at (cur (h_db ctx)) (h_trans_id ctx)
     (name_of pool p) \<noteq> 0 \<and> SolvIdIsOrphaned pool p) (installed_solvables pool)), ctx)"
  using assms by (simp add: SolvGetAutoInstalledOrphans_def bindP_def flagged_ok conj_commute)


section \<open>A small pool\<close>

text \<open>Two versions of \<^verbatim>\<open>foo\<close> and one of \<^verbatim>\<open>bar\<close> are installed; the repository \<open>r\<close> has a newer \<^verbatim>\<open>foo\<close> and the same
  \<^verbatim>\<open>bar\<close>.\<close>

definition sample_strings :: "(nat \<times> string) list" where
  "sample_strings = [(10, ''foo''), (11, ''bar''), (20, ''1-1''), (21, ''2-1''), (22, ''3-1''), (30, ''noarch'')]"

definition sample_solvable :: "nat \<Rightarrow> nat \<Rightarrow> nat \<Rightarrow> solvable" where
  "sample_solvable name evr repo = \<lparr>sv_name = name, sv_evr = evr, sv_arch = 30, sv_repo = repo, sv_obsoletes = [],
     sv_requires = [], sv_provides = [name], sv_files = [], sv_summary = Some ''s'', sv_location = None,
     sv_checksum = None, sv_installsize = 1, sv_downloadsize = 1\<rparr>"

definition sample_solvables :: "(nat \<times> solvable) list" where
  "sample_solvables = [(2, sample_solvable 10 20 1), (3, sample_solvable 10 21 1), (4, sample_solvable 10 22 2),
     (5, sample_solvable 11 20 2), (6, sample_solvable 11 20 1)]"

definition sample_lookup :: "nat \<Rightarrow> solvable" where
  "sample_lookup p = (case map_of sample_solvables p of None \<Rightarrow> sample_solvable 10 20 0 | Some s \<Rightarrow> s)"

definition sample_pool :: pool where
  "sample_pool = \<lparr>pl_solvable = sample_lookup, pl_ids = [2, 3, 4, 5, 6], pl_repos = [(1, ''@System''), (2, ''r'')],
     pl_installed = 1, pl_strings = (\<lambda>s. s \<in> snd ` set sample_strings),
     pl_str2id = (\<lambda>s. case map_of (map (\<lambda>(i, t). (t, i)) sample_strings) s of None \<Rightarrow> 99 | Some i \<Rightarrow> i),
     pl_id2str = (\<lambda>i. case map_of sample_strings i of None \<Rightarrow> ''?'' | Some s \<Rightarrow> s),
     pl_solvable2str = (\<lambda>p. ''x''), pl_evrcmp = (\<lambda>a b. if a = b then 0 else if a < b then - 1 else 1),
     pl_whatprovides = (\<lambda>i. filter (\<lambda>p. i \<in> set (sv_provides (sample_lookup p))) [2, 3, 4, 5, 6]),
     pl_best = (\<lambda>ps. take 1 (rev (sort_key (\<lambda>p. sv_evr (sample_lookup p)) ps))), pl_match_nevr = (\<lambda>p d. False),
     pl_selection_make = (\<lambda>s f. case map_of (map (\<lambda>(i, t). (t, i)) sample_strings) s of
        None \<Rightarrow> [] | Some i \<Rightarrow> [(SOLVER_SOLVABLE_NAME, i)]),
     pl_selection_filter = (\<lambda>js fs. map (\<lambda>(how, what). (how, what + 100 * snd (hd fs))) js),
     pl_job_select = (\<lambda>how what. filter (\<lambda>p. sv_name (sample_lookup p) = what mod 100
        \<and> (what div 100 = 0 \<or> sv_repo (sample_lookup p) = what div 100)) [2, 3, 4, 5, 6]),
     pl_matchesdep = (\<lambda>p k d. False), pl_name_search = (\<lambda>glob s. []), pl_disabled = (\<lambda>p. False),
     pl_considered = None\<rparr>"

lemma sample_evr_ok: "evr_ok sample_pool"
  unfolding evr_ok_def by (auto simp: sample_pool_def)

lemma sample_pool_names:
  "name_of sample_pool 2 = ''foo''" "name_of sample_pool 3 = ''foo''" "name_of sample_pool 4 = ''foo''"
  "name_of sample_pool 5 = ''bar''" "name_of sample_pool 6 = ''bar''"
  "evr_of sample_pool 2 = ''1-1''" "evr_of sample_pool 3 = ''2-1''" "evr_of sample_pool 4 = ''3-1''"
  "evr_of sample_pool 5 = ''1-1''" "evr_of sample_pool 6 = ''1-1''"
  by (simp_all add: name_of_def evr_of_def sample_pool_def sample_lookup_def sample_solvables_def sample_solvable_def
      sample_strings_def)

lemma sample_installed: "installed_solvables sample_pool = [2, 3, 6]"
  by (simp add: installed_solvables_def repo_solvables_def sample_pool_def sample_lookup_def sample_solvables_def
      sample_solvable_def)

lemma sample_pool_ids: "pl_str2id sample_pool ''foo'' = 10" "pl_str2id sample_pool ''bar'' = 11" "distinct (pl_ids sample_pool)"
  by (simp_all add: sample_pool_def sample_strings_def)

lemma sample_sv_name:
  "sv_name (pool_id2solvable sample_pool 2) = 10" "sv_name (pool_id2solvable sample_pool 3) = 10"
  "sv_name (pool_id2solvable sample_pool 4) = 10" "sv_name (pool_id2solvable sample_pool 5) = 11"
  "sv_name (pool_id2solvable sample_pool 6) = 11"
  by (simp_all add: pool_id2solvable_def sample_pool_def sample_lookup_def sample_solvables_def sample_solvable_def)

lemma sample_allocates: "TDNFAllocateString (Some ''foo'') = Inr ''foo''" "TDNFAllocateString (Some ''bar'') = Inr ''bar''"
  by (simp_all add: TDNFAllocateString_def TDNF_DEFAULT_MAX_STRING_LEN_def)

lemma sample_queries:
  "pl_selection_make sample_pool ''foo'' f = [(SOLVER_SOLVABLE_NAME, 10)]"
  "pl_selection_filter sample_pool [(how, what)] fs = [(how, what + 100 * snd (hd fs))]"
  "pl_job_select sample_pool how 110 = [2, 3]" "pl_job_select sample_pool how 210 = [4]"
  "pl_repos sample_pool = [(1, ''@System''), (2, ''r'')]" "pl_installed sample_pool = 1"
  by (simp_all add: sample_pool_def sample_strings_def sample_lookup_def sample_solvables_def sample_solvable_def)

lemma sample_repo_names: "\<not> strcaseeq SYSTEM_REPO_NAME ''r''" "strcaseeq SYSTEM_REPO_NAME ''@System''"
  by (simp_all add: SYSTEM_REPO_NAME_def strcaseeq_def)

lemma sample_found:
  "SolvFindInstalledPkgByName sample_pool (Some ''foo'') = Inr [2, 3]"
  "SolvFindAvailablePkgByName sample_pool (Some ''foo'') = Inr [4]"
  by (simp_all add: SolvFindInstalledPkgByName_def SolvFindAvailablePkgByName_def SolvApplySinglePackageFilter_def
      sample_allocates SolvGetQueryResult_def list_query_def SolvGenerateCommonJob_def SolvAddSystemRepoFilter_def
      SolvAddAvailableRepoFilter_def SolvCreateQuery_def Let_def name_jobs_def filtered_def
      SolvQueueToPackageList_def job_packages_def packages_def is_pseudo_package_def sample_pool_names
      sample_queries sample_repo_names)

end
