(* ===== verification/Goal_Jobs.thy ===== *)
theory Goal_Jobs
  imports Solv_Find Conf_Config
begin

text \<open>
  The job queue of the solver and the checks on its transactions (\<^verbatim>\<open>client/goal.c\<close>, the job functions of
  \<^verbatim>\<open>solv/tdnfquery.c\<close>): locked packages, packages of which several versions may be installed, minimum
  versions, protected packages. The solver is foreign; a transaction is the list of its steps and the answers of
  \<^verbatim>\<open>transaction_type\<close> for them.
\<close>

section \<open>Jobs and transactions\<close>

abbreviation (input) SOLVER_JOBMASK :: "32 word" where "SOLVER_JOBMASK \<equiv> 0xff00"
abbreviation (input) SOLVER_INSTALL :: "32 word" where "SOLVER_INSTALL \<equiv> 0x0100"
abbreviation (input) SOLVER_ERASE :: "32 word" where "SOLVER_ERASE \<equiv> 0x0200"
abbreviation (input) SOLVER_UPDATE :: "32 word" where "SOLVER_UPDATE \<equiv> 0x0300"
abbreviation (input) SOLVER_MULTIVERSION :: "32 word" where "SOLVER_MULTIVERSION \<equiv> 0x0500"
abbreviation (input) SOLVER_LOCK :: "32 word" where "SOLVER_LOCK \<equiv> 0x0600"
abbreviation (input) SOLVER_DISTUPGRADE :: "32 word" where "SOLVER_DISTUPGRADE \<equiv> 0x0700"
abbreviation (input) SOLVER_USERINSTALLED :: "32 word" where "SOLVER_USERINSTALLED \<equiv> 0x0a00"
abbreviation (input) SOLVER_ALLOWUNINSTALL :: "32 word" where "SOLVER_ALLOWUNINSTALL \<equiv> 0x0b00"
abbreviation (input) SOLVER_CLEANDEPS :: "32 word" where "SOLVER_CLEANDEPS \<equiv> 0x040000"
abbreviation (input) SOLVER_FORCEBEST :: "32 word" where "SOLVER_FORCEBEST \<equiv> 0x100000"
abbreviation (input) ERROR_TDNF_INVALID_RESOLVE_ARG :: errcode where "ERROR_TDNF_INVALID_RESOLVE_ARG \<equiv> 1015"
abbreviation (input) ERROR_TDNF_PROTECTED :: errcode where "ERROR_TDNF_PROTECTED \<equiv> 1030"
abbreviation (input) ERROR_TDNF_INSTALLONLY_LIMIT_EXCEEDED :: errcode where
  "ERROR_TDNF_INSTALLONLY_LIMIT_EXCEEDED \<equiv> 1530"

datatype trans_type = SOLVER_TRANSACTION_IGNORE | SOLVER_TRANSACTION_ERASE | SOLVER_TRANSACTION_INSTALL
  | SOLVER_TRANSACTION_REINSTALL | SOLVER_TRANSACTION_DOWNGRADE | SOLVER_TRANSACTION_CHANGE
  | SOLVER_TRANSACTION_UPGRADE | SOLVER_TRANSACTION_OBSOLETED | SOLVER_TRANSACTION_MULTIINSTALL
  | SOLVER_TRANSACTION_OTHER

text \<open>\<open>SHOW_ACTIVE_ALL\<close> is SOLVER_TRANSACTION_SHOW_ACTIVE|SOLVER_TRANSACTION_SHOW_ALL.\<close>

datatype trans_mode = SHOW_ACTIVE_ALL | SHOW_OBSOLETES | SHOW_MULTIINSTALL

record transaction =
  tn_steps :: "nat list"
  tn_type :: "nat \<Rightarrow> trans_mode \<Rightarrow> trans_type"

definition SolvAddUpgradeAllJob :: "job list \<Rightarrow> job list" where
  "SolvAddUpgradeAllJob jobs = jobs @ [(SOLVER_UPDATE OR SOLVER_SOLVABLE_ALL, 0)]"

definition SolvAddDistUpgradeJob :: "job list \<Rightarrow> job list" where
  "SolvAddDistUpgradeJob jobs = jobs @ [(SOLVER_DISTUPGRADE OR SOLVER_SOLVABLE_ALL, 0)]"

definition SolvAddFlagsToJobs :: "32 word \<Rightarrow> job list \<Rightarrow> job list" where
  "SolvAddFlagsToJobs nFlags jobs = map (\<lambda>(how, what). (how OR nFlags, what)) jobs"

definition SolvAddPkgInstallJob :: "job list \<Rightarrow> nat \<Rightarrow> job list" where
  "SolvAddPkgInstallJob jobs dwId = jobs @ [(SOLVER_SOLVABLE OR SOLVER_INSTALL, dwId)]"

definition SolvAddPkgDowngradeJob :: "job list \<Rightarrow> nat \<Rightarrow> job list" where
  "SolvAddPkgDowngradeJob jobs dwId = jobs @ [(SOLVER_SOLVABLE OR SOLVER_INSTALL, dwId)]"

definition SolvAddPkgEraseJob :: "job list \<Rightarrow> nat \<Rightarrow> job list" where
  "SolvAddPkgEraseJob jobs dwId = jobs @ [(SOLVER_SOLVABLE OR SOLVER_ERASE, dwId)]"

text \<open>The jobs pushed before an error stay in the queue: the error code, and the jobs.\<close>

fun add_user_installed :: "pool \<Rightarrow> nat list \<Rightarrow> job list \<Rightarrow> (history_ctx, errcode \<times> job list) prog" where
  "add_user_installed pool [] jobs = returnP (0, jobs)"
| "add_user_installed pool (p # ps) jobs =
     bindP (catch_error (history_call (history_get_auto_flag (Some (name_of pool p))))) (\<lambda>r. case r of
       Inl e \<Rightarrow> returnP (e, jobs)
     | Inr nFlag \<Rightarrow> add_user_installed pool ps
         (if nFlag = 0 then jobs @ [(SOLVER_SOLVABLE OR SOLVER_USERINSTALLED, p)] else jobs))"

definition SolvAddUserInstalledToJobs :: "pool \<Rightarrow> job list \<Rightarrow> (history_ctx, errcode \<times> job list) prog" where
  "SolvAddUserInstalledToJobs pool jobs = add_user_installed pool (installed_solvables pool) jobs"

section \<open>Locks and several versions\<close>

text \<open>One job for every name of a list that an installed package has.\<close>

definition jobs_for_installed :: "pool \<Rightarrow> 32 word \<Rightarrow> string list option \<Rightarrow> job list" where
  "jobs_for_installed pool how names = concat (map (\<lambda>pszPkg.
     let idPkg = pool_str2id pool pszPkg True
     in if idPkg \<noteq> 0 \<and> list_ex (\<lambda>p. idPkg = sv_name (pool_id2solvable pool p)) (installed_solvables pool)
        then [(how, idPkg)] else []) (case names of None \<Rightarrow> [] | Some l \<Rightarrow> l))"

definition TDNFSolvAddPkgLocks :: "tdnf_conf \<Rightarrow> pool \<Rightarrow> job list \<Rightarrow> job list" where
  "TDNFSolvAddPkgLocks conf pool jobs =
     jobs @ jobs_for_installed pool (SOLVER_SOLVABLE_NAME OR SOLVER_LOCK) (cf_ppszPkgLocks conf)"

definition TDNFSolvAddInstallOnlyPkgs :: "tdnf_conf \<Rightarrow> pool \<Rightarrow> job list \<Rightarrow> job list" where
  "TDNFSolvAddInstallOnlyPkgs conf pool jobs =
     jobs @ jobs_for_installed pool (SOLVER_SOLVABLE_NAME OR SOLVER_MULTIVERSION) (cf_ppszInstallOnlyPkgs conf)"

section \<open>The limit of versions\<close>

text \<open>The steps of a transaction that change how many packages have a name.\<close>

fun count_steps :: "pool \<Rightarrow> transaction \<Rightarrow> nat \<Rightarrow> nat list \<Rightarrow> int \<times> nat list \<Rightarrow> int \<times> nat list" where
  "count_steps pool tr idName [] (n, removed) = (n, removed)"
| "count_steps pool tr idName (p # ps) (n, removed) =
     count_steps pool tr idName ps
       (if idName = sv_name (pool_id2solvable pool p)
        then (case tn_type tr p SHOW_MULTIINSTALL of
                SOLVER_TRANSACTION_MULTIINSTALL \<Rightarrow> (n + 1, removed)
              | SOLVER_TRANSACTION_ERASE \<Rightarrow> (n - 1, p # removed)
              | _ \<Rightarrow> (n, removed))
        else (n, removed))"

fun erase_oldest ::
    "pool \<Rightarrow> nat \<Rightarrow> int \<Rightarrow> nat list \<Rightarrow> int \<Rightarrow> nat list \<times> job list \<Rightarrow> nat list \<times> job list" where
  "erase_oldest pool idName nLimit [] n (removed, jobs) = (removed, jobs)"
| "erase_oldest pool idName nLimit (p # ps) n (removed, jobs) =
     (if idName = sv_name (pool_id2solvable pool p) \<and> p \<notin> set removed
      then let st = (p # removed, jobs @ [(SOLVER_SOLVABLE OR SOLVER_ERASE, p)])
        in if n - 1 \<le> nLimit then st else erase_oldest pool idName nLimit ps (n - 1) st
      else erase_oldest pool idName nLimit ps n (removed, jobs))"

definition installed_named :: "pool \<Rightarrow> nat \<Rightarrow> nat list" where
  "installed_named pool idName =
     filter (\<lambda>p. idName = sv_name (pool_id2solvable pool p)) (installed_solvables pool)"

text \<open>The loop over the names: whether a limit is exceeded, what is being removed, the jobs.\<close>

fun limit_names ::
    "pool \<Rightarrow> transaction \<Rightarrow> int \<Rightarrow> string list \<Rightarrow> bool \<times> nat list \<times> job list \<Rightarrow> bool \<times> nat list \<times> job list" where
  "limit_names pool tr nLimit [] st = st"
| "limit_names pool tr nLimit (pszPkg # names) (exceeded, removed, jobs) =
     (let idName = pool_str2id pool pszPkg True;
          n0 = (if idName \<noteq> 0 then int (length (installed_named pool idName)) else 0)
      in case count_steps pool tr idName (tn_steps tr) (n0, removed) of (n, removed) \<Rightarrow>
           limit_names pool tr nLimit names
             (if n > nLimit then (True, erase_oldest pool idName nLimit (installed_solvables pool) n (removed, jobs))
              else (exceeded, removed, jobs)))"

text \<open>The error code and the jobs, which the caller uses in either case.\<close>

definition TDNFSolvCheckInstallOnlyLimitInTrans ::
    "tdnf_conf \<Rightarrow> pool \<Rightarrow> transaction \<Rightarrow> job list \<Rightarrow> errcode \<times> job list" where
  "TDNFSolvCheckInstallOnlyLimitInTrans conf pool tr jobs =
     (case limit_names pool tr (cf_nInstallOnlyLimit conf)
             (case cf_ppszInstallOnlyPkgs conf of None \<Rightarrow> [] | Some l \<Rightarrow> l) (False, [], jobs) of
        (exceeded, _, jobs) \<Rightarrow> (if exceeded then ERROR_TDNF_INSTALLONLY_LIMIT_EXCEEDED else 0, jobs))"

section \<open>Minimum versions\<close>

text \<open>The packages that an entry \<open>name=version\<close> rules out.\<close>

definition below_min :: "pool \<Rightarrow> string \<Rightarrow> nat list result" where
  "below_min pool pszPkg = bail (TDNFSplitStringToArray (Some pszPkg) (Some ''='')) (\<lambda>tokens.
     Inr (case tokens of
            name # version # _ \<Rightarrow>
              filter (\<lambda>p. pl_evrcmp pool (evr_of pool p) version < 0) (pl_name_search pool False name)
          | _ \<Rightarrow> []))"

fun all_below_min :: "pool \<Rightarrow> string list \<Rightarrow> nat list result" where
  "all_below_min pool [] = Inr []"
| "all_below_min pool (s # ss) =
     bail (TDNFAllocateString (Some s)) (\<lambda>s. bail (below_min pool s) (\<lambda>ps.
     bail (all_below_min pool ss) (\<lambda>rest. Inr (ps @ rest))))"

definition TDNFSolvAddMinVersions :: "tdnf_conf \<Rightarrow> pool \<Rightarrow> pool result" where
  "TDNFSolvAddMinVersions conf pool = (case cf_ppszMinVersions conf of
     None \<Rightarrow> Inr pool
   | Some entries \<Rightarrow> bail (all_below_min pool entries) (\<lambda>ps. Inr (map_subtract ps pool)))"

section \<open>Protected packages\<close>

definition protected_ids :: "pool \<Rightarrow> string list \<Rightarrow> nat list" where
  "protected_ids pool names = filter (\<lambda>i. i \<noteq> 0) (map (\<lambda>s. pool_str2id pool s True) names)"

definition job_is :: "32 word \<Rightarrow> job \<Rightarrow> bool" where
  "job_is action job \<longleftrightarrow> fst job AND SOLVER_JOBMASK = action \<and> fst job AND SOLVER_SOLVABLE \<noteq> 0"

definition erases_protected :: "pool \<Rightarrow> nat list \<Rightarrow> job list \<Rightarrow> nat \<Rightarrow> bool" where
  "erases_protected pool qPkgs jobs j \<longleftrightarrow>
     (let name = sv_name (pool_id2solvable pool (snd (jobs ! j)))
      in job_is SOLVER_ERASE (jobs ! j) \<and> name \<in> set qPkgs
         \<and> \<not> list_ex (\<lambda>i. i \<noteq> j \<and> job_is SOLVER_INSTALL (jobs ! i)
                \<and> sv_name (pool_id2solvable pool (snd (jobs ! i))) = name) [0..<length jobs])"

definition TDNFSolvAddProtectPkgs :: "string list \<Rightarrow> pool \<Rightarrow> job list \<Rightarrow> job list result" where
  "TDNFSolvAddProtectPkgs ppszProtectedPkgs pool jobs =
     (let qPkgs = protected_ids pool ppszProtectedPkgs
      in if list_ex (erases_protected pool qPkgs jobs) [0..<length jobs] then Inl ERROR_TDNF_PROTECTED
         else Inr (jobs @ map (\<lambda>p. (SOLVER_SOLVABLE OR
             (if sv_name (pool_id2solvable pool p) \<in> set qPkgs then SOLVER_USERINSTALLED else SOLVER_ALLOWUNINSTALL), p))
           (installed_solvables pool)))"

text \<open>What becomes of a package in a transaction: obsoleted, or the type shown among all.\<close>

definition step_type :: "transaction \<Rightarrow> nat \<Rightarrow> trans_type" where
  "step_type tr p = (if tn_type tr p SHOW_OBSOLETES = SOLVER_TRANSACTION_OBSOLETED then SOLVER_TRANSACTION_OBSOLETED
     else tn_type tr p SHOW_ACTIVE_ALL)"

definition removes :: "transaction \<Rightarrow> nat \<Rightarrow> bool" where
  "removes tr p \<longleftrightarrow> step_type tr p = SOLVER_TRANSACTION_OBSOLETED \<or> step_type tr p = SOLVER_TRANSACTION_ERASE"

definition TDNFSolvCheckProtectPkgsInTrans :: "string list \<Rightarrow> pool \<Rightarrow> transaction \<Rightarrow> errcode" where
  "TDNFSolvCheckProtectPkgsInTrans ppszProtectedPkgs pool tr =
     (let qPkgs = protected_ids pool ppszProtectedPkgs
      in if list_ex (\<lambda>p. removes tr p \<and> sv_name (pool_id2solvable pool p) \<in> set qPkgs) (tn_steps tr)
         then ERROR_TDNF_PROTECTED else 0)"

section \<open>The job of a package\<close>

datatype alter_type = ALTER_AUTOERASE | ALTER_AUTOERASEALL | ALTER_DOWNGRADE | ALTER_DOWNGRADEALL | ALTER_ERASE
  | ALTER_INSTALL | ALTER_REINSTALL | ALTER_UPGRADE | ALTER_UPGRADEALL | ALTER_DISTRO_SYNC | ALTER_OBSOLETED

definition excluded :: "(string \<Rightarrow> string \<Rightarrow> bool) \<Rightarrow> string list \<Rightarrow> string \<Rightarrow> bool" where
  "excluded fnmatch excludes name \<longleftrightarrow>
     list_ex (\<lambda>e. if SolvIsGlob e then fnmatch e name else name = e) excludes"

text \<open>The job that is added for a package, if it is not excluded.\<close>

definition TDNFAddGoal :: "(string \<Rightarrow> string \<Rightarrow> bool) \<Rightarrow> pool \<Rightarrow> alter_type \<Rightarrow> string list \<Rightarrow> nat \<Rightarrow>
    job list \<Rightarrow> job list result" where
  "TDNFAddGoal fnmatch pool nAlterType excludes dwId jobs =
     (if dwId = 0 then Inl ERROR_TDNF_INVALID_PARAMETER
      else bail (if excludes \<noteq> [] then bail (SolvGetPkgNameFromId pool dwId) (\<lambda>name. Inr (excluded fnmatch excludes name))
                 else Inr False) (\<lambda>skip.
        if skip then Inr jobs
        else case nAlterType of
               ALTER_DOWNGRADEALL \<Rightarrow> Inr (SolvAddPkgDowngradeJob jobs dwId)
             | ALTER_DOWNGRADE \<Rightarrow> Inr (SolvAddPkgDowngradeJob jobs dwId)
             | ALTER_ERASE \<Rightarrow> Inr (SolvAddPkgEraseJob jobs dwId)
             | ALTER_AUTOERASE \<Rightarrow> Inr (SolvAddPkgEraseJob jobs dwId)
             | ALTER_AUTOERASEALL \<Rightarrow> Inr (SolvAddPkgEraseJob jobs dwId)
             | ALTER_REINSTALL \<Rightarrow> Inr (SolvAddPkgInstallJob jobs dwId)
             | ALTER_INSTALL \<Rightarrow> Inr (SolvAddPkgInstallJob jobs dwId)
             | ALTER_UPGRADE \<Rightarrow> Inr (SolvAddPkgInstallJob jobs dwId)
             | _ \<Rightarrow> Inl ERROR_TDNF_INVALID_RESOLVE_ARG))"


section \<open>The limit is kept\<close>

definition named :: "pool \<Rightarrow> nat \<Rightarrow> nat \<Rightarrow> bool" where
  "named pool idName p \<longleftrightarrow> idName = sv_name (pool_id2solvable pool p)"

definition erased_by :: "transaction \<Rightarrow> nat \<Rightarrow> bool" where
  "erased_by tr p \<longleftrightarrow> p \<in> set (tn_steps tr) \<and> tn_type tr p SHOW_MULTIINSTALL = SOLVER_TRANSACTION_ERASE"

text \<open>How many packages of a name there are after a transaction.\<close>

definition count_after :: "pool \<Rightarrow> transaction \<Rightarrow> string \<Rightarrow> int" where
  "count_after pool tr name =
     (let i = pl_str2id pool name;
          steps = (\<lambda>t. int (length (filter (\<lambda>p. named pool i p \<and> tn_type tr p SHOW_MULTIINSTALL = t) (tn_steps tr))))
      in (if i \<noteq> 0 then int (length (installed_named pool i)) else 0)
           + steps SOLVER_TRANSACTION_MULTIINSTALL - steps SOLVER_TRANSACTION_ERASE)"

text \<open>The packages that have to go in addition: the oldest ones that stay.\<close>

definition kept :: "pool \<Rightarrow> transaction \<Rightarrow> string \<Rightarrow> nat list" where
  "kept pool tr name = filter (\<lambda>p. \<not> erased_by tr p) (installed_named pool (pl_str2id pool name))"

definition surplus :: "tdnf_conf \<Rightarrow> pool \<Rightarrow> transaction \<Rightarrow> string \<Rightarrow> nat list" where
  "surplus conf pool tr name = take (nat (count_after pool tr name - cf_nInstallOnlyLimit conf)) (kept pool tr name)"

lemma count_steps_eq:
  "count_steps pool tr i ps (n, removed) =
     (n + int (length (filter (\<lambda>p. named pool i p \<and> tn_type tr p SHOW_MULTIINSTALL = SOLVER_TRANSACTION_MULTIINSTALL) ps))
        - int (length (filter (\<lambda>p. named pool i p \<and> tn_type tr p SHOW_MULTIINSTALL = SOLVER_TRANSACTION_ERASE) ps)),
      rev (filter (\<lambda>p. named pool i p \<and> tn_type tr p SHOW_MULTIINSTALL = SOLVER_TRANSACTION_ERASE) ps) @ removed)"
proof (induction ps arbitrary: n removed)
  case (Cons p ps)
  show ?case
    using Cons [of "if tn_type tr p SHOW_MULTIINSTALL = SOLVER_TRANSACTION_MULTIINSTALL then n + 1
        else if tn_type tr p SHOW_MULTIINSTALL = SOLVER_TRANSACTION_ERASE then n - 1 else n"
      "if tn_type tr p SHOW_MULTIINSTALL = SOLVER_TRANSACTION_ERASE then p # removed else removed"] Cons [of n removed]
    by (cases "named pool i p"; cases "tn_type tr p SHOW_MULTIINSTALL") (simp_all add: named_def [symmetric])
qed simp

lemma erase_oldest_eq:
  assumes "distinct ps" and "n > nLimit"
  shows "erase_oldest pool i nLimit ps n (removed, jobs) =
     (let new = take (nat (n - nLimit)) (filter (\<lambda>p. named pool i p \<and> p \<notin> set removed) ps)
      in (rev new @ removed, jobs @ map (\<lambda>p. (SOLVER_SOLVABLE OR SOLVER_ERASE, p)) new))"
  using assms
proof (induction ps arbitrary: n removed jobs)
  case (Cons p ps)
  have same: "filter (\<lambda>q. named pool i q \<and> q \<notin> set (p # removed)) ps = filter (\<lambda>q. named pool i q \<and> q \<notin> set removed) ps"
    using Cons.prems(1) by (intro filter_cong) auto
  show ?case
  proof (cases "named pool i p \<and> p \<notin> set removed")
    case True
    show ?thesis
    proof (cases "n - 1 \<le> nLimit")
      case True
      then have "nat (n - nLimit) = Suc 0" using Cons.prems(2) by simp
      then show ?thesis using \<open>named pool i p \<and> p \<notin> set removed\<close> True by (simp add: named_def Let_def)
    next
      case False
      then have "nat (n - nLimit) = Suc (nat (n - 1 - nLimit))" by simp
      then show ?thesis
        using \<open>named pool i p \<and> p \<notin> set removed\<close> False Cons.prems same
          Cons.IH [of "n - 1" "p # removed" "jobs @ [(SOLVER_SOLVABLE OR SOLVER_ERASE, p)]"]
        by (simp add: named_def Let_def)
    qed
  next
    case False
    then show ?thesis using Cons by (auto simp: named_def Let_def)
  qed
qed (simp add: Let_def)

text \<open>What is being removed when a name comes up: of its packages, those that the transaction erases.\<close>

definition marks_only :: "pool \<Rightarrow> transaction \<Rightarrow> nat \<Rightarrow> nat list \<Rightarrow> bool" where
  "marks_only pool tr i removed \<longleftrightarrow> (\<forall>p \<in> set removed. \<not> named pool i p)"

lemma limit_names_eq:
  assumes "distinct (map (pl_str2id pool) names)" and "distinct (pl_ids pool)"
    and "\<And>name. name \<in> set names \<Longrightarrow> marks_only pool tr (pl_str2id pool name) removed"
  shows "\<exists>removed'. limit_names pool tr (cf_nInstallOnlyLimit conf) names (exceeded, removed, jobs) =
     (exceeded \<or> (\<exists>name \<in> set names. count_after pool tr name > cf_nInstallOnlyLimit conf), removed',
      jobs @ map (\<lambda>p. (SOLVER_SOLVABLE OR SOLVER_ERASE, p)) (concat (map (surplus conf pool tr) names)))"
  using assms(1,3)
proof (induction names arbitrary: exceeded removed jobs)
  case (Cons name names)
  define i where "i = pl_str2id pool name"
  define lim where "lim = cf_nInstallOnlyLimit conf"
  define r1 where "r1 = rev (filter (\<lambda>p. named pool i p \<and> tn_type tr p SHOW_MULTIINSTALL = SOLVER_TRANSACTION_ERASE)
      (tn_steps tr)) @ removed"
  define new where "new = take (nat (count_after pool tr name - lim)) (filter (\<lambda>p. named pool i p \<and> p \<notin> set r1)
      (installed_solvables pool))"
  have dist: "distinct (installed_solvables pool)"
    using assms(2) by (simp add: installed_solvables_def repo_solvables_def)
  have m: "marks_only pool tr i removed" using Cons.prems(2) by (simp add: i_def)
  have kept: "filter (\<lambda>p. named pool i p \<and> p \<notin> set r1) (installed_solvables pool) = kept pool tr name"
    unfolding kept_def installed_named_def i_def [symmetric] filter_filter
    using m by (intro filter_cong) (auto simp: r1_def erased_by_def marks_only_def named_def)
  have new: "new = surplus conf pool tr name" by (simp add: new_def kept surplus_def lim_def)
  have steps: "count_steps pool tr i (tn_steps tr) (if i \<noteq> 0 then int (length (installed_named pool i)) else 0, removed)
      = (count_after pool tr name, r1)"
    by (simp add: count_steps_eq count_after_def r1_def i_def Let_def)
  have other: "marks_only pool tr (pl_str2id pool nm) r1" "marks_only pool tr (pl_str2id pool nm) (rev new @ r1)"
    if "nm \<in> set names" for nm
  proof -
    have ne: "pl_str2id pool nm \<noteq> i" using that Cons.prems(1) by (force simp: i_def)
    have "marks_only pool tr (pl_str2id pool nm) removed" using Cons.prems(2) that by simp
    then show a: "marks_only pool tr (pl_str2id pool nm) r1"
      using ne by (auto simp: marks_only_def r1_def named_def)
    have "\<forall>p \<in> set new. named pool i p" by (auto simp: new_def dest: in_set_takeD)
    then show "marks_only pool tr (pl_str2id pool nm) (rev new @ r1)"
      using a ne by (auto simp: marks_only_def named_def)
  qed
  define st where "st = (if count_after pool tr name > lim
      then (True, rev new @ r1, jobs @ map (\<lambda>p. (SOLVER_SOLVABLE OR SOLVER_ERASE, p)) new) else (exceeded, r1, jobs))"
  have run: "limit_names pool tr lim (name # names) (exceeded, removed, jobs) = limit_names pool tr lim names st"
    using erase_oldest_eq [OF dist, of lim "count_after pool tr name" pool i r1 jobs] steps
    by (cases "i = 0") (simp_all add: pool_str2id_def i_def [symmetric] st_def new_def Let_def)
  have none: "new = []" if "\<not> count_after pool tr name > lim" using that by (simp add: new_def)
  show ?case
  proof (cases "count_after pool tr name > lim")
    case True
    then show ?thesis
      using Cons.IH [of "rev new @ r1" True "jobs @ map (\<lambda>p. (SOLVER_SOLVABLE OR SOLVER_ERASE, p)) new"] other Cons.prems(1) run
      by (simp add: st_def lim_def new)
  next
    case False
    then show ?thesis
      using Cons.IH [of r1 exceeded jobs] other Cons.prems(1) run none by (auto simp: st_def lim_def new)
  qed
qed simp



definition sample_limit :: tdnf_conf where
  "sample_limit = conf_defaults\<lparr>cf_ppszInstallOnlyPkgs := Some [''foo''], cf_ppszProtectedPkgs := Some [''bar'']\<rparr>"

text \<open>A third \<^verbatim>\<open>foo\<close> is installed beside the other two.\<close>

definition sample_trans :: transaction where
  "sample_trans = \<lparr>tn_steps = [4], tn_type = (\<lambda>p m. case m of
     SHOW_MULTIINSTALL \<Rightarrow> SOLVER_TRANSACTION_MULTIINSTALL | _ \<Rightarrow> SOLVER_TRANSACTION_INSTALL)\<rparr>"


section \<open>Protected packages stay\<close>

text \<open>What tdnf relies on from the pool: equal strings have equal ids, and the name of a package has one.\<close>

definition names_ok :: "pool \<Rightarrow> bool" where
  "names_ok pool \<longleftrightarrow> (\<forall>p \<in> set (pl_ids pool). sv_name (pl_solvable pool p) \<noteq> 0
     \<and> pl_str2id pool (name_of pool p) = sv_name (pl_solvable pool p))"

lemma protected_id: "names_ok pool \<Longrightarrow> p \<in> set (pl_ids pool) \<Longrightarrow> name_of pool p \<in> set names \<Longrightarrow>
    sv_name (pl_solvable pool p) \<in> set (protected_ids pool names)"
  by (force simp: protected_ids_def names_ok_def pool_str2id_def)

lemma CheckProtect_ok:
  assumes "names_ok pool" and "TDNFSolvCheckProtectPkgsInTrans names pool tr = 0" and "p \<in> set (tn_steps tr)"
    and "p \<in> set (pl_ids pool)" and "removes tr p"
  shows "name_of pool p \<notin> set names"
  using assms protected_id [OF assms(1,4), of names]
  by (auto simp: TDNFSolvCheckProtectPkgsInTrans_def list_ex_iff pool_id2solvable_def Let_def split: if_splits)

end
