(* ===== verification/Goal_Solve.thy ===== *)
theory Goal_Solve
  imports Goal_Jobs Tdnf_Options Tdnf_Values
begin

text \<open>
  From the packages of a command to a solved transaction (\<^verbatim>\<open>client/goal.c\<close>, \<^verbatim>\<open>client/client.c\<close>,
  \<^verbatim>\<open>client/history.c\<close>, the lists of packages of \<^verbatim>\<open>client/packageutils.c\<close>): the excludes, the jobs, the runs of the
  solver, the lists of what is installed and removed, and the flags recorded afterwards. The world is the
  pool and the file of the history database; the solver is a function of the pool, of whether it may erase,
  and of the jobs.
\<close>

section \<open>The environment\<close>

record goal_args =
  ga_nBest :: bool
  ga_nAllowErasing :: bool
  ga_nNoAutoRemove :: bool
  ga_nDisableExcludes :: bool
  ga_nSkipBroken :: bool
  ga_nSource :: bool
  ga_pSetOpt :: "cmd_opt list"
  ga_ppszCmds :: "string list"

record goal_env =
  ge_args :: goal_args
  ge_conf :: tdnf_conf
  ge_fnmatch :: "string \<Rightarrow> string \<Rightarrow> bool"
  ge_solve :: "pool \<Rightarrow> bool \<Rightarrow> job list \<Rightarrow> problem list \<times> transaction option"

record world =
  wd_pool :: pool
  wd_db :: "conn option"

abbreviation (input) ERROR_TDNF_HISTORY_NODB :: errcode where "ERROR_TDNF_HISTORY_NODB \<equiv> 1802"
abbreviation (input) ERROR_TDNF_ALREADY_INSTALLED :: errcode where "ERROR_TDNF_ALREADY_INSTALLED \<equiv> 1026"

section \<open>The history database\<close>

text \<open>\<^verbatim>\<open>TDNFGetHistoryCtx\<close> for the one database file of an installation root.\<close>

definition history_ctx_of :: "bool \<Rightarrow> conn option \<Rightarrow> history_ctx result" where
  "history_ctx_of nMustExist db =
     (if nMustExist \<and> db = None then Inl ERROR_TDNF_HISTORY_NODB
      else case create_history_ctx (case db of None \<Rightarrow> empty_conn | Some c \<Rightarrow> c) of
             None \<Rightarrow> Inl ERROR_TDNF_HISTORY_ERROR | Some ctx \<Rightarrow> Inr ctx)"

definition TDNFGetHistoryCtx :: "bool \<Rightarrow> ('z world_scheme, history_ctx) prog" where
  "TDNFGetHistoryCtx nMustExist w = Some (history_ctx_of nMustExist (wd_db w), w)"

text \<open>Closing a connection gives up what is not committed.\<close>

definition close_conn :: "conn \<Rightarrow> conn" where
  "close_conn c = c\<lparr>cur := durable c, saved := None\<rparr>"

definition with_history :: "bool \<Rightarrow> (history_ctx, 'a) prog \<Rightarrow> ('z world_scheme, 'a) prog" where
  "with_history nMustExist m = bindP (TDNFGetHistoryCtx nMustExist) (\<lambda>ctx w. case m ctx of
     None \<Rightarrow> None | Some (r, ctx) \<Rightarrow> Some (r, w\<lparr>wd_db := Some (close_conn (h_db ctx))\<rparr>))"

section \<open>Options\<close>

text \<open>The count, in which configured excludes count twice, and the excludes.\<close>

fun copy_excludes :: "cmd_opt list \<Rightarrow> string list result" where
  "copy_excludes [] = Inr []"
| "copy_excludes ((name, v) # opts) =
     (if strcaseeq name ''exclude''
      then bail (TDNFAllocateString v) (\<lambda>s. bail (copy_excludes opts) (\<lambda>ss. Inr (s # ss)))
      else copy_excludes opts)"

definition TDNFPkgsToExclude :: "goal_env \<Rightarrow> (nat \<times> string list) result" where
  "TDNFPkgsToExclude env =
     (let conf = (if ga_nDisableExcludes (ge_args env) then [] else case cf_ppszExcludes (ge_conf env) of
            None \<Rightarrow> [] | Some l \<Rightarrow> l);
          opts = ga_pSetOpt (ge_args env);
          dwCount = length conf + length (filter (\<lambda>o'. strcaseeq (fst o') ''exclude'') opts)
      in if dwCount = 0 then Inr (0, [])
         else bail (copy_names conf) (\<lambda>cs. bail (copy_excludes opts) (\<lambda>es.
           Inr (dwCount + length conf, cs @ es))))"

fun skip_options :: "cmd_opt list \<Rightarrow> 32 word \<Rightarrow> 32 word" where
  "skip_options [] skip = skip"
| "skip_options ((name, _) # opts) skip =
     skip_options opts (let s = (if strcaseeq name ''skipconflicts'' then skip OR SKIPPROBLEM_CONFLICTS else skip)
       in if strcaseeq name ''skipobsoletes'' then s OR SKIPPROBLEM_OBSOLETES else s)"

definition TDNFGetSkipProblemOption :: "goal_args \<Rightarrow> 32 word" where
  "TDNFGetSkipProblemOption args =
     (let s = skip_options (ga_pSetOpt args) SKIPPROBLEM_NONE
      in if ga_nSkipBroken args then s OR SKIPPROBLEM_BROKEN else s)"

section \<open>Lists of packages\<close>

text \<open>\<^verbatim>\<open>TDNF_PKG_INFO\<close>, but for the formatted sizes and what only queries fill in.\<close>

record pkg_info =
  pi_dwEpoch :: "32 word"
  pi_pszName :: string
  pi_pszVersion :: "string option"
  pi_pszRelease :: "string option"
  pi_pszArch :: string
  pi_pszEVR :: string
  pi_pszRepoName :: string
  pi_pszSummary :: string
  pi_pszLocation :: "string option"
  pi_checksum :: "(nat \<times> nat list) option"
  pi_dwInstallSizeBytes :: "32 word"
  pi_dwDownloadSizeBytes :: "32 word"

text \<open>Name, architecture, version, and the parts of the version with the epoch as a number.\<close>

definition SolvGetNevraFromId ::
    "pool \<Rightarrow> nat \<Rightarrow> (32 word \<times> string \<times> string option \<times> string option \<times> string \<times> string) result" where
  "SolvGetNevraFromId pool p =
     bail (TDNFAllocateString (Some (name_of pool p))) (\<lambda>name.
     bail (TDNFAllocateString (Some (pl_id2str pool (sv_arch (pl_solvable pool p))))) (\<lambda>arch.
     bail (TDNFAllocateString (Some (evr_of pool p))) (\<lambda>evr.
     bail (SolvSplitEvr (Some (evr_of pool p))) (\<lambda>(epoch, version, release).
       Inr (case epoch of None \<Rightarrow> 0 | Some e \<Rightarrow> word_of_int (fst (strtol10 e)), name, version, release, arch, evr)))))"

definition SolvGetPkgRepoNameFromId :: "pool \<Rightarrow> nat \<Rightarrow> string result" where
  "SolvGetPkgRepoNameFromId pool p = (case map_of (pl_repos pool) (sv_repo (pl_solvable pool p)) of
     None \<Rightarrow> Inl ERROR_TDNF_NO_DATA | Some name \<Rightarrow> TDNFAllocateString (Some name))"

definition SolvGetPkgSummaryFromId :: "pool \<Rightarrow> nat \<Rightarrow> string result" where
  "SolvGetPkgSummaryFromId pool p = (case sv_summary (pl_solvable pool p) of
     None \<Rightarrow> Inl ERROR_TDNF_NO_DATA | Some s \<Rightarrow> TDNFAllocateString (Some s))"

text \<open>Packages without a location are not an error.\<close>

definition SolvGetPkgLocationFromId :: "pool \<Rightarrow> nat \<Rightarrow> string option result" where
  "SolvGetPkgLocationFromId pool p = (case sv_location (pl_solvable pool p) of
     None \<Rightarrow> Inr None | Some s \<Rightarrow> bail (TDNFAllocateString (Some s)) (\<lambda>s. Inr (Some s)))"

definition pkg_info_of :: "pool \<Rightarrow> nat \<Rightarrow> pkg_info result" where
  "pkg_info_of pool p =
     bail (SolvGetNevraFromId pool p) (\<lambda>(epoch, name, version, release, arch, evr).
     bail (SolvGetPkgRepoNameFromId pool p) (\<lambda>repo.
     bail (SolvGetPkgSummaryFromId pool p) (\<lambda>summary.
     bail (SolvGetPkgLocationFromId pool p) (\<lambda>loc.
       Inr \<lparr>pi_dwEpoch = epoch, pi_pszName = name, pi_pszVersion = version, pi_pszRelease = release,
         pi_pszArch = arch, pi_pszEVR = evr, pi_pszRepoName = repo, pi_pszSummary = summary, pi_pszLocation = loc,
         pi_checksum = sv_checksum (pl_solvable pool p),
         pi_dwInstallSizeBytes = of_nat (sv_installsize (pl_solvable pool p)),
         pi_dwDownloadSizeBytes = of_nat (sv_downloadsize (pl_solvable pool p))\<rparr>))))"

text \<open>Every package is put in front of the list.\<close>

fun populate :: "pool \<Rightarrow> nat list \<Rightarrow> pkg_info list \<Rightarrow> pkg_info list result" where
  "populate pool [] infos = Inr infos"
| "populate pool (p # ps) infos = bail (pkg_info_of pool p) (\<lambda>info. populate pool ps (info # infos))"

definition TDNFPopulatePkgInfos :: "pool \<Rightarrow> nat list \<Rightarrow> pkg_info list result" where
  "TDNFPopulatePkgInfos pool ps = (if ps = [] then Inl ERROR_TDNF_NO_MATCH else populate pool ps [])"

definition SolvGetTransResultsWithType :: "transaction \<Rightarrow> trans_type \<Rightarrow> nat list result" where
  "SolvGetTransResultsWithType tr dwType =
     SolvQueueToPackageList (filter (\<lambda>p.
       let t = tn_type tr p (if dwType = SOLVER_TRANSACTION_OBSOLETED then SHOW_OBSOLETES else SHOW_ACTIVE_ALL)
       in dwType = t \<or> dwType = SOLVER_TRANSACTION_REINSTALL \<and> t = SOLVER_TRANSACTION_CHANGE) (tn_steps tr))"

text \<open>ERROR_TDNF_NO_DATA from anywhere below means an empty list.\<close>

definition TDNFGetPackagesWithSpecifiedType :: "pool \<Rightarrow> transaction \<Rightarrow> trans_type \<Rightarrow> pkg_info list result" where
  "TDNFGetPackagesWithSpecifiedType pool tr dwType =
     (case bail (SolvGetTransResultsWithType tr dwType) (TDNFPopulatePkgInfos pool) of
        Inl e \<Rightarrow> if e = ERROR_TDNF_NO_DATA then Inr [] else Inl e
      | Inr infos \<Rightarrow> Inr infos)"

fun first_installed :: "pool \<Rightarrow> pkg_info list \<Rightarrow> nat list result" where
  "first_installed pool [] = Inr []"
| "first_installed pool (info # infos) =
     bail (SolvFindInstalledPkgByName pool (Some (pi_pszName info))) (\<lambda>pkgs.
     bail (SolvGetPackageId pkgs 0) (\<lambda>p.
     bail (first_installed pool infos) (\<lambda>ps. Inr (p # ps))))"

text \<open>The packages to downgrade to, and those they replace.\<close>

definition TDNFGetDownGradePackages :: "pool \<Rightarrow> transaction \<Rightarrow> (pkg_info list \<times> pkg_info list) result" where
  "TDNFGetDownGradePackages pool tr =
     bail (TDNFGetPackagesWithSpecifiedType pool tr SOLVER_TRANSACTION_DOWNGRADE) (\<lambda>infos.
       if infos = [] then Inr ([], [])
       else case bail (first_installed pool infos) (TDNFPopulatePkgInfos pool) of
              Inl e \<Rightarrow> if e = ERROR_TDNF_NO_DATA then Inr (infos, []) else Inl e
            | Inr removed \<Rightarrow> Inr (infos, removed))"

record solved_pkg_info =
  nNeedAction :: bool
  nNeedDownload :: bool
  pPkgsToInstall :: "pkg_info list"
  pPkgsToDowngrade :: "pkg_info list"
  pPkgsToUpgrade :: "pkg_info list"
  pPkgsToRemove :: "pkg_info list"
  pPkgsToReinstall :: "pkg_info list"
  pPkgsObsoleted :: "pkg_info list"
  pPkgsRemovedByDowngrade :: "pkg_info list"
  ppszPkgsNotResolved :: "string list option"
  ppszPkgsUserInstall :: "string list option"

definition TDNFGoalGetAllResultsIgnoreNoData :: "pool \<Rightarrow> transaction \<Rightarrow> bool \<Rightarrow> solved_pkg_info result" where
  "TDNFGoalGetAllResultsIgnoreNoData pool tr nReInstall =
     bail (TDNFGetPackagesWithSpecifiedType pool tr SOLVER_TRANSACTION_INSTALL) (\<lambda>installs.
     bail (TDNFGetPackagesWithSpecifiedType pool tr SOLVER_TRANSACTION_UPGRADE) (\<lambda>upgrades.
     bail (TDNFGetDownGradePackages pool tr) (\<lambda>(downgrades, replaced).
     bail (TDNFGetPackagesWithSpecifiedType pool tr SOLVER_TRANSACTION_ERASE) (\<lambda>erased.
     bail (if nReInstall then TDNFGetPackagesWithSpecifiedType pool tr SOLVER_TRANSACTION_REINSTALL else Inr [])
       (\<lambda>reinstalls.
     bail (TDNFGetPackagesWithSpecifiedType pool tr SOLVER_TRANSACTION_OBSOLETED) (\<lambda>obsoleted.
       Inr \<lparr>nNeedAction = False, nNeedDownload = False, pPkgsToInstall = installs, pPkgsToDowngrade = downgrades,
         pPkgsToUpgrade = upgrades, pPkgsToRemove = erased, pPkgsToReinstall = reinstalls,
         pPkgsObsoleted = obsoleted, pPkgsRemovedByDowngrade = replaced, ppszPkgsNotResolved = None,
         ppszPkgsUserInstall = None\<rparr>))))))"

section \<open>Running the solver\<close>

text \<open>One run: whether the limit of versions is exceeded, the jobs for the next run, the transaction.\<close>

definition solve_round :: "goal_env \<Rightarrow> pool \<Rightarrow> bool \<Rightarrow> job list \<Rightarrow> (bool \<times> job list \<times> transaction) result option" where
  "solve_round env pool allow_uninstall jobs =
     (case ge_solve env pool allow_uninstall jobs of (problems, pTrans) \<Rightarrow>
        case (if problems \<noteq> [] then SolvReportProblems pool problems (TDNFGetSkipProblemOption (ge_args env))
              else Some 0) of
          None \<Rightarrow> None
        | Some e \<Rightarrow>
            if e \<noteq> 0 then Some (Inl e)
            else case pTrans of
              None \<Rightarrow> Some (Inl ERROR_TDNF_INVALID_PARAMETER)
            | Some tr \<Rightarrow>
                (let protected = (case cf_ppszProtectedPkgs (ge_conf env) of
                       None \<Rightarrow> 0 | Some names \<Rightarrow> TDNFSolvCheckProtectPkgsInTrans names pool tr)
                 in if protected \<noteq> 0 then Some (Inl protected)
                    else if cf_ppszInstallOnlyPkgs (ge_conf env) = None then Some (Inr (False, jobs, tr))
                    else case TDNFSolvCheckInstallOnlyLimitInTrans (ge_conf env) pool tr jobs of
                           (e, jobs') \<Rightarrow> Some (Inr (e \<noteq> 0, jobs', tr))))"

text \<open>The \<^verbatim>\<open>do\<close> loop ends after two runs.\<close>

definition solve_loop :: "goal_env \<Rightarrow> pool \<Rightarrow> bool \<Rightarrow> job list \<Rightarrow> transaction result option" where
  "solve_loop env pool allow_uninstall jobs =
     thenU (solve_round env pool allow_uninstall jobs) (\<lambda>(exceeded, jobs, tr).
       if \<not> exceeded then Some (Inr tr)
       else thenU (solve_round env pool allow_uninstall jobs) (\<lambda>(exceeded, _, tr).
         if exceeded then Some (Inl ERROR_TDNF_INSTALLONLY_LIMIT_EXCEEDED) else Some (Inr tr)))"

definition set_pool :: "pool \<Rightarrow> (world, unit) prog" where
  "set_pool pool w = Some (Inr (), w\<lparr>wd_pool := pool\<rparr>)"

definition get_pool :: "(world, pool) prog" where
  "get_pool w = Some (Inr (wd_pool w), w)"

text \<open>The jobs that allow erasing, and whether the flag SOLVER_FLAG_ALLOW_UNINSTALL is set.\<close>

definition erasing_jobs :: "tdnf_conf \<Rightarrow> pool \<Rightarrow> bool \<Rightarrow> job list \<Rightarrow> (job list \<times> bool) result" where
  "erasing_jobs conf pool nAllowErasing jobs =
     (if \<not> nAllowErasing then Inr (jobs, False)
      else case cf_ppszProtectedPkgs conf of
             None \<Rightarrow> Inr (jobs, True)
           | Some names \<Rightarrow> bail (TDNFSolvAddProtectPkgs names pool jobs) (\<lambda>jobs. Inr (jobs, False)))"

definition TDNFSolv :: "goal_env \<Rightarrow> job list \<Rightarrow> string list \<Rightarrow> bool \<Rightarrow> bool \<Rightarrow> bool \<Rightarrow> (world, solved_pkg_info) prog" where
  "TDNFSolv env jobs excludes nAllowErasing nAutoErase nReInstall =
     (let conf = ge_conf env;
          nFlags = (if ga_nBest (ge_args env) then SOLVER_FORCEBEST else 0)
                     OR (if nAutoErase then SOLVER_CLEANDEPS else 0);
          jobs = SolvAddFlagsToJobs nFlags jobs
      in bindP get_pool (\<lambda>pool.
         bindP (set_pool (if excludes \<noteq> [] then SolvAddExcludes excludes pool else pool)) (\<lambda>_.
         bindP get_pool (\<lambda>pool.
           let jobs = TDNFSolvAddPkgLocks conf pool (TDNFSolvAddInstallOnlyPkgs conf pool jobs)
           in bindP (liftR (TDNFSolvAddMinVersions conf pool)) (\<lambda>pool.
              bindP (set_pool pool) (\<lambda>_.
              bindP (liftR (erasing_jobs conf pool nAllowErasing jobs)) (\<lambda>(jobs, allow).
              bindP (liftU (solve_loop env pool allow jobs)) (\<lambda>tr.
                liftR (TDNFGoalGetAllResultsIgnoreNoData pool tr nReInstall)))))))))"

section \<open>Goals\<close>

fun add_user_install :: "pool \<Rightarrow> nat list \<Rightarrow> string list result" where
  "add_user_install pool [] = Inr []"
| "add_user_install pool (p # ps) =
     bail (SolvGetPkgNameFromId pool p) (\<lambda>name. bail (add_user_install pool ps) (\<lambda>names. Inr (name # names)))"

definition TDNFAddUserInstall :: "pool \<Rightarrow> nat list \<Rightarrow> solved_pkg_info \<Rightarrow> solved_pkg_info result" where
  "TDNFAddUserInstall pool ps info = bail (add_user_install pool ps) (\<lambda>names. Inr (info\<lparr>ppszPkgsUserInstall := Some names\<rparr>))"

text \<open>The jobs of \<^verbatim>\<open>TDNFGoal\<close>: an error for one package is ignored.\<close>

definition goal_jobs :: "goal_env \<Rightarrow> pool \<Rightarrow> alter_type \<Rightarrow> string list \<Rightarrow> nat list \<Rightarrow> job list result" where
  "goal_jobs env pool nAlterType excludes ps =
     (if nAlterType = ALTER_UPGRADEALL then Inr (SolvAddUpgradeAllJob [])
      else if nAlterType = ALTER_DISTRO_SYNC then Inr (SolvAddDistUpgradeJob [])
      else if ps = [] then Inl ERROR_TDNF_ALREADY_INSTALLED
      else Inr (fold (\<lambda>dwId jobs. case TDNFAddGoal (ge_fnmatch env) pool nAlterType excludes dwId jobs of
             Inl _ \<Rightarrow> jobs | Inr jobs \<Rightarrow> jobs) ps []))"

text \<open>\<^verbatim>\<open>TDNFAddUserInstalledToJobs\<close> returns an error code that \<^verbatim>\<open>TDNFGoal\<close> drops.\<close>

definition TDNFAddUserInstalledToJobs :: "pool \<Rightarrow> job list \<Rightarrow> (world, errcode \<times> job list) prog" where
  "TDNFAddUserInstalledToJobs pool jobs =
     bindP (catch_error (with_history True (SolvAddUserInstalledToJobs pool jobs))) (\<lambda>r.
       returnP (case r of Inl e \<Rightarrow> (e, jobs) | Inr res \<Rightarrow> res))"

definition TDNFGoal :: "goal_env \<Rightarrow> nat list \<Rightarrow> alter_type \<Rightarrow> (world, solved_pkg_info) prog" where
  "TDNFGoal env ps nAlterType =
     bindP (liftR (TDNFPkgsToExclude env)) (\<lambda>(_, excludes).
     bindP get_pool (\<lambda>pool.
     bindP (liftR (goal_jobs env pool nAlterType excludes ps)) (\<lambda>jobs.
       let nAllowErasing = ga_nAllowErasing (ge_args env) \<or>
             nAlterType \<in> set [ALTER_ERASE, ALTER_AUTOERASE, ALTER_AUTOERASEALL]
       in bindP (if nAllowErasing then TDNFAddUserInstalledToJobs pool jobs else returnP (0, jobs)) (\<lambda>(_, jobs).
          bindP (TDNFSolv env jobs excludes nAllowErasing
                   (cf_nCleanRequirementsOnRemove (ge_conf env) \<noteq> 0 \<and> \<not> ga_nNoAutoRemove (ge_args env)
                      \<or> nAlterType = ALTER_AUTOERASE)
                   (nAlterType = ALTER_REINSTALL
                      \<or> nAlterType = ALTER_DISTRO_SYNC \<and> cf_nDistroSyncReinstallChanged (ge_conf env) \<noteq> 0)) (\<lambda>info.
            if nAlterType = ALTER_INSTALL then liftR (TDNFAddUserInstall pool ps info) else returnP info)))))"

fun history_jobs :: "goal_env \<Rightarrow> pool \<Rightarrow> alter_type \<Rightarrow> string list \<Rightarrow> nat list \<Rightarrow> job list \<Rightarrow> job list result" where
  "history_jobs env pool nAlterType excludes [] jobs = Inr jobs"
| "history_jobs env pool nAlterType excludes (p # ps) jobs =
     bail (TDNFAddGoal (ge_fnmatch env) pool nAlterType excludes p jobs) (history_jobs env pool nAlterType excludes ps)"

definition TDNFHistoryGoal :: "goal_env \<Rightarrow> nat list \<Rightarrow> nat list \<Rightarrow> (world, solved_pkg_info) prog" where
  "TDNFHistoryGoal env qInstall qErase =
     bindP (liftR (TDNFPkgsToExclude env)) (\<lambda>(_, excludes).
     bindP get_pool (\<lambda>pool.
     bindP (liftR (history_jobs env pool ALTER_INSTALL excludes qInstall [])) (\<lambda>jobs.
     bindP (liftR (history_jobs env pool ALTER_ERASE excludes qErase jobs)) (\<lambda>jobs.
     bindP (TDNFSolv env jobs excludes True False False) (\<lambda>info.
       liftR (TDNFAddUserInstall pool qInstall info))))))"

definition TDNFGoalNoDeps :: "nat list \<Rightarrow> (world, solved_pkg_info) prog" where
  "TDNFGoalNoDeps ps =
     bindP get_pool (\<lambda>pool.
     bindP (liftR (bail (SolvQueueToPackageList ps) (TDNFPopulatePkgInfos pool))) (\<lambda>infos.
       returnP \<lparr>nNeedAction = False, nNeedDownload = False, pPkgsToInstall = infos, pPkgsToDowngrade = [],
         pPkgsToUpgrade = [], pPkgsToRemove = [], pPkgsToReinstall = [], pPkgsObsoleted = [],
         pPkgsRemovedByDowngrade = [], ppszPkgsNotResolved = None, ppszPkgsUserInstall = None\<rparr>))"

section \<open>Flags\<close>

definition TDNFMarkAutoInstalledSinglePkg :: "string \<Rightarrow> ('z world_scheme, unit) prog" where
  "TDNFMarkAutoInstalledSinglePkg pszPkgName =
     with_history True (history_call (history_set_auto_flag (Some pszPkgName) 0))"

fun mark_auto :: "string list \<Rightarrow> bool \<Rightarrow> string list \<Rightarrow> (history_ctx, unit) prog" where
  "mark_auto user nAutoOnly [] = returnP ()"
| "mark_auto user nAutoOnly (name # names) =
     (let nFlag = (if name \<in> set user then 0 else 1) :: int
      in bindP (if \<not> nAutoOnly \<or> nFlag = 1 then history_call (history_set_auto_flag (Some name) nFlag) else returnP ())
           (\<lambda>_. mark_auto user nAutoOnly names))"

definition TDNFMarkAutoInstalled :: "solved_pkg_info \<Rightarrow> bool \<Rightarrow> (history_ctx, unit) prog" where
  "TDNFMarkAutoInstalled info nAutoOnly =
     mark_auto (case ppszPkgsUserInstall info of None \<Rightarrow> [] | Some l \<Rightarrow> l) nAutoOnly
       (map pi_pszName (pPkgsToInstall info))"


section \<open>Protected packages stay installed\<close>

lemma alloc_same: "TDNFAllocateString (Some s) = Inr t \<Longrightarrow> t = s"
  by (simp add: TDNFAllocateString_def split: if_splits)

lemma pkg_info_name: "pkg_info_of pool p = Inr info \<Longrightarrow> pi_pszName info = name_of pool p"
  by (auto simp: pkg_info_of_def SolvGetNevraFromId_def bail_Inr_iff dest: alloc_same)

lemma populate_names:
  "populate pool ps acc = Inr infos \<Longrightarrow> map pi_pszName infos = rev (map (name_of pool) ps) @ map pi_pszName acc"
  by (induction ps arbitrary: acc) (auto simp: bail_Inr_iff dest!: pkg_info_name)

text \<open>The names in a list of packages are those of the steps of its type.\<close>

lemma packages_of_type:
  assumes "TDNFGetPackagesWithSpecifiedType pool tr t = Inr infos" and "n \<in> set (map pi_pszName infos)"
  obtains p where "p \<in> set (tn_steps tr)" "name_of pool p = n"
    "let u = tn_type tr p (if t = SOLVER_TRANSACTION_OBSOLETED then SHOW_OBSOLETES else SHOW_ACTIVE_ALL)
     in u = t \<or> t = SOLVER_TRANSACTION_REINSTALL \<and> u = SOLVER_TRANSACTION_CHANGE"
proof -
  have ne: "infos \<noteq> []" using assms(2) by auto
  then obtain ps where ps: "SolvGetTransResultsWithType tr t = Inr ps" "TDNFPopulatePkgInfos pool ps = Inr infos"
    using assms(1) by (auto simp: TDNFGetPackagesWithSpecifiedType_def bail_Inr_iff split: sum.splits if_splits)
  then have "map pi_pszName infos = rev (map (name_of pool) ps)"
    using populate_names [of pool ps "[]" infos] by (simp add: TDNFPopulatePkgInfos_def split: if_splits)
  then obtain p where "p \<in> set ps" "name_of pool p = n" using assms(2) by (metis image_iff list.set_map set_rev)
  then show thesis
    using that ps(1)
    by (auto simp: SolvGetTransResultsWithType_def SolvQueueToPackageList_def Let_def split: if_splits)
qed

lemma results_removed:
  assumes "TDNFGoalGetAllResultsIgnoreNoData pool tr nReInstall = Inr info"
    and "n \<in> set (map pi_pszName (pPkgsToRemove info @ pPkgsObsoleted info))"
  obtains p where "p \<in> set (tn_steps tr)" "removes tr p" "name_of pool p = n"
proof -
  have lists: "TDNFGetPackagesWithSpecifiedType pool tr SOLVER_TRANSACTION_ERASE = Inr (pPkgsToRemove info)"
    "TDNFGetPackagesWithSpecifiedType pool tr SOLVER_TRANSACTION_OBSOLETED = Inr (pPkgsObsoleted info)"
    using assms(1) by (auto simp: TDNFGoalGetAllResultsIgnoreNoData_def bail_Inr_iff split: prod.splits)
  from assms(2) consider "n \<in> set (map pi_pszName (pPkgsToRemove info))"
    | "n \<in> set (map pi_pszName (pPkgsObsoleted info))" by auto
  then show thesis
  proof cases
    case 1
    from packages_of_type [OF lists(1) this] obtain p where "p \<in> set (tn_steps tr)" "name_of pool p = n"
      "tn_type tr p SHOW_ACTIVE_ALL = SOLVER_TRANSACTION_ERASE" by (simp add: Let_def) blast
    then show thesis using that by (simp add: removes_def step_type_def)
  next
    case 2
    from packages_of_type [OF lists(2) this] obtain p where "p \<in> set (tn_steps tr)" "name_of pool p = n"
      "tn_type tr p SHOW_OBSOLETES = SOLVER_TRANSACTION_OBSOLETED" by (simp add: Let_def) blast
    then show thesis using that by (simp add: removes_def step_type_def)
  qed
qed

text \<open>The solver makes transactions of packages in the pool.\<close>

definition solver_ok :: "goal_env \<Rightarrow> bool" where
  "solver_ok env \<longleftrightarrow> (\<forall>pool allow jobs tr. snd (ge_solve env pool allow jobs) = Some tr \<longrightarrow>
     set (tn_steps tr) \<subseteq> set (pl_ids pool))"

lemma solve_round_protects:
  assumes "solve_round env pool allow jobs = Some (Inr (ex, jobs', tr))" and "solver_ok env"
    and "cf_ppszProtectedPkgs (ge_conf env) = Some names"
  shows "TDNFSolvCheckProtectPkgsInTrans names pool tr = 0 \<and> set (tn_steps tr) \<subseteq> set (pl_ids pool)"
proof -
  obtain problems pTrans where s: "ge_solve env pool allow jobs = (problems, pTrans)" by (cases "ge_solve env pool allow jobs")
  from assms(1) have t: "pTrans = Some tr" and c: "TDNFSolvCheckProtectPkgsInTrans names pool tr = 0"
    by (auto simp: solve_round_def s assms(3) Let_def split: option.splits if_splits prod.splits)
  have "snd (ge_solve env pool allow jobs) = Some tr" using s t by simp
  then show ?thesis using c assms(2) by (auto simp: solver_ok_def)
qed

lemma solve_loop_protects:
  assumes "solve_loop env pool allow jobs = Some (Inr tr)" and "solver_ok env"
    and "cf_ppszProtectedPkgs (ge_conf env) = Some names"
  shows "TDNFSolvCheckProtectPkgsInTrans names pool tr = 0 \<and> set (tn_steps tr) \<subseteq> set (pl_ids pool)"
proof -
  from assms(1) obtain jobs ex jobs' where "solve_round env pool allow jobs = Some (Inr (ex, jobs', tr))"
    by (auto simp: solve_loop_def thenU_ok split: if_splits)
  then show ?thesis using solve_round_protects assms(2,3) by blast
qed

lemma pool_changes [simp]:
  "names_ok (map_subtract ps pool) \<longleftrightarrow> names_ok pool" "name_of (map_subtract ps pool) p = name_of pool p"
  "pl_ids (map_subtract ps pool) = pl_ids pool"
  by (simp_all add: names_ok_def name_of_def map_subtract_def)

text \<open>A run of \<^verbatim>\<open>TDNFSolv\<close> that ends well ends with an accepted transaction, on a pool that differs only in what
  may be considered.\<close>

lemma TDNFSolv_ok:
  assumes "TDNFSolv env jobs excludes allow auto reinst w = Some (Inr info, w')" and "names_ok (wd_pool w)"
  obtains pool allow' jobs' tr where "names_ok pool" "solve_loop env pool allow' jobs' = Some (Inr tr)"
    "TDNFGoalGetAllResultsIgnoreNoData pool tr reinst = Inr info"
proof -
  have min: "TDNFSolvAddMinVersions conf pool = Inr pool' \<Longrightarrow> names_ok pool' \<longleftrightarrow> names_ok pool" for conf pool pool'
    by (auto simp: TDNFSolvAddMinVersions_def bail_Inr_iff split: option.splits)
  define pool1 where "pool1 = (if excludes \<noteq> [] then SolvAddExcludes excludes (wd_pool w) else wd_pool w)"
  have p1: "names_ok pool1" using assms(2) by (simp add: pool1_def SolvAddExcludes_def)
  from assms(1) obtain pool allow' jobs' tr where p: "TDNFSolvAddMinVersions (ge_conf env) pool1 = Inr pool"
    "solve_loop env pool allow' jobs' = Some (Inr tr)" "TDNFGoalGetAllResultsIgnoreNoData pool tr reinst = Inr info"
    by (auto simp: TDNFSolv_def Let_def bindP_ok get_pool_def set_pool_def pool1_def)
  show thesis using that [OF _ p(2,3)] min [OF p(1)] p1 by simp
qed

text \<open>C15: Whatever the solver answers and whatever the command, a solved goal neither removes nor obsoletes a package
  with a protected name.\<close>

theorem Goal_keeps_protected:
  assumes "names_ok (wd_pool w)" and "solver_ok env" and "cf_ppszProtectedPkgs (ge_conf env) = Some names"
    and "TDNFGoal env ps nAlterType w = Some (Inr info, w')"
  shows "set (map pi_pszName (pPkgsToRemove info @ pPkgsObsoleted info)) \<inter> set names = {}"
proof -
  have hist: "wd_pool v' = wd_pool v" if "TDNFAddUserInstalledToJobs pool jobs v = Some (r, v')" for pool jobs r v v'
    using that by (auto simp: TDNFAddUserInstalledToJobs_def with_history_def TDNFGetHistoryCtx_def history_ctx_of_def catch_error_def bindP_def
        split: option.splits sum.splits if_splits prod.splits)
  from assms(4) obtain jobs excludes allow auto reinst info0 v where
      s: "TDNFSolv env jobs excludes allow auto reinst v = Some (Inr info0, w')" "wd_pool v = wd_pool w"
    and i: "pPkgsToRemove info = pPkgsToRemove info0" "pPkgsObsoleted info = pPkgsObsoleted info0"
    by (fastforce simp: TDNFGoal_def bindP_ok get_pool_def Let_def TDNFAddUserInstall_def bail_Inr_iff
        dest: hist split: if_splits)
  from TDNFSolv_ok [OF s(1)] s(2) assms(1) obtain pool allow' jobs' tr where ok: "names_ok pool"
    "solve_loop env pool allow' jobs' = Some (Inr tr)" "TDNFGoalGetAllResultsIgnoreNoData pool tr reinst = Inr info0"
    by metis
  note check = solve_loop_protects [OF ok(2) assms(2,3)]
  show ?thesis
  proof (rule ccontr)
    assume "set (map pi_pszName (pPkgsToRemove info @ pPkgsObsoleted info)) \<inter> set names \<noteq> {}"
    then obtain n where "n \<in> set (map pi_pszName (pPkgsToRemove info0 @ pPkgsObsoleted info0))" "n \<in> set names"
      using i by auto
    from results_removed [OF ok(3) this(1)] obtain p where "p \<in> set (tn_steps tr)" "removes tr p" "name_of pool p = n" .
    then show False using CheckProtect_ok [OF ok(1) conjunct1 [OF check]] conjunct2 [OF check] \<open>n \<in> set names\<close> by blast
  qed
qed


text \<open>A solver that erases what it is told to, on the sample pool.\<close>

definition sample_env :: goal_env where
  "sample_env = \<lparr>ge_args = \<lparr>ga_nBest = False, ga_nAllowErasing = False, ga_nNoAutoRemove = False,
       ga_nDisableExcludes = False, ga_nSkipBroken = False, ga_nSource = False, ga_pSetOpt = [],
       ga_ppszCmds = [''erase'', ''foo'']\<rparr>,
     ge_conf = conf_defaults\<lparr>cf_ppszProtectedPkgs := Some [''bar'']\<rparr>, ge_fnmatch = (=),
     ge_solve = (\<lambda>pool allow jobs. ([], Some \<lparr>tn_steps = filter (\<lambda>p. (0x201, p) \<in> set jobs) (pl_ids pool),
       tn_type = (\<lambda>p m. SOLVER_TRANSACTION_ERASE)\<rparr>))\<rparr>"

definition sample_world :: world where
  "sample_world = \<lparr>wd_pool = sample_pool, wd_db = None\<rparr>"

lemma sample_env_simps [simp]:
  "ge_conf sample_env = conf_defaults\<lparr>cf_ppszProtectedPkgs := Some [''bar'']\<rparr>"
  "ga_nBest (ge_args sample_env) = False" "ga_nAllowErasing (ge_args sample_env) = False"
  "ga_nNoAutoRemove (ge_args sample_env) = False" "ga_nDisableExcludes (ge_args sample_env) = False"
  "ga_pSetOpt (ge_args sample_env) = []"
  by (simp_all add: sample_env_def)

lemma sample_names_ok: "names_ok sample_pool"
  by (simp add: names_ok_def sample_pool_def name_of_def sample_lookup_def sample_solvables_def sample_solvable_def
      sample_strings_def)

lemma sample_solver_ok: "solver_ok sample_env"
  by (auto simp: solver_ok_def sample_env_def)

lemma sample_protect:
  "erasing_jobs (ge_conf sample_env) sample_pool True [(0x201, 2)]
     = Inr ([(0x201, 2), (0xb01, 2), (0xb01, 3), (0xa01, 6)], False)"
  by (simp add: erasing_jobs_def conf_defaults_def TDNFSolvAddProtectPkgs_def protected_ids_def pool_str2id_def
      sample_pool_ids sample_installed sample_sv_name erases_protected_def Let_def)

definition sample_erase :: transaction where
  "sample_erase = \<lparr>tn_steps = [2], tn_type = (\<lambda>p m. SOLVER_TRANSACTION_ERASE)\<rparr>"

lemma sample_round:
  "solve_loop sample_env sample_pool False [(0x201, 2), (0xb01, 2), (0xb01, 3), (0xa01, 6)] = Some (Inr sample_erase)"
proof -
  have "snd (ge_solve sample_env sample_pool False [(0x201, 2), (0xb01, 2), (0xb01, 3), (0xa01, 6)]) = Some sample_erase"
    "fst (ge_solve sample_env sample_pool False [(0x201, 2), (0xb01, 2), (0xb01, 3), (0xa01, 6)]) = []"
    by (simp_all add: sample_env_def sample_pool_def sample_erase_def)
  then show ?thesis
    by (simp add: solve_loop_def solve_round_def case_prod_beta conf_defaults_def TDNFSolvCheckProtectPkgsInTrans_def
        protected_ids_def pool_str2id_def sample_pool_ids sample_sv_name sample_erase_def Let_def)
qed

lemma sample_info: "\<exists>i. pkg_info_of sample_pool 2 = Inr i"
  by (simp add: pkg_info_of_def SolvGetNevraFromId_def sample_pool_names sample_allocates SolvGetPkgRepoNameFromId_def
      SolvGetPkgSummaryFromId_def SolvGetPkgLocationFromId_def SolvSplitEvr_def Let_def)
     (simp add: sample_pool_def sample_lookup_def sample_solvables_def sample_solvable_def sample_strings_def
      TDNFAllocateString_def TDNF_DEFAULT_MAX_STRING_LEN_def)

lemma sample_results:
  "\<exists>info. TDNFGoalGetAllResultsIgnoreNoData sample_pool sample_erase False = Inr info \<and> pPkgsToRemove info \<noteq> []"
proof -
  obtain i where "pkg_info_of sample_pool 2 = Inr i" using sample_info by blast
  then show ?thesis
    by (simp add: TDNFGoalGetAllResultsIgnoreNoData_def TDNFGetPackagesWithSpecifiedType_def sample_erase_def
        SolvGetTransResultsWithType_def SolvQueueToPackageList_def TDNFGetDownGradePackages_def TDNFPopulatePkgInfos_def)
qed

lemma sample_goal:
  "\<exists>info w'. TDNFGoal sample_env [2] ALTER_ERASE sample_world = Some (Inr info, w') \<and> pPkgsToRemove info \<noteq> []"
proof -
  obtain info where "TDNFGoalGetAllResultsIgnoreNoData sample_pool sample_erase False = Inr info" "pPkgsToRemove info \<noteq> []"
    using sample_results by blast
  then show ?thesis
    using sample_protect sample_round
    by (simp add: TDNFGoal_def TDNFPkgsToExclude_def conf_defaults_def bindP_def get_pool_def sample_world_def goal_jobs_def
        TDNFAddGoal_def SolvAddPkgEraseJob_def TDNFAddUserInstalledToJobs_def with_history_def TDNFGetHistoryCtx_def history_ctx_of_def
        catch_error_def TDNFSolv_def Let_def SolvAddFlagsToJobs_def set_pool_def TDNFSolvAddPkgLocks_def
        TDNFSolvAddInstallOnlyPkgs_def jobs_for_installed_def TDNFSolvAddMinVersions_def)
qed

theorem Goal_keeps_protected_witness:
  "\<exists>info w'. TDNFGoal sample_env [2] ALTER_ERASE sample_world = Some (Inr info, w') \<and> pPkgsToRemove info \<noteq> []
     \<and> set (map pi_pszName (pPkgsToRemove info @ pPkgsObsoleted info)) \<inter> {''bar''} = {}"
proof -
  obtain info w' where g: "TDNFGoal sample_env [2] ALTER_ERASE sample_world = Some (Inr info, w')"
    and ne: "pPkgsToRemove info \<noteq> []" using sample_goal by blast
  have n: "names_ok (wd_pool sample_world)" by (simp add: sample_world_def sample_names_ok)
  have p: "cf_ppszProtectedPkgs (ge_conf sample_env) = Some [''bar'']" by simp
  show ?thesis using Goal_keeps_protected [OF n sample_solver_ok p g] g ne by auto
qed

section \<open>The recorded flags\<close>

lemma mark_auto_ok:
  assumes "flags_ready ctx"
  shows "\<exists>ctx'. mark_auto user nAutoOnly names ctx = Some (Inr (), ctx') \<and> flags_ready ctx' \<and> h_trans_id ctx' = h_trans_id ctx
    \<and> (\<forall>s other. flag_at (cur (h_db ctx')) s other =
         (if h_trans_id ctx \<le> s \<and> other \<in> set names \<and> (other \<notin> set user \<or> \<not> nAutoOnly)
              \<and> flag_at (cur (h_db ctx)) (h_trans_id ctx) other \<noteq> (if other \<in> set user then 0 else 1)
          then if other \<in> set user then 0 else 1 else flag_at (cur (h_db ctx)) s other))"
  using assms
proof (induction names arbitrary: ctx)
  case (Cons name names)
  define v :: int where "v = (if name \<in> set user then 0 else 1)"
  show ?case
  proof (cases "\<not> nAutoOnly \<or> v = 1")
    case True
    note set = history_set_auto_flag_ok [OF Cons.prems, of name v]
    have step: "mark_auto user nAutoOnly (name # names) ctx = mark_auto user nAutoOnly names (set_flag name v ctx)"
      using True set(1) by (auto simp: v_def [symmetric] Let_def bindP_def history_call_def)
    obtain ctx' where c: "mark_auto user nAutoOnly names (set_flag name v ctx) = Some (Inr (), ctx')" "flags_ready ctx'"
      "h_trans_id ctx' = h_trans_id ctx" and f: "\<And>s other. flag_at (cur (h_db ctx')) s other =
         (if h_trans_id ctx \<le> s \<and> other \<in> set names \<and> (other \<notin> set user \<or> \<not> nAutoOnly)
              \<and> flag_at (cur (h_db (set_flag name v ctx))) (h_trans_id ctx) other \<noteq> (if other \<in> set user then 0 else 1)
          then if other \<in> set user then 0 else 1 else flag_at (cur (h_db (set_flag name v ctx))) s other)"
      using Cons.IH [OF set(2)] set(3) by auto
    have w: "name \<notin> set user \<or> \<not> nAutoOnly" using True by (auto simp: v_def split: if_splits)
    have "flag_at (cur (h_db ctx')) s other =
         (if h_trans_id ctx \<le> s \<and> other \<in> set (name # names) \<and> (other \<notin> set user \<or> \<not> nAutoOnly)
              \<and> flag_at (cur (h_db ctx)) (h_trans_id ctx) other \<noteq> (if other \<in> set user then 0 else 1)
          then if other \<in> set user then 0 else 1 else flag_at (cur (h_db ctx)) s other)" for s other
    proof (cases "other = name")
      case True
      have v: "(if other \<in> set user then 0 else 1) = v" by (simp add: v_def True)
      show ?thesis unfolding f set(4) v using True w by simp
    next
      case False
      then show ?thesis unfolding f set(4) by simp
    qed
    then show ?thesis using step c by (intro exI [of _ ctx'] conjI allI) simp_all
  next
    case False
    then have w: "name \<in> set user" "nAutoOnly" by (auto simp: v_def split: if_splits)
    then have step: "mark_auto user nAutoOnly (name # names) ctx = mark_auto user nAutoOnly names ctx"
      by (simp add: Let_def)
    obtain ctx' where c: "mark_auto user nAutoOnly names ctx = Some (Inr (), ctx')" "flags_ready ctx'"
      "h_trans_id ctx' = h_trans_id ctx" and f: "\<And>s other. flag_at (cur (h_db ctx')) s other =
         (if h_trans_id ctx \<le> s \<and> other \<in> set names \<and> (other \<notin> set user \<or> \<not> nAutoOnly)
              \<and> flag_at (cur (h_db ctx)) (h_trans_id ctx) other \<noteq> (if other \<in> set user then 0 else 1)
          then if other \<in> set user then 0 else 1 else flag_at (cur (h_db ctx)) s other)"
      using Cons.IH [OF Cons.prems] by auto
    show ?thesis using step c w by (auto simp: f)
  qed
qed simp

text \<open>After a transaction the packages it installed are flagged: those the user named as installed by the user
  (unless only the automatic ones are to be marked), the others as automatic; no other flag changes, nor any flag at an
  earlier transaction.\<close>

theorem MarkAutoInstalled_flags:
  assumes "flags_ready ctx" and "user = (case ppszPkgsUserInstall info of None \<Rightarrow> [] | Some l \<Rightarrow> l)"
    and "TDNFMarkAutoInstalled info nAutoOnly ctx = Some (r, ctx')"
  shows "r = Inr () \<and> flags_ready ctx'
    \<and> (\<forall>name. flag_at (cur (h_db ctx')) (h_trans_id ctx) name =
         (if name \<in> pi_pszName ` set (pPkgsToInstall info) \<and> (name \<notin> set user \<or> \<not> nAutoOnly)
          then if name \<in> set user then 0 else 1 else flag_at (cur (h_db ctx)) (h_trans_id ctx) name))
    \<and> (\<forall>s name. s < h_trans_id ctx \<longrightarrow> flag_at (cur (h_db ctx')) s name = flag_at (cur (h_db ctx)) s name)"
  using mark_auto_ok [OF assms(1), of user nAutoOnly "map pi_pszName (pPkgsToInstall info)"] assms(2,3)
  by (auto simp: TDNFMarkAutoInstalled_def)

definition sample_installed_pkg :: "string \<Rightarrow> pkg_info" where
  "sample_installed_pkg name = \<lparr>pi_dwEpoch = 0, pi_pszName = name, pi_pszVersion = None, pi_pszRelease = None,
     pi_pszArch = ''x'', pi_pszEVR = ''1'', pi_pszRepoName = ''r'', pi_pszSummary = ''s'', pi_pszLocation = None,
     pi_checksum = None, pi_dwInstallSizeBytes = 0, pi_dwDownloadSizeBytes = 0\<rparr>"

definition sample_solved :: solved_pkg_info where
  "sample_solved = \<lparr>nNeedAction = True, nNeedDownload = True, pPkgsToInstall = map sample_installed_pkg [''b'', ''lib''],
     pPkgsToDowngrade = [], pPkgsToUpgrade = [], pPkgsToRemove = [], pPkgsToReinstall = [], pPkgsObsoleted = [],
     pPkgsRemovedByDowngrade = [], ppszPkgsNotResolved = None, ppszPkgsUserInstall = Some [''b'']\<rparr>"

theorem MarkAutoInstalled_flags_witness:
  "\<exists>ctx'. TDNFMarkAutoInstalled sample_solved False sample_ctx = Some (Inr (), ctx')
     \<and> flag_at (cur (h_db ctx')) (h_trans_id sample_ctx) ''b'' = 0 \<and> flag_at (cur (h_db ctx')) (h_trans_id sample_ctx) ''lib'' = 1"
proof -
  obtain ctx' where m: "TDNFMarkAutoInstalled sample_solved False sample_ctx = Some (Inr (), ctx')"
    using mark_auto_ok [OF sample_flags_ready] unfolding TDNFMarkAutoInstalled_def by blast
  have u: "[''b''] = (case ppszPkgsUserInstall sample_solved of None \<Rightarrow> [] | Some l \<Rightarrow> l)"
    by (simp add: sample_solved_def)
  show ?thesis using MarkAutoInstalled_flags [OF sample_flags_ready u m] m
    by (simp add: sample_solved_def sample_installed_pkg_def)
qed

end
