(* ===== verification/Goal_Resolve.thy ===== *)
theory Goal_Resolve
  imports Goal_Solve Tdnf_Plugins
begin

text \<open>
  From the names on the command line to the packages of a goal (\<^verbatim>\<open>client/packageutils.c\<close>,
  \<^verbatim>\<open>client/resolve.c\<close>, the options of \<^verbatim>\<open>client/updateinfo.c\<close>), and from the history to a goal (\<^verbatim>\<open>TDNFHistoryResolve\<close> of
  \<^verbatim>\<open>client/api.c\<close>). The world holds, besides pool and history, the queue of packages and the names that were not
  resolved, for which the code has an array of one slot per word of the command.
\<close>

section \<open>Choosing packages\<close>

abbreviation (input) ERROR_TDNF_NO_UPGRADE_PATH :: errcode where "ERROR_TDNF_NO_UPGRADE_PATH \<equiv> 1027"
abbreviation (input) ERROR_TDNF_NO_DOWNGRADE_PATH :: errcode where "ERROR_TDNF_NO_DOWNGRADE_PATH \<equiv> 1028"
abbreviation (input) ERROR_TDNF_ERASE_NEEDS_INSTALL :: errcode where "ERROR_TDNF_ERASE_NEEDS_INSTALL \<equiv> 1031"
abbreviation (input) ERROR_TDNF_NO_SEARCH_RESULTS :: errcode where "ERROR_TDNF_NO_SEARCH_RESULTS \<equiv> 1599"

definition TDNFMatchForReinstall :: "pool \<Rightarrow> string option \<Rightarrow> nat result" where
  "TDNFMatchForReinstall pool pszName =
     (if IsNullOrEmptyString pszName then Inl ERROR_TDNF_INVALID_PARAMETER
      else bail (SolvFindInstalledPkgByName pool pszName) (\<lambda>installed.
           bail (SolvGetPackageId installed 0) (\<lambda>dwInstalledId.
           bail (SolvGetPkgNevrFromId pool dwInstalledId) (\<lambda>pszNevr.
           bail (SolvFindAvailablePkgByName pool (Some pszNevr)) (\<lambda>available.
             SolvGetPackageId available 0)))))"

text \<open>The newest package that is older than the installed one, 0 for none.\<close>

fun downgrade_of :: "pool \<Rightarrow> nat \<Rightarrow> nat list \<Rightarrow> nat \<Rightarrow> nat" where
  "downgrade_of pool dwInstalled [] dwDownGradeId = dwDownGradeId"
| "downgrade_of pool dwInstalled (p # ps) dwDownGradeId =
     downgrade_of pool dwInstalled ps
       (if SolvCmpEvr pool p dwInstalled < 0
        then if dwDownGradeId = 0 then p
             else if SolvCmpEvr pool p dwDownGradeId > 0 then p else dwDownGradeId
        else dwDownGradeId)"

definition TDNFPackageGetDowngrade :: "nat \<Rightarrow> pool \<Rightarrow> nat list \<Rightarrow> nat result" where
  "TDNFPackageGetDowngrade dwInstalled pool pkgs =
     (let d = downgrade_of pool dwInstalled pkgs 0
      in if d = 0 then Inl ERROR_TDNF_NO_DOWNGRADE_PATH else Inr d)"

definition TDNFGetGlobPackages :: "pool \<Rightarrow> string option \<Rightarrow> nat list result" where
  "TDNFGetGlobPackages pool pszPkgGlob =
     (if IsNullOrEmptyString pszPkgGlob then Inl ERROR_TDNF_INVALID_PARAMETER
      else SolvFindAvailablePkgByName pool pszPkgGlob)"

definition TDNFAddPackagesForErase :: "pool \<Rightarrow> string option \<Rightarrow> nat list result" where
  "TDNFAddPackagesForErase pool pszPkgName =
     (if IsNullOrEmptyString pszPkgName then Inl ERROR_TDNF_INVALID_PARAMETER
      else SolvFindInstalledPkgByName pool pszPkgName)"

definition TDNFVerifyInstallPackage :: "pool \<Rightarrow> nat \<Rightarrow> bool result" where
  "TDNFVerifyInstallPackage pool dwPkg =
     (case bail (SolvGetPkgNameFromId pool dwPkg) (\<lambda>name.
           bail (SolvFindHighestInstalled pool (Some name)) (\<lambda>dwInstalledId.
             Inr (SolvCmpEvr pool dwPkg dwInstalledId \<noteq> 0))) of
        Inl e \<Rightarrow> if e = ERROR_TDNF_NO_MATCH \<or> e = ERROR_TDNF_NO_DATA then Inr True else Inl e
      | Inr b \<Rightarrow> Inr b)"

definition TDNFAddPackagesForInstall :: "pool \<Rightarrow> string option \<Rightarrow> bool \<Rightarrow> bool \<Rightarrow> nat result option" where
  "TDNFAddPackagesForInstall pool pszPkgName nSource nInstallOnly =
     (if IsNullOrEmptyString pszPkgName then Some (Inl ERROR_TDNF_INVALID_PARAMETER)
      else thenU (SolvFindHighestAvailable pool pszPkgName nSource) (\<lambda>p.
           Some (bail (TDNFVerifyInstallPackage pool p) (\<lambda>install.
             if install \<or> nInstallOnly then Inr p else Inl ERROR_TDNF_ALREADY_INSTALLED))))"

definition TDNFVerifyUpgradePackage :: "pool \<Rightarrow> nat \<Rightarrow> bool result" where
  "TDNFVerifyUpgradePackage pool dwPkg =
     bail (SolvGetPkgNameFromId pool dwPkg) (\<lambda>name.
     bail (SolvFindHighestInstalled pool (Some name)) (\<lambda>dwInstalledId.
       Inr (SolvCmpEvr pool dwPkg dwInstalledId > 0)))"

text \<open>The package that is queued, if one is.\<close>

definition TDNFAddPackagesForUpgrade :: "pool \<Rightarrow> string option \<Rightarrow> nat option result option" where
  "TDNFAddPackagesForUpgrade pool pszPkgName =
     (if IsNullOrEmptyString pszPkgName then Some (Inl ERROR_TDNF_INVALID_PARAMETER)
      else thenU (SolvFindHighestAvailable pool pszPkgName False) (\<lambda>p.
           Some (bail (TDNFVerifyUpgradePackage pool p) (\<lambda>upgrade. Inr (if upgrade then Some p else None)))))"

definition TDNFAddPackagesForDowngrade :: "pool \<Rightarrow> string option \<Rightarrow> nat result" where
  "TDNFAddPackagesForDowngrade pool pszPkgName =
     (if IsNullOrEmptyString pszPkgName then Inl ERROR_TDNF_INVALID_PARAMETER
      else bail (SolvFindAvailablePkgByName pool pszPkgName) (\<lambda>pkgs.
           bail (SolvGetPackageId pkgs 0) (\<lambda>dwAvailableId.
           bail (SolvGetPkgNameFromId pool dwAvailableId) (\<lambda>name.
           bail (SolvFindLowestInstalled pool (Some name)) (\<lambda>dwInstalledId.
             TDNFPackageGetDowngrade dwInstalledId pool pkgs)))))"

section \<open>One name\<close>

record resolve_world = world +
  rw_queue :: "nat list"
  rw_unresolved :: "string list"

definition push_queue :: "nat list \<Rightarrow> (resolve_world, unit) prog" where
  "push_queue ps w = Some (Inr (), w\<lparr>rw_queue := rw_queue w @ ps\<rparr>)"

definition get_pool_of :: "(resolve_world, pool) prog" where
  "get_pool_of w = Some (Inr (wd_pool w), w)"

text \<open>\<^verbatim>\<open>TDNFAddNotResolved\<close> on an array of \<open>n\<close> slots looks for the first free one.\<close>

definition TDNFAddNotResolved :: "nat \<Rightarrow> string \<Rightarrow> (resolve_world, unit) prog" where
  "TDNFAddNotResolved n pszPkgName w =
     (if pszPkgName = [] then Some (Inl ERROR_TDNF_INVALID_PARAMETER, w)
      else if n \<le> length (rw_unresolved w) then None
      else case TDNFAllocateString (Some pszPkgName) of
             Inl e \<Rightarrow> Some (Inl e, w)
           | Inr s \<Rightarrow> Some (Inr (), w\<lparr>rw_unresolved := rw_unresolved w @ [s]\<rparr>))"

definition prepare_install :: "goal_env \<Rightarrow> pool \<Rightarrow> string \<Rightarrow> (resolve_world, unit) prog" where
  "prepare_install env pool pszPkgName =
     (let nInstallOnly = (case cf_ppszInstallOnlyPkgs (ge_conf env) of
            None \<Rightarrow> False | Some names \<Rightarrow> pszPkgName \<in> set names)
      in bindP (catch_error (liftU (TDNFAddPackagesForInstall pool (Some pszPkgName) (ga_nSource (ge_args env)) nInstallOnly)))
           (\<lambda>r. case r of
              Inr p \<Rightarrow> push_queue [p]
            | Inl e \<Rightarrow>
                if e = ERROR_TDNF_ALREADY_INSTALLED
                then bindP (TDNFMarkAutoInstalledSinglePkg pszPkgName) (\<lambda>_. errorP ERROR_TDNF_ALREADY_INSTALLED)
                else errorP e))"

text \<open>\<^verbatim>\<open>TDNFPrepareSinglePkg\<close> up to its error label.\<close>

definition prepare_body :: "goal_env \<Rightarrow> string \<Rightarrow> alter_type \<Rightarrow> (resolve_world, unit) prog" where
  "prepare_body env pszPkgName nAlterType =
     bindP get_pool_of (\<lambda>pool.
     bindP (liftR (case SolvCountPkgByName pool (Some pszPkgName) (ga_nSource (ge_args env)) of
              Inl e \<Rightarrow> if e = ERROR_TDNF_NO_MATCH \<and> ga_nSkipBroken (ge_args env) then Inr 0 else Inl e
            | Inr n \<Rightarrow> Inr n)) (\<lambda>dwCount.
       if dwCount = 0 then errorP ERROR_TDNF_NO_SEARCH_RESULTS
       else bindP (if nAlterType = ALTER_REINSTALL
                   then bindP (liftR (TDNFMatchForReinstall pool (Some pszPkgName))) (\<lambda>p. push_queue [p])
                   else returnP ()) (\<lambda>_.
            if nAlterType = ALTER_ERASE \<or> nAlterType = ALTER_AUTOERASE
            then bindP (liftR (case SolvFindInstalledPkgByName pool (Some pszPkgName) of
                     Inl e \<Rightarrow> Inl (if e = ERROR_TDNF_NO_MATCH then ERROR_TDNF_ERASE_NEEDS_INSTALL else e)
                   | Inr ps \<Rightarrow> Inr ps)) (\<lambda>_.
                 bindP (liftR (TDNFAddPackagesForErase pool (Some pszPkgName))) push_queue)
            else if nAlterType = ALTER_INSTALL then prepare_install env pool pszPkgName
            else if nAlterType = ALTER_UPGRADE
            then bindP (liftU (TDNFAddPackagesForUpgrade pool (Some pszPkgName))) (\<lambda>p.
                   push_queue (case p of None \<Rightarrow> [] | Some p \<Rightarrow> [p]))
            else if nAlterType = ALTER_DOWNGRADE \<or> nAlterType = ALTER_DOWNGRADEALL
            then bindP (liftR (TDNFAddPackagesForDowngrade pool (Some pszPkgName))) (\<lambda>p. push_queue [p])
            else returnP ())))"

text \<open>The error label: these errors are only reported. A command without words has no first word to look at.\<close>

definition prepare_errors :: "goal_env \<Rightarrow> string \<Rightarrow> errcode \<Rightarrow> (resolve_world, unit) prog" where
  "prepare_errors env pszPkgName e =
     (if e = ERROR_TDNF_ALREADY_INSTALLED
      then (if ga_ppszCmds (ge_args env) = [] then (\<lambda>w. None) else returnP ())
      else if e = ERROR_TDNF_NO_UPGRADE_PATH \<or> e = ERROR_TDNF_NO_DOWNGRADE_PATH then returnP ()
      else if e = ERROR_TDNF_NO_SEARCH_RESULTS
      then bindP (catchP (TDNFAddNotResolved (length (ga_ppszCmds (ge_args env))) pszPkgName)) (\<lambda>_. returnP ())
      else if e = ERROR_TDNF_ERASE_NEEDS_INSTALL then returnP ()
      else errorP e)"

definition TDNFPrepareSinglePkg :: "goal_env \<Rightarrow> string \<Rightarrow> alter_type \<Rightarrow> (resolve_world, unit) prog" where
  "TDNFPrepareSinglePkg env pszPkgName nAlterType =
     (if pszPkgName = [] then errorP ERROR_TDNF_INVALID_PARAMETER
      else bindP (catch_error (prepare_body env pszPkgName nAlterType)) (\<lambda>r. case r of
             Inr _ \<Rightarrow> returnP () | Inl e \<Rightarrow> prepare_errors env pszPkgName e))"

section \<open>All names\<close>

fun prepare_names :: "goal_env \<Rightarrow> alter_type \<Rightarrow> string list \<Rightarrow> (resolve_world, unit) prog" where
  "prepare_names env nAlterType [] = returnP ()"
| "prepare_names env nAlterType (name # names) =
     bindP (TDNFPrepareSinglePkg env name nAlterType) (\<lambda>_. prepare_names env nAlterType names)"

text \<open>The names of the packages of a list, one after the other.\<close>

fun prepare_ids :: "goal_env \<Rightarrow> alter_type \<Rightarrow> nat list \<Rightarrow> (resolve_world, unit) prog" where
  "prepare_ids env nAlterType [] = returnP ()"
| "prepare_ids env nAlterType (p # ps) =
     bindP get_pool_of (\<lambda>pool.
     bindP (liftR (SolvGetPkgNameFromId pool p)) (\<lambda>name.
     bindP (TDNFPrepareSinglePkg env name nAlterType) (\<lambda>_. prepare_ids env nAlterType ps)))"

text \<open>With no package installed the list is NULL, which \<^verbatim>\<open>SolvGetPackageListSize\<close> rejects.\<close>

definition TDNFFilterPackages :: "goal_env \<Rightarrow> alter_type \<Rightarrow> (resolve_world, unit) prog" where
  "TDNFFilterPackages env nAlterType =
     bindP get_pool_of (\<lambda>pool. case SolvFindAllInstalled pool of
       Inl e \<Rightarrow> errorP (if e = ERROR_TDNF_NO_MATCH then ERROR_TDNF_INVALID_PARAMETER else e)
     | Inr ps \<Rightarrow> prepare_ids env nAlterType ps)"

text \<open>The queue is initialised again before the orphans are added.\<close>

definition TDNFGetAutoInstalledOrphans :: "(resolve_world, unit) prog" where
  "TDNFGetAutoInstalledOrphans =
     bindP get_pool_of (\<lambda>pool.
     bindP (with_history True (SolvGetAutoInstalledOrphans pool)) (\<lambda>ps w.
       Some (Inr (), w\<lparr>rw_queue := ps\<rparr>)))"

fun security_options :: "cmd_opt list \<Rightarrow> bool \<times> string option \<Rightarrow> (bool \<times> string option) result" where
  "security_options [] st = Inr st"
| "security_options ((name, v) # opts) (security, severity) =
     bail (if strcaseeq name ''sec-severity'' then bail (TDNFAllocateString v) (\<lambda>s. Inr (Some s)) else Inr severity)
       (\<lambda>severity. security_options opts (security \<or> strcaseeq name ''security'', severity))"

definition TDNFGetSecuritySeverityOption :: "goal_args \<Rightarrow> (bool \<times> string option) result" where
  "TDNFGetSecuritySeverityOption args = security_options (ga_pSetOpt args) (False, None)"

definition TDNFGetRebootRequiredOption :: "goal_args \<Rightarrow> bool" where
  "TDNFGetRebootRequiredOption args = list_ex (\<lambda>o'. strcaseeq (fst o') ''reboot-required'') (ga_pSetOpt args)"

text \<open>A word of the command line; files are added elsewhere.\<close>

definition prepare_word :: "goal_env \<Rightarrow> alter_type \<Rightarrow> string \<Rightarrow> (resolve_world, unit) prog" where
  "prepare_word env nAlterType pszPkgName =
     (if TDNFIsGlob pszPkgName
      then bindP get_pool_of (\<lambda>pool.
           bindP (liftR (TDNFGetGlobPackages pool (Some pszPkgName))) (\<lambda>ps.
             if ps = [] then TDNFAddNotResolved (length (ga_ppszCmds (ge_args env))) pszPkgName
             else prepare_ids env nAlterType ps))
      else if ge_fnmatch env ''*.rpm'' pszPkgName then returnP ()
      else TDNFPrepareSinglePkg env pszPkgName nAlterType)"

fun prepare_words :: "goal_env \<Rightarrow> alter_type \<Rightarrow> string list \<Rightarrow> (resolve_world, unit) prog" where
  "prepare_words env nAlterType [] = returnP ()"
| "prepare_words env nAlterType (word # words) =
     bindP (prepare_word env nAlterType word) (\<lambda>_. prepare_words env nAlterType words)"

text \<open>
  The command type that comes back. \<open>update_pkgs\<close> is what \<^verbatim>\<open>TDNFGetUpdatePkgs\<close> finds in the advisories.
\<close>

definition TDNFPrepareAllPackages ::
    "goal_env \<Rightarrow> string list result \<Rightarrow> alter_type \<Rightarrow> (resolve_world, alter_type) prog" where
  "TDNFPrepareAllPackages env update_pkgs nAlterType =
     bindP (if nAlterType = ALTER_DOWNGRADEALL then TDNFFilterPackages env nAlterType
            else if nAlterType = ALTER_AUTOERASEALL then TDNFGetAutoInstalledOrphans
            else returnP ()) (\<lambda>_.
     bindP (liftR (TDNFGetSecuritySeverityOption (ge_args env))) (\<lambda>(dwSecurity, pszSeverity).
       if (nAlterType = ALTER_UPGRADEALL \<or> nAlterType = ALTER_UPGRADE)
            \<and> (dwSecurity \<or> pszSeverity \<noteq> None \<or> TDNFGetRebootRequiredOption (ge_args env))
       then bindP (liftR update_pkgs) (\<lambda>names.
            bindP (prepare_names env ALTER_UPGRADE names) (\<lambda>_. returnP ALTER_UPGRADE))
       else bindP (prepare_words env nAlterType (tl (ga_ppszCmds (ge_args env)))) (\<lambda>_. returnP nAlterType)))"


section \<open>What is chosen\<close>

text \<open>No package has the id 0.\<close>

definition ids_ok :: "pool \<Rightarrow> bool" where
  "ids_ok pool \<longleftrightarrow> 0 \<notin> set (pl_ids pool) \<and> (\<forall>how what. 0 \<notin> set (pl_job_select pool how what))"

lemma query_ids:
  assumes "ids_ok pool" and "SolvGetQueryResult (list_query pool q) = Inr ps" and "queueResult q = []"
  shows "0 \<notin> set ps"
proof -
  have job: "0 \<notin> set (job_packages pool job)" for job
    using assms(1) by (auto simp: job_packages_def packages_def repo_solvables_def ids_ok_def Let_def split: if_splits)
  have res: "queueResult (SolvGenerateCommonJob pool f q) = []" for f
    using assms(3) by (simp add: SolvGenerateCommonJob_def split: option.split)
  have "0 \<notin> set (queueResult (list_query pool q))"
    using assms(1) job by (auto simp: list_query_def Let_def res packages_def ids_ok_def split: option.splits)
  then show ?thesis using assms(2) by (auto simp: SolvGetQueryResult_def SolvQueueToPackageList_def split: if_splits)
qed

lemma single_filter: "SolvApplySinglePackageFilter n q = Inr q' \<Longrightarrow> queueResult q' = queueResult q"
  by (auto simp: SolvApplySinglePackageFilter_def bail_Inr_iff split: if_splits)

lemma installed_ids: "ids_ok pool \<Longrightarrow> SolvFindInstalledPkgByName pool n = Inr ps \<Longrightarrow> 0 \<notin> set ps"
  by (auto simp: SolvFindInstalledPkgByName_def bail_Inr_iff SolvAddSystemRepoFilter_def SolvCreateQuery_def
      dest!: single_filter dest: query_ids split: if_splits)

lemma available_ids: "ids_ok pool \<Longrightarrow> SolvFindAvailablePkgByName pool n = Inr ps \<Longrightarrow> 0 \<notin> set ps"
  by (auto simp: SolvFindAvailablePkgByName_def bail_Inr_iff SolvAddAvailableRepoFilter_def SolvCreateQuery_def
      dest!: single_filter dest: query_ids split: if_splits)

lemma downgrade_of_best:
  assumes "evr_ok pool" and "0 \<notin> set ps" and "b \<noteq> 0 \<Longrightarrow> SolvCmpEvr pool b i < 0" and "r = downgrade_of pool i ps b"
  shows "(r = b \<or> r \<in> set ps) \<and> (r \<noteq> 0 \<longrightarrow> SolvCmpEvr pool r i < 0)
    \<and> (\<forall>q. q \<noteq> 0 \<and> (q = b \<or> q \<in> set ps \<and> SolvCmpEvr pool q i < 0) \<longrightarrow> r \<noteq> 0 \<and> SolvCmpEvr pool r q \<ge> 0)"
  using assms(2-4)
proof (induction ps arbitrary: b)
  case Nil
  then show ?case using evr_refl [OF assms(1)] by auto
next
  case (Cons p ps)
  define m where "m = (if SolvCmpEvr pool p i < 0 then if b = 0 then p
      else if SolvCmpEvr pool p b > 0 then p else b else b)"
  have pm: "p \<noteq> 0" using Cons.prems(1) by auto
  have r: "r = downgrade_of pool i ps m" using Cons.prems(3) by (simp add: m_def)
  have mi: "SolvCmpEvr pool m i < 0" if "m \<noteq> 0" using that Cons.prems(2) by (auto simp: m_def split: if_splits)
  have IH: "(r = m \<or> r \<in> set ps) \<and> (r \<noteq> 0 \<longrightarrow> SolvCmpEvr pool r i < 0)
    \<and> (\<forall>q. q \<noteq> 0 \<and> (q = m \<or> q \<in> set ps \<and> SolvCmpEvr pool q i < 0) \<longrightarrow> r \<noteq> 0 \<and> SolvCmpEvr pool r q \<ge> 0)"
    using Cons.IH [OF _ mi r] Cons.prems(1) by simp
  have mq: "m \<noteq> 0 \<and> SolvCmpEvr pool m q \<ge> 0" if "q = b \<and> b \<noteq> 0 \<or> q = p \<and> SolvCmpEvr pool p i < 0" for q
    using that pm evr_refl [OF assms(1)] evr_flip [OF assms(1), of p b] by (auto simp: m_def)
  have step: "r \<noteq> 0 \<and> SolvCmpEvr pool r q \<ge> 0"
    if q: "q \<noteq> 0" "q = b \<or> q \<in> set (p # ps) \<and> SolvCmpEvr pool q i < 0" for q
  proof (cases "q \<in> set ps \<and> SolvCmpEvr pool q i < 0")
    case True
    then show ?thesis using IH q by blast
  next
    case False
    then have "m \<noteq> 0 \<and> SolvCmpEvr pool m q \<ge> 0" using q by (intro mq) auto
    moreover from this have "r \<noteq> 0 \<and> SolvCmpEvr pool r m \<ge> 0" using IH by blast
    ultimately show ?thesis using evr_trans [OF assms(1)] by blast
  qed
  show ?case using IH step pm by (auto simp: m_def split: if_splits)
qed

text \<open>C17: The package queued for a downgrade is the newest of the available ones that are older than every installed
  version.\<close>

theorem AddPackagesForDowngrade_best:
  assumes "evr_ok pool" and "ids_ok pool" and "TDNFAddPackagesForDowngrade pool (Some name) = Inr d"
  shows "\<exists>pkgs installed. SolvFindAvailablePkgByName pool (Some name) = Inr pkgs \<and> d \<in> set pkgs
    \<and> SolvFindInstalledPkgByName pool (Some (name_of pool (hd pkgs))) = Inr installed
    \<and> (\<forall>i \<in> set installed. SolvCmpEvr pool d i < 0)
    \<and> (\<forall>p \<in> set pkgs. (\<forall>i \<in> set installed. SolvCmpEvr pool p i < 0) \<longrightarrow> SolvCmpEvr pool p d \<le> 0)"
proof -
  from assms(3) obtain pkgs low where av: "SolvFindAvailablePkgByName pool (Some name) = Inr pkgs" "pkgs \<noteq> []"
    and low: "SolvFindLowestInstalled pool (Some (name_of pool (hd pkgs))) = Inr low"
    and d: "d = downgrade_of pool low pkgs 0" "d \<noteq> 0"
    by (auto simp: TDNFAddPackagesForDowngrade_def bail_Inr_iff SolvGetPackageId_def SolvGetPkgNameFromId_def hd_conv_nth
        TDNFPackageGetDowngrade_def Let_def dest!: alloc_same split: if_splits)
  have low0: "low \<noteq> 0"
  proof
    assume "low = 0"
    moreover from low obtain inst where "SolvFindInstalledPkgByName pool (Some (name_of pool (hd pkgs))) = Inr inst"
      "inst \<noteq> []" "low = (if hd inst = 0 then 0 else extreme_of pool False (tl inst) (hd inst))"
      by (auto simp: SolvFindLowestInstalled_def elim: HighestOrLowest_cases split: if_splits)
    ultimately show False
      using installed_ids [OF assms(2)] extreme_in [of pool False "tl inst" "hd inst"]
      by (metis hd_in_set insertE list.set_sel(2))
  qed
  from LowestInstalled_min [OF assms(1) low low0] obtain inst where
    i: "SolvFindInstalledPkgByName pool (Some (name_of pool (hd pkgs))) = Inr inst" "low \<in> set inst"
      "\<And>q. q \<in> set inst \<Longrightarrow> SolvCmpEvr pool low q \<le> 0" by blast
  have 0: "0 \<notin> set pkgs" using available_ids [OF assms(2) av(1)] .
  note best = downgrade_of_best [OF assms(1) 0, of 0 low d, OF _ d(1)]
  have dl: "d \<in> set pkgs" "SolvCmpEvr pool d low < 0" using best d(2) by simp_all
  have older: "SolvCmpEvr pool d q < 0" if "q \<in> set inst" for q
  proof (rule ccontr)
    assume "\<not> SolvCmpEvr pool d q < 0"
    then have "SolvCmpEvr pool d low \<ge> 0"
      using evr_trans [OF assms(1), of d q low] i(3) [OF that] evr_flip [OF assms(1), of low q] by simp
    then show False using dl(2) by simp
  qed
  moreover have "SolvCmpEvr pool p d \<le> 0" if "p \<in> set pkgs" "\<forall>i \<in> set inst. SolvCmpEvr pool p i < 0" for p
    using best that i(2) 0 evr_flip [OF assms(1), of p d] by (metis order_less_irrefl)
  ultimately show ?thesis using av(1) dl(1) i(1) by blast
qed

definition old_pool :: pool where
  "old_pool = sample_pool\<lparr>pl_job_select := (\<lambda>how what. if what = 110 then [4, 3] else if what = 210 then [2] else [])\<rparr>"

theorem AddPackagesForDowngrade_best_witness:
  "TDNFAddPackagesForDowngrade old_pool (Some ''foo'') = Inr 2 \<and> SolvCmpEvr old_pool 2 3 < 0"
proof -
  have cmps: "pl_evrcmp old_pool = pl_evrcmp sample_pool" by (simp add: old_pool_def)
  have e: "evr_ok old_pool" using sample_evr_ok unfolding evr_ok_def cmps .
  have i: "ids_ok old_pool" by (simp add: ids_ok_def old_pool_def sample_pool_def)
  have fields: "pl_selection_make old_pool ''foo'' f = [(SOLVER_SOLVABLE_NAME, 10)]"
    "pl_selection_filter old_pool [(how, what)] fs = [(how, what + 100 * snd (hd fs))]"
    "pl_job_select old_pool how 110 = [4, 3]" "pl_job_select old_pool how 210 = [2]"
    "pl_repos old_pool = [(1, ''@System''), (2, ''r'')]" "pl_installed old_pool = 1" for f how what fs
    using sample_queries by (simp_all add: old_pool_def)
  have names: "name_of old_pool p = name_of sample_pool p" "evr_of old_pool p = evr_of sample_pool p" for p
    by (simp_all add: name_of_def evr_of_def old_pool_def)
  have found: "SolvFindInstalledPkgByName old_pool (Some ''foo'') = Inr [4, 3]"
    "SolvFindAvailablePkgByName old_pool (Some ''foo'') = Inr [2]"
    by (simp_all add: SolvFindInstalledPkgByName_def SolvFindAvailablePkgByName_def SolvApplySinglePackageFilter_def
      sample_allocates SolvGetQueryResult_def list_query_def SolvGenerateCommonJob_def SolvAddSystemRepoFilter_def
      SolvAddAvailableRepoFilter_def SolvCreateQuery_def Let_def name_jobs_def filtered_def
      SolvQueueToPackageList_def job_packages_def packages_def is_pseudo_package_def sample_pool_names names
      fields sample_repo_names)
  have cmp: "pl_evrcmp old_pool a b = (if a = b then 0 else if a < b then - 1 else 1)" for a b
    by (simp add: old_pool_def sample_pool_def)
  have d: "TDNFAddPackagesForDowngrade old_pool (Some ''foo'') = Inr 2"
    by (simp add: TDNFAddPackagesForDowngrade_def found SolvGetPackageId_def SolvGetPkgNameFromId_def names sample_pool_names
        sample_allocates SolvFindLowestInstalled_def SolvFindHighestOrLowestInstalled_def SolvCmpEvr_def cmp
        TDNFPackageGetDowngrade_def Let_def less_char_def)
  show ?thesis
    using AddPackagesForDowngrade_best [OF e i d] d by (auto simp: found names sample_pool_names)
qed

end
