(* ===== verification/Goal_History.thy ===== *)
theory Goal_History
  imports Goal_Resolve Hist_Query
begin

text \<open>
  Rolling back, undoing and redoing: \<^verbatim>\<open>TDNFHistoryResolve\<close> of \<^verbatim>\<open>client/api.c\<close> after its refresh, which
  turns a difference of the recorded history into the packages of a goal. The rpm database is the view
  \<open>ts\<close>, as for \<open>history_sync\<close>.
\<close>

section \<open>The operation\<close>

datatype history_cmd = HISTORY_CMD_LIST | HISTORY_CMD_INIT | HISTORY_CMD_ROLLBACK | HISTORY_CMD_UNDO | HISTORY_CMD_REDO

record history_args =
  ha_nCommand :: history_cmd
  ha_nFrom :: int
  ha_nTo :: int

definition history_args_ok :: "history_args \<Rightarrow> bool" where
  "history_args_ok a \<longleftrightarrow> (case ha_nCommand a of
     HISTORY_CMD_ROLLBACK \<Rightarrow> \<not> ha_nTo a \<le> 0
   | HISTORY_CMD_UNDO \<Rightarrow> \<not> (ha_nFrom a \<le> 1 \<or> ha_nFrom a > ha_nTo a)
   | HISTORY_CMD_REDO \<Rightarrow> \<not> (ha_nFrom a \<le> 1 \<or> ha_nFrom a > ha_nTo a)
   | HISTORY_CMD_INIT \<Rightarrow> True
   | HISTORY_CMD_LIST \<Rightarrow> False)"

text \<open>The two differences that a command asks for; a NULL flags delta is \<open>None\<close>.\<close>

definition history_deltas ::
    "history_args \<Rightarrow> (history_ctx, history_delta result \<times> (int \<times> int) list option) prog" where
  "history_deltas a ctx =
     (let run = (\<lambda>delta from to.
            bindP (catch_error (history_call delta)) (\<lambda>d.
            bindP (catch_error (history_call (history_get_flags_delta from to))) (\<lambda>hfd.
              returnP (d, case hfd of Inl _ \<Rightarrow> None | Inr f \<Rightarrow> f))) ctx)
      in case ha_nCommand a of
           HISTORY_CMD_ROLLBACK \<Rightarrow> run (history_get_delta (ha_nTo a)) (h_trans_id ctx) (ha_nTo a)
         | HISTORY_CMD_UNDO \<Rightarrow> run (history_get_delta_range (ha_nFrom a - 1) (ha_nTo a)) (ha_nTo a) (ha_nFrom a - 1)
         | HISTORY_CMD_REDO \<Rightarrow> run (history_get_delta_range (ha_nTo a) (ha_nFrom a - 1)) (ha_nFrom a - 1) (ha_nTo a)
         | _ \<Rightarrow> Some (Inl ERROR_TDNF_INVALID_PARAMETER, ctx))"

text \<open>What is read from the history: nothing for HISTORY_CMD_INIT.\<close>

definition read_history :: "history_args \<Rightarrow> rpm_view \<Rightarrow> int \<Rightarrow>
    (history_ctx, (history_delta \<times> (int \<times> int) list option \<times> history_nevra_map) option) prog" where
  "read_history a ts now =
     bindP (history_call (history_sync ts now)) (\<lambda>_.
       if ha_nCommand a = HISTORY_CMD_INIT then returnP None
       else bindP (history_deltas a) (\<lambda>(d, hfd). case d of
              Inl _ \<Rightarrow> errorP ERROR_TDNF_HISTORY_ERROR
            | Inr delta \<Rightarrow> bindP (history_call history_nevra_map) (\<lambda>hnm. returnP (Some (delta, hfd, hnm)))))"

definition is_gpg_key :: "string \<Rightarrow> bool" where
  "is_gpg_key name \<longleftrightarrow> take 11 name = ''gpg-pubkey-''"

text \<open>The packages to install and the names that no repository has, in an array of \<open>n\<close> slots.\<close>

fun resolve_added :: "pool \<Rightarrow> nat \<Rightarrow> history_nevra_map \<Rightarrow> int list \<Rightarrow> nat list \<times> string list \<Rightarrow>
    (nat list \<times> string list) result option" where
  "resolve_added pool n hnm [] st = Some (Inr st)"
| "resolve_added pool n hnm (i # is) (qInstall, unresolved) = (case history_get_nevra (Some hnm) i of
     None \<Rightarrow> Some (Inl ERROR_TDNF_HISTORY_ERROR)
   | Some name \<Rightarrow>
       if is_gpg_key name then resolve_added pool n hnm is (qInstall, unresolved)
       else thenU (SolvFindSolvablesByNevraStr pool name False) (\<lambda>qResult.
         if qResult = []
         then (if n \<le> length unresolved then None
               else thenU (Some (TDNFAllocateString (Some name))) (\<lambda>s.
                      resolve_added pool n hnm is (qInstall, unresolved @ [s])))
         else thenU (SolvFindSolvablesByNevraStr pool name True) (\<lambda>qInstalled.
                resolve_added pool n hnm is
                  (if qInstalled = [] then qInstall @ [hd qResult] else qInstall, unresolved))))"

fun resolve_removed :: "pool \<Rightarrow> history_nevra_map \<Rightarrow> int list \<Rightarrow> nat list \<Rightarrow> nat list result option" where
  "resolve_removed pool hnm [] qErase = Some (Inr qErase)"
| "resolve_removed pool hnm (i # is) qErase = (case history_get_nevra (Some hnm) i of
     None \<Rightarrow> Some (Inl ERROR_TDNF_HISTORY_ERROR)
   | Some name \<Rightarrow>
       if is_gpg_key name then resolve_removed pool hnm is qErase
       else thenU (SolvFindSolvablesByNevraStr pool name True) (\<lambda>ps. resolve_removed pool hnm is (qErase @ ps)))"

definition needs_action :: "solved_pkg_info \<Rightarrow> bool" where
  "needs_action i \<longleftrightarrow> pPkgsToInstall i \<noteq> [] \<or> pPkgsToUpgrade i \<noteq> [] \<or> pPkgsToDowngrade i \<noteq> []
     \<or> pPkgsToRemove i \<noteq> [] \<or> pPkgsToReinstall i \<noteq> [] \<or> pPkgsObsoleted i \<noteq> []"

definition needs_download :: "solved_pkg_info \<Rightarrow> bool" where
  "needs_download i \<longleftrightarrow> pPkgsToInstall i \<noteq> [] \<or> pPkgsToUpgrade i \<noteq> [] \<or> pPkgsToDowngrade i \<noteq> []
     \<or> pPkgsToReinstall i \<noteq> []"

text \<open>Without packages to change the flags delta is read, through NULL when there is none.\<close>

definition history_result ::
    "string list option \<Rightarrow> (int \<times> int) list option \<Rightarrow> solved_pkg_info \<Rightarrow> ('w, solved_pkg_info) prog" where
  "history_result unresolved hfd info =
     (let info = info\<lparr>nNeedAction := needs_action info, nNeedDownload := needs_download info,
            ppszPkgsNotResolved := unresolved\<rparr>
      in if nNeedAction info then returnP info
         else case hfd of None \<Rightarrow> (\<lambda>w. None) | Some flags \<Rightarrow> returnP (info\<lparr>nNeedAction := flags \<noteq> []\<rparr>))"

text \<open>\<open>None\<close> as a value: nothing is stored for HISTORY_CMD_INIT.\<close>

definition TDNFHistoryResolve ::
    "goal_env \<Rightarrow> history_args \<Rightarrow> rpm_view \<Rightarrow> int \<Rightarrow> (world, solved_pkg_info option) prog" where
  "TDNFHistoryResolve env a ts now =
     (if \<not> history_args_ok a then errorP ERROR_TDNF_INVALID_PARAMETER
      else bindP (with_history (ha_nCommand a \<noteq> HISTORY_CMD_INIT) (read_history a ts now)) (\<lambda>r. case r of
             None \<Rightarrow> returnP None
           | Some (delta, hfd, hnm) \<Rightarrow>
               bindP get_pool (\<lambda>pool.
               bindP (liftU (resolve_added pool (length (added_ids delta) + 1) hnm (added_ids delta) ([], [])))
                 (\<lambda>(qInstall, unresolved).
               bindP (liftU (resolve_removed pool hnm (removed_ids delta) [])) (\<lambda>qErase.
               bindP (TDNFHistoryGoal env qInstall qErase) (\<lambda>info.
               bindP (history_result (if added_ids delta = [] then None else Some unresolved) hfd info) (\<lambda>info.
                 returnP (Some info))))))))"

section \<open>Packages by NEVRA\<close>

definition arch_of :: "pool \<Rightarrow> nat \<Rightarrow> string" where
  "arch_of pool p = pl_id2str pool (sv_arch (pl_solvable pool p))"

definition nevra_of :: "pool \<Rightarrow> nat \<Rightarrow> string" where
  "nevra_of pool p = name_of pool p @ ''-'' @ evr_of pool p @ ''.'' @ arch_of pool p"

text \<open>A NEVRA that can be taken apart, and its parts.\<close>

definition nevra_parts :: "string \<Rightarrow> string \<Rightarrow> string \<Rightarrow> bool" where
  "nevra_parts name evr arch \<longleftrightarrow> name \<noteq> [] \<and> CHR ''.'' \<notin> set arch
     \<and> (\<exists>v r. evr = v @ ''-'' @ r \<and> CHR ''-'' \<notin> set v \<and> CHR ''-'' \<notin> set r)"

definition nevra_ok :: "string \<Rightarrow> bool" where
  "nevra_ok n \<longleftrightarrow> (\<exists>name evr arch. n = name @ ''-'' @ evr @ ''.'' @ arch \<and> nevra_parts name evr arch)"

text \<open>What tdnf relies on from the pool: ids stand for strings, and packages have names, versions and architectures of
  the usual form.\<close>

definition pool_ok :: "pool \<Rightarrow> bool" where
  "pool_ok pool \<longleftrightarrow> (\<forall>s. pl_strings pool s \<longrightarrow> pl_str2id pool s \<noteq> 0 \<and> pl_id2str pool (pl_str2id pool s) = s)
     \<and> (\<forall>p \<in> set (pl_ids pool). nevra_parts (name_of pool p) (evr_of pool p) (arch_of pool p)
          \<and> (\<forall>i \<in> {sv_name (pl_solvable pool p), sv_evr (pl_solvable pool p), sv_arch (pl_solvable pool p)}.
               pl_strings pool (pl_id2str pool i) \<and> pl_str2id pool (pl_id2str pool i) = i))"

lemma split_nevra_ok: "nevra_parts name evr arch \<Longrightarrow>
    split_nevra (name @ ''-'' @ evr @ ''.'' @ arch) = Some (Inr (name, evr, arch))"
  unfolding nevra_parts_def using split_nevra_parts by fastforce

lemma nevra_eq:
  assumes "nevra_parts name evr arch" and "nevra_parts name' evr' arch'"
  shows "name @ ''-'' @ evr @ ''.'' @ arch = name' @ ''-'' @ evr' @ ''.'' @ arch'
    \<longleftrightarrow> name = name' \<and> evr = evr' \<and> arch = arch'"
  using split_nevra_ok [OF assms(1)] split_nevra_ok [OF assms(2)] by (metis Pair_inject option.inject sum.inject(2))

text \<open>The search by NEVRA finds the packages with that NEVRA.\<close>

lemma NevraStr_finds:
  assumes "pool_ok pool" and "nevra_ok n"
  shows "SolvFindSolvablesByNevraStr pool n installed =
    Some (Inr (filter (\<lambda>p. installed = is_installed pool p \<and> nevra_of pool p = n) (pl_ids pool)))"
proof -
  obtain name evr arch where n: "n = name @ ''-'' @ evr @ ''.'' @ arch" and parts: "nevra_parts name evr arch"
    using assms(2) by (auto simp: nevra_ok_def)
  have id: "pl_id2str pool i = s \<longleftrightarrow> pl_strings pool s \<and> pl_str2id pool s = i"
    if "pl_strings pool (pl_id2str pool i)" "pl_str2id pool (pl_id2str pool i) = i" for i s
    using that assms(1) by (auto simp: pool_ok_def)
  have nz: "pl_strings pool s \<Longrightarrow> pl_str2id pool s \<noteq> 0" for s using assms(1) by (auto simp: pool_ok_def)
  have eq: "nevra_of pool p = n \<longleftrightarrow> (pl_strings pool name \<and> pl_str2id pool name = sv_name (pl_solvable pool p))
      \<and> (pl_strings pool evr \<and> pl_str2id pool evr = sv_evr (pl_solvable pool p))
      \<and> (pl_strings pool arch \<and> pl_str2id pool arch = sv_arch (pl_solvable pool p))" if "p \<in> set (pl_ids pool)" for p
  proof -
    have p: "nevra_parts (name_of pool p) (evr_of pool p) (arch_of pool p)"
      and i: "\<forall>i \<in> {sv_name (pl_solvable pool p), sv_evr (pl_solvable pool p), sv_arch (pl_solvable pool p)}.
               pl_strings pool (pl_id2str pool i) \<and> pl_str2id pool (pl_id2str pool i) = i"
      using assms(1) that unfolding pool_ok_def by blast+
    have "nevra_of pool p = n \<longleftrightarrow> name_of pool p = name \<and> evr_of pool p = evr \<and> arch_of pool p = arch"
      unfolding nevra_of_def n by (rule nevra_eq [OF p parts])
    then show ?thesis using i by (simp add: name_of_def evr_of_def arch_of_def id)
  qed
  show ?thesis
  proof (cases "pl_strings pool name \<and> pl_strings pool evr \<and> pl_strings pool arch")
    case True
    then show ?thesis
      using eq nz by (simp add: SolvFindSolvablesByNevraStr_def n [symmetric] split_nevra_ok [OF parts, folded n]
          pool_str2id_def SolvFindSolvablesByNevraId_def Let_def) (intro filter_cong refl; force)
  next
    case False
    then show ?thesis
      using eq by (auto simp: SolvFindSolvablesByNevraStr_def split_nevra_ok [OF parts, folded n] pool_str2id_def Let_def)
  qed
qed


section \<open>The packages of a goal\<close>

definition with_nevra :: "pool \<Rightarrow> bool \<Rightarrow> string \<Rightarrow> nat list" where
  "with_nevra pool installed n = filter (\<lambda>p. installed = is_installed pool p \<and> nevra_of pool p = n) (pl_ids pool)"

text \<open>The NEVRAs of a history can be looked up.\<close>

definition names_usable :: "history_db \<Rightarrow> bool" where
  "names_usable d \<longleftrightarrow> (\<forall>n \<in> snd ` set (rpm_rows d). (is_gpg_key n \<or> nevra_ok n) \<and> length n \<le> TDNF_DEFAULT_MAX_STRING_LEN)"

definition usable :: "history_nevra_map \<Rightarrow> int \<Rightarrow> string \<Rightarrow> bool" where
  "usable hnm i n \<longleftrightarrow> history_get_nevra (Some hnm) i = Some n \<and> (is_gpg_key n \<or> nevra_ok n)
     \<and> length n \<le> TDNF_DEFAULT_MAX_STRING_LEN"

lemma resolve_added_ok:
  assumes "pool_ok pool" and "list_all2 (usable hnm) is ns" and "length unresolved + length is \<le> n"
  shows "resolve_added pool n hnm is (qInstall, unresolved) = Some (Inr
     (qInstall @ concat (map (\<lambda>n. if is_gpg_key n \<or> with_nevra pool False n = [] \<or> with_nevra pool True n \<noteq> [] then []
         else [hd (with_nevra pool False n)]) ns),
      unresolved @ filter (\<lambda>n. \<not> is_gpg_key n \<and> with_nevra pool False n = []) ns))"
  using assms(2,3)
proof (induction "is" ns arbitrary: qInstall unresolved rule: list_all2_induct)
  case (Cons i "is" m ns)
  have m: "history_get_nevra (Some hnm) i = Some m" "is_gpg_key m \<or> nevra_ok m" "length m \<le> TDNF_DEFAULT_MAX_STRING_LEN"
    using Cons.hyps(1) by (auto simp: usable_def)
  have find: "SolvFindSolvablesByNevraStr pool m b = Some (Inr (with_nevra pool b m))" if "\<not> is_gpg_key m" for b
    using NevraStr_finds [OF assms(1)] m(2) that by (simp add: with_nevra_def)
  have alloc: "TDNFAllocateString (Some m) = Inr m" using m(3) by (simp add: TDNFAllocateString_def)
  show ?case
    using m(1) find Cons.IH Cons.prems by (cases "is_gpg_key m") (simp_all add: alloc)
qed simp

lemma resolve_removed_ok:
  assumes "pool_ok pool" and "list_all2 (usable hnm) is ns"
  shows "resolve_removed pool hnm is qErase = Some (Inr (qErase @ concat (map (with_nevra pool True)
     (filter (\<lambda>n. \<not> is_gpg_key n) ns))))"
  using assms(2)
proof (induction "is" ns arbitrary: qErase rule: list_all2_induct)
  case (Cons i "is" m ns)
  have m: "history_get_nevra (Some hnm) i = Some m" "is_gpg_key m \<or> nevra_ok m" using Cons.hyps(1) by (auto simp: usable_def)
  have find: "SolvFindSolvablesByNevraStr pool m True = Some (Inr (with_nevra pool True m))" if "\<not> is_gpg_key m"
    using NevraStr_finds [OF assms(1)] m(2) that by (simp add: with_nevra_def)
  show ?case using m(1) find Cons.IH by (cases "is_gpg_key m") simp_all
qed simp

text \<open>The names of a set of ids.\<close>

lemma names_of_ids:
  assumes "log_ok d" and "names_usable d" and "\<And>i s. history_get_nevra (Some hnm) i = Some s \<longleftrightarrow> (i, s) \<in> set (rpm_rows d)"
    and "set is \<subseteq> fst ` set (rpm_rows d)"
  shows "\<exists>ns. list_all2 (usable hnm) is ns \<and> set ns = snd ` {r \<in> set (rpm_rows d). fst r \<in> set is}"
  using assms(4)
proof (induction "is")
  case (Cons i "is")
  then obtain s ns where s: "(i, s) \<in> set (rpm_rows d)" "list_all2 (usable hnm) is ns"
    and ns: "set ns = snd ` {r \<in> set (rpm_rows d). fst r \<in> set is}" by auto
  have look: "history_get_nevra (Some hnm) i = Some s" using assms(3) s(1) by simp
  have "s \<in> snd ` set (rpm_rows d)" using s(1) by (rule rev_image_eqI) simp
  with assms(2) have "(is_gpg_key s \<or> nevra_ok s) \<and> length s \<le> TDNF_DEFAULT_MAX_STRING_LEN"
    unfolding names_usable_def by (rule bspec)
  with look have "usable hnm i s" by (simp add: usable_def)
  moreover have "snd r = s" if "r \<in> set (rpm_rows d)" "fst r = i" for r
  proof -
    have "(i, snd r) \<in> set (rpm_rows d)" using that by (metis prod.collapse)
    then have "history_get_nevra (Some hnm) i = Some (snd r)" by (simp add: assms(3))
    then show ?thesis using look by simp
  qed
  then have one: "snd ` {r \<in> set (rpm_rows d). fst r = i} = {s}"
    using rev_image_eqI [of "(i, s)" "{r \<in> set (rpm_rows d). fst r = i}" s snd] s(1) by auto
  have "snd ` {r \<in> set (rpm_rows d). fst r \<in> set (i # is)}
      = snd ` {r \<in> set (rpm_rows d). fst r = i} \<union> snd ` {r \<in> set (rpm_rows d). fst r \<in> set is}" by auto
  then have "set (s # ns) = snd ` {r \<in> set (rpm_rows d). fst r \<in> set (i # is)}" using one ns by simp
  ultimately show ?case using s(2) by (intro exI [of _ "s # ns"]) simp
qed simp

lemma nevras_difference:
  assumes "log_ok d"
  shows "snd ` {r \<in> set (rpm_rows d). fst r \<in> state_at d s - state_at d t} = nevras_at d s - nevras_at d t"
proof -
  have "distinct (map snd (rpm_rows d))" using assms by (simp add: log_ok_def dict_ok_def)
  then have "r = q" if "r \<in> set (rpm_rows d)" "q \<in> set (rpm_rows d)" "snd r = snd q" for r q
    using that by (simp add: distinct_map inj_on_def)
  then have one: "{r \<in> set (rpm_rows d). snd r = snd q} = {q}" if "q \<in> set (rpm_rows d)" for q
    using that \<open>\<And>r q. \<lbrakk>r \<in> set (rpm_rows d); q \<in> set (rpm_rows d); snd r = snd q\<rbrakk> \<Longrightarrow> r = q\<close> by blast
  show ?thesis
  proof (rule set_eqI)
    fix n
    show "n \<in> snd ` {r \<in> set (rpm_rows d). fst r \<in> state_at d s - state_at d t} \<longleftrightarrow> n \<in> nevras_at d s - nevras_at d t"
    proof (cases "\<exists>q \<in> set (rpm_rows d). snd q = n")
      case True
      then obtain q where q: "q \<in> set (rpm_rows d)" "snd q = n" ..
      have *: "n \<in> snd ` {r \<in> set (rpm_rows d). P (fst r)} \<longleftrightarrow> P (fst q)" for P
      proof -
        have "n \<in> snd ` {r \<in> set (rpm_rows d). P (fst r)} \<longleftrightarrow> (\<exists>r \<in> {r \<in> set (rpm_rows d). snd r = snd q}. P (fst r))"
          unfolding image_iff using q(2) by fastforce
        also have "\<dots> \<longleftrightarrow> P (fst q)" unfolding one [OF q(1)] by simp
        finally show ?thesis .
      qed
      show ?thesis using * [of "\<lambda>i. i \<in> state_at d s"] * [of "\<lambda>i. i \<in> state_at d t"]
          * [of "\<lambda>i. i \<in> state_at d s - state_at d t"] by (simp add: nevras_at_def)
    next
      case False
      then show ?thesis by (auto simp: nevras_at_def)
    qed
  qed
qed

lemma history_plan_names:
  fixes pool ns ms
  defines "avail n \<equiv> \<exists>p \<in> set (pl_ids pool). \<not> is_installed pool p \<and> nevra_of pool p = n"
    and "inst n \<equiv> \<exists>p \<in> set (pl_ids pool). is_installed pool p \<and> nevra_of pool p = n"
    and "q \<equiv> concat (map (\<lambda>n. if is_gpg_key n \<or> with_nevra pool False n = [] \<or> with_nevra pool True n \<noteq> [] then []
         else [hd (with_nevra pool False n)]) ns)"
  shows "nevra_of pool ` set q = {n \<in> set ns. \<not> is_gpg_key n \<and> avail n \<and> \<not> inst n}"
    "\<And>p. p \<in> set q \<Longrightarrow> \<not> is_installed pool p"
    "set (filter (\<lambda>n. \<not> is_gpg_key n \<and> with_nevra pool False n = []) ns) = {n \<in> set ns. \<not> is_gpg_key n \<and> \<not> avail n}"
    "set (concat (map (with_nevra pool True) (filter (\<lambda>n. \<not> is_gpg_key n) ms))) =
      {p \<in> set (pl_ids pool). is_installed pool p \<and> nevra_of pool p \<in> set ms \<and> \<not> is_gpg_key (nevra_of pool p)}"
proof -
  have a: "with_nevra pool False n = [] \<longleftrightarrow> \<not> avail n" "with_nevra pool True n = [] \<longleftrightarrow> \<not> inst n" for n
    by (auto simp: with_nevra_def avail_def inst_def filter_empty_conv)
  have h: "nevra_of pool (hd (with_nevra pool False n)) = n \<and> \<not> is_installed pool (hd (with_nevra pool False n))" if "avail n" for n
  proof -
    have "hd (with_nevra pool False n) \<in> set (with_nevra pool False n)" using a that by (simp add: hd_in_set)
    then show ?thesis by (simp add: with_nevra_def)
  qed
  show "nevra_of pool ` set q = {n \<in> set ns. \<not> is_gpg_key n \<and> avail n \<and> \<not> inst n}"
    using h by (force simp: q_def a split: if_splits)
  show "\<And>p. p \<in> set q \<Longrightarrow> \<not> is_installed pool p" using h by (auto simp: q_def a split: if_splits)
  show "set (filter (\<lambda>n. \<not> is_gpg_key n \<and> with_nevra pool False n = []) ns) = {n \<in> set ns. \<not> is_gpg_key n \<and> \<not> avail n}"
    by (auto simp: a)
  show "set (concat (map (with_nevra pool True) (filter (\<lambda>n. \<not> is_gpg_key n) ms))) =
      {p \<in> set (pl_ids pool). is_installed pool p \<and> nevra_of pool p \<in> set ms \<and> \<not> is_gpg_key (nevra_of pool p)}"
    by (auto simp: with_nevra_def)
qed


section \<open>The plan of a rollback\<close>

definition rollback_to :: "int \<Rightarrow> history_args" where
  "rollback_to t = \<lparr>ha_nCommand = HISTORY_CMD_ROLLBACK, ha_nFrom = 0, ha_nTo = t\<rparr>"

text \<open>What a rollback reads from a synchronised history.\<close>

lemma history_deltas_rollback:
  assumes "ctx_ok ctx" and "flags_ok (cur (h_db ctx))" and "1 \<le> t" and "t \<le> h_trans_id ctx"
  shows "\<exists>delta hfd. history_deltas (rollback_to t) ctx = Some (Inr (Inr delta, hfd), ctx)
    \<and> set (added_ids delta) = state_at (cur (h_db ctx)) t - state_at (cur (h_db ctx)) (h_trans_id ctx)
    \<and> set (removed_ids delta) = state_at (cur (h_db ctx)) (h_trans_id ctx) - state_at (cur (h_db ctx)) t
    \<and> (hfd = None \<longleftrightarrow> t_names (cur (h_db ctx)) = None)"
proof -
  have c: "log_ok (cur (h_db ctx))" "faults (h_db ctx) = []" "sorted (h_installed_ids ctx)" "distinct (h_installed_ids ctx)"
    and last: "h_trans_id ctx = last_trans (cur (h_db ctx))"
    and ids: "set (h_installed_ids ctx) = state_at (cur (h_db ctx)) (h_trans_id ctx)"
    using assms(1) by (simp_all add: ctx_ok_def)
  have "flags_ready ctx" using assms(2-4) c(2) by (simp add: flags_ready_def)
  then obtain hfd where hfd: "history_get_flags_delta (h_trans_id ctx) t ctx = (Inr hfd, ctx)"
    "hfd = None \<longleftrightarrow> t_names (cur (h_db ctx)) = None" using history_get_flags_delta_runs by blast
  obtain delta where d: "history_get_delta t ctx = (Inr delta, ctx)"
    "set (removed_ids delta) = set (h_installed_ids ctx) - state_at (cur (h_db ctx)) t"
    "set (added_ids delta) = state_at (cur (h_db ctx)) t - set (h_installed_ids ctx)"
    using history_get_delta_ok [OF c assms(3) assms(4) [unfolded last]] by (elim exE conjE)
  show ?thesis
    using hfd d ids by (simp add: history_deltas_def rollback_to_def bindP_def catch_error_def history_call_def)
qed

lemma read_history_rollback:
  assumes "history_sync ts now ctx0 = (Inr (), ctx)" and "ctx_ok ctx" and "flags_ok (cur (h_db ctx))"
    and "1 \<le> t" and "t \<le> h_trans_id ctx"
  shows "\<exists>delta hfd hnm. read_history (rollback_to t) ts now ctx0 = Some (Inr (Some (delta, hfd, hnm)), ctx)
    \<and> set (added_ids delta) = state_at (cur (h_db ctx)) t - state_at (cur (h_db ctx)) (h_trans_id ctx)
    \<and> set (removed_ids delta) = state_at (cur (h_db ctx)) (h_trans_id ctx) - state_at (cur (h_db ctx)) t
    \<and> (hfd = None \<longleftrightarrow> t_names (cur (h_db ctx)) = None)
    \<and> (\<forall>i s. history_get_nevra (Some hnm) i = Some s \<longleftrightarrow> (i, s) \<in> set (rpm_rows (cur (h_db ctx))))"
proof -
  obtain delta hfd where d: "history_deltas (rollback_to t) ctx = Some (Inr (Inr delta, hfd), ctx)"
    "set (added_ids delta) = state_at (cur (h_db ctx)) t - state_at (cur (h_db ctx)) (h_trans_id ctx)"
    "set (removed_ids delta) = state_at (cur (h_db ctx)) (h_trans_id ctx) - state_at (cur (h_db ctx)) t"
    "hfd = None \<longleftrightarrow> t_names (cur (h_db ctx)) = None"
    using history_deltas_rollback [OF assms(2-5)] by (elim exE conjE)
  have "log_ok (cur (h_db ctx))" "faults (h_db ctx) = []" using assms(2) by (simp_all add: ctx_ok_def)
  then obtain hnm where n: "history_nevra_map ctx = (Inr hnm, ctx)"
    "\<forall>i s. history_get_nevra (Some hnm) i = Some s \<longleftrightarrow> (i, s) \<in> set (rpm_rows (cur (h_db ctx)))"
    using nevra_map_names by blast
  have "read_history (rollback_to t) ts now ctx0 = Some (Inr (Some (delta, hfd, hnm)), ctx)"
    using assms(1) d(1) n(1)
    by (simp add: read_history_def bindP_def history_call_def) (simp add: rollback_to_def)
  then show ?thesis using d(2-4) n(2) by (intro exI conjI)
qed

lemma state_rows:
  assumes "log_ok d"
  shows "state_at d t \<subseteq> fst ` set (rpm_rows d)"
proof -
  have "keys_ok (map fst (rpm_rows d))" using assms by (simp add: log_ok_def dict_ok_def)
  then have "map fst (rpm_rows d) = [1..int (length (rpm_rows d))]" unfolding keys_ok_def length_map .
  then have "fst ` set (rpm_rows d) = set [1..int (length (rpm_rows d))]" by (metis set_map)
  then have "fst ` set (rpm_rows d) = {1..int (length (rpm_rows d))}" by simp
  then show ?thesis using state_at_bound [OF assms] by simp
qed

text \<open>The names that the ids of a difference of two states stand for.\<close>

lemma names_of_difference:
  assumes "log_ok d" and "names_usable d" and "\<forall>i s. history_get_nevra (Some hnm) i = Some s \<longleftrightarrow> (i, s) \<in> set (rpm_rows d)"
    and "set is = state_at d s - state_at d t"
  shows "\<exists>ns. list_all2 (usable hnm) is ns \<and> set ns = nevras_at d s - nevras_at d t"
proof -
  have "set is \<subseteq> fst ` set (rpm_rows d)" using state_rows [OF assms(1), of s] assms(4) by auto
  from names_of_ids [OF assms(1,2) _ this, of hnm] assms(3)
  show ?thesis unfolding assms(4) nevras_difference [OF assms(1)] by blast
qed


definition available_nevra :: "pool \<Rightarrow> string \<Rightarrow> bool" where
  "available_nevra pool n \<longleftrightarrow> (\<exists>p \<in> set (pl_ids pool). \<not> is_installed pool p \<and> nevra_of pool p = n)"

definition installed_nevra :: "pool \<Rightarrow> string \<Rightarrow> bool" where
  "installed_nevra pool n \<longleftrightarrow> (\<exists>p \<in> set (pl_ids pool). is_installed pool p \<and> nevra_of pool p = n)"

text \<open>A rollback is the goal of a plan, and what follows it.\<close>

lemma HistoryResolve_plan:
  assumes "wd_db w = Some c" and "create_history_ctx c = Some ctx" and "sync_ready ts (cur (h_db ctx))"
    and "faults (h_db ctx) = []" and "saved (h_db ctx) = None" and "history_sync ts now ctx = (r, ctx')"
    and "flags_ok (cur (h_db ctx'))" and "names_usable (cur (h_db ctx'))" and "pool_ok (wd_pool w)"
    and "1 \<le> t" and "t \<le> h_trans_id ctx'"
  defines "target \<equiv> nevras_at (cur (h_db ctx')) t" and "now_installed \<equiv> set (rv_nevras ts)"
  shows "\<exists>qInstall qErase unresolved hfd.
     TDNFHistoryResolve env (rollback_to t) ts now w =
       bindP (TDNFHistoryGoal env qInstall qErase) (\<lambda>info. bindP (history_result unresolved hfd info) (\<lambda>info. returnP (Some info)))
         (w\<lparr>wd_db := Some (close_conn (h_db ctx'))\<rparr>)
     \<and> nevra_of (wd_pool w) ` set qInstall = {n \<in> target - now_installed. \<not> is_gpg_key n
          \<and> available_nevra (wd_pool w) n \<and> \<not> installed_nevra (wd_pool w) n}
     \<and> (\<forall>p \<in> set qInstall. \<not> is_installed (wd_pool w) p)
     \<and> set qErase = {p \<in> set (pl_ids (wd_pool w)). is_installed (wd_pool w) p
          \<and> nevra_of (wd_pool w) p \<in> now_installed - target \<and> \<not> is_gpg_key (nevra_of (wd_pool w) p)}
     \<and> set (case unresolved of None \<Rightarrow> [] | Some l \<Rightarrow> l) =
          {n \<in> target - now_installed. \<not> is_gpg_key n \<and> \<not> available_nevra (wd_pool w) n}
     \<and> (hfd = None \<longleftrightarrow> t_names (cur (h_db ctx')) = None)"
proof -
  let ?d = "cur (h_db ctx')" and ?pool = "wd_pool w" and ?w = "w\<lparr>wd_db := Some (close_conn (h_db ctx'))\<rparr>"
  have ok: "r = Inr ()" "ctx_ok ctx'" "nevras_at ?d (h_trans_id ctx') = now_installed"
    using history_sync_ok [OF assms(3-6)] by (simp_all add: now_installed_def)
  have log: "log_ok ?d" using ok(2) by (simp add: ctx_ok_def)
  obtain delta hfd hnm where r: "read_history (rollback_to t) ts now ctx = Some (Inr (Some (delta, hfd, hnm)), ctx')"
    and ids: "set (added_ids delta) = state_at ?d t - state_at ?d (h_trans_id ctx')"
      "set (removed_ids delta) = state_at ?d (h_trans_id ctx') - state_at ?d t"
    and hfd: "hfd = None \<longleftrightarrow> t_names ?d = None"
    and names: "\<forall>i s. history_get_nevra (Some hnm) i = Some s \<longleftrightarrow> (i, s) \<in> set (rpm_rows ?d)"
    using read_history_rollback [OF assms(6) [unfolded ok(1)] ok(2) assms(7,10,11)] by (elim exE conjE)
  obtain ns where ns: "list_all2 (usable hnm) (added_ids delta) ns" "set ns = target - now_installed"
    using names_of_difference [OF log assms(8) names ids(1)] unfolding ok(3) target_def [symmetric] by (elim exE conjE)
  obtain ms where ms: "list_all2 (usable hnm) (removed_ids delta) ms" "set ms = now_installed - target"
    using names_of_difference [OF log assms(8) names ids(2)] unfolding ok(3) target_def [symmetric] by (elim exE conjE)
  define qInstall unresolved where "qInstall = concat (map (\<lambda>n. if is_gpg_key n \<or> with_nevra ?pool False n = []
         \<or> with_nevra ?pool True n \<noteq> [] then [] else [hd (with_nevra ?pool False n)]) ns)"
    and "unresolved = filter (\<lambda>n. \<not> is_gpg_key n \<and> with_nevra ?pool False n = []) ns"
  define qErase where "qErase = concat (map (with_nevra ?pool True) (filter (\<lambda>n. \<not> is_gpg_key n) ms))"
  have "length ([] :: string list) + length (added_ids delta) \<le> length (added_ids delta) + 1" by simp
  from resolve_added_ok [OF assms(9) ns(1) this, of "[]"]
  have added: "resolve_added ?pool (length (added_ids delta) + 1) hnm (added_ids delta) ([], []) = Some (Inr (qInstall, unresolved))"
    by (simp add: qInstall_def unresolved_def)
  have removed: "resolve_removed ?pool hnm (removed_ids delta) [] = Some (Inr qErase)"
    using resolve_removed_ok [OF assms(9) ms(1), of "[]"] by (simp add: qErase_def)
  define un where "un = (if added_ids delta = [] then None else Some unresolved)"
  have h: "with_history True (read_history (rollback_to t) ts now) w = Some (Inr (Some (delta, hfd, hnm)), ?w)"
    using assms(1,2) r by (simp add: with_history_def TDNFGetHistoryCtx_def history_ctx_of_def bindP_def)
  have p: "wd_pool ?w = ?pool" by simp
  have a: "history_args_ok (rollback_to t)" "ha_nCommand (rollback_to t) \<noteq> HISTORY_CMD_INIT"
    using assms(10) by (simp_all add: history_args_ok_def rollback_to_def)
  have empty: "added_ids delta = [] \<Longrightarrow> qInstall = []" using ns(1) by (simp add: qInstall_def)
  have plan: "TDNFHistoryResolve env (rollback_to t) ts now w =
      bindP (TDNFHistoryGoal env qInstall qErase) (\<lambda>info. bindP (history_result un hfd info) (\<lambda>info. returnP (Some info))) ?w"
    by (simp add: TDNFHistoryResolve_def a bindP_def [where m = "with_history True (read_history (rollback_to t) ts now)"] h
        bindP_def [where m = get_pool] get_pool_def added [simplified] removed un_def empty)
  have "set (case un of None \<Rightarrow> [] | Some l \<Rightarrow> l) = set unresolved"
    using ns(1) by (auto simp: un_def unresolved_def)
  moreover note history_plan_names(1-3) [where pool = ?pool and ns = ns, folded available_nevra_def installed_nevra_def
      qInstall_def unresolved_def]
  moreover note history_plan_names(4) [where pool = ?pool and ms = ms, folded qErase_def]
  ultimately show ?thesis
    using plan hfd ns(2) ms(2)
    by (intro exI [of _ qInstall] exI [of _ qErase] exI [of _ un] exI [of _ hfd]) simp
qed



text \<open>A database of two transactions: the second installed \<^verbatim>\<open>bar\<close> and removed the newest \<^verbatim>\<open>foo\<close>.\<close>

definition rollback_db :: "(int \<times> string) list option \<Rightarrow> history_db" where
  "rollback_db names = \<lparr>t_rpms = Some [(1, ''foo-1-1.noarch''), (2, ''foo-2-1.noarch''), (3, ''bar-1-1.noarch''), (4, ''foo-3-1.noarch'')],
     t_names = names,
     t_transactions = Some
       [\<lparr>tr_id = 1, tr_cookie = Some ''c1'', tr_cmdline = Some ''(set)'', tr_timestamp = 10, tr_type = 0\<rparr>,
        \<lparr>tr_id = 2, tr_cookie = Some ''c2'', tr_cmdline = Some ''downgrade'', tr_timestamp = 20, tr_type = 1\<rparr>],
     t_trans_items = Some
       [\<lparr>it_id = 1, it_trans_id = 1, it_type = 0, it_rpm_id = 1\<rparr>, \<lparr>it_id = 2, it_trans_id = 1, it_type = 0, it_rpm_id = 2\<rparr>,
        \<lparr>it_id = 3, it_trans_id = 1, it_type = 0, it_rpm_id = 4\<rparr>,
        \<lparr>it_id = 4, it_trans_id = 2, it_type = 1, it_rpm_id = 3\<rparr>, \<lparr>it_id = 5, it_trans_id = 2, it_type = 2, it_rpm_id = 4\<rparr>],
     t_flag_set = (case names of None \<Rightarrow> None | Some _ \<Rightarrow> Some [])\<rparr>"

definition rollback_conn :: "(int \<times> string) list option \<Rightarrow> conn" where
  "rollback_conn names = \<lparr>cur = rollback_db names, saved = None, faults = []\<rparr>"

definition rollback_view :: rpm_view where
  "rollback_view = \<lparr>rv_cookie = Some ''c2'', rv_nevras = [''foo-1-1.noarch'', ''foo-2-1.noarch'', ''bar-1-1.noarch'']\<rparr>"

definition rollback_ctx :: "(int \<times> string) list option \<Rightarrow> int list \<Rightarrow> history_ctx" where
  "rollback_ctx names ids = \<lparr>h_db = rollback_conn names, h_installed_ids = ids, h_cookie = Some ''c2'', h_trans_id = 2\<rparr>"

lemma rollback_log_ok: "log_ok (rollback_db names)"
  by (simp add: log_ok_def rollback_db_def dict_ok_def keys_ok_def upto_rec1 rpm_rows_def
      trans_list_def item_list_def trans_type_def item_ok_def last_trans_def no_conflict_def numeral_eq_Suc)

lemma rollback_states: "state_at (rollback_db names) 1 = {1, 2, 4}" "state_at (rollback_db names) 2 = {1, 2, 3}"
  by (auto simp: state_at_def upto_rec1 entry_def trans_type_def trans_list_def item_list_def
      rollback_db_def ids_typed_def numeral_2_eq_2)

lemma rollback_nevras:
  "nevras_at (rollback_db names) 1 = {''foo-1-1.noarch'', ''foo-2-1.noarch'', ''foo-3-1.noarch''}"
  "nevras_at (rollback_db names) 2 = {''foo-1-1.noarch'', ''foo-2-1.noarch'', ''bar-1-1.noarch''}"
  unfolding nevras_at_def rollback_states by (auto simp: rollback_db_def rpm_rows_def image_iff)

lemma rollback_dict: "dict_ok (rpm_rows (rollback_db names))"
  using rollback_log_ok by (simp add: log_ok_def)

lemma rollback_learns: "db_update_rpms (rv_nevras rollback_view) (rollback_conn names) = (Inr [1, 2, 3], rollback_conn names)"
proof -
  have "sort (dict_ids (rv_nevras rollback_view) (rpm_rows (rollback_db names))) = [1, 2, 3]"
    "fold dict_insert (rv_nevras rollback_view) (rpm_rows (rollback_db names)) = rpm_rows (rollback_db names)"
    by (simp_all add: rollback_view_def rollback_db_def rpm_rows_def dict_ids_def dict_id_def dict_insert_def)
  moreover have "(rollback_db names)\<lparr>t_rpms := Some (rpm_rows (rollback_db names))\<rparr> = rollback_db names"
    by (simp add: rollback_db_def rpm_rows_def)
  moreover have "faults (rollback_conn names) = []" "cur (rollback_conn names) = rollback_db names"
    "(rollback_conn names)\<lparr>cur := rollback_db names\<rparr> = rollback_conn names"
    by (simp_all add: rollback_conn_def)
  ultimately show ?thesis
    using db_update_rpms_ok [of "rollback_conn names" "rv_nevras rollback_view"] rollback_dict [of names] by simp
qed

lemma rollback_opens: "create_history_ctx (rollback_conn names) = Some (rollback_ctx names [])"
  by (simp add: create_history_ctx_def rollback_conn_def rollback_db_def rollback_ctx_def sql_simps order_by_desc_def
      Let_def bnd_def)

lemma rollback_syncs: "history_sync rollback_view now (rollback_ctx names []) = (Inr (), rollback_ctx names [1, 2, 3])"
proof -
  have *: "sync_existing rollback_view ''c2'' now (rollback_ctx names []) = (Inr False, rollback_ctx names [1, 2, 3])"
  proof -
    have "faults (rollback_conn names) = []" by (simp add: rollback_conn_def)
    moreover have "t_transactions (cur (rollback_conn names)) = Some (trans_list (rollback_db names))"
      by (simp add: rollback_conn_def rollback_db_def trans_list_def)
    moreover have "order_by_desc tr_id (trans_list (rollback_db names)) =
      [\<lparr>tr_id = 2, tr_cookie = Some ''c2'', tr_cmdline = Some ''downgrade'', tr_timestamp = 20, tr_type = 1\<rparr>,
       \<lparr>tr_id = 1, tr_cookie = Some ''c1'', tr_cmdline = Some ''(set)'', tr_timestamp = 10, tr_type = 0\<rparr>]"
      by (simp add: rollback_db_def trans_list_def order_by_desc_def)
    ultimately show ?thesis
      using rollback_learns [of names]
      by (simp add: sync_existing_def rollback_ctx_def on_db_def bnd_def sql_simps history_set_cookie_def)
  qed
  show ?thesis
  proof -
    have "rv_cookie rollback_view = Some ''c2''" by (simp add: rollback_view_def)
    moreover have "(rollback_ctx names [])\<lparr>h_db := h_db (rollback_ctx names [])\<rparr> = rollback_ctx names []" by simp
    moreover have "db_table_exists t_transactions (h_db (rollback_ctx names [])) = (SQLITE_ROW, h_db (rollback_ctx names []))"
      by (simp add: sql_simps rollback_ctx_def rollback_conn_def rollback_db_def)
    ultimately show ?thesis using * by (simp add: history_sync_def bnd_def)
  qed
qed

lemma rollback_usable: "flags_ok (rollback_db names) \<longleftrightarrow> dict_ok (name_rows (rollback_db names))"
  "names_usable (rollback_db names)"
proof -
  show "flags_ok (rollback_db names) \<longleftrightarrow> dict_ok (name_rows (rollback_db names))"
    by (cases names) (auto simp: flags_ok_def rollback_db_def flag_rows_def)
  have parts: "nevra_parts n (v @ ''-1'') ''noarch''" if "n \<noteq> []" "CHR ''-'' \<notin> set v" for n v
    unfolding nevra_parts_def using that by (intro conjI exI [where x = v] exI [where x = "''1''"]) simp_all
  have ok: "nevra_ok (n @ ''-'' @ (v @ ''-1'') @ ''.'' @ ''noarch'')" if "n \<noteq> []" "CHR ''-'' \<notin> set v" for n v
    unfolding nevra_ok_def using parts [OF that] by blast
  have "nevra_ok ''foo-1-1.noarch''" "nevra_ok ''foo-2-1.noarch''" "nevra_ok ''foo-3-1.noarch''" "nevra_ok ''bar-1-1.noarch''"
    using ok [of "''foo''" "''1''"] ok [of "''foo''" "''2''"] ok [of "''foo''" "''3''"] ok [of "''bar''" "''1''"] by simp_all
  then show "names_usable (rollback_db names)"
    by (simp add: names_usable_def rollback_db_def rpm_rows_def TDNF_DEFAULT_MAX_STRING_LEN_def)
qed

lemma sample_pool_ok: "pool_ok sample_pool"
proof -
  have parts: "nevra_parts n (v @ ''-1'') ''noarch''" if "n \<noteq> []" "CHR ''-'' \<notin> set v" for n v
    unfolding nevra_parts_def using that by (intro conjI exI [where x = v] exI [where x = "''1''"]) simp_all
  have "nevra_parts n e ''noarch''" if "n \<in> {''foo'', ''bar''}" "e \<in> {''1-1'', ''2-1'', ''3-1''}" for n e
    using that parts [of n "''1''"] parts [of n "''2''"] parts [of n "''3''"] by auto
  then show ?thesis
    by (simp add: pool_ok_def sample_pool_def name_of_def evr_of_def arch_of_def sample_lookup_def sample_solvables_def
        sample_solvable_def sample_strings_def)
qed

definition rollback_world :: "(int \<times> string) list option \<Rightarrow> world" where
  "rollback_world names = \<lparr>wd_pool = sample_pool, wd_db = Some (rollback_conn names)\<rparr>"

lemma rollback_setup:
  "wd_db (rollback_world names) = Some (rollback_conn names)" "wd_pool (rollback_world names) = sample_pool"
  "cur (h_db (rollback_ctx names ids)) = rollback_db names" "faults (h_db (rollback_ctx names ids)) = []"
  "saved (h_db (rollback_ctx names ids)) = None" "h_trans_id (rollback_ctx names ids) = 2"
  by (simp_all add: rollback_world_def rollback_ctx_def rollback_conn_def)

lemma rollback_ready: "sync_ready rollback_view (rollback_db names)"
proof -
  have "last_trans (rollback_db names) = 2" by (simp add: last_trans_def trans_list_def rollback_db_def)
  then show ?thesis
    using rollback_log_ok [of names] rollback_nevras(2) [of names]
    by (simp add: sync_ready_def rollback_view_def) (simp add: last_cookie_def trans_list_def rollback_db_def)
qed

lemma sample_nevras:
  "nevra_of sample_pool 2 = ''foo-1-1.noarch''" "nevra_of sample_pool 3 = ''foo-2-1.noarch''"
  "nevra_of sample_pool 4 = ''foo-3-1.noarch''" "nevra_of sample_pool 5 = ''bar-1-1.noarch''"
  "nevra_of sample_pool 6 = ''bar-1-1.noarch''" "pl_ids sample_pool = [2, 3, 4, 5, 6]"
  by (simp_all add: nevra_of_def sample_pool_names arch_of_def)
     (simp_all add: sample_pool_def sample_lookup_def sample_solvables_def sample_solvable_def sample_strings_def)

lemma sample_is_installed: "is_installed sample_pool p \<longleftrightarrow> p \<in> {2, 3, 6}"
  by (simp add: is_installed_def pool_id2solvable_def sample_pool_def sample_lookup_def sample_solvables_def
      sample_solvable_def)

lemma rollback_flags_ok: "flags_ok (rollback_db None)" "names_usable (rollback_db None)"
proof -
  have "name_rows (rollback_db None) = []" by (simp add: name_rows_def rollback_db_def)
  then show "flags_ok (rollback_db None)" using rollback_usable(1) [of None] by (simp add: dict_ok_def)
qed (rule rollback_usable)



text \<open>Without recorded names of flags, going back to the present state is undefined: the delta of the flags is NULL, and
  it is read when no package has to change.\<close>

theorem HistoryResolve_null_flags:
  assumes "wd_db w = Some c" and "create_history_ctx c = Some ctx" and "sync_ready ts (cur (h_db ctx))"
    and "faults (h_db ctx) = []" and "saved (h_db ctx) = None" and "history_sync ts now ctx = (r, ctx')"
    and "flags_ok (cur (h_db ctx'))" and "names_usable (cur (h_db ctx'))" and "pool_ok (wd_pool w)"
    and "1 \<le> h_trans_id ctx'" and "t_names (cur (h_db ctx')) = None"
    and "TDNFHistoryGoal env [] [] (w\<lparr>wd_db := Some (close_conn (h_db ctx'))\<rparr>) = Some (Inr info, w')" and "\<not> needs_action info"
  shows "TDNFHistoryResolve env (rollback_to (h_trans_id ctx')) ts now w = None"
proof -
  have same: "nevras_at (cur (h_db ctx')) (h_trans_id ctx') = set (rv_nevras ts)"
    using history_sync_ok [OF assms(3-6)] by simp
  obtain qInstall qErase unresolved hfd where plan: "TDNFHistoryResolve env (rollback_to (h_trans_id ctx')) ts now w =
       bindP (TDNFHistoryGoal env qInstall qErase) (\<lambda>info. bindP (history_result unresolved hfd info) (\<lambda>info. returnP (Some info)))
         (w\<lparr>wd_db := Some (close_conn (h_db ctx'))\<rparr>)"
    and q: "nevra_of (wd_pool w) ` set qInstall = {n \<in> set (rv_nevras ts) - set (rv_nevras ts). \<not> is_gpg_key n
          \<and> available_nevra (wd_pool w) n \<and> \<not> installed_nevra (wd_pool w) n}"
    and e: "set qErase = {p \<in> set (pl_ids (wd_pool w)). is_installed (wd_pool w) p
          \<and> nevra_of (wd_pool w) p \<in> set (rv_nevras ts) - set (rv_nevras ts) \<and> \<not> is_gpg_key (nevra_of (wd_pool w) p)}"
    and f: "hfd = None \<longleftrightarrow> t_names (cur (h_db ctx')) = None"
    using HistoryResolve_plan [OF assms(1-10) order_refl, of env] unfolding same by (elim exE conjE)
  have "qInstall = []" "qErase = []" "hfd = None" using q e f assms(11) by simp_all
  then show ?thesis
    using plan assms(12,13) by (simp add: bindP_def history_result_def Let_def needs_action_def)
qed

lemma rollback_idle:
  "\<exists>info. TDNFHistoryGoal sample_env [] [] ((rollback_world None)\<lparr>wd_db := Some c\<rparr>)
       = Some (Inr info, (rollback_world None)\<lparr>wd_db := Some c\<rparr>) \<and> \<not> needs_action info"
proof -
  define jobs where "jobs = [(0xb01, 2), (0xb01, 3), (0xa01, 6) :: job]"
  define tr :: transaction where "tr = \<lparr>tn_steps = [], tn_type = (\<lambda>p m. SOLVER_TRANSACTION_ERASE)\<rparr>"
  have e: "erasing_jobs (ge_conf sample_env) sample_pool True [] = Inr (jobs, False)"
    by (simp add: erasing_jobs_def conf_defaults_def TDNFSolvAddProtectPkgs_def protected_ids_def pool_str2id_def
      sample_pool_ids sample_installed sample_sv_name erases_protected_def Let_def jobs_def)
  have "snd (ge_solve sample_env sample_pool False jobs) = Some tr" "fst (ge_solve sample_env sample_pool False jobs) = []"
    by (simp_all add: sample_env_def sample_pool_def tr_def jobs_def)
  then have s: "solve_loop sample_env sample_pool False jobs = Some (Inr tr)"
    by (simp add: solve_loop_def solve_round_def case_prod_beta conf_defaults_def TDNFSolvCheckProtectPkgsInTrans_def
        protected_ids_def pool_str2id_def sample_pool_ids sample_sv_name tr_def Let_def)
  obtain info where "TDNFGoalGetAllResultsIgnoreNoData sample_pool tr False = Inr info" "\<not> needs_action info"
    by (simp add: TDNFGoalGetAllResultsIgnoreNoData_def TDNFGetPackagesWithSpecifiedType_def tr_def needs_action_def
        SolvGetTransResultsWithType_def SolvQueueToPackageList_def TDNFGetDownGradePackages_def TDNFPopulatePkgInfos_def)
  then show ?thesis
    using e s by (simp add: TDNFHistoryGoal_def TDNFPkgsToExclude_def conf_defaults_def bindP_def get_pool_def
        rollback_world_def TDNFSolv_def Let_def SolvAddFlagsToJobs_def set_pool_def TDNFSolvAddPkgLocks_def
        TDNFSolvAddInstallOnlyPkgs_def jobs_for_installed_def TDNFSolvAddMinVersions_def TDNFAddUserInstall_def needs_action_def)
qed

theorem HistoryResolve_null_flags_witness:
  "TDNFHistoryResolve sample_env (rollback_to 2) rollback_view 5 (rollback_world None) = None"
proof -
  note r = rollback_setup [of None]
  have f: "flags_ok (cur (h_db (rollback_ctx None [1, 2, 3])))" "names_usable (cur (h_db (rollback_ctx None [1, 2, 3])))"
    and ready: "sync_ready rollback_view (cur (h_db (rollback_ctx None [])))"
    and pool: "pool_ok (wd_pool (rollback_world None))" and h: "1 \<le> h_trans_id (rollback_ctx None [1, 2, 3])"
    by (simp_all add: r rollback_ready rollback_flags_ok sample_pool_ok)
  have n: "t_names (cur (h_db (rollback_ctx None [1, 2, 3]))) = None" by (simp add: r) (simp add: rollback_db_def)
  obtain info where g: "TDNFHistoryGoal sample_env [] [] ((rollback_world None)\<lparr>wd_db := Some (close_conn (h_db (rollback_ctx None [1, 2, 3])))\<rparr>)
       = Some (Inr info, (rollback_world None)\<lparr>wd_db := Some (close_conn (h_db (rollback_ctx None [1, 2, 3])))\<rparr>)"
    and i: "\<not> needs_action info" using rollback_idle by blast
  show ?thesis
    using HistoryResolve_null_flags [OF r(1) rollback_opens ready r(4,5) rollback_syncs f pool h n g i] by (simp add: r)
qed

end
