(* ===== verification/Repo_Files.thy ===== *)
theory Repo_Files
  imports Conf_Repos "HOL-Library.AList"
begin

text \<open>
  Files and directories, as far as the caches of repositories need them, and the functions of \<^verbatim>\<open>client/utils.c\<close>,
  \<^verbatim>\<open>common/utils.c\<close> and \<^verbatim>\<open>client/repoutils.c\<close> on them. The file system is a record that other worlds extend: the nodes by the
  components of their paths, the errors with which calls are denied (0 for none), and the time. A path is resolved the way
  POSIX does where there are no symbolic links; the working directory is the root.
\<close>

section \<open>The file system\<close>

datatype file_node = Dir | File (file_text: string) (file_ctime: int)

datatype sys_call = SYS_ACCESS | SYS_STAT | SYS_MKDIR | SYS_OPEN | SYS_WRITE | SYS_RENAME | SYS_CHMOD | SYS_UNLINK
  | SYS_RMDIR | SYS_REMOVE

record files =
  fs_nodes :: "(string list \<times> file_node) list"
  fs_deny :: "sys_call \<Rightarrow> string list \<Rightarrow> nat"
  fs_now :: int

abbreviation (input) ENOTDIR :: nat where "ENOTDIR \<equiv> 20"
abbreviation (input) EISDIR :: nat where "EISDIR \<equiv> 21"
abbreviation (input) ENOTEMPTY :: nat where "ENOTEMPTY \<equiv> 39"
abbreviation (input) ERROR_TDNF_FILE_NOT_FOUND :: errcode where
  "ERROR_TDNF_FILE_NOT_FOUND \<equiv> ERROR_TDNF_SYSTEM_BASE + ENOENT"
abbreviation (input) ERROR_TDNF_NO_DATA :: errcode where "ERROR_TDNF_NO_DATA \<equiv> ERROR_TDNF_SYSTEM_BASE + 61"
abbreviation (input) ERROR_TDNF_INVALID_CONF :: errcode where "ERROR_TDNF_INVALID_CONF \<equiv> 1010"

text \<open>The components of a path, in reverse while they are collected.\<close>

fun split_path :: "string \<Rightarrow> string \<Rightarrow> string list" where
  "split_path [] cur = [rev cur]"
| "split_path (c # cs) cur = (if c = CHR ''/'' then rev cur # split_path cs [] else split_path cs (c # cur))"

fun resolve_names :: "string list \<Rightarrow> string list \<Rightarrow> string list" where
  "resolve_names [] dirs = rev dirs"
| "resolve_names (n # ns) dirs =
     (if n = [] \<or> n = ''.'' then resolve_names ns dirs
      else if n = ''..'' then resolve_names ns (tl dirs)
      else resolve_names ns (n # dirs))"

definition resolve :: "string \<Rightarrow> string list" where
  "resolve path = resolve_names (split_path path []) []"

definition node_at :: "'z files_scheme \<Rightarrow> string list \<Rightarrow> file_node option" where
  "node_at w k = (if k = [] then Some Dir else map_of (fs_nodes w) k)"

definition put_node :: "string list \<Rightarrow> file_node \<Rightarrow> 'z files_scheme \<Rightarrow> 'z files_scheme" where
  "put_node k n w = w\<lparr>fs_nodes := AList.update k n (fs_nodes w)\<rparr>"

definition del_node :: "string list \<Rightarrow> 'z files_scheme \<Rightarrow> 'z files_scheme" where
  "del_node k w = w\<lparr>fs_nodes := AList.delete k (fs_nodes w)\<rparr>"

lemma node_at_root [simp]: "node_at w [] = Some Dir"
  by (simp add: node_at_def)

lemma node_at_put: "node_at (put_node k n w) k' = (if k' = [] then Some Dir else if k' = k then Some n else node_at w k')"
  by (simp add: node_at_def put_node_def update_conv')

lemma node_at_del: "node_at (del_node k w) k' = (if k' = [] then Some Dir else if k' = k then None else node_at w k')"
  by (simp add: node_at_def del_node_def delete_conv')

lemma put_node_fields [simp]: "fs_deny (put_node k n w) = fs_deny w" "fs_now (put_node k n w) = fs_now w"
  "fs_deny (del_node k w) = fs_deny w" "fs_now (del_node k w) = fs_now w"
  by (simp_all add: put_node_def del_node_def)

lemma put_node_more [simp]: "files.more (put_node k n w) = files.more w" "files.more (del_node k w) = files.more w"
  by (simp_all add: put_node_def del_node_def)

section \<open>System calls\<close>

text \<open>A call answers 0 or the value of \<^verbatim>\<open>errno\<close>. A path with a file among the directories above it is no path.\<close>

definition missing :: "'z files_scheme \<Rightarrow> string list \<Rightarrow> nat" where
  "missing w k = (if list_ex (\<lambda>j. case node_at w (take j k) of Some (File _ _) \<Rightarrow> True | _ \<Rightarrow> False) [0..<length k]
     then ENOTDIR else ENOENT)"

lemma missing_not_zero [simp]: "missing w k \<noteq> 0" "0 < missing w k"
  by (simp_all add: missing_def)

definition sys_access :: "string \<Rightarrow> 'z files_scheme \<Rightarrow> nat" where
  "sys_access p w =
     (if fs_deny w SYS_ACCESS (resolve p) \<noteq> 0 then fs_deny w SYS_ACCESS (resolve p)
      else if node_at w (resolve p) = None then missing w (resolve p) else 0)"

definition stat_path :: "string \<Rightarrow> 'z files_scheme \<Rightarrow> nat + file_node" where
  "stat_path p w =
     (if fs_deny w SYS_STAT (resolve p) \<noteq> 0 then Inl (fs_deny w SYS_STAT (resolve p))
      else (case node_at w (resolve p) of None \<Rightarrow> Inl (missing w (resolve p)) | Some n \<Rightarrow> Inr n))"

definition sys_open :: "string \<Rightarrow> 'z files_scheme \<Rightarrow> nat + string" where
  "sys_open p w =
     (if fs_deny w SYS_OPEN (resolve p) \<noteq> 0 then Inl (fs_deny w SYS_OPEN (resolve p))
      else (case node_at w (resolve p) of None \<Rightarrow> Inl (missing w (resolve p)) | Some Dir \<Rightarrow> Inl EISDIR | Some (File t _) \<Rightarrow> Inr t))"

definition sys_mkdir :: "string \<Rightarrow> 'z files_scheme \<Rightarrow> nat \<times> 'z files_scheme" where
  "sys_mkdir p w =
     (let k = resolve p in if fs_deny w SYS_MKDIR k \<noteq> 0 then (fs_deny w SYS_MKDIR k, w)
      else if node_at w k \<noteq> None then (EEXIST, w)
          else (case node_at w (butlast k) of
                  None \<Rightarrow> (missing w k, w) | Some (File _ _) \<Rightarrow> (ENOTDIR, w) | Some Dir \<Rightarrow> (0, put_node k Dir w)))"

text \<open>Creating a file or emptying it.\<close>

definition sys_create :: "string \<Rightarrow> 'z files_scheme \<Rightarrow> nat \<times> 'z files_scheme" where
  "sys_create p w =
     (let k = resolve p in if fs_deny w SYS_WRITE k \<noteq> 0 then (fs_deny w SYS_WRITE k, w)
      else if node_at w k = Some Dir then (EISDIR, w)
          else (case node_at w (butlast k) of
                  None \<Rightarrow> (missing w k, w) | Some (File _ _) \<Rightarrow> (ENOTDIR, w)
                | Some Dir \<Rightarrow> (0, put_node k (File [] (fs_now w)) w)))"

definition write_file_text :: "string \<Rightarrow> string \<Rightarrow> 'z files_scheme \<Rightarrow> 'z files_scheme" where
  "write_file_text p text w = put_node (resolve p) (File text (fs_now w)) w"

definition sys_rename :: "string \<Rightarrow> string \<Rightarrow> 'z files_scheme \<Rightarrow> nat \<times> 'z files_scheme" where
  "sys_rename p q w =
     (let k = resolve p; l = resolve q in if fs_deny w SYS_RENAME l \<noteq> 0 then (fs_deny w SYS_RENAME l, w)
      else (case node_at w k of
          Some (File t c) \<Rightarrow>
            if node_at w l = Some Dir then (EISDIR, w)
            else if node_at w (butlast l) \<noteq> Some Dir then (missing w l, w)
            else (0, if k = l then w else del_node k (put_node l (File t c) w))
        | Some Dir \<Rightarrow> (EISDIR, w)
        | None \<Rightarrow> (missing w k, w)))"

definition sys_chmod :: "string \<Rightarrow> 'z files_scheme \<Rightarrow> nat" where
  "sys_chmod p w =
     (if fs_deny w SYS_CHMOD (resolve p) \<noteq> 0 then fs_deny w SYS_CHMOD (resolve p)
      else if node_at w (resolve p) = None then missing w (resolve p) else 0)"

definition sys_unlink :: "string \<Rightarrow> 'z files_scheme \<Rightarrow> nat \<times> 'z files_scheme" where
  "sys_unlink p w =
     (let k = resolve p in if fs_deny w SYS_UNLINK k \<noteq> 0 then (fs_deny w SYS_UNLINK k, w)
      else (case node_at w k of None \<Rightarrow> (missing w k, w) | Some Dir \<Rightarrow> (EISDIR, w) | Some (File _ _) \<Rightarrow> (0, del_node k w)))"

definition sys_rmdir :: "string \<Rightarrow> 'z files_scheme \<Rightarrow> nat \<times> 'z files_scheme" where
  "sys_rmdir p w =
     (let k = resolve p in if fs_deny w SYS_RMDIR k \<noteq> 0 then (fs_deny w SYS_RMDIR k, w)
      else (case node_at w k of
          None \<Rightarrow> (missing w k, w) | Some (File _ _) \<Rightarrow> (ENOTDIR, w)
        | Some Dir \<Rightarrow> if list_ex (\<lambda>(k', _). strict_prefix k k') (fs_nodes w) then (ENOTEMPTY, w) else (0, del_node k w)))"

text \<open>
  \<^verbatim>\<open>nftw\<close> with \<^verbatim>\<open>_rm_file\<close>: every node below the path is removed, children first, and a failure to remove is
  only reported; then its directories cannot be removed either.
\<close>

definition removable :: "'z files_scheme \<Rightarrow> string list \<Rightarrow> bool" where
  "removable w k \<longleftrightarrow> k \<noteq> [] \<and> \<not> list_ex (\<lambda>(k', _). prefix k k' \<and> fs_deny w SYS_REMOVE k' \<noteq> 0) (fs_nodes w)"

definition sys_remove_tree :: "string \<Rightarrow> 'z files_scheme \<Rightarrow> nat \<times> 'z files_scheme" where
  "sys_remove_tree p w =
     (let k = resolve p in if fs_deny w SYS_STAT k \<noteq> 0 then (fs_deny w SYS_STAT k, w)
      else if node_at w k = None then (missing w k, w)
          else (0, w\<lparr>fs_nodes := filter (\<lambda>(k', _). \<not> (prefix k k' \<and> removable w k')) (fs_nodes w)\<rparr>))"

text \<open>\<^verbatim>\<open>realpath\<close>, and what the readers of the configuration ask of the system.\<close>

definition sys_realpath :: "'z files_scheme \<Rightarrow> string \<Rightarrow> nat + string" where
  "sys_realpath w p = (case node_at w (resolve p) of
     None \<Rightarrow> Inl (missing w (resolve p)) | Some _ \<Rightarrow> Inr (absolute_path (resolve p)))"

definition dir_names :: "string \<Rightarrow> 'z files_scheme \<Rightarrow> nat + string list" where
  "dir_names p w = (case stat_path p w of
     Inl e \<Rightarrow> Inl e | Inr (File _ _) \<Rightarrow> Inl ENOTDIR
   | Inr Dir \<Rightarrow> Inr (map (\<lambda>(k, _). last k) (filter (\<lambda>(k, _). k \<noteq> [] \<and> butlast k = resolve p) (fs_nodes w))))"

definition files_system :: "system \<Rightarrow> 'z files_scheme \<Rightarrow> system" where
  "files_system sys w = sys\<lparr>sys_read := (\<lambda>p. sys_open p w),
     sys_dir := (\<lambda>p. dir_names p w),
     sys_stat := (\<lambda>p. map_sum id (\<lambda>n. n = Dir) (stat_path p w))\<rparr>"

definition sysP :: "('w \<Rightarrow> nat \<times> 'w) \<Rightarrow> ('w, unit) prog" where
  "sysP f w = (case f w of (e, w) \<Rightarrow> Some (if e = 0 then Inr () else Inl (ERROR_TDNF_SYSTEM_BASE + e), w))"

text \<open>The errno of a call that is not passed on.\<close>

definition sysC :: "('w \<Rightarrow> nat \<times> 'w) \<Rightarrow> ('w, nat) prog" where
  "sysC f w = (case f w of (e, w) \<Rightarrow> Some (Inr e, w))"

definition readP :: "('w \<Rightarrow> 'a) \<Rightarrow> ('w, 'a) prog" where
  "readP f w = Some (Inr (f w), w)"

lemma readP_simp [simp]: "readP f w = Some (Inr (f w), w)"
  by (simp add: readP_def)

lemma bindP_readP [simp]: "bindP (readP f) g w = g (f w) w"
  by (simp add: bindP_def)

section \<open>Directories and files (\<^verbatim>\<open>client/utils.c\<close>)\<close>

definition TDNFUtilsMakeDir :: "string \<Rightarrow> ('z files_scheme, unit) prog" where
  "TDNFUtilsMakeDir pszDir =
     (if pszDir = [] then errorP ERROR_TDNF_INVALID_PARAMETER
      else bindP (sysC (sys_mkdir pszDir)) (\<lambda>e.
             if e \<noteq> 0 \<and> e \<noteq> EEXIST then errorP (ERROR_TDNF_SYSTEM_BASE + e) else returnP ()))"

text \<open>The directories above a path, from the top: a prefix in front of each slash but a leading one.\<close>

fun path_heads :: "string \<Rightarrow> string \<Rightarrow> string list" where
  "path_heads done [] = []"
| "path_heads done (c # cs) = (if c = CHR ''/'' then [done] else []) @ path_heads (done @ [c]) cs"

fun make_each :: "string list \<Rightarrow> ('z files_scheme, unit) prog" where
  "make_each [] = returnP ()"
| "make_each (d # ds) = bindP (TDNFUtilsMakeDir d) (\<lambda>_. make_each ds)"

definition TDNFUtilsMakeDirs :: "string \<Rightarrow> ('z files_scheme, unit) prog" where
  "TDNFUtilsMakeDirs pszPath =
     (if pszPath = [] then errorP ERROR_TDNF_INVALID_PARAMETER
      else bindP (readP (sys_access pszPath)) (\<lambda>e.
             if e = 0 then errorP ERROR_TDNF_ALREADY_EXISTS
             else if e \<noteq> ENOENT then errorP (ERROR_TDNF_SYSTEM_BASE + e)
             else bindP (liftR (TDNFAllocateString (Some pszPath))) (\<lambda>path.
               let path = (if last path = CHR ''/'' then butlast path else path)
               in make_each (path_heads (take 1 path) (drop 1 path) @ [path]))))"

definition TDNFIsFileOrSymlink :: "string \<Rightarrow> ('z files_scheme, bool) prog" where
  "TDNFIsFileOrSymlink pszPath =
     (if pszPath = [] then errorP ERROR_TDNF_INVALID_PARAMETER
      else bindP (readP (stat_path pszPath)) (\<lambda>st. case st of
             Inl e \<Rightarrow> if e = ENOENT then returnP False else errorP (ERROR_TDNF_SYSTEM_BASE + e)
           | Inr n \<Rightarrow> returnP (n \<noteq> Dir)))"

text \<open>
  The error code and the size, in 32 bits; \<open>None\<close> when the variable of the caller is left as it was, which
  happens for a directory.
\<close>

definition file_size :: "string \<Rightarrow> 32 word" where
  "file_size text = word_of_nat (length text)"

definition TDNFGetFileSize :: "string \<Rightarrow> 'z files_scheme \<Rightarrow> errcode \<times> 32 word option" where
  "TDNFGetFileSize pszPath w =
     (if pszPath = [] then (ERROR_TDNF_INVALID_PARAMETER, Some 0)
      else case stat_path pszPath w of
             Inl e \<Rightarrow> (ERROR_TDNF_SYSTEM_BASE + e, Some 0)
           | Inr Dir \<Rightarrow> (0, None)
           | Inr (File t _) \<Rightarrow> (0, Some (file_size t)))"

text \<open>\<^verbatim>\<open>creat\<close> does not fail with EEXIST, so that the branch for it is not taken.\<close>

definition TDNFTouchFile :: "string \<Rightarrow> ('z files_scheme, unit) prog" where
  "TDNFTouchFile pszFile =
     (if pszFile = [] then errorP ERROR_TDNF_INVALID_PARAMETER else sysP (sys_create pszFile))"

definition TDNFRecursivelyRemoveDir :: "string \<Rightarrow> ('z files_scheme, unit) prog" where
  "TDNFRecursivelyRemoveDir pszPath =
     (if pszPath = [] then errorP ERROR_TDNF_INVALID_PARAMETER else sysP (sys_remove_tree pszPath))"

definition TDNF_REPO_METADATA_MARKER :: string where
  "TDNF_REPO_METADATA_MARKER = ''lastrefresh''"

definition TDNFShouldSyncMetadata :: "string \<Rightarrow> int \<Rightarrow> ('z files_scheme, bool) prog" where
  "TDNFShouldSyncMetadata pszRepoDataFolder lMetadataExpire =
     (if pszRepoDataFolder = [] then errorP ERROR_TDNF_INVALID_PARAMETER
      else bindP (liftR (TDNFJoinPath [pszRepoDataFolder, TDNF_REPO_METADATA_MARKER])) (\<lambda>marker.
           bindP (readP (stat_path (the marker))) (\<lambda>st.
             case st of
               Inl e \<Rightarrow> if e = ENOENT then returnP True else errorP (ERROR_TDNF_SYSTEM_BASE + e)
             | Inr n \<Rightarrow> bindP (readP fs_now) (\<lambda>now. returnP (now - file_ctime n > lMetadataExpire)))))"

text \<open>The rename of a downloaded file.\<close>

definition TDNFReplaceFile :: "string \<Rightarrow> string \<Rightarrow> ('z files_scheme, unit) prog" where
  "TDNFReplaceFile pszSrcFile pszDstFile =
     (if pszSrcFile = [] \<or> pszDstFile = [] then errorP ERROR_TDNF_INVALID_PARAMETER
      else bindP (readP (sys_access pszSrcFile)) (\<lambda>e.
             if e \<noteq> 0 then errorP ERROR_TDNF_INVALID_PARAMETER else sysP (sys_rename pszSrcFile pszDstFile)))"

section \<open>The caches of a repository (\<^verbatim>\<open>client/repoutils.c\<close>)\<close>

text \<open>The list of nodes ends at the first NULL.\<close>

fun until_null :: "string option list \<Rightarrow> string list" where
  "until_null [] = []"
| "until_null (None # ss) = []"
| "until_null (Some s # ss) = s # until_null ss"

definition TDNFGetCachePath :: "tdnf_conf \<Rightarrow> repo_data \<Rightarrow> string option \<Rightarrow> string option \<Rightarrow> string option result" where
  "TDNFGetCachePath pConf pRepo pszSubDir pszFileName =
     TDNFJoinPath (until_null [cf_pszCacheDir pConf,
       (case rp_pszCacheName pRepo of Some n \<Rightarrow> Some n | None \<Rightarrow> Some (rp_pszId pRepo)), pszSubDir, pszFileName])"

definition TDNFRepoGetUserPass :: "repo_data \<Rightarrow> string option result" where
  "TDNFRepoGetUserPass pRepo =
     (if IsNullOrEmptyString (rp_pszUser pRepo) \<or> IsNullOrEmptyString (rp_pszPass pRepo) then Inr None
      else bail (TDNFAllocateStringPrintf 0 (the (rp_pszUser pRepo) @ '':'' @ the (rp_pszPass pRepo))) (\<lambda>s. Inr (Some s)))"

definition TDNFRepoGetRpmCacheDir :: "tdnf_conf \<Rightarrow> repo_data \<Rightarrow> ('z files_scheme, string option) prog" where
  "TDNFRepoGetRpmCacheDir pConf pRepo =
     (if IsNullOrEmptyString (cf_pszCacheDir pConf) then errorP ERROR_TDNF_INVALID_CONF
      else bindP (liftR (TDNFGetCachePath pConf pRepo (Some ''rpms'') None)) (\<lambda>d.
           bindP (readP (sys_access (the d))) (\<lambda>e.
             if e = 0 then returnP d else if e = ENOENT then returnP None else errorP (ERROR_TDNF_SYSTEM_BASE + e))))"

text \<open>A cache path is NULL when no cache directory is configured; then the calls below are undefined or refuse it.\<close>

definition path_or_empty :: "string option \<Rightarrow> string" where
  "path_or_empty p = (case p of None \<Rightarrow> [] | Some s \<Rightarrow> s)"

definition TDNFRepoRemoveCacheDir :: "tdnf_conf \<Rightarrow> repo_data \<Rightarrow> ('z files_scheme, unit) prog" where
  "TDNFRepoRemoveCacheDir pConf pRepo =
     bindP (liftR (TDNFGetCachePath pConf pRepo None None)) (\<lambda>d. case d of
       None \<Rightarrow> (\<lambda>w. None)
     | Some dir \<Rightarrow> bindP (sysC (sys_rmdir dir)) (\<lambda>e.
         if e \<noteq> 0 \<and> e \<noteq> ENOENT then errorP (ERROR_TDNF_SYSTEM_BASE + e) else returnP ()))"

definition remove_below :: "string option \<Rightarrow> ('z files_scheme, unit) prog" where
  "remove_below d = bindP (catch_error (TDNFRecursivelyRemoveDir (path_or_empty d))) (\<lambda>r. case r of
     Inl e \<Rightarrow> if e \<noteq> ERROR_TDNF_SYSTEM_BASE + ENOENT then errorP e else returnP ()
   | Inr _ \<Rightarrow> returnP ())"

definition TDNFRepoRemoveCache :: "tdnf_conf \<Rightarrow> repo_data \<Rightarrow> ('z files_scheme, unit) prog" where
  "TDNFRepoRemoveCache pConf pRepo = bindP (liftR (TDNFGetCachePath pConf pRepo (Some ''repodata'') None)) remove_below"

definition TDNFRemoveRpmCache :: "tdnf_conf \<Rightarrow> repo_data \<Rightarrow> ('z files_scheme, unit) prog" where
  "TDNFRemoveRpmCache pConf pRepo = bindP (TDNFRepoGetRpmCacheDir pConf pRepo) (\<lambda>d.
     if IsNullOrEmptyString d then returnP () else remove_below d)"

definition TDNFRemoveTmpRepodata :: "string option \<Rightarrow> ('z files_scheme, unit) prog" where
  "TDNFRemoveTmpRepodata pszTmpRepodataDir =
     (if IsNullOrEmptyString pszTmpRepodataDir then errorP ERROR_TDNF_INVALID_PARAMETER else remove_below pszTmpRepodataDir)"

definition TDNFRemoveRepoCacheFile :: "tdnf_conf \<Rightarrow> repo_data \<Rightarrow> string \<Rightarrow> ('z files_scheme, unit) prog" where
  "TDNFRemoveRepoCacheFile pConf pRepo pszFilename =
     bindP (liftR (TDNFGetCachePath pConf pRepo (Some pszFilename) None)) (\<lambda>p. case p of
       None \<Rightarrow> returnP ()
     | Some path \<Rightarrow> bindP (sysC (sys_unlink path)) (\<lambda>e.
         if e \<noteq> 0 \<and> e \<noteq> ENOENT then errorP (ERROR_TDNF_SYSTEM_BASE + e) else returnP ()))"

definition TDNFRemoveLastRefreshMarker :: "tdnf_conf \<Rightarrow> repo_data \<Rightarrow> ('z files_scheme, unit) prog" where
  "TDNFRemoveLastRefreshMarker pConf pRepo = TDNFRemoveRepoCacheFile pConf pRepo TDNF_REPO_METADATA_MARKER"

definition TDNFRemoveMirrorList :: "tdnf_conf \<Rightarrow> repo_data \<Rightarrow> ('z files_scheme, unit) prog" where
  "TDNFRemoveMirrorList pConf pRepo = TDNFRemoveRepoCacheFile pConf pRepo ''mirrorlist''"

definition TDNFRemoveSolvCache :: "tdnf_conf \<Rightarrow> repo_data \<Rightarrow> ('z files_scheme, unit) prog" where
  "TDNFRemoveSolvCache pConf pRepo = bindP (liftR (TDNFGetCachePath pConf pRepo (Some ''solvcache'') None)) remove_below"

definition TDNFRemoveKeysCache :: "tdnf_conf \<Rightarrow> repo_data \<Rightarrow> ('z files_scheme, unit) prog" where
  "TDNFRemoveKeysCache pConf pRepo = bindP (liftR (TDNFGetCachePath pConf pRepo (Some ''keys'') None)) remove_below"

fun repo_by_id :: "string \<Rightarrow> repo_data list \<Rightarrow> repo_data option" where
  "repo_by_id pszId [] = None"
| "repo_by_id pszId (r # rs) = (if pszId = rp_pszId r then Some r else repo_by_id pszId rs)"

definition TDNFFindRepoById :: "repo_data list \<Rightarrow> string \<Rightarrow> repo_data result" where
  "TDNFFindRepoById pRepos pszRepo =
     (if pszRepo = [] then Inl ERROR_TDNF_INVALID_PARAMETER
      else if pRepos = [] then Inl ERROR_TDNF_NO_REPOS
      else case repo_by_id pszRepo pRepos of None \<Rightarrow> Inl ERROR_TDNF_REPO_NOT_FOUND | Some r \<Rightarrow> Inr r)"

definition TDNFGetRepoById :: "repo_data list \<Rightarrow> string \<Rightarrow> repo_data result" where
  "TDNFGetRepoById pRepos pszId =
     (if pszId = [] then Inl ERROR_TDNF_INVALID_PARAMETER
      else case repo_by_id pszId pRepos of None \<Rightarrow> Inl ERROR_TDNF_NO_DATA | Some r \<Rightarrow> Inr r)"

section \<open>Paths with a plain last component\<close>

definition plain_name :: "string \<Rightarrow> bool" where
  "plain_name n \<longleftrightarrow> n \<notin> {[], ''.'', ''..''} \<and> CHR ''/'' \<notin> set n"

lemma split_path_append: "split_path (d @ CHR ''/'' # n) cur = split_path d cur @ split_path n []"
  by (induction d arbitrary: cur) auto

lemma split_path_plain: "CHR ''/'' \<notin> set n \<Longrightarrow> split_path n cur = [rev cur @ n]"
  by (induction n arbitrary: cur) auto

lemma resolve_names_append: "resolve_names (ms @ ns) dirs = resolve_names ns (rev (resolve_names ms dirs))"
  by (induction ms dirs rule: resolve_names.induct) auto

lemma resolve_plain:
  assumes "plain_name n"
  shows "resolve (d @ CHR ''/'' # n) = resolve d @ [n]"
  using assms by (simp add: resolve_def plain_name_def split_path_append split_path_plain resolve_names_append)

lemma plain_name_suffix: "plain_name n \<Longrightarrow> CHR ''/'' \<notin> set m \<Longrightarrow> 2 < length m \<Longrightarrow> plain_name (n @ m)"
  by (auto simp: plain_name_def) (auto simp: append_eq_Cons_conv)

section \<open>What a call changes\<close>

text \<open>Two states of the files that agree everywhere but on the given paths.\<close>

definition same_except :: "string list set \<Rightarrow> 'z files_scheme \<Rightarrow> 'z files_scheme \<Rightarrow> bool" where
  "same_except ks w w' \<longleftrightarrow> (\<forall>k. k \<notin> ks \<longrightarrow> node_at w' k = node_at w k) \<and> fs_now w' = fs_now w \<and> fs_deny w' = fs_deny w"

lemma same_except_refl [simp]: "same_except ks w w"
  by (simp add: same_except_def)

lemma same_except_trans [trans]: "same_except ks w w' \<Longrightarrow> same_except ks w' w'' \<Longrightarrow> same_except ks w w''"
  by (simp add: same_except_def)

lemma same_except_mono: "same_except ks w w' \<Longrightarrow> ks \<subseteq> ls \<Longrightarrow> same_except ls w w'"
  by (auto simp: same_except_def)

lemma same_exceptD: "same_except ks w w' \<Longrightarrow> k \<notin> ks \<Longrightarrow> node_at w' k = node_at w k"
  by (simp add: same_except_def)

lemma put_node_same [simp]: "k \<in> ks \<Longrightarrow> same_except ks w (put_node k n w)"
  by (auto simp: same_except_def node_at_put)

lemma del_node_same [simp]: "k \<in> ks \<Longrightarrow> same_except ks w (del_node k w)"
  by (auto simp: same_except_def node_at_del)

text \<open>A call on files changes no directory.\<close>

definition touches :: "string list set \<Rightarrow> 'z files_scheme \<Rightarrow> 'z files_scheme \<Rightarrow> bool" where
  "touches ks w w' \<longleftrightarrow> same_except ks w w' \<and> (\<forall>k. (node_at w' k = Some Dir) = (node_at w k = Some Dir))"

lemma touches_refl [simp]: "touches ks w w"
  by (simp add: touches_def)

lemma touches_trans [trans]: "touches ks w w' \<Longrightarrow> touches ks w' w'' \<Longrightarrow> touches ks w w''"
  by (auto simp: touches_def dest: same_except_trans)

lemma touches_mono: "touches ks w w' \<Longrightarrow> ks \<subseteq> ls \<Longrightarrow> touches ls w w'"
  by (auto simp: touches_def dest: same_except_mono)

lemma touchesD:
  assumes "touches ks w w'"
  shows "k \<notin> ks \<Longrightarrow> node_at w' k = node_at w k" "fs_now w' = fs_now w" "fs_deny w' = fs_deny w"
    "(node_at w' k = Some Dir) = (node_at w k = Some Dir)" "same_except ks w w'"
  using assms by (simp_all add: touches_def same_except_def)

lemma touches_put:
  assumes "k \<in> ks" and "node_at w k \<noteq> Some Dir" and "n \<noteq> Dir"
  shows "touches ks w (put_node k n w)"
  using assms by (auto simp: touches_def node_at_put)

lemma touches_del:
  assumes "k \<in> ks" and "node_at w k \<noteq> Some Dir"
  shows "touches ks w (del_node k w)"
  using assms by (auto simp: touches_def node_at_del)

lemma sys_create_touches: "sys_create p w = (e, w') \<Longrightarrow> resolve p \<in> ks \<Longrightarrow> touches ks w w'"
  by (auto simp: sys_create_def Let_def intro!: touches_put split: option.splits if_splits file_node.splits)

lemma sys_unlink_touches: "sys_unlink p w = (e, w') \<Longrightarrow> resolve p \<in> ks \<Longrightarrow> touches ks w w'"
  by (auto simp: sys_unlink_def Let_def intro!: touches_del split: option.splits if_splits file_node.splits)

lemma sys_rename_touches:
  assumes "sys_rename p q w = (e, w')" and "resolve p \<in> ks" and "resolve q \<in> ks"
  shows "touches ks w w'"
proof -
  have "touches ks w (del_node (resolve p) (put_node (resolve q) (File t c) w))"
    if "node_at w (resolve q) \<noteq> Some Dir" "node_at w (resolve p) = Some (File t c)" for t c
    using that assms(2,3) by (intro touches_trans [OF touches_put touches_del]) (auto simp: node_at_put)
  with assms(1) show ?thesis
    by (auto simp: sys_rename_def Let_def split: option.splits if_splits file_node.splits)
qed

lemma sys_create_ok: "sys_create p w = (0, w') \<Longrightarrow> node_at w (resolve p) \<noteq> Some Dir"
  by (auto simp: sys_create_def Let_def split: option.splits if_splits file_node.splits)

lemma sysC_run [simp]: "sysC f w = Some (Inr (fst (f w)), snd (f w))"
  by (simp add: sysC_def split: prod.split)

lemma sysP_run: "sysP f w = Some (if fst (f w) = 0 then Inr () else Inl (ERROR_TDNF_SYSTEM_BASE + fst (f w)), snd (f w))"
  by (simp add: sysP_def split: prod.split)

lemma bindP_sysC [simp]: "bindP (sysC f) g w = g (fst (f w)) (snd (f w))"
  by (simp add: bindP_def)

section \<open>What the calls keep\<close>

text \<open>A part of the world that the files are not in.\<close>

definition files_free :: "('z files_scheme \<Rightarrow> 'b) \<Rightarrow> bool" where
  "files_free g \<longleftrightarrow> (\<forall>w x. g (w\<lparr>fs_nodes := x\<rparr>) = g w)"

lemma leaves_readP [simp]: "leaves g (readP f)"
  by (auto simp: leaves_def)

lemma files_free_put [simp]: "files_free g \<Longrightarrow> g (put_node k n w) = g w" "files_free g \<Longrightarrow> g (del_node k w) = g w"
  by (simp_all add: put_node_def del_node_def files_free_def)

lemma free_calls [simp]:
  assumes "files_free g"
  shows "g (snd (sys_mkdir p w)) = g w" "g (snd (sys_create p w)) = g w" "g (snd (sys_rename p q w)) = g w"
    "g (snd (sys_unlink p w)) = g w" "g (snd (sys_rmdir p w)) = g w" "g (snd (sys_remove_tree p w)) = g w"
    "g (write_file_text p t w) = g w"
  using assms
  by (auto simp: sys_mkdir_def sys_create_def sys_rename_def sys_unlink_def sys_rmdir_def sys_remove_tree_def Let_def
      write_file_text_def files_free_def put_node_def del_node_def split: option.split file_node.split)

lemma leaves_sys [simp]:
  assumes "\<And>w. g (snd (f w)) = g w"
  shows "leaves g (sysC f)" "leaves g (sysP f)"
  using assms by (auto simp: leaves_def sysP_run)

lemma leaves_files [simp]:
  assumes "files_free g"
  shows "leaves g (TDNFUtilsMakeDir d)" "leaves g (TDNFTouchFile d)" "leaves g (TDNFRecursivelyRemoveDir d)"
    "leaves g (TDNFReplaceFile d e)" "leaves g (TDNFShouldSyncMetadata d i)" "leaves g (remove_below s)"
  using assms
  by (auto simp: TDNFUtilsMakeDir_def TDNFTouchFile_def TDNFRecursivelyRemoveDir_def TDNFReplaceFile_def TDNFShouldSyncMetadata_def
      remove_below_def split: sum.split)

lemma leaves_make_dirs [simp]:
  assumes "files_free g"
  shows "leaves g (TDNFUtilsMakeDirs d)"
proof -
  have "leaves g (make_each ds)" for ds using assms by (induction ds) auto
  then show ?thesis by (auto simp: TDNFUtilsMakeDirs_def Let_def)
qed

lemma leaves_caches [simp]:
  assumes "files_free g"
  shows "leaves g (TDNFRepoRemoveCache c r)" "leaves g (TDNFRemoveSolvCache c r)" "leaves g (TDNFRemoveRpmCache c r)"
    "leaves g (TDNFRemoveLastRefreshMarker c r)" "leaves g (TDNFRemoveTmpRepodata s)"
  using assms
  by (auto simp: TDNFRepoRemoveCache_def TDNFRemoveSolvCache_def TDNFRemoveRpmCache_def TDNFRepoGetRpmCacheDir_def
      TDNFRemoveLastRefreshMarker_def TDNFRemoveRepoCacheFile_def TDNFRemoveTmpRepodata_def split: option.split)

end
