(* ===== verification/Repo_Download.thy ===== *)
theory Repo_Download
  imports Repo_Files
begin

text \<open>
  Downloads: \<^verbatim>\<open>client/remoterepo.c\<close>, the settings of a transfer in \<^verbatim>\<open>client/repoutils.c\<close> and the fetching of
  remote keys in \<^verbatim>\<open>client/gpgcheck.c\<close>. libcurl is the parameter \<open>curl\<close>: whether a handle can be made, the code that
  each option is answered with, and for the number of the transfer and the options of the handle, the code, the
  bytes written and the status of the response. The world is the file system with the number of transfers so far and
  their options. The progress line is not modelled, the choice whether to print it is.
\<close>

section \<open>libcurl\<close>

datatype curl_opt = OPT_USERPWD string | OPT_USERAGENT string | OPT_PROXY string | OPT_PROXYUSERPWD string
  | OPT_TIMEOUT int | OPT_LOW_SPEED_TIME int | OPT_LOW_SPEED_LIMIT int | OPT_MAX_RECV_SPEED_LARGE int
  | OPT_SSL_VERIFYPEER int | OPT_SSL_VERIFYHOST int | OPT_CAINFO string | OPT_SSLCERT string | OPT_SSLKEY string
  | OPT_URL string | OPT_FOLLOWLOCATION int | OPT_XFERINFOFUNCTION | OPT_XFERINFODATA string | OPT_NOPROGRESS int
  | OPT_WRITEDATA string

record transfer =
  tr_code :: nat
  tr_text :: string
  tr_status :: int

record curl =
  cu_init :: bool
  cu_setopt :: "curl_opt \<Rightarrow> nat"
  cu_perform :: "nat \<Rightarrow> curl_opt list \<Rightarrow> transfer"
  cu_getinfo :: nat

text \<open>What a download uses of the handle of tdnf and of the terminal.\<close>

record download_env =
  de_curl :: curl
  de_pConf :: tdnf_conf
  de_pRepos :: "repo_data list"
  de_nQuiet :: bool
  de_nVerbose :: bool
  de_isatty :: bool

record net = files +
  nt_tries :: nat
  nt_log :: "curl_opt list list"

abbreviation (input) ERROR_TDNF_CURL_BASE :: errcode where "ERROR_TDNF_CURL_BASE \<equiv> 1200"
abbreviation (input) ERROR_TDNF_CURL_INIT :: errcode where "ERROR_TDNF_CURL_INIT \<equiv> 1200"
abbreviation (input) ERROR_TDNF_SET_PROXY :: errcode where "ERROR_TDNF_SET_PROXY \<equiv> 1020"
abbreviation (input) ERROR_TDNF_SET_PROXY_USERPASS :: errcode where "ERROR_TDNF_SET_PROXY_USERPASS \<equiv> 1021"
abbreviation (input) ERROR_TDNF_SET_SSL_SETTINGS :: errcode where "ERROR_TDNF_SET_SSL_SETTINGS \<equiv> 1401"
abbreviation (input) ERROR_TDNF_KEYURL_INVALID :: errcode where "ERROR_TDNF_KEYURL_INVALID \<equiv> 1507"

text \<open>Options are put in front of those that the handle has; a call that fails ends with the error of its caller.\<close>

definition set_opt :: "curl \<Rightarrow> (nat \<Rightarrow> errcode) \<Rightarrow> curl_opt \<Rightarrow> curl_opt list \<Rightarrow> curl_opt list result" where
  "set_opt cu err opt opts = (if cu_setopt cu opt = 0 then Inr (opt # opts) else Inl (err (cu_setopt cu opt)))"

definition set_text :: "curl \<Rightarrow> (nat \<Rightarrow> errcode) \<Rightarrow> (string \<Rightarrow> curl_opt) \<Rightarrow> string option \<Rightarrow> curl_opt list \<Rightarrow> curl_opt list result" where
  "set_text cu err opt s opts = (if IsNullOrEmptyString s then Inr opts else set_opt cu err (opt (the s)) opts)"

definition curl_error :: "nat \<Rightarrow> errcode" where
  "curl_error code = ERROR_TDNF_CURL_BASE + code"

definition TDNFRepoApplyProxySettings :: "curl \<Rightarrow> tdnf_conf \<Rightarrow> curl_opt list \<Rightarrow> curl_opt list result" where
  "TDNFRepoApplyProxySettings cu pConf opts =
     (if IsNullOrEmptyString (cf_pszProxy pConf) then Inr opts
      else bail (set_opt cu (\<lambda>_. ERROR_TDNF_SET_PROXY) (OPT_PROXY (the (cf_pszProxy pConf))) opts) (\<lambda>opts.
        set_text cu (\<lambda>_. ERROR_TDNF_SET_PROXY_USERPASS) OPT_PROXYUSERPWD (cf_pszProxyUserPass pConf) opts))"

definition TDNFRepoApplyDownloadSettings :: "curl \<Rightarrow> repo_data \<Rightarrow> curl_opt list \<Rightarrow> curl_opt list result" where
  "TDNFRepoApplyDownloadSettings cu pRepo opts =
     bail (set_opt cu curl_error (OPT_TIMEOUT (rp_nTimeout pRepo)) opts) (\<lambda>opts.
     bail (set_opt cu curl_error (OPT_LOW_SPEED_TIME (rp_nTimeout pRepo)) opts) (\<lambda>opts.
     bail (set_opt cu curl_error (OPT_LOW_SPEED_LIMIT (rp_nMinrate pRepo)) opts) (\<lambda>opts.
       set_opt cu curl_error (OPT_MAX_RECV_SPEED_LARGE (rp_nThrottle pRepo)) opts)))"

definition TDNFRepoApplySSLSettings :: "curl \<Rightarrow> repo_data \<Rightarrow> curl_opt list \<Rightarrow> curl_opt list result" where
  "TDNFRepoApplySSLSettings cu pRepo opts =
     (let err = (\<lambda>_. ERROR_TDNF_SET_SSL_SETTINGS) in
      bail (set_opt cu err (OPT_SSL_VERIFYPEER (if rp_nSSLVerify pRepo \<noteq> 0 then 1 else 0)) opts) (\<lambda>opts.
      bail (set_opt cu err (OPT_SSL_VERIFYHOST (if rp_nSSLVerify pRepo \<noteq> 0 then 2 else 0)) opts) (\<lambda>opts.
      bail (set_text cu err OPT_CAINFO (rp_pszSSLCaCert pRepo) opts) (\<lambda>opts.
      bail (set_text cu err OPT_SSLCERT (rp_pszSSLClientCert pRepo) opts) (\<lambda>opts.
        set_text cu err OPT_SSLKEY (rp_pszSSLClientKey pRepo) opts)))))"

text \<open>The codes after which another try is pointless, by their numbers in \<^verbatim>\<open>curl.h\<close>.\<close>

definition TDNFCurlErrorIsFatal :: "nat \<Rightarrow> errcode" where
  "TDNFCurlErrorIsFatal curlError =
     (if curlError \<in> {1, 2, 3, 37, 41, 48, 53, 93, 42, 43, 76, 5, 63, 45, 4, 27, 77, 82, 23} then curlError else 0)"

text \<open>The data of the progress line is cut to the 63 characters of its buffer.\<close>

definition set_progress_cb :: "curl \<Rightarrow> string \<Rightarrow> curl_opt list \<Rightarrow> curl_opt list result" where
  "set_progress_cb cu pszData opts =
     (if pszData = [] then Inl ERROR_TDNF_INVALID_PARAMETER
      else bail (set_opt cu curl_error OPT_XFERINFOFUNCTION opts) (\<lambda>opts.
           bail (set_opt cu curl_error (OPT_XFERINFODATA (take 63 pszData)) opts) (\<lambda>opts.
             set_opt cu curl_error (OPT_NOPROGRESS 0) opts)))"

section \<open>One file\<close>

text \<open>The settings that \<^verbatim>\<open>TDNFDownloadFile\<close> gives the new handle before it names the temporary file.\<close>

definition download_options :: "download_env \<Rightarrow> repo_data \<Rightarrow> string \<Rightarrow> string option \<Rightarrow> curl_opt list result" where
  "download_options env pRepo pszFileUrl pszProgressData =
     (let cu = de_curl env in
      bail (TDNFRepoGetUserPass pRepo) (\<lambda>up.
      bail (set_text cu id OPT_USERPWD up []) (\<lambda>opts.
      bail (set_text cu id OPT_USERAGENT (cf_pszUserAgentHeader (de_pConf env)) opts) (\<lambda>opts.
      bail (TDNFRepoApplyProxySettings cu (de_pConf env) opts) (\<lambda>opts.
      bail (TDNFRepoApplyDownloadSettings cu pRepo opts) (\<lambda>opts.
      bail (TDNFRepoApplySSLSettings cu pRepo opts) (\<lambda>opts.
      bail (set_opt cu curl_error (OPT_URL pszFileUrl) opts) (\<lambda>opts.
      bail (set_opt cu curl_error (OPT_FOLLOWLOCATION 1) opts) (\<lambda>opts.
        case pszProgressData of
          Some d \<Rightarrow> if \<not> de_nQuiet env \<and> (de_isatty env \<or> de_nVerbose env) then set_progress_cb cu d opts else Inr opts
        | None \<Rightarrow> Inr opts)))))))))"

definition curl_easy_perform :: "curl \<Rightarrow> curl_opt list \<Rightarrow> string \<Rightarrow> ('z net_scheme, transfer) prog" where
  "curl_easy_perform cu opts pszFileTmp w =
     (let tr = cu_perform cu (nt_tries w) opts in
      Some (Inr tr, write_file_text pszFileTmp (tr_text tr) w
        \<lparr>nt_tries := nt_tries w + 1, nt_log := nt_log w @ [opts]\<rparr>))"

text \<open>The loop over the tries, of which \<open>n\<close> are left; the last transfer, or none when there was no try.\<close>

fun try_loop :: "curl \<Rightarrow> curl_opt list \<Rightarrow> string \<Rightarrow> nat \<Rightarrow> ('z net_scheme, transfer option) prog" where
  "try_loop cu opts pszFileTmp 0 = returnP None"
| "try_loop cu opts pszFileTmp (Suc n) =
     bindP (sysP (sys_create pszFileTmp)) (\<lambda>_.
     bindP (liftR (set_opt cu curl_error (OPT_WRITEDATA pszFileTmp) opts)) (\<lambda>opts.
     bindP (curl_easy_perform cu opts pszFileTmp) (\<lambda>tr.
       if tr_code tr = 0 then returnP (Some tr)
       else if n = 0 \<or> TDNFCurlErrorIsFatal (tr_code tr) \<noteq> 0 then errorP (curl_error (tr_code tr))
       else try_loop cu opts pszFileTmp n)))"

definition move_download :: "curl \<Rightarrow> string \<Rightarrow> string \<Rightarrow> transfer option \<Rightarrow> ('z net_scheme, unit) prog" where
  "move_download cu pszFileTmp pszFile tr =
     (if cu_getinfo cu \<noteq> 0 then errorP (curl_error (cu_getinfo cu))
      else if (case tr of None \<Rightarrow> 0 | Some tr \<Rightarrow> tr_status tr) \<ge> 400 then errorP ERROR_TDNF_INVALID_PARAMETER
      else bindP (sysP (sys_rename pszFileTmp pszFile)) (\<lambda>_.
           bindP (readP (sys_chmod pszFile)) (\<lambda>e.
             if e \<noteq> 0 then errorP (ERROR_TDNF_SYSTEM_BASE + e) else returnP ())))"

definition unlink_on_error :: "string \<Rightarrow> ('z net_scheme, 'a) prog \<Rightarrow> ('z net_scheme, 'a) prog" where
  "unlink_on_error pszFileTmp m =
     bindP (catch_error m) (\<lambda>r. case r of
       Inl e \<Rightarrow> bindP (sysC (sys_unlink pszFileTmp)) (\<lambda>_. errorP e)
     | Inr x \<Rightarrow> returnP x)"

definition TDNFDownloadFile :: "download_env \<Rightarrow> repo_data \<Rightarrow> string \<Rightarrow> string \<Rightarrow> string option \<Rightarrow> ('z net_scheme, unit) prog" where
  "TDNFDownloadFile env pRepo pszFileUrl pszFile pszProgressData =
     (if pszFileUrl = [] \<or> pszFile = [] then errorP ERROR_TDNF_INVALID_PARAMETER
      else if \<not> cu_init (de_curl env) then errorP ERROR_TDNF_CURL_INIT
      else bindP (liftR (download_options env pRepo pszFileUrl pszProgressData)) (\<lambda>opts.
           bindP (liftR (TDNFAllocateStringPrintf 0 (pszFile @ ''.tmp''))) (\<lambda>pszFileTmp.
             unlink_on_error pszFileTmp
               (bindP (try_loop (de_curl env) opts pszFileTmp (nat (rp_nRetries pRepo + 1)))
                  (move_download (de_curl env) pszFileTmp pszFile)))))"

section \<open>Mirrors and packages\<close>

fun try_mirrors :: "download_env \<Rightarrow> repo_data \<Rightarrow> string list \<Rightarrow> string \<Rightarrow> string \<Rightarrow> string option \<Rightarrow> errcode \<Rightarrow> ('z net_scheme, unit) prog" where
  "try_mirrors env pRepo [] pszLocation pszFile pszProgressData dwError = errorP dwError"
| "try_mirrors env pRepo (u # us) pszLocation pszFile pszProgressData dwError =
     bindP (liftR (TDNFJoinPath [u, pszLocation])) (\<lambda>pszUrl.
     bindP (catch_error (TDNFDownloadFile env pRepo (the pszUrl) pszFile pszProgressData)) (\<lambda>r.
       case r of Inr _ \<Rightarrow> returnP () | Inl e \<Rightarrow> try_mirrors env pRepo us pszLocation pszFile pszProgressData e))"

definition TDNFDownloadFileFromRepo :: "download_env \<Rightarrow> repo_data \<Rightarrow> string \<Rightarrow> string \<Rightarrow> string option \<Rightarrow> ('z net_scheme, unit) prog" where
  "TDNFDownloadFileFromRepo env pRepo pszLocation pszFile pszProgressData =
     (if pszLocation = [] \<or> pszFile = [] then errorP ERROR_TDNF_INVALID_PARAMETER
      else case rp_ppszBaseUrls pRepo of
             Some (u # us) \<Rightarrow> try_mirrors env pRepo (u # us) pszLocation pszFile pszProgressData 0
           | _ \<Rightarrow> TDNFDownloadFile env pRepo pszLocation pszFile pszProgressData)"

definition TDNFCreatePackageUrl :: "download_env \<Rightarrow> string \<Rightarrow> string \<Rightarrow> string result" where
  "TDNFCreatePackageUrl env pszRepoId pszPackageLocation =
     (if pszPackageLocation = [] \<or> pszRepoId = [] then Inl ERROR_TDNF_INVALID_PARAMETER
      else bail (TDNFFindRepoById (de_pRepos env) pszRepoId) (\<lambda>pRepo.
        case rp_ppszBaseUrls pRepo of
          Some (u # us) \<Rightarrow> bail (TDNFJoinPath [u, pszPackageLocation]) (\<lambda>p. Inr (the p))
        | _ \<Rightarrow> TDNFAllocateString (Some pszPackageLocation)))"

text \<open>\<^verbatim>\<open>basename\<close> of \<^verbatim>\<open>libgen.h\<close>.\<close>

definition basename :: "string \<Rightarrow> string" where
  "basename path =
     (if path = [] then ''.'' else if strip_slashes path = [] then ''/''
      else rev (takeWhile (\<lambda>c. c \<noteq> CHR ''/'') (rev (strip_slashes path))))"

text \<open>For a directory the size is not set, and reading it is undefined.\<close>

definition TDNFDownloadPackage :: "download_env \<Rightarrow> string \<Rightarrow> string \<Rightarrow> repo_data \<Rightarrow> string \<Rightarrow> ('z net_scheme, unit) prog" where
  "TDNFDownloadPackage env pszPackageLocation pszPkgName pRepo pszRpmCacheDir =
     (if pszPackageLocation = [] \<or> pszPkgName = [] then errorP ERROR_TDNF_INVALID_PARAMETER
      else bindP (liftR (TDNFAllocateString (Some pszPackageLocation))) (\<lambda>copy.
           bindP (liftR (TDNFJoinPath [pszRpmCacheDir, basename copy])) (\<lambda>pszPackageFile.
           bindP (readP (TDNFGetFileSize (the pszPackageFile))) (\<lambda>(e, nSize).
             if e = ERROR_TDNF_FILE_NOT_FOUND
             then TDNFDownloadFileFromRepo env pRepo pszPackageLocation (the pszPackageFile) (Some pszPkgName)
             else case nSize of
                    None \<Rightarrow> (\<lambda>w. None)
                  | Some n \<Rightarrow>
                      if n = 0 then TDNFDownloadFileFromRepo env pRepo pszPackageLocation (the pszPackageFile) (Some pszPkgName)
                      else if e = 0 then returnP () else errorP e))))"

text \<open>The path of a package: that of a URL, or the location itself.\<close>

definition remote_path :: "string \<Rightarrow> string result" where
  "remote_path pszPackageLocation = (case TDNFPathFromUri (Some pszPackageLocation) of
     Inl e \<Rightarrow> if e = ERROR_TDNF_URL_INVALID then TDNFAllocateString (Some pszPackageLocation) else Inl e
   | Inr p \<Rightarrow> Inr p)"

definition normal_path :: "string \<Rightarrow> ('z net_scheme, string) prog" where
  "normal_path pszPath = bindP (readP (\<lambda>w. TDNFNormalizePath (sys_realpath w) (Some pszPath))) liftU"

text \<open>\<^verbatim>\<open>if (access(dir, F_OK)) ... TDNFUtilsMakeDirs(dir)\<close>.\<close>

definition ensure_dir :: "string \<Rightarrow> ('z net_scheme, unit) prog" where
  "ensure_dir pszDir = bindP (readP (sys_access pszDir)) (\<lambda>e.
     if e = 0 then returnP () else if e \<noteq> ENOENT then errorP (ERROR_TDNF_SYSTEM_BASE + e)
     else TDNFUtilsMakeDirs pszDir)"

definition TDNFDownloadPackageToTree ::
    "download_env \<Rightarrow> string \<Rightarrow> string \<Rightarrow> repo_data \<Rightarrow> string \<Rightarrow> ('z net_scheme, string) prog" where
  "TDNFDownloadPackageToTree env pszPackageLocation pszPkgName pRepo pszNormalRpmCacheDir =
     (if pszPackageLocation = [] \<or> pszPkgName = [] \<or> pszNormalRpmCacheDir = [] then errorP ERROR_TDNF_INVALID_PARAMETER
      else bindP (liftR (remote_path pszPackageLocation)) (\<lambda>pszRemotePath.
           bindP (liftR (TDNFJoinPath [pszNormalRpmCacheDir, pszRemotePath])) (\<lambda>pszFilePath.
           bindP (normal_path (the pszFilePath)) (\<lambda>pszNormalPath.
             if \<not> prefix pszNormalRpmCacheDir pszNormalPath then errorP ERROR_TDNF_URL_INVALID
             else bindP (liftR (TDNFDirName (Some pszNormalPath))) (\<lambda>pszDownloadCacheDir.
               bindP (ensure_dir pszDownloadCacheDir) (\<lambda>_.
               bindP (readP (sys_access pszNormalPath)) (\<lambda>e.
                 if e = 0 then returnP pszNormalPath
                 else if e \<noteq> ENOENT then errorP (ERROR_TDNF_SYSTEM_BASE + e)
                 else bindP (TDNFDownloadPackage env pszPackageLocation pszPkgName pRepo pszDownloadCacheDir) (\<lambda>_.
                        returnP pszNormalPath))))))))"

definition TDNFDownloadPackageToCache :: "download_env \<Rightarrow> string \<Rightarrow> string \<Rightarrow> repo_data \<Rightarrow> ('z net_scheme, string) prog" where
  "TDNFDownloadPackageToCache env pszPackageLocation pszPkgName pRepo =
     (if pszPackageLocation = [] \<or> pszPkgName = [] then errorP ERROR_TDNF_INVALID_PARAMETER
      else bindP (liftR (TDNFJoinPath (until_null [cf_pszCacheDir (de_pConf env), Some (rp_pszId pRepo), Some ''rpms'']))) (\<lambda>pszRpmCacheDir.
           bindP (normal_path (path_or_empty pszRpmCacheDir)) (\<lambda>pszNormalRpmCacheDir.
             TDNFDownloadPackageToTree env pszPackageLocation pszPkgName pRepo pszNormalRpmCacheDir)))"

definition TDNFDownloadPackageToDirectory ::
    "download_env \<Rightarrow> string \<Rightarrow> string \<Rightarrow> repo_data \<Rightarrow> string \<Rightarrow> ('z net_scheme, string) prog" where
  "TDNFDownloadPackageToDirectory env pszPackageLocation pszPkgName pRepo pszDirectory =
     (if pszPackageLocation = [] \<or> pszPkgName = [] \<or> pszDirectory = [] then errorP ERROR_TDNF_INVALID_PARAMETER
      else bindP (liftR (remote_path pszPackageLocation)) (\<lambda>pszRemotePath.
           bindP (liftR (TDNFJoinPath [pszDirectory, basename pszRemotePath])) (\<lambda>pszFilePath.
           bindP (TDNFDownloadPackage env pszPackageLocation pszPkgName pRepo pszDirectory) (\<lambda>_.
             returnP (the pszFilePath)))))"

text \<open>A remote key is kept below the directory for keys; \<open>basename\<close> gives the progress line.\<close>

definition TDNFFetchRemoteGPGKey :: "download_env \<Rightarrow> repo_data \<Rightarrow> string \<Rightarrow> ('z net_scheme, string) prog" where
  "TDNFFetchRemoteGPGKey env pRepo pszUrlGPGKey =
     (if pszUrlGPGKey = [] then errorP ERROR_TDNF_INVALID_PARAMETER
      else bindP (liftR (case TDNFPathFromUri (Some pszUrlGPGKey) of
                   Inl e \<Rightarrow> Inl (if e = ERROR_TDNF_URL_INVALID then ERROR_TDNF_KEYURL_INVALID else e) | Inr p \<Rightarrow> Inr p)) (\<lambda>pszKeyLocation.
           bindP (liftR (TDNFGetCachePath (de_pConf env) pRepo (Some ''keys'') None)) (\<lambda>pszTopKeyCacheDir.
           bindP (normal_path (path_or_empty pszTopKeyCacheDir)) (\<lambda>pszRealTopKeyCacheDir.
           bindP (liftR (TDNFJoinPath [pszRealTopKeyCacheDir, pszKeyLocation])) (\<lambda>pszFilePath.
           bindP (normal_path (the pszFilePath)) (\<lambda>pszNormalPath.
             if \<not> prefix pszRealTopKeyCacheDir pszNormalPath then errorP ERROR_TDNF_KEYURL_INVALID
             else bindP (liftR (TDNFDirName (Some pszNormalPath))) (\<lambda>pszDownloadCacheDir.
                  bindP (ensure_dir pszDownloadCacheDir) (\<lambda>_.
                  bindP (TDNFDownloadFile env pRepo pszUrlGPGKey (the pszFilePath) (Some (basename (the pszFilePath)))) (\<lambda>_.
                    returnP pszNormalPath)))))))))"

section \<open>What a download changes\<close>

text \<open>The transfers between two states: options that all satisfy a predicate.\<close>

definition logged :: "(curl_opt list \<Rightarrow> bool) \<Rightarrow> 'z net_scheme \<Rightarrow> 'z net_scheme \<Rightarrow> bool" where
  "logged P w w' \<longleftrightarrow> (\<exists>l. nt_log w' = nt_log w @ l \<and> list_all P l)"

lemma logged_refl: "nt_log w' = nt_log w \<Longrightarrow> logged P w w'"
  by (simp add: logged_def)

lemma logged_trans [trans]: "logged P w w' \<Longrightarrow> logged P w' w'' \<Longrightarrow> logged P w w''"
  by (auto simp: logged_def)

lemma net_of_node [simp]:
  "nt_tries (put_node k n w) = nt_tries w" "nt_log (put_node k n w) = nt_log w"
  "nt_tries (del_node k w) = nt_tries w" "nt_log (del_node k w) = nt_log w"
  by (simp_all add: put_node_def del_node_def)

lemma node_at_net [simp]: "node_at (w\<lparr>nt_tries := i, nt_log := l\<rparr>) k = node_at w k"
  by (simp add: node_at_def)

lemma touches_net [simp]: "touches ks w (w'\<lparr>nt_tries := i, nt_log := l\<rparr>) = touches ks w w'"
  by (simp add: touches_def same_except_def)

lemma sys_net:
  fixes w :: "'z net_scheme"
  shows "nt_log (snd (sys_create p w)) = nt_log w" "nt_tries (snd (sys_create p w)) = nt_tries w"
    "nt_log (snd (sys_unlink p w)) = nt_log w" "nt_log (snd (sys_rename p q w)) = nt_log w"
    "nt_log (snd (sys_mkdir p w)) = nt_log w"
  by (auto simp: sys_create_def sys_unlink_def sys_rename_def sys_mkdir_def Let_def split: option.splits file_node.splits)

lemma sys_net_run:
  fixes w :: "'z net_scheme"
  shows "sys_create p w = (e, w') \<Longrightarrow> nt_log w' = nt_log w \<and> nt_tries w' = nt_tries w"
    "sys_unlink p w = (e, w') \<Longrightarrow> nt_log w' = nt_log w" "sys_rename p q w = (e, w') \<Longrightarrow> nt_log w' = nt_log w"
    "sys_mkdir p w = (e, w') \<Longrightarrow> nt_log w' = nt_log w"
  by (metis snd_conv sys_net)+

lemma set_opt_ok: "set_opt cu err opt opts = Inr opts' \<longleftrightarrow> cu_setopt cu opt = 0 \<and> opts' = opt # opts"
  by (auto simp: set_opt_def)

lemma set_text_keeps: "set_text cu err opt s opts = Inr opts' \<Longrightarrow> set opts \<subseteq> set opts'"
  by (auto simp: set_text_def set_opt_ok split: if_splits)

lemma proxy_keeps: "TDNFRepoApplyProxySettings cu c opts = Inr opts' \<Longrightarrow> set opts \<subseteq> set opts'"
  by (auto simp: TDNFRepoApplyProxySettings_def bail_Inr_iff set_opt_ok split: if_splits dest!: set_text_keeps)

lemma progress_keeps: "set_progress_cb cu d opts = Inr opts' \<Longrightarrow> set opts \<subseteq> set opts'"
  by (auto simp: set_progress_cb_def bail_Inr_iff set_opt_ok split: if_splits)

lemma ssl_settings:
  assumes "TDNFRepoApplySSLSettings cu pRepo opts = Inr opts'"
  shows "OPT_SSL_VERIFYPEER (if rp_nSSLVerify pRepo \<noteq> 0 then 1 else 0) \<in> set opts'"
    and "OPT_SSL_VERIFYHOST (if rp_nSSLVerify pRepo \<noteq> 0 then 2 else 0) \<in> set opts'"
  using assms by (auto simp: TDNFRepoApplySSLSettings_def Let_def bail_Inr_iff set_opt_ok dest!: set_text_keeps)

text \<open>A transfer of the repository: the URL is set, and the peer is verified as the repository wants it.\<close>

definition transfer_of :: "repo_data \<Rightarrow> string \<Rightarrow> curl_opt list \<Rightarrow> bool" where
  "transfer_of pRepo url opts \<longleftrightarrow> OPT_URL url \<in> set opts
     \<and> OPT_SSL_VERIFYPEER (if rp_nSSLVerify pRepo \<noteq> 0 then 1 else 0) \<in> set opts
     \<and> OPT_SSL_VERIFYHOST (if rp_nSSLVerify pRepo \<noteq> 0 then 2 else 0) \<in> set opts"

lemma download_options_transfer:
  assumes "download_options env pRepo url d = Inr opts"
  shows "transfer_of pRepo url opts"
proof -
  from assms obtain o1 o2 where ssl: "TDNFRepoApplySSLSettings (de_curl env) pRepo o1 = Inr o2"
    and last: "(case d of Some d \<Rightarrow> if \<not> de_nQuiet env \<and> (de_isatty env \<or> de_nVerbose env)
        then set_progress_cb (de_curl env) d (OPT_FOLLOWLOCATION 1 # OPT_URL url # o2) else Inr (OPT_FOLLOWLOCATION 1 # OPT_URL url # o2)
      | None \<Rightarrow> Inr (OPT_FOLLOWLOCATION 1 # OPT_URL url # o2)) = Inr opts"
    by (auto simp: download_options_def Let_def bail_Inr_iff set_opt_ok)
  from last have "set (OPT_FOLLOWLOCATION 1 # OPT_URL url # o2) \<subseteq> set opts"
    by (auto split: option.splits if_splits dest!: progress_keeps)
  with ssl_settings [OF ssl] show ?thesis by (auto simp: transfer_of_def)
qed

text \<open>One try, with a new file and one more transfer.\<close>

lemma try_loop_step:
  assumes "try_loop cu opts tmp (Suc n) w = Some (r, w')" and "resolve tmp \<noteq> []"
  obtains (stop) e where "r = Inl e" "touches {resolve tmp} w w'" "nt_log w' = nt_log w" "nt_tries w' = nt_tries w"
  | (transfer) w2 t where "t = cu_perform cu (nt_tries w) (OPT_WRITEDATA tmp # opts)" "touches {resolve tmp} w w2"
      "nt_log w2 = nt_log w @ [OPT_WRITEDATA tmp # opts]" "nt_tries w2 = nt_tries w + 1"
      "node_at w2 (resolve tmp) = Some (File (tr_text t) (fs_now w))"
      "(if tr_code t = 0 then returnP (Some t)
        else if n = 0 \<or> TDNFCurlErrorIsFatal (tr_code t) \<noteq> 0 then errorP (curl_error (tr_code t))
        else try_loop cu (OPT_WRITEDATA tmp # opts) tmp n) w2 = Some (r, w')"
proof -
  obtain e w1 where c: "sys_create tmp w = (e, w1)" by (cases "sys_create tmp w")
  have s1: "touches {resolve tmp} w w1" using sys_create_touches [OF c] by simp
  have l1: "nt_log w1 = nt_log w" "nt_tries w1 = nt_tries w" using sys_net_run(1) [OF c] by simp_all
  show thesis
  proof (cases "e = 0 \<and> cu_setopt cu (OPT_WRITEDATA tmp) = 0")
    case False
    with assms(1) c have "w' = w1" "\<exists>e. r = Inl e"
      by (auto simp: bindP_def sysP_run set_opt_def split: if_splits)
    with s1 l1 stop show thesis by auto
  next
    case True
    let ?o = "OPT_WRITEDATA tmp # opts" and ?t = "cu_perform cu (nt_tries w1) (OPT_WRITEDATA tmp # opts)"
    let ?w2 = "write_file_text tmp (tr_text ?t) w1\<lparr>nt_tries := nt_tries w1 + 1, nt_log := nt_log w1 @ [?o]\<rparr>"
    have nd: "node_at w1 (resolve tmp) \<noteq> Some Dir"
      using sys_create_ok [of tmp w w1] c True touchesD(4) [OF s1] by simp
    have "touches {resolve tmp} w ?w2"
      using touches_trans [OF s1 touches_put [OF _ nd, of "{resolve tmp}" "File (tr_text ?t) (fs_now w1)"]]
      by (simp add: write_file_text_def)
    moreover have "node_at ?w2 (resolve tmp) = Some (File (tr_text ?t) (fs_now w))"
      using assms(2) s1 by (simp add: write_file_text_def node_at_put touchesD)
    moreover have "(if tr_code ?t = 0 then returnP (Some ?t)
        else if n = 0 \<or> TDNFCurlErrorIsFatal (tr_code ?t) \<noteq> 0 then errorP (curl_error (tr_code ?t))
        else try_loop cu ?o tmp n) ?w2 = Some (r, w')"
      using assms(1) c True by (simp add: bindP_def sysP_run set_opt_def curl_easy_perform_def Let_def)
    ultimately show thesis using l1 by (intro transfer [of ?t ?w2]) simp_all
  qed
qed

lemma try_loop_frame:
  assumes "try_loop cu opts tmp n w = Some (r, w')" and "resolve tmp \<noteq> []"
    and "\<And>o'. set opts \<subseteq> set o' \<Longrightarrow> P o'"
  shows "touches {resolve tmp} w w' \<and> logged P w w' \<and> nt_tries w' \<le> nt_tries w + n"
  using assms
proof (induction n arbitrary: opts w)
  case 0
  then show ?case by (auto simp: logged_refl)
next
  case (Suc n)
  from Suc.prems(1,2) show ?case
  proof (cases rule: try_loop_step)
    case stop
    then show ?thesis by (simp add: logged_refl)
  next
    case (transfer w2 t)
    have "P (OPT_WRITEDATA tmp # opts)" using Suc.prems(3) by (simp add: subset_insertI)
    then have l2: "logged P w w2" using transfer by (simp add: logged_def)
    have "touches {resolve tmp} w2 w' \<and> logged P w2 w' \<and> nt_tries w' \<le> nt_tries w2 + n"
    proof (cases "tr_code t = 0 \<or> n = 0 \<or> TDNFCurlErrorIsFatal (tr_code t) \<noteq> 0")
      case True
      with transfer(6) have "w' = w2" by (auto split: if_splits)
      then show ?thesis by (simp add: logged_refl)
    next
      case False
      with transfer(6) have run: "try_loop cu (OPT_WRITEDATA tmp # opts) tmp n w2 = Some (r, w')" by auto
      show ?thesis by (rule Suc.IH [OF run Suc.prems(2)]) (use Suc.prems(3) in auto)
    qed
    with l2 transfer show ?thesis by (auto dest: touches_trans logged_trans)
  qed
qed

lemma try_loop_ok:
  assumes "try_loop cu opts tmp n w = Some (Inr tr, w')" and "resolve tmp \<noteq> []" and "0 < n"
  shows "\<exists>t o'. tr = Some t \<and> tr_code t = 0 \<and> node_at w' (resolve tmp) = Some (File (tr_text t) (fs_now w))
    \<and> t = cu_perform cu (nt_tries w' - 1) o' \<and> set opts \<subseteq> set o' \<and> nt_tries w < nt_tries w'"
  using assms
proof (induction n arbitrary: opts w)
  case (Suc n)
  from Suc.prems(1,2) show ?case
  proof (cases rule: try_loop_step)
    case (transfer w2 t)
    show ?thesis
    proof (cases "tr_code t = 0")
      case True
      with transfer show ?thesis by (auto intro!: exI [of _ "OPT_WRITEDATA tmp # opts"])
    next
      case False
      with transfer(6) have n: "0 < n" and run: "try_loop cu (OPT_WRITEDATA tmp # opts) tmp n w2 = Some (Inr tr, w')"
        by (auto split: if_splits)
      have "fs_now w2 = fs_now w" using transfer(2) by (rule touchesD)
      with Suc.IH [OF run Suc.prems(2) n] transfer(4) show ?thesis by auto
    qed
  qed simp
qed simp


section \<open>The outcome of a download\<close>

lemma resolve_tmp: "plain_name n \<Longrightarrow> resolve ((d @ CHR ''/'' # n) @ ''.tmp'') = resolve d @ [n @ ''.tmp'']"
  using resolve_plain [of "n @ ''.tmp''" d] plain_name_suffix [of n "''.tmp''"] by simp

lemma move_download_spec:
  assumes "move_download cu tmp file tr w = Some (r, w')" and "resolve tmp \<noteq> resolve file"
    and "resolve tmp \<noteq> []" and "resolve file \<noteq> []"
  shows "touches {resolve tmp, resolve file} w w' \<and> nt_log w' = nt_log w \<and> nt_tries w' = nt_tries w
    \<and> (r = Inr () \<longrightarrow> node_at w' (resolve file) = node_at w (resolve tmp) \<and> node_at w' (resolve tmp) = None
         \<and> (case tr of None \<Rightarrow> True | Some t \<Rightarrow> tr_status t < 400))
    \<and> (\<forall>e. r = Inl e \<longrightarrow> fs_deny w SYS_CHMOD (resolve file) = 0 \<longrightarrow> node_at w' (resolve file) = node_at w (resolve file))"
proof -
  obtain e w1 where rn: "sys_rename tmp file w = (e, w1)" by (cases "sys_rename tmp file w")
  have t1: "touches {resolve tmp, resolve file} w w1" using sys_rename_touches [OF rn] by simp
  have l1: "nt_log w1 = nt_log w" using sys_net_run(3) [OF rn] .
  have l2: "nt_tries w1 = nt_tries w" using rn by (auto simp: sys_rename_def Let_def split: option.splits if_splits file_node.splits)
  have moved: "node_at w1 (resolve file) = node_at w (resolve tmp) \<and> node_at w1 (resolve tmp) = None
      \<and> node_at w (resolve tmp) \<noteq> None" if "e = 0"
    using rn that assms(2-4)
    by (auto simp: sys_rename_def Let_def node_at_put node_at_del split: option.splits if_splits file_node.splits)
  have kept: "w1 = w" if "e \<noteq> 0"
    using rn that by (auto simp: sys_rename_def Let_def split: option.splits if_splits file_node.splits)
  show ?thesis
  proof (cases "cu_getinfo cu \<noteq> 0 \<or> (case tr of None \<Rightarrow> 0 | Some tr \<Rightarrow> tr_status tr) \<ge> 400 \<or> e \<noteq> 0")
    case True
    with assms(1) rn kept have "w' = w" "\<exists>e. r = Inl e"
      by (auto simp: move_download_def bindP_def sysP_run split: if_splits)
    then show ?thesis by auto
  next
    case False
    with assms(1) rn have "(if sys_chmod file w1 \<noteq> 0 then errorP (ERROR_TDNF_SYSTEM_BASE + sys_chmod file w1) else returnP ()) w1 = Some (r, w')"
      by (simp add: move_download_def bindP_def sysP_run)
    then have w': "w' = w1" and r: "r = Inr () \<longleftrightarrow> sys_chmod file w1 = 0" by (auto split: if_splits)
    from False have e: "e = 0" and st: "case tr of None \<Rightarrow> True | Some t \<Rightarrow> tr_status t < 400" by (auto split: option.splits)
    have "sys_chmod file w1 = 0" if "fs_deny w SYS_CHMOD (resolve file) = 0"
      using that moved [OF e] touchesD(3) [OF t1] by (simp add: sys_chmod_def)
    with w' r t1 l1 l2 moved [OF e] st show ?thesis by auto
  qed
qed

lemma DownloadFile_run:
  assumes "TDNFDownloadFile env pRepo url file d w = Some (r, w')" and "cu_init (de_curl env)"
    and "download_options env pRepo url d = Inr opts" and "url \<noteq> []" and "file \<noteq> []"
    and "length file + 5 \<le> TDNF_DEFAULT_MAX_STRING_LEN"
  shows "unlink_on_error (file @ ''.tmp'')
      (bindP (try_loop (de_curl env) opts (file @ ''.tmp'') (nat (rp_nRetries pRepo + 1)))
        (move_download (de_curl env) (file @ ''.tmp'') file)) w = Some (r, w')"
  using assms by (simp add: TDNFDownloadFile_def TDNFAllocateStringPrintf_def)

lemma DownloadFile_cases:
  assumes "TDNFDownloadFile env pRepo url file d w = Some (r, w')"
  obtains (refused) e where "r = Inl e" "w' = w"
  | (run) opts where "download_options env pRepo url d = Inr opts"
      "unlink_on_error (file @ ''.tmp'')
        (bindP (try_loop (de_curl env) opts (file @ ''.tmp'') (nat (rp_nRetries pRepo + 1)))
          (move_download (de_curl env) (file @ ''.tmp'') file)) w = Some (r, w')"
proof (cases "url = [] \<or> file = [] \<or> \<not> cu_init (de_curl env)")
  case True
  with assms refused show thesis by (auto simp: TDNFDownloadFile_def split: if_splits)
next
  case False
  show thesis
  proof (cases "download_options env pRepo url d")
    case (Inl e)
    with assms False have "r = Inl e" "w' = w" by (auto simp: TDNFDownloadFile_def)
    then show thesis by (rule refused)
  next
    case (Inr opts)
    with assms False refused run show thesis
      by (cases "TDNFAllocateStringPrintf 0 (file @ ''.tmp'')")
        (auto simp: TDNFDownloadFile_def TDNFAllocateStringPrintf_def split: if_splits)
  qed
qed

lemma try_loop_total: "\<exists>r w'. try_loop cu opts tmp n w = Some (r, w')"
proof (induction n arbitrary: opts w)
  case (Suc n)
  show ?case
    using Suc by (auto simp: bindP_def sysP_run set_opt_def curl_easy_perform_def Let_def)
qed simp

lemma move_download_total: "\<exists>r w'. move_download cu tmp file tr w = Some (r, w')"
  by (auto simp: move_download_def bindP_def sysP_run)

lemma DownloadFile_total: "TDNFDownloadFile env pRepo url file d w \<noteq> None"
proof -
  have l: "(try_loop cu opts tmp n v = None) = False" for cu opts tmp n v using try_loop_total by (metis option.distinct(1))
  have m: "(move_download cu tmp dst tr v = None) = False" for cu tmp dst tr v
    using move_download_total by (metis option.distinct(1))
  show ?thesis
    by (auto simp: l m TDNFDownloadFile_def unlink_on_error_def bindP_def catch_error_def liftR_def sysC_def
        split: option.splits sum.splits prod.splits)
qed

lemma unlink_on_error_cases:
  assumes "unlink_on_error tmp m w = Some (r, w')"
  obtains (ok) x where "m w = Some (Inr x, w')" "r = Inr x"
  | (fails) e w1 where "m w = Some (Inl e, w1)" "r = Inl e" "w' = snd (sys_unlink tmp w1)"
  using assms by (cases "m w") (auto simp: unlink_on_error_def bindP_def catch_error_def split: sum.splits prod.splits)

lemma DownloadFile_outcome:
  assumes "TDNFDownloadFile env pRepo url (d @ CHR ''/'' # n) pd w = Some (r, w')" and "plain_name n"
    and "0 \<le> rp_nRetries pRepo"
  shows "(touches {resolve d @ [n], resolve d @ [n @ ''.tmp'']} w w' \<and> logged (transfer_of pRepo url) w w'
      \<and> nt_tries w' \<le> nt_tries w + nat (rp_nRetries pRepo + 1))
    \<and> (case r of
         Inr _ \<Rightarrow> \<exists>t opts. node_at w' (resolve d @ [n]) = Some (File (tr_text t) (fs_now w))
           \<and> node_at w' (resolve d @ [n @ ''.tmp'']) = None \<and> tr_code t = 0 \<and> tr_status t < 400
           \<and> t = cu_perform (de_curl env) (nt_tries w' - 1) opts \<and> transfer_of pRepo url opts
       | Inl e \<Rightarrow> fs_deny w SYS_CHMOD (resolve d @ [n]) = 0 \<longrightarrow> node_at w' (resolve d @ [n]) = node_at w (resolve d @ [n]))"
proof -
  let ?f = "d @ CHR ''/'' # n" and ?tmp = "(d @ CHR ''/'' # n) @ ''.tmp''"
  let ?kf = "resolve d @ [n]" and ?kt = "resolve d @ [n @ ''.tmp'']"
  have kf: "resolve ?f = ?kf" and kt: "resolve ?tmp = ?kt"
    using resolve_plain [OF assms(2)] resolve_tmp [OF assms(2)] by simp_all
  have kt': "resolve (d @ CHR ''/'' # n @ ''.tmp'') = ?kt" using kt by simp
  from assms(1) show ?thesis
  proof (cases rule: DownloadFile_cases)
    case refused
    then show ?thesis by (simp add: logged_refl)
  next
    case (run opts)
    have tr: "transfer_of pRepo url o'" if "set opts \<subseteq> set o'" for o'
      using download_options_transfer [OF run(1)] that by (auto simp: transfer_of_def)
    let ?N = "nat (rp_nRetries pRepo + 1)"
    obtain lr w1 where loop: "try_loop (de_curl env) opts ?tmp ?N w = Some (lr, w1)" using try_loop_total by blast
    have fr: "touches {?kt} w w1 \<and> logged (transfer_of pRepo url) w w1 \<and> nt_tries w1 \<le> nt_tries w + ?N"
      using try_loop_frame [OF loop, of "transfer_of pRepo url"] tr by (simp add: kt')
    then have fr': "touches {?kf, ?kt} w w1" by (auto intro: touches_mono)
    have unl: "touches {?kf, ?kt} v (snd (sys_unlink ?tmp v)) \<and> nt_log (snd (sys_unlink ?tmp v)) = nt_log v
        \<and> nt_tries (snd (sys_unlink ?tmp v)) = nt_tries v \<and> node_at (snd (sys_unlink ?tmp v)) ?kf = node_at v ?kf" for v :: "'z net_scheme"
    proof -
      have "touches {?kt} v (snd (sys_unlink ?tmp v))"
        using sys_unlink_touches [of ?tmp v "fst (sys_unlink ?tmp v)" "snd (sys_unlink ?tmp v)" "{?kt}"] by (simp add: kt')
      moreover have "nt_tries (snd (sys_unlink ?tmp v)) = nt_tries v"
        by (auto simp: sys_unlink_def Let_def split: option.split file_node.split)
      moreover from calculation(1) have "node_at (snd (sys_unlink ?tmp v)) ?kf = node_at v ?kf" by (rule touchesD) simp
      ultimately show ?thesis using sys_net(3) [of ?tmp v] by (auto intro: touches_mono)
    qed
    show ?thesis
    proof (cases lr)
      case (Inl e)
      with run(2) loop have "r = Inl e" "w' = snd (sys_unlink ?tmp w1)"
        by (auto simp: unlink_on_error_def bindP_def catch_error_def)
      with fr fr' unl [of w1] show ?thesis
        by (auto simp: logged_def intro: touches_trans dest: touchesD(1) [where k = ?kf])
    next
      case (Inr tr)
      obtain mr w2 where mv: "move_download (de_curl env) ?tmp ?f tr w1 = Some (mr, w2)" using move_download_total by blast
      note m = move_download_spec [OF mv, unfolded kf kt]
      obtain t o' where t: "tr = Some t" "tr_code t = 0" "node_at w1 ?kt = Some (File (tr_text t) (fs_now w))"
          "t = cu_perform (de_curl env) (nt_tries w1 - 1) o'" "set opts \<subseteq> set o'"
        using try_loop_ok [OF loop [unfolded Inr]] assms(3) by (auto simp: kt')
      show ?thesis
      proof (cases mr)
        case (Inl e)
        with run(2) loop Inr mv have "r = Inl e" "w' = snd (sys_unlink ?tmp w2)"
          by (auto simp: unlink_on_error_def bindP_def catch_error_def)
        with fr fr' m unl [of w2] Inl touchesD(3) [OF fr'] touchesD(1) [of "{?kt}" w w1 ?kf] show ?thesis
          by (auto simp: logged_def insert_commute intro: touches_trans)
      next
        case (Inr u)
        with run(2) loop \<open>lr = Inr tr\<close> mv have "r = Inr u" "w' = w2"
          by (auto simp: unlink_on_error_def bindP_def catch_error_def)
        with fr fr' m Inr t tr [OF t(5)] show ?thesis
          by (auto simp: logged_def insert_commute intro: touches_trans)
      qed
    qed
  qed
qed

section \<open>Downloads that come to an end with the file\<close>

text \<open>
  A transfer of the URL that delivers the file, one that fails so that another try may help, and a server that
  delivers after at most \<open>m\<close> such failures, whenever it is asked.
\<close>

definition delivers :: "curl \<Rightarrow> string \<Rightarrow> nat \<Rightarrow> bool" where
  "delivers cu url i \<longleftrightarrow> (\<forall>opts. OPT_URL url \<in> set opts \<longrightarrow> tr_code (cu_perform cu i opts) = 0 \<and> tr_status (cu_perform cu i opts) < 400)"

definition flaky :: "curl \<Rightarrow> string \<Rightarrow> nat \<Rightarrow> bool" where
  "flaky cu url i \<longleftrightarrow> (\<forall>opts. OPT_URL url \<in> set opts \<longrightarrow>
     tr_code (cu_perform cu i opts) \<noteq> 0 \<and> TDNFCurlErrorIsFatal (tr_code (cu_perform cu i opts)) = 0)"

definition serves :: "curl \<Rightarrow> nat \<Rightarrow> string \<Rightarrow> bool" where
  "serves cu m url \<longleftrightarrow> (\<forall>i. \<exists>j \<le> m. delivers cu url (i + j) \<and> (\<forall>j' < j. flaky cu url (i + j')))"

text \<open>The directory is there, nothing denies the calls, and libcurl takes the options.\<close>

definition can_store :: "string list \<Rightarrow> string \<Rightarrow> 'z net_scheme \<Rightarrow> bool" where
  "can_store d n w \<longleftrightarrow> node_at w d = Some Dir \<and> node_at w (d @ [n]) \<noteq> Some Dir \<and> node_at w (d @ [n @ ''.tmp'']) \<noteq> Some Dir
     \<and> fs_deny w SYS_WRITE (d @ [n @ ''.tmp'']) = 0 \<and> fs_deny w SYS_RENAME (d @ [n]) = 0 \<and> fs_deny w SYS_CHMOD (d @ [n]) = 0"

definition can_transfer :: "download_env \<Rightarrow> repo_data \<Rightarrow> string option \<Rightarrow> bool" where
  "can_transfer env pRepo pd \<longleftrightarrow> cu_init (de_curl env) \<and> cu_getinfo (de_curl env) = 0 \<and> (\<forall>opt. cu_setopt (de_curl env) opt = 0)
     \<and> (\<exists>up. TDNFRepoGetUserPass pRepo = Inr up) \<and> pd \<noteq> Some [] \<and> 0 \<le> rp_nRetries pRepo"

lemma can_store_touches: "can_store d n w \<Longrightarrow> touches ks w w' \<Longrightarrow> can_store d n w'"
  by (simp add: can_store_def touchesD)

lemma set_text_ok: "\<forall>opt. cu_setopt cu opt = 0 \<Longrightarrow> \<exists>opts'. set_text cu err opt s opts = Inr opts'"
  by (auto simp: set_text_def set_opt_def)

lemma download_options_ok:
  assumes "can_transfer env pRepo pd"
  shows "\<exists>opts. download_options env pRepo url pd = Inr opts"
proof -
  let ?cu = "de_curl env"
  have so: "\<And>opt. cu_setopt ?cu opt = 0" and up: "\<exists>up. TDNFRepoGetUserPass pRepo = Inr up" and pd: "pd \<noteq> Some []"
    using assms by (simp_all add: can_transfer_def)
  have st: "set_opt ?cu err opt opts = Inr (opt # opts)" for err opt opts by (simp add: set_opt_def so)
  have tx: "set_text ?cu err opt s opts = Inr (if IsNullOrEmptyString s then opts else opt (the s) # opts)" for err opt s opts
    by (simp add: set_text_def st)
  show ?thesis
    using up pd by (auto simp: download_options_def Let_def st tx TDNFRepoApplyProxySettings_def TDNFRepoApplyDownloadSettings_def
        TDNFRepoApplySSLSettings_def set_progress_cb_def split: option.split)
qed

lemma sys_create_run:
  assumes "k = resolve tmp" and "k \<noteq> []" and "node_at w (butlast k) = Some Dir" and "node_at w k \<noteq> Some Dir"
    and "fs_deny w SYS_WRITE k = 0"
  shows "sys_create tmp w = (0, put_node k (File [] (fs_now w)) w)"
  using assms by (simp add: sys_create_def Let_def)

lemma try_loop_live:
  assumes "resolve tmp \<noteq> []" and "node_at w (butlast (resolve tmp)) = Some Dir" and "node_at w (resolve tmp) \<noteq> Some Dir"
    and "fs_deny w SYS_WRITE (resolve tmp) = 0" and "\<And>opt. cu_setopt cu opt = 0" and "OPT_URL url \<in> set opts" and "j \<le> m"
    and "delivers cu url (nt_tries w + j)" and "\<forall>j' < j. flaky cu url (nt_tries w + j')"
  shows "\<exists>t w'. try_loop cu opts tmp (Suc m) w = Some (Inr (Some t), w') \<and> tr_status t < 400"
  using assms
proof (induction j arbitrary: m opts w)
  case (0 m opts w)
  have c: "sys_create tmp w = (0, put_node (resolve tmp) (File [] (fs_now w)) w)"
    by (rule sys_create_run) (use 0 in simp_all)
  have "tr_code (cu_perform cu (nt_tries w) (OPT_WRITEDATA tmp # opts)) = 0
      \<and> tr_status (cu_perform cu (nt_tries w) (OPT_WRITEDATA tmp # opts)) < 400"
    using 0 by (simp add: delivers_def)
  then show ?case using c 0 by (simp add: bindP_def sysP_run set_opt_def curl_easy_perform_def Let_def)
next
  case (Suc j m opts w)
  then obtain m' where m: "m = Suc m'" "j \<le> m'" by (cases m) simp_all
  let ?k = "resolve tmp" and ?o = "OPT_WRITEDATA tmp # opts"
  let ?t = "cu_perform cu (nt_tries w) ?o"
  let ?w1 = "put_node ?k (File [] (fs_now w)) w"
  let ?w2 = "write_file_text tmp (tr_text ?t) ?w1\<lparr>nt_tries := nt_tries w + 1, nt_log := nt_log w @ [?o]\<rparr>"
  have c: "sys_create tmp w = (0, ?w1)"
    by (rule sys_create_run) (use Suc in simp_all)
  have "flaky cu url (nt_tries w)" using Suc.prems(9) by (metis add_0_right zero_less_Suc)
  then have "tr_code ?t \<noteq> 0 \<and> TDNFCurlErrorIsFatal (tr_code ?t) = 0" using Suc.prems(6) by (simp add: flaky_def)
  then have step: "try_loop cu opts tmp (Suc m) w = try_loop cu ?o tmp m ?w2"
    using c Suc.prems(5) m by (simp add: bindP_def sysP_run set_opt_def curl_easy_perform_def Let_def)
  have "butlast ?k \<noteq> ?k" using Suc.prems(1) by (metis length_butlast diff_less length_greater_0_conv less_irrefl zero_less_one)
  then have d: "node_at ?w2 (butlast ?k) = Some Dir" "node_at ?w2 ?k \<noteq> Some Dir"
    using Suc.prems(1,2) by (simp_all add: write_file_text_def node_at_put)
  have "\<exists>t w'. try_loop cu ?o tmp (Suc m') ?w2 = Some (Inr (Some t), w') \<and> tr_status t < 400"
  proof (rule Suc.IH [OF Suc.prems(1) d _ Suc.prems(5) _ m(2)])
    show "fs_deny ?w2 SYS_WRITE ?k = 0" using Suc.prems(4) by (simp add: write_file_text_def)
    show "\<forall>j' < j. flaky cu url (nt_tries ?w2 + j')"
      using Suc.prems(9) by (metis Suc_less_eq add_Suc_right add_Suc net.select_convs(1) net.surjective net.update_convs(1,2) plus_1_eq_Suc add.commute)
  qed (use Suc.prems in simp_all)
  with step m show ?case by simp
qed

lemma move_download_live:
  assumes "node_at w (resolve tmp) = Some (File c i)" and "can_store d n w" and "resolve tmp = d @ [n @ ''.tmp'']"
    and "resolve file = d @ [n]" and "cu_getinfo cu = 0" and "tr_status t < 400"
  shows "\<exists>w'. move_download cu tmp file (Some t) w = Some (Inr (), w')"
proof -
  let ?w1 = "del_node (d @ [n @ ''.tmp'']) (put_node (d @ [n]) (File c i) w)"
  have "sys_rename tmp file w = (0, ?w1)"
    using assms(1-4) by (simp add: sys_rename_def Let_def can_store_def)
  moreover have "sys_chmod file ?w1 = 0"
    using assms(2,4) by (simp add: sys_chmod_def can_store_def node_at_put node_at_del)
  ultimately show ?thesis using assms(5,6) by (simp add: move_download_def bindP_def sysP_run)
qed

lemma DownloadFile_live:
  assumes "can_transfer env pRepo pd" and "can_store (resolve d) n w" and "plain_name n"
    and "serves (de_curl env) (nat (rp_nRetries pRepo)) url" and "url \<noteq> []"
    and "length (d @ CHR ''/'' # n) + 5 \<le> TDNF_DEFAULT_MAX_STRING_LEN"
  shows "\<exists>w'. TDNFDownloadFile env pRepo url (d @ CHR ''/'' # n) pd w = Some (Inr (), w')"
proof -
  let ?f = "d @ CHR ''/'' # n" and ?cu = "de_curl env" and ?m = "nat (rp_nRetries pRepo)"
  let ?tmp = "d @ CHR ''/'' # n @ ''.tmp''"
  have kf: "resolve ?f = resolve d @ [n]" and kt: "resolve ?tmp = resolve d @ [n @ ''.tmp'']"
    using resolve_plain [OF assms(3)] resolve_tmp [OF assms(3), of d] by simp_all
  obtain opts where o: "download_options env pRepo url pd = Inr opts" using download_options_ok [OF assms(1)] by blast
  have url: "OPT_URL url \<in> set opts" using download_options_transfer [OF o] by (simp add: transfer_of_def)
  have cu: "\<And>opt. cu_setopt ?cu opt = 0" "cu_init ?cu" "cu_getinfo ?cu = 0" "nat (rp_nRetries pRepo + 1) = Suc ?m"
    using assms(1) by (auto simp: can_transfer_def)
  obtain j where j: "j \<le> ?m" "delivers ?cu url (nt_tries w + j)" "\<forall>j' < j. flaky ?cu url (nt_tries w + j')"
    using assms(4) by (auto simp: serves_def)
  obtain t w1 where t: "try_loop ?cu opts ?tmp (Suc ?m) w = Some (Inr (Some t), w1)" "tr_status t < 400"
    using try_loop_live [of ?tmp w ?cu url opts j ?m] j url cu assms(2) by (auto simp: kt can_store_def)
  have fr: "touches {resolve ?tmp} w w1" using try_loop_frame [OF t(1), of "\<lambda>_. True"] by (simp add: kt)
  obtain c i where fl: "node_at w1 (resolve ?tmp) = Some (File c i)"
    using try_loop_ok [OF t(1)] by (auto simp: kt)
  obtain w2 where mv: "move_download ?cu ?tmp ?f (Some t) w1 = Some (Inr (), w2)"
    using move_download_live [OF fl can_store_touches [OF assms(2) fr] kt kf cu(3) t(2)] by blast
  have "TDNFDownloadFile env pRepo url ?f pd w = unlink_on_error ?tmp (bindP (try_loop ?cu opts ?tmp (Suc ?m)) (move_download ?cu ?tmp ?f)) w"
    using assms(5,6) cu o by (simp add: TDNFDownloadFile_def TDNFAllocateStringPrintf_def)
  also have "\<dots> = Some (Inr (), w2)"
    using t mv by (simp add: unlink_on_error_def bindP_def catch_error_def)
  finally show ?thesis by blast
qed

text \<open>The URLs of a location at the mirrors.\<close>

definition mirror_urls :: "string list \<Rightarrow> string \<Rightarrow> string option list" where
  "mirror_urls us loc = map (\<lambda>u. case TDNFJoinPath [u, loc] of Inr p \<Rightarrow> p | Inl e \<Rightarrow> None) us"

definition joins :: "string list \<Rightarrow> string \<Rightarrow> bool" where
  "joins us loc \<longleftrightarrow> list_all (\<lambda>u. \<exists>p. TDNFJoinPath [u, loc] = Inr (Some p)) us"

lemma mirror_urls_simps [simp]:
  "TDNFJoinPath [u, loc] = Inr (Some p) \<Longrightarrow> mirror_urls (u # us) loc = Some p # mirror_urls us loc"
  by (simp add: mirror_urls_def)

definition transfer_to :: "repo_data \<Rightarrow> string option list \<Rightarrow> curl_opt list \<Rightarrow> bool" where
  "transfer_to pRepo urls opts \<longleftrightarrow> (\<exists>url. Some url \<in> set urls \<and> transfer_of pRepo url opts)"

lemma logged_mono: "logged P w w' \<Longrightarrow> (\<And>x. P x \<Longrightarrow> Q x) \<Longrightarrow> logged Q w w'"
  by (auto simp: logged_def list_all_iff)

lemma try_mirrors_outcome:
  assumes "try_mirrors env pRepo us loc (d @ CHR ''/'' # n) pd e0 w = Some (r, w')" and "plain_name n"
    and "0 \<le> rp_nRetries pRepo"
  shows "(touches {resolve d @ [n], resolve d @ [n @ ''.tmp'']} w w' \<and> logged (transfer_to pRepo (mirror_urls us loc)) w w')
    \<and> (case r of
         Inr _ \<Rightarrow> \<exists>t opts. node_at w' (resolve d @ [n]) = Some (File (tr_text t) (fs_now w))
           \<and> tr_code t = 0 \<and> tr_status t < 400
           \<and> t = cu_perform (de_curl env) (nt_tries w' - 1) opts \<and> transfer_to pRepo (mirror_urls us loc) opts
       | Inl e \<Rightarrow> fs_deny w SYS_CHMOD (resolve d @ [n]) = 0 \<longrightarrow> node_at w' (resolve d @ [n]) = node_at w (resolve d @ [n]))"
  using assms(1)
proof (induction us arbitrary: e0 w)
  case Nil
  then show ?case by (auto simp: logged_refl)
next
  case (Cons u us)
  let ?ks = "{resolve d @ [n], resolve d @ [n @ ''.tmp'']}" and ?P = "transfer_to pRepo (mirror_urls (u # us) loc)"
  show ?case
  proof (cases "TDNFJoinPath [u, loc]")
    case (Inl e)
    with Cons.prems show ?thesis by (auto simp: logged_refl)
  next
    case (Inr p)
    have p: "p = Some (the p)" using Inr by (auto simp: TDNFJoinPath_def bail_def split: sum.splits prod.splits)
    obtain r1 w1 where run: "TDNFDownloadFile env pRepo (the p) (d @ CHR ''/'' # n) pd w = Some (r1, w1)"
      using Cons.prems Inr by (cases "TDNFDownloadFile env pRepo (the p) (d @ CHR ''/'' # n) pd w")
        (auto simp: bindP_def catch_error_def)
    have P: "?P opts" if "transfer_of pRepo (the p) opts" for opts
      using that Inr p by (auto simp: transfer_to_def mirror_urls_def intro!: exI [of _ "the p"])
    have Q: "?P opts" if "transfer_to pRepo (mirror_urls us loc) opts" for opts
      using that by (auto simp: transfer_to_def mirror_urls_def)
    note out = DownloadFile_outcome [OF run assms(2,3)]
    have f1: "touches ?ks w w1" and l1: "logged ?P w w1" using out logged_mono P by blast+
    show ?thesis
    proof (cases r1)
      case (Inr u1)
      with Cons.prems \<open>TDNFJoinPath [u, loc] = Inr p\<close> run have "r = Inr ()" "w' = w1"
        by (auto simp: bindP_def catch_error_def)
      with out Inr f1 l1 P show ?thesis by auto
    next
      case (Inl e1)
      with Cons.prems \<open>TDNFJoinPath [u, loc] = Inr p\<close> run
      have rest: "try_mirrors env pRepo us loc (d @ CHR ''/'' # n) pd e1 w1 = Some (r, w')"
        by (simp add: bindP_def catch_error_def)
      note ih = Cons.IH [OF rest]
      have "touches ?ks w w'" using f1 ih by (auto intro: touches_trans)
      moreover have "logged ?P w w'" using l1 ih logged_mono [of "transfer_to pRepo (mirror_urls us loc)" w1 w' ?P] Q
        by (auto intro: logged_trans)
      moreover have "fs_now w1 = fs_now w" "fs_deny w1 = fs_deny w" using touchesD [OF f1] by simp_all
      ultimately show ?thesis using ih out Inl Q by (auto split: sum.splits)
    qed
  qed
qed

lemma try_mirrors_live:
  assumes "can_transfer env pRepo pd" and "plain_name n" and "joins us loc" and "\<forall>u \<in> set us. TDNFJoinPath [u, loc] \<noteq> Inr (Some [])"
    and "u \<in> set us" and "TDNFJoinPath [u, loc] = Inr (Some url)" and "serves (de_curl env) (nat (rp_nRetries pRepo)) url"
    and "length (d @ CHR ''/'' # n) + 5 \<le> TDNF_DEFAULT_MAX_STRING_LEN" and "can_store (resolve d) n w"
  shows "\<exists>w'. try_mirrors env pRepo us loc (d @ CHR ''/'' # n) pd e0 w = Some (Inr (), w')"
  using assms(3-5,9)
proof (induction us arbitrary: e0 w)
  case (Cons v vs)
  obtain p where p: "TDNFJoinPath [v, loc] = Inr (Some p)" "p \<noteq> []" using Cons.prems(1,2) by (auto simp: joins_def)
  show ?case
  proof (cases "\<exists>w'. TDNFDownloadFile env pRepo p (d @ CHR ''/'' # n) pd w = Some (Inr (), w')")
    case True
    then show ?thesis using p by (auto simp: bindP_def catch_error_def)
  next
    case False
    have "\<not> serves (de_curl env) (nat (rp_nRetries pRepo)) p"
      using DownloadFile_live [OF assms(1) Cons.prems(4) assms(2) _ p(2) assms(8)] False by blast
    with assms(6,7) p(1) have "u \<noteq> v" by auto
    obtain r w1 where run: "TDNFDownloadFile env pRepo p (d @ CHR ''/'' # n) pd w = Some (r, w1)"
      using DownloadFile_total by (metis option.exhaust surj_pair)
    with False obtain e where r: "r = Inl e" by (cases r) auto
    have "0 \<le> rp_nRetries pRepo" using assms(1) by (simp add: can_transfer_def)
    from DownloadFile_outcome [OF run assms(2) this] have "can_store (resolve d) n w1"
      using can_store_touches [OF Cons.prems(4)] by blast
    with Cons.IH [of w1 e] Cons.prems \<open>u \<noteq> v\<close> have "\<exists>w'. try_mirrors env pRepo vs loc (d @ CHR ''/'' # n) pd e w1 = Some (Inr (), w')"
      by (auto simp: joins_def)
    then show ?thesis using p run r by (simp add: bindP_def catch_error_def)
  qed
qed simp



section \<open>A small network\<close>

text \<open>A server that never answers and one that answers every other try.\<close>

definition net_curl :: curl where
  "net_curl = \<lparr>cu_init = True, cu_setopt = (\<lambda>_. 0),
     cu_perform = (\<lambda>i opts. if OPT_URL ''b/x'' \<in> set opts \<and> odd i
       then \<lparr>tr_code = 0, tr_text = ''DATA'', tr_status = 200\<rparr> else \<lparr>tr_code = 28, tr_text = ''DA'', tr_status = 0\<rparr>),
     cu_getinfo = 0\<rparr>"

definition net_repo :: repo_data where
  "net_repo = (repo_defaults conf_defaults ''r'')\<lparr>rp_ppszBaseUrls := Some [''a'', ''b''], rp_nRetries := 1\<rparr>"

definition net_env :: download_env where
  "net_env = \<lparr>de_curl = net_curl, de_pConf = conf_defaults\<lparr>cf_pszCacheDir := Some ''/c''\<rparr>, de_pRepos = [net_repo],
     de_nQuiet = True, de_nVerbose = False, de_isatty = False\<rparr>"

definition sample_net :: net where
  "sample_net = \<lparr>fs_nodes = [([''c''], Dir)], fs_deny = (\<lambda>_ _. 0), fs_now = 5, nt_tries = 0, nt_log = []\<rparr>"

lemma sample_net_nodes:
  "node_at sample_net [''c''] = Some Dir" "node_at sample_net [''c'', n] = None"
  by (simp_all add: node_at_def sample_net_def)

lemma sample_resolve: "resolve ''/c'' = [''c'']" "resolve ''/c/f'' = [''c'', ''f'']" "resolve ''/c/f.tmp'' = [''c'', ''f.tmp'']"
  by (simp_all add: resolve_def)

lemma sample_joins: "TDNFJoinPath [''a'', ''x''] = Inr (Some ''a/x'')" "TDNFJoinPath [''b'', ''x''] = Inr (Some ''b/x'')"
  by (simp_all add: TDNFJoinPath_def is_slash_def strip_trailing_slashes_def Let_def TDNFAllocateString_def TDNF_DEFAULT_MAX_STRING_LEN_def)

lemma sample_can:
  "can_transfer net_env net_repo (Some ''p'')" "can_store [''c''] ''f'' sample_net" "plain_name ''f''"
  "joins [''a'', ''b''] ''x''" "rp_ppszBaseUrls net_repo = Some [''a'', ''b'']" "nat (rp_nRetries net_repo) = 1"
  by (simp_all add: can_transfer_def net_env_def net_curl_def net_repo_def repo_defaults_def TDNFRepoGetUserPass_def
      IsNullOrEmptyString_def can_store_def sample_net_nodes plain_name_def joins_def sample_joins)
    (simp_all add: sample_net_def)

lemma sample_serves: "serves (de_curl net_env) 1 ''b/x''"
proof -
  have "\<exists>j \<le> 1. delivers net_curl ''b/x'' (i + j) \<and> (\<forall>j' < j. flaky net_curl ''b/x'' (i + j'))" for i :: nat
  proof (cases "odd i")
    case True
    then show ?thesis by (intro exI [of _ 0]) (simp add: delivers_def net_curl_def)
  next
    case False
    then show ?thesis by (intro exI [of _ 1]) (simp add: delivers_def flaky_def net_curl_def TDNFCurlErrorIsFatal_def)
  qed
  then show ?thesis by (simp add: serves_def net_env_def)
qed


text \<open>The same repository with one mirror that answers.\<close>

definition steady_curl :: curl where
  "steady_curl = net_curl\<lparr>cu_perform := (\<lambda>i opts. \<lparr>tr_code = 0, tr_text = ''DATA'', tr_status = 200\<rparr>)\<rparr>"

definition steady_env :: download_env where
  "steady_env = net_env\<lparr>de_curl := steady_curl\<rparr>"

definition steady_opts :: "curl_opt list" where
  "steady_opts = [OPT_WRITEDATA ''/c/f.tmp'', OPT_FOLLOWLOCATION 1, OPT_URL ''a/x'', OPT_SSL_VERIFYHOST 2, OPT_SSL_VERIFYPEER 1,
     OPT_MAX_RECV_SPEED_LARGE 0, OPT_LOW_SPEED_LIMIT 0, OPT_LOW_SPEED_TIME 0, OPT_TIMEOUT 0]"

lemma steady_run:
  "TDNFDownloadFileFromRepo steady_env net_repo ''x'' ''/c/f'' (Some ''p'') sample_net
     = Some (Inr (), sample_net\<lparr>fs_nodes := [([''c''], Dir), ([''c'', ''f''], File ''DATA'' 5)], nt_tries := 1,
         nt_log := [steady_opts]\<rparr>)"
  by (simp add: TDNFDownloadFileFromRepo_def sample_can sample_joins TDNFDownloadFile_def steady_env_def net_env_def
      steady_curl_def net_curl_def steady_opts_def download_options_def Let_def set_text_def set_opt_def TDNFRepoGetUserPass_def IsNullOrEmptyString_def
      net_repo_def repo_defaults_def conf_defaults_def TDNFRepoApplyProxySettings_def TDNFRepoApplyDownloadSettings_def
      TDNFRepoApplySSLSettings_def TDNFAllocateStringPrintf_def TDNF_DEFAULT_MAX_STRING_LEN_def bindP_def unlink_on_error_def
      catch_error_def sysP_run sys_create_def sample_resolve sample_net_def node_at_def put_node_def del_node_def
      curl_easy_perform_def write_file_text_def move_download_def sys_rename_def sys_chmod_def numeral_2_eq_2)


text \<open>With a negative number of retries there is no transfer at all, and what an earlier run left under the temporary
  name becomes the file.\<close>

theorem DownloadFile_no_try:
  "TDNFDownloadFile steady_env (net_repo\<lparr>rp_nRetries := -1\<rparr>) ''u'' ''/c/f'' None
       (sample_net\<lparr>fs_nodes := [([''c''], Dir), ([''c'', ''f.tmp''], File ''OLD'' 1)]\<rparr>)
     = Some (Inr (), sample_net\<lparr>fs_nodes := [([''c''], Dir), ([''c'', ''f''], File ''OLD'' 1)]\<rparr>)"
  by (simp add: TDNFDownloadFile_def steady_env_def net_env_def
      steady_curl_def net_curl_def download_options_def Let_def set_text_def set_opt_def TDNFRepoGetUserPass_def IsNullOrEmptyString_def
      net_repo_def repo_defaults_def conf_defaults_def TDNFRepoApplyProxySettings_def TDNFRepoApplyDownloadSettings_def
      TDNFRepoApplySSLSettings_def TDNFAllocateStringPrintf_def TDNF_DEFAULT_MAX_STRING_LEN_def bindP_def unlink_on_error_def
      catch_error_def sysP_run sample_resolve sample_net_def node_at_def put_node_def del_node_def
      move_download_def sys_rename_def sys_chmod_def)

section \<open>Where packages are put\<close>

text \<open>The tree of downloads: the path handed back starts with the text of the cache directory, or nothing was made.\<close>

lemma PackageToTree_path:
  assumes "TDNFDownloadPackageToTree env loc name pRepo dir w = Some (Inr path, w')"
  shows "prefix dir path \<and> (\<exists>remote file. remote_path loc = Inr remote \<and> TDNFJoinPath [dir, remote] = Inr (Some file)
    \<and> TDNFNormalizePath (sys_realpath w) (Some file) = Some (Inr path))"
proof -
  from assms obtain remote p where r: "remote_path loc = Inr remote" "TDNFJoinPath [dir, remote] = Inr p"
      "TDNFNormalizePath (sys_realpath w) (Some (the p)) = Some (Inr path)" "prefix dir path"
    by (auto simp: TDNFDownloadPackageToTree_def bindP_ok normal_path_def readP_def liftR_def split: if_splits)
  moreover from r(2) have "p = Some (the p)" by (auto simp: TDNFJoinPath_def bail_def split: sum.splits prod.splits)
  ultimately show ?thesis by metis
qed

text \<open>The comparison is one of texts: a sibling of the directory whose name only starts like it passes.\<close>

theorem PackageToTree_sibling:
  "TDNFNormalizePath (\<lambda>s. Inl ENOENT) (Some ''/c/rpms/../rpms-x/f'') = Some (Inr ''/c/rpms-x/f'')
     \<and> prefix ''/c/rpms'' ''/c/rpms-x/f''"
  by (simp add: TDNFNormalizePath_def buf_write_def buf_read_def dslash_def dot_node_def
      dotdot_node_def resolve_prefix_def c_string_def Let_def char_at_def)

section \<open>What a download leaves\<close>

definition net_free :: "('z net_scheme \<Rightarrow> 'b) \<Rightarrow> bool" where
  "net_free g \<longleftrightarrow> files_free g \<and> (\<forall>w i l. g (w\<lparr>nt_tries := i, nt_log := l\<rparr>) = g w)"

lemma net_free_files: "net_free g \<Longrightarrow> files_free g"
  by (simp add: net_free_def)

lemma leaves_perform: "net_free g \<Longrightarrow> leaves g (curl_easy_perform cu opts tmp)"
  by (auto simp: leaves_def curl_easy_perform_def Let_def net_free_def)

lemma leaves_try_loop: "net_free g \<Longrightarrow> leaves g (try_loop cu opts tmp n)"
  by (induction n arbitrary: opts) (auto simp: leaves_perform net_free_files)

lemma leaves_unlink: "files_free g \<Longrightarrow> leaves g m \<Longrightarrow> leaves g (unlink_on_error tmp m)"
  by (auto simp: unlink_on_error_def split: sum.split)

lemma leaves_download: "net_free g \<Longrightarrow> leaves g (TDNFDownloadFile env r url dst pd)"
  by (auto simp: TDNFDownloadFile_def move_download_def net_free_files intro!: leaves_unlink leaves_try_loop)

lemma leaves_mirrors: "net_free g \<Longrightarrow> leaves g (try_mirrors env r us loc dst pd e)"
  by (induction us arbitrary: e) (auto simp: leaves_download split: sum.split)

lemma leaves_from_repo: "net_free g \<Longrightarrow> leaves g (TDNFDownloadFileFromRepo env r loc dst pd)"
  by (auto simp: TDNFDownloadFileFromRepo_def leaves_download leaves_mirrors simp del: try_mirrors.simps split: option.split list.split)

lemma leaves_package: "net_free g \<Longrightarrow> leaves g (TDNFDownloadPackage env loc name r dir)"
  by (auto simp: TDNFDownloadPackage_def leaves_from_repo split: option.split)

lemma leaves_normal_path [simp]: "leaves g (normal_path p)"
  by (auto simp: normal_path_def)

lemma leaves_ensure_dir [simp]: "net_free g \<Longrightarrow> leaves g (ensure_dir p)"
  by (auto simp: ensure_dir_def net_free_files)

lemma leaves_tree: "net_free g \<Longrightarrow> leaves g (TDNFDownloadPackageToTree env loc name r dir)"
  by (auto simp: TDNFDownloadPackageToTree_def leaves_package)

lemma leaves_to_cache: "net_free g \<Longrightarrow> leaves g (TDNFDownloadPackageToCache env loc name r)"
  by (auto simp: TDNFDownloadPackageToCache_def leaves_tree)

lemma leaves_to_directory: "net_free g \<Longrightarrow> leaves g (TDNFDownloadPackageToDirectory env loc name r dir)"
  by (auto simp: TDNFDownloadPackageToDirectory_def leaves_package)

lemma leaves_fetch_key: "net_free g \<Longrightarrow> leaves g (TDNFFetchRemoteGPGKey env r url)"
  by (auto simp: TDNFFetchRemoteGPGKey_def leaves_download)

end
