(* ===== verification/Repo_Metadata.thy ===== *)
theory Repo_Metadata
  imports Repo_Download
begin

text \<open>
  The metadata of a repository: \<^verbatim>\<open>client/repo.c\<close>, \<^verbatim>\<open>client/init.c\<close> and the loading of repositories into libsolv in
  \<^verbatim>\<open>solv/tdnfrepo.c\<close>. The world is that of the downloads with the list of repositories (a pointer to one is its
  index, for plugins may change the repositories while an event is raised), the refresh flag of the arguments and the
  repositories of the libsolv pool, each with what it was loaded with, in order. The parsers of libsolv are the
  parameter \<open>solv_env\<close>.
\<close>

section \<open>libsolv\<close>

datatype load = LoadRepomd string | LoadPrimary string | LoadFilelists string | LoadUpdateinfo string | LoadOther string
  | LoadRpm string | LoadSolv string | LoadRpmdb "string option"

text \<open>
  \<open>sv_cookie\<close> is the SHA-256 sum, \<open>sv_repomd\<close> the return code and the parts (type and location) that the parser finds in
  a repomd file, \<open>sv_open\<close> the content that \<^verbatim>\<open>solv_xfopen\<close> gives for a path and the bytes behind it,
  \<open>sv_accepts\<close> whether the parser of that kind takes the content, \<open>sv_write\<close> the bytes that \<^verbatim>\<open>repo_write\<close> makes,
  \<open>sv_whole\<close> whether the ids of a repository are all its own, and \<open>sv_tmpname\<close> the name that \<^verbatim>\<open>mkstemp\<close> invents.
\<close>

record solv_env =
  sv_chksum :: bool
  sv_cookie :: "string \<Rightarrow> string"
  sv_repomd :: "string \<Rightarrow> nat \<times> (string \<times> string option) list"
  sv_open :: "string \<Rightarrow> string \<Rightarrow> string option"
  sv_accepts :: "load \<Rightarrow> bool"
  sv_write :: "load list \<Rightarrow> string option"
  sv_whole :: "load list \<Rightarrow> bool"
  sv_tmpname :: string

record solv_repo =
  sr_name :: string
  sr_priority :: int
  sr_loads :: "load list"

record meta = net +
  mw_repos :: "repo_data list"
  mw_nRefresh :: bool
  mw_pool :: "solv_repo list"

record meta_env =
  me_net :: download_env
  me_solv :: solv_env
  me_plugins :: "meta plugin list"
  me_nCacheOnly :: bool

abbreviation (input) ERROR_TDNF_SOLV_FAILED :: errcode where "ERROR_TDNF_SOLV_FAILED \<equiv> 1301"
abbreviation (input) ERROR_TDNF_SOLV_IO :: errcode where "ERROR_TDNF_SOLV_IO \<equiv> 1304"
abbreviation (input) ERROR_TDNF_SOLV_CHKSUM :: errcode where "ERROR_TDNF_SOLV_CHKSUM \<equiv> 1312"
abbreviation (input) ERROR_TDNF_REPO_WRITE :: errcode where "ERROR_TDNF_REPO_WRITE \<equiv> 1313"
abbreviation (input) ERROR_TDNF_SOLV_CACHE_NOT_CREATED :: errcode where "ERROR_TDNF_SOLV_CACHE_NOT_CREATED \<equiv> 1314"
abbreviation (input) ERROR_TDNF_ADD_SOLV :: errcode where "ERROR_TDNF_ADD_SOLV \<equiv> 1315"
abbreviation (input) ERROR_TDNF_BASEURL_DOES_NOT_EXISTS :: errcode where "ERROR_TDNF_BASEURL_DOES_NOT_EXISTS \<equiv> 2500"
abbreviation (input) ERROR_TDNF_CACHE_DISABLED :: errcode where "ERROR_TDNF_CACHE_DISABLED \<equiv> 1034"

definition SOLV_COOKIE_IDENT :: string where
  "SOLV_COOKIE_IDENT = ''tdnf''"

abbreviation (input) SOLV_COOKIE_LEN :: nat where "SOLV_COOKIE_LEN \<equiv> 32"

definition readable :: "string \<Rightarrow> 'z files_scheme \<Rightarrow> string option" where
  "readable p w = (case sys_open p w of Inl e \<Rightarrow> None | Inr text \<Rightarrow> Some text)"

definition xreadable :: "solv_env \<Rightarrow> string \<Rightarrow> 'z files_scheme \<Rightarrow> string option" where
  "xreadable sv p w = (case sys_open p w of Inl e \<Rightarrow> None | Inr text \<Rightarrow> sv_open sv p text)"

definition SolvCalculateCookieForFile :: "solv_env \<Rightarrow> string \<Rightarrow> ('z files_scheme, string) prog" where
  "SolvCalculateCookieForFile sv pszFilePath =
     bindP (readP (readable pszFilePath)) (\<lambda>r. case r of
       None \<Rightarrow> errorP ERROR_TDNF_SOLV_IO
     | Some text \<Rightarrow> if sv_chksum sv then returnP (sv_cookie sv (SOLV_COOKIE_IDENT @ text)) else errorP ERROR_TDNF_SOLV_CHKSUM)"

text \<open>The repository that is being loaded is the last one of the pool.\<close>

definition repo_create :: "string \<Rightarrow> (meta, unit) prog" where
  "repo_create name w = Some (Inr (), w\<lparr>mw_pool := mw_pool w @ [\<lparr>sr_name = name, sr_priority = 0, sr_loads = []\<rparr>]\<rparr>)"

definition alter_last :: "(solv_repo \<Rightarrow> solv_repo) \<Rightarrow> (meta, unit) prog" where
  "alter_last f w = Some (Inr (), w\<lparr>mw_pool := butlast (mw_pool w) @ [f (last (mw_pool w))]\<rparr>)"

definition repo_add :: "solv_env \<Rightarrow> errcode \<Rightarrow> load \<Rightarrow> (meta, unit) prog" where
  "repo_add sv err ld = (if sv_accepts sv ld then alter_last (\<lambda>r. r\<lparr>sr_loads := sr_loads r @ [ld]\<rparr>) else errorP err)"

definition repo_free :: "(meta, unit) prog" where
  "repo_free w = Some (Inr (), w\<lparr>mw_pool := butlast (mw_pool w)\<rparr>)"

definition solv_load :: "(string \<Rightarrow> meta \<Rightarrow> string option) \<Rightarrow> solv_env \<Rightarrow> errcode \<Rightarrow> (string \<Rightarrow> load) \<Rightarrow> string \<Rightarrow> (meta, unit) prog" where
  "solv_load reader sv err mk path =
     (if path = [] then errorP ERROR_TDNF_INVALID_PARAMETER
      else bindP (readP (reader path)) (\<lambda>r. case r of
             None \<Rightarrow> errorP ERROR_TDNF_SOLV_IO | Some text \<Rightarrow> repo_add sv err (mk text)))"

definition SolvLoadRepomd :: "solv_env \<Rightarrow> string \<Rightarrow> (meta, unit) prog" where
  "SolvLoadRepomd sv = solv_load readable sv ERROR_TDNF_SOLV_IO LoadRepomd"

definition SolvLoadRepomdPrimary :: "solv_env \<Rightarrow> string \<Rightarrow> (meta, unit) prog" where
  "SolvLoadRepomdPrimary sv = solv_load (xreadable sv) sv ERROR_TDNF_SOLV_IO LoadPrimary"

definition SolvLoadRepomdFilelists :: "solv_env \<Rightarrow> string \<Rightarrow> (meta, unit) prog" where
  "SolvLoadRepomdFilelists sv = solv_load (xreadable sv) sv ERROR_TDNF_SOLV_FAILED LoadFilelists"

definition SolvLoadRepomdUpdateinfo :: "solv_env \<Rightarrow> string \<Rightarrow> (meta, unit) prog" where
  "SolvLoadRepomdUpdateinfo sv = solv_load (xreadable sv) sv ERROR_TDNF_SOLV_IO LoadUpdateinfo"

definition SolvLoadRepomdOther :: "solv_env \<Rightarrow> string \<Rightarrow> (meta, unit) prog" where
  "SolvLoadRepomdOther sv = solv_load (xreadable sv) sv ERROR_TDNF_SOLV_IO LoadOther"

definition whenSome :: "'a option \<Rightarrow> ('a \<Rightarrow> ('w, unit) prog) \<Rightarrow> ('w, unit) prog" where
  "whenSome x f = (case x of None \<Rightarrow> returnP () | Some y \<Rightarrow> f y)"

definition SolvReadYumRepo ::
    "solv_env \<Rightarrow> string option \<Rightarrow> string option \<Rightarrow> string option \<Rightarrow> string option \<Rightarrow> string option \<Rightarrow> (meta, unit) prog" where
  "SolvReadYumRepo sv pszRepomd pszPrimary pszFilelists pszUpdateinfo pszOther =
     (if pszRepomd = None \<or> pszPrimary = None then errorP ERROR_TDNF_INVALID_PARAMETER
      else bindP (SolvLoadRepomd sv (the pszRepomd)) (\<lambda>_.
           bindP (SolvLoadRepomdPrimary sv (the pszPrimary)) (\<lambda>_.
           bindP (whenSome pszFilelists (SolvLoadRepomdFilelists sv)) (\<lambda>_.
           bindP (whenSome pszUpdateinfo (SolvLoadRepomdUpdateinfo sv)) (\<lambda>_.
             whenSome pszOther (SolvLoadRepomdOther sv))))))"

section \<open>The cache of libsolv\<close>

definition SolvGetMetaDataCachePath :: "string \<Rightarrow> string \<Rightarrow> string result" where
  "SolvGetMetaDataCachePath pszRepoCacheDir repo_name =
     (if repo_name = [] then Inr []
      else TDNFAllocateStringPrintf 0 (pszRepoCacheDir @ ''/solvcache/'' @ repo_name @ ''.solv''))"

text \<open>The last bytes of a cache are the cookie of the metadata it was made from.\<close>

definition SolvUseMetaDataCache :: "solv_env \<Rightarrow> string \<Rightarrow> string \<Rightarrow> string option \<Rightarrow> (meta, bool) prog" where
  "SolvUseMetaDataCache sv pszRepoCacheDir repo_name pszCookie =
     bindP (liftR (SolvGetMetaDataCachePath pszRepoCacheDir repo_name)) (\<lambda>path.
       if path = [] then errorP ERROR_TDNF_INVALID_PARAMETER
       else bindP (readP (readable path)) (\<lambda>r. case r of
              None \<Rightarrow> returnP False
            | Some text \<Rightarrow>
                if length text < SOLV_COOKIE_LEN then errorP ERROR_TDNF_SOLV_IO
                else if pszCookie \<noteq> None \<and> the pszCookie \<noteq> drop (length text - SOLV_COOKIE_LEN) text then errorP ERROR_TDNF_SOLV_IO
                else bindP (repo_add sv ERROR_TDNF_ADD_SOLV (LoadSolv text)) (\<lambda>_. returnP True)))"

text \<open>The error of \<^verbatim>\<open>fopen\<close> is passed on as it is.\<close>

definition SolvAddSolvMetaData :: "solv_env \<Rightarrow> string \<Rightarrow> (meta, unit) prog" where
  "SolvAddSolvMetaData sv pszTempSolvFile =
     bindP (readP (\<lambda>w. sr_loads (last (mw_pool w)))) (\<lambda>loads.
       if \<not> sv_whole sv loads then returnP ()
       else bindP (readP (sys_open pszTempSolvFile)) (\<lambda>r. case r of
              Inl e \<Rightarrow> errorP e
            | Inr text \<Rightarrow>
                bindP (alter_last (\<lambda>r. r\<lparr>sr_loads := []\<rparr>)) (\<lambda>_. repo_add sv ERROR_TDNF_ADD_SOLV (LoadSolv text))))"

definition make_dirs_ok :: "string \<Rightarrow> ('z files_scheme, unit) prog" where
  "make_dirs_ok dir = bindP (catch_error (TDNFUtilsMakeDirs dir)) (\<lambda>r. case r of
     Inl e \<Rightarrow> if e = ERROR_TDNF_ALREADY_EXISTS then returnP () else errorP e | Inr _ \<Rightarrow> returnP ())"

definition write_new_file :: "string \<Rightarrow> string \<Rightarrow> ('z files_scheme, unit) prog" where
  "write_new_file p text w = Some (Inr (), write_file_text p text w)"

definition SolvCreateMetaDataCache :: "solv_env \<Rightarrow> string \<Rightarrow> string \<Rightarrow> string option \<Rightarrow> (meta, unit) prog" where
  "SolvCreateMetaDataCache sv pszRepoCacheDir repo_name pszCookie =
     bindP (liftR (TDNFJoinPath [pszRepoCacheDir, ''solvcache''])) (\<lambda>dir.
     bindP (readP (sys_access (the dir))) (\<lambda>e.
     bindP (if e = 0 then returnP () else if e \<noteq> ENOENT then errorP e else make_dirs_ok (the dir)) (\<lambda>_.
     let pszTempSolvFile = the dir @ ''/.newsolv-'' @ sv_tmpname sv in
     bindP (sysC (sys_create pszTempSolvFile)) (\<lambda>e.
       if e \<noteq> 0 then errorP ERROR_TDNF_SOLV_IO
       else unlink_on_error pszTempSolvFile
         (bindP (readP (\<lambda>w. sv_write sv (sr_loads (last (mw_pool w))))) (\<lambda>out. case out of
            None \<Rightarrow> errorP ERROR_TDNF_REPO_WRITE
          | Some text \<Rightarrow>
              bindP (write_new_file pszTempSolvFile (text @ (case pszCookie of None \<Rightarrow> [] | Some c \<Rightarrow> c))) (\<lambda>_.
              bindP (SolvAddSolvMetaData sv pszTempSolvFile) (\<lambda>_.
              bindP (liftR (SolvGetMetaDataCachePath pszRepoCacheDir repo_name)) (\<lambda>path.
                if path = [] then errorP ERROR_TDNF_INVALID_PARAMETER
                else sysP (sys_rename pszTempSolvFile path))))))))))"

section \<open>The metadata files\<close>

record repo_metadata =
  md_pszRepoCacheDir :: "string option"
  md_pszRepoMD :: "string option"
  md_pszPrimary :: "string option"
  md_pszFileLists :: "string option"
  md_pszUpdateInfo :: "string option"
  md_pszOther :: "string option"

definition TDNFInitRepoFromMetadata :: "solv_env \<Rightarrow> string \<Rightarrow> repo_metadata \<Rightarrow> (meta, unit) prog" where
  "TDNFInitRepoFromMetadata sv pszRepoName md =
     (if pszRepoName = [] then errorP ERROR_TDNF_INVALID_PARAMETER
      else SolvReadYumRepo sv (md_pszRepoMD md) (md_pszPrimary md) (md_pszFileLists md) (md_pszUpdateInfo md) (md_pszOther md))"

definition TDNFDownloadRepoMDPart :: "download_env \<Rightarrow> repo_data \<Rightarrow> string option \<Rightarrow> string \<Rightarrow> string \<Rightarrow> ('z net_scheme, unit) prog" where
  "TDNFDownloadRepoMDPart env pRepo pszLocation pszDestPath pszPartName =
     (if IsNullOrEmptyString pszLocation \<or> pszDestPath = [] then errorP ERROR_TDNF_INVALID_PARAMETER
      else bindP (readP (sys_access pszDestPath)) (\<lambda>e.
             if e = 0 then returnP () else if e \<noteq> ENOENT then errorP (ERROR_TDNF_SYSTEM_BASE + e)
             else bindP (liftR (TDNFAllocateStringPrintf 0 (rp_pszId pRepo @ '' ('' @ pszPartName @ '')''))) (\<lambda>pszInfo.
                    TDNFDownloadFileFromRepo env pRepo (the pszLocation) pszDestPath (Some pszInfo))))"

text \<open>One of the parts that may be missing: its path and its download.\<close>

definition optional_part :: "download_env \<Rightarrow> repo_data \<Rightarrow> bool \<Rightarrow> string option \<Rightarrow> string option \<Rightarrow> string \<Rightarrow> ('z net_scheme, string option) prog" where
  "optional_part env pRepo skip dir pszPart pszPartName =
     (if skip \<or> IsNullOrEmptyString pszPart then returnP None
      else bindP (liftR (TDNFAppendPath dir pszPart)) (\<lambda>path.
           bindP (TDNFDownloadRepoMDPart env pRepo pszPart path pszPartName) (\<lambda>_. returnP (Some path))))"

definition TDNFEnsureRepoMDParts :: "download_env \<Rightarrow> repo_data \<Rightarrow> repo_metadata \<Rightarrow> ('z net_scheme, repo_metadata) prog" where
  "TDNFEnsureRepoMDParts env pRepo rel =
     (let dir = md_pszRepoCacheDir rel in
      bindP (liftR (TDNFAppendPath dir (md_pszPrimary rel))) (\<lambda>primary.
      bindP (TDNFDownloadRepoMDPart env pRepo (md_pszPrimary rel) primary ''primary'') (\<lambda>_.
      bindP (optional_part env pRepo (rp_nSkipMDFileLists pRepo \<noteq> 0) dir (md_pszFileLists rel) ''file lists'') (\<lambda>filelists.
      bindP (optional_part env pRepo (rp_nSkipMDUpdateInfo pRepo \<noteq> 0) dir (md_pszUpdateInfo rel) ''update info'') (\<lambda>updateinfo.
      bindP (optional_part env pRepo (rp_nSkipMDOther pRepo \<noteq> 0) dir (md_pszOther rel) ''other'') (\<lambda>other.
        returnP \<lparr>md_pszRepoCacheDir = None, md_pszRepoMD = md_pszRepoMD rel, md_pszPrimary = Some primary,
          md_pszFileLists = filelists, md_pszUpdateInfo = updateinfo, md_pszOther = other\<rparr>))))))"

text \<open>The first part of a type that the iterator of libsolv finds, and its location.\<close>

definition TDNFFindRepoMDPart :: "(string \<times> string option) list \<Rightarrow> string \<Rightarrow> string result" where
  "TDNFFindRepoMDPart parts pszType =
     (case map_of parts pszType of Some (Some loc) \<Rightarrow> TDNFAllocateString (Some loc) | _ \<Rightarrow> Inl ERROR_TDNF_NO_DATA)"

definition may_miss :: "'a result \<Rightarrow> 'a option result" where
  "may_miss r = (case r of Inr x \<Rightarrow> Inr (Some x) | Inl e \<Rightarrow> if e = ERROR_TDNF_NO_DATA then Inr None else Inl e)"

text \<open>A file that does not parse is reported, and searched for its parts all the same.\<close>

definition TDNFParseRepoMD :: "solv_env \<Rightarrow> repo_metadata \<Rightarrow> ('z files_scheme, repo_metadata) prog" where
  "TDNFParseRepoMD sv md =
     bindP (readP (sys_open (path_or_empty (md_pszRepoMD md)))) (\<lambda>r. case r of
       Inl e \<Rightarrow> errorP (ERROR_TDNF_SYSTEM_BASE + e)
     | Inr text \<Rightarrow>
         (let parts = snd (sv_repomd sv text) in
          liftR (bail (TDNFFindRepoMDPart parts ''primary'') (\<lambda>primary.
                 bail (may_miss (TDNFFindRepoMDPart parts ''filelists'')) (\<lambda>filelists.
                 bail (may_miss (TDNFFindRepoMDPart parts ''updateinfo'')) (\<lambda>updateinfo.
                 bail (may_miss (TDNFFindRepoMDPart parts ''other'')) (\<lambda>other.
                   Inr (md\<lparr>md_pszPrimary := Some primary, md_pszFileLists := filelists, md_pszUpdateInfo := updateinfo,
                     md_pszOther := other\<rparr>))))))))"

section \<open>The repomd file\<close>

definition raise_md_event :: "meta_env \<Rightarrow> 32 word \<Rightarrow> (string \<times> string) list \<Rightarrow> (meta, unit) prog" where
  "raise_md_event env phase items =
     (case foldl (\<lambda>(e, ctx) (name, str). if e \<noteq> 0 then (e, ctx) else TDNFAddEventDataString ctx (Some name) (Some str))
             (0, \<lparr>nEvent = MAKE_PLUGIN_EVENT 4 1 phase, pData = []\<rparr>) items of
        (e, ctx) \<Rightarrow> if e \<noteq> 0 then errorP e else TDNFPluginRaiseEvent (me_plugins env) ctx)"

definition TDNFEventRepoMDDownloadStart :: "meta_env \<Rightarrow> string \<Rightarrow> string \<Rightarrow> (meta, unit) prog" where
  "TDNFEventRepoMDDownloadStart env pcszRepoId pcszRepoDataDir =
     (if pcszRepoId = [] then errorP ERROR_TDNF_INVALID_PARAMETER
      else raise_md_event env 1 [(''repo.id'', pcszRepoId), (''repo.datadir'', pcszRepoDataDir)])"

definition TDNFEventRepoMDDownloadEnd :: "meta_env \<Rightarrow> string \<Rightarrow> string \<Rightarrow> (meta, unit) prog" where
  "TDNFEventRepoMDDownloadEnd env pcszRepoId pcszRepoMDFile =
     (if pcszRepoId = [] \<or> pcszRepoMDFile = [] then errorP ERROR_TDNF_INVALID_PARAMETER
      else raise_md_event env 2 [(''repo.id'', pcszRepoId), (''repomd.file'', pcszRepoMDFile)])"

text \<open>The repository that a pointer leads to; a pointer past the list dangles.\<close>

definition repoP :: "nat \<Rightarrow> (meta, repo_data) prog" where
  "repoP i w = (if i < length (mw_repos w) then Some (Inr (mw_repos w ! i), w) else None)"

definition alter_repo :: "nat \<Rightarrow> (repo_data \<Rightarrow> repo_data) \<Rightarrow> (meta, unit) prog" where
  "alter_repo i f w = (if i < length (mw_repos w) then Some (Inr (), w\<lparr>mw_repos := (mw_repos w)[i := f (mw_repos w ! i)]\<rparr>) else None)"

text \<open>Lines of a mirror list that are comments are taken out; the others are moved up.\<close>

definition mirror_lines :: "string list \<Rightarrow> string list" where
  "mirror_lines ls = filter (\<lambda>l. l = [] \<or> hd l \<noteq> CHR ''#'') ls"

definition read_lines :: "string \<Rightarrow> (meta, string list) prog" where
  "read_lines path = bindP (readP (\<lambda>w. sys_open path w)) (\<lambda>r. case r of
     Inl e \<Rightarrow> errorP (ERROR_TDNF_SYSTEM_BASE + ENOENT)
   | Inr text \<Rightarrow> liftR (TDNFSplitStringToArray (Some (takeWhile (\<lambda>c. c \<noteq> CHR 0x00) text)) (Some [NL])))"

definition read_mirror_list :: "meta_env \<Rightarrow> nat \<Rightarrow> (meta, unit) prog" where
  "read_mirror_list env i =
     bindP (repoP i) (\<lambda>pRepo. case rp_pszMirrorList pRepo of
       None \<Rightarrow> returnP ()
     | Some url \<Rightarrow>
         bindP (liftR (TDNFGetCachePath (de_pConf (me_net env)) pRepo (Some ''mirrorlist'') None)) (\<lambda>path.
         bindP (readP (stat_path (path_or_empty path))) (\<lambda>st.
         bindP (readP fs_now) (\<lambda>now.
         bindP (case st of
                  Inl e \<Rightarrow> if e = ENOENT then returnP True else errorP (ERROR_TDNF_SYSTEM_BASE + e)
                | Inr n \<Rightarrow> returnP (now - file_ctime n > rp_lMetadataExpire pRepo)) (\<lambda>needDownload.
         bindP (if needDownload then TDNFDownloadFile (me_net env) pRepo url (path_or_empty path) (Some (rp_pszId pRepo)) else returnP ()) (\<lambda>_.
         bindP (read_lines (path_or_empty path)) (\<lambda>ls.
           alter_repo i (\<lambda>r. r\<lparr>rp_ppszBaseUrls := Some (mirror_lines ls)\<rparr>))))))))"

definition ignoreP :: "('w, 'a) prog \<Rightarrow> ('w, unit) prog" where
  "ignoreP m = bindP (catch_error m) (\<lambda>_. returnP ())"

text \<open>The old caches make way for the new file.\<close>

definition replace_repomd :: "tdnf_conf \<Rightarrow> repo_data \<Rightarrow> string \<Rightarrow> string \<Rightarrow> string \<Rightarrow> ('z files_scheme, unit) prog" where
  "replace_repomd pConf pRepo pszRepoDataDir pszTmpRepoMDFile pszRepoMDFile =
     bindP (ignoreP (TDNFRepoRemoveCache pConf pRepo)) (\<lambda>_.
     bindP (ignoreP (TDNFRemoveSolvCache pConf pRepo)) (\<lambda>_.
     bindP (ignoreP (TDNFRemoveLastRefreshMarker pConf pRepo)) (\<lambda>_.
     bindP (if cf_nKeepCache pConf = 0 then ignoreP (TDNFRemoveRpmCache pConf pRepo) else returnP ()) (\<lambda>_.
     bindP (TDNFUtilsMakeDirs pszRepoDataDir) (\<lambda>_.
       TDNFReplaceFile pszTmpRepoMDFile pszRepoMDFile)))))"

text \<open>After the file is in place: the marker, the parts it names, and their download.\<close>

definition use_repomd :: "meta_env \<Rightarrow> repo_data \<Rightarrow> repo_metadata \<Rightarrow> bool \<Rightarrow> (meta, repo_metadata) prog" where
  "use_repomd env pRepo rel nNewRepoMDFile =
     bindP (if nNewRepoMDFile
            then bindP (liftR (TDNFGetCachePath (de_pConf (me_net env)) pRepo (Some TDNF_REPO_METADATA_MARKER) None)) (\<lambda>m.
                   TDNFTouchFile (path_or_empty m))
            else returnP ()) (\<lambda>_.
     bindP (catch_error (TDNFParseRepoMD (me_solv env) rel)) (\<lambda>r. case r of
       Inl e \<Rightarrow> errorP (if e = ERROR_TDNF_FILE_NOT_FOUND \<and> me_nCacheOnly env then ERROR_TDNF_CACHE_DISABLED else e)
     | Inr rel \<Rightarrow> TDNFEnsureRepoMDParts (me_net env) pRepo rel))"

text \<open>
  The download to the temporary directory. The old cookie is that of the file there was, and empty when there was none;
  a cookie whose first byte is zero is taken for none. The result says whether the file is to be replaced.
\<close>

definition no_cookie :: "string \<Rightarrow> bool" where
  "no_cookie c \<longleftrightarrow> (case c of [] \<Rightarrow> True | b # _ \<Rightarrow> b = CHR 0x00)"

definition fetch_repomd :: "meta_env \<Rightarrow> nat \<Rightarrow> string \<Rightarrow> string \<Rightarrow> (meta, bool \<times> string) prog" where
  "fetch_repomd env i pszTmpRepoDataDir pszMDCookie =
     bindP (make_dirs_ok pszTmpRepoDataDir) (\<lambda>_.
     bindP (liftR (TDNFJoinPath [pszTmpRepoDataDir, ''repomd.xml''])) (\<lambda>tmp.
     bindP (repoP i) (\<lambda>pRepo.
     bindP (TDNFDownloadFileFromRepo (me_net env) pRepo ''repodata/repomd.xml'' (the tmp) (Some (rp_pszId pRepo))) (\<lambda>_.
     bindP (if no_cookie pszMDCookie then returnP True
            else bindP (SolvCalculateCookieForFile (me_solv env) (the tmp)) (\<lambda>c. returnP (c \<noteq> pszMDCookie))) (\<lambda>nReplaceRepoMD.
     bindP (TDNFEventRepoMDDownloadEnd env (rp_pszId pRepo) (the tmp)) (\<lambda>_.
       returnP (nReplaceRepoMD, the tmp)))))))"

text \<open>The temporary directory is removed whatever happens.\<close>

definition remove_tmp :: "string option \<Rightarrow> ('z files_scheme, 'a) prog \<Rightarrow> ('z files_scheme, 'a) prog" where
  "remove_tmp d m = bindP (catch_error m) (\<lambda>r.
     bindP (if IsNullOrEmptyString d then returnP () else ignoreP (TDNFRemoveTmpRepodata d)) (\<lambda>_. liftR r))"

definition get_repomd :: "meta_env \<Rightarrow> nat \<Rightarrow> repo_data \<Rightarrow> string \<Rightarrow> (meta, repo_metadata) prog" where
  "get_repomd env i pRepo pszRepoDataDir =
     (let pConf = de_pConf (me_net env) in
      bindP (liftR (TDNFJoinPath [pszRepoDataDir, ''repomd.xml''])) (\<lambda>file.
      bindP (liftR (TDNFGetCachePath pConf pRepo None None)) (\<lambda>cachedir.
      bindP (liftR (TDNFAllocateString file)) (\<lambda>pszRepoMD.
      bindP (liftR (TDNFAllocateString (Some (rp_pszId pRepo)))) (\<lambda>_.
      let rel = \<lparr>md_pszRepoCacheDir = cachedir, md_pszRepoMD = Some pszRepoMD, md_pszPrimary = None, md_pszFileLists = None,
                 md_pszUpdateInfo = None, md_pszOther = None\<rparr> in
      bindP (readP (sys_access pszRepoMD)) (\<lambda>e.
      if e \<noteq> 0 \<and> e \<noteq> ENOENT then errorP (ERROR_TDNF_SYSTEM_BASE + e)
      else bindP (readP mw_nRefresh) (\<lambda>nRefresh.
      bindP (if nRefresh \<and> e = 0 then SolvCalculateCookieForFile (me_solv env) pszRepoMD else returnP []) (\<lambda>pszMDCookie.
      if (e \<noteq> 0 \<or> nRefresh) \<and> \<not> me_nCacheOnly env
      then bindP (liftR (TDNFGetCachePath pConf pRepo (Some ''tmp'') None)) (\<lambda>tmpdir.
             remove_tmp tmpdir
               (bindP (fetch_repomd env i (path_or_empty tmpdir) pszMDCookie) (\<lambda>(nReplaceRepoMD, pszTmpRepoMDFile).
                bindP (repoP i) (\<lambda>pRepo.
                bindP (if nReplaceRepoMD then replace_repomd pConf pRepo pszRepoDataDir pszTmpRepoMDFile pszRepoMD else returnP ()) (\<lambda>_.
                  use_repomd env pRepo rel True)))))
      else use_repomd env pRepo rel False))))))))"

definition TDNFGetRepoMD :: "meta_env \<Rightarrow> nat \<Rightarrow> string \<Rightarrow> (meta, repo_metadata) prog" where
  "TDNFGetRepoMD env i pszRepoDataDir =
     (if pszRepoDataDir = [] then errorP ERROR_TDNF_INVALID_PARAMETER
      else bindP (repoP i) (\<lambda>pRepo.
           bindP (TDNFEventRepoMDDownloadStart env (rp_pszId pRepo) pszRepoDataDir) (\<lambda>_.
           bindP (read_mirror_list env i) (\<lambda>_.
           bindP (repoP i) (\<lambda>pRepo.
             case rp_ppszBaseUrls pRepo of
               Some (u # us) \<Rightarrow> if u = [] then errorP ERROR_TDNF_BASEURL_DOES_NOT_EXISTS else get_repomd env i pRepo pszRepoDataDir
             | _ \<Rightarrow> errorP ERROR_TDNF_BASEURL_DOES_NOT_EXISTS)))))"

section \<open>Directories of packages\<close>

text \<open>
  The names in a directory; the ending of a name with fewer than four characters is looked for in front of the name.
  \<open>depth\<close> bounds the nesting of directories, of which a tree has no more than its longest path.
\<close>

fun read_rpms :: "nat \<Rightarrow> solv_env \<Rightarrow> string \<Rightarrow> (meta, unit) prog"
  and read_rpm_names :: "nat \<Rightarrow> solv_env \<Rightarrow> string \<Rightarrow> string list \<Rightarrow> (meta, unit) prog" where
  "read_rpms 0 sv pszDir w = None"
| "read_rpms (Suc depth) sv pszDir w =
     (case dir_names pszDir w of
        Inl e \<Rightarrow> Some (Inl (ERROR_TDNF_SYSTEM_BASE + e), w)
      | Inr names \<Rightarrow> read_rpm_names depth sv pszDir names w)"
| "read_rpm_names depth sv pszDir [] w = Some (Inr (), w)"
| "read_rpm_names depth sv pszDir (n # ns) w =
     (if starts (CHR ''.'') n then read_rpm_names depth sv pszDir ns w
      else case TDNFJoinPath [pszDir, n] of
             Inl e \<Rightarrow> Some (Inl e, w)
           | Inr path \<Rightarrow>
               (case stat_path (the path) w of
                  Inl e \<Rightarrow> Some (Inl (ERROR_TDNF_SYSTEM_BASE + e), w)
                | Inr Dir \<Rightarrow> (case read_rpms depth sv (the path) w of
                    None \<Rightarrow> None | Some (Inl e, w) \<Rightarrow> Some (Inl e, w) | Some (Inr _, w) \<Rightarrow> read_rpm_names depth sv pszDir ns w)
                | Inr (File _ _) \<Rightarrow>
                    if length n < 4 then None
                    else if drop (length n - 4) n \<noteq> ''.rpm'' then read_rpm_names depth sv pszDir ns w
                    else (case repo_add sv ERROR_TDNF_INVALID_PARAMETER (LoadRpm (the path)) w of
                            None \<Rightarrow> None | Some (Inl e, w) \<Rightarrow> Some (Inl e, w) | Some (Inr _, w) \<Rightarrow> read_rpm_names depth sv pszDir ns w)))"

definition tree_depth :: "'z files_scheme \<Rightarrow> nat" where
  "tree_depth w = foldr (\<lambda>(k, _) d. max (length k) d) (fs_nodes w) 0"

definition readRpmsFromDir :: "solv_env \<Rightarrow> string \<Rightarrow> (meta, unit) prog" where
  "readRpmsFromDir sv pszDir w = read_rpms (Suc (tree_depth w)) sv pszDir w"

definition SolvReadRpmsFromDirectory :: "solv_env \<Rightarrow> string option \<Rightarrow> (meta, unit) prog" where
  "SolvReadRpmsFromDirectory sv pszDir =
     (if IsNullOrEmptyString pszDir then errorP ERROR_TDNF_INVALID_PARAMETER else readRpmsFromDir sv (the pszDir))"

definition SolvReadInstalledRpms :: "solv_env \<Rightarrow> string option \<Rightarrow> (meta, unit) prog" where
  "SolvReadInstalledRpms sv pszCacheFileName =
     bindP (readP (\<lambda>w. case pszCacheFileName of None \<Rightarrow> Inr None
              | Some p \<Rightarrow> if sys_access p w = 0 then map_sum id Some (sys_open p w) else Inr None)) (\<lambda>r. case r of
       Inl e \<Rightarrow> errorP (ERROR_TDNF_SYSTEM_BASE + e)
     | Inr text \<Rightarrow> repo_add sv ERROR_TDNF_SOLV_IO (LoadRpmdb text))"

section \<open>Initialising and refreshing\<close>

definition TDNFInitCmdLineRepo :: "(meta, unit) prog" where
  "TDNFInitCmdLineRepo = repo_create CMDLINE_REPO_NAME"

text \<open>Loading the new repository of the pool, from its metadata or the cache of them.\<close>

definition load_metadata :: "meta_env \<Rightarrow> repo_data \<Rightarrow> string \<Rightarrow> repo_metadata \<Rightarrow> (meta, unit) prog" where
  "load_metadata env pRepo pszRepoCacheDir md =
     (let sv = me_solv env in
      bindP (SolvCalculateCookieForFile sv (path_or_empty (md_pszRepoMD md))) (\<lambda>cookie.
      bindP (SolvUseMetaDataCache sv pszRepoCacheDir (rp_pszId pRepo) (Some cookie)) (\<lambda>nUseMetaDataCache.
        if nUseMetaDataCache then returnP ()
        else bindP (TDNFInitRepoFromMetadata sv (rp_pszId pRepo) md) (\<lambda>_.
               SolvCreateMetaDataCache sv pszRepoCacheDir (rp_pszId pRepo) (Some cookie)))))"

definition free_on_error :: "(meta, unit) prog \<Rightarrow> (meta, unit) prog" where
  "free_on_error m = bindP (catch_error m) (\<lambda>r. case r of
     Inl e \<Rightarrow> bindP repo_free (\<lambda>_. errorP e) | Inr _ \<Rightarrow> returnP ())"

text \<open>The error of making the directory is lost; without base URLs there is no first one to read.\<close>

definition init_repo :: "meta_env \<Rightarrow> nat \<Rightarrow> repo_data \<Rightarrow> (meta, unit) prog" where
  "init_repo env i pRepo =
     bindP (liftR (TDNFGetCachePath (de_pConf (me_net env)) pRepo None None)) (\<lambda>cachedir.
     bindP (liftR (TDNFJoinPath (until_null [cachedir, Some ''repodata'']))) (\<lambda>datadir.
     bindP (if rp_nHasMetaData pRepo \<noteq> 0
            then bindP (ignoreP (TDNFUtilsMakeDirs (path_or_empty datadir))) (\<lambda>_.
                   bindP (TDNFGetRepoMD env i (path_or_empty datadir)) (\<lambda>md. returnP (Some md)))
            else returnP None) (\<lambda>md.
     bindP (repoP i) (\<lambda>pRepo.
     bindP (repo_create (rp_pszId pRepo)) (\<lambda>_.
     bindP (alter_last (\<lambda>r. r\<lparr>sr_priority := - rp_nPriority pRepo\<rparr>)) (\<lambda>_.
       free_on_error (case md of
           Some md \<Rightarrow> load_metadata env pRepo (path_or_empty cachedir) md
         | None \<Rightarrow> (case rp_ppszBaseUrls pRepo of
             None \<Rightarrow> (\<lambda>w. None)
           | Some us \<Rightarrow> SolvReadRpmsFromDirectory (me_solv env) (case us of [] \<Rightarrow> None | u # _ \<Rightarrow> Some u)))))))))"

definition TDNFInitRepo :: "meta_env \<Rightarrow> nat \<Rightarrow> (meta, unit) prog" where
  "TDNFInitRepo env i =
     bindP (repoP i) (\<lambda>pRepo.
     bindP (catch_error (init_repo env i pRepo)) (\<lambda>r. case r of
       Inr _ \<Rightarrow> returnP ()
     | Inl e \<Rightarrow>
         bindP (repoP i) (\<lambda>pRepo.
         bindP (ignoreP (TDNFRepoRemoveCache (de_pConf (me_net env)) pRepo)) (\<lambda>_.
         bindP (ignoreP (TDNFRemoveSolvCache (de_pConf (me_net env)) pRepo)) (\<lambda>_.
         bindP (ignoreP (TDNFRemoveLastRefreshMarker (de_pConf (me_net env)) pRepo)) (\<lambda>_. errorP e))))))"

abbreviation (input) EACCES :: nat where "EACCES \<equiv> 13"

definition eligible :: "repo_data \<Rightarrow> bool" where
  "eligible r \<longleftrightarrow> rp_pszName r \<noteq> Some CMDLINE_REPO_NAME \<and> rp_nEnabled r \<noteq> 0"

text \<open>Of equal priority, the order of the list is kept, as the merge sort of the C library does.\<close>

definition refresh_order :: "repo_data list \<Rightarrow> nat list" where
  "refresh_order rs = sort_key (\<lambda>i. rp_nPriority (rs ! i)) (filter (\<lambda>i. eligible (rs ! i)) [0..<length rs])"

definition expired :: "meta_env \<Rightarrow> repo_data \<Rightarrow> (meta, bool) prog" where
  "expired env pRepo =
     (if rp_lMetadataExpire pRepo \<ge> 0 \<and> \<not> me_nCacheOnly env
      then bindP (liftR (TDNFGetCachePath (de_pConf (me_net env)) pRepo None None)) (\<lambda>p.
             TDNFShouldSyncMetadata (path_or_empty p) (rp_lMetadataExpire pRepo))
      else returnP False)"

definition refresh_repo :: "meta_env \<Rightarrow> bool \<Rightarrow> nat \<Rightarrow> (meta, unit) prog" where
  "refresh_repo env pSack i =
     bindP (repoP i) (\<lambda>pRepo.
     bindP (expired env pRepo) (\<lambda>nMetadataExpired.
     bindP (if nMetadataExpired
            then bindP (TDNFRepoRemoveCache (de_pConf (me_net env)) pRepo) (\<lambda>_. TDNFRemoveSolvCache (de_pConf (me_net env)) pRepo)
            else returnP ()) (\<lambda>_.
     bindP (catch_error (if pSack then TDNFInitRepo env i else returnP ())) (\<lambda>r.
     bindP (repoP i) (\<lambda>pRepo. case r of
       Inr _ \<Rightarrow> returnP ()
     | Inl e \<Rightarrow> if rp_nSkipIfUnavailable pRepo \<noteq> 0 \<and> e \<noteq> ERROR_TDNF_SYSTEM_BASE + EACCES
                then alter_repo i (\<lambda>r. r\<lparr>rp_nEnabled := 0\<rparr>) else errorP e)))))"

fun refresh_repos :: "meta_env \<Rightarrow> bool \<Rightarrow> nat list \<Rightarrow> (meta, unit) prog" where
  "refresh_repos env pSack [] = returnP ()"
| "refresh_repos env pSack (i # js) = bindP (refresh_repo env pSack i) (\<lambda>_. refresh_repos env pSack js)"

definition TDNFRefreshSack :: "meta_env \<Rightarrow> bool \<Rightarrow> bool \<Rightarrow> (meta, unit) prog" where
  "TDNFRefreshSack env pSack nCleanMetadata w =
     (let w = (if nCleanMetadata then w\<lparr>mw_nRefresh := True\<rparr> else w) in
      if list_ex (\<lambda>r. rp_pszName r = None) (mw_repos w) then None
      else refresh_repos env pSack (refresh_order (mw_repos w)) w)"

definition TDNFRefresh :: "meta_env \<Rightarrow> (meta, unit) prog" where
  "TDNFRefresh env w = TDNFRefreshSack env True (mw_nRefresh w) w"

fun clone_opts :: "cmd_opt list \<Rightarrow> cmd_opt list result" where
  "clone_opts [] = Inr []"
| "clone_opts ((name, v) # opts) =
     bail (TDNFAllocateString (Some name)) (\<lambda>name. bail (TDNFAllocateString v) (\<lambda>v.
     bail (clone_opts opts) (\<lambda>opts. Inr ((name, Some v) # opts))))"

definition TDNFCloneSetOpts :: "cmd_opt list \<Rightarrow> cmd_opt list result" where
  "TDNFCloneSetOpts pCmdOptIn = (if pCmdOptIn = [] then Inl ERROR_TDNF_INVALID_PARAMETER else clone_opts pCmdOptIn)"

section \<open>Copying the metadata of a repository\<close>

text \<open>The lines that are printed are the result.\<close>

fun download_parts :: "download_env \<Rightarrow> repo_data \<Rightarrow> string \<Rightarrow> bool \<Rightarrow> (string \<times> string option) list \<Rightarrow> (meta, string list) prog" where
  "download_parts env pRepo pszDir nPrintOnly [] = returnP []"
| "download_parts env pRepo pszDir nPrintOnly ((_, loc) # ps) =
     bindP (liftR (TDNFJoinPath (until_null [Some pszDir, loc]))) (\<lambda>path.
     bindP (if \<not> nPrintOnly
            then bindP (if loc = None then errorP ERROR_TDNF_INVALID_PARAMETER
                        else TDNFDownloadFileFromRepo env pRepo (the loc) (the path) (Some (rp_pszId pRepo))) (\<lambda>_. returnP [])
            else (case rp_ppszBaseUrls pRepo of
                    None \<Rightarrow> (\<lambda>w. None)
                  | Some us \<Rightarrow> bindP (liftR (TDNFJoinPath (until_null [(case us of [] \<Rightarrow> None | u # _ \<Rightarrow> Some u), loc]))) (\<lambda>url.
                                returnP [path_or_empty url]))) (\<lambda>out.
     bindP (download_parts env pRepo pszDir nPrintOnly ps) (\<lambda>rest. returnP (out @ rest))))"

definition TDNFDownloadRepoMDParts :: "download_env \<Rightarrow> repo_data \<Rightarrow> string \<Rightarrow> bool \<Rightarrow> (string \<times> string option) list \<Rightarrow> (meta, string list) prog" where
  "TDNFDownloadRepoMDParts = download_parts"

definition TDNFDownloadMetadata :: "meta_env \<Rightarrow> repo_data \<Rightarrow> string \<Rightarrow> bool \<Rightarrow> (meta, string list) prog" where
  "TDNFDownloadMetadata env pRepo pszRepoDir nPrintOnly =
     (let net = me_net env in
      bindP (if \<not> nPrintOnly
             then bindP (TDNFUtilsMakeDir pszRepoDir) (\<lambda>_.
                  bindP (liftR (TDNFJoinPath [pszRepoDir, ''repodata''])) (\<lambda>dir.
                  bindP (TDNFUtilsMakeDir (the dir)) (\<lambda>_.
                  bindP (liftR (TDNFJoinPath [the dir, ''repomd.xml''])) (\<lambda>path.
                  bindP (TDNFDownloadFileFromRepo net pRepo ''repodata/repomd.xml'' (the path) (Some (rp_pszId pRepo))) (\<lambda>_.
                    returnP ([], the path))))))
             else (case rp_ppszBaseUrls pRepo of
                     None \<Rightarrow> (\<lambda>w. None)
                   | Some us \<Rightarrow>
                       bindP (liftR (TDNFJoinPath (until_null [(case us of [] \<Rightarrow> None | u # _ \<Rightarrow> Some u), Some ''repodata/repomd.xml'']))) (\<lambda>url.
                       bindP (liftR (TDNFGetCachePath (de_pConf net) pRepo (Some ''repodata/repomd.xml'') None)) (\<lambda>path.
                         returnP ([path_or_empty url], path_or_empty path))))) (\<lambda>(out, path).
      bindP (readP (\<lambda>w. sys_open path w)) (\<lambda>r. case r of
        Inl e \<Rightarrow> errorP (ERROR_TDNF_SYSTEM_BASE + e)
      | Inr text \<Rightarrow>
          bindP (TDNFDownloadRepoMDParts net pRepo pszRepoDir nPrintOnly (snd (sv_repomd (me_solv env) text))) (\<lambda>lines.
            returnP (out @ lines)))))"

section \<open>What loading changes\<close>

lemma free_meta [simp]:
  "net_free mw_pool" "net_free mw_repos" "net_free mw_nRefresh" "files_free mw_pool" "files_free mw_repos" "files_free mw_nRefresh"
  by (simp_all add: net_free_def files_free_def)

lemma leaves_ignore [intro!]: "leaves g m \<Longrightarrow> leaves g (ignoreP m)"
  by (auto simp: ignoreP_def)

lemma leaves_repoP [simp]: "leaves g (repoP i)"
  by (auto simp: leaves_def repoP_def split: if_splits)

lemma leaves_make_dirs_ok [simp]: "files_free g \<Longrightarrow> leaves g (make_dirs_ok d)"
  by (auto simp: make_dirs_ok_def split: sum.split)

lemma leaves_cookie [simp]: "leaves g (SolvCalculateCookieForFile sv p)"
  by (auto simp: SolvCalculateCookieForFile_def split: option.split)

lemma leaves_part [simp]: "net_free g \<Longrightarrow> leaves g (TDNFDownloadRepoMDPart env r loc dst n)"
  by (auto simp: TDNFDownloadRepoMDPart_def leaves_from_repo)

lemma leaves_optional [simp]: "net_free g \<Longrightarrow> leaves g (optional_part env r skip d p n)"
  by (auto simp: optional_part_def)

lemma leaves_parts [simp]: "net_free g \<Longrightarrow> leaves g (TDNFEnsureRepoMDParts env r rel)"
  by (auto simp: TDNFEnsureRepoMDParts_def Let_def)

lemma leaves_parse [simp]: "leaves g (TDNFParseRepoMD sv md)"
  by (auto simp: TDNFParseRepoMD_def Let_def split: sum.split)

lemma leaves_replace [simp]: "files_free g \<Longrightarrow> leaves g (replace_repomd c r a b d)"
  by (auto simp: replace_repomd_def)

lemma leaves_use [simp]: "net_free g \<Longrightarrow> leaves g (use_repomd env r rel b)"
  by (auto simp: use_repomd_def net_free_files split: sum.split)

lemma leaves_remove_tmp [intro!]: "files_free g \<Longrightarrow> leaves g m \<Longrightarrow> leaves g (remove_tmp d m)"
  by (auto simp: remove_tmp_def)

lemma raise_md_event_none: "me_plugins env = [] \<Longrightarrow> \<exists>r. raise_md_event env ph items = (\<lambda>w. Some (r, w))"
  by (cases "foldl (\<lambda>(e, ctx) (name, str). if e \<noteq> 0 then (e, ctx) else TDNFAddEventDataString ctx (Some name) (Some str))
        (0, \<lparr>nEvent = MAKE_PLUGIN_EVENT 4 1 ph, pData = []\<rparr>) items")
    (auto simp: raise_md_event_def fun_eq_iff errorP_def returnP_def)

lemma leaves_event [simp]: "me_plugins env = [] \<Longrightarrow> leaves g (raise_md_event env ph items)"
  using raise_md_event_none [of env ph items] by (auto simp: leaves_def)

lemma leaves_event_start [simp]: "me_plugins env = [] \<Longrightarrow> leaves g (TDNFEventRepoMDDownloadStart env i d)"
  by (auto simp: TDNFEventRepoMDDownloadStart_def)

lemma leaves_fetch [simp]: "net_free g \<Longrightarrow> me_plugins env = [] \<Longrightarrow> leaves g (fetch_repomd env i d c)"
  by (auto simp: fetch_repomd_def net_free_files leaves_from_repo TDNFEventRepoMDDownloadEnd_def)

lemma leaves_get_repomd [simp]: "net_free g \<Longrightarrow> me_plugins env = [] \<Longrightarrow> leaves g (get_repomd env i r d)"
  by (auto simp: get_repomd_def Let_def net_free_files split: prod.split)

text \<open>What a refresh does not change of a repository: everything but its base URLs and whether it is enabled.\<close>

definition repo_core :: "repo_data \<Rightarrow> repo_data" where
  "repo_core r = r\<lparr>rp_ppszBaseUrls := None, rp_nEnabled := 0\<rparr>"

definition repos_core :: "meta \<Rightarrow> (repo_data \<times> int) list" where
  "repos_core w = map (\<lambda>r. (repo_core r, rp_nEnabled r)) (mw_repos w)"

lemma leaves_core: "leaves mw_repos m \<Longrightarrow> leaves repos_core m"
  by (auto simp: leaves_def repos_core_def)

lemma leaves_mirror_list [simp]: "me_plugins env = [] \<Longrightarrow> leaves mw_pool (read_mirror_list env i)"
  by (auto simp: read_mirror_list_def read_lines_def leaves_download split: option.split sum.split)
    (auto simp: leaves_def alter_repo_def split: if_splits)

lemma leaves_set_urls: "leaves repos_core (alter_repo i (\<lambda>r. r\<lparr>rp_ppszBaseUrls := u\<rparr>))"
  by (auto simp: leaves_def alter_repo_def repos_core_def map_update repo_core_def list_eq_iff_nth_eq nth_list_update split: if_splits)

lemma leaves_mirror_list_core [simp]: "leaves repos_core (read_mirror_list env i)"
  by (auto simp: read_mirror_list_def read_lines_def leaves_download leaves_set_urls leaves_core split: option.split sum.split)

lemma leaves_GetRepoMD:
  assumes "me_plugins env = []"
  shows "leaves mw_pool (TDNFGetRepoMD env i d)" "leaves repos_core (TDNFGetRepoMD env i d)"
  using assms by (auto simp: TDNFGetRepoMD_def leaves_core split: option.split list.split)

section \<open>Initialising one repository\<close>

text \<open>While a repository is loaded, the pool is the old one with that repository behind it.\<close>

definition loading :: "solv_repo list \<Rightarrow> string \<Rightarrow> int \<Rightarrow> (repo_data \<times> int) list \<Rightarrow> meta \<Rightarrow> bool" where
  "loading p name prio c w \<longleftrightarrow> repos_core w = c
     \<and> (\<exists>loads. mw_pool w = p @ [\<lparr>sr_name = name, sr_priority = prio, sr_loads = loads\<rparr>])"

lemma leaves_loading: "leaves mw_pool m \<Longrightarrow> leaves repos_core m \<Longrightarrow> stays (loading p name prio c) m"
  by (auto simp: leaves_def stays_def loading_def)

lemma alter_last_loading: "(\<And>ls. \<exists>ls'. f \<lparr>sr_name = name, sr_priority = prio, sr_loads = ls\<rparr> = \<lparr>sr_name = name, sr_priority = prio, sr_loads = ls'\<rparr>)
    \<Longrightarrow> stays (loading p name prio c) (alter_last f)"
  by (auto simp: stays_def alter_last_def loading_def repos_core_def)

lemma repo_add_loading [simp]: "stays (loading p name prio c) (repo_add sv err ld)"
  by (auto simp: repo_add_def alter_last_loading)

lemma stays_readP [simp]: "stays P (readP f)"
  by (auto simp: stays_def)

lemma core_free [simp]: "net_free repos_core" "files_free repos_core"
  by (simp_all add: net_free_def files_free_def repos_core_def)

lemma load_file_loading [simp]: "stays (loading p name prio c) (solv_load reader sv err mk path)"
  by (auto simp: solv_load_def split: option.split)

lemma yum_loading [simp]: "stays (loading p name prio c) (SolvReadYumRepo sv a b d e f)"
  by (auto simp: SolvReadYumRepo_def SolvLoadRepomd_def SolvLoadRepomdPrimary_def SolvLoadRepomdFilelists_def
      SolvLoadRepomdUpdateinfo_def SolvLoadRepomdOther_def whenSome_def split: option.split)

lemma unlink_loading [intro!]: "stays (loading p name prio c) m \<Longrightarrow> stays (loading p name prio c) (unlink_on_error tmp m)"
  by (auto simp: unlink_on_error_def leaves_loading split: sum.split)

lemma write_new_loading [simp]: "stays (loading p name prio c) (write_new_file tmp text)"
  by (rule leaves_loading) (auto simp: leaves_def write_new_file_def)

lemma solv_meta_loading [simp]: "stays (loading p name prio c) (SolvAddSolvMetaData sv tmp)"
  by (auto simp: SolvAddSolvMetaData_def alter_last_loading split: sum.split)

lemma cache_loading [simp]:
  "stays (loading p name prio c) (SolvUseMetaDataCache sv d n ck)" "stays (loading p name prio c) (SolvCreateMetaDataCache sv d n ck)"
  by (auto simp: SolvUseMetaDataCache_def SolvCreateMetaDataCache_def Let_def leaves_loading split: option.split)

lemma load_metadata_loading [simp]: "stays (loading p name prio c) (load_metadata env r d md)"
  by (auto simp: load_metadata_def Let_def TDNFInitRepoFromMetadata_def leaves_loading)

lemma read_rpms_loading:
  "read_rpms depth sv dir w = Some (r, w') \<Longrightarrow> loading p name prio c w \<Longrightarrow> loading p name prio c w'"
  "read_rpm_names depth sv dir names w = Some (r, w') \<Longrightarrow> loading p name prio c w \<Longrightarrow> loading p name prio c w'"
proof (induction depth sv dir w and depth sv dir names w arbitrary: r w' and r w' rule: read_rpms_read_rpm_names.induct)
  case (4 depth sv dir n ns w)
  have add: "loading p name prio c v" if "repo_add sv ERROR_TDNF_INVALID_PARAMETER ld w = Some (x, v)" for ld x v
    using staysD [OF repo_add_loading that 4(7)] .
  show ?case
  proof (cases "starts (CHR ''.'') n")
    case True
    with 4 show ?thesis by simp
  next
    case False
    show ?thesis
    proof (cases "TDNFJoinPath [dir, n]")
      case (Inl e)
      with 4 False show ?thesis by auto
    next
      case (Inr path)
      show ?thesis
        using 4(6,7) False Inr 4(2) [OF False Inr] 4(3) [OF False Inr] 4(4) [OF False Inr] 4(5) [OF False Inr] add
        by (auto split: if_splits sum.splits option.splits file_node.splits)
    qed
  qed
qed (auto split: sum.splits)

lemma from_directory_loading [simp]: "stays (loading p name prio c) (SolvReadRpmsFromDirectory sv d)"
  by (auto simp: SolvReadRpmsFromDirectory_def) (auto simp: stays_def readRpmsFromDir_def simp del: read_rpms.simps dest: read_rpms_loading)

lemma core_nth:
  assumes "repos_core w' = repos_core w" and "i < length (mw_repos w)"
  shows "i < length (mw_repos w')" "repo_core (mw_repos w' ! i) = repo_core (mw_repos w ! i)"
    "rp_nEnabled (mw_repos w' ! i) = rp_nEnabled (mw_repos w ! i)"
proof -
  have "length (repos_core w') = length (repos_core w)" using assms(1) by simp
  then show l: "i < length (mw_repos w')" using assms(2) by (simp add: repos_core_def)
  have "repos_core w' ! i = repos_core w ! i" using assms(1) by simp
  with l assms(2) show "repo_core (mw_repos w' ! i) = repo_core (mw_repos w ! i)"
    "rp_nEnabled (mw_repos w' ! i) = rp_nEnabled (mw_repos w ! i)" by (simp_all add: repos_core_def)
qed

lemma core_fields:
  assumes "repo_core r = repo_core r'"
  shows "rp_pszId r = rp_pszId r'" "rp_nPriority r = rp_nPriority r'" "rp_pszName r = rp_pszName r'"
    "rp_nSkipIfUnavailable r = rp_nSkipIfUnavailable r'"
  using assms by (auto simp: repo_core_def dest: arg_cong [where f = rp_pszId] arg_cong [where f = rp_nPriority]
      arg_cong [where f = rp_pszName] arg_cong [where f = rp_nSkipIfUnavailable])

text \<open>The entry of the pool that stands for a repository.\<close>

definition entry_of :: "repo_data \<Rightarrow> string \<times> int" where
  "entry_of r = (rp_pszId r, - rp_nPriority r)"

definition pool_entries :: "meta \<Rightarrow> (string \<times> int) list" where
  "pool_entries w = map (\<lambda>s. (sr_name s, sr_priority s)) (mw_pool w)"

lemma entry_of_core: "repo_core r = repo_core r' \<Longrightarrow> entry_of r = entry_of r'"
  using core_fields [of r r'] by (simp add: entry_of_def)

lemma pool_core_step:
  assumes "leaves mw_pool m" and "leaves repos_core m" and "m w = Some (r, w')"
  shows "mw_pool w' = mw_pool w" "repos_core w' = repos_core w"
  using leavesD [OF assms(1) assms(3)] leavesD [OF assms(2) assms(3)] by simp_all

lemma load_last:
  assumes "free_on_error m w = Some (r, w')"
    and "stays (loading p name prio c) m" and "loading p name prio c w"
  shows "repos_core w' = c \<and> (case r of Inl e \<Rightarrow> mw_pool w' = p
    | Inr _ \<Rightarrow> \<exists>loads. mw_pool w' = p @ [\<lparr>sr_name = name, sr_priority = prio, sr_loads = loads\<rparr>])"
proof -
  obtain x v where m: "m w = Some (x, v)" using assms(1) by (cases "m w") (auto simp: free_on_error_def bindP_def catch_error_def)
  have v: "loading p name prio c v" by (rule staysD [OF assms(2) m assms(3)])
  show ?thesis
  proof (cases x)
    case (Inl e)
    with assms(1) m have "r = Inl e" "w' = v\<lparr>mw_pool := butlast (mw_pool v)\<rparr>"
      by (auto simp: free_on_error_def bindP_def catch_error_def repo_free_def)
    with v show ?thesis by (auto simp: loading_def repos_core_def)
  next
    case (Inr y)
    with assms(1) m have "r = Inr ()" "w' = v" by (auto simp: free_on_error_def bindP_def catch_error_def)
    with v show ?thesis by (auto simp: loading_def)
  qed
qed

lemma init_repo_pool:
  assumes "init_repo env i pRepo w = Some (r, w')" and "me_plugins env = []" and "i < length (mw_repos w)"
  shows "repos_core w' = repos_core w \<and> (case r of Inl e \<Rightarrow> mw_pool w' = mw_pool w
    | Inr _ \<Rightarrow> \<exists>s. mw_pool w' = mw_pool w @ [s] \<and> (sr_name s, sr_priority s) = entry_of (mw_repos w ! i))"
  using assms(1) unfolding init_repo_def
proof (cases rule: bindP_cases)
  case (goes cachedir w1)
  then have w1: "w1 = w" by simp
  from goes(2) show ?thesis
  proof (cases rule: bindP_cases)
    case (goes datadir w2)
    then have w2: "w2 = w" using w1 by simp
    let ?md = "if rp_nHasMetaData pRepo \<noteq> 0
            then bindP (ignoreP (TDNFUtilsMakeDirs (path_or_empty datadir))) (\<lambda>_.
                   bindP (TDNFGetRepoMD env i (path_or_empty datadir)) (\<lambda>md. returnP (Some md)))
            else returnP None"
    have lv: "leaves mw_pool ?md" "leaves repos_core ?md" using assms(2) by (auto simp: leaves_GetRepoMD)
    from goes(2) show ?thesis
    proof (cases rule: bindP_cases)
      case fails
      have "mw_pool w' = mw_pool w2 \<and> repos_core w' = repos_core w2"
        using pool_core_step [OF lv fails(1)] by simp
      then show ?thesis using fails(2) w2 by simp
    next
      case (goes md w3)
      have "mw_pool w3 = mw_pool w2 \<and> repos_core w3 = repos_core w2"
        using pool_core_step [OF lv goes(1)] by simp
      then have w3: "mw_pool w3 = mw_pool w" "repos_core w3 = repos_core w" using w2 by simp_all
      let ?r = "mw_repos w3 ! i"
      have i: "i < length (mw_repos w3)" and core: "repo_core ?r = repo_core (mw_repos w ! i)"
        using core_nth [OF w3(2) assms(3)] by simp_all
      let ?w4 = "w3\<lparr>mw_pool := mw_pool w3 @ [\<lparr>sr_name = rp_pszId ?r, sr_priority = - rp_nPriority ?r, sr_loads = []\<rparr>]\<rparr>"
      have ld: "loading (mw_pool w) (rp_pszId ?r) (- rp_nPriority ?r) (repos_core w) ?w4"
        using w3 by (simp add: loading_def repos_core_def)
      have st: "stays (loading (mw_pool w) (rp_pszId ?r) (- rp_nPriority ?r) (repos_core w))
        (case md of Some md \<Rightarrow> load_metadata env ?r (path_or_empty cachedir) md
            | None \<Rightarrow> (case rp_ppszBaseUrls ?r of
                None \<Rightarrow> (\<lambda>w. None)
              | Some us \<Rightarrow> SolvReadRpmsFromDirectory (me_solv env) (case us of [] \<Rightarrow> None | u # _ \<Rightarrow> Some u)))"
        by (auto split: option.split)
      have "repos_core w' = repos_core w \<and> (case r of Inl e \<Rightarrow> mw_pool w' = mw_pool w
          | Inr _ \<Rightarrow> \<exists>loads. mw_pool w' = mw_pool w @ [\<lparr>sr_name = rp_pszId ?r, sr_priority = - rp_nPriority ?r, sr_loads = loads\<rparr>])"
        by (rule load_last [OF _ st ld])
          (use goes(2) i in \<open>simp add: bindP_def [where m = "repoP i"] repoP_def bindP_def [where m = "repo_create n" for n]
             repo_create_def bindP_def [where m = "alter_last f" for f] alter_last_def\<close>)
      then show ?thesis using entry_of_core [OF core] by (auto simp: entry_of_def split: sum.splits)
    qed
  qed (use w1 in auto)
qed simp

lemma InitRepo_pool:
  assumes "TDNFInitRepo env i w = Some (r, w')" and "me_plugins env = []"
  shows "i < length (mw_repos w) \<and> repos_core w' = repos_core w \<and> (case r of Inl e \<Rightarrow> mw_pool w' = mw_pool w
    | Inr _ \<Rightarrow> \<exists>s. mw_pool w' = mw_pool w @ [s] \<and> (sr_name s, sr_priority s) = entry_of (mw_repos w ! i))"
proof (cases "i < length (mw_repos w)")
  case False
  with assms(1) show ?thesis by (simp add: TDNFInitRepo_def bindP_def repoP_def)
next
  case True
  obtain x v where run: "init_repo env i (mw_repos w ! i) w = Some (x, v)"
    using assms(1) True by (cases "init_repo env i (mw_repos w ! i) w") (auto simp: TDNFInitRepo_def bindP_def repoP_def catch_error_def)
  note out = init_repo_pool [OF run assms(2) True]
  show ?thesis
  proof (cases x)
    case (Inr y)
    with assms(1) True run have "r = Inr ()" "w' = v" by (auto simp: TDNFInitRepo_def bindP_def repoP_def catch_error_def)
    with out Inr True show ?thesis by simp
  next
    case (Inl e)
    let ?m = "\<lambda>pRepo. bindP (ignoreP (TDNFRepoRemoveCache (de_pConf (me_net env)) pRepo)) (\<lambda>_.
         bindP (ignoreP (TDNFRemoveSolvCache (de_pConf (me_net env)) pRepo)) (\<lambda>_.
         bindP (ignoreP (TDNFRemoveLastRefreshMarker (de_pConf (me_net env)) pRepo)) (\<lambda>_. errorP e)))"
    have iv: "i < length (mw_repos v)" using core_nth(1) [of v w i] out True by simp
    have m: "(?m (mw_repos v ! i) :: (meta, unit) prog) v = Some (r, w')"
      using assms(1) True run Inl iv by (simp add: TDNFInitRepo_def bindP_def [where m = "repoP i"] repoP_def bindP_def [where m = "catch_error f" for f] catch_error_def)
    have lv: "leaves mw_pool (?m (mw_repos v ! i))" "leaves repos_core (?m (mw_repos v ! i))" by auto
    have "mw_pool w' = mw_pool v \<and> repos_core w' = repos_core v"
      using pool_core_step [OF lv m] by simp
    moreover have "\<exists>e. r = Inl e"
      using m by (auto simp: bindP_def errorP_def split: option.splits sum.splits)
    ultimately show ?thesis using out Inl True by auto
  qed
qed

section \<open>Refreshing all repositories\<close>

definition cores :: "meta \<Rightarrow> repo_data list" where
  "cores w = map repo_core (mw_repos w)"

definition enabled_at :: "meta \<Rightarrow> nat \<Rightarrow> bool" where
  "enabled_at w i \<longleftrightarrow> rp_nEnabled (mw_repos w ! i) \<noteq> 0"

lemma cores_of_core: "repos_core w' = repos_core w \<Longrightarrow> cores w' = cores w \<and> (\<forall>i < length (mw_repos w). enabled_at w' i = enabled_at w i)"
proof -
  assume h: "repos_core w' = repos_core w"
  have "cores v = map fst (repos_core v)" for v by (simp add: cores_def repos_core_def)
  with h core_nth(3) [OF h] show ?thesis by (simp add: enabled_at_def)
qed

lemma cores_length: "cores w' = cores w \<Longrightarrow> length (mw_repos w') = length (mw_repos w)"
  using map_eq_imp_length_eq by (auto simp: cores_def)

lemma cores_nth:
  assumes "cores w' = cores w" and "i < length (mw_repos w)"
  shows "repo_core (mw_repos w' ! i) = repo_core (mw_repos w ! i)"
proof -
  have "cores w' ! i = cores w ! i" using assms(1) by simp
  with assms(2) cores_length [OF assms(1)] show ?thesis by (simp add: cores_def)
qed

text \<open>A repository that was refreshed is in the pool, or it is switched off.\<close>

lemma refresh_repo_outcome:
  assumes "refresh_repo env True i w = Some (Inr u, w')" and "me_plugins env = []" and "i < length (mw_repos w)" and "enabled_at w i"
  shows "cores w' = cores w \<and> (\<forall>j < length (mw_repos w). j \<noteq> i \<longrightarrow> enabled_at w' j = enabled_at w j)
    \<and> pool_entries w' = pool_entries w @ (if enabled_at w' i then [entry_of (mw_repos w ! i)] else [])"
proof -
  let ?r = "mw_repos w ! i" and ?c = "de_pConf (me_net env)"
  let ?clean = "\<lambda>b. if b then bindP (TDNFRepoRemoveCache ?c ?r) (\<lambda>_. TDNFRemoveSolvCache ?c ?r) else returnP ()"
  from assms(1,3) obtain ex w1 w2 x v where
    1: "expired env ?r w = Some (Inr ex, w1)" and 2: "?clean ex w1 = Some (Inr (), w2)"
    and 3: "TDNFInitRepo env i w2 = Some (x, v)"
    and 4: "bindP (repoP i) (\<lambda>pRepo. case x of Inr _ \<Rightarrow> returnP ()
     | Inl e \<Rightarrow> if rp_nSkipIfUnavailable pRepo \<noteq> 0 \<and> e \<noteq> ERROR_TDNF_SYSTEM_BASE + EACCES
                then alter_repo i (\<lambda>r. r\<lparr>rp_nEnabled := 0\<rparr>) else errorP e) v = Some (Inr u, w')"
    by (auto simp: refresh_repo_def bindP_ok repoP_def catch_error_def split: option.splits)
  have lv1: "leaves mw_pool (expired env ?r)" "leaves repos_core (expired env ?r)" by (auto simp: expired_def)
  have lv2: "leaves mw_pool (?clean ex)" "leaves repos_core (?clean ex)" by auto
  have same: "mw_pool w2 = mw_pool w" "repos_core w2 = repos_core w"
    using pool_core_step [OF lv1 1] pool_core_step [OF lv2 2] by simp_all
  note init = InitRepo_pool [OF 3 assms(2)]
  have core2: "repo_core (mw_repos w2 ! i) = repo_core ?r" using core_nth(2) [OF same(2) assms(3)] .
  have corev: "repos_core v = repos_core w" using init same by simp
  note cv = cores_of_core [OF corev]
  have lenv: "length (mw_repos v) = length (mw_repos w)" using cores_length [of v w] cv by blast
  show ?thesis
  proof (cases x)
    case (Inr y)
    with 4 lenv assms(3) have w': "w' = v" by (simp add: bindP_def repoP_def)
    obtain s where "mw_pool v = mw_pool w @ [s]" "(sr_name s, sr_priority s) = entry_of ?r"
      using init Inr same entry_of_core [OF core2] by auto
    then have "pool_entries w' = pool_entries w @ [entry_of ?r]" using w' by (simp add: pool_entries_def)
    moreover have "enabled_at w' i" using cv assms(3,4) w' by simp
    ultimately show ?thesis using cv w' by simp
  next
    case (Inl e)
    with 4 lenv assms(3) have w': "w' = v\<lparr>mw_repos := (mw_repos v)[i := (mw_repos v ! i)\<lparr>rp_nEnabled := 0\<rparr>]\<rparr>"
      by (auto simp: bindP_def repoP_def alter_repo_def split: if_splits)
    have "cores w' = cores v" using w' lenv assms(3)
      by (auto simp: cores_def map_update repo_core_def list_eq_iff_nth_eq nth_list_update)
    moreover have "pool_entries w' = pool_entries w" using w' init Inl same by (simp add: pool_entries_def)
    moreover have "\<not> enabled_at w' i" "\<forall>j < length (mw_repos w). j \<noteq> i \<longrightarrow> enabled_at w' j = enabled_at v j"
      using w' lenv assms(3) by (auto simp: enabled_at_def)
    ultimately show ?thesis using cv by auto
  qed
qed

lemma refresh_repos_outcome:
  assumes "refresh_repos env True js w = Some (Inr u, w')" and "me_plugins env = []" and "distinct js"
    and "\<forall>i \<in> set js. i < length (mw_repos w) \<and> enabled_at w i"
  shows "cores w' = cores w \<and> (\<forall>j < length (mw_repos w). j \<notin> set js \<longrightarrow> enabled_at w' j = enabled_at w j)
    \<and> pool_entries w' = pool_entries w @ map (\<lambda>i. entry_of (mw_repos w ! i)) (filter (enabled_at w') js)"
  using assms
proof (induction js arbitrary: w)
  case (Cons i js)
  from Cons.prems(1) obtain v where 1: "refresh_repo env True i w = Some (Inr (), v)"
    and 2: "refresh_repos env True js v = Some (Inr u, w')" by (auto simp: bindP_ok)
  have i: "i < length (mw_repos w)" "enabled_at w i" using Cons.prems(4) by simp_all
  note one = refresh_repo_outcome [OF 1 Cons.prems(2) i]
  have len: "length (mw_repos v) = length (mw_repos w)" using cores_length [of v w] one by blast
  have js: "\<forall>j \<in> set js. j < length (mw_repos v) \<and> enabled_at v j" using Cons.prems(3,4) one len by auto
  have d: "distinct js" "i \<notin> set js" using Cons.prems(3) by simp_all
  note ih = Cons.IH [OF 2 Cons.prems(2) d(1) js]
  have ent: "entry_of (mw_repos v ! j) = entry_of (mw_repos w ! j)" if "j < length (mw_repos w)" for j
    by (rule entry_of_core) (use cores_nth one that in blast)
  have mp: "map (\<lambda>i. entry_of (mw_repos v ! i)) (filter (enabled_at w') js) = map (\<lambda>i. entry_of (mw_repos w ! i)) (filter (enabled_at w') js)"
    using ent js len by auto
  have "enabled_at w' i = enabled_at v i" using ih d(2) i(1) len by auto
  then show ?case using one ih mp len by auto
qed simp


section \<open>Two repositories, one of them away\<close>

definition dir_repo :: "string \<Rightarrow> string \<Rightarrow> int \<Rightarrow> repo_data" where
  "dir_repo i dir prio = (repo_defaults conf_defaults i)\<lparr>rp_pszName := Some i, rp_nEnabled := 1, rp_nHasMetaData := 0,
     rp_lMetadataExpire := -1, rp_ppszBaseUrls := Some [dir], rp_nPriority := prio, rp_nSkipIfUnavailable := 1\<rparr>"

definition sample_solv :: solv_env where
  "sample_solv = \<lparr>sv_chksum = True, sv_cookie = (\<lambda>s. replicate 31 CHR ''0'' @ [if s = [] then CHR ''0'' else last s]),
     sv_repomd = (\<lambda>_. (0, [(''primary'', Some ''repodata/p'')])), sv_open = (\<lambda>_ t. Some t), sv_accepts = (\<lambda>_. True),
     sv_write = (\<lambda>_. Some ''SOLV''), sv_whole = (\<lambda>_. True), sv_tmpname = ''abc''\<rparr>"

definition sample_meta_env :: meta_env where
  "sample_meta_env = \<lparr>me_net = steady_env, me_solv = sample_solv, me_plugins = [], me_nCacheOnly = False\<rparr>"

definition two_repos :: meta where
  "two_repos = \<lparr>fs_nodes = [([''c''], Dir), ([''d''], Dir), ([''d'', ''x.rpm''], File ''X'' 1)], fs_deny = (\<lambda>_ _. 0), fs_now = 9,
     nt_tries = 0, nt_log = [], mw_repos = [dir_repo ''a'' ''/d'' 50, dir_repo ''b'' ''/e'' 10], mw_nRefresh = False, mw_pool = []\<rparr>"

lemma two_repos_order: "refresh_order (mw_repos two_repos) = [1, 0]"
  by (simp add: two_repos_def refresh_order_def eligible_def dir_repo_def CMDLINE_REPO_NAME_def upt_rec numeral_2_eq_2)

lemma cache_paths:
  "TDNFJoinPath [''/c'', ''a''] = Inr (Some ''/c/a'')"
  "TDNFJoinPath [''/c/a'', ''repodata''] = Inr (Some ''/c/a/repodata'')"
  "TDNFJoinPath [''/c'', ''a'', ''repodata''] = Inr (Some ''/c/a/repodata'')"
  "TDNFJoinPath [''/c'', ''a'', ''solvcache''] = Inr (Some ''/c/a/solvcache'')"
  "TDNFJoinPath [''/c'', ''a'', ''lastrefresh''] = Inr (Some ''/c/a/lastrefresh'')"
  "TDNFJoinPath [''/c'', ''b''] = Inr (Some ''/c/b'')"
  "TDNFJoinPath [''/c/b'', ''repodata''] = Inr (Some ''/c/b/repodata'')"
  "TDNFJoinPath [''/c'', ''b'', ''repodata''] = Inr (Some ''/c/b/repodata'')"
  "TDNFJoinPath [''/c'', ''b'', ''solvcache''] = Inr (Some ''/c/b/solvcache'')"
  "TDNFJoinPath [''/c'', ''b'', ''lastrefresh''] = Inr (Some ''/c/b/lastrefresh'')"
  "TDNFJoinPath [''/d'', ''x.rpm''] = Inr (Some ''/d/x.rpm'')"
  by (simp_all add: TDNFJoinPath_def is_slash_def strip_trailing_slashes_def Let_def TDNFAllocateString_def TDNF_DEFAULT_MAX_STRING_LEN_def)

lemma init_a: "TDNFInitRepo sample_meta_env 0 (two_repos\<lparr>mw_repos := [dir_repo ''a'' ''/d'' 50, (dir_repo ''b'' ''/e'' 10)\<lparr>rp_nEnabled := 0\<rparr>]\<rparr>)
    = Some (Inr (), two_repos\<lparr>mw_repos := [dir_repo ''a'' ''/d'' 50, (dir_repo ''b'' ''/e'' 10)\<lparr>rp_nEnabled := 0\<rparr>],
        mw_pool := [\<lparr>sr_name = ''a'', sr_priority = -50, sr_loads = [LoadRpm ''/d/x.rpm'']\<rparr>]\<rparr>)"
  by (simp add: TDNFInitRepo_def init_repo_def sample_meta_env_def two_repos_def dir_repo_def repo_defaults_def conf_defaults_def
     steady_env_def net_env_def bindP_def repoP_def catch_error_def TDNFGetCachePath_def cache_paths repo_create_def alter_last_def
     free_on_error_def SolvReadRpmsFromDirectory_def IsNullOrEmptyString_def readRpmsFromDir_def tree_depth_def dir_names_def
     stat_path_def node_at_def resolve_def starts_def repo_add_def sample_solv_def numeral_2_eq_2)

lemma init_b: "TDNFInitRepo sample_meta_env 1 two_repos = Some (Inl (ERROR_TDNF_SYSTEM_BASE + ENOENT), two_repos)"
  by (simp add: TDNFInitRepo_def init_repo_def sample_meta_env_def two_repos_def dir_repo_def repo_defaults_def conf_defaults_def
     steady_env_def net_env_def bindP_def repoP_def catch_error_def TDNFGetCachePath_def cache_paths repo_create_def alter_last_def
     free_on_error_def SolvReadRpmsFromDirectory_def IsNullOrEmptyString_def readRpmsFromDir_def tree_depth_def dir_names_def
     stat_path_def node_at_def resolve_def repo_free_def ignoreP_def TDNFRepoRemoveCache_def TDNFRemoveSolvCache_def remove_below_def
     TDNFRemoveLastRefreshMarker_def TDNFRemoveRepoCacheFile_def TDNF_REPO_METADATA_MARKER_def path_or_empty_def
     TDNFRecursivelyRemoveDir_def sysP_run sys_remove_tree_def sys_unlink_def missing_def upt_rec)

lemma refresh_two:
  "TDNFRefreshSack sample_meta_env True False two_repos = Some (Inr (),
     two_repos\<lparr>mw_repos := [dir_repo ''a'' ''/d'' 50, (dir_repo ''b'' ''/e'' 10)\<lparr>rp_nEnabled := 0\<rparr>],
        mw_pool := [\<lparr>sr_name = ''a'', sr_priority = -50, sr_loads = [LoadRpm ''/d/x.rpm'']\<rparr>]\<rparr>)"
proof -
  let ?w = "two_repos\<lparr>mw_repos := [dir_repo ''a'' ''/d'' 50, (dir_repo ''b'' ''/e'' 10)\<lparr>rp_nEnabled := 0\<rparr>]\<rparr>"
  have ex: "expired sample_meta_env (dir_repo i d n) = returnP False" for i d n
    by (simp add: expired_def dir_repo_def)
  have b: "refresh_repo sample_meta_env True 1 two_repos = Some (Inr (), ?w)"
    using init_b by (simp add: refresh_repo_def bindP_def repoP_def two_repos_def ex catch_error_def alter_repo_def)
      (simp add: dir_repo_def)
  have a: "refresh_repo sample_meta_env True 0 ?w = Some (Inr (), ?w\<lparr>mw_pool := [\<lparr>sr_name = ''a'', sr_priority = -50,
      sr_loads = [LoadRpm ''/d/x.rpm'']\<rparr>]\<rparr>)"
    using init_a by (simp add: refresh_repo_def bindP_def repoP_def two_repos_def ex catch_error_def)
  have n: "\<not> list_ex (\<lambda>r. rp_pszName r = None) (mw_repos two_repos)" by (simp add: two_repos_def dir_repo_def)
  show ?thesis using a b n two_repos_order by (simp add: TDNFRefreshSack_def bindP_def)
qed


section \<open>The cache of libsolv\<close>


definition cached_world :: meta where
  "cached_world = two_repos\<lparr>fs_nodes := [([''c'', ''a'', ''solvcache'', ''a.solv''], File (CHR ''S'' # replicate 32 CHR ''k'') 1)],
     mw_pool := [\<lparr>sr_name = ''a'', sr_priority = 0, sr_loads = []\<rparr>]\<rparr>"


text \<open>A cache made from other metadata ends the command with an error instead of being made anew.\<close>

theorem UseMetaDataCache_stale:
  assumes "SolvGetMetaDataCachePath dir name = Inr path" and "path \<noteq> []" and "sys_open path w = Inr text"
    and "drop (length text - SOLV_COOKIE_LEN) text \<noteq> cookie"
  shows "SolvUseMetaDataCache sv dir name (Some cookie) w = Some (Inl ERROR_TDNF_SOLV_IO, w)"
  using assms by (auto simp: SolvUseMetaDataCache_def bindP_def readable_def)

section \<open>Limits of the offline mode\<close>

text \<open>With \<^verbatim>\<open>--cacheonly\<close>, a part of the metadata that is missing is downloaded all the same.\<close>

definition offline_env :: meta_env where
  "offline_env = sample_meta_env\<lparr>me_nCacheOnly := True\<rparr>"

definition offline_world :: meta where
  "offline_world = two_repos\<lparr>fs_nodes := [([''c''], Dir), ([''c'', ''a''], Dir), ([''c'', ''a'', ''repodata''], Dir),
     ([''c'', ''a'', ''repodata'', ''repomd.xml''], File ''MD'' 1)], mw_repos := [dir_repo ''a'' ''u'' 50]\<rparr>"

theorem cacheonly_transfers:
  "\<exists>w' md. use_repomd offline_env ((dir_repo ''a'' ''u'' 50)\<lparr>rp_nRetries := 0\<rparr>) \<lparr>md_pszRepoCacheDir = Some ''/c/a'', md_pszRepoMD = Some ''/c/a/repodata/repomd.xml'',
       md_pszPrimary = None, md_pszFileLists = None, md_pszUpdateInfo = None, md_pszOther = None\<rparr> False offline_world = Some (Inr md, w')
     \<and> nt_tries w' = 1 \<and> node_at w' [''c'', ''a'', ''repodata'', ''p''] = Some (File ''DATA'' 9)"
  by (simp add: use_repomd_def offline_env_def sample_meta_env_def sample_solv_def offline_world_def two_repos_def bindP_def TDNFParseRepoMD_def
      path_or_empty_def sys_open_def resolve_def node_at_def TDNFFindRepoMDPart_def TDNFAllocateString_def may_miss_def
      TDNF_DEFAULT_MAX_STRING_LEN_def TDNFEnsureRepoMDParts_def TDNFAppendPath_def IsNullOrEmptyString_def TDNFDownloadRepoMDPart_def
      sys_access_def missing_def upt_rec TDNFAllocateStringPrintf_def catch_error_def Let_def optional_part_def TDNFDownloadFileFromRepo_def
      TDNFJoinPath_def is_slash_def strip_trailing_slashes_def dir_repo_def repo_defaults_def conf_defaults_def
      TDNFDownloadFile_def steady_env_def net_env_def steady_curl_def net_curl_def download_options_def set_text_def set_opt_def TDNFRepoGetUserPass_def
      TDNFRepoApplyProxySettings_def TDNFRepoApplyDownloadSettings_def TDNFRepoApplySSLSettings_def unlink_on_error_def sysP_run sys_create_def
      put_node_def del_node_def curl_easy_perform_def write_file_text_def move_download_def sys_rename_def sys_chmod_def)

end
