(* ===== verification/Rpm_Keys.thy ===== *)
theory Rpm_Keys
  imports Repo_Metadata Goal_Solve
begin

text \<open>
  Signatures of packages: \<^verbatim>\<open>client/gpgcheck.c\<close>, the options that switch checks off (\<^verbatim>\<open>client/repo.c\<close>), and the
  digest of a file (\<^verbatim>\<open>common/utils.c\<close>). librpm and OpenSSL are the parameter \<open>rpmlib\<close>. The world is that of the
  repositories with the transaction set, the rpm database, the lines of the standard input and the history database.
\<close>

section \<open>librpm\<close>

record rpm_header =
  hd_name :: string
  hd_evr :: string
  hd_source :: bool

text \<open>Elements of a transaction set: the flag is that of an upgrade, the number is the offset in the rpm database.\<close>

datatype rpm_element = Install rpm_header string bool | Reinstall rpm_header string | Erase rpm_header nat

record rpm_problem =
  pb_text :: string
  pb_requires :: bool
  pb_str :: string

record rpmts =
  ts_elements :: "rpm_element list"
  ts_vsflags :: "32 word"
  ts_vfylevel :: "32 word"
  ts_flags :: "32 word"
  ts_keyring :: "string list option"
  ts_problems :: "rpm_problem list"

text \<open>What \<^verbatim>\<open>EVP\<close> does to the bytes of a file; \<open>EVP_INIT_FAILED\<close> says whether FIPS is on.\<close>

datatype evp_result = EVP_UNKNOWN | EVP_NO_CTX | EVP_INIT_FAILED bool | EVP_UPDATE_FAILED | EVP_FINAL_FAILED | EVP_OK "nat list"

text \<open>
  Functions of librpm get the transaction set and the text of the file they read. \<open>rl_read\<close> answers with the
  return code, the header and the keyring, which it may have loaded; \<open>rl_parse\<close> with the kind of armor and the
  packets, or without packets when it leaves its outputs as they were.
\<close>

record rpmlib =
  rl_create :: bool
  rl_vsflags :: "32 word"
  rl_vfylevel :: "32 word"
  rl_set_root :: "string option \<Rightarrow> nat"
  rl_set_cb :: nat
  rl_read :: "rpmts \<Rightarrow> string \<Rightarrow> nat \<times> rpm_header option \<times> string list option"
  rl_pubkey :: "string \<Rightarrow> string option"
  rl_subkeys :: "string \<Rightarrow> string list"
  rl_add_key :: "string \<Rightarrow> string list \<Rightarrow> int \<times> string list"
  rl_parse :: "string \<Rightarrow> int \<times> string option"
  rl_import :: "string \<Rightarrow> rpmts \<Rightarrow> rpm_view \<Rightarrow> nat \<times> string list option \<times> rpm_view"
  rl_verify :: "rpmts \<Rightarrow> string \<Rightarrow> int"
  rl_install_source :: "rpmts \<Rightarrow> string \<Rightarrow> nat"
  rl_add :: "rpmts \<Rightarrow> rpm_element \<Rightarrow> nat"
  rl_label :: "rpm_view \<Rightarrow> string \<Rightarrow> (rpm_header \<times> nat) list"
  rl_order :: "rpmts \<Rightarrow> nat \<times> rpm_element list"
  rl_check :: "rpmts \<Rightarrow> rpm_view \<Rightarrow> nat \<times> rpm_problem list"
  rl_run :: "rpmts \<Rightarrow> 32 word \<Rightarrow> (string \<Rightarrow> string option) \<Rightarrow> rpm_view \<Rightarrow> int \<times> rpm_problem list \<times> rpm_view"
  rl_vercmp :: "string \<Rightarrow> string \<Rightarrow> int"
  rl_evp :: "string \<Rightarrow> string \<Rightarrow> evp_result"

record trans_args =
  ta_nNoGPGCheck :: bool
  ta_nTestOnly :: bool
  ta_nDownloadOnly :: bool
  ta_nJsonOutput :: bool
  ta_nQuiet :: bool
  ta_nAssumeYes :: bool
  ta_nAssumeNo :: bool
  ta_pszDownloadDir :: "string option"
  ta_pszInstallRoot :: "string option"
  ta_pSetOpt :: "cmd_opt list"
  ta_ppszArgv :: "string list"

record trans_env =
  te_lib :: rpmlib
  te_net :: download_env
  te_args :: trans_args
  te_sys :: system
  te_fddup :: bool

text \<open>What happened to the system, in order.\<close>

datatype trans_event = IMPORTED string | INSTALLED_SOURCE string | RAN "32 word" int | SET_NOFILE int

record rpm_world = meta +
  rw_ts :: rpmts
  rw_view :: rpm_view
  rw_events :: "trans_event list"
  rw_stdin :: "string list"
  rw_out :: "string list"
  rw_pCachedRpms :: "string list"
  rw_nTransFlags :: "32 word"
  rw_nProbFilterFlags :: "32 word"
  rw_db :: "conn option"
  rw_ctx :: "history_ctx option"

abbreviation (input) RPMRC_NOTTRUSTED :: nat where "RPMRC_NOTTRUSTED \<equiv> 3"
abbreviation (input) RPMRC_NOKEY :: nat where "RPMRC_NOKEY \<equiv> 4"
abbreviation (input) PGPARMOR_PUBKEY :: int where "PGPARMOR_PUBKEY \<equiv> 2"
abbreviation (input) ERROR_TDNF_OPERATION_ABORTED :: errcode where "ERROR_TDNF_OPERATION_ABORTED \<equiv> 1032"
abbreviation (input) ERROR_TDNF_RPM_BASE :: errcode where "ERROR_TDNF_RPM_BASE \<equiv> 1470"
abbreviation (input) ERROR_TDNF_INVALID_PUBKEY_FILE :: errcode where "ERROR_TDNF_INVALID_PUBKEY_FILE \<equiv> 1505"
abbreviation (input) ERROR_TDNF_RPM_GPG_NO_MATCH :: errcode where "ERROR_TDNF_RPM_GPG_NO_MATCH \<equiv> 1514"
abbreviation (input) ERROR_TDNF_NO_GPGKEY_CONF_ENTRY :: errcode where "ERROR_TDNF_NO_GPGKEY_CONF_ENTRY \<equiv> 1523"
abbreviation (input) ERROR_TDNF_FIPS_MODE_FORBIDDEN :: errcode where "ERROR_TDNF_FIPS_MODE_FORBIDDEN \<equiv> 2600"

definition change_ts :: "(rpmts \<Rightarrow> rpmts) \<Rightarrow> ('z rpm_world_scheme, unit) prog" where
  "change_ts f w = Some (Inr (), w\<lparr>rw_ts := f (rw_ts w)\<rparr>)"

definition happened :: "trans_event \<Rightarrow> ('z rpm_world_scheme, unit) prog" where
  "happened ev w = Some (Inr (), w\<lparr>rw_events := rw_events w @ [ev]\<rparr>)"

text \<open>\<^verbatim>\<open>Fopen\<close> of a file of the world, and its text.\<close>

definition open_text :: "string \<Rightarrow> ('z files_scheme, string) prog" where
  "open_text path = bindP (readP (sys_open path)) (\<lambda>r. case r of
     Inl e \<Rightarrow> errorP (ERROR_TDNF_SYSTEM_BASE + e) | Inr t \<Rightarrow> returnP t)"

section \<open>Which checks are wanted\<close>

definition TDNFGetGPGCheck :: "trans_env \<Rightarrow> string \<Rightarrow> bool result" where
  "TDNFGetGPGCheck env pszRepo =
     (if pszRepo = [] then Inl ERROR_TDNF_INVALID_PARAMETER
      else if ta_nNoGPGCheck (te_args env) then Inr False
      else case TDNFGetRepoById (de_pRepos (te_net env)) pszRepo of
             Inl e \<Rightarrow> if e = ERROR_TDNF_NO_DATA then Inr False else Inl e
           | Inr pRepo \<Rightarrow> Inr (rp_nGPGCheck pRepo \<noteq> 0))"

definition has_setopt :: "string \<Rightarrow> trans_args \<Rightarrow> bool" where
  "has_setopt name args \<longleftrightarrow> list_ex (\<lambda>(n, _). strcaseeq n name) (ta_pSetOpt args)"

definition TDNFGetSkipSignatureOption :: "trans_args \<Rightarrow> bool" where
  "TDNFGetSkipSignatureOption args = has_setopt ''skipsignature'' args"

definition TDNFGetSkipDigestOption :: "trans_args \<Rightarrow> bool" where
  "TDNFGetSkipDigestOption args = has_setopt ''skipdigest'' args"

text \<open>Whether signatures are checked, and the URLs of the keys when the caller asks for them.\<close>

definition TDNFGetGPGSignatureCheck :: "trans_env \<Rightarrow> repo_data \<Rightarrow> bool \<Rightarrow> (bool \<times> string list) result" where
  "TDNFGetGPGSignatureCheck env pRepo nKeys =
     (if ta_nNoGPGCheck (te_args env) \<or> TDNFGetSkipSignatureOption (te_args env) \<or> rp_nGPGCheck pRepo = 0
      then Inr (False, [])
      else if \<not> nKeys then Inr (True, [])
      else case rp_ppszUrlGPGKeys pRepo of
             Some (u # us) \<Rightarrow>
               if u = [] then Inl ERROR_TDNF_NO_GPGKEY_CONF_ENTRY
               else bail (TDNFAllocateStringArray (Some (u # us))) (\<lambda>l. Inr (True, l))
           | _ \<Rightarrow> Inl ERROR_TDNF_NO_GPGKEY_CONF_ENTRY)"

section \<open>The digest of a file\<close>

definition digest_error :: "string \<Rightarrow> evp_result \<Rightarrow> nat list result" where
  "digest_error hash r = (case r of
     EVP_UNKNOWN \<Rightarrow> Inl ERROR_TDNF_INVALID_PARAMETER
   | EVP_INIT_FAILED fips \<Rightarrow>
       Inl (if fips \<and> strcaseeq hash ''md5'' then ERROR_TDNF_FIPS_MODE_FORBIDDEN else ERROR_TDNF_CHECKSUM_VALIDATION_FAILED)
   | EVP_OK bytes \<Rightarrow> Inr bytes
   | _ \<Rightarrow> Inl ERROR_TDNF_CHECKSUM_VALIDATION_FAILED)"

definition TDNFGetDigestForFile :: "rpmlib \<Rightarrow> string \<Rightarrow> string \<Rightarrow> ('z files_scheme, nat list) prog" where
  "TDNFGetDigestForFile lib pszFile hash =
     (if pszFile = [] then errorP ERROR_TDNF_INVALID_PARAMETER
      else bindP (open_text pszFile) (\<lambda>t. liftR (digest_error hash (rl_evp lib hash t))))"

section \<open>Key files\<close>

definition ReadGPGKeyFile :: "trans_env \<Rightarrow> string \<Rightarrow> ('z files_scheme, string) prog" where
  "ReadGPGKeyFile env pszFile =
     (if pszFile = [] then errorP ERROR_TDNF_INVALID_PARAMETER
      else bindP (readP (\<lambda>w. TDNFIsDir (files_system (te_sys env) w) pszFile)) (\<lambda>r.
           bindP (liftR r) (\<lambda>nPathIsDir.
             if nPathIsDir then errorP ERROR_TDNF_KEYURL_INVALID
             else bindP (readP (\<lambda>w. TDNFFileReadAllText (files_system (te_sys env) w) pszFile)) liftR)))"

text \<open>
  The loop over the armored blocks of a key file: the offset, the packets of the last block that had some, the
  number of keys. It goes on by the length of the packets, and need not end. What it changes is the keyring, the rpm
  database and the list of events.
\<close>

definition import_pubkey :: "rpmlib \<Rightarrow> string \<Rightarrow> ('z rpm_world_scheme, unit) prog" where
  "import_pubkey lib pPkt w = (case rl_import lib pPkt (rw_ts w) (rw_view w) of (rc, kr, view) \<Rightarrow>
     Some (if rc = 0 then Inr () else Inl rc,
       w\<lparr>rw_ts := (rw_ts w)\<lparr>ts_keyring := kr\<rparr>, rw_view := view, rw_events := rw_events w @ [IMPORTED pPkt]\<rparr>))"

partial_function (option) import_loop ::
    "rpmlib \<Rightarrow> string \<Rightarrow> nat \<Rightarrow> string \<Rightarrow> nat \<Rightarrow> 'z rpm_world_scheme \<Rightarrow> (nat result \<times> 'z rpm_world_scheme) option" where
  "import_loop lib pszKeyData nOffset pPkt nKeys w =
     (if nOffset < length pszKeyData
      then let armor = fst (rl_parse lib (drop nOffset pszKeyData));
               pkt = (case snd (rl_parse lib (drop nOffset pszKeyData)) of None \<Rightarrow> pPkt | Some p \<Rightarrow> p)
           in if armor = PGPARMOR_PUBKEY
              then (case import_pubkey lib pkt w of
                      Some (Inr _, w) \<Rightarrow> import_loop lib pszKeyData (nOffset + length pkt) pkt (nKeys + 1) w
                    | Some (Inl e, w) \<Rightarrow> Some (Inl e, w)
                    | None \<Rightarrow> None)
              else import_loop lib pszKeyData (nOffset + length pkt) pkt nKeys w
      else Some (Inr nKeys, w))"

definition TDNFImportGPGKeyFile :: "trans_env \<Rightarrow> string \<Rightarrow> ('z rpm_world_scheme, unit) prog" where
  "TDNFImportGPGKeyFile env pszFile =
     (if pszFile = [] then errorP ERROR_TDNF_INVALID_PARAMETER
      else bindP (ReadGPGKeyFile env pszFile) (\<lambda>pszKeyData.
           bindP (import_loop (te_lib env) pszKeyData 0 [] 0) (\<lambda>nKeys.
             if nKeys = 0 then errorP ERROR_TDNF_INVALID_PUBKEY_FILE else returnP ())))"

text \<open>
  The message for a key that was not in the keyring has a conversion \<^verbatim>\<open>%s\<close> without an argument: printing it is
  undefined.
\<close>

definition AddKeyFileToKeyring :: "trans_env \<Rightarrow> string \<Rightarrow> string list \<Rightarrow> ('z files_scheme, string list) prog" where
  "AddKeyFileToKeyring env pszFile pKeyring =
     (if pszFile = [] then errorP ERROR_TDNF_INVALID_PARAMETER
      else bindP (readP (sys_open pszFile)) (\<lambda>r.
        case (case r of Inl e \<Rightarrow> None | Inr t \<Rightarrow> rl_pubkey (te_lib env) t) of
          None \<Rightarrow> errorP ERROR_TDNF_INVALID_PUBKEY_FILE
        | Some key \<Rightarrow>
            (case rl_add_key (te_lib env) key pKeyring of (rc, kr) \<Rightarrow>
               if rc = 0 \<and> \<not> ta_nQuiet (te_args env) \<and> \<not> ta_nJsonOutput (te_args env) then (\<lambda>w. None)
               else returnP (fold (\<lambda>k kr. snd (rl_add_key (te_lib env) k kr)) (rl_subkeys (te_lib env) key) kr))))"

definition TDNFGPGCheck :: "trans_env \<Rightarrow> string \<Rightarrow> string \<Rightarrow> ('z rpm_world_scheme, unit) prog" where
  "TDNFGPGCheck env pszKeyFile pszPkgFile =
     (if pszKeyFile = [] then errorP ERROR_TDNF_INVALID_PARAMETER
      else bindP (open_text pszPkgFile) (\<lambda>t.
           bindP (readP (\<lambda>w. ts_keyring (rw_ts w))) (\<lambda>pKeyring. case pKeyring of
             None \<Rightarrow> errorP ERROR_TDNF_INVALID_PARAMETER
           | Some kr \<Rightarrow>
               bindP (AddKeyFileToKeyring env pszKeyFile kr) (\<lambda>kr.
               bindP (change_ts (\<lambda>ts. ts\<lparr>ts_keyring := Some kr\<rparr>)) (\<lambda>_.
               bindP (readP (\<lambda>w. rl_verify (te_lib env) (rw_ts w) t)) (\<lambda>rc.
                 if rc \<noteq> 0 then errorP ERROR_TDNF_RPM_GPG_NO_MATCH else returnP ()))))))"

section \<open>Checking a package\<close>

text \<open>The question of \<^verbatim>\<open>TDNFYesOrNo\<close> takes lines from the standard input up to the answer.\<close>

fun unread :: "string list \<Rightarrow> string list" where
  "unread [] = []"
| "unread (l # ls) = (if l = [] \<or> accepted_answer (butlast l) then ls else unread ls)"

definition ask :: "trans_args \<Rightarrow> ('z rpm_world_scheme, bool) prog" where
  "ask args w = Some (TDNFYesOrNo (ta_nAssumeYes args) (ta_nAssumeNo args) (rw_stdin w),
     if ta_nAssumeYes args \<or> ta_nAssumeNo args then w else w\<lparr>rw_stdin := unread (rw_stdin w)\<rparr>)"

definition read_package :: "rpmlib \<Rightarrow> string \<Rightarrow> ('z rpm_world_scheme, nat \<times> rpm_header option) prog" where
  "read_package lib t w = (case rl_read lib (rw_ts w) t of (rc, hdr, kr) \<Rightarrow>
     Some (Inr (rc, hdr), w\<lparr>rw_ts := (rw_ts w)\<lparr>ts_keyring := kr\<rparr>\<rparr>))"

definition key_url :: "'a result \<Rightarrow> 'a result" where
  "key_url r = (case r of Inl e \<Rightarrow> Inl (if e = ERROR_TDNF_URL_INVALID then ERROR_TDNF_KEYURL_INVALID else e) | Inr x \<Rightarrow> Inr x)"

text \<open>The loop over the keys of the repository; the result is the number of keys that match.\<close>

fun check_keys :: "trans_env \<Rightarrow> repo_data \<Rightarrow> string \<Rightarrow> string list \<Rightarrow> nat \<Rightarrow> ('z rpm_world_scheme, nat) prog" where
  "check_keys env pRepo pszFilePath [] nMatched = returnP nMatched"
| "check_keys env pRepo pszFilePath (u # us) nMatched =
     bindP (ask (te_args env)) (\<lambda>nAnswer. if \<not> nAnswer then errorP ERROR_TDNF_OPERATION_ABORTED else
     bindP (liftR (key_url (TDNFUriIsRemote (Some u)))) (\<lambda>nRemote.
     bindP (if nRemote then TDNFFetchRemoteGPGKey (te_net env) pRepo u else liftR (key_url (TDNFPathFromUri (Some u)))) (\<lambda>pszLocalGPGKey.
     bindP (TDNFImportGPGKeyFile env pszLocalGPGKey) (\<lambda>_.
     bindP (catch_error (TDNFGPGCheck env pszLocalGPGKey pszFilePath)) (\<lambda>r.
     bindP (case r of Inr _ \<Rightarrow> returnP (nMatched + 1)
                    | Inl e \<Rightarrow> if e = ERROR_TDNF_RPM_GPG_NO_MATCH then returnP nMatched else errorP e) (\<lambda>n.
     bindP (if nRemote then sysP (sys_unlink pszLocalGPGKey) else returnP ()) (\<lambda>_.
       check_keys env pRepo pszFilePath us n)))))))"

text \<open>The header of the package, as the last reading gave it.\<close>

definition TDNFGPGCheckPackage :: "trans_env \<Rightarrow> repo_data \<Rightarrow> string \<Rightarrow> ('z rpm_world_scheme, rpm_header option) prog" where
  "TDNFGPGCheckPackage env pRepo pszFilePath =
     bindP (liftR (TDNFGetGPGSignatureCheck env pRepo False)) (\<lambda>(nGPGSigCheck, _).
     bindP (open_text pszFilePath) (\<lambda>t.
     bindP (read_package (te_lib env) t) (\<lambda>(rc, hdr).
       if rc \<noteq> RPMRC_NOTTRUSTED \<and> rc \<noteq> RPMRC_NOKEY
       then (if rc \<noteq> 0 then errorP (ERROR_TDNF_RPM_BASE + rc) else returnP hdr)
       else if \<not> nGPGSigCheck then returnP hdr
       else bindP (liftR (TDNFGetGPGSignatureCheck env pRepo True)) (\<lambda>(_, urls).
            bindP (check_keys env pRepo pszFilePath urls 0) (\<lambda>nMatched.
              if nMatched = 0 then errorP ERROR_TDNF_RPM_GPG_NO_MATCH
              else bindP (open_text pszFilePath) (\<lambda>t.
                   bindP (read_package (te_lib env) t) (\<lambda>(rc, hdr).
                     if rc \<noteq> 0 then errorP (ERROR_TDNF_RPM_BASE + rc) else returnP hdr)))))))"

section \<open>What the check of a package leaves\<close>

text \<open>A part of the world that neither downloads nor keys are in.\<close>

definition key_free :: "('z rpm_world_scheme \<Rightarrow> 'b) \<Rightarrow> bool" where
  "key_free g \<longleftrightarrow> net_free g
     \<and> (\<forall>w kr. g (w\<lparr>rw_ts := (rw_ts w)\<lparr>ts_keyring := kr\<rparr>\<rparr>) = g w) \<and> (\<forall>w view. g (w\<lparr>rw_view := view\<rparr>) = g w)
     \<and> (\<forall>w evs. g (w\<lparr>rw_events := evs\<rparr>) = g w) \<and> (\<forall>w ls. g (w\<lparr>rw_stdin := ls\<rparr>) = g w)"

text \<open>The same for what stays in the files when no key is fetched.\<close>

definition keyring_free :: "('z rpm_world_scheme \<Rightarrow> 'b) \<Rightarrow> bool" where
  "keyring_free g \<longleftrightarrow> (\<forall>w kr. g (w\<lparr>rw_ts := (rw_ts w)\<lparr>ts_keyring := kr\<rparr>\<rparr>) = g w) \<and> (\<forall>w view. g (w\<lparr>rw_view := view\<rparr>) = g w)
     \<and> (\<forall>w evs. g (w\<lparr>rw_events := evs\<rparr>) = g w) \<and> (\<forall>w ls. g (w\<lparr>rw_stdin := ls\<rparr>) = g w)"

lemma key_freeD: "key_free g \<Longrightarrow> keyring_free g" "key_free g \<Longrightarrow> net_free g"
  by (simp_all add: key_free_def keyring_free_def)

lemma leaves_open_text [simp]: "leaves g (open_text p)"
  by (auto simp: open_text_def split: sum.split)

lemma import_pubkey_runs: "\<exists>r v. import_pubkey lib p w = Some (r, v)"
  by (cases "rl_import lib p (rw_ts w) (rw_view w)") (simp add: import_pubkey_def)

lemma leaves_import_pubkey: "keyring_free g \<Longrightarrow> leaves g (import_pubkey lib p)"
  by (auto simp: leaves_def import_pubkey_def keyring_free_def split: prod.splits)

lemma import_loop_leaves:
  assumes "keyring_free g"
  shows "import_loop lib data off pkt n w = Some (r, w') \<Longrightarrow> g w' = g w"
proof -
  have "g (snd y) = g w" if "import_loop lib data off pkt n w = Some y" for y
  proof (rule import_loop.raw_induct [where P = "\<lambda>lib data off pkt n w y. g (snd y) = g w", OF _ that], goal_cases)
    case (1 loop lib data off pkt n w y)
    let ?armor = "fst (rl_parse lib (drop off data))"
    let ?pkt = "case snd (rl_parse lib (drop off data)) of None \<Rightarrow> pkt | Some p \<Rightarrow> p"
    show ?case
    proof (cases "off < length data \<and> ?armor = PGPARMOR_PUBKEY")
      case True
      obtain r v where v: "import_pubkey lib ?pkt w = Some (r, v)" using import_pubkey_runs by blast
      have g: "g v = g w" by (rule leavesD [OF leaves_import_pubkey [OF assms] v])
      show ?thesis
      proof (cases r)
        case (Inl e)
        then show ?thesis using 1(2) True v g by (simp add: Let_def) force
      next
        case (Inr x)
        then have "loop lib data (off + length ?pkt) ?pkt (n + 1) v = Some y" using 1(2) True v by (simp add: Let_def)
        from 1(1) [OF this] g show ?thesis by simp
      qed
    next
      case False
      then have "y = (Inr n, w) \<or> loop lib data (off + length ?pkt) ?pkt n w = Some y"
        using 1(2) by (auto simp: Let_def split: if_splits)
      then show ?thesis
      proof (rule disjE)
        assume "loop lib data (off + length ?pkt) ?pkt n w = Some y"
        from 1(1) [OF this] show ?thesis .
      qed simp
    qed
  qed
  then show "import_loop lib data off pkt n w = Some (r, w') \<Longrightarrow> g w' = g w" by force
qed

lemma leaves_import: "keyring_free g \<Longrightarrow> leaves g (TDNFImportGPGKeyFile env f)"
proof -
  assume "keyring_free g"
  then have "leaves g (import_loop lib data off pkt n)" for lib data off pkt n
    by (auto simp: leaves_def dest: import_loop_leaves)
  then show ?thesis by (auto simp: TDNFImportGPGKeyFile_def ReadGPGKeyFile_def)
qed

lemma leaves_keyring: "keyring_free g \<Longrightarrow> leaves g (change_ts (\<lambda>ts. ts\<lparr>ts_keyring := kr\<rparr>))"
  by (simp add: leaves_def change_ts_def keyring_free_def)

lemma leaves_GPGCheck: "keyring_free g \<Longrightarrow> leaves g (TDNFGPGCheck env k p)"
  by (auto simp: TDNFGPGCheck_def AddKeyFileToKeyring_def leaves_keyring split: option.split sum.split prod.split)

lemma leaves_ask: "keyring_free g \<Longrightarrow> leaves g (ask args)"
  by (auto simp: leaves_def ask_def keyring_free_def)

lemma leaves_read_package: "keyring_free g \<Longrightarrow> leaves g (read_package lib t)"
  by (auto simp: leaves_def read_package_def keyring_free_def split: prod.splits)

lemma leaves_check_keys:
  assumes "keyring_free g" and "net_free g \<or> (\<forall>u \<in> set us. TDNFUriIsRemote (Some u) \<noteq> Inr True)"
  shows "leaves g (check_keys env repo p us n)"
  using assms(2)
proof (induction us arbitrary: n)
  case (Cons u us)
  have fetch: "leaves g (if nRemote then TDNFFetchRemoteGPGKey (te_net env) repo u else m)"
    "leaves g (if nRemote then sysP (sys_unlink k) else returnP ())"
    if "net_free g" "leaves g m" for nRemote m k
    using that by (simp_all add: leaves_fetch_key net_free_files)
  show ?case
  proof (cases "TDNFUriIsRemote (Some u) = Inr True")
    case True
    with Cons show ?thesis
      by (auto simp: key_url_def leaves_ask [OF assms(1)] leaves_import [OF assms(1)] leaves_GPGCheck [OF assms(1)]
          leaves_fetch_key net_free_files split: sum.split intro!: leaves_bind)
  next
    case False
    then have "key_url (TDNFUriIsRemote (Some u)) = Inr False \<or> (\<exists>e. key_url (TDNFUriIsRemote (Some u)) = Inl e)"
      by (auto simp: key_url_def split: sum.split)
    with Cons show ?thesis
      by (auto simp: leaves_ask [OF assms(1)] leaves_import [OF assms(1)] leaves_GPGCheck [OF assms(1)]
          split: sum.split intro!: leaves_bind)
  qed
qed simp

lemma leaves_GPGCheckPackage: "key_free g \<Longrightarrow> leaves g (TDNFGPGCheckPackage env repo p)"
  by (auto simp: TDNFGPGCheckPackage_def key_freeD intro!: leaves_bind leaves_read_package leaves_check_keys)

section \<open>What a checked package is\<close>

definition signatures_wanted :: "trans_env \<Rightarrow> repo_data \<Rightarrow> bool" where
  "signatures_wanted env pRepo \<longleftrightarrow> \<not> ta_nNoGPGCheck (te_args env) \<and> \<not> has_setopt ''skipsignature'' (te_args env) \<and> rp_nGPGCheck pRepo \<noteq> 0"

definition key_urls :: "repo_data \<Rightarrow> string list" where
  "key_urls pRepo = (case rp_ppszUrlGPGKeys pRepo of None \<Rightarrow> [] | Some l \<Rightarrow> l)"

definition remote_keys :: "repo_data \<Rightarrow> bool" where
  "remote_keys pRepo \<longleftrightarrow> list_ex (\<lambda>u. TDNFUriIsRemote (Some u) = Inr True) (key_urls pRepo)"

lemma signature_check_wanted:
  "TDNFGetGPGSignatureCheck env pRepo nKeys = Inr (b, urls) \<Longrightarrow> b = signatures_wanted env pRepo"
  "TDNFGetGPGSignatureCheck env pRepo False = Inr (signatures_wanted env pRepo, [])"
  by (auto simp: TDNFGetGPGSignatureCheck_def signatures_wanted_def TDNFGetSkipSignatureOption_def bail_Inr_iff
      split: if_splits option.splits list.splits)

lemma safe_alloc_same: "TDNFSafeAllocateString (Some s) = Inr (Some y) \<Longrightarrow> y = s"
  by (auto simp: TDNFSafeAllocateString_def TDNFAllocateString_def bail_Inr_iff split: if_splits)

lemma alloc_strings_subset: "alloc_strings ss = Inr ds \<Longrightarrow> set ds \<subseteq> set ss"
  by (induction ss arbitrary: ds) (auto simp: bail_Inr_iff split: option.splits dest!: safe_alloc_same)

lemma signature_check_keys:
  "TDNFGetGPGSignatureCheck env pRepo True = Inr (b, urls) \<Longrightarrow>
     set urls \<subseteq> set (key_urls pRepo)"
  by (auto simp: TDNFGetGPGSignatureCheck_def TDNFAllocateStringArray_def key_urls_def bail_Inr_iff simp del: alloc_strings.simps
      dest!: alloc_strings_subset split: if_splits option.splits list.splits)

definition core_ts :: "'z rpm_world_scheme \<Rightarrow> rpmts" where
  "core_ts w = (rw_ts w)\<lparr>ts_keyring := None\<rparr>"

definition same_files :: "'z files_scheme \<Rightarrow> (string list \<times> file_node) list \<times> (sys_call \<Rightarrow> string list \<Rightarrow> nat) \<times> int" where
  "same_files w = (fs_nodes w, fs_deny w, fs_now w)"

lemma core_ts_free: "key_free core_ts"
  by (simp add: key_free_def core_ts_def net_free_def files_free_def)

lemma same_files_free: "keyring_free same_files"
  by (simp add: keyring_free_def same_files_def)

lemma same_files_open: "same_files w = same_files v \<Longrightarrow> sys_open p w = sys_open p v"
  by (simp add: same_files_def sys_open_def node_at_def missing_def cong: option.case_cong)

lemma core_ts_keyring: "core_ts w = core_ts v \<Longrightarrow> rw_ts w = (rw_ts v)\<lparr>ts_keyring := ts_keyring (rw_ts w)\<rparr>"
  unfolding core_ts_def by (cases "rw_ts w"; cases "rw_ts v") simp

lemma open_text_ok: "open_text p w = Some (Inr t, w') \<longleftrightarrow> sys_open p w = Inr t \<and> w' = w"
  by (auto simp: open_text_def split: sum.splits)

lemma read_package_ok:
  "read_package lib t w = Some (Inr (rc, hdr), w') \<longleftrightarrow> (\<exists>kr. rl_read lib (rw_ts w) t = (rc, hdr, kr)
     \<and> w' = w\<lparr>rw_ts := (rw_ts w)\<lparr>ts_keyring := kr\<rparr>\<rparr>)"
  by (auto simp: read_package_def split: prod.splits)

lemma GPGCheckPackage_ok:
  assumes "TDNFGPGCheckPackage env repo p w = Some (Inr hdr, w')"
  obtains t t2 kr rc kr' where "sys_open p w = Inr t" "rl_read (te_lib env) ((rw_ts w)\<lparr>ts_keyring := kr\<rparr>) t2 = (rc, hdr, kr')"
    "rc = 0 \<or> \<not> signatures_wanted env repo" "t2 = t \<or> signatures_wanted env repo \<and> remote_keys repo"
proof -
  from assms obtain t rc hdr1 w1 where t: "sys_open p w = Inr t" and r: "read_package (te_lib env) t w = Some (Inr (rc, hdr1), w1)"
    and rest: "(if rc \<noteq> RPMRC_NOTTRUSTED \<and> rc \<noteq> RPMRC_NOKEY
       then (if rc \<noteq> 0 then errorP (ERROR_TDNF_RPM_BASE + rc) else returnP hdr1)
       else if \<not> signatures_wanted env repo then returnP hdr1
       else bindP (liftR (TDNFGetGPGSignatureCheck env repo True)) (\<lambda>(_, urls).
            bindP (check_keys env repo p urls 0) (\<lambda>nMatched.
              if nMatched = 0 then errorP ERROR_TDNF_RPM_GPG_NO_MATCH
              else bindP (open_text p) (\<lambda>t.
                   bindP (read_package (te_lib env) t) (\<lambda>(rc, hdr).
                     if rc \<noteq> 0 then errorP (ERROR_TDNF_RPM_BASE + rc) else returnP hdr))))) w1 = Some (Inr hdr, w')"
    by (auto simp: TDNFGPGCheckPackage_def signature_check_wanted(2) bindP_ok open_text_ok)
  from r obtain kr1 where rd: "rl_read (te_lib env) (rw_ts w) t = (rc, hdr1, kr1)"
    and w1: "w1 = w\<lparr>rw_ts := (rw_ts w)\<lparr>ts_keyring := kr1\<rparr>\<rparr>" by (auto simp: read_package_ok)
  have same: "(rw_ts w)\<lparr>ts_keyring := ts_keyring (rw_ts w)\<rparr> = rw_ts w" by simp
  show thesis
  proof (cases "(rc = RPMRC_NOTTRUSTED \<or> rc = RPMRC_NOKEY) \<and> signatures_wanted env repo")
    case False
    then have "hdr1 = hdr" "rc = 0 \<or> \<not> signatures_wanted env repo" using rest by (auto split: if_splits)
    then show thesis using that [OF t, of "ts_keyring (rw_ts w)" t] rd same by simp
  next
    case True
    then obtain b urls n w2 t2 rc2 where u: "TDNFGetGPGSignatureCheck env repo True = Inr (b, urls)"
      and c: "check_keys env repo p urls 0 w1 = Some (Inr n, w2)" and t2: "sys_open p w2 = Inr t2"
      and r2: "read_package (te_lib env) t2 w2 = Some (Inr (0, hdr), w')"
      using rest by (auto simp: bindP_ok open_text_ok liftR_def split: if_splits)
    have "core_ts w2 = core_ts w1"
      by (rule leavesD [OF leaves_check_keys c]) (simp_all add: key_freeD [OF core_ts_free])
    then have "rw_ts w2 = (rw_ts w)\<lparr>ts_keyring := ts_keyring (rw_ts w2)\<rparr>"
      using core_ts_keyring [of w2 w] by (simp add: w1 core_ts_def)
    then have rd2: "\<exists>kr'. rl_read (te_lib env) ((rw_ts w)\<lparr>ts_keyring := ts_keyring (rw_ts w2)\<rparr>) t2 = (0, hdr, kr')"
      using r2 by (metis read_package_ok)
    have "t2 = t" if local: "\<not> remote_keys repo"
    proof -
      have "\<forall>u \<in> set urls. TDNFUriIsRemote (Some u) \<noteq> Inr True"
        using local signature_check_keys [OF u] by (auto simp: remote_keys_def list_ex_iff)
      then have "same_files w2 = same_files w1" using leavesD [OF leaves_check_keys c] same_files_free by blast
      moreover have "same_files w1 = same_files w" by (simp add: w1 same_files_def)
      ultimately show ?thesis using t t2 same_files_open [of w2 w p] by simp
    qed
    then show thesis using that [OF t] rd2 True by metis
  qed
qed

section \<open>The loop over the keys of a file\<close>

text \<open>A parser that never gives an empty run of packets, and gives one with every public key.\<close>

definition parser_ok :: "rpmlib \<Rightarrow> bool" where
  "parser_ok lib \<longleftrightarrow> (\<forall>t. case snd (rl_parse lib t) of None \<Rightarrow> fst (rl_parse lib t) \<noteq> PGPARMOR_PUBKEY | Some p \<Rightarrow> p \<noteq> [])"

lemma parser_okD:
  "parser_ok lib \<Longrightarrow> snd (rl_parse lib t) = Some p \<Longrightarrow> p \<noteq> []"
  "parser_ok lib \<Longrightarrow> snd (rl_parse lib t) = None \<Longrightarrow> fst (rl_parse lib t) \<noteq> PGPARMOR_PUBKEY"
  unfolding parser_ok_def by (drule spec [of _ t], simp)+

lemma import_loop_ends:
  assumes "parser_ok lib"
  shows "pkt \<noteq> [] \<or> snd (rl_parse lib (drop off data)) \<noteq> None \<Longrightarrow> import_loop lib data off pkt n w \<noteq> None"
proof (induction "length data - off" arbitrary: off pkt n w rule: less_induct)
  case less
  show ?case
  proof (cases "off < length data")
    case True
    define p where "p = (case snd (rl_parse lib (drop off data)) of None \<Rightarrow> pkt | Some p \<Rightarrow> p)"
    have p: "p \<noteq> []"
      using less(2) parser_okD(1) [OF assms, of "drop off data"] by (auto simp: p_def split: option.split)
    obtain r v where v: "import_pubkey lib p w = Some (r, v)" using import_pubkey_runs by blast
    have "length data - (off + length p) < length data - off" using True p by (cases p) auto
    then have "import_loop lib data (off + length p) p (n + 1) v \<noteq> None" "import_loop lib data (off + length p) p n w \<noteq> None"
      using less(1) p by blast+
    then show ?thesis using True v by (subst import_loop.simps) (auto simp: Let_def p_def [symmetric] split: sum.split)
  next
    case False
    then show ?thesis by (subst import_loop.simps) simp
  qed
qed

lemma import_loop_stuck:
  assumes "off < length data" and "fst (rl_parse lib (drop off data)) \<noteq> PGPARMOR_PUBKEY" and "snd (rl_parse lib (drop off data)) = None"
  shows "import_loop lib data off [] n w = None"
proof (rule ccontr)
  assume "import_loop lib data off [] n w \<noteq> None"
  then obtain y where y: "import_loop lib data off [] n w = Some y" by blast
  have "\<not> (l = lib \<and> d = data \<and> off' = off \<and> pkt = [])" if "import_loop l d off' pkt n w = Some y" for l d off' pkt n w y
  proof (rule import_loop.raw_induct [where P = "\<lambda>l d off' pkt n w y. \<not> (l = lib \<and> d = data \<and> off' = off \<and> pkt = [])", OF _ that], goal_cases)
    case (1 loop l d off' pkt n w y)
    show ?case
    proof
      assume eq: "l = lib \<and> d = data \<and> off' = off \<and> pkt = []"
      then have "loop lib data off [] n w = Some y" using 1(2) assms by (simp add: Let_def)
      from 1(1) [OF this] show False by simp
    qed
  qed
  from this [OF y] show False by simp
qed

text \<open>C13: For a key file that can be read, the import ends, with or without an error, exactly when the file is empty or the
  parser finds packets at its start: otherwise the loop stays where it is for ever.\<close>

theorem ImportGPGKeyFile_ends:
  assumes "parser_ok (te_lib env)" and "ReadGPGKeyFile env f w = Some (Inr t, w)"
  shows "TDNFImportGPGKeyFile env f w \<noteq> None \<longleftrightarrow> t = [] \<or> snd (rl_parse (te_lib env) t) \<noteq> None"
proof -
  have f: "f \<noteq> []" using assms(2) by (auto simp: ReadGPGKeyFile_def)
  have "import_loop (te_lib env) t 0 [] 0 w \<noteq> None \<longleftrightarrow> t = [] \<or> snd (rl_parse (te_lib env) t) \<noteq> None"
  proof (cases "t \<noteq> [] \<and> snd (rl_parse (te_lib env) t) = None")
    case True
    then show ?thesis using import_loop_stuck [of 0 t "te_lib env" 0 w] parser_okD(2) [OF assms(1), of t] by simp
  next
    case False
    then show ?thesis using import_loop_ends [OF assms(1), of "[]" 0 t 0 w] by (auto simp: import_loop.simps [of _ "[]"])
  qed
  then show ?thesis using assms(2) f
    by (cases "import_loop (te_lib env) t 0 [] 0 w") (auto simp: TDNFImportGPGKeyFile_def bindP_def split: sum.split)
qed

end
