(* ===== verification/Rpm_Trans.thy ===== *)
theory Rpm_Trans
  imports Rpm_Keys Goal_History
begin

text \<open>
  The rpm transaction of a solved goal: \<^verbatim>\<open>client/rpmtrans.c\<close>. A package becomes an element of the transaction set
  once its file is in place and has the expected checksum, size and signature; the transaction is tested before it
  is run; the history is brought up to date around it; cached packages are removed at the end.
\<close>

section \<open>Constants of librpm\<close>

definition RPMVSF_MASK_NODIGESTS :: "32 word" where "RPMVSF_MASK_NODIGESTS = 0x30300"
definition RPMVSF_MASK_NOSIGNATURES :: "32 word" where "RPMVSF_MASK_NOSIGNATURES = 0xC0C00"
definition RPMSIG_DIGEST_TYPE :: "32 word" where "RPMSIG_DIGEST_TYPE = 1"
definition RPMSIG_SIGNATURE_TYPE :: "32 word" where "RPMSIG_SIGNATURE_TYPE = 2"
definition RPMSIG_VERIFIABLE_TYPE :: "32 word" where "RPMSIG_VERIFIABLE_TYPE = 3"
definition RPMTRANS_FLAG_NONE :: "32 word" where "RPMTRANS_FLAG_NONE = 0"
definition RPMTRANS_FLAG_TEST :: "32 word" where "RPMTRANS_FLAG_TEST = 1"
definition RPMTRANS_FLAG_NOSCRIPTS :: "32 word" where "RPMTRANS_FLAG_NOSCRIPTS = 4"
definition RPMTRANS_FLAG_NODOCS :: "32 word" where "RPMTRANS_FLAG_NODOCS = 32"
definition RPMPROB_FILTER_REPLACEPKG :: "32 word" where "RPMPROB_FILTER_REPLACEPKG = 4"
definition RPMPROB_FILTER_OLDPACKAGE :: "32 word" where "RPMPROB_FILTER_OLDPACKAGE = 64"

abbreviation (input) ERROR_TDNF_RPMTS_CREATE_FAILED :: errcode where "ERROR_TDNF_RPMTS_CREATE_FAILED \<equiv> 1501"
abbreviation (input) ERROR_TDNF_RPMTS_BAD_ROOT_DIR :: errcode where "ERROR_TDNF_RPMTS_BAD_ROOT_DIR \<equiv> 1502"
abbreviation (input) ERROR_TDNF_RPMTS_SET_CB_FAILED :: errcode where "ERROR_TDNF_RPMTS_SET_CB_FAILED \<equiv> 1503"
abbreviation (input) ERROR_TDNF_RPM_CHECK :: errcode where "ERROR_TDNF_RPM_CHECK \<equiv> 1515"
abbreviation (input) ERROR_TDNF_TRANSACTION_FAILED :: errcode where "ERROR_TDNF_TRANSACTION_FAILED \<equiv> 1525"
abbreviation (input) ERROR_TDNF_SIZE_MISMATCH :: errcode where "ERROR_TDNF_SIZE_MISMATCH \<equiv> 1527"
abbreviation (input) ERROR_TDNF_CHECKSUM_MISMATCH :: errcode where "ERROR_TDNF_CHECKSUM_MISMATCH \<equiv> 1528"
abbreviation (input) ERROR_TDNF_RPMTS_FDDUP_FAILED :: errcode where "ERROR_TDNF_RPMTS_FDDUP_FAILED \<equiv> 1529"

text \<open>\<^verbatim>\<open>INSTALL_INSTALL\<close>, \<^verbatim>\<open>INSTALL_UPGRADE\<close> and \<^verbatim>\<open>INSTALL_REINSTALL\<close>.\<close>

datatype install_flag = INSTALL_INSTALL | INSTALL_UPGRADE | INSTALL_REINSTALL

section \<open>Adding packages\<close>

text \<open>A package below a base URL of the local file system is used where it is.\<close>

fun in_place :: "string list \<Rightarrow> string \<Rightarrow> ('z files_scheme, string option) prog" where
  "in_place [] pszPackageLocation = returnP None"
| "in_place (u # us) pszPackageLocation =
     (if strcaseprefix ''file://'' u
      then bindP (liftR (TDNFJoinPath [drop 7 u, pszPackageLocation])) (\<lambda>pszFilePath.
           bindP (readP (sys_access (the pszFilePath))) (\<lambda>e.
             if e = 0 then returnP pszFilePath else in_place us pszPackageLocation))
      else in_place us pszPackageLocation)"

definition package_file :: "trans_env \<Rightarrow> pkg_info \<Rightarrow> repo_data \<Rightarrow> ('z net_scheme, string) prog" where
  "package_file env pInfo pRepo = (case pi_pszLocation pInfo of
     None \<Rightarrow> (\<lambda>w. None)
   | Some loc \<Rightarrow>
       if loc \<noteq> [] \<and> hd loc = CHR ''/'' then liftR (TDNFAllocateString (Some loc))
       else if \<not> ta_nDownloadOnly (te_args env) \<or> ta_pszDownloadDir (te_args env) = None
       then (case rp_ppszBaseUrls pRepo of
               None \<Rightarrow> (\<lambda>w. None)
             | Some urls \<Rightarrow>
                 bindP (in_place urls loc) (\<lambda>p. case p of
                   Some path \<Rightarrow> returnP path
                 | None \<Rightarrow> TDNFDownloadPackageToCache (te_net env) loc (pi_pszName pInfo) pRepo))
       else TDNFDownloadPackageToDirectory (te_net env) loc (pi_pszName pInfo) pRepo (the (ta_pszDownloadDir (te_args env))))"

text \<open>
  The digest is compared over the length of the hash; a type that \<^verbatim>\<open>hash_ops\<close> does not have and a checksum that
  is shorter are read out of bounds. The digest is in a buffer of zeroes.
\<close>

definition check_digest :: "rpmlib \<Rightarrow> string \<Rightarrow> (nat \<times> nat list) option \<Rightarrow> ('z files_scheme, unit) prog" where
  "check_digest lib pszFilePath checksum = (case checksum of
     None \<Rightarrow> returnP ()
   | Some (type, bytes) \<Rightarrow>
       if type \<ge> length hash_ops then (\<lambda>w. None)
       else (case hash_ops ! type of (hash, len) \<Rightarrow>
         bindP (TDNFGetDigestForFile lib pszFilePath hash) (\<lambda>d.
           if length bytes < len then (\<lambda>w. None)
           else if take len (d @ replicate 64 0) \<noteq> take len bytes then errorP ERROR_TDNF_CHECKSUM_MISMATCH
           else returnP ())))"

text \<open>The size is left unset for a directory.\<close>

definition check_size :: "string \<Rightarrow> 32 word \<Rightarrow> ('z files_scheme, unit) prog" where
  "check_size pszFilePath expected =
     bindP (readP (TDNFGetFileSize pszFilePath)) (\<lambda>(e, nSize).
       if e \<noteq> 0 then errorP e
       else case nSize of None \<Rightarrow> (\<lambda>w. None) | Some n \<Rightarrow> if n \<noteq> expected then errorP ERROR_TDNF_SIZE_MISMATCH else returnP ())"

text \<open>Checks of librpm are switched off for the whole transaction set.\<close>

definition checks_off :: "rpmts \<Rightarrow> rpmts" where
  "checks_off ts = ts\<lparr>ts_vsflags := ts_vsflags ts OR (RPMVSF_MASK_NODIGESTS OR RPMVSF_MASK_NOSIGNATURES),
     ts_vfylevel := NOT RPMSIG_VERIFIABLE_TYPE\<rparr>"

definition add_element :: "rpmlib \<Rightarrow> rpm_element \<Rightarrow> ('z rpm_world_scheme, nat) prog" where
  "add_element lib el w = (let rc = rl_add lib (rw_ts w) el in
     Some (Inr rc, if rc = 0 then w\<lparr>rw_ts := (rw_ts w)\<lparr>ts_elements := ts_elements (rw_ts w) @ [el]\<rparr>\<rparr> else w))"

definition rpm_rc :: "nat \<Rightarrow> ('w, unit) prog" where
  "rpm_rc rc = (if rc \<noteq> 0 then errorP (ERROR_TDNF_RPM_BASE + rc) else returnP ())"

definition install_element :: "install_flag \<Rightarrow> rpm_header \<Rightarrow> string \<Rightarrow> rpm_element" where
  "install_element nInstallFlag hdr path =
     (if nInstallFlag = INSTALL_REINSTALL then Reinstall hdr path else Install hdr path (nInstallFlag = INSTALL_UPGRADE))"

definition install_source :: "trans_env \<Rightarrow> string \<Rightarrow> ('z rpm_world_scheme, unit) prog" where
  "install_source env pszFilePath =
     (if ta_nDownloadOnly (te_args env) \<or> ta_nTestOnly (te_args env) then returnP ()
      else bindP (open_text pszFilePath) (\<lambda>t.
           bindP (readP (\<lambda>w. rl_install_source (te_lib env) (rw_ts w) t)) (\<lambda>rc.
           bindP (rpm_rc rc) (\<lambda>_. happened (INSTALLED_SOURCE pszFilePath)))))"

definition add_package :: "trans_env \<Rightarrow> install_flag \<Rightarrow> rpm_header option \<Rightarrow> string \<Rightarrow> ('z rpm_world_scheme, unit) prog" where
  "add_package env nInstallFlag hdr pszFilePath = (case hdr of
     None \<Rightarrow> (\<lambda>w. None)
   | Some h \<Rightarrow>
       if hd_source h then install_source env pszFilePath
       else bindP (add_element (te_lib env) (install_element nInstallFlag h pszFilePath)) rpm_rc)"

definition remember_cached :: "trans_env \<Rightarrow> string \<Rightarrow> ('z rpm_world_scheme, unit) prog" where
  "remember_cached env pszFilePath w = (case cf_pszCacheDir (de_pConf (te_net env)) of
     None \<Rightarrow> None
   | Some dir \<Rightarrow> Some (Inr (),
       if prefix dir pszFilePath then w\<lparr>rw_pCachedRpms := pszFilePath # rw_pCachedRpms w\<rparr> else w))"

definition TDNFTransAddInstallPkg ::
    "trans_env \<Rightarrow> pkg_info \<Rightarrow> repo_data \<Rightarrow> install_flag \<Rightarrow> ('z rpm_world_scheme, unit) prog" where
  "TDNFTransAddInstallPkg env pInfo pRepo nInstallFlag =
     bindP (package_file env pInfo pRepo) (\<lambda>pszFilePath.
     bindP (readP (sys_access pszFilePath)) (\<lambda>e. if e \<noteq> 0 then errorP (ERROR_TDNF_SYSTEM_BASE + e) else
     bindP (check_digest (te_lib env) pszFilePath (pi_checksum pInfo)) (\<lambda>_.
     bindP (check_size pszFilePath (pi_dwDownloadSizeBytes pInfo)) (\<lambda>_.
     bindP (TDNFGPGCheckPackage env pRepo pszFilePath) (\<lambda>hdr.
     bindP (liftR (TDNFGetGPGCheck env (rp_pszId pRepo))) (\<lambda>nGPGCheck.
     bindP (if nGPGCheck then returnP () else change_ts checks_off) (\<lambda>_.
     bindP (add_package env nInstallFlag hdr pszFilePath) (\<lambda>_.
       remember_cached env pszFilePath))))))))"

text \<open>The list ends early, and without an error, at an ERROR_TDNF_NO_DATA.\<close>

fun add_install_pkgs :: "trans_env \<Rightarrow> install_flag \<Rightarrow> pkg_info list \<Rightarrow> ('z rpm_world_scheme, unit) prog" where
  "add_install_pkgs env nInstallFlag [] = returnP ()"
| "add_install_pkgs env nInstallFlag (pInfo # pInfos) =
     bindP (liftR (TDNFFindRepoById (de_pRepos (te_net env)) (pi_pszRepoName pInfo))) (\<lambda>pRepo.
     bindP (TDNFTransAddInstallPkg env pInfo pRepo nInstallFlag) (\<lambda>_.
       add_install_pkgs env nInstallFlag pInfos))"

definition unless_no_data :: "('w, unit) prog \<Rightarrow> ('w, unit) prog" where
  "unless_no_data m = bindP (catch_error m) (\<lambda>r. case r of
     Inl e \<Rightarrow> if e = ERROR_TDNF_NO_DATA then returnP () else errorP e | Inr _ \<Rightarrow> returnP ())"

definition TDNFTransAddInstallPkgs :: "trans_env \<Rightarrow> pkg_info list \<Rightarrow> install_flag \<Rightarrow> ('z rpm_world_scheme, unit) prog" where
  "TDNFTransAddInstallPkgs env pInfos nInstallFlag =
     unless_no_data (if pInfos = [] then errorP ERROR_TDNF_NO_DATA else add_install_pkgs env nInstallFlag pInfos)"

section \<open>Erasing packages\<close>

fun erase_matches :: "rpmlib \<Rightarrow> (rpm_header \<times> nat) list \<Rightarrow> ('z rpm_world_scheme, unit) prog" where
  "erase_matches lib [] = returnP ()"
| "erase_matches lib ((h, nOffset) # ms) =
     (if nOffset = 0 then erase_matches lib ms
      else bindP (add_element lib (Erase h nOffset)) (\<lambda>rc. if rc \<noteq> 0 then errorP rc else erase_matches lib ms))"

definition TDNFTransAddErasePkg :: "trans_env \<Rightarrow> string \<Rightarrow> ('z rpm_world_scheme, unit) prog" where
  "TDNFTransAddErasePkg env pkgName =
     (if pkgName = [] then errorP ERROR_TDNF_INVALID_PARAMETER
      else bindP (readP (\<lambda>w. rl_label (te_lib env) (rw_view w) pkgName)) (erase_matches (te_lib env)))"

fun add_erase_pkgs :: "trans_env \<Rightarrow> pkg_info list \<Rightarrow> ('z rpm_world_scheme, unit) prog" where
  "add_erase_pkgs env [] = returnP ()"
| "add_erase_pkgs env (pInfo # pInfos) =
     bindP (liftR (TDNFAllocateStringPrintf 0 (pi_pszName pInfo @ ''-'' @ pi_pszEVR pInfo))) (\<lambda>pszFullName.
     bindP (TDNFTransAddErasePkg env pszFullName) (\<lambda>_. add_erase_pkgs env pInfos))"

definition TDNFTransAddErasePkgs :: "trans_env \<Rightarrow> pkg_info list \<Rightarrow> ('z rpm_world_scheme, unit) prog" where
  "TDNFTransAddErasePkgs env pInfos =
     unless_no_data (if pInfos = [] then errorP ERROR_TDNF_NO_DATA else add_erase_pkgs env pInfos)"

definition TDNFPopulateTransaction :: "trans_env \<Rightarrow> solved_pkg_info \<Rightarrow> ('z rpm_world_scheme, unit) prog" where
  "TDNFPopulateTransaction env info =
     (let installs = (\<lambda>l fl. if l = [] then returnP () else TDNFTransAddInstallPkgs env l fl);
          erases = (\<lambda>l. if l = [] then returnP () else TDNFTransAddErasePkgs env l)
      in bindP (installs (pPkgsToInstall info) INSTALL_INSTALL) (\<lambda>_.
         bindP (installs (pPkgsToReinstall info) INSTALL_REINSTALL) (\<lambda>_.
         bindP (installs (pPkgsToUpgrade info) INSTALL_UPGRADE) (\<lambda>_.
         bindP (erases (pPkgsToRemove info)) (\<lambda>_.
         bindP (erases (pPkgsObsoleted info)) (\<lambda>_.
           if pPkgsToDowngrade info = [] then returnP ()
           else bindP (TDNFTransAddInstallPkgs env (pPkgsToDowngrade info) INSTALL_INSTALL) (\<lambda>_.
                  erases (pPkgsRemovedByDowngrade info))))))))"

section \<open>The end of a transaction set\<close>

text \<open>It ends at the first file that cannot be removed.\<close>

fun TDNFRemoveCachedRpms :: "string list \<Rightarrow> ('z files_scheme, unit) prog" where
  "TDNFRemoveCachedRpms [] = returnP ()"
| "TDNFRemoveCachedRpms (p # ps) =
     bindP (if p = [] then returnP () else sysP (sys_unlink p)) (\<lambda>_. TDNFRemoveCachedRpms ps)"

definition TDNFRpmCleanupTS :: "trans_env \<Rightarrow> ('z rpm_world_scheme, unit) prog" where
  "TDNFRpmCleanupTS env =
     bindP (readP rw_pCachedRpms) (\<lambda>cached.
     bindP (if cf_nKeepCache (de_pConf (te_net env)) = 0 \<and> \<not> ta_nDownloadOnly (te_args env)
            then catchP (TDNFRemoveCachedRpms cached) else returnP None) (\<lambda>_ w.
       Some (Inr (), w\<lparr>rw_pCachedRpms := []\<rparr>)))"

text \<open>A step whose error ends with \<^verbatim>\<open>TDNFRpmCleanupTS\<close>, or that ends with it in any case.\<close>

definition cleanup_on_error :: "trans_env \<Rightarrow> ('z rpm_world_scheme, unit) prog \<Rightarrow> ('z rpm_world_scheme, unit) prog" where
  "cleanup_on_error env m = bindP (catch_error m) (\<lambda>r. case r of
     Inl e \<Rightarrow> bindP (TDNFRpmCleanupTS env) (\<lambda>_. errorP e) | Inr x \<Rightarrow> returnP x)"

definition finally_cleanup :: "trans_env \<Rightarrow> ('z rpm_world_scheme, unit) prog \<Rightarrow> ('z rpm_world_scheme, unit) prog" where
  "finally_cleanup env m = bindP (catch_error m) (\<lambda>r. bindP (TDNFRpmCleanupTS env) (\<lambda>_. liftR r))"

section \<open>Creating the transaction set\<close>

text \<open>The flags of \<^verbatim>\<open>--setopt=tsflags=...\<close>; an option of that name without a value is compared through NULL.\<close>

fun tsflags :: "cmd_opt list \<Rightarrow> 32 word \<Rightarrow> 32 word option" where
  "tsflags [] nTransFlags = Some nTransFlags"
| "tsflags ((name, v) # opts) nTransFlags =
     (if \<not> strcaseeq name ''tsflags'' then tsflags opts nTransFlags
      else case v of
             None \<Rightarrow> None
           | Some s \<Rightarrow> tsflags opts (nTransFlags
               OR (if strcaseeq s ''noscripts'' then RPMTRANS_FLAG_NOSCRIPTS else 0)
               OR (if strcaseeq s ''nodocs'' then RPMTRANS_FLAG_NODOCS else 0)))"

definition fresh_ts :: "rpmlib \<Rightarrow> rpmts" where
  "fresh_ts lib = \<lparr>ts_elements = [], ts_vsflags = rl_vsflags lib, ts_vfylevel = rl_vfylevel lib,
     ts_flags = RPMTRANS_FLAG_NONE, ts_keyring = None, ts_problems = []\<rparr>"

definition start_ts :: "rpmlib \<Rightarrow> 32 word \<Rightarrow> ('z rpm_world_scheme, unit) prog" where
  "start_ts lib filters w = Some (Inr (), w\<lparr>rw_ts := fresh_ts lib, rw_pCachedRpms := [], rw_nProbFilterFlags := filters\<rparr>)"

definition TDNFRpmCreateTS :: "trans_env \<Rightarrow> solved_pkg_info \<Rightarrow> ('z rpm_world_scheme, unit) prog" where
  "TDNFRpmCreateTS env info =
     (let lib = te_lib env; args = te_args env in
      cleanup_on_error env
       (bindP (start_ts lib (RPMPROB_FILTER_OLDPACKAGE OR (if pPkgsToReinstall info \<noteq> [] then RPMPROB_FILTER_REPLACEPKG else 0))) (\<lambda>_.
        if \<not> rl_create lib then errorP ERROR_TDNF_RPMTS_CREATE_FAILED
        else case tsflags (ta_pSetOpt args) RPMTRANS_FLAG_NONE of
               None \<Rightarrow> (\<lambda>w. None)
             | Some fl \<Rightarrow>
                 bindP (\<lambda>w. Some (Inr (), w\<lparr>rw_nTransFlags := fl\<rparr>)) (\<lambda>_.
                   if rl_set_root lib (ta_pszInstallRoot args) \<noteq> 0 then errorP ERROR_TDNF_RPMTS_BAD_ROOT_DIR
                   else if rl_set_cb lib \<noteq> 0 then errorP ERROR_TDNF_RPMTS_SET_CB_FAILED
                   else TDNFPopulateTransaction env info))))"

section \<open>Problems\<close>

definition out :: "string \<Rightarrow> ('z rpm_world_scheme, unit) prog" where
  "out s w = Some (Inr (), w\<lparr>rw_out := rw_out w @ [s]\<rparr>)"

fun element_header :: "rpm_element \<Rightarrow> rpm_header" where
  "element_header (Install h _ _) = h"
| "element_header (Reinstall h _) = h"
| "element_header (Erase h _) = h"

text \<open>Does an element satisfy the comparison? \<^verbatim>\<open>strchr\<close> finds the signs in the middle word.\<close>

definition satisfies :: "rpmlib \<Rightarrow> string \<Rightarrow> string \<Rightarrow> string \<Rightarrow> rpm_element \<Rightarrow> bool" where
  "satisfies lib pszPkgName pszSymbol pszVersion el \<longleftrightarrow>
     (let c = rl_vercmp lib (hd_evr (element_header el)) pszVersion in
      hd_name (element_header el) = pszPkgName
        \<and> (CHR ''>'' \<in> set pszSymbol \<and> c > 0 \<or> CHR ''<'' \<in> set pszSymbol \<and> c < 0 \<or> CHR ''='' \<in> set pszSymbol \<and> c = 0))"

definition TDNFDetectPreTransFailure :: "trans_env \<Rightarrow> string \<Rightarrow> ('z rpm_world_scheme, unit) prog" where
  "TDNFDetectPreTransFailure env pszError =
     (if pszError = [] then errorP ERROR_TDNF_INVALID_PARAMETER
      else bindP (liftR (TDNFAllocateString (Some pszError))) (\<lambda>s.
        case split_tokens '' '' s of
          [pszPkgName, pszSymbol, pszVersion] \<Rightarrow>
            bindP (readP (\<lambda>w. ts_elements (rw_ts w))) (\<lambda>els.
              if list_ex (satisfies (te_lib env) pszPkgName pszSymbol pszVersion) els
              then out (''Detected rpm pre-transaction dependency errors. Install '' @ pszPkgName @ '' '' @ pszSymbol @ '' ''
                     @ pszVersion @ '' first to resolve this failure.'')
              else returnP ())
        | [_, _] \<Rightarrow> errorP ERROR_TDNF_INVALID_PARAMETER
        | [_] \<Rightarrow> errorP ERROR_TDNF_INVALID_PARAMETER
        | [] \<Rightarrow> errorP ERROR_TDNF_INVALID_PARAMETER
        | _ \<Rightarrow> bindP (out ''RPM problem string format unsupported'') (\<lambda>_. errorP ERROR_TDNF_INVALID_PARAMETER)))"

fun report_each :: "trans_env \<Rightarrow> rpm_problem list \<Rightarrow> ('z rpm_world_scheme, unit) prog" where
  "report_each env [] = returnP ()"
| "report_each env (pb # pbs) =
     (if strstr (pb_text pb) ''no digest'' \<noteq> None
      then bindP (out (pb_text pb @ ''. Use --skipdigest to ignore'')) (\<lambda>_. report_each env pbs)
      else bindP (out (pb_text pb)) (\<lambda>_.
           bindP (if pb_requires pb
                  then bindP (liftR (TDNFAllocateString (Some (pb_str pb)))) (TDNFDetectPreTransFailure env)
                  else returnP ()) (\<lambda>_. report_each env pbs)))"

text \<open>The list of problems ends at the first that cannot be read; the function has no result.\<close>

definition reportProblems :: "trans_env \<Rightarrow> ('z rpm_world_scheme, unit) prog" where
  "reportProblems env = bindP (readP (\<lambda>w. ts_problems (rw_ts w))) (\<lambda>ps.
     if ps = [] then returnP ()
     else bindP (out (''Found '' @ nat_string (length ps) @ '' problems'')) (\<lambda>_.
          bindP (catchP (report_each env ps)) (\<lambda>_. returnP ())))"

section \<open>Running the transaction\<close>

definition doCheck :: "rpmlib \<Rightarrow> ('z rpm_world_scheme, nat) prog" where
  "doCheck lib w = (case rl_check lib (rw_ts w) (rw_view w) of (rc, ps) \<Rightarrow>
     Some (Inr (if ps \<noteq> [] then ERROR_TDNF_RPM_CHECK else rc), w\<lparr>rw_ts := (rw_ts w)\<lparr>ts_problems := ps\<rparr>\<rparr>))"

definition order_elements :: "rpmlib \<Rightarrow> ('z rpm_world_scheme, nat) prog" where
  "order_elements lib w = (case rl_order lib (rw_ts w) of (rc, els) \<Rightarrow>
     Some (Inr rc, w\<lparr>rw_ts := (rw_ts w)\<lparr>ts_elements := els\<rparr>\<rparr>))"

text \<open>\<^verbatim>\<open>TDNFRpmCB\<close> opens the file that librpm asks for; the other callbacks only print.\<close>

definition TDNFRpmCB :: "'z files_scheme \<Rightarrow> string \<Rightarrow> string option" where
  "TDNFRpmCB w pszFileName =
     (if pszFileName = [] then None else case sys_open pszFileName w of Inl e \<Rightarrow> None | Inr t \<Rightarrow> Some t)"

definition run_ts :: "rpmlib \<Rightarrow> ('z rpm_world_scheme, unit) prog" where
  "run_ts lib w = (case rl_run lib (rw_ts w) (rw_nProbFilterFlags w) (TDNFRpmCB w) (rw_view w) of (rc, ps, view) \<Rightarrow>
     Some (if rc \<noteq> 0 then Inl ERROR_TDNF_TRANSACTION_FAILED else Inr (),
       w\<lparr>rw_ts := (rw_ts w)\<lparr>ts_problems := ps\<rparr>, rw_view := view, rw_events := rw_events w @ [RAN (ts_flags (rw_ts w)) rc]\<rparr>))"

definition TDNFSetOpenMax :: "trans_env \<Rightarrow> ('z rpm_world_scheme, unit) prog" where
  "TDNFSetOpenMax env =
     bindP (liftR (TDNFJoinPath [path_or_empty (ta_pszInstallRoot (te_args env)), ''/proc/self/fd''])) (\<lambda>pszProcPath.
     bindP (readP (\<lambda>w. TDNFIsDir (files_system (te_sys env) w) (the pszProcPath))) (\<lambda>r.
       case r of
         Inl e \<Rightarrow> if e = ERROR_TDNF_SYSTEM_BASE + ENOENT then happened (SET_NOFILE (cf_nOpenMax (de_pConf (te_net env)))) else errorP e
       | Inr nIsDir \<Rightarrow> if nIsDir then returnP () else happened (SET_NOFILE (cf_nOpenMax (de_pConf (te_net env))))))"

definition verify_flags :: "bool \<Rightarrow> bool \<Rightarrow> bool \<Rightarrow> rpmts \<Rightarrow> rpmts" where
  "verify_flags nNoGPGCheck dwSkipSignature dwSkipDigest ts =
     (if nNoGPGCheck then checks_off ts
      else if dwSkipSignature \<or> dwSkipDigest
           then ts\<lparr>ts_vsflags := ts_vsflags ts OR (if dwSkipSignature then RPMVSF_MASK_NOSIGNATURES else 0)
                     OR (if dwSkipDigest then RPMVSF_MASK_NODIGESTS else 0),
                   ts_vfylevel := NOT ((if dwSkipSignature then RPMSIG_SIGNATURE_TYPE else 0)
                     OR (if dwSkipDigest then RPMSIG_DIGEST_TYPE else 0))\<rparr>
           else ts)"

definition fail_rc :: "nat \<Rightarrow> ('w, unit) prog" where
  "fail_rc rc = (if rc \<noteq> 0 then errorP rc else returnP ())"

text \<open>The order, the check and the test run of \<^verbatim>\<open>TDNFRunTransaction\<close>, and its run.\<close>

definition test_transaction :: "trans_env \<Rightarrow> ('z rpm_world_scheme, unit) prog" where
  "test_transaction env =
     (let lib = te_lib env; args = te_args env in
        bindP (order_elements lib) (\<lambda>rc. bindP (fail_rc rc) (\<lambda>_.
        bindP (doCheck lib) (\<lambda>rc. bindP (fail_rc rc) (\<lambda>_.
        bindP (if ta_nJsonOutput args \<and> \<not> te_fddup env then errorP ERROR_TDNF_RPMTS_FDDUP_FAILED else returnP ()) (\<lambda>_.
        bindP (change_ts (verify_flags (ta_nNoGPGCheck args) (TDNFGetSkipSignatureOption args) (TDNFGetSkipDigestOption args))) (\<lambda>_.
        bindP (change_ts (\<lambda>ts. ts\<lparr>ts_flags := RPMTRANS_FLAG_TEST\<rparr>)) (\<lambda>_.
          run_ts lib))))))))"

definition real_transaction :: "trans_env \<Rightarrow> ('z rpm_world_scheme, unit) prog" where
  "real_transaction env =
     bindP (if cf_nOpenMax (de_pConf (te_net env)) > 0 then TDNFSetOpenMax env else returnP ()) (\<lambda>_.
     bindP (readP rw_nTransFlags) (\<lambda>fl.
     bindP (change_ts (\<lambda>ts. ts\<lparr>ts_flags := fl\<rparr>)) (\<lambda>_.
       run_ts (te_lib env))))"

definition report_on_error :: "trans_env \<Rightarrow> ('z rpm_world_scheme, unit) prog \<Rightarrow> ('z rpm_world_scheme, unit) prog" where
  "report_on_error env m = bindP (catch_error m) (\<lambda>r. case r of
     Inl e \<Rightarrow> bindP (reportProblems env) (\<lambda>_. errorP e) | Inr _ \<Rightarrow> returnP ())"

definition TDNFRunTransaction :: "trans_env \<Rightarrow> ('z rpm_world_scheme, unit) prog" where
  "TDNFRunTransaction env = report_on_error env
     (bindP (test_transaction env) (\<lambda>_. if ta_nTestOnly (te_args env) then returnP () else real_transaction env))"

section \<open>With the history\<close>

text \<open>The history context is open from \<^verbatim>\<open>open_history\<close> to \<^verbatim>\<open>close_history\<close>.\<close>

definition open_history :: "bool \<Rightarrow> ('z rpm_world_scheme, unit) prog" where
  "open_history nMustExist w = (case history_ctx_of nMustExist (rw_db w) of
     Inl e \<Rightarrow> Some (Inl e, w) | Inr ctx \<Rightarrow> Some (Inr (), w\<lparr>rw_ctx := Some ctx\<rparr>))"

definition close_history :: "('z rpm_world_scheme, unit) prog" where
  "close_history w = Some (Inr (), case rw_ctx w of
     None \<Rightarrow> w | Some ctx \<Rightarrow> w\<lparr>rw_ctx := None, rw_db := Some (close_conn (h_db ctx))\<rparr>)"

definition on_history :: "(history_ctx, 'a) prog \<Rightarrow> ('z rpm_world_scheme, 'a) prog" where
  "on_history m w = (case rw_ctx w of
     None \<Rightarrow> Some (Inl ERROR_TDNF_INVALID_PARAMETER, w)
   | Some ctx \<Rightarrow> (case m ctx of None \<Rightarrow> None | Some (r, ctx) \<Rightarrow> Some (r, w\<lparr>rw_ctx := Some ctx\<rparr>)))"

definition TDNFRunTransactionWithHistory :: "trans_env \<Rightarrow> string option \<Rightarrow> ('z rpm_world_scheme, unit) prog" where
  "TDNFRunTransactionWithHistory env pszCmdLine =
     bindP (\<lambda>w. on_history (history_call (history_sync (rw_view w) (fs_now w))) w) (\<lambda>_.
     bindP (TDNFRunTransaction env) (\<lambda>_ w.
       on_history (history_call (history_update_state (rw_view w) pszCmdLine (fs_now w))) w))"

text \<open>The words after the name of the program, of which one more is asked for than there are.\<close>

definition command_line :: "trans_args \<Rightarrow> string option result" where
  "command_line args =
     (if ta_ppszArgv args = [] then Inr None
      else bail (TDNFJoinArrayToString (Some (tl (ta_ppszArgv args))) (Some '' '') (length (ta_ppszArgv args))) (\<lambda>s. Inr (Some s)))"

definition finally_close :: "('z rpm_world_scheme, unit) prog \<Rightarrow> ('z rpm_world_scheme, unit) prog" where
  "finally_close m = bindP (catch_error m) (\<lambda>r. bindP close_history (\<lambda>_. liftR r))"

definition TDNFRpmExecTransaction :: "trans_env \<Rightarrow> solved_pkg_info \<Rightarrow> ('z rpm_world_scheme, unit) prog" where
  "TDNFRpmExecTransaction env info =
     bindP (TDNFRpmCreateTS env info) (\<lambda>_.
       finally_close (finally_cleanup env
        (if ta_nDownloadOnly (te_args env) then returnP ()
         else if ta_nTestOnly (te_args env) then TDNFRunTransaction env
         else bindP (open_history False) (\<lambda>_.
              bindP (liftR (command_line (te_args env))) (\<lambda>pszCmdLine.
              bindP (TDNFRunTransactionWithHistory env pszCmdLine) (\<lambda>_.
                on_history (TDNFMarkAutoInstalled info False)))))))"

text \<open>The flags of a history command are set in the transaction of the command, which may have to be made for them.\<close>

definition replay_flags :: "history_args \<Rightarrow> (history_ctx, unit) prog" where
  "replay_flags a = (case ha_nCommand a of
     HISTORY_CMD_ROLLBACK \<Rightarrow> history_call (history_restore_auto_flags (ha_nTo a))
   | HISTORY_CMD_UNDO \<Rightarrow> history_call (history_replay_auto_flags (ha_nTo a) (ha_nFrom a - 1))
   | HISTORY_CMD_REDO \<Rightarrow> history_call (history_replay_auto_flags (ha_nFrom a - 1) (ha_nTo a))
   | _ \<Rightarrow> returnP ())"

definition record_flags :: "history_args \<Rightarrow> solved_pkg_info \<Rightarrow> int \<Rightarrow> string option \<Rightarrow> int \<Rightarrow> (history_ctx, unit) prog" where
  "record_flags a info trans_id pszCmdLine now =
     bindP (\<lambda>ctx. if trans_id = h_trans_id ctx then history_call (history_add_transaction pszCmdLine now) ctx
                 else TDNFMarkAutoInstalled info True ctx) (\<lambda>_. replay_flags a)"

definition TDNFRpmExecHistoryTransaction :: "trans_env \<Rightarrow> solved_pkg_info \<Rightarrow> history_args \<Rightarrow> ('z rpm_world_scheme, unit) prog" where
  "TDNFRpmExecHistoryTransaction env info a =
     bindP (TDNFRpmCreateTS env info) (\<lambda>_.
       finally_close (finally_cleanup env
        (if ta_nDownloadOnly (te_args env) then returnP ()
         else if ta_nTestOnly (te_args env) then TDNFRunTransaction env
         else bindP (open_history False) (\<lambda>_.
              bindP (on_history (\<lambda>ctx. Some (Inr (h_trans_id ctx), ctx))) (\<lambda>trans_id.
              bindP (liftR (command_line (te_args env))) (\<lambda>pszCmdLine.
              bindP (TDNFRunTransactionWithHistory env pszCmdLine) (\<lambda>_ w.
                on_history (record_flags a info trans_id pszCmdLine (fs_now w)) w)))))))"

text \<open>\<^verbatim>\<open>client/api.c\<close> passes the commands on.\<close>

definition TDNFAlterCommand :: "trans_env \<Rightarrow> solved_pkg_info \<Rightarrow> ('z rpm_world_scheme, unit) prog" where
  "TDNFAlterCommand env info = TDNFRpmExecTransaction env info"

definition TDNFAlterHistoryCommand :: "trans_env \<Rightarrow> solved_pkg_info \<Rightarrow> history_args \<Rightarrow> ('z rpm_world_scheme, unit) prog" where
  "TDNFAlterHistoryCommand env info a = TDNFRpmExecHistoryTransaction env info a"

section \<open>The test comes first\<close>

lemma change_ts_run [simp]: "change_ts f w = Some (Inr (), w\<lparr>rw_ts := f (rw_ts w)\<rparr>)"
  by (simp add: change_ts_def)

lemma happened_run [simp]: "happened ev w = Some (Inr (), w\<lparr>rw_events := rw_events w @ [ev]\<rparr>)"
  by (simp add: happened_def)

lemma out_run [simp]: "out s w = Some (Inr (), w\<lparr>rw_out := rw_out w @ [s]\<rparr>)"
  by (simp add: out_def)

text \<open>The parts of the world that messages do not change.\<close>

definition out_free :: "('z rpm_world_scheme \<Rightarrow> 'b) \<Rightarrow> bool" where
  "out_free g \<longleftrightarrow> (\<forall>w x. g (w\<lparr>rw_out := x\<rparr>) = g w)"

lemma leaves_out: "out_free g \<Longrightarrow> leaves g (out s)"
  by (simp add: leaves_def out_free_def)

lemma leaves_detect: "out_free g \<Longrightarrow> leaves g (TDNFDetectPreTransFailure env s)"
  by (auto simp: TDNFDetectPreTransFailure_def leaves_out split: list.split)

lemma leaves_report_each: "out_free g \<Longrightarrow> leaves g (report_each env ps)"
  by (induction ps) (auto simp: leaves_out leaves_detect)

lemma leaves_catchP: "leaves g m \<Longrightarrow> leaves g (catchP m)"
  by (auto simp: leaves_def catchP_def split: option.splits sum.splits)

lemma leaves_reportProblems: "out_free g \<Longrightarrow> leaves g (reportProblems env)"
  by (auto simp: reportProblems_def leaves_out intro!: leaves_catchP leaves_report_each)

lemma reportProblems_ends: "reportProblems env w = Some (r, w') \<Longrightarrow> r = Inr ()"
  by (auto simp: reportProblems_def bindP_def catchP_def split: if_splits option.splits sum.splits)

lemma report_on_error_run:
  assumes "report_on_error env m w = Some (r, w')" and "out_free g"
  obtains w1 where "m w = Some (r, w1)" "g w' = g w1"
proof -
  obtain r0 w1 where m: "m w = Some (r0, w1)"
    using assms(1) by (auto simp: report_on_error_def bindP_def catch_error_def split: option.splits)
  show thesis
  proof (cases r0)
    case (Inl e)
    then have "bindP (reportProblems env) (\<lambda>_. errorP e) w1 = Some (r, w')"
      using assms(1) m by (simp add: report_on_error_def bindP_def [where m = "catch_error m"])
    then obtain r2 where r2: "reportProblems env w1 = Some (r2, w')" and r: "r2 = Inr () \<Longrightarrow> r = Inl e"
      by (auto simp: bindP_def split: option.splits sum.splits)
    have "r = r0" using r reportProblems_ends [OF r2] Inl by simp
    then show thesis using that m leavesD [OF leaves_reportProblems [OF assms(2)] r2] by blast
  next
    case (Inr x)
    then show thesis using assms m that [of w1] by (simp add: report_on_error_def bindP_def)
  qed
qed

text \<open>The events of the two parts.\<close>

definition tests_only :: "rpmlib \<Rightarrow> bool" where
  "tests_only lib \<longleftrightarrow> (\<forall>ts filters open view. ts_flags ts = RPMTRANS_FLAG_TEST \<longrightarrow>
     snd (snd (rl_run lib ts filters open view)) = view)"

lemma run_ts_run:
  assumes "run_ts lib w = Some (r, w')"
  obtains rc where "rw_events w' = rw_events w @ [RAN (ts_flags (rw_ts w)) rc]" "r = Inr () \<longleftrightarrow> rc = 0"
    "rw_view w' = snd (snd (rl_run lib (rw_ts w) (rw_nProbFilterFlags w) (TDNFRpmCB w) (rw_view w)))"
    "rw_nTransFlags w' = rw_nTransFlags w" "ts_elements (rw_ts w') = ts_elements (rw_ts w)" "rw_db w' = rw_db w" "rw_ctx w' = rw_ctx w"
  using assms by (auto simp: run_ts_def split: prod.splits if_splits)

lemma test_transaction_run:
  assumes "test_transaction env w = Some (r, w')" and "tests_only (te_lib env)"
  shows "rw_view w' = rw_view w \<and> rw_nTransFlags w' = rw_nTransFlags w
    \<and> ((\<exists>e. r = Inl e) \<and> rw_events w' = rw_events w
       \<or> (\<exists>rc. rw_events w' = rw_events w @ [RAN RPMTRANS_FLAG_TEST rc] \<and> (r = Inr () \<longleftrightarrow> rc = 0)))"
proof -
  have run: "rw_view w'' = rw_view v \<and> rw_nTransFlags w'' = rw_nTransFlags v
      \<and> (\<exists>rc. rw_events w'' = rw_events v @ [RAN RPMTRANS_FLAG_TEST rc] \<and> (s = Inr () \<longleftrightarrow> rc = 0))"
    if "run_ts (te_lib env) v = Some (s, w'')" "ts_flags (rw_ts v) = RPMTRANS_FLAG_TEST" for v w'' s
  proof -
    from that(1) obtain rc where "rw_events w'' = rw_events v @ [RAN (ts_flags (rw_ts v)) rc]" "s = Inr () \<longleftrightarrow> rc = 0"
      "rw_view w'' = snd (snd (rl_run (te_lib env) (rw_ts v) (rw_nProbFilterFlags v) (TDNFRpmCB v) (rw_view v)))"
      "rw_nTransFlags w'' = rw_nTransFlags v" by (rule run_ts_run)
    then show ?thesis using assms(2) that(2) by (auto simp: tests_only_def)
  qed
  show ?thesis
    using assms(1)
    by (auto simp: test_transaction_def Let_def bindP_def fail_rc_def order_elements_def doCheck_def split: prod.splits if_splits option.splits sum.splits dest!: run)
qed

lemma set_open_max_run:
  assumes "TDNFSetOpenMax env w = Some (r, w')"
  shows "rw_view w' = rw_view w \<and> rw_nTransFlags w' = rw_nTransFlags w \<and> rw_ts w' = rw_ts w
    \<and> (\<exists>mid. rw_events w' = rw_events w @ mid \<and> set mid \<subseteq> {SET_NOFILE (cf_nOpenMax (de_pConf (te_net env)))})"
  using assms by (auto simp: TDNFSetOpenMax_def bindP_def liftR_def split: sum.splits if_splits)

lemma real_transaction_run:
  assumes "real_transaction env w = Some (r, w')"
  obtains mid where "set mid \<subseteq> {SET_NOFILE (cf_nOpenMax (de_pConf (te_net env)))}"
    "(\<exists>e. r = Inl e) \<and> rw_view w' = rw_view w \<and> rw_events w' = rw_events w @ mid
     \<or> (\<exists>rc. rw_events w' = rw_events w @ mid @ [RAN (rw_nTransFlags w) rc] \<and> (r = Inr () \<longleftrightarrow> rc = 0))"
proof -
  let ?set = "if cf_nOpenMax (de_pConf (te_net env)) > 0 then TDNFSetOpenMax env else returnP ()"
  obtain s w1 where s: "?set w = Some (s, w1)"
    using assms by (auto simp: real_transaction_def bindP_def split: option.splits if_splits)
  obtain mid where w1: "rw_view w1 = rw_view w" "rw_nTransFlags w1 = rw_nTransFlags w"
      "rw_events w1 = rw_events w @ mid" "set mid \<subseteq> {SET_NOFILE (cf_nOpenMax (de_pConf (te_net env)))}"
    using s set_open_max_run [of env w s w1] that by (auto split: if_splits)
  show thesis
  proof (cases s)
    case (Inl e)
    then have "r = Inl e" "w' = w1" using assms s by (simp_all add: real_transaction_def bindP_def)
    then show thesis using w1 that [of mid] by blast
  next
    case (Inr x)
    then have "run_ts (te_lib env) (w1\<lparr>rw_ts := (rw_ts w1)\<lparr>ts_flags := rw_nTransFlags w\<rparr>\<rparr>) = Some (r, w')"
      using assms s w1(2) by (simp add: real_transaction_def bindP_def)
    then show thesis using w1 that [of mid] by (elim run_ts_run) auto
  qed
qed

lemma transaction_tested:
  assumes "tests_only (te_lib env)" and "TDNFRunTransaction env w = Some (r, w')"
  obtains mid where "set mid \<subseteq> {SET_NOFILE (cf_nOpenMax (de_pConf (te_net env)))}"
    "r = Inr () \<Longrightarrow> rw_events w' = rw_events w @ RAN RPMTRANS_FLAG_TEST 0 # mid
        @ (if ta_nTestOnly (te_args env) then [] else [RAN (rw_nTransFlags w) 0])"
    "rw_view w' \<noteq> rw_view w \<Longrightarrow> \<not> ta_nTestOnly (te_args env)
       \<and> (\<exists>rc. rw_events w' = rw_events w @ RAN RPMTRANS_FLAG_TEST 0 # mid @ [RAN (rw_nTransFlags w) rc])"
proof -
  let ?g = "\<lambda>w. (rw_view w, rw_events w)"
  let ?real = "if ta_nTestOnly (te_args env) then returnP () else real_transaction env"
  obtain w1 where w1: "bindP (test_transaction env) (\<lambda>_. ?real) w = Some (r, w1)" "?g w' = ?g w1"
    using report_on_error_run [OF assms(2) [unfolded TDNFRunTransaction_def], of ?g] by (auto simp: out_free_def)
  obtain s w2 where s: "test_transaction env w = Some (s, w2)"
    using w1(1) by (auto simp: bindP_def split: option.splits)
  note test = test_transaction_run [OF s assms(1)]
  show thesis
  proof (cases s)
    case (Inl e)
    then have "r = Inl e" "w1 = w2" using w1(1) s by (simp_all add: bindP_def)
    then show thesis using that [of "[]"] test w1(2) by simp
  next
    case (Inr x)
    then have test: "rw_view w2 = rw_view w" "rw_nTransFlags w2 = rw_nTransFlags w"
      "rw_events w2 = rw_events w @ [RAN RPMTRANS_FLAG_TEST 0]" using test by auto
    have run: "?real w2 = Some (r, w1)" using w1(1) s Inr by (simp add: bindP_def)
    show thesis
    proof (cases "ta_nTestOnly (te_args env)")
      case True
      then show thesis using that [of "[]"] run test w1(2) by simp
    next
      case False
      then have "real_transaction env w2 = Some (r, w1)" using run by simp
      then obtain mid where "set mid \<subseteq> {SET_NOFILE (cf_nOpenMax (de_pConf (te_net env)))}"
        "(\<exists>e. r = Inl e) \<and> rw_view w1 = rw_view w2 \<and> rw_events w1 = rw_events w2 @ mid
         \<or> (\<exists>rc. rw_events w1 = rw_events w2 @ mid @ [RAN (rw_nTransFlags w2) rc] \<and> (r = Inr () \<longleftrightarrow> rc = 0))"
        by (rule real_transaction_run)
      then show thesis using that [of mid] False test w1(2) by auto
    qed
  qed
qed

text \<open>C11: The rpm database changes only in the run that follows a successful test run of the transaction, and never when
  only a test is asked for; success means that the test run, and after it the run with the flags of the transaction set,
  have both ended with 0.\<close>

theorem RunTransaction_tests_first:
  assumes "tests_only (te_lib env)" and "TDNFRunTransaction env w = Some (r, w')"
  shows "\<exists>mid. set mid \<subseteq> {SET_NOFILE (cf_nOpenMax (de_pConf (te_net env)))}
    \<and> (r = Inr () \<longrightarrow> rw_events w' = rw_events w @ RAN RPMTRANS_FLAG_TEST 0 # mid
        @ (if ta_nTestOnly (te_args env) then [] else [RAN (rw_nTransFlags w) 0]))
    \<and> (rw_view w' \<noteq> rw_view w \<longrightarrow> \<not> ta_nTestOnly (te_args env)
       \<and> (\<exists>rc. rw_events w' = rw_events w @ RAN RPMTRANS_FLAG_TEST 0 # mid @ [RAN (rw_nTransFlags w) rc]))"
  using transaction_tested [OF assms] by metis

section \<open>What is in the transaction set\<close>

definition right_bytes :: "rpmlib \<Rightarrow> pkg_info \<Rightarrow> string \<Rightarrow> bool" where
  "right_bytes lib info t \<longleftrightarrow> file_size t = pi_dwDownloadSizeBytes info
     \<and> (case pi_checksum info of None \<Rightarrow> True | Some (type, bytes) \<Rightarrow> type < length hash_ops \<and> (case hash_ops ! type of (hash, len) \<Rightarrow>
          len \<le> length bytes \<and> (\<exists>d. rl_evp lib hash t = EVP_OK d \<and> take len (d @ replicate 64 0) = take len bytes)))"

lemma check_digest_reads: "leaves g (check_digest lib p c)"
  by (auto simp: check_digest_def TDNFGetDigestForFile_def split: option.split prod.split)

lemma check_size_reads: "leaves g (check_size p n)"
  by (auto simp: check_size_def split: prod.split option.split)

lemma reads_same: "leaves (\<lambda>w. w) m \<Longrightarrow> m w = Some (r, w') \<Longrightarrow> w' = w"
  by (simp add: leaves_def)

lemma checked_bytes:
  assumes "check_digest lib p (pi_checksum info) w = Some (Inr (), v)" and "check_size p (pi_dwDownloadSizeBytes info) w = Some (Inr (), u)"
    and "sys_open p w = Inr t"
  shows "right_bytes lib info t"
proof -
  have "stat_path p w = Inr (File t c) \<or> (\<exists>e. stat_path p w = Inl e)" if "node_at w (resolve p) = Some (File t c)" for c
    using that by (auto simp: stat_path_def)
  then have "file_size t = pi_dwDownloadSizeBytes info"
    using assms(2,3) by (auto simp: check_size_def TDNFGetFileSize_def sys_open_def split: if_splits option.splits file_node.splits)
  moreover have "(case pi_checksum info of None \<Rightarrow> True | Some (type, bytes) \<Rightarrow> type < length hash_ops \<and> (case hash_ops ! type of (hash, len) \<Rightarrow>
          len \<le> length bytes \<and> (\<exists>d. rl_evp lib hash t = EVP_OK d \<and> take len (d @ replicate 64 0) = take len bytes)))"
    using assms(1,3)
    by (auto simp: check_digest_def TDNFGetDigestForFile_def digest_error_def bindP_ok open_text_ok liftR_def
        split: option.splits prod.splits if_splits evp_result.splits)
  ultimately show ?thesis by (simp add: right_bytes_def)
qed

lemma leaves_in_place: "leaves g (in_place us loc)"
  by (induction us) auto

lemma leaves_package_file: "net_free g \<Longrightarrow> leaves g (package_file env info repo)"
  by (auto simp: package_file_def leaves_in_place leaves_to_cache leaves_to_directory split: option.split intro!: leaves_bind)

lemma core_net_free: "net_free core_ts"
  using core_ts_free key_freeD(2) by blast

lemma source_keeps: "leaves core_ts (install_source env p)"
  by (auto simp: install_source_def rpm_rc_def leaves_def [of core_ts "happened _"] core_ts_def intro!: leaves_bind)

text \<open>A package adds one element at most, after its bytes and its signature have been checked.\<close>

lemma add_install_element:
  assumes "TDNFTransAddInstallPkg env info repo fl w = Some (r, w')" and "TDNFGetGPGCheck env (rp_pszId repo) = Inr True"
  shows "core_ts w' = core_ts w \<or> (\<exists>path t t2 kr rc kr' h. right_bytes (te_lib env) info t
     \<and> rl_read (te_lib env) ((core_ts w)\<lparr>ts_keyring := kr\<rparr>) t2 = (rc, Some h, kr') \<and> (rc = 0 \<or> \<not> signatures_wanted env repo)
     \<and> (t2 = t \<or> signatures_wanted env repo \<and> remote_keys repo)
     \<and> core_ts w' = (core_ts w)\<lparr>ts_elements := ts_elements (core_ts w) @ [install_element fl h path]\<rparr>)"
proof -
  from assms(1) [unfolded TDNFTransAddInstallPkg_def] show ?thesis
  proof (cases rule: bindP_cases)
    case fails
    then show ?thesis using leavesD [OF leaves_package_file [OF core_net_free]] by blast
  next
    case (goes path v)
    have v: "core_ts v = core_ts w" using leavesD [OF leaves_package_file [OF core_net_free] goes(1)] .
    show ?thesis
    proof (cases "sys_access path v = 0")
      case False
      then show ?thesis using goes(2) v by simp
    next
      case True
      with goes(2) have "bindP (check_digest (te_lib env) path (pi_checksum info)) (\<lambda>_.
          bindP (check_size path (pi_dwDownloadSizeBytes info)) (\<lambda>_.
          bindP (TDNFGPGCheckPackage env repo path) (\<lambda>hdr.
          bindP (add_package env fl hdr path) (\<lambda>_. remember_cached env path)))) v = Some (r, w')"
        using assms(2) by (simp add: bindP_def [of "returnP ()"])
      then show ?thesis
      proof (cases rule: bindP_cases)
        case fails
        then show ?thesis using reads_same [OF check_digest_reads] v by metis
      next
        case (goes x1 v1)
        note digest = goes(1)
        have v1: "v1 = v" by (rule reads_same [OF check_digest_reads digest])
        from goes(2) show ?thesis
        proof (cases rule: bindP_cases)
          case fails
          then show ?thesis using reads_same [OF check_size_reads] v v1 by metis
        next
          case (goes x2 v2)
          note size = goes(1)
          have v2: "v2 = v" using reads_same [OF check_size_reads size] v1 by simp
          from goes(2) show ?thesis
          proof (cases rule: bindP_cases)
            case fails
            then show ?thesis using leavesD [OF leaves_GPGCheckPackage [OF core_ts_free]] v v2 by metis
          next
            case (goes hdr v3)
            have v3: "core_ts v3 = core_ts w" using leavesD [OF leaves_GPGCheckPackage [OF core_ts_free] goes(1)] v v2 by simp
            obtain t t2 kr rc kr' where t: "sys_open path v = Inr t"
              and rd: "rl_read (te_lib env) ((rw_ts v)\<lparr>ts_keyring := kr\<rparr>) t2 = (rc, hdr, kr')" "rc = 0 \<or> \<not> signatures_wanted env repo"
                "t2 = t \<or> signatures_wanted env repo \<and> remote_keys repo"
              by (rule GPGCheckPackage_ok [OF goes(1) [unfolded v2]])
            have bytes: "right_bytes (te_lib env) info t"
              using checked_bytes [OF _ _ t, of "te_lib env" info v v] digest size v1 v2 by simp
            have ts: "(rw_ts v)\<lparr>ts_keyring := kr\<rparr> = (core_ts w)\<lparr>ts_keyring := kr\<rparr>" 
            proof -
              have "(core_ts v)\<lparr>ts_keyring := kr\<rparr> = (rw_ts v)\<lparr>ts_keyring := kr\<rparr>" by (simp add: core_ts_def)
              then show ?thesis unfolding v by simp
            qed
            note rest = goes(2)
            have last: "core_ts w' = core_ts u" if "remember_cached env path u = Some (s, w')" for u s
              using that by (auto simp: remember_cached_def core_ts_def split: option.splits if_splits)
            show ?thesis
            proof (cases hdr)
              case None
              then show ?thesis using rest by (simp add: add_package_def bindP_def)
            next
              case (Some h)
              show ?thesis
              proof (cases "hd_source h")
                case True
                then show ?thesis using rest Some v3 source_keeps [of env path] last
                  by (auto simp: add_package_def elim!: bindP_cases dest: leavesD)
              next
                case False
                let ?el = "install_element fl h path"
                have run: "bindP (bindP (add_element (te_lib env) ?el) rpm_rc) (\<lambda>_. remember_cached env path) v3 = Some (r, w')"
                  using rest Some False by (simp add: add_package_def)
                show ?thesis
                proof (cases "rl_add (te_lib env) (rw_ts v3) ?el = 0")
                  case True
                  let ?v4 = "v3\<lparr>rw_ts := (rw_ts v3)\<lparr>ts_elements := ts_elements (rw_ts v3) @ [?el]\<rparr>\<rparr>"
                  have "remember_cached env path ?v4 = Some (r, w')"
                    using run True by (simp add: add_element_def rpm_rc_def bindP_def Let_def)
                  then have "core_ts w' = core_ts ?v4" by (rule last)
                  also have "\<dots> = (core_ts v3)\<lparr>ts_elements := ts_elements (core_ts v3) @ [?el]\<rparr>" by (simp add: core_ts_def)
                  finally show ?thesis using bytes rd Some v3 unfolding ts by metis
                next
                  case False
                  then have "w' = v3" using run by (simp add: add_element_def rpm_rc_def bindP_def Let_def)
                  then show ?thesis using v3 by simp
                qed
              qed
            qed
          qed
        qed
      qed
    qed
  qed
qed

text \<open>All checks are wanted: those of every repository, and none is switched off on the command line.\<close>

definition all_checked :: "trans_env \<Rightarrow> bool" where
  "all_checked env \<longleftrightarrow> \<not> ta_nNoGPGCheck (te_args env) \<and> \<not> has_setopt ''skipsignature'' (te_args env)
     \<and> list_all (\<lambda>r. rp_nGPGCheck r \<noteq> 0) (de_pRepos (te_net env))"

text \<open>
  An element that is installed comes from a file with the bytes of one of the packages, and librpm has accepted its
  signature under the checks that a new transaction set has. Only a key that is fetched in between could change the file.
\<close>

definition vetted_file :: "trans_env \<Rightarrow> pkg_info set \<Rightarrow> rpm_header \<Rightarrow> bool" where
  "vetted_file env infos h \<longleftrightarrow> (\<exists>info \<in> infos. \<exists>repo t t2 ts kr. right_bytes (te_lib env) info t
     \<and> rl_read (te_lib env) ts t2 = (0, Some h, kr) \<and> ts_vsflags ts = rl_vsflags (te_lib env) \<and> ts_vfylevel ts = rl_vfylevel (te_lib env)
     \<and> (t2 = t \<or> remote_keys repo))"

fun vetted :: "trans_env \<Rightarrow> pkg_info set \<Rightarrow> rpm_element \<Rightarrow> bool" where
  "vetted env infos (Install h path u) = vetted_file env infos h"
| "vetted env infos (Reinstall h path) = vetted_file env infos h"
| "vetted env infos (Erase h nOffset) = True"

definition set_vetted :: "trans_env \<Rightarrow> pkg_info set \<Rightarrow> rpmts \<Rightarrow> bool" where
  "set_vetted env infos ts \<longleftrightarrow> ts_vsflags ts = rl_vsflags (te_lib env) \<and> ts_vfylevel ts = rl_vfylevel (te_lib env)
     \<and> list_all (vetted env infos) (ts_elements ts)"

lemma repo_by_id_found: "repo_by_id i rs = Some r \<Longrightarrow> r \<in> set rs \<and> rp_pszId r = i"
  by (induction rs) (auto split: if_splits)

lemma found_checked:
  assumes "all_checked env" and "TDNFFindRepoById (de_pRepos (te_net env)) s = Inr repo"
  shows "TDNFGetGPGCheck env (rp_pszId repo) = Inr True" and "signatures_wanted env repo"
proof -
  have s: "s \<noteq> []" "repo_by_id s (de_pRepos (te_net env)) = Some repo"
    using assms(2) by (auto simp: TDNFFindRepoById_def split: if_splits option.splits)
  note r = repo_by_id_found [OF s(2)]
  have c: "rp_nGPGCheck repo \<noteq> 0" using assms(1) r by (auto simp: all_checked_def list_all_iff)
  show "TDNFGetGPGCheck env (rp_pszId repo) = Inr True"
    using assms(1) s r c by (simp add: TDNFGetGPGCheck_def TDNFGetRepoById_def all_checked_def)
  show "signatures_wanted env repo" using assms(1) c by (simp add: signatures_wanted_def all_checked_def)
qed

lemma core_set_vetted: "set_vetted env infos (core_ts w) = set_vetted env infos (rw_ts w)"
  by (simp add: set_vetted_def core_ts_def)

lemma package_vetted:
  assumes "all_checked env" and "TDNFFindRepoById (de_pRepos (te_net env)) s = Inr repo" and "info \<in> infos"
  shows "stays (\<lambda>w. set_vetted env infos (rw_ts w)) (TDNFTransAddInstallPkg env info repo fl)"
  unfolding stays_def
proof (intro allI impI)
  fix w r w' assume w: "set_vetted env infos (rw_ts w)" and run: "TDNFTransAddInstallPkg env info repo fl w = Some (r, w')"
  note wanted = found_checked [OF assms(1,2)]
  have "set_vetted env infos (core_ts w')"
  proof (cases "core_ts w' = core_ts w")
    case True
    then show ?thesis using w by (simp add: core_set_vetted)
  next
    case False
    then obtain path t t2 kr rc kr' h where b: "right_bytes (te_lib env) info t"
      and rd: "rl_read (te_lib env) ((core_ts w)\<lparr>ts_keyring := kr\<rparr>) t2 = (rc, Some h, kr')"
      and rc: "rc = 0 \<or> \<not> signatures_wanted env repo" and t2: "t2 = t \<or> signatures_wanted env repo \<and> remote_keys repo"
      and w': "core_ts w' = (core_ts w)\<lparr>ts_elements := ts_elements (core_ts w) @ [install_element fl h path]\<rparr>"
      using add_install_element [OF run wanted(1)] by blast
    have "vetted_file env infos h"
      unfolding vetted_file_def
      using assms(3) b rd rc t2 wanted(2) w
      by (intro bexI [of _ info] exI [of _ repo] exI [of _ t] exI [of _ t2] exI [of _ "(core_ts w)\<lparr>ts_keyring := kr\<rparr>"] exI [of _ kr'])
        (auto simp: set_vetted_def core_ts_def)
    then have "vetted env infos (install_element fl h path)" by (simp add: install_element_def)
    then show ?thesis using w unfolding w' by (simp add: set_vetted_def core_ts_def)
  qed
  then show "set_vetted env infos (rw_ts w')" by (simp add: core_set_vetted)
qed

lemma install_list_vetted:
  assumes "all_checked env" and "set l \<subseteq> infos"
  shows "stays (\<lambda>w. set_vetted env infos (rw_ts w)) (add_install_pkgs env fl l)"
  using assms(2)
proof (induction l)
  case (Cons info l)
  show ?case
  proof (cases "TDNFFindRepoById (de_pRepos (te_net env)) (pi_pszRepoName info)")
    case (Inr repo)
    then show ?thesis using package_vetted [OF assms(1) Inr] Cons by auto
  qed simp
qed simp

lemma stays_unless [intro!]: "stays P m \<Longrightarrow> stays P (unless_no_data m)"
  by (auto simp: unless_no_data_def split: sum.split)

lemma erase_vetted: "stays (\<lambda>w. set_vetted env infos (rw_ts w)) (TDNFTransAddErasePkg env s)"
proof -
  have add: "stays (\<lambda>w. set_vetted env infos (rw_ts w)) (add_element lib (Erase h n))" for lib h n
    by (auto simp: stays_def add_element_def set_vetted_def Let_def)
  have "stays (\<lambda>w. set_vetted env infos (rw_ts w)) (erase_matches lib ms)" for lib ms
    by (induction lib ms rule: erase_matches.induct) (auto simp: add)
  then show ?thesis by (auto simp: TDNFTransAddErasePkg_def readP_def)
qed

lemma erase_list_vetted: "stays (\<lambda>w. set_vetted env infos (rw_ts w)) (add_erase_pkgs env l)"
  by (induction l) (auto simp: erase_vetted)

definition install_infos :: "solved_pkg_info \<Rightarrow> pkg_info list" where
  "install_infos info = pPkgsToInstall info @ pPkgsToReinstall info @ pPkgsToUpgrade info @ pPkgsToDowngrade info"

lemma populate_vetted:
  assumes "all_checked env"
  shows "stays (\<lambda>w. set_vetted env (set (install_infos info)) (rw_ts w)) (TDNFPopulateTransaction env info)" (is "stays ?P _")
proof -
  have i: "stays ?P (TDNFTransAddInstallPkgs env l fl)" if "set l \<subseteq> set (install_infos info)" for l fl
    using install_list_vetted [OF assms that] by (auto simp: TDNFTransAddInstallPkgs_def)
  have e: "stays ?P (TDNFTransAddErasePkgs env l)" for l
    using erase_list_vetted by (auto simp: TDNFTransAddErasePkgs_def)
  have sub: "set (pPkgsToInstall info) \<subseteq> set (install_infos info)" "set (pPkgsToReinstall info) \<subseteq> set (install_infos info)"
    "set (pPkgsToUpgrade info) \<subseteq> set (install_infos info)" "set (pPkgsToDowngrade info) \<subseteq> set (install_infos info)"
    by (auto simp: install_infos_def)
  show ?thesis unfolding TDNFPopulateTransaction_def Let_def
    by (intro stays_bind) (simp_all add: i [OF sub(1)] i [OF sub(2)] i [OF sub(3)] i [OF sub(4)] e stays_bind)
qed

lemma leaves_remove_cached: "files_free g \<Longrightarrow> leaves g (TDNFRemoveCachedRpms ps)"
  by (induction ps) auto

lemma leaves_cleanup:
  assumes "files_free g" and "\<And>w x. g (w\<lparr>rw_pCachedRpms := x\<rparr>) = g w"
  shows "leaves g (TDNFRpmCleanupTS env)"
  using assms by (auto simp: TDNFRpmCleanupTS_def leaves_def [of _ "\<lambda>w. Some (_ w, _ w)"] intro!: leaves_bind leaves_catchP leaves_remove_cached)

lemma rw_ts_free: "files_free rw_ts"
  by (simp add: files_free_def)

lemma create_vetted:
  assumes "all_checked env" and "TDNFRpmCreateTS env info w = Some (r, w')"
  shows "set_vetted env (set (install_infos info)) (rw_ts w')" (is "?P w'")
proof -
  let ?filters = "RPMPROB_FILTER_OLDPACKAGE OR (if pPkgsToReinstall info \<noteq> [] then RPMPROB_FILTER_REPLACEPKG else 0)"
  let ?w = "w\<lparr>rw_ts := fresh_ts (te_lib env), rw_pCachedRpms := [], rw_nProbFilterFlags := ?filters\<rparr>"
  define rest where "rest = (if \<not> rl_create (te_lib env) then errorP ERROR_TDNF_RPMTS_CREATE_FAILED
        else case tsflags (ta_pSetOpt (te_args env)) RPMTRANS_FLAG_NONE of
               None \<Rightarrow> (\<lambda>w. None)
             | Some fl \<Rightarrow>
                 bindP (\<lambda>w. Some (Inr (), w\<lparr>rw_nTransFlags := fl\<rparr>)) (\<lambda>_.
                   if rl_set_root (te_lib env) (ta_pszInstallRoot (te_args env)) \<noteq> 0 then errorP ERROR_TDNF_RPMTS_BAD_ROOT_DIR
                   else if rl_set_cb (te_lib env) \<noteq> 0 then errorP ERROR_TDNF_RPMTS_SET_CB_FAILED
                   else TDNFPopulateTransaction env info :: ('a rpm_world_scheme, unit) prog))"
  have "TDNFRpmCreateTS env info w = cleanup_on_error env (\<lambda>_. rest ?w) w"
    by (simp add: TDNFRpmCreateTS_def start_ts_def bindP_def rest_def cleanup_on_error_def catch_error_def Let_def)
  then have run: "cleanup_on_error env rest ?w = Some (r, w')"
    using assms(2) by (simp add: cleanup_on_error_def bindP_def catch_error_def)
  have "stays ?P rest"
    by (auto simp: rest_def stays_def [of _ "\<lambda>w. Some (Inr (), _ w)"] split: option.split intro!: stays_bind populate_vetted [OF assms(1)])
  moreover have "stays ?P (TDNFRpmCleanupTS env)"
    using leaves_stays [OF leaves_cleanup [OF rw_ts_free], of "set_vetted env (set (install_infos info))"] by simp
  ultimately have "stays ?P (cleanup_on_error env rest)" by (auto simp: cleanup_on_error_def split: sum.split)
  moreover have "?P ?w" by (simp add: set_vetted_def fresh_ts_def)
  ultimately show ?thesis using run staysD [where P = ?P] by blast
qed


text \<open>One package of a repository that is not checked is enough to switch the checks of the whole set off.\<close>

lemma leaves_add_element: "(\<And>w x. g (w\<lparr>rw_ts := (rw_ts w)\<lparr>ts_elements := x\<rparr>\<rparr>) = g w) \<Longrightarrow> leaves g (add_element lib el)"
  by (simp add: leaves_def add_element_def Let_def)

lemma leaves_happened: "(\<And>w x. g (w\<lparr>rw_events := x\<rparr>) = g w) \<Longrightarrow> leaves g (happened ev)"
  by (simp add: leaves_def)

lemma leaves_add_package:
  assumes "\<And>w x. g (w\<lparr>rw_ts := (rw_ts w)\<lparr>ts_elements := x\<rparr>\<rparr>) = g w" and "\<And>w x. g (w\<lparr>rw_events := x\<rparr>) = g w"
  shows "leaves g (add_package env fl hdr path)"
  by (auto simp: add_package_def install_source_def rpm_rc_def split: option.split
      intro!: leaves_bind leaves_add_element leaves_happened assms)

lemma leaves_flags_add: "leaves (\<lambda>w. (ts_vsflags (rw_ts w), ts_vfylevel (rw_ts w))) (add_package env fl hdr path)"
  by (rule leaves_add_package) simp_all

lemma leaves_flags_remember: "leaves (\<lambda>w. (ts_vsflags (rw_ts w), ts_vfylevel (rw_ts w))) (remember_cached env path)"
  by (auto simp: remember_cached_def leaves_def split: option.splits)

theorem TransAddInstallPkg_unchecked:
  assumes "TDNFTransAddInstallPkg env info repo fl w = Some (Inr (), w')" and "TDNFGetGPGCheck env (rp_pszId repo) = Inr False"
  shows "ts_vfylevel (rw_ts w') = NOT RPMSIG_VERIFIABLE_TYPE
    \<and> ts_vsflags (rw_ts w') = ts_vsflags (rw_ts w) OR (RPMVSF_MASK_NODIGESTS OR RPMVSF_MASK_NOSIGNATURES)"
proof -
  obtain path v where v: "package_file env info repo w = Some (Inr path, v)"
    and rest: "bindP (check_digest (te_lib env) path (pi_checksum info)) (\<lambda>_.
          bindP (check_size path (pi_dwDownloadSizeBytes info)) (\<lambda>_.
          bindP (TDNFGPGCheckPackage env repo path) (\<lambda>hdr.
          bindP (change_ts checks_off) (\<lambda>_.
          bindP (add_package env fl hdr path) (\<lambda>_. remember_cached env path))))) v = Some (Inr (), w')"
    using assms by (auto simp: TDNFTransAddInstallPkg_def bindP_ok [of "package_file env info repo"] split: if_splits)
  then obtain v1 v2 hdr v3 where s: "check_digest (te_lib env) path (pi_checksum info) v = Some (Inr (), v1)"
    "check_size path (pi_dwDownloadSizeBytes info) v1 = Some (Inr (), v2)" "TDNFGPGCheckPackage env repo path v2 = Some (Inr hdr, v3)"
    and last: "bindP (add_package env fl hdr path) (\<lambda>_. remember_cached env path) (v3\<lparr>rw_ts := checks_off (rw_ts v3)\<rparr>) = Some (Inr (), w')"
    by (auto simp: bindP_ok)
  have "core_ts v3 = core_ts w"
    using leavesD [OF leaves_package_file [OF core_net_free] v] reads_same [OF check_digest_reads s(1)] reads_same [OF check_size_reads s(2)]
      leavesD [OF leaves_GPGCheckPackage [OF core_ts_free] s(3)] by simp
  then have "ts_vsflags (core_ts v3) = ts_vsflags (core_ts w)" by simp
  then have flags: "ts_vsflags (rw_ts v3) = ts_vsflags (rw_ts w)" by (simp add: core_ts_def)
  from last obtain v4 where "add_package env fl hdr path (v3\<lparr>rw_ts := checks_off (rw_ts v3)\<rparr>) = Some (Inr (), v4)"
    "remember_cached env path v4 = Some (Inr (), w')" by (auto simp: bindP_ok)
  then show ?thesis
    using leavesD [OF leaves_flags_add] leavesD [OF leaves_flags_remember] flags by (force simp: checks_off_def)
qed

section \<open>What the end of a transaction removes\<close>

definition cached_below :: "string \<Rightarrow> 'z rpm_world_scheme \<Rightarrow> bool" where
  "cached_below dir w \<longleftrightarrow> list_all (prefix dir) (rw_pCachedRpms w)"

lemma cached_key_free: "key_free rw_pCachedRpms"
  by (simp add: key_free_def net_free_def files_free_def)

lemma cached_package:
  assumes "cf_pszCacheDir (de_pConf (te_net env)) = Some dir"
  shows "stays (cached_below dir) (TDNFTransAddInstallPkg env info repo fl)"
proof -
  have k: "stays (cached_below dir) m" if "leaves rw_pCachedRpms m" for m
    using leaves_stays [OF that, of "list_all (prefix dir)"] by (simp add: cached_below_def [abs_def])
  have a: "leaves rw_pCachedRpms (add_package env fl hdr path)" "leaves rw_pCachedRpms (change_ts f)" for hdr path f
    by (auto simp: leaves_def [of _ "change_ts f"] intro!: leaves_add_package)
  have r: "stays (cached_below dir) (remember_cached env path)" for path
    using assms by (auto simp: stays_def remember_cached_def cached_below_def split: if_splits)
  show ?thesis
    unfolding TDNFTransAddInstallPkg_def
    by (auto simp: r k a check_digest_reads check_size_reads leaves_GPGCheckPackage [OF cached_key_free]
        leaves_package_file key_freeD(2) [OF cached_key_free])
qed

lemma stays_cached: "leaves rw_pCachedRpms m \<Longrightarrow> stays (cached_below dir) m"
  by (auto simp: stays_def leaves_def cached_below_def)

lemma cached_populate:
  assumes "cf_pszCacheDir (de_pConf (te_net env)) = Some dir"
  shows "stays (cached_below dir) (TDNFPopulateTransaction env info)"
proof -
  have "stays (cached_below dir) (add_install_pkgs env fl l)" for fl l
    by (induction l) (auto simp: cached_package [OF assms])
  then have i: "stays (cached_below dir) (TDNFTransAddInstallPkgs env l fl)" for l fl
    by (auto simp: TDNFTransAddInstallPkgs_def)
  have m: "leaves rw_pCachedRpms (erase_matches lib ms)" for lib ms
    by (induction lib ms rule: erase_matches.induct) (auto intro!: leaves_add_element)
  have l: "leaves rw_pCachedRpms (add_erase_pkgs env l)" for l
    by (induction l) (auto simp: TDNFTransAddErasePkg_def m)
  have e: "stays (cached_below dir) (TDNFTransAddErasePkgs env l)" for l
    by (auto simp: TDNFTransAddErasePkgs_def unless_no_data_def l intro!: stays_cached split: sum.split)
  show ?thesis unfolding TDNFPopulateTransaction_def Let_def by (intro stays_bind) (simp_all add: i e stays_bind)
qed

lemma create_cached:
  assumes "cf_pszCacheDir (de_pConf (te_net env)) = Some dir" and "TDNFRpmCreateTS env info w = Some (Inr (), w')"
  shows "cached_below dir w'"
proof -
  have "\<exists>v. TDNFPopulateTransaction env info v = Some (Inr (), w') \<and> rw_pCachedRpms v = []"
    using assms(2)
    by (auto simp: TDNFRpmCreateTS_def cleanup_on_error_def Let_def start_ts_def bindP_ok catch_error_def
        split: option.splits sum.splits if_splits)
  then obtain v where "TDNFPopulateTransaction env info v = Some (Inr (), w')" "rw_pCachedRpms v = []" by blast
  then show ?thesis using staysD [OF cached_populate [OF assms(1)], of info v] by (simp add: cached_below_def)
qed

lemma remove_cached_touches:
  assumes "TDNFRemoveCachedRpms ps w = Some (r, w')"
  shows "\<forall>k. node_at w' k \<noteq> node_at w k \<longrightarrow> node_at w' k = None \<and> k \<in> resolve ` set ps"
  using assms
proof (induction ps arbitrary: w)
  case (Cons p ps)
  show ?case
  proof (cases "p = []")
    case True
    then show ?thesis using Cons by auto
  next
    case False
    let ?v = "snd (sys_unlink p w)"
    have v: "node_at ?v k \<noteq> node_at w k \<Longrightarrow> node_at ?v k = None \<and> k = resolve p" for k
      by (cases "fs_deny w SYS_UNLINK (resolve p) = 0")
        (auto simp: sys_unlink_def Let_def node_at_del split: option.splits file_node.splits if_splits)
    from Cons.prems False have "w' = ?v \<or> TDNFRemoveCachedRpms ps ?v = Some (r, w')"
      by (auto simp: bindP_def sysP_run split: if_splits)
    then show ?thesis
    proof (rule disjE)
      assume "TDNFRemoveCachedRpms ps ?v = Some (r, w')"
      from Cons.IH [OF this] v show ?thesis by (metis image_insert insertCI list.simps(15))
    qed (use v in auto)
  qed
qed simp


end
