(* ===== verification/Rpm_History.thy ===== *)
theory Rpm_History
  imports Rpm_Trans Hist_Atomic
begin

text \<open>
  The rpm transaction and the history: after \<^verbatim>\<open>TDNFAlterCommand\<close> the history database describes what is installed. What
  is assumed of librpm is that the cookie of its database tells two contents apart.
\<close>

section \<open>Flags do not touch the log\<close>

definition log_frame :: "conn \<Rightarrow> conn \<Rightarrow> bool" where
  "log_frame c d \<longleftrightarrow> saved d = saved c \<and> t_rpms (cur d) = t_rpms (cur c) \<and> t_transactions (cur d) = t_transactions (cur c)
     \<and> t_trans_items (cur d) = t_trans_items (cur c)"

definition ctx_log_frame :: "history_ctx \<Rightarrow> history_ctx \<Rightarrow> bool" where
  "ctx_log_frame ctx ctx' \<longleftrightarrow> log_frame (h_db ctx) (h_db ctx')"

interpretation lf: conn_frame log_frame
  by unfold_locales (auto simp: log_frame_def)

interpretation clf: frame ctx_log_frame
  by unfold_locales (auto simp: ctx_log_frame_def log_frame_def)

lemma lf_writes [intro]:
  "log_frame c (c\<lparr>cur := dict_put Names rows (cur c)\<rparr>)" "log_frame c (c\<lparr>cur := (cur c)\<lparr>t_flag_set := x\<rparr>\<rparr>)"
  "log_frame c (c\<lparr>cur := create_names (cur c)\<rparr>)" "log_frame c (c\<lparr>cur := create_flag_set (cur c)\<rparr>)"
  by (auto simp: log_frame_def create_names_def create_flag_set_def split: option.split)

lemma lf_dict: "keeps log_frame (db_get_dict_entry Names name create)"
  unfolding db_get_dict_entry_def
  by (intro lf.keeps_bnd lf.keeps_prepare lf.keeps_ok lf.keeps_query1)
    (auto split: step.split intro!: lf.keeps_ret lf.keeps_if lf.keeps_bnd lf.keeps_prepare lf.keeps_ok lf.keeps_write
      simp del: dict_put.simps)

lemma lf_table: "log_frame c (snd (db_table_exists table c))"
proof -
  let ?m = "bnd sql_ok (\<lambda>_. bnd sql_ok (\<lambda>_. sql_query1 (case table (cur c) of None \<Rightarrow> [] | Some _ \<Rightarrow> [()])))"
  have "keeps log_frame ?m" by (intro lf.keeps_bnd lf.keeps_ok lf.keeps_query1)
  then have "log_frame c (snd (?m c))" by (simp add: keeps_def)
  then show ?thesis by (auto simp: db_table_exists_def split: prod.splits sum.splits step.splits)
qed

lemma lf_get_byid: "keeps log_frame (db_get_auto_flag_byid t i)"
  unfolding db_get_auto_flag_byid_def by (intro lf.keeps_bnd lf.keeps_prepare lf.keeps_ok lf.keeps_query1 lf.keeps_ret)

lemma lf_get: "keeps log_frame (db_get_auto_flag t name)"
proof -
  let ?m = "bnd (db_get_dict_entry Names name False) (\<lambda>name_id. case name_id of
       None \<Rightarrow> failH UNDEF | Some name_id \<Rightarrow> if name_id = 0 then ret 0 else db_get_auto_flag_byid t name_id)"
  have m: "log_frame c (snd (?m c))" for c
    using lf.keeps_bnd [OF lf_dict, of "\<lambda>name_id. case name_id of None \<Rightarrow> failH UNDEF
       | Some name_id \<Rightarrow> if name_id = 0 then ret 0 else db_get_auto_flag_byid t name_id"] lf_get_byid
    by (auto simp: keeps_def lf.R_refl split: option.split)
  show ?thesis
    unfolding keeps_def
  proof
    fix c
    obtain s1 c1 where t1: "db_table_exists t_flag_set c = (s1, c1)" by (cases "db_table_exists t_flag_set c")
    obtain s2 c2 where t2: "db_table_exists t_names c1 = (s2, c2)" by (cases "db_table_exists t_names c1")
    have c: "log_frame c c1" "log_frame c1 c2" using lf_table [of c t_flag_set] lf_table [of c1 t_names] t1 t2 by simp_all
    have c2: "log_frame c c2" by (rule lf.R_trans [OF c])
    have "snd (db_get_auto_flag t name c) \<in> {c1, c2, snd (?m c2)}"
      by (simp add: db_get_auto_flag_def t1 t2)
    then show "log_frame c (snd (db_get_auto_flag t name c))" using c c2 lf.R_trans [OF c2 m] by auto
  qed
qed
lemma lf_set_byid: "keeps log_frame (db_set_auto_flag_byid t i v)"
  unfolding db_set_auto_flag_byid_def
  by (intro lf.keeps_bnd lf.keeps_prepare lf.keeps_ok lf.keeps_write lf.keeps_ret) auto

lemma lf_set: "keeps log_frame (db_set_auto_flag t name v)"
  unfolding db_set_auto_flag_def
  by (intro lf.keeps_bnd lf.keeps_exec lf_dict)
    (auto simp: keeps_def lf.R_refl lf_set_byid [unfolded keeps_def, rule_format] split: option.split)

lemma clf_on_db: "keeps log_frame m \<Longrightarrow> keeps ctx_log_frame (on_db m)"
  by (auto simp: keeps_def ctx_log_frame_def on_db_def split: prod.splits) (metis snd_conv)

lemma clf_set_flag: "ctx_log_frame ctx (snd (history_set_auto_flag name v ctx))"
proof -
  have "keeps ctx_log_frame (\<lambda>ctx. bnd (check_cond (name \<noteq> None)) (\<lambda>_.
     bnd (check_cond (0 < t)) (\<lambda>_.
     bnd (on_db (db_get_auto_flag t (the name))) (\<lambda>oldval.
       if oldval \<noteq> v then on_db (db_set_auto_flag t (the name) v) else ret ()))) ctx)" for t
    by (intro clf.keeps_bnd clf.keeps_if clf_on_db lf_get lf_set clf.keeps_ret)
  then show ?thesis by (simp add: history_set_auto_flag_def keeps_def)
qed

lemma clf_mark_step:
  assumes "(if c then history_call (history_set_auto_flag name v) else returnP ()) ctx = Some (r, ctx')"
  shows "ctx_log_frame ctx ctx'"
  using assms clf_set_flag [of ctx name v]
  by (auto simp: history_call_def clf.R_refl split: if_splits prod.splits sum.splits herr.splits)

lemma clf_mark: "mark_auto user b names ctx = Some (r, ctx') \<Longrightarrow> ctx_log_frame ctx ctx'"
proof (induction names arbitrary: ctx)
  case (Cons name names)
  let ?v = "(if name \<in> set user then 0 else 1) :: int"
  have "bindP (if \<not> b \<or> ?v = 1 then history_call (history_set_auto_flag (Some name) ?v) else returnP ())
      (\<lambda>_. mark_auto user b names) ctx = Some (r, ctx')" using Cons.prems by (simp add: Let_def)
  then show ?case
  proof (cases rule: bindP_cases)
    case fails
    then show ?thesis using clf_mark_step by blast
  next
    case (goes x v)
    then show ?thesis using clf_mark_step [OF goes(1)] Cons.IH clf.R_trans by blast
  qed
qed (simp add: clf.R_refl)

lemma mark_keeps_log:
  assumes "TDNFMarkAutoInstalled info b ctx = Some (r, ctx')"
  shows "saved (h_db ctx') = saved (h_db ctx)" and "nevras_at (cur (h_db ctx')) t = nevras_at (cur (h_db ctx)) t"
    and "last_trans (cur (h_db ctx')) = last_trans (cur (h_db ctx))" and "log_ok (cur (h_db ctx')) = log_ok (cur (h_db ctx))"
proof -
  have "ctx_log_frame ctx ctx'" using clf_mark assms unfolding TDNFMarkAutoInstalled_def by blast
  then have f: "saved (h_db ctx') = saved (h_db ctx)" "rpm_rows (cur (h_db ctx')) = rpm_rows (cur (h_db ctx))"
    "trans_list (cur (h_db ctx')) = trans_list (cur (h_db ctx))" "item_list (cur (h_db ctx')) = item_list (cur (h_db ctx))"
    and t: "t_rpms (cur (h_db ctx')) = t_rpms (cur (h_db ctx))" "t_transactions (cur (h_db ctx')) = t_transactions (cur (h_db ctx))"
      "t_trans_items (cur (h_db ctx')) = t_trans_items (cur (h_db ctx))"
    by (simp_all add: ctx_log_frame_def log_frame_def rpm_rows_def trans_list_def item_list_def)
  show "saved (h_db ctx') = saved (h_db ctx)" by (rule f)
  show l: "last_trans (cur (h_db ctx')) = last_trans (cur (h_db ctx))" using f by (simp add: last_trans_def)
  have ty: "trans_type (cur (h_db ctx')) i = trans_type (cur (h_db ctx)) i" for i using f by (simp add: trans_type_def)
  have e: "entry (cur (h_db ctx')) i = entry (cur (h_db ctx)) i" for i
    using f ty by (simp add: entry_def)
  then have s: "state_at (cur (h_db ctx')) u = state_at (cur (h_db ctx)) u" for u by (simp add: state_at_def)
  show "nevras_at (cur (h_db ctx')) t = nevras_at (cur (h_db ctx)) t" using f s by (simp add: nevras_at_def)
  show "log_ok (cur (h_db ctx')) = log_ok (cur (h_db ctx))" using f t l ty by (simp add: log_ok_def item_ok_def [abs_def])
qed

section \<open>What a run leaves\<close>

definition run_free :: "('z rpm_world_scheme \<Rightarrow> 'b) \<Rightarrow> bool" where
  "run_free g \<longleftrightarrow> out_free g \<and> (\<forall>w x. g (w\<lparr>rw_ts := x\<rparr>) = g w) \<and> (\<forall>w x. g (w\<lparr>rw_view := x\<rparr>) = g w)
     \<and> (\<forall>w x. g (w\<lparr>rw_events := x\<rparr>) = g w)"

lemma leaves_run_ts: "run_free g \<Longrightarrow> leaves g (run_ts lib)"
  by (auto simp: leaves_def run_ts_def run_free_def split: prod.splits)

lemma leaves_change_ts: "run_free g \<Longrightarrow> leaves g (change_ts f)"
  by (auto simp: leaves_def run_free_def)

lemma leaves_RunTransaction:
  assumes "run_free g"
  shows "leaves g (TDNFRunTransaction env)"
proof -
  have o: "leaves g (order_elements lib)" "leaves g (doCheck lib)" for lib
    using assms by (auto simp: leaves_def order_elements_def doCheck_def run_free_def split: prod.splits)
  have h: "leaves g (happened ev)" for ev using assms by (simp add: leaves_def run_free_def)
  have t: "leaves g (test_transaction env)"
    by (auto simp: test_transaction_def Let_def fail_rc_def o leaves_run_ts [OF assms] leaves_change_ts [OF assms])
  have r: "leaves g (real_transaction env)"
    unfolding real_transaction_def
    by (intro leaves_bind) (auto simp: TDNFSetOpenMax_def h leaves_run_ts [OF assms] leaves_change_ts [OF assms] split: sum.split)
  have p: "leaves g (reportProblems env)" by (rule leaves_reportProblems) (use assms in \<open>simp add: run_free_def\<close>)
  show ?thesis unfolding TDNFRunTransaction_def report_on_error_def
    by (intro leaves_bind leaves_catch) (auto simp: p t r split: sum.split)
qed

lemma history_callD: "history_call m s = Some (Inr x, t) \<Longrightarrow> m s = (Inr x, t)"
  by (auto simp: history_call_def split: prod.splits sum.splits herr.splits)

lemma on_history_ok:
  assumes "on_history m w = Some (Inr x, w')"
  obtains ctx ctx' where "rw_ctx w = Some ctx" "m ctx = Some (Inr x, ctx')" "w' = w\<lparr>rw_ctx := Some ctx'\<rparr>"
  using assms by (auto simp: on_history_def split: option.splits)

text \<open>What librpm and the history database are when a transaction begins, and what librpm shows at the end.\<close>

definition history_ready :: "rpm_view \<Rightarrow> conn option \<Rightarrow> bool" where
  "history_ready view db \<longleftrightarrow> (case history_ctx_of False db of Inl e \<Rightarrow> False
     | Inr ctx \<Rightarrow> faults (h_db ctx) = [] \<and> saved (h_db ctx) = None \<and> sync_ready view (cur (h_db ctx)))"

definition cookie_tells :: "rpm_view \<Rightarrow> rpm_view \<Rightarrow> bool" where
  "cookie_tells v v' \<longleftrightarrow> rv_cookie v' \<noteq> None \<and> distinct (rv_nevras v') \<and> (rv_cookie v' = rv_cookie v \<longrightarrow> set (rv_nevras v') = set (rv_nevras v))"

lemma update_state_now:
  assumes "ctx_ok ctx" and "h_cookie ctx = rv_cookie v" and "nevras_at (cur (h_db ctx)) (h_trans_id ctx) = set (rv_nevras v)"
    and "cookie_tells v v'" and "history_update_state v' cmd now ctx = (Inr (), ctx')"
  shows "saved (h_db ctx') = None \<and> log_ok (cur (h_db ctx'))
    \<and> nevras_at (cur (h_db ctx')) (last_trans (cur (h_db ctx'))) = set (rv_nevras v')"
proof -
  obtain cookie where c: "rv_cookie v' = Some cookie" using assms(4) by (auto simp: cookie_tells_def)
  obtain old where old: "h_cookie ctx = Some old" using assms(1) by (auto simp: ctx_ok_def)
  have ok: "log_ok (cur (h_db ctx))" "faults (h_db ctx) = []" "saved (h_db ctx) = None" "sorted (h_installed_ids ctx)"
    "distinct (h_installed_ids ctx)" "set (h_installed_ids ctx) = state_at (cur (h_db ctx)) (last_trans (cur (h_db ctx)))"
    and last: "h_trans_id ctx = last_trans (cur (h_db ctx))"
    using assms(1) by (auto simp: ctx_ok_def)
  show ?thesis
  proof (cases "old = cookie")
    case True
    then have "ctx' = ctx" using assms(5) c old by (simp add: history_update_state_def)
    moreover have "set (rv_nevras v') = set (rv_nevras v)" using assms(2,4) True c old by (simp add: cookie_tells_def)
    ultimately show ?thesis using assms(3) ok last by simp
  next
    case False
    have d: "distinct (rv_nevras v')" using assms(4) by (simp add: cookie_tells_def)
    obtain ctx2 where "history_update_state v' cmd now ctx = (Inr (), ctx2)" "ctx_ok ctx2"
      "nevras_at (cur (h_db ctx2)) (h_trans_id ctx2) = set (rv_nevras v')"
      using update_state_ctx [OF ok c old False d, of cmd now] by blast
    then show ?thesis using assms(5) by (simp add: ctx_ok_def)
  qed
qed

lemma run_with_history_ok:
  assumes "TDNFRunTransactionWithHistory env cmd w = Some (Inr (), w')" and "rw_ctx w = Some ctx"
    and "faults (h_db ctx) = []" and "saved (h_db ctx) = None" and "sync_ready (rw_view w) (cur (h_db ctx))"
    and "cookie_tells (rw_view w) (rw_view w')"
  shows "\<exists>ctx'. rw_ctx w' = Some ctx' \<and> saved (h_db ctx') = None \<and> log_ok (cur (h_db ctx'))
    \<and> nevras_at (cur (h_db ctx')) (last_trans (cur (h_db ctx'))) = set (rv_nevras (rw_view w'))"
proof -
  from assms(1) obtain v u where s: "on_history (history_call (history_sync (rw_view w) (fs_now w))) w = Some (Inr (), v)"
    and run: "TDNFRunTransaction env v = Some (Inr (), u)"
    and upd: "on_history (history_call (history_update_state (rw_view u) cmd (fs_now u))) u = Some (Inr (), w')"
    by (auto simp: TDNFRunTransactionWithHistory_def bindP_ok)
  from s assms(2) obtain ctx1 where c1: "history_sync (rw_view w) (fs_now w) ctx = (Inr (), ctx1)" "v = w\<lparr>rw_ctx := Some ctx1\<rparr>"
    by (elim on_history_ok) (auto dest: history_callD)
  note sync = history_sync_ok [OF assms(5,3,4) c1(1)]
  have "rw_ctx u = rw_ctx v" by (rule leavesD [OF leaves_RunTransaction run]) (simp add: run_free_def out_free_def)
  then have u: "rw_ctx u = Some ctx1" using c1(2) by simp
  from upd u obtain ctx2 where c2: "history_update_state (rw_view u) cmd (fs_now u) ctx1 = (Inr (), ctx2)" "w' = u\<lparr>rw_ctx := Some ctx2\<rparr>"
    by (elim on_history_ok) (auto dest: history_callD)
  have "cookie_tells (rw_view w) (rw_view u)" using assms(6) c2(2) by simp
  from update_state_now [OF _ _ _ this c2(1)] sync have "saved (h_db ctx2) = None \<and> log_ok (cur (h_db ctx2))
    \<and> nevras_at (cur (h_db ctx2)) (last_trans (cur (h_db ctx2))) = set (rv_nevras (rw_view u))" by blast
  then show ?thesis using c2(2) by simp
qed

lemma finally_cases:
  assumes "finally_close (finally_cleanup env m) w = Some (Inr (), w')"
  obtains v u where "m w = Some (Inr (), v)" "TDNFRpmCleanupTS env v = Some (Inr (), u)" "close_history u = Some (Inr (), w')"
  using assms
  by (auto simp: finally_close_def finally_cleanup_def bindP_def catch_error_def split: option.splits sum.splits)

lemma exec_history_ok:
  assumes "\<not> ta_nDownloadOnly (te_args env)" and "\<not> ta_nTestOnly (te_args env)"
    and "TDNFRpmCreateTS env info w0 = Some (Inr (), w)" and "history_ready (rw_view w) (rw_db w)"
    and "TDNFAlterCommand env info w0 = Some (Inr (), w')" and "cookie_tells (rw_view w) (rw_view w')"
  shows "\<exists>c. rw_db w' = Some c \<and> log_ok (cur c) \<and> nevras_at (cur c) (last_trans (cur c)) = set (rv_nevras (rw_view w'))"
proof -
  obtain v u where m: "bindP (open_history False) (\<lambda>_.
              bindP (liftR (command_line (te_args env))) (\<lambda>pszCmdLine.
              bindP (TDNFRunTransactionWithHistory env pszCmdLine) (\<lambda>_.
                on_history (TDNFMarkAutoInstalled info False)))) w = Some (Inr (), v)"
    and clean: "TDNFRpmCleanupTS env v = Some (Inr (), u)" and cl: "close_history u = Some (Inr (), w')"
    using assms(1-3,5) by (auto simp: TDNFAlterCommand_def TDNFRpmExecTransaction_def bindP_ok elim!: finally_cases)
  from m obtain w1 cmd w2 where o: "open_history False w = Some (Inr (), w1)"
    and run: "TDNFRunTransactionWithHistory env cmd w1 = Some (Inr (), w2)"
    and mark: "on_history (TDNFMarkAutoInstalled info False) w2 = Some (Inr (), v)"
    by (auto simp: bindP_ok)
  from o assms(4) obtain ctx where ctx: "w1 = w\<lparr>rw_ctx := Some ctx\<rparr>" "faults (h_db ctx) = []" "saved (h_db ctx) = None"
    "sync_ready (rw_view w) (cur (h_db ctx))"
    by (auto simp: open_history_def history_ready_def split: sum.splits)
  from mark obtain ctx2 ctx3 where c2: "rw_ctx w2 = Some ctx2" "TDNFMarkAutoInstalled info False ctx2 = Some (Inr (), ctx3)"
    "v = w2\<lparr>rw_ctx := Some ctx3\<rparr>" by (elim on_history_ok) auto
  have "rw_view u = rw_view v" "rw_ctx u = rw_ctx v"
    by (rule leavesD [OF leaves_cleanup clean]; simp add: files_free_def)+
  then have u: "rw_view u = rw_view w2" "rw_ctx u = Some ctx3" using c2(3) by simp_all
  then have w': "rw_db w' = Some (close_conn (h_db ctx3))" "rw_view w' = rw_view w2" using cl by (auto simp: close_history_def)
  have tells: "cookie_tells (rw_view w1) (rw_view w2)" using assms(6) w' ctx(1) by simp
  have w1: "rw_ctx w1 = Some ctx" "sync_ready (rw_view w1) (cur (h_db ctx))" using ctx by simp_all
  from run_with_history_ok [OF run w1(1) ctx(2,3) w1(2) tells] c2(1)
  have r: "saved (h_db ctx2) = None" "log_ok (cur (h_db ctx2))"
    "nevras_at (cur (h_db ctx2)) (last_trans (cur (h_db ctx2))) = set (rv_nevras (rw_view w2))" by auto
  note k = mark_keeps_log [OF c2(2)]
  have "cur (close_conn (h_db ctx3)) = cur (h_db ctx3)" using k(1) r(1) by (simp add: close_conn_def durable_def)
  then show ?thesis using w' r k by simp
qed

text \<open>C9: A transaction that succeeds leaves a history whose last state is what librpm shows as installed, provided that the
  history could be read before and that the cookie of the rpm database tells contents apart; nothing of it is left
  uncommitted.\<close>

theorem AlterCommand_history:
  assumes "\<not> ta_nDownloadOnly (te_args env)" and "\<not> ta_nTestOnly (te_args env)"
    and "TDNFRpmCreateTS env info w0 = Some (Inr (), w)" and "history_ready (rw_view w) (rw_db w)"
    and "TDNFAlterCommand env info w0 = Some (Inr (), w')" and "cookie_tells (rw_view w) (rw_view w')"
  shows "\<exists>c. rw_db w' = Some c \<and> log_ok (cur c) \<and> nevras_at (cur c) (last_trans (cur c)) = set (rv_nevras (rw_view w'))"
  using exec_history_ok [OF assms] .

end
