(* ===== verification/Rpm_Sample.thy ===== *)
theory Rpm_Sample
  imports Rpm_History
begin

text \<open>
  A small upgrade, run through \<^verbatim>\<open>TDNFAlterCommand\<close>: one package that is already in the cache, an rpm database whose
  cookie changes with its contents, and no history before it.
\<close>

section \<open>The transaction\<close>

definition sample_header :: rpm_header where
  "sample_header = \<lparr>hd_name = ''p'', hd_evr = ''2'', hd_source = False\<rparr>"

definition sample_rpmlib :: rpmlib where
  "sample_rpmlib = \<lparr>rl_create = True, rl_vsflags = 0, rl_vfylevel = 1, rl_set_root = (\<lambda>_. 0), rl_set_cb = 0,
     rl_read = (\<lambda>ts t. (0, Some sample_header, Some [])), rl_pubkey = (\<lambda>t. None), rl_subkeys = (\<lambda>k. []),
     rl_add_key = (\<lambda>k kr. (1, kr)), rl_parse = (\<lambda>t. (0, if t = [] then None else Some t)), rl_import = (\<lambda>p ts v. (0, ts_keyring ts, v)),
     rl_verify = (\<lambda>ts t. 0), rl_install_source = (\<lambda>ts t. 0), rl_add = (\<lambda>ts el. 0), rl_label = (\<lambda>v s. []),
     rl_order = (\<lambda>ts. (0, ts_elements ts)), rl_check = (\<lambda>ts v. (0, [])),
     rl_run = (\<lambda>ts filters open v. (0, [], if ts_flags ts = RPMTRANS_FLAG_TEST then v
        else \<lparr>rv_cookie = Some ''c2'', rv_nevras = [''p-2'']\<rparr>)),
     rl_vercmp = (\<lambda>a b. 0), rl_evp = (\<lambda>h t. EVP_OK (replicate 64 7))\<rparr>"

definition sample_upgrade :: solved_pkg_info where
  "sample_upgrade = sample_solved\<lparr>pPkgsToInstall := [], pPkgsToUpgrade := [(sample_installed_pkg ''p'')
     \<lparr>pi_pszLocation := Some ''/c/p'', pi_checksum := Some (0, replicate 16 7), pi_dwDownloadSizeBytes := 3\<rparr>]\<rparr>"

definition sample_trans_args :: trans_args where
  "sample_trans_args = \<lparr>ta_nNoGPGCheck = False, ta_nTestOnly = False, ta_nDownloadOnly = False, ta_nJsonOutput = False,
     ta_nQuiet = True, ta_nAssumeYes = True, ta_nAssumeNo = False, ta_pszDownloadDir = None, ta_pszInstallRoot = None,
     ta_pSetOpt = [], ta_ppszArgv = [''tdnf'', ''upgrade'']\<rparr>"

definition sample_trans_env :: trans_env where
  "sample_trans_env = \<lparr>te_lib = sample_rpmlib, te_net = net_env\<lparr>de_pConf := (de_pConf net_env)\<lparr>cf_nOpenMax := 0\<rparr>\<rparr>,
     te_args = sample_trans_args, te_sys = sample_system, te_fddup = True\<rparr>"

definition sample_rpm_world :: rpm_world where
  "sample_rpm_world = \<lparr>fs_nodes = [([''c''], Dir), ([''c'', ''p''], File ''rpm'' 1)], fs_deny = (\<lambda>_ _. 0), fs_now = 5,
     nt_tries = 0, nt_log = [], mw_repos = [], mw_nRefresh = False, mw_pool = [],
     rw_ts = fresh_ts sample_rpmlib, rw_view = \<lparr>rv_cookie = Some ''c1'', rv_nevras = [''p-1'']\<rparr>, rw_events = [],
     rw_stdin = [], rw_out = [], rw_pCachedRpms = [], rw_nTransFlags = 0, rw_nProbFilterFlags = 0, rw_db = None, rw_ctx = None\<rparr>"

definition sample_created :: rpm_world where
  "sample_created = sample_rpm_world\<lparr>rw_ts := (fresh_ts sample_rpmlib)\<lparr>ts_elements := [Install sample_header ''/c/p'' True],
     ts_keyring := Some []\<rparr>, rw_pCachedRpms := [''/c/p''], rw_nProbFilterFlags := RPMPROB_FILTER_OLDPACKAGE\<rparr>"

definition silent_env :: trans_env where
  "silent_env = sample_trans_env\<lparr>te_lib := sample_rpmlib\<lparr>rl_parse := (\<lambda>t. (0, None))\<rparr>\<rparr>"

lemma sample_key_file:
  "ReadGPGKeyFile sample_trans_env ''/c/p'' sample_rpm_world = Some (Inr ''rpm'', sample_rpm_world)"
  "ReadGPGKeyFile silent_env ''/c/p'' sample_rpm_world = Some (Inr ''rpm'', sample_rpm_world)"
proof -
  have n: "node_at sample_rpm_world (resolve ''/c/p'') = Some (File ''rpm'' 1)" "fs_deny sample_rpm_world c q = 0" for c q
    by (simp_all add: node_at_def sample_rpm_world_def resolve_def)
  show "ReadGPGKeyFile sample_trans_env ''/c/p'' sample_rpm_world = Some (Inr ''rpm'', sample_rpm_world)"
    "ReadGPGKeyFile silent_env ''/c/p'' sample_rpm_world = Some (Inr ''rpm'', sample_rpm_world)"
    by (simp_all add: ReadGPGKeyFile_def TDNFIsDir_def TDNFFileReadAllText_def files_system_def bindP_def sys_open_def stat_path_def n)
qed

theorem ImportGPGKeyFile_ends_witness:
  "TDNFImportGPGKeyFile sample_trans_env ''/c/p'' sample_rpm_world \<noteq> None
     \<and> TDNFImportGPGKeyFile silent_env ''/c/p'' sample_rpm_world = None"
proof -
  have "parser_ok (te_lib sample_trans_env)" "parser_ok (te_lib silent_env)"
    by (simp_all add: parser_ok_def sample_trans_env_def silent_env_def sample_rpmlib_def)
  note ends = ImportGPGKeyFile_ends [OF this(1) sample_key_file(1)] ImportGPGKeyFile_ends [OF this(2) sample_key_file(2)]
  have "rl_parse (te_lib sample_trans_env) ''rpm'' = (0, Some ''rpm'')" "rl_parse (te_lib silent_env) ''rpm'' = (0, None)"
    by (simp_all add: sample_trans_env_def silent_env_def sample_rpmlib_def)
  then have "TDNFImportGPGKeyFile sample_trans_env ''/c/p'' sample_rpm_world \<noteq> None"
    "\<not> TDNFImportGPGKeyFile silent_env ''/c/p'' sample_rpm_world \<noteq> None"
    by (simp_all only: ends) simp_all
  then show ?thesis by blast
qed

lemma sample_repo_found: "TDNFFindRepoById (de_pRepos (te_net sample_trans_env)) ''r'' = Inr net_repo"
  by (simp add: sample_trans_env_def net_env_def net_repo_def TDNFFindRepoById_def repo_defaults_def)

lemma sample_package:
  "TDNFTransAddInstallPkg sample_trans_env (hd (pPkgsToUpgrade sample_upgrade)) net_repo INSTALL_UPGRADE
     (sample_rpm_world\<lparr>rw_pCachedRpms := [], rw_nProbFilterFlags := RPMPROB_FILTER_OLDPACKAGE\<rparr>) = Some (Inr (), sample_created)"
proof -
  let ?w = "sample_rpm_world\<lparr>rw_pCachedRpms := [], rw_nProbFilterFlags := RPMPROB_FILTER_OLDPACKAGE\<rparr>"
  have n: "node_at ?w [''c'', ''p''] = Some (File ''rpm'' 1)" by (simp add: node_at_def sample_rpm_world_def)
  have r: "resolve ''/c/p'' = [''c'', ''p'']" by (simp add: resolve_def)
  have o: "sys_open ''/c/p'' ?w = Inr ''rpm''" "sys_access ''/c/p'' ?w = 0" "stat_path ''/c/p'' ?w = Inr (File ''rpm'' 1)"
    using n by (simp_all add: sys_open_def sys_access_def stat_path_def r) (simp_all add: sample_rpm_world_def)
  have f: "package_file sample_trans_env (hd (pPkgsToUpgrade sample_upgrade)) net_repo ?w = Some (Inr ''/c/p'', ?w)"
    by (simp add: package_file_def sample_upgrade_def TDNFAllocateString_def TDNF_DEFAULT_MAX_STRING_LEN_def)
  have d: "check_digest sample_rpmlib ''/c/p'' (Some (0, replicate 16 7)) ?w = Some (Inr (), ?w)"
    by (simp add: check_digest_def hash_ops_def TDNFGetDigestForFile_def open_text_def bindP_def o digest_error_def sample_rpmlib_def)
  have z: "check_size ''/c/p'' 3 ?w = Some (Inr (), ?w)"
    by (simp add: check_size_def TDNFGetFileSize_def o file_size_def bindP_def)
  have g: "TDNFGetGPGSignatureCheck sample_trans_env net_repo False = Inr (True, [])"
    by (simp add: TDNFGetGPGSignatureCheck_def sample_trans_env_def sample_trans_args_def TDNFGetSkipSignatureOption_def has_setopt_def
        net_repo_def repo_defaults_def)
  have k: "TDNFGPGCheckPackage sample_trans_env net_repo ''/c/p'' ?w
      = Some (Inr (Some sample_header), ?w\<lparr>rw_ts := (fresh_ts sample_rpmlib)\<lparr>ts_keyring := Some []\<rparr>\<rparr>)"
    by (simp add: TDNFGPGCheckPackage_def g bindP_def open_text_def o read_package_def)
      (simp add: sample_trans_env_def sample_rpmlib_def sample_rpm_world_def)
  have c: "TDNFGetGPGCheck sample_trans_env (rp_pszId net_repo) = Inr True"
    by (simp add: TDNFGetGPGCheck_def sample_trans_env_def sample_trans_args_def net_env_def net_repo_def TDNFGetRepoById_def repo_defaults_def)
  have e: "te_lib sample_trans_env = sample_rpmlib" "cf_pszCacheDir (de_pConf (te_net sample_trans_env)) = Some ''/c''"
    by (simp_all add: sample_trans_env_def net_env_def)
  have h: "hd_source sample_header = False" by (simp add: sample_header_def)
  have i: "pi_checksum (hd (pPkgsToUpgrade sample_upgrade)) = Some (0, replicate 16 7)"
    "pi_dwDownloadSizeBytes (hd (pPkgsToUpgrade sample_upgrade)) = 3" by (simp_all add: sample_upgrade_def)
  have u: "rl_add sample_rpmlib ts el = 0" for ts el by (simp add: sample_rpmlib_def)
  show ?thesis
    by (simp add: TDNFTransAddInstallPkg_def bindP_def f o e i c h d z k u add_package_def add_element_def
        install_element_def rpm_rc_def remember_cached_def Let_def)
      (simp add: sample_created_def sample_rpm_world_def fresh_ts_def)
qed

lemma sample_create: "TDNFRpmCreateTS sample_trans_env sample_upgrade sample_rpm_world = Some (Inr (), sample_created)"
proof -
  let ?w = "sample_rpm_world\<lparr>rw_pCachedRpms := [], rw_nProbFilterFlags := RPMPROB_FILTER_OLDPACKAGE\<rparr>"
  define p where "p = hd (pPkgsToUpgrade sample_upgrade)"
  have s: "pPkgsToUpgrade sample_upgrade = [p]" "pi_pszRepoName p = ''r''"
    by (simp_all add: p_def sample_upgrade_def sample_installed_pkg_def)
  have l: "pPkgsToInstall sample_upgrade = []" "pPkgsToReinstall sample_upgrade = []" "pPkgsToRemove sample_upgrade = []"
    "pPkgsObsoleted sample_upgrade = []" "pPkgsToDowngrade sample_upgrade = []"
    by (simp_all add: sample_upgrade_def sample_solved_def)
  have "add_install_pkgs sample_trans_env INSTALL_UPGRADE [p] ?w = Some (Inr (), sample_created)"
    using sample_package [folded p_def] by (simp add: s sample_repo_found bindP_def liftR_def)
  then have a: "TDNFTransAddInstallPkgs sample_trans_env (pPkgsToUpgrade sample_upgrade) INSTALL_UPGRADE ?w = Some (Inr (), sample_created)"
    using s(1) by (simp add: TDNFTransAddInstallPkgs_def unless_no_data_def bindP_def catch_error_def del: add_install_pkgs.simps)
  have "TDNFPopulateTransaction sample_trans_env sample_upgrade ?w = Some (Inr (), sample_created)"
    using a s(1) by (simp add: TDNFPopulateTransaction_def l bindP_def)
  moreover have "te_lib sample_trans_env = sample_rpmlib" "ta_pSetOpt (te_args sample_trans_env) = []" "rl_create sample_rpmlib"
    "rl_set_root sample_rpmlib x = 0" "rl_set_cb sample_rpmlib = 0" for x
    by (simp_all add: sample_trans_env_def sample_rpmlib_def sample_trans_args_def)
  moreover have "sample_rpm_world\<lparr>rw_ts := fresh_ts sample_rpmlib, rw_pCachedRpms := [],
      rw_nProbFilterFlags := RPMPROB_FILTER_OLDPACKAGE, rw_nTransFlags := RPMTRANS_FLAG_NONE\<rparr> = ?w"
    by (simp add: sample_rpm_world_def RPMTRANS_FLAG_NONE_def)
  ultimately show ?thesis
    by (simp add: TDNFRpmCreateTS_def cleanup_on_error_def bindP_def catch_error_def start_ts_def Let_def l)
qed

lemma sample_all_checked: "all_checked sample_trans_env"
  by (simp add: all_checked_def sample_trans_env_def sample_trans_args_def has_setopt_def net_env_def net_repo_def repo_defaults_def)


lemma sample_cache_dir: "cf_pszCacheDir (de_pConf (te_net sample_trans_env)) = Some ''/c''"
  by (simp add: sample_trans_env_def net_env_def)

lemma sample_cleanup:
  fixes w :: rpm_world
  assumes "rw_pCachedRpms w = [''/c/p'']" and "fs_nodes w = [([''c''], Dir), ([''c'', ''p''], File ''rpm'' 1)]" and "fs_deny w = (\<lambda>_ _. 0)"
  shows "TDNFRpmCleanupTS sample_trans_env w = Some (Inr (), w\<lparr>fs_nodes := [([''c''], Dir)], rw_pCachedRpms := []\<rparr>)"
proof -
  have r: "resolve ''/c/p'' = [''c'', ''p'']" by (simp add: resolve_def)
  have "sys_unlink ''/c/p'' w = (0, w\<lparr>fs_nodes := [([''c''], Dir)]\<rparr>)"
    using assms by (simp add: sys_unlink_def r Let_def node_at_def del_node_def)
  then show ?thesis
    using assms(1) by (simp add: TDNFRpmCleanupTS_def bindP_def catchP_def sysP_def sample_trans_env_def net_env_def conf_defaults_def
        sample_trans_args_def)
qed


definition sample_view :: rpm_view where
  "sample_view = \<lparr>rv_cookie = Some ''c2'', rv_nevras = [''p-2'']\<rparr>"

definition sample_ran :: "history_ctx option \<Rightarrow> rpm_world" where
  "sample_ran c = sample_created\<lparr>rw_ctx := c, rw_view := sample_view, rw_events := [RAN RPMTRANS_FLAG_TEST 0, RAN 0 0]\<rparr>"

lemma sample_run: "TDNFRunTransaction sample_trans_env (sample_created\<lparr>rw_ctx := c\<rparr>) = Some (Inr (), sample_ran c)"
proof -
  have e: "te_lib sample_trans_env = sample_rpmlib" "te_args sample_trans_env = sample_trans_args"
    "cf_nOpenMax (de_pConf (te_net sample_trans_env)) = 0" by (simp_all add: sample_trans_env_def)
  have a: "ta_nJsonOutput sample_trans_args = False" "ta_nTestOnly sample_trans_args = False" "ta_nNoGPGCheck sample_trans_args = False"
    "TDNFGetSkipSignatureOption sample_trans_args = False" "TDNFGetSkipDigestOption sample_trans_args = False"
    by (simp_all add: sample_trans_args_def TDNFGetSkipSignatureOption_def TDNFGetSkipDigestOption_def has_setopt_def)
  have l: "rl_order sample_rpmlib ts = (0, ts_elements ts)" "rl_check sample_rpmlib ts v = (0, [])"
    "rl_run sample_rpmlib ts filters open v = (0, [], if ts_flags ts = RPMTRANS_FLAG_TEST then v else sample_view)"
    for ts v filters "open" by (simp_all add: sample_rpmlib_def sample_view_def)
  have n: "RPMTRANS_FLAG_TEST \<noteq> 0" by (simp add: RPMTRANS_FLAG_TEST_def)
  show ?thesis
    by (simp add: TDNFRunTransaction_def report_on_error_def catch_error_def bindP_def test_transaction_def real_transaction_def Let_def
        e a order_elements_def doCheck_def l fail_rc_def verify_flags_def run_ts_def)
      (simp add: sample_ran_def sample_created_def sample_rpm_world_def fresh_ts_def n RPMTRANS_FLAG_NONE_def)
qed

lemma sample_tests_only: "tests_only (te_lib sample_trans_env)"
  by (simp add: tests_only_def sample_trans_env_def sample_rpmlib_def)

theorem RunTransaction_tests_first_witness:
  "\<exists>mid. set mid \<subseteq> {SET_NOFILE 0} \<and> rw_view (sample_ran None) \<noteq> rw_view sample_created
     \<and> rw_events (sample_ran None) = rw_events sample_created @ RAN RPMTRANS_FLAG_TEST 0 # mid @ [RAN 0 0]"
proof -
  have c: "sample_created\<lparr>rw_ctx := None\<rparr> = sample_created" by (simp add: sample_created_def sample_rpm_world_def)
  have t: "ta_nTestOnly (te_args sample_trans_env) = False" "cf_nOpenMax (de_pConf (te_net sample_trans_env)) = 0"
    "rw_nTransFlags sample_created = 0"
    by (simp_all add: sample_trans_env_def sample_trans_args_def sample_created_def sample_rpm_world_def)
  have v: "rw_view (sample_ran None) \<noteq> rw_view sample_created"
    by (simp add: sample_ran_def sample_view_def sample_created_def sample_rpm_world_def)
  from RunTransaction_tests_first [OF sample_tests_only sample_run [of None]] v show ?thesis by (auto simp: c t)
qed

section \<open>Its history\<close>

definition fresh_ctx :: history_ctx where
  "fresh_ctx = \<lparr>h_db = empty_conn, h_installed_ids = [], h_cookie = None, h_trans_id = 0\<rparr>"

lemma fresh_ctx_opened: "history_ctx_of False None = Inr fresh_ctx"
  by (simp add: history_ctx_of_def create_history_ctx_def fresh_ctx_def empty_conn_def sql_simps)

lemma sample_history_ready: "history_ready (rw_view sample_created) (rw_db sample_created)"
  by (simp add: history_ready_def sample_created_def sample_rpm_world_def fresh_ctx_opened)
    (simp add: fresh_ctx_def empty_conn_def sync_ready_def fresh_db_def trans_list_def item_list_def rpm_rows_def dict_ok_def)

lemma sample_cookie: "cookie_tells (rw_view sample_created) sample_view"
  by (simp add: cookie_tells_def sample_view_def sample_created_def sample_rpm_world_def)

lemma sample_with_history:
  "\<exists>ctx. TDNFRunTransactionWithHistory sample_trans_env cmd (sample_created\<lparr>rw_ctx := Some fresh_ctx\<rparr>) = Some (Inr (), sample_ran (Some ctx))"
proof -
  let ?v = "rw_view sample_created"
  have r: "sync_ready ?v (cur (h_db fresh_ctx))" "faults (h_db fresh_ctx) = []" "saved (h_db fresh_ctx) = None"
    using sample_history_ready fresh_ctx_opened by (simp_all add: history_ready_def sample_created_def sample_rpm_world_def)
  obtain ctx1 where s: "history_sync ?v 5 fresh_ctx = (Inr (), ctx1)" and ok: "ctx_ok ctx1" "h_cookie ctx1 = rv_cookie ?v"
    using history_sync_ok [OF r surjective_pairing, of 5] by (metis prod.collapse)
  have old: "h_cookie ctx1 = Some ''c1''" using ok by (simp add: sample_created_def sample_rpm_world_def)
  have o: "log_ok (cur (h_db ctx1))" "faults (h_db ctx1) = []" "saved (h_db ctx1) = None" "sorted (h_installed_ids ctx1)"
    "distinct (h_installed_ids ctx1)" "set (h_installed_ids ctx1) = state_at (cur (h_db ctx1)) (last_trans (cur (h_db ctx1)))"
    using ok by (auto simp: ctx_ok_def)
  have c: "rv_cookie sample_view = Some ''c2''" "distinct (rv_nevras sample_view)" by (simp_all add: sample_view_def)
  obtain ctx2 where u: "history_update_state sample_view cmd 5 ctx1 = (Inr (), ctx2)"
    using update_state_ctx [OF o c(1) old _ c(2), of cmd 5] by auto
  have t: "fs_now sample_created = 5" "fs_now (sample_ran c) = 5" "rw_view (sample_ran c) = sample_view" "rw_ctx (sample_ran c) = c"
    "(sample_ran c)\<lparr>rw_ctx := d\<rparr> = sample_ran d" for c d
    by (simp_all add: sample_ran_def sample_created_def sample_rpm_world_def)
  show ?thesis
    by (intro exI [of _ ctx2])
      (simp add: TDNFRunTransactionWithHistory_def bindP_def on_history_def history_call_def s u t sample_run)
qed

theorem AlterCommand_history_witness:
  "\<exists>w'. TDNFAlterCommand sample_trans_env sample_upgrade sample_rpm_world = Some (Inr (), w')
     \<and> rw_view w' = sample_view \<and> (\<exists>c. rw_db w' = Some c \<and> nevras_at (cur c) (last_trans (cur c)) = {''p-2''})"
proof -
  have a: "ta_nDownloadOnly (te_args sample_trans_env) = False" "ta_nTestOnly (te_args sample_trans_env) = False"
    by (simp_all add: sample_trans_env_def sample_trans_args_def)
  obtain cmd where cmd: "command_line (te_args sample_trans_env) = Inr cmd"
    by (simp add: command_line_def sample_trans_env_def sample_trans_args_def TDNFJoinArrayToString_def)
  obtain ctx where h: "TDNFRunTransactionWithHistory sample_trans_env cmd (sample_created\<lparr>rw_ctx := Some fresh_ctx\<rparr>)
      = Some (Inr (), sample_ran (Some ctx))" using sample_with_history by blast
  have o: "open_history False sample_created = Some (Inr (), sample_created\<lparr>rw_ctx := Some fresh_ctx\<rparr>)"
    by (simp add: open_history_def sample_created_def sample_rpm_world_def fresh_ctx_opened)
  have m: "TDNFMarkAutoInstalled sample_upgrade False ctx = Some (Inr (), ctx)"
    by (simp add: TDNFMarkAutoInstalled_def sample_upgrade_def)
  let ?u = "(sample_ran (Some ctx))\<lparr>fs_nodes := [([''c''], Dir)], rw_pCachedRpms := []\<rparr>"
  have c: "TDNFRpmCleanupTS sample_trans_env (sample_ran (Some ctx)) = Some (Inr (), ?u)"
    by (rule sample_cleanup) (simp_all add: sample_ran_def sample_created_def sample_rpm_world_def)
  have s: "rw_ctx (sample_ran (Some ctx)) = Some ctx" "(sample_ran (Some ctx))\<lparr>rw_ctx := Some ctx\<rparr> = sample_ran (Some ctx)"
    "rw_ctx ?u = Some ctx" "rw_view ?u = sample_view" by (simp_all add: sample_ran_def)
  have run: "TDNFAlterCommand sample_trans_env sample_upgrade sample_rpm_world
      = Some (Inr (), ?u\<lparr>rw_ctx := None, rw_db := Some (close_conn (h_db ctx))\<rparr>)"
    by (simp add: TDNFAlterCommand_def TDNFRpmExecTransaction_def bindP_def sample_create finally_close_def finally_cleanup_def catch_error_def
        a o cmd h on_history_def s m c close_history_def)
  have t: "\<not> ta_nDownloadOnly (te_args sample_trans_env)" "\<not> ta_nTestOnly (te_args sample_trans_env)" using a by simp_all
  have k: "cookie_tells (rw_view sample_created) (rw_view (?u\<lparr>rw_ctx := None, rw_db := Some (close_conn (h_db ctx))\<rparr>))"
    using sample_cookie s by simp
  show ?thesis using AlterCommand_history [OF t sample_create sample_history_ready run k] run s by (simp add: sample_view_def)
qed

end
