(* ===== verification/Repo_Tree.thy ===== *)
theory Repo_Tree
  imports Repo_Metadata
begin

text \<open>
  The shape of the file system, an invariant of everything that tdnf does to it: above every file and directory there is
  a directory. With it a path that does not exist has nothing below.
\<close>

definition wf_tree :: "'z files_scheme \<Rightarrow> bool" where
  "wf_tree w \<longleftrightarrow> list_all (\<lambda>(k, _). node_at w (butlast k) = Some Dir) (fs_nodes w)"

lemma wf_tree_iff: "wf_tree w \<longleftrightarrow> (\<forall>k. node_at w k \<noteq> None \<longrightarrow> node_at w (butlast k) = Some Dir)"
proof -
  have "node_at w k \<noteq> None \<longleftrightarrow> k = [] \<or> k \<in> fst ` set (fs_nodes w)" for k
    using map_of_eq_None_iff [of "fs_nodes w" k] by (auto simp: node_at_def)
  then have "(\<forall>k. node_at w k \<noteq> None \<longrightarrow> node_at w (butlast k) = Some Dir)
      \<longleftrightarrow> (\<forall>k \<in> fst ` set (fs_nodes w). node_at w (butlast k) = Some Dir)" by auto
  then show ?thesis by (auto simp: wf_tree_def list_all_iff)
qed

lemma wf_treeD: "wf_tree w \<Longrightarrow> node_at w k \<noteq> None \<Longrightarrow> node_at w (butlast k) = Some Dir"
  by (simp add: wf_tree_iff)

lemma wf_tree_nodes: "fs_nodes w = fs_nodes v \<Longrightarrow> wf_tree w = wf_tree v"
proof -
  assume n: "fs_nodes w = fs_nodes v"
  then have "node_at w k = node_at v k" for k by (simp add: node_at_def)
  with n show ?thesis by (simp add: wf_tree_def)
qed

lemma wf_tree_same: "(\<And>k. node_at w k = node_at v k) \<Longrightarrow> wf_tree w = wf_tree v"
  by (simp add: wf_tree_iff)

text \<open>Nothing lies below a path that is not a directory.\<close>

lemma wf_below:
  assumes "wf_tree w" and "strict_prefix j k" and "node_at w k \<noteq> None"
  shows "node_at w j = Some Dir"
  using assms(2,3)
proof (induction k rule: rev_induct)
  case (snoc x k)
  then have "node_at w k = Some Dir" using wf_treeD [OF assms(1), of "k @ [x]"] by simp
  moreover have "j = k \<or> strict_prefix j k" using snoc.prems(1) by (auto simp: strict_prefix_def)
  ultimately show ?case using snoc.IH by auto
qed simp

lemma wf_missing_below: "wf_tree w \<Longrightarrow> node_at w j = None \<Longrightarrow> prefix j k \<Longrightarrow> node_at w k = None"
  using wf_below [of w j k] by (cases "node_at w k"; cases "j = k") (auto simp: strict_prefix_def)

section \<open>The calls\<close>

lemma wf_put:
  assumes "wf_tree w" and "node_at w (butlast k) = Some Dir" and "n = Dir \<or> node_at w k \<noteq> Some Dir"
  shows "wf_tree (put_node k n w)"
  unfolding wf_tree_iff
proof (intro allI impI)
  fix j assume j: "node_at (put_node k n w) j \<noteq> None"
  show "node_at (put_node k n w) (butlast j) = Some Dir"
  proof (cases "j = k")
    case True
    then show ?thesis using assms(2) by (cases k rule: rev_cases) (auto simp: node_at_put)
  next
    case False
    then have "node_at w (butlast j) = Some Dir" using j wf_treeD [OF assms(1), of j] by (auto simp: node_at_put split: if_splits)
    then show ?thesis using assms(3) by (auto simp: node_at_put)
  qed
qed

lemma wf_del:
  assumes "wf_tree w" and "\<And>j. butlast j = k \<Longrightarrow> j \<noteq> k \<Longrightarrow> node_at w j = None"
  shows "wf_tree (del_node k w)"
  unfolding wf_tree_iff
proof (intro allI impI)
  fix j assume j: "node_at (del_node k w) j \<noteq> None"
  then have "j = [] \<or> j \<noteq> k \<and> node_at w j \<noteq> None" by (auto simp: node_at_del split: if_splits)
  then show "node_at (del_node k w) (butlast j) = Some Dir"
    using wf_treeD [OF assms(1), of j] assms(2) [of j] by (auto simp: node_at_del)
qed

lemma wf_del_file: "wf_tree w \<Longrightarrow> node_at w k \<noteq> Some Dir \<Longrightarrow> wf_tree (del_node k w)"
  by (rule wf_del) (auto dest: wf_treeD)

lemma wf_mkdir: "wf_tree w \<Longrightarrow> wf_tree (snd (sys_mkdir p w))"
  by (auto simp: sys_mkdir_def Let_def intro!: wf_put split: option.split file_node.split)

lemma wf_create: "wf_tree w \<Longrightarrow> wf_tree (snd (sys_create p w))"
  by (auto simp: sys_create_def Let_def intro!: wf_put split: option.split file_node.split)

lemma create_makes_file:
  "fst (sys_create p w) = 0 \<Longrightarrow> resolve p \<noteq> [] \<and> node_at (snd (sys_create p w)) (butlast (resolve p)) = Some Dir
     \<and> node_at (snd (sys_create p w)) (resolve p) \<noteq> Some Dir"
  by (cases "resolve p" rule: rev_cases)
    (auto simp: sys_create_def Let_def node_at_put split: option.splits file_node.splits if_splits)

lemma wf_write: "wf_tree w \<Longrightarrow> fst (sys_create p w) = 0 \<Longrightarrow> wf_tree (write_file_text p t (snd (sys_create p w)))"
  using create_makes_file [of p w] by (auto simp: write_file_text_def intro!: wf_put wf_create)

lemma wf_rename:
  assumes "wf_tree w"
  shows "wf_tree (snd (sys_rename p q w))"
proof -
  have "wf_tree (del_node (resolve p) (put_node (resolve q) (File t c) w))"
    if "node_at w (resolve p) = Some (File t c)" "node_at w (resolve q) \<noteq> Some Dir"
      "node_at w (butlast (resolve q)) = Some Dir" for t c
    using that assms by (intro wf_del_file wf_put) (auto simp: node_at_put)
  with assms show ?thesis by (auto simp: sys_rename_def Let_def split: option.split file_node.split)
qed

lemma wf_unlink: "wf_tree w \<Longrightarrow> wf_tree (snd (sys_unlink p w))"
  by (auto simp: sys_unlink_def Let_def intro!: wf_del_file split: option.split file_node.split)

lemma wf_rmdir:
  assumes "wf_tree w"
  shows "wf_tree (snd (sys_rmdir p w))"
proof -
  have "wf_tree (del_node k w)" if empty: "\<not> list_ex (\<lambda>(k', _). strict_prefix k k') (fs_nodes w)" for k
  proof (rule wf_del [OF assms])
    fix j assume j: "butlast j = k" "j \<noteq> k"
    then have "strict_prefix k j" "j \<noteq> []" by (auto simp: strict_prefix_def prefixeq_butlast)
    with empty show "node_at w j = None"
      by (auto simp: node_at_def list_ex_iff map_of_eq_None_iff)
  qed
  with assms show ?thesis by (auto simp: sys_rmdir_def Let_def split: option.split file_node.split)
qed

lemma node_at_filter:
  "node_at (w\<lparr>fs_nodes := filter (\<lambda>(k', _). P k') (fs_nodes w)\<rparr>) k = (if k = [] then Some Dir else if P k then node_at w k else None)"
proof -
  have "map_of (filter (\<lambda>(k', _). P k') xs) k = (if P k then map_of xs k else None)" for xs :: "(string list \<times> file_node) list"
    by (induction xs) auto
  then show ?thesis by (simp add: node_at_def)
qed

lemma wf_remove_tree:
  assumes "wf_tree w"
  shows "wf_tree (snd (sys_remove_tree p w))"
proof -
  have "wf_tree (w\<lparr>fs_nodes := filter (\<lambda>(k', _). \<not> (prefix k k' \<and> removable w k')) (fs_nodes w)\<rparr>)" (is "wf_tree ?v") for k
    unfolding wf_tree_iff
  proof (intro allI impI)
    fix j assume j: "node_at ?v j \<noteq> None"
    show "node_at ?v (butlast j) = Some Dir"
    proof (cases "j = [] \<or> butlast j = []")
      case False
      then have keep: "\<not> (prefix k j \<and> removable w j)" and "node_at w j \<noteq> None"
        using j by (auto simp: node_at_filter split: if_splits)
      then have "node_at w (butlast j) = Some Dir" using wf_treeD [OF assms] by blast
      moreover have "\<not> (prefix k (butlast j) \<and> removable w (butlast j))"
      proof
        assume k: "prefix k (butlast j) \<and> removable w (butlast j)"
        then have "prefix k j" using prefix_order.trans prefixeq_butlast by blast
        moreover have "removable w j" using k False prefix_order.trans [OF prefixeq_butlast [of j]]
          by (auto simp: removable_def list_ex_iff)
        ultimately show False using keep by blast
      qed
      ultimately show ?thesis by (simp add: node_at_filter)
    qed auto
  qed
  with assms show ?thesis by (simp add: sys_remove_tree_def Let_def)
qed


section \<open>Steps that keep the tree\<close>

lemma stays_if: "stays P a \<Longrightarrow> stays P b \<Longrightarrow> stays P (if c then a else b)"
  by simp

lemma stays_option: "stays P a \<Longrightarrow> (\<And>x. stays P (f x)) \<Longrightarrow> stays P (case y of None \<Rightarrow> a | Some x \<Rightarrow> f x)"
  by (simp split: option.split)

lemma stays_sum: "(\<And>e. stays P (g e)) \<Longrightarrow> (\<And>x. stays P (f x)) \<Longrightarrow> stays P (case y of Inl e \<Rightarrow> g e | Inr x \<Rightarrow> f x)"
  by (simp split: sum.split)

lemma stays_list: "stays P a \<Longrightarrow> (\<And>x xs. stays P (f x xs)) \<Longrightarrow> stays P (case y of [] \<Rightarrow> a | x # xs \<Rightarrow> f x xs)"
  by (simp split: list.split)

lemma stays_pair: "(\<And>a b. stays P (f a b)) \<Longrightarrow> stays P (case y of (a, b) \<Rightarrow> f a b)"
  by (simp split: prod.split)

lemmas stays_intros = stays_bind stays_catch stays_if stays_option stays_sum stays_list stays_pair

lemma stays_nodes: "leaves fs_nodes m \<Longrightarrow> stays wf_tree m"
  using wf_tree_nodes by (fastforce simp: stays_def leaves_def)

lemma stays_tree_calls [simp]:
  "stays wf_tree (sysC (sys_mkdir p))" "stays wf_tree (sysP (sys_create p))" "stays wf_tree (sysC (sys_create p))"
  "stays wf_tree (sysP (sys_rename p q))" "stays wf_tree (sysP (sys_unlink p))" "stays wf_tree (sysC (sys_unlink p))"
  "stays wf_tree (sysC (sys_rmdir p))" "stays wf_tree (sysP (sys_remove_tree p))"
  by (auto simp: stays_def sysP_run wf_mkdir wf_create wf_rename wf_unlink wf_rmdir wf_remove_tree)

lemma stays_tree_read [simp]: "stays wf_tree (readP f)"
  by (simp add: stays_def)

lemma stays_tree_files [simp]:
  "stays wf_tree (TDNFUtilsMakeDir d)" "stays wf_tree (TDNFTouchFile d)" "stays wf_tree (TDNFRecursivelyRemoveDir d)"
  "stays wf_tree (TDNFReplaceFile d e)" "stays wf_tree (TDNFShouldSyncMetadata d i)" "stays wf_tree (remove_below s)"
  by (auto simp: TDNFUtilsMakeDir_def TDNFTouchFile_def TDNFRecursivelyRemoveDir_def TDNFReplaceFile_def TDNFShouldSyncMetadata_def
      remove_below_def split: sum.split)

lemma stays_tree_make_each: "stays wf_tree (make_each ds)"
  by (induction ds) auto

lemma stays_tree_make_dirs [simp]: "stays wf_tree (TDNFUtilsMakeDirs d)"
  by (auto simp: TDNFUtilsMakeDirs_def Let_def stays_tree_make_each)

lemma stays_tree_caches [simp]:
  "stays wf_tree (TDNFRepoRemoveCache c r)" "stays wf_tree (TDNFRemoveSolvCache c r)" "stays wf_tree (TDNFRemoveRpmCache c r)"
  "stays wf_tree (TDNFRemoveKeysCache c r)" "stays wf_tree (TDNFRemoveLastRefreshMarker c r)" "stays wf_tree (TDNFRemoveMirrorList c r)"
  "stays wf_tree (TDNFRemoveTmpRepodata s)" "stays wf_tree (TDNFRepoRemoveCacheDir c r)"
  by (auto simp: TDNFRepoRemoveCache_def TDNFRemoveSolvCache_def TDNFRemoveRpmCache_def TDNFRepoGetRpmCacheDir_def TDNFRemoveKeysCache_def
      TDNFRemoveLastRefreshMarker_def TDNFRemoveMirrorList_def TDNFRemoveRepoCacheFile_def TDNFRemoveTmpRepodata_def
      TDNFRepoRemoveCacheDir_def split: option.split)

text \<open>A transfer writes into the file that was created for it.\<close>

lemma wf_try_step:
  assumes "wf_tree w" and run: "try_loop cu opts tmp (Suc n) w = Some (r, w')"
  shows "wf_tree w' \<or> (\<exists>opts' v. wf_tree v \<and> try_loop cu opts' tmp n v = Some (r, w'))"
proof (cases "fst (sys_create tmp w) = 0 \<and> (\<exists>opts'. set_opt cu curl_error (OPT_WRITEDATA tmp) opts = Inr opts')")
  case True
  then obtain opts' where o: "set_opt cu curl_error (OPT_WRITEDATA tmp) opts = Inr opts'" and c: "fst (sys_create tmp w) = 0" by blast
  let ?tr = "cu_perform cu (nt_tries (snd (sys_create tmp w))) opts'"
  have t: "wf_tree (write_file_text tmp (tr_text ?tr) (snd (sys_create tmp w))\<lparr>nt_tries := a, nt_log := b\<rparr>)" for a b
    using wf_write [OF assms(1) c, of "tr_text ?tr"] by (subst wf_tree_nodes) (simp_all add: write_file_text_def put_node_def)
  obtain v where "wf_tree v" and "w' = v \<or> try_loop cu opts' tmp n v = Some (r, w')"
    using run t by (auto simp: bindP_def sysP_run c o curl_easy_perform_def Let_def split: if_splits)
  then show ?thesis by blast
next
  case False
  then have "w' = snd (sys_create tmp w)"
    using run by (cases "set_opt cu curl_error (OPT_WRITEDATA tmp) opts") (auto simp: bindP_def sysP_run split: if_splits)
  then show ?thesis using wf_create [OF assms(1)] by simp
qed

lemma wf_try_loop: "try_loop cu opts tmp n w = Some (r, w') \<Longrightarrow> wf_tree w \<Longrightarrow> wf_tree w'"
proof (induction n arbitrary: opts w)
  case (Suc n)
  from wf_try_step [OF Suc.prems(2,1)] Suc.IH show ?case by blast
qed simp

lemma stays_tree_try_loop: "stays wf_tree (try_loop cu opts tmp n)"
  by (auto simp: stays_def dest: wf_try_loop)

lemma stays_tree_download [simp]: "stays wf_tree (TDNFDownloadFile env r url dst pd)"
  by (auto simp: TDNFDownloadFile_def unlink_on_error_def move_download_def stays_tree_try_loop split: sum.split)

lemma stays_tree_mirrors: "stays wf_tree (try_mirrors env r us loc dst pd e)"
  by (induction us arbitrary: e) (auto split: sum.split)

lemma stays_tree_from_repo [simp]: "stays wf_tree (TDNFDownloadFileFromRepo env r loc dst pd)"
  by (auto simp: TDNFDownloadFileFromRepo_def stays_tree_mirrors simp del: try_mirrors.simps split: option.split list.split)

lemma stays_tree_package [simp]: "stays wf_tree (TDNFDownloadPackage env loc name r dir)"
  by (auto simp: TDNFDownloadPackage_def split: option.split prod.split)

lemma stays_tree_normal [simp]: "stays wf_tree (normal_path p)" "stays wf_tree (ensure_dir p)"
  by (auto simp: normal_path_def ensure_dir_def)

lemma stays_tree_packages [simp]:
  "stays wf_tree (TDNFDownloadPackageToTree env loc name r dir)" "stays wf_tree (TDNFDownloadPackageToCache env loc name r)"
  "stays wf_tree (TDNFDownloadPackageToDirectory env loc name r dir)" "stays wf_tree (TDNFFetchRemoteGPGKey env r url)"
  by (auto simp: TDNFDownloadPackageToTree_def TDNFDownloadPackageToCache_def TDNFDownloadPackageToDirectory_def TDNFFetchRemoteGPGKey_def)


section \<open>Refreshing\<close>

lemma stays_tree_metadata [simp]:
  "stays wf_tree (TDNFDownloadRepoMDPart env r loc dst n)" "stays wf_tree (make_dirs_ok d)"
  "stays wf_tree (replace_repomd c r a b d)" "stays wf_tree (SolvCalculateCookieForFile sv p)" "stays wf_tree (TDNFParseRepoMD sv md)"
  by (auto simp: TDNFDownloadRepoMDPart_def make_dirs_ok_def replace_repomd_def ignoreP_def SolvCalculateCookieForFile_def
      TDNFParseRepoMD_def Let_def split: sum.split option.split)

lemma stays_tree_parts [simp]: "stays wf_tree (optional_part env r skip d p n)" "stays wf_tree (TDNFEnsureRepoMDParts env r rel)"
  by (auto simp: optional_part_def TDNFEnsureRepoMDParts_def Let_def)

lemma stays_tree_use [simp]: "stays wf_tree (use_repomd env r rel b)"
  by (auto simp: use_repomd_def split: sum.split)

lemma stays_tree_pool [simp]:
  "stays wf_tree (repo_create n)" "stays wf_tree (alter_last f)" "stays wf_tree (repo_add sv e ld)" "stays wf_tree repo_free"
  "stays wf_tree (repoP i)" "stays wf_tree (alter_repo i h)"
  by (auto intro!: stays_nodes simp: leaves_def repo_create_def alter_last_def repo_add_def repo_free_def repoP_def alter_repo_def
      errorP_def split: if_splits)

lemma stays_tree_load [simp]: "stays wf_tree (solv_load rd sv e mk p)"
  by (auto simp: solv_load_def split: option.split)

lemma stays_tree_when [simp]: "(\<And>x. stays wf_tree (h x)) \<Longrightarrow> stays wf_tree (whenSome y h)"
  by (auto simp: whenSome_def split: option.split)

lemma stays_tree_use_cache [simp]: "stays wf_tree (SolvUseMetaDataCache sv d n c)"
  unfolding SolvUseMetaDataCache_def by (intro stays_intros) simp_all

lemma stays_tree_add_solv [simp]: "stays wf_tree (SolvAddSolvMetaData sv p)"
  unfolding SolvAddSolvMetaData_def by (intro stays_intros) simp_all

lemma stays_tree_yum [simp]: "stays wf_tree (SolvReadYumRepo sv a b u v x)"
  unfolding SolvReadYumRepo_def SolvLoadRepomd_def SolvLoadRepomdPrimary_def SolvLoadRepomdFilelists_def
    SolvLoadRepomdUpdateinfo_def SolvLoadRepomdOther_def by (intro stays_intros) simp_all

text \<open>What is written into the temporary cache file is written right after the file was created.\<close>

lemma wf_write_new:
  assumes "wf_tree w" and "stays wf_tree (unlink_on_error q (f ()))" and c: "fst (sys_create p w) = 0"
    and run: "unlink_on_error q (bindP (readP h) (\<lambda>out. case out of None \<Rightarrow> errorP err' | Some t \<Rightarrow> bindP (write_new_file p (t @ c)) f))
       (snd (sys_create p w)) = Some (r, w')"
  shows "wf_tree w'"
proof (cases "h (snd (sys_create p w))")
  case None
  then have "w' = snd (sys_unlink q (snd (sys_create p w)))"
    using run by (simp add: unlink_on_error_def bindP_def catch_error_def)
  then show ?thesis using wf_create [OF assms(1)] wf_unlink by blast
next
  case (Some t)
  then have "unlink_on_error q (f ()) (write_file_text p (t @ c) (snd (sys_create p w))) = Some (r, w')"
    using run by (simp add: unlink_on_error_def bindP_def catch_error_def write_new_file_def)
  from staysD [OF assms(2) this] wf_write [OF assms(1) c] show ?thesis by blast
qed

lemma stays_tree_write:
  assumes "stays wf_tree (f ())"
  shows "stays wf_tree (bindP (sysC (sys_create p)) (\<lambda>e. if e \<noteq> 0 then errorP err
     else unlink_on_error q (bindP (readP h) (\<lambda>out. case out of None \<Rightarrow> errorP err' | Some t \<Rightarrow> bindP (write_new_file p (t @ c)) f))))"
proof -
  have stay: "stays wf_tree (unlink_on_error q (f ()))" using assms by (auto simp: unlink_on_error_def split: sum.split)
  show ?thesis by (subst stays_def) (auto simp: wf_create split: if_splits intro: wf_write_new [where f = f, OF _ stay])
qed

lemma stays_tree_create_cache [simp]: "stays wf_tree (SolvCreateMetaDataCache sv d n c)"
  unfolding SolvCreateMetaDataCache_def Let_def by (intro stays_bind stays_tree_write) auto


text \<open>Plugins that do not damage the tree.\<close>

definition events_keep :: "meta_env \<Rightarrow> bool" where
  "events_keep env \<longleftrightarrow> (\<forall>phase items. stays wf_tree (raise_md_event env phase items))"

lemma events_keep_none: "me_plugins env = [] \<Longrightarrow> events_keep env"
  unfolding events_keep_def by (intro allI stays_nodes leaves_event)

lemma stays_tree_ignore [simp]: "stays P m \<Longrightarrow> stays P (ignoreP m)"
  unfolding ignoreP_def by (intro stays_intros) simp_all

lemma stays_tree_remove_tmp: "stays wf_tree m \<Longrightarrow> stays wf_tree (remove_tmp d m)"
  unfolding remove_tmp_def by (intro stays_intros) simp_all

lemma stays_tree_mirror_list: "stays wf_tree (read_mirror_list env i)"
  unfolding read_mirror_list_def read_lines_def by (intro stays_intros) simp_all

lemma stays_tree_fetch: "events_keep env \<Longrightarrow> stays wf_tree (fetch_repomd env i d c)"
  unfolding fetch_repomd_def TDNFEventRepoMDDownloadEnd_def by (intro stays_intros) (simp_all add: events_keep_def)

lemma stays_tree_get_repomd: "events_keep env \<Longrightarrow> stays wf_tree (get_repomd env i r d)"
  unfolding get_repomd_def Let_def by (intro stays_intros stays_tree_remove_tmp) (simp_all add: stays_tree_fetch)

lemma stays_tree_GetRepoMD: "events_keep env \<Longrightarrow> stays wf_tree (TDNFGetRepoMD env i d)"
  unfolding TDNFGetRepoMD_def TDNFEventRepoMDDownloadStart_def
  by (intro stays_intros) (simp_all add: events_keep_def stays_tree_mirror_list stays_tree_get_repomd [unfolded events_keep_def])

lemma stays_tree_load_metadata: "stays wf_tree (load_metadata env r d md)"
  unfolding load_metadata_def TDNFInitRepoFromMetadata_def Let_def by (intro stays_intros) simp_all

lemma read_rpms_keeps:
  "read_rpms depth sv d w = Some (r, w') \<Longrightarrow> wf_tree w \<Longrightarrow> wf_tree w'"
  "read_rpm_names depth sv d ns w = Some (r, w') \<Longrightarrow> wf_tree w \<Longrightarrow> wf_tree w'"
proof (induction depth sv d w and depth sv d ns w arbitrary: r w' and r w' rule: read_rpms_read_rpm_names.induct)
  case (2 depth sv pszDir w)
  then show ?case by (auto split: sum.splits)
next
  case (4 depth sv pszDir n ns w)
  show ?case
  proof (cases "starts (CHR ''.'') n \<or> (\<exists>e. TDNFJoinPath [pszDir, n] = Inl e)")
    case True
    then show ?thesis using 4(1,6,7) by (cases "starts (CHR ''.'') n") auto
  next
    case False
    then obtain path where j: "\<not> starts (CHR ''.'') n" "TDNFJoinPath [pszDir, n] = Inr path" by (cases "TDNFJoinPath [pszDir, n]") auto
    show ?thesis
    proof (cases "stat_path (the path) w")
      case (Inl e)
      then show ?thesis using j 4(6,7) by simp
    next
      case (Inr node)
      note s = j Inr
      show ?thesis
      proof (cases node)
        case Dir
        note run = 4(6) [unfolded read_rpm_names.simps, simplified s Dir if_False sum.case file_node.case]
        show ?thesis
        proof (cases "read_rpms depth sv (the path) w")
          case None
          then show ?thesis using run by simp
        next
          case (Some y)
          obtain q v where y: "y = (q, v)" by (cases y)
          have v: "wf_tree v" using 4(2) [OF s(1,2,3)] Dir Some y 4(7) by simp
          show ?thesis
          proof (cases q)
            case (Inl e)
            then show ?thesis using run Some y v by simp
          next
            case (Inr u)
            then show ?thesis using run Some y v 4(3) [OF s(1,2,3) Dir Some y [symmetric] Inr] by simp
          qed
        qed
      next
        case (File t i)
        note run = 4(6) [unfolded read_rpm_names.simps, simplified s File if_False sum.case file_node.case]
        show ?thesis
        proof (cases "length n < 4 \<or> drop (length n - 4) n \<noteq> ''.rpm''")
          case True
          then show ?thesis using run 4(4) [OF s(1,2,3) File] 4(7) by (cases "length n < 4") simp_all
        next
          case False
          show ?thesis
          proof (cases "repo_add sv ERROR_TDNF_INVALID_PARAMETER (LoadRpm (the path)) w")
            case None
            then show ?thesis using run False by simp
          next
            case (Some y)
            obtain q v where y: "y = (q, v)" by (cases y)
            have v: "wf_tree v" using staysD [OF stays_tree_pool(3) Some [unfolded y] 4(7)] .
            show ?thesis
            proof (cases q)
              case (Inl e)
              then show ?thesis using run Some y v False by simp
            next
              case (Inr u)
              then show ?thesis using run Some y v False 4(5) [OF s(1,2,3) File] by simp
            qed
          qed
        qed
      qed
    qed
  qed
qed auto

lemma stays_tree_directory: "stays wf_tree (SolvReadRpmsFromDirectory sv d)"
  by (auto simp: SolvReadRpmsFromDirectory_def readRpmsFromDir_def stays_def errorP_def simp del: read_rpms.simps dest: read_rpms_keeps(1))

lemma stays_tree_init_repo: "events_keep env \<Longrightarrow> stays wf_tree (init_repo env i r)"
  unfolding init_repo_def free_on_error_def
  by (intro stays_intros) (simp_all add: stays_tree_GetRepoMD stays_tree_load_metadata stays_tree_directory)

lemma stays_tree_InitRepo: "events_keep env \<Longrightarrow> stays wf_tree (TDNFInitRepo env i)"
  unfolding TDNFInitRepo_def by (intro stays_intros) (simp_all add: stays_tree_init_repo)

lemma stays_tree_refresh_repos: "events_keep env \<Longrightarrow> stays wf_tree (refresh_repos env b js)"
  by (induction js) (simp_all add: refresh_repo_def expired_def stays_intros stays_tree_InitRepo)

lemma stays_tree_refresh: "events_keep env \<Longrightarrow> stays wf_tree (TDNFRefreshSack env b c)"
  using stays_tree_refresh_repos [of env b] wf_tree_nodes [of "w\<lparr>mw_nRefresh := True\<rparr>" w for w]
  by (simp add: stays_def TDNFRefreshSack_def Let_def) blast

end
