(* ===== verification/Api_Clean.thy ===== *)
theory Api_Clean
  imports Repo_Tree
begin

text \<open>
  \<^verbatim>\<open>tdnf clean\<close>: the parsing of its argument (\<^verbatim>\<open>tools/cli/lib/parsecleanargs.c\<close>), the command (\<^verbatim>\<open>tools/cli/lib/api.c\<close>)
  and TDNFClean of \<^verbatim>\<open>client/api.c\<close>, with exactly what it removes.
\<close>

section \<open>The kinds of caches\<close>

definition CLEANTYPE_NONE :: "32 word" where "CLEANTYPE_NONE = 0"
definition CLEANTYPE_PACKAGES :: "32 word" where "CLEANTYPE_PACKAGES = 1"
definition CLEANTYPE_METADATA :: "32 word" where "CLEANTYPE_METADATA = 2"
definition CLEANTYPE_DBCACHE :: "32 word" where "CLEANTYPE_DBCACHE = 4"
definition CLEANTYPE_PLUGINS :: "32 word" where "CLEANTYPE_PLUGINS = 8"
definition CLEANTYPE_EXPIRE_CACHE :: "32 word" where "CLEANTYPE_EXPIRE_CACHE = 16"
definition CLEANTYPE_KEYS :: "32 word" where "CLEANTYPE_KEYS = 32"
definition CLEANTYPE_ALL :: "32 word" where "CLEANTYPE_ALL = 255"

lemmas cleantypes = CLEANTYPE_NONE_def CLEANTYPE_PACKAGES_def CLEANTYPE_METADATA_def CLEANTYPE_DBCACHE_def CLEANTYPE_PLUGINS_def
  CLEANTYPE_EXPIRE_CACHE_def CLEANTYPE_KEYS_def CLEANTYPE_ALL_def

abbreviation (input) ERROR_TDNF_CLEAN_UNSUPPORTED :: errcode where "ERROR_TDNF_CLEAN_UNSUPPORTED \<equiv> 1016"
abbreviation (input) ERROR_TDNF_CLI_NO_MATCH :: errcode where "ERROR_TDNF_CLI_NO_MATCH \<equiv> 901"
abbreviation (input) ERROR_TDNF_CLI_CLEAN_REQUIRES_OPTION :: errcode where "ERROR_TDNF_CLI_CLEAN_REQUIRES_OPTION \<equiv> 903"

definition asked :: "32 word \<Rightarrow> 32 word \<Rightarrow> bool" where
  "asked nCleanType flag \<longleftrightarrow> and nCleanType flag \<noteq> 0"

definition stCleanTypes :: "(string \<times> 32 word) list" where
  "stCleanTypes = [(''packages'', CLEANTYPE_PACKAGES), (''metadata'', CLEANTYPE_METADATA), (''dbcache'', CLEANTYPE_DBCACHE),
     (''plugins'', CLEANTYPE_PLUGINS), (''keys'', CLEANTYPE_KEYS), (''expire-cache'', CLEANTYPE_EXPIRE_CACHE), (''all'', CLEANTYPE_ALL)]"

definition TDNFCliParseCleanType :: "string \<Rightarrow> 32 word result" where
  "TDNFCliParseCleanType pszCleanType =
     (case find (\<lambda>(name, _). strcaseeq name pszCleanType) stCleanTypes of
        None \<Rightarrow> Inl ERROR_TDNF_CLI_NO_MATCH | Some (_, t) \<Rightarrow> Inr t)"

definition TDNFCliParseCleanArgs :: "string list \<Rightarrow> 32 word result" where
  "TDNFCliParseCleanArgs ppszCmds =
     (if length ppszCmds = 1 then Inl ERROR_TDNF_CLI_CLEAN_REQUIRES_OPTION
      else if length ppszCmds > 1 then TDNFCliParseCleanType (ppszCmds ! 1) else Inr CLEANTYPE_NONE)"

section \<open>TDNFClean\<close>

definition stepIf :: "bool \<Rightarrow> ('w, unit) prog \<Rightarrow> ('w, unit) prog" where
  "stepIf b m = (if b then m else returnP ())"

text \<open>A cache directory that is not empty is kept.\<close>

definition remove_empty_cache :: "tdnf_conf \<Rightarrow> repo_data \<Rightarrow> ('z files_scheme, unit) prog" where
  "remove_empty_cache pConf pRepo = bindP (catch_error (TDNFRepoRemoveCacheDir pConf pRepo)) (\<lambda>r. case r of
     Inl e \<Rightarrow> if e = ERROR_TDNF_SYSTEM_BASE + ENOTEMPTY then returnP () else errorP e
   | Inr _ \<Rightarrow> returnP ())"

definition clean_repo :: "tdnf_conf \<Rightarrow> 32 word \<Rightarrow> repo_data \<Rightarrow> ('z files_scheme, unit) prog" where
  "clean_repo pConf nCleanType pRepo =
     bindP (stepIf (asked nCleanType CLEANTYPE_METADATA) (TDNFRepoRemoveCache pConf pRepo)) (\<lambda>_.
     bindP (stepIf (asked nCleanType CLEANTYPE_DBCACHE) (TDNFRemoveSolvCache pConf pRepo)) (\<lambda>_.
     bindP (stepIf (asked nCleanType CLEANTYPE_PACKAGES) (TDNFRemoveRpmCache pConf pRepo)) (\<lambda>_.
     bindP (stepIf (asked nCleanType CLEANTYPE_KEYS) (TDNFRemoveKeysCache pConf pRepo)) (\<lambda>_.
     bindP (stepIf (asked nCleanType CLEANTYPE_EXPIRE_CACHE)
        (bindP (TDNFRemoveLastRefreshMarker pConf pRepo) (\<lambda>_. TDNFRemoveMirrorList pConf pRepo))) (\<lambda>_.
       remove_empty_cache pConf pRepo)))))"

fun clean_repos :: "tdnf_conf \<Rightarrow> 32 word \<Rightarrow> repo_data list \<Rightarrow> ('z files_scheme, unit) prog" where
  "clean_repos pConf nCleanType [] = returnP ()"
| "clean_repos pConf nCleanType (pRepo # pRepos) =
     bindP (stepIf (rp_pszId pRepo \<noteq> CMDLINE_REPO_NAME) (clean_repo pConf nCleanType pRepo)) (\<lambda>_.
       clean_repos pConf nCleanType pRepos)"

definition TDNFClean :: "tdnf_conf \<Rightarrow> repo_data list \<Rightarrow> 32 word \<Rightarrow> ('z files_scheme, unit) prog" where
  "TDNFClean pConf pRepos nCleanType =
     (if nCleanType = CLEANTYPE_PLUGINS then errorP ERROR_TDNF_CLEAN_UNSUPPORTED else clean_repos pConf nCleanType pRepos)"

definition TDNFCliCleanCommand :: "tdnf_conf \<Rightarrow> repo_data list \<Rightarrow> string list \<Rightarrow> ('z files_scheme, unit) prog" where
  "TDNFCliCleanCommand pConf pRepos ppszCmds =
     bindP (liftR (TDNFCliParseCleanArgs ppszCmds)) (TDNFClean pConf pRepos)"

section \<open>The tree stays a tree\<close>

lemma stays_tree_clean_repo: "stays wf_tree (clean_repo c t r)"
  unfolding clean_repo_def remove_empty_cache_def stepIf_def by (intro stays_intros) simp_all

lemma stays_tree_clean: "stays wf_tree (TDNFCliCleanCommand c rs cmds)"
proof -
  have "stays wf_tree (clean_repos c t rs)" for t
    by (induction rs) (simp_all add: stepIf_def stays_intros stays_tree_clean_repo)
  then show ?thesis by (auto simp: TDNFCliCleanCommand_def TDNFClean_def)
qed

section \<open>Paths below the cache\<close>

definition parts :: "string \<Rightarrow> string list" where
  "parts p = filter (\<lambda>n. n \<noteq> []) (split_path p [])"

lemma resolve_parts: "resolve p = resolve_names (parts p) []"
proof -
  have "resolve_names ns ds = resolve_names (filter (\<lambda>n. n \<noteq> []) ns) ds" for ns ds
    by (induction ns ds rule: resolve_names.induct) auto
  then show ?thesis by (simp add: resolve_def parts_def)
qed

lemma parts_append: "parts (d @ CHR ''/'' # n) = parts d @ parts n"
  by (simp add: parts_def split_path_append)

lemma parts_slash [simp]: "parts (CHR ''/'' # n) = parts n" "parts [] = []"
  using parts_append [of "[]" n] by (simp_all add: parts_def)

lemma parts_lead: "parts (dropWhile is_slash d) = parts d"
  by (induction d) (auto simp: is_slash_def)

lemma parts_trail: "parts (strip_trailing_slashes d) = parts d"
proof (induction d rule: rev_induct)
  case (snoc c d)
  then show ?case using parts_append [of d "[]"] by (auto simp: strip_trailing_slashes_def is_slash_def)
qed (simp add: strip_trailing_slashes_def)

lemma parts_node: "parts (strip_node d) = parts d"
  by (simp add: strip_node_def parts_trail parts_lead)

lemma parts_join: "parts (intercalate ''/'' ns) = concat (map parts ns)"
proof (induction ns)
  case (Cons n ns)
  then show ?case by (cases "ns = []") (simp_all add: intercalate_Cons parts_append)
qed simp

lemma parts_plain: "plain_name n \<Longrightarrow> parts n = [n]"
  by (auto simp: plain_name_def parts_def split_path_plain)

lemma resolve_names_plain: "list_all plain_name ns \<Longrightarrow> resolve_names ns ds = rev ds @ ns"
  by (induction ns ds rule: resolve_names.induct) (auto simp: plain_name_def)

lemma resolve_join:
  assumes "TDNFJoinPath (d # ns) = Inr p" and "list_all plain_name ns"
  shows "resolve (path_or_empty p) = resolve d @ ns \<and> p \<noteq> None"
proof -
  from assms(1) obtain res len where r: "join_path_loop True ([], 0) (d # ns) = Inr (res, len)" and p: "p = Some res"
    by (auto simp: TDNFJoinPath_def bail_Inr_iff simp del: join_path_loop.simps)
  have "res = (if d \<noteq> [] \<and> is_slash (hd d) then ''/'' else []) @ intercalate ''/'' (map strip_node (d # ns))"
    using join_path_result [OF r] by simp
  then have "parts res = parts d @ concat (map parts ns)"
    using parts_join [of "map strip_node (d # ns)"] by (simp add: comp_def parts_node split: if_splits)
  also have "concat (map parts ns) = ns" using assms(2) by (induction ns) (simp_all add: parts_plain)
  finally have "resolve res = resolve_names (parts d @ ns) []" by (simp add: resolve_parts)
  then show ?thesis using assms(2) by (simp add: p path_or_empty_def resolve_names_append resolve_names_plain resolve_parts)
qed


section \<open>What is removed\<close>

definition cleaned_dirs :: "32 word \<Rightarrow> string list" where
  "cleaned_dirs t =
     (if asked t CLEANTYPE_METADATA then [''repodata''] else []) @ (if asked t CLEANTYPE_DBCACHE then [''solvcache''] else [])
     @ (if asked t CLEANTYPE_PACKAGES then [''rpms''] else []) @ (if asked t CLEANTYPE_KEYS then [''keys''] else [])"

definition cleaned_files :: "32 word \<Rightarrow> string list" where
  "cleaned_files t = (if asked t CLEANTYPE_EXPIRE_CACHE then [TDNF_REPO_METADATA_MARKER, ''mirrorlist''] else [])"

definition cache_dir_name :: "repo_data \<Rightarrow> string" where
  "cache_dir_name r = (case rp_pszCacheName r of Some n \<Rightarrow> n | None \<Rightarrow> rp_pszId r)"

definition cache_base :: "string \<Rightarrow> repo_data \<Rightarrow> string list" where
  "cache_base d r = resolve d @ [cache_dir_name r]"

text \<open>The paths that cleaning the caches of a repository is about.\<close>

definition cleaned :: "32 word \<Rightarrow> string list \<Rightarrow> string list \<Rightarrow> bool" where
  "cleaned t base k \<longleftrightarrow> list_ex (\<lambda>n. prefix (base @ [n]) k) (cleaned_dirs t) \<or> list_ex (\<lambda>n. k = base @ [n]) (cleaned_files t)"

text \<open>A change that removes the paths of a set, and perhaps some of another, and nothing else.\<close>

definition prunes :: "string list set \<Rightarrow> string list set \<Rightarrow> 'z files_scheme \<Rightarrow> 'z files_scheme \<Rightarrow> bool" where
  "prunes S B w w' \<longleftrightarrow> wf_tree w' \<and> fs_deny w' = fs_deny w
     \<and> (\<forall>k. node_at w' k = (if k \<in> S then None else node_at w k) \<or> k \<in> B \<and> k \<notin> S \<and> node_at w' k = None)"

lemma prunes_refl: "wf_tree w \<Longrightarrow> prunes {} {} w w"
  by (simp add: prunes_def)

lemma prunes_trans:
  assumes "prunes S B w v" and "prunes T C v w'"
  shows "prunes (S \<union> T) (B \<union> C) w w'"
proof -
  have "node_at w' k = (if k \<in> S \<union> T then None else node_at w k) \<or> k \<in> B \<union> C \<and> k \<notin> S \<union> T \<and> node_at w' k = None" for k
  proof -
    have "node_at v k = (if k \<in> S then None else node_at w k) \<or> k \<in> B \<and> k \<notin> S \<and> node_at v k = None"
      using assms(1) by (simp add: prunes_def)
    moreover have "node_at w' k = (if k \<in> T then None else node_at v k) \<or> k \<in> C \<and> k \<notin> T \<and> node_at w' k = None"
      using assms(2) by (simp add: prunes_def)
    ultimately show ?thesis by (cases "k \<in> S"; cases "k \<in> T") auto
  qed
  with assms show ?thesis by (simp add: prunes_def)
qed

lemma prunes_none: "wf_tree w \<Longrightarrow> (\<And>k. k \<in> S \<Longrightarrow> node_at w k = None) \<Longrightarrow> prunes S {} w w"
  by (simp add: prunes_def)

definition free_files :: "'z files_scheme \<Rightarrow> bool" where
  "free_files w \<longleftrightarrow> (\<forall>c k. fs_deny w c k = 0) \<and> wf_tree w"

lemma free_pruned: "free_files w \<Longrightarrow> prunes S B w w' \<Longrightarrow> free_files w'"
  by (simp add: free_files_def prunes_def)

lemma missing_enoent: "missing w k = ENOENT \<or> missing w k = ENOTDIR"
  by (simp add: missing_def)

lemma remove_tree_prunes:
  assumes "free_files w" and "resolve p \<noteq> []" and "fst (sys_remove_tree p w) = 0"
  shows "prunes {k. prefix (resolve p) k} {} w (snd (sys_remove_tree p w))"
proof -
  have w: "snd (sys_remove_tree p w) = w\<lparr>fs_nodes := filter (\<lambda>(k', _). \<not> (prefix (resolve p) k' \<and> removable w k')) (fs_nodes w)\<rparr>"
    using assms(3) by (auto simp: sys_remove_tree_def Let_def split: if_splits)
  have "removable w k" if "prefix (resolve p) k" for k
    using that assms(1,2) by (auto simp: removable_def free_files_def list_ex_iff)
  then show ?thesis
    using wf_remove_tree [of w p] assms(1,2) unfolding w prunes_def node_at_filter by (auto simp: free_files_def)
qed

lemma remove_below_prunes:
  assumes "free_files w" and "remove_below p w = Some (Inr (), w')" and "resolve (path_or_empty p) = b @ [n]"
  shows "prunes {k. prefix (b @ [n]) k} {} w w'"
proof -
  let ?p = "path_or_empty p"
  have run: "(if fst (sys_remove_tree ?p w) = 0 \<or> fst (sys_remove_tree ?p w) = ENOENT then w' = snd (sys_remove_tree ?p w) else False)"
    using assms(2,3) by (auto simp: remove_below_def bindP_def catch_error_def TDNFRecursivelyRemoveDir_def sysP_run resolve_def
        split: if_splits)
  show ?thesis
  proof (cases "fst (sys_remove_tree ?p w) = 0")
    case True
    with remove_tree_prunes [OF assms(1) _ True] run assms(3) show ?thesis by simp
  next
    case False
    then have "node_at w (b @ [n]) = None" "w' = w"
      using run assms(1,3) by (auto simp: sys_remove_tree_def Let_def free_files_def split: if_splits)
    then show ?thesis using wf_missing_below assms(1) by (auto intro!: prunes_none simp: free_files_def)
  qed
qed

lemma unlink_prunes:
  assumes "free_files w" and "fst (sys_unlink p w) = 0 \<or> fst (sys_unlink p w) = ENOENT" and "resolve p = b @ [n]"
  shows "prunes {b @ [n]} {} w (snd (sys_unlink p w))"
proof (cases "node_at w (b @ [n])")
  case None
  then show ?thesis using assms by (auto simp: sys_unlink_def Let_def free_files_def intro!: prunes_none)
next
  case (Some f)
  then have "snd (sys_unlink p w) = del_node (b @ [n]) w"
    using assms by (auto simp: sys_unlink_def Let_def free_files_def split: file_node.splits)
  then show ?thesis using wf_unlink [of w p] assms(1) by (auto simp: prunes_def node_at_del free_files_def)
qed

lemma rmdir_prunes: "free_files w \<Longrightarrow> resolve p = b \<Longrightarrow> prunes {} {b} w (snd (sys_rmdir p w))"
  using wf_rmdir [of w p] prunes_refl [of w]
  by (auto simp: sys_rmdir_def Let_def free_files_def prunes_def node_at_del split: option.splits file_node.splits)


lemma cache_path:
  assumes "TDNFGetCachePath c r sub None = Inr p" and "cf_pszCacheDir c = Some d" and "plain_name (cache_dir_name r)"
  shows "sub = Some n \<Longrightarrow> plain_name n \<Longrightarrow> resolve (path_or_empty p) = cache_base d r @ [n] \<and> p \<noteq> None"
    and "sub = None \<Longrightarrow> resolve (path_or_empty p) = cache_base d r \<and> p \<noteq> None"
proof -
  have j: "TDNFJoinPath (d # cache_dir_name r # until_null [sub, None]) = Inr p"
    using assms(1,2) by (simp add: TDNFGetCachePath_def cache_dir_name_def split: option.splits)
  show "sub = Some n \<Longrightarrow> plain_name n \<Longrightarrow> resolve (path_or_empty p) = cache_base d r @ [n] \<and> p \<noteq> None"
    using resolve_join [OF j] assms(3) by (simp add: cache_base_def)
  show "sub = None \<Longrightarrow> resolve (path_or_empty p) = cache_base d r \<and> p \<noteq> None"
    using resolve_join [OF j] assms(3) by (simp add: cache_base_def)
qed

lemma plain_names [simp]:
  "plain_name ''repodata''" "plain_name ''solvcache''" "plain_name ''rpms''" "plain_name ''keys''" "plain_name ''mirrorlist''"
  "plain_name TDNF_REPO_METADATA_MARKER"
  by (simp_all add: plain_name_def TDNF_REPO_METADATA_MARKER_def)

definition subtree :: "string list \<Rightarrow> string list set" where
  "subtree b = {k. prefix b k}"

lemma remove_caches_prune:
  assumes "free_files w" and "cf_pszCacheDir c = Some d" and "plain_name (cache_dir_name r)"
  shows "TDNFRepoRemoveCache c r w = Some (Inr (), w') \<Longrightarrow> prunes (subtree (cache_base d r @ [''repodata''])) {} w w'"
    "TDNFRemoveSolvCache c r w = Some (Inr (), w') \<Longrightarrow> prunes (subtree (cache_base d r @ [''solvcache''])) {} w w'"
    "TDNFRemoveKeysCache c r w = Some (Inr (), w') \<Longrightarrow> prunes (subtree (cache_base d r @ [''keys''])) {} w w'"
    "TDNFRemoveRpmCache c r w = Some (Inr (), w') \<Longrightarrow> prunes (subtree (cache_base d r @ [''rpms''])) {} w w'"
proof -
  have below: "prunes (subtree (cache_base d r @ [n])) {} w w'"
    if "TDNFGetCachePath c r (Some n) None = Inr p" "remove_below p w = Some (Inr (), w')" "plain_name n" for n p w'
    using remove_below_prunes [OF assms(1) that(2)] cache_path(1) [OF that(1) assms(2,3) refl that(3)] by (simp add: subtree_def)
  show "TDNFRepoRemoveCache c r w = Some (Inr (), w') \<Longrightarrow> prunes (subtree (cache_base d r @ [''repodata''])) {} w w'"
    "TDNFRemoveSolvCache c r w = Some (Inr (), w') \<Longrightarrow> prunes (subtree (cache_base d r @ [''solvcache''])) {} w w'"
    "TDNFRemoveKeysCache c r w = Some (Inr (), w') \<Longrightarrow> prunes (subtree (cache_base d r @ [''keys''])) {} w w'"
    by (auto simp: TDNFRepoRemoveCache_def TDNFRemoveSolvCache_def TDNFRemoveKeysCache_def bindP_ok liftR_def intro: below)
  assume "TDNFRemoveRpmCache c r w = Some (Inr (), w')"
  then obtain p where p: "TDNFGetCachePath c r (Some ''rpms'') None = Inr p"
    and run: "if sys_access (the p) w = 0 then (if IsNullOrEmptyString p then w' = w else remove_below p w = Some (Inr (), w'))
      else sys_access (the p) w = ENOENT \<and> w' = w"
    by (auto simp: TDNFRemoveRpmCache_def TDNFRepoGetRpmCacheDir_def bindP_ok liftR_def split: if_splits)
  have q: "resolve (the p) = cache_base d r @ [''rpms'']" "\<not> IsNullOrEmptyString p"
    using cache_path(1) [OF p assms(2,3) refl] by (auto simp: path_or_empty_def resolve_def)
  show "prunes (subtree (cache_base d r @ [''rpms''])) {} w w'"
  proof (cases "sys_access (the p) w = 0")
    case True
    then show ?thesis using run q(2) below [OF p] by simp
  next
    case False
    then have "node_at w (cache_base d r @ [''rpms'']) = None" "w' = w"
      using run q(1) assms(1) by (auto simp: sys_access_def free_files_def split: if_splits)
    then show ?thesis using wf_missing_below assms(1) by (auto intro!: prunes_none simp: free_files_def subtree_def)
  qed
qed

lemma remove_file_prunes:
  assumes "free_files w" and "cf_pszCacheDir c = Some d" and "plain_name (cache_dir_name r)" and "plain_name n"
    and "TDNFRemoveRepoCacheFile c r n w = Some (Inr (), w')"
  shows "prunes {cache_base d r @ [n]} {} w w'"
proof -
  obtain p where p: "TDNFGetCachePath c r (Some n) None = Inr p"
    using assms(5) by (cases "TDNFGetCachePath c r (Some n) None") (auto simp: TDNFRemoveRepoCacheFile_def)
  then obtain q where q: "p = Some q" "resolve q = cache_base d r @ [n]"
    using cache_path(1) [OF p assms(2,3) refl assms(4)] by (auto simp: path_or_empty_def)
  then have "fst (sys_unlink q w) = 0 \<or> fst (sys_unlink q w) = ENOENT" "w' = snd (sys_unlink q w)"
    using assms(5) p by (auto simp: TDNFRemoveRepoCacheFile_def split: if_splits)
  with unlink_prunes [OF assms(1)] q(2) show ?thesis by blast
qed

lemma remove_dir_prunes:
  assumes "free_files w" and "cf_pszCacheDir c = Some d" and "plain_name (cache_dir_name r)"
    and "TDNFRepoRemoveCacheDir c r w = Some (q, w')"
  shows "prunes {} {cache_base d r} w w'"
proof -
  show ?thesis
  proof (cases "TDNFGetCachePath c r None None")
    case (Inl e)
    then show ?thesis using assms(1,4) by (auto simp: TDNFRepoRemoveCacheDir_def prunes_def free_files_def)
  next
    case (Inr p)
    then obtain q where q: "p = Some q" "resolve q = cache_base d r"
      using cache_path(2) [OF Inr assms(2,3) refl] by (auto simp: path_or_empty_def)
    then have "w' = snd (sys_rmdir q w)"
      using assms(4) Inr by (auto simp: TDNFRepoRemoveCacheDir_def split: if_splits)
    then show ?thesis using rmdir_prunes [OF assms(1) q(2)] by simp
  qed
qed

lemma cleaned_set:
  "{k. cleaned t b k} =
     (if asked t CLEANTYPE_METADATA then subtree (b @ [''repodata'']) else {}) \<union> (if asked t CLEANTYPE_DBCACHE then subtree (b @ [''solvcache'']) else {})
     \<union> (if asked t CLEANTYPE_PACKAGES then subtree (b @ [''rpms'']) else {}) \<union> (if asked t CLEANTYPE_KEYS then subtree (b @ [''keys'']) else {})
     \<union> (if asked t CLEANTYPE_EXPIRE_CACHE then {b @ [TDNF_REPO_METADATA_MARKER]} \<union> {b @ [''mirrorlist'']} else {})"
  by (auto simp: cleaned_def cleaned_dirs_def cleaned_files_def subtree_def)

lemma stepIf_prunes:
  assumes "stepIf b m w = Some (Inr (), w')" and "free_files w" and "m w = Some (Inr (), w') \<Longrightarrow> prunes S {} w w'"
  shows "prunes (if b then S else {}) {} w w' \<and> free_files w'"
  using assms free_pruned [OF assms(2)] prunes_refl [of w] by (auto simp: stepIf_def free_files_def split: if_splits)


lemma remove_empty_cache_run:
  "remove_empty_cache c r w = Some (q, w') \<Longrightarrow> \<exists>e. TDNFRepoRemoveCacheDir c r w = Some (e, w')"
  by (cases "TDNFRepoRemoveCacheDir c r w") (auto simp: remove_empty_cache_def bindP_def catch_error_def split: sum.splits if_splits)

lemma clean_repo_prunes:
  assumes "free_files w" and "cf_pszCacheDir c = Some d" and "plain_name (cache_dir_name r)" and "clean_repo c t r w = Some (Inr (), w')"
  shows "prunes {k. cleaned t (cache_base d r) k} {cache_base d r} w w'"
proof -
  let ?b = "cache_base d r"
  from assms(4) obtain w1 w2 w3 w4 w5 e where
    s: "stepIf (asked t CLEANTYPE_METADATA) (TDNFRepoRemoveCache c r) w = Some (Inr (), w1)"
      "stepIf (asked t CLEANTYPE_DBCACHE) (TDNFRemoveSolvCache c r) w1 = Some (Inr (), w2)"
      "stepIf (asked t CLEANTYPE_PACKAGES) (TDNFRemoveRpmCache c r) w2 = Some (Inr (), w3)"
      "stepIf (asked t CLEANTYPE_KEYS) (TDNFRemoveKeysCache c r) w3 = Some (Inr (), w4)"
      "stepIf (asked t CLEANTYPE_EXPIRE_CACHE)
        (bindP (TDNFRemoveLastRefreshMarker c r) (\<lambda>_. TDNFRemoveMirrorList c r)) w4 = Some (Inr (), w5)"
      and e: "TDNFRepoRemoveCacheDir c r w5 = Some (e, w')"
    by (auto simp: clean_repo_def bindP_ok dest: remove_empty_cache_run)
  note f1 = assms(1)
  from stepIf_prunes [OF s(1) f1 remove_caches_prune(1) [OF f1 assms(2,3)]]
  have p1: "prunes (if asked t CLEANTYPE_METADATA then subtree (?b @ [''repodata'']) else {}) {} w w1" and f2: "free_files w1" by auto
  from stepIf_prunes [OF s(2) f2 remove_caches_prune(2) [OF f2 assms(2,3)]]
  have p2: "prunes (if asked t CLEANTYPE_DBCACHE then subtree (?b @ [''solvcache'']) else {}) {} w1 w2" and f3: "free_files w2" by auto
  from stepIf_prunes [OF s(3) f3 remove_caches_prune(4) [OF f3 assms(2,3)]]
  have p3: "prunes (if asked t CLEANTYPE_PACKAGES then subtree (?b @ [''rpms'']) else {}) {} w2 w3" and f4: "free_files w3" by auto
  from stepIf_prunes [OF s(4) f4 remove_caches_prune(3) [OF f4 assms(2,3)]]
  have p4: "prunes (if asked t CLEANTYPE_KEYS then subtree (?b @ [''keys'']) else {}) {} w3 w4" and f5: "free_files w4" by auto
  have "prunes ({?b @ [TDNF_REPO_METADATA_MARKER]} \<union> {?b @ [''mirrorlist'']}) ({} \<union> {}) w4 w5"
    if run: "bindP (TDNFRemoveLastRefreshMarker c r) (\<lambda>_. TDNFRemoveMirrorList c r) w4 = Some (Inr (), w5)"
  proof -
    from run obtain v where v: "TDNFRemoveRepoCacheFile c r TDNF_REPO_METADATA_MARKER w4 = Some (Inr (), v)"
      "TDNFRemoveRepoCacheFile c r ''mirrorlist'' v = Some (Inr (), w5)"
      by (auto simp: bindP_ok TDNFRemoveLastRefreshMarker_def TDNFRemoveMirrorList_def)
    have q: "prunes {?b @ [TDNF_REPO_METADATA_MARKER]} {} w4 v" by (rule remove_file_prunes [OF f5 assms(2,3) _ v(1)]) simp
    show ?thesis by (rule prunes_trans [OF q remove_file_prunes [OF free_pruned [OF f5 q] assms(2,3) _ v(2)]]) simp
  qed
  with stepIf_prunes [OF s(5) f5] have p5: "prunes (if asked t CLEANTYPE_EXPIRE_CACHE
      then {?b @ [TDNF_REPO_METADATA_MARKER]} \<union> {?b @ [''mirrorlist'']} else {}) {} w4 w5" and f6: "free_files w5" by auto
  from prunes_trans [OF prunes_trans [OF prunes_trans [OF prunes_trans [OF prunes_trans [OF p1 p2] p3] p4] p5]
      remove_dir_prunes [OF f6 assms(2,3) e]]
  show ?thesis unfolding cleaned_set by simp
qed

lemma clean_repos_prune:
  assumes "free_files w" and "cf_pszCacheDir c = Some d" and "clean_repos c t rs w = Some (Inr (), w')"
    and "\<forall>r \<in> set rs. rp_pszId r \<noteq> CMDLINE_REPO_NAME \<longrightarrow> plain_name (cache_dir_name r)"
  shows "prunes {k. \<exists>r \<in> set rs. rp_pszId r \<noteq> CMDLINE_REPO_NAME \<and> cleaned t (cache_base d r) k}
     {k. \<exists>r \<in> set rs. rp_pszId r \<noteq> CMDLINE_REPO_NAME \<and> k = cache_base d r} w w'"
  using assms(1,3,4)
proof (induction rs arbitrary: w)
  case Nil
  then show ?case by (simp add: prunes_refl free_files_def)
next
  case (Cons r rs)
  let ?S = "\<lambda>rs. {k. \<exists>r \<in> set rs. rp_pszId r \<noteq> CMDLINE_REPO_NAME \<and> cleaned t (cache_base d r) k}"
  let ?B = "\<lambda>rs. {k. \<exists>r \<in> set rs. rp_pszId r \<noteq> CMDLINE_REPO_NAME \<and> k = cache_base d r}"
  from Cons.prems(2) obtain v where v: "stepIf (rp_pszId r \<noteq> CMDLINE_REPO_NAME) (clean_repo c t r) w = Some (Inr (), v)"
    and rest: "clean_repos c t rs v = Some (Inr (), w')" by (auto simp: bindP_ok)
  have p: "prunes (?S [r]) (?B [r]) w v"
  proof (cases "rp_pszId r = CMDLINE_REPO_NAME")
    case True
    with v have "v = w" by (simp add: stepIf_def)
    then show ?thesis using True Cons.prems(1) by (simp add: prunes_refl free_files_def)
  next
    case False
    then show ?thesis
      using v Cons.prems clean_repo_prunes [OF Cons.prems(1) assms(2), of r t v] by (simp add: stepIf_def)
  qed
  have q: "prunes (?S rs) (?B rs) v w'" using Cons.IH [OF free_pruned [OF Cons.prems(1) p] rest] Cons.prems(3) by simp
  have "?S [r] \<union> ?S rs = ?S (r # rs)" "?B [r] \<union> ?B rs = ?B (r # rs)" by auto
  with prunes_trans [OF p q] show ?case by simp
qed

text \<open>C29: \<^verbatim>\<open>tdnf clean\<close> with a kind of cache: when it succeeds, of every repository but the built-in one the caches of that
  kind are gone, and at most the emptied cache directories are removed besides; no other file is.\<close>

theorem Clean_exact:
  assumes "free_files w" and "cf_pszCacheDir c = Some d" and "TDNFCliCleanCommand c rs cmds w = Some (Inr (), w')"
    and "TDNFCliParseCleanArgs cmds = Inr t"
    and "\<forall>r \<in> set rs. rp_pszId r \<noteq> CMDLINE_REPO_NAME \<longrightarrow> plain_name (cache_dir_name r)"
  shows "\<forall>k. if \<exists>r \<in> set rs. rp_pszId r \<noteq> CMDLINE_REPO_NAME \<and> cleaned t (cache_base d r) k then node_at w' k = None
     else node_at w' k = node_at w k \<or> node_at w' k = None \<and> (\<exists>r \<in> set rs. rp_pszId r \<noteq> CMDLINE_REPO_NAME \<and> k = cache_base d r)"
  (is "\<forall>k. if ?C k then node_at w' k = None else node_at w' k = node_at w k \<or> node_at w' k = None \<and> ?B k")
proof -
  have "clean_repos c t rs w = Some (Inr (), w')"
    using assms(3,4) by (auto simp: TDNFCliCleanCommand_def TDNFClean_def split: if_splits)
  from clean_repos_prune [OF assms(1,2) this assms(5)]
  have "node_at w' k = (if ?C k then None else node_at w k) \<or> ?B k \<and> \<not> ?C k \<and> node_at w' k = None" for k
    by (simp add: prunes_def)
  then show ?thesis by (metis (no_types, lifting))
qed


definition clean_conf :: tdnf_conf where
  "clean_conf = conf_defaults\<lparr>cf_pszCacheDir := Some ''/c''\<rparr>"

definition clean_sample_repo :: repo_data where
  "clean_sample_repo = (repo_defaults clean_conf ''r'')\<lparr>rp_pszCacheName := Some ''r-1''\<rparr>"

definition clean_world :: files where
  "clean_world = \<lparr>fs_nodes = [([''c''], Dir), ([''c'', ''r-1''], Dir), ([''c'', ''r-1'', ''repodata''], Dir),
     ([''c'', ''r-1'', ''repodata'', ''x''], File ''x'' 1), ([''c'', ''r''], Dir), ([''c'', ''r'', ''rpms''], Dir),
     ([''c'', ''r'', ''rpms'', ''p.rpm''], File ''rpm'' 1)], fs_deny = (\<lambda>_ _. 0), fs_now = 5\<rparr>"

lemma clean_world_free: "free_files clean_world"
  by (simp add: free_files_def clean_world_def wf_tree_def node_at_def)

lemma clean_paths:
  "TDNFGetCachePath clean_conf clean_sample_repo (Some ''repodata'') None = Inr (Some ''/c/r-1/repodata'')"
  "TDNFGetCachePath clean_conf clean_sample_repo None None = Inr (Some ''/c/r-1'')"
  "resolve ''/c/r-1/repodata'' = [''c'', ''r-1'', ''repodata'']" "resolve ''/c/r-1'' = [''c'', ''r-1'']"
  "rp_pszId clean_sample_repo \<noteq> CMDLINE_REPO_NAME"
  by (simp_all add: TDNFGetCachePath_def clean_conf_def clean_sample_repo_def repo_defaults_def TDNFJoinPath_def TDNFAllocateString_def
      TDNF_DEFAULT_MAX_STRING_LEN_def Let_def is_slash_def strip_trailing_slashes_def resolve_def CMDLINE_REPO_NAME_def)

lemma clean_type: "TDNFCliParseCleanArgs [''clean'', ''metadata''] = Inr CLEANTYPE_METADATA"
  by code_simp

definition clean_nodes :: "(string list \<times> file_node) list" where
  "clean_nodes = [([''c''], Dir), ([''c'', ''r''], Dir), ([''c'', ''r'', ''rpms''], Dir), ([''c'', ''r'', ''rpms'', ''p.rpm''], File ''rpm'' 1)]"

lemma clean_run:
  "TDNFCliCleanCommand clean_conf [clean_sample_repo] [''clean'', ''metadata''] clean_world = Some (Inr (), clean_world\<lparr>fs_nodes := clean_nodes\<rparr>)"
proof -
  let ?v = "clean_world\<lparr>fs_nodes := ([''c''], Dir) # ([''c'', ''r-1''], Dir) # tl clean_nodes\<rparr>"
  have r: "sys_remove_tree ''/c/r-1/repodata'' clean_world = (0, ?v)"
    by (simp add: sys_remove_tree_def clean_paths Let_def removable_def node_at_def clean_world_def clean_nodes_def)
  have d: "sys_rmdir ''/c/r-1'' ?v = (0, clean_world\<lparr>fs_nodes := clean_nodes\<rparr>)"
    by (simp add: sys_rmdir_def clean_paths Let_def node_at_def clean_world_def clean_nodes_def del_node_def strict_prefix_def)
  have a: "asked CLEANTYPE_METADATA CLEANTYPE_METADATA" "\<not> asked CLEANTYPE_METADATA CLEANTYPE_DBCACHE"
    "\<not> asked CLEANTYPE_METADATA CLEANTYPE_PACKAGES" "\<not> asked CLEANTYPE_METADATA CLEANTYPE_KEYS"
    "\<not> asked CLEANTYPE_METADATA CLEANTYPE_EXPIRE_CACHE" "CLEANTYPE_METADATA \<noteq> CLEANTYPE_PLUGINS"
    by (simp_all add: asked_def cleantypes)
  have m: "TDNFRepoRemoveCache clean_conf clean_sample_repo clean_world = Some (Inr (), ?v)"
    by (simp add: TDNFRepoRemoveCache_def clean_paths remove_below_def path_or_empty_def bindP_def catch_error_def
        TDNFRecursivelyRemoveDir_def sysP_run r)
  have e: "remove_empty_cache clean_conf clean_sample_repo ?v = Some (Inr (), clean_world\<lparr>fs_nodes := clean_nodes\<rparr>)"
    by (simp add: remove_empty_cache_def TDNFRepoRemoveCacheDir_def clean_paths d bindP_def catch_error_def)
  have "clean_repo clean_conf CLEANTYPE_METADATA clean_sample_repo clean_world = Some (Inr (), clean_world\<lparr>fs_nodes := clean_nodes\<rparr>)"
    by (simp add: clean_repo_def stepIf_def a bindP_def m e)
  then show ?thesis by (simp add: TDNFCliCleanCommand_def TDNFClean_def clean_type clean_paths a bindP_def stepIf_def)
qed

theorem Clean_exact_witness:
  "\<exists>w'. TDNFCliCleanCommand clean_conf [clean_sample_repo] [''clean'', ''metadata''] clean_world = Some (Inr (), w')
     \<and> node_at clean_world [''c'', ''r-1'', ''repodata'', ''x''] = Some (File ''x'' 1)
     \<and> node_at w' [''c'', ''r-1'', ''repodata'', ''x''] = None"
proof -
  have d: "cf_pszCacheDir clean_conf = Some ''/c''" by (simp add: clean_conf_def)
  have p: "\<forall>r \<in> set [clean_sample_repo]. rp_pszId r \<noteq> CMDLINE_REPO_NAME \<longrightarrow> plain_name (cache_dir_name r)"
    by (simp add: clean_sample_repo_def cache_dir_name_def plain_name_def)
  have c: "cleaned CLEANTYPE_METADATA (cache_base ''/c'' clean_sample_repo) [''c'', ''r-1'', ''repodata'', ''x'']" by code_simp
  have "node_at (clean_world\<lparr>fs_nodes := clean_nodes\<rparr>) [''c'', ''r-1'', ''repodata'', ''x''] = None"
    using Clean_exact [OF clean_world_free d clean_run clean_type p] c clean_paths(5)
    by (simp only: list.set ball_simps bex_simps) (metis)
  then show ?thesis using clean_run by (simp add: clean_world_def node_at_def)
qed

text \<open>
  Packages are downloaded below the id of the repository, and cleaned below the name of its cache, which has a hash of
  the URL: they are never cleaned.
\<close>

theorem Clean_keeps_packages:
  assumes "free_files w" and "cf_pszCacheDir c = Some d" and "TDNFClean c rs t w = Some (Inr (), w')"
    and "\<forall>r \<in> set rs. rp_pszId r \<noteq> CMDLINE_REPO_NAME \<longrightarrow> plain_name (cache_dir_name r) \<and> cache_dir_name r \<noteq> i"
  shows "node_at w' (resolve d @ i # ''rpms'' # k) = node_at w (resolve d @ i # ''rpms'' # k)"
proof -
  let ?k = "resolve d @ i # ''rpms'' # k"
  let ?S = "{k. \<exists>r \<in> set rs. rp_pszId r \<noteq> CMDLINE_REPO_NAME \<and> cleaned t (cache_base d r) k}"
  let ?B = "{k. \<exists>r \<in> set rs. rp_pszId r \<noteq> CMDLINE_REPO_NAME \<and> k = cache_base d r}"
  have "clean_repos c t rs w = Some (Inr (), w')" using assms(3) by (auto simp: TDNFClean_def split: if_splits)
  from clean_repos_prune [OF assms(1,2) this] assms(4)
  have p: "node_at w' ?k = (if ?k \<in> ?S then None else node_at w ?k) \<or> ?k \<in> ?B \<and> ?k \<notin> ?S \<and> node_at w' ?k = None"
    by (simp add: prunes_def)
  have "\<not> cleaned t (cache_base d r) ?k \<and> ?k \<noteq> cache_base d r" if "r \<in> set rs" "rp_pszId r \<noteq> CMDLINE_REPO_NAME" for r
    using assms(4) that by (auto simp: cleaned_def cache_base_def cleaned_dirs_def cleaned_files_def)
  then have "?k \<notin> ?S" "?k \<notin> ?B" by blast+
  with p show ?thesis by argo
qed

end
