(* ===== verification/Rpm_Tree.thy ===== *)
theory Rpm_Tree
  imports Rpm_Trans Api_Clean
begin

text \<open>The file system stays a tree through everything: cleaning and refreshing the caches, and changing packages.\<close>

lemma keyring_free_nodes: "keyring_free fs_nodes"
  by (simp add: keyring_free_def)

lemma out_free_nodes: "out_free fs_nodes"
  by (simp add: out_free_def)

lemma stays_tree_keys [simp]:
  "stays wf_tree (open_text p)" "stays wf_tree (read_package lib t)" "stays wf_tree (ask args)"
  "stays wf_tree (TDNFImportGPGKeyFile env f)" "stays wf_tree (TDNFGPGCheck env k p)"
  by (intro stays_nodes leaves_open_text leaves_read_package leaves_ask leaves_import leaves_GPGCheck keyring_free_nodes)+

lemma stays_tree_check_keys [simp]: "stays wf_tree (check_keys env repo p us n)"
  by (induction us arbitrary: n) (simp_all add: stays_intros)

lemma stays_tree_GPGCheckPackage [simp]: "stays wf_tree (TDNFGPGCheckPackage env repo p)"
  unfolding TDNFGPGCheckPackage_def by (intro stays_intros) simp_all

lemma stays_tree_digest [simp]: "stays wf_tree (check_digest lib p c)" "stays wf_tree (check_size p n)"
  using leaves_stays [OF check_digest_reads] leaves_stays [OF check_size_reads] by (simp_all add: stays_def)

lemma stays_tree_in_place [simp]: "stays wf_tree (in_place us loc)"
  using leaves_stays [OF leaves_in_place, of wf_tree "\<lambda>w. w"] by (simp add: stays_def)

lemma stays_tree_package_file [simp]: "stays wf_tree (package_file env info repo)"
  unfolding package_file_def by (intro stays_intros) simp_all

lemma stays_tree_set [simp]:
  "stays wf_tree (change_ts f)" "stays wf_tree (happened ev)" "stays wf_tree (add_element lib el)" "stays wf_tree (rpm_rc n)"
  "stays wf_tree (remember_cached env p)"
  by (auto intro!: stays_nodes simp: leaves_def change_ts_def happened_def add_element_def rpm_rc_def remember_cached_def returnP_def
      errorP_def Let_def split: if_splits option.splits prod.splits)


lemma stays_tree_add_package [simp]: "stays wf_tree (add_package env fl hdr p)"
  unfolding add_package_def install_source_def by (intro stays_intros) simp_all

lemma stays_tree_install [simp]: "stays wf_tree (TDNFTransAddInstallPkg env info repo fl)"
  unfolding TDNFTransAddInstallPkg_def by (intro stays_intros) simp_all

lemma stays_tree_installs [simp]: "stays wf_tree (TDNFTransAddInstallPkgs env infos fl)"
proof -
  have "stays wf_tree (add_install_pkgs env fl infos)" for infos
    by (induction infos) (simp_all add: stays_intros)
  then show ?thesis by (auto simp: TDNFTransAddInstallPkgs_def)
qed

lemma stays_tree_erase_matches: "stays wf_tree (erase_matches lib ms)"
  by (induction lib ms rule: erase_matches.induct) (simp_all add: stays_intros)

lemma stays_tree_erase: "stays wf_tree (TDNFTransAddErasePkg env n)"
  unfolding TDNFTransAddErasePkg_def by (intro stays_intros stays_tree_erase_matches) simp_all

lemma stays_tree_erase_list: "stays wf_tree (add_erase_pkgs env infos)"
  by (induction infos) (simp_all add: stays_intros stays_tree_erase)

lemma stays_tree_erases [simp]: "stays wf_tree (TDNFTransAddErasePkgs env infos)"
  by (auto simp: TDNFTransAddErasePkgs_def stays_tree_erase_list)

lemma stays_catchP: "stays P m \<Longrightarrow> stays P (catchP m)"
  by (auto simp: stays_def catchP_def split: option.splits sum.splits)

lemma stays_tree_remove_cached: "stays wf_tree (TDNFRemoveCachedRpms ps)"
  by (induction ps) (simp_all add: stays_intros)

lemma stays_tree_cleanup [simp]: "stays wf_tree (TDNFRpmCleanupTS env)"
proof -
  have "stays wf_tree (\<lambda>w. Some (Inr (), w\<lparr>rw_pCachedRpms := []\<rparr>))" by (intro stays_nodes) (simp add: leaves_def)
  then show ?thesis
    unfolding TDNFRpmCleanupTS_def by (intro stays_intros stays_catchP stays_tree_remove_cached) simp_all
qed

lemma stays_tree_finally: "stays wf_tree m \<Longrightarrow> stays wf_tree (cleanup_on_error env m)" "stays wf_tree m \<Longrightarrow> stays wf_tree (finally_cleanup env m)"
  unfolding cleanup_on_error_def finally_cleanup_def by (intro stays_intros; simp)+

lemma stays_tree_create [simp]: "stays wf_tree (TDNFRpmCreateTS env info)"
proof -
  have pop: "stays wf_tree (TDNFPopulateTransaction env info)"
    unfolding TDNFPopulateTransaction_def Let_def by (intro stays_intros) simp_all
  have "leaves fs_nodes (\<lambda>w. Some (Inr (), w\<lparr>rw_ts := a, rw_pCachedRpms := b, rw_nProbFilterFlags := c, rw_nTransFlags := d\<rparr>))" for a b c d
    by (simp add: leaves_def)
  show ?thesis
    unfolding TDNFRpmCreateTS_def Let_def
    by (intro stays_intros stays_tree_finally pop) (auto intro!: stays_nodes simp: leaves_def start_ts_def)
qed


section \<open>Running\<close>

lemma stays_tree_report [simp]: "stays wf_tree (reportProblems env)"
  by (intro stays_nodes leaves_reportProblems out_free_nodes)

lemma stays_tree_report_on_error: "stays wf_tree m \<Longrightarrow> stays wf_tree (report_on_error env m)"
  unfolding report_on_error_def by (intro stays_intros) simp_all

lemma stays_tree_runs [simp]:
  "stays wf_tree (order_elements lib)" "stays wf_tree (doCheck lib)" "stays wf_tree (run_ts lib)" "stays wf_tree (fail_rc n)"
  by (auto intro!: stays_nodes simp: leaves_def order_elements_def doCheck_def run_ts_def fail_rc_def errorP_def returnP_def
      split: prod.splits if_splits)

lemma stays_tree_set_open_max [simp]: "stays wf_tree (TDNFSetOpenMax env)"
  unfolding TDNFSetOpenMax_def by (intro stays_intros) simp_all

lemma stays_tree_run [simp]: "stays wf_tree (TDNFRunTransaction env)"
  unfolding TDNFRunTransaction_def test_transaction_def real_transaction_def Let_def
  by (intro stays_tree_report_on_error stays_intros) simp_all

lemma stays_tree_history [simp]:
  "stays wf_tree (open_history b)" "stays wf_tree close_history" "stays wf_tree (on_history m)" "stays wf_tree (\<lambda>w. on_history (n w) w)"
  by (auto intro!: stays_nodes simp: leaves_def open_history_def close_history_def on_history_def split: sum.splits option.splits)

lemma stays_tree_with_history [simp]: "stays wf_tree (TDNFRunTransactionWithHistory env cmd)"
  unfolding TDNFRunTransactionWithHistory_def by (intro stays_intros) simp_all

lemma stays_tree_close: "stays wf_tree m \<Longrightarrow> stays wf_tree (finally_close m)"
  unfolding finally_close_def by (intro stays_intros) simp_all

lemma stays_tree_alter: "stays wf_tree (TDNFAlterCommand env info)"
  unfolding TDNFAlterCommand_def TDNFRpmExecTransaction_def
  by (intro stays_intros stays_tree_close stays_tree_finally(2)) simp_all

lemma stays_tree_alter_history: "stays wf_tree (TDNFAlterHistoryCommand env info a)"
  unfolding TDNFAlterHistoryCommand_def TDNFRpmExecHistoryTransaction_def
  by (intro stays_intros stays_tree_close stays_tree_finally(2)) simp_all



end
