(* ===== verification/Metalink_Parse.thy ===== *)
theory Metalink_Parse
  imports Rpm_Keys
begin

text \<open>
  The metalink plugin, its reader: the list of mirrors and its merge sort (\<^verbatim>\<open>plugins/metalink/list.c\<close>), the handlers of
  expat and the check of a file against the hashes of a metalink (\<^verbatim>\<open>plugins/metalink/utils.c\<close>). expat is a parameter:
  the calls of handlers that it makes for a text, and the status of XML_Parse.
\<close>

section \<open>Data\<close>

record ml_hash =
  mh_type :: string
  mh_value :: string

record ml_url =
  mu_protocol :: "string option"
  mu_type :: "string option"
  mu_location :: "string option"
  mu_url :: "string option"
  mu_preference :: int

record ml_ctx =
  mc_filename :: "string option"
  mc_timestamp :: int
  mc_size :: int
  mc_hashes :: "ml_hash list"
  mc_urls :: "ml_url list"

text \<open>What TDNFAllocateMemory hands out is zero.\<close>

definition no_url :: ml_url where
  "no_url = \<lparr>mu_protocol = None, mu_type = None, mu_location = None, mu_url = None, mu_preference = 0\<rparr>"

definition no_ctx :: ml_ctx where
  "no_ctx = \<lparr>mc_filename = None, mc_timestamp = 0, mc_size = 0, mc_hashes = [], mc_urls = []\<rparr>"

abbreviation (input) ERROR_TDNF_INVALID_REPO_FILE :: errcode where "ERROR_TDNF_INVALID_REPO_FILE \<equiv> 1004"
abbreviation (input) ERROR_TDNF_METALINK_START :: errcode where "ERROR_TDNF_METALINK_START \<equiv> 2700"
abbreviation (input) MISSING_FILE_ATTR :: errcode where "MISSING_FILE_ATTR \<equiv> 2703"
abbreviation (input) INVALID_FILE_NAME :: errcode where "INVALID_FILE_NAME \<equiv> 2704"
abbreviation (input) MISSING_FILE_SIZE :: errcode where "MISSING_FILE_SIZE \<equiv> 2705"
abbreviation (input) MISSING_HASH_ATTR :: errcode where "MISSING_HASH_ATTR \<equiv> 2706"
abbreviation (input) MISSING_HASH_CONTENT :: errcode where "MISSING_HASH_CONTENT \<equiv> 2707"
abbreviation (input) MISSING_URL_ATTR :: errcode where "MISSING_URL_ATTR \<equiv> 2708"
abbreviation (input) MISSING_URL_CONTENT :: errcode where "MISSING_URL_CONTENT \<equiv> 2709"

section \<open>The list of mirrors\<close>

text \<open>
  A list never holds a NULL, as TDNFAppendList refuses it. The lists are cut and joined in place; only the pointers to
  their heads are used afterwards.
\<close>

definition TDNFAppendList :: "'a list \<Rightarrow> 'a option \<Rightarrow> 'a list result" where
  "TDNFAppendList head_ref new_data = (case new_data of
     None \<Rightarrow> Inl ERROR_TDNF_INVALID_PARAMETER | Some d \<Rightarrow> Inr (head_ref @ [d]))"

fun TDNFMergeList :: "ml_url list \<Rightarrow> ml_url list \<Rightarrow> ml_url list" where
  "TDNFMergeList [] listB = listB"
| "TDNFMergeList listA [] = listA"
| "TDNFMergeList (urlA # listA) (urlB # listB) =
     (if mu_preference urlA \<ge> mu_preference urlB then urlA # TDNFMergeList listA (urlB # listB)
      else urlB # TDNFMergeList (urlA # listA) listB)"

text \<open>The loop with the slow and the fast pointer: the nodes up to the slow one, those behind it, and those from the fast one.\<close>

fun split_loop :: "'a list \<Rightarrow> 'a list \<Rightarrow> 'a list \<Rightarrow> 'a list \<times> 'a list" where
  "split_loop front (b # behind) (_ # _ # fast) = split_loop (front @ [b]) behind fast"
| "split_loop front behind _ = (front, behind)"

definition TDNFFrontBackSplit :: "'a list \<Rightarrow> 'a list \<times> 'a list" where
  "TDNFFrontBackSplit currHead = (case currHead of
     a # b # rest \<Rightarrow> split_loop [a] (b # rest) (b # rest) | _ \<Rightarrow> ([], []))"

lemma split_loop_append: "split_loop front behind fast = (A, B) \<Longrightarrow> A @ B = front @ behind"
  by (induction front behind fast rule: split_loop.induct) auto

lemma split_loop_front: "split_loop front behind fast = (A, B) \<Longrightarrow> length front \<le> length A"
  by (induction front behind fast rule: split_loop.induct) auto

lemma split_loop_back:
  "split_loop front behind fast = (A, B) \<Longrightarrow> length fast \<le> length behind \<Longrightarrow> behind \<noteq> [] \<Longrightarrow> B \<noteq> []"
proof (induction front behind fast rule: split_loop.induct)
  case (1 front b behind x y fast)
  then show ?case by (cases behind) auto
qed auto

lemma FrontBackSplit_parts:
  assumes "TDNFFrontBackSplit us = (A, B)" and "us = a # b # rest"
  shows "A @ B = us" "A \<noteq> []" "B \<noteq> []"
proof -
  have s: "split_loop [a] (b # rest) (b # rest) = (A, B)" using assms by (simp add: TDNFFrontBackSplit_def)
  show "A @ B = us" using split_loop_append [OF s] assms(2) by simp
  show "A \<noteq> []" using split_loop_front [OF s] by auto
  show "B \<noteq> []" using split_loop_back [OF s] by simp
qed

function TDNFSortListOnPreference :: "ml_url list \<Rightarrow> ml_url list" where
  "TDNFSortListOnPreference headUrl = (case headUrl of
     a # b # rest \<Rightarrow> (case TDNFFrontBackSplit headUrl of (listA, listB) \<Rightarrow>
       TDNFMergeList (TDNFSortListOnPreference listA) (TDNFSortListOnPreference listB))
   | _ \<Rightarrow> headUrl)"
  by pat_completeness auto
termination
proof (relation "measure length")
  fix headUrl :: "ml_url list" and a r b rest A B
  assume e: "headUrl = a # r" "r = b # rest" and s: "(A, B) = TDNFFrontBackSplit headUrl"
  note p = FrontBackSplit_parts [OF s [symmetric] e(1) [unfolded e(2)]]
  have "length A + length B = length headUrl" using p(1) by (metis length_append)
  moreover have "length A > 0" "length B > 0" using p(2,3) by simp_all
  ultimately have l: "length A < length headUrl" "length B < length headUrl" by linarith+
  show "(A, headUrl) \<in> measure length" using l(1) by simp
  show "(B, headUrl) \<in> measure length" using l(2) by simp
qed simp

declare TDNFSortListOnPreference.simps [simp del]

lemma merge_list_mset: "mset (TDNFMergeList A B) = mset A + mset B"
  by (induction A B rule: TDNFMergeList.induct) auto

lemma merge_list_set: "set (TDNFMergeList A B) = set A \<union> set B"
  by (metis merge_list_mset set_mset_mset set_mset_union)

abbreviation by_preference :: "ml_url \<Rightarrow> int" where "by_preference u \<equiv> - mu_preference u"

lemma merge_list_sorted:
  "sorted (map by_preference A) \<Longrightarrow> sorted (map by_preference B) \<Longrightarrow> sorted (map by_preference (TDNFMergeList A B))"
  by (induction A B rule: TDNFMergeList.induct) (auto simp: merge_list_set)

lemma merge_list_stable:
  "sorted (map by_preference A) \<Longrightarrow> sorted (map by_preference B)
   \<Longrightarrow> filter (\<lambda>u. mu_preference u = p) (TDNFMergeList A B) = filter (\<lambda>u. mu_preference u = p) (A @ B)"
proof (induction A B rule: TDNFMergeList.induct)
  case (3 a A b B)
  show ?case
  proof (cases "mu_preference a \<ge> mu_preference b")
    case True then show ?thesis using 3 by simp
  next
    case False
    then have "filter (\<lambda>u. mu_preference u = mu_preference b) (a # A) = []" using "3.prems"(1) by (auto simp: filter_empty_conv)
    then show ?thesis using 3 False by auto
  qed
qed simp_all

lemma sort_mirrors: "TDNFSortListOnPreference us = sort_key by_preference us"
proof (induction us rule: TDNFSortListOnPreference.induct)
  case (1 us)
  show ?case
  proof (cases us rule: remdups_adj.cases)
    case (3 a b rest)
    obtain A B where s: "TDNFFrontBackSplit us = (A, B)" by fastforce
    note p = FrontBackSplit_parts [OF s 3]
    have IH: "TDNFSortListOnPreference A = sort_key by_preference A" "TDNFSortListOnPreference B = sort_key by_preference B"
      using 1 [OF 3 refl s [symmetric]] by auto
    let ?m = "TDNFMergeList (sort_key by_preference A) (sort_key by_preference B)"
    have f: "filter (\<lambda>u. - mu_preference k = - mu_preference u) ?m = filter (\<lambda>u. - mu_preference k = - mu_preference u) us" for k
    proof -
      have "filter (\<lambda>u. - mu_preference k = - mu_preference u) (sort_key by_preference xs) = filter (\<lambda>u. - mu_preference k = - mu_preference u) xs" for xs
        using sort_key_stable [of by_preference "- mu_preference k" xs] by (simp add: eq_commute)
      then show ?thesis
        using merge_list_stable [of "sort_key by_preference A" "sort_key by_preference B" "mu_preference k"] p(1)
        by (simp add: eq_commute [of "mu_preference k"]) (metis filter_append)
    qed
    have "sort_key by_preference us = ?m"
    proof (rule properties_for_sort_key)
      show "mset ?m = mset us" using p(1) by (simp add: merge_list_mset) (metis mset_append)
      show "sorted (map by_preference ?m)" by (simp add: merge_list_sorted)
    qed (rule f)
    then show ?thesis using IH by (subst TDNFSortListOnPreference.simps) (simp add: 3 s [unfolded 3])
  qed (simp_all add: TDNFSortListOnPreference.simps)
qed

text \<open>C24: The merge sort of mirrors is a stable sort by descending preference: mirrors with the same preference keep the order of the file.\<close>

theorem SortListOnPreference_stable:
  "TDNFSortListOnPreference us = sort_key (\<lambda>u. - mu_preference u) us"
  by (rule sort_mirrors)

section \<open>The hashes\<close>

text \<open>\<^verbatim>\<open>bsearch\<close> in the sorted table of names; a name that is not in it is not an error.\<close>

definition TDNFGetResourceType :: "string \<Rightarrow> int result" where
  "TDNFGetResourceType resource_type =
     (if resource_type = [] then Inl ERROR_TDNF_INVALID_PARAMETER
      else Inr (case map_of hashType resource_type of None \<Rightarrow> -1 | Some t \<Rightarrow> int t))"

fun best_hash_type :: "ml_hash list \<Rightarrow> int \<Rightarrow> int result" where
  "best_hash_type [] hash_Type = Inr hash_Type"
| "best_hash_type (h # hs) hash_Type =
     bail (TDNFGetResourceType (mh_type h)) (\<lambda>currHashType.
       best_hash_type hs (if hash_Type < currHashType then currHashType else hash_Type))"

text \<open>
  The second loop. Its last argument is dwError when an iteration starts: the look-up of the type sets it to 0 again,
  so that what it is at the end is the outcome for the last hash.
\<close>

fun check_hashes :: "(string \<Rightarrow> string \<Rightarrow> byte list result) \<Rightarrow> string \<Rightarrow> int \<Rightarrow> ml_hash list \<Rightarrow> errcode \<Rightarrow> unit result option" where
  "check_hashes dig pszFile hash_Type [] dwError = Some (if dwError = 0 then Inr () else Inl dwError)"
| "check_hashes dig pszFile hash_Type (h # hs) dwError =
     (case TDNFGetResourceType (mh_type h) of
        Inl e \<Rightarrow> Some (Inl e)
      | Inr currHashType \<Rightarrow>
          if hash_Type = currHashType \<and> TDNFCheckHexDigest (Some (mh_value h)) (int (snd (hash_ops ! nat currHashType)))
          then thenU (TDNFChecksumFromHexDigest (Some (mh_value h))) (\<lambda>digest.
                 case TDNFCheckHash dig (Some pszFile) (Some digest) hash_Type of
                   Inl e \<Rightarrow> if e \<noteq> ERROR_TDNF_CHECKSUM_VALIDATION_FAILED then Some (Inl e)
                            else check_hashes dig pszFile hash_Type hs e
                 | Inr _ \<Rightarrow> Some (Inr ()))
          else check_hashes dig pszFile hash_Type hs 0)"

definition TDNFCheckRepoMDFileHashFromMetalink ::
    "(string \<Rightarrow> string \<Rightarrow> byte list result) \<Rightarrow> string \<Rightarrow> ml_ctx \<Rightarrow> unit result option" where
  "TDNFCheckRepoMDFileHashFromMetalink dig pszFile ctx =
     (if pszFile = [] then Some (Inl ERROR_TDNF_INVALID_PARAMETER)
      else thenU (Some (best_hash_type (mc_hashes ctx) (-1))) (\<lambda>hash_Type.
             if hash_Type < 0 then Some (Inl ERROR_TDNF_INVALID_REPO_FILE)
             else check_hashes dig pszFile hash_Type (mc_hashes ctx) 0))"

section \<open>The handlers of expat\<close>

text \<open>
  The texts and attributes that a handler gets belong to expat; the code keeps the name and the attributes of the last
  start tag for the text behind it. Attributes come in pairs.
\<close>

datatype xml_call = StartElement string "(string \<times> string) list" | CharData string | EndElement string

type_synonym expat = "string \<Rightarrow> xml_call list \<times> nat"

record element_info =
  ei_dwError :: errcode
  ei_ctx :: ml_ctx
  ei_filename :: string
  ei_startElement :: "string option"
  ei_endElement :: "string option"
  ei_attributes :: "(string \<times> string) list"

definition TDNFSearchTag :: "(string \<times> string) list \<Rightarrow> string \<Rightarrow> string option" where
  "TDNFSearchTag attr type = map_option snd (find (\<lambda>(n, _). n = type) attr)"

definition TDNFParseFileTag :: "element_info \<Rightarrow> element_info result" where
  "TDNFParseFileTag ei =
     (if ei_filename ei = [] then Inl ERROR_TDNF_INVALID_PARAMETER
      else case TDNFSearchTag (ei_attributes ei) ''name'' of
        None \<Rightarrow> Inl MISSING_FILE_ATTR
      | Some name \<Rightarrow>
          if name \<noteq> ei_filename ei then Inl INVALID_FILE_NAME
          else bail (TDNFAllocateString (Some name)) (\<lambda>n. Inr (ei\<lparr>ei_ctx := (ei_ctx ei)\<lparr>mc_filename := Some n\<rparr>\<rparr>)))"

definition TDNFParseHashTag :: "element_info \<Rightarrow> string \<Rightarrow> element_info result" where
  "TDNFParseHashTag ei val =
     (case TDNFSearchTag (ei_attributes ei) ''type'' of
        None \<Rightarrow> Inl MISSING_HASH_ATTR
      | Some type \<Rightarrow>
          bail (TDNFAllocateString (Some type)) (\<lambda>t.
            case TDNFAllocateStringN (Some val) (length val) of
              Inl _ \<Rightarrow> Inl MISSING_HASH_CONTENT
            | Inr v \<Rightarrow> bail (TDNFAllocateString (Some v)) (\<lambda>v.
                bail (TDNFAppendList (mc_hashes (ei_ctx ei)) (Some \<lparr>mh_type = t, mh_value = v\<rparr>)) (\<lambda>hs.
                  Inr (ei\<lparr>ei_ctx := (ei_ctx ei)\<lparr>mc_hashes := hs\<rparr>\<rparr>)))))"

text \<open>\<^verbatim>\<open>sscanf\<close> with \<open>%d\<close>: nothing converted is an error, a number outside of \<^verbatim>\<open>int\<close> is undefined.\<close>

definition scan_int :: "string \<Rightarrow> int result option" where
  "scan_int s = (case strtol10 s of (v, rest) \<Rightarrow>
     if rest = s then Some (Inl ERROR_TDNF_INVALID_PARAMETER)
     else if v < INT_MIN \<or> v > INT_MAX then None else Some (Inr v))"

text \<open>
  The attributes of a mirror. The flag tells that \<open>value\<close> points to an attribute: an error then gives memory of expat to
  \<^verbatim>\<open>free\<close>, which is undefined.
\<close>

definition free_value :: "bool \<Rightarrow> 'a result \<Rightarrow> 'a result option" where
  "free_value value_set r = (case r of Inl e \<Rightarrow> if value_set then None else Some (Inl e) | Inr x \<Rightarrow> Some (Inr x))"

definition url_text :: "string \<Rightarrow> string \<Rightarrow> ml_url \<Rightarrow> ml_url result" where
  "url_text name v u = bail (TDNFAllocateString (Some v)) (\<lambda>v. Inr
     (if name = ''protocol'' then u\<lparr>mu_protocol := Some v\<rparr>
      else if name = ''type'' then u\<lparr>mu_type := Some v\<rparr> else u\<lparr>mu_location := Some v\<rparr>))"

definition url_preference :: "int \<Rightarrow> ml_url \<Rightarrow> ml_url result" where
  "url_preference v u = (if v < 0 \<or> v > 100 then Inl MISSING_URL_ATTR else Inr (u\<lparr>mu_preference := v\<rparr>))"

fun url_attributes :: "(string \<times> string) list \<Rightarrow> bool \<Rightarrow> ml_url \<Rightarrow> ml_url result option" where
  "url_attributes [] value_set u = Some (Inr u)"
| "url_attributes ((n, v) # attrs) value_set u =
     (if n = ''protocol'' \<or> n = ''type'' \<or> n = ''location''
      then thenU (free_value True (url_text n v u)) (\<lambda>u. url_attributes attrs True u)
      else if n = ''preference''
      then (case scan_int v of None \<Rightarrow> None | Some r \<Rightarrow>
              thenU (free_value value_set (bail r (\<lambda>p. url_preference p u))) (\<lambda>u. url_attributes attrs value_set u))
      else url_attributes attrs value_set u)"

definition TDNFParseUrlTag :: "element_info \<Rightarrow> string \<Rightarrow> element_info result option" where
  "TDNFParseUrlTag ei val =
     thenU (url_attributes (ei_attributes ei) False no_url) (\<lambda>u. Some
       (case TDNFAllocateStringN (Some val) (length val) of
          Inl _ \<Rightarrow> Inl MISSING_URL_CONTENT
        | Inr v \<Rightarrow> bail (TDNFAllocateString (Some v)) (\<lambda>v.
            bail (TDNFAppendList (mc_urls (ei_ctx ei)) (Some (u\<lparr>mu_url := Some v\<rparr>))) (\<lambda>us.
              Inr (ei\<lparr>ei_ctx := (ei_ctx ei)\<lparr>mc_urls := us\<rparr>\<rparr>)))))"

text \<open>The digits of a size go to a buffer of twelve bytes.\<close>

definition size_digits :: "string \<Rightarrow> string" where
  "size_digits val = takeWhile c_isdigit (take 11 val)"

definition keep_error :: "element_info \<Rightarrow> element_info result \<Rightarrow> element_info" where
  "keep_error ei r = (case r of Inl e \<Rightarrow> ei\<lparr>ei_dwError := e\<rparr> | Inr ei' \<Rightarrow> ei')"

definition TDNFXmlParseStartElement :: "element_info \<Rightarrow> string \<Rightarrow> (string \<times> string) list \<Rightarrow> element_info" where
  "TDNFXmlParseStartElement ei name attrs =
     (if ei_dwError ei \<noteq> 0 then ei else ei\<lparr>ei_startElement := Some name, ei_attributes := attrs\<rparr>)"

definition TDNFXmlParseData :: "element_info \<Rightarrow> string \<Rightarrow> element_info option" where
  "TDNFXmlParseData ei val =
     (if ei_filename ei = [] \<or> ei_dwError ei \<noteq> 0 then Some (ei\<lparr>ei_dwError := ERROR_TDNF_INVALID_PARAMETER\<rparr>)
      else case ei_startElement ei of
        None \<Rightarrow> Some ei
      | Some name \<Rightarrow>
          if name = ''file'' then Some (keep_error ei (TDNFParseFileTag ei))
          else if name = ''size''
          then Some (if size_digits val = [] then ei\<lparr>ei_dwError := MISSING_FILE_SIZE\<rparr>
                     else ei\<lparr>ei_ctx := (ei_ctx ei)\<lparr>mc_size := strtoi (size_digits val)\<rparr>\<rparr>)
          else if name = ''hash'' then Some (keep_error ei (TDNFParseHashTag ei val))
          else if name = ''url'' \<and> length val > 4 then map_option (keep_error ei) (TDNFParseUrlTag ei val)
          else Some ei)"

definition TDNFXmlParseEndElement :: "element_info \<Rightarrow> string \<Rightarrow> element_info" where
  "TDNFXmlParseEndElement ei name = ei\<lparr>ei_endElement := Some name, ei_startElement := None\<rparr>"

definition xml_call :: "xml_call \<Rightarrow> element_info \<Rightarrow> element_info option" where
  "xml_call c ei = (case c of
     StartElement name attrs \<Rightarrow> Some (TDNFXmlParseStartElement ei name attrs)
   | CharData val \<Rightarrow> TDNFXmlParseData ei val
   | EndElement name \<Rightarrow> Some (TDNFXmlParseEndElement ei name))"

fun xml_calls :: "xml_call list \<Rightarrow> element_info \<Rightarrow> element_info option" where
  "xml_calls [] ei = Some ei"
| "xml_calls (c # cs) ei = (case xml_call c ei of None \<Rightarrow> None | Some ei' \<Rightarrow> xml_calls cs ei')"

definition start_info :: "ml_ctx \<Rightarrow> string \<Rightarrow> element_info" where
  "start_info ctx filename = \<lparr>ei_dwError = 0, ei_ctx = ctx, ei_filename = filename, ei_startElement = None,
     ei_endElement = None, ei_attributes = []\<rparr>"

text \<open>The parser gets the text with its terminating zero. Its status is used as the error code.\<close>

definition TDNFMetalinkParseFile :: "expat \<Rightarrow> ml_ctx \<Rightarrow> string \<Rightarrow> string \<Rightarrow> ml_ctx result option" where
  "TDNFMetalinkParseFile expat ctx text filename =
     (if filename = [] then Some (Inl ERROR_TDNF_INVALID_PARAMETER)
      else case expat (text @ [CHR 0x00]) of (calls, status) \<Rightarrow>
        (case xml_calls calls (start_info ctx filename) of
           None \<Rightarrow> None
         | Some ei \<Rightarrow> Some (if status \<noteq> 0 then Inl status
                            else if ei_dwError ei \<noteq> 0 then Inl (ei_dwError ei) else Inr (ei_ctx ei))))"

section \<open>What the check of the hashes accepts\<close>

definition hash_type :: "ml_hash \<Rightarrow> int" where
  "hash_type h = (case map_of hashType (mh_type h) of None \<Rightarrow> -1 | Some t \<Rightarrow> int t)"

definition top_type :: "ml_hash list \<Rightarrow> int" where
  "top_type hs = foldl (\<lambda>a h. max a (hash_type h)) (-1) hs"

text \<open>A hash that the second loop looks at: of the best type, with a value of the right form.\<close>

definition compared :: "int \<Rightarrow> ml_hash \<Rightarrow> bool" where
  "compared t h \<longleftrightarrow> hash_type h = t \<and> TDNFCheckHexDigest (Some (mh_value h)) (int (snd (hash_ops ! nat t)))"

definition agrees :: "(string \<Rightarrow> string \<Rightarrow> byte list result) \<Rightarrow> string \<Rightarrow> int \<Rightarrow> ml_hash \<Rightarrow> bool" where
  "agrees dig f t h \<longleftrightarrow> (case (dig f (fst (hash_ops ! nat t)), TDNFChecksumFromHexDigest (Some (mh_value h))) of
     (Inr d, Some (Inr bs)) \<Rightarrow> take (snd (hash_ops ! nat t)) d = bs | _ \<Rightarrow> False)"

lemma hash_type_range: "hash_type h < int (length hash_ops)" "-1 \<le> hash_type h"
  by (auto simp: hash_type_def hashType_def hash_ops_def split: option.splits dest!: map_of_SomeD)

lemma resource_type: "mh_type h \<noteq> [] \<Longrightarrow> TDNFGetResourceType (mh_type h) = Inr (hash_type h)"
  by (simp add: TDNFGetResourceType_def hash_type_def)

lemma best_hash_type_top:
  "\<forall>h \<in> set hs. mh_type h \<noteq> [] \<Longrightarrow> best_hash_type hs a = Inr (foldl (\<lambda>a h. max a (hash_type h)) a hs)"
  by (induction hs arbitrary: a) (simp_all add: resource_type max_def)

lemma Max_insert_max: "finite S \<Longrightarrow> Max (insert (max a b) S) = Max (insert a (insert (b :: int) S))"
  by (cases "S = {}") (simp_all add: max.assoc)

lemma fold_top: "foldl (\<lambda>a h. max a (hash_type h)) a hs = Max (insert a (hash_type ` set hs))"
proof (induction hs arbitrary: a)
  case (Cons h hs)
  have "foldl (\<lambda>a h. max a (hash_type h)) a (h # hs) = Max (insert (max a (hash_type h)) (hash_type ` set hs))"
    unfolding foldl.simps by (rule Cons.IH)
  also have "\<dots> = Max (insert a (hash_type ` set (h # hs)))" unfolding list.set image_insert by (rule Max_insert_max) simp
  finally show ?case .
qed simp

lemma top_type_bounds: "top_type hs < int (length hash_ops)"
  using hash_type_range by (auto simp: top_type_def fold_top hash_ops_def)

lemma top_type_known: "top_type hs \<ge> 0 \<longleftrightarrow> (\<exists>h \<in> set hs. map_of hashType (mh_type h) \<noteq> None)"
proof -
  have "hash_type h \<ge> 0 \<longleftrightarrow> map_of hashType (mh_type h) \<noteq> None" for h
    by (auto simp: hash_type_def split: option.split)
  then show ?thesis by (simp add: top_type_def fold_top Max_ge_iff)
qed

lemma compared_decodes:
  assumes "compared t h" and "0 \<le> t"
  obtains bs where "TDNFChecksumFromHexDigest (Some (mh_value h)) = Some (Inr bs)" "length bs = snd (hash_ops ! nat t)"
proof -
  have h: "TDNFCheckHexDigest (Some (mh_value h)) (int (snd (hash_ops ! nat t)))" using assms by (simp add: compared_def)
  have "nat t < length hash_ops" using assms hash_type_range [of h] by (auto simp: compared_def)
  then have "snd (hash_ops ! nat t) \<le> 64" by (auto simp: hash_ops_def nth_Cons split: nat.splits)
  moreover have "2 * snd (hash_ops ! nat t) = length (mh_value h)" using h by (auto simp: TDNFCheckHexDigest_def split: if_splits)
  ultimately have "length (mh_value h) \<le> SIZE_MAX" by simp
  from CheckHexDigest_guards [OF h this] that show thesis by auto
qed

lemma check_hash_agrees:
  assumes u: "compared t h" "0 \<le> t" and f: "f \<noteq> []" and d: "dig f (fst (hash_ops ! nat t)) = Inr d"
    and b: "TDNFChecksumFromHexDigest (Some (mh_value h)) = Some (Inr bs)"
  shows "TDNFCheckHash dig (Some f) (Some bs) t = (if agrees dig f t h then Inr () else Inl ERROR_TDNF_CHECKSUM_VALIDATION_FAILED)"
proof -
  have l: "length bs = snd (hash_ops ! nat t)" using compared_decodes [OF u] b by auto
  have "t < int (length hash_ops)" using u hash_type_range [of h] by (simp add: compared_def)
  with u f d b l show ?thesis by (auto simp: TDNFCheckHash_def agrees_def Let_def split: prod.split)
qed

lemma check_hashes_accepts:
  assumes t: "0 \<le> t" and f: "f \<noteq> []" and d: "dig f (fst (hash_ops ! nat t)) = Inr d"
    and ty: "\<forall>h \<in> set hs. mh_type h \<noteq> []"
  shows "check_hashes dig f t hs e = Some (Inr ()) \<longleftrightarrow>
    (\<exists>h \<in> set hs. compared t h \<and> agrees dig f t h) \<or> (if hs = [] then e = 0 else \<not> compared t (last hs))"
  using ty
proof (induction hs arbitrary: e)
  case (Cons h hs)
  have r: "TDNFGetResourceType (mh_type h) = Inr (hash_type h)" using Cons.prems by (simp add: resource_type)
  show ?case
  proof (cases "compared t h")
    case False
    then have "check_hashes dig f t (h # hs) e = check_hashes dig f t hs 0" using r by (auto simp: compared_def)
    then show ?thesis using Cons False by auto
  next
    case True
    obtain bs where b: "TDNFChecksumFromHexDigest (Some (mh_value h)) = Some (Inr bs)" using compared_decodes [OF True t] by blast
    note a = check_hash_agrees [where dig = dig, OF True t f d b]
    have "check_hashes dig f t (h # hs) e =
        (if agrees dig f t h then Some (Inr ()) else check_hashes dig f t hs ERROR_TDNF_CHECKSUM_VALIDATION_FAILED)"
      using True r b a by (auto simp: compared_def)
    then show ?thesis using Cons True by auto
  qed
qed simp

lemma hashes_accepted:
  assumes "f \<noteq> []" and "\<forall>h \<in> set (mc_hashes ctx). mh_type h \<noteq> []" and "\<And>n. \<exists>d. dig f n = Inr d"
  shows "TDNFCheckRepoMDFileHashFromMetalink dig f ctx = Some (Inr ()) \<longleftrightarrow>
    (\<exists>h \<in> set (mc_hashes ctx). map_of hashType (mh_type h) \<noteq> None)
    \<and> ((\<exists>h \<in> set (mc_hashes ctx). compared (top_type (mc_hashes ctx)) h \<and> agrees dig f (top_type (mc_hashes ctx)) h)
       \<or> \<not> compared (top_type (mc_hashes ctx)) (last (mc_hashes ctx)))"
proof (cases "top_type (mc_hashes ctx) \<ge> 0")
  case False
  then have "TDNFCheckRepoMDFileHashFromMetalink dig f ctx = Some (Inl ERROR_TDNF_INVALID_REPO_FILE)"
    using assms(1,2) by (simp add: TDNFCheckRepoMDFileHashFromMetalink_def best_hash_type_top top_type_def)
  with False show ?thesis using top_type_known [of "mc_hashes ctx"] by auto
next
  case True
  obtain d where d: "dig f (fst (hash_ops ! nat (top_type (mc_hashes ctx)))) = Inr d" using assms(3) by blast
  have "TDNFCheckRepoMDFileHashFromMetalink dig f ctx = check_hashes dig f (top_type (mc_hashes ctx)) (mc_hashes ctx) 0"
    using True assms(1,2) by (simp add: TDNFCheckRepoMDFileHashFromMetalink_def best_hash_type_top top_type_def)
  with check_hashes_accepts [where dig = dig, OF True assms(1) d assms(2)] True top_type_known [of "mc_hashes ctx"]
  show ?thesis by (cases "mc_hashes ctx = []") auto
qed

text \<open>C22: The check of a downloaded repomd file against its metalink accepts the file exactly when the metalink has a hash of a
  known kind and a hash of the best kind is that of the file, or the last hash of the metalink is not one of the best kind with
  a well-formed value: then nothing has to agree.\<close>

theorem CheckRepoMDFileHash_accepts:
  assumes "f \<noteq> []" and "\<forall>h \<in> set (mc_hashes ctx). mh_type h \<noteq> []" and "\<And>n. \<exists>d. dig f n = Inr d"
  shows "TDNFCheckRepoMDFileHashFromMetalink dig f ctx = Some (Inr ()) \<longleftrightarrow>
    (\<exists>h \<in> set (mc_hashes ctx). map_of hashType (mh_type h) \<noteq> None)
    \<and> ((\<exists>h \<in> set (mc_hashes ctx). compared (top_type (mc_hashes ctx)) h \<and> agrees dig f (top_type (mc_hashes ctx)) h)
       \<or> \<not> compared (top_type (mc_hashes ctx)) (last (mc_hashes ctx)))"
  by (rule hashes_accepted [where dig = dig, OF assms])

definition two_hashes :: ml_ctx where
  "two_hashes = no_ctx\<lparr>mc_hashes := [\<lparr>mh_type = ''sha1'', mh_value = replicate 40 (CHR ''0'')\<rparr>,
     \<lparr>mh_type = ''md5'', mh_value = replicate 32 (CHR ''0'')\<rparr>]\<rparr>"

text \<open>With the best hash in front of another one a file that has neither of them is accepted.\<close>

theorem CheckRepoMDFileHash_accepts_witness:
  "TDNFCheckRepoMDFileHashFromMetalink (\<lambda>_ _. Inr (replicate 64 7)) ''f'' two_hashes = Some (Inr ())
   \<and> \<not> agrees (\<lambda>_ _. Inr (replicate 64 7)) ''f'' 1 (mc_hashes two_hashes ! 0)
   \<and> \<not> agrees (\<lambda>_ _. Inr (replicate 64 7)) ''f'' 0 (mc_hashes two_hashes ! 1)"
proof -
  let ?dig = "\<lambda>(f :: string) (n :: string). (Inr (replicate 64 7) :: byte list result)"
  have h: "\<forall>h \<in> set (mc_hashes two_hashes). mh_type h \<noteq> []" by (simp add: two_hashes_def)
  have t: "top_type (mc_hashes two_hashes) = 1" by code_simp
  have u: "\<not> compared 1 (last (mc_hashes two_hashes))" "\<exists>h \<in> set (mc_hashes two_hashes). map_of hashType (mh_type h) \<noteq> None"
    by code_simp+
  have z: "TDNFChecksumFromHexDigest (Some (replicate (2 * n) (CHR ''0''))) = Some (Inr (replicate n 0))" if "n \<noteq> 0" "n \<le> 64" for n
  proof -
    have "hex_digest_of (replicate n 0) = replicate (2 * n) (CHR ''0'')"
      by (induction n) (simp_all add: hex_digest_of_def hex_byte_def hex_char_def char_of_def bit_0)
    then show ?thesis using Checksum_roundtrip [of "replicate n 0"] that by (cases n) auto
  qed
  have a: "\<not> agrees ?dig ''f'' 1 (mc_hashes two_hashes ! 0)" "\<not> agrees ?dig ''f'' 0 (mc_hashes two_hashes ! 1)"
    using z [of 20] z [of 16] by (simp_all add: agrees_def two_hashes_def hash_ops_def replicate_eq_replicate)
  have "TDNFCheckRepoMDFileHashFromMetalink ?dig ''f'' two_hashes = Some (Inr ())"
    by (subst CheckRepoMDFileHash_accepts [OF _ h]) (use t u in auto)
  with a show ?thesis by blast
qed

section \<open>What a document yields\<close>

text \<open>
  The elements that matter, in a document that expat reads text by text: a size, a hash with its kind, a mirror with its
  attributes, and the white space in between.
\<close>

datatype ml_item = Size nat | Hash string string | Mirror nat "string option" string | Space string

definition item_calls :: "ml_item \<Rightarrow> xml_call list" where
  "item_calls i = (case i of
     Size n \<Rightarrow> [StartElement ''size'' [], CharData (nat_string n), EndElement ''size'']
   | Hash t v \<Rightarrow> [StartElement ''hash'' [(''type'', t)], CharData v, EndElement ''hash'']
   | Mirror p loc u \<Rightarrow> [StartElement ''url'' ((''preference'', nat_string p) # (case loc of None \<Rightarrow> [] | Some l \<Rightarrow> [(''location'', l)])),
       CharData u, EndElement ''url'']
   | Space s \<Rightarrow> [CharData s])"

definition fits :: "string \<Rightarrow> bool" where
  "fits s \<longleftrightarrow> length s \<le> TDNF_DEFAULT_MAX_STRING_LEN"

definition item_fits :: "ml_item \<Rightarrow> bool" where
  "item_fits i = (case i of
     Size n \<Rightarrow> True | Hash t v \<Rightarrow> fits t \<and> fits v
   | Mirror p loc u \<Rightarrow> p \<le> 100 \<and> (case loc of None \<Rightarrow> True | Some l \<Rightarrow> fits l) \<and> length u > 4 \<and> fits u
   | Space s \<Rightarrow> True)"

definition item_url :: "nat \<Rightarrow> string option \<Rightarrow> string \<Rightarrow> ml_url" where
  "item_url p loc u = no_url\<lparr>mu_location := loc, mu_preference := int p, mu_url := Some u\<rparr>"

definition item_hashes :: "ml_item list \<Rightarrow> ml_hash list" where
  "item_hashes is = concat (map (\<lambda>i. case i of Hash t v \<Rightarrow> [\<lparr>mh_type = t, mh_value = v\<rparr>] | _ \<Rightarrow> []) is)"

definition item_urls :: "ml_item list \<Rightarrow> ml_url list" where
  "item_urls is = concat (map (\<lambda>i. case i of Mirror p loc u \<Rightarrow> [item_url p loc u] | _ \<Rightarrow> []) is)"

lemma AllocateString_fits [simp]: "fits s \<Longrightarrow> TDNFAllocateString (Some s) = Inr s"
  by (simp add: fits_def TDNFAllocateString_def)

lemma AllocateStringN_all [simp]: "TDNFAllocateStringN (Some s) (length s) = Inr s"
  by (simp add: TDNFAllocateStringN_def)

lemma scan_int_nat: "n \<le> 100 \<Longrightarrow> scan_int (nat_string n) = Some (Inr (int n))"
  using strtol10_nat_string [of "[]" n] nat_string_digits [of n] by (auto simp: scan_int_def)

lemma size_digits_nat: "size_digits (nat_string n) \<noteq> []"
  using nat_string_digits [of n] by (cases "nat_string n") (auto simp: size_digits_def)

text \<open>Between elements there is no start element, and no error so far.\<close>

definition idle :: "element_info \<Rightarrow> bool" where
  "idle ei \<longleftrightarrow> ei_dwError ei = 0 \<and> ei_filename ei \<noteq> [] \<and> ei_startElement ei = None"

lemma item_run:
  assumes "idle ei" and "item_fits i"
  shows "\<exists>ei'. xml_calls (item_calls i) ei = Some ei' \<and> idle ei'
    \<and> mc_hashes (ei_ctx ei') = mc_hashes (ei_ctx ei) @ item_hashes [i] \<and> mc_urls (ei_ctx ei') = mc_urls (ei_ctx ei) @ item_urls [i]"
proof -
  note run = xml_call_def TDNFXmlParseStartElement_def TDNFXmlParseData_def TDNFXmlParseEndElement_def keep_error_def
  show ?thesis
  proof (cases i)
    case (Size n) then show ?thesis using assms size_digits_nat [of n]
      by (simp add: item_calls_def run idle_def item_hashes_def item_urls_def)
  next
    case (Hash t v) then show ?thesis using assms
      by (simp add: item_calls_def run idle_def item_hashes_def item_urls_def TDNFParseHashTag_def TDNFSearchTag_def TDNFAppendList_def item_fits_def)
  next
    case (Mirror p loc u)
    then have o: "p \<le> 100" "length u > 4" "fits u" "\<And>l. loc = Some l \<Longrightarrow> fits l" using assms(2) by (auto simp: item_fits_def)
    have "url_attributes ((''preference'', nat_string p) # (case loc of None \<Rightarrow> [] | Some l \<Rightarrow> [(''location'', l)])) False no_url
        = Some (Inr (no_url\<lparr>mu_location := loc, mu_preference := int p\<rparr>))"
      using o by (cases loc) (simp_all add: scan_int_nat url_preference_def free_value_def url_text_def no_url_def)
    with o assms(1) Mirror show ?thesis
      by (simp add: item_calls_def run idle_def item_hashes_def item_urls_def TDNFParseUrlTag_def TDNFAppendList_def item_url_def)
  next
    case (Space s) then show ?thesis using assms
      by (simp add: item_calls_def run idle_def item_hashes_def item_urls_def)
  qed
qed

lemma xml_calls_append: "xml_calls (cs @ ds) ei = (case xml_calls cs ei of None \<Rightarrow> None | Some ei' \<Rightarrow> xml_calls ds ei')"
  by (induction cs arbitrary: ei) (simp_all split: option.split)

lemma items_run:
  assumes "idle ei" and "list_all item_fits is"
  shows "\<exists>ei'. xml_calls (concat (map item_calls is)) ei = Some ei' \<and> idle ei'
    \<and> mc_hashes (ei_ctx ei') = mc_hashes (ei_ctx ei) @ item_hashes is \<and> mc_urls (ei_ctx ei') = mc_urls (ei_ctx ei) @ item_urls is"
  using assms
proof (induction "is" arbitrary: ei)
  case (Cons i "is")
  from item_run [OF Cons.prems(1)] Cons.prems(2) obtain e1 where e1: "xml_calls (item_calls i) ei = Some e1" "idle e1"
    "mc_hashes (ei_ctx e1) = mc_hashes (ei_ctx ei) @ item_hashes [i]" "mc_urls (ei_ctx e1) = mc_urls (ei_ctx ei) @ item_urls [i]"
    by auto
  from Cons.IH [OF e1(2)] Cons.prems(2) e1 show ?case by (auto simp: xml_calls_append item_hashes_def item_urls_def)
qed (simp add: item_hashes_def item_urls_def)

lemma ParseFile_items:
  assumes "expat (text @ [CHR 0x00]) = (concat (map item_calls is), 0)" and "list_all item_fits is" and "filename \<noteq> []"
  shows "\<exists>ctx. TDNFMetalinkParseFile expat no_ctx text filename = Some (Inr ctx)
    \<and> mc_hashes ctx = item_hashes is \<and> mc_urls ctx = item_urls is"
proof -
  have "idle (start_info no_ctx filename)" using assms(3) by (simp add: idle_def start_info_def)
  from items_run [OF this assms(2)] assms show ?thesis
    by (auto simp: TDNFMetalinkParseFile_def idle_def start_info_def no_ctx_def)
qed

end
