(* ===== verification/Metalink_Plugin.thy ===== *)
theory Metalink_Plugin
  imports Metalink_Parse Rpm_Sample
begin

text \<open>
  The metalink plugin, its events (\<^verbatim>\<open>plugins/metalink/metalink.c\<close>, \<^verbatim>\<open>api.c\<close>): the repositories with a metalink are
  remembered when their configuration is read, the metalink is fetched and turned into mirrors in front of a download,
  and the downloaded file is compared with its hashes behind it.
\<close>

section \<open>State\<close>

record metalink_data =
  mk_pszRepoId :: string
  mk_pszMetalink :: string
  mk_ml_ctx :: "ml_ctx option"

text \<open>The world with the handle of the plugin; \<open>mlw_pTdnf\<close> is the pointer that the first event brings, 0 before it.\<close>

record ml_world = meta +
  mlw_pTdnf :: nat
  mlw_pData :: "metalink_data list"

text \<open>\<open>mv_node\<close> is what a pointer to a section of the configuration leads to.\<close>

record ml_env =
  mv_net :: download_env
  mv_lib :: rpmlib
  mv_expat :: expat
  mv_node :: "nat \<Rightarrow> cnfnode"
  mv_dirs :: "cnfnode option option"
  mv_releasever :: "string option"
  mv_basearch :: "string option"

abbreviation (input) repomd_path :: string where "repomd_path \<equiv> ''repodata/repomd.xml''"

section \<open>Reading of the configuration\<close>

definition metalink_of :: "string \<Rightarrow> metalink_data list \<Rightarrow> metalink_data option" where
  "metalink_of pcszRepoId ds = find (\<lambda>d. mk_pszRepoId d = pcszRepoId) ds"

definition TDNFHasRepo :: "string \<Rightarrow> metalink_data list \<Rightarrow> bool result" where
  "TDNFHasRepo pcszRepoId ds =
     (if pcszRepoId = [] then Inl ERROR_TDNF_INVALID_PARAMETER else Inr (metalink_of pcszRepoId ds \<noteq> None))"

text \<open>The last setting of the section; nodes without a value and comments are passed over.\<close>

fun metalink_setting :: "cnfnode list \<Rightarrow> string option \<Rightarrow> string option" where
  "metalink_setting [] pszMetalink = pszMetalink"
| "metalink_setting (cn # cns) pszMetalink =
     metalink_setting cns
       (if starts (CHR ''.'') (cn_name cn) \<or> cn_value cn = None then pszMetalink
        else if cn_name cn = ''metalink'' then cn_value cn else pszMetalink)"

definition TDNFMetalinkReadConfig :: "ml_env \<Rightarrow> event_context \<Rightarrow> ('z ml_world_scheme, unit) prog" where
  "TDNFMetalinkReadConfig env pContext w =
     (if mlw_pTdnf w = 0 then errorP ERROR_TDNF_INVALID_PARAMETER w
      else bindP (liftR (TDNFEventContextGetItemPtr pContext (Some ''repo.section''))) (\<lambda>p.
        let cn_section = mv_node env p in
        case metalink_setting (first_child cn_section) None of
          None \<Rightarrow> returnP ()
        | Some pszMetalink \<Rightarrow>
            bindP (liftR (TDNFAllocateString (Some (cn_name cn_section)))) (\<lambda>pszRepoId.
            bindP (liftR (TDNFAllocateString (Some pszMetalink))) (\<lambda>pszMetalink.
            bindP (liftU (TDNFConfigReplaceVars (mv_dirs env) (mv_releasever env) (mv_basearch env) (Some pszMetalink))) (\<lambda>pszMetalink w.
              Some (Inr (), w\<lparr>mlw_pData := \<lparr>mk_pszRepoId = pszRepoId, mk_pszMetalink = pszMetalink, mk_ml_ctx = None\<rparr> # mlw_pData w\<rparr>))))) w)"

section \<open>Mirrors\<close>

definition TDNFParseAndGetURLFromMetalink :: "expat \<Rightarrow> string \<Rightarrow> ('z files_scheme, ml_ctx) prog" where
  "TDNFParseAndGetURLFromMetalink expat pszFile =
     (if pszFile = [] then errorP ERROR_TDNF_INVALID_PARAMETER
      else bindP (open_text pszFile) (\<lambda>text.
           bindP (liftU (TDNFMetalinkParseFile expat no_ctx text ''repomd.xml'')) (\<lambda>ctx.
             returnP (ctx\<lparr>mc_urls := TDNFSortListOnPreference (mc_urls ctx)\<rparr>))))"

text \<open>A URL is copied to a buffer of 8192 bytes before its suffix is taken off.\<close>

definition base_url :: "ml_url \<Rightarrow> string result" where
  "base_url u =
     (case TDNFStringEndsWith (mu_url u) (Some repomd_path) of
        Inl _ \<Rightarrow> Inl ERROR_TDNF_INVALID_REPO_FILE
      | Inr _ \<Rightarrow> bail (TDNFTrimSuffix (Some (take 8191 (the (mu_url u)))) (Some repomd_path)) (\<lambda>b. TDNFAllocateString (Some b)))"

fun base_urls :: "ml_url list \<Rightarrow> string list result" where
  "base_urls [] = Inr []"
| "base_urls (u # us) = bail (base_url u) (\<lambda>b. bail (base_urls us) (\<lambda>bs. Inr (b # bs)))"

definition TDNFGetUrlsFromMLCtx :: "ml_ctx \<Rightarrow> string list result" where
  "TDNFGetUrlsFromMLCtx ctx = base_urls (mc_urls ctx)"

text \<open>The first repository with an id, and the first entry of the plugin for it, are changed.\<close>

fun alter_first :: "('a \<Rightarrow> bool) \<Rightarrow> ('a \<Rightarrow> 'a) \<Rightarrow> 'a list \<Rightarrow> 'a list" where
  "alter_first P f [] = []"
| "alter_first P f (x # xs) = (if P x then f x # xs else x # alter_first P f xs)"

definition set_mirrors :: "string \<Rightarrow> string list \<Rightarrow> ml_ctx \<Rightarrow> ('z ml_world_scheme, unit) prog" where
  "set_mirrors pcszRepoId us ctx w = Some (Inr (),
     w\<lparr>mw_repos := alter_first (\<lambda>r. rp_pszId r = pcszRepoId) (\<lambda>r. r\<lparr>rp_ppszBaseUrls := Some us\<rparr>) (mw_repos w),
       mlw_pData := alter_first (\<lambda>d. mk_pszRepoId d = pcszRepoId) (\<lambda>d. d\<lparr>mk_ml_ctx := Some ctx\<rparr>) (mlw_pData w)\<rparr>)"

text \<open>The metalink that is there is used, unless a refresh is asked for.\<close>

definition fetch_metalink :: "ml_env \<Rightarrow> repo_data \<Rightarrow> string \<Rightarrow> string \<Rightarrow> ('z meta_scheme, unit) prog" where
  "fetch_metalink env pRepo pcszRepoDataDir pszMetaLinkFile =
     bindP (readP mw_nRefresh) (\<lambda>nRefresh.
     bindP (readP (sys_access pszMetaLinkFile)) (\<lambda>e.
       if nRefresh \<or> e \<noteq> 0
       then bindP (make_dirs_ok pcszRepoDataDir) (\<lambda>_.
              TDNFDownloadFile (mv_net env) pRepo (path_or_empty (rp_pszMetaLink pRepo)) pszMetaLinkFile (Some (rp_pszId pRepo)))
       else returnP ()))"

definition TDNFMetalinkGetBaseURLs :: "ml_env \<Rightarrow> string \<Rightarrow> string \<Rightarrow> ('z ml_world_scheme, unit) prog" where
  "TDNFMetalinkGetBaseURLs env pcszRepoId pcszRepoDataDir w =
     (if mlw_pTdnf w = 0 \<or> pcszRepoId = [] \<or> pcszRepoDataDir = [] then errorP ERROR_TDNF_INVALID_PARAMETER w
      else bindP (liftR (TDNFFindRepoById (mw_repos w) pcszRepoId)) (\<lambda>pRepo.
        if metalink_of pcszRepoId (mlw_pData w) = None then errorP ERROR_TDNF_INVALID_PARAMETER
        else bindP (liftR (TDNFJoinPath [pcszRepoDataDir, ''metalink''])) (\<lambda>f.
             bindP (fetch_metalink env pRepo pcszRepoDataDir (path_or_empty f)) (\<lambda>_.
             bindP (TDNFParseAndGetURLFromMetalink (mv_expat env) (path_or_empty f)) (\<lambda>ctx.
             bindP (liftR (TDNFGetUrlsFromMLCtx ctx)) (\<lambda>us.
               set_mirrors pcszRepoId us ctx))))) w)"

definition TDNFMetalinkRepoMDDownloadStart :: "ml_env \<Rightarrow> event_context \<Rightarrow> ('z ml_world_scheme, unit) prog" where
  "TDNFMetalinkRepoMDDownloadStart env pContext w =
     (if mlw_pTdnf w = 0 then errorP ERROR_TDNF_INVALID_PARAMETER w
      else bindP (liftR (TDNFEventContextGetItemString pContext (Some ''repo.id''))) (\<lambda>pcszRepoId.
           bindP (liftR (TDNFHasRepo pcszRepoId (mlw_pData w))) (\<lambda>nHasRepo.
             if \<not> nHasRepo then returnP ()
             else bindP (liftR (TDNFEventContextGetItemString pContext (Some ''repo.datadir''))) (\<lambda>pcszRepoDataDir.
                    TDNFMetalinkGetBaseURLs env pcszRepoId pcszRepoDataDir))) w)"

section \<open>Hashes\<close>

text \<open>The digest of a file, in a zeroed buffer of 64 bytes.\<close>

definition file_digest :: "rpmlib \<Rightarrow> 'z files_scheme \<Rightarrow> string \<Rightarrow> string \<Rightarrow> byte list result" where
  "file_digest lib w f name = bail (fst (the (TDNFGetDigestForFile lib f name w))) (\<lambda>d. Inr (map word_of_nat (d @ replicate (64 - length d) 0)))"

definition TDNFCheckRepoMDFileHash :: "ml_env \<Rightarrow> string \<Rightarrow> string \<Rightarrow> ('z ml_world_scheme, unit) prog" where
  "TDNFCheckRepoMDFileHash env pcszRepoId pcszRepoMDFile w =
     (if mlw_pTdnf w = 0 \<or> pcszRepoId = [] \<or> pcszRepoMDFile = [] then errorP ERROR_TDNF_INVALID_PARAMETER w
      else bindP (liftR (TDNFFindRepoById (mw_repos w) pcszRepoId)) (\<lambda>pRepo.
        case map_option mk_ml_ctx (metalink_of pcszRepoId (mlw_pData w)) of
          Some (Some ctx) \<Rightarrow>
            liftU (TDNFCheckRepoMDFileHashFromMetalink (file_digest (mv_lib env) w) pcszRepoMDFile ctx)
        | _ \<Rightarrow> errorP ERROR_TDNF_INVALID_PARAMETER) w)"

definition TDNFMetalinkRepoMDDownloadEnd :: "ml_env \<Rightarrow> event_context \<Rightarrow> ('z ml_world_scheme, unit) prog" where
  "TDNFMetalinkRepoMDDownloadEnd env pContext w =
     (if mlw_pTdnf w = 0 then errorP ERROR_TDNF_INVALID_PARAMETER w
      else bindP (liftR (TDNFEventContextGetItemString pContext (Some ''repo.id''))) (\<lambda>pcszRepoId.
           bindP (liftR (TDNFHasRepo pcszRepoId (mlw_pData w))) (\<lambda>nHasRepo.
             if \<not> nHasRepo then returnP ()
             else bindP (liftR (TDNFEventContextGetItemString pContext (Some ''repomd.file''))) (\<lambda>pcszRepoMDFile.
                    TDNFCheckRepoMDFileHash env pcszRepoId pcszRepoMDFile))) w)"

section \<open>The interface\<close>

unbundle bit_operations_syntax

definition TDNFMetalinkEventsNeeded :: "32 word" where
  "TDNFMetalinkEventsNeeded = 2 OR 4"

definition TDNFMetalinkInitialize :: "'z ml_world_scheme \<Rightarrow> 'z ml_world_scheme" where
  "TDNFMetalinkInitialize w = w\<lparr>mlw_pTdnf := 0, mlw_pData := []\<rparr>"

definition TDNFMetalinkEvent :: "ml_env \<Rightarrow> event_context \<Rightarrow> ('z ml_world_scheme, unit) prog" where
  "TDNFMetalinkEvent env pContext =
     (let nEventType = PLUGIN_EVENT_TYPE (nEvent pContext); nEventState = PLUGIN_EVENT_STATE (nEvent pContext);
          nEventPhase = PLUGIN_EVENT_PHASE (nEvent pContext) in
      if nEventType = 1
      then bindP (liftR (TDNFEventContextGetItemPtr pContext (Some ''tdnf.handle''))) (\<lambda>p w. Some (Inr (), w\<lparr>mlw_pTdnf := p\<rparr>))
      else if nEventType = 2
      then (if nEventState = 3 \<and> nEventPhase = 2 then TDNFMetalinkReadConfig env pContext else returnP ())
      else if nEventType = 4
      then (if nEventState = 1 \<and> nEventPhase = 1 then TDNFMetalinkRepoMDDownloadStart env pContext
            else if nEventState = 1 \<and> nEventPhase = 2 then TDNFMetalinkRepoMDDownloadEnd env pContext
            else returnP ())
      else returnP ())"

definition METALINK_ERROR_TABLE :: "(errcode \<times> string) list" where
  "METALINK_ERROR_TABLE =
     [(2701, ''Failed to parse and create document tree''), (2702, ''Root element not found''),
      (MISSING_FILE_ATTR, ''Missing filename in metalink file''), (INVALID_FILE_NAME, ''Invalid filename present''),
      (MISSING_FILE_SIZE, ''Missing file size in metalink file''), (MISSING_HASH_ATTR, ''Missing attribute in hash tag''),
      (MISSING_HASH_CONTENT, ''Missing content in hash tag value''), (MISSING_URL_ATTR, ''Missing attribute in url tag''),
      (MISSING_HASH_CONTENT, ''Missing content in url tag value'')]"

text \<open>An error that is not in the table is printed through NULL.\<close>

definition TDNFMetalinkGetErrorString :: "errcode \<Rightarrow> string result option" where
  "TDNFMetalinkGetErrorString nErrorCode =
     (case (if nErrorCode > ERROR_TDNF_METALINK_START \<and> nErrorCode < 2710 then map_of METALINK_ERROR_TABLE nErrorCode else None) of
        None \<Rightarrow> None
      | Some pszErrorPre \<Rightarrow> Some (TDNFAllocateStringPrintf 0 (''metalink plugin error: '' @ pszErrorPre @ [CHR 0x0A])))"

text \<open>Errors of libcurl, of the file system and of parameters come from the plugin too, and have no text there.\<close>

theorem MetalinkGetErrorString_null:
  "TDNFMetalinkGetErrorString e \<noteq> None \<longleftrightarrow> 2701 \<le> e \<and> e \<le> 2708"
  by (auto simp: TDNFMetalinkGetErrorString_def METALINK_ERROR_TABLE_def split: if_splits)

section \<open>From the document to the mirrors\<close>

lemma net_free_ml [simp]:
  "net_free mlw_pData" "net_free mlw_pTdnf" "files_free mlw_pData" "files_free mlw_pTdnf"
  by (simp_all add: net_free_def files_free_def)

lemma leaves_fetch_metalink [simp]: "net_free g \<Longrightarrow> leaves g (fetch_metalink env r d f)"
  by (auto simp: fetch_metalink_def leaves_download net_free_files)

lemma TrimSuffix_parts: "TDNFTrimSuffix (Some s) (Some x) = Inr b \<Longrightarrow> s = b @ x"
  by (auto simp: TDNFTrimSuffix_def split: if_splits option.splits)

lemma base_url_parts: "base_url u = Inr b \<Longrightarrow> take 8191 (the (mu_url u)) = b @ repomd_path"
  unfolding base_url_def bail_Inr_iff by (split sum.splits) (auto simp: bail_Inr_iff simp del: append_Cons dest: TrimSuffix_parts)

lemma base_urls_parts: "base_urls us = Inr bs \<Longrightarrow> list_all2 (\<lambda>b u. take 8191 (the (mu_url u)) = b @ repomd_path) bs us"
  by (induction us arbitrary: bs) (auto simp: bail_Inr_iff base_url_parts simp del: append_Cons)

lemma open_text_run: "sys_open f w = Inr t \<Longrightarrow> open_text f w = Some (Inr t, w)"
  by (simp add: open_text_def bindP_def readP_def)

lemma open_text_same: "open_text f w = Some (Inr t, w') \<Longrightarrow> w' = w \<and> sys_open f w = Inr t"
  by (auto simp: open_text_def bindP_def readP_def split: sum.splits)

text \<open>The event in front of a download, with what the metalink file holds once it is fetched.\<close>

lemma GetBaseURLs_runs:
  assumes m: "TDNFMetalinkGetBaseURLs env i d w = Some (Inr (), w')" and f: "TDNFJoinPath [d, ''metalink''] = Inr (Some f)"
    and t: "sys_open f w' = Inr text" and e: "mv_expat env (text @ [CHR 0x00]) = (concat (map item_calls is), 0)" "list_all item_fits is"
  shows "\<exists>bs ctx. mw_repos w' = alter_first (\<lambda>r. rp_pszId r = i) (\<lambda>r. r\<lparr>rp_ppszBaseUrls := Some bs\<rparr>) (mw_repos w)
    \<and> mlw_pData w' = alter_first (\<lambda>d. mk_pszRepoId d = i) (\<lambda>d. d\<lparr>mk_ml_ctx := Some ctx\<rparr>) (mlw_pData w)
    \<and> list_all2 (\<lambda>b u. take 8191 (the (mu_url u)) = b @ repomd_path) bs (sort_key (\<lambda>u. - mu_preference u) (item_urls is))
    \<and> mc_hashes ctx = item_hashes is"
proof -
  obtain r v ctx u where r: "fetch_metalink env r d f w = Some (Inr (), v)"
    and c: "TDNFParseAndGetURLFromMetalink (mv_expat env) f v = Some (Inr ctx, u)"
    and s: "bindP (liftR (TDNFGetUrlsFromMLCtx ctx)) (\<lambda>us. set_mirrors i us ctx) u = Some (Inr (), w')"
    using m f by (auto simp: TDNFMetalinkGetBaseURLs_def bindP_ok path_or_empty_def split: if_splits)
  obtain bs where b: "base_urls (mc_urls ctx) = Inr bs" and w': "set_mirrors i bs ctx u = Some (Inr (), w')"
    using s by (auto simp: bindP_ok TDNFGetUrlsFromMLCtx_def)
  obtain ft c0 where o: "sys_open f v = Inr ft" "u = v" and p: "TDNFMetalinkParseFile (mv_expat env) no_ctx ft ''repomd.xml'' = Some (Inr c0)"
    and cc: "ctx = c0\<lparr>mc_urls := TDNFSortListOnPreference (mc_urls c0)\<rparr>"
    using c by (auto simp: TDNFParseAndGetURLFromMetalink_def bindP_ok dest!: open_text_same split: if_splits)
  have "node_at w' k = node_at u k" "fs_deny w' = fs_deny u" for k using w' by (auto simp: set_mirrors_def node_at_def)
  then have "ft = text" using t o by (auto simp: sys_open_def split: if_splits option.splits file_node.splits)
  with ParseFile_items [where expat = "mv_expat env" and filename = "''repomd.xml''", OF e] p have h: "mc_hashes c0 = item_hashes is" "mc_urls c0 = item_urls is" by auto
  have k: "mw_repos v = mw_repos w" "mlw_pData v = mlw_pData w"
    using r leavesD [OF leaves_fetch_metalink r, of mw_repos] leavesD [OF leaves_fetch_metalink r, of mlw_pData] net_free_ml by (auto simp: net_free_def files_free_def)
  have us: "mc_urls ctx = sort_key by_preference (item_urls is)" by (simp add: cc h sort_mirrors)
  show ?thesis
  proof (intro exI conjI)
    show "mw_repos w' = alter_first (\<lambda>r. rp_pszId r = i) (\<lambda>r. r\<lparr>rp_ppszBaseUrls := Some bs\<rparr>) (mw_repos w)"
      "mlw_pData w' = alter_first (\<lambda>d. mk_pszRepoId d = i) (\<lambda>d. d\<lparr>mk_ml_ctx := Some ctx\<rparr>) (mlw_pData w)"
      using w' k o(2) by (auto simp: set_mirrors_def)
    show "list_all2 (\<lambda>b u. take 8191 (the (mu_url u)) = b @ repomd_path) bs (sort_key (\<lambda>u. - mu_preference u) (item_urls is))"
      using base_urls_parts [OF b] us by simp
    show "mc_hashes ctx = item_hashes is" by (simp add: cc h)
  qed
qed

lemma download_start:
  "PLUGIN_EVENT_TYPE (MAKE_PLUGIN_EVENT 4 1 1) = 4" "PLUGIN_EVENT_STATE (MAKE_PLUGIN_EVENT 4 1 1) = 1"
  "PLUGIN_EVENT_PHASE (MAKE_PLUGIN_EVENT 4 1 1) = 1"
  by (simp_all add: PLUGIN_EVENT_TYPE_def PLUGIN_EVENT_STATE_def PLUGIN_EVENT_PHASE_def MAKE_PLUGIN_EVENT_def)


definition ml_items :: "ml_item list" where
  "ml_items = [Space ''x'', Hash ''sha1'' ''00'', Mirror 10 None ''http://a/repodata/repomd.xml'', Mirror 90 None ''http://b/repodata/repomd.xml'']"

definition ml_repo :: repo_data where
  "ml_repo = (repo_defaults conf_defaults ''r'')\<lparr>rp_pszMetaLink := Some ''http://m''\<rparr>"

definition ml_sample_env :: ml_env where
  "ml_sample_env = \<lparr>mv_net = net_env, mv_lib = sample_rpmlib, mv_expat = (\<lambda>_. (concat (map item_calls ml_items), 0)),
     mv_node = (\<lambda>_. create_cnfnode []), mv_dirs = None, mv_releasever = None, mv_basearch = None\<rparr>"

definition ml_sample_world :: ml_world where
  "ml_sample_world = \<lparr>fs_nodes = [([''c''], Dir), ([''c'', ''metalink''], File ''xml'' 1)], fs_deny = (\<lambda>_ _. 0), fs_now = 5,
     nt_tries = 0, nt_log = [], mw_repos = [ml_repo], mw_nRefresh = False, mw_pool = [], mlw_pTdnf = 1,
     mlw_pData = [\<lparr>mk_pszRepoId = ''r'', mk_pszMetalink = ''http://m'', mk_ml_ctx = None\<rparr>]\<rparr>"

definition ml_start :: event_context where
  "ml_start = \<lparr>nEvent = MAKE_PLUGIN_EVENT 4 1 1, pData = [(''repo.datadir'', EvString ''/c''), (''repo.id'', EvString ''r'')]\<rparr>"

lemma ml_paths: "TDNFJoinPath [''/c'', ''metalink''] = Inr (Some ''/c/metalink'')" "resolve ''/c/metalink'' = [''c'', ''metalink'']"
  by (simp_all add: TDNFJoinPath_def is_slash_def strip_trailing_slashes_def Let_def TDNFAllocateString_def TDNF_DEFAULT_MAX_STRING_LEN_def resolve_def)

lemma ml_open: "sys_open ''/c/metalink'' ml_sample_world = Inr ''xml''" "sys_access ''/c/metalink'' ml_sample_world = 0"
  by (simp_all add: sys_open_def sys_access_def ml_paths ml_sample_world_def node_at_def)

lemma ml_items_fit: "list_all item_fits ml_items"
  by (simp add: ml_items_def item_fits_def fits_def TDNF_DEFAULT_MAX_STRING_LEN_def)

lemma ml_items_urls:
  "sort_key (\<lambda>u. - mu_preference u) (item_urls ml_items) = [item_url 90 None ''http://b/repodata/repomd.xml'', item_url 10 None ''http://a/repodata/repomd.xml'']"
  by (simp add: ml_items_def item_urls_def item_url_def no_url_def)

lemma ml_base: "base_urls [item_url 90 None ''http://b/repodata/repomd.xml'', item_url 10 None ''http://a/repodata/repomd.xml''] = Inr [''http://b/'', ''http://a/'']"
  by (simp add: base_url_def item_url_def TDNFStringEndsWith_def Let_def TDNFTrimSuffix_def TDNFAllocateString_def TDNF_DEFAULT_MAX_STRING_LEN_def)

lemma ml_start_items:
  "TDNFEventContextGetItemString ml_start (Some ''repo.id'') = Inr ''r''" "TDNFEventContextGetItemString ml_start (Some ''repo.datadir'') = Inr ''/c''"
  by (simp_all add: ml_start_def TDNFEventContextGetItemString_def TDNFEventContextGetItem_def)

lemma ml_start_event:
  "PLUGIN_EVENT_TYPE (nEvent ml_start) = 4" "PLUGIN_EVENT_STATE (nEvent ml_start) = 1" "PLUGIN_EVENT_PHASE (nEvent ml_start) = 1"
  by (simp_all add: ml_start_def download_start)

lemma ml_start_run: "\<exists>w'. TDNFMetalinkEvent ml_sample_env ml_start ml_sample_world = Some (Inr (), w') \<and> sys_open ''/c/metalink'' w' = Inr ''xml''"
proof -
  have x: "mv_expat ml_sample_env (''xml'' @ [CHR 0x00]) = (concat (map item_calls ml_items), 0)" by (simp add: ml_sample_env_def)
  obtain ctx where p: "TDNFMetalinkParseFile (mv_expat ml_sample_env) no_ctx ''xml'' ''repomd.xml'' = Some (Inr ctx)" "mc_urls ctx = item_urls ml_items"
    using ParseFile_items [where expat = "mv_expat ml_sample_env" and filename = "''repomd.xml''", OF x ml_items_fit] by auto
  have f: "fetch_metalink ml_sample_env ml_repo ''/c'' ''/c/metalink'' ml_sample_world = Some (Inr (), ml_sample_world)"
    using ml_open(2) by (simp add: fetch_metalink_def bindP_def readP_def) (simp add: ml_sample_world_def)
  have o: "open_text ''/c/metalink'' ml_sample_world = Some (Inr ''xml'', ml_sample_world)" using open_text_run ml_open(1) by blast
  let ?c = "ctx\<lparr>mc_urls := TDNFSortListOnPreference (mc_urls ctx)\<rparr>"
  have u: "base_urls (mc_urls ?c) = Inr [''http://b/'', ''http://a/'']"
    using ml_items_urls ml_base p(2) by (simp add: sort_mirrors)
  have r: "TDNFParseAndGetURLFromMetalink (mv_expat ml_sample_env) ''/c/metalink'' ml_sample_world = Some (Inr ?c, ml_sample_world)"
    using o p(1) by (simp add: TDNFParseAndGetURLFromMetalink_def bindP_def)
  have w: "mlw_pTdnf ml_sample_world = 1" "TDNFFindRepoById (mw_repos ml_sample_world) ''r'' = Inr ml_repo"
    "\<exists>d. metalink_of ''r'' (mlw_pData ml_sample_world) = Some d"
    by (simp_all add: ml_sample_world_def TDNFFindRepoById_def ml_repo_def repo_defaults_def metalink_of_def)
  have "TDNFMetalinkGetBaseURLs ml_sample_env ''r'' ''/c'' ml_sample_world = set_mirrors ''r'' [''http://b/'', ''http://a/''] ?c ml_sample_world"
    using w f r u by (auto simp: TDNFMetalinkGetBaseURLs_def bindP_def ml_paths path_or_empty_def TDNFGetUrlsFromMLCtx_def)
  then have "TDNFMetalinkEvent ml_sample_env ml_start ml_sample_world = set_mirrors ''r'' [''http://b/'', ''http://a/''] ?c ml_sample_world"
    using w ml_start_items
    by (auto simp: TDNFMetalinkEvent_def TDNFMetalinkRepoMDDownloadStart_def bindP_def TDNFHasRepo_def ml_start_event)
  moreover have "sys_open ''/c/metalink'' (w\<lparr>mw_repos := a, mlw_pData := b\<rparr>) = sys_open ''/c/metalink'' w" if "sys_open ''/c/metalink'' w = Inr t" for w :: ml_world and a b t
    using that by (auto simp: sys_open_def node_at_def split: if_splits option.splits file_node.splits)
  ultimately show ?thesis using ml_open(1) by (simp add: set_mirrors_def)
qed


section \<open>From the document to the check\<close>

lemma DigestForFile_run: "f \<noteq> [] \<Longrightarrow> sys_open f w = Inr t \<Longrightarrow> rl_evp lib n t = EVP_OK bs \<Longrightarrow> TDNFGetDigestForFile lib f n w = Some (Inr bs, w)"
  by (simp add: TDNFGetDigestForFile_def open_text_run bindP_def digest_error_def)

lemma alter_first_metalink:
  "metalink_of i ds \<noteq> None \<Longrightarrow> \<exists>d. metalink_of i (alter_first (\<lambda>d. mk_pszRepoId d = i) (\<lambda>d. d\<lparr>mk_ml_ctx := Some c\<rparr>) ds) = Some d \<and> mk_ml_ctx d = Some c"
  by (induction ds) (auto simp: metalink_of_def)

text \<open>The event behind the download of a file that can be read: what the check of the hashes accepts, with those of the document.\<close>

theorem DownloadEnd_checks:
  assumes "TDNFEventContextGetItemString c (Some ''repo.id'') = Inr i" and "TDNFEventContextGetItemString c (Some ''repomd.file'') = Inr f"
    and "mlw_pData w = alter_first (\<lambda>d. mk_pszRepoId d = i) (\<lambda>d. d\<lparr>mk_ml_ctx := Some ctx\<rparr>) ds" and "metalink_of i ds \<noteq> None"
    and "mc_hashes ctx = item_hashes is" and "\<forall>h \<in> set (item_hashes is). mh_type h \<noteq> []"
    and "sys_open f w = Inr t" and "\<And>n. \<exists>bs. rl_evp (mv_lib env) n t = EVP_OK bs"
    and "TDNFMetalinkRepoMDDownloadEnd env c w = Some (Inr (), w')"
  shows "(\<exists>h \<in> set (item_hashes is). compared (top_type (item_hashes is)) h \<and> agrees (file_digest (mv_lib env) w) f (top_type (item_hashes is)) h)
    \<or> \<not> compared (top_type (item_hashes is)) (last (item_hashes is))"
proof -
  let ?dig = "file_digest (mv_lib env) w"
  obtain d where d: "metalink_of i (mlw_pData w) = Some d" "mk_ml_ctx d = Some ctx" using alter_first_metalink [OF assms(4)] assms(3) by metis
  have r: "TDNFCheckRepoMDFileHashFromMetalink ?dig f ctx = Some (Inr ())" and f: "f \<noteq> []"
    using assms(1,2,9) d by (auto simp: TDNFMetalinkRepoMDDownloadEnd_def TDNFHasRepo_def TDNFCheckRepoMDFileHash_def bindP_ok split: if_splits)
  have dig: "\<exists>b. ?dig f n = Inr b" for n
    using assms(8) [of n] DigestForFile_run [OF f assms(7)] by (fastforce simp: file_digest_def)
  from hashes_accepted [where dig = ?dig, OF f _ dig] assms(5,6) r show ?thesis by auto
qed

text \<open>Only documents that expat refuses are read: its status for a well-formed one is 1, which is taken for an error code.\<close>

theorem ParseFile_ill_formed:
  "TDNFMetalinkParseFile expat ctx text f = Some (Inr c) \<Longrightarrow> snd (expat (text @ [CHR 0x00])) = 0"
  by (auto simp: TDNFMetalinkParseFile_def split: if_splits option.splits prod.splits)

end
