(* ===== verification/Api_Resolve.thy ===== *)
theory Api_Resolve
  imports Rpm_Sample Goal_History
begin

text \<open>
  From the words of a command to the list of changes, over the whole world of a run: \<^verbatim>\<open>TDNFResolve\<close> with the packages
  given as files, \<^verbatim>\<open>TDNFCheckPackages\<close> (\<^verbatim>\<open>client/api.c\<close>), the room in the cache (\<^verbatim>\<open>client/packageutils.c\<close>) and the
  dependencies of source packages (\<^verbatim>\<open>client/resolve.c\<close>). The pool of libsolv is a function of what was loaded into its
  repositories.
\<close>

section \<open>The world of a run\<close>

text \<open>
  \<open>ax_pool\<close> is the pool that libsolv makes of the loaded repositories, \<open>ax_add_rpm\<close> the id that a package file gets in
  the repository of the command line, 0 when it cannot be read, \<open>ax_updates\<close> the packages that advisories update,
  \<open>ax_dep2str\<close> the text of a dependency, and \<open>ax_statfs\<close> the size and the number of free blocks.
\<close>

record api_env =
  ax_goal :: goal_env
  ax_meta :: meta_env
  ax_trans :: trans_env
  ax_pool :: "solv_repo list \<Rightarrow> pool"
  ax_add_rpm :: "solv_repo list \<Rightarrow> string \<Rightarrow> nat"
  ax_updates :: "pool \<Rightarrow> string list result"
  ax_dep2str :: "pool \<Rightarrow> nat \<Rightarrow> string option"
  ax_statfs :: "string \<Rightarrow> nat + 64 word \<times> 64 word"
  ax_nNoDeps :: bool
  ax_nBuildDeps :: bool

abbreviation (input) ERROR_TDNF_PACKAGE_REQUIRED :: errcode where "ERROR_TDNF_PACKAGE_REQUIRED \<equiv> 1001"
abbreviation (input) ERROR_TDNF_CACHE_DIR_OUT_OF_DISK_SPACE :: errcode where "ERROR_TDNF_CACHE_DIR_OUT_OF_DISK_SPACE \<equiv> 1036"

abbreviation (input) ax_cmds :: "api_env \<Rightarrow> string list" where "ax_cmds env \<equiv> ga_ppszCmds (ge_args (ax_goal env))"

text \<open>Steps on the repositories, on the history database with a pool, and on the queue of a command.\<close>

definition on_meta :: "(meta, 'a) prog \<Rightarrow> (rpm_world, 'a) prog" where
  "on_meta m w = (case m (meta.truncate w) of None \<Rightarrow> None | Some (r, v) \<Rightarrow> Some (r,
     w\<lparr>fs_nodes := fs_nodes v, fs_deny := fs_deny v, fs_now := fs_now v, nt_tries := nt_tries v, nt_log := nt_log v,
       mw_repos := mw_repos v, mw_nRefresh := mw_nRefresh v, mw_pool := mw_pool v\<rparr>))"

definition on_pool :: "api_env \<Rightarrow> (world, 'a) prog \<Rightarrow> (rpm_world, 'a) prog" where
  "on_pool env m w = (case m \<lparr>wd_pool = ax_pool env (mw_pool w), wd_db = rw_db w\<rparr> of
     None \<Rightarrow> None | Some (r, v) \<Rightarrow> Some (r, w\<lparr>rw_db := wd_db v\<rparr>))"

text \<open>The queue of the goal and the names that were not found go in and out.\<close>

definition on_queue ::
    "api_env \<Rightarrow> nat list \<Rightarrow> (resolve_world, 'a) prog \<Rightarrow> (rpm_world, 'a \<times> nat list \<times> string list) prog" where
  "on_queue env q m w =
     (case m \<lparr>wd_pool = ax_pool env (mw_pool w), wd_db = rw_db w, rw_queue = q, rw_unresolved = []\<rparr> of
        None \<Rightarrow> None
      | Some (Inl e, v) \<Rightarrow> Some (Inl e, w\<lparr>rw_db := wd_db v\<rparr>)
      | Some (Inr x, v) \<Rightarrow> Some (Inr (x, rw_queue v, rw_unresolved v), w\<lparr>rw_db := wd_db v\<rparr>))"

section \<open>Packages given as files\<close>

definition alter_pool_repo :: "string \<Rightarrow> load \<Rightarrow> solv_repo list \<Rightarrow> solv_repo list" where
  "alter_pool_repo name ld rs = map (\<lambda>r. if sr_name r = name then r\<lparr>sr_loads := sr_loads r @ [ld]\<rparr> else r) rs"

definition add_rpm :: "api_env \<Rightarrow> string \<Rightarrow> (rpm_world, nat) prog" where
  "add_rpm env pszRPMPath w =
     (let p = ax_add_rpm env (mw_pool w) pszRPMPath in
      if p = 0 then Some (Inl ERROR_TDNF_INVALID_PARAMETER, w)
      else Some (Inr p, w\<lparr>mw_pool := alter_pool_repo CMDLINE_REPO_NAME (LoadRpm pszRPMPath) (mw_pool w)\<rparr>))"

text \<open>A word that names a package file: whether it is one of source code has to fit the options.\<close>

definition source_fits :: "api_env \<Rightarrow> string \<Rightarrow> bool" where
  "source_fits env pszPkgName \<longleftrightarrow>
     ge_fnmatch (ax_goal env) ''*.src.rpm'' pszPkgName = (ga_nSource (ge_args (ax_goal env)) \<or> ax_nBuildDeps env)"

text \<open>The path of a local file, one that is downloaded, or none for a word that is neither.\<close>

definition cmdline_path :: "api_env \<Rightarrow> string \<Rightarrow> (rpm_world, string option) prog" where
  "cmdline_path env pszPkgName =
     bindP (TDNFIsFileOrSymlink pszPkgName) (\<lambda>nIsFile.
       if nIsFile
       then bindP (readP (\<lambda>w. sys_realpath w pszPkgName)) (\<lambda>r. case r of
              Inl e \<Rightarrow> errorP (ERROR_TDNF_SYSTEM_BASE + e) | Inr path \<Rightarrow> returnP (Some path))
       else case TDNFUriIsRemote (Some pszPkgName) of
              Inl e \<Rightarrow> if e = ERROR_TDNF_URL_INVALID then returnP None else errorP e
            | Inr nIsRemote \<Rightarrow>
                if \<not> nIsRemote then bindP (liftR (TDNFPathFromUri (Some pszPkgName))) (\<lambda>path. returnP (Some path))
                else bindP (liftR (TDNFAllocateString (Some pszPkgName))) (\<lambda>pszCopyOfPkgName.
                     bindP (readP (\<lambda>w. TDNFFindRepoById (mw_repos w) CMDLINE_REPO_NAME)) (\<lambda>r. bindP (liftR r) (\<lambda>pRepo.
                     bindP (TDNFDownloadPackageToCache (me_net (ax_meta env)) pszPkgName (basename pszCopyOfPkgName) pRepo) (\<lambda>path.
                       returnP (Some path))))))"

fun add_cmdline_words :: "api_env \<Rightarrow> string list \<Rightarrow> nat list \<Rightarrow> (rpm_world, nat list) prog" where
  "add_cmdline_words env [] q = returnP q"
| "add_cmdline_words env (pszPkgName # words) q =
     (if \<not> ge_fnmatch (ax_goal env) ''*.rpm'' pszPkgName then add_cmdline_words env words q
      else if \<not> source_fits env pszPkgName then errorP ERROR_TDNF_INVALID_PARAMETER
      else bindP (cmdline_path env pszPkgName) (\<lambda>path. case path of
             None \<Rightarrow> add_cmdline_words env words q
           | Some pszRPMPath \<Rightarrow> bindP (add_rpm env pszRPMPath) (\<lambda>p. add_cmdline_words env words (q @ [p]))))"

definition TDNFAddCmdLinePackages :: "api_env \<Rightarrow> nat list \<Rightarrow> (rpm_world, nat list) prog" where
  "TDNFAddCmdLinePackages env pQueueGoal = add_cmdline_words env (tl (ax_cmds env)) pQueueGoal"

section \<open>Dependencies of source packages\<close>

text \<open>The array of names that were not found has as many slots as the command has words.\<close>

fun prepare_deps :: "api_env \<Rightarrow> nat list \<Rightarrow> (resolve_world, unit) prog" where
  "prepare_deps env [] = returnP ()"
| "prepare_deps env (d # ds) =
     bindP get_pool_of (\<lambda>pool. case ax_dep2str env pool d of
       None \<Rightarrow> errorP ERROR_TDNF_INVALID_PARAMETER
     | Some pszDep \<Rightarrow>
         if take 7 pszDep = ''rpmlib('' then prepare_deps env ds
         else bindP (TDNFPrepareSinglePkg (ax_goal env) pszDep ALTER_INSTALL) (\<lambda>_. prepare_deps env ds))"

definition source_packages :: "pool \<Rightarrow> string list \<Rightarrow> nat list result" where
  "source_packages pool names =
     (if names = [] then Inr []
      else bail (TDNFApplyScopeFilter pool SCOPE_SOURCE SolvCreateQuery) (\<lambda>q.
           bail (SolvApplyPackageFilter names q) (\<lambda>q.
           bail (SolvApplyListQuery pool q) SolvGetQueryResult)))"

definition TDNFResolveBuildDependencies :: "api_env \<Rightarrow> string list \<Rightarrow> (resolve_world, unit) prog" where
  "TDNFResolveBuildDependencies env ppszPackageNameSpecs =
     bindP get_pool_of (\<lambda>pool.
     bindP (liftR (source_packages pool ppszPackageNameSpecs)) (\<lambda>pkgs w.
       let deps = SolvRequiresFromQueue pool pkgs (SolvRequiresFromQueue pool (rw_queue w) []) in
       prepare_deps env deps (w\<lparr>rw_queue := []\<rparr>)))"

section \<open>Room in the cache\<close>

definition TDNFGetAvailableCacheBytes :: "api_env \<Rightarrow> (rpm_world, 64 word) prog" where
  "TDNFGetAvailableCacheBytes env = (case cf_pszCacheDir (de_pConf (me_net (ax_meta env))) of
     None \<Rightarrow> errorP ERROR_TDNF_INVALID_PARAMETER
   | Some pszCacheDir \<Rightarrow>
       bindP (readP (stat_path pszCacheDir)) (\<lambda>st.
       bindP (case st of Inr _ \<Rightarrow> returnP () | Inl _ \<Rightarrow> TDNFUtilsMakeDirs pszCacheDir) (\<lambda>_.
         case ax_statfs env pszCacheDir of
           Inl e \<Rightarrow> errorP (ERROR_TDNF_SYSTEM_BASE + e) | Inr (f_bsize, f_bavail) \<Rightarrow> returnP (f_bsize * f_bavail))))"

fun count_bytes :: "pkg_info list \<Rightarrow> 64 word \<Rightarrow> 64 word \<Rightarrow> 64 word result" where
  "count_bytes [] qwAvailCacheBytes n = Inr n"
| "count_bytes (p # ps) qwAvailCacheBytes n =
     (let n = n + ucast (pi_dwDownloadSizeBytes p) in
      if n > qwAvailCacheBytes then Inl ERROR_TDNF_CACHE_DIR_OUT_OF_DISK_SPACE else count_bytes ps qwAvailCacheBytes n)"

definition TDNFCheckDownloadCacheBytes :: "solved_pkg_info \<Rightarrow> 64 word \<Rightarrow> unit result" where
  "TDNFCheckDownloadCacheBytes info qwAvailCacheBytes =
     bail (count_bytes (pPkgsToInstall info @ pPkgsToDowngrade info @ pPkgsToUpgrade info @ pPkgsToReinstall info) qwAvailCacheBytes 0)
       (\<lambda>_. Inr ())"

section \<open>TDNFResolve\<close>

text \<open>The words of the command that name packages; with no words at all the arrays have no size.\<close>

definition package_words :: "api_env \<Rightarrow> string list" where
  "package_words env = filter (\<lambda>word. \<not> ge_fnmatch (ax_goal env) ''*.rpm'' word) (tl (ax_cmds env))"

definition prepare_goal :: "api_env \<Rightarrow> alter_type \<Rightarrow> (resolve_world, alter_type) prog" where
  "prepare_goal env nAlterType =
     (if ax_nBuildDeps env then bindP (TDNFResolveBuildDependencies env (package_words env)) (\<lambda>_. returnP nAlterType)
      else bindP get_pool_of (\<lambda>pool. TDNFPrepareAllPackages (ax_goal env) (ax_updates env pool) nAlterType))"

definition solve_goal :: "api_env \<Rightarrow> nat list \<Rightarrow> alter_type \<Rightarrow> (world, solved_pkg_info) prog" where
  "solve_goal env queueGoal nAlterType =
     (if \<not> ga_nSource (ge_args (ax_goal env)) \<and> \<not> ax_nNoDeps env then TDNFGoal (ax_goal env) queueGoal nAlterType
      else TDNFGoalNoDeps queueGoal)"

definition check_room :: "api_env \<Rightarrow> solved_pkg_info \<Rightarrow> (rpm_world, unit) prog" where
  "check_room env info = bindP (TDNFGetAvailableCacheBytes env) (\<lambda>n.
     if nNeedDownload info then liftR (TDNFCheckDownloadCacheBytes info n) else returnP ())"

definition TDNFResolve :: "api_env \<Rightarrow> alter_type \<Rightarrow> (rpm_world, solved_pkg_info) prog" where
  "TDNFResolve env nAlterType =
     (if nAlterType \<in> set [ALTER_INSTALL, ALTER_REINSTALL, ALTER_ERASE] \<and> length (ax_cmds env) \<le> 1
      then errorP ERROR_TDNF_PACKAGE_REQUIRED
      else bindP (if nAlterType \<in> set [ALTER_INSTALL, ALTER_REINSTALL] then TDNFAddCmdLinePackages env [] else returnP []) (\<lambda>queueGoal.
           bindP (on_meta (TDNFRefresh (ax_meta env))) (\<lambda>_.
           bindP (liftR (TDNFAllocateMemory (\<lambda>_. True) (length (ax_cmds env)) 8)) (\<lambda>_.
           bindP (on_queue env queueGoal (prepare_goal env nAlterType)) (\<lambda>(nAlterType, queueGoal, unresolved).
           bindP (on_pool env (solve_goal env queueGoal nAlterType)) (\<lambda>info.
             let info = info\<lparr>nNeedAction := needs_action info, nNeedDownload := needs_download info\<rparr> in
           bindP (check_room env info) (\<lambda>_.
             returnP (info\<lparr>ppszPkgsNotResolved := Some unresolved\<rparr>))))))))"

section \<open>TDNFCheckPackages\<close>

text \<open>All packages as if they were to be installed. nAssumeNo is set and stays set; the words of the command are put back.\<close>

definition check_env :: "api_env \<Rightarrow> api_env" where
  "check_env env = env\<lparr>ax_goal := (ax_goal env)\<lparr>ge_args := (ge_args (ax_goal env))\<lparr>ga_ppszCmds := [''check'', ''*'']\<rparr>\<rparr>,
     ax_trans := (ax_trans env)\<lparr>te_args := (te_args (ax_trans env))\<lparr>ta_nAssumeNo := True\<rparr>\<rparr>\<rparr>"

definition TDNFCheckPackages :: "api_env \<Rightarrow> (rpm_world, unit) prog" where
  "TDNFCheckPackages env = bindP (TDNFResolve (check_env env) ALTER_INSTALL) (\<lambda>_. returnP ())"

section \<open>What resolving leaves alone\<close>

text \<open>The transaction, the rpm database, what is asked and what is printed.\<close>

definition rpm_side ::
    "rpm_world \<Rightarrow> (rpmts \<times> rpm_view \<times> trans_event list) \<times> (string list \<times> string list \<times> string list) \<times> 32 word \<times> 32 word \<times> history_ctx option" where
  "rpm_side w = ((rw_ts w, rw_view w, rw_events w), (rw_stdin w, rw_out w, rw_pCachedRpms w), rw_nTransFlags w,
     rw_nProbFilterFlags w, rw_ctx w)"

lemma rpm_side_free [simp]: "net_free rpm_side" "files_free rpm_side"
  by (simp_all add: net_free_def files_free_def rpm_side_def)

lemma leaves_on_meta: "leaves rpm_side (on_meta m)"
  by (auto simp: leaves_def on_meta_def rpm_side_def split: option.splits)

lemma leaves_on_pool: "leaves rpm_side (on_pool env m)"
  by (auto simp: leaves_def on_pool_def rpm_side_def split: option.splits)

lemma leaves_on_queue: "leaves rpm_side (on_queue env q m)"
  by (auto simp: leaves_def on_queue_def rpm_side_def split: option.splits sum.splits)

lemma leaves_add_rpm: "leaves rpm_side (add_rpm env p)"
  by (auto simp: leaves_def add_rpm_def rpm_side_def Let_def split: if_splits)

lemma leaves_cmdline_path: "leaves rpm_side (cmdline_path env p)"
  by (auto simp: cmdline_path_def TDNFIsFileOrSymlink_def leaves_to_cache split: sum.split)

lemma leaves_cmdline_words: "leaves rpm_side (add_cmdline_words env ws q)"
  by (induction ws arbitrary: q) (auto simp: leaves_cmdline_path leaves_add_rpm split: option.split)

lemma leaves_cache_bytes: "leaves rpm_side (TDNFGetAvailableCacheBytes env)"
  by (auto simp: TDNFGetAvailableCacheBytes_def split: option.split sum.split)

lemma leaves_check_room: "leaves rpm_side (check_room env info)"
  by (auto simp: check_room_def leaves_cache_bytes)

lemma resolve_leaves: "leaves rpm_side (TDNFResolve env a)"
  by (auto simp: TDNFResolve_def TDNFAddCmdLinePackages_def Let_def leaves_on_meta leaves_on_pool leaves_on_queue leaves_cmdline_words
      leaves_check_room)

section \<open>Room for the downloads\<close>

definition download_infos :: "solved_pkg_info \<Rightarrow> pkg_info list" where
  "download_infos info = pPkgsToInstall info @ pPkgsToDowngrade info @ pPkgsToUpgrade info @ pPkgsToReinstall info"

definition download_total :: "pkg_info list \<Rightarrow> nat" where
  "download_total ps = sum_list (map (\<lambda>p. unat (pi_dwDownloadSizeBytes p)) ps)"

lemma size_bound: "unat (n :: 32 word) < 2 ^ 32"
  using unsigned_less [of n] by simp

lemma count_bytes_sum:
  assumes "unat n + download_total ps < 2 ^ 64" and "n \<le> avail"
  shows "bail (count_bytes ps avail n) (\<lambda>_. Inr ()) = (if unat n + download_total ps \<le> unat avail
      then Inr () else Inl ERROR_TDNF_CACHE_DIR_OUT_OF_DISK_SPACE)"
  using assms
proof (induction ps arbitrary: n)
  case Nil
  then show ?case by (simp add: download_total_def word_le_nat_alt)
next
  case (Cons p ps)
  let ?d = "unat (pi_dwDownloadSizeBytes p)"
  have t: "download_total (p # ps) = ?d + download_total ps" by (simp add: download_total_def)
  have "?d < 2 ^ 32" by (rule size_bound)
  then have c: "unat (ucast (pi_dwDownloadSizeBytes p) :: 64 word) = ?d" by (simp add: unsigned_ucast_eq take_bit_nat_eq_self)
  have "unat n + ?d < 2 ^ 64" using Cons.prems(1) t by linarith
  then have s: "unat (n + ucast (pi_dwDownloadSizeBytes p)) = unat n + ?d"
    using c by (simp add: unat_word_ariths)
  show ?case
  proof (cases "n + ucast (pi_dwDownloadSizeBytes p) > avail")
    case True
    then have "\<not> unat n + download_total (p # ps) \<le> unat avail" using s t by (simp add: word_less_nat_alt)
    then show ?thesis using True by simp
  next
    case False
    then have "n + ucast (pi_dwDownloadSizeBytes p) \<le> avail" by simp
    moreover have "unat (n + ucast (pi_dwDownloadSizeBytes p)) + download_total ps < 2 ^ 64"
      using Cons.prems(1) s t by simp
    ultimately have "bail (count_bytes ps avail (n + ucast (pi_dwDownloadSizeBytes p))) (\<lambda>_. Inr ())
        = (if unat n + download_total (p # ps) \<le> unat avail then Inr () else Inl ERROR_TDNF_CACHE_DIR_OUT_OF_DISK_SPACE)"
      using Cons.IH s t by simp
    then show ?thesis using False by (simp add: Let_def)
  qed
qed

lemma download_total_bound: "length ps \<le> 2 ^ 32 \<Longrightarrow> download_total ps < 2 ^ 64"
proof -
  have "download_total ps \<le> length ps * (2 ^ 32 - 1)"
  proof (induction ps)
    case (Cons p ps)
    have "unat (pi_dwDownloadSizeBytes p) < 2 ^ 32" by (rule size_bound)
    then show ?case using Cons by (simp add: download_total_def)
  qed (simp add: download_total_def)
  moreover assume "length ps \<le> 2 ^ 32"
  ultimately have "download_total ps \<le> 2 ^ 32 * (2 ^ 32 - 1)" by (meson le_trans mult_le_mono1)
  then show ?thesis by simp
qed

lemma check_bytes_iff:
  assumes "length (download_infos info) \<le> 2 ^ 32"
  shows "TDNFCheckDownloadCacheBytes info avail = (if download_total (download_infos info) \<le> unat avail
      then Inr () else Inl ERROR_TDNF_CACHE_DIR_OUT_OF_DISK_SPACE)"
  using count_bytes_sum [of 0 "download_infos info" avail] download_total_bound [OF assms]
  by (simp add: TDNFCheckDownloadCacheBytes_def download_infos_def)


section \<open>Properties of TDNFResolve\<close>

lemma no_downloads: "\<not> needs_download info \<Longrightarrow> download_total (download_infos info) = 0"
  by (simp add: needs_download_def download_infos_def download_total_def)

lemma check_room_fits:
  assumes "check_room env info w = Some (Inr u, w')" and "nNeedDownload info = needs_download info"
    and "length (download_infos info) \<le> 2 ^ 32" and "cf_pszCacheDir (de_pConf (me_net (ax_meta env))) = Some dir"
    and "ax_statfs env dir = Inr (f_bsize, f_bavail)"
  shows "download_total (download_infos info) \<le> unat (f_bsize * f_bavail)"
proof (cases "nNeedDownload info")
  case True
  have "TDNFCheckDownloadCacheBytes info (f_bsize * f_bavail) = Inr ()"
    using assms(1,4,5) True by (auto simp: check_room_def bindP_ok TDNFGetAvailableCacheBytes_def)
  then show ?thesis using check_bytes_iff [OF assms(3)] by (simp split: if_splits)
next
  case False
  then show ?thesis using no_downloads assms(2) by simp
qed

lemma resolve_ok:
  assumes "TDNFResolve env a w = Some (Inr info, w')"
  obtains info0 v where "check_room env info0 v = Some (Inr (), w')" "nNeedDownload info0 = needs_download info0"
    "nNeedAction info0 = needs_action info0" "\<exists>names. info = info0\<lparr>ppszPkgsNotResolved := Some names\<rparr>"
proof -
  from assms obtain i names v where "check_room env (i\<lparr>nNeedAction := needs_action i, nNeedDownload := needs_download i\<rparr>) v = Some (Inr (), w')"
    "info = i\<lparr>nNeedAction := needs_action i, nNeedDownload := needs_download i\<rparr>\<lparr>ppszPkgsNotResolved := Some names\<rparr>"
    by (auto simp: TDNFResolve_def bindP_ok Let_def split: if_splits)
  then show ?thesis by (intro that) (auto simp: needs_action_def needs_download_def)
qed

lemma resolve_fits:
  assumes "TDNFResolve env a w = Some (Inr info, w')" and "length (download_infos info) \<le> 2 ^ 32"
    and "cf_pszCacheDir (de_pConf (me_net (ax_meta env))) = Some dir" and "ax_statfs env dir = Inr (f_bsize, f_bavail)"
  shows "download_total (download_infos info) \<le> unat (f_bsize * f_bavail)
    \<and> nNeedAction info = needs_action info \<and> nNeedDownload info = needs_download info \<and> rpm_side w' = rpm_side w"
proof -
  from assms(1) obtain info0 v names where room: "check_room env info0 v = Some (Inr (), w')"
    and flags: "nNeedDownload info0 = needs_download info0" "nNeedAction info0 = needs_action info0"
    and info: "info = info0\<lparr>ppszPkgsNotResolved := Some names\<rparr>" by (elim resolve_ok) blast
  have same: "download_infos info = download_infos info0" "needs_action info = needs_action info0"
    "needs_download info = needs_download info0" by (simp_all add: info download_infos_def needs_action_def needs_download_def)
  show ?thesis
    using check_room_fits [OF room flags(1) _ assms(3,4)] assms(2) flags leavesD [OF resolve_leaves assms(1)]
    by (simp add: same) (simp add: info)
qed


text \<open>A package file on the command line, without dependencies.\<close>

definition file_env :: "64 word \<Rightarrow> api_env" where
  "file_env f_bavail = \<lparr>ax_goal = sample_env\<lparr>ge_fnmatch := (\<lambda>pat s. pat = ''*.rpm''),
       ge_args := (ge_args sample_env)\<lparr>ga_ppszCmds := [''install'', ''/c/p'']\<rparr>\<rparr>,
     ax_meta = sample_meta_env\<lparr>me_net := net_env\<rparr>, ax_trans = sample_trans_env\<lparr>te_args := sample_trans_args\<lparr>ta_nAssumeYes := False\<rparr>\<rparr>, ax_pool = (\<lambda>rs. sample_pool),
     ax_add_rpm = (\<lambda>rs path. 4), ax_updates = (\<lambda>pool. Inr []), ax_dep2str = (\<lambda>pool d. None),
     ax_statfs = (\<lambda>path. Inr (1, f_bavail)), ax_nNoDeps = True, ax_nBuildDeps = False\<rparr>"

lemma file_env_simps [simp]:
  "ax_pool (file_env n) rs = sample_pool" "ax_add_rpm (file_env n) rs p = 4" "ax_statfs (file_env n) p = Inr (1, n)"
  "ax_nNoDeps (file_env n)" "\<not> ax_nBuildDeps (file_env n)" "ga_ppszCmds (ge_args (ax_goal (file_env n))) = [''install'', ''/c/p'']"
  "ge_fnmatch (ax_goal (file_env n)) pat s \<longleftrightarrow> pat = ''*.rpm''" "\<not> ga_nSource (ge_args (ax_goal (file_env n)))"
  "ga_pSetOpt (ge_args (ax_goal (file_env n))) = []" "cf_pszCacheDir (de_pConf net_env) = Some ''/c''"
  "me_net (ax_meta (file_env n)) = net_env"
  by (simp_all add: file_env_def sample_env_def net_env_def)

definition file_pkg :: pkg_info where
  "file_pkg = \<lparr>pi_dwEpoch = 0, pi_pszName = ''foo'', pi_pszVersion = Some ''3'', pi_pszRelease = Some ''1'', pi_pszArch = ''noarch'',
     pi_pszEVR = ''3-1'', pi_pszRepoName = ''r'', pi_pszSummary = ''s'', pi_pszLocation = None, pi_checksum = None,
     pi_dwInstallSizeBytes = 1, pi_dwDownloadSizeBytes = 1\<rparr>"

lemma file_info: "pkg_info_of sample_pool 4 = Inr file_pkg"
  by (simp add: pkg_info_of_def SolvGetNevraFromId_def sample_pool_names sample_allocates SolvGetPkgRepoNameFromId_def
      SolvGetPkgSummaryFromId_def SolvGetPkgLocationFromId_def SolvSplitEvr_def Let_def file_pkg_def)
     (simp add: sample_pool_def sample_lookup_def sample_solvables_def sample_solvable_def sample_strings_def
      TDNFAllocateString_def TDNF_DEFAULT_MAX_STRING_LEN_def evr_of_def)

definition file_plan :: solved_pkg_info where
  "file_plan = \<lparr>nNeedAction = True, nNeedDownload = True, pPkgsToInstall = [file_pkg], pPkgsToDowngrade = [],
         pPkgsToUpgrade = [], pPkgsToRemove = [], pPkgsToReinstall = [], pPkgsObsoleted = [],
         pPkgsRemovedByDowngrade = [], ppszPkgsNotResolved = Some [], ppszPkgsUserInstall = None\<rparr>"

lemma file_resolve:
  "\<exists>info. TDNFResolve (file_env n) ALTER_INSTALL sample_rpm_world
       = Some (if n = 0 then Inl ERROR_TDNF_CACHE_DIR_OUT_OF_DISK_SPACE else Inr info, sample_rpm_world)
     \<and> download_infos info = [file_pkg] \<and> info = file_plan"
proof -
  note i = file_info
  have size: "pi_dwDownloadSizeBytes file_pkg = 1" by (simp add: file_pkg_def)
  have st: "stat_path ''/c/p'' sample_rpm_world = Inr (File ''rpm'' 1)" "stat_path ''/c'' sample_rpm_world = Inr Dir"
    "sys_realpath sample_rpm_world ''/c/p'' = Inr ''/c/p''"
    by (simp_all add: stat_path_def sys_realpath_def node_at_def sample_rpm_world_def resolve_def absolute_path_def)
  have pool: "mw_pool sample_rpm_world = []" "rw_db sample_rpm_world = None" "mw_repos sample_rpm_world = []"
    "mw_nRefresh sample_rpm_world = False" by (simp_all add: sample_rpm_world_def)
  have same: "sample_rpm_world\<lparr>mw_pool := []\<rparr> = sample_rpm_world" "sample_rpm_world\<lparr>rw_db := None\<rparr> = sample_rpm_world"
    by (simp_all add: sample_rpm_world_def)
  have path: "cmdline_path (file_env n) ''/c/p'' sample_rpm_world = Some (Inr (Some ''/c/p''), sample_rpm_world)"
    by (simp add: cmdline_path_def TDNFIsFileOrSymlink_def bindP_def st)
  have cmd: "TDNFAddCmdLinePackages (file_env n) [] sample_rpm_world = Some (Inr [4], sample_rpm_world)"
    by (simp add: TDNFAddCmdLinePackages_def source_fits_def bindP_def path add_rpm_def Let_def pool alter_pool_repo_def same)
  have refresh: "on_meta (TDNFRefresh (ax_meta (file_env n))) sample_rpm_world = Some (Inr (), sample_rpm_world)"
    by (simp add: on_meta_def TDNFRefresh_def TDNFRefreshSack_def refresh_order_def meta.defs sample_rpm_world_def)
  have prep: "on_queue (file_env n) [4] (prepare_goal (file_env n) ALTER_INSTALL) sample_rpm_world
      = Some (Inr (ALTER_INSTALL, [4], []), sample_rpm_world)"
    by (simp add: on_queue_def prepare_goal_def bindP_def get_pool_of_def TDNFPrepareAllPackages_def TDNFGetSecuritySeverityOption_def
        prepare_word_def TDNFIsGlob_def same pool)
  define info where "info = \<lparr>nNeedAction = False, nNeedDownload = False, pPkgsToInstall = [file_pkg], pPkgsToDowngrade = [],
         pPkgsToUpgrade = [], pPkgsToRemove = [], pPkgsToReinstall = [], pPkgsObsoleted = [],
         pPkgsRemovedByDowngrade = [], ppszPkgsNotResolved = None, ppszPkgsUserInstall = None\<rparr>"
  have solve: "on_pool (file_env n) (solve_goal (file_env n) [4] ALTER_INSTALL) sample_rpm_world = Some (Inr info, sample_rpm_world)"
    by (simp add: on_pool_def solve_goal_def TDNFGoalNoDeps_def bindP_def get_pool_def SolvQueueToPackageList_def TDNFPopulatePkgInfos_def
        i info_def pool same)
  have room: "check_room (file_env n) (info\<lparr>nNeedAction := True, nNeedDownload := True\<rparr>) sample_rpm_world
      = Some (if n = 0 then Inl ERROR_TDNF_CACHE_DIR_OUT_OF_DISK_SPACE else Inr (), sample_rpm_world)"
    by (simp add: check_room_def TDNFGetAvailableCacheBytes_def bindP_def st TDNFCheckDownloadCacheBytes_def info_def size Let_def)
  have plan: "info\<lparr>nNeedAction := True, nNeedDownload := True, ppszPkgsNotResolved := Some []\<rparr> = file_plan"
    by (simp add: info_def file_plan_def)
  have infos: "download_infos file_plan = [file_pkg]" by (simp add: download_infos_def file_plan_def)
  have needs: "needs_action info" "needs_download info" by (simp_all add: info_def needs_action_def needs_download_def)
  show ?thesis
    by (rule exI [of _ file_plan])
      (auto simp: TDNFResolve_def bindP_def Let_def cmd refresh prep solve room TDNFAllocateMemory_def needs infos plan)
qed


end
