(* ===== verification/Cli_Args.thy ===== *)
theory Cli_Args
  imports Tdnf_Options Tdnf_Values Goal_History Api_Clean
begin

text \<open>
  The command line of tdnf: the options (\<^verbatim>\<open>tools/cli/lib/parseargs.c\<close>, \<^verbatim>\<open>options.c\<close>) and the arguments of the commands
  (\<^verbatim>\<open>parselistargs.c\<close>, \<^verbatim>\<open>parserepolistargs.c\<close>, \<^verbatim>\<open>parsereposyncargs.c\<close>, \<^verbatim>\<open>parserepoqueryargs.c\<close>, \<^verbatim>\<open>parsehistoryargs.c\<close>,
  \<^verbatim>\<open>parseupdateinfo.c\<close>). What \<^verbatim>\<open>getopt_long_only\<close> of the GNU C library reports for a command line is a parameter.
\<close>

abbreviation (input) ERROR_TDNF_CLI_INVALID_ARGUMENT :: errcode where "ERROR_TDNF_CLI_INVALID_ARGUMENT \<equiv> 902"
abbreviation (input) ERROR_TDNF_CLI_NOT_ENOUGH_ARGS :: errcode where "ERROR_TDNF_CLI_NOT_ENOUGH_ARGS \<equiv> 904"
abbreviation (input) ERROR_TDNF_CLI_NOTHING_TO_DO :: errcode where "ERROR_TDNF_CLI_NOTHING_TO_DO \<equiv> 905"
abbreviation (input) ERROR_TDNF_CLI_OPTION_NAME_INVALID :: errcode where "ERROR_TDNF_CLI_OPTION_NAME_INVALID \<equiv> 908"
abbreviation (input) ERROR_TDNF_CLI_OPTION_ARG_REQUIRED :: errcode where "ERROR_TDNF_CLI_OPTION_ARG_REQUIRED \<equiv> 909"
abbreviation (input) ERROR_TDNF_CLI_OPTION_ARG_UNEXPECTED :: errcode where "ERROR_TDNF_CLI_OPTION_ARG_UNEXPECTED \<equiv> 910"
abbreviation (input) ERROR_TDNF_CLI_SETOPT_NO_EQUALS :: errcode where "ERROR_TDNF_CLI_SETOPT_NO_EQUALS \<equiv> 911"
abbreviation (input) ERROR_TDNF_CLI_DOWNLOADDIR_REQUIRES_DOWNLOADONLY :: errcode where
  "ERROR_TDNF_CLI_DOWNLOADDIR_REQUIRES_DOWNLOADONLY \<equiv> 913"
abbreviation (input) ERROR_TDNF_CLI_ONE_DEP_ONLY :: errcode where "ERROR_TDNF_CLI_ONE_DEP_ONLY \<equiv> 914"
abbreviation (input) ERROR_TDNF_CLI_ALLDEPS_REQUIRES_DOWNLOADONLY :: errcode where
  "ERROR_TDNF_CLI_ALLDEPS_REQUIRES_DOWNLOADONLY \<equiv> 915"
abbreviation (input) ERROR_TDNF_CLI_NODEPS_REQUIRES_DOWNLOADONLY :: errcode where
  "ERROR_TDNF_CLI_NODEPS_REQUIRES_DOWNLOADONLY \<equiv> 916"
abbreviation (input) ERROR_TDNF_CLI_INVALID_MIXED_QUERY_QUERYFORMAT :: errcode where
  "ERROR_TDNF_CLI_INVALID_MIXED_QUERY_QUERYFORMAT \<equiv> 917"

section \<open>The arguments\<close>

record cli_args = cmd_args +
  cl_nAllDeps :: bool
  cl_nAllowErasing :: bool
  cl_nAssumeNo :: bool
  cl_nAssumeYes :: bool
  cl_nBest :: bool
  cl_nCacheOnly :: bool
  cl_nDebugSolver :: bool
  cl_nShowHelp :: bool
  cl_nRefresh :: bool
  cl_nRpmVerbosity :: int
  cl_nShowDuplicates :: bool
  cl_nShowVersion :: bool
  cl_nNoDeps :: bool
  cl_nNoGPGCheck :: bool
  cl_nNoOutput :: bool
  cl_nQuiet :: bool
  cl_nVerbose :: bool
  cl_nIPv4 :: bool
  cl_nIPv6 :: bool
  cl_nDisableExcludes :: bool
  cl_nDownloadOnly :: bool
  cl_nNoAutoRemove :: bool
  cl_nJsonOutput :: bool
  cl_nTestOnly :: bool
  cl_nSkipBroken :: bool
  cl_nSource :: bool
  cl_nBuildDeps :: bool
  cl_pszDownloadDir :: "string option"
  cl_pszInstallRoot :: "string option"
  cl_pszReleaseVer :: "string option"
  cl_ppszCmds :: "string list"
  cl_ppszArgv :: "string list"

definition no_args :: cli_args where
  "no_args = \<lparr>pSetOpt = [], pszConfFile = None, cl_nAllDeps = False, cl_nAllowErasing = False, cl_nAssumeNo = False,
     cl_nAssumeYes = False, cl_nBest = False, cl_nCacheOnly = False, cl_nDebugSolver = False, cl_nShowHelp = False,
     cl_nRefresh = False, cl_nRpmVerbosity = 0, cl_nShowDuplicates = False, cl_nShowVersion = False, cl_nNoDeps = False,
     cl_nNoGPGCheck = False, cl_nNoOutput = False, cl_nQuiet = False, cl_nVerbose = False, cl_nIPv4 = False, cl_nIPv6 = False,
     cl_nDisableExcludes = False, cl_nDownloadOnly = False, cl_nNoAutoRemove = False, cl_nJsonOutput = False,
     cl_nTestOnly = False, cl_nSkipBroken = False, cl_nSource = False, cl_nBuildDeps = False, cl_pszDownloadDir = None,
     cl_pszInstallRoot = None, cl_pszReleaseVer = None, cl_ppszCmds = [], cl_ppszArgv = []\<rparr>"

section \<open>The table of options\<close>

text \<open>What \<^verbatim>\<open>getopt\<close> does with an option: it sets a flag, reports a letter, or reports the option.\<close>

datatype opt_action = SETS "cli_args \<Rightarrow> cli_args" | LETTER char | NAMED

record cli_option =
  op_name :: string
  op_required :: bool
  op_action :: opt_action

definition flag_option :: "string \<Rightarrow> (cli_args \<Rightarrow> cli_args) \<Rightarrow> cli_option" where
  "flag_option name f = \<lparr>op_name = name, op_required = False, op_action = SETS f\<rparr>"

definition plain_option :: "string \<Rightarrow> cli_option" where
  "plain_option name = \<lparr>op_name = name, op_required = False, op_action = NAMED\<rparr>"

definition value_option :: "string \<Rightarrow> cli_option" where
  "value_option name = \<lparr>op_name = name, op_required = True, op_action = NAMED\<rparr>"

definition letter_option :: "string \<Rightarrow> bool \<Rightarrow> char \<Rightarrow> cli_option" where
  "letter_option name arg c = \<lparr>op_name = name, op_required = arg, op_action = LETTER c\<rparr>"

definition pstOptions :: "cli_option list" where
  "pstOptions =
     [letter_option ''4'' False CHR ''4'', letter_option ''6'' False CHR ''6'',
      flag_option ''alldeps'' (cl_nAllDeps_update (\<lambda>_. True)), flag_option ''allowerasing'' (cl_nAllowErasing_update (\<lambda>_. True)),
      flag_option ''assumeno'' (cl_nAssumeNo_update (\<lambda>_. True)), letter_option ''assumeyes'' False CHR ''y'',
      flag_option ''best'' (cl_nBest_update (\<lambda>_. True)), flag_option ''builddeps'' (cl_nBuildDeps_update (\<lambda>_. True)),
      flag_option ''cacheonly'' (cl_nCacheOnly_update (\<lambda>_. True)), letter_option ''config'' True CHR ''c'',
      letter_option ''debuglevel'' True CHR ''d'', flag_option ''debugsolver'' (cl_nDebugSolver_update (\<lambda>_. True)),
      flag_option ''disableexcludes'' (cl_nDisableExcludes_update (\<lambda>_. True)),
      value_option ''disableplugin'', value_option ''disablerepo'', value_option ''downloaddir'',
      flag_option ''downloadonly'' (cl_nDownloadOnly_update (\<lambda>_. True)),
      value_option ''enableplugin'', value_option ''enablerepo'', value_option ''exclude'',
      letter_option ''help'' False CHR ''h'', letter_option ''installroot'' True CHR ''i'',
      flag_option ''json'' (cl_nJsonOutput_update (\<lambda>_. True)), flag_option ''noautoremove'' (cl_nNoAutoRemove_update (\<lambda>_. True)),
      flag_option ''nodeps'' (cl_nNoDeps_update (\<lambda>_. True)), flag_option ''nogpgcheck'' (cl_nNoGPGCheck_update (\<lambda>_. True)),
      plain_option ''noplugins'', flag_option ''quiet'' (cl_nQuiet_update (\<lambda>_. True)),
      flag_option ''refresh'' (cl_nRefresh_update (\<lambda>_. True)), value_option ''releasever'', plain_option ''reboot-required'',
      value_option ''repo'', value_option ''repofromdir'', value_option ''repofrompath'', value_option ''repoid'',
      value_option ''rpmverbosity'', value_option ''rpmdefine'', value_option ''sec-severity'', plain_option ''security'',
      value_option ''setopt'', flag_option ''skip-broken'' (cl_nSkipBroken_update (\<lambda>_. True)), plain_option ''skipconflicts'',
      plain_option ''skipdigest'', plain_option ''skipobsoletes'', plain_option ''skipsignature'',
      flag_option ''source'' (cl_nSource_update (\<lambda>_. True)), flag_option ''testonly'' (cl_nTestOnly_update (\<lambda>_. True)),
      flag_option ''verbose'' (cl_nVerbose_update (\<lambda>_. True)), flag_option ''version'' (cl_nShowVersion_update (\<lambda>_. True)),
      value_option ''arch'', plain_option ''delete'', plain_option ''download-metadata'', value_option ''download-path'',
      plain_option ''gpgcheck'', value_option ''metadata-path'', plain_option ''newest-only'', plain_option ''norepopath'',
      plain_option ''urls'', plain_option ''available'', plain_option ''extras'', value_option ''file'',
      plain_option ''userinstalled'', plain_option ''upgrades'', value_option ''whatdepends'', value_option ''whatprovides'',
      value_option ''whatobsoletes'', value_option ''whatconflicts'', value_option ''whatrequires'',
      value_option ''whatrecommends'', value_option ''whatsuggests'', value_option ''whatsupplements'',
      value_option ''whatenhances'', plain_option ''changelogs'', plain_option ''conflicts'', plain_option ''depends'',
      plain_option ''duplicates'', plain_option ''enhances'', plain_option ''installed'', plain_option ''list'',
      plain_option ''obsoletes'', plain_option ''provides'', value_option ''qf'', plain_option ''recommends'',
      plain_option ''requires'', plain_option ''requires-pre'', plain_option ''suggests'', plain_option ''supplements'',
      plain_option ''all'', plain_option ''info'', plain_option ''summary'', plain_option ''recent'', plain_option ''updates'',
      plain_option ''downgrades'', value_option ''to'', value_option ''from'', plain_option ''reverse'']"

section \<open>Validation\<close>

definition TDNFCliGetOptionByName :: "string \<Rightarrow> cli_option result" where
  "TDNFCliGetOptionByName pszName =
     (if pszName = [] then Inl ERROR_TDNF_INVALID_PARAMETER
      else let name = (if take 2 pszName = ''--'' then drop 2 pszName else pszName) in
           case find (\<lambda>o'. op_name o' = name) pstOptions of
             None \<Rightarrow> Inl ERROR_TDNF_CLI_OPTION_NAME_INVALID | Some o' \<Rightarrow> Inr o')"

definition TDNFCliValidateOptionName :: "string \<Rightarrow> unit result" where
  "TDNFCliValidateOptionName pszName = bail (TDNFCliGetOptionByName pszName) (\<lambda>_. Inr ())"

definition TDNFCliValidateOptionArg :: "string \<Rightarrow> string option \<Rightarrow> unit result" where
  "TDNFCliValidateOptionArg pszName pszArg =
     bail (TDNFCliGetOptionByName pszName) (\<lambda>pOption.
       if \<not> IsNullOrEmptyString pszArg \<and> \<not> op_required pOption then Inl ERROR_TDNF_CLI_OPTION_ARG_UNEXPECTED
       else if IsNullOrEmptyString pszArg \<and> op_required pOption then Inl ERROR_TDNF_CLI_OPTION_ARG_REQUIRED
       else Inr ())"

definition TDNFCliValidateOptions :: "string \<Rightarrow> string option \<Rightarrow> unit result" where
  "TDNFCliValidateOptions pszName pszArg =
     (if pszName = [] then Inl ERROR_TDNF_INVALID_PARAMETER
      else bail (TDNFCliValidateOptionName pszName) (\<lambda>_. TDNFCliValidateOptionArg pszName pszArg))"

definition HandleOptionsError :: "string \<Rightarrow> string option \<Rightarrow> unit result" where
  "HandleOptionsError pszName pszArg =
     (if pszName = [] then Inl ERROR_TDNF_INVALID_PARAMETER else TDNFCliValidateOptions pszName pszArg)"

section \<open>One option\<close>

definition set_opts :: "(cmd_args \<Rightarrow> errcode \<times> cmd_args) \<Rightarrow> cli_args \<Rightarrow> errcode \<times> cli_args" where
  "set_opts f a = (case f (cmd_args.truncate a) of (e, b) \<Rightarrow> (e, a\<lparr>pSetOpt := pSetOpt b, pszConfFile := pszConfFile b\<rparr>))"

definition alloc_into :: "string option \<Rightarrow> (string option \<Rightarrow> cli_args) \<Rightarrow> cli_args result" where
  "alloc_into s put = bail (TDNFAllocateString s) (\<lambda>t. Inr (put (Some t)))"

definition add_opt :: "string \<Rightarrow> string option \<Rightarrow> cli_args \<Rightarrow> cli_args result" where
  "add_opt name v a = (case set_opts (\<lambda>b. AddSetOptWithValues b (Some name) v) a of (e, a) \<Rightarrow> if e \<noteq> 0 then Inl e else Inr a)"

text \<open>The pieces between the separators, empty ones too.\<close>

fun strsep_all :: "string \<Rightarrow> string \<Rightarrow> string list" where
  "strsep_all seps [] = [[]]"
| "strsep_all seps (c # s) =
     (if c \<in> set seps then [] # strsep_all seps s
      else case strsep_all seps s of [] \<Rightarrow> [[c]] | t # ts \<Rightarrow> (c # t) # ts)"

fun add_excludes :: "string \<Rightarrow> string list \<Rightarrow> cli_args \<Rightarrow> cli_args result" where
  "add_excludes name [] a = Inr a"
| "add_excludes name (t # ts) a = bail (add_opt name (Some t) a) (add_excludes name ts)"

definition rpm_verbosity_types :: "(string \<times> int) list" where
  "rpm_verbosity_types = [(''emergency'', 0), (''alert'', 1), (''critical'', 2), (''error'', 3), (''warning'', 4), (''notice'', 5),
     (''info'', 6), (''debug'', 7)]"

definition ParseRpmVerbosity :: "string option \<Rightarrow> int result" where
  "ParseRpmVerbosity pszRpmVerbosity = (case pszRpmVerbosity of
     None \<Rightarrow> Inl ERROR_TDNF_INVALID_PARAMETER
   | Some v \<Rightarrow> Inr (case find (\<lambda>(name, _). strcaseeq name v) rpm_verbosity_types of None \<Rightarrow> 6 | Some (_, t) \<Rightarrow> t))"

text \<open>The argument is the same as the \<^verbatim>\<open>optarg\<close> of \<^verbatim>\<open>getopt\<close>.\<close>

definition ParseOption :: "string \<Rightarrow> string option \<Rightarrow> cli_args \<Rightarrow> cli_args result" where
  "ParseOption pszName pszArg a =
     bail (TDNFCliValidateOptions pszName pszArg) (\<lambda>_.
       if strcaseeq pszName ''config'' then alloc_into pszArg (\<lambda>s. a\<lparr>pszConfFile := s\<rparr>)
       else if strcaseeq pszName ''rpmverbosity'' then bail (ParseRpmVerbosity pszArg) (\<lambda>n. Inr (a\<lparr>cl_nRpmVerbosity := n\<rparr>))
       else if strcaseeq pszName ''installroot'' then alloc_into pszArg (\<lambda>s. a\<lparr>cl_pszInstallRoot := s\<rparr>)
       else if strcaseeq pszName ''downloaddir'' then alloc_into pszArg (\<lambda>s. a\<lparr>cl_pszDownloadDir := s\<rparr>)
       else if strcaseeq pszName ''releasever'' then alloc_into pszArg (\<lambda>s. a\<lparr>cl_pszReleaseVer := s\<rparr>)
       else if strcaseeq pszName ''setopt''
       then if pszArg = None then Inl ERROR_TDNF_CLI_OPTION_ARG_REQUIRED
            else (case set_opts (\<lambda>b. AddSetOpt b pszArg) a of (e, a) \<Rightarrow>
                    if e = ERROR_TDNF_SETOPT_NO_EQUALS then Inl ERROR_TDNF_CLI_SETOPT_NO_EQUALS
                    else if e \<noteq> 0 then Inl e else Inr a)
       else if strcaseeq pszName ''exclude''
       then bail (TDNFAllocateString pszArg) (\<lambda>copy. add_excludes pszName (strsep_all '',:'' copy) a)
       else if list_ex (\<lambda>o'. strcaseeq (op_name o') pszName) pstOptions
       then add_opt pszName (Some (case pszArg of None \<Rightarrow> ''1'' | Some s \<Rightarrow> s)) a
       else Inr a)"

section \<open>The command line\<close>

text \<open>
  What \<^verbatim>\<open>getopt_long_only\<close> reports, one by one, and the words that are left: an option of the table by its index, a letter, or a
  word that it does not know.
\<close>

datatype opt_report = LONG nat "string option" | SHORT char "string option" | UNKNOWN string "string option"

type_synonym getopt = "string list \<Rightarrow> opt_report list \<times> string list"

text \<open>The flags are kept apart until all options are read.\<close>

definition parse_letter :: "char \<Rightarrow> string option \<Rightarrow> cli_args \<times> cli_args \<Rightarrow> (cli_args \<times> cli_args) result" where
  "parse_letter c arg st = (case st of (opt, a) \<Rightarrow>
     if c = CHR ''b'' then Inr (opt\<lparr>cl_nBest := True\<rparr>, a)
     else if c = CHR ''c'' then bail (ParseOption ''config'' arg a) (\<lambda>a. Inr (opt, a))
     else if c = CHR ''C'' then Inr (opt\<lparr>cl_nCacheOnly := True\<rparr>, a)
     else if c = CHR ''h'' then Inr (opt\<lparr>cl_nShowHelp := True\<rparr>, a)
     else if c = CHR ''i'' then bail (ParseOption ''installroot'' arg a) (\<lambda>a. Inr (opt, a))
     else if c = CHR ''q'' then Inr (opt\<lparr>cl_nQuiet := True\<rparr>, a)
     else if c = CHR ''y'' then Inr (opt\<lparr>cl_nAssumeYes := True\<rparr>, a)
     else if c = CHR ''4'' then Inr (opt\<lparr>cl_nIPv4 := True\<rparr>, a)
     else if c = CHR ''6'' then Inr (opt\<lparr>cl_nIPv6 := True\<rparr>, a)
     else if c = CHR ''v'' then Inr (opt\<lparr>cl_nVerbose := True\<rparr>, a)
     else Inr (opt, a))"

definition parse_report :: "opt_report \<Rightarrow> cli_args \<times> cli_args \<Rightarrow> (cli_args \<times> cli_args) result" where
  "parse_report r st = (case r of
     SHORT c arg \<Rightarrow> parse_letter c arg st
   | UNKNOWN word arg \<Rightarrow> bail (HandleOptionsError word arg) (\<lambda>_. Inr st)
   | LONG i arg \<Rightarrow> (case st of (opt, a) \<Rightarrow>
       let o' = pstOptions ! i in case op_action o' of
         LETTER c \<Rightarrow> parse_letter c arg st
       | SETS f \<Rightarrow> bail (ParseOption (op_name o') arg a) (\<lambda>a. Inr (f opt, a))
       | NAMED \<Rightarrow> bail (ParseOption (op_name o') arg a) (\<lambda>a. Inr (opt, a))))"

fun parse_reports :: "opt_report list \<Rightarrow> cli_args \<times> cli_args \<Rightarrow> (cli_args \<times> cli_args) result" where
  "parse_reports [] st = Inr st"
| "parse_reports (r # rs) st = bail (parse_report r st) (parse_reports rs)"

definition TDNFCopyOptions :: "cli_args \<Rightarrow> cli_args \<Rightarrow> cli_args" where
  "TDNFCopyOptions opt a = a\<lparr>cl_nAllDeps := cl_nAllDeps opt, cl_nAllowErasing := cl_nAllowErasing opt,
     cl_nAssumeNo := cl_nAssumeNo opt, cl_nAssumeYes := cl_nAssumeYes opt, cl_nBest := cl_nBest opt,
     cl_nCacheOnly := cl_nCacheOnly opt, cl_nDebugSolver := cl_nDebugSolver opt, cl_nNoDeps := cl_nNoDeps opt,
     cl_nNoGPGCheck := cl_nNoGPGCheck opt, cl_nNoOutput := cl_nQuiet opt \<and> cl_nAssumeYes opt, cl_nQuiet := cl_nQuiet opt,
     cl_nRefresh := cl_nRefresh opt, cl_nShowDuplicates := cl_nShowDuplicates opt, cl_nShowHelp := cl_nShowHelp opt,
     cl_nShowVersion := cl_nShowVersion opt, cl_nVerbose := cl_nVerbose opt, cl_nIPv4 := cl_nIPv4 opt, cl_nIPv6 := cl_nIPv6 opt,
     cl_nDisableExcludes := cl_nDisableExcludes opt, cl_nDownloadOnly := cl_nDownloadOnly opt,
     cl_nNoAutoRemove := cl_nNoAutoRemove opt, cl_nJsonOutput := cl_nJsonOutput opt, cl_nTestOnly := cl_nTestOnly opt,
     cl_nSkipBroken := cl_nSkipBroken opt, cl_nSource := cl_nSource opt, cl_nBuildDeps := cl_nBuildDeps opt\<rparr>"

definition install_root :: "cli_args \<Rightarrow> cli_args result" where
  "install_root a = (case cl_pszInstallRoot a of
     None \<Rightarrow> alloc_into (Some ''/'') (\<lambda>s. a\<lparr>cl_pszInstallRoot := s\<rparr>)
   | Some root \<Rightarrow> if take 1 root \<noteq> ''/'' then Inl ERROR_TDNF_INVALID_PARAMETER else Inr a)"

fun copy_words :: "string list \<Rightarrow> string list result" where
  "copy_words [] = Inr []"
| "copy_words (w # ws) =
     (if w = [] then Inl ERROR_TDNF_INVALID_PARAMETER
      else bail (TDNFAllocateString (Some w)) (\<lambda>w. bail (copy_words ws) (\<lambda>ws. Inr (w # ws))))"

definition check_args :: "cli_args \<Rightarrow> cli_args result" where
  "check_args a =
     (if cl_pszDownloadDir a \<noteq> None \<and> \<not> cl_nDownloadOnly a then Inl ERROR_TDNF_CLI_DOWNLOADDIR_REQUIRES_DOWNLOADONLY
      else if cl_nAllDeps a \<and> \<not> cl_nDownloadOnly a then Inl ERROR_TDNF_CLI_ALLDEPS_REQUIRES_DOWNLOADONLY
      else if cl_nNoDeps a \<and> \<not> cl_nDownloadOnly a then Inl ERROR_TDNF_CLI_NODEPS_REQUIRES_DOWNLOADONLY
      else Inr a)"

text \<open>Called as \<^verbatim>\<open>tdnfj\<close> the program prints JSON and asks nothing. Without a name it reads through NULL.\<close>

definition start_options :: "string \<Rightarrow> cli_args" where
  "start_options arg0 =
     (if length arg0 \<ge> 5 \<and> drop (length arg0 - 5) arg0 = ''tdnfj''
      then no_args\<lparr>cl_nJsonOutput := True, cl_nAssumeYes := True\<rparr> else no_args)"

definition TDNFCliParseArgs :: "getopt \<Rightarrow> string list \<Rightarrow> cli_args result option" where
  "TDNFCliParseArgs getopt argv = (case argv of
     [] \<Rightarrow> None
   | arg0 # _ \<Rightarrow> (case getopt argv of (reports, words) \<Rightarrow> Some (
       bail (parse_reports reports (start_options arg0, no_args\<lparr>cl_ppszArgv := argv, cl_nRpmVerbosity := - 1\<rparr>)) (\<lambda>(opt, a).
       bail (install_root a) (\<lambda>a.
       let a = TDNFCopyOptions opt a in
       bail (copy_words words) (\<lambda>cmds. check_args (a\<lparr>cl_ppszCmds := cmds\<rparr>)))))))"

section \<open>Arguments of the commands\<close>

text \<open>The words behind the command.\<close>

fun alloc_all :: "string list \<Rightarrow> string list result" where
  "alloc_all [] = Inr []"
| "alloc_all (w # ws) = bail (TDNFAllocateString (Some w)) (\<lambda>w. bail (alloc_all ws) (\<lambda>ws. Inr (w # ws)))"

definition TDNFCliParsePackageArgs :: "string list \<Rightarrow> string list result" where
  "TDNFCliParsePackageArgs ppszCmds = (if ppszCmds = [] then Inl ERROR_TDNF_CLI_NOT_ENOUGH_ARGS else alloc_all (tl ppszCmds))"

definition stScopes :: "(string \<times> scope) list" where
  "stScopes = [(''all'', SCOPE_ALL), (''installed'', SCOPE_INSTALLED), (''available'', SCOPE_AVAILABLE), (''extras'', SCOPE_EXTRAS),
     (''obsoletes'', SCOPE_OBSOLETES), (''recent'', SCOPE_RECENT), (''upgrades'', SCOPE_UPGRADES), (''updates'', SCOPE_UPGRADES),
     (''downgrades'', SCOPE_DOWNGRADES)]"

definition TDNFCliParseScope :: "string \<Rightarrow> scope result" where
  "TDNFCliParseScope pszScope = (case find (\<lambda>(name, _). strcaseeq name pszScope) stScopes of
     None \<Rightarrow> Inl ERROR_TDNF_CLI_NO_MATCH | Some (_, s) \<Rightarrow> Inr s)"

text \<open>The last option that names a scope counts.\<close>

fun scope_options :: "cmd_opt list \<Rightarrow> scope \<Rightarrow> scope" where
  "scope_options [] sc = sc"
| "scope_options ((name, _) # opts) sc =
     scope_options opts (case TDNFCliParseScope name of Inl _ \<Rightarrow> sc | Inr s \<Rightarrow> s)"

record list_args =
  la_nScope :: scope
  la_ppszPackageNameSpecs :: "string list"

definition TDNFCliParseListArgs :: "cli_args \<Rightarrow> list_args result" where
  "TDNFCliParseListArgs a = (case cl_ppszCmds a of
     [] \<Rightarrow> Inl ERROR_TDNF_INVALID_PARAMETER
   | _ # words \<Rightarrow>
       let sc = scope_options (pSetOpt a) SCOPE_ALL;
           (sc, words) = (case words of [] \<Rightarrow> (sc, [])
             | w # ws \<Rightarrow> (case TDNFCliParseScope w of Inl _ \<Rightarrow> (sc, words) | Inr s \<Rightarrow> (s, ws)))
       in bail (alloc_all words) (\<lambda>specs. Inr \<lparr>la_nScope = sc, la_ppszPackageNameSpecs = specs\<rparr>))"

definition TDNFCliParseInfoArgs :: "cli_args \<Rightarrow> list_args result" where
  "TDNFCliParseInfoArgs = TDNFCliParseListArgs"

datatype repolist_filter = REPOLISTFILTER_ALL | REPOLISTFILTER_ENABLED | REPOLISTFILTER_DISABLED

definition stFilterTypes :: "(string \<times> repolist_filter) list" where
  "stFilterTypes = [(''all'', REPOLISTFILTER_ALL), (''enabled'', REPOLISTFILTER_ENABLED), (''disabled'', REPOLISTFILTER_DISABLED)]"

definition TDNFCliParseFilter :: "string \<Rightarrow> repolist_filter result" where
  "TDNFCliParseFilter pszFilter = (case find (\<lambda>(name, _). strcaseeq name pszFilter) stFilterTypes of
     None \<Rightarrow> Inl ERROR_TDNF_CLI_NO_MATCH | Some (_, t) \<Rightarrow> Inr t)"

definition TDNFCliParseRepoListArgs :: "string list \<Rightarrow> repolist_filter result" where
  "TDNFCliParseRepoListArgs ppszCmds =
     (if length ppszCmds > 1 then TDNFCliParseFilter (ppszCmds ! 1) else Inr REPOLISTFILTER_ENABLED)"

section \<open>Arguments of reposync\<close>

record reposync_args =
  ra_nDelete :: bool
  ra_nDownloadMetadata :: bool
  ra_nGPGCheck :: bool
  ra_nNewestOnly :: bool
  ra_nPrintUrlsOnly :: bool
  ra_nNoRepoPath :: bool
  ra_nSourceOnly :: bool
  ra_pszDownloadPath :: "string option"
  ra_pszMetaDataPath :: "string option"
  ra_ppszArchs :: "string list option"

definition no_sync :: reposync_args where
  "no_sync = \<lparr>ra_nDelete = False, ra_nDownloadMetadata = False, ra_nGPGCheck = False, ra_nNewestOnly = False,
     ra_nPrintUrlsOnly = False, ra_nNoRepoPath = False, ra_nSourceOnly = False, ra_pszDownloadPath = None,
     ra_pszMetaDataPath = None, ra_ppszArchs = None\<rparr>"

abbreviation (input) TDNF_REPOSYNC_MAXARCHS :: nat where "TDNF_REPOSYNC_MAXARCHS \<equiv> 10"

text \<open>Architectures behind the last slot are dropped.\<close>

definition add_arch :: "nat \<Rightarrow> string option \<Rightarrow> string list option \<Rightarrow> string list option result" where
  "add_arch slots v archs = (let l = (case archs of None \<Rightarrow> [] | Some l \<Rightarrow> l) in
     if length l < slots then bail (TDNFAllocateString v) (\<lambda>s. Inr (Some (l @ [s]))) else Inr (Some l))"

definition reposync_option :: "cmd_opt \<Rightarrow> reposync_args \<Rightarrow> reposync_args result" where
  "reposync_option opt r = (case opt of (name, v) \<Rightarrow>
     if strcaseeq name ''arch'' then bail (add_arch TDNF_REPOSYNC_MAXARCHS v (ra_ppszArchs r)) (\<lambda>l. Inr (r\<lparr>ra_ppszArchs := l\<rparr>))
     else if strcaseeq name ''delete'' then Inr (r\<lparr>ra_nDelete := True\<rparr>)
     else if strcaseeq name ''download-metadata'' then Inr (r\<lparr>ra_nDownloadMetadata := True\<rparr>)
     else if strcaseeq name ''gpgcheck'' then Inr (r\<lparr>ra_nGPGCheck := True\<rparr>)
     else if strcaseeq name ''newest-only'' then Inr (r\<lparr>ra_nNewestOnly := True\<rparr>)
     else if strcaseeq name ''norepopath'' then Inr (r\<lparr>ra_nNoRepoPath := True\<rparr>)
     else if strcaseeq name ''source'' then Inr (r\<lparr>ra_nSourceOnly := True\<rparr>)
     else if strcaseeq name ''urls'' then Inr (r\<lparr>ra_nPrintUrlsOnly := True\<rparr>)
     else if strcaseeq name ''download-path''
     then bail (TDNFAllocateString v) (\<lambda>s. Inr (r\<lparr>ra_pszDownloadPath := Some s\<rparr>))
     else if strcaseeq name ''metadata-path''
     then bail (TDNFAllocateString v) (\<lambda>s. Inr (r\<lparr>ra_pszMetaDataPath := Some s\<rparr>))
     else Inr r)"

fun reposync_options :: "cmd_opt list \<Rightarrow> reposync_args \<Rightarrow> reposync_args result" where
  "reposync_options [] r = Inr r"
| "reposync_options (opt # opts) r = bail (reposync_option opt r) (reposync_options opts)"

definition TDNFCliParseRepoSyncArgs :: "cli_args \<Rightarrow> reposync_args result" where
  "TDNFCliParseRepoSyncArgs a = reposync_options (pSetOpt a) no_sync"

section \<open>Arguments of repoquery\<close>

record repoquery_args =
  rq_pszSpec :: "string option"
  rq_nAvailable :: bool
  rq_nDuplicates :: bool
  rq_nExtras :: bool
  rq_nInstalled :: bool
  rq_nUpgrades :: bool
  rq_nUserInstalled :: bool
  rq_pszFile :: "string option"
  rq_pppszWhatKeys :: "string list option list"
  rq_ppszArchs :: "string list option"
  rq_nChangeLogs :: bool
  rq_depKeySet :: "32 word"
  rq_nList :: bool
  rq_pszQueryFormat :: "string option"
  rq_nSource :: bool

definition depKeys :: "string list" where
  "depKeys = [''provides'', ''obsoletes'', ''conflicts'', ''requires'', ''recommends'', ''suggests'', ''supplements'',
     ''enhances'', ''depends'', ''requires-pre'']"

definition whatKeys :: "string list" where
  "whatKeys = [''whatprovides'', ''whatobsoletes'', ''whatconflicts'', ''whatrequires'', ''whatrecommends'', ''whatsuggests'',
     ''whatsupplements'', ''whatenhances'', ''whatdepends'']"

definition no_query :: repoquery_args where
  "no_query = \<lparr>rq_pszSpec = None, rq_nAvailable = False, rq_nDuplicates = False, rq_nExtras = False, rq_nInstalled = False,
     rq_nUpgrades = False, rq_nUserInstalled = False, rq_pszFile = None, rq_pppszWhatKeys = replicate (length whatKeys) None,
     rq_ppszArchs = None, rq_nChangeLogs = False, rq_depKeySet = 0, rq_nList = False, rq_pszQueryFormat = None,
     rq_nSource = False\<rparr>"

abbreviation (input) TDNF_REPOQUERY_MAXARCHS :: nat where "TDNF_REPOQUERY_MAXARCHS \<equiv> 10"

text \<open>The index of a name in a table, its length when it is not there.\<close>

definition key_index :: "string list \<Rightarrow> string \<Rightarrow> nat" where
  "key_index keys name = length (takeWhile (\<lambda>k. \<not> strcaseeq name k) keys)"

text \<open>A dependency may be asked for once, and behind it no option may follow.\<close>

definition dep_option :: "nat \<Rightarrow> cmd_opt list \<Rightarrow> repoquery_args \<Rightarrow> repoquery_args result" where
  "dep_option depKey rest r =
     (if and (rq_depKeySet r) (push_bit depKey 1) \<noteq> 0 then Inl ERROR_TDNF_CLI_ONE_DEP_ONLY
      else if rest \<noteq> [] then Inl ERROR_TDNF_CLI_INVALID_MIXED_QUERY_QUERYFORMAT
      else Inr (r\<lparr>rq_depKeySet := or (rq_depKeySet r) (push_bit depKey 1)\<rparr>))"

definition what_option :: "nat \<Rightarrow> string option \<Rightarrow> repoquery_args \<Rightarrow> repoquery_args result" where
  "what_option whatKey v r =
     (if whatKey = length whatKeys then Inr r
      else bail (TDNFSplitStringToArray v (Some '','')) (\<lambda>l. Inr (r\<lparr>rq_pppszWhatKeys := (rq_pppszWhatKeys r)[whatKey := Some l]\<rparr>)))"

definition repoquery_option :: "cmd_opt \<Rightarrow> cmd_opt list \<Rightarrow> repoquery_args \<Rightarrow> repoquery_args result" where
  "repoquery_option opt rest r = (case opt of (name, v) \<Rightarrow>
     if strcaseeq name ''arch'' then bail (add_arch TDNF_REPOQUERY_MAXARCHS v (rq_ppszArchs r)) (\<lambda>l. Inr (r\<lparr>rq_ppszArchs := l\<rparr>))
     else if strcaseeq name ''file'' then bail (TDNFAllocateString v) (\<lambda>s. Inr (r\<lparr>rq_pszFile := Some s\<rparr>))
     else if strcaseeq name ''changelogs'' then Inr (r\<lparr>rq_nChangeLogs := True\<rparr>)
     else if strcaseeq name ''available'' then Inr (r\<lparr>rq_nAvailable := True\<rparr>)
     else if strcaseeq name ''installed'' then Inr (r\<lparr>rq_nInstalled := True\<rparr>)
     else if strcaseeq name ''extras'' then Inr (r\<lparr>rq_nExtras := True\<rparr>)
     else if strcaseeq name ''duplicates'' then Inr (r\<lparr>rq_nDuplicates := True\<rparr>)
     else if strcaseeq name ''list'' then Inr (r\<lparr>rq_nList := True\<rparr>)
     else if strcaseeq name ''qf''
     then if rest \<noteq> [] then Inl ERROR_TDNF_CLI_INVALID_MIXED_QUERY_QUERYFORMAT
          else bail (TDNFAllocateString v) (\<lambda>s. Inr (r\<lparr>rq_pszQueryFormat := Some s\<rparr>))
     else if strcaseeq name ''source'' then Inr (r\<lparr>rq_nSource := True\<rparr>)
     else if strcaseeq name ''upgrades'' then Inr (r\<lparr>rq_nUpgrades := True\<rparr>)
     else if strcaseeq name ''userinstalled'' then Inr (r\<lparr>rq_nUserInstalled := True\<rparr>)
     else if key_index depKeys name < length depKeys then dep_option (key_index depKeys name) rest r
     else what_option (key_index whatKeys name) v r)"

fun repoquery_options :: "cmd_opt list \<Rightarrow> repoquery_args \<Rightarrow> repoquery_args result" where
  "repoquery_options [] r = Inr r"
| "repoquery_options (opt # opts) r = bail (repoquery_option opt opts r) (repoquery_options opts)"

definition TDNFCliParseRepoQueryArgs :: "cli_args \<Rightarrow> repoquery_args result" where
  "TDNFCliParseRepoQueryArgs a =
     bail (repoquery_options (pSetOpt a) no_query) (\<lambda>r.
       if length (cl_ppszCmds a) > 2 then Inl ERROR_TDNF_CLI_INVALID_ARGUMENT
       else if length (cl_ppszCmds a) > 1
       then bail (TDNFAllocateString (Some (cl_ppszCmds a ! 1))) (\<lambda>s. Inr (r\<lparr>rq_pszSpec := Some s\<rparr>))
       else Inr r)"

section \<open>Arguments of history\<close>

record history_cli_args = history_args +
  ha_nInfo :: bool
  ha_nReverse :: bool

definition history_command :: "string list \<Rightarrow> history_cmd" where
  "history_command ppszCmds =
     (if length ppszCmds \<le> 1 then HISTORY_CMD_LIST
      else let c = ppszCmds ! 1 in
        if c = ''list'' then HISTORY_CMD_LIST
        else if c = ''init'' \<or> c = ''update'' then HISTORY_CMD_INIT
        else if c = ''rollback'' then HISTORY_CMD_ROLLBACK
        else if c = ''undo'' then HISTORY_CMD_UNDO
        else if c = ''redo'' then HISTORY_CMD_REDO
        else HISTORY_CMD_LIST)"

text \<open>The word behind the command, when it starts with a digit: one number, or two with a minus between them.\<close>

definition history_range :: "string list \<Rightarrow> (int \<times> int) result option" where
  "history_range ppszCmds =
     (if length ppszCmds > 2 \<and> c_isdigit (hd (ppszCmds ! 2 @ [CHR 0x00]))
      then case TDNFSplitStringToArray (Some (ppszCmds ! 2)) (Some ''-'') of
             Inl e \<Rightarrow> Some (Inl e)
           | Inr [] \<Rightarrow> None
           | Inr [nFrom] \<Rightarrow> Some (Inr (strtoi nFrom, 0))
           | Inr (nFrom # nTo # _) \<Rightarrow> Some (Inr (strtoi nFrom, strtoi nTo))
      else Some (Inr (0, 0)))"

text \<open>A number without a text is read through NULL.\<close>

fun history_options :: "cmd_opt list \<Rightarrow> history_cli_args \<Rightarrow> history_cli_args option" where
  "history_options [] h = Some h"
| "history_options ((name, v) # opts) h =
     (if strcaseeq name ''info'' then history_options opts (h\<lparr>ha_nInfo := True\<rparr>)
      else if strcaseeq name ''reverse'' then history_options opts (h\<lparr>ha_nReverse := True\<rparr>)
      else if strcaseeq name ''from''
      then (case v of None \<Rightarrow> None | Some s \<Rightarrow> history_options opts (h\<lparr>ha_nFrom := strtoi s\<rparr>))
      else if strcaseeq name ''to''
      then (case v of None \<Rightarrow> None | Some s \<Rightarrow> history_options opts (h\<lparr>ha_nTo := strtoi s\<rparr>))
      else history_options opts h)"

definition TDNFCliParseHistoryArgs :: "cli_args \<Rightarrow> history_cli_args result option" where
  "TDNFCliParseHistoryArgs a =
     thenU (history_range (cl_ppszCmds a)) (\<lambda>(nFrom, nTo).
       case history_options (pSetOpt a) \<lparr>ha_nCommand = history_command (cl_ppszCmds a), ha_nFrom = nFrom, ha_nTo = nTo,
              ha_nInfo = False, ha_nReverse = False\<rparr> of
         None \<Rightarrow> None
       | Some h \<Rightarrow> Some (Inr (if ha_nTo h = 0 then h\<lparr>ha_nTo := ha_nFrom h\<rparr> else h)))"

section \<open>Arguments of updateinfo\<close>

datatype updateinfo_output = OUTPUT_SUMMARY | OUTPUT_LIST | OUTPUT_INFO

definition stModes :: "(string \<times> updateinfo_output) list" where
  "stModes = [(''summary'', OUTPUT_SUMMARY), (''list'', OUTPUT_LIST), (''info'', OUTPUT_INFO)]"

definition TDNFCliParseMode :: "string \<Rightarrow> updateinfo_output result" where
  "TDNFCliParseMode pszMode =
     (if pszMode = [] then Inl ERROR_TDNF_INVALID_PARAMETER
      else case find (\<lambda>(name, _). strcaseeq name pszMode) stModes of None \<Rightarrow> Inl ERROR_TDNF_CLI_NO_MATCH | Some (_, m) \<Rightarrow> Inr m)"

definition unless_no_match :: "'a \<Rightarrow> 'a result \<Rightarrow> 'a result" where
  "unless_no_match x r = (case r of Inl e \<Rightarrow> if e = ERROR_TDNF_CLI_NO_MATCH then Inr x else Inl e | Inr y \<Rightarrow> Inr y)"

fun updateinfo_options :: "cmd_opt list \<Rightarrow> updateinfo_output \<times> scope \<Rightarrow> (updateinfo_output \<times> scope) result" where
  "updateinfo_options [] st = Inr st"
| "updateinfo_options ((name, _) # opts) (mode, sc) = (case TDNFCliParseScope name of
     Inr s \<Rightarrow> updateinfo_options opts (mode, s)
   | Inl _ \<Rightarrow> bail (unless_no_match mode (TDNFCliParseMode name)) (\<lambda>m. updateinfo_options opts (m, sc)))"

record updateinfo_args =
  ui_nMode :: updateinfo_output
  ui_nScope :: scope
  ui_ppszPackageNameSpecs :: "string list"

text \<open>A word that is taken as a mode or as a scope is gone.\<close>

definition mode_word :: "updateinfo_output \<Rightarrow> string list \<Rightarrow> (updateinfo_output \<times> string list) result" where
  "mode_word mode words = (case words of
     [] \<Rightarrow> Inr (mode, [])
   | w # ws \<Rightarrow> unless_no_match (mode, words) (bail (TDNFCliParseMode w) (\<lambda>m. Inr (m, ws))))"

definition scope_word :: "scope \<Rightarrow> string list \<Rightarrow> scope \<times> string list" where
  "scope_word sc words = (case words of
     [] \<Rightarrow> (sc, []) | w # ws \<Rightarrow> (case TDNFCliParseScope w of Inl _ \<Rightarrow> (sc, words) | Inr s \<Rightarrow> (s, ws)))"

definition TDNFCliParseUpdateInfoArgs :: "cli_args \<Rightarrow> updateinfo_args result" where
  "TDNFCliParseUpdateInfoArgs a = (case cl_ppszCmds a of
     [] \<Rightarrow> Inl ERROR_TDNF_INVALID_PARAMETER
   | _ # words \<Rightarrow>
       bail (updateinfo_options (pSetOpt a) (OUTPUT_SUMMARY, SCOPE_AVAILABLE)) (\<lambda>(mode, sc).
       bail (mode_word mode words) (\<lambda>(mode, words).
         case scope_word sc words of (sc, words) \<Rightarrow>
         bail (alloc_all words) (\<lambda>specs. Inr \<lparr>ui_nMode = mode, ui_nScope = sc, ui_ppszPackageNameSpecs = specs\<rparr>))))"

section \<open>Options that go together\<close>

lemma strsep_pieces: "concat (strsep_all seps s) = filter (\<lambda>c. c \<notin> set seps) s"
  by (induction seps s rule: strsep_all.induct) (auto split: list.split)

lemma copy_words_same: "copy_words ws = Inr cs \<Longrightarrow> cs = ws \<and> [] \<notin> set ws"
  by (induction ws arbitrary: cs) (auto simp: bail_Inr_iff dest: alloc_same split: if_splits)

lemma install_root_ok: "install_root a = Inr b \<Longrightarrow> \<exists>r. b = a\<lparr>cl_pszInstallRoot := Some r\<rparr> \<and> take 1 r = ''/''"
  by (cases a) (auto simp: install_root_def alloc_into_def bail_Inr_iff dest!: alloc_same split: option.splits if_splits)

definition args_agree :: "cli_args \<Rightarrow> bool" where
  "args_agree a \<longleftrightarrow> (cl_pszDownloadDir a \<noteq> None \<or> cl_nAllDeps a \<or> cl_nNoDeps a \<longrightarrow> cl_nDownloadOnly a)
     \<and> (case cl_pszInstallRoot a of None \<Rightarrow> False | Some r \<Rightarrow> take 1 r = ''/'')
     \<and> [] \<notin> set (cl_ppszCmds a) \<and> cl_nNoOutput a = (cl_nQuiet a \<and> cl_nAssumeYes a)"

lemma parse_args_ok:
  assumes "TDNFCliParseArgs g argv = Some (Inr a)"
  obtains arg0 opt b where "argv \<noteq> []" "arg0 = hd argv"
    "parse_reports (fst (g argv)) (start_options arg0, no_args\<lparr>cl_ppszArgv := argv, cl_nRpmVerbosity := - 1\<rparr>) = Inr (opt, b)"
    "a = (TDNFCopyOptions opt b)\<lparr>cl_pszInstallRoot := cl_pszInstallRoot a, cl_ppszCmds := snd (g argv)\<rparr>" "args_agree a"
proof -
  from assms obtain arg0 rest opt b b1 cs where argv: "argv = arg0 # rest"
    and r: "parse_reports (fst (g argv)) (start_options arg0, no_args\<lparr>cl_ppszArgv := argv, cl_nRpmVerbosity := - 1\<rparr>) = Inr (opt, b)"
    and i: "install_root b = Inr b1" and c: "copy_words (snd (g argv)) = Inr cs"
    and k: "check_args ((TDNFCopyOptions opt b1)\<lparr>cl_ppszCmds := cs\<rparr>) = Inr a"
    by (auto simp: TDNFCliParseArgs_def bail_Inr_iff Let_def split: list.splits prod.splits)
  from install_root_ok [OF i] obtain root where b1: "b1 = b\<lparr>cl_pszInstallRoot := Some root\<rparr>" and root: "take 1 root = ''/''" by blast
  have cs: "cs = snd (g argv)" "[] \<notin> set cs" using copy_words_same [OF c] by auto
  have a: "a = (TDNFCopyOptions opt b1)\<lparr>cl_ppszCmds := cs\<rparr>" using k by (auto simp: check_args_def split: if_splits)
  have "args_agree a"
    using k root cs(2) unfolding a b1 args_agree_def check_args_def by (auto simp: TDNFCopyOptions_def split: if_splits)
  moreover have "a = (TDNFCopyOptions opt b)\<lparr>cl_pszInstallRoot := cl_pszInstallRoot a, cl_ppszCmds := snd (g argv)\<rparr>"
    unfolding a b1 cs(1) by (simp add: TDNFCopyOptions_def)
  ultimately show ?thesis using that [OF _ _ _ _ ] argv r by auto
qed

section \<open>The list of options\<close>

text \<open>What one report adds to the options that are handed on by name.\<close>

definition kept_apart :: "string list" where
  "kept_apart = [''config'', ''rpmverbosity'', ''installroot'', ''downloaddir'', ''releasever'']"

definition setting_of :: "string \<Rightarrow> cmd_opt" where
  "setting_of s = (case GetOptionAndValue (Some s) of Inl _ \<Rightarrow> ([], None) | Inr (name, v) \<Rightarrow> (name, Some v))"

definition named_opts :: "string \<Rightarrow> string option \<Rightarrow> cmd_opt list" where
  "named_opts name arg =
     (if name \<in> set kept_apart then []
      else if name = ''setopt'' then [setting_of (the arg)]
      else if name = ''exclude'' then map (\<lambda>t. (name, Some t)) (strsep_all '',:'' (the arg))
      else [(name, Some (case arg of None \<Rightarrow> ''1'' | Some s \<Rightarrow> s))])"

definition report_opts :: "opt_report \<Rightarrow> cmd_opt list" where
  "report_opts r = (case r of
     LONG i arg \<Rightarrow> (case op_action (pstOptions ! i) of LETTER c \<Rightarrow> [] | _ \<Rightarrow> named_opts (op_name (pstOptions ! i)) arg)
   | _ \<Rightarrow> [])"

lemma set_opts_truncate: "pSetOpt (cmd_args.truncate a) = pSetOpt a" "pszConfFile (cmd_args.truncate a) = pszConfFile a"
  by (simp_all add: cmd_args.defs)

lemma add_opt_ok: "add_opt name (Some v) a = Inr b \<Longrightarrow> b = a\<lparr>pSetOpt := pSetOpt a @ [(name, Some v)]\<rparr>"
  by (auto simp: add_opt_def set_opts_def AddSetOptWithValues_def set_opts_truncate TDNFSafeAllocateString_def TDNFAllocateString_def
      split: prod.splits if_splits sum.splits)

lemma add_excludes_ok:
  "add_excludes name ts a = Inr b \<Longrightarrow> b = a\<lparr>pSetOpt := pSetOpt a @ map (\<lambda>t. (name, Some t)) ts\<rparr>"
  by (induction ts arbitrary: a) (force simp: bail_Inr_iff dest!: add_opt_ok)+

definition option_names :: "string list" where
  "option_names = map op_name pstOptions"

text \<open>Bit 5 tells small letters from capital ones.\<close>

definition all_lower :: "string \<Rightarrow> bool" where
  "all_lower s \<longleftrightarrow> list_all digit5 s"

lemma upper_digit5: "c_isupper c \<Longrightarrow> \<not> digit5 c"
proof
  assume u: "c_isupper c" and d: "digit5 c"
  obtain b0 b1 b2 b3 b4 b6 b7 where c: "c = Char b0 b1 b2 b3 b4 True b6 b7" using d by (cases c) simp
  show False using u unfolding c by (cases b0; cases b1; cases b2; cases b3; cases b4; cases b6; cases b7) (simp_all add: c_isupper_def)
qed

lemma lower_eq: "all_lower s \<Longrightarrow> all_lower t \<Longrightarrow> strcaseeq s t \<longleftrightarrow> s = t"
proof -
  have "map c_tolower s = s" if "all_lower s" for s
  proof (rule map_idI)
    fix c assume "c \<in> set s"
    then have "digit5 c" using that by (simp add: all_lower_def list_all_iff)
    then show "c_tolower c = c" using upper_digit5 [of c] by (auto simp: c_tolower_def)
  qed
  then show "all_lower s \<Longrightarrow> all_lower t \<Longrightarrow> strcaseeq s t \<longleftrightarrow> s = t" by (simp add: strcaseeq_def)
qed

lemma option_actions [simp]:
  "op_name (flag_option n f) = n" "op_name (plain_option n) = n" "op_name (value_option n) = n" "op_name (letter_option n b c) = n"
  "op_required (flag_option n f) = False" "op_required (plain_option n) = False" "op_required (value_option n)"
  "op_required (letter_option n b c) = b" "op_action (flag_option n f) = SETS f" "op_action (plain_option n) = NAMED"
  "op_action (value_option n) = NAMED" "op_action (letter_option n b c) = LETTER c"
  by (simp_all add: flag_option_def plain_option_def value_option_def letter_option_def)

lemma table_lower: "list_all all_lower option_names"
  unfolding option_names_def pstOptions_def list.map option_actions by (simp add: all_lower_def)

lemma apart_lower: "list_all all_lower (''setopt'' # ''exclude'' # kept_apart)"
  by (simp add: kept_apart_def all_lower_def)

lemma table_required:
  "list_all (\<lambda>o'. op_required o' \<or> op_name o' \<notin> set (''setopt'' # ''exclude'' # kept_apart)) pstOptions"
  unfolding pstOptions_def kept_apart_def by simp

lemma AddSetOpt_ok:
  assumes "set_opts (\<lambda>b. AddSetOpt b (Some s)) a = (0, b)"
  shows "b = a\<lparr>pSetOpt := pSetOpt a @ [setting_of s]\<rparr>"
  using assms
  by (cases "GetOptionAndValue (Some s)")
    (auto simp: set_opts_def AddSetOpt_def AddSetOptWithValues_def set_opts_truncate TDNFSafeAllocateString_def TDNFAllocateString_def
      setting_of_def GetOptionAndValue_def bail_Inr_iff split: prod.splits if_splits sum.splits option.splits)

lemma option_name_eq:
  assumes "n \<in> set option_names" and "k \<in> set (''setopt'' # ''exclude'' # kept_apart)"
  shows "strcaseeq n k \<longleftrightarrow> n = k"
  using assms table_lower apart_lower unfolding list_all_iff by (intro lower_eq) blast+

lemma option_found: "n \<in> set option_names \<Longrightarrow> list_ex (\<lambda>o'. strcaseeq (op_name o') n) pstOptions"
  by (auto simp: option_names_def list_ex_iff strcaseeq_def)

lemma ParseOption_opts:
  assumes "ParseOption n arg a = Inr b" and n: "n \<in> set option_names"
    and "arg = None \<longrightarrow> n \<notin> set (''setopt'' # ''exclude'' # kept_apart)"
  shows "pSetOpt b = pSetOpt a @ named_opts n arg"
proof -
  note eq = option_name_eq [OF n]
  have e: "strcaseeq n ''config'' = (n = ''config'')" "strcaseeq n ''rpmverbosity'' = (n = ''rpmverbosity'')"
    "strcaseeq n ''installroot'' = (n = ''installroot'')" "strcaseeq n ''downloaddir'' = (n = ''downloaddir'')"
    "strcaseeq n ''releasever'' = (n = ''releasever'')" "strcaseeq n ''setopt'' = (n = ''setopt'')"
    "strcaseeq n ''exclude'' = (n = ''exclude'')"
    by (rule eq; simp add: kept_apart_def)+
  note run = assms(1) [unfolded ParseOption_def e]
  have t: "list_ex (\<lambda>o'. strcaseeq (op_name o') n) pstOptions"
    by (rule option_found [OF n])
  consider (apart) "n \<in> set kept_apart" | (setopt) "n = ''setopt''" | (exclude) "n = ''exclude''"
    | (other) "n \<notin> set (''setopt'' # ''exclude'' # kept_apart)" by auto
  then show ?thesis
  proof cases
    case apart
    then show ?thesis using run
      by (auto simp: bail_Inr_iff alloc_into_def named_opts_def kept_apart_def)
  next
    case setopt
    then obtain s where "arg = Some s" using assms(3) by auto
    then show ?thesis using run setopt
      by (auto simp: bail_Inr_iff named_opts_def kept_apart_def dest!: AddSetOpt_ok split: prod.splits if_splits)
  next
    case exclude
    then obtain s where "arg = Some s" using assms(3) by auto
    then show ?thesis using run exclude
      by (auto simp: bail_Inr_iff named_opts_def kept_apart_def dest!: add_excludes_ok alloc_same)
  next
    case other
    then show ?thesis using run t
      by (auto simp: bail_Inr_iff named_opts_def kept_apart_def dest!: add_opt_ok)
  qed
qed

text \<open>\<^verbatim>\<open>getopt\<close> reports indices of the table, and an argument exactly for the options that want one.\<close>

definition report_ok :: "opt_report \<Rightarrow> bool" where
  "report_ok r = (case r of
     LONG i arg \<Rightarrow> i < length pstOptions \<and> (op_required (pstOptions ! i) \<longrightarrow> arg \<noteq> None)
   | SHORT c arg \<Rightarrow> c \<in> set ''ci'' \<longrightarrow> arg \<noteq> None
   | UNKNOWN w arg \<Rightarrow> True)"

lemma index_name: "i < length pstOptions \<Longrightarrow> op_name (pstOptions ! i) \<in> set option_names"
  by (simp add: option_names_def)

lemma known_names: "''config'' \<in> set option_names" "''installroot'' \<in> set option_names"
  unfolding option_names_def pstOptions_def list.map option_actions by simp_all

lemma parse_letter_opts:
  assumes "parse_letter c arg (opt, a) = Inr (opt', b)" and "c \<in> set ''ci'' \<longrightarrow> arg \<noteq> None"
  shows "pSetOpt b = pSetOpt a"
proof -
  have "named_opts ''config'' arg = []" "named_opts ''installroot'' arg = []" by (simp_all add: named_opts_def kept_apart_def)
  then show ?thesis
    using assms ParseOption_opts [OF _ known_names(1), of arg a] ParseOption_opts [OF _ known_names(2), of arg a]
    by (auto simp: parse_letter_def bail_Inr_iff split: if_splits)
qed

lemma letter_arg: "list_all (\<lambda>o'. case op_action o' of LETTER c \<Rightarrow> c \<in> set ''ci'' \<longrightarrow> op_required o' | _ \<Rightarrow> True) pstOptions"
  unfolding pstOptions_def by simp

lemma parse_report_opts:
  assumes "parse_report r (opt, a) = Inr (opt', b)" and "report_ok r"
  shows "pSetOpt b = pSetOpt a @ report_opts r"
proof (cases r)
  case (LONG i arg)
  define o' where "o' = pstOptions ! i"
  have i: "i < length pstOptions" and arg: "op_required o' \<longrightarrow> arg \<noteq> None"
    using assms(2) by (simp_all add: LONG report_ok_def o'_def)
  then have o': "o' \<in> set pstOptions" "op_name o' \<in> set option_names" using index_name by (simp_all add: o'_def)
  have "arg = None \<longrightarrow> op_name o' \<notin> set (''setopt'' # ''exclude'' # kept_apart)"
    using table_required o'(1) arg unfolding list_all_iff by blast
  note opts = ParseOption_opts [OF _ o'(2) this]
  show ?thesis
  proof (cases "op_action o'")
    case (LETTER c)
    then have "c \<in> set ''ci'' \<longrightarrow> arg \<noteq> None" using letter_arg o'(1) arg unfolding list_all_iff by fastforce
    then show ?thesis using assms(1) LETTER parse_letter_opts by (auto simp: parse_report_def LONG report_opts_def o'_def Let_def)
  qed (use assms(1) opts in \<open>auto simp: parse_report_def LONG report_opts_def o'_def Let_def bail_Inr_iff\<close>)
qed (use assms parse_letter_opts in \<open>auto simp: parse_report_def report_opts_def bail_Inr_iff report_ok_def\<close>)

lemma parse_reports_opts:
  "parse_reports rs (opt, a) = Inr (opt', b) \<Longrightarrow> list_all report_ok rs \<Longrightarrow> pSetOpt b = pSetOpt a @ concat (map report_opts rs)"
  by (induction rs arbitrary: opt a) (fastforce simp: bail_Inr_iff dest!: parse_report_opts)+

section \<open>Properties of the command line\<close>

text \<open>
  C0: A command line that is accepted is consistent: a download directory, --alldeps and --nodeps only come with --downloadonly,
  the install root is absolute, no word is empty, and the output is suppressed exactly when tdnf is quiet and does not ask. Its
  words are those that getopt left, and the options handed on by name are those that getopt reported, each once and in their
  order: an exclude once per piece, a setopt split at its equal sign, the others with their argument or 1.
\<close>

theorem ParseArgs_consistent:
  assumes "TDNFCliParseArgs g argv = Some (Inr a)" and "list_all report_ok (fst (g argv))"
  shows "args_agree a \<and> cl_ppszCmds a = snd (g argv) \<and> pSetOpt a = concat (map report_opts (fst (g argv)))"
proof -
  from assms(1) obtain opt b root where
    r: "parse_reports (fst (g argv)) (start_options (hd argv), no_args\<lparr>cl_ppszArgv := argv, cl_nRpmVerbosity := - 1\<rparr>) = Inr (opt, b)"
    and a: "a = (TDNFCopyOptions opt b)\<lparr>cl_pszInstallRoot := root, cl_ppszCmds := snd (g argv)\<rparr>" and agree: "args_agree a"
    by (elim parse_args_ok) blast
  have "pSetOpt b = concat (map report_opts (fst (g argv)))"
    using parse_reports_opts [OF r assms(2)] by (simp add: no_args_def)
  moreover have "pSetOpt a = pSetOpt b" "cl_ppszCmds a = snd (g argv)" unfolding a by (simp_all add: TDNFCopyOptions_def)
  ultimately show ?thesis using agree by simp
qed

definition sample_getopt :: getopt where
  "sample_getopt argv = ([LONG 16 None, SHORT CHR ''y'' None], [''install'', ''p''])"

lemma sample_option: "ParseOption ''downloadonly'' None a = Inr (a\<lparr>pSetOpt := pSetOpt a @ [(''downloadonly'', Some ''1'')]\<rparr>)"
proof -
  have n: "''downloadonly'' \<in> set option_names"
    unfolding option_names_def pstOptions_def list.map option_actions by simp
  have e: "strcaseeq ''downloadonly'' k = (''downloadonly'' = k)" if "k \<in> set (''setopt'' # ''exclude'' # kept_apart)" for k
    by (rule option_name_eq [OF n that])
  have t: "list_ex (\<lambda>o'. strcaseeq (op_name o') ''downloadonly'') pstOptions" by (rule option_found [OF n])
  have f: "find (\<lambda>o'. op_name o' = ''downloadonly'') pstOptions = Some (flag_option ''downloadonly'' (cl_nDownloadOnly_update (\<lambda>_. True)))"
    unfolding pstOptions_def by simp
  have "TDNFCliValidateOptions ''downloadonly'' None = Inr ()"
    by (simp add: TDNFCliValidateOptions_def TDNFCliValidateOptionName_def TDNFCliValidateOptionArg_def TDNFCliGetOptionByName_def f
        IsNullOrEmptyString_def)
  moreover have "add_opt ''downloadonly'' (Some ''1'') a = Inr (a\<lparr>pSetOpt := pSetOpt a @ [(''downloadonly'', Some ''1'')]\<rparr>)"
    by (simp add: add_opt_def set_opts_def AddSetOptWithValues_def set_opts_truncate TDNFSafeAllocateString_def TDNFAllocateString_def
        TDNF_DEFAULT_MAX_STRING_LEN_def IsNullOrEmptyString_def)
  ultimately show ?thesis using e t by (simp add: ParseOption_def kept_apart_def)
qed

theorem ParseArgs_consistent_witness:
  "\<exists>a. TDNFCliParseArgs sample_getopt [''tdnf'', ''--downloadonly'', ''-y'', ''install'', ''p''] = Some (Inr a)
     \<and> args_agree a \<and> cl_ppszCmds a = [''install'', ''p''] \<and> pSetOpt a = [(''downloadonly'', Some ''1'')]"
proof -
  let ?argv = "[''tdnf'', ''--downloadonly'', ''-y'', ''install'', ''p'']"
  have o16: "pstOptions ! 16 = flag_option ''downloadonly'' (cl_nDownloadOnly_update (\<lambda>_. True))" unfolding pstOptions_def by simp
  have len: "length pstOptions > 16" unfolding pstOptions_def by simp
  obtain a where a: "TDNFCliParseArgs sample_getopt ?argv = Some (Inr a)"
    by (simp add: TDNFCliParseArgs_def sample_getopt_def parse_report_def o16 sample_option parse_letter_def start_options_def Let_def
        install_root_def alloc_into_def no_args_def TDNFCopyOptions_def TDNFAllocateString_def TDNF_DEFAULT_MAX_STRING_LEN_def
        check_args_def)
  have ok: "list_all report_ok (fst (sample_getopt ?argv))" by (simp add: sample_getopt_def report_ok_def len o16)
  have "concat (map report_opts (fst (sample_getopt ?argv))) = [(''downloadonly'', Some ''1'')]"
    by (simp add: sample_getopt_def report_opts_def o16 named_opts_def kept_apart_def)
  then show ?thesis using ParseArgs_consistent [OF a ok] a by (simp add: sample_getopt_def)
qed

text \<open>Only the last option changes the set of kinds or the format.\<close>

definition keys_step :: "bool \<Rightarrow> repoquery_args \<Rightarrow> repoquery_args \<Rightarrow> bool" where
  "keys_step final r r' \<longleftrightarrow> rq_depKeySet r' = rq_depKeySet r \<and> (rq_pszQueryFormat r' = rq_pszQueryFormat r \<or> final)
     \<or> final \<and> (\<exists>k < length depKeys. rq_depKeySet r' = or (rq_depKeySet r) (push_bit k 1))
         \<and> rq_pszQueryFormat r' = rq_pszQueryFormat r"

definition each_ok :: "('a \<Rightarrow> bool) \<Rightarrow> 'a result \<Rightarrow> bool" where
  "each_ok P res \<longleftrightarrow> (\<forall>x. res = Inr x \<longrightarrow> P x)"

lemma each_ok_simps [simp]: "each_ok P (Inl e)" "each_ok P (Inr x) = P x"
  by (simp_all add: each_ok_def)

lemma each_ok_if [intro!]: "(b \<Longrightarrow> each_ok P x) \<Longrightarrow> (\<not> b \<Longrightarrow> each_ok P y) \<Longrightarrow> each_ok P (if b then x else y)"
  by simp

lemma each_ok_bail [intro!]: "(\<And>x. each_ok P (f x)) \<Longrightarrow> each_ok P (bail m f)"
  by (auto simp: each_ok_def bail_Inr_iff)

lemma dep_step: "k < length depKeys \<Longrightarrow> each_ok (keys_step (rest = []) r) (dep_option k rest r)"
  unfolding dep_option_def by (intro each_ok_if) (auto simp: keys_step_def simp del: push_bit_eq_mult push_bit_of_1)

lemma option_keys: "each_ok (keys_step (rest = []) r) (repoquery_option opt rest r)"
proof (cases opt)
  case (Pair name v)
  show ?thesis
    unfolding repoquery_option_def what_option_def Pair prod.case
    by (intro each_ok_if each_ok_bail dep_step) (simp_all add: keys_step_def)
qed

lemma options_keys:
  assumes "repoquery_options opts r = Inr r'"
  shows "rq_depKeySet r' = rq_depKeySet r
     \<or> (\<exists>k < length depKeys. rq_depKeySet r' = or (rq_depKeySet r) (push_bit k 1)) \<and> rq_pszQueryFormat r' = rq_pszQueryFormat r"
  using assms
proof (induction opts arbitrary: r)
  case (Cons opt opts)
  then obtain r1 where s: "repoquery_option opt opts r = Inr r1" and r: "repoquery_options opts r1 = Inr r'" by (auto simp: bail_Inr_iff)
  have step: "keys_step (opts = []) r r1" using option_keys [of opts r opt] s by (simp add: each_ok_def)
  show ?case
  proof (cases "opts = []")
    case True
    then have "r' = r1" using r by simp
    then show ?thesis using step unfolding keys_step_def by blast
  next
    case False
    then have "rq_depKeySet r1 = rq_depKeySet r" "rq_pszQueryFormat r1 = rq_pszQueryFormat r"
      using step unfolding keys_step_def by blast+
    then show ?thesis using Cons.IH [OF r] by metis
  qed
qed simp

text \<open>
  C0: A query that is accepted asks for at most one kind of dependency: the set of kinds has no bit or exactly one of the ten,
  and a query with a kind has no format.
\<close>

theorem RepoQueryArgs_one_dep:
  assumes "TDNFCliParseRepoQueryArgs a = Inr r"
  shows "rq_depKeySet r = 0 \<or> (\<exists>k < length depKeys. rq_depKeySet r = push_bit k 1) \<and> rq_pszQueryFormat r = None"
proof -
  from assms obtain r0 where r0: "repoquery_options (pSetOpt a) no_query = Inr r0"
    and same: "rq_depKeySet r = rq_depKeySet r0" "rq_pszQueryFormat r = rq_pszQueryFormat r0"
    by (auto simp: TDNFCliParseRepoQueryArgs_def bail_Inr_iff split: if_splits)
  have start: "rq_depKeySet no_query = 0" "rq_pszQueryFormat no_query = None" by (simp_all add: no_query_def)
  show ?thesis using options_keys [OF r0] unfolding same start or.left_neutral by blast
qed

theorem RepoQueryArgs_one_dep_witness:
  "TDNFCliParseRepoQueryArgs (no_args\<lparr>pSetOpt := [(''requires'', Some ''1'')]\<rparr>) = Inr (no_query\<lparr>rq_depKeySet := 8\<rparr>)
     \<and> (\<exists>k < length depKeys. (8 :: 32 word) = push_bit k 1)"
proof -
  have r: "TDNFCliParseRepoQueryArgs (no_args\<lparr>pSetOpt := [(''requires'', Some ''1'')]\<rparr>) = Inr (no_query\<lparr>rq_depKeySet := 8\<rparr>)"
    by (simp add: TDNFCliParseRepoQueryArgs_def repoquery_option_def strcaseeq_def char_eval key_index_def depKeys_def dep_option_def
        no_query_def no_args_def)
  show ?thesis using RepoQueryArgs_one_dep [OF r] r by simp
qed

end
