(* ===== verification/Cli_Alter.thy ===== *)
theory Cli_Alter
  imports Cli_Args Api_Resolve Tdnf_Json
begin

text \<open>
  The commands that change packages, as the command line tool runs them (\<^verbatim>\<open>tools/cli/lib/installcmd.c\<close>, \<^verbatim>\<open>output.c\<close>): the
  plan is resolved, printed as text or as JSON, the user is asked, and then the transaction runs. Sizes are printed by
  \<^verbatim>\<open>TDNFUtilsFormatSize\<close> of \<^verbatim>\<open>common/utils.c\<close>, messages go through \<^verbatim>\<open>common/log.c\<close>.
\<close>

section \<open>Output\<close>

text \<open>Messages for the user are dropped for JSON output and when tdnf is quiet. JSON itself is always printed.\<close>

definition pr_info :: "trans_args \<Rightarrow> string \<Rightarrow> (rpm_world, unit) prog" where
  "pr_info args s = (if ta_nJsonOutput args \<or> ta_nQuiet args then returnP () else out s)"

definition pr_json :: "string \<Rightarrow> (rpm_world, unit) prog" where
  "pr_json s = out s"

text \<open>A message whose text reads through NULL is undefined, unless it is dropped.\<close>

definition pr_infoU :: "trans_args \<Rightarrow> string option \<Rightarrow> (rpm_world, unit) prog" where
  "pr_infoU args t = (case t of
     Some s \<Rightarrow> pr_info args s
   | None \<Rightarrow> if ta_nJsonOutput args \<or> ta_nQuiet args then returnP () else (\<lambda>w. None))"

fun bit_length :: "nat \<Rightarrow> nat" where
  "bit_length n = (if n = 0 then 0 else Suc (bit_length (n div 2)))"

declare bit_length.simps [simp del]

definition round_half_even :: "nat \<Rightarrow> nat \<Rightarrow> nat" where
  "round_half_even n d = (let q = n div d; r = n mod d in if 2 * r > d \<or> 2 * r = d \<and> odd q then q + 1 else q)"

text \<open>The \<^verbatim>\<open>double\<close> nearest to a number of 64 bits: 53 binary digits, ties to even.\<close>

definition to_double :: "nat \<Rightarrow> nat" where
  "to_double n = (let e = 2 ^ (bit_length n - 53) in round_half_even n e * e)"

text \<open>
  Divisions by 1024 are exact. The number of them is at most 4, the length of \<^verbatim>\<open>bkMG\<close>; then the character that is printed
  behind the number is the terminator of that text.
\<close>

fun size_index :: "nat \<Rightarrow> nat \<Rightarrow> nat" where
  "size_index n 0 = 0"
| "size_index n (Suc k) = (if n > 1024 ^ (4 - k) then Suc (size_index n k) else 0)"

definition pad_left :: "nat \<Rightarrow> string \<Rightarrow> string" where
  "pad_left n s = replicate (n - length s) CHR '' '' @ s"

definition pad_right :: "nat \<Rightarrow> string \<Rightarrow> string" where
  "pad_right n s = s @ replicate (n - length s) CHR '' ''"

definition TDNFUtilsFormatSize :: "64 word \<Rightarrow> string" where
  "TDNFUtilsFormatSize unSize =
     (let d = to_double (unat unSize); nIndex = size_index d 4; cents = round_half_even (d * 100) (1024 ^ nIndex)
      in pad_left 6 (nat_string (cents div 100) @ ''.'' @ nat_string (cents mod 100 div 10) @ nat_string (cents mod 10))
           @ take 1 (drop nIndex ''bkMG''))"

section \<open>Columns\<close>

text \<open>The number of columns of the terminal, when it can be asked for.\<close>

record cli_env =
  ce_api :: api_env
  ce_ws_col :: "nat option"

abbreviation (input) ce_args :: "cli_env \<Rightarrow> trans_args" where "ce_args env \<equiv> te_args (ax_trans (ce_api env))"
abbreviation (input) ce_cmds :: "cli_env \<Rightarrow> string list" where "ce_cmds env \<equiv> ax_cmds (ce_api env)"

definition GetConsoleWidth :: "cli_env \<Rightarrow> nat" where
  "GetConsoleWidth env = (case ce_ws_col env of None \<Rightarrow> 80 | Some w \<Rightarrow> w)"

definition GetColumnWidths :: "cli_env \<Rightarrow> nat list \<Rightarrow> nat list" where
  "GetColumnWidths env pnColPercents = map (\<lambda>p. GetConsoleWidth env * p div 100) pnColPercents"

section \<open>The plan as text\<close>

text \<open>The lists that the resolver never fills.\<close>

record shown_info = solved_pkg_info +
  si_pPkgsNotAvailable :: "pkg_info list"
  si_pPkgsExisting :: "pkg_info list"
  si_pPkgsUnNeeded :: "pkg_info list"

definition shown_of :: "solved_pkg_info \<Rightarrow> shown_info" where
  "shown_of info = solved_pkg_info.extend info \<lparr>si_pPkgsNotAvailable = [], si_pPkgsExisting = [], si_pPkgsUnNeeded = []\<rparr>"

definition version_release :: "pkg_info \<Rightarrow> string option" where
  "version_release p = (case (pi_pszVersion p, pi_pszRelease p) of
     (Some v, Some r) \<Rightarrow> Some (v @ ''-'' @ r) | _ \<Rightarrow> None)"

fun PrintNotAvailable :: "trans_args \<Rightarrow> string list \<Rightarrow> (rpm_world, unit) prog" where
  "PrintNotAvailable args [] = returnP ()"
| "PrintNotAvailable args (s # ss) =
     bindP (pr_info args (''No package '' @ [CHR 0x1B] @ ''[1m'' @ [CHR 0x1B] @ ''[30m'' @ s @ '' '' @ [CHR 0x1B] @ ''[0mavailable'' @ [CHR 0x0A]))
       (\<lambda>_. PrintNotAvailable args ss)"

fun print_existing :: "trans_args \<Rightarrow> pkg_info list \<Rightarrow> (rpm_world, unit) prog" where
  "print_existing args [] = returnP ()"
| "print_existing args (p # ps) =
     bindP (pr_infoU args (map_option (\<lambda>evr. ''Package '' @ pi_pszName p @ ''-'' @ evr @ ''.'' @ pi_pszArch p
              @ '' is already installed, skipping.'' @ [CHR 0x0A]) (version_release p)))
       (\<lambda>_. print_existing args ps)"

definition PrintExistingPackagesSkipped :: "trans_args \<Rightarrow> pkg_info list \<Rightarrow> (rpm_world, unit) prog" where
  "PrintExistingPackagesSkipped args pPkgInfos =
     (if pPkgInfos = [] then errorP ERROR_TDNF_INVALID_PARAMETER else print_existing args pPkgInfos)"

fun print_missing :: "trans_args \<Rightarrow> pkg_info list \<Rightarrow> (rpm_world, unit) prog" where
  "print_missing args [] = returnP ()"
| "print_missing args (p # ps) =
     bindP (pr_info args (''No package '' @ pi_pszName p @ '' available.'' @ [CHR 0x0A])) (\<lambda>_. print_missing args ps)"

definition PrintNotAvailablePackages :: "trans_args \<Rightarrow> pkg_info list \<Rightarrow> (rpm_world, unit) prog" where
  "PrintNotAvailablePackages args pPkgInfos =
     (if pPkgInfos = [] then errorP ERROR_TDNF_INVALID_PARAMETER else print_missing args pPkgInfos)"

definition action_title :: "alter_type \<Rightarrow> string option" where
  "action_title nAlterType = map_of
     [(ALTER_INSTALL, ''Installing:''), (ALTER_UPGRADE, ''Upgrading:''), (ALTER_ERASE, ''Removing:''),
      (ALTER_DOWNGRADE, ''Downgrading:''), (ALTER_REINSTALL, ''Reinstalling:''), (ALTER_OBSOLETED, ''Obsoleting:'')] nAlterType"

text \<open>The version with its epoch, cut to the buffer of 256 bytes.\<close>

definition epoch_version :: "pkg_info \<Rightarrow> string option" where
  "epoch_version p = map_option (\<lambda>vr. take 255
     (if pi_dwEpoch p \<noteq> 0 then nat_string (unat (pi_dwEpoch p)) @ '':'' @ vr else vr)) (version_release p)"

text \<open>The sizes of a package are formatted when its data are collected; here it is done where they are printed.\<close>

definition info_row :: "nat list \<Rightarrow> pkg_info \<Rightarrow> string \<Rightarrow> string" where
  "info_row ws p evr =
     pad_right (ws ! 0) (pi_pszName p) @ '' '' @ pad_right (ws ! 1) (pi_pszArch p) @ '' '' @ pad_right (ws ! 2) evr @ '' ''
     @ pad_right (ws ! 3) (pi_pszRepoName p) @ '' '' @ pad_right (ws ! 4) (TDNFUtilsFormatSize (ucast (pi_dwInstallSizeBytes p)))
     @ '' '' @ pad_left (ws ! 5) (TDNFUtilsFormatSize (ucast (pi_dwDownloadSizeBytes p))) @ [CHR 0x0A]"

fun print_rows :: "trans_args \<Rightarrow> nat list \<Rightarrow> pkg_info list \<Rightarrow> (rpm_world, unit) prog" where
  "print_rows args ws [] = returnP ()"
| "print_rows args ws (p # ps) = (case epoch_version p of
     None \<Rightarrow> (\<lambda>w. None)
   | Some evr \<Rightarrow> bindP (pr_info args (info_row ws p evr)) (\<lambda>_. print_rows args ws ps))"

text \<open>The totals are kept in 32 bits and become 64 bits with their sign.\<close>

definition total_of :: "(pkg_info \<Rightarrow> 32 word) \<Rightarrow> pkg_info list \<Rightarrow> 32 word" where
  "total_of f ps = foldl (\<lambda>n p. n + f p) 0 ps"

definition PrintAction :: "cli_env \<Rightarrow> pkg_info list \<Rightarrow> alter_type \<Rightarrow> (rpm_world, unit) prog" where
  "PrintAction env pPkgInfos nAlterType =
     (let args = ce_args env in
      if pPkgInfos = [] then errorP ERROR_TDNF_INVALID_PARAMETER
      else case action_title nAlterType of
        None \<Rightarrow> errorP ERROR_TDNF_INVALID_PARAMETER
      | Some title \<Rightarrow>
          bindP (pr_info args (CHR 0x0A # title)) (\<lambda>_.
          bindP (pr_info args [CHR 0x0A]) (\<lambda>_.
          bindP (print_rows args (GetColumnWidths env [20, 15, 20, 15, 10, 10]) pPkgInfos) (\<lambda>_.
          bindP (pr_info args (CHR 0x0A # ''Total installed size: ''
            @ TDNFUtilsFormatSize (scast (total_of pi_dwInstallSizeBytes pPkgInfos)) @ [CHR 0x0A])) (\<lambda>_.
            pr_info args (''Total download size: ''
            @ TDNFUtilsFormatSize (scast (total_of pi_dwDownloadSizeBytes pPkgInfos)) @ [CHR 0x0A]))))))"

definition unless_empty :: "'b list \<Rightarrow> ('w, unit) prog \<Rightarrow> ('w, unit) prog" where
  "unless_empty l m = (if l = [] then returnP () else m)"

definition PrintSolvedInfo :: "cli_env \<Rightarrow> shown_info \<Rightarrow> (rpm_world, unit) prog" where
  "PrintSolvedInfo env info =
     (let args = ce_args env; action = (\<lambda>l t. unless_empty l (PrintAction env l t)) in
      bindP (unless_empty (si_pPkgsExisting info) (PrintExistingPackagesSkipped args (si_pPkgsExisting info))) (\<lambda>_.
      bindP (unless_empty (si_pPkgsNotAvailable info) (PrintNotAvailablePackages args (si_pPkgsNotAvailable info))) (\<lambda>_.
      bindP (action (pPkgsToInstall info) ALTER_INSTALL) (\<lambda>_.
      bindP (action (pPkgsToUpgrade info) ALTER_UPGRADE) (\<lambda>_.
      bindP (action (pPkgsToDowngrade info) ALTER_DOWNGRADE) (\<lambda>_.
      bindP (action (pPkgsToRemove info) ALTER_ERASE) (\<lambda>_.
      bindP (action (si_pPkgsUnNeeded info) ALTER_ERASE) (\<lambda>_.
      bindP (action (pPkgsToReinstall info) ALTER_REINSTALL) (\<lambda>_.
        action (pPkgsObsoleted info) ALTER_OBSOLETED)))))))))"

section \<open>The plan as JSON\<close>

definition jd_pkg :: "pkg_info \<Rightarrow> json_dump option" where
  "jd_pkg p = do {
     jd \<leftarrow> jd_map_start (jd_create 0);
     jd \<leftarrow> jd_map_add_string ''Name'' (Some (pi_pszName p)) jd;
     jd \<leftarrow> jd_map_add_string ''Arch'' (Some (pi_pszArch p)) jd;
     evr \<leftarrow> version_release p;
     jd \<leftarrow> jd_map_add_fmt ''Evr'' evr jd;
     jd \<leftarrow> jd_map_add_int ''InstallSize'' (pi_dwInstallSizeBytes p) jd;
     jd_map_add_string ''Repo'' (Some (pi_pszRepoName p)) jd
   }"

fun jd_pkgs :: "pkg_info list \<Rightarrow> json_dump \<Rightarrow> json_dump option" where
  "jd_pkgs [] jd_list = Some jd_list"
| "jd_pkgs (p # ps) jd_list = do {
     jd \<leftarrow> jd_pkg p;
     jd_list \<leftarrow> jd_list_add_child jd jd_list;
     jd_pkgs ps jd_list
   }"

definition JDPkgList :: "pkg_info list \<Rightarrow> json_dump option" where
  "JDPkgList pPkgInfos = do {
     jd_list \<leftarrow> jd_list_start (jd_create 0);
     jd_pkgs pPkgInfos jd_list
   }"

text \<open>
  The sections of the plan that are not empty. Behind the packages that exist already the map itself is destroyed instead of
  the list, and used afterwards.
\<close>

fun jd_sections :: "(string \<times> pkg_info list) list \<Rightarrow> json_dump \<Rightarrow> json_dump option" where
  "jd_sections [] jd = Some jd"
| "jd_sections ((key, l) # ss) jd =
     (if l = [] then jd_sections ss jd
      else do {
        jd_list \<leftarrow> JDPkgList l;
        jd \<leftarrow> jd_map_add_child key jd_list jd;
        if key = ''Exist'' then None else jd_sections ss jd
      })"

definition info_sections :: "shown_info \<Rightarrow> (string \<times> pkg_info list) list" where
  "info_sections info = [(''Exist'', si_pPkgsExisting info), (''Unavailable'', si_pPkgsNotAvailable info),
     (''Install'', pPkgsToInstall info), (''Upgrade'', pPkgsToUpgrade info), (''Downgrade'', pPkgsToDowngrade info),
     (''Remove'', pPkgsToRemove info), (''UnNeeded'', si_pPkgsUnNeeded info), (''Reinstall'', pPkgsToReinstall info),
     (''Obsolete'', pPkgsObsoleted info)]"

definition PrintSolvedInfoJson :: "shown_info \<Rightarrow> (rpm_world, unit) prog" where
  "PrintSolvedInfoJson info =
     (case Option.bind (jd_map_start (jd_create 1024)) (jd_sections (info_sections info)) of
        None \<Rightarrow> (\<lambda>w. None) | Some jd \<Rightarrow> pr_json (c_text (buf jd)))"

section \<open>Asking and altering\<close>

definition cli_silent :: "trans_args \<Rightarrow> bool" where
  "cli_silent args \<longleftrightarrow> ta_nQuiet args \<and> ta_nAssumeYes args"

definition TDNFCliAskForAction :: "cli_env \<Rightarrow> shown_info \<Rightarrow> (rpm_world, unit) prog" where
  "TDNFCliAskForAction env info =
     (let args = ce_args env; nSilent = cli_silent args in
      bindP (case ppszPkgsNotResolved info of
               Some l \<Rightarrow> if \<not> nSilent then PrintNotAvailable args l else returnP () | None \<Rightarrow> returnP ()) (\<lambda>_.
      if \<not> nNeedAction info
      then errorP (case ppszPkgsNotResolved info of Some (_ # _) \<Rightarrow> ERROR_TDNF_NO_MATCH | _ \<Rightarrow> ERROR_TDNF_CLI_NOTHING_TO_DO)
      else bindP (if nSilent then returnP ()
                  else bindP (catch_error (if ta_nJsonOutput args then PrintSolvedInfoJson info else PrintSolvedInfo env info)) (\<lambda>_.
                       if ta_nDownloadOnly args
                       then pr_info args (''tdnf will only download packages needed for the transaction'' @ [CHR 0x0A])
                       else returnP ())) (\<lambda>_.
           bindP (ask args) (\<lambda>nAnswer. if \<not> nAnswer then errorP ERROR_TDNF_OPERATION_ABORTED else returnP ()))))"

definition TDNFCliPrintActionComplete :: "trans_args \<Rightarrow> (rpm_world, unit) prog" where
  "TDNFCliPrintActionComplete args =
     (if cli_silent args then returnP ()
      else bindP (pr_info args ([CHR 0x0A] @ ''Complete!'' @ [CHR 0x0A])) (\<lambda>_.
           if \<not> ta_nDownloadOnly args then returnP ()
           else pr_info args (case ta_pszDownloadDir args of
                  Some d \<Rightarrow> ''Packages have been downloaded to '' @ d @ ''.'' @ [CHR 0x0A]
                | None \<Rightarrow> ''Packages have been downloaded to cache.'' @ [CHR 0x0A])))"

definition TDNFCliAskAndAlter :: "cli_env \<Rightarrow> solved_pkg_info \<Rightarrow> (rpm_world, unit) prog" where
  "TDNFCliAskAndAlter env info =
     (let args = ce_args env in
      bindP (catch_error
        (bindP (TDNFCliAskForAction env (shown_of info)) (\<lambda>_.
         bindP (TDNFAlterCommand (ax_trans (ce_api env)) info) (\<lambda>_.
           if ta_nJsonOutput args then TDNFCliPrintActionComplete args else returnP ())))) (\<lambda>r. case r of
        Inr _ \<Rightarrow> returnP ()
      | Inl e \<Rightarrow> if ta_nJsonOutput args \<and> e = ERROR_TDNF_OPERATION_ABORTED then returnP () else errorP e))"

definition nothing_to_do :: "('w, unit) prog \<Rightarrow> ('w, unit) prog" where
  "nothing_to_do m = bindP (catch_error m) (\<lambda>r. case r of
     Inr _ \<Rightarrow> returnP ()
   | Inl e \<Rightarrow> errorP (if e = ERROR_TDNF_ALREADY_INSTALLED then ERROR_TDNF_CLI_NOTHING_TO_DO else e))"

definition TDNFCliAlterCommand :: "cli_env \<Rightarrow> alter_type \<Rightarrow> (rpm_world, unit) prog" where
  "TDNFCliAlterCommand env nAlterType = nothing_to_do
     (bindP (liftR (TDNFCliParsePackageArgs (ce_cmds env))) (\<lambda>_.
      bindP (TDNFResolve (ce_api env) nAlterType) (TDNFCliAskAndAlter env)))"

section \<open>The commands\<close>

definition TDNFCliInstallCommand :: "cli_env \<Rightarrow> (rpm_world, unit) prog" where
  "TDNFCliInstallCommand env = TDNFCliAlterCommand env ALTER_INSTALL"

definition TDNFCliEraseCommand :: "cli_env \<Rightarrow> (rpm_world, unit) prog" where
  "TDNFCliEraseCommand env = TDNFCliAlterCommand env ALTER_ERASE"

definition TDNFCliUpgradeCommand :: "cli_env \<Rightarrow> (rpm_world, unit) prog" where
  "TDNFCliUpgradeCommand env = TDNFCliAlterCommand env (if length (ce_cmds env) = 1 then ALTER_UPGRADEALL else ALTER_UPGRADE)"

definition TDNFCliDistroSyncCommand :: "cli_env \<Rightarrow> (rpm_world, unit) prog" where
  "TDNFCliDistroSyncCommand env = TDNFCliAlterCommand env ALTER_DISTRO_SYNC"

definition TDNFCliDowngradeCommand :: "cli_env \<Rightarrow> (rpm_world, unit) prog" where
  "TDNFCliDowngradeCommand env =
     TDNFCliAlterCommand env (if length (ce_cmds env) = 1 then ALTER_DOWNGRADEALL else ALTER_DOWNGRADE)"

definition TDNFCliAutoEraseCommand :: "cli_env \<Rightarrow> (rpm_world, unit) prog" where
  "TDNFCliAutoEraseCommand env =
     TDNFCliAlterCommand env (if length (ce_cmds env) = 1 then ALTER_AUTOERASEALL else ALTER_AUTOERASE)"

definition TDNFCliReinstallCommand :: "cli_env \<Rightarrow> (rpm_world, unit) prog" where
  "TDNFCliReinstallCommand env = TDNFCliAlterCommand env ALTER_REINSTALL"

section \<open>Nothing changes without consent\<close>

text \<open>The transaction, the rpm database and the history handle.\<close>

definition rpm_part ::
    "rpm_world \<Rightarrow> rpmts \<times> rpm_view \<times> trans_event list \<times> string list \<times> 32 word \<times> 32 word \<times> history_ctx option" where
  "rpm_part w = (rw_ts w, rw_view w, rw_events w, rw_pCachedRpms w, rw_nTransFlags w, rw_nProbFilterFlags w, rw_ctx w)"

definition asked_part :: "rpm_world \<Rightarrow> (rpmts \<times> rpm_view \<times> trans_event list \<times> string list \<times> 32 word \<times> 32 word \<times> history_ctx option) \<times> string list" where
  "asked_part w = (rpm_part w, rw_stdin w)"

lemma leaves_resolve: "leaves asked_part (TDNFResolve env a)"
proof (rule leavesI)
  fix w r w' assume "TDNFResolve env a w = Some (r, w')"
  then have "rpm_side w' = rpm_side w" by (rule leavesD [OF resolve_leaves])
  then show "asked_part w' = asked_part w" by (simp add: rpm_side_def asked_part_def rpm_part_def)
qed

lemma leaves_info [simp]: "leaves asked_part (pr_info args s)" "leaves asked_part (pr_json s)" "leaves asked_part (pr_infoU args t)"
proof -
  show i: "leaves asked_part (pr_info args s)" for s
    by (simp add: pr_info_def leaves_out out_free_def asked_part_def rpm_part_def)
  show "leaves asked_part (pr_json s)" by (simp add: pr_json_def leaves_out out_free_def asked_part_def rpm_part_def)
  show "leaves asked_part (pr_infoU args t)" by (auto simp: pr_infoU_def i split: option.split)
qed

lemma leaves_lists [simp]:
  "leaves asked_part (PrintNotAvailable args l)" "leaves asked_part (print_existing args ps)"
  "leaves asked_part (print_missing args ps)" "leaves asked_part (print_rows args ws ps)"
proof -
  show "leaves asked_part (PrintNotAvailable args l)" by (induction l) auto
  show "leaves asked_part (print_existing args ps)" by (induction ps) auto
  show "leaves asked_part (print_missing args ps)" by (induction ps) auto
  show "leaves asked_part (print_rows args ws ps)" by (induction ps) (auto split: option.split)
qed

lemma leaves_unless_empty [intro!]: "leaves g m \<Longrightarrow> leaves g (unless_empty l m)"
  by (simp add: unless_empty_def)

lemma leaves_action [simp]: "leaves asked_part (PrintAction env l t)"
  by (auto simp: PrintAction_def Let_def split: option.split)

lemma leaves_print [simp]: "leaves asked_part (PrintSolvedInfo env info)" "leaves asked_part (PrintSolvedInfoJson info)"
  by (auto simp: PrintSolvedInfo_def PrintExistingPackagesSkipped_def PrintNotAvailablePackages_def PrintSolvedInfoJson_def Let_def
      split: option.split)

lemma leaves_complete [simp]: "leaves asked_part (TDNFCliPrintActionComplete args)"
  by (auto simp: TDNFCliPrintActionComplete_def)

lemma asked_parts: "asked_part w = asked_part v \<Longrightarrow> rpm_part w = rpm_part v \<and> rw_stdin w = rw_stdin v"
  by (simp add: asked_part_def)

lemma ask_part: "ask args w = Some (r, w') \<Longrightarrow> rpm_part w' = rpm_part w \<and> r = TDNFYesOrNo (ta_nAssumeYes args) (ta_nAssumeNo args) (rw_stdin w)"
  by (auto simp: ask_def rpm_part_def split: if_splits)

text \<open>Asking: the transaction is as it was, and the end without an error is a yes.\<close>

lemma ask_for_action:
  assumes "TDNFCliAskForAction env info w = Some (r, w')"
  shows "rpm_part w' = rpm_part w \<and> (r = Inr () \<longrightarrow> nNeedAction info
    \<and> TDNFYesOrNo (ta_nAssumeYes (ce_args env)) (ta_nAssumeNo (ce_args env)) (rw_stdin w) = Inr True)"
proof -
  let ?args = "ce_args env"
  define m1 :: "(rpm_world, unit) prog" where "m1 = (case ppszPkgsNotResolved info of
    Some l \<Rightarrow> if \<not> cli_silent ?args then PrintNotAvailable ?args l else returnP () | None \<Rightarrow> returnP ())"
  define m2 where "m2 = (if cli_silent ?args then returnP ()
                  else bindP (catch_error (if ta_nJsonOutput ?args then PrintSolvedInfoJson info else PrintSolvedInfo env info)) (\<lambda>_.
                       if ta_nDownloadOnly ?args
                       then pr_info ?args (''tdnf will only download packages needed for the transaction'' @ [CHR 0x0A])
                       else returnP ()))"
  define m3 :: "(rpm_world, unit) prog" where "m3 = bindP (ask ?args) (\<lambda>nAnswer. if \<not> nAnswer then errorP ERROR_TDNF_OPERATION_ABORTED else returnP ())"
  have l1: "leaves asked_part m1" by (auto simp: m1_def split: option.split)
  have l2: "leaves asked_part m2" by (auto simp: m2_def)
  from assms have "bindP m1 (\<lambda>_. if \<not> nNeedAction info
      then errorP (case ppszPkgsNotResolved info of Some (_ # _) \<Rightarrow> ERROR_TDNF_NO_MATCH | _ \<Rightarrow> ERROR_TDNF_CLI_NOTHING_TO_DO)
      else bindP m2 (\<lambda>_. m3)) w = Some (r, w')"
    unfolding TDNFCliAskForAction_def Let_def m1_def m2_def m3_def .
  then show ?thesis
  proof (cases rule: bindP_cases)
    case (fails e)
    then show ?thesis using asked_parts [OF leavesD [OF l1 fails(1)]] by simp
  next
    case (goes x v)
    note v = asked_parts [OF leavesD [OF l1 goes(1)]]
    have "rpm_part w' = rpm_part v \<and> (r = Inr () \<longrightarrow> nNeedAction info
        \<and> TDNFYesOrNo (ta_nAssumeYes ?args) (ta_nAssumeNo ?args) (rw_stdin v) = Inr True)"
    proof (cases "nNeedAction info")
      case True
      with goes(2) have "bindP m2 (\<lambda>_. m3) v = Some (r, w')" by simp
      then show ?thesis
      proof (cases rule: bindP_cases)
        case (fails e)
        then show ?thesis using asked_parts [OF leavesD [OF l2 fails(1)]] by simp
      next
        case (goes y u)
        note u = asked_parts [OF leavesD [OF l2 goes(1)]]
        from goes(2) [unfolded m3_def] show ?thesis
        proof (cases rule: bindP_cases)
          case (fails e)
          then show ?thesis using ask_part [OF fails(1)] u by simp
        next
          case (goes b t)
          then show ?thesis using ask_part [OF goes(1)] u True by (auto split: if_splits)
        qed
      qed
    next
      case False
      with goes(2) show ?thesis by auto
    qed
    then show ?thesis using v by simp
  qed
qed

lemma ask_and_alter:
  assumes "TDNFCliAskAndAlter env info w = Some (r, w')"
    and "TDNFYesOrNo (ta_nAssumeYes (ce_args env)) (ta_nAssumeNo (ce_args env)) (rw_stdin w) \<noteq> Inr True \<or> \<not> nNeedAction info"
  shows "rpm_part w' = rpm_part w"
proof -
  define m where "m = bindP (TDNFCliAskForAction env (shown_of info)) (\<lambda>_. bindP (TDNFAlterCommand (ax_trans (ce_api env)) info) (\<lambda>_.
           if ta_nJsonOutput (ce_args env) then TDNFCliPrintActionComplete (ce_args env) else returnP ()))"
  have need: "nNeedAction (shown_of info) = nNeedAction info" by (simp add: shown_of_def solved_pkg_info.defs)
  from assms(1) obtain r0 where "m w = Some (r0, w')"
    by (auto simp: TDNFCliAskAndAlter_def Let_def m_def [symmetric] bindP_def catch_error_def split: option.splits sum.splits if_splits)
  then show ?thesis unfolding m_def
  proof (cases rule: bindP_cases)
    case (fails e)
    then show ?thesis using ask_for_action by blast
  next
    case (goes x v)
    then show ?thesis using ask_for_action [OF goes(1)] assms(2) need by auto
  qed
qed

text \<open>C27: Nothing is changed without consent. Unless tdnf is told to assume yes, or the first answer on the terminal that is
  one says so, a command that changes packages leaves the rpm database, the log of runs, the transaction and the history handle as
  they were, however it ends and whatever the solver, the repositories and librpm answer.
\<close>

theorem AlterCommand_consent:
  assumes "TDNFCliAlterCommand env a w = Some (r, w')"
    and "TDNFYesOrNo (ta_nAssumeYes (ce_args env)) (ta_nAssumeNo (ce_args env)) (rw_stdin w) \<noteq> Inr True"
  shows "rpm_part w' = rpm_part w"
proof -
  define m where "m = bindP (liftR (TDNFCliParsePackageArgs (ce_cmds env))) (\<lambda>_. bindP (TDNFResolve (ce_api env) a) (TDNFCliAskAndAlter env))"
  from assms(1) obtain r0 where "m w = Some (r0, w')"
    by (auto simp: TDNFCliAlterCommand_def nothing_to_do_def m_def [symmetric] bindP_def catch_error_def split: option.splits sum.splits)
  then show ?thesis unfolding m_def
  proof (cases rule: bindP_cases)
    case (goes x v)
    then have v: "v = w" by simp
    from goes(2) show ?thesis
    proof (cases rule: bindP_cases)
      case (fails e)
      then show ?thesis using asked_parts [OF leavesD [OF leaves_resolve fails(1)]] v by simp
    next
      case (goes info u)
      then show ?thesis using asked_parts [OF leavesD [OF leaves_resolve goes(1)]] ask_and_alter [OF goes(2)] assms(2) v by simp
    qed
  qed simp
qed

definition file_cli :: cli_env where
  "file_cli = \<lparr>ce_api = file_env 5, ce_ws_col = None\<rparr>"

lemma file_cli_args [simp]:
  "ta_nQuiet (ce_args file_cli)" "\<not> ta_nJsonOutput (ce_args file_cli)" "\<not> ta_nAssumeYes (ce_args file_cli)"
  "\<not> ta_nAssumeNo (ce_args file_cli)" "\<not> ta_nDownloadOnly (ce_args file_cli)" "ce_api file_cli = file_env 5"
  by (simp_all add: file_cli_def file_env_def sample_trans_args_def)

theorem AlterCommand_consent_witness:
  "\<exists>r w'. TDNFCliAlterCommand file_cli ALTER_INSTALL sample_rpm_world = Some (r, w') \<and> r = Inl ERROR_TDNF_INVALID_INPUT
     \<and> nNeedAction file_plan \<and> rpm_part w' = rpm_part sample_rpm_world"
proof -
  have res: "TDNFResolve (ce_api file_cli) ALTER_INSTALL sample_rpm_world = Some (Inr file_plan, sample_rpm_world)"
    using file_resolve [of 5] by simp
  have yes: "TDNFYesOrNo (ta_nAssumeYes (ce_args file_cli)) (ta_nAssumeNo (ce_args file_cli)) (rw_stdin sample_rpm_world)
      = Inl ERROR_TDNF_INVALID_INPUT"
    using file_cli_args by (simp add: TDNFYesOrNo_def sample_rpm_world_def del: file_cli_args(6))
  have quiet: "pr_info (ce_args file_cli) s = returnP ()" for s using file_cli_args(1) by (simp add: pr_info_def)
  have silent: "\<not> cli_silent (ce_args file_cli)" using file_cli_args(3) by (simp add: cli_silent_def)
  have row: "epoch_version file_pkg = Some ''3-1''" by (simp add: epoch_version_def version_release_def file_pkg_def)
  have act: "PrintAction file_cli [file_pkg] ALTER_INSTALL = returnP ()"
    unfolding PrintAction_def Let_def quiet by (simp add: action_title_def row quiet del: file_cli_args(6)) (simp add: returnP_def [abs_def] bindP_def [abs_def])
  have plan: "PrintSolvedInfo file_cli (shown_of file_plan) = returnP ()"
    by (simp add: PrintSolvedInfo_def Let_def shown_of_def solved_pkg_info.defs file_plan_def unless_empty_def act)
      (simp add: returnP_def [abs_def])
  have need: "nNeedAction (shown_of file_plan)" "ppszPkgsNotResolved (shown_of file_plan) = Some []" "nNeedAction file_plan"
    by (simp_all add: shown_of_def solved_pkg_info.defs file_plan_def)
  obtain v where a: "ask (ce_args file_cli) sample_rpm_world = Some (Inl ERROR_TDNF_INVALID_INPUT, v)"
    using yes by (simp add: ask_def del: file_cli_args(6))
  have asks: "TDNFCliAskForAction file_cli (shown_of file_plan) sample_rpm_world = Some (Inl ERROR_TDNF_INVALID_INPUT, v)"
    using a file_cli_args(2,5) silent by (simp add: TDNFCliAskForAction_def Let_def need plan bindP_def catch_error_def del: file_cli_args(6))
  have alter: "TDNFCliAskAndAlter file_cli file_plan sample_rpm_world = Some (Inl ERROR_TDNF_INVALID_INPUT, v)"
    using file_cli_args(2) by (simp add: TDNFCliAskAndAlter_def Let_def bindP_def catch_error_def asks del: file_cli_args(6))
  have words: "TDNFCliParsePackageArgs (ce_cmds file_cli) = Inr [''/c/p'']"
    by (simp add: TDNFCliParsePackageArgs_def TDNFAllocateString_def TDNF_DEFAULT_MAX_STRING_LEN_def)
  have run: "TDNFCliAlterCommand file_cli ALTER_INSTALL sample_rpm_world = Some (Inl ERROR_TDNF_INVALID_INPUT, v)"
    unfolding TDNFCliAlterCommand_def nothing_to_do_def words by (simp add: bindP_def catch_error_def res alter del: file_cli_args(6))
  have "rpm_part v = rpm_part sample_rpm_world" by (rule AlterCommand_consent [OF run]) (simp only: yes, simp)
  then show ?thesis using run need(3) by blast
qed

section \<open>The printed JSON\<close>

definition pkg_json :: "pkg_info \<Rightarrow> json" where
  "pkg_json p = JMap [(''Name'', JStr (Some (pi_pszName p))), (''Arch'', JStr (Some (pi_pszArch p))),
     (''Evr'', JStr (version_release p)), (''InstallSize'', JInt (pi_dwInstallSizeBytes p)),
     (''Repo'', JStr (Some (pi_pszRepoName p)))]"

definition plan_json :: "shown_info \<Rightarrow> json" where
  "plan_json info = JMap (map (\<lambda>(key, l). (key, JList (map pkg_json l))) (filter (\<lambda>(key, l). l \<noteq> []) (info_sections info)))"

lemma jd_pkg_build:
  assumes "version_release p \<noteq> None"
  shows "build (pkg_json p) = map_option VChild (jd_pkg p)"
proof -
  obtain evr where "version_release p = Some evr" using assms by blast
  then show ?thesis
    by (simp add: pkg_json_def jd_pkg_def jmap.add_all_def jd_map_add_fmt_def map_conv_bind_option Option.bind_assoc comp_def)
qed

lemma fold_none: "fold (\<lambda>i r. Option.bind r (f i)) items None = None"
  by (induction items) auto

lemma add_all_cons:
  "jlist.add_all (v # vs) jd = Option.bind (list_add v jd) (jlist.add_all vs)"
  "jmap.add_all (kv # kvs) jd = Option.bind (map_add kv jd) (jmap.add_all kvs)"
  by (cases "list_add v jd"; simp add: jlist.add_all_def fold_none)
     (cases "map_add kv jd"; simp add: jmap.add_all_def fold_none)

definition known_versions :: "pkg_info list \<Rightarrow> bool" where
  "known_versions ps \<longleftrightarrow> list_all (\<lambda>p. version_release p \<noteq> None) ps"

lemma jd_pkgs_build:
  "known_versions ps \<Longrightarrow> those (map (\<lambda>p. build (pkg_json p)) ps) = Some vs \<Longrightarrow> jd_pkgs ps jd = jlist.add_all vs jd"
proof (induction ps arbitrary: vs jd)
  case Nil
  then show ?case by (simp add: jlist.add_all_def)
next
  case (Cons p ps)
  from Cons.prems(1) have k: "version_release p \<noteq> None" "known_versions ps" by (auto simp: known_versions_def)
  from Cons.prems(2) obtain v vs' where v: "build (pkg_json p) = Some v" "those (map (\<lambda>p. build (pkg_json p)) ps) = Some vs'" "vs = v # vs'"
    by (auto split: option.splits)
  obtain c where c: "jd_pkg p = Some c" "v = VChild c" using jd_pkg_build [OF k(1)] v(1) by (cases "jd_pkg p") auto
  have "jd_pkgs ps = jlist.add_all vs'" by (rule ext) (rule Cons.IH [OF k(2) v(2)])
  then show ?case by (simp add: c v(3) add_all_cons)
qed

lemma JDPkgList_text:
  assumes "known_versions ps" and "no_nul (JList (map pkg_json ps))" and "3 * length (render (JList (map pkg_json ps))) < 2 ^ 31"
  shows "\<exists>jd. JDPkgList ps = Some jd \<and> c_text (buf jd) = render (JList (map pkg_json ps))"
proof -
  obtain v where b: "build (JList (map pkg_json ps)) = Some v" and t: "val_text v = render (JList (map pkg_json ps))"
    using build_val [OF assms(2,3)] by blast
  from b obtain vs jd jd' where s: "those (map (\<lambda>p. build (pkg_json p)) ps) = Some vs" "jd_list_start (jd_create 0) = Some jd"
    "jlist.add_all vs jd = Some jd'" "v = VChild jd'" by (auto simp: comp_def split: bind_splits)
  then have "JDPkgList ps = Some jd'" using jd_pkgs_build [OF assms(1) s(1)] by (simp add: JDPkgList_def)
  then show ?thesis using t s(4) by simp
qed

definition section_items :: "(string \<times> pkg_info list) list \<Rightarrow> (string \<times> jval) list" where
  "section_items ss = map (\<lambda>(key, l). (key, VChild (the (JDPkgList l)))) (filter (\<lambda>(key, l). l \<noteq> []) ss)"

lemma jd_sections_add:
  assumes "list_all (\<lambda>(key, l). l = [] \<or> key \<noteq> ''Exist'' \<and> JDPkgList l \<noteq> None) ss"
  shows "jd_sections ss jd = jmap.add_all (section_items ss) jd"
  using assms
proof (induction ss arbitrary: jd)
  case Nil
  then show ?case by (simp add: section_items_def jmap.add_all_def)
next
  case (Cons s ss)
  obtain key l where s: "s = (key, l)" by (cases s)
  show ?case
  proof (cases "l = []")
    case True
    then show ?thesis using Cons by (simp add: s section_items_def)
  next
    case False
    then obtain c where "JDPkgList l = Some c" "key \<noteq> ''Exist''" using Cons.prems by (auto simp: s)
    then show ?thesis using Cons False by (simp add: s section_items_def add_all_cons)
  qed
qed

text \<open>The plan fits the writer: no NUL in its texts, every package with a version and a release, less than 700 million characters.\<close>

definition plan_fits :: "shown_info \<Rightarrow> bool" where
  "plan_fits info \<longleftrightarrow> list_all (\<lambda>(key, l). known_versions l) (info_sections info) \<and> no_nul (plan_json info)
     \<and> 3 * length (render (plan_json info)) < 2 ^ 31"

lemma section_text:
  assumes "plan_fits info" and "(key, l) \<in> set (info_sections info)" and "l \<noteq> []"
  shows "\<exists>jd. JDPkgList l = Some jd \<and> c_text (buf jd) = render (JList (map pkg_json l))"
proof (rule JDPkgList_text)
  let ?show = "\<lambda>kv. CHR 0x22 # fst kv @ [CHR 0x22] @ '':'' @ render (snd kv)"
  define kvs where "kvs = map (\<lambda>(key, l). (key, JList (map pkg_json l))) (filter (\<lambda>(key, l). l \<noteq> []) (info_sections info))"
  have m: "(key, JList (map pkg_json l)) \<in> set kvs" using assms(2,3) by (force simp: kvs_def)
  have plan: "plan_json info = JMap kvs" by (simp add: plan_json_def kvs_def)
  show "known_versions l" using assms(1,2) by (auto simp: plan_fits_def list_all_iff)
  show "no_nul (JList (map pkg_json l))" using assms(1) m unfolding plan_fits_def plan by (force simp: list_all_iff)
  have "length (?show (key, JList (map pkg_json l))) \<le> length (render (plan_json info))"
    unfolding plan render.simps using m by (intro ctext_member_length) force
  then show "3 * length (render (JList (map pkg_json l))) < 2 ^ 31" using assms(1) by (simp add: plan_fits_def)
qed



text \<open>With a package that exists already the map is used after it was destroyed.\<close>

lemma SolvedInfoJson_existing:
  assumes "si_pPkgsExisting info \<noteq> []"
  shows "PrintSolvedInfoJson info w = None"
proof -
  have "jd_sections (info_sections info) jd = None" for jd using assms by (simp add: info_sections_def split: Option.bind_split)
  then show ?thesis by (cases "jd_map_start (jd_create 1024)") (simp_all add: PrintSolvedInfoJson_def)
qed

text \<open>A total of 3 GiB does not fit the 32 bits of the sum: the printed size is 16 million without a unit.\<close>

lemma FormatSize_total:
  "TDNFUtilsFormatSize (3 * 2 ^ 30) = ''  3.00G''"
  "TDNFUtilsFormatSize (scast (3 * 2 ^ 30 :: 32 word)) = ''16777216.00''"
proof -
  have four: "size_index n 4 = size_index n (Suc (Suc (Suc (Suc 0))))" for n by (rule arg_cong [where f = "size_index n"]) simp
  have double: "to_double 3221225472 = 3221225472" "to_double 18446744072635809792 = 18446744072635809792"
    by (simp_all add: to_double_def bit_length.simps round_half_even_def)
  have index: "size_index 3221225472 4 = 3" "size_index 18446744072635809792 4 = 4" by (simp_all only: four) simp_all
  have cents: "round_half_even (3221225472 * 100) (1024 ^ 3) = 300"
    "round_half_even (18446744072635809792 * 100) (1024 ^ 4) = 1677721600" by (simp_all add: round_half_even_def)
  have bytes: "unat (3 * 2 ^ 30 :: 64 word) = 3221225472" "unat (scast (3 * 2 ^ 30 :: 32 word) :: 64 word) = 18446744072635809792"
    by simp_all
  have texts: "nat_string 3 = ''3''" "nat_string 0 = ''0''" "nat_string 16777216 = ''16777216''"
    by (simp_all add: nat_string.simps) code_simp+
  show "TDNFUtilsFormatSize (3 * 2 ^ 30) = ''  3.00G''"
    unfolding TDNFUtilsFormatSize_def Let_def bytes double index cents by (simp add: texts pad_left_def) (simp add: numeral_2_eq_2)
  show "TDNFUtilsFormatSize (scast (3 * 2 ^ 30 :: 32 word)) = ''16777216.00''"
    unfolding TDNFUtilsFormatSize_def Let_def bytes double index cents by (simp add: texts pad_left_def)
qed

end
