(* ===== verification/Spec2Isabelle.thy ===== *)
theory Spec2Isabelle
  imports Conf_Tool Conf_Vars Conf_Config Tdnf_Plugins Conf_Repos Tdnf_Effects Tdnf_Prelude Tdnf_Strings Tdnf_Paths Tdnf_Values Tdnf_Options Tdnf_Json Tdnf_Lock
    Hist_Db Hist_Play Hist_Log Hist_Flags Hist_Ctx Hist_Atomic Hist_Query Solv_Pool Solv_Find Goal_Jobs Goal_Solve Goal_Resolve Goal_History
    Repo_Files Repo_Download Repo_Metadata Rpm_Keys Rpm_Trans Rpm_History Rpm_Sample Repo_Tree Api_Clean Rpm_Tree Metalink_Parse Metalink_Plugin Api_Resolve Cli_Args Cli_Alter
begin

text \<open>
  A model of the core of tdnf, the package manager of Photon OS, translated from its C sources.

  \<^bold>\<open>The program.\<close> A run of tdnf takes the instance lock (\<^verbatim>\<open>common/lock.c\<close>), reads its configuration
  (\<^verbatim>\<open>client/config.c\<close>, over the INI parser of \<^verbatim>\<open>llconf\<close>), the variables (\<^verbatim>\<open>client/varsdir.c\<close>), the plugins
  (\<^verbatim>\<open>client/plugins.c\<close>) and the repositories (\<^verbatim>\<open>client/repolist.c\<close>). It refreshes the metadata of the enabled
  repositories into its cache (\<^verbatim>\<open>client/init.c\<close>, \<^verbatim>\<open>repo.c\<close>, \<^verbatim>\<open>remoterepo.c\<close>) and loads them into a pool of
  libsolv (\<^verbatim>\<open>solv/tdnfrepo.c\<close>). The words of the command become package ids (\<^verbatim>\<open>client/resolve.c\<close>) and these the
  jobs of a goal (\<^verbatim>\<open>client/goal.c\<close>), which the solver turns into lists of packages by what happens to them. An
  rpm transaction downloads, checks, tests and applies them (\<^verbatim>\<open>client/rpmtrans.c\<close>, \<^verbatim>\<open>gpgcheck.c\<close>), and the
  history database records what it did (\<^verbatim>\<open>history/history.c\<close>). Output goes through \<^verbatim>\<open>jsondump\<close> when it
  is asked for as JSON. \<^verbatim>\<open>tools/config/main.c\<close> is the separate tool that edits the configuration files.

  \<^bold>\<open>Conventions.\<close> A function that returns an error code is a function into \<open>'a result = errcode + 'a\<close>
  (\<open>Inl\<close> the code, \<open>Inr\<close> what it stores through its output parameters), with one branch for each bail-out of
  the source and in its order. Where the source can reach undefined behaviour that the model tracks (a read
  through NULL, an access outside of a buffer) the result is wrapped in an option and \<open>None\<close> is that
  behaviour. Functions that call out of the program take the state of the world
  outside and return it changed (\<open>prog\<close>, Tdnf_Effects). Integers that can wrap are words or are reduced
  explicitly; a \<open>char *\<close> that may be NULL is a \<open>string option\<close>; strings hold no NUL. The allocator succeeds,
  so ERROR_TDNF_OUT_OF_MEMORY does not occur, and releasing memory is not modelled.
  What is not in the repository is a parameter: \<^verbatim>\<open>realpath\<close>, \<^verbatim>\<open>fnmatch\<close>,
  \<^verbatim>\<open>glob\<close>, \<^verbatim>\<open>dlopen\<close> and the functions of plugins, the faults of SQLite, libsolv (a record of the pool's
  questions, Solv_Pool, and of its parsers, Repo_Metadata), the transfers of libcurl, librpm and OpenSSL.

  \<^bold>\<open>Shared theories.\<close> Tdnf_Prelude holds error codes, results and lemmas on lists. Tdnf_Effects sequences
  steps with effects, with the rules for being defined and, as \<open>leaves\<close> and \<open>stays\<close>, for what a step does to
  the world whatever its end and for an invariant that it keeps.

  \<^bold>\<open>History (\<^verbatim>\<open>history/history.c\<close>).\<close> Hist_Db is the database: a record of four tables, a connection with an
  open transaction to roll back to and a list of faults, one entry per coming SQLite call, so that every
  pattern of failures is a list. Hist_Play replays: the merge of sorted arrays, the map of installed ids,
  baselines and deltas, and the refinement of a log of sets. Hist_Log states the contract of an append-only
  log as a locale and interprets it on the tables. Hist_Flags does the same for the auto-installed flags with
  the locale of a versioned key-value store. Hist_Ctx composes them into the operations on a context
  (\<open>history_sync\<close>, \<open>history_update_state\<close>, the deltas for rollback and undo); Hist_Query holds the
  listing. Hist_Atomic proves what remains after failing calls: the old log or the complete new one, except
  that a failing COMMIT goes unnoticed.

  \<^bold>\<open>Configuration.\<close> Conf_Nodes (\<^verbatim>\<open>llconf/nodes.c\<close>, the scanners of \<^verbatim>\<open>strutils.c\<close>), Conf_Ini (\<^verbatim>\<open>lines.c\<close>,
  \<^verbatim>\<open>ini.c\<close>) and Conf_Roundtrip (every tree that can be written is read back, nested sections included).
  Conf_Tool is the tool, over a map of files. Conf_Vars holds the variables; the 256-byte buffers of
  \<open>replace_vars\<close> are in the model. Conf_Config is TDNFReadConfig: the if-chains over keys are tables
  (\<open>table_step\<close>), and the locale \<open>setting\<close>, interpreted for the main and
  plugin settings, gives "the last value wins" for each. Conf_Repos is the list of repositories with plugin
  events, command line overrides, variables and cache names, over Tdnf_Plugins.

  \<^bold>\<open>Packages and goals.\<close> Solv_Pool is what libsolv answers about a pool, with the attributes of packages, versions
  and the splitting of names (\<^verbatim>\<open>solv/tdnfpackage.c\<close>, \<^verbatim>\<open>tdnfpool.c\<close>); Solv_Find the queries, filters and reports of
  problems (\<^verbatim>\<open>solv/tdnfquery.c\<close>). Goal_Jobs holds the jobs of a goal, the locks, the protected packages and the
  install-only limit, Goal_Solve the loop around the solver and the results by type (\<^verbatim>\<open>client/goal.c\<close>,
  \<^verbatim>\<open>client.c\<close>), Goal_Resolve the way from words to package ids (\<^verbatim>\<open>client/resolve.c\<close>, \<^verbatim>\<open>packageutils.c\<close>,
  \<^verbatim>\<open>updateinfo.c\<close>), and Goal_History undo, redo and rollback (TDNFHistoryResolve of \<^verbatim>\<open>client/api.c\<close>), refined from
  the tables of the history to the jobs of the goal.

  \<^bold>\<open>Repositories.\<close> Repo_Files is a file system of nodes with the calls that the client makes, each of which may
  be denied, and the cache directories (\<^verbatim>\<open>client/repoutils.c\<close>, \<^verbatim>\<open>common/utils.c\<close>). Repo_Download is
  \<^verbatim>\<open>client/remoterepo.c\<close>: options, retries, mirrors and packages, over a network that answers each request.
  Repo_Metadata is the refresh: repomd files and their cookies, their parts, the cache of libsolv
  (\<^verbatim>\<open>client/repo.c\<close>, \<^verbatim>\<open>init.c\<close>, \<^verbatim>\<open>solv/tdnfrepo.c\<close>). Repo_Tree shows that above every file there are
  directories, Api_Clean is \<^verbatim>\<open>tdnf clean\<close> with exactly what it removes.

  \<^bold>\<open>Transactions.\<close> Rpm_Keys is \<^verbatim>\<open>client/gpgcheck.c\<close>: keys, the keyring, and the check of a package. Rpm_Trans is
  \<^verbatim>\<open>client/rpmtrans.c\<close> with the state of librpm (the elements of the transaction, the rpm database, a log of the
  runs); Rpm_History follows a command to the history database, Rpm_Sample has the concrete runs, and
  Rpm_Tree the invariant of the file system for all commands. Api_Resolve is TDNFResolve of \<^verbatim>\<open>client/api.c\<close> over the
  same world: package files on the command line, the refresh, the words, the goal and the room in the cache, in the order
  of the code.

  \<^bold>\<open>Metalinks.\<close> Metalink_Parse is the list of mirrors with its merge sort, the state machine over the elements of a
  metalink and the choice of the best hash (\<^verbatim>\<open>plugins/metalink/list.c\<close>, \<^verbatim>\<open>utils.c\<close>), with expat as a parameter;
  Metalink_Plugin the plugin with its events (\<^verbatim>\<open>metalink.c\<close>, \<^verbatim>\<open>api.c\<close>).

  \<^bold>\<open>The command line.\<close> Cli_Args is the table of options and their parsing with the arguments of every command
  (\<^verbatim>\<open>tools/cli/lib/parse*.c\<close>, \<^verbatim>\<open>options.c\<close>). What \<^verbatim>\<open>getopt_long_only\<close> reports is a parameter: a list of reports and
  the words that are left. A command line that is accepted is consistent and hands every option on, in order.
  Cli_Alter is install, erase, upgrade and the other commands that change packages (\<^verbatim>\<open>installcmd.c\<close>, \<^verbatim>\<open>output.c\<close>):
  the plan is printed as text or JSON, the user is asked, the transaction runs; without consent nothing is changed.

  \<^bold>\<open>Helpers.\<close> Tdnf_Strings (\<^verbatim>\<open>common/strings.c\<close>, \<^verbatim>\<open>memory.c\<close>), Tdnf_Paths (URIs, joining and normalising of
  paths in \<^verbatim>\<open>common/utils.c\<close> and \<^verbatim>\<open>client/utils.c\<close>), Tdnf_Values (numbers, truth values, digests, expiry times),
  Tdnf_Options (\<^verbatim>\<open>common/setopt.c\<close>, \<^verbatim>\<open>client/eventdata.c\<close>, event words of plugins), Tdnf_Json
  (\<^verbatim>\<open>jsondump/jsondump.c\<close>: the growing buffer, refined to the text of a tree), Tdnf_Lock (the lock file as an
  object and, as an inductive step relation, any number of processes that use it).

  \<^bold>\<open>Termination and bounds.\<close> The loops of \<open>TDNFReplaceString\<close> and of the import of keys (\<open>import_loop\<close>) need
  not end; they are \<open>partial_function (option)\<close>s with an exact characterisation of when they do. The nested
  sections of INI files and the scanners are \<open>function\<close>s with measures. The only fuel is the depth of
  \<open>read_rpms\<close>, which walks a directory: it is given the length of the longest path of the tree, which no chain
  of directories exceeds. The buffer of jsondump wraps at 32 bits.

  \<^bold>\<open>Not modelled.\<close> The repogpgcheck plugin and the Python bindings consist of calls into gpgme and CPython.
  Of the front end under \<^verbatim>\<open>tools/cli\<close> the dispatch of commands, the help text and the output of queries are left out.
  Symbolic links, the permissions of single users, the text of progress lines and change logs are not modelled.
  \<^verbatim>\<open>llconf/entry.c\<close> and the registry of \<^verbatim>\<open>modules.c\<close> are not called with anything but INI by tdnf.
\<close>

end
